(* ===== verification/Prelude.thy ===== *)
theory Prelude
  imports Main "HOL-Library.Word"
begin

unbundle bit_operations_syntax

text \<open>
  What every component of the development shares: the machine words of the C sources, byte
  buffers with little-endian loads and stores, the error codes as a datatype, the sequencing of
  fallible state-passing steps (the C idiom \<open>err = f(); if (err) goto out;\<close>), and the rules
  about them.  The lemma collections are \<open>act_simps\<close> (unfolding the sequencing of steps),
  \<open>keep\<close> (preservation rules for steps) and \<open>layout_simps\<close> (sizes and field offsets of
  packed structures).
\<close>

named_theorems act_simps "unfolding of step sequencing"
named_theorems keep "preservation rules for fallible steps"
named_theorems layout_simps "sizes and offsets of packed structures"

section \<open>Machine words and byte buffers\<close>

type_synonym u8 = "8 word"
type_synonym u16 = "16 word"
type_synonym u32 = "32 word"
type_synonym u64 = "64 word"
type_synonym bytes = "u8 list"

text \<open>The bytes of a word, least significant first, and the word read back from bytes.\<close>

definition le_bytes :: "nat \<Rightarrow> 'a::len word \<Rightarrow> bytes" where
  "le_bytes n w = map (\<lambda>i. ucast (drop_bit (8 * i) w)) [0..<n]"

fun le_word :: "bytes \<Rightarrow> 'a::len word" where
  "le_word [] = 0"
| "le_word (b # bs) = ucast b OR push_bit 8 (le_word bs)"

definition le16 :: "u16 \<Rightarrow> bytes" where "le16 w = le_bytes 2 w"
definition le32 :: "u32 \<Rightarrow> bytes" where "le32 w = le_bytes 4 w"
definition le64 :: "u64 \<Rightarrow> bytes" where "le64 w = le_bytes 8 w"

definition get_bytes :: "bytes \<Rightarrow> nat \<Rightarrow> nat \<Rightarrow> bytes" where
  "get_bytes buf off n = take n (drop off buf)"

definition get16 :: "bytes \<Rightarrow> nat \<Rightarrow> u16" where "get16 buf off = le_word (get_bytes buf off 2)"
definition get32 :: "bytes \<Rightarrow> nat \<Rightarrow> u32" where "get32 buf off = le_word (get_bytes buf off 4)"
definition get64 :: "bytes \<Rightarrow> nat \<Rightarrow> u64" where "get64 buf off = le_word (get_bytes buf off 8)"

text \<open>\<open>memcpy(buf + off, src, len(src))\<close>.\<close>

definition put_bytes :: "nat \<Rightarrow> bytes \<Rightarrow> bytes \<Rightarrow> bytes" where
  "put_bytes off src buf = take off buf @ src @ drop (off + length src) buf"

lemma length_le_bytes [simp]: "length (le_bytes n w) = n"
  by (simp add: le_bytes_def)

lemma length_le [simp, layout_simps]:
  "length (le16 a) = 2" "length (le32 b) = 4" "length (le64 c) = 8"
  by (simp_all add: le16_def le32_def le64_def)

lemma bit_le_word:
  "bit (le_word bs :: 'a::len word) n \<longleftrightarrow>
     n < LENGTH('a) \<and> n div 8 < length bs \<and> bit (bs ! (n div 8)) (n mod 8)"
proof (induction bs arbitrary: n)
  case Nil
  then show ?case by simp
next
  case (Cons b bs)
  show ?case
  proof (cases "n < 8")
    case True
    then show ?thesis
      by (auto simp: bit_or_iff bit_push_bit_iff bit_unsigned_iff)
  next
    case False
    then have n: "n div 8 = Suc ((n - 8) div 8)" "n mod 8 = (n - 8) mod 8"
      by (simp_all add: le_div_geq le_mod_geq)
    from False have "\<not> bit b n" by (auto dest: bit_imp_le_length)
    with False show ?thesis
      by (auto simp: bit_or_iff bit_push_bit_iff bit_unsigned_iff Cons.IH n)
  qed
qed

lemma le_word_le_bytes:
  "LENGTH('a) \<le> 8 * n \<Longrightarrow> le_word (le_bytes n (w :: 'a::len word)) = w"
proof (rule bit_word_eqI)
  fix k assume "LENGTH('a) \<le> 8 * n" and k: "k < LENGTH('a)"
  then have "k div 8 < n" by linarith
  then show "bit (le_word (le_bytes n w) :: 'a word) k \<longleftrightarrow> bit w k"
    using k by (simp add: bit_le_word le_bytes_def bit_unsigned_iff bit_drop_bit_eq)
qed

lemma le_bytes_le_word:
  assumes "length bs = n" and "8 * n \<le> LENGTH('a::len)"
  shows "le_bytes n (le_word bs :: 'a word) = bs"
proof (rule nth_equalityI)
  fix i assume "i < length (le_bytes n (le_word bs :: 'a word))"
  then have i: "i < n" by simp
  show "le_bytes n (le_word bs :: 'a word) ! i = bs ! i"
  proof (rule bit_word_eqI)
    fix k assume "k < LENGTH(8)"
    then have k: "k < 8" by simp
    then have "8 * i + k < 8 * n" using i by linarith
    then have "8 * i + k < LENGTH('a)" using assms(2) by linarith
    moreover have "(8 * i + k) div 8 = i" "(8 * i + k) mod 8 = k" using k by simp_all
    ultimately show "bit (le_bytes n (le_word bs :: 'a word) ! i) k \<longleftrightarrow> bit (bs ! i) k"
      using i k assms(1) by (simp add: le_bytes_def bit_unsigned_iff bit_drop_bit_eq bit_le_word)
  qed
qed (simp add: assms)

lemma le_word_le [simp]:
  "le_word (le16 a) = a" "le_word (le32 b) = b" "le_word (le64 c) = c"
  by (simp_all add: le16_def le32_def le64_def le_word_le_bytes)

text \<open>Reading a field of a packed structure: skip the fields before it.\<close>

lemma get_bytes_skip [layout_simps]:
  "length xs \<le> off \<Longrightarrow> get_bytes (xs @ ys) off n = get_bytes ys (off - length xs) n"
  by (simp add: get_bytes_def)

lemma get_bytes_hit [layout_simps]:
  "length xs = n \<Longrightarrow> get_bytes (xs @ ys) 0 n = xs"
  by (simp add: get_bytes_def)

lemma get_bytes_hit_last [layout_simps]:
  "length xs = n \<Longrightarrow> get_bytes xs 0 n = xs"
  by (simp add: get_bytes_def)

lemma get_skip [layout_simps]:
  "length xs \<le> off \<Longrightarrow> get16 (xs @ ys) off = get16 ys (off - length xs)"
  "length xs \<le> off \<Longrightarrow> get32 (xs @ ys) off = get32 ys (off - length xs)"
  "length xs \<le> off \<Longrightarrow> get64 (xs @ ys) off = get64 ys (off - length xs)"
  by (simp_all add: get16_def get32_def get64_def get_bytes_skip)

lemma get_hit [layout_simps]:
  "get16 (le16 a @ ys) 0 = a" "get32 (le32 b @ ys) 0 = b" "get64 (le64 c @ ys) 0 = c"
  by (simp_all add: get16_def get32_def get64_def get_bytes_hit)

lemma get_hit_last [layout_simps]:
  "get16 (le16 a) 0 = a" "get32 (le32 b) 0 = b" "get64 (le64 c) 0 = c"
  by (simp_all add: get16_def get32_def get64_def get_bytes_hit_last)

text \<open>An array of 64-bit numbers.\<close>

lemma length_concat_le64 [simp, layout_simps]: "length (concat (map le64 xs)) = 8 * length xs"
  by (induction xs) simp_all

lemma get64_array: "i < length xs \<Longrightarrow> get64 (concat (map le64 xs)) (8 * i) = xs ! i"
proof (induction xs arbitrary: i)
  case (Cons x xs)
  then show ?case by (cases i) (simp_all add: layout_simps)
qed simp

lemma length_put_bytes [simp]:
  "off + length src \<le> length buf \<Longrightarrow> length (put_bytes off src buf) = length buf"
  by (simp add: put_bytes_def)

lemma nth_put_bytes:
  "off + length src \<le> length buf \<Longrightarrow> i < length buf \<Longrightarrow>
   put_bytes off src buf ! i =
     (if off \<le> i \<and> i < off + length src then src ! (i - off) else buf ! i)"
  by (auto simp: put_bytes_def nth_append)

lemma get_put_bytes [simp]:
  "off + length src \<le> length buf \<Longrightarrow> n = length src \<Longrightarrow>
   get_bytes (put_bytes off src buf) off n = src"
  by (simp add: get_bytes_def put_bytes_def)

lemma get_put_bytes_disjoint:
  "off + length src \<le> length buf \<Longrightarrow> o' + n \<le> off \<or> off + length src \<le> o' \<Longrightarrow>
   o' + n \<le> length buf \<Longrightarrow> get_bytes (put_bytes off src buf) o' n = get_bytes buf o' n"
  by (rule nth_equalityI) (auto simp: get_bytes_def nth_put_bytes)

lemma put_bytes_overwrite [simp]:
  "length src = length src' \<Longrightarrow> off + length src \<le> length buf \<Longrightarrow>
   put_bytes off src (put_bytes off src' buf) = put_bytes off src buf"
  by (simp add: put_bytes_def)

lemma put_get_bytes_same:
  "off + n \<le> length buf \<Longrightarrow> put_bytes off (get_bytes buf off n) buf = buf"
  by (rule nth_equalityI) (auto simp: nth_put_bytes get_bytes_def)

lemma le_word_zeros: "le_word (replicate n 0) = 0"
  by (induction n) simp_all

text \<open>Fields of a cleared buffer.\<close>

lemma get_zeros:
  "off + 2 \<le> n \<Longrightarrow> get16 (replicate n 0) off = 0" "off + 4 \<le> n \<Longrightarrow> get32 (replicate n 0) off = 0"
  "off + 8 \<le> n \<Longrightarrow> get64 (replicate n 0) off = 0"
  by (simp_all add: get16_def get32_def get64_def get_bytes_def le_word_zeros)

lemmas get32_zeros = get_zeros(2)

section \<open>Blocks\<close>

definition BLOCK_SIZE :: nat where "BLOCK_SIZE = 4096"

definition zero_block :: bytes where "zero_block = replicate BLOCK_SIZE 0"

text \<open>A structure at the start of a block that \<open>memset\<close> cleared first.\<close>

definition pad_block :: "bytes \<Rightarrow> bytes" where
  "pad_block bs = bs @ replicate (BLOCK_SIZE - length bs) 0"

lemma length_zero_block [simp]: "length zero_block = BLOCK_SIZE"
  by (simp add: zero_block_def)

lemma length_pad_block: "length bs \<le> BLOCK_SIZE \<Longrightarrow> length (pad_block bs) = BLOCK_SIZE"
  by (simp add: pad_block_def)

lemma nth_pad_block: "i < length bs \<Longrightarrow> pad_block bs ! i = bs ! i"
  by (simp add: pad_block_def nth_append)


section \<open>FNV-1a\<close>

text \<open>One round of the hash that every checksum and key derivation of the code uses.\<close>

definition fnv_step :: "u8 \<Rightarrow> u32 \<Rightarrow> u32" where
  "fnv_step b h = (h XOR ucast b) * 16777619"

definition FNV_OFFSET :: u32 where "FNV_OFFSET = 2166136261"

text \<open>The loops over a buffer: all of it, or all of it but one field.\<close>

definition fnv_loop :: "bytes \<Rightarrow> nat \<Rightarrow> u32 \<Rightarrow> u32" where
  "fnv_loop buf len seed = fold (\<lambda>i h. fnv_step (buf ! i) h) [0..<len] seed"

definition fnv_loop_skip :: "bytes \<Rightarrow> nat \<Rightarrow> nat \<Rightarrow> nat \<Rightarrow> u32 \<Rightarrow> u32" where
  "fnv_loop_skip buf len skip_offset skip_len seed =
     fold (\<lambda>i h. if skip_offset \<le> i \<and> i < skip_offset + skip_len then h
                 else fnv_step (buf ! i) h) [0..<len] seed"

lemma fnv_loop_skip_cong:
  assumes "\<And>i. i < len \<Longrightarrow> \<not> (off \<le> i \<and> i < off + n) \<Longrightarrow> b ! i = b' ! i"
  shows "fnv_loop_skip b len off n seed = fnv_loop_skip b' len off n seed"
  unfolding fnv_loop_skip_def by (rule fold_cong) (auto intro!: ext simp: assms)

lemma fnv_loop_skip_none: "fnv_loop_skip b len off 0 seed = fnv_loop b len seed"
  unfolding fnv_loop_skip_def fnv_loop_def by (rule fold_cong) (auto intro!: ext)

text \<open>The round is a bijection of the running hash: two buffers that differ in one byte only
  never have the same hash, because the FNV prime is odd and so invertible modulo \<open>2 ^ 32\<close>.\<close>

lemma fnv_prime_inv: "(16777619 :: u32) * 899433627 = 1"
  by simp

lemma fnv_step_inject [simp]: "fnv_step b h = fnv_step b h' \<longleftrightarrow> h = h'"
proof
  assume "fnv_step b h = fnv_step b h'"
  then have "(h XOR ucast b) * 16777619 * 899433627 = (h' XOR ucast b) * 16777619 * 899433627"
    by (simp add: fnv_step_def)
  then have "h XOR ucast b = h' XOR ucast b"
    by (simp only: mult.assoc fnv_prime_inv mult_1_right)
  then have "(h XOR ucast b) XOR ucast b = (h' XOR ucast b) XOR ucast b" by simp
  then show "h = h'" by (simp add: xor.assoc)
qed simp

lemma fnv_step_byte: "fnv_step b h = fnv_step b' h \<Longrightarrow> b = b'"
proof -
  assume "fnv_step b h = fnv_step b' h"
  then have "(h XOR ucast b) * 16777619 * 899433627 = (h XOR ucast b') * 16777619 * 899433627"
    by (simp add: fnv_step_def)
  then have "h XOR ucast b = h XOR ucast b'"
    by (simp only: mult.assoc fnv_prime_inv mult_1_right)
  then have "h XOR (h XOR ucast b) = h XOR (h XOR (ucast b' :: u32))" by simp
  then have eq: "(ucast b :: u32) = ucast b'" by (simp add: xor.assoc [symmetric])
  have "uint (ucast b :: u32) = uint (ucast b' :: u32)" using eq by simp
  then have "uint b = uint b'" by (simp add: uint_up_ucast is_up)
  then show "b = b'" by (simp only: word_uint_eq_iff)
qed

section \<open>Errors and fallible steps\<close>

datatype errno = EIO | EINVAL | ENOMEM | ENOSPC | EUCLEAN | EOPNOTSUPP | EACCES | ENOENT | EEXIST |
  ENAMETOOLONG | ENOTEMPTY | EFBIG | ENODATA | ERANGE | EBUSY | EISDIR | ENOTDIR | EPERM

type_synonym 'a res = "errno + 'a"
type_synonym ('s, 'a) act = "'s \<Rightarrow> 'a res \<times> 's"

definition retE :: "'a \<Rightarrow> ('s, 'a) act" where "retE x = (\<lambda>s. (Inr x, s))"
definition failE :: "errno \<Rightarrow> ('s, 'a) act" where "failE e = (\<lambda>s. (Inl e, s))"
definition getE :: "('s \<Rightarrow> 'a) \<Rightarrow> ('s, 'a) act" where "getE f = (\<lambda>s. (Inr (f s), s))"
definition modE :: "('s \<Rightarrow> 's) \<Rightarrow> ('s, unit) act" where "modE f = (\<lambda>s. (Inr (), f s))"

text \<open>\<open>if (!c) return -e;\<close>\<close>

definition checkE :: "('s \<Rightarrow> bool) \<Rightarrow> errno \<Rightarrow> ('s, unit) act" where
  "checkE c e = (\<lambda>s. if c s then (Inr (), s) else (Inl e, s))"

definition bindE :: "('s, 'a) act \<Rightarrow> ('a \<Rightarrow> ('s, 'b) act) \<Rightarrow> ('s, 'b) act" where
  "bindE m k = (\<lambda>s. case m s of (Inl e, s') \<Rightarrow> (Inl e, s') | (Inr x, s') \<Rightarrow> k x s')"

text \<open>Straight-line code: each step runs if the ones before it succeeded.\<close>

fun runE :: "('s, unit) act list \<Rightarrow> ('s, unit) act" where
  "runE [] = retE ()"
| "runE (m # ms) = bindE m (\<lambda>_. runE ms)"

text \<open>A \<open>for\<close> loop that leaves at the first error.\<close>

fun eachE :: "('x \<Rightarrow> ('s, unit) act) \<Rightarrow> 'x list \<Rightarrow> ('s, unit) act" where
  "eachE f [] = retE ()"
| "eachE f (x # xs) = bindE (f x) (\<lambda>_. eachE f xs)"

text \<open>A call whose result is ignored, and the clean-up code of an error label.\<close>

definition ignoreE :: "('s, 'a) act \<Rightarrow> 's \<Rightarrow> 's" where "ignoreE m s = snd (m s)"

definition on_errE :: "('s, 'a) act \<Rightarrow> (errno \<Rightarrow> 's \<Rightarrow> 's) \<Rightarrow> ('s, 'a) act" where
  "on_errE m h = (\<lambda>s. case m s of (Inl e, s') \<Rightarrow> (Inl e, h e s') | (Inr x, s') \<Rightarrow> (Inr x, s'))"

text \<open>Code that runs on both paths (\<open>out:\<close> labels, unlocking).\<close>

definition finallyE :: "('s, 'a) act \<Rightarrow> ('s \<Rightarrow> 's) \<Rightarrow> ('s, 'a) act" where
  "finallyE m h = (\<lambda>s. case m s of (r, s') \<Rightarrow> (r, h s'))"

definition whenE :: "('s \<Rightarrow> bool) \<Rightarrow> ('s, unit) act \<Rightarrow> ('s, unit) act" where
  "whenE c m = (\<lambda>s. if c s then m s else (Inr (), s))"

lemmas step_defs [act_simps] =
  retE_def failE_def getE_def modE_def checkE_def whenE_def ignoreE_def

lemma bindE_eq_Inr:
  "bindE m k s = (Inr y, s'') \<longleftrightarrow> (\<exists>x s'. m s = (Inr x, s') \<and> k x s' = (Inr y, s''))"
  by (auto simp: bindE_def split: prod.splits sum.splits)

lemma bindE_Inr [act_simps]: "m s = (Inr x, s') \<Longrightarrow> bindE m k s = k x s'"
  by (simp add: bindE_def)

lemma bindE_Inl [act_simps]: "m s = (Inl e, s') \<Longrightarrow> bindE m k s = (Inl e, s')"
  by (simp add: bindE_def)

lemma eachE_append: "eachE f (xs @ ys) = bindE (eachE f xs) (\<lambda>_. eachE f ys)"
  by (induction xs) (auto simp: fun_eq_iff bindE_def retE_def split: prod.splits sum.splits)

subsection \<open>Preservation: what a step keeps on success and on failure\<close>

definition keeps :: "('s \<Rightarrow> bool) \<Rightarrow> ('s, 'a) act \<Rightarrow> bool" where
  "keeps I m \<longleftrightarrow> (\<forall>s. I s \<longrightarrow> I (snd (m s)))"

lemma keepsD: "keeps I m \<Longrightarrow> I s \<Longrightarrow> I (snd (m s))"
  by (simp add: keeps_def)

lemma keeps_basic [keep]:
  "keeps I (retE x)" "keeps I (failE e)" "keeps I (getE f)" "keeps I (checkE c e)"
  by (simp_all add: keeps_def step_defs)

lemma keeps_modE [keep]: "(\<And>s. I s \<Longrightarrow> I (f s)) \<Longrightarrow> keeps I (modE f)"
  by (simp add: keeps_def modE_def)

lemma keeps_bindE [keep]: "keeps I m \<Longrightarrow> (\<And>x. keeps I (k x)) \<Longrightarrow> keeps I (bindE m k)"
  by (fastforce simp: keeps_def bindE_def split: prod.splits sum.splits)

lemma keeps_runE [keep]: "(\<And>m. m \<in> set ms \<Longrightarrow> keeps I m) \<Longrightarrow> keeps I (runE ms)"
  by (induction ms) (auto intro: keep)

lemma keeps_eachE [keep]: "(\<And>x. x \<in> set xs \<Longrightarrow> keeps I (f x)) \<Longrightarrow> keeps I (eachE f xs)"
  by (induction xs) (auto intro: keep)

lemma keeps_whenE [keep]: "keeps I m \<Longrightarrow> keeps I (whenE c m)"
  by (simp add: keeps_def whenE_def)

lemma keeps_on_errE [keep]:
  "keeps I m \<Longrightarrow> (\<And>e s. I s \<Longrightarrow> I (h e s)) \<Longrightarrow> keeps I (on_errE m h)"
  by (fastforce simp: keeps_def on_errE_def split: prod.splits sum.splits)

lemma keeps_finallyE [keep]:
  "keeps I m \<Longrightarrow> (\<And>s. I s \<Longrightarrow> I (h s)) \<Longrightarrow> keeps I (finallyE m h)"
  by (fastforce simp: keeps_def finallyE_def split: prod.splits)

lemma keeps_ignoreE: "keeps I m \<Longrightarrow> I s \<Longrightarrow> I (ignoreE m s)"
  by (simp add: keeps_def ignoreE_def)

end
