(* ===== verification/Layout.thy ===== *)
theory Layout
  imports Prelude
begin

text \<open>
  The on-disk format of \<open>cryexts_fs.h\<close>: the constants, the superblock and the group descriptor
  as records, and their packed little-endian encodings.  The file system keeps the superblock at
  byte 1024 of block 0 and updates it in place, so both round trips matter: a record survives
  being written and read (\<open>dec_enc_super\<close>), and reading and writing back unchanged leaves the
  bytes alone (\<open>enc_dec_super\<close>).
\<close>

section \<open>Constants\<close>

named_theorems const_simps "numeric constants of the on-disk format"

definition CRYEXTS_MAGIC :: u32 where [const_simps]: "CRYEXTS_MAGIC = 0x43525853"
definition CRYEXTS_VERSION_V4 :: u32 where [const_simps]: "CRYEXTS_VERSION_V4 = 4"
definition CRYEXTS_VERSION_V5 :: u32 where [const_simps]: "CRYEXTS_VERSION_V5 = 5"
definition CRYEXTS_VERSION_V6 :: u32 where [const_simps]: "CRYEXTS_VERSION_V6 = 6"
definition CRYEXTS_SUPER_OFFSET :: nat where [const_simps]: "CRYEXTS_SUPER_OFFSET = 1024"
definition CRYEXTS_ROOT_INO :: u64 where [const_simps]: "CRYEXTS_ROOT_INO = 1"
definition CRYEXTS_INODE_SIZE :: nat where [const_simps]: "CRYEXTS_INODE_SIZE = 276"
definition CRYEXTS_FS_STATE_NEEDS_RECOVERY :: u32 where
  [const_simps]: "CRYEXTS_FS_STATE_NEEDS_RECOVERY = 2"
definition CRYEXTS_FEATURE_COMPAT_PREALLOC :: u32 where
  [const_simps]: "CRYEXTS_FEATURE_COMPAT_PREALLOC = 2"
definition CRYEXTS_FEATURE_INCOMPAT_BLOCK_GROUPS :: u32 where
  [const_simps]: "CRYEXTS_FEATURE_INCOMPAT_BLOCK_GROUPS = 2"
definition CRYEXTS_FEATURE_INCOMPAT_NEEDS_RECOVERY :: u32 where
  [const_simps]: "CRYEXTS_FEATURE_INCOMPAT_NEEDS_RECOVERY = 4"
definition CRYEXTS_FEATURE_INCOMPAT_ORPHAN_LIST :: u32 where
  [const_simps]: "CRYEXTS_FEATURE_INCOMPAT_ORPHAN_LIST = 0x80"
definition CRYEXTS_FEATURE_RO_COMPAT_METADATA_CSUM :: u32 where
  [const_simps]: "CRYEXTS_FEATURE_RO_COMPAT_METADATA_CSUM = 1"
definition CRYEXTS_METADATA_CSUM_FNV1A32 :: u64 where
  [const_simps]: "CRYEXTS_METADATA_CSUM_FNV1A32 = 1"
definition CRYEXTS_VERSION_V3 :: u32 where
  [const_simps]: "CRYEXTS_VERSION_V3 = 3"
definition CRYEXTS_FIRST_FREE_DATA_BLOCK :: u64 where
  [const_simps]: "CRYEXTS_FIRST_FREE_DATA_BLOCK = 20"
definition CRYEXTS_BLOCK_BITMAP_BLOCK :: u64 where
  [const_simps]: "CRYEXTS_BLOCK_BITMAP_BLOCK = 1"
definition CRYEXTS_INODE_BITMAP_BLOCK :: u64 where
  [const_simps]: "CRYEXTS_INODE_BITMAP_BLOCK = 2"
definition CRYEXTS_NAME_LEN :: nat where
  [const_simps]: "CRYEXTS_NAME_LEN = 255"
definition CRYEXTS_SB_FLAG_ENCRYPTED :: u32 where
  [const_simps]: "CRYEXTS_SB_FLAG_ENCRYPTED = 1"
definition CRYEXTS_ENC_FLAG_DATA :: u32 where
  [const_simps]: "CRYEXTS_ENC_FLAG_DATA = 1"
definition CRYEXTS_KDF_SALTED_FNV1A :: u32 where
  [const_simps]: "CRYEXTS_KDF_SALTED_FNV1A = 1"
definition CRYEXTS_ALG_AES_CTR :: u32 where
  [const_simps]: "CRYEXTS_ALG_AES_CTR = 2"
definition CRYEXTS_FS_STATE_CLEAN :: u32 where
  [const_simps]: "CRYEXTS_FS_STATE_CLEAN = 1"
definition CRYEXTS_FS_STATE_ERRORS :: u32 where
  [const_simps]: "CRYEXTS_FS_STATE_ERRORS = 4"
definition CRYEXTS_FEATURE_COMPAT_HAS_JOURNAL :: u32 where
  [const_simps]: "CRYEXTS_FEATURE_COMPAT_HAS_JOURNAL = 1"
definition CRYEXTS_FEATURE_INCOMPAT_SINGLE_INDIRECT :: u32 where
  [const_simps]: "CRYEXTS_FEATURE_INCOMPAT_SINGLE_INDIRECT = 1"
definition CRYEXTS_FEATURE_INCOMPAT_EXTENTS :: u32 where
  [const_simps]: "CRYEXTS_FEATURE_INCOMPAT_EXTENTS = 8"
definition CRYEXTS_FEATURE_INCOMPAT_XATTR :: u32 where
  [const_simps]: "CRYEXTS_FEATURE_INCOMPAT_XATTR = 0x10"
definition CRYEXTS_FEATURE_INCOMPAT_ENCRYPTION_POLICY :: u32 where
  [const_simps]: "CRYEXTS_FEATURE_INCOMPAT_ENCRYPTION_POLICY = 0x20"
definition CRYEXTS_FEATURE_INCOMPAT_DIR_INDEX :: u32 where
  [const_simps]: "CRYEXTS_FEATURE_INCOMPAT_DIR_INDEX = 0x40"
definition CRYEXTS_FEATURE_INCOMPAT_POLICY_TABLE :: u32 where
  [const_simps]: "CRYEXTS_FEATURE_INCOMPAT_POLICY_TABLE = 0x100"
definition CRYEXTS_FEATURE_INCOMPAT_EXTENT_TREE :: u32 where
  [const_simps]: "CRYEXTS_FEATURE_INCOMPAT_EXTENT_TREE = 0x200"
definition CRYEXTS_FEATURE_INCOMPAT_JOURNAL_V2 :: u32 where
  [const_simps]: "CRYEXTS_FEATURE_INCOMPAT_JOURNAL_V2 = 0x400"
definition CRYEXTS_FEATURE_INCOMPAT_JOURNAL_V3 :: u32 where
  [const_simps]: "CRYEXTS_FEATURE_INCOMPAT_JOURNAL_V3 = 0x800"
definition CRYEXTS_FEATURE_INCOMPAT_JOURNAL_RING :: u32 where
  [const_simps]: "CRYEXTS_FEATURE_INCOMPAT_JOURNAL_RING = 0x1000"
definition CRYEXTS_FEATURE_RO_COMPAT_LARGE_XATTR :: u32 where
  [const_simps]: "CRYEXTS_FEATURE_RO_COMPAT_LARGE_XATTR = 2"

text \<open>\<open>!!(v & f)\<close>.\<close>

definition has_flag :: "'a::len word \<Rightarrow> 'a word \<Rightarrow> bool" where
  "has_flag v f \<longleftrightarrow> v AND f \<noteq> 0"

lemma has_flag_or [simp]: "f \<noteq> 0 \<Longrightarrow> has_flag (v OR f) f"
  by (simp add: has_flag_def bit.conj_disj_distrib2 or_eq_0_iff)

lemma has_flag_clear [simp]: "\<not> has_flag (v AND NOT f) f"
  by (simp add: has_flag_def and.assoc)

section \<open>Superblock\<close>

record cryexts_super_block =
  sb_magic :: u32
  sb_version :: u32
  sb_block_size :: u32
  sb_inode_size :: u32
  sb_blocks_count :: u64
  sb_inodes_count :: u64
  sb_free_blocks_count :: u64
  sb_free_inodes_count :: u64
  sb_block_bitmap_block :: u64
  sb_inode_bitmap_block :: u64
  sb_inode_table_start :: u64
  sb_inode_table_blocks :: u64
  sb_root_inode_block :: u64
  sb_root_dir_block :: u64
  sb_first_data_block :: u64
  sb_next_ino :: u64
  sb_next_data_block :: u64
  sb_label :: bytes
  sb_flags :: u32
  sb_key_hash :: u32
  sb_features_compat :: u32
  sb_features_incompat :: u32
  sb_features_ro_compat :: u32
  sb_encryption_flags :: u32
  sb_encryption_kdf :: u32
  sb_encryption_alg :: u32
  sb_salt :: bytes
  sb_state :: u32
  sb_mount_count :: u32
  sb_max_mount_count :: u32
  sb_default_encryption_policy :: u32
  sb_last_mount_time :: u64
  sb_last_write_time :: u64
  sb_last_check_time :: u64
  sb_journal_block :: u64
  sb_journal_blocks :: u64
  sb_group_count :: u64
  sb_blocks_per_group :: u64
  sb_inodes_per_group :: u64
  sb_group_desc_table_start :: u64
  sb_group_desc_table_blocks :: u64
  sb_uuid :: bytes
  sb_volume_name :: bytes
  sb_orphan_head :: u64
  sb_policy_table_block :: u64
  sb_dir_index_seed :: u64
  sb_metadata_csum_type :: u64
  sb_journal_sequence :: u64
  sb_fs_generation :: u64
  sb_reserved :: bytes

definition enc_super :: "cryexts_super_block \<Rightarrow> bytes" where
  "enc_super s =
     le32 (sb_magic s) @
     le32 (sb_version s) @
     le32 (sb_block_size s) @
     le32 (sb_inode_size s) @
     le64 (sb_blocks_count s) @
     le64 (sb_inodes_count s) @
     le64 (sb_free_blocks_count s) @
     le64 (sb_free_inodes_count s) @
     le64 (sb_block_bitmap_block s) @
     le64 (sb_inode_bitmap_block s) @
     le64 (sb_inode_table_start s) @
     le64 (sb_inode_table_blocks s) @
     le64 (sb_root_inode_block s) @
     le64 (sb_root_dir_block s) @
     le64 (sb_first_data_block s) @
     le64 (sb_next_ino s) @
     le64 (sb_next_data_block s) @
     sb_label s @
     le32 (sb_flags s) @
     le32 (sb_key_hash s) @
     le32 (sb_features_compat s) @
     le32 (sb_features_incompat s) @
     le32 (sb_features_ro_compat s) @
     le32 (sb_encryption_flags s) @
     le32 (sb_encryption_kdf s) @
     le32 (sb_encryption_alg s) @
     sb_salt s @
     le32 (sb_state s) @
     le32 (sb_mount_count s) @
     le32 (sb_max_mount_count s) @
     le32 (sb_default_encryption_policy s) @
     le64 (sb_last_mount_time s) @
     le64 (sb_last_write_time s) @
     le64 (sb_last_check_time s) @
     le64 (sb_journal_block s) @
     le64 (sb_journal_blocks s) @
     le64 (sb_group_count s) @
     le64 (sb_blocks_per_group s) @
     le64 (sb_inodes_per_group s) @
     le64 (sb_group_desc_table_start s) @
     le64 (sb_group_desc_table_blocks s) @
     sb_uuid s @
     sb_volume_name s @
     le64 (sb_orphan_head s) @
     le64 (sb_policy_table_block s) @
     le64 (sb_dir_index_seed s) @
     le64 (sb_metadata_csum_type s) @
     le64 (sb_journal_sequence s) @
     le64 (sb_fs_generation s) @
     sb_reserved s"

definition dec_super :: "bytes \<Rightarrow> cryexts_super_block" where
  "dec_super b = \<lparr>
     sb_magic = get32 b 0,
     sb_version = get32 b 4,
     sb_block_size = get32 b 8,
     sb_inode_size = get32 b 12,
     sb_blocks_count = get64 b 16,
     sb_inodes_count = get64 b 24,
     sb_free_blocks_count = get64 b 32,
     sb_free_inodes_count = get64 b 40,
     sb_block_bitmap_block = get64 b 48,
     sb_inode_bitmap_block = get64 b 56,
     sb_inode_table_start = get64 b 64,
     sb_inode_table_blocks = get64 b 72,
     sb_root_inode_block = get64 b 80,
     sb_root_dir_block = get64 b 88,
     sb_first_data_block = get64 b 96,
     sb_next_ino = get64 b 104,
     sb_next_data_block = get64 b 112,
     sb_label = get_bytes b 120 16,
     sb_flags = get32 b 136,
     sb_key_hash = get32 b 140,
     sb_features_compat = get32 b 144,
     sb_features_incompat = get32 b 148,
     sb_features_ro_compat = get32 b 152,
     sb_encryption_flags = get32 b 156,
     sb_encryption_kdf = get32 b 160,
     sb_encryption_alg = get32 b 164,
     sb_salt = get_bytes b 168 16,
     sb_state = get32 b 184,
     sb_mount_count = get32 b 188,
     sb_max_mount_count = get32 b 192,
     sb_default_encryption_policy = get32 b 196,
     sb_last_mount_time = get64 b 200,
     sb_last_write_time = get64 b 208,
     sb_last_check_time = get64 b 216,
     sb_journal_block = get64 b 224,
     sb_journal_blocks = get64 b 232,
     sb_group_count = get64 b 240,
     sb_blocks_per_group = get64 b 248,
     sb_inodes_per_group = get64 b 256,
     sb_group_desc_table_start = get64 b 264,
     sb_group_desc_table_blocks = get64 b 272,
     sb_uuid = get_bytes b 280 16,
     sb_volume_name = get_bytes b 296 16,
     sb_orphan_head = get64 b 312,
     sb_policy_table_block = get64 b 320,
     sb_dir_index_seed = get64 b 328,
     sb_metadata_csum_type = get64 b 336,
     sb_journal_sequence = get64 b 344,
     sb_fs_generation = get64 b 352,
     sb_reserved = get_bytes b 360 96 \<rparr>"


text \<open>The byte arrays of the structure have their declared lengths.\<close>

definition wf_super :: "cryexts_super_block \<Rightarrow> bool" where
  "wf_super s \<longleftrightarrow> length (sb_label s) = 16 \<and> length (sb_salt s) = 16 \<and>
     length (sb_uuid s) = 16 \<and> length (sb_volume_name s) = 16 \<and> length (sb_reserved s) = 96"

definition SUPER_BYTES :: nat where "SUPER_BYTES = 456"
definition SUPER_RESERVED_OFF :: nat where "SUPER_RESERVED_OFF = 360"

lemma length_enc_super: "wf_super s \<Longrightarrow> length (enc_super s) = SUPER_BYTES"
  by (simp add: enc_super_def wf_super_def SUPER_BYTES_def)

lemma dec_enc_super: "wf_super s \<Longrightarrow> dec_super (enc_super s) = s"
  by (simp add: dec_super_def enc_super_def wf_super_def layout_simps)

lemma wf_dec_super: "length b = SUPER_BYTES \<Longrightarrow> wf_super (dec_super b)"
  by (simp add: dec_super_def wf_super_def SUPER_BYTES_def get_bytes_def)

lemma le_get_bytes:
  "off + 4 \<le> length b \<Longrightarrow> le32 (get32 b off) = get_bytes b off 4"
  "off + 8 \<le> length b \<Longrightarrow> le64 (get64 b off) = get_bytes b off 8"
  by (simp_all add: le32_def le64_def get32_def get64_def le_bytes_le_word get_bytes_def)

lemma get_bytes_merge: "get_bytes b off n @ get_bytes b (off + n) m = get_bytes b off (n + m)"
  by (simp add: get_bytes_def take_add add.commute [of off n])

lemma get_bytes_merge':
  "off' = off + n \<Longrightarrow> get_bytes b off n @ get_bytes b off' m = get_bytes b off (n + m)"
  "off' = off + n \<Longrightarrow> get_bytes b off n @ get_bytes b off' m @ xs = get_bytes b off (n + m) @ xs"
  by (simp_all add: get_bytes_merge append_assoc [symmetric] del: append_assoc)

lemma enc_dec_super: "length b = SUPER_BYTES \<Longrightarrow> enc_super (dec_super b) = b"
  by (simp add: enc_super_def dec_super_def SUPER_BYTES_def le_get_bytes get_bytes_merge')
    (simp add: get_bytes_def)

section \<open>Group descriptor\<close>

record cryexts_group_desc =
  gd_group_start :: u64
  gd_blocks_count :: u64
  gd_block_bitmap_block :: u64
  gd_inode_bitmap_block :: u64
  gd_inode_table_start :: u64
  gd_inode_table_blocks :: u32
  gd_free_blocks_count :: u32
  gd_free_inodes_count :: u32
  gd_used_dirs_count :: u32
  gd_flags :: u32
  gd_reserved :: bytes

definition enc_group :: "cryexts_group_desc \<Rightarrow> bytes" where
  "enc_group g =
     le64 (gd_group_start g) @
     le64 (gd_blocks_count g) @
     le64 (gd_block_bitmap_block g) @
     le64 (gd_inode_bitmap_block g) @
     le64 (gd_inode_table_start g) @
     le32 (gd_inode_table_blocks g) @
     le32 (gd_free_blocks_count g) @
     le32 (gd_free_inodes_count g) @
     le32 (gd_used_dirs_count g) @
     le32 (gd_flags g) @
     gd_reserved g"

definition dec_group :: "bytes \<Rightarrow> cryexts_group_desc" where
  "dec_group b = \<lparr>
     gd_group_start = get64 b 0,
     gd_blocks_count = get64 b 8,
     gd_block_bitmap_block = get64 b 16,
     gd_inode_bitmap_block = get64 b 24,
     gd_inode_table_start = get64 b 32,
     gd_inode_table_blocks = get32 b 40,
     gd_free_blocks_count = get32 b 44,
     gd_free_inodes_count = get32 b 48,
     gd_used_dirs_count = get32 b 52,
     gd_flags = get32 b 56,
     gd_reserved = get_bytes b 60 16 \<rparr>"


definition wf_group :: "cryexts_group_desc \<Rightarrow> bool" where
  "wf_group g \<longleftrightarrow> length (gd_reserved g) = 16"

definition GROUP_BYTES :: nat where "GROUP_BYTES = 76"
definition GROUP_RESERVED_OFF :: nat where "GROUP_RESERVED_OFF = 60"

lemma length_enc_group: "wf_group g \<Longrightarrow> length (enc_group g) = GROUP_BYTES"
  by (simp add: enc_group_def wf_group_def GROUP_BYTES_def)

lemma dec_enc_group: "wf_group g \<Longrightarrow> dec_group (enc_group g) = g"
  by (simp add: dec_group_def enc_group_def wf_group_def layout_simps)

lemma enc_dec_group: "length b = GROUP_BYTES \<Longrightarrow> enc_group (dec_group b) = b"
  by (simp add: enc_group_def dec_group_def GROUP_BYTES_def le_get_bytes get_bytes_merge')
    (simp add: get_bytes_def)

lemma wf_dec_group: "length b = GROUP_BYTES \<Longrightarrow> wf_group (dec_group b)"
  by (simp add: dec_group_def wf_group_def GROUP_BYTES_def get_bytes_def)

section \<open>Directory record length\<close>

definition CRYEXTS_DIR_ENTRY_HEADER_SIZE :: u32 where
  "CRYEXTS_DIR_ENTRY_HEADER_SIZE = 12"

definition cryexts_dir_rec_len :: "u32 \<Rightarrow> u32" where
  "cryexts_dir_rec_len name_len = (CRYEXTS_DIR_ENTRY_HEADER_SIZE + name_len + 3) AND NOT 3"

end
