(* ===== verification/Device.thy ===== *)
theory Device
  imports Layout
begin

text \<open>
  The state of a mounted file system: the fields of \<open>struct cryexts_sb_info\<close> that the modelled
  components use (\<open>s_...\<close>) and the block device as the kernel shows it to them (\<open>d_...\<close>).

  The buffer cache holds the contents that \<open>sb_bread\<close> returns; the medium holds what survives
  a power cut.  A written buffer is only marked dirty; \<open>sync_dirty_buffer\<close> moves one block to
  the medium and \<open>sync_blockdev\<close> all of them.  Every device access and every allocation of
  memory may fail: the outcome of the n-th one is \<open>d_fault n\<close>, an arbitrary function, so that
  a theorem without a hypothesis on \<open>d_fault\<close> holds for every pattern of failures, and a
  device that fails from some moment on is a power cut at that moment.

  The mount flag \<open>SB_RDONLY\<close> is \<open>s_rdonly\<close>, the clock \<open>d_now\<close>; \<open>i_next_orphan\<close> has the field
  \<open>next_orphan\<close> of the inodes that are in the inode cache.

  A \<open>struct buffer_head *\<close> is the number of its block, a null pointer is \<open>None\<close>.  The pointer
  \<open>sbi->disk_sb\<close> points into the data of block 0, so block 0 is assembled from the
  superblock record and the bytes around it.
\<close>

record fs =
  s_disk_sb :: cryexts_super_block
  d_cache :: "u64 \<Rightarrow> bytes"
  d_media :: "u64 \<Rightarrow> bytes"
  d_dirty :: "u64 list"
  d_fault :: "nat \<Rightarrow> bool"
  d_tick :: nat
  s_block_bitmap_bh :: "u64 option"
  s_inode_bitmap_bh :: "u64 option"
  s_gdt_bhs :: "u64 option list option"
  s_groups :: "cryexts_group_desc list option"
  s_gdt_tail :: bytes
  s_group_block_bitmap_bhs :: "u64 option list option"
  s_group_inode_bitmap_bhs :: "u64 option list option"
  s_inode_table_start :: u64
  s_block_bitmap_block :: u64
  s_inode_bitmap_block :: u64
  s_group_desc_table_start :: u64
  s_group_desc_table_blocks :: u64
  s_group_count :: u64
  s_blocks_per_group :: u64
  s_inodes_per_group :: u64
  s_journal_block :: u64
  s_journal_blocks :: u64
  s_next_ino :: u64
  s_next_data_block :: u64
  s_journal_sequence :: u64
  s_journal_last_sequence :: u64
  s_journal_active_sequence :: u64
  s_journal_tail_sequence :: u64
  s_journal_checkpoint_sequence :: u64
  s_journal_ring_head :: u64
  s_journal_ring_tail :: u64
  s_journal_enabled :: bool
  s_journal_v2 :: bool
  s_journal_v3 :: bool
  s_journal_ring :: bool
  s_journal_replaying :: bool
  s_journal_entry_count :: nat
  s_journal_error :: "errno option"
  s_journal_home_blocks :: "u64 list"
  s_checkpoint_scheduled :: bool
  s_journal_locked :: bool
  s_inode_table_blocks :: u64
  s_rdonly :: bool
  d_now :: u64
  i_next_orphan :: "u64 \<Rightarrow> u64 option"

section \<open>Buffer contents\<close>

definition bdata :: "fs \<Rightarrow> u64 \<Rightarrow> bytes" where
  "bdata st b =
     (if b = 0 then put_bytes CRYEXTS_SUPER_OFFSET (enc_super (s_disk_sb st)) (d_cache st 0)
      else d_cache st b)"

definition set_bdata :: "u64 \<Rightarrow> bytes \<Rightarrow> fs \<Rightarrow> fs" where
  "set_bdata b buf st =
     (if b = 0
      then st\<lparr>d_cache := (d_cache st)(0 := buf),
              s_disk_sb := dec_super (get_bytes buf CRYEXTS_SUPER_OFFSET SUPER_BYTES)\<rparr>
      else st\<lparr>d_cache := (d_cache st)(b := buf)\<rparr>)"

definition upd_disk_sb :: "(cryexts_super_block \<Rightarrow> cryexts_super_block) \<Rightarrow> fs \<Rightarrow> fs" where
  "upd_disk_sb f st = st\<lparr>s_disk_sb := f (s_disk_sb st)\<rparr>"

definition mark_buffer_dirty :: "u64 \<Rightarrow> fs \<Rightarrow> fs" where
  "mark_buffer_dirty b st = st\<lparr>d_dirty := List.insert b (d_dirty st)\<rparr>"

text \<open>Buffers have the size of a block and the superblock record is well formed.\<close>

definition wf_fs :: "fs \<Rightarrow> bool" where
  "wf_fs st \<longleftrightarrow> wf_super (s_disk_sb st) \<and> (\<forall>b. length (d_cache st b) = BLOCK_SIZE)"

lemma super_fits: "CRYEXTS_SUPER_OFFSET + SUPER_BYTES \<le> BLOCK_SIZE"
  by (simp add: CRYEXTS_SUPER_OFFSET_def SUPER_BYTES_def BLOCK_SIZE_def)

lemma length_bdata: "wf_fs st \<Longrightarrow> length (bdata st b) = BLOCK_SIZE"
  using super_fits by (simp add: bdata_def wf_fs_def length_enc_super)

lemma length_get_bytes: "off + n \<le> length buf \<Longrightarrow> length (get_bytes buf off n) = n"
  by (simp add: get_bytes_def)

lemma bdata_set_same:
  assumes "length buf = BLOCK_SIZE"
  shows "bdata (set_bdata b buf st) b = buf"
proof (cases "b = 0")
  case True
  have fits: "CRYEXTS_SUPER_OFFSET + SUPER_BYTES \<le> length buf" using assms super_fits by simp
  then have "enc_super (dec_super (get_bytes buf CRYEXTS_SUPER_OFFSET SUPER_BYTES)) =
      get_bytes buf CRYEXTS_SUPER_OFFSET SUPER_BYTES"
    by (rule enc_dec_super [OF length_get_bytes])
  with True show ?thesis
    by (simp add: bdata_def set_bdata_def put_get_bytes_same [OF fits])
next
  case False
  then show ?thesis by (simp add: bdata_def set_bdata_def)
qed

lemma bdata_set_other: "c \<noteq> b \<Longrightarrow> bdata (set_bdata b buf st) c = bdata st c"
  by (auto simp: bdata_def set_bdata_def)

lemma wf_fs_set_bdata: "wf_fs st \<Longrightarrow> length buf = BLOCK_SIZE \<Longrightarrow> wf_fs (set_bdata b buf st)"
  using super_fits by (auto simp: wf_fs_def set_bdata_def length_get_bytes intro!: wf_dec_super)

section \<open>Device accesses that may fail\<close>

definition io_step :: "errno \<Rightarrow> (fs, unit) act" where
  "io_step e = (\<lambda>st. (if d_fault st (d_tick st) then Inl e else Inr (),
                      st\<lparr>d_tick := Suc (d_tick st)\<rparr>))"

definition kmalloc :: "(fs, unit) act" where "kmalloc = io_step ENOMEM"

definition sync_dirty_buffer :: "u64 \<Rightarrow> (fs, unit) act" where
  "sync_dirty_buffer b = (\<lambda>st.
     if b \<notin> set (d_dirty st) then (Inr (), st)
     else (case io_step EIO (st\<lparr>d_dirty := removeAll b (d_dirty st)\<rparr>) of
             (Inl e, st') \<Rightarrow> (Inl e, st')
           | (Inr _, st') \<Rightarrow> (Inr (), st'\<lparr>d_media := (d_media st')(b := bdata st' b)\<rparr>)))"

fun write_back :: "u64 list \<Rightarrow> fs \<Rightarrow> bool \<times> fs" where
  "write_back [] st = (True, st)"
| "write_back (b # bs) st =
     (case sync_dirty_buffer b st of (r, st') \<Rightarrow>
        (case write_back bs st' of (ok, st'') \<Rightarrow> (ok \<and> r = Inr (), st'')))"

definition sync_blockdev :: "(fs, unit) act" where
  "sync_blockdev = (\<lambda>st. case write_back (d_dirty st) st of
     (ok, st') \<Rightarrow> (if ok then Inr () else Inl EIO, st'))"

definition blkdev_issue_flush :: "(fs, unit) act" where
  "blkdev_issue_flush = io_step EIO"

section \<open>Block reads and writes of \<open>crypto.c\<close>\<close>

definition cryexts_read_file_block :: "u64 \<Rightarrow> (fs, bytes) act" where
  "cryexts_read_file_block block = bindE (io_step EIO) (\<lambda>_. getE (\<lambda>st. bdata st block))"

definition cryexts_write_file_block :: "u64 \<Rightarrow> bytes \<Rightarrow> (fs, unit) act" where
  "cryexts_write_file_block block buf =
     bindE (io_step EIO) (\<lambda>_. modE (\<lambda>st. mark_buffer_dirty block (set_bdata block buf st)))"

end
