(* ===== verification/Metadata.thy ===== *)
theory Metadata
  imports Device
begin

text \<open>
  Metadata checksums (\<open>metadata.c\<close>) and the in-memory copy of the group descriptor table
  (\<open>super.c\<close>, lines 4 to 91).  Every checksum is FNV-1a over the structure with its own field
  skipped, seeded by the generation of the file system, the block number and a tag.  The contract
  of such a seal (sealing makes the check pass, and a change of a single byte is refused) is the
  locale \<open>sealed_block\<close>, interpreted on the directory index block, the superblock and the group
  descriptor.
\<close>

section \<open>Checksums\<close>

definition CRYEXTS_META_TAG_SUPER :: u32 where "CRYEXTS_META_TAG_SUPER = 0x53555052"
definition CRYEXTS_META_TAG_GROUP :: u32 where "CRYEXTS_META_TAG_GROUP = 0x47525044"
definition CRYEXTS_META_TAG_POLICY :: u32 where "CRYEXTS_META_TAG_POLICY = 0x504f4c59"
definition CRYEXTS_META_TAG_DIRIDX :: u32 where "CRYEXTS_META_TAG_DIRIDX = 0x44495258"
definition CRYEXTS_META_TAG_EXTOVF :: u32 where "CRYEXTS_META_TAG_EXTOVF = 0x45584f46"

definition cryexts_metadata_fnv1a_bytes :: "bytes \<Rightarrow> nat \<Rightarrow> u32 \<Rightarrow> u32" where
  "cryexts_metadata_fnv1a_bytes buf len hash = fnv_loop buf len hash"

definition cryexts_metadata_checksum_skip ::
    "bytes \<Rightarrow> nat \<Rightarrow> nat \<Rightarrow> nat \<Rightarrow> u32 \<Rightarrow> u32" where
  "cryexts_metadata_checksum_skip buf len skip_offset skip_len seed =
     fnv_loop_skip buf len skip_offset skip_len seed"

text \<open>The integers are hashed as the machine stores them, least significant byte first.\<close>

definition cryexts_metadata_seed :: "u64 \<Rightarrow> u64 \<Rightarrow> u32 \<Rightarrow> u32" where
  "cryexts_metadata_seed fs_generation block tag =
     (let hash = FNV_OFFSET;
          hash = cryexts_metadata_fnv1a_bytes (le64 fs_generation) 8 hash;
          hash = cryexts_metadata_fnv1a_bytes (le64 block) 8 hash;
          hash = cryexts_metadata_fnv1a_bytes (le32 tag) 4 hash
      in hash)"

definition cryexts_metadata_csum_enabled_disk :: "cryexts_super_block \<Rightarrow> bool" where
  "cryexts_metadata_csum_enabled_disk sb =
     (if sb_version sb < CRYEXTS_VERSION_V5 then False
      else if \<not> has_flag (sb_features_ro_compat sb) CRYEXTS_FEATURE_RO_COMPAT_METADATA_CSUM
      then False
      else sb_metadata_csum_type sb = CRYEXTS_METADATA_CSUM_FNV1A32)"

definition cryexts_super_expected_checksum :: "cryexts_super_block \<Rightarrow> u32" where
  "cryexts_super_expected_checksum sb =
     cryexts_metadata_checksum_skip (enc_super sb) SUPER_BYTES SUPER_RESERVED_OFF 4
       (cryexts_metadata_seed (sb_fs_generation sb) 0 CRYEXTS_META_TAG_SUPER)"

definition cryexts_group_expected_checksum ::
    "cryexts_super_block \<Rightarrow> cryexts_group_desc \<Rightarrow> u32" where
  "cryexts_group_expected_checksum sb g =
     cryexts_metadata_checksum_skip (enc_group g) GROUP_BYTES GROUP_RESERVED_OFF 4
       (cryexts_metadata_seed (sb_fs_generation sb) (gd_group_start g) CRYEXTS_META_TAG_GROUP)"

definition POLICY_RESERVED_OFF :: nat where "POLICY_RESERVED_OFF = 8"
definition DIR_INDEX_RESERVED_OFF :: nat where "DIR_INDEX_RESERVED_OFF = 12"

definition cryexts_policy_expected_checksum ::
    "cryexts_super_block \<Rightarrow> u64 \<Rightarrow> bytes \<Rightarrow> u32" where
  "cryexts_policy_expected_checksum sb block pt =
     cryexts_metadata_checksum_skip pt BLOCK_SIZE POLICY_RESERVED_OFF 4
       (cryexts_metadata_seed (sb_fs_generation sb) block CRYEXTS_META_TAG_POLICY)"

definition cryexts_dir_index_expected_checksum ::
    "cryexts_super_block \<Rightarrow> u64 \<Rightarrow> bytes \<Rightarrow> u32" where
  "cryexts_dir_index_expected_checksum sb block index =
     cryexts_metadata_checksum_skip index BLOCK_SIZE DIR_INDEX_RESERVED_OFF 4
       (cryexts_metadata_seed (sb_fs_generation sb) block CRYEXTS_META_TAG_DIRIDX)"

definition cryexts_metadata_csum_enabled :: "fs \<Rightarrow> bool" where
  "cryexts_metadata_csum_enabled st = cryexts_metadata_csum_enabled_disk (s_disk_sb st)"

text \<open>The checksum of a superblock or descriptor is the first word of its reserved bytes.\<close>

definition set_super_csum :: "u32 \<Rightarrow> cryexts_super_block \<Rightarrow> cryexts_super_block" where
  "set_super_csum c sb = sb\<lparr>sb_reserved := put_bytes 0 (le32 c) (sb_reserved sb)\<rparr>"

definition set_group_csum :: "u32 \<Rightarrow> cryexts_group_desc \<Rightarrow> cryexts_group_desc" where
  "set_group_csum c g = g\<lparr>gd_reserved := put_bytes 0 (le32 c) (gd_reserved g)\<rparr>"

definition cryexts_update_super_checksum :: "fs \<Rightarrow> fs" where
  "cryexts_update_super_checksum st =
     (if \<not> cryexts_metadata_csum_enabled_disk (s_disk_sb st) then st
      else upd_disk_sb (\<lambda>sb. set_super_csum (cryexts_super_expected_checksum sb) sb) st)"

definition cryexts_verify_super_checksum :: "fs \<Rightarrow> unit res" where
  "cryexts_verify_super_checksum st =
     (let sb = s_disk_sb st in
      if \<not> cryexts_metadata_csum_enabled_disk sb then Inr ()
      else (let stored = get32 (sb_reserved sb) 0;
                expected = cryexts_super_expected_checksum sb
            in if stored = expected then Inr () else Inl EUCLEAN))"

definition cryexts_update_group_checksums :: "fs \<Rightarrow> fs" where
  "cryexts_update_group_checksums st =
     (case s_groups st of
        None \<Rightarrow> st
      | Some gs \<Rightarrow>
          if \<not> cryexts_metadata_csum_enabled st then st
          else st\<lparr>s_groups := Some (fold (\<lambda>i gs. gs[i := set_group_csum
                    (cryexts_group_expected_checksum (s_disk_sb st) (gs ! i)) (gs ! i)])
                  [0..<unat (s_group_count st)] gs)\<rparr>)"

definition cryexts_verify_group_checksums :: "fs \<Rightarrow> unit res" where
  "cryexts_verify_group_checksums st =
     (case s_groups st of
        None \<Rightarrow> Inr ()
      | Some gs \<Rightarrow>
          if \<not> cryexts_metadata_csum_enabled st then Inr ()
          else if list_all (\<lambda>i. get32 (gd_reserved (gs ! i)) 0 =
                    cryexts_group_expected_checksum (s_disk_sb st) (gs ! i))
                  [0..<unat (s_group_count st)]
          then Inr () else Inl EUCLEAN)"

definition cryexts_dir_index_set_checksum :: "fs \<Rightarrow> u64 \<Rightarrow> bytes \<Rightarrow> bytes" where
  "cryexts_dir_index_set_checksum st block index =
     (if \<not> cryexts_metadata_csum_enabled st then index
      else put_bytes DIR_INDEX_RESERVED_OFF
             (le32 (cryexts_dir_index_expected_checksum (s_disk_sb st) block index)) index)"

definition cryexts_dir_index_checksum_valid :: "fs \<Rightarrow> u64 \<Rightarrow> bytes \<Rightarrow> bool" where
  "cryexts_dir_index_checksum_valid st block index =
     (if \<not> cryexts_metadata_csum_enabled st then True
      else get32 index DIR_INDEX_RESERVED_OFF =
           cryexts_dir_index_expected_checksum (s_disk_sb st) block index)"

definition cryexts_policy_table_checksum_valid :: "fs \<Rightarrow> u64 \<Rightarrow> bytes \<Rightarrow> bool" where
  "cryexts_policy_table_checksum_valid st block pt =
     (if \<not> cryexts_metadata_csum_enabled st then True
      else get32 pt POLICY_RESERVED_OFF =
           cryexts_policy_expected_checksum (s_disk_sb st) block pt)"

definition cryexts_extent_overflow_checksum :: "fs \<Rightarrow> u64 \<Rightarrow> bytes \<Rightarrow> u32" where
  "cryexts_extent_overflow_checksum st block buf =
     cryexts_metadata_fnv1a_bytes buf BLOCK_SIZE
       (cryexts_metadata_seed (sb_fs_generation (s_disk_sb st)) block CRYEXTS_META_TAG_EXTOVF)"

definition cryexts_extent_leaf_checksum :: "fs \<Rightarrow> u64 \<Rightarrow> bytes \<Rightarrow> u32" where
  "cryexts_extent_leaf_checksum st block buf = cryexts_extent_overflow_checksum st block buf"

section \<open>The contract of a sealed buffer\<close>

text \<open>
  A buffer of \<open>len\<close> bytes with a 32-bit checksum at \<open>off\<close>, computed over all other bytes from
  a seed.  \<open>seal\<close> writes the checksum, \<open>check\<close> is the test a reader makes.
\<close>

locale sealed_block =
  fixes len off :: nat and seed :: "bytes \<Rightarrow> u32"
    and seal :: "bytes \<Rightarrow> bytes" and check :: "bytes \<Rightarrow> bool"
  assumes field_fits: "off + 4 \<le> len"
    and seed_put: "length b = len \<Longrightarrow> length v = 4 \<Longrightarrow> seed (put_bytes off v b) = seed b"
    and seal_eq: "length b = len \<Longrightarrow>
          seal b = put_bytes off (le32 (fnv_loop_skip b len off 4 (seed b))) b"
    and check_eq: "length b = len \<Longrightarrow>
          check b \<longleftrightarrow> get32 b off = fnv_loop_skip b len off 4 (seed b)"
begin

lemma length_seal: "length b = len \<Longrightarrow> length (seal b) = len"
  by (simp add: seal_eq field_fits)

lemma seal_check:
  assumes "length b = len"
  shows "check (seal b)"
proof -
  have "fnv_loop_skip (seal b) len off 4 (seed (seal b)) = fnv_loop_skip b len off 4 (seed b)"
    unfolding seal_eq [OF assms] seed_put [OF assms length_le(2)]
    by (rule fnv_loop_skip_cong) (use assms field_fits in \<open>auto simp: nth_put_bytes\<close>)
  moreover have "get32 (seal b) off = fnv_loop_skip b len off 4 (seed b)"
    using assms field_fits by (simp add: seal_eq get32_def)
  ultimately show ?thesis using length_seal [OF assms] by (simp add: check_eq assms)
qed

lemma seal_keeps_rest:
  "length b = len \<Longrightarrow> i < len \<Longrightarrow> \<not> (off \<le> i \<and> i < off + 4) \<Longrightarrow> seal b ! i = b ! i"
  using field_fits by (auto simp: seal_eq nth_put_bytes)

lemma field_change_seen:
  assumes len: "length b = len" and i: "off \<le> i" "i < off + 4" and x: "x \<noteq> b ! i"
  shows "get32 (b[i := x]) off \<noteq> get32 b off"
proof
  assume "get32 (b[i := x]) off = get32 b off"
  then have "le_bytes 4 (le_word (get_bytes (b[i := x]) off 4) :: u32) =
             le_bytes 4 (le_word (get_bytes b off 4) :: u32)"
    by (simp add: get32_def)
  then have "get_bytes (b[i := x]) off 4 = get_bytes b off 4"
    using len field_fits by (simp add: le_bytes_le_word length_get_bytes)
  then have "get_bytes (b[i := x]) off 4 ! (i - off) = get_bytes b off 4 ! (i - off)"
    by simp
  moreover have "i - off < 4" using i by simp
  ultimately show False using i x len field_fits by (simp add: get_bytes_def)
qed

text \<open>No single-byte corruption passes the check (as long as the seed does not move with it).\<close>

lemma detects_one_byte:
  assumes len: "length b = len" and ok: "check b" and i: "i < len" and x: "x \<noteq> b ! i"
    and seed: "seed (b[i := x]) = seed b"
  shows "\<not> check (b[i := x])"
proof (cases "off \<le> i \<and> i < off + 4")
  case True
  have "fnv_loop_skip (b[i := x]) len off 4 (seed b) = fnv_loop_skip b len off 4 (seed b)"
    by (rule fnv_loop_skip_cong) (use True in \<open>auto simp: nth_list_update\<close>)
  then show ?thesis
    using field_change_seen [OF len _ _ x] True ok seed len by (simp add: check_eq)
next
  case False
  let ?f = "\<lambda>c k h. if off \<le> k \<and> k < off + 4 then h else fnv_step (c ! k) h"
  let ?b = "b[i := x]"
  have split: "[0..<len] = [0..<i] @ i # [Suc i..<len]"
    using i upt_add_eq_append [of 0 i "len - i"] by (simp add: upt_conv_Cons)
  have pre: "fold (?f ?b) [0..<i] (seed b) = fold (?f b) [0..<i] (seed b)"
    by (rule fold_cong) auto
  have inj: "fold (?f ?b) ks h \<noteq> fold (?f b) ks h'" if "i \<notin> set ks" "h \<noteq> h'" for ks h h'
    using that by (induction ks arbitrary: h h') auto
  have "fnv_loop_skip ?b len off 4 (seed b) \<noteq> fnv_loop_skip b len off 4 (seed b)"
    unfolding fnv_loop_skip_def split fold_append fold_Cons comp_apply pre
    by (rule inj) (use False len x i in \<open>auto dest: fnv_step_byte\<close>)
  moreover have "get32 ?b off = get32 b off"
    unfolding get32_def get_bytes_def
    by (rule arg_cong [where f = le_word], rule nth_equalityI)
      (use False len field_fits in \<open>auto simp: nth_list_update\<close>)
  ultimately show ?thesis using len ok seed by (simp add: check_eq)
qed

end

subsection \<open>The sealed structures\<close>

interpretation dir_index: sealed_block BLOCK_SIZE DIR_INDEX_RESERVED_OFF
    "\<lambda>b. cryexts_metadata_seed (sb_fs_generation sb) block CRYEXTS_META_TAG_DIRIDX"
    "\<lambda>b. put_bytes DIR_INDEX_RESERVED_OFF (le32 (cryexts_dir_index_expected_checksum sb block b)) b"
    "\<lambda>b. get32 b DIR_INDEX_RESERVED_OFF = cryexts_dir_index_expected_checksum sb block b"
  for sb block
  by unfold_locales
    (auto simp: cryexts_dir_index_expected_checksum_def cryexts_metadata_checksum_skip_def
      BLOCK_SIZE_def DIR_INDEX_RESERVED_OFF_def)

lemma get_put_bytes_before:
  "length v = 4 \<Longrightarrow> n + k \<le> off \<Longrightarrow> off + 4 \<le> length b \<Longrightarrow>
   get_bytes (put_bytes off v b) n k = get_bytes b n k"
  by (rule get_put_bytes_disjoint) auto

lemma enc_set_super_csum:
  "wf_super sb \<Longrightarrow> enc_super (set_super_csum c sb) = put_bytes SUPER_RESERVED_OFF (le32 c) (enc_super sb)"
  by (simp add: enc_super_def set_super_csum_def wf_super_def put_bytes_def SUPER_RESERVED_OFF_def)

lemma enc_set_group_csum:
  "wf_group g \<Longrightarrow> enc_group (set_group_csum c g) = put_bytes GROUP_RESERVED_OFF (le32 c) (enc_group g)"
  by (simp add: enc_group_def set_group_csum_def wf_group_def put_bytes_def GROUP_RESERVED_OFF_def)

lemma super_csum_field: "get32 (sb_reserved (dec_super b)) 0 = get32 b SUPER_RESERVED_OFF"
  by (simp add: dec_super_def get32_def get_bytes_def SUPER_RESERVED_OFF_def)

lemma group_csum_field: "get32 (gd_reserved (dec_group b)) 0 = get32 b GROUP_RESERVED_OFF"
  by (simp add: dec_group_def get32_def get_bytes_def GROUP_RESERVED_OFF_def)

interpretation super: sealed_block SUPER_BYTES SUPER_RESERVED_OFF
    "\<lambda>b. cryexts_metadata_seed (sb_fs_generation (dec_super b)) 0 CRYEXTS_META_TAG_SUPER"
    "\<lambda>b. enc_super (set_super_csum (cryexts_super_expected_checksum (dec_super b)) (dec_super b))"
    "\<lambda>b. get32 (sb_reserved (dec_super b)) 0 = cryexts_super_expected_checksum (dec_super b)"
proof unfold_locales
  fix b :: bytes and v :: bytes
  assume b: "length b = SUPER_BYTES"
  show "length v = 4 \<Longrightarrow>
    cryexts_metadata_seed (sb_fs_generation (dec_super (put_bytes SUPER_RESERVED_OFF v b))) 0
      CRYEXTS_META_TAG_SUPER =
    cryexts_metadata_seed (sb_fs_generation (dec_super b)) 0 CRYEXTS_META_TAG_SUPER"
    using b by (simp add: dec_super_def get64_def get_put_bytes_before SUPER_RESERVED_OFF_def
      SUPER_BYTES_def)
  show "enc_super (set_super_csum (cryexts_super_expected_checksum (dec_super b)) (dec_super b)) =
    put_bytes SUPER_RESERVED_OFF (le32 (fnv_loop_skip b SUPER_BYTES SUPER_RESERVED_OFF 4
      (cryexts_metadata_seed (sb_fs_generation (dec_super b)) 0 CRYEXTS_META_TAG_SUPER))) b"
    using b by (simp add: enc_set_super_csum wf_dec_super enc_dec_super
      cryexts_super_expected_checksum_def cryexts_metadata_checksum_skip_def)
  show "(get32 (sb_reserved (dec_super b)) 0 = cryexts_super_expected_checksum (dec_super b)) =
    (get32 b SUPER_RESERVED_OFF = fnv_loop_skip b SUPER_BYTES SUPER_RESERVED_OFF 4
      (cryexts_metadata_seed (sb_fs_generation (dec_super b)) 0 CRYEXTS_META_TAG_SUPER))"
    using b by (simp add: super_csum_field enc_dec_super cryexts_super_expected_checksum_def
      cryexts_metadata_checksum_skip_def)
qed (simp add: SUPER_RESERVED_OFF_def SUPER_BYTES_def)

interpretation group: sealed_block GROUP_BYTES GROUP_RESERVED_OFF
    "\<lambda>b. cryexts_metadata_seed (sb_fs_generation sb) (gd_group_start (dec_group b))
           CRYEXTS_META_TAG_GROUP"
    "\<lambda>b. enc_group (set_group_csum (cryexts_group_expected_checksum sb (dec_group b)) (dec_group b))"
    "\<lambda>b. get32 (gd_reserved (dec_group b)) 0 = cryexts_group_expected_checksum sb (dec_group b)"
  for sb
proof unfold_locales
  fix b :: bytes and v :: bytes
  assume b: "length b = GROUP_BYTES"
  show "length v = 4 \<Longrightarrow>
    cryexts_metadata_seed (sb_fs_generation sb)
      (gd_group_start (dec_group (put_bytes GROUP_RESERVED_OFF v b))) CRYEXTS_META_TAG_GROUP =
    cryexts_metadata_seed (sb_fs_generation sb) (gd_group_start (dec_group b))
      CRYEXTS_META_TAG_GROUP"
    using b by (simp add: dec_group_def get64_def get_put_bytes_before GROUP_RESERVED_OFF_def
      GROUP_BYTES_def)
  show "enc_group (set_group_csum (cryexts_group_expected_checksum sb (dec_group b)) (dec_group b)) =
    put_bytes GROUP_RESERVED_OFF (le32 (fnv_loop_skip b GROUP_BYTES GROUP_RESERVED_OFF 4
      (cryexts_metadata_seed (sb_fs_generation sb) (gd_group_start (dec_group b))
        CRYEXTS_META_TAG_GROUP))) b"
    using b by (simp add: enc_set_group_csum wf_dec_group enc_dec_group
      cryexts_group_expected_checksum_def cryexts_metadata_checksum_skip_def)
  show "(get32 (gd_reserved (dec_group b)) 0 = cryexts_group_expected_checksum sb (dec_group b)) =
    (get32 b GROUP_RESERVED_OFF = fnv_loop_skip b GROUP_BYTES GROUP_RESERVED_OFF 4
      (cryexts_metadata_seed (sb_fs_generation sb) (gd_group_start (dec_group b))
        CRYEXTS_META_TAG_GROUP))"
    using b by (simp add: group_csum_field enc_dec_group cryexts_group_expected_checksum_def
      cryexts_metadata_checksum_skip_def)
qed (simp add: GROUP_RESERVED_OFF_def GROUP_BYTES_def)

section \<open>The group descriptor table in memory\<close>

text \<open>
  \<open>gdt_storage\<close> is a copy of the table's blocks; \<open>sbi->groups\<close> is the array of descriptors over
  it.  The model keeps the descriptors as records and the bytes behind the last one.
\<close>

definition gdt_storage :: "fs \<Rightarrow> bytes" where
  "gdt_storage st = (case s_groups st of None \<Rightarrow> []
     | Some gs \<Rightarrow> concat (map enc_group gs) @ s_gdt_tail st)"

definition gdt_slot :: "fs \<Rightarrow> nat \<Rightarrow> u64 option" where
  "gdt_slot st index = (case s_gdt_bhs st of None \<Rightarrow> None | Some bhs \<Rightarrow> bhs ! index)"

definition cryexts_copy_gdt_to_blocks :: "fs \<Rightarrow> fs" where
  "cryexts_copy_gdt_to_blocks st =
     (if s_gdt_bhs st = None \<or> s_groups st = None then st
      else fold (\<lambda>index st. case gdt_slot st index of
                   None \<Rightarrow> st
                 | Some bh \<Rightarrow> set_bdata bh (get_bytes (gdt_storage st) (index * BLOCK_SIZE) BLOCK_SIZE) st)
             [0..<unat (s_group_desc_table_blocks st)] st)"

definition cryexts_release_group_desc_table :: "fs \<Rightarrow> fs" where
  "cryexts_release_group_desc_table st =
     st\<lparr>s_gdt_bhs := None, s_groups := None, s_gdt_tail := []\<rparr>"

fun read_gdt_blocks :: "u64 \<Rightarrow> nat list \<Rightarrow> (fs, bytes) act" where
  "read_gdt_blocks start [] = retE []"
| "read_gdt_blocks start (i # is) =
     bindE (cryexts_read_file_block (start + of_nat i)) (\<lambda>data.
     bindE (read_gdt_blocks start is) (\<lambda>rest. retE (data @ rest)))"

text \<open>The array of descriptors that the pointer \<open>sbi->groups\<close> sees in the storage.\<close>

definition overlay_groups :: "nat \<Rightarrow> bytes \<Rightarrow> cryexts_group_desc list" where
  "overlay_groups n storage =
     map (\<lambda>i. dec_group (get_bytes storage (i * GROUP_BYTES) GROUP_BYTES)) [0..<n]"

definition cryexts_load_group_desc_table :: "(fs, unit) act" where
  "cryexts_load_group_desc_table = (\<lambda>st.
     if sb_version (s_disk_sb st) < CRYEXTS_VERSION_V4 then (Inr (), st)
     else if s_group_desc_table_blocks st = 0 then (Inl EINVAL, st)
     else bindE kmalloc (\<lambda>_.
       on_errE
         (bindE kmalloc (\<lambda>_.
          bindE (read_gdt_blocks (s_group_desc_table_start st)
                   [0..<unat (s_group_desc_table_blocks st)]) (\<lambda>storage.
          modE (\<lambda>st. st\<lparr>
            s_gdt_bhs := Some (map (\<lambda>i. Some (s_group_desc_table_start st + of_nat i))
                                [0..<unat (s_group_desc_table_blocks st)]),
            s_groups := Some (overlay_groups (unat (s_group_count st)) storage),
            s_gdt_tail := drop (unat (s_group_count st) * GROUP_BYTES) storage\<rparr>))))
         (\<lambda>_. cryexts_release_group_desc_table)) st)"

definition cryexts_gdt_prepare_write :: "fs \<Rightarrow> fs" where
  "cryexts_gdt_prepare_write st =
     (if s_groups st = None then st
      else let st = (if cryexts_metadata_csum_enabled st
                     then cryexts_update_group_checksums st else st)
           in cryexts_copy_gdt_to_blocks st)"

section \<open>Correctness of the checksums\<close>

lemma set_super_csum_simps [simp]:
  "sb_version (set_super_csum c sb) = sb_version sb"
  "sb_features_ro_compat (set_super_csum c sb) = sb_features_ro_compat sb"
  "sb_metadata_csum_type (set_super_csum c sb) = sb_metadata_csum_type sb"
  "sb_fs_generation (set_super_csum c sb) = sb_fs_generation sb"
  "wf_super sb \<Longrightarrow> wf_super (set_super_csum c sb)"
  by (simp_all add: set_super_csum_def wf_super_def)

lemma csum_enabled_set_super_csum [simp]:
  "cryexts_metadata_csum_enabled_disk (set_super_csum c sb) = cryexts_metadata_csum_enabled_disk sb"
  by (simp add: cryexts_metadata_csum_enabled_disk_def)

lemma super_sealed:
  assumes "wf_super sb"
  shows "get32 (sb_reserved (set_super_csum (cryexts_super_expected_checksum sb) sb)) 0 =
    cryexts_super_expected_checksum (set_super_csum (cryexts_super_expected_checksum sb) sb)"
  using super.seal_check [OF length_enc_super [OF assms]] assms
  by (simp add: dec_enc_super)

lemma verify_update_super:
  "wf_super (s_disk_sb st) \<Longrightarrow>
   cryexts_verify_super_checksum (cryexts_update_super_checksum st) = Inr ()"
  by (simp add: cryexts_verify_super_checksum_def cryexts_update_super_checksum_def Let_def
      upd_disk_sb_def super_sealed)

lemma set_group_csum_simps [simp]:
  "gd_group_start (set_group_csum c g) = gd_group_start g"
  "wf_group g \<Longrightarrow> wf_group (set_group_csum c g)"
  by (simp_all add: set_group_csum_def wf_group_def)

lemma group_sealed:
  assumes "wf_group g"
  shows "get32 (gd_reserved (set_group_csum (cryexts_group_expected_checksum sb g) g)) 0 =
    cryexts_group_expected_checksum sb (set_group_csum (cryexts_group_expected_checksum sb g) g)"
  using group.seal_check [OF length_enc_group [OF assms]] assms
  by (simp add: dec_enc_group)

lemma fold_update_each:
  "n \<le> length xs \<Longrightarrow> fold (\<lambda>i xs. xs[i := f (xs ! i)]) [0..<n] xs = map f (take n xs) @ drop n xs"
proof (induction n)
  case (Suc n)
  then have "n < length xs" by simp
  then have "(map f (take n xs) @ drop n xs)[n := f ((map f (take n xs) @ drop n xs) ! n)] =
      map f (take (Suc n) xs) @ drop (Suc n) xs"
    by (simp add: list_update_append nth_append take_Suc_conv_app_nth
        Cons_nth_drop_Suc [symmetric])
  with Suc show ?case by simp
qed simp

lemma verify_update_groups:
  assumes "s_groups st = Some gs" and "unat (s_group_count st) \<le> length gs"
    and "\<forall>g \<in> set gs. wf_group g"
  shows "cryexts_verify_group_checksums (cryexts_update_group_checksums st) = Inr ()"
proof -
  let ?n = "unat (s_group_count st)"
  let ?f = "\<lambda>g. set_group_csum (cryexts_group_expected_checksum (s_disk_sb st) g) g"
  have "get32 (gd_reserved (?f (gs ! i))) 0 =
      cryexts_group_expected_checksum (s_disk_sb st) (?f (gs ! i))" if "i < ?n" for i
    using that assms by (intro group_sealed) auto
  then show ?thesis
    using assms fold_update_each [OF assms(2), of ?f]
    by (simp add: cryexts_verify_group_checksums_def cryexts_update_group_checksums_def
        cryexts_metadata_csum_enabled_def list_all_iff nth_append)
qed

end
