(* ===== verification/JournalFormat.thy ===== *)
theory JournalFormat
  imports Metadata
begin

text \<open>
  The on-disk structures of the three journal formats (\<open>cryexts_fs.h\<close>): the header of version 1,
  and the control, descriptor and commit blocks of versions 2 and 3.  Each is a record with its
  packed encoding into a whole block (the code clears the block before it fills the structure in)
  and the decoding that the code's pointer casts amount to.  All of them carry a checksum; the
  locale \<open>block_codec\<close> states what the journal needs of such a structure and is interpreted on
  every one of them.
\<close>

section \<open>Constants\<close>

definition CRYEXTS_JOURNAL_MAGIC :: u32 where [const_simps]: "CRYEXTS_JOURNAL_MAGIC = 0x4a4e4c31"
definition CRYEXTS_JOURNAL_FLAG_VALID :: u32 where [const_simps]: "CRYEXTS_JOURNAL_FLAG_VALID = 1"
definition CRYEXTS_JOURNAL_CHECKSUM_OFFSET :: nat where "CRYEXTS_JOURNAL_CHECKSUM_OFFSET = 12"
definition CRYEXTS_JOURNAL_MAX_ENTRIES :: nat where
  "CRYEXTS_JOURNAL_MAX_ENTRIES = (BLOCK_SIZE - 64) div 8"
definition CRYEXTS_JOURNAL_V2_MIN_BLOCKS :: u64 where "CRYEXTS_JOURNAL_V2_MIN_BLOCKS = 4"
definition CRYEXTS_JOURNAL_V2_MAGIC :: u32 where "CRYEXTS_JOURNAL_V2_MAGIC = 0x4a4e4c32"
definition CRYEXTS_JOURNAL_V2_LAYOUT_VERSION :: u16 where "CRYEXTS_JOURNAL_V2_LAYOUT_VERSION = 2"
definition CRYEXTS_JOURNAL_V2_FEATURE_BASELINE :: u32 where
  "CRYEXTS_JOURNAL_V2_FEATURE_BASELINE = 1"
definition CRYEXTS_JOURNAL_V2_FLAG_ACTIVE :: u32 where "CRYEXTS_JOURNAL_V2_FLAG_ACTIVE = 1"
definition CRYEXTS_JOURNAL_V2_FLAG_COMMITTED :: u32 where "CRYEXTS_JOURNAL_V2_FLAG_COMMITTED = 2"
definition CRYEXTS_JOURNAL_V2_BLOCK_CONTROL :: u16 where "CRYEXTS_JOURNAL_V2_BLOCK_CONTROL = 1"
definition CRYEXTS_JOURNAL_V2_BLOCK_DESCRIPTOR :: u16 where
  "CRYEXTS_JOURNAL_V2_BLOCK_DESCRIPTOR = 2"
definition CRYEXTS_JOURNAL_V2_BLOCK_COMMIT :: u16 where "CRYEXTS_JOURNAL_V2_BLOCK_COMMIT = 3"
definition CRYEXTS_JOURNAL_V2_MAX_ENTRIES :: nat where
  "CRYEXTS_JOURNAL_V2_MAX_ENTRIES = (BLOCK_SIZE - 72) div 8"
definition CRYEXTS_JOURNAL_V3_MIN_BLOCKS :: u64 where "CRYEXTS_JOURNAL_V3_MIN_BLOCKS = 4"
definition CRYEXTS_JOURNAL_V3_MAGIC :: u32 where "CRYEXTS_JOURNAL_V3_MAGIC = 0x4a4e4c33"
definition CRYEXTS_JOURNAL_V3_LAYOUT_VERSION :: u16 where "CRYEXTS_JOURNAL_V3_LAYOUT_VERSION = 3"
definition CRYEXTS_JOURNAL_V3_FEATURE_REDO :: u32 where "CRYEXTS_JOURNAL_V3_FEATURE_REDO = 1"
definition CRYEXTS_JOURNAL_V3_FEATURE_RING :: u32 where "CRYEXTS_JOURNAL_V3_FEATURE_RING = 2"
definition CRYEXTS_JOURNAL_V3_STATE_IDLE :: u32 where "CRYEXTS_JOURNAL_V3_STATE_IDLE = 0"
definition CRYEXTS_JOURNAL_V3_STATE_ACTIVE :: u32 where "CRYEXTS_JOURNAL_V3_STATE_ACTIVE = 1"
definition CRYEXTS_JOURNAL_V3_STATE_PREPARED :: u32 where "CRYEXTS_JOURNAL_V3_STATE_PREPARED = 2"
definition CRYEXTS_JOURNAL_V3_STATE_COMMITTED :: u32 where "CRYEXTS_JOURNAL_V3_STATE_COMMITTED = 3"
definition CRYEXTS_JOURNAL_V3_STATE_CHECKPOINTING :: u32 where
  "CRYEXTS_JOURNAL_V3_STATE_CHECKPOINTING = 4"
definition CRYEXTS_JOURNAL_V3_FLAG_COMMITTED :: u32 where "CRYEXTS_JOURNAL_V3_FLAG_COMMITTED = 1"
definition CRYEXTS_JOURNAL_V3_BLOCK_CONTROL :: u16 where "CRYEXTS_JOURNAL_V3_BLOCK_CONTROL = 1"
definition CRYEXTS_JOURNAL_V3_BLOCK_DESCRIPTOR :: u16 where
  "CRYEXTS_JOURNAL_V3_BLOCK_DESCRIPTOR = 2"
definition CRYEXTS_JOURNAL_V3_BLOCK_COMMIT :: u16 where "CRYEXTS_JOURNAL_V3_BLOCK_COMMIT = 3"
definition CRYEXTS_JOURNAL_V3_MAX_ENTRIES :: nat where
  "CRYEXTS_JOURNAL_V3_MAX_ENTRIES = (BLOCK_SIZE - 72) div 16"

text \<open>The checksum field of every version 2 and 3 structure is at byte 16.\<close>

definition JOURNAL_V2_CHECKSUM_OFF :: nat where "JOURNAL_V2_CHECKSUM_OFF = 16"

section \<open>Structures\<close>

text \<open>Version 1.\<close>

record cryexts_journal_header =
  jh_magic :: u32
  jh_flags :: u32
  jh_entry_count :: u32
  jh_checksum :: u32
  jh_sequence :: u64
  jh_reserved :: bytes
  jh_home_blocks :: "u64 list"

definition enc_jh :: "cryexts_journal_header \<Rightarrow> bytes" where
  "enc_jh j = le32 (jh_magic j) @ le32 (jh_flags j) @ le32 (jh_entry_count j) @
     le32 (jh_checksum j) @ le64 (jh_sequence j) @ jh_reserved j @
     concat (map le64 (jh_home_blocks j))"

definition dec_jh :: "bytes \<Rightarrow> cryexts_journal_header" where
  "dec_jh b = \<lparr>
     jh_magic = get32 b 0,
     jh_flags = get32 b 4,
     jh_entry_count = get32 b 8,
     jh_checksum = get32 b 12,
     jh_sequence = get64 b 16,
     jh_reserved = get_bytes b 24 40,
     jh_home_blocks = map (\<lambda>i. get64 b (64 + 8 * i)) [0..<CRYEXTS_JOURNAL_MAX_ENTRIES] \<rparr>"

definition wf_jh :: "cryexts_journal_header \<Rightarrow> bool" where
  "wf_jh j \<longleftrightarrow> length (jh_reserved j) = 40 \<and> length (jh_home_blocks j) = CRYEXTS_JOURNAL_MAX_ENTRIES"

text \<open>Version 2.\<close>

record cryexts_journal_v2_control =
  c2_magic :: u32
  c2_layout_version :: u16
  c2_block_type :: u16
  c2_flags :: u32
  c2_features :: u32
  c2_checksum :: u32
  c2_reserved0 :: u32
  c2_last_sequence :: u64
  c2_active_sequence :: u64
  c2_tail_sequence :: u64
  c2_checkpoint_sequence :: u64
  c2_descriptor_block :: u64
  c2_payload_start :: u64
  c2_payload_blocks :: u64
  c2_commit_block :: u64
  c2_reserved :: bytes

definition enc_c2 :: "cryexts_journal_v2_control \<Rightarrow> bytes" where
  "enc_c2 j = pad_block (
     le32 (c2_magic j) @ le16 (c2_layout_version j) @ le16 (c2_block_type j) @
     le32 (c2_flags j) @ le32 (c2_features j) @ le32 (c2_checksum j) @
     le32 (c2_reserved0 j) @ le64 (c2_last_sequence j) @ le64 (c2_active_sequence j) @
     le64 (c2_tail_sequence j) @ le64 (c2_checkpoint_sequence j) @
     le64 (c2_descriptor_block j) @ le64 (c2_payload_start j) @
     le64 (c2_payload_blocks j) @ le64 (c2_commit_block j) @ c2_reserved j)"

definition dec_c2 :: "bytes \<Rightarrow> cryexts_journal_v2_control" where
  "dec_c2 b = \<lparr>
     c2_magic = get32 b 0,
     c2_layout_version = get16 b 4,
     c2_block_type = get16 b 6,
     c2_flags = get32 b 8,
     c2_features = get32 b 12,
     c2_checksum = get32 b 16,
     c2_reserved0 = get32 b 20,
     c2_last_sequence = get64 b 24,
     c2_active_sequence = get64 b 32,
     c2_tail_sequence = get64 b 40,
     c2_checkpoint_sequence = get64 b 48,
     c2_descriptor_block = get64 b 56,
     c2_payload_start = get64 b 64,
     c2_payload_blocks = get64 b 72,
     c2_commit_block = get64 b 80,
     c2_reserved = get_bytes b 88 56 \<rparr>"

definition wf_c2 :: "cryexts_journal_v2_control \<Rightarrow> bool" where
  "wf_c2 j \<longleftrightarrow> length (c2_reserved j) = 56"

record cryexts_journal_v2_descriptor =
  d2_magic :: u32
  d2_layout_version :: u16
  d2_block_type :: u16
  d2_flags :: u32
  d2_entry_count :: u32
  d2_checksum :: u32
  d2_reserved0 :: u32
  d2_sequence :: u64
  d2_payload_start :: u64
  d2_commit_block :: u64
  d2_reserved :: bytes
  d2_home_blocks :: "u64 list"

definition enc_d2 :: "cryexts_journal_v2_descriptor \<Rightarrow> bytes" where
  "enc_d2 j = le32 (d2_magic j) @ le16 (d2_layout_version j) @ le16 (d2_block_type j) @
     le32 (d2_flags j) @ le32 (d2_entry_count j) @ le32 (d2_checksum j) @
     le32 (d2_reserved0 j) @ le64 (d2_sequence j) @ le64 (d2_payload_start j) @
     le64 (d2_commit_block j) @ d2_reserved j @ concat (map le64 (d2_home_blocks j))"

definition dec_d2 :: "bytes \<Rightarrow> cryexts_journal_v2_descriptor" where
  "dec_d2 b = \<lparr>
     d2_magic = get32 b 0,
     d2_layout_version = get16 b 4,
     d2_block_type = get16 b 6,
     d2_flags = get32 b 8,
     d2_entry_count = get32 b 12,
     d2_checksum = get32 b 16,
     d2_reserved0 = get32 b 20,
     d2_sequence = get64 b 24,
     d2_payload_start = get64 b 32,
     d2_commit_block = get64 b 40,
     d2_reserved = get_bytes b 48 24,
     d2_home_blocks = map (\<lambda>i. get64 b (72 + 8 * i)) [0..<CRYEXTS_JOURNAL_V2_MAX_ENTRIES] \<rparr>"

definition wf_d2 :: "cryexts_journal_v2_descriptor \<Rightarrow> bool" where
  "wf_d2 j \<longleftrightarrow> length (d2_reserved j) = 24 \<and> length (d2_home_blocks j) = CRYEXTS_JOURNAL_V2_MAX_ENTRIES"

record cryexts_journal_v2_commit =
  m2_magic :: u32
  m2_layout_version :: u16
  m2_block_type :: u16
  m2_flags :: u32
  m2_entry_count :: u32
  m2_checksum :: u32
  m2_reserved0 :: u32
  m2_sequence :: u64
  m2_descriptor_block :: u64
  m2_reserved :: bytes

definition enc_m2 :: "cryexts_journal_v2_commit \<Rightarrow> bytes" where
  "enc_m2 j = pad_block (
     le32 (m2_magic j) @ le16 (m2_layout_version j) @ le16 (m2_block_type j) @
     le32 (m2_flags j) @ le32 (m2_entry_count j) @ le32 (m2_checksum j) @
     le32 (m2_reserved0 j) @ le64 (m2_sequence j) @ le64 (m2_descriptor_block j) @
     m2_reserved j)"

definition dec_m2 :: "bytes \<Rightarrow> cryexts_journal_v2_commit" where
  "dec_m2 b = \<lparr>
     m2_magic = get32 b 0,
     m2_layout_version = get16 b 4,
     m2_block_type = get16 b 6,
     m2_flags = get32 b 8,
     m2_entry_count = get32 b 12,
     m2_checksum = get32 b 16,
     m2_reserved0 = get32 b 20,
     m2_sequence = get64 b 24,
     m2_descriptor_block = get64 b 32,
     m2_reserved = get_bytes b 40 32 \<rparr>"

definition wf_m2 :: "cryexts_journal_v2_commit \<Rightarrow> bool" where
  "wf_m2 j \<longleftrightarrow> length (m2_reserved j) = 32"

text \<open>Version 3.\<close>

record cryexts_journal_v3_control =
  c3_magic :: u32
  c3_layout_version :: u16
  c3_block_type :: u16
  c3_state :: u32
  c3_features :: u32
  c3_checksum :: u32
  c3_reserved0 :: u32
  c3_last_sequence :: u64
  c3_active_sequence :: u64
  c3_checkpoint_sequence :: u64
  c3_descriptor_block :: u64
  c3_payload_start :: u64
  c3_payload_blocks :: u64
  c3_commit_block :: u64
  c3_ring_head :: u64
  c3_ring_tail :: u64
  c3_ring_start :: u64
  c3_ring_end :: u64
  c3_reserved :: bytes

definition enc_c3 :: "cryexts_journal_v3_control \<Rightarrow> bytes" where
  "enc_c3 j = pad_block (
     le32 (c3_magic j) @ le16 (c3_layout_version j) @ le16 (c3_block_type j) @
     le32 (c3_state j) @ le32 (c3_features j) @ le32 (c3_checksum j) @
     le32 (c3_reserved0 j) @ le64 (c3_last_sequence j) @ le64 (c3_active_sequence j) @
     le64 (c3_checkpoint_sequence j) @ le64 (c3_descriptor_block j) @
     le64 (c3_payload_start j) @ le64 (c3_payload_blocks j) @ le64 (c3_commit_block j) @
     le64 (c3_ring_head j) @ le64 (c3_ring_tail j) @ le64 (c3_ring_start j) @
     le64 (c3_ring_end j) @ c3_reserved j)"

definition dec_c3 :: "bytes \<Rightarrow> cryexts_journal_v3_control" where
  "dec_c3 b = \<lparr>
     c3_magic = get32 b 0,
     c3_layout_version = get16 b 4,
     c3_block_type = get16 b 6,
     c3_state = get32 b 8,
     c3_features = get32 b 12,
     c3_checksum = get32 b 16,
     c3_reserved0 = get32 b 20,
     c3_last_sequence = get64 b 24,
     c3_active_sequence = get64 b 32,
     c3_checkpoint_sequence = get64 b 40,
     c3_descriptor_block = get64 b 48,
     c3_payload_start = get64 b 56,
     c3_payload_blocks = get64 b 64,
     c3_commit_block = get64 b 72,
     c3_ring_head = get64 b 80,
     c3_ring_tail = get64 b 88,
     c3_ring_start = get64 b 96,
     c3_ring_end = get64 b 104,
     c3_reserved = get_bytes b 112 16 \<rparr>"

definition wf_c3 :: "cryexts_journal_v3_control \<Rightarrow> bool" where
  "wf_c3 j \<longleftrightarrow> length (c3_reserved j) = 16"

record cryexts_journal_v3_entry =
  e3_home_block :: u64
  e3_payload_checksum :: u32
  e3_flags :: u32

definition enc_e3 :: "cryexts_journal_v3_entry \<Rightarrow> bytes" where
  "enc_e3 e = le64 (e3_home_block e) @ le32 (e3_payload_checksum e) @ le32 (e3_flags e)"

definition dec_e3 :: "bytes \<Rightarrow> cryexts_journal_v3_entry" where
  "dec_e3 b = \<lparr>
     e3_home_block = get64 b 0,
     e3_payload_checksum = get32 b 8,
     e3_flags = get32 b 12 \<rparr>"

record cryexts_journal_v3_descriptor =
  d3_magic :: u32
  d3_layout_version :: u16
  d3_block_type :: u16
  d3_flags :: u32
  d3_entry_count :: u32
  d3_checksum :: u32
  d3_reserved0 :: u32
  d3_sequence :: u64
  d3_payload_start :: u64
  d3_commit_block :: u64
  d3_reserved :: bytes
  d3_entries :: "cryexts_journal_v3_entry list"

definition enc_d3 :: "cryexts_journal_v3_descriptor \<Rightarrow> bytes" where
  "enc_d3 j = pad_block (
     le32 (d3_magic j) @ le16 (d3_layout_version j) @ le16 (d3_block_type j) @
     le32 (d3_flags j) @ le32 (d3_entry_count j) @ le32 (d3_checksum j) @
     le32 (d3_reserved0 j) @ le64 (d3_sequence j) @ le64 (d3_payload_start j) @
     le64 (d3_commit_block j) @ d3_reserved j @ concat (map enc_e3 (d3_entries j)))"

definition dec_d3 :: "bytes \<Rightarrow> cryexts_journal_v3_descriptor" where
  "dec_d3 b = \<lparr>
     d3_magic = get32 b 0,
     d3_layout_version = get16 b 4,
     d3_block_type = get16 b 6,
     d3_flags = get32 b 8,
     d3_entry_count = get32 b 12,
     d3_checksum = get32 b 16,
     d3_reserved0 = get32 b 20,
     d3_sequence = get64 b 24,
     d3_payload_start = get64 b 32,
     d3_commit_block = get64 b 40,
     d3_reserved = get_bytes b 48 24,
     d3_entries = map (\<lambda>i. dec_e3 (get_bytes b (72 + 16 * i) 16)) [0..<CRYEXTS_JOURNAL_V3_MAX_ENTRIES] \<rparr>"

definition wf_d3 :: "cryexts_journal_v3_descriptor \<Rightarrow> bool" where
  "wf_d3 j \<longleftrightarrow> length (d3_reserved j) = 24 \<and> length (d3_entries j) = CRYEXTS_JOURNAL_V3_MAX_ENTRIES"

record cryexts_journal_v3_commit =
  m3_magic :: u32
  m3_layout_version :: u16
  m3_block_type :: u16
  m3_flags :: u32
  m3_entry_count :: u32
  m3_checksum :: u32
  m3_descriptor_checksum :: u32
  m3_payload_checksum :: u32
  m3_reserved0 :: u32
  m3_sequence :: u64
  m3_descriptor_block :: u64
  m3_reserved :: bytes

definition enc_m3 :: "cryexts_journal_v3_commit \<Rightarrow> bytes" where
  "enc_m3 j = pad_block (
     le32 (m3_magic j) @ le16 (m3_layout_version j) @ le16 (m3_block_type j) @
     le32 (m3_flags j) @ le32 (m3_entry_count j) @ le32 (m3_checksum j) @
     le32 (m3_descriptor_checksum j) @ le32 (m3_payload_checksum j) @
     le32 (m3_reserved0 j) @ le64 (m3_sequence j) @ le64 (m3_descriptor_block j) @
     m3_reserved j)"

definition dec_m3 :: "bytes \<Rightarrow> cryexts_journal_v3_commit" where
  "dec_m3 b = \<lparr>
     m3_magic = get32 b 0,
     m3_layout_version = get16 b 4,
     m3_block_type = get16 b 6,
     m3_flags = get32 b 8,
     m3_entry_count = get32 b 12,
     m3_checksum = get32 b 16,
     m3_descriptor_checksum = get32 b 20,
     m3_payload_checksum = get32 b 24,
     m3_reserved0 = get32 b 28,
     m3_sequence = get64 b 32,
     m3_descriptor_block = get64 b 40,
     m3_reserved = get_bytes b 48 24 \<rparr>"

definition wf_m3 :: "cryexts_journal_v3_commit \<Rightarrow> bool" where
  "wf_m3 j \<longleftrightarrow> length (m3_reserved j) = 24"


section \<open>Checksums of journal blocks\<close>

definition cryexts_checksum_skip :: "bytes \<Rightarrow> nat \<Rightarrow> nat \<Rightarrow> nat \<Rightarrow> u32" where
  "cryexts_checksum_skip buf len skip_offset skip_len =
     fnv_loop_skip buf len skip_offset skip_len FNV_OFFSET"

definition cryexts_fnv1a_update :: "u32 \<Rightarrow> bytes \<Rightarrow> nat \<Rightarrow> u32" where
  "cryexts_fnv1a_update hash buf len = fnv_loop buf len hash"

definition cryexts_journal_checksum :: "bytes \<Rightarrow> nat \<Rightarrow> u32" where
  "cryexts_journal_checksum buf len =
     cryexts_checksum_skip buf len CRYEXTS_JOURNAL_CHECKSUM_OFFSET 4"

definition cryexts_journal_v2_checksum :: "bytes \<Rightarrow> nat \<Rightarrow> nat \<Rightarrow> u32" where
  "cryexts_journal_v2_checksum buf len checksum_offset =
     cryexts_checksum_skip buf len checksum_offset 4"

section \<open>The contract of a checksummed structure\<close>

locale block_codec =
  fixes enc :: "'r \<Rightarrow> bytes" and dec :: "bytes \<Rightarrow> 'r"
    and set_csum :: "u32 \<Rightarrow> 'r \<Rightarrow> 'r" and csum :: "'r \<Rightarrow> u32"
    and wf :: "'r \<Rightarrow> bool" and off :: nat
  assumes off_fits: "off + 4 \<le> BLOCK_SIZE"
    and length_enc: "wf r \<Longrightarrow> length (enc r) = BLOCK_SIZE"
    and dec_enc: "wf r \<Longrightarrow> dec (enc r) = r"
    and wf_set: "wf r \<Longrightarrow> wf (set_csum c r)"
    and enc_set: "wf r \<Longrightarrow> enc (set_csum c r) = put_bytes off (le32 c) (enc r)"
    and csum_dec: "csum (dec b) = get32 b off"
begin

sublocale sealed: sealed_block BLOCK_SIZE off "\<lambda>_. FNV_OFFSET"
    "\<lambda>b. put_bytes off (le32 (cryexts_checksum_skip b BLOCK_SIZE off 4)) b"
    "\<lambda>b. csum (dec b) = cryexts_checksum_skip b BLOCK_SIZE off 4"
  by unfold_locales (simp_all add: off_fits cryexts_checksum_skip_def csum_dec)

lemma sealed_enc:
  assumes "wf r"
  defines "r' \<equiv> set_csum (cryexts_checksum_skip (enc r) BLOCK_SIZE off 4) r"
  shows "dec (enc r') = r'" and "length (enc r') = BLOCK_SIZE"
    and "csum r' = cryexts_checksum_skip (enc r') BLOCK_SIZE off 4"
proof -
  have wf': "wf r'" unfolding r'_def using assms(1) by (rule wf_set)
  then show "dec (enc r') = r'" "length (enc r') = BLOCK_SIZE"
    by (auto intro: dec_enc length_enc)
  show "csum r' = cryexts_checksum_skip (enc r') BLOCK_SIZE off 4"
    using sealed.seal_check [OF length_enc [OF assms(1)]] dec_enc [OF wf']
    by (simp add: r'_def enc_set [OF assms(1)])
qed

end

subsection \<open>Arrays in structures\<close>

lemma map_get64_array:
  "length xs = n \<Longrightarrow> map (\<lambda>i. get64 (concat (map le64 xs)) (8 * i)) [0..<n] = xs"
  by (rule nth_equalityI) (simp_all add: get64_array)

lemma length_enc_e3 [simp, layout_simps]: "length (enc_e3 e) = 16"
  by (simp add: enc_e3_def)

lemma dec_enc_e3 [simp]: "dec_e3 (enc_e3 e) = e"
  by (simp add: enc_e3_def dec_e3_def layout_simps)

lemma length_concat_e3 [simp, layout_simps]: "length (concat (map enc_e3 xs)) = 16 * length xs"
  by (induction xs) simp_all

lemma get_e3_array:
  "i < length xs \<Longrightarrow> get_bytes (concat (map enc_e3 xs) @ ys) (16 * i) 16 = enc_e3 (xs ! i)"
proof (induction xs arbitrary: i)
  case (Cons x xs)
  then show ?case by (cases i) (simp_all add: layout_simps)
qed simp

lemma map_get_e3_array:
  "length xs = n \<Longrightarrow>
   map (\<lambda>i. dec_e3 (get_bytes (concat (map enc_e3 xs) @ ys) (16 * i) 16)) [0..<n] = xs"
  by (rule nth_equalityI) (simp_all add: get_e3_array)

lemma put_at:
  "length xs = off \<Longrightarrow> length v = length w \<Longrightarrow> put_bytes off v (xs @ w @ ys) = xs @ v @ ys"
  by (simp add: put_bytes_def)

lemmas codec_simps =
  layout_simps pad_block_def BLOCK_SIZE_def put_bytes_def map_get64_array map_get_e3_array

subsection \<open>Interpretations\<close>

interpretation jh: block_codec enc_jh dec_jh
    "\<lambda>c j. j\<lparr>jh_checksum := c\<rparr>" jh_checksum wf_jh CRYEXTS_JOURNAL_CHECKSUM_OFFSET
  by unfold_locales
    (simp_all add: enc_jh_def dec_jh_def wf_jh_def CRYEXTS_JOURNAL_CHECKSUM_OFFSET_def codec_simps CRYEXTS_JOURNAL_MAX_ENTRIES_def)

interpretation c2: block_codec enc_c2 dec_c2
    "\<lambda>c j. j\<lparr>c2_checksum := c\<rparr>" c2_checksum wf_c2 JOURNAL_V2_CHECKSUM_OFF
  by unfold_locales
    (simp_all add: enc_c2_def dec_c2_def wf_c2_def JOURNAL_V2_CHECKSUM_OFF_def codec_simps)

interpretation d2: block_codec enc_d2 dec_d2
    "\<lambda>c j. j\<lparr>d2_checksum := c\<rparr>" d2_checksum wf_d2 JOURNAL_V2_CHECKSUM_OFF
  by unfold_locales
    (simp_all add: enc_d2_def dec_d2_def wf_d2_def JOURNAL_V2_CHECKSUM_OFF_def codec_simps CRYEXTS_JOURNAL_V2_MAX_ENTRIES_def)

interpretation m2: block_codec enc_m2 dec_m2
    "\<lambda>c j. j\<lparr>m2_checksum := c\<rparr>" m2_checksum wf_m2 JOURNAL_V2_CHECKSUM_OFF
  by unfold_locales
    (simp_all add: enc_m2_def dec_m2_def wf_m2_def JOURNAL_V2_CHECKSUM_OFF_def codec_simps)

interpretation c3: block_codec enc_c3 dec_c3
    "\<lambda>c j. j\<lparr>c3_checksum := c\<rparr>" c3_checksum wf_c3 JOURNAL_V2_CHECKSUM_OFF
  by unfold_locales
    (simp_all add: enc_c3_def dec_c3_def wf_c3_def JOURNAL_V2_CHECKSUM_OFF_def codec_simps)

interpretation d3: block_codec enc_d3 dec_d3
    "\<lambda>c j. j\<lparr>d3_checksum := c\<rparr>" d3_checksum wf_d3 JOURNAL_V2_CHECKSUM_OFF
  by unfold_locales
    (simp_all add: enc_d3_def dec_d3_def wf_d3_def JOURNAL_V2_CHECKSUM_OFF_def codec_simps CRYEXTS_JOURNAL_V3_MAX_ENTRIES_def)

interpretation m3: block_codec enc_m3 dec_m3
    "\<lambda>c j. j\<lparr>m3_checksum := c\<rparr>" m3_checksum wf_m3 JOURNAL_V2_CHECKSUM_OFF
  by unfold_locales
    (simp_all add: enc_m3_def dec_m3_def wf_m3_def JOURNAL_V2_CHECKSUM_OFF_def codec_simps)

end
