(* ===== verification/JournalBlocks.thy ===== *)
theory JournalBlocks
  imports JournalFormat
begin

text \<open>
  Where the journal lies and how its blocks are built and recognised (\<open>journal.c\<close>): the geometry
  of the journal area, the \<open>prepare\<close> functions that fill a block in, and the \<open>valid\<close> functions
  that accept or refuse one on reading.  The lemmas at the end say that what is prepared is
  accepted and reads back as written.
\<close>

section \<open>Which journal\<close>

definition cryexts_journal_uses_v2 :: "fs \<Rightarrow> bool" where
  "cryexts_journal_uses_v2 st \<longleftrightarrow> s_journal_enabled st \<and> s_journal_v2 st"

definition cryexts_journal_uses_v3 :: "fs \<Rightarrow> bool" where
  "cryexts_journal_uses_v3 st \<longleftrightarrow> s_journal_enabled st \<and> s_journal_v3 st"

section \<open>Geometry\<close>

definition cryexts_journal_block_is_internal :: "fs \<Rightarrow> u64 \<Rightarrow> bool" where
  "cryexts_journal_block_is_internal st block \<longleftrightarrow>
     s_journal_block st \<le> block \<and> block < s_journal_block st + s_journal_blocks st"

definition cryexts_journal_v2_descriptor_block :: "fs \<Rightarrow> u64" where
  "cryexts_journal_v2_descriptor_block st = s_journal_block st + 1"

definition cryexts_journal_v2_payload_start :: "fs \<Rightarrow> u64" where
  "cryexts_journal_v2_payload_start st = s_journal_block st + 2"

definition cryexts_journal_v2_payload_area_blocks :: "fs \<Rightarrow> u64" where
  "cryexts_journal_v2_payload_area_blocks st =
     (if s_journal_blocks st < CRYEXTS_JOURNAL_V2_MIN_BLOCKS then 0 else s_journal_blocks st - 3)"

definition cryexts_journal_v2_commit_block :: "fs \<Rightarrow> u64" where
  "cryexts_journal_v2_commit_block st = s_journal_block st + s_journal_blocks st - 1"

text \<open>The 64-bit minimum, returned as a 32-bit integer.\<close>

definition cryexts_journal_v2_payload_capacity :: "fs \<Rightarrow> u32" where
  "cryexts_journal_v2_payload_capacity st =
     (if s_journal_blocks st < CRYEXTS_JOURNAL_V2_MIN_BLOCKS then 0
      else ucast (min (of_nat CRYEXTS_JOURNAL_V2_MAX_ENTRIES) (s_journal_blocks st - 3)))"

definition cryexts_journal_v3_payload_capacity :: "fs \<Rightarrow> u32" where
  "cryexts_journal_v3_payload_capacity st =
     (if s_journal_blocks st < CRYEXTS_JOURNAL_V3_MIN_BLOCKS then 0
      else ucast (min (of_nat CRYEXTS_JOURNAL_V3_MAX_ENTRIES) (s_journal_blocks st - 3)))"

definition cryexts_journal_v3_features :: "fs \<Rightarrow> u32" where
  "cryexts_journal_v3_features st =
     CRYEXTS_JOURNAL_V3_FEATURE_REDO OR
     (if s_journal_ring st then CRYEXTS_JOURNAL_V3_FEATURE_RING else 0)"

definition cryexts_journal_v3_ring_start :: "fs \<Rightarrow> u64" where
  "cryexts_journal_v3_ring_start st = s_journal_block st + 1"

definition cryexts_journal_v3_ring_end :: "fs \<Rightarrow> u64" where
  "cryexts_journal_v3_ring_end st = s_journal_block st + s_journal_blocks st"

section \<open>Version 1\<close>

definition cryexts_journal_prepare_header :: "u32 \<Rightarrow> u32 \<Rightarrow> u64 \<Rightarrow> bytes" where
  "cryexts_journal_prepare_header flags entries sequence =
     (let jh = \<lparr>jh_magic = CRYEXTS_JOURNAL_MAGIC, jh_flags = flags, jh_entry_count = entries,
                jh_checksum = 0, jh_sequence = sequence, jh_reserved = replicate 40 0,
                jh_home_blocks = replicate CRYEXTS_JOURNAL_MAX_ENTRIES 0\<rparr>
      in enc_jh (jh\<lparr>jh_checksum := cryexts_journal_checksum (enc_jh jh) BLOCK_SIZE\<rparr>))"

definition cryexts_journal_header_valid :: "fs \<Rightarrow> bytes \<Rightarrow> u32 option" where
  "cryexts_journal_header_valid st buf =
     (let jh = dec_jh buf; entries = jh_entry_count jh in
      if jh_magic jh \<noteq> CRYEXTS_JOURNAL_MAGIC then None
      else if CRYEXTS_JOURNAL_MAX_ENTRIES < unat entries \<or>
              s_journal_blocks st < ucast (entries + 1) then None
      else if jh_checksum jh \<noteq> cryexts_journal_checksum buf BLOCK_SIZE then None
      else if \<not> list_all (\<lambda>i. jh_home_blocks jh ! i = 0)
                [unat entries..<CRYEXTS_JOURNAL_MAX_ENTRIES] then None
      else Some entries)"

section \<open>Version 2\<close>

definition cryexts_journal_v2_prepare_control ::
    "fs \<Rightarrow> u32 \<Rightarrow> u64 \<Rightarrow> u64 \<Rightarrow> u64 \<Rightarrow> u64 \<Rightarrow> bytes" where
  "cryexts_journal_v2_prepare_control st flags active_sequence last_sequence tail_sequence
       checkpoint_sequence =
     (let jc = \<lparr>c2_magic = CRYEXTS_JOURNAL_V2_MAGIC,
                c2_layout_version = CRYEXTS_JOURNAL_V2_LAYOUT_VERSION,
                c2_block_type = CRYEXTS_JOURNAL_V2_BLOCK_CONTROL,
                c2_flags = flags,
                c2_features = CRYEXTS_JOURNAL_V2_FEATURE_BASELINE,
                c2_checksum = 0, c2_reserved0 = 0,
                c2_last_sequence = last_sequence,
                c2_active_sequence = active_sequence,
                c2_tail_sequence = tail_sequence,
                c2_checkpoint_sequence = checkpoint_sequence,
                c2_descriptor_block = cryexts_journal_v2_descriptor_block st,
                c2_payload_start = cryexts_journal_v2_payload_start st,
                c2_payload_blocks = cryexts_journal_v2_payload_area_blocks st,
                c2_commit_block = cryexts_journal_v2_commit_block st,
                c2_reserved = replicate 56 0\<rparr>
      in enc_c2 (jc\<lparr>c2_checksum :=
           cryexts_journal_v2_checksum (enc_c2 jc) BLOCK_SIZE JOURNAL_V2_CHECKSUM_OFF\<rparr>))"

text \<open>\<open>for (i = 0; i < entries; i++) jd->home_blocks[i] = sbi->journal_home_blocks[i];\<close>\<close>

definition copy_home_blocks :: "nat \<Rightarrow> u64 list \<Rightarrow> u64 list \<Rightarrow> u64 list" where
  "copy_home_blocks entries src dst = fold (\<lambda>i dst. dst[i := src ! i]) [0..<entries] dst"

definition cryexts_journal_v2_prepare_descriptor :: "fs \<Rightarrow> u32 \<Rightarrow> u64 \<Rightarrow> bytes" where
  "cryexts_journal_v2_prepare_descriptor st entries sequence =
     (let jd = \<lparr>d2_magic = CRYEXTS_JOURNAL_V2_MAGIC,
                d2_layout_version = CRYEXTS_JOURNAL_V2_LAYOUT_VERSION,
                d2_block_type = CRYEXTS_JOURNAL_V2_BLOCK_DESCRIPTOR,
                d2_flags = CRYEXTS_JOURNAL_V2_FLAG_ACTIVE,
                d2_entry_count = entries,
                d2_checksum = 0, d2_reserved0 = 0,
                d2_sequence = sequence,
                d2_payload_start = cryexts_journal_v2_payload_start st,
                d2_commit_block = cryexts_journal_v2_commit_block st,
                d2_reserved = replicate 24 0,
                d2_home_blocks = copy_home_blocks (unat entries) (s_journal_home_blocks st)
                                   (replicate CRYEXTS_JOURNAL_V2_MAX_ENTRIES 0)\<rparr>
      in enc_d2 (jd\<lparr>d2_checksum :=
           cryexts_journal_v2_checksum (enc_d2 jd) BLOCK_SIZE JOURNAL_V2_CHECKSUM_OFF\<rparr>))"

definition cryexts_journal_v2_prepare_descriptor_empty :: "fs \<Rightarrow> u64 \<Rightarrow> bytes" where
  "cryexts_journal_v2_prepare_descriptor_empty st sequence =
     (let jd = \<lparr>d2_magic = CRYEXTS_JOURNAL_V2_MAGIC,
                d2_layout_version = CRYEXTS_JOURNAL_V2_LAYOUT_VERSION,
                d2_block_type = CRYEXTS_JOURNAL_V2_BLOCK_DESCRIPTOR,
                d2_flags = 0,
                d2_entry_count = 0,
                d2_checksum = 0, d2_reserved0 = 0,
                d2_sequence = sequence,
                d2_payload_start = cryexts_journal_v2_payload_start st,
                d2_commit_block = cryexts_journal_v2_commit_block st,
                d2_reserved = replicate 24 0,
                d2_home_blocks = replicate CRYEXTS_JOURNAL_V2_MAX_ENTRIES 0\<rparr>
      in enc_d2 (jd\<lparr>d2_checksum :=
           cryexts_journal_v2_checksum (enc_d2 jd) BLOCK_SIZE JOURNAL_V2_CHECKSUM_OFF\<rparr>))"

definition cryexts_journal_v2_prepare_commit :: "fs \<Rightarrow> u32 \<Rightarrow> u64 \<Rightarrow> bytes" where
  "cryexts_journal_v2_prepare_commit st entries sequence =
     (let jc = \<lparr>m2_magic = CRYEXTS_JOURNAL_V2_MAGIC,
                m2_layout_version = CRYEXTS_JOURNAL_V2_LAYOUT_VERSION,
                m2_block_type = CRYEXTS_JOURNAL_V2_BLOCK_COMMIT,
                m2_flags = CRYEXTS_JOURNAL_V2_FLAG_COMMITTED,
                m2_entry_count = entries,
                m2_checksum = 0, m2_reserved0 = 0,
                m2_sequence = sequence,
                m2_descriptor_block = cryexts_journal_v2_descriptor_block st,
                m2_reserved = replicate 32 0\<rparr>
      in enc_m2 (jc\<lparr>m2_checksum :=
           cryexts_journal_v2_checksum (enc_m2 jc) BLOCK_SIZE JOURNAL_V2_CHECKSUM_OFF\<rparr>))"

definition cryexts_journal_v2_prepare_commit_empty :: "fs \<Rightarrow> u64 \<Rightarrow> bytes" where
  "cryexts_journal_v2_prepare_commit_empty st sequence =
     (let jc = \<lparr>m2_magic = CRYEXTS_JOURNAL_V2_MAGIC,
                m2_layout_version = CRYEXTS_JOURNAL_V2_LAYOUT_VERSION,
                m2_block_type = CRYEXTS_JOURNAL_V2_BLOCK_COMMIT,
                m2_flags = 0,
                m2_entry_count = 0,
                m2_checksum = 0, m2_reserved0 = 0,
                m2_sequence = sequence,
                m2_descriptor_block = cryexts_journal_v2_descriptor_block st,
                m2_reserved = replicate 32 0\<rparr>
      in enc_m2 (jc\<lparr>m2_checksum :=
           cryexts_journal_v2_checksum (enc_m2 jc) BLOCK_SIZE JOURNAL_V2_CHECKSUM_OFF\<rparr>))"

definition cryexts_journal_v2_control_valid :: "fs \<Rightarrow> bytes \<Rightarrow> bool" where
  "cryexts_journal_v2_control_valid st buf =
     (let jc = dec_c2 buf in
      if c2_magic jc \<noteq> CRYEXTS_JOURNAL_V2_MAGIC then False
      else if c2_layout_version jc \<noteq> CRYEXTS_JOURNAL_V2_LAYOUT_VERSION then False
      else if c2_block_type jc \<noteq> CRYEXTS_JOURNAL_V2_BLOCK_CONTROL then False
      else if c2_features jc \<noteq> CRYEXTS_JOURNAL_V2_FEATURE_BASELINE then False
      else if c2_descriptor_block jc \<noteq> cryexts_journal_v2_descriptor_block st then False
      else if c2_payload_start jc \<noteq> cryexts_journal_v2_payload_start st then False
      else if c2_payload_blocks jc \<noteq> cryexts_journal_v2_payload_area_blocks st then False
      else if c2_commit_block jc \<noteq> cryexts_journal_v2_commit_block st then False
      else c2_checksum jc =
           cryexts_journal_v2_checksum buf BLOCK_SIZE JOURNAL_V2_CHECKSUM_OFF)"

definition cryexts_journal_v2_sequence_state_valid :: "cryexts_journal_v2_control \<Rightarrow> bool" where
  "cryexts_journal_v2_sequence_state_valid jc =
     (let last_sequence = c2_last_sequence jc;
          active_sequence = c2_active_sequence jc;
          tail_sequence = c2_tail_sequence jc;
          checkpoint_sequence = c2_checkpoint_sequence jc
      in if checkpoint_sequence < tail_sequence then False
         else if last_sequence < checkpoint_sequence then False
         else if active_sequence \<noteq> 0 \<and> last_sequence + 1 < active_sequence then False
         else if active_sequence = 0 \<and> last_sequence \<noteq> 0 \<and> checkpoint_sequence \<noteq> last_sequence
         then False
         else if active_sequence = 0 \<and> last_sequence \<noteq> 0 \<and> tail_sequence \<noteq> last_sequence
         then False
         else if active_sequence \<noteq> 0 \<and> last_sequence < checkpoint_sequence then False
         else True)"

definition cryexts_journal_v2_descriptor_valid :: "fs \<Rightarrow> bytes \<Rightarrow> (u32 \<times> u64) option" where
  "cryexts_journal_v2_descriptor_valid st buf =
     (let jd = dec_d2 buf; entries = d2_entry_count jd in
      if d2_magic jd \<noteq> CRYEXTS_JOURNAL_V2_MAGIC then None
      else if d2_layout_version jd \<noteq> CRYEXTS_JOURNAL_V2_LAYOUT_VERSION then None
      else if d2_block_type jd \<noteq> CRYEXTS_JOURNAL_V2_BLOCK_DESCRIPTOR then None
      else if cryexts_journal_v2_payload_capacity st < entries then None
      else if d2_payload_start jd \<noteq> cryexts_journal_v2_payload_start st then None
      else if d2_commit_block jd \<noteq> cryexts_journal_v2_commit_block st then None
      else if d2_checksum jd \<noteq>
              cryexts_journal_v2_checksum buf BLOCK_SIZE JOURNAL_V2_CHECKSUM_OFF then None
      else if \<not> list_all (\<lambda>i. d2_home_blocks jd ! i = 0)
                [unat entries..<CRYEXTS_JOURNAL_V2_MAX_ENTRIES] then None
      else Some (entries, d2_sequence jd))"

definition cryexts_journal_v2_commit_valid :: "fs \<Rightarrow> bytes \<Rightarrow> (u32 \<times> u64) option" where
  "cryexts_journal_v2_commit_valid st buf =
     (let jc = dec_m2 buf; entries = m2_entry_count jc in
      if m2_magic jc \<noteq> CRYEXTS_JOURNAL_V2_MAGIC then None
      else if m2_layout_version jc \<noteq> CRYEXTS_JOURNAL_V2_LAYOUT_VERSION then None
      else if m2_block_type jc \<noteq> CRYEXTS_JOURNAL_V2_BLOCK_COMMIT then None
      else if \<not> has_flag (m2_flags jc) CRYEXTS_JOURNAL_V2_FLAG_COMMITTED then None
      else if cryexts_journal_v2_payload_capacity st < entries then None
      else if m2_descriptor_block jc \<noteq> cryexts_journal_v2_descriptor_block st then None
      else if m2_checksum jc \<noteq>
              cryexts_journal_v2_checksum buf BLOCK_SIZE JOURNAL_V2_CHECKSUM_OFF then None
      else Some (entries, m2_sequence jc))"

section \<open>Version 3\<close>

definition cryexts_journal_v3_ring_valid :: "fs \<Rightarrow> cryexts_journal_v3_control \<Rightarrow> bool" where
  "cryexts_journal_v3_ring_valid st control =
     (if \<not> s_journal_ring st
      then c3_ring_head control = 0 \<and> c3_ring_tail control = 0 \<and>
           c3_ring_start control = 0 \<and> c3_ring_end control = 0
      else c3_ring_start control = cryexts_journal_v3_ring_start st \<and>
           c3_ring_end control = cryexts_journal_v3_ring_end st \<and>
           cryexts_journal_v3_ring_start st \<le> c3_ring_head control \<and>
           c3_ring_head control < cryexts_journal_v3_ring_end st \<and>
           cryexts_journal_v3_ring_start st \<le> c3_ring_tail control \<and>
           c3_ring_tail control < cryexts_journal_v3_ring_end st \<and>
           (c3_state control \<noteq> CRYEXTS_JOURNAL_V3_STATE_IDLE \<or>
            c3_ring_head control = c3_ring_tail control))"

definition cryexts_journal_v3_prepare_control ::
    "fs \<Rightarrow> u32 \<Rightarrow> u64 \<Rightarrow> u64 \<Rightarrow> u64 \<Rightarrow> u64 \<Rightarrow> u64 \<Rightarrow> u64 \<Rightarrow> u64 \<Rightarrow> bytes" where
  "cryexts_journal_v3_prepare_control st state last_sequence active_sequence checkpoint_sequence
       descriptor_block payload_start payload_blocks commit_block =
     (let ring = s_journal_ring st;
          control = \<lparr>c3_magic = CRYEXTS_JOURNAL_V3_MAGIC,
                c3_layout_version = CRYEXTS_JOURNAL_V3_LAYOUT_VERSION,
                c3_block_type = CRYEXTS_JOURNAL_V3_BLOCK_CONTROL,
                c3_state = state,
                c3_features = cryexts_journal_v3_features st,
                c3_checksum = 0, c3_reserved0 = 0,
                c3_last_sequence = last_sequence,
                c3_active_sequence = active_sequence,
                c3_checkpoint_sequence = checkpoint_sequence,
                c3_descriptor_block = descriptor_block,
                c3_payload_start = payload_start,
                c3_payload_blocks = payload_blocks,
                c3_commit_block = commit_block,
                c3_ring_head = (if ring then s_journal_ring_head st else 0),
                c3_ring_tail = (if ring then s_journal_ring_tail st else 0),
                c3_ring_start = (if ring then cryexts_journal_v3_ring_start st else 0),
                c3_ring_end = (if ring then cryexts_journal_v3_ring_end st else 0),
                c3_reserved = replicate 16 0\<rparr>
      in enc_c3 (control\<lparr>c3_checksum :=
           cryexts_journal_v2_checksum (enc_c3 control) BLOCK_SIZE JOURNAL_V2_CHECKSUM_OFF\<rparr>))"

text \<open>
  The descriptor is filled in step by step before it is written, so it stays a record until
  \<open>finish_descriptor\<close> has set its checksum.
\<close>

definition zero_e3 :: cryexts_journal_v3_entry where
  "zero_e3 = \<lparr>e3_home_block = 0, e3_payload_checksum = 0, e3_flags = 0\<rparr>"

definition cryexts_journal_v3_prepare_descriptor ::
    "u32 \<Rightarrow> u64 \<Rightarrow> u64 \<Rightarrow> u64 \<Rightarrow> cryexts_journal_v3_descriptor" where
  "cryexts_journal_v3_prepare_descriptor entries sequence payload_start commit_block =
     \<lparr>d3_magic = CRYEXTS_JOURNAL_V3_MAGIC,
      d3_layout_version = CRYEXTS_JOURNAL_V3_LAYOUT_VERSION,
      d3_block_type = CRYEXTS_JOURNAL_V3_BLOCK_DESCRIPTOR,
      d3_flags = 0,
      d3_entry_count = entries,
      d3_checksum = 0, d3_reserved0 = 0,
      d3_sequence = sequence,
      d3_payload_start = payload_start,
      d3_commit_block = commit_block,
      d3_reserved = replicate 24 0,
      d3_entries = replicate CRYEXTS_JOURNAL_V3_MAX_ENTRIES zero_e3\<rparr>"

definition cryexts_journal_v3_finish_descriptor ::
    "cryexts_journal_v3_descriptor \<Rightarrow> cryexts_journal_v3_descriptor" where
  "cryexts_journal_v3_finish_descriptor d = d\<lparr>d3_checksum :=
     cryexts_journal_v2_checksum (enc_d3 d) BLOCK_SIZE JOURNAL_V2_CHECKSUM_OFF\<rparr>"

definition cryexts_journal_v3_prepare_commit ::
    "u32 \<Rightarrow> u64 \<Rightarrow> u32 \<Rightarrow> u32 \<Rightarrow> bool \<Rightarrow> u64 \<Rightarrow> bytes" where
  "cryexts_journal_v3_prepare_commit entries sequence descriptor_checksum payload_checksum
       committed descriptor_block =
     (let commit = \<lparr>m3_magic = CRYEXTS_JOURNAL_V3_MAGIC,
                m3_layout_version = CRYEXTS_JOURNAL_V3_LAYOUT_VERSION,
                m3_block_type = CRYEXTS_JOURNAL_V3_BLOCK_COMMIT,
                m3_flags = (if committed then CRYEXTS_JOURNAL_V3_FLAG_COMMITTED else 0),
                m3_entry_count = entries,
                m3_checksum = 0,
                m3_descriptor_checksum = descriptor_checksum,
                m3_payload_checksum = payload_checksum,
                m3_reserved0 = 0,
                m3_sequence = sequence,
                m3_descriptor_block = descriptor_block,
                m3_reserved = replicate 24 0\<rparr>
      in enc_m3 (commit\<lparr>m3_checksum :=
           cryexts_journal_v2_checksum (enc_m3 commit) BLOCK_SIZE JOURNAL_V2_CHECKSUM_OFF\<rparr>))"

section \<open>What is prepared is accepted\<close>

lemma journal_v2_checksum_eq:
  "cryexts_journal_v2_checksum b n off = cryexts_checksum_skip b n off 4"
  by (simp add: cryexts_journal_v2_checksum_def)

lemma journal_checksum_eq:
  "cryexts_journal_checksum b n = cryexts_checksum_skip b n CRYEXTS_JOURNAL_CHECKSUM_OFFSET 4"
  by (simp add: cryexts_journal_checksum_def)

lemmas prepared_csum = journal_v2_checksum_eq journal_checksum_eq

lemma prepare_header_valid:
  assumes "s_journal_blocks st \<noteq> 0"
  shows "cryexts_journal_header_valid st (cryexts_journal_prepare_header flags 0 sequence) = Some 0"
proof -
  let ?jh = "\<lparr>jh_magic = CRYEXTS_JOURNAL_MAGIC, jh_flags = flags, jh_entry_count = 0,
      jh_checksum = 0, jh_sequence = sequence, jh_reserved = replicate 40 0,
      jh_home_blocks = replicate CRYEXTS_JOURNAL_MAX_ENTRIES 0\<rparr>"
  have wf: "wf_jh ?jh" by (simp add: wf_jh_def)
  show ?thesis
    using jh.sealed_enc [OF wf] assms
    by (simp add: cryexts_journal_header_valid_def cryexts_journal_prepare_header_def
        prepared_csum Let_def list_all_iff not_less)
qed

lemma v2_prepare_control_dec:
  "dec_c2 (cryexts_journal_v2_prepare_control st f a l t c) =
     \<lparr>c2_magic = CRYEXTS_JOURNAL_V2_MAGIC,
      c2_layout_version = CRYEXTS_JOURNAL_V2_LAYOUT_VERSION,
      c2_block_type = CRYEXTS_JOURNAL_V2_BLOCK_CONTROL,
      c2_flags = f, c2_features = CRYEXTS_JOURNAL_V2_FEATURE_BASELINE,
      c2_checksum = cryexts_journal_v2_checksum
        (cryexts_journal_v2_prepare_control st f a l t c) BLOCK_SIZE JOURNAL_V2_CHECKSUM_OFF,
      c2_reserved0 = 0, c2_last_sequence = l, c2_active_sequence = a, c2_tail_sequence = t,
      c2_checkpoint_sequence = c,
      c2_descriptor_block = cryexts_journal_v2_descriptor_block st,
      c2_payload_start = cryexts_journal_v2_payload_start st,
      c2_payload_blocks = cryexts_journal_v2_payload_area_blocks st,
      c2_commit_block = cryexts_journal_v2_commit_block st,
      c2_reserved = replicate 56 0\<rparr>" (is "_ = ?r")
  and v2_prepare_control_length:
  "length (cryexts_journal_v2_prepare_control st f a l t c) = BLOCK_SIZE"
proof -
  have wf: "wf_c2 (?r\<lparr>c2_checksum := 0\<rparr>)" by (simp add: wf_c2_def)
  show "dec_c2 (cryexts_journal_v2_prepare_control st f a l t c) = ?r"
    using c2.sealed_enc(1,3) [OF wf]
    by (simp add: cryexts_journal_v2_prepare_control_def prepared_csum Let_def)
  show "length (cryexts_journal_v2_prepare_control st f a l t c) = BLOCK_SIZE"
    using c2.sealed_enc(2) [OF wf]
    by (simp add: cryexts_journal_v2_prepare_control_def prepared_csum Let_def)
qed

lemma v2_control_accepted:
  "cryexts_journal_v2_control_valid st (cryexts_journal_v2_prepare_control st f a l t c)"
  by (simp add: cryexts_journal_v2_control_valid_def v2_prepare_control_dec Let_def)

lemma length_copy_home_blocks [simp]: "length (copy_home_blocks n src dst) = length dst"
proof -
  have "length (fold (\<lambda>i dst. dst[i := src ! i]) is dst) = length dst" for "is"
    by (induction "is" arbitrary: dst) auto
  then show ?thesis by (simp add: copy_home_blocks_def)
qed

lemma nth_copy_home_blocks:
  "i < length dst \<Longrightarrow> copy_home_blocks n src dst ! i = (if i < n then src ! i else dst ! i)"
  by (induction n) (auto simp: copy_home_blocks_def nth_list_update less_Suc_eq
      length_copy_home_blocks [unfolded copy_home_blocks_def])

lemma v2_prepare_descriptor_dec:
  "dec_d2 (cryexts_journal_v2_prepare_descriptor st n seq) =
     \<lparr>d2_magic = CRYEXTS_JOURNAL_V2_MAGIC,
      d2_layout_version = CRYEXTS_JOURNAL_V2_LAYOUT_VERSION,
      d2_block_type = CRYEXTS_JOURNAL_V2_BLOCK_DESCRIPTOR,
      d2_flags = CRYEXTS_JOURNAL_V2_FLAG_ACTIVE, d2_entry_count = n,
      d2_checksum = cryexts_journal_v2_checksum
        (cryexts_journal_v2_prepare_descriptor st n seq) BLOCK_SIZE JOURNAL_V2_CHECKSUM_OFF,
      d2_reserved0 = 0, d2_sequence = seq,
      d2_payload_start = cryexts_journal_v2_payload_start st,
      d2_commit_block = cryexts_journal_v2_commit_block st,
      d2_reserved = replicate 24 0,
      d2_home_blocks = copy_home_blocks (unat n) (s_journal_home_blocks st)
        (replicate CRYEXTS_JOURNAL_V2_MAX_ENTRIES 0)\<rparr>" (is "_ = ?r")
  and v2_prepare_descriptor_length:
  "length (cryexts_journal_v2_prepare_descriptor st n seq) = BLOCK_SIZE"
proof -
  have wf: "wf_d2 (?r\<lparr>d2_checksum := 0\<rparr>)" by (simp add: wf_d2_def)
  show "dec_d2 (cryexts_journal_v2_prepare_descriptor st n seq) = ?r"
    using d2.sealed_enc(1,3) [OF wf]
    by (simp add: cryexts_journal_v2_prepare_descriptor_def prepared_csum Let_def)
  show "length (cryexts_journal_v2_prepare_descriptor st n seq) = BLOCK_SIZE"
    using d2.sealed_enc(2) [OF wf]
    by (simp add: cryexts_journal_v2_prepare_descriptor_def prepared_csum Let_def)
qed

lemma v2_descriptor_accepted:
  "n \<le> cryexts_journal_v2_payload_capacity st \<Longrightarrow>
   cryexts_journal_v2_descriptor_valid st (cryexts_journal_v2_prepare_descriptor st n seq) =
     Some (n, seq)"
  by (simp add: cryexts_journal_v2_descriptor_valid_def v2_prepare_descriptor_dec Let_def
      list_all_iff nth_copy_home_blocks not_less)

lemma v2_commit_dec:
  "dec_m2 (cryexts_journal_v2_prepare_commit st n seq) =
     \<lparr>m2_magic = CRYEXTS_JOURNAL_V2_MAGIC,
      m2_layout_version = CRYEXTS_JOURNAL_V2_LAYOUT_VERSION,
      m2_block_type = CRYEXTS_JOURNAL_V2_BLOCK_COMMIT,
      m2_flags = CRYEXTS_JOURNAL_V2_FLAG_COMMITTED, m2_entry_count = n,
      m2_checksum = cryexts_journal_v2_checksum
        (cryexts_journal_v2_prepare_commit st n seq) BLOCK_SIZE JOURNAL_V2_CHECKSUM_OFF,
      m2_reserved0 = 0, m2_sequence = seq,
      m2_descriptor_block = cryexts_journal_v2_descriptor_block st,
      m2_reserved = replicate 32 0\<rparr>" (is "_ = ?r")
  and v2_prepare_commit_length:
  "length (cryexts_journal_v2_prepare_commit st n seq) = BLOCK_SIZE"
proof -
  have wf: "wf_m2 (?r\<lparr>m2_checksum := 0\<rparr>)" by (simp add: wf_m2_def)
  show "dec_m2 (cryexts_journal_v2_prepare_commit st n seq) = ?r"
    using m2.sealed_enc(1,3) [OF wf]
    by (simp add: cryexts_journal_v2_prepare_commit_def prepared_csum Let_def)
  show "length (cryexts_journal_v2_prepare_commit st n seq) = BLOCK_SIZE"
    using m2.sealed_enc(2) [OF wf]
    by (simp add: cryexts_journal_v2_prepare_commit_def prepared_csum Let_def)
qed

lemma v2_commit_accepted:
  "n \<le> cryexts_journal_v2_payload_capacity st \<Longrightarrow>
   cryexts_journal_v2_commit_valid st (cryexts_journal_v2_prepare_commit st n seq) = Some (n, seq)"
  by (simp add: cryexts_journal_v2_commit_valid_def v2_commit_dec Let_def not_less has_flag_def
      CRYEXTS_JOURNAL_V2_FLAG_COMMITTED_def)

text \<open>The empty descriptor and commit that a reset writes: the commit block is refused.\<close>

lemma v2_commit_empty_refused:
  "cryexts_journal_v2_commit_valid st (cryexts_journal_v2_prepare_commit_empty st seq) = None"
proof -
  let ?r = "\<lparr>m2_magic = CRYEXTS_JOURNAL_V2_MAGIC,
      m2_layout_version = CRYEXTS_JOURNAL_V2_LAYOUT_VERSION,
      m2_block_type = CRYEXTS_JOURNAL_V2_BLOCK_COMMIT,
      m2_flags = 0, m2_entry_count = 0, m2_checksum = 0, m2_reserved0 = 0, m2_sequence = seq,
      m2_descriptor_block = cryexts_journal_v2_descriptor_block st,
      m2_reserved = replicate 32 0\<rparr>"
  have wf: "wf_m2 ?r" by (simp add: wf_m2_def)
  show ?thesis
    using m2.sealed_enc [OF wf]
    by (simp add: cryexts_journal_v2_commit_valid_def cryexts_journal_v2_prepare_commit_empty_def
        prepared_csum Let_def has_flag_def)
qed

lemma v3_prepare_control_dec:
  "dec_c3 (cryexts_journal_v3_prepare_control st state l a c db ps pb cb) =
     \<lparr>c3_magic = CRYEXTS_JOURNAL_V3_MAGIC,
      c3_layout_version = CRYEXTS_JOURNAL_V3_LAYOUT_VERSION,
      c3_block_type = CRYEXTS_JOURNAL_V3_BLOCK_CONTROL,
      c3_state = state, c3_features = cryexts_journal_v3_features st,
      c3_checksum = cryexts_journal_v2_checksum
        (cryexts_journal_v3_prepare_control st state l a c db ps pb cb) BLOCK_SIZE
        JOURNAL_V2_CHECKSUM_OFF,
      c3_reserved0 = 0, c3_last_sequence = l, c3_active_sequence = a,
      c3_checkpoint_sequence = c, c3_descriptor_block = db, c3_payload_start = ps,
      c3_payload_blocks = pb, c3_commit_block = cb,
      c3_ring_head = (if s_journal_ring st then s_journal_ring_head st else 0),
      c3_ring_tail = (if s_journal_ring st then s_journal_ring_tail st else 0),
      c3_ring_start = (if s_journal_ring st then cryexts_journal_v3_ring_start st else 0),
      c3_ring_end = (if s_journal_ring st then cryexts_journal_v3_ring_end st else 0),
      c3_reserved = replicate 16 0\<rparr>" (is "_ = ?r")
  and v3_prepare_control_length:
  "length (cryexts_journal_v3_prepare_control st state l a c db ps pb cb) = BLOCK_SIZE"
proof -
  have wf: "wf_c3 (?r\<lparr>c3_checksum := 0\<rparr>)" by (simp add: wf_c3_def)
  show "dec_c3 (cryexts_journal_v3_prepare_control st state l a c db ps pb cb) = ?r"
    using c3.sealed_enc(1,3) [OF wf]
    by (simp add: cryexts_journal_v3_prepare_control_def prepared_csum Let_def)
  show "length (cryexts_journal_v3_prepare_control st state l a c db ps pb cb) = BLOCK_SIZE"
    using c3.sealed_enc(2) [OF wf]
    by (simp add: cryexts_journal_v3_prepare_control_def prepared_csum Let_def)
qed

lemma v3_finish_descriptor:
  assumes "wf_d3 d"
  shows "dec_d3 (enc_d3 (cryexts_journal_v3_finish_descriptor d)) =
           cryexts_journal_v3_finish_descriptor d"
    and "length (enc_d3 (cryexts_journal_v3_finish_descriptor d)) = BLOCK_SIZE"
    and "d3_checksum (cryexts_journal_v3_finish_descriptor d) =
           cryexts_journal_v2_checksum (enc_d3 (cryexts_journal_v3_finish_descriptor d)) BLOCK_SIZE
             JOURNAL_V2_CHECKSUM_OFF"
  using d3.sealed_enc [OF assms]
  by (simp_all add: cryexts_journal_v3_finish_descriptor_def prepared_csum)

lemma wf_v3_prepare_descriptor: "wf_d3 (cryexts_journal_v3_prepare_descriptor n seq ps cb)"
  by (simp add: wf_d3_def cryexts_journal_v3_prepare_descriptor_def)

lemma v3_commit_dec:
  "dec_m3 (cryexts_journal_v3_prepare_commit n seq dc pc committed db) =
     \<lparr>m3_magic = CRYEXTS_JOURNAL_V3_MAGIC,
      m3_layout_version = CRYEXTS_JOURNAL_V3_LAYOUT_VERSION,
      m3_block_type = CRYEXTS_JOURNAL_V3_BLOCK_COMMIT,
      m3_flags = (if committed then CRYEXTS_JOURNAL_V3_FLAG_COMMITTED else 0),
      m3_entry_count = n,
      m3_checksum = cryexts_journal_v2_checksum
        (cryexts_journal_v3_prepare_commit n seq dc pc committed db) BLOCK_SIZE
        JOURNAL_V2_CHECKSUM_OFF,
      m3_descriptor_checksum = dc, m3_payload_checksum = pc, m3_reserved0 = 0,
      m3_sequence = seq, m3_descriptor_block = db, m3_reserved = replicate 24 0\<rparr>" (is "_ = ?r")
  and v3_prepare_commit_length:
  "length (cryexts_journal_v3_prepare_commit n seq dc pc committed db) = BLOCK_SIZE"
proof -
  have wf: "wf_m3 (?r\<lparr>m3_checksum := 0\<rparr>)" by (simp add: wf_m3_def)
  show "dec_m3 (cryexts_journal_v3_prepare_commit n seq dc pc committed db) = ?r"
    using m3.sealed_enc(1,3) [OF wf]
    by (simp add: cryexts_journal_v3_prepare_commit_def prepared_csum Let_def)
  show "length (cryexts_journal_v3_prepare_commit n seq dc pc committed db) = BLOCK_SIZE"
    using m3.sealed_enc(2) [OF wf]
    by (simp add: cryexts_journal_v3_prepare_commit_def prepared_csum Let_def)
qed

end
