(* ===== verification/BlockGroups.thy ===== *)
theory BlockGroups
  imports JournalBlocks
begin

text \<open>
  Block groups and validity of block numbers (\<open>balloc.c\<close>, lines 4 to 229): the accessors of the
  group descriptors, the bitmaps as bytes with their test, set and clear, and which block numbers
  are data blocks.  The contract of a bitmap is the locale \<open>bitset\<close>, interpreted on the byte
  buffers.
\<close>

section \<open>Counts and group descriptors\<close>

definition cryexts_inodes_per_block :: nat where
  "cryexts_inodes_per_block = BLOCK_SIZE div CRYEXTS_INODE_SIZE"

definition cryexts_blocks_count :: "fs \<Rightarrow> u64" where
  "cryexts_blocks_count st = sb_blocks_count (s_disk_sb st)"

definition cryexts_inodes_count :: "fs \<Rightarrow> u64" where
  "cryexts_inodes_count st = sb_inodes_count (s_disk_sb st)"

definition cryexts_max_inodes :: "fs \<Rightarrow> u64" where
  "cryexts_max_inodes st = cryexts_inodes_count st"

text \<open>\<open>if (!sbi->groups || group >= sbi->group_count) return 0;\<close>\<close>

definition group_field :: "(cryexts_group_desc \<Rightarrow> 'a::zero) \<Rightarrow> fs \<Rightarrow> u64 \<Rightarrow> 'a" where
  "group_field f st grp =
     (case s_groups st of
        None \<Rightarrow> 0
      | Some gs \<Rightarrow> if s_group_count st \<le> grp then 0 else f (gs ! unat grp))"

definition cryexts_group_first_block :: "fs \<Rightarrow> u64 \<Rightarrow> u64" where
  "cryexts_group_first_block = group_field gd_group_start"
definition cryexts_group_blocks :: "fs \<Rightarrow> u64 \<Rightarrow> u64" where
  "cryexts_group_blocks = group_field gd_blocks_count"
definition cryexts_group_inode_table_start :: "fs \<Rightarrow> u64 \<Rightarrow> u64" where
  "cryexts_group_inode_table_start = group_field gd_inode_table_start"
definition cryexts_group_inode_table_blocks :: "fs \<Rightarrow> u64 \<Rightarrow> u32" where
  "cryexts_group_inode_table_blocks = group_field gd_inode_table_blocks"
definition cryexts_group_free_blocks :: "fs \<Rightarrow> u64 \<Rightarrow> u32" where
  "cryexts_group_free_blocks = group_field gd_free_blocks_count"
definition cryexts_group_free_inodes :: "fs \<Rightarrow> u64 \<Rightarrow> u32" where
  "cryexts_group_free_inodes = group_field gd_free_inodes_count"

definition cryexts_has_block_groups :: "fs \<Rightarrow> bool" where
  "cryexts_has_block_groups st \<longleftrightarrow>
     has_flag (sb_features_incompat (s_disk_sb st)) CRYEXTS_FEATURE_INCOMPAT_BLOCK_GROUPS"

definition cryexts_prealloc_feature_enabled :: "fs \<Rightarrow> bool" where
  "cryexts_prealloc_feature_enabled st \<longleftrightarrow>
     has_flag (sb_features_compat (s_disk_sb st)) CRYEXTS_FEATURE_COMPAT_PREALLOC"

section \<open>Bitmaps\<close>

definition cryexts_bitmap_test :: "bytes \<Rightarrow> u64 \<Rightarrow> bool" where
  "cryexts_bitmap_test bitmap k =
     has_flag (bitmap ! unat (k div 8)) (push_bit (unat (k mod 8)) 1)"

definition cryexts_bitmap_set :: "bytes \<Rightarrow> u64 \<Rightarrow> bytes" where
  "cryexts_bitmap_set bitmap k =
     bitmap[unat (k div 8) := bitmap ! unat (k div 8) OR push_bit (unat (k mod 8)) 1]"

definition cryexts_bitmap_clear :: "bytes \<Rightarrow> u64 \<Rightarrow> bytes" where
  "cryexts_bitmap_clear bitmap k =
     bitmap[unat (k div 8) := bitmap ! unat (k div 8) AND NOT (push_bit (unat (k mod 8)) 1)]"

text \<open>The contract of a set of bit numbers below a bound.\<close>

locale bitset =
  fixes test :: "'b \<Rightarrow> u64 \<Rightarrow> bool" and set_bit' clear_bit' :: "'b \<Rightarrow> u64 \<Rightarrow> 'b"
    and ok :: "'b \<Rightarrow> u64 \<Rightarrow> bool"
  assumes test_set: "ok b i \<Longrightarrow> ok b j \<Longrightarrow> test (set_bit' b i) j \<longleftrightarrow> j = i \<or> test b j"
    and test_clear: "ok b i \<Longrightarrow> ok b j \<Longrightarrow> test (clear_bit' b i) j \<longleftrightarrow> j \<noteq> i \<and> test b j"
    and ok_set: "ok (set_bit' b i) j \<longleftrightarrow> ok b j"
    and ok_clear: "ok (clear_bit' b i) j \<longleftrightarrow> ok b j"
begin

definition members :: "'b \<Rightarrow> u64 set" where
  "members b = {i. ok b i \<and> test b i}"

lemma members_set: "ok b i \<Longrightarrow> members (set_bit' b i) = insert i (members b)"
  by (auto simp: members_def test_set ok_set)

lemma members_clear: "ok b i \<Longrightarrow> members (clear_bit' b i) = members b - {i}"
  by (auto simp: members_def test_clear ok_clear)

lemma finite_members: "finite (members b)"
  by (rule finite_subset [OF subset_UNIV]) simp

lemma card_set_fresh:
  "ok b i \<Longrightarrow> \<not> test b i \<Longrightarrow> card (members (set_bit' b i)) = Suc (card (members b))"
  by (simp add: members_set card_insert_if finite_members) (simp add: members_def)

lemma card_clear_member:
  "ok b i \<Longrightarrow> test b i \<Longrightarrow> Suc (card (members (clear_bit' b i))) = card (members b)"
  using card_Suc_Diff1 [OF finite_members, of i b] by (simp add: members_clear) (simp add: members_def)

text \<open>Allocating a free bit and giving it back restores the set.\<close>

lemma members_clear_set: "ok b i \<Longrightarrow> \<not> test b i \<Longrightarrow> members (clear_bit' (set_bit' b i) i) = members b"
  by (auto simp: members_set members_clear ok_set) (auto simp: members_def)

end

lemma unat_div8: "unat (i div 8 :: u64) = unat i div 8" "unat (i mod 8 :: u64) = unat i mod 8"
  by (simp_all add: unat_div unat_mod)

lemma bit_pos_eq: "i = j \<longleftrightarrow> unat i div 8 = unat j div 8 \<and> unat i mod 8 = unat (j :: u64) mod 8"
  by (metis div_mult_mod_eq word_unat_eq_iff)

lemma bitmap_test_bit:
  "cryexts_bitmap_test bm i \<longleftrightarrow> bit (bm ! (unat i div 8)) (unat i mod 8)"
proof -
  have "has_flag w (push_bit n 1) \<longleftrightarrow> bit w n" for w :: u8 and n
  proof -
    have eq: "w AND push_bit n 1 = push_bit n (of_bool (bit w n))"
      by (rule bit_word_eqI) (auto simp: bit_and_iff bit_push_bit_iff bit_1_iff bit_exp_iff)
    show ?thesis
    proof (cases "bit w n")
      case True
      then have "bit (w AND push_bit n 1) n"
        by (auto simp: bit_and_iff bit_push_bit_iff bit_1_iff bit_exp_iff dest: bit_imp_le_length)
      then have "w AND push_bit n 1 \<noteq> 0" by auto
      with True show ?thesis by (simp add: has_flag_def)
    qed (use eq in \<open>simp add: has_flag_def\<close>)
  qed
  then show ?thesis by (simp add: cryexts_bitmap_test_def unat_div8)
qed

lemma bitmap_test_set:
  assumes "unat i div 8 < length bm" "unat j div 8 < length bm"
  shows "cryexts_bitmap_test (cryexts_bitmap_set bm i) j \<longleftrightarrow> j = i \<or> cryexts_bitmap_test bm j"
  using assms bit_pos_eq [of i j]
  by (auto simp: bitmap_test_bit cryexts_bitmap_set_def unat_div8 nth_list_update bit_or_iff
      bit_push_bit_iff bit_1_iff bit_exp_iff)

lemma bitmap_test_clear:
  assumes "unat i div 8 < length bm" "unat j div 8 < length bm"
  shows "cryexts_bitmap_test (cryexts_bitmap_clear bm i) j \<longleftrightarrow> j \<noteq> i \<and> cryexts_bitmap_test bm j"
  using assms bit_pos_eq [of i j]
  by (auto simp: bitmap_test_bit cryexts_bitmap_clear_def unat_div8 nth_list_update bit_and_iff
      bit_not_iff bit_push_bit_iff bit_1_iff bit_exp_iff)

lemma length_bitmap [simp]:
  "length (cryexts_bitmap_set bm i) = length bm" "length (cryexts_bitmap_clear bm i) = length bm"
  by (simp_all add: cryexts_bitmap_set_def cryexts_bitmap_clear_def)

interpretation bitmap: bitset cryexts_bitmap_test cryexts_bitmap_set cryexts_bitmap_clear
    "\<lambda>bm i. unat i div 8 < length bm"
  by unfold_locales (simp_all add: bitmap_test_set bitmap_test_clear)

section \<open>Which block numbers are data blocks\<close>

definition cryexts_data_block_valid :: "fs \<Rightarrow> u64 \<Rightarrow> bool" where
  "cryexts_data_block_valid st block =
     (let first_data_block = sb_first_data_block (s_disk_sb st) in
      if block = 0 \<or> cryexts_blocks_count st \<le> block then False
      else if \<not> cryexts_has_block_groups st then first_data_block \<le> block
      else (let grp = block div s_blocks_per_group st in
        case s_groups st of
          None \<Rightarrow> False
        | Some gs \<Rightarrow>
            if s_group_count st \<le> grp then False
            else (let g = gs ! unat grp;
                      group_start = gd_group_start g;
                      group_blocks = gd_blocks_count g
                  in if block < group_start \<or> group_start + group_blocks \<le> block then False
                     else (let group_data_start =
                                 (if grp = 0 then first_data_block
                                  else gd_inode_table_start g + ucast (gd_inode_table_blocks g))
                           in group_data_start \<le> block))))"

lemma data_block_valid_0 [simp]: "\<not> cryexts_data_block_valid st 0"
  by (simp add: cryexts_data_block_valid_def)

lemma data_block_valid_bound: "cryexts_data_block_valid st b \<Longrightarrow> b < cryexts_blocks_count st"
  by (auto simp: cryexts_data_block_valid_def Let_def split: if_splits)

text \<open>The pointer \<open>sbi->group_block_bitmaps[group]\<close> and its inode counterpart.\<close>

definition bitmap_slot :: "u64 option list option \<Rightarrow> u64 \<Rightarrow> u64 option" where
  "bitmap_slot arr grp = (case arr of None \<Rightarrow> None | Some bhs \<Rightarrow> bhs ! unat grp)"

definition cryexts_inode_bitmap_used :: "fs \<Rightarrow> u64 \<Rightarrow> bool" where
  "cryexts_inode_bitmap_used st ino =
     (if ino < CRYEXTS_ROOT_INO \<or> cryexts_inodes_count st < ino then False
      else if \<not> cryexts_has_block_groups st
      then cryexts_bitmap_test (bdata st (the (s_inode_bitmap_bh st))) (ino - 1)
      else (let index = ino - 1;
                grp = index div s_inodes_per_group st;
                k = index mod s_inodes_per_group st
            in if s_group_count st \<le> grp then False
               else (case bitmap_slot (s_group_inode_bitmap_bhs st) grp of
                       None \<Rightarrow> False
                     | Some bh \<Rightarrow> cryexts_bitmap_test (bdata st bh) k)))"

definition cryexts_block_bitmap_used :: "fs \<Rightarrow> u64 \<Rightarrow> bool" where
  "cryexts_block_bitmap_used st block =
     (if \<not> cryexts_data_block_valid st block then False
      else if \<not> cryexts_has_block_groups st
      then cryexts_bitmap_test (bdata st (the (s_block_bitmap_bh st))) block
      else (let grp = block div s_blocks_per_group st in
            if s_group_count st \<le> grp then False
            else (case bitmap_slot (s_group_block_bitmap_bhs st) grp of
                    None \<Rightarrow> False
                  | Some bh \<Rightarrow> cryexts_bitmap_test (bdata st bh)
                                (block - cryexts_group_first_block st grp))))"

end
