(* ===== verification/JournalRecord.thy ===== *)
theory JournalRecord
  imports BlockGroups
begin

text \<open>
  Recording a block in the running transaction, for the three journal formats, and what rests on
  it: marking the superblock and the bitmaps dirty (\<open>balloc.c\<close>), the recovery flag of the
  superblock and writing all metadata back (\<open>super.c\<close>).

  The C functions are mutually recursive: recording a block in the version 1 journal updates the
  superblock, which records the superblock's own block 0.  That inner call never gets past the
  validity check of block 0, so the recursion is one level deep.  The model takes the outer call as
  a parameter (\<open>journal_record_with\<close>), and \<open>mark_super_dirty_eq\<close> proves the equation that the
  source states.
\<close>

section \<open>Small helpers\<close>

definition cryexts_sync_single_block :: "u64 \<Rightarrow> (fs, unit) act" where
  "cryexts_sync_single_block block = bindE (io_step EIO) (\<lambda>_. sync_dirty_buffer block)"

definition cryexts_journal_ordered_barrier :: "(fs, unit) act" where
  "cryexts_journal_ordered_barrier = runE [sync_blockdev, blkdev_issue_flush]"

definition journal_lock :: "fs \<Rightarrow> fs" where "journal_lock st = st\<lparr>s_journal_locked := True\<rparr>"
definition journal_unlock :: "fs \<Rightarrow> fs" where "journal_unlock st = st\<lparr>s_journal_locked := False\<rparr>"

text \<open>\<open>journal_entry_count = 0; memset(journal_home_blocks, 0, ...);\<close>\<close>

definition clear_entries :: "fs \<Rightarrow> fs" where
  "clear_entries st = st\<lparr>s_journal_entry_count := 0,
     s_journal_home_blocks := replicate CRYEXTS_JOURNAL_MAX_ENTRIES 0\<rparr>"

text \<open>The blocks of the running transaction, in the order they were recorded.\<close>

definition txn_blocks :: "fs \<Rightarrow> u64 list" where
  "txn_blocks st = take (s_journal_entry_count st) (s_journal_home_blocks st)"

definition cryexts_journal_read_header :: "(fs, bytes) act" where
  "cryexts_journal_read_header = (\<lambda>st.
     if \<not> s_journal_enabled st \<or> s_journal_blocks st = 0 then (Inl EOPNOTSUPP, st)
     else cryexts_read_file_block (s_journal_block st) st)"

definition cryexts_journal_write_header :: "bytes \<Rightarrow> (fs, unit) act" where
  "cryexts_journal_write_header buf = (\<lambda>st.
     if \<not> s_journal_enabled st \<or> s_journal_blocks st = 0 then (Inl EOPNOTSUPP, st)
     else cryexts_write_file_block (s_journal_block st) buf st)"

section \<open>Version 3\<close>

definition cryexts_journal_v3_record_block :: "u64 \<Rightarrow> (fs, unit) act" where
  "cryexts_journal_v3_record_block home_block = (\<lambda>st.
     let capacity = unat (cryexts_journal_v3_payload_capacity st) in
     if s_journal_active_sequence st = 0 then (Inl EINVAL, st)
     else (case s_journal_error st of
             Some e \<Rightarrow> (Inl e, st)
           | None \<Rightarrow>
               if cryexts_blocks_count st \<le> home_block \<or>
                  cryexts_journal_block_is_internal st home_block
               then (Inl EINVAL, st\<lparr>s_journal_error := Some EINVAL\<rparr>)
               else if home_block \<in> set (txn_blocks st) then (Inr (), st)
               else if capacity \<le> s_journal_entry_count st
               then (Inl ENOSPC, st\<lparr>s_journal_error := Some ENOSPC\<rparr>)
               else (Inr (), st\<lparr>
                 s_journal_home_blocks :=
                   (s_journal_home_blocks st)[s_journal_entry_count st := home_block],
                 s_journal_entry_count := Suc (s_journal_entry_count st)\<rparr>)))"

section \<open>Version 2\<close>

text \<open>The checks at the head of the version 1 and 2 functions.\<close>

definition journal_home_block_ok :: "fs \<Rightarrow> u64 \<Rightarrow> bool" where
  "journal_home_block_ok st home_block \<longleftrightarrow>
     home_block < cryexts_blocks_count st \<and> cryexts_data_block_valid st home_block \<and>
     \<not> cryexts_journal_block_is_internal st home_block"

text \<open>The payload, the descriptor and the commit block of entry \<open>entries\<close>.\<close>

definition journal_v2_write_payload :: "u64 \<Rightarrow> nat \<Rightarrow> (fs, unit) act" where
  "journal_v2_write_payload home_block entries =
     bindE (cryexts_read_file_block home_block) (\<lambda>block_buf st.
       (let slot = cryexts_journal_v2_payload_start st + of_nat entries in
        runE [cryexts_write_file_block slot block_buf, cryexts_sync_single_block slot] st))"

definition journal_v2_write_control_blocks :: "nat \<Rightarrow> (fs, unit) act" where
  "journal_v2_write_control_blocks entries = (\<lambda>st.
     let db = cryexts_journal_v2_descriptor_block st; cb = cryexts_journal_v2_commit_block st;
         n = of_nat entries; seq = s_journal_sequence st
     in runE [
          cryexts_write_file_block db (cryexts_journal_v2_prepare_descriptor st n seq),
          cryexts_sync_single_block db,
          cryexts_write_file_block cb (cryexts_journal_v2_prepare_commit st n seq),
          cryexts_sync_single_block cb] st)"

definition cryexts_journal_v2_record_block :: "u64 \<Rightarrow> (fs, unit) act" where
  "cryexts_journal_v2_record_block home_block = (\<lambda>st.
     let capacity = unat (cryexts_journal_v2_payload_capacity st);
         entries = s_journal_entry_count st
     in if \<not> journal_home_block_ok st home_block then (Inl EINVAL, st)
        else if home_block \<in> set (txn_blocks st) then (Inr (), st)
        else if capacity \<le> entries \<or> CRYEXTS_JOURNAL_V2_MAX_ENTRIES \<le> entries
        then (Inl ENOSPC, st)
        else runE [kmalloc, kmalloc,
          journal_v2_write_payload home_block entries,
          modE (\<lambda>st. st\<lparr>s_journal_home_blocks :=
                  (s_journal_home_blocks st)[entries := home_block]\<rparr>),
          on_errE (journal_v2_write_control_blocks (Suc entries))
            (\<lambda>_ st. st\<lparr>s_journal_home_blocks := (s_journal_home_blocks st)[entries := 0]\<rparr>),
          modE (\<lambda>st. st\<lparr>s_journal_entry_count := Suc entries\<rparr>)] st)"

section \<open>Version 1\<close>

text \<open>
  The header is read back, or started afresh if it cannot be read or is not valid, and the new
  entry is stored in it.
\<close>

definition journal_v1_header_for :: "fs \<Rightarrow> bytes res \<Rightarrow> bytes" where
  "journal_v1_header_for st r =
     (case r of
        Inr buf \<Rightarrow> if cryexts_journal_header_valid st buf = None then zero_block else buf
      | Inl _ \<Rightarrow> zero_block)"

definition journal_v1_store_entry ::
    "(fs \<Rightarrow> fs) \<Rightarrow> u64 \<Rightarrow> bytes \<Rightarrow> (fs, unit) act" where
  "journal_v1_store_entry msd home_block journal_buf = (\<lambda>st.
     let n = s_journal_entry_count st;
         seq = s_journal_sequence st + 1;
         jh0 = dec_jh journal_buf;
         jh = jh0\<lparr>jh_magic := CRYEXTS_JOURNAL_MAGIC,
                  jh_flags := CRYEXTS_JOURNAL_FLAG_VALID,
                  jh_entry_count := of_nat (Suc n),
                  jh_sequence := seq,
                  jh_home_blocks := (jh_home_blocks jh0)[n := home_block]\<rparr>;
         st = st\<lparr>s_journal_sequence := seq\<rparr>;
         st = upd_disk_sb (\<lambda>sb. sb\<lparr>sb_journal_sequence := seq\<rparr>) st;
         st = st\<lparr>s_journal_home_blocks := (s_journal_home_blocks st)[n := home_block],
                 s_journal_entry_count := Suc n\<rparr>;
         buf = enc_jh (jh\<lparr>jh_checksum := cryexts_journal_checksum (enc_jh jh) BLOCK_SIZE\<rparr>);
         st = msd st
     in runE [cryexts_journal_write_header buf,
              cryexts_sync_single_block (s_journal_block st)] st)"

definition journal_v1_record_with :: "(fs \<Rightarrow> fs) \<Rightarrow> u64 \<Rightarrow> (fs, unit) act" where
  "journal_v1_record_with msd home_block = (\<lambda>st.
     if s_journal_blocks st = 0 then (Inl EOPNOTSUPP, st)
     else if \<not> journal_home_block_ok st home_block then (Inl EINVAL, st)
     else if home_block \<in> set (txn_blocks st) then (Inr (), st)
     else if CRYEXTS_JOURNAL_MAX_ENTRIES \<le> s_journal_entry_count st \<or>
             s_journal_blocks st \<le> of_nat (s_journal_entry_count st + 1)
     then (Inl ENOSPC, st)
     else (let slot = s_journal_block st + 1 + of_nat (s_journal_entry_count st) in
       runE [kmalloc, kmalloc,
         bindE (cryexts_read_file_block home_block) (\<lambda>block_buf.
           runE [cryexts_write_file_block slot block_buf, cryexts_sync_single_block slot]),
         (\<lambda>st. case cryexts_journal_read_header st of
            (r, st) \<Rightarrow>
              (case r of
                 Inl e \<Rightarrow> if e \<noteq> EIO then (Inl e, st)
                          else journal_v1_store_entry msd home_block (journal_v1_header_for st r) st
               | Inr _ \<Rightarrow>
                   journal_v1_store_entry msd home_block (journal_v1_header_for st r) st))] st))"

section \<open>Dispatch, and the dirty marks that rest on it\<close>

definition journal_record_with :: "(fs \<Rightarrow> fs) \<Rightarrow> u64 \<Rightarrow> (fs, unit) act" where
  "journal_record_with msd home_block = (\<lambda>st.
     if \<not> s_journal_enabled st \<or> s_journal_replaying st then (Inr (), st)
     else if cryexts_journal_uses_v3 st then cryexts_journal_v3_record_block home_block st
     else if cryexts_journal_uses_v2 st then cryexts_journal_v2_record_block home_block st
     else journal_v1_record_with msd home_block st)"

definition mark_super_dirty_with :: "(fs, unit) act \<Rightarrow> fs \<Rightarrow> fs" where
  "mark_super_dirty_with record_super st =
     (let st = upd_disk_sb (\<lambda>sb. sb\<lparr>sb_next_ino := s_next_ino st,
                                  sb_next_data_block := s_next_data_block st\<rparr>) st;
          st = cryexts_update_super_checksum st;
          st = ignoreE record_super st
      in mark_buffer_dirty 0 st)"

definition cryexts_mark_super_dirty :: "fs \<Rightarrow> fs" where
  "cryexts_mark_super_dirty = mark_super_dirty_with (journal_record_with (\<lambda>st. st) 0)"

definition cryexts_journal_record_block :: "u64 \<Rightarrow> (fs, unit) act" where
  "cryexts_journal_record_block = journal_record_with cryexts_mark_super_dirty"

lemma journal_record_with_0: "journal_record_with f 0 = journal_record_with g 0"
  by (simp add: fun_eq_iff journal_record_with_def journal_v1_record_with_def
      journal_home_block_ok_def)

lemma mark_super_dirty_eq:
  "cryexts_mark_super_dirty st =
     (let st = upd_disk_sb (\<lambda>sb. sb\<lparr>sb_next_ino := s_next_ino st,
                                  sb_next_data_block := s_next_data_block st\<rparr>) st;
          st = cryexts_update_super_checksum st;
          st = ignoreE (cryexts_journal_record_block 0) st
      in mark_buffer_dirty 0 st)"
proof -
  have eq: "journal_record_with (\<lambda>st. st) 0 = cryexts_journal_record_block 0"
    unfolding cryexts_journal_record_block_def by (rule journal_record_with_0)
  show ?thesis
    unfolding cryexts_mark_super_dirty_def eq mark_super_dirty_with_def by (rule refl)
qed

definition cryexts_journal_record_bh :: "u64 option \<Rightarrow> (fs, unit) act" where
  "cryexts_journal_record_bh bh =
     (case bh of None \<Rightarrow> failE EINVAL | Some b \<Rightarrow> cryexts_journal_record_block b)"

text \<open>\<open>if (bh) { cryexts_journal_record_bh(sb, bh); mark_buffer_dirty(bh); }\<close>\<close>

definition record_and_dirty :: "u64 option \<Rightarrow> fs \<Rightarrow> fs" where
  "record_and_dirty bh st =
     (case bh of None \<Rightarrow> st
      | Some b \<Rightarrow> mark_buffer_dirty b (ignoreE (cryexts_journal_record_bh bh) st))"

definition cryexts_mark_bitmap_dirty :: "fs \<Rightarrow> fs" where
  "cryexts_mark_bitmap_dirty st =
     (if s_group_count st \<le> 1
      then record_and_dirty (s_inode_bitmap_bh st) (record_and_dirty (s_block_bitmap_bh st) st)
      else (let st = (if s_gdt_bhs st = None then st
                      else (let st = cryexts_gdt_prepare_write st
                            in fold (\<lambda>i st. record_and_dirty (gdt_slot st i) st)
                                 [0..<unat (s_group_desc_table_blocks st)] st))
            in fold (\<lambda>g st.
                 record_and_dirty (bitmap_slot (s_group_inode_bitmap_bhs st) (of_nat g))
                   (record_and_dirty (bitmap_slot (s_group_block_bitmap_bhs st) (of_nat g)) st))
                 [0..<unat (s_group_count st)] st))"

section \<open>Recovery flag, and writing all metadata back\<close>

definition cryexts_journal_needs_recovery :: "fs \<Rightarrow> bool" where
  "cryexts_journal_needs_recovery st \<longleftrightarrow>
     has_flag (sb_state (s_disk_sb st)) CRYEXTS_FS_STATE_NEEDS_RECOVERY \<or>
     has_flag (sb_features_incompat (s_disk_sb st)) CRYEXTS_FEATURE_INCOMPAT_NEEDS_RECOVERY"

definition cryexts_super_set_recovery :: "bool \<Rightarrow> fs \<Rightarrow> fs" where
  "cryexts_super_set_recovery needed st =
     cryexts_mark_super_dirty (upd_disk_sb (\<lambda>sb.
       if needed
       then sb\<lparr>sb_state := sb_state sb OR CRYEXTS_FS_STATE_NEEDS_RECOVERY,
               sb_features_incompat :=
                 sb_features_incompat sb OR CRYEXTS_FEATURE_INCOMPAT_NEEDS_RECOVERY\<rparr>
       else sb\<lparr>sb_state := sb_state sb AND NOT CRYEXTS_FS_STATE_NEEDS_RECOVERY,
               sb_features_incompat :=
                 sb_features_incompat sb AND NOT CRYEXTS_FEATURE_INCOMPAT_NEEDS_RECOVERY\<rparr>) st)"

definition sync_opt :: "u64 option \<Rightarrow> (fs, unit) act" where
  "sync_opt bh = (case bh of None \<Rightarrow> retE () | Some b \<Rightarrow> sync_dirty_buffer b)"

definition sync_gdt_slot :: "nat \<Rightarrow> (fs, unit) act" where
  "sync_gdt_slot i = (\<lambda>st. case gdt_slot st i of None \<Rightarrow> (Inr (), st)
     | Some b \<Rightarrow> sync_dirty_buffer b (mark_buffer_dirty b st))"

definition cryexts_sync_metadata :: "(fs, unit) act" where
  "cryexts_sync_metadata = (\<lambda>st.
     let st = (if s_gdt_bhs st = None then st else cryexts_gdt_prepare_write st);
         st = (if cryexts_metadata_csum_enabled st
               then mark_buffer_dirty 0 (cryexts_update_super_checksum st) else st)
     in runE [
          whenE (\<lambda>st. s_gdt_bhs st \<noteq> None)
            (eachE sync_gdt_slot [0..<unat (s_group_desc_table_blocks st)]),
          sync_opt (s_block_bitmap_bh st),
          sync_opt (s_inode_bitmap_bh st),
          eachE (\<lambda>g. sync_opt (bitmap_slot (s_group_block_bitmap_bhs st) (of_nat g)))
            [0..<unat (s_group_count st)],
          eachE (\<lambda>g. sync_opt (bitmap_slot (s_group_inode_bitmap_bhs st) (of_nat g)))
            [0..<unat (s_group_count st)],
          sync_dirty_buffer 0,
          sync_blockdev] st)"

end
