(* ===== verification/JournalV2.thy ===== *)
theory JournalV2
  imports JournalRecord
begin

text \<open>
  The version 2 journal (\<open>journal.c\<close>): begin, commit, abort and replay of a transaction whose
  control, descriptor and commit blocks have fixed places at the start and the end of the journal
  area.
\<close>

definition cryexts_journal_v2_set_sequence :: "u64 \<Rightarrow> fs \<Rightarrow> fs" where
  "cryexts_journal_v2_set_sequence sequence st =
     (let st = st\<lparr>s_journal_sequence := sequence, s_journal_last_sequence := sequence\<rparr>;
          st = upd_disk_sb (\<lambda>sb. sb\<lparr>sb_journal_sequence := sequence\<rparr>) st
      in cryexts_mark_super_dirty st)"

definition cryexts_journal_v2_set_state :: "u64 \<Rightarrow> u64 \<Rightarrow> u64 \<Rightarrow> u64 \<Rightarrow> fs \<Rightarrow> fs" where
  "cryexts_journal_v2_set_state last_sequence active_sequence tail_sequence checkpoint_sequence st =
     st\<lparr>s_journal_last_sequence := last_sequence,
        s_journal_active_sequence := active_sequence,
        s_journal_tail_sequence := tail_sequence,
        s_journal_checkpoint_sequence := checkpoint_sequence\<rparr>"

text \<open>Write a block and push it to the medium.\<close>

definition journal_write_sync :: "u64 \<Rightarrow> bytes \<Rightarrow> (fs, unit) act" where
  "journal_write_sync block buf =
     runE [cryexts_write_file_block block buf, cryexts_sync_single_block block]"

definition cryexts_journal_v2_reset_state :: "u64 \<Rightarrow> (fs, unit) act" where
  "cryexts_journal_v2_reset_state last_sequence =
     runE [kmalloc,
       modE (cryexts_journal_v2_set_state last_sequence 0 last_sequence last_sequence),
       (\<lambda>st. journal_write_sync (s_journal_block st)
               (cryexts_journal_v2_prepare_control st 0 0 last_sequence last_sequence last_sequence) st),
       (\<lambda>st. journal_write_sync (cryexts_journal_v2_descriptor_block st)
               (cryexts_journal_v2_prepare_descriptor_empty st last_sequence) st),
       (\<lambda>st. journal_write_sync (cryexts_journal_v2_commit_block st)
               (cryexts_journal_v2_prepare_commit_empty st last_sequence) st)]"

section \<open>Begin, commit, abort\<close>

definition cryexts_journal_v2_begin :: "(fs, unit) act" where
  "cryexts_journal_v2_begin = (\<lambda>st.
     let st = clear_entries (journal_lock st) in
     if cryexts_journal_v2_payload_capacity st = 0 then (Inl EOPNOTSUPP, journal_unlock st)
     else (let previous_sequence = s_journal_sequence st;
               sequence = previous_sequence + 1;
               st = cryexts_journal_v2_set_sequence sequence st;
               st = cryexts_journal_v2_set_state previous_sequence sequence previous_sequence
                      previous_sequence st;
               st = cryexts_super_set_recovery True st
           in case kmalloc st of
                (Inl e, st) \<Rightarrow> (Inl e, journal_unlock (cryexts_super_set_recovery False st))
              | (Inr _, st) \<Rightarrow>
                  on_errE (runE [
                      (\<lambda>st. journal_write_sync (s_journal_block st)
                        (cryexts_journal_v2_prepare_control st CRYEXTS_JOURNAL_V2_FLAG_ACTIVE
                           sequence previous_sequence previous_sequence previous_sequence) st),
                      (\<lambda>st. cryexts_write_file_block (cryexts_journal_v2_descriptor_block st)
                              zero_block st),
                      (\<lambda>st. cryexts_write_file_block (cryexts_journal_v2_commit_block st)
                              zero_block st),
                      cryexts_sync_metadata])
                    (\<lambda>_ st.
                      let st = cryexts_journal_v2_set_sequence previous_sequence st;
                          st = cryexts_journal_v2_set_state previous_sequence 0 previous_sequence
                                 previous_sequence st
                      in journal_unlock (cryexts_super_set_recovery False st)) st))"

definition cryexts_journal_v2_commit :: "(fs, unit) act" where
  "cryexts_journal_v2_commit = (\<lambda>st.
     let committed_sequence = s_journal_sequence st in
     finallyE (runE [
         cryexts_sync_metadata,
         cryexts_journal_v2_reset_state committed_sequence,
         modE (cryexts_super_set_recovery False),
         cryexts_sync_metadata])
       (\<lambda>st. journal_unlock (clear_entries st)) st)"

definition cryexts_journal_v2_abort :: "fs \<Rightarrow> fs" where
  "cryexts_journal_v2_abort st =
     (let st = ignoreE (cryexts_journal_v2_reset_state (s_journal_sequence st)) st;
          st = cryexts_super_set_recovery False st
      in journal_unlock (clear_entries st))"

section \<open>Replay\<close>

text \<open>Give up the transaction: an empty journal and no recovery flag.\<close>

definition journal_v2_discard :: "u64 \<Rightarrow> (fs, unit) act" where
  "journal_v2_discard last_sequence =
     runE [cryexts_journal_v2_reset_state last_sequence,
           modE (cryexts_super_set_recovery False), cryexts_sync_metadata]"

text \<open>One round of the copy loop.\<close>

definition journal_replay_block :: "u64 \<Rightarrow> u64 \<Rightarrow> (fs, unit) act" where
  "journal_replay_block payload home_block = (\<lambda>st.
     if home_block = 0 \<or> cryexts_blocks_count st \<le> home_block \<or>
        \<not> cryexts_data_block_valid st home_block \<or>
        cryexts_journal_block_is_internal st home_block
     then (Inl EUCLEAN, st)
     else bindE (cryexts_read_file_block payload) (cryexts_write_file_block home_block) st)"

definition journal_v2_copy_home :: "nat \<Rightarrow> u64 list \<Rightarrow> (fs, unit) act" where
  "journal_v2_copy_home entries home_blocks = (\<lambda>st.
     finallyE (eachE (\<lambda>i st. journal_replay_block
          (cryexts_journal_v2_payload_start st + of_nat i) (home_blocks ! i) st) [0..<entries])
       (\<lambda>st. st\<lparr>s_journal_replaying := False\<rparr>) (st\<lparr>s_journal_replaying := True\<rparr>))"

definition journal_v2_replay_active :: "u64 \<Rightarrow> u64 \<Rightarrow> (fs, unit) act" where
  "journal_v2_replay_active last_sequence active_sequence =
     bindE (\<lambda>st. cryexts_read_file_block (cryexts_journal_v2_descriptor_block st) st)
       (\<lambda>descriptor_buf.
     bindE (\<lambda>st. cryexts_read_file_block (cryexts_journal_v2_commit_block st) st)
       (\<lambda>commit_buf st.
     case cryexts_journal_v2_descriptor_valid st descriptor_buf of
       None \<Rightarrow> journal_v2_discard last_sequence st
     | Some (descriptor_entries, descriptor_sequence) \<Rightarrow>
         (case cryexts_journal_v2_commit_valid st commit_buf of
            None \<Rightarrow> journal_v2_discard last_sequence st
          | Some (commit_entries, commit_sequence) \<Rightarrow>
              if commit_sequence \<noteq> active_sequence \<or> descriptor_sequence \<noteq> active_sequence \<or>
                 descriptor_entries < commit_entries
              then journal_v2_discard last_sequence st
              else runE [
                journal_v2_copy_home (unat commit_entries)
                  (d2_home_blocks (dec_d2 descriptor_buf)),
                cryexts_sync_metadata,
                modE (cryexts_journal_v2_set_sequence active_sequence),
                journal_v2_discard active_sequence] st)))"

definition cryexts_journal_v2_replay :: "(fs, unit) act" where
  "cryexts_journal_v2_replay =
     finallyE
       (bindE kmalloc (\<lambda>_. bindE kmalloc (\<lambda>_. bindE kmalloc (\<lambda>_. bindE kmalloc (\<lambda>_.
        bindE (\<lambda>st. cryexts_read_file_block (s_journal_block st) st) (\<lambda>control_buf st.
          let control = dec_c2 control_buf in
          if \<not> cryexts_journal_v2_control_valid st control_buf then (Inl EUCLEAN, st)
          else if \<not> cryexts_journal_v2_sequence_state_valid control then (Inl EUCLEAN, st)
          else (let active_sequence = c2_active_sequence control;
                    st = cryexts_journal_v2_set_state (c2_last_sequence control) active_sequence
                           (c2_tail_sequence control) (c2_checkpoint_sequence control) st;
                    st = cryexts_journal_v2_set_sequence (c2_last_sequence control) st
                in if active_sequence = 0
                   then runE [modE (cryexts_super_set_recovery False), cryexts_sync_metadata] st
                   else journal_v2_replay_active (c2_last_sequence control) active_sequence st)))))))
       (\<lambda>st. st\<lparr>s_journal_replaying := False\<rparr>)"

end
