(* ===== verification/JournalV3.thy ===== *)
theory JournalV3
  imports JournalV2
begin

text \<open>
  The version 3 redo journal (\<open>journal.c\<close>): a transaction only collects block numbers; the commit
  copies their contents into the journal, seals descriptor and commit block and then writes the
  blocks home (fixed journal) or leaves that to a later checkpoint (ring journal).
\<close>

definition cryexts_journal_v3_clear_runtime :: "fs \<Rightarrow> fs" where
  "cryexts_journal_v3_clear_runtime st =
     st\<lparr>s_journal_entry_count := 0, s_journal_error := None, s_journal_active_sequence := 0,
        s_journal_home_blocks := replicate CRYEXTS_JOURNAL_MAX_ENTRIES 0\<rparr>"

definition cryexts_journal_v3_write_sync :: "u64 \<Rightarrow> bytes \<Rightarrow> (fs, unit) act" where
  "cryexts_journal_v3_write_sync block buf =
     runE [cryexts_write_file_block block buf, cryexts_sync_single_block block]"

text \<open>The recovery flag cleared with \<open>journal_replaying\<close> set, so that nothing is recorded.\<close>

definition clear_recovery_unrecorded :: "fs \<Rightarrow> fs" where
  "clear_recovery_unrecorded st =
     (cryexts_super_set_recovery False (st\<lparr>s_journal_replaying := True\<rparr>))\<lparr>s_journal_replaying := False\<rparr>"

section \<open>Where a segment goes\<close>

definition cryexts_journal_v3_ring_allocate ::
    "fs \<Rightarrow> u32 \<Rightarrow> (u64 \<times> u64 \<times> u64 \<times> u64) res" where
  "cryexts_journal_v3_ring_allocate st entries =
     (let start = s_journal_ring_head st;
          tail = s_journal_ring_tail st;
          ring_start = cryexts_journal_v3_ring_start st;
          end = cryexts_journal_v3_ring_end st;
          needed = ucast entries + 2
      in if \<not> s_journal_ring st
         then Inr (cryexts_journal_v2_descriptor_block st, cryexts_journal_v2_payload_start st,
                   cryexts_journal_v2_commit_block st, start)
         else if end - ring_start \<le> needed then Inl ENOSPC
         else (case (if start = tail
                     then Inr (if end < start + needed then ring_start else start)
                     else if start < tail
                     then (if tail < start + needed then Inl ENOSPC else Inr start)
                     else if end < start + needed
                     then (if tail - ring_start < needed then Inl ENOSPC else Inr ring_start)
                     else Inr start) of
                 Inl e \<Rightarrow> Inl e
               | Inr start \<Rightarrow>
                   (let descriptor_block = start;
                        payload_start = start + 1;
                        commit_block = payload_start + ucast entries;
                        next_head = commit_block + 1;
                        next_head = (if next_head = end then ring_start else next_head)
                    in Inr (descriptor_block, payload_start, commit_block, next_head))))"

section \<open>Begin\<close>

definition cryexts_journal_v3_begin :: "(fs, unit) act" where
  "cryexts_journal_v3_begin = (\<lambda>st.
     let st = journal_lock st in
     if s_journal_active_sequence st \<noteq> 0
     then (Inl (case s_journal_error st of Some e \<Rightarrow> e | None \<Rightarrow> EUCLEAN), journal_unlock st)
     else if cryexts_journal_v3_payload_capacity st = 0 then (Inl EOPNOTSUPP, journal_unlock st)
     else (let st = cryexts_journal_v3_clear_runtime st
           in (Inr (), st\<lparr>s_journal_active_sequence := s_journal_sequence st + 1\<rparr>)))"

section \<open>Payloads\<close>

definition payload_hash :: "bytes \<Rightarrow> u32" where
  "payload_hash buf = cryexts_fnv1a_update FNV_OFFSET buf BLOCK_SIZE"

text \<open>Copy the recorded blocks into the journal, noting number and checksum of each.\<close>

fun v3_log_payloads ::
    "u64 \<Rightarrow> nat list \<Rightarrow> cryexts_journal_v3_descriptor \<Rightarrow> u32 \<Rightarrow>
     (fs, cryexts_journal_v3_descriptor \<times> u32) act" where
  "v3_log_payloads payload_start [] d agg = retE (d, agg)"
| "v3_log_payloads payload_start (i # is) d agg = (\<lambda>st.
     let home_block = s_journal_home_blocks st ! i in
     bindE (cryexts_read_file_block home_block) (\<lambda>payload_buf.
       let agg' = cryexts_fnv1a_update agg payload_buf BLOCK_SIZE;
           entry = (d3_entries d ! i)\<lparr>e3_home_block := home_block,
                                      e3_payload_checksum := payload_hash payload_buf\<rparr>;
           d' = d\<lparr>d3_entries := (d3_entries d)[i := entry]\<rparr>
       in bindE (cryexts_journal_v3_write_sync (payload_start + of_nat i) payload_buf)
            (\<lambda>_. v3_log_payloads payload_start is d' agg')) st)"

text \<open>Check every entry of a segment against its payload; the result is the running checksum.\<close>

fun v3_validate_payloads ::
    "bool \<Rightarrow> u64 \<Rightarrow> cryexts_journal_v3_entry list \<Rightarrow> nat list \<Rightarrow> u32 \<Rightarrow> (fs, u32) act" where
  "v3_validate_payloads dups payload_start es [] agg = retE agg"
| "v3_validate_payloads dups payload_start es (i # is) agg = (\<lambda>st.
     let e = es ! i; home_block = e3_home_block e in
     if cryexts_blocks_count st \<le> home_block \<or>
        cryexts_journal_block_is_internal st home_block \<or> e3_flags e \<noteq> 0
     then (Inl EUCLEAN, st)
     else if dups \<and> list_ex (\<lambda>j. e3_home_block (es ! j) = home_block) [0..<i]
     then (Inl EUCLEAN, st)
     else bindE (cryexts_read_file_block (payload_start + of_nat i)) (\<lambda>payload_buf.
            if payload_hash payload_buf \<noteq> e3_payload_checksum e then failE EUCLEAN
            else v3_validate_payloads dups payload_start es is
                   (cryexts_fnv1a_update agg payload_buf BLOCK_SIZE)) st)"

text \<open>All payloads of a segment are good, and so is their aggregate checksum.\<close>

definition v3_validate_segment ::
    "bool \<Rightarrow> u64 \<Rightarrow> cryexts_journal_v3_entry list \<Rightarrow> u32 \<Rightarrow> u32 \<Rightarrow> (fs, unit) act" where
  "v3_validate_segment dups payload_start es entries payload_checksum =
     bindE (v3_validate_payloads dups payload_start es [0..<unat entries] FNV_OFFSET)
       (\<lambda>agg. checkE (\<lambda>_. (if entries = 0 then 0 else agg) = payload_checksum) EUCLEAN)"

text \<open>Write the payloads home.\<close>

definition v3_copy_home :: "u64 \<Rightarrow> cryexts_journal_v3_entry list \<Rightarrow> u32 \<Rightarrow> (fs, unit) act" where
  "v3_copy_home payload_start es entries =
     eachE (\<lambda>i. bindE (cryexts_read_file_block (payload_start + of_nat i))
        (cryexts_journal_v3_write_sync (e3_home_block (es ! i)))) [0..<unat entries]"

section \<open>Commit\<close>

record v3_segment =
  seg_descriptor_block :: u64
  seg_payload_start :: u64
  seg_commit_block :: u64
  seg_entries :: u32
  seg_descriptor :: cryexts_journal_v3_descriptor
  seg_payload_checksum :: u32

definition v3_set_ring_pointers :: "u64 \<Rightarrow> u64 \<Rightarrow> fs \<Rightarrow> fs" where
  "v3_set_ring_pointers descriptor_block next_head st =
     (if \<not> s_journal_ring st then st
      else st\<lparr>s_journal_ring_tail :=
                (if s_journal_ring_tail st = s_journal_ring_head st then descriptor_block
                 else s_journal_ring_tail st),
              s_journal_ring_head := next_head\<rparr>)"

text \<open>Up to the control block in state PREPARED; a failure here undoes the transaction.\<close>

definition v3_commit_log :: "u64 \<Rightarrow> (fs, v3_segment) act" where
  "v3_commit_log sequence = (\<lambda>st.
     let entries = of_nat (s_journal_entry_count st);
         previous_sequence = s_journal_sequence st;
         previous_checkpoint = s_journal_checkpoint_sequence st
     in case cryexts_journal_v3_ring_allocate st entries of
          Inl e \<Rightarrow> (Inl e, st)
        | Inr (descriptor_block, payload_start, commit_block, next_head) \<Rightarrow>
            bindE (runE [modE (v3_set_ring_pointers descriptor_block next_head),
                         kmalloc, kmalloc, kmalloc]) (\<lambda>_.
            bindE (v3_log_payloads payload_start [0..<unat entries]
                    (cryexts_journal_v3_prepare_descriptor entries sequence payload_start
                       commit_block) FNV_OFFSET) (\<lambda>(d, agg).
            let payload_checksum = (if entries = 0 then 0 else agg);
                d = cryexts_journal_v3_finish_descriptor d
            in bindE (runE [
                 cryexts_journal_v3_write_sync descriptor_block (enc_d3 d),
                 (\<lambda>st. cryexts_journal_v3_write_sync (s_journal_block st)
                    (cryexts_journal_v3_prepare_control st CRYEXTS_JOURNAL_V3_STATE_PREPARED
                       previous_sequence sequence previous_checkpoint descriptor_block
                       payload_start (ucast entries) commit_block) st)])
               (\<lambda>_. retE \<lparr>seg_descriptor_block = descriptor_block,
                          seg_payload_start = payload_start,
                          seg_commit_block = commit_block, seg_entries = entries,
                          seg_descriptor = d, seg_payload_checksum = payload_checksum\<rparr>))) st)"

definition v3_commit_prepare :: "u64 \<Rightarrow> (fs, v3_segment) act" where
  "v3_commit_prepare sequence = (\<lambda>st.
     let st = upd_disk_sb (\<lambda>sb. sb\<lparr>sb_journal_sequence := sequence\<rparr>) st;
         st = cryexts_gdt_prepare_write st;
         st = cryexts_super_set_recovery True st
     in case s_journal_error st of
          Some e \<Rightarrow> (Inl e, st)
        | None \<Rightarrow> v3_commit_log sequence st)"

text \<open>The commit block itself.\<close>

definition v3_write_commit :: "u64 \<Rightarrow> v3_segment \<Rightarrow> (fs, unit) act" where
  "v3_write_commit sequence seg =
     cryexts_journal_v3_write_sync (seg_commit_block seg)
       (cryexts_journal_v3_prepare_commit (seg_entries seg) sequence
          (d3_checksum (seg_descriptor seg)) (seg_payload_checksum seg) True
          (seg_descriptor_block seg))"

text \<open>Write the control block for a segment.\<close>

definition v3_write_control ::
    "v3_segment \<Rightarrow> u32 \<Rightarrow> u64 \<Rightarrow> u64 \<Rightarrow> u64 \<Rightarrow> (fs, unit) act" where
  "v3_write_control seg state last_sequence active_sequence checkpoint_sequence = (\<lambda>st.
     cryexts_journal_v3_write_sync (s_journal_block st)
       (cryexts_journal_v3_prepare_control st state last_sequence active_sequence
          checkpoint_sequence (seg_descriptor_block seg) (seg_payload_start seg)
          (ucast (seg_entries seg)) (seg_commit_block seg)) st)"

text \<open>The ring journal is done once the control block says COMMITTED; a worker checkpoints.\<close>

definition v3_commit_ring :: "u64 \<Rightarrow> v3_segment \<Rightarrow> (fs, unit) act" where
  "v3_commit_ring sequence seg = (\<lambda>st.
     runE [v3_write_control seg CRYEXTS_JOURNAL_V3_STATE_COMMITTED sequence 0
             (s_journal_checkpoint_sequence st),
           modE (\<lambda>st. (cryexts_journal_v3_clear_runtime
             (st\<lparr>s_journal_sequence := sequence, s_journal_last_sequence := sequence\<rparr>))
               \<lparr>s_checkpoint_scheduled := True\<rparr>)] st)"

text \<open>The fixed journal writes the blocks home at once, rechecking each payload.\<close>

definition v3_checkpoint_home :: "v3_segment \<Rightarrow> (fs, unit) act" where
  "v3_checkpoint_home seg =
     eachE (\<lambda>i. bindE (cryexts_read_file_block (seg_payload_start seg + of_nat i))
       (\<lambda>payload_buf st.
          if payload_hash payload_buf \<noteq> e3_payload_checksum (d3_entries (seg_descriptor seg) ! i)
          then (Inl EUCLEAN, st)
          else cryexts_journal_v3_write_sync (s_journal_home_blocks st ! i) payload_buf st))
       [0..<unat (seg_entries seg)]"

text \<open>An empty descriptor and an uncommitted commit block.\<close>

definition v3_write_empty :: "u64 \<Rightarrow> u64 \<Rightarrow> u64 \<Rightarrow> u64 \<Rightarrow> (fs, unit) act" where
  "v3_write_empty sequence descriptor_block payload_start commit_block =
     (let d = cryexts_journal_v3_finish_descriptor
                (cryexts_journal_v3_prepare_descriptor 0 sequence payload_start commit_block)
      in runE [cryexts_journal_v3_write_sync descriptor_block (enc_d3 d),
               cryexts_journal_v3_write_sync commit_block
                 (cryexts_journal_v3_prepare_commit 0 sequence (d3_checksum d) 0 False
                    descriptor_block)])"

definition v3_commit_fixed :: "u64 \<Rightarrow> v3_segment \<Rightarrow> (fs, unit) act" where
  "v3_commit_fixed sequence seg = (\<lambda>st.
     let previous_sequence = s_journal_sequence st in
     runE [v3_write_control seg CRYEXTS_JOURNAL_V3_STATE_CHECKPOINTING sequence sequence
             previous_sequence,
           v3_checkpoint_home seg,
           modE clear_recovery_unrecorded,
           cryexts_sync_single_block 0,
           v3_write_empty sequence (seg_descriptor_block seg) (seg_payload_start seg)
             (seg_commit_block seg),
           v3_write_control seg CRYEXTS_JOURNAL_V3_STATE_IDLE sequence 0 sequence,
           modE (\<lambda>st. cryexts_journal_v3_clear_runtime
             (st\<lparr>s_journal_sequence := sequence, s_journal_last_sequence := sequence,
                 s_journal_tail_sequence := sequence,
                 s_journal_checkpoint_sequence := sequence\<rparr>))] st)"

text \<open>The label \<open>out_clear_recovery\<close>: pointers, sequence and recovery flag as they were.\<close>

definition v3_undo :: "u64 \<Rightarrow> u64 \<Rightarrow> u64 \<Rightarrow> fs \<Rightarrow> fs" where
  "v3_undo previous_head previous_tail previous_sequence st =
     (let st = (if s_journal_ring st
                then st\<lparr>s_journal_ring_head := previous_head, s_journal_ring_tail := previous_tail\<rparr>
                else st);
          st = upd_disk_sb (\<lambda>sb. sb\<lparr>sb_journal_sequence := previous_sequence\<rparr>) st
      in clear_recovery_unrecorded st)"

definition cryexts_journal_v3_commit :: "(fs, unit) act" where
  "cryexts_journal_v3_commit = (\<lambda>st.
     let previous_sequence = s_journal_sequence st;
         sequence = s_journal_active_sequence st;
         previous_head = s_journal_ring_head st;
         previous_tail = s_journal_ring_tail st
     in case s_journal_error st of
          Some e \<Rightarrow> (Inl e, journal_unlock (cryexts_journal_v3_clear_runtime st))
        | None \<Rightarrow>
            (case v3_commit_prepare sequence st of
               (Inl e, st) \<Rightarrow>
                 (Inl e, journal_unlock (cryexts_journal_v3_clear_runtime
                           (v3_undo previous_head previous_tail previous_sequence st)))
             | (Inr seg, st) \<Rightarrow>
                 (case bindE (v3_write_commit sequence seg) (\<lambda>_ st.
                         if s_journal_ring st then v3_commit_ring sequence seg st
                         else v3_commit_fixed sequence seg st) st of
                    (Inl e, st) \<Rightarrow> (Inl e, journal_unlock (st\<lparr>s_journal_error := Some e\<rparr>))
                  | (Inr _, st) \<Rightarrow> (Inr (), journal_unlock st))))"

definition cryexts_journal_v3_abort :: "fs \<Rightarrow> fs" where
  "cryexts_journal_v3_abort st = journal_unlock (cryexts_journal_v3_clear_runtime st)"

end
