(* ===== verification/JournalReplay.thy ===== *)
theory JournalReplay
  imports JournalV3
begin

text \<open>
  Checkpoint of the version 3 ring and recovery of a version 3 journal at mount (\<open>journal.c\<close>).
  Both read a descriptor, its commit block and its payloads, refuse them with \<open>EUCLEAN\<close> unless
  every check passes, and only then write home.
\<close>

section \<open>Checks on blocks read back\<close>

definition v3_checksum_ok :: "u32 \<Rightarrow> bytes \<Rightarrow> bool" where
  "v3_checksum_ok stored buf \<longleftrightarrow>
     stored = cryexts_journal_v2_checksum buf BLOCK_SIZE JOURNAL_V2_CHECKSUM_OFF"

definition v3_control_head_ok :: "fs \<Rightarrow> cryexts_journal_v3_control \<Rightarrow> bool" where
  "v3_control_head_ok st c \<longleftrightarrow>
     c3_magic c = CRYEXTS_JOURNAL_V3_MAGIC \<and>
     c3_layout_version c = CRYEXTS_JOURNAL_V3_LAYOUT_VERSION \<and>
     c3_block_type c = CRYEXTS_JOURNAL_V3_BLOCK_CONTROL \<and>
     c3_features c = cryexts_journal_v3_features st"

definition v3_descriptor_head_ok :: "cryexts_journal_v3_descriptor \<Rightarrow> bool" where
  "v3_descriptor_head_ok d \<longleftrightarrow>
     d3_magic d = CRYEXTS_JOURNAL_V3_MAGIC \<and>
     d3_layout_version d = CRYEXTS_JOURNAL_V3_LAYOUT_VERSION \<and>
     d3_block_type d = CRYEXTS_JOURNAL_V3_BLOCK_DESCRIPTOR"

definition v3_commit_head_ok :: "cryexts_journal_v3_commit \<Rightarrow> bool" where
  "v3_commit_head_ok c \<longleftrightarrow>
     m3_magic c = CRYEXTS_JOURNAL_V3_MAGIC \<and>
     m3_layout_version c = CRYEXTS_JOURNAL_V3_LAYOUT_VERSION \<and>
     m3_block_type c = CRYEXTS_JOURNAL_V3_BLOCK_COMMIT"

text \<open>A descriptor of the ring read at \<open>position\<close>, after sequence number \<open>previous\<close>.\<close>

definition v3_ring_descriptor_ok :: "fs \<Rightarrow> u64 \<Rightarrow> u64 \<Rightarrow> bytes \<Rightarrow> bool" where
  "v3_ring_descriptor_ok st position previous buf \<longleftrightarrow>
     (let d = dec_d3 buf in
      v3_descriptor_head_ok d \<and> v3_checksum_ok (d3_checksum d) buf \<and>
      \<not> (cryexts_journal_v3_payload_capacity st < d3_entry_count d \<or>
         d3_payload_start d \<noteq> position + 1 \<or>
         d3_commit_block d \<noteq> d3_payload_start d + ucast (d3_entry_count d) \<or>
         d3_sequence d \<le> previous))"

text \<open>The block after a segment, wrapped to the start of the ring.\<close>

definition v3_ring_next :: "fs \<Rightarrow> u64 \<Rightarrow> u64" where
  "v3_ring_next st commit_block =
     (if commit_block + 1 = cryexts_journal_v3_ring_end st then cryexts_journal_v3_ring_start st
      else commit_block + 1)"

definition kmalloc4 :: "(fs, unit) act" where
  "kmalloc4 = runE [kmalloc, kmalloc, kmalloc, kmalloc]"

section \<open>Checkpoint of the oldest segment\<close>

definition v3_checkpoint_commit_ok ::
    "u64 \<Rightarrow> cryexts_journal_v3_descriptor \<Rightarrow> bytes \<Rightarrow> bool" where
  "v3_checkpoint_commit_ok descriptor_block d buf \<longleftrightarrow>
     (let c = dec_m3 buf in
      v3_commit_head_ok c \<and>
      m3_flags c = CRYEXTS_JOURNAL_V3_FLAG_COMMITTED \<and>
      m3_entry_count c = d3_entry_count d \<and>
      m3_sequence c = d3_sequence d \<and>
      m3_descriptor_block c = descriptor_block \<and>
      m3_descriptor_checksum c = d3_checksum d \<and>
      v3_checksum_ok (m3_checksum c) buf)"

text \<open>The control block of a checkpoint, written over the segment at \<open>descriptor_block\<close>.\<close>

definition v3_checkpoint_control ::
    "u64 \<Rightarrow> cryexts_journal_v3_descriptor \<Rightarrow> u32 \<Rightarrow> u64 \<Rightarrow> u64 \<Rightarrow> (fs, unit) act" where
  "v3_checkpoint_control descriptor_block d state last_sequence checkpoint_sequence = (\<lambda>st.
     cryexts_journal_v3_write_sync (s_journal_block st)
       (cryexts_journal_v3_prepare_control st state last_sequence 0 checkpoint_sequence
          descriptor_block (d3_payload_start d) (ucast (d3_entry_count d)) (d3_commit_block d)) st)"

definition v3_checkpoint_finish ::
    "u64 \<Rightarrow> cryexts_journal_v3_descriptor \<Rightarrow> u64 \<Rightarrow> (fs, unit) act" where
  "v3_checkpoint_finish descriptor_block d last_sequence = (\<lambda>st.
     let next_tail = v3_ring_next st (d3_commit_block d);
         sequence = d3_sequence d;
         st = st\<lparr>s_journal_ring_tail := next_tail, s_journal_tail_sequence := sequence,
                 s_journal_checkpoint_sequence := sequence\<rparr>
     in if next_tail = s_journal_ring_head st
        then runE [modE clear_recovery_unrecorded, cryexts_sync_single_block 0,
                   v3_checkpoint_control descriptor_block d CRYEXTS_JOURNAL_V3_STATE_IDLE
                     last_sequence sequence] st
        else v3_checkpoint_control descriptor_block d CRYEXTS_JOURNAL_V3_STATE_COMMITTED
               last_sequence sequence st)"

definition cryexts_journal_v3_checkpoint_one :: "(fs, unit) act" where
  "cryexts_journal_v3_checkpoint_one = (\<lambda>st.
     let last_sequence = s_journal_last_sequence st;
         descriptor_block = s_journal_ring_tail st;
         checkpoint_sequence = s_journal_checkpoint_sequence st
     in if \<not> s_journal_ring st \<or> descriptor_block = s_journal_ring_head st then (Inr (), st)
        else bindE kmalloc4 (\<lambda>_.
             bindE (cryexts_read_file_block descriptor_block) (\<lambda>descriptor_buf.
             let d = dec_d3 descriptor_buf in
             bindE (checkE (\<lambda>st. v3_ring_descriptor_ok st descriptor_block checkpoint_sequence
                             descriptor_buf) EUCLEAN) (\<lambda>_.
             bindE (cryexts_read_file_block (d3_commit_block d)) (\<lambda>commit_buf.
             runE [
               checkE (\<lambda>_. v3_checkpoint_commit_ok descriptor_block d commit_buf) EUCLEAN,
               v3_checkpoint_control descriptor_block d CRYEXTS_JOURNAL_V3_STATE_CHECKPOINTING
                 last_sequence checkpoint_sequence,
               v3_validate_segment False (d3_payload_start d) (d3_entries d) (d3_entry_count d)
                 (m3_payload_checksum (dec_m3 commit_buf)),
               v3_copy_home (d3_payload_start d) (d3_entries d) (d3_entry_count d),
               v3_checkpoint_finish descriptor_block d last_sequence])))) st)"

section \<open>Resetting the journal on disk\<close>

definition cryexts_journal_v3_reset_disk ::
    "u64 \<Rightarrow> u64 \<Rightarrow> u64 \<Rightarrow> u64 \<Rightarrow> u64 \<Rightarrow> (fs, unit) act" where
  "cryexts_journal_v3_reset_disk sequence descriptor_block payload_start payload_blocks
       commit_block = (\<lambda>st.
     if s_journal_ring st
     then runE [v3_write_empty sequence descriptor_block payload_start commit_block,
           (\<lambda>st. cryexts_journal_v3_write_sync (s_journal_block st)
              (cryexts_journal_v3_prepare_control st CRYEXTS_JOURNAL_V3_STATE_IDLE sequence 0
                 sequence descriptor_block payload_start payload_blocks commit_block) st)] st
     else runE [
           (\<lambda>st. v3_write_empty sequence (cryexts_journal_v2_descriptor_block st)
              (cryexts_journal_v2_payload_start st) (cryexts_journal_v2_commit_block st) st),
           (\<lambda>st. cryexts_journal_v3_write_sync (s_journal_block st)
              (cryexts_journal_v3_prepare_control st CRYEXTS_JOURNAL_V3_STATE_IDLE sequence 0
                 sequence (cryexts_journal_v2_descriptor_block st)
                 (cryexts_journal_v2_payload_start st)
                 (cryexts_journal_v2_payload_area_blocks st)
                 (cryexts_journal_v2_commit_block st)) st)] st)"

section \<open>A journal that claims to be clean\<close>

definition v3_set_clean_runtime :: "cryexts_journal_v3_control \<Rightarrow> fs \<Rightarrow> fs" where
  "v3_set_clean_runtime c st =
     st\<lparr>s_journal_sequence := c3_last_sequence c, s_journal_last_sequence := c3_last_sequence c,
        s_journal_active_sequence := 0, s_journal_tail_sequence := c3_last_sequence c,
        s_journal_checkpoint_sequence := c3_last_sequence c,
        s_journal_ring_head := c3_ring_head c, s_journal_ring_tail := c3_ring_tail c\<rparr>"

definition v3_validate_clean_ring :: "bytes \<Rightarrow> (fs, unit) act" where
  "v3_validate_clean_ring control_buf = (\<lambda>st.
     let c = dec_c3 control_buf in
     if \<not> v3_control_head_ok st c then (Inl EUCLEAN, st)
     else if \<not> cryexts_journal_v3_ring_valid st c then (Inl EUCLEAN, st)
     else if \<not> v3_checksum_ok (c3_checksum c) control_buf then (Inl EUCLEAN, st)
     else if c3_state c \<noteq> CRYEXTS_JOURNAL_V3_STATE_IDLE \<or> c3_active_sequence c \<noteq> 0 \<or>
             c3_checkpoint_sequence c \<noteq> c3_last_sequence c then (Inl EUCLEAN, st)
     else (Inr (), v3_set_clean_runtime c st))"

text \<open>The fixed geometry in the control block.\<close>

definition v3_control_geometry_ok :: "fs \<Rightarrow> cryexts_journal_v3_control \<Rightarrow> bool" where
  "v3_control_geometry_ok st c \<longleftrightarrow>
     c3_descriptor_block c = s_journal_block st + 1 \<and>
     c3_payload_start c = s_journal_block st + 2 \<and>
     c3_payload_blocks c = s_journal_blocks st - 3 \<and>
     c3_commit_block c = s_journal_block st + s_journal_blocks st - 1"

definition v3_empty_descriptor_ok :: "u64 \<Rightarrow> u64 \<Rightarrow> bytes \<Rightarrow> bool" where
  "v3_empty_descriptor_ok payload_start commit_block buf \<longleftrightarrow>
     (let d = dec_d3 buf in
      v3_descriptor_head_ok d \<and> d3_flags d = 0 \<and> d3_entry_count d = 0 \<and>
      d3_payload_start d = payload_start \<and> d3_commit_block d = commit_block \<and>
      v3_checksum_ok (d3_checksum d) buf \<and>
      list_all (\<lambda>e. e3_home_block e = 0 \<and> e3_payload_checksum e = 0 \<and> e3_flags e = 0)
        (d3_entries d))"

definition v3_empty_commit_ok :: "u64 \<Rightarrow> u32 \<Rightarrow> bytes \<Rightarrow> bool" where
  "v3_empty_commit_ok descriptor_block descriptor_checksum buf \<longleftrightarrow>
     (let c = dec_m3 buf in
      v3_commit_head_ok c \<and> m3_flags c = 0 \<and> m3_entry_count c = 0 \<and>
      m3_descriptor_block c = descriptor_block \<and>
      m3_descriptor_checksum c = descriptor_checksum \<and> m3_payload_checksum c = 0 \<and>
      v3_checksum_ok (m3_checksum c) buf)"

definition v3_validate_clean_fixed :: "bytes \<Rightarrow> (fs, unit) act" where
  "v3_validate_clean_fixed control_buf = (\<lambda>st.
     let c = dec_c3 control_buf;
         descriptor_block = s_journal_block st + 1;
         payload_start = s_journal_block st + 2;
         commit_block = s_journal_block st + s_journal_blocks st - 1
     in if \<not> v3_control_head_ok st c \<or> \<not> v3_control_geometry_ok st c then (Inl EUCLEAN, st)
        else if \<not> cryexts_journal_v3_ring_valid st c then (Inl EUCLEAN, st)
        else bindE (cryexts_read_file_block descriptor_block) (\<lambda>descriptor_buf.
             bindE (cryexts_read_file_block commit_block) (\<lambda>commit_buf st.
               if \<not> v3_checksum_ok (c3_checksum c) control_buf then (Inl EUCLEAN, st)
               else if CRYEXTS_JOURNAL_V3_STATE_CHECKPOINTING < c3_state c then (Inl EUCLEAN, st)
               else if c3_state c \<noteq> CRYEXTS_JOURNAL_V3_STATE_IDLE then (Inl EOPNOTSUPP, st)
               else if \<not> v3_empty_descriptor_ok payload_start commit_block descriptor_buf
               then (Inl EUCLEAN, st)
               else if \<not> v3_empty_commit_ok descriptor_block
                         (d3_checksum (dec_d3 descriptor_buf)) commit_buf
               then (Inl EUCLEAN, st)
               else if c3_active_sequence c \<noteq> 0 \<or>
                       c3_checkpoint_sequence c \<noteq> c3_last_sequence c \<or>
                       d3_sequence (dec_d3 descriptor_buf) \<noteq> c3_last_sequence c \<or>
                       m3_sequence (dec_m3 commit_buf) \<noteq> c3_last_sequence c
               then (Inl EUCLEAN, st)
               else (Inr (), v3_set_clean_runtime c st))) st)"

definition cryexts_journal_v3_validate_clean :: "(fs, unit) act" where
  "cryexts_journal_v3_validate_clean =
     bindE kmalloc (\<lambda>_. bindE kmalloc (\<lambda>_. bindE kmalloc (\<lambda>_.
     bindE (\<lambda>st. cryexts_read_file_block (s_journal_block st) st) (\<lambda>control_buf st.
       if s_journal_ring st then v3_validate_clean_ring control_buf st
       else v3_validate_clean_fixed control_buf st))))"

section \<open>Recovery of the fixed journal\<close>

text \<open>The label \<open>discard\<close>: the journal is empty at \<open>last_sequence\<close> from here on.\<close>

definition v3_set_sequences :: "u64 \<Rightarrow> fs \<Rightarrow> fs" where
  "v3_set_sequences last_sequence st =
     st\<lparr>s_journal_sequence := last_sequence, s_journal_last_sequence := last_sequence,
        s_journal_tail_sequence := last_sequence,
        s_journal_checkpoint_sequence := last_sequence\<rparr>"

definition v3_discard_finish :: "u64 \<Rightarrow> u64 \<Rightarrow> u64 \<Rightarrow> u64 \<Rightarrow> u64 \<Rightarrow> (fs, unit) act" where
  "v3_discard_finish last_sequence descriptor_block payload_start payload_blocks commit_block =
     runE [
       modE (upd_disk_sb (\<lambda>sb. sb\<lparr>sb_journal_sequence := last_sequence\<rparr>)),
       modE clear_recovery_unrecorded,
       cryexts_sync_single_block 0,
       cryexts_journal_v3_reset_disk last_sequence descriptor_block payload_start payload_blocks
         commit_block,
       modE cryexts_journal_v3_clear_runtime]"

definition v3_discard_fixed :: "u64 \<Rightarrow> (fs, unit) act" where
  "v3_discard_fixed last_sequence = (\<lambda>st.
     runE [modE (v3_set_sequences last_sequence),
       v3_discard_finish last_sequence (cryexts_journal_v2_descriptor_block st)
         (cryexts_journal_v2_payload_start st) (cryexts_journal_v2_payload_area_blocks st)
         (cryexts_journal_v2_commit_block st)] st)"

text \<open>The copy loop runs with \<open>journal_replaying\<close> set.\<close>

definition v3_replay_home :: "u64 \<Rightarrow> cryexts_journal_v3_entry list \<Rightarrow> u32 \<Rightarrow> (fs, unit) act" where
  "v3_replay_home payload_start es entries = (\<lambda>st.
     finallyE (v3_copy_home payload_start es entries)
       (\<lambda>st. st\<lparr>s_journal_replaying := False\<rparr>) (st\<lparr>s_journal_replaying := True\<rparr>))"

definition v3_fixed_descriptor_ok :: "fs \<Rightarrow> u64 \<Rightarrow> bytes \<Rightarrow> bool" where
  "v3_fixed_descriptor_ok st active_sequence buf \<longleftrightarrow>
     (let d = dec_d3 buf in
      v3_descriptor_head_ok d \<and> d3_flags d = 0 \<and> d3_sequence d = active_sequence \<and>
      d3_payload_start d = cryexts_journal_v2_payload_start st \<and>
      d3_commit_block d = cryexts_journal_v2_commit_block st \<and>
      d3_entry_count d \<le> cryexts_journal_v3_payload_capacity st \<and>
      v3_checksum_ok (d3_checksum d) buf \<and>
      list_all (\<lambda>i. let e = d3_entries d ! i in
          e3_home_block e = 0 \<and> e3_payload_checksum e = 0 \<and> e3_flags e = 0)
        [unat (d3_entry_count d)..<CRYEXTS_JOURNAL_V3_MAX_ENTRIES])"

definition v3_fixed_commit_valid :: "fs \<Rightarrow> bytes \<Rightarrow> bool" where
  "v3_fixed_commit_valid st buf \<longleftrightarrow>
     (let c = dec_m3 buf in
      v3_commit_head_ok c \<and>
      m3_descriptor_block c = cryexts_journal_v2_descriptor_block st \<and>
      v3_checksum_ok (m3_checksum c) buf)"

text \<open>Validate and replay a committed transaction.\<close>

definition v3_redo_fixed :: "u64 \<Rightarrow> u64 \<Rightarrow> bytes \<Rightarrow> bytes \<Rightarrow> (fs, unit) act" where
  "v3_redo_fixed active_sequence checkpoint_sequence descriptor_buf commit_buf = (\<lambda>st.
     let d = dec_d3 descriptor_buf; c = dec_m3 commit_buf; entries = d3_entry_count d in
     if m3_flags c \<noteq> CRYEXTS_JOURNAL_V3_FLAG_COMMITTED \<or> m3_entry_count c \<noteq> entries \<or>
        m3_sequence c \<noteq> active_sequence \<or> m3_descriptor_checksum c \<noteq> d3_checksum d
     then (Inl EUCLEAN, st)
     else runE [
       v3_validate_segment True (cryexts_journal_v2_payload_start st) (d3_entries d) entries
         (m3_payload_checksum c),
       (\<lambda>st. cryexts_journal_v3_write_sync (s_journal_block st)
          (cryexts_journal_v3_prepare_control st CRYEXTS_JOURNAL_V3_STATE_CHECKPOINTING
             active_sequence active_sequence checkpoint_sequence
             (cryexts_journal_v2_descriptor_block st) (cryexts_journal_v2_payload_start st)
             (ucast entries) (cryexts_journal_v2_commit_block st)) st),
       v3_replay_home (cryexts_journal_v2_payload_start st) (d3_entries d) entries,
       v3_discard_fixed active_sequence] st)"

text \<open>The descriptor and commit block decide between redo, discard and refusal.\<close>

definition v3_replay_segment_fixed :: "u32 \<Rightarrow> u64 \<Rightarrow> u64 \<Rightarrow> u64 \<Rightarrow> (fs, unit) act" where
  "v3_replay_segment_fixed state last_sequence active_sequence checkpoint_sequence =
     bindE (\<lambda>st. cryexts_read_file_block (cryexts_journal_v2_descriptor_block st) st)
       (\<lambda>descriptor_buf.
     bindE (\<lambda>st. cryexts_read_file_block (cryexts_journal_v2_commit_block st) st)
       (\<lambda>commit_buf st.
       if \<not> v3_fixed_descriptor_ok st active_sequence descriptor_buf then (Inl EUCLEAN, st)
       else if \<not> v3_fixed_commit_valid st commit_buf \<or> m3_flags (dec_m3 commit_buf) = 0
       then (if state = CRYEXTS_JOURNAL_V3_STATE_PREPARED
             then v3_discard_fixed last_sequence st else (Inl EUCLEAN, st))
       else v3_redo_fixed active_sequence checkpoint_sequence descriptor_buf commit_buf st))"

definition v3_replay_control_fixed :: "bytes \<Rightarrow> (fs, unit) act" where
  "v3_replay_control_fixed control_buf = (\<lambda>st.
     let c = dec_c3 control_buf;
         state = c3_state c;
         last_sequence = c3_last_sequence c;
         active_sequence = c3_active_sequence c;
         checkpoint_sequence = c3_checkpoint_sequence c
     in if \<not> v3_control_head_ok st c \<or>
           c3_descriptor_block c \<noteq> cryexts_journal_v2_descriptor_block st \<or>
           c3_payload_start c \<noteq> cryexts_journal_v2_payload_start st \<or>
           c3_payload_blocks c \<noteq> cryexts_journal_v2_payload_area_blocks st \<or>
           c3_commit_block c \<noteq> cryexts_journal_v2_commit_block st then (Inl EUCLEAN, st)
        else if \<not> cryexts_journal_v3_ring_valid st c then (Inl EUCLEAN, st)
        else if \<not> v3_checksum_ok (c3_checksum c) control_buf then (Inl EUCLEAN, st)
        else if state = CRYEXTS_JOURNAL_V3_STATE_IDLE
        then (if \<not> cryexts_journal_needs_recovery st then cryexts_journal_v3_validate_clean st
              else if active_sequence \<noteq> 0 \<or> checkpoint_sequence \<noteq> last_sequence
              then (Inl EUCLEAN, st)
              else v3_discard_fixed last_sequence st)
        else if CRYEXTS_JOURNAL_V3_STATE_CHECKPOINTING < state then (Inl EUCLEAN, st)
        else if active_sequence = 0 \<or> last_sequence < checkpoint_sequence then (Inl EUCLEAN, st)
        else if (if state = CRYEXTS_JOURNAL_V3_STATE_CHECKPOINTING
                 then active_sequence \<noteq> last_sequence
                 else active_sequence \<noteq> last_sequence + 1) then (Inl EUCLEAN, st)
        else if state = CRYEXTS_JOURNAL_V3_STATE_CHECKPOINTING \<and>
                \<not> cryexts_journal_needs_recovery st then v3_discard_fixed last_sequence st
        else if state = CRYEXTS_JOURNAL_V3_STATE_ACTIVE then v3_discard_fixed last_sequence st
        else v3_replay_segment_fixed state last_sequence active_sequence checkpoint_sequence st)"

section \<open>Recovery of the ring\<close>

definition v3_discard_ring :: "u64 \<Rightarrow> u64 \<Rightarrow> (fs, unit) act" where
  "v3_discard_ring head last_sequence = (\<lambda>st.
     runE [modE (\<lambda>st. (v3_set_sequences last_sequence st)
             \<lparr>s_journal_ring_tail := head, s_journal_ring_head := head\<rparr>),
       v3_discard_finish last_sequence (s_journal_block st + 1) (s_journal_block st + 2)
         (s_journal_blocks st - 3) (s_journal_block st + s_journal_blocks st - 1)] st)"

definition v3_ring_commit_valid ::
    "u64 \<Rightarrow> cryexts_journal_v3_descriptor \<Rightarrow> bytes \<Rightarrow> bool" where
  "v3_ring_commit_valid position d buf \<longleftrightarrow>
     (let c = dec_m3 buf in
      v3_commit_head_ok c \<and> m3_descriptor_block c = position \<and>
      m3_entry_count c = d3_entry_count d \<and> m3_sequence c = d3_sequence d \<and>
      v3_checksum_ok (m3_checksum c) buf)"

text \<open>
  One round of the loop over the segments: \<open>None\<close> leaves the loop (an uncommitted segment just
  before \<open>head\<close>), \<open>Some\<close> has the sequence number of the replayed segment and the position after it.
\<close>

definition v3_replay_segment :: "u64 \<Rightarrow> u64 \<Rightarrow> u64 \<Rightarrow> (fs, (u64 \<times> u64) option) act" where
  "v3_replay_segment head position previous_sequence =
     bindE (cryexts_read_file_block position) (\<lambda>descriptor_buf.
     let d = dec_d3 descriptor_buf in
     bindE (checkE (\<lambda>st. v3_ring_descriptor_ok st position previous_sequence descriptor_buf)
             EUCLEAN) (\<lambda>_ st.
     let segment_end = v3_ring_next st (d3_commit_block d) in
     bindE (cryexts_read_file_block (d3_commit_block d)) (\<lambda>commit_buf st.
       let c = dec_m3 commit_buf in
       if \<not> v3_ring_commit_valid position d commit_buf
       then (if segment_end = head then Inr None else Inl EUCLEAN, st)
       else if m3_flags c \<noteq> CRYEXTS_JOURNAL_V3_FLAG_COMMITTED
       then (if segment_end = head then Inr None else Inl EUCLEAN, st)
       else if m3_descriptor_checksum c \<noteq> d3_checksum d then (Inl EUCLEAN, st)
       else bindE (runE [
              v3_validate_segment True (d3_payload_start d) (d3_entries d) (d3_entry_count d)
                (m3_payload_checksum c),
              v3_replay_home (d3_payload_start d) (d3_entries d) (d3_entry_count d)])
            (\<lambda>_. retE (Some (d3_sequence d, segment_end))) st) st))"

lemma v3_replay_segment_sequence:
  assumes "v3_replay_segment head position previous_sequence st = (Inr (Some (q, p)), st')"
  shows "previous_sequence < q"
  using assms
  by (auto simp: v3_replay_segment_def bindE_eq_Inr Let_def checkE_def retE_def
      v3_ring_descriptor_ok_def not_le split: if_splits)

lemma seq_measure:
  "p < q \<Longrightarrow> 18446744073709551616 - unat q < 18446744073709551616 - unat (p :: u64)"
  using unsigned_less [of q, where 'a = nat] by (simp add: word_less_nat_alt)

text \<open>The loop ends because the sequence numbers of the segments increase.\<close>

function v3_replay_segments :: "u64 \<Rightarrow> u64 \<Rightarrow> u64 \<Rightarrow> u64 \<Rightarrow> fs \<Rightarrow> u64 res \<times> fs" where
  "v3_replay_segments head position previous_sequence last_sequence st =
     (if position = head then (Inr last_sequence, st)
      else (case v3_replay_segment head position previous_sequence st of
              (Inl e, st') \<Rightarrow> (Inl e, st')
            | (Inr None, st') \<Rightarrow> (Inr last_sequence, st')
            | (Inr (Some (sequence, segment_end)), st') \<Rightarrow>
                v3_replay_segments head segment_end sequence sequence st'))"
  by pat_completeness auto
termination
  by (relation "measure (\<lambda>(_, _, previous, _, _). 2 ^ 64 - unat previous)")
     (auto dest!: v3_replay_segment_sequence [OF sym] intro: seq_measure)

declare v3_replay_segments.simps [simp del]

definition v3_replay_control_ring :: "bytes \<Rightarrow> (fs, unit) act" where
  "v3_replay_control_ring control_buf = (\<lambda>st.
     let c = dec_c3 control_buf;
         state = c3_state c;
         last_sequence = c3_last_sequence c;
         head = c3_ring_head c
     in if \<not> v3_control_head_ok st c then (Inl EUCLEAN, st)
        else if \<not> cryexts_journal_v3_ring_valid st c then (Inl EUCLEAN, st)
        else if \<not> v3_checksum_ok (c3_checksum c) control_buf then (Inl EUCLEAN, st)
        else if state = CRYEXTS_JOURNAL_V3_STATE_IDLE
        then (if \<not> cryexts_journal_needs_recovery st then cryexts_journal_v3_validate_clean st
              else if c3_active_sequence c \<noteq> 0 \<or> c3_checkpoint_sequence c \<noteq> last_sequence
              then (Inl EUCLEAN, st)
              else v3_discard_ring head last_sequence st)
        else if CRYEXTS_JOURNAL_V3_STATE_CHECKPOINTING < state then (Inl EUCLEAN, st)
        else bindE (v3_replay_segments head (c3_ring_tail c) (c3_checkpoint_sequence c)
                      last_sequence)
               (v3_discard_ring head) st)"

definition cryexts_journal_v3_replay_ring :: "(fs, unit) act" where
  "cryexts_journal_v3_replay_ring =
     finallyE
       (bindE kmalloc4 (\<lambda>_.
        bindE (\<lambda>st. cryexts_read_file_block (s_journal_block st) st) v3_replay_control_ring))
       (\<lambda>st. st\<lparr>s_journal_replaying := False\<rparr>)"

definition cryexts_journal_v3_replay :: "(fs, unit) act" where
  "cryexts_journal_v3_replay = (\<lambda>st.
     if s_journal_ring st then cryexts_journal_v3_replay_ring st
     else finallyE
       (bindE kmalloc4 (\<lambda>_.
        bindE (\<lambda>st. cryexts_read_file_block (s_journal_block st) st) v3_replay_control_fixed))
       (\<lambda>st. st\<lparr>s_journal_replaying := False\<rparr>) st)"

section \<open>The checkpoint loop\<close>

text \<open>\<open>while (!err && tail != head) err = checkpoint_one(sb);\<close>  Not returning is \<open>None\<close>.\<close>

partial_function (option) journal_checkpoint_loop :: "fs \<Rightarrow> (unit res \<times> fs) option" where
  "journal_checkpoint_loop st =
     (if s_journal_ring_tail st = s_journal_ring_head st then Some (Inr (), st)
      else (case cryexts_journal_v3_checkpoint_one st of
              (Inl e, st') \<Rightarrow> Some (Inl e, st')
            | (Inr _, st') \<Rightarrow> journal_checkpoint_loop st'))"

definition cryexts_journal_checkpoint_sync :: "fs \<Rightarrow> (unit res \<times> fs) option" where
  "cryexts_journal_checkpoint_sync st =
     (if \<not> s_journal_enabled st \<or> \<not> s_journal_v3 st \<or> \<not> s_journal_ring st
      then Some (Inr (), st)
      else map_option (\<lambda>(r, st). (r, journal_unlock st))
             (journal_checkpoint_loop (journal_lock st)))"

text \<open>The work item drops the result.\<close>

definition cryexts_journal_checkpoint_worker :: "fs \<Rightarrow> fs option" where
  "cryexts_journal_checkpoint_worker st =
     map_option snd (cryexts_journal_checkpoint_sync (st\<lparr>s_checkpoint_scheduled := False\<rparr>))"

end
