(* ===== verification/Journal.thy ===== *)
theory Journal
  imports JournalReplay
begin

text \<open>
  The journal as its callers see it (\<open>journal.c\<close>, from \<open>cryexts_journal_begin\<close> on): begin,
  commit, abort and replay choose between the three formats and hold the code of version 1.
  \<open>cryexts_journal_record_block\<close> is in the theory on recording.
\<close>

section \<open>Begin\<close>

definition journal_v1_begin :: "(fs, unit) act" where
  "journal_v1_begin = (\<lambda>st.
     let st = clear_entries (journal_lock st);
         st = cryexts_super_set_recovery True st
     in on_errE cryexts_sync_metadata
          (\<lambda>_ st. journal_unlock (cryexts_super_set_recovery False st)) st)"

definition cryexts_journal_begin :: "(fs, unit) act" where
  "cryexts_journal_begin = (\<lambda>st.
     if \<not> s_journal_enabled st \<or> s_journal_replaying st then (Inr (), st)
     else if cryexts_journal_uses_v3 st then cryexts_journal_v3_begin st
     else if cryexts_journal_uses_v2 st then cryexts_journal_v2_begin st
     else journal_v1_begin st)"

section \<open>Abort\<close>

definition journal_v1_abort :: "fs \<Rightarrow> fs" where
  "journal_v1_abort st =
     (let st = (if s_journal_entry_count st = 0 then cryexts_super_set_recovery False st else st)
      in journal_unlock (clear_entries st))"

definition cryexts_journal_abort :: "fs \<Rightarrow> fs" where
  "cryexts_journal_abort st =
     (if \<not> s_journal_enabled st \<or> s_journal_replaying st then journal_unlock st
      else if cryexts_journal_uses_v3 st then cryexts_journal_v3_abort st
      else if cryexts_journal_uses_v2 st then cryexts_journal_v2_abort st
      else journal_v1_abort st)"

section \<open>Commit\<close>

definition journal_v1_commit :: "(fs, unit) act" where
  "journal_v1_commit = (\<lambda>st.
     case kmalloc st of
       (Inl e, st) \<Rightarrow> (Inl e, journal_unlock st)
     | (Inr _, st) \<Rightarrow>
         finallyE (runE [
             cryexts_journal_write_header
               (cryexts_journal_prepare_header 0 0 (s_journal_sequence st)),
             modE (cryexts_super_set_recovery False),
             modE (\<lambda>st. upd_disk_sb (\<lambda>sb. sb\<lparr>sb_journal_sequence := s_journal_sequence st\<rparr>) st),
             modE cryexts_mark_super_dirty,
             cryexts_sync_metadata])
           (\<lambda>st. journal_unlock (clear_entries st)) st)"

definition cryexts_journal_commit :: "(fs, unit) act" where
  "cryexts_journal_commit = (\<lambda>st.
     if \<not> s_journal_enabled st \<or> s_journal_replaying st then (Inr (), journal_unlock st)
     else (case cryexts_journal_ordered_barrier st of
             (Inl e, st) \<Rightarrow> (Inl e, cryexts_journal_abort st)
           | (Inr _, st) \<Rightarrow>
               if cryexts_journal_uses_v3 st then cryexts_journal_v3_commit st
               else if cryexts_journal_uses_v2 st then cryexts_journal_v2_commit st
               else journal_v1_commit st))"

section \<open>Replay\<close>

definition journal_v1_copy_home :: "nat \<Rightarrow> u64 list \<Rightarrow> (fs, unit) act" where
  "journal_v1_copy_home entries home_blocks = (\<lambda>st.
     finallyE (eachE (\<lambda>i st. journal_replay_block (s_journal_block st + 1 + of_nat i)
          (home_blocks ! i) st) [0..<entries])
       (\<lambda>st. st\<lparr>s_journal_replaying := False\<rparr>) (st\<lparr>s_journal_replaying := True\<rparr>))"

text \<open>The header is emptied and the superblock says that recovery is done.\<close>

definition journal_v1_finish :: "u64 \<Rightarrow> (fs, unit) act" where
  "journal_v1_finish sequence = runE [
     cryexts_journal_write_header (cryexts_journal_prepare_header 0 0 sequence),
     modE (\<lambda>st. st\<lparr>s_journal_sequence := sequence\<rparr>),
     modE (upd_disk_sb (\<lambda>sb. sb\<lparr>sb_journal_sequence := sequence\<rparr>)),
     modE (cryexts_super_set_recovery False),
     modE cryexts_mark_super_dirty,
     cryexts_sync_metadata]"

definition journal_v1_replay :: "(fs, unit) act" where
  "journal_v1_replay =
     finallyE
       (bindE (runE [kmalloc, kmalloc]) (\<lambda>_.
        bindE cryexts_journal_read_header (\<lambda>journal_buf st.
          let jh = dec_jh journal_buf in
          if jh_magic jh \<noteq> CRYEXTS_JOURNAL_MAGIC
          then (Inr (), cryexts_super_set_recovery False st)
          else (case cryexts_journal_header_valid st journal_buf of
                  None \<Rightarrow> (Inl EUCLEAN, st)
                | Some entries \<Rightarrow>
                    if \<not> has_flag (jh_flags jh) CRYEXTS_JOURNAL_FLAG_VALID \<or> entries = 0
                    then (Inr (), cryexts_super_set_recovery False st)
                    else if CRYEXTS_JOURNAL_MAX_ENTRIES < unat entries \<or>
                            s_journal_blocks st < ucast (entries + 1)
                    then (Inl EUCLEAN, st)
                    else runE [journal_v1_copy_home (unat entries) (jh_home_blocks jh),
                               journal_v1_finish (jh_sequence jh)] st))))
       (\<lambda>st. st\<lparr>s_journal_replaying := False\<rparr>)"

definition cryexts_journal_replay :: "(fs, unit) act" where
  "cryexts_journal_replay = (\<lambda>st.
     if \<not> s_journal_enabled st then (Inr (), st)
     else if cryexts_journal_uses_v3 st then cryexts_journal_v3_replay st
     else if \<not> cryexts_journal_needs_recovery st then (Inr (), st)
     else if cryexts_journal_uses_v2 st then cryexts_journal_v2_replay st
     else journal_v1_replay st)"

end
