(* ===== verification/Balloc.thy ===== *)
theory Balloc
  imports JournalRecord
begin

text \<open>
  Allocation and release of inodes and blocks (\<open>balloc.c\<close>, from line 230 on) and the place of an
  inode in the inode table (\<open>cryexts_get_disk_inode\<close> of \<open>inode.c\<close>).  \<open>alloc_lock\<close> is taken and
  released inside each function, so it is not part of the state.  \<open>sbi->block_bitmap\<close> and the
  arrays \<open>sbi->group_..._bitmaps\<close> point into the data of the buffers that the \<open>..._bh\<close> fields
  name; a null pointer that the code dereferences without a check is \<open>the None\<close>, which is
  unspecified.
\<close>

section \<open>Bitmaps and group descriptors in place\<close>

definition bitmap_set_at :: "u64 \<Rightarrow> u64 \<Rightarrow> fs \<Rightarrow> fs" where
  "bitmap_set_at bh k st = set_bdata bh (cryexts_bitmap_set (bdata st bh) k) st"

definition bitmap_clear_at :: "u64 \<Rightarrow> u64 \<Rightarrow> fs \<Rightarrow> fs" where
  "bitmap_clear_at bh k st = set_bdata bh (cryexts_bitmap_clear (bdata st bh) k) st"

definition upd_group :: "u64 \<Rightarrow> (cryexts_group_desc \<Rightarrow> cryexts_group_desc) \<Rightarrow> fs \<Rightarrow> fs" where
  "upd_group grp f st =
     st\<lparr>s_groups := map_option (\<lambda>gs. gs[unat grp := f (gs ! unat grp)]) (s_groups st)\<rparr>"

text \<open>The first free bit among \<open>ks\<close> whose number is not skipped.\<close>

definition first_free :: "bytes \<Rightarrow> (u64 \<Rightarrow> bool) \<Rightarrow> nat list \<Rightarrow> u64 option" where
  "first_free bitmap skip ks =
     map_option of_nat
       (List.find (\<lambda>k. \<not> skip (of_nat k) \<and> \<not> cryexts_bitmap_test bitmap (of_nat k)) ks)"

section \<open>Inside one group\<close>

definition cryexts_alloc_inode_in_group :: "u64 \<Rightarrow> (fs, u64) act" where
  "cryexts_alloc_inode_in_group grp = (\<lambda>st.
     if s_group_count st \<le> grp \<or> s_group_inode_bitmap_bhs st = None then (Inl EINVAL, st)
     else (case bitmap_slot (s_group_inode_bitmap_bhs st) grp of
             None \<Rightarrow> (Inl EIO, st)
           | Some bh \<Rightarrow>
               (let base_ino = grp * s_inodes_per_group st + 1;
                    limit = min (s_inodes_per_group st)
                              (cryexts_inodes_count st - grp * s_inodes_per_group st)
                in case first_free (bdata st bh)
                          (\<lambda>k. base_ino + k < CRYEXTS_ROOT_INO + 1) [0..<unat limit] of
                     None \<Rightarrow> (Inl ENOSPC, st)
                   | Some k \<Rightarrow>
                       (Inr (base_ino + k),
                        upd_group grp (\<lambda>g. g\<lparr>gd_free_inodes_count := gd_free_inodes_count g - 1\<rparr>)
                          (bitmap_set_at bh k st)))))"

definition cryexts_alloc_block_in_group :: "u64 \<Rightarrow> u64 \<Rightarrow> (fs, u64) act" where
  "cryexts_alloc_block_in_group grp start_block_hint = (\<lambda>st.
     if s_group_count st \<le> grp \<or> s_group_block_bitmap_bhs st = None then (Inl EINVAL, st)
     else (case bitmap_slot (s_group_block_bitmap_bhs st) grp of
             None \<Rightarrow> (Inl EIO, st)
           | Some bh \<Rightarrow>
               (let first_block = cryexts_group_first_block st grp;
                    blocks = cryexts_group_blocks st grp
                in if blocks = 0 then (Inl ENOSPC, st)
                   else (let start_bit = (if first_block \<le> start_block_hint \<and>
                                             start_block_hint < first_block + blocks
                                          then start_block_hint - first_block else 0)
                         in case first_free (bdata st bh)
                                   (\<lambda>k. first_block + k < sb_first_data_block (s_disk_sb st))
                                   ([unat start_bit..<unat blocks] @ [0..<unat start_bit]) of
                              None \<Rightarrow> (Inl ENOSPC, st)
                            | Some k \<Rightarrow>
                                (Inr (first_block + k),
                                 upd_group grp
                                   (\<lambda>g. g\<lparr>gd_free_blocks_count := gd_free_blocks_count g - 1\<rparr>)
                                   (bitmap_set_at bh k st))))))"

section \<open>Without block groups\<close>

definition cryexts_alloc_inode_legacy :: "(fs, u64) act" where
  "cryexts_alloc_inode_legacy = (\<lambda>st.
     let bh = the (s_inode_bitmap_bh st) in
     case first_free (bdata st bh) (\<lambda>_. False)
            [unat CRYEXTS_ROOT_INO..<unat (cryexts_inodes_count st)] of
       None \<Rightarrow> (Inl ENOSPC, st)
     | Some i \<Rightarrow> (Inr (i + 1), bitmap_set_at bh i st))"

definition cryexts_alloc_block_legacy :: "(fs, u64) act" where
  "cryexts_alloc_block_legacy = (\<lambda>st.
     let bh = the (s_block_bitmap_bh st) in
     case first_free (bdata st bh) (\<lambda>_. False)
            [unat (sb_first_data_block (s_disk_sb st))..<unat (cryexts_blocks_count st)] of
       None \<Rightarrow> (Inl ENOSPC, st)
     | Some i \<Rightarrow> (Inr i, bitmap_set_at bh i st))"

section \<open>Inodes\<close>

definition cryexts_first_data_group :: "fs \<Rightarrow> u64" where
  "cryexts_first_data_group st =
     (if \<not> cryexts_has_block_groups st \<or> s_blocks_per_group st = 0 then 0
      else sb_first_data_block (s_disk_sb st) div s_blocks_per_group st)"

text \<open>The groups in the order of a scan that starts at \<open>start_group\<close>.\<close>

definition scan_order :: "fs \<Rightarrow> u64 \<Rightarrow> (u64 \<times> u64) list" where
  "scan_order st start_group =
     map (\<lambda>i. (of_nat i, (start_group + of_nat i) mod s_group_count st))
       [0..<unat (s_group_count st)]"

text \<open>Try the groups in turn; \<open>err\<close> is the error of the last group that was tried.\<close>

fun alloc_inode_scan :: "u64 list \<Rightarrow> errno \<Rightarrow> (fs, u64) act" where
  "alloc_inode_scan [] err = failE err"
| "alloc_inode_scan (grp # grps) err = (\<lambda>st.
     if cryexts_group_free_inodes st grp = 0 then alloc_inode_scan grps err st
     else (case cryexts_alloc_inode_in_group grp st of
             (Inl e, st) \<Rightarrow> alloc_inode_scan grps e st
           | (Inr ino, st) \<Rightarrow> (Inr ino, st)))"

definition alloc_inode_account :: "u64 \<Rightarrow> fs \<Rightarrow> fs" where
  "alloc_inode_account ino st =
     (let st = (if s_next_ino st < ino + 1 then st\<lparr>s_next_ino := ino + 1\<rparr> else st);
          st = upd_disk_sb (\<lambda>sb. sb\<lparr>sb_free_inodes_count := sb_free_inodes_count sb - 1\<rparr>) st
      in cryexts_mark_super_dirty (cryexts_mark_bitmap_dirty st))"

definition cryexts_alloc_inode_goal :: "u64 \<Rightarrow> (fs, u64) act" where
  "cryexts_alloc_inode_goal goal_group =
     bindE (\<lambda>st.
         if \<not> cryexts_has_block_groups st then cryexts_alloc_inode_legacy st
         else (let start_group =
                     (if cryexts_prealloc_feature_enabled st \<and> goal_group < s_group_count st
                      then goal_group else 0)
               in alloc_inode_scan (map snd (scan_order st start_group)) ENOSPC st))
       (\<lambda>ino st. (Inr ino, alloc_inode_account ino st))"

definition cryexts_alloc_inode :: "(fs, u64) act" where
  "cryexts_alloc_inode = cryexts_alloc_inode_goal (- 1)"

text \<open>
  The block of an inode and its offset there.  The null pointer of a failure is the error
  \<open>EIO\<close>, which is what the callers turn it into.
\<close>

definition cryexts_get_disk_inode :: "u64 \<Rightarrow> (fs, u64 \<times> nat) act" where
  "cryexts_get_disk_inode ino = (\<lambda>st.
     let ipb = of_nat cryexts_inodes_per_block; index = ino - 1 in
     if ino < CRYEXTS_ROOT_INO \<or> cryexts_max_inodes st < ino then (Inl EIO, st)
     else if cryexts_has_block_groups st
     then (let grp = index div s_inodes_per_group st;
               index_in_group = index mod s_inodes_per_group st
           in if s_group_count st \<le> grp then (Inl EIO, st)
              else bindE (io_step EIO)
                (\<lambda>_. retE (cryexts_group_inode_table_start st grp + index_in_group div ipb,
                           unat (index_in_group mod ipb) * CRYEXTS_INODE_SIZE)) st)
     else bindE (io_step EIO)
            (\<lambda>_. retE (s_inode_table_start st + index div ipb,
                       unat (index mod ipb) * CRYEXTS_INODE_SIZE)) st)"

text \<open>\<open>memset(disk_inode, 0, sizeof(*disk_inode)); mark_buffer_dirty(bh);\<close>\<close>

definition clear_disk_inode :: "u64 \<times> nat \<Rightarrow> fs \<Rightarrow> fs" where
  "clear_disk_inode p st =
     (case p of (block, offset) \<Rightarrow>
        mark_buffer_dirty block
          (set_bdata block (put_bytes offset (replicate CRYEXTS_INODE_SIZE 0) (bdata st block)) st))"

definition free_inode_account :: "fs \<Rightarrow> fs" where
  "free_inode_account st =
     cryexts_mark_super_dirty (cryexts_mark_bitmap_dirty
       (upd_disk_sb (\<lambda>sb. sb\<lparr>sb_free_inodes_count := sb_free_inodes_count sb + 1\<rparr>) st))"

definition cryexts_free_inode :: "u64 \<Rightarrow> (fs, unit) act" where
  "cryexts_free_inode ino = (\<lambda>st.
     if ino < CRYEXTS_ROOT_INO \<or> cryexts_inodes_count st < ino then (Inl EINVAL, st)
     else bindE (cryexts_get_disk_inode ino) (\<lambda>p st.
       let st = clear_disk_inode p st in
       if \<not> cryexts_has_block_groups st
       then (let bh = the (s_inode_bitmap_bh st) in
             if \<not> cryexts_bitmap_test (bdata st bh) (ino - 1) then (Inr (), st)
             else (Inr (), free_inode_account (bitmap_clear_at bh (ino - 1) st)))
       else (let grp = (ino - 1) div s_inodes_per_group st;
                 k = (ino - 1) mod s_inodes_per_group st;
                 bh = the (bitmap_slot (s_group_inode_bitmap_bhs st) grp)
             in if s_group_count st \<le> grp \<or> \<not> cryexts_bitmap_test (bdata st bh) k
                then (Inr (), st)
                else (Inr (), free_inode_account
                  (upd_group grp (\<lambda>g. g\<lparr>gd_free_inodes_count := gd_free_inodes_count g + 1\<rparr>)
                    (bitmap_clear_at bh k st))))) st)"

section \<open>Blocks\<close>

text \<open>Where the scan of a group starts.\<close>

definition block_start_hint :: "fs \<Rightarrow> bool \<Rightarrow> bool \<Rightarrow> u64 \<Rightarrow> u64 \<Rightarrow> u64 \<Rightarrow> u64 \<Rightarrow> u64" where
  "block_start_hint st use_prealloc have_goal_block goal_block goal_group scanned grp =
     (if use_prealloc
      then (if have_goal_block \<and> goal_block div s_blocks_per_group st = grp then goal_block
            else if grp = goal_group \<and>
                    cryexts_group_first_block st grp \<le> s_next_data_block st \<and>
                    s_next_data_block st <
                      cryexts_group_first_block st grp + cryexts_group_blocks st grp
            then s_next_data_block st else 0)
      else if scanned = 0 then s_next_data_block st else 0)"

text \<open>Each group comes with the hint function of its scan.\<close>

fun alloc_block_scan ::
    "(fs \<Rightarrow> u64 \<Rightarrow> u64 \<Rightarrow> u64) \<Rightarrow> (u64 \<times> u64) list \<Rightarrow> errno \<Rightarrow> (fs, u64) act" where
  "alloc_block_scan hint [] err = failE err"
| "alloc_block_scan hint ((scanned, grp) # grps) err = (\<lambda>st.
     if grp < cryexts_first_data_group st \<or> cryexts_group_free_blocks st grp = 0
     then alloc_block_scan hint grps err st
     else (case cryexts_alloc_block_in_group grp (hint st scanned grp) st of
             (Inl e, st) \<Rightarrow> alloc_block_scan hint grps e st
           | (Inr block, st) \<Rightarrow> (Inr block, st)))"

definition alloc_block_account :: "u64 \<Rightarrow> fs \<Rightarrow> fs" where
  "alloc_block_account block st =
     (let st = upd_disk_sb (\<lambda>sb. sb\<lparr>sb_free_blocks_count := sb_free_blocks_count sb - 1\<rparr>) st;
          st = st\<lparr>s_next_data_block := block + 1\<rparr>
      in cryexts_mark_super_dirty (cryexts_mark_bitmap_dirty st))"

definition alloc_block_start :: "fs \<Rightarrow> bool \<Rightarrow> bool \<Rightarrow> u64 \<Rightarrow> u64 \<Rightarrow> u64" where
  "alloc_block_start st use_prealloc have_goal_block goal_block goal_group =
     (if use_prealloc \<and> goal_group < s_group_count st then goal_group
      else if use_prealloc \<and> have_goal_block then goal_block div s_blocks_per_group st
      else cryexts_first_data_group st)"

text \<open>The second pass: from the first data group on, without hints.\<close>

definition second_pass :: "fs \<Rightarrow> (u64 \<times> u64) list" where
  "second_pass st =
     map (\<lambda>g. (0, of_nat g)) [unat (cryexts_first_data_group st)..<unat (s_group_count st)]"

definition cryexts_alloc_block_goal :: "u64 \<Rightarrow> u64 \<Rightarrow> (fs, u64) act" where
  "cryexts_alloc_block_goal goal_block goal_group =
     bindE (\<lambda>st.
         let have_goal_block = (goal_block \<noteq> 0 \<and> cryexts_data_block_valid st goal_block);
             use_prealloc = cryexts_prealloc_feature_enabled st
         in if \<not> cryexts_has_block_groups st then cryexts_alloc_block_legacy st
            else (case alloc_block_scan
                    (\<lambda>st. block_start_hint st use_prealloc have_goal_block goal_block goal_group)
                    (scan_order st
                      (alloc_block_start st use_prealloc have_goal_block goal_block goal_group))
                    ENOSPC st of
                    (Inl e, st) \<Rightarrow> alloc_block_scan (\<lambda>_ _ _. 0) (second_pass st) e st
                  | (Inr block, st) \<Rightarrow> (Inr block, st)))
       (\<lambda>block st. (Inr block, alloc_block_account block st))"

definition cryexts_alloc_block :: "(fs, u64) act" where
  "cryexts_alloc_block = cryexts_alloc_block_goal 0 (- 1)"

definition free_block_account :: "fs \<Rightarrow> fs" where
  "free_block_account st =
     cryexts_mark_super_dirty (cryexts_mark_bitmap_dirty
       (upd_disk_sb (\<lambda>sb. sb\<lparr>sb_free_blocks_count := sb_free_blocks_count sb + 1\<rparr>) st))"

definition cryexts_free_block :: "u64 \<Rightarrow> (fs, unit) act" where
  "cryexts_free_block block = (\<lambda>st.
     if \<not> cryexts_data_block_valid st block then (Inl EINVAL, st)
     else if \<not> cryexts_has_block_groups st
     then (let bh = the (s_block_bitmap_bh st) in
           if \<not> cryexts_bitmap_test (bdata st bh) block then (Inr (), st)
           else (Inr (), free_block_account (bitmap_clear_at bh block st)))
     else (let grp = block div s_blocks_per_group st in
           if s_group_count st \<le> grp then (Inl EINVAL, st)
           else (let k = block - cryexts_group_first_block st grp;
                     bh = the (bitmap_slot (s_group_block_bitmap_bhs st) grp)
                 in if \<not> cryexts_bitmap_test (bdata st bh) k then (Inr (), st)
                    else (Inr (), free_block_account
                      (upd_group grp (\<lambda>g. g\<lparr>gd_free_blocks_count := gd_free_blocks_count g + 1\<rparr>)
                        (bitmap_clear_at bh k st))))))"

section \<open>Loading the bitmaps\<close>

definition sb_bread :: "u64 \<Rightarrow> (fs, u64) act" where
  "sb_bread block = bindE (io_step EIO) (\<lambda>_. retE block)"

definition load_single_bitmaps :: "(fs, unit) act" where
  "load_single_bitmaps =
     bindE (\<lambda>st. sb_bread (s_block_bitmap_block st) st) (\<lambda>bh.
     bindE (modE (\<lambda>st. st\<lparr>s_block_bitmap_bh := Some bh\<rparr>)) (\<lambda>_.
     bindE (\<lambda>st. sb_bread (s_inode_bitmap_block st) st) (\<lambda>bh.
       modE (\<lambda>st. st\<lparr>s_inode_bitmap_bh := Some bh\<rparr>))))"

definition load_group_bitmaps :: "nat \<Rightarrow> (fs, unit) act" where
  "load_group_bitmaps grp =
     bindE (\<lambda>st. sb_bread (gd_block_bitmap_block (the (s_groups st) ! grp)) st) (\<lambda>bh.
     bindE (modE (\<lambda>st. st\<lparr>s_group_block_bitmap_bhs :=
              map_option (\<lambda>bhs. bhs[grp := Some bh]) (s_group_block_bitmap_bhs st)\<rparr>)) (\<lambda>_.
     bindE (\<lambda>st. sb_bread (gd_inode_bitmap_block (the (s_groups st) ! grp)) st) (\<lambda>bh.
       modE (\<lambda>st. st\<lparr>s_group_inode_bitmap_bhs :=
              map_option (\<lambda>bhs. bhs[grp := Some bh]) (s_group_inode_bitmap_bhs st)\<rparr>))))"

definition cryexts_load_bitmaps :: "(fs, unit) act" where
  "cryexts_load_bitmaps = (\<lambda>st.
     if \<not> cryexts_has_block_groups st \<or> s_group_count st \<le> 1 then load_single_bitmaps st
     else (let empty = Some (replicate (unat (s_group_count st)) None) in
       runE [
         kmalloc, modE (\<lambda>st. st\<lparr>s_group_block_bitmap_bhs := empty\<rparr>),
         kmalloc, modE (\<lambda>st. st\<lparr>s_group_inode_bitmap_bhs := empty\<rparr>),
         kmalloc, kmalloc,
         eachE load_group_bitmaps [0..<unat (s_group_count st)]] st))"

definition cryexts_unload_bitmaps :: "fs \<Rightarrow> fs" where
  "cryexts_unload_bitmaps st =
     st\<lparr>s_block_bitmap_bh := None, s_inode_bitmap_bh := None,
        s_group_block_bitmap_bhs := None, s_group_inode_bitmap_bhs := None\<rparr>"

end
