(* ===== verification/Super.thy ===== *)
theory Super
  imports Journal Balloc
begin

text \<open>
  Mounting and unmounting (\<open>super.c\<close>): what a superblock must satisfy to be mounted, the fields of
  \<open>struct cryexts_sb_info\<close> that are loaded from it, the order of the checks of a mount and what
  unmounting, which a failed mount goes through as well, writes to the superblock.  The model
  starts when block 0 has been read.  The key, the policy table, the clean-up of the orphans and
  the root directory come in \<open>Mount\<close>.
\<close>

section \<open>Validation of the superblock\<close>

definition cryexts_salt_is_zero :: "bytes \<Rightarrow> bool" where
  "cryexts_salt_is_zero salt \<longleftrightarrow> list_all (\<lambda>i. salt ! i = 0) [0..<16]"

definition CRYEXTS_BITMAP_BITS :: u64 where [const_simps]: "CRYEXTS_BITMAP_BITS = 32768"

text \<open>Magic number, sizes, counts and the places of the fixed structures.\<close>

definition super_geometry_ok :: "fs \<Rightarrow> bool" where
  "super_geometry_ok st \<longleftrightarrow>
     (let sb = s_disk_sb st;
          blocks_count = sb_blocks_count sb;
          inodes_count = sb_inodes_count sb;
          groups = has_flag (sb_features_incompat sb) CRYEXTS_FEATURE_INCOMPAT_BLOCK_GROUPS;
          inode_table_end = s_inode_table_start st + s_inode_table_blocks st
      in sb_magic sb = CRYEXTS_MAGIC \<and>
         sb_version sb \<in> {CRYEXTS_VERSION_V3, CRYEXTS_VERSION_V4, CRYEXTS_VERSION_V5,
                          CRYEXTS_VERSION_V6} \<and>
         sb_block_size sb = of_nat BLOCK_SIZE \<and>
         sb_inode_size sb = of_nat CRYEXTS_INODE_SIZE \<and>
         \<not> blocks_count < CRYEXTS_FIRST_FREE_DATA_BLOCK \<and>
         \<not> (\<not> groups \<and> CRYEXTS_BITMAP_BITS < blocks_count) \<and>
         inodes_count = cryexts_max_inodes st \<and>
         \<not> (\<not> groups \<and> CRYEXTS_BITMAP_BITS < inodes_count) \<and>
         \<not> blocks_count < sb_free_blocks_count sb \<and>
         \<not> inodes_count < sb_free_inodes_count sb \<and>
         s_inode_table_start st \<noteq> 0 \<and> s_inode_table_blocks st \<noteq> 0 \<and>
         \<not> (blocks_count \<le> s_block_bitmap_block st \<or> blocks_count \<le> s_inode_bitmap_block st \<or>
            s_block_bitmap_block st = s_inode_bitmap_block st) \<and>
         \<not> (\<not> groups \<and> (s_block_bitmap_block st \<noteq> CRYEXTS_BLOCK_BITMAP_BLOCK \<or>
                        s_inode_bitmap_block st \<noteq> CRYEXTS_INODE_BITMAP_BLOCK)) \<and>
         \<not> (inode_table_end \<le> s_inode_table_start st \<or> blocks_count < inode_table_end) \<and>
         \<not> (sb_root_inode_block sb < s_inode_table_start st \<or>
            inode_table_end \<le> sb_root_inode_block sb) \<and>
         sb_root_dir_block sb = sb_first_data_block sb \<and>
         sb_first_data_block sb = inode_table_end \<and>
         \<not> blocks_count \<le> sb_root_dir_block sb \<and>
         \<not> (s_next_ino st < CRYEXTS_ROOT_INO + 1 \<or> cryexts_max_inodes st + 1 < s_next_ino st) \<and>
         \<not> (s_next_data_block st < sb_root_dir_block sb + 1 \<or>
            blocks_count < s_next_data_block st))"

text \<open>No flag that this version does not know.\<close>

definition super_flags_ok :: "fs \<Rightarrow> bool" where
  "super_flags_ok st \<longleftrightarrow>
     (let sb = s_disk_sb st in
      \<not> has_flag (sb_flags sb) (NOT CRYEXTS_SB_FLAG_ENCRYPTED) \<and>
      \<not> has_flag (sb_features_compat sb)
          (NOT (CRYEXTS_FEATURE_COMPAT_HAS_JOURNAL OR CRYEXTS_FEATURE_COMPAT_PREALLOC)) \<and>
      \<not> (has_flag (sb_features_incompat sb)
           (NOT (CRYEXTS_FEATURE_INCOMPAT_SINGLE_INDIRECT OR
                 CRYEXTS_FEATURE_INCOMPAT_BLOCK_GROUPS OR
                 CRYEXTS_FEATURE_INCOMPAT_NEEDS_RECOVERY OR
                 CRYEXTS_FEATURE_INCOMPAT_EXTENTS OR
                 CRYEXTS_FEATURE_INCOMPAT_XATTR OR
                 CRYEXTS_FEATURE_INCOMPAT_ENCRYPTION_POLICY OR
                 CRYEXTS_FEATURE_INCOMPAT_DIR_INDEX OR
                 CRYEXTS_FEATURE_INCOMPAT_ORPHAN_LIST OR
                 CRYEXTS_FEATURE_INCOMPAT_POLICY_TABLE OR
                 CRYEXTS_FEATURE_INCOMPAT_EXTENT_TREE OR
                 CRYEXTS_FEATURE_INCOMPAT_JOURNAL_V2 OR
                 CRYEXTS_FEATURE_INCOMPAT_JOURNAL_V3 OR
                 CRYEXTS_FEATURE_INCOMPAT_JOURNAL_RING)) \<or>
         has_flag (sb_features_ro_compat sb)
           (NOT (CRYEXTS_FEATURE_RO_COMPAT_METADATA_CSUM OR
                 CRYEXTS_FEATURE_RO_COMPAT_LARGE_XATTR))) \<and>
      \<not> has_flag (sb_state sb)
          (NOT (CRYEXTS_FS_STATE_CLEAN OR CRYEXTS_FS_STATE_NEEDS_RECOVERY OR
                CRYEXTS_FS_STATE_ERRORS)))"

text \<open>The fields that version 4 added: groups, group descriptor table, journal.\<close>

definition super_v4_ok :: "fs \<Rightarrow> bool" where
  "super_v4_ok st \<longleftrightarrow>
     (let sb = s_disk_sb st;
          incompat = sb_features_incompat sb;
          blocks_count = sb_blocks_count sb;
          has_journal = has_flag (sb_features_compat sb) CRYEXTS_FEATURE_COMPAT_HAS_JOURNAL
      in sb_group_count sb \<noteq> 0 \<and> sb_blocks_per_group sb \<noteq> 0 \<and> sb_inodes_per_group sb \<noteq> 0 \<and>
         \<not> (sb_group_desc_table_start sb = 0 \<or> sb_group_desc_table_blocks sb = 0) \<and>
         \<not> blocks_count < sb_group_desc_table_start sb + sb_group_desc_table_blocks sb \<and>
         \<not> sb_group_desc_table_blocks sb * of_nat BLOCK_SIZE <
            sb_group_count sb * of_nat GROUP_BYTES \<and>
         \<not> (has_journal \<and>
            (sb_journal_block sb = 0 \<or> sb_journal_blocks sb = 0 \<or>
             blocks_count \<le> sb_journal_block sb \<or>
             blocks_count < sb_journal_block sb + sb_journal_blocks sb)) \<and>
         \<not> (\<not> has_journal \<and> (sb_journal_block sb \<noteq> 0 \<or> sb_journal_blocks sb \<noteq> 0)) \<and>
         has_flag incompat CRYEXTS_FEATURE_INCOMPAT_NEEDS_RECOVERY =
           has_flag (sb_state sb) CRYEXTS_FS_STATE_NEEDS_RECOVERY \<and>
         (if has_flag incompat CRYEXTS_FEATURE_INCOMPAT_BLOCK_GROUPS
          then \<not> sb_group_count sb < 2
          else sb_group_count sb = 1 \<and> sb_blocks_per_group sb = blocks_count \<and>
               sb_inodes_per_group sb = sb_inodes_count sb) \<and>
         (if CRYEXTS_VERSION_V5 \<le> sb_version sb
          then (if has_flag incompat CRYEXTS_FEATURE_INCOMPAT_ORPHAN_LIST
                then \<not> sb_inodes_count sb < sb_orphan_head sb else sb_orphan_head sb = 0)
          else sb_orphan_head sb = 0 \<and> sb_policy_table_block sb = 0 \<and> sb_dir_index_seed sb = 0 \<and>
               sb_metadata_csum_type sb = 0 \<and> sb_journal_sequence sb = 0 \<and>
               sb_fs_generation sb = 0))"

text \<open>Version 3 has none of them.\<close>

definition super_v3_ok :: "cryexts_super_block \<Rightarrow> bool" where
  "super_v3_ok sb \<longleftrightarrow>
     sb_state sb = 0 \<and> sb_mount_count sb = 0 \<and> sb_max_mount_count sb = 0 \<and>
     sb_default_encryption_policy sb = 0 \<and> sb_last_mount_time sb = 0 \<and>
     sb_last_write_time sb = 0 \<and> sb_last_check_time sb = 0 \<and> sb_journal_block sb = 0 \<and>
     sb_journal_blocks sb = 0 \<and> sb_group_count sb = 0 \<and> sb_blocks_per_group sb = 0 \<and>
     sb_inodes_per_group sb = 0 \<and> sb_group_desc_table_start sb = 0 \<and>
     sb_group_desc_table_blocks sb = 0 \<and> sb_orphan_head sb = 0 \<and>
     sb_policy_table_block sb = 0 \<and> sb_dir_index_seed sb = 0 \<and>
     sb_metadata_csum_type sb = 0 \<and> sb_journal_sequence sb = 0 \<and> sb_fs_generation sb = 0"

definition super_encryption_ok :: "cryexts_super_block \<Rightarrow> bool" where
  "super_encryption_ok sb \<longleftrightarrow>
     (if has_flag (sb_flags sb) CRYEXTS_SB_FLAG_ENCRYPTED
      then sb_key_hash sb \<noteq> 0 \<and> sb_encryption_flags sb = CRYEXTS_ENC_FLAG_DATA \<and>
           sb_encryption_kdf sb = CRYEXTS_KDF_SALTED_FNV1A \<and>
           sb_encryption_alg sb = CRYEXTS_ALG_AES_CTR \<and> \<not> cryexts_salt_is_zero (sb_salt sb)
      else sb_key_hash sb = 0 \<and> sb_encryption_flags sb = 0 \<and> sb_encryption_kdf sb = 0 \<and>
           sb_encryption_alg sb = 0 \<and> cryexts_salt_is_zero (sb_salt sb))"

definition cryexts_validate_super :: "fs \<Rightarrow> unit res" where
  "cryexts_validate_super st =
     (let sb = s_disk_sb st in
      if super_geometry_ok st \<and> super_flags_ok st \<and>
         (if CRYEXTS_VERSION_V4 \<le> sb_version sb then super_v4_ok st else super_v3_ok sb) \<and>
         super_encryption_ok sb
      then Inr () else Inl EINVAL)"

definition cryexts_validate_v5_layout :: "fs \<Rightarrow> unit res" where
  "cryexts_validate_v5_layout st =
     (let sb = s_disk_sb st;
          version = sb_version sb;
          incompat = sb_features_incompat sb;
          policy = has_flag incompat CRYEXTS_FEATURE_INCOMPAT_POLICY_TABLE;
          csum = has_flag (sb_features_ro_compat sb) CRYEXTS_FEATURE_RO_COMPAT_METADATA_CSUM;
          v2 = has_flag incompat CRYEXTS_FEATURE_INCOMPAT_JOURNAL_V2;
          v3 = has_flag incompat CRYEXTS_FEATURE_INCOMPAT_JOURNAL_V3;
          ring = has_flag incompat CRYEXTS_FEATURE_INCOMPAT_JOURNAL_RING
      in if version < CRYEXTS_VERSION_V5 then Inr ()
         else if policy \<and> sb_policy_table_block sb = 0 then Inl EINVAL
         else if policy \<and> sb_policy_table_block sb \<noteq> 0 \<and>
                 \<not> cryexts_data_block_valid st (sb_policy_table_block sb) then Inl EINVAL
         else if csum \<noteq> (sb_metadata_csum_type sb \<noteq> 0) then Inl EINVAL
         else if csum \<and> sb_metadata_csum_type sb \<noteq> CRYEXTS_METADATA_CSUM_FNV1A32
         then Inl EINVAL
         else if version < CRYEXTS_VERSION_V6 \<and> (v2 \<or> v3) then Inl EINVAL
         else if v2 \<and> v3 then Inl EINVAL
         else if ring \<and> (\<not> v3 \<or> version < CRYEXTS_VERSION_V6) then Inl EINVAL
         else if CRYEXTS_VERSION_V6 \<le> version \<and> (v2 \<or> v3) \<and>
                 \<not> has_flag (sb_features_compat sb) CRYEXTS_FEATURE_COMPAT_HAS_JOURNAL
         then Inl EINVAL
         else if CRYEXTS_VERSION_V6 \<le> version \<and> (v2 \<or> v3) \<and>
                 sb_journal_blocks sb <
                   (if v3 then CRYEXTS_JOURNAL_V3_MIN_BLOCKS else CRYEXTS_JOURNAL_V2_MIN_BLOCKS)
         then Inl EINVAL
         else Inr ())"

section \<open>Mounting\<close>

text \<open>The fields of the in-memory superblock, from \<open>kzalloc\<close> and the assignments after it.\<close>

definition load_sbi :: "fs \<Rightarrow> fs" where
  "load_sbi st =
     (let sb = s_disk_sb st in
      st\<lparr>s_block_bitmap_bh := None, s_inode_bitmap_bh := None, s_gdt_bhs := None,
         s_groups := None, s_gdt_tail := [], s_group_block_bitmap_bhs := None,
         s_group_inode_bitmap_bhs := None,
         s_inode_table_start := sb_inode_table_start sb,
         s_inode_table_blocks := sb_inode_table_blocks sb,
         s_block_bitmap_block := sb_block_bitmap_block sb,
         s_inode_bitmap_block := sb_inode_bitmap_block sb,
         s_group_desc_table_start := sb_group_desc_table_start sb,
         s_group_desc_table_blocks := sb_group_desc_table_blocks sb,
         s_group_count := sb_group_count sb,
         s_blocks_per_group := sb_blocks_per_group sb,
         s_inodes_per_group := sb_inodes_per_group sb,
         s_journal_block := sb_journal_block sb,
         s_journal_blocks := sb_journal_blocks sb,
         s_next_ino := sb_next_ino sb,
         s_next_data_block := sb_next_data_block sb,
         s_journal_sequence := sb_journal_sequence sb,
         s_journal_last_sequence := sb_journal_sequence sb,
         s_journal_active_sequence := 0,
         s_journal_tail_sequence := sb_journal_sequence sb,
         s_journal_checkpoint_sequence := sb_journal_sequence sb,
         s_journal_ring_head := sb_journal_block sb + 1,
         s_journal_ring_tail := sb_journal_block sb + 1,
         s_journal_enabled :=
           has_flag (sb_features_compat sb) CRYEXTS_FEATURE_COMPAT_HAS_JOURNAL,
         s_journal_v2 := has_flag (sb_features_incompat sb) CRYEXTS_FEATURE_INCOMPAT_JOURNAL_V2,
         s_journal_v3 := has_flag (sb_features_incompat sb) CRYEXTS_FEATURE_INCOMPAT_JOURNAL_V3,
         s_journal_ring :=
           has_flag (sb_features_incompat sb) CRYEXTS_FEATURE_INCOMPAT_JOURNAL_RING,
         s_journal_replaying := False, s_journal_entry_count := 0, s_journal_error := None,
         s_journal_home_blocks := replicate CRYEXTS_JOURNAL_MAX_ENTRIES 0,
         s_checkpoint_scheduled := False, s_journal_locked := False\<rparr>)"

text \<open>The checks of \<open>cryexts_fill_super\<close> up to the bitmaps, in order.\<close>

definition ofE :: "(fs \<Rightarrow> unit res) \<Rightarrow> (fs, unit) act" where "ofE f = (\<lambda>st. (f st, st))"

definition mount_load :: "(fs, unit) act" where
  "mount_load = runE [
     modE load_sbi,
     ofE cryexts_validate_super,
     ofE cryexts_verify_super_checksum,
     whenE (\<lambda>st. CRYEXTS_VERSION_V4 \<le> sb_version (s_disk_sb st))
       (runE [cryexts_load_group_desc_table, ofE cryexts_verify_group_checksums]),
     ofE cryexts_validate_v5_layout,
     cryexts_load_bitmaps]"

section \<open>State bits, unmounting, statistics\<close>

definition cryexts_set_state :: "u32 \<Rightarrow> u32 \<Rightarrow> fs \<Rightarrow> fs" where
  "cryexts_set_state set_bits clear_bits st =
     mark_buffer_dirty 0 (cryexts_update_super_checksum
       (upd_disk_sb (\<lambda>sb. sb\<lparr>sb_state := (sb_state sb OR set_bits) AND NOT clear_bits\<rparr>) st))"

text \<open>What a successful mount notes in the superblock.\<close>

definition mount_note :: "fs \<Rightarrow> fs" where
  "mount_note st =
     (if s_rdonly st \<or> sb_version (s_disk_sb st) < CRYEXTS_VERSION_V4 then st
      else (let st = upd_disk_sb (\<lambda>sb. sb\<lparr>sb_mount_count := sb_mount_count sb + 1,
                                         sb_last_mount_time := d_now st\<rparr>) st;
                st = cryexts_set_state 0 CRYEXTS_FS_STATE_CLEAN st;
                st = upd_disk_sb (\<lambda>sb. if CRYEXTS_VERSION_V5 \<le> sb_version sb \<and>
                                            sb_fs_generation sb = 0
                                         then sb\<lparr>sb_fs_generation := 1\<rparr> else sb) st
            in mark_buffer_dirty 0 (cryexts_update_super_checksum st)))"

definition put_super_state :: "fs \<Rightarrow> fs" where
  "put_super_state st =
     (if s_rdonly st \<or> sb_version (s_disk_sb st) < CRYEXTS_VERSION_V4 then st
      else (let st = cryexts_set_state CRYEXTS_FS_STATE_CLEAN 0 st;
                st = upd_disk_sb (\<lambda>sb. sb\<lparr>sb_last_write_time := d_now st\<rparr>) st;
                st = mark_buffer_dirty 0 (cryexts_update_super_checksum st)
            in ignoreE (sync_dirty_buffer 0) st))"

definition cryexts_put_super :: "fs \<Rightarrow> fs option" where
  "cryexts_put_super st =
     map_option (\<lambda>st. cryexts_release_group_desc_table
                        (cryexts_unload_bitmaps (put_super_state st)))
       (if \<not> s_rdonly st \<and> s_journal_v3 st \<and> s_journal_ring st
        then map_option snd (cryexts_journal_checkpoint_sync st) else Some st)"

record kstatfs =
  f_type :: u32
  f_bsize :: nat
  f_blocks :: u64
  f_bfree :: u64
  f_bavail :: u64
  f_files :: u64
  f_ffree :: u64
  f_namelen :: nat

definition cryexts_statfs :: "fs \<Rightarrow> kstatfs" where
  "cryexts_statfs st =
     \<lparr>f_type = CRYEXTS_MAGIC, f_bsize = BLOCK_SIZE, f_blocks = sb_blocks_count (s_disk_sb st),
      f_bfree = sb_free_blocks_count (s_disk_sb st),
      f_bavail = sb_free_blocks_count (s_disk_sb st),
      f_files = cryexts_max_inodes st, f_ffree = sb_free_inodes_count (s_disk_sb st),
      f_namelen = CRYEXTS_NAME_LEN\<rparr>"

definition cryexts_sync_fs :: "bool \<Rightarrow> (fs, unit) act" where
  "cryexts_sync_fs wait = (if \<not> wait then retE () else cryexts_sync_metadata)"

end
