(* ===== verification/JournalEffects.thy ===== *)
theory JournalEffects
  imports Journal
begin

text \<open>
  What the steps of the journal may change.  \<open>touches S st0 st\<close> says that between the states only
  the device (cache, medium, dirty set, tick) and the superblock record changed, and of the
  blocks only those in \<open>S\<close>; the rules in \<open>keep\<close> give it for every step from the blocks the step
  writes.
\<close>

section \<open>Frames\<close>

definition dev_frame :: "fs \<Rightarrow> fs \<Rightarrow> bool" where
  "dev_frame st0 st \<longleftrightarrow>
     st0 = st\<lparr>s_disk_sb := s_disk_sb st0, d_cache := d_cache st0, d_media := d_media st0,
              d_dirty := d_dirty st0, d_tick := d_tick st0\<rparr>"

lemma dev_frameI:
  "st0 = st\<lparr>s_disk_sb := sb, d_cache := c, d_media := m, d_dirty := d, d_tick := t\<rparr> \<Longrightarrow>
   dev_frame st0 st"
  by (simp add: dev_frame_def)

lemma dev_frameE:
  assumes "dev_frame st0 st"
  obtains sb c m d t where
    "st0 = st\<lparr>s_disk_sb := sb, d_cache := c, d_media := m, d_dirty := d, d_tick := t\<rparr>"
  using assms unfolding dev_frame_def by (rule that)

lemma dev_frame_fields:
  assumes "dev_frame st0 st"
  shows "s_journal_block st = s_journal_block st0" "s_journal_blocks st = s_journal_blocks st0"
    "s_journal_ring st = s_journal_ring st0" "s_journal_ring_head st = s_journal_ring_head st0"
    "s_journal_ring_tail st = s_journal_ring_tail st0"
    "s_journal_sequence st = s_journal_sequence st0"
    "s_journal_last_sequence st = s_journal_last_sequence st0"
    "s_journal_active_sequence st = s_journal_active_sequence st0"
    "s_journal_checkpoint_sequence st = s_journal_checkpoint_sequence st0"
    "s_journal_tail_sequence st = s_journal_tail_sequence st0"
    "s_journal_entry_count st = s_journal_entry_count st0"
    "s_journal_home_blocks st = s_journal_home_blocks st0"
    "s_journal_error st = s_journal_error st0" "s_journal_locked st = s_journal_locked st0"
    "s_journal_enabled st = s_journal_enabled st0" "s_journal_v3 st = s_journal_v3 st0"
    "s_journal_v2 st = s_journal_v2 st0" "s_journal_replaying st = s_journal_replaying st0"
    "d_fault st = d_fault st0" "s_checkpoint_scheduled st = s_checkpoint_scheduled st0"
  using assms by (elim dev_frameE, simp)+

lemma dev_frame_refl [simp]: "dev_frame st st"
  by (simp add: dev_frame_def)

lemma dev_frame_trans: "dev_frame a b \<Longrightarrow> dev_frame b c \<Longrightarrow> dev_frame a c"
  by (elim dev_frameE, rule dev_frameI) simp

lemma dev_frame_upd:
  assumes "dev_frame a b"
  shows "dev_frame a (b\<lparr>s_disk_sb := sb\<rparr>)" "dev_frame a (b\<lparr>d_cache := c\<rparr>)"
    "dev_frame a (b\<lparr>d_media := m\<rparr>)" "dev_frame a (b\<lparr>d_dirty := d\<rparr>)"
    "dev_frame a (b\<lparr>d_tick := t\<rparr>)"
  using assms by (elim dev_frameE, intro dev_frameI, simp)+

definition touches :: "u64 set \<Rightarrow> fs \<Rightarrow> fs \<Rightarrow> bool" where
  "touches S st0 st \<longleftrightarrow> dev_frame st0 st \<and> (0 \<notin> S \<longrightarrow> s_disk_sb st = s_disk_sb st0) \<and>
     (\<forall>b. b \<notin> S \<longrightarrow> d_media st b = d_media st0 b \<and> d_cache st b = d_cache st0 b)"

lemma touches_refl [simp]: "touches S st st"
  by (simp add: touches_def)

lemma touches_trans: "touches S a b \<Longrightarrow> touches S b c \<Longrightarrow> touches S a c"
  by (auto simp: touches_def intro: dev_frame_trans)

lemma touches_mono: "touches S a b \<Longrightarrow> S \<subseteq> T \<Longrightarrow> touches T a b"
  by (auto simp: touches_def)

lemma touches_bdata: "touches S st0 st \<Longrightarrow> b \<notin> S \<Longrightarrow> bdata st b = bdata st0 b"
  by (auto simp: touches_def bdata_def)

lemma touches_media: "touches S st0 st \<Longrightarrow> b \<notin> S \<Longrightarrow> d_media st b = d_media st0 b"
  by (auto simp: touches_def)

lemma touches_frame: "touches S st0 st \<Longrightarrow> dev_frame st0 st"
  by (simp add: touches_def)

lemmas touches_fields = dev_frame_fields [OF touches_frame]

section \<open>Device steps\<close>

lemma keeps_io_step [keep]: "keeps (touches S st0) (io_step e)"
  by (simp add: keeps_def io_step_def touches_def dev_frame_upd)

lemma keeps_kmalloc [keep]: "keeps (touches S st0) kmalloc"
  unfolding kmalloc_def by (rule keeps_io_step)

lemma touches_dirty: "touches S st0 st \<Longrightarrow> touches S st0 (st\<lparr>d_dirty := d\<rparr>)"
  by (simp add: touches_def dev_frame_upd)

lemma touches_write_media:
  "touches S st0 st \<Longrightarrow> b \<in> S \<Longrightarrow> touches S st0 (st\<lparr>d_media := (d_media st)(b := x)\<rparr>)"
  by (auto simp: touches_def dev_frame_upd)

lemma touches_set_bdata: "touches S st0 st \<Longrightarrow> b \<in> S \<Longrightarrow> touches S st0 (set_bdata b buf st)"
  by (auto simp: touches_def dev_frame_upd set_bdata_def)

lemma touches_mark_dirty: "touches S st0 st \<Longrightarrow> touches S st0 (mark_buffer_dirty b st)"
  unfolding mark_buffer_dirty_def by (rule touches_dirty)

lemma keeps_sync_dirty_buffer [keep]: "b \<in> S \<Longrightarrow> keeps (touches S st0) (sync_dirty_buffer b)"
proof (unfold keeps_def, intro allI impI)
  fix st
  assume b: "b \<in> S" and st: "touches S st0 st"
  have "touches S st0 (snd (io_step EIO (st\<lparr>d_dirty := removeAll b (d_dirty st)\<rparr>)))"
    by (rule keepsD [OF keeps_io_step touches_dirty [OF st]])
  with b st show "touches S st0 (snd (sync_dirty_buffer b st))"
    by (auto simp: sync_dirty_buffer_def touches_write_media split: prod.splits sum.splits)
qed

lemma keeps_read [keep]: "keeps (touches S st0) (cryexts_read_file_block b)"
  unfolding cryexts_read_file_block_def by (intro keep)

lemma keeps_write [keep]: "b \<in> S \<Longrightarrow> keeps (touches S st0) (cryexts_write_file_block b buf)"
  unfolding cryexts_write_file_block_def
  by (intro keep) (simp add: touches_mark_dirty touches_set_bdata)

lemma keeps_sync_single [keep]: "b \<in> S \<Longrightarrow> keeps (touches S st0) (cryexts_sync_single_block b)"
  unfolding cryexts_sync_single_block_def by (intro keep)

lemma keeps_v3_write_sync [keep]:
  "b \<in> S \<Longrightarrow> keeps (touches S st0) (cryexts_journal_v3_write_sync b buf)"
  unfolding cryexts_journal_v3_write_sync_def by (auto intro!: keep)

text \<open>A property of the untouched fields is kept.\<close>

lemma keeps_of_touches:
  assumes "\<And>st0. keeps (touches UNIV st0) m" and "\<And>a b. dev_frame a b \<Longrightarrow> I a \<Longrightarrow> I b"
  shows "keeps I m"
  unfolding keeps_def
proof (intro allI impI)
  fix s
  assume "I s"
  then show "I (snd (m s))"
    using assms(2) [OF touches_frame [OF keepsD [OF assms(1) touches_refl]]] by blast
qed

section \<open>Steps in memory\<close>

text \<open>
  \<open>core_frame\<close>: no device access happened, and of the rest of the state only the superblock
  record, the group descriptors, cached blocks and the list of recorded blocks may differ.
\<close>

definition core_frame :: "fs \<Rightarrow> fs \<Rightarrow> bool" where
  "core_frame st0 st \<longleftrightarrow>
     st0 = st\<lparr>s_disk_sb := s_disk_sb st0, d_cache := d_cache st0, d_dirty := d_dirty st0,
              s_groups := s_groups st0, s_journal_error := s_journal_error st0,
              s_journal_home_blocks := s_journal_home_blocks st0,
              s_journal_entry_count := s_journal_entry_count st0\<rparr>"

lemma core_frameI:
  "st0 = st\<lparr>s_disk_sb := sb, d_cache := c, d_dirty := d, s_groups := g, s_journal_error := e,
            s_journal_home_blocks := hb, s_journal_entry_count := n\<rparr> \<Longrightarrow> core_frame st0 st"
  by (simp add: core_frame_def)

lemma core_frameE:
  assumes "core_frame st0 st"
  obtains sb c d g e hb n where
    "st0 = st\<lparr>s_disk_sb := sb, d_cache := c, d_dirty := d, s_groups := g, s_journal_error := e,
             s_journal_home_blocks := hb, s_journal_entry_count := n\<rparr>"
  using assms unfolding core_frame_def by (rule that)

lemma core_frame_fields:
  assumes "core_frame st0 st"
  shows "s_journal_block st = s_journal_block st0" "s_journal_blocks st = s_journal_blocks st0"
    "s_journal_ring st = s_journal_ring st0" "s_journal_ring_head st = s_journal_ring_head st0"
    "s_journal_ring_tail st = s_journal_ring_tail st0"
    "s_journal_sequence st = s_journal_sequence st0"
    "s_journal_last_sequence st = s_journal_last_sequence st0"
    "s_journal_active_sequence st = s_journal_active_sequence st0"
    "s_journal_checkpoint_sequence st = s_journal_checkpoint_sequence st0"
    "s_journal_tail_sequence st = s_journal_tail_sequence st0"
    "s_journal_locked st = s_journal_locked st0"
    "s_journal_enabled st = s_journal_enabled st0" "s_journal_v3 st = s_journal_v3 st0"
    "s_journal_v2 st = s_journal_v2 st0" "s_journal_replaying st = s_journal_replaying st0"
    "d_fault st = d_fault st0" "d_tick st = d_tick st0" "d_media st = d_media st0"
    "s_block_bitmap_bh st = s_block_bitmap_bh st0" "s_inode_bitmap_bh st = s_inode_bitmap_bh st0"
    "s_gdt_bhs st = s_gdt_bhs st0"
  using assms by (elim core_frameE, simp)+

lemma core_frame_refl [simp]: "core_frame st st"
  by (simp add: core_frame_def)

lemma core_frame_trans: "core_frame a b \<Longrightarrow> core_frame b c \<Longrightarrow> core_frame a c"
  by (elim core_frameE, rule core_frameI) simp

lemma core_frame_upd:
  assumes "core_frame a b"
  shows "core_frame a (b\<lparr>s_disk_sb := sb\<rparr>)" "core_frame a (b\<lparr>d_cache := c\<rparr>)"
    "core_frame a (b\<lparr>d_dirty := d\<rparr>)" "core_frame a (b\<lparr>s_groups := g\<rparr>)"
    "core_frame a (b\<lparr>s_journal_error := e\<rparr>)" "core_frame a (b\<lparr>s_journal_home_blocks := hb\<rparr>)"
    "core_frame a (b\<lparr>s_journal_entry_count := n\<rparr>)"
  using assms by (elim core_frameE, intro core_frameI, simp)+

lemma core_frame_basic:
  assumes "core_frame a b"
  shows "core_frame a (upd_disk_sb f b)" "core_frame a (set_bdata blk buf b)"
    "core_frame a (mark_buffer_dirty blk b)" "core_frame a (cryexts_update_super_checksum b)"
    "core_frame a (cryexts_update_group_checksums b)"
  using assms
  by (auto simp: upd_disk_sb_def set_bdata_def mark_buffer_dirty_def core_frame_upd
      cryexts_update_super_checksum_def cryexts_update_group_checksums_def split: option.splits)

lemma core_frame_fold:
  "(\<And>x st. core_frame a st \<Longrightarrow> core_frame a (f x st)) \<Longrightarrow> core_frame a b \<Longrightarrow> core_frame a (fold f xs b)"
  by (induction xs arbitrary: b) auto

lemma core_frame_gdt: "core_frame a b \<Longrightarrow> core_frame a (cryexts_gdt_prepare_write b)"
  by (auto simp: cryexts_gdt_prepare_write_def cryexts_copy_gdt_to_blocks_def Let_def
      intro!: core_frame_fold core_frame_basic split: option.splits)

lemma core_frame_v3_record:
  "core_frame a b \<Longrightarrow> core_frame a (snd (cryexts_journal_v3_record_block blk b))"
  by (auto simp: cryexts_journal_v3_record_block_def Let_def core_frame_upd split: option.splits)

text \<open>Recording block 0 is refused by versions 1 and 2, and only noted by version 3.\<close>

lemma core_frame_record_super:
  "core_frame a b \<Longrightarrow> core_frame a (ignoreE (cryexts_journal_record_block 0) b)"
  by (auto simp: ignoreE_def cryexts_journal_record_block_def journal_record_with_def
      core_frame_v3_record cryexts_journal_v2_record_block_def journal_v1_record_with_def
      journal_home_block_ok_def Let_def)

lemma core_frame_mark_super:
  "core_frame a b \<Longrightarrow> core_frame a (cryexts_mark_super_dirty b)"
  by (simp add: mark_super_dirty_eq core_frame_basic core_frame_record_super)

lemma core_frame_recovery:
  "core_frame a b \<Longrightarrow> core_frame a (cryexts_super_set_recovery needed b)"
  by (simp add: cryexts_super_set_recovery_def core_frame_basic core_frame_mark_super)

end
