(* ===== verification/Sample.thy ===== *)
theory Sample
  imports Device
begin

text \<open>
  A small file system, used to show that the hypotheses of the theorems can hold: 1024 blocks in
  one group, inode table in blocks 4 to 19, a version 3 journal in blocks 500 to 563.  The device
  never fails.
\<close>

definition sample_sb :: cryexts_super_block where
  "sample_sb =
     \<lparr>sb_magic = CRYEXTS_MAGIC, sb_version = CRYEXTS_VERSION_V6, sb_block_size = 4096,
      sb_inode_size = 276, sb_blocks_count = 1024, sb_inodes_count = 224,
      sb_free_blocks_count = 900, sb_free_inodes_count = 223, sb_block_bitmap_block = 1,
      sb_inode_bitmap_block = 2, sb_inode_table_start = 4, sb_inode_table_blocks = 16,
      sb_root_inode_block = 4, sb_root_dir_block = 20, sb_first_data_block = 20,
      sb_next_ino = 2, sb_next_data_block = 21, sb_label = replicate 16 0, sb_flags = 0,
      sb_key_hash = 0, sb_features_compat = 1, sb_features_incompat = 0x880,
      sb_features_ro_compat = 1, sb_encryption_flags = 0, sb_encryption_kdf = 0,
      sb_encryption_alg = 0, sb_salt = replicate 16 0, sb_state = 1, sb_mount_count = 0,
      sb_max_mount_count = 0, sb_default_encryption_policy = 0, sb_last_mount_time = 0,
      sb_last_write_time = 0, sb_last_check_time = 0, sb_journal_block = 500,
      sb_journal_blocks = 64, sb_group_count = 1, sb_blocks_per_group = 1024,
      sb_inodes_per_group = 224, sb_group_desc_table_start = 3, sb_group_desc_table_blocks = 1,
      sb_uuid = replicate 16 0, sb_volume_name = replicate 16 0, sb_orphan_head = 0,
      sb_policy_table_block = 0, sb_dir_index_seed = 0, sb_metadata_csum_type = 1,
      sb_journal_sequence = 7, sb_fs_generation = 1, sb_reserved = replicate 96 0\<rparr>"

definition sample_fs :: fs where
  "sample_fs =
     \<lparr>s_disk_sb = sample_sb, d_cache = (\<lambda>_. zero_block), d_media = (\<lambda>_. zero_block),
      d_dirty = [], d_fault = (\<lambda>_. False), d_tick = 0, s_block_bitmap_bh = Some 1,
      s_inode_bitmap_bh = Some 2, s_gdt_bhs = None, s_groups = None, s_gdt_tail = [],
      s_group_block_bitmap_bhs = None, s_group_inode_bitmap_bhs = None,
      s_inode_table_start = 4, s_block_bitmap_block = 1, s_inode_bitmap_block = 2,
      s_group_desc_table_start = 3, s_group_desc_table_blocks = 1, s_group_count = 1,
      s_blocks_per_group = 1024, s_inodes_per_group = 224, s_journal_block = 500,
      s_journal_blocks = 64, s_next_ino = 2, s_next_data_block = 21, s_journal_sequence = 7,
      s_journal_last_sequence = 7, s_journal_active_sequence = 0, s_journal_tail_sequence = 7,
      s_journal_checkpoint_sequence = 7, s_journal_ring_head = 501, s_journal_ring_tail = 501,
      s_journal_enabled = True, s_journal_v2 = False, s_journal_v3 = True,
      s_journal_ring = False, s_journal_replaying = False, s_journal_entry_count = 0,
      s_journal_error = None, s_journal_home_blocks = replicate 504 0,
      s_checkpoint_scheduled = False, s_journal_locked = False, s_inode_table_blocks = 16,
      s_rdonly = False, d_now = 0, i_next_orphan = (\<lambda>_. None)\<rparr>"

lemma sample_wf: "wf_super sample_sb" "wf_fs sample_fs"
  by (simp_all add: wf_fs_def sample_fs_def sample_sb_def wf_super_def zero_block_def)

end
