(* ===== verification/JournalRing.thy ===== *)
theory JournalRing
  imports JournalEffects Sample
begin

text \<open>
  Where the segments of the version 3 ring go: a segment that \<open>cryexts_journal_v3_ring_allocate\<close>
  grants lies inside the ring and outside the live part between tail and head.  Two cases in which
  the ring loses its segments are stated as well.
\<close>

section \<open>The ring and its live part\<close>

text \<open>
  The area lies so far below \<open>2 ^ 64\<close> that positions inside it can be added up, as on any
  device (at most \<open>2 ^ 63\<close> bytes); head and tail lie in the ring.
\<close>

definition ring_ok :: "fs \<Rightarrow> bool" where
  "ring_ok st \<longleftrightarrow>
     unat (s_journal_block st) + 2 * unat (s_journal_blocks st) < 2 ^ 64 \<and>
     CRYEXTS_JOURNAL_V3_MIN_BLOCKS \<le> s_journal_blocks st \<and>
     cryexts_journal_v3_ring_start st \<le> s_journal_ring_head st \<and>
     s_journal_ring_head st < cryexts_journal_v3_ring_end st \<and>
     cryexts_journal_v3_ring_start st \<le> s_journal_ring_tail st \<and>
     s_journal_ring_tail st < cryexts_journal_v3_ring_end st"

text \<open>Blocks from the tail up to the head, around the end of the ring if need be.\<close>

definition ring_live :: "fs \<Rightarrow> u64 \<Rightarrow> bool" where
  "ring_live st b \<longleftrightarrow>
     (if s_journal_ring_tail st \<le> s_journal_ring_head st
      then s_journal_ring_tail st \<le> b \<and> b < s_journal_ring_head st
      else (s_journal_ring_tail st \<le> b \<and> b < cryexts_journal_v3_ring_end st) \<or>
           (cryexts_journal_v3_ring_start st \<le> b \<and> b < s_journal_ring_head st))"

lemma unat_ucast32: "unat (ucast (e :: u32) :: u64) = unat e"
  by (simp add: unsigned_ucast_eq take_bit_nat_eq_self_iff order.strict_trans2 [OF unsigned_less])

lemma ring_bounds:
  assumes "ring_ok st"
  shows "unat (cryexts_journal_v3_ring_start st) = unat (s_journal_block st) + 1"
    "unat (cryexts_journal_v3_ring_end st) = unat (s_journal_block st) + unat (s_journal_blocks st)"
    "unat (s_journal_block st) + 1 \<le> unat (s_journal_ring_head st)"
    "unat (s_journal_ring_head st) < unat (s_journal_block st) + unat (s_journal_blocks st)"
    "unat (s_journal_block st) + 1 \<le> unat (s_journal_ring_tail st)"
    "unat (s_journal_ring_tail st) < unat (s_journal_block st) + unat (s_journal_blocks st)"
    "4 \<le> unat (s_journal_blocks st)"
proof -
  have lt: "unat (s_journal_block st) + unat (s_journal_blocks st) < 2 ^ 64"
    using assms unfolding ring_ok_def by linarith
  show b: "4 \<le> unat (s_journal_blocks st)"
    using assms by (simp add: ring_ok_def CRYEXTS_JOURNAL_V3_MIN_BLOCKS_def word_le_nat_alt)
  show e: "unat (cryexts_journal_v3_ring_end st) =
      unat (s_journal_block st) + unat (s_journal_blocks st)"
    using lt by (simp add: cryexts_journal_v3_ring_end_def unat_plus_if')
  show s: "unat (cryexts_journal_v3_ring_start st) = unat (s_journal_block st) + 1"
    using lt b by (simp add: cryexts_journal_v3_ring_start_def unat_plus_if')
  show "unat (s_journal_block st) + 1 \<le> unat (s_journal_ring_head st)"
    "unat (s_journal_ring_head st) < unat (s_journal_block st) + unat (s_journal_blocks st)"
    "unat (s_journal_block st) + 1 \<le> unat (s_journal_ring_tail st)"
    "unat (s_journal_ring_tail st) < unat (s_journal_block st) + unat (s_journal_blocks st)"
    using assms s e by (simp_all add: ring_ok_def word_le_nat_alt word_less_nat_alt)
qed

section \<open>The allocator over natural numbers\<close>

text \<open>The start of the segment, as a function of the ring without wrap-around of words.\<close>

definition ring_start_nat :: "nat \<Rightarrow> nat \<Rightarrow> nat \<Rightarrow> nat \<Rightarrow> nat \<Rightarrow> nat option" where
  "ring_start_nat rs re head tail needed =
     (if re - rs \<le> needed then None
      else if head = tail then Some (if re < head + needed then rs else head)
      else if head < tail then (if tail < head + needed then None else Some head)
      else if re < head + needed then (if tail - rs < needed then None else Some rs)
      else Some head)"

lemma ring_allocate_nat:
  assumes ok: "ring_ok st" and ring: "s_journal_ring st"
    and alloc: "cryexts_journal_v3_ring_allocate st entries = Inr (d, p, c, h)"
  shows "ring_start_nat (unat (cryexts_journal_v3_ring_start st))
           (unat (cryexts_journal_v3_ring_end st)) (unat (s_journal_ring_head st))
           (unat (s_journal_ring_tail st)) (unat entries + 2) = Some (unat d)"
    and "p = d + 1" and "c = p + ucast entries" and "h = v3_ring_next st c"
proof -
  let ?rs = "cryexts_journal_v3_ring_start st" and ?re = "cryexts_journal_v3_ring_end st"
  let ?h = "s_journal_ring_head st" and ?t = "s_journal_ring_tail st"
  let ?n = "ucast entries + 2 :: u64"
  note b = ring_bounds [OF ok]
  have small: "unat entries < 2 ^ 32" using unsigned_less [of entries, where 'a = nat] by simp
  then have n: "unat ?n = unat entries + 2" by (simp add: unat_plus_if' unat_ucast32)
  have lt: "unat (s_journal_block st) + 2 * unat (s_journal_blocks st) < 2 ^ 64"
    using ok by (simp add: ring_ok_def)
  have size: "unat (?re - ?rs) = unat ?re - unat ?rs"
    using b by (simp add: unat_sub_if')
  show "p = d + 1" "c = p + ucast entries" "h = v3_ring_next st c"
    using ring alloc
    by (auto simp: cryexts_journal_v3_ring_allocate_def v3_ring_next_def Let_def
        split: if_splits sum.splits)
  have fits: "?n < ?re - ?rs"
    using ring alloc by (auto simp: cryexts_journal_v3_ring_allocate_def Let_def split: if_splits)
  then have fits': "unat entries + 2 < unat ?re - unat ?rs"
    using n size by (simp add: word_less_nat_alt)
  have sum: "unat (?h + ?n) = unat ?h + (unat entries + 2)"
    using b lt fits' n by (simp add: unat_plus_if')
  have gap: "unat (?t - ?rs) = unat ?t - unat ?rs"
    using b by (simp add: unat_sub_if')
  show "ring_start_nat (unat ?rs) (unat ?re) (unat ?h) (unat ?t) (unat entries + 2) = Some (unat d)"
    using ring alloc fits'
    by (auto simp: cryexts_journal_v3_ring_allocate_def ring_start_nat_def Let_def
        word_less_nat_alt word_le_nat_alt sum gap n size word_unat_eq_iff split: if_splits)
qed

lemma ring_start_nat_safe:
  assumes "ring_start_nat rs re head tail needed = Some d"
    and "rs \<le> head" "head < re" "rs \<le> tail" "tail < re"
  shows "rs \<le> d" "d + needed \<le> re"
    "tail < head \<Longrightarrow> d + needed \<le> tail \<or> head \<le> d"
    "head < tail \<Longrightarrow> head \<le> d \<and> d + needed \<le> tail"
  using assms by (auto simp: ring_start_nat_def split: if_splits)

lemma ring_segment:
  assumes ok: "ring_ok st" and ring: "s_journal_ring st"
    and alloc: "cryexts_journal_v3_ring_allocate st entries = Inr (d, p, c, h)"
  shows "p = d + 1" and "c = p + ucast entries"
    and "cryexts_journal_v3_ring_start st \<le> d" and "d < c" and "c < cryexts_journal_v3_ring_end st"
    and "cryexts_journal_v3_ring_start st \<le> h" and "h < cryexts_journal_v3_ring_end st"
    and "\<forall>b. d \<le> b \<and> b \<le> c \<longrightarrow> \<not> ring_live st b"
proof -
  note b = ring_bounds [OF ok] and a = ring_allocate_nat [OF ok ring alloc]
  show p: "p = d + 1" and c: "c = p + ucast entries" by (rule a)+
  let ?n = "unat entries + 2"
  have s: "unat (cryexts_journal_v3_ring_start st) \<le> unat d"
      "unat d + ?n \<le> unat (cryexts_journal_v3_ring_end st)"
    by (rule ring_start_nat_safe [OF a(1)]; use b in simp)+
  have top: "unat (cryexts_journal_v3_ring_end st) < 2 ^ 64"
    using unsigned_less [of "cryexts_journal_v3_ring_end st", where 'a = nat] by simp
  have uc: "unat c = unat d + unat entries + 1"
    using s top by (simp add: p c unat_plus_if' unat_ucast32)
  show "cryexts_journal_v3_ring_start st \<le> d" "d < c" "c < cryexts_journal_v3_ring_end st"
    using s uc by (simp_all add: word_le_nat_alt word_less_nat_alt)
  show "cryexts_journal_v3_ring_start st \<le> h" "h < cryexts_journal_v3_ring_end st"
    using s uc b top by (auto simp: a(4) v3_ring_next_def word_le_nat_alt word_less_nat_alt
        word_unat_eq_iff unat_plus_if' split: if_splits)
  have "s_journal_ring_tail st < s_journal_ring_head st \<Longrightarrow>
        unat d + ?n \<le> unat (s_journal_ring_tail st) \<or> unat (s_journal_ring_head st) \<le> unat d"
      "s_journal_ring_head st < s_journal_ring_tail st \<Longrightarrow>
        unat (s_journal_ring_head st) \<le> unat d \<and> unat d + ?n \<le> unat (s_journal_ring_tail st)"
    by (rule ring_start_nat_safe [OF a(1)]; use b in \<open>simp add: word_less_nat_alt\<close>)+
  then show "\<forall>b. d \<le> b \<and> b \<le> c \<longrightarrow> \<not> ring_live st b"
    using uc s by (auto simp: ring_live_def word_le_nat_alt word_less_nat_alt not_le)
qed

definition sample_ring :: fs where
  "sample_ring = sample_fs\<lparr>s_journal_ring := True, s_journal_ring_tail := 510,
                          s_journal_ring_head := 560\<rparr>"

lemma sample_ring_ok: "ring_ok sample_ring"
  by (simp add: ring_ok_def sample_ring_def sample_fs_def cryexts_journal_v3_ring_start_def
      cryexts_journal_v3_ring_end_def CRYEXTS_JOURNAL_V3_MIN_BLOCKS_def)

lemmas sample_ring_eval = sample_ring_def sample_fs_def cryexts_journal_v3_ring_allocate_def
  cryexts_journal_v3_ring_start_def cryexts_journal_v3_ring_end_def v3_ring_next_def

text \<open>C16: a segment that the ring allocator grants has descriptor, payloads and
  commit block next to each other, lies inside the ring, does not overlap the live segments
  between tail and head, and leaves a head inside the ring.\<close>

theorem ring_segment_safe:
  assumes "ring_ok st" and "s_journal_ring st"
    and "cryexts_journal_v3_ring_allocate st entries = Inr (d, p, c, h)"
  shows "p = d + 1 \<and> c = p + ucast entries \<and>
    cryexts_journal_v3_ring_start st \<le> d \<and> d < c \<and> c < cryexts_journal_v3_ring_end st \<and>
    cryexts_journal_v3_ring_start st \<le> h \<and> h < cryexts_journal_v3_ring_end st \<and>
    (\<forall>b. d \<le> b \<and> b \<le> c \<longrightarrow> \<not> ring_live st b)"
  by (intro conjI ring_segment [OF assms])

theorem ring_segment_safe_witness:
  "\<not> ring_live sample_ring 501 \<and> \<not> ring_live sample_ring 504 \<and> \<not> ring_live sample_ring 505"
proof -
  have "cryexts_journal_v3_ring_allocate sample_ring 3 = Inr (501, 502, 505, 506)"
    by (simp add: sample_ring_eval)
  from ring_segment_safe [OF sample_ring_ok _ this] show ?thesis
    by (auto simp: sample_ring_def)
qed

section \<open>How the ring loses segments\<close>

lemma ring_start_of_head:
  assumes ok: "ring_ok st" and ring: "s_journal_ring st"
    and alloc: "cryexts_journal_v3_ring_allocate st entries = Inr (d, p, c, h)"
    and live: "s_journal_ring_head st \<noteq> s_journal_ring_tail st"
  shows "d = s_journal_ring_head st \<longleftrightarrow>
    unat (s_journal_ring_head st) + unat entries + 2 \<le> unat (cryexts_journal_v3_ring_end st)"
  using ring_allocate_nat(1) [OF ok ring alloc] ring_bounds [OF ok] live
  by (auto simp: ring_start_nat_def word_unat_eq_iff split: if_splits)

text \<open>The reader of the ring (checkpoint and replay) goes on behind the commit block
  of a segment, so it needs the next segment to start exactly there.  With live segments in the
  ring the allocator does that if and only if the new segment fits before the end of the ring;
  otherwise it jumps to the start of the ring and nothing tells the reader.\<close>

theorem ring_gap:
  assumes "ring_ok st" and "s_journal_ring st"
    and "cryexts_journal_v3_ring_allocate st entries = Inr (d, p, c, h)"
    and "s_journal_ring_head st \<noteq> s_journal_ring_tail st"
    and last: "v3_ring_next st last_commit = s_journal_ring_head st"
  shows "d = v3_ring_next st last_commit \<longleftrightarrow>
    unat (s_journal_ring_head st) + unat entries + 2 \<le> unat (cryexts_journal_v3_ring_end st)"
  unfolding last by (rule ring_start_of_head [OF assms(1-4)])

theorem ring_gap_witness:
  "cryexts_journal_v3_ring_allocate sample_ring 3 = Inr (501, 502, 505, 506) \<and>
   v3_ring_next sample_ring 559 = 560 \<and> (501 :: u64) \<noteq> v3_ring_next sample_ring 559"
proof -
  have a: "cryexts_journal_v3_ring_allocate sample_ring 3 = Inr (501, 502, 505, 506)"
    and n: "v3_ring_next sample_ring 559 = s_journal_ring_head sample_ring"
    by (simp_all add: sample_ring_eval)
  from ring_gap [OF sample_ring_ok _ a _ n] show ?thesis
    using a n by (simp add: sample_ring_eval)
qed

lemma ring_full_allocate:
  assumes ok: "ring_ok st" and ring: "s_journal_ring st"
    and live: "s_journal_ring_head st < s_journal_ring_tail st"
    and exact: "unat (s_journal_ring_head st) + unat entries + 2 = unat (s_journal_ring_tail st)"
  shows "cryexts_journal_v3_ring_allocate st entries =
    Inr (s_journal_ring_head st, s_journal_ring_head st + 1,
         s_journal_ring_head st + 1 + ucast entries, s_journal_ring_tail st)"
proof -
  let ?rs = "cryexts_journal_v3_ring_start st" and ?re = "cryexts_journal_v3_ring_end st"
  let ?n = "ucast entries + 2 :: u64"
  note b = ring_bounds [OF ok]
  have "unat entries < 2 ^ 32" using unsigned_less [of entries, where 'a = nat] by simp
  then have n: "unat ?n = unat entries + 2" by (simp add: unat_plus_if' unat_ucast32)
  have "of_nat (unat (s_journal_ring_head st) + unat entries + 2) = s_journal_ring_tail st"
    using exact by simp
  then have tail: "s_journal_ring_tail st = s_journal_ring_head st + ?n"
    by (simp add: add_ac unat_ucast32 [symmetric])
  have fits: "\<not> ?re - ?rs \<le> ?n"
    using b exact n by (simp add: word_le_nat_alt unat_sub_if')
  have "s_journal_ring_head st + 1 + ucast entries + 1 = s_journal_ring_tail st"
    by (simp add: tail)
  moreover have "s_journal_ring_tail st \<noteq> ?re" using ok by (auto simp: ring_ok_def)
  moreover have "s_journal_ring_head st \<noteq> s_journal_ring_tail st" using live by auto
  ultimately show ?thesis
    using ring live fits by (simp add: cryexts_journal_v3_ring_allocate_def Let_def tail [symmetric])
qed

text \<open>C19: a segment may take the last free block of the ring.  The new head is then the
  tail, which is how an empty ring looks: the checkpoint returns at once, without having written
  any of the committed segments home.\<close>

theorem ring_full:
  assumes ok: "ring_ok st" and ring: "s_journal_ring st"
    and live: "s_journal_ring_head st < s_journal_ring_tail st"
    and exact: "unat (s_journal_ring_head st) + unat entries + 2 = unat (s_journal_ring_tail st)"
  shows "\<exists>d p c. cryexts_journal_v3_ring_allocate st entries = Inr (d, p, c, s_journal_ring_tail st) \<and>
    journal_checkpoint_loop (v3_set_ring_pointers d (s_journal_ring_tail st) st) =
      Some (Inr (), v3_set_ring_pointers d (s_journal_ring_tail st) st)"
  using ring_full_allocate [OF assms] ring
  by (simp add: journal_checkpoint_loop.simps v3_set_ring_pointers_def)

theorem ring_full_witness:
  "\<exists>d p c. cryexts_journal_v3_ring_allocate (sample_ring\<lparr>s_journal_ring_head := 505\<rparr>) 3 =
     Inr (d, p, c, 510)"
proof -
  let ?st = "sample_ring\<lparr>s_journal_ring_head := 505\<rparr>"
  have "ring_ok ?st"
    by (simp add: ring_ok_def sample_ring_eval CRYEXTS_JOURNAL_V3_MIN_BLOCKS_def)
  from ring_full [OF this, of 3] show ?thesis
    by (auto simp: sample_ring_def sample_fs_def)
qed

end
