(* ===== verification/JournalSafety.thy ===== *)
theory JournalSafety
  imports JournalRing
begin

text \<open>
  The safety half of the version 3 redo journal, for every pattern of device and memory failures:
  until the commit block is written a transaction changes nothing on the medium outside the
  journal area, and recovery writes nothing home from a segment it refuses.
\<close>

section \<open>The journal area\<close>

definition journal_ok :: "fs \<Rightarrow> bool" where
  "journal_ok st \<longleftrightarrow>
     unat (s_journal_block st) + 2 * unat (s_journal_blocks st) < 2 ^ 64 \<and>
     CRYEXTS_JOURNAL_V3_MIN_BLOCKS \<le> s_journal_blocks st \<and>
     (s_journal_ring st \<longrightarrow> ring_ok st)"

abbreviation journal_area :: "fs \<Rightarrow> u64 set" where
  "journal_area st \<equiv> {b. cryexts_journal_block_is_internal st b}"

lemma internal_nat:
  assumes "journal_ok st"
  shows "cryexts_journal_block_is_internal st b \<longleftrightarrow>
    unat (s_journal_block st) \<le> unat b \<and>
    unat b < unat (s_journal_block st) + unat (s_journal_blocks st)"
proof -
  have "unat (s_journal_block st) + unat (s_journal_blocks st) < 2 ^ 64"
    using assms unfolding journal_ok_def by linarith
  then show ?thesis
    by (simp add: cryexts_journal_block_is_internal_def word_le_nat_alt word_less_nat_alt
        unat_plus_if')
qed

lemma unat_ucast_le: "unat (ucast (x :: u64) :: u32) \<le> unat x"
  by (simp add: unsigned_ucast_eq take_bit_nat_less_eq_self)

lemma capacity_nat:
  "unat (cryexts_journal_v3_payload_capacity st) \<le> unat (s_journal_blocks st) - 3"
  "unat (cryexts_journal_v3_payload_capacity st) \<le> CRYEXTS_JOURNAL_V3_MAX_ENTRIES"
proof -
  let ?m = "min (of_nat CRYEXTS_JOURNAL_V3_MAX_ENTRIES) (s_journal_blocks st - 3)"
  have le: "unat ?m \<le> unat (s_journal_blocks st - 3)"
      "unat ?m \<le> unat (of_nat CRYEXTS_JOURNAL_V3_MAX_ENTRIES :: u64)"
    by (simp_all add: word_le_nat_alt [symmetric])
  have max: "unat (of_nat CRYEXTS_JOURNAL_V3_MAX_ENTRIES :: u64) = CRYEXTS_JOURNAL_V3_MAX_ENTRIES"
    by (simp add: CRYEXTS_JOURNAL_V3_MAX_ENTRIES_def BLOCK_SIZE_def)
  show "unat (cryexts_journal_v3_payload_capacity st) \<le> unat (s_journal_blocks st) - 3"
    using order_trans [OF unat_ucast_le le(1)]
    by (auto simp: cryexts_journal_v3_payload_capacity_def CRYEXTS_JOURNAL_V3_MIN_BLOCKS_def
        word_le_nat_alt not_less unat_sub_if' split: if_splits)
  show "unat (cryexts_journal_v3_payload_capacity st) \<le> CRYEXTS_JOURNAL_V3_MAX_ENTRIES"
    using order_trans [OF unat_ucast_le le(2)] max
    by (auto simp: cryexts_journal_v3_payload_capacity_def)
qed

lemma segment_internal:
  assumes ok: "journal_ok st"
    and n: "unat entries \<le> unat (cryexts_journal_v3_payload_capacity st)"
    and alloc: "cryexts_journal_v3_ring_allocate st entries = Inr (d, p, c, h)"
  shows "d \<in> journal_area st" "c \<in> journal_area st"
    and "i < unat entries \<Longrightarrow> p + of_nat i \<in> journal_area st"
    and "p = d + 1" "c = p + of_nat (unat entries) \<or> \<not> s_journal_ring st"
    and "unat d + unat entries < unat c" "i < unat entries \<Longrightarrow> unat (p + of_nat i) = unat d + 1 + i"
    and "s_journal_block st < d"
proof -
  let ?jb = "unat (s_journal_block st)" and ?bs = "unat (s_journal_blocks st)"
  have lt: "?jb + 2 * ?bs < 2 ^ 64" and four: "4 \<le> ?bs"
    using ok by (simp_all add: journal_ok_def CRYEXTS_JOURNAL_V3_MIN_BLOCKS_def word_le_nat_alt)
  have place: "?jb < unat d \<and> unat d + unat entries < unat c \<and> unat c < ?jb + ?bs \<and> p = d + 1"
  proof (cases "s_journal_ring st")
    case True
    then have rok: "ring_ok st" using ok by (simp add: journal_ok_def)
    note seg = ring_segment [OF rok True alloc]
    have "unat entries < 2 ^ 32" using unsigned_less [of entries, where 'a = nat] by simp
    with seg have "unat c = unat d + 1 + unat entries"
      using ring_bounds [OF rok] ring_start_nat_safe(2) [OF ring_allocate_nat(1) [OF rok True alloc]]
        lt by (simp add: unat_plus_if' unat_ucast32 word_less_nat_alt)
    then show ?thesis
      using seg ring_bounds [OF rok] by (simp add: word_le_nat_alt word_less_nat_alt)
  next
    case False
    have "unat entries \<le> ?bs - 3" using n capacity_nat(1) [of st] by linarith
    then show ?thesis
      using False alloc lt four
      by (auto simp: cryexts_journal_v3_ring_allocate_def cryexts_journal_v2_descriptor_block_def
          cryexts_journal_v2_payload_start_def cryexts_journal_v2_commit_block_def unat_plus_if'
          unat_sub_if' word_le_nat_alt Let_def add.assoc)
  qed
  show "i < unat entries \<Longrightarrow> unat (p + of_nat i) = unat d + 1 + i"
    using place lt by (simp add: unat_plus_if' unat_of_nat)
  then show "i < unat entries \<Longrightarrow> p + of_nat i \<in> journal_area st"
    using place by (simp add: internal_nat [OF ok])
  show "d \<in> journal_area st" "c \<in> journal_area st"
    using place by (simp_all add: internal_nat [OF ok])
  show "p = d + 1" "unat d + unat entries < unat c" "s_journal_block st < d"
    using place by (simp_all add: word_less_nat_alt)
  show "c = p + of_nat (unat entries) \<or> \<not> s_journal_ring st"
    using ring_allocate_nat(3) [OF _ _ alloc] ok by (auto simp: journal_ok_def)
qed

section \<open>What the phases of a commit may write\<close>

lemma internal_frame:
  "dev_frame st0 st \<Longrightarrow> cryexts_journal_block_is_internal st b = cryexts_journal_block_is_internal st0 b"
  by (simp add: cryexts_journal_block_is_internal_def dev_frame_fields)

lemma journal_block_internal: "journal_ok st \<Longrightarrow> s_journal_block st \<in> journal_area st"
  by (simp add: internal_nat) (simp add: journal_ok_def CRYEXTS_JOURNAL_V3_MIN_BLOCKS_def word_le_nat_alt)

text \<open>A step that depends on the state it starts in.\<close>

lemma keeps_here: "(\<And>s. I s \<Longrightarrow> keeps I (f s)) \<Longrightarrow> keeps I (\<lambda>s. f s s)"
  by (simp add: keeps_def)

lemma keeps_at: "(\<And>s. I s \<Longrightarrow> I (snd (f s))) \<Longrightarrow> keeps I f"
  by (simp add: keeps_def)

lemma keeps_control:
  "s_journal_block st0 \<in> S \<Longrightarrow>
   keeps (touches S st0) (\<lambda>st. cryexts_journal_v3_write_sync (s_journal_block st) (f st) st)"
  by (rule keeps_at) (rule keepsD [OF keeps_v3_write_sync], simp_all add: touches_fields)

lemma keeps_log_payloads:
  "(\<And>i. i \<in> set is \<Longrightarrow> p + of_nat i \<in> S) \<Longrightarrow> keeps (touches S st0) (v3_log_payloads p is d agg)"
proof (induction "is" arbitrary: d agg)
  case (Cons i "is")
  show ?case
    unfolding v3_log_payloads.simps Let_def
    by (rule keeps_at, rule keepsD, intro keep) (use Cons in auto)
qed (simp add: keep)

lemma keeps_validate_payloads: "keeps (touches S st0) (v3_validate_payloads dups p es is agg)"
proof (induction "is" arbitrary: agg)
  case (Cons i "is")
  have k: "keeps (touches S st0)
      (if payload_hash buf \<noteq> c then failE EUCLEAN else v3_validate_payloads dups p es is a)"
    for buf c a by (simp add: keep Cons)
  show ?case
    unfolding v3_validate_payloads.simps Let_def
    by (rule keeps_at) (auto intro!: keepsD [OF keeps_bindE [OF keeps_read k]])
qed (simp add: keep)

lemma keeps_validate_segment [keep]: "keeps (touches S st0) (v3_validate_segment dups p es n c)"
  unfolding v3_validate_segment_def by (intro keep keeps_validate_payloads)

lemma keeps_copy_home:
  "(\<And>i. i < unat n \<Longrightarrow> e3_home_block (es ! i) \<in> S) \<Longrightarrow> keeps (touches S st0) (v3_copy_home p es n)"
  unfolding v3_copy_home_def by (intro keep) auto

lemma set_ring_pointers_frame [simp]:
  "d_media (v3_set_ring_pointers d h st) = d_media st"
  "d_cache (v3_set_ring_pointers d h st) = d_cache st"
  "s_disk_sb (v3_set_ring_pointers d h st) = s_disk_sb st"
  "s_journal_block (v3_set_ring_pointers d h st) = s_journal_block st"
  "s_journal_blocks (v3_set_ring_pointers d h st) = s_journal_blocks st"
  by (simp_all add: v3_set_ring_pointers_def)

text \<open>Logging a transaction writes journal blocks only, whatever fails.\<close>

lemma commit_log_touches:
  assumes ok: "journal_ok st"
    and n: "unat (of_nat (s_journal_entry_count st) :: u32) \<le>
            unat (cryexts_journal_v3_payload_capacity st)"
  shows "\<exists>st1. touches (journal_area st) st1 (snd (v3_commit_log sequence st)) \<and>
    (st1 = st \<or> (\<exists>d h. st1 = v3_set_ring_pointers d h st))"
proof (cases "cryexts_journal_v3_ring_allocate st (of_nat (s_journal_entry_count st))")
  case (Inl e)
  then show ?thesis by (auto simp: v3_commit_log_def Let_def intro: exI [of _ st])
next
  case (Inr r)
  obtain d p c h where r: "r = (d, p, c, h)" by (cases r)
  let ?e = "of_nat (s_journal_entry_count st) :: u32" and ?st1 = "v3_set_ring_pointers d h st"
  define S where "S = journal_area st"
  have d: "d \<in> S" and p: "\<And>i. i < unat ?e \<Longrightarrow> p + of_nat i \<in> S"
    using segment_internal [OF ok n, unfolded Inr r, OF refl] unfolding S_def by simp_all
  have jb: "s_journal_block st \<in> S" using journal_block_internal [OF ok] by (simp add: S_def)
  have k: "keeps (touches S ?st1) (bindE (runE [kmalloc, kmalloc, kmalloc]) (\<lambda>_.
            bindE (v3_log_payloads p [0..<unat ?e] dd FNV_OFFSET) (\<lambda>(d', agg).
            bindE (runE [cryexts_journal_v3_write_sync d (f d'),
                  (\<lambda>st. cryexts_journal_v3_write_sync (s_journal_block st) (g st) st)])
               (\<lambda>_. retE (k d' agg)))))" for dd f g k
    by (intro keep keeps_log_payloads; (clarsimp; intro keep)?)
      (auto intro!: keep keeps_control simp: d p jb)
  have "touches S ?st1 (snd (v3_commit_log sequence st))"
    using keepsD [OF k touches_refl]
    by (simp add: v3_commit_log_def Inr r Let_def bindE_def modE_def)
  then show ?thesis unfolding S_def by blast
qed

section \<open>Nothing is written home before the commit block\<close>

definition entries_ok :: "fs \<Rightarrow> bool" where
  "entries_ok st \<longleftrightarrow> s_journal_entry_count st \<le> unat (cryexts_journal_v3_payload_capacity st)"

lemma journal_ok_core: "core_frame a b \<Longrightarrow> journal_ok b = journal_ok a"
  by (simp add: journal_ok_def ring_ok_def core_frame_fields cryexts_journal_v3_ring_start_def
      cryexts_journal_v3_ring_end_def)

lemma capacity_core:
  "core_frame a b \<Longrightarrow> cryexts_journal_v3_payload_capacity b = cryexts_journal_v3_payload_capacity a"
  by (simp add: cryexts_journal_v3_payload_capacity_def core_frame_fields)

lemma internal_core:
  "core_frame a b \<Longrightarrow> cryexts_journal_block_is_internal b x = cryexts_journal_block_is_internal a x"
  by (simp add: cryexts_journal_block_is_internal_def core_frame_fields)

lemma entries_ok_v3_record:
  "entries_ok st \<Longrightarrow> entries_ok (snd (cryexts_journal_v3_record_block b st))"
  by (auto simp: entries_ok_def cryexts_journal_v3_record_block_def Let_def
      cryexts_journal_v3_payload_capacity_def split: option.splits)

lemma entries_ok_upd [simp]:
  "entries_ok (upd_disk_sb f st) = entries_ok st"
  "entries_ok (mark_buffer_dirty b st) = entries_ok st"
  "entries_ok (cryexts_update_super_checksum st) = entries_ok st"
  by (simp_all add: entries_ok_def upd_disk_sb_def mark_buffer_dirty_def
      cryexts_update_super_checksum_def cryexts_journal_v3_payload_capacity_def)

lemma entries_ok_set_recovery:
  "entries_ok st \<Longrightarrow> entries_ok (cryexts_super_set_recovery needed st)"
  by (auto simp: cryexts_super_set_recovery_def mark_super_dirty_eq Let_def ignoreE_def
      cryexts_journal_record_block_def journal_record_with_def entries_ok_v3_record
      cryexts_journal_v2_record_block_def journal_v1_record_with_def journal_home_block_ok_def)

lemma entry_count_gdt:
  "s_journal_entry_count (cryexts_gdt_prepare_write st) = s_journal_entry_count st"
proof -
  have f: "s_journal_entry_count (fold (\<lambda>i st. case gdt_slot st i of None \<Rightarrow> st
      | Some bh \<Rightarrow> set_bdata bh (g i st) st) is s) = s_journal_entry_count s" for g "is" s
    by (induction "is" arbitrary: s) (auto simp: set_bdata_def split: option.splits)
  show ?thesis
    by (auto simp: cryexts_gdt_prepare_write_def cryexts_copy_gdt_to_blocks_def Let_def f
        cryexts_update_group_checksums_def split: option.splits)
qed

lemma entries_ok_gdt: "entries_ok st \<Longrightarrow> entries_ok (cryexts_gdt_prepare_write st)"
  using capacity_core [OF core_frame_gdt [OF core_frame_refl]]
  by (simp add: entries_ok_def entry_count_gdt)

lemma entries_ok_count:
  assumes "entries_ok st"
  shows "unat (of_nat (s_journal_entry_count st) :: u32) = s_journal_entry_count st"
  using assms unsigned_less [of "cryexts_journal_v3_payload_capacity st", where 'a = nat]
  by (simp add: entries_ok_def unat_of_nat)

text \<open>The part of a commit before the commit block, with what it passes on.\<close>

lemma commit_prepare_effect:
  assumes ok: "journal_ok st" and n: "entries_ok st"
  shows "\<exists>st1 st2. core_frame st st1 \<and> (st2 = st1 \<or> (\<exists>d h. st2 = v3_set_ring_pointers d h st1)) \<and>
    touches (journal_area st) st2 (snd (v3_commit_prepare sequence st))"
proof -
  let ?st1 = "cryexts_super_set_recovery True (cryexts_gdt_prepare_write
    (upd_disk_sb (\<lambda>sb. sb\<lparr>sb_journal_sequence := sequence\<rparr>) st))"
  have c: "core_frame st ?st1"
    by (intro core_frame_recovery core_frame_gdt core_frame_basic core_frame_refl)
  have n1: "entries_ok ?st1"
    using n by (simp add: entries_ok_set_recovery entries_ok_gdt)
  show ?thesis
  proof (cases "s_journal_error ?st1")
    case (Some e)
    then have "snd (v3_commit_prepare sequence st) = ?st1" by (simp add: v3_commit_prepare_def Let_def)
    then show ?thesis using c by (auto intro!: exI [of _ ?st1])
  next
    case None
    then have eq: "v3_commit_prepare sequence st = v3_commit_log sequence ?st1"
      by (simp add: v3_commit_prepare_def Let_def)
    have "journal_ok ?st1" using ok journal_ok_core [OF c] by simp
    then obtain st2 where "touches (journal_area ?st1) st2 (snd (v3_commit_log sequence ?st1))"
        "st2 = ?st1 \<or> (\<exists>d h. st2 = v3_set_ring_pointers d h ?st1)"
      using commit_log_touches [of ?st1 sequence] n1 entries_ok_count [OF n1]
      by (auto simp: entries_ok_def)
    then show ?thesis
      unfolding eq using c internal_core [OF c] by auto
  qed
qed

lemma prepare_untouched:
  assumes "journal_ok st" and "entries_ok st" and "\<not> cryexts_journal_block_is_internal st b"
  shows "d_media (snd (v3_commit_prepare sequence st)) b = d_media st b"
proof -
  obtain st1 st2 where c: "core_frame st st1"
      and st2: "st2 = st1 \<or> (\<exists>d h. st2 = v3_set_ring_pointers d h st1)"
      and t: "touches (journal_area st) st2 (snd (v3_commit_prepare sequence st))"
    using commit_prepare_effect [OF assms(1,2)] by blast
  have "d_media st2 = d_media st" using st2 core_frame_fields(18) [OF c] by auto
  then show ?thesis using touches_media [OF t, of b] assms(3) by simp
qed


definition at_block :: "u64 \<Rightarrow> fs \<Rightarrow> fs \<Rightarrow> bool" where
  "at_block b st0 s \<longleftrightarrow> d_media s b = d_media st0 b \<and> s_journal_block s = s_journal_block st0 \<and>
     s_journal_ring s = s_journal_ring st0"

lemma keeps_at_block:
  assumes "\<And>st0. s_journal_block st0 = s_journal_block a \<Longrightarrow> keeps (touches S st0) m" and "b \<notin> S"
  shows "keeps (at_block b a) m"
  unfolding keeps_def
proof (intro allI impI)
  fix s
  assume s: "at_block b a s"
  have "touches S s (snd (m s))"
    by (rule keepsD [OF assms(1) touches_refl]) (use s in \<open>simp add: at_block_def\<close>)
  then show "at_block b a (snd (m s))"
    using s assms(2) by (simp add: at_block_def touches_fields touches_media)
qed

lemma at_block_upd:
  "at_block b a s \<Longrightarrow> (\<And>s. d_media (f s) b = d_media s b) \<Longrightarrow>
   (\<And>s. s_journal_block (f s) = s_journal_block s) \<Longrightarrow>
   (\<And>s. s_journal_ring (f s) = s_journal_ring s) \<Longrightarrow> at_block b a (f s)"
  by (simp add: at_block_def)

lemma commit_log_result:
  assumes "v3_commit_log sequence st = (Inr seg, st')"
  shows "\<exists>h. cryexts_journal_v3_ring_allocate st (of_nat (s_journal_entry_count st)) =
      Inr (seg_descriptor_block seg, seg_payload_start seg, seg_commit_block seg, h) \<and>
    seg_entries seg = of_nat (s_journal_entry_count st)"
  using assms
  by (fastforce simp: v3_commit_log_def Let_def bindE_eq_Inr retE_def
      split: sum.splits prod.splits)

lemma commit_prepare_result:
  assumes ok: "journal_ok st" and n: "entries_ok st"
    and res: "v3_commit_prepare sequence st = (Inr seg, st')"
  shows "seg_commit_block seg \<in> journal_area st" "seg_descriptor_block seg \<in> journal_area st"
proof -
  let ?st1 = "cryexts_super_set_recovery True (cryexts_gdt_prepare_write
    (upd_disk_sb (\<lambda>sb. sb\<lparr>sb_journal_sequence := sequence\<rparr>) st))"
  have c: "core_frame st ?st1"
    by (intro core_frame_recovery core_frame_gdt core_frame_basic core_frame_refl)
  have n1: "entries_ok ?st1" using n by (simp add: entries_ok_set_recovery entries_ok_gdt)
  have "v3_commit_log sequence ?st1 = (Inr seg, st')"
    using res by (simp add: v3_commit_prepare_def Let_def split: option.splits)
  from commit_log_result [OF this]
  obtain h where al: "cryexts_journal_v3_ring_allocate ?st1 (of_nat (s_journal_entry_count ?st1)) =
      Inr (seg_descriptor_block seg, seg_payload_start seg, seg_commit_block seg, h)" by blast
  have "journal_ok ?st1" using ok journal_ok_core [OF c] by simp
  note int = segment_internal [OF this _ al]
  show "seg_commit_block seg \<in> journal_area st" "seg_descriptor_block seg \<in> journal_area st"
    using int(1,2) n1 entries_ok_count [OF n1] internal_core [OF c] by (simp_all add: entries_ok_def)
qed

lemma clear_recovery_media [simp]:
  "d_media (clear_recovery_unrecorded st) = d_media st"
  "s_journal_block (clear_recovery_unrecorded st) = s_journal_block st"
  "s_journal_blocks (clear_recovery_unrecorded st) = s_journal_blocks st"
  "s_journal_ring (clear_recovery_unrecorded st) = s_journal_ring st"
  "s_journal_checkpoint_sequence (clear_recovery_unrecorded st) = s_journal_checkpoint_sequence st"
  "s_journal_ring_tail (clear_recovery_unrecorded st) = s_journal_ring_tail st"
  "s_journal_ring_head (clear_recovery_unrecorded st) = s_journal_ring_head st"
  "d_fault (clear_recovery_unrecorded st) = d_fault st"
  by (simp_all add: clear_recovery_unrecorded_def core_frame_fields [OF core_frame_recovery [OF core_frame_refl]])

lemma undo_media [simp]: "d_media (v3_undo h t q st) = d_media st"
  by (simp add: v3_undo_def Let_def upd_disk_sb_def)

lemma clear_runtime_simps [simp]:
  "d_media (cryexts_journal_v3_clear_runtime st) = d_media st"
  "s_journal_block (cryexts_journal_v3_clear_runtime st) = s_journal_block st"
  "s_journal_ring (cryexts_journal_v3_clear_runtime st) = s_journal_ring st"
  "d_media (journal_unlock st) = d_media st"
  by (simp_all add: cryexts_journal_v3_clear_runtime_def journal_unlock_def)

lemma keeps_ring_tail:
  assumes "seg_commit_block seg \<in> S" "s_journal_block a \<in> S" "b \<notin> S"
  shows "keeps (at_block b a) (bindE (v3_write_commit q seg) (\<lambda>_. v3_commit_ring q seg))"
  unfolding v3_write_commit_def v3_commit_ring_def v3_write_control_def
proof (rule keeps_bindE)
  show "keeps (at_block b a) (cryexts_journal_v3_write_sync (seg_commit_block seg) buf)" for buf
    by (rule keeps_at_block [where S = S]) (simp_all add: keep assms)
  have k: "keeps (at_block b a)
      (\<lambda>st. cryexts_journal_v3_write_sync (s_journal_block st) (f st) st)" for f
    by (rule keeps_at_block [where S = S]) (simp_all add: keeps_control assms)
  have r: "keeps (at_block b a) (runE [\<lambda>st'. cryexts_journal_v3_write_sync (s_journal_block st')
      (f st') st', modE (\<lambda>st. (cryexts_journal_v3_clear_runtime
        (st\<lparr>s_journal_sequence := q, s_journal_last_sequence := q\<rparr>))\<lparr>s_checkpoint_scheduled := True\<rparr>)])"
    for f
    by (rule keeps_runE) (auto intro!: keep k simp: at_block_def)
  show "\<And>x. keeps (at_block b a) (\<lambda>st. runE [\<lambda>st'. cryexts_journal_v3_write_sync (s_journal_block st')
      (cryexts_journal_v3_prepare_control st' CRYEXTS_JOURNAL_V3_STATE_COMMITTED q 0
        (s_journal_checkpoint_sequence st) (seg_descriptor_block seg) (seg_payload_start seg)
        (ucast (seg_entries seg)) (seg_commit_block seg)) st',
      modE (\<lambda>st. (cryexts_journal_v3_clear_runtime
        (st\<lparr>s_journal_sequence := q, s_journal_last_sequence := q\<rparr>))\<lparr>s_checkpoint_scheduled := True\<rparr>)] st)"
    using r by (simp add: keeps_def)
qed

lemma prepare_at_block:
  assumes ok: "journal_ok st" and n: "entries_ok st" and b: "\<not> cryexts_journal_block_is_internal st b"
  shows "at_block b st (snd (v3_commit_prepare sequence st))"
proof -
  obtain st1 st2 where c: "core_frame st st1"
      and st2: "st2 = st1 \<or> (\<exists>d h. st2 = v3_set_ring_pointers d h st1)"
      and t: "touches (journal_area st) st2 (snd (v3_commit_prepare sequence st))"
    using commit_prepare_effect [OF ok n] by blast
  have "s_journal_block st2 = s_journal_block st" "s_journal_ring st2 = s_journal_ring st"
    using st2 core_frame_fields(1,3) [OF c] by (auto simp: v3_set_ring_pointers_def)
  then show ?thesis
    using prepare_untouched [OF ok n b] touches_fields(1,3) [OF t] by (simp add: at_block_def)
qed


section \<open>The barrier before a commit\<close>

lemma sync_dirty_buffer_ok:
  assumes "sync_dirty_buffer b st = (Inr (), st')"
  shows "d_dirty st' = removeAll b (d_dirty st)" "bdata st' = bdata st"
    "d_media st' = (if b \<in> set (d_dirty st) then (d_media st)(b := bdata st b) else d_media st)"
  using assms
  by (auto simp: sync_dirty_buffer_def io_step_def bdata_def fun_eq_iff split: if_splits)

lemma write_back_ok:
  "write_back bs st = (True, st') \<Longrightarrow>
   d_dirty st' = filter (\<lambda>b. b \<notin> set bs) (d_dirty st) \<and> bdata st' = bdata st \<and>
   (\<forall>b. d_media st' b = (if b \<in> set bs \<and> b \<in> set (d_dirty st) then bdata st b else d_media st b))"
proof (induction bs arbitrary: st)
  case (Cons b bs)
  obtain r st1 where 1: "sync_dirty_buffer b st = (r, st1)" by fastforce
  with Cons.prems have r: "r = Inr ()" and w: "write_back bs st1 = (True, st')"
    by (auto split: prod.splits)
  note s = sync_dirty_buffer_ok [OF 1 [unfolded r]]
  show ?case using Cons.IH [OF w] s
    by (auto simp: removeAll_filter_not_eq intro!: filter_cong)
qed auto


section \<open>Recovery writes nothing from a segment it refuses\<close>

lemma read_error: "cryexts_read_file_block b st = (Inl e, st') \<Longrightarrow> e = EIO"
  by (auto simp: cryexts_read_file_block_def io_step_def bindE_def getE_def split: if_splits)

lemma write_sync_error: "cryexts_journal_v3_write_sync b buf st = (Inl e, st') \<Longrightarrow> e = EIO"
  by (auto simp: cryexts_journal_v3_write_sync_def cryexts_write_file_block_def retE_def modE_def
      cryexts_sync_single_block_def sync_dirty_buffer_def io_step_def bindE_def
      split: if_splits sum.splits prod.splits)

lemma eachE_error:
  "eachE f xs st = (Inl e, st') \<Longrightarrow> \<exists>x\<in>set xs. \<exists>s s'. f x s = (Inl e, s')"
  by (induction xs arbitrary: st) (auto simp: retE_def bindE_def split: prod.splits sum.splits)

lemma copy_home_error: "v3_copy_home p es n st = (Inl e, st') \<Longrightarrow> e = EIO"
  by (auto simp: v3_copy_home_def bindE_def dest!: eachE_error read_error write_sync_error
      split: prod.splits sum.splits)

lemma replay_home_error: "v3_replay_home p es n st = (Inl e, st') \<Longrightarrow> e = EIO"
  by (auto simp: v3_replay_home_def finallyE_def dest: copy_home_error split: prod.splits)

lemma bindE_eq_Inl:
  "bindE m k s = (Inl e, s'') \<longleftrightarrow>
     m s = (Inl e, s'') \<or> (\<exists>x s'. m s = (Inr x, s') \<and> k x s' = (Inl e, s''))"
  by (auto simp: bindE_def split: prod.splits sum.splits)

lemma keeps_result: "keeps I m \<Longrightarrow> m s = (r, s') \<Longrightarrow> I s \<Longrightarrow> I s'"
  by (metis keepsD snd_conv)

lemmas read_touches = keeps_result [OF keeps_read _ touches_refl]
lemmas validate_touches = keeps_result [OF keeps_validate_segment _ touches_refl]

lemma replay_segment_parts:
  assumes "v3_replay_segment head position previous st = (r, st')"
  shows "(\<exists>p es n st1. touches {} st st1 \<and> v3_replay_home p es n st1 = (Inr (), st') \<and>
            (\<exists>q e. r = Inr (Some (q, e)))) \<or>
         r = Inl EIO \<or>
         (touches {} st st' \<and> (\<forall>q e. r \<noteq> Inr (Some (q, e))))"
proof -
  obtain rd st1 where 1: "cryexts_read_file_block position st = (rd, st1)" by fastforce
  note t1 = read_touches [OF 1, of "{}"]
  show ?thesis
  proof (cases rd)
    case (Inl e)
    then show ?thesis using assms 1 t1 by (auto simp: v3_replay_segment_def bindE_def)
  next
    case (Inr db)
    show ?thesis
    proof (cases "v3_ring_descriptor_ok st1 position previous db")
      case False
      then show ?thesis using assms 1 Inr t1
        by (auto simp: v3_replay_segment_def bindE_def checkE_def Let_def)
    next
      case True
      let ?d = "dec_d3 db"
      obtain rc st2 where 2: "cryexts_read_file_block (d3_commit_block ?d) st1 = (rc, st2)" by fastforce
      note t2 = touches_trans [OF t1 read_touches [OF 2, of "{}"]]
      show ?thesis
      proof (cases rc)
        case (Inl e)
        then show ?thesis using assms 1 2 Inr True t2
          by (auto simp: v3_replay_segment_def bindE_def checkE_def Let_def)
      next
        case (Inr cb)
        note rc = Inr
        obtain rv st3 where 3: "v3_validate_segment True (d3_payload_start ?d) (d3_entries ?d)
            (d3_entry_count ?d) (m3_payload_checksum (dec_m3 cb)) st2 = (rv, st3)" by fastforce
        note t3 = touches_trans [OF t2 validate_touches [OF 3, of "{}"]]
        obtain rh st4 where 4: "v3_replay_home (d3_payload_start ?d) (d3_entries ?d)
            (d3_entry_count ?d) st3 = (rh, st4)" by fastforce
        show ?thesis
          using assms 1 2 3 4 \<open>rd = Inr db\<close> rc True t2 t3
          by (auto simp: v3_replay_segment_def bindE_def checkE_def Let_def retE_def
              dest: replay_home_error split: if_splits sum.splits)
      qed
    qed
  qed
qed

text \<open>C14: a segment of the ring that recovery refuses (any error but a failing
  device) or skips as uncommitted has no effect on the medium or on any cached block.\<close>

theorem refused_untouched:
  assumes "v3_replay_segment head position previous st = (r, st')"
    and "r \<noteq> Inl EIO" and "\<forall>q e. r \<noteq> Inr (Some (q, e))"
  shows "d_media st' = d_media st \<and> bdata st' = bdata st"
proof -
  have "touches {} st st'" using replay_segment_parts [OF assms(1)] assms(2,3) by blast
  then show ?thesis by (auto simp: fun_eq_iff touches_media touches_bdata)
qed

end
