(* ===== verification/JournalCheckpoint.thy ===== *)
theory JournalCheckpoint
  imports JournalSafety
begin

text \<open>
  The checkpoint loop of the version 3 ring always returns: each successful round raises the
  checkpoint sequence number, and the numbers are 64-bit words.
\<close>

definition chk_at :: "u64 \<Rightarrow> bool \<Rightarrow> bool \<Rightarrow> fs \<Rightarrow> bool" where
  "chk_at q ring locked s \<longleftrightarrow> s_journal_checkpoint_sequence s = q \<and> s_journal_ring s = ring \<and>
     s_journal_locked s = locked"

lemma chk_at_frame: "dev_frame a b \<Longrightarrow> chk_at q r l a \<Longrightarrow> chk_at q r l b"
  by (simp add: chk_at_def dev_frame_fields)

lemma keeps_checkpoint_control: "keeps (touches UNIV st0) (v3_checkpoint_control b d s l c)"
  unfolding v3_checkpoint_control_def by (rule keeps_control) simp

lemma keeps_chk_at: "(\<And>st0. keeps (touches UNIV st0) m) \<Longrightarrow> keeps (chk_at q r l) m"
  by (rule keeps_of_touches) (auto intro: chk_at_frame)

lemmas keeps_chk [keep] =
  keeps_chk_at [OF keeps_checkpoint_control] keeps_chk_at [OF keeps_sync_single [OF UNIV_I]]
  keeps_chk_at [OF keeps_validate_segment]
  keeps_chk_at [OF keeps_copy_home [where S = UNIV, OF UNIV_I]]
  keeps_chk_at [OF keeps_read] keeps_chk_at [OF keeps_kmalloc]

lemma clear_recovery_locked [simp]:
  "s_journal_locked (clear_recovery_unrecorded st) = s_journal_locked st"
  by (simp add: clear_recovery_unrecorded_def core_frame_fields [OF core_frame_recovery [OF core_frame_refl]])

lemma checkpoint_finish_chk:
  assumes "chk_at q r l st"
  shows "chk_at (d3_sequence d) r l (snd (v3_checkpoint_finish b d n st))"
proof -
  let ?I = "chk_at (d3_sequence d) r l"
  let ?st = "st\<lparr>s_journal_ring_tail := v3_ring_next st (d3_commit_block d),
    s_journal_tail_sequence := d3_sequence d, s_journal_checkpoint_sequence := d3_sequence d\<rparr>"
  have I: "?I ?st" using assms by (simp add: chk_at_def)
  have k: "keeps ?I (runE [modE clear_recovery_unrecorded, cryexts_sync_single_block 0,
      v3_checkpoint_control b d s n c])" for s c
    by (rule keeps_runE) (auto intro!: keep simp: chk_at_def)
  have "?I (snd (v3_checkpoint_control b d s n c ?st))" for s c
    by (rule keepsD [where I = ?I, OF keeps_chk(1) I])
  moreover have "?I (snd (runE [modE clear_recovery_unrecorded, cryexts_sync_single_block 0,
      v3_checkpoint_control b d s n c] ?st))" for s c
    by (rule keepsD [where I = ?I, OF k I])
  ultimately show ?thesis
    unfolding v3_checkpoint_finish_def Let_def
    by (cases "v3_ring_next st (d3_commit_block d) = s_journal_ring_head st")
      (simp_all del: runE.simps)
qed

text \<open>A round that succeeds on a ring that is not empty.\<close>

lemma checkpoint_one_progress:
  assumes res: "cryexts_journal_v3_checkpoint_one st = (Inr (), st')"
    and ring: "s_journal_ring st" and live: "s_journal_ring_tail st \<noteq> s_journal_ring_head st"
  shows "s_journal_checkpoint_sequence st < s_journal_checkpoint_sequence st' \<and>
    s_journal_ring st' \<and> s_journal_locked st' = s_journal_locked st"
proof -
  let ?I = "chk_at (s_journal_checkpoint_sequence st) True (s_journal_locked st)"
  have I: "?I st" using ring by (simp add: chk_at_def)
  have k4: "keeps ?I kmalloc4" unfolding kmalloc4_def by (rule keeps_runE) (auto intro!: keep)
  obtain st1 st2 st3 db cb where 1: "kmalloc4 st = (Inr (), st1)"
      and 2: "cryexts_read_file_block (s_journal_ring_tail st) st1 = (Inr db, st2)"
      and ok: "v3_ring_descriptor_ok st2 (s_journal_ring_tail st)
                 (s_journal_checkpoint_sequence st) db"
      and 3: "cryexts_read_file_block (d3_commit_block (dec_d3 db)) st2 = (Inr cb, st3)"
      and 4: "runE [
               checkE (\<lambda>_. v3_checkpoint_commit_ok (s_journal_ring_tail st) (dec_d3 db) cb) EUCLEAN,
               v3_checkpoint_control (s_journal_ring_tail st) (dec_d3 db)
                 CRYEXTS_JOURNAL_V3_STATE_CHECKPOINTING (s_journal_last_sequence st)
                 (s_journal_checkpoint_sequence st),
               v3_validate_segment False (d3_payload_start (dec_d3 db)) (d3_entries (dec_d3 db))
                 (d3_entry_count (dec_d3 db)) (m3_payload_checksum (dec_m3 cb)),
               v3_copy_home (d3_payload_start (dec_d3 db)) (d3_entries (dec_d3 db))
                 (d3_entry_count (dec_d3 db)),
               v3_checkpoint_finish (s_journal_ring_tail st) (dec_d3 db)
                 (s_journal_last_sequence st)] st3 = (Inr (), st')"
    using res ring live
    by (auto simp: cryexts_journal_v3_checkpoint_one_def bindE_eq_Inr checkE_def Let_def
        simp del: runE.simps split: if_splits)
  have I3: "?I st3"
    using keeps_result [where I = ?I, OF keeps_chk(5) 3]
      keeps_result [where I = ?I, OF keeps_chk(5) 2] keeps_result [where I = ?I, OF k4 1 I]
    by blast
  obtain a1 a2 st4 where
      "v3_checkpoint_control (s_journal_ring_tail st) (dec_d3 db)
         CRYEXTS_JOURNAL_V3_STATE_CHECKPOINTING (s_journal_last_sequence st)
         (s_journal_checkpoint_sequence st) st3 = (Inr (), a1)"
      "v3_validate_segment False (d3_payload_start (dec_d3 db)) (d3_entries (dec_d3 db))
         (d3_entry_count (dec_d3 db)) (m3_payload_checksum (dec_m3 cb)) a1 = (Inr (), a2)"
      "v3_copy_home (d3_payload_start (dec_d3 db)) (d3_entries (dec_d3 db))
         (d3_entry_count (dec_d3 db)) a2 = (Inr (), st4)"
      and f: "v3_checkpoint_finish (s_journal_ring_tail st) (dec_d3 db)
         (s_journal_last_sequence st) st4 = (Inr (), st')"
    using 4 by (auto simp: bindE_eq_Inr checkE_def retE_def split: if_splits)
  then have "?I st4"
    using I3 keeps_result [where I = ?I, OF keeps_chk(1)]
      keeps_result [where I = ?I, OF keeps_chk(3)] keeps_result [where I = ?I, OF keeps_chk(4)]
    by metis
  have "chk_at (d3_sequence (dec_d3 db)) True (s_journal_locked st) st'"
    using checkpoint_finish_chk [OF \<open>?I st4\<close>] f by (metis snd_conv)
  moreover have "s_journal_checkpoint_sequence st < d3_sequence (dec_d3 db)"
    using ok by (auto simp: v3_ring_descriptor_ok_def Let_def)
  ultimately show ?thesis by (simp add: chk_at_def)
qed

lemma checkpoint_loop_returns:
  "s_journal_ring st \<Longrightarrow> \<exists>r st'. journal_checkpoint_loop st = Some (r, st')"
proof (induction "18446744073709551616 - unat (s_journal_checkpoint_sequence st)"
    arbitrary: st rule: less_induct)
  case less
  show ?case
  proof (cases "s_journal_ring_tail st = s_journal_ring_head st")
    case True
    then show ?thesis by (simp add: journal_checkpoint_loop.simps)
  next
    case False
    obtain r st' where one: "cryexts_journal_v3_checkpoint_one st = (r, st')" by fastforce
    show ?thesis
    proof (cases r)
      case (Inl e)
      then show ?thesis using False one by (simp add: journal_checkpoint_loop.simps)
    next
      case (Inr u)
      then have "s_journal_checkpoint_sequence st < s_journal_checkpoint_sequence st'"
          and "s_journal_ring st'"
        using checkpoint_one_progress [of st st'] one less.prems False by simp_all
      then show ?thesis
        using less.hyps [OF seq_measure] False one Inr by (subst journal_checkpoint_loop.simps) simp
    qed
  qed
qed

text \<open>C15: writing the ring home always returns, whatever the ring holds and
  whatever the device does, because every round that succeeds raises the checkpoint sequence
  number; and the journal lock is free afterwards.\<close>

theorem checkpoint_returns:
  "\<exists>r st'. cryexts_journal_checkpoint_sync st = Some (r, st') \<and>
     (s_journal_locked st' \<longleftrightarrow>
        s_journal_locked st \<and>
        \<not> (s_journal_enabled st \<and> s_journal_v3 st \<and> s_journal_ring st))"
proof (cases "s_journal_enabled st \<and> s_journal_v3 st \<and> s_journal_ring st")
  case True
  then obtain r st' where "journal_checkpoint_loop (journal_lock st) = Some (r, st')"
    using checkpoint_loop_returns [of "journal_lock st"] by (auto simp: journal_lock_def)
  then show ?thesis
    using True by (simp add: cryexts_journal_checkpoint_sync_def journal_unlock_def)
qed (auto simp: cryexts_journal_checkpoint_sync_def)

end
