(* ===== verification/JournalRedo.thy ===== *)
theory JournalRedo
  imports JournalSafety
begin

text \<open>
  The liveness half of the version 3 redo journal: what a commit leaves on the medium, and what
  recovery makes of it after a power cut.  For the ring journal recovery rebuilds exactly the
  blocks of the committed transaction.  For the fixed journal the control block of every commit is
  one that the next mount refuses.
\<close>

section \<open>A block that has been written and synced\<close>

lemma write_file_block_ok:
  "cryexts_write_file_block b buf st = (Inr (), st') \<Longrightarrow>
   st' = mark_buffer_dirty b (set_bdata b buf (st\<lparr>d_tick := Suc (d_tick st)\<rparr>))"
  by (auto simp: cryexts_write_file_block_def io_step_def bindE_def modE_def split: if_splits)

lemma set_bdata_flags [simp]:
  "d_dirty (set_bdata b buf st) = d_dirty st" "d_fault (set_bdata b buf st) = d_fault st"
  "d_tick (set_bdata b buf st) = d_tick st" "d_media (set_bdata b buf st) = d_media st"
  by (simp_all add: set_bdata_def)

lemma bdata_upd [simp]:
  "bdata (st\<lparr>d_tick := t\<rparr>) = bdata st" "bdata (st\<lparr>d_dirty := d\<rparr>) = bdata st"
  "bdata (st\<lparr>d_media := m\<rparr>) = bdata st" "bdata (mark_buffer_dirty b st) = bdata st"
  by (simp_all add: bdata_def fun_eq_iff mark_buffer_dirty_def)

lemma wf_fs_upd [simp]:
  "wf_fs (st\<lparr>d_tick := t\<rparr>) = wf_fs st" "wf_fs (st\<lparr>d_dirty := d\<rparr>) = wf_fs st"
  "wf_fs (st\<lparr>d_media := m\<rparr>) = wf_fs st" "wf_fs (mark_buffer_dirty b st) = wf_fs st"
  by (simp_all add: wf_fs_def mark_buffer_dirty_def)

lemma write_sync_ok:
  assumes w: "cryexts_journal_v3_write_sync b buf st = (Inr (), st')" and len: "length buf = BLOCK_SIZE"
  shows "d_media st' b = buf" and "bdata st' b = buf" and "touches {b} st st'"
    and "wf_fs st \<Longrightarrow> wf_fs st'"
proof -
  obtain st1 st2 where 1: "cryexts_write_file_block b buf st = (Inr (), st1)"
      and 2: "st2 = st1\<lparr>d_tick := Suc (d_tick st1)\<rparr>" "sync_dirty_buffer b st2 = (Inr (), st')"
    using w by (auto simp: cryexts_journal_v3_write_sync_def cryexts_sync_single_block_def
        bindE_eq_Inr io_step_def retE_def split: if_splits)
  note st1 = write_file_block_ok [OF 1]
  have b2: "bdata st2 b = buf" and d: "b \<in> set (d_dirty st2)"
    unfolding 2(1) st1 by (simp_all add: bdata_set_same [OF len]) (simp add: mark_buffer_dirty_def)
  note s = sync_dirty_buffer_ok [OF 2(2)]
  show "d_media st' b = buf" "bdata st' b = buf" using s b2 d by simp_all
  show "touches {b} st st'"
    by (rule keeps_result [OF keeps_v3_write_sync w touches_refl]) simp
  assume "wf_fs st"
  then have "wf_fs st2" unfolding 2(1) st1 by (simp add: wf_fs_set_bdata len)
  then show "wf_fs st'"
    using 2(2) by (auto simp: sync_dirty_buffer_def io_step_def wf_fs_def split: if_splits)
qed

lemma read_ok:
  "cryexts_read_file_block b st = (Inr buf, st') \<Longrightarrow> buf = bdata st b \<and> st' = st\<lparr>d_tick := Suc (d_tick st)\<rparr>"
  by (auto simp: cryexts_read_file_block_def io_step_def bindE_def getE_def split: if_splits)

section \<open>Logging the payloads\<close>

definition home_at :: "fs \<Rightarrow> nat \<Rightarrow> u64" where "home_at st i = s_journal_home_blocks st ! i"

text \<open>The entry that describes the block of index \<open>i\<close> of the transaction in \<open>st\<close>.\<close>

definition logged_entry :: "fs \<Rightarrow> nat \<Rightarrow> cryexts_journal_v3_entry" where
  "logged_entry st i = \<lparr>e3_home_block = home_at st i,
     e3_payload_checksum = payload_hash (bdata st (home_at st i)), e3_flags = 0\<rparr>"

definition payload_fold :: "fs \<Rightarrow> nat list \<Rightarrow> u32 \<Rightarrow> u32" where
  "payload_fold st is agg =
     fold (\<lambda>i a. cryexts_fnv1a_update a (bdata st (home_at st i)) BLOCK_SIZE) is agg"

lemma payload_fold_Cons: "payload_fold st (i # is) agg =
    payload_fold st is (cryexts_fnv1a_update agg (bdata st (home_at st i)) BLOCK_SIZE)"
  by (simp add: payload_fold_def)

text \<open>The home blocks are not among the places of the payloads.\<close>

definition apart :: "fs \<Rightarrow> u64 \<Rightarrow> nat list \<Rightarrow> bool" where
  "apart st p is \<longleftrightarrow> inj_on (\<lambda>i. p + of_nat i :: u64) (set is) \<and>
     (\<forall>i\<in>set is. \<forall>j\<in>set is. home_at st j \<noteq> p + of_nat i)"

lemma log_payloads_ok:
  assumes "v3_log_payloads p is d agg st = (Inr (d', agg'), st')"
    and "wf_fs st" and "distinct is" and "apart st p is"
    and "\<forall>i\<in>set is. e3_flags (d3_entries d ! i) = 0"
  shows "d' = d\<lparr>d3_entries := fold (\<lambda>i es. es[i := logged_entry st i]) is (d3_entries d)\<rparr> \<and>
    agg' = payload_fold st is agg \<and>
    (\<forall>i\<in>set is. d_media st' (p + of_nat i) = bdata st (home_at st i) \<and>
                  bdata st' (p + of_nat i) = bdata st (home_at st i)) \<and>
    touches ((\<lambda>i. p + of_nat i) ` set is) st st' \<and> wf_fs st'"
  using assms
proof (induction "is" arbitrary: d agg st)
  case Nil
  then show ?case by (simp add: retE_def payload_fold_def)
next
  case (Cons i "is")
  let ?h = "home_at st i" and ?p = "p + of_nat i"
  let ?entry = "(d3_entries d ! i)\<lparr>e3_home_block := ?h,
    e3_payload_checksum := payload_hash (bdata st ?h)\<rparr>"
  let ?d = "d\<lparr>d3_entries := (d3_entries d)[i := ?entry]\<rparr>"
  let ?agg = "cryexts_fnv1a_update agg (bdata st ?h) BLOCK_SIZE"
  let ?st1 = "st\<lparr>d_tick := Suc (d_tick st)\<rparr>"
  obtain st2 where w: "cryexts_journal_v3_write_sync ?p (bdata st ?h) ?st1 = (Inr (), st2)"
      and rec: "v3_log_payloads p is ?d ?agg st2 = (Inr (d', agg'), st')"
    using Cons.prems(1)
    by (auto simp: bindE_eq_Inr Let_def home_at_def dest!: read_ok split: prod.splits)
  have len: "length (bdata st ?h) = BLOCK_SIZE" by (rule length_bdata [OF Cons.prems(2)])
  note ws = write_sync_ok [OF w len]
  have wf2: "wf_fs st2" using ws(4) Cons.prems(2) by simp
  have t1: "touches {?p} st ?st1" by (simp add: touches_def dev_frame_upd)
  have t: "touches {?p} st st2" by (rule touches_trans [OF t1 ws(3)])
  have home: "home_at st2 = home_at st" using touches_fields(12) [OF t] by (simp add: home_at_def fun_eq_iff)
  have data: "bdata st2 (home_at st j) = bdata st (home_at st j)" if "j \<in> set is" for j
    using touches_bdata [OF t, of "home_at st j"] Cons.prems(4) that by (auto simp: apart_def)
  have entry: "?entry = logged_entry st i"
    using Cons.prems(5) by (simp add: logged_entry_def)
  have same: "logged_entry st2 j = logged_entry st j" if "j \<in> set is" for j
    using data [OF that] by (simp add: logged_entry_def home)
  have fold: "fold (\<lambda>i es. es[i := logged_entry st2 i]) is es =
      fold (\<lambda>i es. es[i := logged_entry st i]) is es" for es
    by (rule fold_cong) (auto simp: same)
  have pf: "payload_fold st2 is a = payload_fold st is a" for a
    unfolding payload_fold_def by (rule fold_cong) (auto simp: home data)
  have ap: "apart st2 p is"
    using Cons.prems(4) by (auto simp: apart_def home inj_on_def)
  have fl: "\<forall>j\<in>set is. e3_flags (d3_entries ?d ! j) = 0"
  proof
    fix j assume j: "j \<in> set is"
    then have "i \<noteq> j" using Cons.prems(3) by auto
    with j show "e3_flags (d3_entries ?d ! j) = 0" using Cons.prems(5) by simp
  qed
  have d2: "distinct is" using Cons.prems(3) by simp
  note ih = Cons.IH [OF rec wf2 d2 ap fl]
  have t3: "touches ((\<lambda>i. p + of_nat i) ` set (i # is)) st st'"
    by (rule touches_trans [where b = st2]; rule touches_mono, use t ih in \<open>auto\<close>)
  have "?p \<notin> (\<lambda>i. p + of_nat i) ` set is"
    using Cons.prems(3,4) by (auto simp: apart_def inj_on_def)
  then have "d_media st' ?p = bdata st ?h \<and> bdata st' ?p = bdata st ?h"
    using ih touches_media [of "(\<lambda>i. p + of_nat i) ` set is" st2 st' ?p]
      touches_bdata [of "(\<lambda>i. p + of_nat i) ` set is" st2 st' ?p] ws(1,2) by simp
  then show ?case
    using ih t3 by (simp add: fold pf entry home data payload_fold_Cons)
qed

section \<open>What logging leaves on the medium\<close>

text \<open>A transaction whose blocks all lie outside the journal.\<close>

definition homes_ok :: "fs \<Rightarrow> bool" where
  "homes_ok st \<longleftrightarrow>
     (\<forall>i < s_journal_entry_count st. \<not> cryexts_journal_block_is_internal st (home_at st i))"

definition segment_descriptor :: "fs \<Rightarrow> u64 \<Rightarrow> u64 \<Rightarrow> u64 \<Rightarrow> cryexts_journal_v3_descriptor" where
  "segment_descriptor st sequence p c =
     (let n = s_journal_entry_count st in
      cryexts_journal_v3_finish_descriptor
        ((cryexts_journal_v3_prepare_descriptor (of_nat n) sequence p c)
           \<lparr>d3_entries := map (logged_entry st) [0..<n] @
              replicate (CRYEXTS_JOURNAL_V3_MAX_ENTRIES - n) zero_e3\<rparr>))"

definition segment_checksum :: "fs \<Rightarrow> u32" where
  "segment_checksum st = (let n = s_journal_entry_count st in
     if n = 0 then 0 else payload_fold st [0..<n] FNV_OFFSET)"

lemma fold_update_prefix:
  "n \<le> length es \<Longrightarrow> fold (\<lambda>i es. es[i := f i]) [0..<n] es = map f [0..<n] @ drop n es"
proof (induction n)
  case (Suc n)
  then show ?case by (simp add: list_update_append Cons_nth_drop_Suc [symmetric])
qed simp

lemma entries_le_max: "entries_ok st \<Longrightarrow> s_journal_entry_count st \<le> CRYEXTS_JOURNAL_V3_MAX_ENTRIES"
  using capacity_nat(2) [of st] by (simp add: entries_ok_def)

lemma kmalloc_ok: "kmalloc st = (Inr (), st') \<Longrightarrow> st' = st\<lparr>d_tick := Suc (d_tick st)\<rparr>"
  by (auto simp: kmalloc_def io_step_def split: if_splits)

lemma logged_entry_cong:
  "bdata a = bdata b \<Longrightarrow> s_journal_home_blocks a = s_journal_home_blocks b \<Longrightarrow>
   logged_entry a = logged_entry b"
  "bdata a = bdata b \<Longrightarrow> s_journal_home_blocks a = s_journal_home_blocks b \<Longrightarrow>
   payload_fold a = payload_fold b"
  by (simp_all add: logged_entry_def home_at_def payload_fold_def fun_eq_iff)

lemma bdata_ring_pointers [simp]:
  "bdata (v3_set_ring_pointers d h st) = bdata st"
  "wf_fs (v3_set_ring_pointers d h st) = wf_fs st"
  "s_journal_home_blocks (v3_set_ring_pointers d h st) = s_journal_home_blocks st"
  "s_journal_ring (v3_set_ring_pointers d h st) = s_journal_ring st"
  by (simp_all add: bdata_def fun_eq_iff wf_fs_def) (simp_all add: v3_set_ring_pointers_def)

lemma commit_log_ok:
  assumes res: "v3_commit_log sequence st = (Inr seg, st')"
    and wf: "wf_fs st" and ok: "journal_ok st" and n: "entries_ok st" and homes: "homes_ok st"
  defines "d \<equiv> seg_descriptor_block seg" and "p \<equiv> seg_payload_start seg"
    and "c \<equiv> seg_commit_block seg"
  shows "seg_descriptor seg = segment_descriptor st sequence p c \<and>
    seg_payload_checksum seg = segment_checksum st \<and>
    d_media st' d = enc_d3 (seg_descriptor seg) \<and>
    (\<forall>i < s_journal_entry_count st. d_media st' (p + of_nat i) = bdata st (home_at st i) \<and>
       bdata st' (p + of_nat i) = bdata st (home_at st i)) \<and> wf_fs st'"
proof -
  let ?n = "s_journal_entry_count st" and ?e = "of_nat (s_journal_entry_count st) :: u32"
  obtain h where al: "cryexts_journal_v3_ring_allocate st ?e = Inr (d, p, c, h)"
      and es: "seg_entries seg = ?e"
    using commit_log_result [OF res] by (auto simp: d_def p_def c_def)
  have ne: "unat ?e = ?n" by (rule entries_ok_count [OF n])
  have cap: "unat ?e \<le> unat (cryexts_journal_v3_payload_capacity st)"
    using n ne by (simp add: entries_ok_def)
  note int = segment_internal [OF ok cap al, unfolded ne]
  let ?stR = "v3_set_ring_pointers d h st"
  let ?d0 = "cryexts_journal_v3_prepare_descriptor ?e sequence p c"
  obtain k1 k2 k3 st2 st3 st4 dd agg where
      k: "kmalloc ?stR = (Inr (), k1)" "kmalloc k1 = (Inr (), k2)" "kmalloc k2 = (Inr (), k3)"
      and lp: "v3_log_payloads p [0..<?n] ?d0 FNV_OFFSET k3 = (Inr (dd, agg), st2)"
      and wd: "cryexts_journal_v3_write_sync d (enc_d3 (cryexts_journal_v3_finish_descriptor dd)) st2
                 = (Inr (), st3)"
      and wc: "\<exists>ctl. length ctl = BLOCK_SIZE \<and>
                 cryexts_journal_v3_write_sync (s_journal_block st3) ctl st3 = (Inr (), st')"
      and seg: "seg_descriptor seg = cryexts_journal_v3_finish_descriptor dd"
        "seg_payload_checksum seg = (if ?e = 0 then 0 else agg)"
    using res
    by (fastforce simp: v3_commit_log_def Let_def al ne bindE_eq_Inr modE_def retE_def
        v3_prepare_control_length split: prod.splits)
  have k3: "bdata k3 = bdata st" "s_journal_home_blocks k3 = s_journal_home_blocks st" "wf_fs k3"
      "s_journal_block k3 = s_journal_block st"
    using kmalloc_ok [OF k(1)] kmalloc_ok [OF k(2)] kmalloc_ok [OF k(3)] wf by simp_all
  have pos: "\<And>i. i < ?n \<Longrightarrow> unat (p + of_nat i) = unat d + 1 + i" by (rule int(7))
  have ap: "apart k3 p [0..<?n]"
    unfolding apart_def
  proof (intro conjI ballI inj_onI)
    fix i j assume ij: "i \<in> set [0..<?n]" "j \<in> set [0..<?n]" and
      eq: "p + of_nat i = p + (of_nat j :: u64)"
    from ij have "i < ?n" "j < ?n" by simp_all
    from pos [OF this(1)] pos [OF this(2)] show "i = j" unfolding eq by linarith
  next
    fix i j assume "i \<in> set [0..<?n]" "j \<in> set [0..<?n]"
    then show "home_at k3 j \<noteq> p + of_nat i"
      using homes int(3) [of i] k3 by (auto simp: homes_ok_def home_at_def)
  qed
  have fl: "\<forall>i\<in>set [0..<?n]. e3_flags (d3_entries ?d0 ! i) = 0"
    using entries_le_max [OF n] by (simp add: cryexts_journal_v3_prepare_descriptor_def zero_e3_def)
  note log = log_payloads_ok [OF lp k3(3) _ ap fl, simplified]
  have dd: "cryexts_journal_v3_finish_descriptor dd = segment_descriptor st sequence p c"
      and wfd: "wf_d3 dd"
    using log entries_le_max [OF n] logged_entry_cong(1) [OF k3(1,2)]
    by (simp_all add: segment_descriptor_def Let_def fold_update_prefix wf_d3_def
        cryexts_journal_v3_prepare_descriptor_def)
  have sum: "seg_payload_checksum seg = segment_checksum st"
    using log seg(2) ne logged_entry_cong(2) [OF k3(1,2)]
    by (cases "?n = 0") (auto simp: segment_checksum_def Let_def)
  note w = write_sync_ok [OF wd v3_finish_descriptor(2) [OF wfd]]
  obtain ctl where ctl: "length ctl = BLOCK_SIZE"
      "cryexts_journal_v3_write_sync (s_journal_block st3) ctl st3 = (Inr (), st')"
    using wc by blast
  note wc' = write_sync_ok [OF ctl(2,1)]
  have jb: "s_journal_block st3 = s_journal_block st"
    using touches_fields(1) [OF w(3)] log touches_fields(1) [of _ k3 st2] k3(4) by metis
  have md: "d_media st' d = enc_d3 (seg_descriptor seg)"
    using touches_media [OF wc'(3), of d] w(1) int(8) by (auto simp: jb seg(1))
  have mp: "d_media st' (p + of_nat i) = bdata st (home_at st i) \<and>
      bdata st' (p + of_nat i) = bdata st (home_at st i)" if i: "i < ?n" for i
  proof -
    have "p + of_nat i \<noteq> d" "p + of_nat i \<noteq> s_journal_block st3"
      using pos [OF i] int(8) by (auto simp: jb word_less_nat_alt)
    then have "d_media st' (p + of_nat i) = d_media st2 (p + of_nat i) \<and>
        bdata st' (p + of_nat i) = bdata st2 (p + of_nat i)"
      using touches_media [OF wc'(3)] touches_media [OF w(3)] touches_bdata [OF wc'(3)]
        touches_bdata [OF w(3)] by simp
    then show ?thesis using log i k3 by (simp add: home_at_def)
  qed
  show ?thesis
    using md mp dd sum seg(1) wc'(4) w(4) log by simp
qed

section \<open>A device that works\<close>

definition working :: "fs \<Rightarrow> bool" where "working st \<longleftrightarrow> (\<forall>n. \<not> d_fault st n)"

lemma working_frame: "dev_frame a b \<Longrightarrow> working a \<Longrightarrow> working b"
  by (simp add: working_def dev_frame_fields)

lemma read_works: "working st \<Longrightarrow>
    cryexts_read_file_block b st = (Inr (bdata st b), st\<lparr>d_tick := Suc (d_tick st)\<rparr>)"
  by (simp add: cryexts_read_file_block_def io_step_def bindE_def getE_def working_def)

lemma write_sync_works:
  assumes "working st"
  obtains st' where "cryexts_journal_v3_write_sync b buf st = (Inr (), st')"
  using assms
  by (fastforce simp: cryexts_journal_v3_write_sync_def cryexts_write_file_block_def io_step_def
      bindE_def modE_def retE_def working_def cryexts_sync_single_block_def sync_dirty_buffer_def
      mark_buffer_dirty_def)

section \<open>Checking and copying a good segment\<close>

text \<open>Entry \<open>i\<close> names a block that may be written, no other entry does, and its payload is good.\<close>

definition good_entry :: "fs \<Rightarrow> u64 \<Rightarrow> cryexts_journal_v3_entry list \<Rightarrow> nat \<Rightarrow> bool" where
  "good_entry st p es i \<longleftrightarrow>
     (let h = e3_home_block (es ! i) in
      h < cryexts_blocks_count st \<and> \<not> cryexts_journal_block_is_internal st h \<and>
      e3_flags (es ! i) = 0 \<and> (\<forall>j<i. e3_home_block (es ! j) \<noteq> h) \<and>
      payload_hash (bdata st (p + of_nat i)) = e3_payload_checksum (es ! i))"

lemma good_entry_tick [simp]: "good_entry (st\<lparr>d_tick := t\<rparr>) p es i = good_entry st p es i"
  by (simp add: good_entry_def cryexts_blocks_count_def cryexts_journal_block_is_internal_def)

lemma validate_payloads_works:
  assumes "working st" and "\<forall>i\<in>set is. good_entry st p es i"
  shows "\<exists>t. v3_validate_payloads dups p es is agg st =
    (Inr (fold (\<lambda>i a. cryexts_fnv1a_update a (bdata st (p + of_nat i)) BLOCK_SIZE) is agg),
     st\<lparr>d_tick := t\<rparr>)"
  using assms
proof (induction "is" arbitrary: agg st)
  case Nil
  then show ?case by (auto simp: retE_def intro: exI [of _ "d_tick st"])
next
  case (Cons i "is")
  let ?st1 = "st\<lparr>d_tick := Suc (d_tick st)\<rparr>"
  have w: "working ?st1" using Cons.prems(1) by (simp add: working_def)
  have g: "\<forall>i\<in>set is. good_entry ?st1 p es i" using Cons.prems(2) by simp
  from Cons.IH [OF w g, of "cryexts_fnv1a_update agg (bdata st (p + of_nat i)) BLOCK_SIZE"]
  show ?case
    using Cons.prems read_works [OF Cons.prems(1), of "p + of_nat i"]
    by (auto simp: good_entry_def Let_def bindE_def list_ex_iff)
qed

lemma copy_steps_work:
  assumes "working st" and "wf_fs st" and "distinct is"
    and "\<forall>i\<in>set is. \<forall>j\<in>set is. i \<noteq> j \<longrightarrow> h i \<noteq> h j"
    and "\<forall>i\<in>set is. \<forall>j\<in>set is. h i \<noteq> p + of_nat j"
  shows "\<exists>st'. eachE (\<lambda>i. bindE (cryexts_read_file_block (p + of_nat i))
        (cryexts_journal_v3_write_sync (h i))) is st = (Inr (), st') \<and>
    (\<forall>i\<in>set is. d_media st' (h i) = bdata st (p + of_nat i)) \<and>
    touches (h ` set is) st st' \<and> wf_fs st'"
  using assms
proof (induction "is" arbitrary: st)
  case Nil
  then show ?case by (simp add: retE_def)
next
  case (Cons i "is")
  let ?st1 = "st\<lparr>d_tick := Suc (d_tick st)\<rparr>" and ?b = "bdata st (p + of_nat i)"
  have "working ?st1" using Cons.prems(1) by (simp add: working_def)
  then obtain st2 where w: "cryexts_journal_v3_write_sync (h i) ?b ?st1 = (Inr (), st2)"
    by (rule write_sync_works)
  note ws = write_sync_ok [OF w length_bdata [OF Cons.prems(2)]]
  have t1: "touches {h i} st ?st1" by (simp add: touches_def dev_frame_upd)
  have t: "touches {h i} st st2" by (rule touches_trans [OF t1 ws(3)])
  have "working st2" by (rule working_frame [OF touches_frame [OF t] Cons.prems(1)])
  moreover have "wf_fs st2" using ws(4) Cons.prems(2) by simp
  ultimately obtain st' where st': "eachE (\<lambda>i. bindE (cryexts_read_file_block (p + of_nat i))
        (cryexts_journal_v3_write_sync (h i))) is st2 = (Inr (), st')"
      and m: "\<forall>j\<in>set is. d_media st' (h j) = bdata st2 (p + of_nat j)"
      and t2: "touches (h ` set is) st2 st'" and wf: "wf_fs st'"
    using Cons.IH [of st2] Cons.prems(3,4,5) by auto
  have same: "bdata st2 (p + of_nat j) = bdata st (p + of_nat j)" if "j \<in> set is" for j
    using touches_bdata [OF t, of "p + of_nat j"] Cons.prems(5) that by force
  have "h i \<notin> h ` set is" using Cons.prems(3,4) by fastforce
  then have "d_media st' (h i) = ?b" using touches_media [OF t2] ws(1) by simp
  moreover have "touches (h ` set (i # is)) st st'"
    by (rule touches_trans [where b = st2]; rule touches_mono, use t t2 in auto)
  ultimately show ?case
    using st' m same wf w read_works [OF Cons.prems(1), of "p + of_nat i"]
    by (auto simp: bindE_def)
qed

section \<open>A committed segment is replayed\<close>

text \<open>
  The state \<open>st3\<close> in which recovery starts after a power cut in \<open>st2\<close>: the journal area reads as
  the medium had it, the superblock describes the same journal, and the device works again.
\<close>

definition rebooted :: "fs \<Rightarrow> fs \<Rightarrow> bool" where
  "rebooted st2 st3 \<longleftrightarrow> working st3 \<and> wf_fs st3 \<and>
     s_journal_block st3 = s_journal_block st2 \<and> s_journal_blocks st3 = s_journal_blocks st2 \<and>
     s_journal_ring st3 = s_journal_ring st2 \<and>
     (\<forall>b. cryexts_journal_block_is_internal st2 b \<longrightarrow> bdata st3 b = d_media st2 b)"

definition txn_ok :: "fs \<Rightarrow> bool" where
  "txn_ok st \<longleftrightarrow> entries_ok st \<and> homes_ok st \<and>
     (\<forall>i < s_journal_entry_count st. home_at st i < cryexts_blocks_count st) \<and>
     (\<forall>i < s_journal_entry_count st. \<forall>j < i. home_at st j \<noteq> home_at st i)"

lemma segment_descriptor_fields:
  fixes sequence p c
  assumes "entries_ok st"
  defines "D \<equiv> segment_descriptor st sequence p c"
  shows "dec_d3 (enc_d3 D) = D" "v3_descriptor_head_ok D" "v3_checksum_ok (d3_checksum D) (enc_d3 D)"
    "d3_entry_count D = of_nat (s_journal_entry_count st)" "d3_payload_start D = p"
    "d3_commit_block D = c" "d3_sequence D = sequence" "d3_flags D = 0"
    "i < s_journal_entry_count st \<Longrightarrow> d3_entries D ! i = logged_entry st i"
proof -
  let ?d = "(cryexts_journal_v3_prepare_descriptor (of_nat (s_journal_entry_count st)) sequence p c)
    \<lparr>d3_entries := map (logged_entry st) [0..<s_journal_entry_count st] @
      replicate (CRYEXTS_JOURNAL_V3_MAX_ENTRIES - s_journal_entry_count st) zero_e3\<rparr>"
  have wf: "wf_d3 ?d"
    using entries_le_max [OF assms(1)] by (simp add: wf_d3_def cryexts_journal_v3_prepare_descriptor_def)
  have D: "D = cryexts_journal_v3_finish_descriptor ?d"
    by (simp add: D_def segment_descriptor_def Let_def)
  show "dec_d3 (enc_d3 D) = D" "v3_checksum_ok (d3_checksum D) (enc_d3 D)"
    unfolding D v3_checksum_ok_def by (rule v3_finish_descriptor [OF wf])+
  show "v3_descriptor_head_ok D" "d3_entry_count D = of_nat (s_journal_entry_count st)"
    "d3_payload_start D = p" "d3_commit_block D = c" "d3_sequence D = sequence" "d3_flags D = 0"
    "i < s_journal_entry_count st \<Longrightarrow> d3_entries D ! i = logged_entry st i"
    by (simp_all add: D cryexts_journal_v3_finish_descriptor_def v3_descriptor_head_ok_def
        cryexts_journal_v3_prepare_descriptor_def nth_append)
qed

lemma replay_home_works:
  assumes w: "working st" and wf: "wf_fs st"
    and dist: "\<forall>i < unat n. \<forall>j<i. e3_home_block (es ! j) \<noteq> e3_home_block (es ! i)"
    and away: "\<forall>i < unat n. \<forall>j<unat n. e3_home_block (es ! i) \<noteq> p + of_nat j"
  shows "\<exists>st'. v3_replay_home p es n st = (Inr (), st') \<and>
    (\<forall>i < unat n. d_media st' (e3_home_block (es ! i)) = bdata st (p + of_nat i))"
proof -
  let ?st = "st\<lparr>s_journal_replaying := True\<rparr>" and ?is = "[0..<unat n]"
  let ?h = "\<lambda>i. e3_home_block (es ! i)"
  have "\<forall>i\<in>set ?is. \<forall>j\<in>set ?is. i \<noteq> j \<longrightarrow> ?h i \<noteq> ?h j"
    using dist by (auto simp: neq_iff)
  moreover have "working ?st" "wf_fs ?st" "bdata ?st = bdata st"
    using w wf by (simp_all add: working_def wf_fs_def bdata_def fun_eq_iff)
  ultimately obtain st' where "v3_copy_home p es n ?st = (Inr (), st')"
      "\<forall>i\<in>set ?is. d_media st' (?h i) = bdata st (p + of_nat i)"
    using copy_steps_work [of ?st ?is ?h p] away by (auto simp: v3_copy_home_def)
  then show ?thesis by (simp add: v3_replay_home_def finallyE_def)
qed

lemma segment_entries_good:
  assumes txn: "txn_ok st" and geo: "cryexts_blocks_count st3 = cryexts_blocks_count st"
      "\<And>b. cryexts_journal_block_is_internal st3 b = cryexts_journal_block_is_internal st b"
    and data: "\<And>i. i < s_journal_entry_count st \<Longrightarrow> bdata st3 (p + of_nat i) = bdata st (home_at st i)"
    and i: "i < s_journal_entry_count st"
  shows "good_entry st3 p (d3_entries (segment_descriptor st sequence p c)) i"
proof -
  have n: "entries_ok st" using txn by (simp add: txn_ok_def)
  note D = segment_descriptor_fields(9) [OF n]
  have "\<forall>j<i. home_at st j \<noteq> home_at st i" using txn i by (simp add: txn_ok_def)
  then show ?thesis
    using txn i by (auto simp: good_entry_def Let_def D logged_entry_def geo data txn_ok_def homes_ok_def)
qed

text \<open>What is on the medium once the commit block is: the commit block itself and the segment.\<close>

lemma committed_segment:
  assumes wf: "wf_fs st" and ok: "journal_ok st" and txn: "txn_ok st"
    and log: "v3_commit_log sequence st = (Inr seg, st1)"
    and commit: "v3_write_commit sequence seg st1 = (Inr (), st2)"
  shows "d_media st2 (seg_descriptor_block seg) = enc_d3 (segment_descriptor st sequence
           (seg_payload_start seg) (seg_commit_block seg))"
    and "d_media st2 (seg_commit_block seg) = cryexts_journal_v3_prepare_commit
           (of_nat (s_journal_entry_count st)) sequence
           (d3_checksum (segment_descriptor st sequence (seg_payload_start seg) (seg_commit_block seg)))
           (segment_checksum st) True (seg_descriptor_block seg)"
    and "i < s_journal_entry_count st \<Longrightarrow>
         d_media st2 (seg_payload_start seg + of_nat i) = bdata st (home_at st i) \<and>
         bdata st2 (seg_payload_start seg + of_nat i) = bdata st (home_at st i)"
    and "s_journal_block st2 = s_journal_block st" "s_journal_blocks st2 = s_journal_blocks st"
      "s_journal_ring st2 = s_journal_ring st"
proof -
  let ?d = "seg_descriptor_block seg" and ?p = "seg_payload_start seg" and ?c = "seg_commit_block seg"
  have n: "entries_ok st" and homes: "homes_ok st" using txn by (simp_all add: txn_ok_def)
  note L = commit_log_ok [OF log wf ok n homes]
  obtain h where al: "cryexts_journal_v3_ring_allocate st (of_nat (s_journal_entry_count st)) =
        Inr (?d, ?p, ?c, h)" and es: "seg_entries seg = of_nat (s_journal_entry_count st)"
    using commit_log_result [OF log] by blast
  note ne = entries_ok_count [OF n]
  note int = segment_internal [OF ok _ al, unfolded ne]
  have cap: "s_journal_entry_count st \<le> unat (cryexts_journal_v3_payload_capacity st)"
    using n by (simp add: entries_ok_def)
  have w: "cryexts_journal_v3_write_sync ?c (cryexts_journal_v3_prepare_commit (seg_entries seg)
      sequence (d3_checksum (seg_descriptor seg)) (seg_payload_checksum seg) True ?d) st1 = (Inr (), st2)"
    using commit by (simp add: v3_write_commit_def)
  note W = write_sync_ok [OF w v3_prepare_commit_length]
  show "d_media st2 ?c = cryexts_journal_v3_prepare_commit (of_nat (s_journal_entry_count st)) sequence
      (d3_checksum (segment_descriptor st sequence ?p ?c)) (segment_checksum st) True ?d"
    using W(1) L es by simp
  have dc: "?d \<noteq> ?c" using int(6) [OF cap] by auto
  then show "d_media st2 ?d = enc_d3 (segment_descriptor st sequence ?p ?c)"
    using L touches_media [OF W(3), of ?d] by simp
  show "d_media st2 (?p + of_nat i) = bdata st (home_at st i) \<and>
      bdata st2 (?p + of_nat i) = bdata st (home_at st i)" if "i < s_journal_entry_count st"
  proof -
    have "?p + of_nat i \<noteq> ?c" using int(6) [OF cap] int(7) [OF cap that] that by auto
    then show ?thesis
      using L that touches_media [OF W(3), of "?p + of_nat i"]
        touches_bdata [OF W(3), of "?p + of_nat i"] by simp
  qed
  obtain st0 where "touches (journal_area st) st0 st1"
      "st0 = st \<or> (\<exists>d h. st0 = v3_set_ring_pointers d h st)"
    using commit_log_touches [OF ok, of sequence] cap ne log by auto
  then show "s_journal_block st2 = s_journal_block st" "s_journal_blocks st2 = s_journal_blocks st"
      "s_journal_ring st2 = s_journal_ring st"
    using touches_fields(1-3) [OF W(3)] touches_fields(1-3) [of "journal_area st" st0 st1]
    by auto
qed

lemma ring_tick [simp]:
  "v3_ring_next (st\<lparr>d_tick := t\<rparr>) c = v3_ring_next st c"
  "v3_ring_descriptor_ok (st\<lparr>d_tick := t\<rparr>) b q buf = v3_ring_descriptor_ok st b q buf"
  by (simp_all add: v3_ring_next_def v3_ring_descriptor_ok_def cryexts_journal_v3_ring_end_def
      cryexts_journal_v3_ring_start_def cryexts_journal_v3_payload_capacity_def)


end
