(* ===== verification/JournalCrash.thy ===== *)
theory JournalCrash
  imports JournalRedo
begin

text \<open>
  Power cuts: the state from which a machine restarts, and that a working device lets a commit
  through, so that the theorem on replaying a committed transaction applies.
\<close>

section \<open>Blocks keep their size\<close>

definition wf_disk :: "fs \<Rightarrow> bool" where
  "wf_disk st \<longleftrightarrow> wf_fs st \<and> (\<forall>b. length (d_media st b) = BLOCK_SIZE)"

lemma wf_disk_tick [simp]: "wf_disk (st\<lparr>d_tick := t\<rparr>) = wf_disk st"
  by (simp add: wf_disk_def)

lemma wf_io_step: "keeps wf_disk (io_step e)"
  by (simp add: keeps_def io_step_def)

lemma wf_write: "length buf = BLOCK_SIZE \<Longrightarrow> keeps wf_disk (cryexts_write_file_block b buf)"
  unfolding cryexts_write_file_block_def
  by (intro keep wf_io_step) (simp add: wf_disk_def wf_fs_set_bdata mark_buffer_dirty_def)

lemma wf_sync_dirty: "keeps wf_disk (sync_dirty_buffer b)"
  unfolding keeps_def
  by (auto simp: sync_dirty_buffer_def io_step_def wf_disk_def length_bdata wf_fs_def
      split: prod.splits sum.splits if_splits)

lemma wf_write_sync:
  "length buf = BLOCK_SIZE \<Longrightarrow> keeps wf_disk (cryexts_journal_v3_write_sync b buf)"
  unfolding cryexts_journal_v3_write_sync_def cryexts_sync_single_block_def
  by (intro keep; clarsimp) (auto intro!: keep wf_write wf_io_step wf_sync_dirty)

lemma wf_log_payloads: "keeps wf_disk (v3_log_payloads p is d agg)"
proof (induction "is" arbitrary: d agg)
  case Nil
  then show ?case by (simp add: keep)
next
  case (Cons i "is")
  show ?case
    unfolding keeps_def
  proof (intro allI impI)
    fix st assume wf: "wf_disk st"
    let ?h = "s_journal_home_blocks st ! i"
    show "wf_disk (snd (v3_log_payloads p (i # is) d agg st))"
    proof (cases "cryexts_read_file_block ?h st")
      case (Pair r st1)
      show ?thesis
      proof (cases r)
        case (Inl e)
        then show ?thesis using Pair wf
          by (auto simp: bindE_def Let_def cryexts_read_file_block_def io_step_def getE_def split: if_splits)
      next
        case (Inr buf)
        then have buf: "buf = bdata st ?h" "st1 = st\<lparr>d_tick := Suc (d_tick st)\<rparr>"
          using read_ok Pair by auto
        have len: "length buf = BLOCK_SIZE" using wf by (simp add: buf wf_disk_def length_bdata)
        have k: "keeps wf_disk (bindE (cryexts_journal_v3_write_sync (p + of_nat i) buf)
            (\<lambda>_. v3_log_payloads p is d' a))" for d' a
          by (intro keep wf_write_sync len Cons)
        show ?thesis using keepsD [OF k] Pair Inr wf
          by (simp add: bindE_def [of "cryexts_read_file_block ?h"] Let_def buf)
      qed
    qed
  qed
qed

section \<open>With a working device a transaction is logged\<close>

definition good :: "fs \<Rightarrow> bool" where "good st \<longleftrightarrow> working st \<and> wf_disk st"

lemma good_tick [simp]: "good (st\<lparr>d_tick := t\<rparr>) = good st"
  by (simp add: good_def working_def)

lemma write_sync_good:
  assumes "good st" and len: "length buf = BLOCK_SIZE"
  obtains st' where "cryexts_journal_v3_write_sync b buf st = (Inr (), st')" "good st'"
proof -
  have w: "working st" "wf_disk st" using assms by (simp_all add: good_def)
  obtain st' where st': "cryexts_journal_v3_write_sync b buf st = (Inr (), st')"
    by (rule write_sync_works [OF w(1)])
  have "working st'" by (rule working_frame [OF touches_frame [OF write_sync_ok(3) [OF st' len]] w(1)])
  moreover have "wf_disk st'" by (rule keeps_result [OF wf_write_sync [OF len] st' w(2)])
  ultimately show thesis using that st' by (simp add: good_def)
qed

lemma log_payloads_good:
  "good st \<Longrightarrow> wf_d3 d \<Longrightarrow>
   \<exists>d' agg' st'. v3_log_payloads p is d agg st = (Inr (d', agg'), st') \<and> good st' \<and> wf_d3 d'"
proof (induction "is" arbitrary: d agg st)
  case Nil
  then show ?case by (simp add: retE_def)
next
  case (Cons i "is")
  let ?h = "s_journal_home_blocks st ! i" and ?st1 = "st\<lparr>d_tick := Suc (d_tick st)\<rparr>"
  have w: "working st" and wf: "wf_fs st" using Cons.prems(1) by (simp_all add: good_def wf_disk_def)
  obtain st2 where st2: "cryexts_journal_v3_write_sync (p + of_nat i) (bdata st ?h) ?st1 = (Inr (), st2)"
      and g2: "good st2"
    using write_sync_good [of ?st1 "bdata st ?h"] Cons.prems(1) length_bdata [OF wf] by auto
  show ?case
    using st2 Cons.IH [OF g2] Cons.prems(2) read_works [OF w, of ?h]
    by (simp add: bindE_def Let_def wf_d3_def)
qed

lemma kmalloc_good: "good st \<Longrightarrow> kmalloc st = (Inr (), st\<lparr>d_tick := Suc (d_tick st)\<rparr>)"
  by (simp add: kmalloc_def io_step_def good_def working_def)

lemma commit_log_good:
  assumes g: "good st"
    and al: "cryexts_journal_v3_ring_allocate st (of_nat (s_journal_entry_count st)) = Inr (d, p, c, h)"
  shows "\<exists>seg st'. v3_commit_log sequence st = (Inr seg, st') \<and> good st' \<and>
    seg_descriptor_block seg = d \<and> seg_payload_start seg = p \<and> seg_commit_block seg = c"
proof -
  let ?stR = "v3_set_ring_pointers d h st" and ?e = "of_nat (s_journal_entry_count st) :: u32"
  have gR: "good ?stR"
    using g by (simp add: good_def wf_disk_def working_def v3_set_ring_pointers_def wf_fs_def)
  let ?st3 = "?stR\<lparr>d_tick := Suc (Suc (Suc (d_tick ?stR)))\<rparr>"
  obtain dd agg st4 where log: "v3_log_payloads p [0..<unat ?e]
        (cryexts_journal_v3_prepare_descriptor ?e sequence p c) FNV_OFFSET ?st3 = (Inr (dd, agg), st4)"
      and g4: "good st4" and wfd: "wf_d3 dd"
    using log_payloads_good [of ?st3, OF _ wf_v3_prepare_descriptor] gR by fastforce
  obtain st5 where w5: "cryexts_journal_v3_write_sync d
        (enc_d3 (cryexts_journal_v3_finish_descriptor dd)) st4 = (Inr (), st5)" and g5: "good st5"
    by (rule write_sync_good [OF g4 v3_finish_descriptor(2) [OF wfd]])
  obtain st6 where w6: "cryexts_journal_v3_write_sync (s_journal_block st5)
        (cryexts_journal_v3_prepare_control st5 CRYEXTS_JOURNAL_V3_STATE_PREPARED
           (s_journal_sequence st) sequence (s_journal_checkpoint_sequence st) d p (ucast ?e) c) st5
        = (Inr (), st6)" and g6: "good st6"
    by (rule write_sync_good [OF g5 v3_prepare_control_length])
  show ?thesis
    using al log w5 w6 g6 gR
    by (simp add: v3_commit_log_def Let_def bindE_def modE_def kmalloc_good retE_def)
qed

lemma write_commit_good:
  "good st \<Longrightarrow> \<exists>st'. v3_write_commit sequence seg st = (Inr (), st') \<and> good st'"
  using write_sync_good [of st _ "seg_commit_block seg", OF _ v3_prepare_commit_length]
  unfolding v3_write_commit_def by metis

section \<open>A power cut\<close>

text \<open>
  The machine restarts: the cache is empty, so that reads see the medium, block 0 included; the
  superblock fields of memory are loaded again.  Only the fields that recovery reads are spelt
  out; the device works again.
\<close>

definition power_cut :: "fs \<Rightarrow> fs" where
  "power_cut st =
     st\<lparr>d_cache := d_media st, d_dirty := [],
        s_disk_sb := dec_super (get_bytes (d_media st 0) CRYEXTS_SUPER_OFFSET SUPER_BYTES),
        d_fault := (\<lambda>_. False)\<rparr>"

lemma bdata_power_cut: "wf_disk st \<Longrightarrow> bdata (power_cut st) b = d_media st b"
  using super_fits
  by (auto simp: bdata_def power_cut_def wf_disk_def enc_dec_super length_get_bytes put_get_bytes_same)

lemma wf_power_cut: "wf_disk st \<Longrightarrow> wf_fs (power_cut st)"
  using super_fits by (simp add: wf_fs_def power_cut_def wf_disk_def wf_dec_super length_get_bytes)

lemma rebooted_power_cut: "wf_disk st \<Longrightarrow> rebooted st (power_cut st)"
  by (simp add: rebooted_def wf_power_cut bdata_power_cut)
    (simp add: power_cut_def working_def)

definition sample_txn :: fs where
  "sample_txn = sample_ring\<lparr>s_journal_ring_tail := 510, s_journal_ring_head := 510,
     s_journal_entry_count := 1, s_journal_home_blocks := (replicate 504 0)[0 := 30],
     d_cache := (\<lambda>_. zero_block)(30 := replicate BLOCK_SIZE 7)\<rparr>"

lemma sample_txn_facts:
  "good sample_txn" "journal_ok sample_txn" "s_journal_ring sample_txn" "txn_ok sample_txn"
  "cryexts_journal_v3_ring_allocate sample_txn (of_nat (s_journal_entry_count sample_txn)) =
     Inr (510, 511, 512, 513)"
proof -
  have cap: "cryexts_journal_v3_payload_capacity sample_txn = 61"
    by (simp add: cryexts_journal_v3_payload_capacity_def sample_txn_def sample_ring_eval
        CRYEXTS_JOURNAL_V3_MIN_BLOCKS_def CRYEXTS_JOURNAL_V3_MAX_ENTRIES_def BLOCK_SIZE_def)
  show "good sample_txn"
    using sample_wf by (simp add: good_def working_def wf_disk_def wf_fs_def sample_txn_def
        sample_ring_def sample_fs_def zero_block_def)
  show "s_journal_ring sample_txn" by (simp add: sample_txn_def sample_ring_def)
  show "journal_ok sample_txn"
    by (simp add: journal_ok_def ring_ok_def sample_txn_def sample_ring_eval
        CRYEXTS_JOURNAL_V3_MIN_BLOCKS_def)
  show "txn_ok sample_txn"
    by (simp add: txn_ok_def entries_ok_def cap homes_ok_def home_at_def)
      (simp add: sample_txn_def sample_ring_eval cryexts_journal_block_is_internal_def
        cryexts_blocks_count_def sample_sb_def)
  show "cryexts_journal_v3_ring_allocate sample_txn (of_nat (s_journal_entry_count sample_txn)) =
     Inr (510, 511, 512, 513)"
    by (simp add: sample_txn_def sample_ring_eval)
qed


section \<open>The safety theorems on the sample\<close>

lemma sample_txn_entries: "entries_ok sample_txn"
  using sample_txn_facts(4) by (simp add: txn_ok_def)

lemma sample_home_outside: "\<not> cryexts_journal_block_is_internal sample_txn 30"
  by (simp add: cryexts_journal_block_is_internal_def sample_txn_def sample_ring_def sample_fs_def)

lemma sample_txn_media: "d_media sample_txn b = zero_block"
  by (simp add: sample_txn_def sample_ring_def sample_fs_def)




theorem refused_untouched_witness:
  "\<exists>st'. v3_replay_segment 513 510 7 sample_txn = (Inl EUCLEAN, st') \<and>
    d_media st' = d_media sample_txn"
proof -
  have "bdata sample_txn 510 = zero_block"
    by (simp add: bdata_def sample_txn_def)
  moreover have "d3_magic (dec_d3 zero_block) \<noteq> CRYEXTS_JOURNAL_V3_MAGIC"
    by (simp add: dec_d3_def get32_def get_bytes_def zero_block_def BLOCK_SIZE_def
        CRYEXTS_JOURNAL_V3_MAGIC_def le_word_zeros)
  moreover have "working sample_txn" using sample_txn_facts(1) by (simp add: good_def)
  ultimately obtain st' where r: "v3_replay_segment 513 510 7 sample_txn = (Inl EUCLEAN, st')"
    using read_works [of sample_txn 510]
    by (simp add: v3_replay_segment_def bindE_def checkE_def Let_def v3_ring_descriptor_ok_def
        v3_descriptor_head_ok_def)
  then show ?thesis using refused_untouched [OF r] by auto
qed

end
