(* ===== verification/JournalFixed.thy ===== *)
theory JournalFixed
  imports JournalCrash
begin

text \<open>
  The fixed (not ring) version 3 journal across a remount: the control block that a commit leaves
  behind has the number of payloads of the last transaction where recovery expects the size of
  the payload area.
\<close>

definition geo :: "fs \<Rightarrow> fs \<Rightarrow> bool" where
  "geo a s \<longleftrightarrow> s_journal_block s = s_journal_block a \<and> s_journal_blocks s = s_journal_blocks a \<and>
     s_journal_ring s = s_journal_ring a"

lemma keeps_geo: "(\<And>st0. keeps (touches UNIV st0) m) \<Longrightarrow> keeps (geo st) m"
  by (rule keeps_of_touches) (auto simp: geo_def dev_frame_fields)

lemma geo_control [keep]: "keeps (geo st0) (v3_write_control seg s l a c)"
  unfolding v3_write_control_def by (rule keeps_geo) (rule keeps_control, simp)

lemma geo_write_sync [keep]: "keeps (geo st0) (cryexts_journal_v3_write_sync b buf)"
  by (rule keeps_geo) (rule keeps_v3_write_sync, simp)

lemma geo_sync_single [keep]: "keeps (geo st0) (cryexts_sync_single_block b)"
  by (rule keeps_geo) (rule keeps_sync_single, simp)

lemma geo_read [keep]: "keeps (geo st0) (cryexts_read_file_block b)"
  by (rule keeps_geo) (rule keeps_read)

lemma geo_checkpoint_home [keep]: "keeps (geo st0) (v3_checkpoint_home seg)"
  unfolding v3_checkpoint_home_def
proof (intro keep)
  fix i buf
  show "keeps (geo st0) (\<lambda>st. if payload_hash buf \<noteq> x then (Inl EUCLEAN, st)
      else cryexts_journal_v3_write_sync (s_journal_home_blocks st ! i) buf st)" for x
    by (rule keeps_at) (auto intro!: keepsD [OF geo_write_sync])
qed

lemma geo_write_empty [keep]: "keeps (geo st0) (v3_write_empty q d p c)"
  unfolding v3_write_empty_def Let_def by (rule keeps_runE) (auto intro!: keep)

lemma geo_clear_recovery: "geo st0 s \<Longrightarrow> geo st0 (clear_recovery_unrecorded s)"
  by (simp add: geo_def)

lemma geo_core: "core_frame a b \<Longrightarrow> geo st a \<Longrightarrow> geo st b"
  by (simp add: geo_def core_frame_fields)

lemma geo_prepare:
  assumes res: "v3_commit_prepare q st = (Inr seg, st')" and ok: "journal_ok st" and n: "entries_ok st"
  shows "geo st st'" and "unat (seg_entries seg) \<le> unat (cryexts_journal_v3_payload_capacity st)"
proof -
  obtain st1 st2 where c: "core_frame st st1" "st2 = st1 \<or> (\<exists>d h. st2 = v3_set_ring_pointers d h st1)"
      and t: "touches (journal_area st) st2 st'"
    using commit_prepare_effect [OF ok n, of q] res by auto
  have "geo st st2" using c geo_core [OF c(1), of st] by (auto simp: geo_def)
  then show "geo st st'" using t by (simp add: geo_def touches_fields)
  let ?st1 = "cryexts_super_set_recovery True (cryexts_gdt_prepare_write
    (upd_disk_sb (\<lambda>sb. sb\<lparr>sb_journal_sequence := q\<rparr>) st))"
  have c1: "core_frame st ?st1"
    by (intro core_frame_recovery core_frame_gdt core_frame_basic core_frame_refl)
  have n1: "entries_ok ?st1" using n by (simp add: entries_ok_set_recovery entries_ok_gdt)
  have "v3_commit_log q ?st1 = (Inr seg, st')"
    using res by (simp add: v3_commit_prepare_def Let_def split: option.splits)
  from commit_log_result [OF this] have "seg_entries seg = of_nat (s_journal_entry_count ?st1)" by blast
  then show "unat (seg_entries seg) \<le> unat (cryexts_journal_v3_payload_capacity st)"
    using entries_ok_count [OF n1] n1 capacity_core [OF c1] by (simp add: entries_ok_def)
qed

text \<open>The control block after a successful commit.\<close>

lemma commit_fixed_control:
  assumes res: "v3_commit_fixed q seg st = (Inr (), st')" and geo: "geo st0 st"
  obtains s where "geo st0 s" and "d_media st' (s_journal_block st0) =
    cryexts_journal_v3_prepare_control s CRYEXTS_JOURNAL_V3_STATE_IDLE q 0 q
      (seg_descriptor_block seg) (seg_payload_start seg) (ucast (seg_entries seg))
      (seg_commit_block seg)"
proof -
  obtain s1 s2 s3 s4 s5 s6 where
      1: "v3_write_control seg CRYEXTS_JOURNAL_V3_STATE_CHECKPOINTING q q (s_journal_sequence st) st
            = (Inr (), s1)"
      and 2: "v3_checkpoint_home seg s1 = (Inr (), s2)" and 3: "s3 = clear_recovery_unrecorded s2"
      and 4: "cryexts_sync_single_block 0 s3 = (Inr (), s4)"
      and 5: "v3_write_empty q (seg_descriptor_block seg) (seg_payload_start seg)
                (seg_commit_block seg) s4 = (Inr (), s5)"
      and 6: "v3_write_control seg CRYEXTS_JOURNAL_V3_STATE_IDLE q 0 q s5 = (Inr (), s6)"
      and st': "d_media st' = d_media s6"
    using res by (fastforce simp: v3_commit_fixed_def bindE_eq_Inr modE_def retE_def)
  have g: "geo st0 s5"
    by (rule keeps_result [OF geo_write_empty 5], rule keeps_result [OF geo_sync_single 4],
        unfold 3, rule geo_clear_recovery, rule keeps_result [OF geo_checkpoint_home 2],
        rule keeps_result [OF geo_control 1], rule geo)
  have jb: "s_journal_block s5 = s_journal_block st0" using g by (simp add: geo_def)
  show thesis
    by (rule that [OF g])
      (use write_sync_ok(1) [OF 6 [unfolded v3_write_control_def] v3_prepare_control_length]
        in \<open>simp add: st' jb\<close>)
qed

lemma keeps_kmalloc4: "keeps (touches S st0) kmalloc4"
  unfolding kmalloc4_def by (rule keeps_runE) (auto intro!: keep)

lemma replay_control_refuses:
  assumes "\<not> s_journal_ring s" and "c3_payload_blocks (dec_c3 buf) \<noteq> cryexts_journal_v2_payload_area_blocks s"
  shows "v3_replay_control_fixed buf s = (Inl EUCLEAN, s)"
  using assms by (simp add: v3_replay_control_fixed_def Let_def)

text \<open>C17: on a fixed version 3 journal of more than 254 blocks (the default
  is 512) every successful commit leaves a control block that the recovery of the next mount
  refuses: a mount after a commit never succeeds.\<close>

theorem fixed_remount_refused:
  assumes ok: "journal_ok st" and n: "entries_ok st" and fixed: "\<not> s_journal_ring st"
    and large: "254 < s_journal_blocks st"
    and commit: "cryexts_journal_v3_commit st = (Inr (), st')"
    and mount: "geo st s" "bdata s (s_journal_block s) = d_media st' (s_journal_block s)"
  shows "fst (cryexts_journal_v3_replay s) \<noteq> Inr ()"
proof -
  let ?q = "s_journal_active_sequence st"
  obtain seg st1 stx where p: "v3_commit_prepare ?q st = (Inr seg, st1)"
    and m: "bindE (v3_write_commit ?q seg) (\<lambda>_ st. if s_journal_ring st then v3_commit_ring ?q seg st
               else v3_commit_fixed ?q seg st) st1 = (Inr (), stx)"
    and st': "d_media st' = d_media stx"
    using commit
    by (fastforce simp: cryexts_journal_v3_commit_def Let_def journal_unlock_def
        split: option.splits prod.splits sum.splits)
  note gp = geo_prepare [OF p ok n]
  obtain st2 where w: "v3_write_commit ?q seg st1 = (Inr (), st2)"
      and f: "(if s_journal_ring st2 then v3_commit_ring ?q seg st2 else v3_commit_fixed ?q seg st2)
              = (Inr (), stx)"
    using m by (auto simp: bindE_eq_Inr)
  have g2: "geo st st2"
    by (rule keeps_result [OF geo_write_sync w [unfolded v3_write_commit_def] gp(1)])
  then have "v3_commit_fixed ?q seg st2 = (Inr (), stx)" using f fixed by (simp add: geo_def)
  then obtain s' where ctl: "d_media stx (s_journal_block st) =
      cryexts_journal_v3_prepare_control s' CRYEXTS_JOURNAL_V3_STATE_IDLE ?q 0 ?q
        (seg_descriptor_block seg) (seg_payload_start seg) (ucast (seg_entries seg)) (seg_commit_block seg)"
    using commit_fixed_control [OF _ g2] by blast
  have buf: "bdata s (s_journal_block s) = d_media stx (s_journal_block st)"
    using mount st' by (simp add: geo_def)
  have "unat (seg_entries seg) \<le> 251"
    using gp(2) capacity_nat(2) [of st] by (simp add: CRYEXTS_JOURNAL_V3_MAX_ENTRIES_def BLOCK_SIZE_def)
  moreover have "cryexts_journal_v2_payload_area_blocks s = s_journal_blocks st - 3"
    using mount(1) large by (auto simp: cryexts_journal_v2_payload_area_blocks_def geo_def
        CRYEXTS_JOURNAL_V2_MIN_BLOCKS_def word_less_nat_alt)
  moreover have "unat (s_journal_blocks st - 3) = unat (s_journal_blocks st) - 3"
      "254 < unat (s_journal_blocks st)"
    using large by (auto simp: unat_sub_if' word_less_nat_alt)
  ultimately have diff: "ucast (seg_entries seg) \<noteq> cryexts_journal_v2_payload_area_blocks s"
    by (auto simp: word_unat_eq_iff unat_ucast32)
  have c3: "c3_payload_blocks (dec_c3 (bdata s (s_journal_block s))) = ucast (seg_entries seg)"
    unfolding buf ctl by (simp add: v3_prepare_control_dec)
  have refuse: "v3_replay_control_fixed (bdata s (s_journal_block s)) sx = (Inl EUCLEAN, sx)"
    if "geo st sx" for sx
  proof (rule replay_control_refuses)
    show "\<not> s_journal_ring sx" using that fixed by (simp add: geo_def)
    show "c3_payload_blocks (dec_c3 (bdata s (s_journal_block s))) \<noteq>
        cryexts_journal_v2_payload_area_blocks sx"
    proof -
      have "s_journal_blocks sx = s_journal_blocks s" using that mount(1) by (simp add: geo_def)
      then show ?thesis
        using diff unfolding c3 cryexts_journal_v2_payload_area_blocks_def
        by (simp only: not_False_eq_True)
    qed
  qed
  have ring: "\<not> s_journal_ring s" using mount(1) fixed by (simp add: geo_def)
  show ?thesis
  proof (cases "kmalloc4 s")
    case (Pair r s1)
    have t1: "touches {} s s1"
      by (rule keeps_result [OF keeps_kmalloc4 Pair touches_refl])
    then have g1: "geo st s1" and jb: "s_journal_block s1 = s_journal_block s"
        and b1: "bdata s1 (s_journal_block s) = bdata s (s_journal_block s)"
      using mount(1) touches_bdata [OF t1] by (simp_all add: geo_def touches_fields)
    obtain rr s2 where rd: "cryexts_read_file_block (s_journal_block s) s1 = (rr, s2)" by fastforce
    have "geo st s2" by (rule keeps_result [OF geo_read rd g1])
    then show ?thesis
      using Pair rd ring jb b1 refuse [of s2]
      by (cases r; cases rr)
        (auto simp: cryexts_journal_v3_replay_def finallyE_def bindE_def dest: read_ok)
  qed
qed

end
