(* ===== verification/JournalTxn.thy ===== *)
theory JournalTxn
  imports JournalCrash
begin

text \<open>
  The running transaction of the version 3 journal: what recording a block keeps, the state that
  the in-memory part of a commit starts the log from, and the journal lock.
\<close>

section \<open>Recording\<close>

text \<open>The list of recorded blocks is one the commit can log, in an array of its full size.\<close>

definition txn_inv :: "fs \<Rightarrow> bool" where
  "txn_inv st \<longleftrightarrow> txn_ok st \<and> length (s_journal_home_blocks st) = CRYEXTS_JOURNAL_MAX_ENTRIES"

lemma capacity_bound: "unat (cryexts_journal_v3_payload_capacity st) < CRYEXTS_JOURNAL_MAX_ENTRIES"
  using capacity_nat(2) [of st]
  by (simp add: CRYEXTS_JOURNAL_V3_MAX_ENTRIES_def CRYEXTS_JOURNAL_MAX_ENTRIES_def BLOCK_SIZE_def)

lemma txn_inv_length: "txn_inv st \<Longrightarrow> s_journal_entry_count st < length (s_journal_home_blocks st)"
  using capacity_bound [of st] by (simp add: txn_inv_def txn_ok_def entries_ok_def)

lemma txn_blocks_nth:
  "txn_inv st \<Longrightarrow> i < s_journal_entry_count st \<Longrightarrow> txn_blocks st ! i = home_at st i"
  by (simp add: txn_blocks_def home_at_def)

lemma in_txn_blocks:
  "txn_inv st \<Longrightarrow> b \<in> set (txn_blocks st) \<longleftrightarrow> (\<exists>i < s_journal_entry_count st. home_at st i = b)"
  using txn_inv_length [of st] by (auto simp: txn_blocks_def home_at_def in_set_conv_nth)

lemma txn_inv_append:
  assumes inv: "txn_inv st" and b: "b < cryexts_blocks_count st" "\<not> cryexts_journal_block_is_internal st b"
    and new: "b \<notin> set (txn_blocks st)"
    and room: "s_journal_entry_count st < unat (cryexts_journal_v3_payload_capacity st)"
  defines "st' \<equiv> st\<lparr>s_journal_home_blocks := (s_journal_home_blocks st)[s_journal_entry_count st := b],
    s_journal_entry_count := Suc (s_journal_entry_count st)\<rparr>"
  shows "txn_inv st'" "txn_blocks st' = txn_blocks st @ [b]"
proof -
  let ?n = "s_journal_entry_count st"
  note len = txn_inv_length [OF inv]
  have cap: "cryexts_journal_v3_payload_capacity st' = cryexts_journal_v3_payload_capacity st"
    by (simp add: cryexts_journal_v3_payload_capacity_def st'_def)
  have at: "home_at st' i = (if i = ?n then b else home_at st i)" if "i < Suc ?n" for i
    using that len by (auto simp: home_at_def st'_def nth_list_update)
  have int: "cryexts_journal_block_is_internal st' = cryexts_journal_block_is_internal st"
      "cryexts_blocks_count st' = cryexts_blocks_count st" "s_journal_entry_count st' = Suc ?n"
    by (simp_all add: fun_eq_iff cryexts_journal_block_is_internal_def cryexts_blocks_count_def st'_def)
  have old: "home_at st i \<noteq> b" if "i < ?n" for i using new that in_txn_blocks [OF inv] by auto
  have "length (s_journal_home_blocks st') = length (s_journal_home_blocks st)" by (simp add: st'_def)
  then show "txn_inv st'"
    using inv room b old
    by (auto simp: txn_inv_def txn_ok_def entries_ok_def homes_ok_def cap int at less_Suc_eq)
  show "txn_blocks st' = txn_blocks st @ [b]"
    using len by (simp add: txn_blocks_def st'_def take_Suc_conv_app_nth)
qed

text \<open>An error of the transaction does not matter to its blocks.\<close>

lemma txn_inv_error [simp]:
  "txn_inv (st\<lparr>s_journal_error := e\<rparr>) = txn_inv st"
  "txn_blocks (st\<lparr>s_journal_error := e\<rparr>) = txn_blocks st"
  by (simp_all add: txn_inv_def txn_ok_def entries_ok_def homes_ok_def home_at_def txn_blocks_def
      cryexts_blocks_count_def cryexts_journal_block_is_internal_def
      cryexts_journal_v3_payload_capacity_def)

lemma record_block_step:
  fixes b e
  assumes inv: "txn_inv st" and active: "s_journal_active_sequence st \<noteq> 0"
  defines "st' \<equiv> ignoreE (cryexts_journal_v3_record_block b) st"
  shows "txn_inv st'" "s_journal_active_sequence st' \<noteq> 0" "d_media st' = d_media st"
    and "s_journal_error st = Some e \<Longrightarrow> s_journal_error st' = Some e"
    and "s_journal_error st' = None \<Longrightarrow> set (txn_blocks st') = insert b (set (txn_blocks st))"
proof -
  let ?P = "txn_inv st' \<and> s_journal_active_sequence st' \<noteq> 0 \<and> d_media st' = d_media st \<and>
    (s_journal_error st = Some e \<longrightarrow> s_journal_error st' = Some e) \<and>
    (s_journal_error st' = None \<longrightarrow> set (txn_blocks st') = insert b (set (txn_blocks st)))"
  have ?P
  proof (cases "s_journal_error st = None \<and> b < cryexts_blocks_count st \<and>
      \<not> cryexts_journal_block_is_internal st b \<and> b \<notin> set (txn_blocks st) \<and>
      s_journal_entry_count st < unat (cryexts_journal_v3_payload_capacity st)")
    case True
    let ?a = "st\<lparr>s_journal_home_blocks := (s_journal_home_blocks st)[s_journal_entry_count st := b],
      s_journal_entry_count := Suc (s_journal_entry_count st)\<rparr>"
    have "st' = ?a"
      using True active unfolding st'_def ignoreE_def cryexts_journal_v3_record_block_def Let_def
      by (simp add: not_le [symmetric])
    moreover have "txn_inv ?a" "txn_blocks ?a = txn_blocks st @ [b]"
      using txn_inv_append [OF inv, of b] True by blast+
    ultimately show ?thesis using True active by auto
  next
    case False
    then show ?thesis
      using inv active unfolding st'_def ignoreE_def cryexts_journal_v3_record_block_def Let_def
      by (auto simp: not_less insert_absorb split: option.splits)
  qed
  then show "txn_inv st'" "s_journal_active_sequence st' \<noteq> 0" "d_media st' = d_media st"
    "s_journal_error st = Some e \<Longrightarrow> s_journal_error st' = Some e"
    "s_journal_error st' = None \<Longrightarrow> set (txn_blocks st') = insert b (set (txn_blocks st))"
    by blast+
qed

text \<open>A sequence of calls whose results are all ignored, as the callers do.\<close>

abbreviation record_all :: "u64 list \<Rightarrow> fs \<Rightarrow> fs" where
  "record_all bs \<equiv> fold (\<lambda>b. ignoreE (cryexts_journal_v3_record_block b)) bs"

lemma record_all_effect:
  assumes "txn_inv st" and "s_journal_active_sequence st \<noteq> 0"
  shows "txn_inv (record_all bs st) \<and> d_media (record_all bs st) = d_media st \<and>
    (s_journal_error st = Some e \<longrightarrow> s_journal_error (record_all bs st) = Some e) \<and>
    (s_journal_error (record_all bs st) = None \<longrightarrow>
       set (txn_blocks (record_all bs st)) = set bs \<union> set (txn_blocks st))"
  using assms
proof (induction bs arbitrary: st e)
  case Nil
  then show ?case by simp
next
  case (Cons b bs)
  let ?st1 = "ignoreE (cryexts_journal_v3_record_block b) st"
  note s = record_block_step [OF Cons.prems, where b = b]
  have ih: "txn_inv (record_all bs ?st1) \<and> d_media (record_all bs ?st1) = d_media ?st1 \<and>
    (s_journal_error ?st1 = Some e \<longrightarrow> s_journal_error (record_all bs ?st1) = Some e) \<and>
    (s_journal_error (record_all bs ?st1) = None \<longrightarrow>
       set (txn_blocks (record_all bs ?st1)) = set bs \<union> set (txn_blocks ?st1))" for e
    by (rule Cons.IH [OF s(1,2)])
  have "s_journal_error ?st1 = None" if "s_journal_error (record_all bs ?st1) = None"
    using ih that by (cases "s_journal_error ?st1") auto
  then show ?case using ih [of e] s(3,4,5) by auto
qed

lemma txn_inv_distinct:
  assumes "txn_inv st"
  shows "distinct (txn_blocks st)"
proof -
  have len: "length (txn_blocks st) = s_journal_entry_count st"
    using txn_inv_length [OF assms] by (simp add: txn_blocks_def)
  have ne: "home_at st j \<noteq> home_at st i" if "i < s_journal_entry_count st" "j < i" for i j
    using assms that by (simp add: txn_inv_def txn_ok_def)
  show ?thesis
    unfolding distinct_conv_nth len using ne txn_blocks_nth [OF assms] by (metis nat_neq_iff)
qed

text \<open>C12: whatever blocks are recorded in a transaction, and though the callers
  ignore what each call returns: either every one of them is in the transaction, once, or the
  error is kept and the commit fails with it, without having written anything.\<close>

theorem record_sequence:
  assumes "txn_inv st" and "s_journal_active_sequence st \<noteq> 0"
  shows "case s_journal_error (record_all bs st) of
      None \<Rightarrow> txn_ok (record_all bs st) \<and> distinct (txn_blocks (record_all bs st)) \<and>
        set (txn_blocks (record_all bs st)) = set (txn_blocks st) \<union> set bs
    | Some e \<Rightarrow> fst (cryexts_journal_v3_commit (record_all bs st)) = Inl e \<and>
        d_media (snd (cryexts_journal_v3_commit (record_all bs st))) = d_media st"
proof (cases "s_journal_error (record_all bs st)")
  case None
  then show ?thesis
    using record_all_effect [OF assms] txn_inv_distinct by (auto simp: txn_inv_def)
next
  case (Some e)
  then show ?thesis
    using record_all_effect [OF assms, of bs] by (simp add: cryexts_journal_v3_commit_def)
qed

section \<open>The state that the log starts from\<close>

text \<open>
  A commit first stores the sequence number in the superblock, seals the group descriptors in
  their buffers and sets the recovery flag, which records block 0 in the transaction.
\<close>

abbreviation v3_prepared :: "u64 \<Rightarrow> fs \<Rightarrow> fs" where
  "v3_prepared q st \<equiv> cryexts_super_set_recovery True (cryexts_gdt_prepare_write
     (upd_disk_sb (\<lambda>sb. sb\<lparr>sb_journal_sequence := q\<rparr>) st))"

text \<open>What the transaction invariant depends on.\<close>

definition same_txn :: "fs \<Rightarrow> fs \<Rightarrow> bool" where
  "same_txn a b \<longleftrightarrow> core_frame a b \<and> s_journal_entry_count b = s_journal_entry_count a \<and>
     s_journal_home_blocks b = s_journal_home_blocks a \<and>
     s_journal_error b = s_journal_error a \<and> cryexts_blocks_count b = cryexts_blocks_count a"

lemma same_txn_refl [simp]: "same_txn a a"
  by (simp add: same_txn_def)

lemma same_txn_trans: "same_txn a b \<Longrightarrow> same_txn b c \<Longrightarrow> same_txn a c"
  unfolding same_txn_def using core_frame_trans by fastforce

lemma same_txn_inv: "same_txn a b \<Longrightarrow> txn_inv b = txn_inv a"
  using capacity_core internal_core
  by (auto simp: same_txn_def txn_inv_def txn_ok_def entries_ok_def homes_ok_def home_at_def)

lemma same_txn_blocks: "same_txn a b \<Longrightarrow> txn_blocks b = txn_blocks a"
  by (simp add: same_txn_def txn_blocks_def)

lemma same_txn_basic:
  "same_txn a b \<Longrightarrow> (\<And>sb. sb_blocks_count (f sb) = sb_blocks_count sb) \<Longrightarrow> same_txn a (upd_disk_sb f b)"
  "same_txn a b \<Longrightarrow> same_txn a (mark_buffer_dirty x b)"
  "same_txn a b \<Longrightarrow> same_txn a (cryexts_update_group_checksums b)"
  "same_txn a b \<Longrightarrow> x \<noteq> 0 \<Longrightarrow> same_txn a (set_bdata x buf b)"
  using core_frame_basic [of a b]
  by (auto simp: same_txn_def cryexts_blocks_count_def)
    (auto simp: upd_disk_sb_def mark_buffer_dirty_def cryexts_update_group_checksums_def
      set_bdata_def split: option.splits)

lemma same_txn_super_checksum: "same_txn a b \<Longrightarrow> same_txn a (cryexts_update_super_checksum b)"
  by (simp add: cryexts_update_super_checksum_def same_txn_basic set_super_csum_def)

text \<open>
  The group descriptor table in memory, as loading it leaves it: its bytes fill the blocks of the
  table, and none of them is block 0.
\<close>

definition gdt_ok :: "fs \<Rightarrow> bool" where
  "gdt_ok st \<longleftrightarrow> (\<forall>gs bhs. s_groups st = Some gs \<longrightarrow> s_gdt_bhs st = Some bhs \<longrightarrow>
     length (gdt_storage st) = unat (s_group_desc_table_blocks st) * BLOCK_SIZE \<and>
     unat (s_group_count st) \<le> length gs \<and> (\<forall>g\<in>set gs. wf_group g) \<and>
     (\<forall>i < unat (s_group_desc_table_blocks st). bhs ! i \<noteq> Some 0))"

lemma copy_gdt_fold:
  assumes "\<forall>i\<in>set ks. gdt_slot a i \<noteq> Some 0" and "\<forall>i\<in>set ks. length (g i) = BLOCK_SIZE"
    and "same_txn a b" "wf_fs b" "gdt_storage b = gdt_storage a"
  defines "c \<equiv> fold (\<lambda>i st. case gdt_slot st i of None \<Rightarrow> st
    | Some bh \<Rightarrow> set_bdata bh (get_bytes (gdt_storage st) (i * BLOCK_SIZE) BLOCK_SIZE) st) ks b"
  shows "(\<forall>i\<in>set ks. i * BLOCK_SIZE + BLOCK_SIZE \<le> length (gdt_storage a)) \<Longrightarrow>
    same_txn a c \<and> wf_fs c"
  using assms(1-5) unfolding c_def
proof (induction ks arbitrary: b)
  case Nil
  then show ?case by simp
next
  case (Cons i ks)
  have slot: "gdt_slot b i = gdt_slot a i"
    using Cons.prems(4) core_frame_fields(21) [of a b] by (auto simp: same_txn_def gdt_slot_def)
  show ?case
  proof (cases "gdt_slot a i")
    case None
    then show ?thesis using Cons slot by simp
  next
    case (Some bh)
    let ?b = "set_bdata bh (get_bytes (gdt_storage b) (i * BLOCK_SIZE) BLOCK_SIZE) b"
    have "bh \<noteq> 0" using Cons.prems(2) Some by auto
    moreover have "length (get_bytes (gdt_storage b) (i * BLOCK_SIZE) BLOCK_SIZE) = BLOCK_SIZE"
      using Cons.prems by (simp add: length_get_bytes)
    moreover have "gdt_storage ?b = gdt_storage b"
      by (simp add: gdt_storage_def set_bdata_def split: option.splits)
    ultimately show ?thesis
      using Cons.IH [of ?b] Cons.prems slot Some by (simp add: same_txn_basic wf_fs_set_bdata)
  qed
qed

lemma gdt_storage_checksums:
  assumes "gdt_ok st" and bhs: "s_gdt_bhs st = Some bhs"
  shows "length (gdt_storage (cryexts_update_group_checksums st)) = length (gdt_storage st)"
proof (cases "s_groups st")
  case None
  then show ?thesis by (simp add: cryexts_update_group_checksums_def)
next
  case (Some gs)
  let ?f = "\<lambda>g. set_group_csum (cryexts_group_expected_checksum (s_disk_sb st) g) g"
  have n: "unat (s_group_count st) \<le> length gs" and wf: "\<forall>g\<in>set gs. wf_group g"
    using assms Some by (auto simp: gdt_ok_def)
  have len: "length (concat (map enc_group xs)) = GROUP_BYTES * length xs"
    if "\<forall>g\<in>set xs. wf_group g" for xs
    using that by (induction xs) (auto simp: length_enc_group)
  have wf': "\<forall>g\<in>set (map ?f (take (unat (s_group_count st)) gs) @ drop (unat (s_group_count st)) gs).
      wf_group g"
    using wf by (auto dest: in_set_takeD in_set_dropD)
  show ?thesis
    using len [OF wf] len [OF wf'] n
    by (simp add: Some cryexts_update_group_checksums_def gdt_storage_def fold_update_each [OF n, of ?f])
qed

lemma update_group_checksums_fields:
  "s_gdt_bhs (cryexts_update_group_checksums st) = s_gdt_bhs st"
  "s_groups (cryexts_update_group_checksums st) = None \<longleftrightarrow> s_groups st = None"
  "s_group_desc_table_blocks (cryexts_update_group_checksums st) = s_group_desc_table_blocks st"
  "gdt_slot (cryexts_update_group_checksums st) i = gdt_slot st i"
  "wf_fs (cryexts_update_group_checksums st) = wf_fs st"
  by (simp_all add: cryexts_update_group_checksums_def gdt_slot_def wf_fs_def split: option.splits)

lemma copy_gdt_same:
  assumes ok: "gdt_ok st" and u: "u = st \<or> u = cryexts_update_group_checksums st" and wf: "wf_fs u"
  shows "same_txn u (cryexts_copy_gdt_to_blocks u) \<and> wf_fs (cryexts_copy_gdt_to_blocks u)"
proof (cases "s_gdt_bhs u = None \<or> s_groups u = None")
  case True
  then show ?thesis using wf by (simp add: cryexts_copy_gdt_to_blocks_def)
next
  case False
  let ?n = "unat (s_group_desc_table_blocks st)"
  obtain bhs gs where b: "s_gdt_bhs st = Some bhs" and g: "s_groups st = Some gs"
    using False u update_group_checksums_fields(1,2) [of st] by fastforce
  have blocks: "s_group_desc_table_blocks u = s_group_desc_table_blocks st"
    using u by (auto simp: update_group_checksums_fields)
  have len: "length (gdt_storage u) = ?n * BLOCK_SIZE"
    using u gdt_storage_checksums [OF ok b] ok b g by (auto simp: gdt_ok_def)
  have fit: "i * BLOCK_SIZE + BLOCK_SIZE \<le> ?n * BLOCK_SIZE" if "i < ?n" for i
    using mult_le_mono1 [OF Suc_leI [OF that], of BLOCK_SIZE] by simp
  have "gdt_slot st i \<noteq> Some 0" if "i < ?n" for i
    using ok b g that by (simp add: gdt_ok_def gdt_slot_def)
  then have slot: "gdt_slot u i \<noteq> Some 0" if "i < ?n" for i
    using u that by (auto simp: update_group_checksums_fields)
  show ?thesis
    using copy_gdt_fold [of "[0..<?n]" u "\<lambda>_. zero_block" u] False slot fit wf
    by (simp add: cryexts_copy_gdt_to_blocks_def blocks len)
qed

lemma gdt_prepare_same:
  assumes ok: "gdt_ok st" and wf: "wf_fs st"
  shows "same_txn st (cryexts_gdt_prepare_write st) \<and> wf_fs (cryexts_gdt_prepare_write st)"
proof (cases "s_groups st = None")
  case True
  then show ?thesis using wf by (simp add: cryexts_gdt_prepare_write_def)
next
  case False
  have "same_txn st (cryexts_update_group_checksums st)" by (simp add: same_txn_basic)
  then show ?thesis
    using copy_gdt_same [OF ok _ wf] copy_gdt_same [OF ok, of "cryexts_update_group_checksums st"]
      wf same_txn_trans False
    by (auto simp: cryexts_gdt_prepare_write_def Let_def update_group_checksums_fields)
qed

text \<open>Recording block 0 while the recovery flag is set.\<close>

lemma prepared_txn:
  assumes inv: "txn_inv st" and gdt: "gdt_ok st" and wf: "wf_fs st"
    and active: "s_journal_active_sequence st \<noteq> 0" and err: "s_journal_error st = None"
    and zero: "0 < cryexts_blocks_count st" "\<not> cryexts_journal_block_is_internal st 0"
    and room: "s_journal_entry_count st < unat (cryexts_journal_v3_payload_capacity st)"
  shows "txn_inv (v3_prepared q st)" "s_journal_error (v3_prepared q st) = None"
    "set (txn_blocks st) \<subseteq> set (txn_blocks (v3_prepared q st))"
proof -
  let ?a = "upd_disk_sb (\<lambda>sb. sb\<lparr>sb_journal_sequence := q\<rparr>) st"
  have a: "same_txn st ?a" by (simp add: same_txn_basic)
  have "gdt_ok ?a" "wf_fs ?a"
    using gdt wf by (simp_all add: gdt_ok_def gdt_storage_def upd_disk_sb_def wf_fs_def wf_super_def)
  then have g: "same_txn st (cryexts_gdt_prepare_write ?a)"
    using gdt_prepare_same same_txn_trans [OF a] by blast
  have "\<exists>b. same_txn st b \<and> v3_prepared q st =
      mark_buffer_dirty 0 (ignoreE (cryexts_journal_record_block 0) b)"
    unfolding cryexts_super_set_recovery_def mark_super_dirty_eq Let_def
    by (rule exI, rule conjI [rotated], rule refl, intro same_txn_super_checksum same_txn_basic g) auto
  then obtain b where b: "same_txn st b" and eq: "v3_prepared q st =
      mark_buffer_dirty 0 (ignoreE (cryexts_journal_record_block 0) b)" by blast
  have fields: "txn_inv b" "s_journal_error b = None" "0 < cryexts_blocks_count b"
      "\<not> cryexts_journal_block_is_internal b 0" "txn_blocks b = txn_blocks st"
      "s_journal_active_sequence b \<noteq> 0"
      "s_journal_entry_count b < unat (cryexts_journal_v3_payload_capacity b)"
    using b inv err zero room active same_txn_inv [OF b] same_txn_blocks [OF b]
      internal_core [of st b] capacity_core [of st b] core_frame_fields(8) [of st b]
    by (auto simp: same_txn_def)
  let ?c = "ignoreE (cryexts_journal_record_block 0) b"
  have c: "txn_inv ?c \<and> s_journal_error ?c = None \<and> set (txn_blocks b) \<subseteq> set (txn_blocks ?c)"
  proof (cases "cryexts_journal_uses_v3 b \<and> s_journal_enabled b \<and> \<not> s_journal_replaying b")
    case True
    have r: "fst (cryexts_journal_v3_record_block 0 b) = Inr () \<and>
        s_journal_error (ignoreE (cryexts_journal_v3_record_block 0) b) = None"
      using fields by (auto simp: cryexts_journal_v3_record_block_def ignoreE_def)
    have "?c = ignoreE (cryexts_journal_v3_record_block 0) b"
      using True by (simp add: ignoreE_def cryexts_journal_record_block_def journal_record_with_def)
    then show ?thesis using record_block_step [OF fields(1,6), where b = 0] r by auto
  next
    case False
    then have "?c = b"
      by (auto simp: ignoreE_def cryexts_journal_record_block_def journal_record_with_def
          cryexts_journal_v2_record_block_def journal_v1_record_with_def journal_home_block_ok_def)
    then show ?thesis using fields by simp
  qed
  have d: "same_txn ?c (mark_buffer_dirty 0 ?c)" by (simp add: same_txn_basic)
  show "txn_inv (v3_prepared q st)" "s_journal_error (v3_prepared q st) = None"
    "set (txn_blocks st) \<subseteq> set (txn_blocks (v3_prepared q st))"
    unfolding eq using c d same_txn_inv [OF d] same_txn_blocks [OF d] fields(5)
    by (simp_all add: same_txn_def)
qed

end
