(* ===== verification/JournalDurable.thy ===== *)
theory JournalDurable
  imports JournalFixed JournalTxn
begin

text \<open>
  On a working device a commit of the fixed version 3 journal succeeds, and when it returns the
  blocks of the transaction are in their home places on the medium.
\<close>

section \<open>Steps that go through\<close>

lemma wf_super_csum: "wf_super sb \<Longrightarrow> wf_super (set_super_csum c sb)"
  by (simp add: wf_super_def set_super_csum_def)

lemma good_replaying [simp]: "good (st\<lparr>s_journal_replaying := r\<rparr>) = good st"
  by (simp add: good_def working_def wf_disk_def wf_fs_def)

lemma good_upd_sb:
  "good st \<Longrightarrow> (\<And>sb. wf_super sb \<Longrightarrow> wf_super (f sb)) \<Longrightarrow> good (upd_disk_sb f st)"
  by (simp add: good_def working_def wf_disk_def wf_fs_def upd_disk_sb_def)

lemma good_mark_dirty: "good st \<Longrightarrow> good (mark_buffer_dirty b st)"
  by (simp add: good_def working_def wf_disk_def wf_fs_def mark_buffer_dirty_def)

lemma good_super_checksum: "good st \<Longrightarrow> good (cryexts_update_super_checksum st)"
  by (simp add: cryexts_update_super_checksum_def good_upd_sb wf_super_csum)

lemma good_core:
  assumes "core_frame a b" "good a" "wf_fs b"
  shows "good b"
  using assms(2,3) core_frame_fields [OF assms(1)] by (simp add: good_def working_def wf_disk_def)

lemma wf_fs_record_super:
  "wf_fs st \<Longrightarrow> wf_fs (ignoreE (cryexts_journal_record_block 0) st)"
  by (auto simp: wf_fs_def ignoreE_def cryexts_journal_record_block_def journal_record_with_def
      cryexts_journal_v3_record_block_def cryexts_journal_v2_record_block_def
      journal_v1_record_with_def journal_home_block_ok_def Let_def split: option.splits)

lemma good_set_recovery:
  assumes "good st"
  shows "good (cryexts_super_set_recovery needed st)"
proof -
  have r: "good s \<Longrightarrow> good (ignoreE (cryexts_journal_record_block 0) s)" for s
    by (rule good_core [OF core_frame_record_super [OF core_frame_refl]])
      (auto simp: good_def wf_disk_def intro: wf_fs_record_super)
  show ?thesis
    unfolding cryexts_super_set_recovery_def mark_super_dirty_eq Let_def
    by (intro good_mark_dirty r good_super_checksum good_upd_sb assms)
      (auto simp: wf_super_def)
qed

lemma good_clear_recovery: "good st \<Longrightarrow> good (clear_recovery_unrecorded st)"
  unfolding clear_recovery_unrecorded_def good_replaying
  by (rule good_set_recovery) simp

lemma write_control_good:
  assumes "good st"
  obtains st' where "v3_write_control seg s l a c st = (Inr (), st')" "good st'"
    "touches {s_journal_block st} st st'"
proof -
  obtain st' where st': "v3_write_control seg s l a c st = (Inr (), st')" "good st'"
    unfolding v3_write_control_def
    by (rule write_sync_good [OF assms(1) v3_prepare_control_length])
  have "touches {s_journal_block st} st st'"
    by (rule write_sync_ok(3) [OF st'(1) [unfolded v3_write_control_def] v3_prepare_control_length])
  then show thesis by (rule that [OF st'])
qed

lemma sync_single_good:
  assumes "good st"
  obtains st' where "cryexts_sync_single_block b st = (Inr (), st')" "good st'" "touches {b} st st'"
proof -
  obtain st' where s: "cryexts_sync_single_block b st = (Inr (), st')"
    using assms by (fastforce simp: cryexts_sync_single_block_def io_step_def bindE_def good_def
        working_def sync_dirty_buffer_def)
  have t: "touches {b} st st'" by (rule keeps_result [OF keeps_sync_single s touches_refl]) simp
  have k: "keeps wf_disk (cryexts_sync_single_block b)"
    unfolding cryexts_sync_single_block_def by (intro keep wf_io_step wf_sync_dirty)
  have "good st'"
    using assms keeps_result [OF k s] working_frame [OF touches_frame [OF t]] by (auto simp: good_def)
  then show thesis using that s t by blast
qed

lemma write_empty_good:
  assumes "good st"
  obtains st' where "v3_write_empty q d p c st = (Inr (), st')" "good st'" "touches {d, c} st st'"
proof -
  let ?D = "cryexts_journal_v3_finish_descriptor (cryexts_journal_v3_prepare_descriptor 0 q p c)"
  let ?C = "cryexts_journal_v3_prepare_commit 0 q (d3_checksum ?D) 0 False d"
  note ld = v3_finish_descriptor(2) [OF wf_v3_prepare_descriptor]
  obtain st1 where 1: "cryexts_journal_v3_write_sync d (enc_d3 ?D) st = (Inr (), st1)" "good st1"
    by (rule write_sync_good [OF assms ld])
  obtain st2 where 2: "cryexts_journal_v3_write_sync c ?C st1 = (Inr (), st2)" "good st2"
    by (rule write_sync_good [OF 1(2) v3_prepare_commit_length])
  have "touches {d, c} st st2"
    by (rule touches_trans [where b = st1]; rule touches_mono)
      (use write_sync_ok(3) [OF 1(1) ld] write_sync_ok(3) [OF 2(1) v3_prepare_commit_length] in auto)
  moreover have "v3_write_empty q d p c st = (Inr (), st2)"
    using 1(1) 2(1) by (simp add: v3_write_empty_def Let_def bindE_def retE_def)
  ultimately show thesis using that 2(2) by blast
qed

text \<open>The checkpoint of the fixed journal finds each payload as it was logged.\<close>

lemma checkpoint_home_good:
  assumes "good st" and "distinct ks"
    and "\<forall>i\<in>set ks. payload_hash (bdata st (p + of_nat i)) = csum i"
    and "\<forall>i\<in>set ks. \<forall>j\<in>set ks. i \<noteq> j \<longrightarrow> home_at st i \<noteq> home_at st j"
    and "\<forall>i\<in>set ks. \<forall>j\<in>set ks. home_at st i \<noteq> p + of_nat j"
  shows "\<exists>st'. eachE (\<lambda>i. bindE (cryexts_read_file_block (p + of_nat i)) (\<lambda>payload_buf st.
        if payload_hash payload_buf \<noteq> csum i then (Inl EUCLEAN, st)
        else cryexts_journal_v3_write_sync (s_journal_home_blocks st ! i) payload_buf st)) ks st =
      (Inr (), st') \<and> good st' \<and> touches (home_at st ` set ks) st st' \<and>
    (\<forall>i\<in>set ks. d_media st' (home_at st i) = bdata st (p + of_nat i))"
  using assms
proof (induction "ks" arbitrary: st)
  case Nil
  then show ?case by (simp add: retE_def)
next
  case (Cons i "ks")
  let ?st1 = "st\<lparr>d_tick := Suc (d_tick st)\<rparr>" and ?b = "bdata st (p + of_nat i)"
  let ?h = "home_at st i"
  have w: "working st" and wf: "wf_fs st" using Cons.prems(1) by (simp_all add: good_def wf_disk_def)
  have g1: "good ?st1" using Cons.prems(1) by simp
  obtain st2 where 2: "cryexts_journal_v3_write_sync ?h ?b ?st1 = (Inr (), st2)" "good st2"
    by (rule write_sync_good [OF g1 length_bdata [OF wf]])
  note ws = write_sync_ok [OF 2(1) length_bdata [OF wf]]
  have t1: "touches {?h} st ?st1" by (simp add: touches_def dev_frame_upd)
  have t: "touches {?h} st st2" by (rule touches_trans [OF t1 ws(3)])
  have home: "home_at st2 = home_at st"
    using touches_fields(12) [OF t] by (simp add: home_at_def fun_eq_iff)
  have same: "bdata st2 (p + of_nat j) = bdata st (p + of_nat j)" if "j \<in> set ks" for j
    using touches_bdata [OF t, of "p + of_nat j"] Cons.prems(5) that by force
  obtain st' where st': "eachE (\<lambda>i. bindE (cryexts_read_file_block (p + of_nat i)) (\<lambda>payload_buf st.
        if payload_hash payload_buf \<noteq> csum i then (Inl EUCLEAN, st)
        else cryexts_journal_v3_write_sync (s_journal_home_blocks st ! i) payload_buf st)) ks st2 =
      (Inr (), st')" "good st'" "touches (home_at st ` set ks) st2 st'"
      "\<forall>j\<in>set ks. d_media st' (home_at st j) = bdata st2 (p + of_nat j)"
    using Cons.IH [OF 2(2)] Cons.prems(2-5) same by (auto simp: home)
  have "?h \<notin> home_at st ` set ks" using Cons.prems(2,4) by fastforce
  then have "d_media st' ?h = ?b" using touches_media [OF st'(3)] ws(1) by simp
  moreover have "touches (home_at st ` set (i # ks)) st st'"
    by (rule touches_trans [where b = st2]; rule touches_mono, use t st'(3) in auto)
  ultimately show ?case
    using st' same 2(1) Cons.prems(3) read_works [OF w, of "p + of_nat i"]
    by (auto simp: bindE_def home_at_def)
qed

section \<open>The whole commit\<close>

lemma home_at_frame: "touches S a b \<Longrightarrow> home_at b = home_at a"
  using touches_fields(12) by (simp add: home_at_def fun_eq_iff)

lemma touches_to: "touches S a b \<Longrightarrow> touches T b c \<Longrightarrow> touches (S \<union> T) a c"
  by (rule touches_trans [where b = b]; rule touches_mono) auto

lemma commit_fixed_good:
  assumes wf: "good s1" and ok: "journal_ok s1" and txn: "txn_ok s1" and fixed: "\<not> s_journal_ring s1"
    and log: "v3_commit_log q s1 = (Inr seg, sA)" and commit: "v3_write_commit q seg sA = (Inr (), sB)"
    and gB: "good sB"
  shows "\<exists>st'. v3_commit_fixed q seg sB = (Inr (), st') \<and> s_journal_sequence st' = q \<and>
    s_journal_entry_count st' = 0 \<and> s_journal_active_sequence st' = 0 \<and>
    (\<forall>i < s_journal_entry_count s1. home_at s1 i \<noteq> 0 \<longrightarrow>
       d_media st' (home_at s1 i) = bdata s1 (home_at s1 i))"
proof -
  let ?d = "seg_descriptor_block seg" and ?p = "seg_payload_start seg" and ?c = "seg_commit_block seg"
  let ?n = "s_journal_entry_count s1"
  have n: "entries_ok s1" using txn by (simp add: txn_ok_def)
  have wfs: "wf_fs s1" using wf by (simp add: good_def wf_disk_def)
  have homes: "homes_ok s1" using txn by (simp add: txn_ok_def)
  note ne = entries_ok_count [OF n] and L = commit_log_ok [OF log wfs ok n homes]
  note S = committed_segment [OF wfs ok txn log commit]
  obtain h where al: "cryexts_journal_v3_ring_allocate s1 (of_nat ?n) = Inr (?d, ?p, ?c, h)"
      and es: "seg_entries seg = of_nat ?n"
    using commit_log_result [OF log] by blast
  have cap: "?n \<le> unat (cryexts_journal_v3_payload_capacity s1)" using n by (simp add: entries_ok_def)
  note int = segment_internal [OF ok _ al, unfolded ne, OF cap]
  obtain s0 where t0: "touches (journal_area s1) s0 sA"
      "s0 = s1 \<or> (\<exists>d h. s0 = v3_set_ring_pointers d h s1)"
    using commit_log_touches [OF ok, of q] cap ne log by auto
  have "home_at s0 = home_at s1" using t0(2) by (auto simp: home_at_def fun_eq_iff)
  then have hB: "home_at sB = home_at s1"
    using home_at_frame [OF t0(1)]
      home_at_frame [OF write_sync_ok(3) [OF commit [unfolded v3_write_commit_def] v3_prepare_commit_length]]
    by simp
  have away: "home_at s1 i \<noteq> x" if "i < ?n" "x \<in> journal_area s1" for i x
    using homes that by (auto simp: homes_ok_def)
  have jb: "s_journal_block s1 \<in> journal_area s1" by (rule journal_block_internal [OF ok])
  obtain s2 where 2: "v3_write_control seg CRYEXTS_JOURNAL_V3_STATE_CHECKPOINTING q q
        (s_journal_sequence sB) sB = (Inr (), s2)" "good s2" "touches {s_journal_block sB} sB s2"
    by (rule write_control_good [OF gB])
  have pay: "bdata s2 (?p + of_nat i) = bdata s1 (home_at s1 i)" if i: "i < ?n" for i
  proof -
    have "?p + of_nat i \<noteq> s_journal_block sB"
      using int(7) [OF i] int(8) by (auto simp: S(4) word_less_nat_alt)
    then show ?thesis using S(3) [OF i] touches_bdata [OF 2(3)] by simp
  qed
  have h2: "home_at s2 = home_at s1" using home_at_frame [OF 2(3)] hB by simp
  have "\<forall>i\<in>set [0..<?n]. payload_hash (bdata s2 (?p + of_nat i)) =
      e3_payload_checksum (d3_entries (seg_descriptor seg) ! i)"
    using L pay segment_descriptor_fields(9) [OF n] by (simp add: logged_entry_def)
  moreover have "\<forall>i\<in>set [0..<?n]. \<forall>j\<in>set [0..<?n]. i \<noteq> j \<longrightarrow> home_at s2 i \<noteq> home_at s2 j"
    using txn by (auto simp: h2 txn_ok_def neq_iff)
  moreover have "\<forall>i\<in>set [0..<?n]. \<forall>j\<in>set [0..<?n]. home_at s2 i \<noteq> ?p + of_nat j"
    using away int(3) by (simp add: h2)
  ultimately obtain s3 where 3: "v3_checkpoint_home seg s2 = (Inr (), s3)" "good s3"
      "touches (home_at s2 ` set [0..<?n]) s2 s3"
      "\<forall>i\<in>set [0..<?n]. d_media s3 (home_at s2 i) = bdata s2 (?p + of_nat i)"
    using checkpoint_home_good [where p = ?p and ks = "[0..<?n]" and
        csum = "\<lambda>i. e3_payload_checksum (d3_entries (seg_descriptor seg) ! i)", OF 2(2)]
    by (auto simp: v3_checkpoint_home_def es ne)
  let ?s4 = "clear_recovery_unrecorded s3"
  obtain s5 where 5: "cryexts_sync_single_block 0 ?s4 = (Inr (), s5)" "good s5" "touches {0} ?s4 s5"
    by (rule sync_single_good [OF good_clear_recovery [OF 3(2)]])
  obtain s6 where 6: "v3_write_empty q ?d ?p ?c s5 = (Inr (), s6)" "good s6" "touches {?d, ?c} s5 s6"
    by (rule write_empty_good [OF 5(2)])
  obtain s7 where 7: "v3_write_control seg CRYEXTS_JOURNAL_V3_STATE_IDLE q 0 q s6 = (Inr (), s7)"
      "good s7" "touches {s_journal_block s6} s6 s7"
    by (rule write_control_good [OF 6(2)])
  have jb6: "s_journal_block s6 = s_journal_block s1"
    using touches_fields(1) [OF 6(3)] touches_fields(1) [OF 5(3)] touches_fields(1) [OF 3(3)]
      touches_fields(1) [OF 2(3)] S(4) by simp
  have media: "d_media s7 (home_at s1 i) = bdata s1 (home_at s1 i)"
    if i: "i < ?n" and nz: "home_at s1 i \<noteq> 0" for i
  proof -
    have "home_at s1 i \<noteq> ?d" "home_at s1 i \<noteq> ?c" "home_at s1 i \<noteq> s_journal_block s6"
      using away [OF i] int(1,2) jb jb6 by auto
    then have "d_media s7 (home_at s1 i) = d_media s3 (home_at s1 i)"
      using touches_media [OF 7(3)] touches_media [OF 6(3)] touches_media [OF 5(3)] nz by simp
    then show ?thesis using 3(4) i pay [OF i] by (simp add: h2)
  qed
  show ?thesis
    using 2(1) 3(1) 5(1) 6(1) 7(1) media
    by (simp add: v3_commit_fixed_def bindE_def modE_def retE_def Let_def
        cryexts_journal_v3_clear_runtime_def)
qed

lemma good_prepared:
  assumes g: "good st" and gdt: "gdt_ok st"
  shows "good (v3_prepared q st)"
proof -
  let ?a = "upd_disk_sb (\<lambda>sb. sb\<lparr>sb_journal_sequence := q\<rparr>) st"
  have "good ?a" by (rule good_upd_sb [OF g]) (simp add: wf_super_def)
  moreover have "gdt_ok ?a" using gdt by (simp add: gdt_ok_def gdt_storage_def upd_disk_sb_def)
  moreover have "wf_fs ?a" using \<open>good ?a\<close> by (simp add: good_def wf_disk_def)
  ultimately have "good (cryexts_gdt_prepare_write ?a)"
    using gdt_prepare_same [of ?a] good_core by (auto simp: same_txn_def)
  then show ?thesis by (rule good_set_recovery)
qed

text \<open>The transaction of a fixed journal that can be committed.\<close>

definition fixed_txn :: "fs \<Rightarrow> bool" where
  "fixed_txn st \<longleftrightarrow> good st \<and> gdt_ok st \<and> journal_ok st \<and> txn_inv st \<and> \<not> s_journal_ring st \<and>
     s_journal_active_sequence st \<noteq> 0 \<and> s_journal_error st = None \<and>
     0 < cryexts_blocks_count st \<and> \<not> cryexts_journal_block_is_internal st 0 \<and>
     s_journal_entry_count st < unat (cryexts_journal_v3_payload_capacity st)"

lemma fixed_commit_works:
  assumes "fixed_txn st"
  defines "q \<equiv> s_journal_active_sequence st"
  defines "s1 \<equiv> v3_prepared q st"
  shows "set (txn_blocks st) \<subseteq> set (txn_blocks s1)"
    "\<exists>st'. cryexts_journal_v3_commit st = (Inr (), st') \<and> \<not> s_journal_locked st' \<and>
      s_journal_sequence st' = q \<and> s_journal_active_sequence st' = 0 \<and>
      s_journal_entry_count st' = 0 \<and>
      (\<forall>b\<in>set (txn_blocks s1). b \<noteq> 0 \<longrightarrow> d_media st' b = bdata s1 b)"
proof -
  have g: "good st" and gdt: "gdt_ok st" and jok: "journal_ok st" and fixed: "\<not> s_journal_ring st"
      and err: "s_journal_error st = None"
    using assms by (simp_all add: fixed_txn_def)
  have wf: "wf_fs st" using g by (simp add: good_def wf_disk_def)
  have P: "txn_inv s1" "s_journal_error s1 = None" "set (txn_blocks st) \<subseteq> set (txn_blocks s1)"
    unfolding s1_def using assms(1) wf by (auto simp: fixed_txn_def intro: prepared_txn prepared_txn(3) [THEN subsetD])
  have g1: "good s1" unfolding s1_def by (rule good_prepared [OF g gdt])
  have wf1: "wf_fs s1" using g1 by (simp add: good_def wf_disk_def)
  have core: "core_frame st s1"
    unfolding s1_def by (intro core_frame_recovery core_frame_gdt core_frame_basic core_frame_refl)
  have ok1: "journal_ok s1" and fixed1: "\<not> s_journal_ring s1"
    using journal_ok_core [OF core] core_frame_fields(3) [OF core] jok fixed by simp_all
  have txn: "txn_ok s1" using P(1) by (simp add: txn_inv_def)
  obtain d p c h where al: "cryexts_journal_v3_ring_allocate s1 (of_nat (s_journal_entry_count s1)) =
      Inr (d, p, c, h)"
    using fixed1 by (simp add: cryexts_journal_v3_ring_allocate_def)
  obtain seg sA where log: "v3_commit_log q s1 = (Inr seg, sA)" and gA: "good sA"
    using commit_log_good [OF g1 al] by blast
  obtain sB where com: "v3_write_commit q seg sA = (Inr (), sB)" and gB: "good sB"
    using write_commit_good [OF gA] by blast
  note fin = commit_fixed_good [OF g1 ok1 txn fixed1 log com gB]
  have ring: "\<not> s_journal_ring sB"
    using committed_segment(6) [OF wf1 ok1 txn log com] fixed1 by simp
  have "v3_commit_prepare q st = (Inr seg, sA)"
    using log P(2) by (simp add: v3_commit_prepare_def Let_def s1_def)
  then show "\<exists>st'. cryexts_journal_v3_commit st = (Inr (), st') \<and> \<not> s_journal_locked st' \<and>
      s_journal_sequence st' = q \<and> s_journal_active_sequence st' = 0 \<and>
      s_journal_entry_count st' = 0 \<and>
      (\<forall>b\<in>set (txn_blocks s1). b \<noteq> 0 \<longrightarrow> d_media st' b = bdata s1 b)"
    using fin err com ring in_txn_blocks [OF P(1)]
    by (auto simp: cryexts_journal_v3_commit_def Let_def bindE_def journal_unlock_def q_def)
  show "set (txn_blocks st) \<subseteq> set (txn_blocks s1)" by (rule P(3))
qed

text \<open>The preparation changes no block but the superblock and the group descriptors.\<close>

definition gdt_block :: "fs \<Rightarrow> u64 \<Rightarrow> bool" where
  "gdt_block st b \<longleftrightarrow> (\<exists>i < unat (s_group_desc_table_blocks st). gdt_slot st i = Some b)"

lemma copy_gdt_cache:
  assumes "\<not> gdt_block st b"
  shows "d_cache (cryexts_copy_gdt_to_blocks st) b = d_cache st b"
proof -
  have f: "d_cache (fold (\<lambda>i st. case gdt_slot st i of None \<Rightarrow> st
      | Some bh \<Rightarrow> set_bdata bh (g i st) st) ks s) b = d_cache s b"
    if "\<forall>i\<in>set ks. gdt_slot s i \<noteq> Some b" for g ks s
    using that
  proof (induction ks arbitrary: s)
    case (Cons i ks)
    have "gdt_slot (set_bdata bh x s) j = gdt_slot s j" for bh x j
      by (simp add: gdt_slot_def set_bdata_def)
    moreover have "d_cache (set_bdata bh x s) b = d_cache s b" if "bh \<noteq> b" for bh x
      using that by (auto simp: set_bdata_def)
    ultimately show ?case using Cons by (cases "gdt_slot s i") auto
  qed simp
  show ?thesis
    using assms f [of "[0..<unat (s_group_desc_table_blocks st)]" st]
    by (auto simp: cryexts_copy_gdt_to_blocks_def gdt_block_def)
qed

lemma set_recovery_cache: "d_cache (cryexts_super_set_recovery r st) = d_cache st"
proof -
  have "d_cache (ignoreE (cryexts_journal_record_block 0) s) = d_cache s" for s
    by (auto simp: ignoreE_def cryexts_journal_record_block_def journal_record_with_def
        cryexts_journal_v3_record_block_def cryexts_journal_v2_record_block_def Let_def
        journal_v1_record_with_def journal_home_block_ok_def split: option.splits)
  then show ?thesis
    by (simp add: cryexts_super_set_recovery_def mark_super_dirty_eq Let_def mark_buffer_dirty_def
        upd_disk_sb_def cryexts_update_super_checksum_def)
qed

lemma prepared_bdata:
  assumes "\<not> gdt_block st b" and "b \<noteq> 0"
  shows "bdata (v3_prepared q st) b = bdata st b"
proof -
  let ?a = "upd_disk_sb (\<lambda>sb. sb\<lparr>sb_journal_sequence := q\<rparr>) st"
  have "\<not> gdt_block ?a b" "\<not> gdt_block (cryexts_update_group_checksums ?a) b"
    using assms(1) by (simp_all add: gdt_block_def update_group_checksums_fields)
      (simp_all add: gdt_slot_def upd_disk_sb_def)
  moreover have "d_cache (cryexts_update_group_checksums s) = d_cache s" for s
    by (simp add: cryexts_update_group_checksums_def split: option.splits)
  ultimately have "d_cache (cryexts_gdt_prepare_write ?a) b = d_cache st b"
    by (simp add: cryexts_gdt_prepare_write_def Let_def copy_gdt_cache)
      (simp add: upd_disk_sb_def)
  then show ?thesis using assms(2) by (simp add: bdata_def set_recovery_cache)
qed


text \<open>A journal of 512 blocks with the cached block 30 in its transaction.\<close>

definition sample_fixed :: fs where
  "sample_fixed = sample_fs\<lparr>s_journal_blocks := 512, s_journal_active_sequence := 8,
     s_journal_locked := True, s_journal_entry_count := 1,
     s_journal_home_blocks := (replicate 504 0)[0 := 30],
     d_cache := (\<lambda>_. zero_block)(30 := replicate BLOCK_SIZE 7)\<rparr>"

lemma sample_fixed_ok: "fixed_txn sample_fixed"
proof -
  have cap: "cryexts_journal_v3_payload_capacity sample_fixed = 251"
    by (simp add: cryexts_journal_v3_payload_capacity_def sample_fixed_def sample_fs_def
        CRYEXTS_JOURNAL_V3_MIN_BLOCKS_def CRYEXTS_JOURNAL_V3_MAX_ENTRIES_def BLOCK_SIZE_def)
  have "good sample_fixed"
    using sample_wf by (simp add: good_def working_def wf_disk_def wf_fs_def sample_fixed_def
        sample_fs_def zero_block_def)
  moreover have "txn_inv sample_fixed"
    by (simp add: txn_inv_def txn_ok_def entries_ok_def cap homes_ok_def home_at_def)
      (simp add: sample_fixed_def sample_fs_def cryexts_journal_block_is_internal_def
        cryexts_blocks_count_def sample_sb_def CRYEXTS_JOURNAL_MAX_ENTRIES_def BLOCK_SIZE_def)
  moreover have "s_journal_entry_count sample_fixed = 1" by (simp add: sample_fixed_def)
  ultimately show ?thesis
    by (simp add: fixed_txn_def cap) (simp add: gdt_ok_def journal_ok_def sample_fixed_def sample_fs_def
        CRYEXTS_JOURNAL_V3_MIN_BLOCKS_def cryexts_blocks_count_def sample_sb_def
        cryexts_journal_block_is_internal_def)
qed


text \<open>The same state, mounted again after the commit.\<close>

theorem fixed_remount_refused_witness:
  "\<exists>st' s. cryexts_journal_v3_commit sample_fixed = (Inr (), st') \<and>
    bdata s 500 = d_media st' 500 \<and> fst (cryexts_journal_v3_replay s) \<noteq> Inr ()"
proof -
  have f: "journal_ok sample_fixed" "entries_ok sample_fixed" "\<not> s_journal_ring sample_fixed"
    using sample_fixed_ok by (simp_all add: fixed_txn_def txn_inv_def txn_ok_def)
  obtain st' where c: "cryexts_journal_v3_commit sample_fixed = (Inr (), st')"
    using fixed_commit_works(2) [OF sample_fixed_ok] by blast
  let ?s = "sample_fixed\<lparr>d_cache := d_media st'\<rparr>"
  have b: "s_journal_block ?s = 500" "bdata ?s 500 = d_media st' 500"
    by (simp_all add: sample_fixed_def sample_fs_def bdata_def)
  have "fst (cryexts_journal_v3_replay ?s) \<noteq> Inr ()"
    by (rule fixed_remount_refused [OF f _ c])
      (simp_all add: geo_def b, simp_all add: sample_fixed_def sample_fs_def)
  then show ?thesis using c b by blast
qed

text \<open>Recording in the same state: block 40 is taken, a block of the journal is an error.\<close>

theorem record_sequence_witness:
  "(case s_journal_error (record_all [40, 600] sample_fixed) of
      None \<Rightarrow> distinct (txn_blocks (record_all [40, 600] sample_fixed))
    | Some e \<Rightarrow> fst (cryexts_journal_v3_commit (record_all [40, 600] sample_fixed)) = Inl e)"
proof -
  have "txn_inv sample_fixed" "s_journal_active_sequence sample_fixed \<noteq> 0"
    using sample_fixed_ok by (simp_all add: fixed_txn_def)
  from record_sequence [OF this, of "[40, 600]"] show ?thesis by (auto split: option.splits)
qed

end
