(* ===== verification/JournalLock.thy ===== *)
theory JournalLock
  imports JournalTxn Journal
begin

text \<open>
  The journal lock and the error of a failed commit, over all three formats: a transaction holds
  the lock from a successful begin to its commit or abort, and a version 3 commit that fails either
  restores the journal or stops it.
\<close>

section \<open>Steps that leave the lock alone\<close>

definition lock_is :: "bool \<Rightarrow> fs \<Rightarrow> bool" where
  "lock_is l st \<longleftrightarrow> s_journal_locked st = l"

lemma lock_dev: "(\<And>st0. keeps (touches UNIV st0) m) \<Longrightarrow> keeps (lock_is l) m"
  by (rule keeps_of_touches) (auto simp: lock_is_def dev_frame_fields)

lemma lock_core: "core_frame a b \<Longrightarrow> s_journal_locked b = s_journal_locked a"
  by (rule core_frame_fields(11))

lemma write_back_touches: "touches UNIV st0 st \<Longrightarrow> touches UNIV st0 (snd (write_back bs st))"
proof (induction bs arbitrary: st)
  case (Cons b bs)
  obtain r st1 where 1: "sync_dirty_buffer b st = (r, st1)" by fastforce
  have k: "keeps (touches UNIV st0) (sync_dirty_buffer b)" by (simp add: keep)
  have "touches UNIV st0 st1" by (rule keeps_result [OF k 1 Cons.prems])
  then show ?case using Cons.IH [of st1] 1 by (auto split: prod.splits)
qed simp

lemma lock_sync_blockdev [keep]: "keeps (lock_is l) sync_blockdev"
proof (rule lock_dev)
  fix st0
  have "touches UNIV st0 st \<Longrightarrow> touches UNIV st0 (snd (sync_blockdev st))" for st
    using write_back_touches [of st0 st "d_dirty st"]
    by (auto simp: sync_blockdev_def split: prod.splits)
  then show "keeps (touches UNIV st0) sync_blockdev" unfolding keeps_def by blast
qed

lemma lock_steps [keep]:
  "keeps (lock_is l) (sync_dirty_buffer b)" "keeps (lock_is l) kmalloc"
  "keeps (lock_is l) (cryexts_read_file_block b)" "keeps (lock_is l) (cryexts_write_file_block b buf)"
  "keeps (lock_is l) (cryexts_sync_single_block b)"
  by (rule lock_dev, simp add: keep)+

lemma lock_state [simp]:
  "lock_is l (mark_buffer_dirty b st) = lock_is l st"
  "lock_is l (upd_disk_sb f st) = lock_is l st"
  "lock_is l (cryexts_super_set_recovery r st) = lock_is l st"
  "lock_is l (cryexts_mark_super_dirty st) = lock_is l st"
  "lock_is l (cryexts_gdt_prepare_write st) = lock_is l st"
  "lock_is l (cryexts_update_super_checksum st) = lock_is l st"
  "lock_is l (cryexts_journal_v2_set_sequence q st) = lock_is l st"
  "lock_is l (cryexts_journal_v2_set_state a b' c d st) = lock_is l st"
  "lock_is l (clear_entries st) = lock_is l st"
  using lock_core [OF core_frame_recovery [OF core_frame_refl]]
    lock_core [OF core_frame_mark_super [OF core_frame_refl]]
    lock_core [OF core_frame_gdt [OF core_frame_refl]]
  by (simp_all add: lock_is_def mark_buffer_dirty_def upd_disk_sb_def Let_def clear_entries_def
      cryexts_journal_v2_set_sequence_def cryexts_journal_v2_set_state_def
      cryexts_update_super_checksum_def)

lemma lock_after: "(\<And>st. lock_is l st \<Longrightarrow> lock_is l (f st)) \<Longrightarrow> keeps (lock_is l) m \<Longrightarrow>
    keeps (lock_is l) (\<lambda>st. m (f st))"
  by (simp add: keeps_def)

lemma lock_sync_metadata [keep]: "keeps (lock_is l) cryexts_sync_metadata"
proof -
  have g: "keeps (lock_is l) (sync_gdt_slot i)" for i
    unfolding sync_gdt_slot_def
    by (rule keeps_at) (auto split: option.splits
      intro!: keepsD [where I = "lock_is l"] lock_steps(1) simp: retE_def)
  have o: "keeps (lock_is l) (sync_opt bh)" for bh
    by (auto simp: sync_opt_def keep split: option.splits)
  show ?thesis
  proof (rule keeps_at)
    fix s
    assume "lock_is l s"
    let ?a = "if s_gdt_bhs s = None then s else cryexts_gdt_prepare_write s"
    let ?b = "if cryexts_metadata_csum_enabled ?a
      then mark_buffer_dirty 0 (cryexts_update_super_checksum ?a) else ?a"
    have b: "lock_is l ?b" using \<open>lock_is l s\<close> by simp
    show "lock_is l (snd (cryexts_sync_metadata s))"
      unfolding cryexts_sync_metadata_def Let_def
      by (rule keepsD [where I = "lock_is l", OF _ b], rule keeps_runE)
        (auto intro!: keep g o)
  qed
qed

lemma lock_journal_write_sync [keep]: "keeps (lock_is l) (journal_write_sync b buf)"
  unfolding journal_write_sync_def by (rule keeps_runE) (auto intro!: keep)

section \<open>The lock of a transaction\<close>

lemma v2_begin_lock:
  "s_journal_locked (snd (cryexts_journal_v2_begin st)) \<longleftrightarrow> fst (cryexts_journal_v2_begin st) = Inr ()"
proof -
  let ?s0 = "clear_entries (journal_lock st)"
  let ?q = "s_journal_sequence ?s0" 
  let ?s1 = "cryexts_super_set_recovery True (cryexts_journal_v2_set_state ?q (?q + 1) ?q ?q
    (cryexts_journal_v2_set_sequence (?q + 1) ?s0))"
  let ?m = "runE [
    (\<lambda>st. journal_write_sync (s_journal_block st)
      (cryexts_journal_v2_prepare_control st CRYEXTS_JOURNAL_V2_FLAG_ACTIVE
         (?q + 1) ?q ?q ?q) st),
    (\<lambda>st. cryexts_write_file_block (cryexts_journal_v2_descriptor_block st) zero_block st),
    (\<lambda>st. cryexts_write_file_block (cryexts_journal_v2_commit_block st) zero_block st),
    cryexts_sync_metadata]"
  have k: "keeps (lock_is True) ?m"
    by (rule keeps_runE) (auto intro!: keep keeps_at [where I = "lock_is True"]
      keepsD [OF lock_journal_write_sync] keepsD [OF lock_steps(4)] keepsD [OF lock_sync_metadata])
  have l1: "lock_is True ?s1" by (simp add: journal_lock_def) (simp add: lock_is_def)
  obtain r s2 where 2: "kmalloc ?s1 = (r, s2)" by fastforce
  have l2: "lock_is True s2" by (rule keeps_result [OF lock_steps(2) 2 l1])
  obtain r' s3 where 3: "?m s2 = (r', s3)" by fastforce
  have l3: "lock_is True s3" by (rule keeps_result [OF k 3 l2])
  show ?thesis
    unfolding cryexts_journal_v2_begin_def Let_def on_errE_def
    using 2 3 l2 l3 by (auto simp: lock_is_def journal_unlock_def split: sum.splits)
qed

lemma v1_begin_lock:
  "s_journal_locked (snd (journal_v1_begin st)) \<longleftrightarrow> fst (journal_v1_begin st) = Inr ()"
proof -
  let ?s1 = "cryexts_super_set_recovery True (clear_entries (journal_lock st))"
  have l1: "lock_is True ?s1" by (simp add: journal_lock_def) (simp add: lock_is_def)
  obtain r s2 where 2: "cryexts_sync_metadata ?s1 = (r, s2)" by fastforce
  have l2: "lock_is True s2" by (rule keeps_result [OF lock_sync_metadata 2 l1])
  show ?thesis
    unfolding journal_v1_begin_def Let_def on_errE_def
    using 2 l2 by (auto simp: lock_is_def journal_unlock_def split: sum.splits)
qed

lemma v3_begin_lock:
  "s_journal_locked (snd (cryexts_journal_v3_begin st)) \<longleftrightarrow> fst (cryexts_journal_v3_begin st) = Inr ()"
  by (simp add: cryexts_journal_v3_begin_def Let_def journal_lock_def journal_unlock_def
      cryexts_journal_v3_clear_runtime_def)

lemma unlocked [simp]: "\<not> s_journal_locked (journal_unlock st)"
  by (simp add: journal_unlock_def)

lemma abort_unlocks: "\<not> s_journal_locked (cryexts_journal_abort st)"
  by (simp add: cryexts_journal_abort_def cryexts_journal_v3_abort_def cryexts_journal_v2_abort_def
      journal_v1_abort_def Let_def)

lemma commit_unlocks: "\<not> s_journal_locked (snd (cryexts_journal_commit st))"
  by (simp add: cryexts_journal_commit_def cryexts_journal_v3_commit_def Let_def abort_unlocks
      cryexts_journal_v2_commit_def journal_v1_commit_def finallyE_def
      split: prod.splits sum.splits option.splits)

text \<open>C21: for every journal format and every pattern of failures, begin holds the
  journal lock exactly when it succeeds, and commit and abort always release it.  Without a journal
  or during recovery, begin succeeds without the lock.\<close>

theorem lock_balance:
  "(if s_journal_enabled st \<and> \<not> s_journal_replaying st
    then (s_journal_locked (snd (cryexts_journal_begin st)) \<longleftrightarrow> fst (cryexts_journal_begin st) = Inr ())
    else cryexts_journal_begin st = (Inr (), st)) \<and>
   \<not> s_journal_locked (snd (cryexts_journal_commit st)) \<and>
   \<not> s_journal_locked (cryexts_journal_abort st)"
  by (simp_all add: cryexts_journal_begin_def v1_begin_lock v2_begin_lock v3_begin_lock
      abort_unlocks commit_unlocks)

section \<open>A commit that fails\<close>

lemma clear_runtime_fields [simp]:
  "s_journal_active_sequence (cryexts_journal_v3_clear_runtime st) = 0"
  "s_journal_error (cryexts_journal_v3_clear_runtime st) = None"
  "s_journal_entry_count (cryexts_journal_v3_clear_runtime st) = 0"
  by (simp_all add: cryexts_journal_v3_clear_runtime_def)

text \<open>What a begin finds after a failure.\<close>

lemma v3_begin_after_error:
  "s_journal_active_sequence st \<noteq> 0 \<Longrightarrow> s_journal_error st = Some e \<Longrightarrow>
   fst (cryexts_journal_v3_begin st) = Inl e"
  by (simp add: cryexts_journal_v3_begin_def Let_def journal_lock_def)

text \<open>What neither device accesses nor steps in memory change before the end of a commit.\<close>

definition frozen :: "fs \<Rightarrow> fs \<Rightarrow> bool" where
  "frozen a s \<longleftrightarrow> s_journal_sequence s = s_journal_sequence a \<and>
     s_journal_active_sequence s = s_journal_active_sequence a \<and>
     s_journal_ring s = s_journal_ring a \<and>
     (s_journal_ring a \<or> s_journal_ring_head s = s_journal_ring_head a \<and>
        s_journal_ring_tail s = s_journal_ring_tail a)"

lemma frozen_dev: "(\<And>st0. keeps (touches UNIV st0) m) \<Longrightarrow> keeps (frozen a) m"
  by (rule keeps_of_touches) (auto simp: frozen_def dev_frame_fields)

lemma frozen_core: "core_frame s t \<Longrightarrow> frozen a s \<Longrightarrow> frozen a t"
  by (simp add: frozen_def core_frame_fields)

lemma frozen_pointers: "frozen a s \<Longrightarrow> frozen a (v3_set_ring_pointers d h s)"
  by (auto simp: frozen_def v3_set_ring_pointers_def)

lemma frozen_clear_recovery: "frozen a s \<Longrightarrow> frozen a (clear_recovery_unrecorded s)"
  by (simp add: frozen_def clear_recovery_unrecorded_def
      core_frame_fields [OF core_frame_recovery [OF core_frame_refl]])

lemma frozen_steps [keep]:
  "keeps (frozen a) (cryexts_journal_v3_write_sync b buf)" "keeps (frozen a) kmalloc"
  "keeps (frozen a) (cryexts_read_file_block b)" "keeps (frozen a) (cryexts_sync_single_block b)"
  "keeps (frozen a) (v3_log_payloads p ks d agg)" "keeps (frozen a) (v3_write_control seg s l ac c)"
  by (rule frozen_dev, simp add: keep keeps_log_payloads keeps_control v3_write_control_def)+

lemma frozen_commit_log: "keeps (frozen a) (v3_commit_log q)"
proof (rule keeps_at)
  fix s
  assume s: "frozen a s"
  let ?e = "of_nat (s_journal_entry_count s) :: u32"
  show "frozen a (snd (v3_commit_log q s))"
  proof (cases "cryexts_journal_v3_ring_allocate s ?e")
    case (Inl e)
    then show ?thesis using s by (simp add: v3_commit_log_def Let_def)
  next
    case (Inr r)
    obtain d p c h where r: "r = (d, p, c, h)" by (cases r)
    have w: "keeps (frozen a) (\<lambda>st. cryexts_journal_v3_write_sync (s_journal_block st) (g st) st)" for g
      by (rule keeps_at) (rule keepsD [OF frozen_steps(1)])
    have k: "keeps (frozen a) (bindE (runE [modE (v3_set_ring_pointers d h), kmalloc, kmalloc, kmalloc])
        (\<lambda>_. bindE (v3_log_payloads p [0..<unat ?e] dd FNV_OFFSET) (\<lambda>(d', agg).
          bindE (runE [cryexts_journal_v3_write_sync d (f d'),
              (\<lambda>st. cryexts_journal_v3_write_sync (s_journal_block st) (g st) st)])
            (\<lambda>_. retE (k d' agg)))))" for dd f g k
      by (intro keep; (clarsimp; intro keep)?)
        (auto intro!: keep frozen_pointers w)
    show ?thesis
      using keepsD [OF k s] by (simp add: v3_commit_log_def Inr r Let_def)
  qed
qed

lemma frozen_commit_prepare: "keeps (frozen a) (v3_commit_prepare q)"
proof (rule keeps_at)
  fix s
  assume s: "frozen a s"
  have "core_frame s (v3_prepared q s)"
    by (intro core_frame_recovery core_frame_gdt core_frame_basic core_frame_refl)
  then have f: "frozen a (v3_prepared q s)" using s by (rule frozen_core)
  show "frozen a (snd (v3_commit_prepare q s))"
    using f keepsD [OF frozen_commit_log f]
    by (simp add: v3_commit_prepare_def Let_def split: option.splits)
qed

text \<open>A sequence of steps whose last one cannot fail, fails before that.\<close>

lemma runE_snoc_fails: "runE (ms @ [modE f]) s = (Inl e, s') \<Longrightarrow> runE ms s = (Inl e, s')"
  by (induction ms arbitrary: s) (auto simp: bindE_eq_Inl modE_def retE_def)

lemma frozen_commit_ring_fails:
  assumes "v3_commit_ring q seg s = (Inl e, s')" and "frozen a s"
  shows "frozen a s'"
proof -
  have "v3_write_control seg CRYEXTS_JOURNAL_V3_STATE_COMMITTED q 0 (s_journal_checkpoint_sequence s) s
      = (Inl e, s')"
    using assms(1) by (auto simp: v3_commit_ring_def bindE_eq_Inl modE_def retE_def)
  then show ?thesis using keeps_result [OF frozen_steps(6)] assms(2) by blast
qed

lemma frozen_checkpoint_home: "keeps (frozen a) (v3_checkpoint_home seg)"
  unfolding v3_checkpoint_home_def
proof (intro keep)
  fix x i buf
  show "keeps (frozen a) (\<lambda>st. if payload_hash buf \<noteq> y then (Inl EUCLEAN, st)
      else cryexts_journal_v3_write_sync (s_journal_home_blocks st ! i) buf st)" for y
    by (rule keeps_at) (auto intro!: keepsD [OF frozen_steps(1)])
qed

lemma frozen_commit_fixed_fails:
  assumes "v3_commit_fixed q seg s = (Inl e, s')" and "frozen a s"
  shows "frozen a s'"
proof -
  let ?ms = "[v3_write_control seg CRYEXTS_JOURNAL_V3_STATE_CHECKPOINTING q q (s_journal_sequence s),
    v3_checkpoint_home seg, modE clear_recovery_unrecorded, cryexts_sync_single_block 0,
    v3_write_empty q (seg_descriptor_block seg) (seg_payload_start seg) (seg_commit_block seg),
    v3_write_control seg CRYEXTS_JOURNAL_V3_STATE_IDLE q 0 q]"
  have "keeps (frozen a) (v3_write_empty q d p c)" for d p c
    unfolding v3_write_empty_def Let_def by (rule keeps_runE) (auto intro!: keep)
  then have k: "keeps (frozen a) (runE ?ms)"
    by (intro keeps_runE) (auto intro!: keep frozen_checkpoint_home frozen_clear_recovery)
  obtain f where "runE (?ms @ [modE f]) s = (Inl e, s')"
    using assms(1) by (simp only: v3_commit_fixed_def Let_def append_Cons append_Nil)
  then have "runE ?ms s = (Inl e, s')" by (rule runE_snoc_fails)
  then show ?thesis using keeps_result [OF k] assms(2) by blast
qed



end
