(* ===== verification/Checksums.thy ===== *)
theory Checksums
  imports JournalReplay Sample
begin

text \<open>
  What the layout and the checksums promise: structures are read back as they were written, what
  the code prepares or seals is accepted by the checks of the readers, and a single corrupted byte
  never passes them.
\<close>

section \<open>Superblock and group descriptors\<close>

text \<open>superblock and group descriptors survive a write and a read, and any bytes
  of their size are what writing back the structure read from them gives.\<close>

theorem layout_roundtrip:
  "(wf_super sb \<longrightarrow> dec_super (enc_super sb) = sb) \<and>
   (length b = SUPER_BYTES \<longrightarrow> enc_super (dec_super b) = b) \<and>
   (wf_group g \<longrightarrow> dec_group (enc_group g) = g) \<and>
   (length c = GROUP_BYTES \<longrightarrow> enc_group (dec_group c) = c)"
  by (simp add: dec_enc_super enc_dec_super dec_enc_group enc_dec_group)

theorem layout_roundtrip_witness:
  "dec_super (enc_super sample_sb) = sample_sb \<and>
   enc_group (dec_group (replicate GROUP_BYTES 3)) = replicate GROUP_BYTES 3"
  using layout_roundtrip [of sample_sb _ _ "replicate GROUP_BYTES 3"] sample_wf by simp

text \<open>After an update the superblock passes the check of a mount, and no byte of it but
  the four of the checksum has changed.\<close>

theorem super_seal:
  assumes "wf_super (s_disk_sb st)"
  shows "cryexts_verify_super_checksum (cryexts_update_super_checksum st) = Inr () \<and>
    (\<forall>i. i < SUPER_BYTES \<longrightarrow> \<not> (SUPER_RESERVED_OFF \<le> i \<and> i < SUPER_RESERVED_OFF + 4) \<longrightarrow>
       enc_super (s_disk_sb (cryexts_update_super_checksum st)) ! i = enc_super (s_disk_sb st) ! i)"
proof -
  have "enc_super (set_super_csum (cryexts_super_expected_checksum (s_disk_sb st)) (s_disk_sb st)) ! i =
      enc_super (s_disk_sb st) ! i"
    if "i < SUPER_BYTES" "\<not> (SUPER_RESERVED_OFF \<le> i \<and> i < SUPER_RESERVED_OFF + 4)" for i
    using super.seal_keeps_rest [OF length_enc_super [OF assms] that] assms
    by (simp add: dec_enc_super)
  then show ?thesis
    using verify_update_super [OF assms]
    by (auto simp: cryexts_update_super_checksum_def upd_disk_sb_def)
qed

theorem super_seal_witness:
  "cryexts_verify_super_checksum (cryexts_update_super_checksum sample_fs) = Inr ()"
  using super_seal [of sample_fs] sample_wf by (simp add: wf_fs_def)

text \<open>A mounted superblock with one byte changed does not pass the check, unless the
  change hits the generation (the seed) or switches the checksum off.\<close>

theorem super_corruption:
  assumes wf: "wf_super sb" and ok: "cryexts_verify_super_checksum (st\<lparr>s_disk_sb := sb\<rparr>) = Inr ()"
    and on: "cryexts_metadata_csum_enabled_disk sb"
    and i: "i < SUPER_BYTES" "x \<noteq> enc_super sb ! i"
    and bad: "bad = dec_super ((enc_super sb)[i := x])"
    and same: "sb_fs_generation bad = sb_fs_generation sb" "cryexts_metadata_csum_enabled_disk bad"
  shows "cryexts_verify_super_checksum (st\<lparr>s_disk_sb := bad\<rparr>) = Inl EUCLEAN"
proof -
  have "get32 (sb_reserved sb) 0 = cryexts_super_expected_checksum sb"
    using ok on by (simp add: cryexts_verify_super_checksum_def Let_def split: if_splits)
  then have "get32 (sb_reserved bad) 0 \<noteq> cryexts_super_expected_checksum bad"
    using super.detects_one_byte [OF length_enc_super [OF wf], of i x] i same wf
    by (simp add: dec_enc_super bad)
  then show ?thesis using same by (simp add: cryexts_verify_super_checksum_def Let_def)
qed

lemma get_bytes_update:
  "i < off \<or> off + n \<le> i \<Longrightarrow> off + n \<le> length b \<Longrightarrow> get_bytes (b[i := x]) off n = get_bytes b off n"
  by (rule nth_equalityI) (auto simp: get_bytes_def nth_list_update)

lemma sample_csum_on: "cryexts_metadata_csum_enabled_disk sample_sb"
  by (simp add: cryexts_metadata_csum_enabled_disk_def sample_sb_def const_simps has_flag_def
      CRYEXTS_METADATA_CSUM_FNV1A32_def)

theorem super_corruption_witness:
  "\<exists>sb x. cryexts_verify_super_checksum (sample_fs\<lparr>s_disk_sb := sb\<rparr>) = Inr () \<and>
    cryexts_verify_super_checksum (sample_fs\<lparr>s_disk_sb := dec_super ((enc_super sb)[120 := x])\<rparr>) =
      Inl EUCLEAN"
proof -
  let ?sb = "set_super_csum (cryexts_super_expected_checksum sample_sb) sample_sb"
  let ?x = "enc_super ?sb ! 120 + 1"
  let ?bad = "dec_super ((enc_super ?sb)[120 := ?x])"
  have wf: "wf_super ?sb" using sample_wf by simp
  have "cryexts_update_super_checksum sample_fs = sample_fs\<lparr>s_disk_sb := ?sb\<rparr>"
    by (simp add: cryexts_update_super_checksum_def upd_disk_sb_def sample_csum_on sample_fs_def)
  then have ok: "cryexts_verify_super_checksum (sample_fs\<lparr>s_disk_sb := ?sb\<rparr>) = Inr ()"
    using verify_update_super [of sample_fs] sample_wf by (simp add: wf_fs_def)
  note len = length_enc_super [OF wf]
  have f: "sb_fs_generation ?bad = sb_fs_generation ?sb" "sb_version ?bad = sb_version ?sb"
      "sb_features_ro_compat ?bad = sb_features_ro_compat ?sb"
      "sb_metadata_csum_type ?bad = sb_metadata_csum_type ?sb"
    using dec_enc_super [OF wf, THEN arg_cong [where f = sb_fs_generation]]
      dec_enc_super [OF wf, THEN arg_cong [where f = sb_version]]
      dec_enc_super [OF wf, THEN arg_cong [where f = sb_features_ro_compat]]
      dec_enc_super [OF wf, THEN arg_cong [where f = sb_metadata_csum_type]] len
    by (simp_all add: dec_super_def get32_def get64_def get_bytes_update SUPER_BYTES_def)
  have on: "cryexts_metadata_csum_enabled_disk ?sb" using sample_csum_on by simp
  then have on': "cryexts_metadata_csum_enabled_disk ?bad"
    by (simp only: cryexts_metadata_csum_enabled_disk_def f)
  have "cryexts_verify_super_checksum (sample_fs\<lparr>s_disk_sb := ?bad\<rparr>) = Inl EUCLEAN"
    by (rule super_corruption [OF wf ok on _ _ refl f(1) on']) (simp_all add: SUPER_BYTES_def)
  then show ?thesis using ok by blast
qed

text \<open>After an update every group descriptor passes the check of a mount.\<close>

theorem group_seal:
  assumes "s_groups st = Some gs" and "unat (s_group_count st) \<le> length gs"
    and "list_all wf_group gs"
  shows "cryexts_verify_group_checksums (cryexts_update_group_checksums st) = Inr ()"
  using verify_update_groups [OF assms(1,2)] assms(3) by (simp add: list_all_iff)

theorem group_seal_witness:
  "cryexts_verify_group_checksums (cryexts_update_group_checksums
     (sample_fs\<lparr>s_groups := Some [dec_group (replicate GROUP_BYTES 5)]\<rparr>)) = Inr ()"
  by (rule group_seal [where gs = "[dec_group (replicate GROUP_BYTES 5)]"])
    (simp_all add: sample_fs_def wf_dec_group)

text \<open>an index block of a directory is valid after its checksum is set, and then with
  no byte changed (as long as checksums are on).\<close>

theorem dir_index_seal:
  assumes "length index = BLOCK_SIZE" and "cryexts_metadata_csum_enabled st"
    and "i < BLOCK_SIZE" and "x \<noteq> cryexts_dir_index_set_checksum st block index ! i"
  shows "cryexts_dir_index_checksum_valid st block (cryexts_dir_index_set_checksum st block index) \<and>
    \<not> cryexts_dir_index_checksum_valid st block
       ((cryexts_dir_index_set_checksum st block index)[i := x])"
  using dir_index.seal_check [OF assms(1)] assms
    dir_index.detects_one_byte [OF dir_index.length_seal [OF assms(1)]]
  by (simp add: cryexts_dir_index_checksum_valid_def cryexts_dir_index_set_checksum_def)

theorem dir_index_seal_witness:
  "cryexts_dir_index_checksum_valid sample_fs 21 (cryexts_dir_index_set_checksum sample_fs 21 zero_block)"
proof -
  let ?b = "cryexts_dir_index_set_checksum sample_fs 21 zero_block"
  have "cryexts_metadata_csum_enabled sample_fs"
    using sample_csum_on by (simp add: cryexts_metadata_csum_enabled_def sample_fs_def)
  moreover have "?b ! 0 + 1 \<noteq> ?b ! 0" by simp
  ultimately show ?thesis
    using dir_index_seal [of zero_block sample_fs 0 "?b ! 0 + 1" 21] by (simp add: BLOCK_SIZE_def)
qed

section \<open>Journal blocks\<close>

text \<open>what versions 1 and 2 of the journal prepare is what their validity checks
  accept, with the entry count and sequence number that were stored; the commit block that a reset
  writes is refused.\<close>

theorem v2_blocks_accepted:
  assumes "n \<le> cryexts_journal_v2_payload_capacity st" and "s_journal_blocks st \<noteq> 0"
  shows "cryexts_journal_header_valid st (cryexts_journal_prepare_header flags 0 seq) = Some 0 \<and>
    cryexts_journal_v2_control_valid st (cryexts_journal_v2_prepare_control st f act l t chk) \<and>
    cryexts_journal_v2_descriptor_valid st (cryexts_journal_v2_prepare_descriptor st n seq) = Some (n, seq) \<and>
    cryexts_journal_v2_commit_valid st (cryexts_journal_v2_prepare_commit st n seq) = Some (n, seq) \<and>
    cryexts_journal_v2_commit_valid st (cryexts_journal_v2_prepare_commit_empty st seq) = None"
  using assms prepare_header_valid v2_control_accepted v2_descriptor_accepted v2_commit_accepted
    v2_commit_empty_refused by blast

theorem v2_blocks_accepted_witness:
  "cryexts_journal_v2_commit_valid sample_fs (cryexts_journal_v2_prepare_commit sample_fs 3 8) = Some (3, 8)"
  using v2_blocks_accepted [of 3 sample_fs 0 8 0 0 0 0 0]
  by (simp add: sample_fs_def cryexts_journal_v2_payload_capacity_def Let_def
      cryexts_journal_v2_payload_area_blocks_def CRYEXTS_JOURNAL_V2_MIN_BLOCKS_def
      CRYEXTS_JOURNAL_V2_MAX_ENTRIES_def BLOCK_SIZE_def)

text \<open>One byte of a block that a checksum covers.\<close>

lemma length_nth_update: "length b = n \<Longrightarrow> length (b[i := x]) = n"
  by simp

lemma checksum_one_byte:
  assumes "length b = BLOCK_SIZE" "i < BLOCK_SIZE" "x \<noteq> b ! i"
  shows "v3_checksum_ok (d3_checksum (dec_d3 b)) b \<Longrightarrow>
      \<not> v3_checksum_ok (d3_checksum (dec_d3 (b[i := x]))) (b[i := x])"
    and "v3_checksum_ok (m3_checksum (dec_m3 b)) b \<Longrightarrow>
      \<not> v3_checksum_ok (m3_checksum (dec_m3 (b[i := x]))) (b[i := x])"
    and "v3_checksum_ok (c3_checksum (dec_c3 b)) b \<Longrightarrow>
      \<not> v3_checksum_ok (c3_checksum (dec_c3 (b[i := x]))) (b[i := x])"
  using d3.sealed.detects_one_byte [OF assms(1) _ assms(2,3)]
    m3.sealed.detects_one_byte [OF assms(1) _ assms(2,3)]
    c3.sealed.detects_one_byte [OF assms(1) _ assms(2,3)]
  by (simp_all add: v3_checksum_ok_def journal_v2_checksum_eq)

lemma fnv_one_byte:
  assumes "i < n" "i < length b" "x \<noteq> b ! i"
  shows "fnv_loop (b[i := x]) n h \<noteq> fnv_loop b n h"
proof -
  let ?b = "b[i := x]"
  have split: "[0..<n] = [0..<i] @ i # [Suc i..<n]"
    using assms(1) upt_add_eq_append [of 0 i "n - i"] by (simp add: upt_conv_Cons)
  have pre: "fold (\<lambda>k h. fnv_step (?b ! k) h) [0..<i] h = fold (\<lambda>k h. fnv_step (b ! k) h) [0..<i] h"
    by (rule fold_cong) auto
  have inj: "fold (\<lambda>k h. fnv_step (?b ! k) h) ks h \<noteq> fold (\<lambda>k h. fnv_step (b ! k) h) ks h'"
    if "i \<notin> set ks" "h \<noteq> h'" for ks h h'
    using that by (induction ks arbitrary: h h') auto
  show ?thesis
    unfolding fnv_loop_def split fold_append fold_Cons comp_apply pre
    by (rule inj) (use assms in \<open>auto dest: fnv_step_byte\<close>)
qed



end
