(* ===== verification/Orphan.thy ===== *)
theory Orphan
  imports Balloc InodeFormat
begin

text \<open>
  The list of orphaned inodes (\<open>journal.c\<close>): a singly linked list whose head is in the superblock
  and whose links are in the last bytes of the inodes.  The loops are bounded by the number of
  inodes; \<open>guard\<close> is a 32-bit counter, which that number is taken to fit.
\<close>

text \<open>Offset of \<open>next_orphan\<close> in the inode: after \<open>xattr_block\<close> and the policy number.\<close>

definition NEXT_ORPHAN_OFF :: nat where
  "NEXT_ORPHAN_OFF = INODE_RESERVED_OFF + INODE_RESERVED_LEN - INODE_EXTRA_BYTES + 12"

definition cryexts_orphan_feature_enabled :: "fs \<Rightarrow> bool" where
  "cryexts_orphan_feature_enabled st \<longleftrightarrow>
     has_flag (sb_features_incompat (s_disk_sb st)) CRYEXTS_FEATURE_INCOMPAT_ORPHAN_LIST"

definition get_next_orphan :: "u64 \<times> nat \<Rightarrow> fs \<Rightarrow> u64" where
  "get_next_orphan p st = (case p of (block, offset) \<Rightarrow>
     get64 (bdata st block) (offset + NEXT_ORPHAN_OFF))"

definition put_next_orphan :: "u64 \<times> nat \<Rightarrow> u64 \<Rightarrow> fs \<Rightarrow> fs" where
  "put_next_orphan p v st = (case p of (block, offset) \<Rightarrow>
     set_bdata block (put_bytes (offset + NEXT_ORPHAN_OFF) (le64 v) (bdata st block)) st)"

definition cryexts_orphan_update_cached_inode :: "u64 \<Rightarrow> u64 \<Rightarrow> fs \<Rightarrow> fs" where
  "cryexts_orphan_update_cached_inode ino next_orphan st =
     (case i_next_orphan st ino of None \<Rightarrow> st
      | Some _ \<Rightarrow> st\<lparr>i_next_orphan := (i_next_orphan st)(ino := Some next_orphan)\<rparr>)"

text \<open>Store a link, record the block, mark it dirty and update the cached inode.\<close>

definition orphan_link :: "u64 \<times> nat \<Rightarrow> u64 \<Rightarrow> u64 \<Rightarrow> fs \<Rightarrow> fs" where
  "orphan_link p ino v st =
     cryexts_orphan_update_cached_inode ino v
       (record_and_dirty (Some (fst p)) (put_next_orphan p v st))"

definition set_orphan_head :: "u64 \<Rightarrow> fs \<Rightarrow> fs" where
  "set_orphan_head v = upd_disk_sb (\<lambda>sb. sb\<lparr>sb_orphan_head := v\<rparr>)"

section \<open>Adding an inode\<close>

text \<open>Is \<open>ino\<close> on the list already?\<close>

fun orphan_walk :: "nat \<Rightarrow> u64 \<Rightarrow> u64 \<Rightarrow> (fs, bool) act" where
  "orphan_walk 0 ino walk = retE False"
| "orphan_walk (Suc n) ino walk =
     (if walk = 0 then retE False
      else if walk = ino then retE True
      else bindE (cryexts_get_disk_inode walk) (\<lambda>p st.
             orphan_walk n ino (get_next_orphan p st) st))"

definition cryexts_orphan_set :: "u64 \<Rightarrow> (fs, unit) act" where
  "cryexts_orphan_set ino = (\<lambda>st.
     if \<not> cryexts_orphan_feature_enabled st then (Inr (), st)
     else if ino < CRYEXTS_ROOT_INO \<or> cryexts_inodes_count st < ino then (Inl EINVAL, st)
     else (let old_head = sb_orphan_head (s_disk_sb st) in
       bindE (orphan_walk (unat (cryexts_inodes_count st)) ino old_head) (\<lambda>found.
         if found then retE ()
         else bindE (cryexts_get_disk_inode ino) (\<lambda>p.
           modE (\<lambda>st. cryexts_mark_super_dirty
                   (set_orphan_head ino (orphan_link p ino old_head st))))) st))"

section \<open>Removing an inode\<close>

text \<open>Unlink \<open>cur\<close>, whose predecessor is \<open>prev\<close> (0 for none).\<close>

definition orphan_unlink :: "u64 \<Rightarrow> u64 \<Rightarrow> u64 \<times> nat \<Rightarrow> (fs, unit) act" where
  "orphan_unlink prev cur p = (\<lambda>st.
     let next = get_next_orphan p st; st = orphan_link p cur 0 st in
     runE [
       (if prev = 0 then modE (set_orphan_head next)
        else bindE (cryexts_get_disk_inode prev) (\<lambda>q. modE (orphan_link q prev next))),
       modE cryexts_mark_super_dirty] st)"

fun orphan_remove :: "nat \<Rightarrow> u64 \<Rightarrow> u64 \<Rightarrow> u64 \<Rightarrow> (fs, unit) act" where
  "orphan_remove 0 ino prev cur = retE ()"
| "orphan_remove (Suc n) ino prev cur =
     (if cur = 0 then retE ()
      else bindE (cryexts_get_disk_inode cur) (\<lambda>p st.
             if cur = ino then orphan_unlink prev cur p st
             else orphan_remove n ino cur (get_next_orphan p st) st))"

definition cryexts_orphan_clear :: "u64 \<Rightarrow> (fs, unit) act" where
  "cryexts_orphan_clear ino = (\<lambda>st.
     if \<not> cryexts_orphan_feature_enabled st then (Inr (), st)
     else if ino < CRYEXTS_ROOT_INO \<or> cryexts_inodes_count st < ino then (Inl EINVAL, st)
     else orphan_remove (unat (cryexts_inodes_count st)) ino 0 (sb_orphan_head (s_disk_sb st)) st)"

end
