(* ===== verification/AllocFrame.thy ===== *)
theory AllocFrame
  imports Balloc JournalSafety
begin

text \<open>
  What the accounting around an allocation may change: recording a block and marking the bitmaps
  and the superblock dirty write, in any of the three journal formats, only to the journal area,
  the blocks of the group descriptor table and block 0, and keep every field that the allocator
  decides on.
\<close>

section \<open>The view of the allocator\<close>

text \<open>A group descriptor without its checksum.\<close>

definition gd_shape :: "cryexts_group_desc \<Rightarrow> cryexts_group_desc" where
  "gd_shape g = g\<lparr>gd_reserved := []\<rparr>"

definition sb_view :: "cryexts_super_block \<Rightarrow> u64 list \<times> u32 list" where
  "sb_view sb = ([sb_blocks_count sb, sb_inodes_count sb, sb_first_data_block sb,
      sb_free_blocks_count sb, sb_free_inodes_count sb, sb_orphan_head sb, sb_dir_index_seed sb,
      sb_metadata_csum_type sb, sb_fs_generation sb],
     [sb_features_incompat sb, sb_features_compat sb, sb_features_ro_compat sb, sb_version sb])"

definition alloc_view where
  "alloc_view st = (sb_view (s_disk_sb st), map_option (map gd_shape) (s_groups st),
     (s_block_bitmap_bh st, s_inode_bitmap_bh st, s_gdt_bhs st, s_group_block_bitmap_bhs st,
      s_group_inode_bitmap_bhs st),
     [s_group_count st, s_blocks_per_group st, s_inodes_per_group st, s_group_desc_table_blocks st,
      s_inode_table_start st, s_journal_block st, s_journal_blocks st, s_next_ino st,
      s_next_data_block st], s_journal_enabled st, d_fault st, i_next_orphan st)"

definition alloc_frame :: "u64 set \<Rightarrow> fs \<Rightarrow> fs \<Rightarrow> bool" where
  "alloc_frame S a b \<longleftrightarrow>
     alloc_view b = alloc_view a \<and> (\<forall>x. x \<notin> S \<longrightarrow> d_cache b x = d_cache a x)"

lemma alloc_frame_refl [simp]: "alloc_frame S a a"
  by (simp add: alloc_frame_def)

lemma alloc_frame_trans: "alloc_frame S a b \<Longrightarrow> alloc_frame S b c \<Longrightarrow> alloc_frame S a c"
  by (simp add: alloc_frame_def)

text \<open>The journal area does not wrap and is not block 0.\<close>

definition area_ok :: "fs \<Rightarrow> bool" where
  "area_ok st \<longleftrightarrow> s_journal_block st \<noteq> 0 \<and> unat (s_journal_block st) + unat (s_journal_blocks st) < 2 ^ 64"

lemma area_internal:
  "area_ok st \<Longrightarrow> cryexts_journal_block_is_internal st b \<longleftrightarrow>
     unat (s_journal_block st) \<le> unat b \<and> unat b < unat (s_journal_block st) + unat (s_journal_blocks st)"
  by (simp add: area_ok_def cryexts_journal_block_is_internal_def word_le_nat_alt word_less_nat_alt
      unat_plus_if')

lemma area_nonzero: "area_ok st \<Longrightarrow> cryexts_journal_block_is_internal st b \<Longrightarrow> b \<noteq> 0"
  by (auto simp: area_internal) (auto simp: area_ok_def unat_eq_0)

lemma area_offset:
  "area_ok st \<Longrightarrow> i < s_journal_blocks st \<Longrightarrow> cryexts_journal_block_is_internal st (s_journal_block st + i)"
  by (simp add: area_internal) (simp add: area_ok_def word_less_nat_alt unat_plus_if')

lemma v2_slots_internal:
  assumes ok: "area_ok st" and cap: "entries < unat (cryexts_journal_v2_payload_capacity st)"
  shows "cryexts_journal_block_is_internal st (cryexts_journal_v2_payload_start st + of_nat entries)"
    "cryexts_journal_block_is_internal st (cryexts_journal_v2_descriptor_block st)"
    "cryexts_journal_block_is_internal st (cryexts_journal_v2_commit_block st)"
proof -
  let ?n = "unat (s_journal_blocks st)"
  let ?m = "min (of_nat CRYEXTS_JOURNAL_V2_MAX_ENTRIES) (s_journal_blocks st - 3)"
  have big: "\<not> s_journal_blocks st < CRYEXTS_JOURNAL_V2_MIN_BLOCKS"
    using cap by (auto simp: cryexts_journal_v2_payload_capacity_def split: if_splits)
  then have n: "4 \<le> ?n" by (simp add: CRYEXTS_JOURNAL_V2_MIN_BLOCKS_def word_less_nat_alt)
  have "entries < unat (ucast ?m :: u32)"
    using cap big by (simp add: cryexts_journal_v2_payload_capacity_def)
  also have "\<dots> \<le> unat ?m" by (rule unat_ucast_le)
  also have "\<dots> \<le> unat (s_journal_blocks st - 3)" by (simp add: word_le_nat_alt [symmetric])
  also have "\<dots> = ?n - 3" using n by (simp add: unat_sub_if')
  finally have e: "entries < ?n - 3" .
  have eu: "unat (of_nat entries :: u64) = entries"
    using e unsigned_less [of "s_journal_blocks st", where 'a = nat] by (simp add: unat_of_nat)
  have "2 + of_nat entries < s_journal_blocks st"
    using e eu unsigned_less [of "s_journal_blocks st", where 'a = nat]
    by (simp add: word_less_nat_alt unat_plus_if') linarith
  from area_offset [OF ok this]
  show "cryexts_journal_block_is_internal st (cryexts_journal_v2_payload_start st + of_nat entries)"
    by (simp add: cryexts_journal_v2_payload_start_def add.assoc)
  have "1 < s_journal_blocks st" using n by (simp add: word_less_nat_alt)
  from area_offset [OF ok this]
  show "cryexts_journal_block_is_internal st (cryexts_journal_v2_descriptor_block st)"
    by (simp add: cryexts_journal_v2_descriptor_block_def)
  have "s_journal_blocks st - 1 < s_journal_blocks st"
    using n by (simp add: word_less_nat_alt unat_sub_if')
  from area_offset [OF ok this]
  show "cryexts_journal_block_is_internal st (cryexts_journal_v2_commit_block st)"
    by (simp add: cryexts_journal_v2_commit_block_def add_diff_eq)
qed

section \<open>Steps inside the frame\<close>

lemma view_area:
  assumes "alloc_view b = alloc_view a"
  shows "s_journal_block b = s_journal_block a" "s_journal_blocks b = s_journal_blocks a"
    "area_ok b = area_ok a"
    "cryexts_journal_block_is_internal b = cryexts_journal_block_is_internal a"
    "cryexts_journal_v2_payload_capacity b = cryexts_journal_v2_payload_capacity a"
    "s_gdt_bhs b = s_gdt_bhs a" "s_group_desc_table_blocks b = s_group_desc_table_blocks a"
    "s_group_count b = s_group_count a"
  using assms
  by (simp_all add: alloc_view_def area_ok_def fun_eq_iff cryexts_journal_block_is_internal_def
      cryexts_journal_v2_payload_capacity_def)

lemma frame_set_bdata:
  "alloc_frame S a st \<Longrightarrow> b \<in> S \<Longrightarrow> b \<noteq> 0 \<Longrightarrow> alloc_frame S a (set_bdata b buf st)"
  by (auto simp: alloc_frame_def set_bdata_def alloc_view_def)

lemma frame_mark_dirty [simp]: "alloc_frame S a (mark_buffer_dirty b st) = alloc_frame S a st"
  by (simp add: alloc_frame_def mark_buffer_dirty_def alloc_view_def)

lemma frame_super_checksum:
  "alloc_frame S a (cryexts_update_super_checksum st) = alloc_frame S a st"
  by (simp add: alloc_frame_def cryexts_update_super_checksum_def upd_disk_sb_def alloc_view_def
      sb_view_def set_super_csum_def)

lemma frame_group_checksums:
  "alloc_frame S a (cryexts_update_group_checksums st) = alloc_frame S a st"
proof -
  have "map gd_shape (fold (\<lambda>i gs. gs[i := set_group_csum (c (gs ! i)) (gs ! i)]) is gs) = map gd_shape gs"
    for c "is" gs
  proof (induction "is" arbitrary: gs)
    case (Cons i "is")
    have "map gd_shape (gs[i := set_group_csum (c (gs ! i)) (gs ! i)]) = map gd_shape gs"
      by (cases "i < length gs")
        (simp_all add: map_update gd_shape_def set_group_csum_def list_update_same_conv
          list_update_beyond)
    then show ?case using Cons by simp
  qed simp
  then show ?thesis
    by (auto simp: alloc_frame_def alloc_view_def cryexts_update_group_checksums_def
        split: option.splits)
qed

lemma frame_io [keep]: "keeps (alloc_frame S a) (io_step e)"
  by (auto simp: keeps_def io_step_def alloc_frame_def alloc_view_def)

lemma frame_kmalloc [keep]: "keeps (alloc_frame S a) kmalloc"
  unfolding kmalloc_def by (rule frame_io)

lemma frame_read [keep]: "keeps (alloc_frame S a) (cryexts_read_file_block b)"
  unfolding cryexts_read_file_block_def by (intro keep frame_io)

lemma frame_write: "b \<in> S \<Longrightarrow> b \<noteq> 0 \<Longrightarrow> keeps (alloc_frame S a) (cryexts_write_file_block b buf)"
  unfolding cryexts_write_file_block_def
  by (intro keep frame_io keeps_modE) (simp add: frame_set_bdata)

lemma frame_sync_buffer [keep]: "keeps (alloc_frame S a) (sync_dirty_buffer b)"
  by (auto simp: keeps_def sync_dirty_buffer_def io_step_def alloc_frame_def alloc_view_def
      split: prod.splits sum.splits)

lemma frame_sync_single [keep]: "keeps (alloc_frame S a) (cryexts_sync_single_block b)"
  unfolding cryexts_sync_single_block_def by (intro keep frame_io frame_sync_buffer)

section \<open>Recording a block\<close>

text \<open>\<open>S\<close> has block 0, the journal area and the blocks of the group descriptor table.\<close>

definition side_blocks :: "u64 set \<Rightarrow> fs \<Rightarrow> bool" where
  "side_blocks S a \<longleftrightarrow> 0 \<in> S \<and> area_ok a \<and> journal_area a \<subseteq> S \<and>
     (\<forall>i b. i < unat (s_group_desc_table_blocks a) \<longrightarrow> gdt_slot a i = Some b \<longrightarrow> b \<in> S \<and> b \<noteq> 0)"

text \<open>An internal block of a state in the frame is one of the side blocks.\<close>

lemma side_internal:
  assumes "side_blocks S a" "alloc_frame S a st" "cryexts_journal_block_is_internal st b"
  shows "b \<in> S" "b \<noteq> 0"
  using assms area_nonzero [of a b] view_area [of st a]
  by (auto simp: side_blocks_def alloc_frame_def)

lemma frame_v3_record: "keeps (alloc_frame S a) (cryexts_journal_v3_record_block b)"
  by (auto simp: keeps_def cryexts_journal_v3_record_block_def Let_def alloc_frame_def alloc_view_def
      split: option.splits)

lemma frame_v2_record:
  assumes S: "side_blocks S a"
  shows "keeps (alloc_frame S a) (cryexts_journal_v2_record_block home)"
proof (rule keeps_at)
  fix st
  assume st: "alloc_frame S a st"
  let ?n = "s_journal_entry_count st"
  show "alloc_frame S a (snd (cryexts_journal_v2_record_block home st))"
  proof (cases "?n < unat (cryexts_journal_v2_payload_capacity st)")
    case True
    have area: "area_ok s" and cap: "?n < unat (cryexts_journal_v2_payload_capacity s)"
      if "alloc_frame S a s" for s
      using that st True S view_area [of s a] view_area [of st a]
      by (simp_all add: alloc_frame_def side_blocks_def)
    note slot = side_internal [OF S _ v2_slots_internal(1) [OF area cap]]
      side_internal [OF S _ v2_slots_internal(2) [OF area cap]]
      side_internal [OF S _ v2_slots_internal(3) [OF area cap]]
    have up: "alloc_frame S a (s\<lparr>s_journal_home_blocks := hb\<rparr>)"
        "alloc_frame S a (s\<lparr>s_journal_entry_count := k\<rparr>)" if "alloc_frame S a s" for s hb k
      using that by (simp_all add: alloc_frame_def alloc_view_def)
    have pay: "keeps (alloc_frame S a) (journal_v2_write_payload home ?n)"
      unfolding journal_v2_write_payload_def Let_def
      by (intro keeps_bindE frame_read, rule keeps_here [where f = "\<lambda>s. runE [_ s, _ s]"])
        (auto intro!: keeps_bindE keeps_runE frame_write frame_sync_single keeps_basic simp: slot)
    have ctl: "keeps (alloc_frame S a) (journal_v2_write_control_blocks (Suc ?n))"
      unfolding journal_v2_write_control_blocks_def Let_def
      by (rule keeps_here [where f = "\<lambda>s. runE [_ s, _ s, _ s, _ s]"])
        (auto intro!: keeps_bindE keeps_runE frame_write frame_sync_single keeps_basic simp: slot)
    have "keeps (alloc_frame S a) (runE [kmalloc, kmalloc, journal_v2_write_payload home ?n,
          modE (\<lambda>st. st\<lparr>s_journal_home_blocks := (s_journal_home_blocks st)[?n := home]\<rparr>),
          on_errE (journal_v2_write_control_blocks (Suc ?n))
            (\<lambda>_ st. st\<lparr>s_journal_home_blocks := (s_journal_home_blocks st)[?n := 0]\<rparr>),
          modE (\<lambda>st. st\<lparr>s_journal_entry_count := Suc ?n\<rparr>)])"
      by (rule keeps_runE) (auto intro!: pay ctl frame_kmalloc keeps_modE keeps_on_errE up)
    then show ?thesis
      using st unfolding cryexts_journal_v2_record_block_def Let_def by (auto dest: keepsD)
  qed (use st in \<open>simp add: cryexts_journal_v2_record_block_def Let_def not_less\<close>)
qed

lemma frame_record_super: "keeps (alloc_frame S a) (cryexts_journal_record_block 0)"
  using keepsD [OF frame_v3_record]
  by (auto simp: keeps_def cryexts_journal_record_block_def journal_record_with_def
      cryexts_journal_v2_record_block_def journal_v1_record_with_def journal_home_block_ok_def Let_def)

text \<open>Marking the superblock dirty copies the two counters of the next numbers into it.\<close>

lemma frame_mark_super:
  assumes "alloc_frame S a st"
  shows "alloc_frame S a (cryexts_mark_super_dirty st)"
proof -
  have "alloc_frame S a (upd_disk_sb (\<lambda>sb. sb\<lparr>sb_next_ino := s_next_ino st,
      sb_next_data_block := s_next_data_block st\<rparr>) st)"
    using assms by (simp add: alloc_frame_def alloc_view_def sb_view_def upd_disk_sb_def)
  then show ?thesis
    by (simp add: mark_super_dirty_eq Let_def frame_super_checksum
        keeps_ignoreE [OF frame_record_super])
qed

lemma frame_v1_store:
  assumes S: "side_blocks S a" and st: "alloc_frame S a st" and blocks: "s_journal_blocks st \<noteq> 0"
  shows "alloc_frame S a (snd (journal_v1_store_entry cryexts_mark_super_dirty home buf st))"
proof -
  have jb: "s_journal_block st \<in> S" "s_journal_block st \<noteq> 0"
    using side_internal [OF S st] area_offset [of st 0] blocks S st view_area [of st a]
    by (auto simp: side_blocks_def alloc_frame_def word_neq_0_conv [symmetric] word_greater_zero_iff)
  have hdr: "keeps (alloc_frame S a) (runE [cryexts_journal_write_header b,
      cryexts_sync_single_block (s_journal_block st)])" for b
  proof -
    have "keeps (alloc_frame S a) (cryexts_journal_write_header b)"
    proof (rule keeps_at)
      fix s
      assume s: "alloc_frame S a s"
      then have "s_journal_block s = s_journal_block st"
        using st view_area [of s a] view_area [of st a] by (simp add: alloc_frame_def)
      then show "alloc_frame S a (snd (cryexts_journal_write_header b s))"
        using s jb keepsD [OF frame_write] by (auto simp: cryexts_journal_write_header_def)
    qed
    then show ?thesis by (auto intro!: keeps_bindE keeps_basic frame_sync_single)
  qed
  let ?seq = "s_journal_sequence st + 1" and ?n = "s_journal_entry_count st"
  let ?s = "upd_disk_sb (\<lambda>sb. sb\<lparr>sb_journal_sequence := ?seq\<rparr>) (st\<lparr>s_journal_sequence := ?seq\<rparr>)"
  let ?m = "cryexts_mark_super_dirty (?s\<lparr>s_journal_home_blocks := (s_journal_home_blocks ?s)[?n := home],
    s_journal_entry_count := Suc ?n\<rparr>)"
  have m: "alloc_frame S a ?m"
    by (rule frame_mark_super)
      (use st in \<open>simp add: alloc_frame_def alloc_view_def sb_view_def upd_disk_sb_def\<close>)
  then have block: "s_journal_block ?m = s_journal_block st"
    using st view_area(1) [of ?m a] view_area(1) [of st a] by (simp only: alloc_frame_def)
  have "\<exists>b. journal_v1_store_entry cryexts_mark_super_dirty home buf st =
      runE [cryexts_journal_write_header b, cryexts_sync_single_block (s_journal_block ?m)] ?m"
    unfolding journal_v1_store_entry_def Let_def by (intro exI, rule refl)
  then show ?thesis unfolding block using keepsD [OF hdr m] by auto
qed

lemma frame_v1_record:
  assumes S: "side_blocks S a"
  shows "keeps (alloc_frame S a) (journal_v1_record_with cryexts_mark_super_dirty home)"
proof (rule keeps_at)
  fix st
  assume st: "alloc_frame S a st"
  let ?n = "s_journal_entry_count st" and ?f = "alloc_frame S a"
  let ?slot = "s_journal_block st + 1 + of_nat ?n"
  show "?f (snd (journal_v1_record_with cryexts_mark_super_dirty home st))"
  proof (cases "s_journal_blocks st \<noteq> 0 \<and> of_nat (?n + 1) < s_journal_blocks st")
    case True
    then have "cryexts_journal_block_is_internal st (s_journal_block st + of_nat (?n + 1))"
      using area_offset [of st] S st view_area [of st a] by (simp add: side_blocks_def alloc_frame_def)
    then have slot: "?slot \<in> S" "?slot \<noteq> 0"
      using side_internal [OF S st] by (simp_all add: add.assoc add.left_commute)
    have store: "?f (snd (journal_v1_store_entry cryexts_mark_super_dirty home b s))" if "?f s" for b s
    proof (rule frame_v1_store [OF S that])
      show "s_journal_blocks s \<noteq> 0"
        using True that st view_area [of s a] view_area [of st a] by (simp add: alloc_frame_def)
    qed
    have hdr: "keeps ?f (\<lambda>st. case cryexts_journal_read_header st of
            (r, st) \<Rightarrow>
              (case r of
                 Inl e \<Rightarrow> if e \<noteq> EIO then (Inl e, st)
                          else journal_v1_store_entry cryexts_mark_super_dirty home
                            (journal_v1_header_for st r) st
               | Inr _ \<Rightarrow> journal_v1_store_entry cryexts_mark_super_dirty home
                            (journal_v1_header_for st r) st))"
    proof (rule keeps_at)
      fix s
      assume s: "?f s"
      have "?f (snd (cryexts_journal_read_header s))"
        using s keepsD [OF frame_read] by (simp add: cryexts_journal_read_header_def)
      then show "?f (snd (case cryexts_journal_read_header s of
            (r, st) \<Rightarrow>
              (case r of
                 Inl e \<Rightarrow> if e \<noteq> EIO then (Inl e, st)
                          else journal_v1_store_entry cryexts_mark_super_dirty home
                            (journal_v1_header_for st r) st
               | Inr _ \<Rightarrow> journal_v1_store_entry cryexts_mark_super_dirty home
                            (journal_v1_header_for st r) st)))"
        by (auto simp: store split: prod.splits sum.splits)
    qed
    have pay: "keeps ?f (bindE (cryexts_read_file_block home) (\<lambda>block_buf.
        runE [cryexts_write_file_block ?slot block_buf, cryexts_sync_single_block ?slot]))"
      by (auto intro!: keeps_bindE keeps_basic frame_read frame_write frame_sync_single slot
          simp del: slot)
    show ?thesis
      using st keepsD [OF keeps_runE, of "[_, _, _, _]" ?f] pay hdr frame_kmalloc
      unfolding journal_v1_record_with_def Let_def
      by (auto intro!: keepsD [OF keeps_bindE, where I = ?f] keeps_bindE keeps_basic)
  qed (use st in \<open>auto simp: journal_v1_record_with_def Let_def not_less\<close>)
qed

lemma frame_record:
  assumes "side_blocks S a"
  shows "keeps (alloc_frame S a) (cryexts_journal_record_block home)"
  using keepsD [OF frame_v3_record] keepsD [OF frame_v2_record [OF assms]]
    keepsD [OF frame_v1_record [OF assms]]
  by (auto simp: keeps_def cryexts_journal_record_block_def journal_record_with_def)

lemma frame_record_and_dirty:
  "side_blocks S a \<Longrightarrow> alloc_frame S a st \<Longrightarrow> alloc_frame S a (record_and_dirty bh st)"
  by (simp add: record_and_dirty_def cryexts_journal_record_bh_def keeps_ignoreE [OF frame_record]
      split: option.splits)

lemma frame_fold:
  "(\<And>x s. x \<in> set xs \<Longrightarrow> alloc_frame S a s \<Longrightarrow> alloc_frame S a (f x s)) \<Longrightarrow> alloc_frame S a st \<Longrightarrow>
   alloc_frame S a (fold f xs st)"
  by (induction xs arbitrary: st) auto

lemma frame_gdt:
  assumes S: "side_blocks S a" and st: "alloc_frame S a st"
  shows "alloc_frame S a (cryexts_gdt_prepare_write st)"
proof -
  have slot: "b \<in> S \<and> b \<noteq> 0"
    if "alloc_frame S a s" "i < unat (s_group_desc_table_blocks s)" "gdt_slot s i = Some b" for s i b
    using that S view_area [of s a] by (auto simp: side_blocks_def alloc_frame_def gdt_slot_def)
  have copy: "alloc_frame S a (cryexts_copy_gdt_to_blocks s)" if s: "alloc_frame S a s" for s
    unfolding cryexts_copy_gdt_to_blocks_def
  proof (split if_split, intro conjI impI s frame_fold)
    fix i t
    assume "i \<in> set [0..<unat (s_group_desc_table_blocks s)]" and t: "alloc_frame S a t"
    then have "i < unat (s_group_desc_table_blocks t)"
      using s view_area [of s a] view_area [of t a] by (simp add: alloc_frame_def)
    then show "alloc_frame S a (case gdt_slot t i of None \<Rightarrow> t
        | Some bh \<Rightarrow> set_bdata bh (get_bytes (gdt_storage t) (i * BLOCK_SIZE) BLOCK_SIZE) t)"
      using t slot [OF t] by (auto simp: frame_set_bdata split: option.splits)
  qed
  show ?thesis
    using st by (simp add: cryexts_gdt_prepare_write_def Let_def copy frame_group_checksums)
qed

lemma frame_mark_bitmap:
  assumes S: "side_blocks S a" and st: "alloc_frame S a st"
  shows "alloc_frame S a (cryexts_mark_bitmap_dirty st)"
  using st by (auto simp: cryexts_mark_bitmap_dirty_def Let_def
      intro!: frame_record_and_dirty [OF S] frame_fold frame_gdt [OF S])

end
