(* ===== verification/BitmapLayout.thy ===== *)
theory BitmapLayout
  imports AllocFrame
begin

text \<open>
  Where the bit of a block and of an inode is: the bitmaps of the file system, one pair in all or
  one per group, and the invariant under which every data block and every inode has a bit of its
  own (\<open>alloc_ok\<close>).  The functions here use natural numbers; \<open>block_place\<close> and
  \<open>inode_place\<close> connect them with the words of the code.
\<close>

section \<open>The layout\<close>

definition gd_place :: "cryexts_group_desc \<Rightarrow> cryexts_group_desc" where
  "gd_place g = g\<lparr>gd_reserved := [], gd_free_blocks_count := 0, gd_free_inodes_count := 0\<rparr>"

text \<open>The fields that no allocation changes.\<close>

definition geo_view where
  "geo_view st =
     ([sb_blocks_count (s_disk_sb st), sb_inodes_count (s_disk_sb st), sb_first_data_block (s_disk_sb st)],
      sb_features_incompat (s_disk_sb st), map_option (map gd_place) (s_groups st),
      (s_block_bitmap_bh st, s_inode_bitmap_bh st, s_gdt_bhs st, s_group_block_bitmap_bhs st,
       s_group_inode_bitmap_bhs st),
      [s_group_count st, s_blocks_per_group st, s_inodes_per_group st, s_group_desc_table_blocks st,
       s_inode_table_start st, s_journal_block st, s_journal_blocks st], s_journal_enabled st)"

definition ngroups :: "fs \<Rightarrow> nat" where
  "ngroups st = (if cryexts_has_block_groups st then unat (s_group_count st) else 1)"

definition group_at :: "fs \<Rightarrow> nat \<Rightarrow> cryexts_group_desc" where
  "group_at st i = the (s_groups st) ! i"

definition bmap :: "fs \<Rightarrow> nat \<Rightarrow> u64" where
  "bmap st i = (if cryexts_has_block_groups st
     then the (bitmap_slot (s_group_block_bitmap_bhs st) (of_nat i)) else the (s_block_bitmap_bh st))"

definition imap :: "fs \<Rightarrow> nat \<Rightarrow> u64" where
  "imap st i = (if cryexts_has_block_groups st
     then the (bitmap_slot (s_group_inode_bitmap_bhs st) (of_nat i)) else the (s_inode_bitmap_bh st))"

definition bitmaps :: "fs \<Rightarrow> u64 list" where
  "bitmaps st = map (bmap st) [0..<ngroups st] @ map (imap st) [0..<ngroups st]"

definition bfirst :: "fs \<Rightarrow> nat \<Rightarrow> nat" where
  "bfirst st i = (if cryexts_has_block_groups st then unat (gd_group_start (group_at st i)) else 0)"

definition bcount :: "fs \<Rightarrow> nat \<Rightarrow> nat" where
  "bcount st i = unat (if cryexts_has_block_groups st then gd_blocks_count (group_at st i)
                       else cryexts_blocks_count st)"

definition iper :: "fs \<Rightarrow> nat" where
  "iper st = unat (if cryexts_has_block_groups st then s_inodes_per_group st
                   else cryexts_inodes_count st)"

text \<open>The block of the inode table with the inode.\<close>

definition inode_block :: "fs \<Rightarrow> u64 \<Rightarrow> u64" where
  "inode_block st ino =
     (if cryexts_has_block_groups st
      then cryexts_group_inode_table_start st ((ino - 1) div s_inodes_per_group st) +
           ((ino - 1) mod s_inodes_per_group st) div of_nat cryexts_inodes_per_block
      else s_inode_table_start st + (ino - 1) div of_nat cryexts_inodes_per_block)"

definition inode_space :: "fs \<Rightarrow> u64 set" where
  "inode_space st = {ino. CRYEXTS_ROOT_INO \<le> ino \<and> ino \<le> cryexts_inodes_count st}"

definition side :: "fs \<Rightarrow> u64 set" where
  "side st = insert 0 (journal_area st) \<union>
     {b. \<exists>i < unat (s_group_desc_table_blocks st). gdt_slot st i = Some b}"

section \<open>The invariant\<close>

definition groups_ok :: "fs \<Rightarrow> bool" where
  "groups_ok st \<longleftrightarrow>
     s_groups st \<noteq> None \<and> length (the (s_groups st)) = unat (s_group_count st) \<and>
     s_group_block_bitmap_bhs st \<noteq> None \<and> s_group_inode_bitmap_bhs st \<noteq> None \<and>
     (\<forall>i < ngroups st. bitmap_slot (s_group_block_bitmap_bhs st) (of_nat i) \<noteq> None \<and>
        bitmap_slot (s_group_inode_bitmap_bhs st) (of_nat i) \<noteq> None \<and>
        bfirst st i = i * unat (s_blocks_per_group st) \<and>
        0 < bcount st i \<and> bcount st i \<le> unat (s_blocks_per_group st) \<and>
        bfirst st i + bcount st i \<le> unat (cryexts_blocks_count st)) \<and>
     0 < ngroups st \<and> 0 < iper st \<and>
     (ngroups st - 1) * iper st \<le> unat (cryexts_inodes_count st) \<and>
     unat (cryexts_inodes_count st) \<le> ngroups st * iper st \<and> ngroups st * iper st < 2 ^ 64"

text \<open>The bits of blocks that hold metadata are set, so that a scan never finds them.\<close>

definition marked :: "fs \<Rightarrow> bool" where
  "marked st \<longleftrightarrow> (\<forall>i < ngroups st. \<forall>k < bcount st i.
     sb_first_data_block (s_disk_sb st) \<le> of_nat (bfirst st i + k) \<longrightarrow>
     \<not> cryexts_data_block_valid st (of_nat (bfirst st i + k)) \<longrightarrow>
     cryexts_bitmap_test (d_cache st (bmap st i)) (of_nat k))"

definition alloc_ok :: "fs \<Rightarrow> bool" where
  "alloc_ok st \<longleftrightarrow>
     area_ok st \<and>
     (\<forall>i < unat (s_group_desc_table_blocks st). gdt_slot st i \<noteq> Some 0) \<and>
     distinct (bitmaps st) \<and>
     (\<forall>b \<in> set (bitmaps st). b \<notin> side st \<and> length (d_cache st b) = BLOCK_SIZE) \<and>
     (\<forall>ino \<in> inode_space st. inode_block st ino \<notin> set (bitmaps st) \<and> inode_block st ino \<noteq> 0) \<and>
     (\<forall>i < ngroups st. bcount st i \<le> 32768) \<and> iper st \<le> 32768 \<and>
     0 < unat (sb_first_data_block (s_disk_sb st)) \<and>
     (if cryexts_has_block_groups st then groups_ok st
      else s_block_bitmap_bh st \<noteq> None \<and> s_inode_bitmap_bh st \<noteq> None) \<and>
     marked st"

lemma alloc_okD:
  assumes "alloc_ok st"
  shows "area_ok st" "distinct (bitmaps st)" "marked st" "0 < ngroups st"
    "\<And>b. b \<in> set (bitmaps st) \<Longrightarrow> b \<notin> side st"
    "\<And>b. b \<in> set (bitmaps st) \<Longrightarrow> length (d_cache st b) = BLOCK_SIZE"
    "\<And>i. i < ngroups st \<Longrightarrow> bcount st i \<le> 32768"
    "cryexts_has_block_groups st \<Longrightarrow> groups_ok st"
  using assms by (auto simp: alloc_ok_def groups_ok_def ngroups_def)

lemma alloc_ok_side: "alloc_ok st \<Longrightarrow> side_blocks (side st) st"
  by (auto simp: side_blocks_def alloc_ok_def side_def)

lemma bitmap_in:
  "i < ngroups st \<Longrightarrow> bmap st i \<in> set (bitmaps st)" "i < ngroups st \<Longrightarrow> imap st i \<in> set (bitmaps st)"
  by (auto simp: bitmaps_def)

lemma bitmaps_inj:
  assumes "distinct (bitmaps st)" "i < ngroups st" "j < ngroups st"
  shows "bmap st i = bmap st j \<longleftrightarrow> i = j" "imap st i = imap st j \<longleftrightarrow> i = j" "bmap st i \<noteq> imap st j"
proof -
  have "inj_on (bmap st) {0..<ngroups st}" "inj_on (imap st) {0..<ngroups st}"
      "bmap st ` {0..<ngroups st} \<inter> imap st ` {0..<ngroups st} = {}"
    using assms(1) by (simp_all add: bitmaps_def distinct_map)
  then show "bmap st i = bmap st j \<longleftrightarrow> i = j" "imap st i = imap st j \<longleftrightarrow> i = j" "bmap st i \<noteq> imap st j"
    using assms(2,3) by (auto simp: inj_on_eq_iff disjoint_iff image_iff)
qed

lemma bitmap_bdata: "alloc_ok st \<Longrightarrow> b \<in> set (bitmaps st) \<Longrightarrow> bdata st b = d_cache st b"
  using alloc_okD(5) by (auto simp: bdata_def side_def)

section \<open>The place of a block\<close>

definition block_group :: "fs \<Rightarrow> u64 \<Rightarrow> nat" where
  "block_group st b = (if cryexts_has_block_groups st then unat b div unat (s_blocks_per_group st) else 0)"

definition block_bit :: "fs \<Rightarrow> u64 \<Rightarrow> nat" where
  "block_bit st b = unat b - bfirst st (block_group st b)"

text \<open>Does the block have its bit set?\<close>

definition block_taken :: "fs \<Rightarrow> u64 \<Rightarrow> bool" where
  "block_taken st b = cryexts_bitmap_test (d_cache st (bmap st (block_group st b))) (of_nat (block_bit st b))"

lemma group_step:
  fixes n k p :: nat
  assumes "n = i * p + k" "k < p"
  shows "n div p = i" "n - i * p = k"
  using assms by simp_all

lemma block_at:
  assumes ok: "alloc_ok st" and i: "i < ngroups st" and k: "k < bcount st i"
  defines "b \<equiv> of_nat (bfirst st i + k) :: u64"
  shows "unat b = bfirst st i + k" "block_group st b = i" "block_bit st b = k"
proof -
  have bound: "bfirst st i + bcount st i \<le> unat (cryexts_blocks_count st)"
  proof (cases "cryexts_has_block_groups st")
    case True
    then show ?thesis using alloc_okD(8) [OF ok] i by (auto simp: groups_ok_def)
  qed (simp add: bfirst_def bcount_def)
  then have "bfirst st i + k < 2 ^ 64"
    using k unsigned_less [of "cryexts_blocks_count st", where 'a = nat] by simp
  then show u: "unat b = bfirst st i + k" by (simp add: b_def unat_of_nat del: of_nat_add)
  show g: "block_group st b = i"
  proof (cases "cryexts_has_block_groups st")
    case True
    then have "bfirst st i = i * unat (s_blocks_per_group st)" "bcount st i \<le> unat (s_blocks_per_group st)"
      using alloc_okD(8) [OF ok] i by (auto simp: groups_ok_def)
    then have "unat b div unat (s_blocks_per_group st) = i"
      using u k by (intro group_step(1)) auto
    then show ?thesis using True by (simp add: block_group_def)
  qed (use i in \<open>simp add: block_group_def ngroups_def\<close>)
  show "block_bit st b = k" using u g by (simp add: block_bit_def)
qed

lemma block_place:
  assumes ok: "alloc_ok st" and v: "cryexts_data_block_valid st b"
  shows "block_group st b < ngroups st" "unat b = bfirst st (block_group st b) + block_bit st b"
    "block_bit st b < bcount st (block_group st b)"
    "cryexts_block_bitmap_used st b \<longleftrightarrow> block_taken st b"
proof -
  have "block_group st b < ngroups st \<and> unat b = bfirst st (block_group st b) + block_bit st b \<and>
    block_bit st b < bcount st (block_group st b) \<and>
    (cryexts_block_bitmap_used st b \<longleftrightarrow> block_taken st b)"
  proof (cases "cryexts_has_block_groups st")
    case False
    then have "bdata st (bmap st 0) = d_cache st (bmap st 0)"
      by (intro bitmap_bdata [OF ok] bitmap_in) (simp add: ngroups_def)
    with False show ?thesis
      using v data_block_valid_bound [OF v]
      by (simp add: block_group_def ngroups_def block_bit_def bfirst_def bcount_def word_less_nat_alt
          cryexts_block_bitmap_used_def block_taken_def bmap_def)
  next
    case True
    note g = alloc_okD(8) [OF ok True]
    let ?grp = "b div s_blocks_per_group st"
    let ?i = "unat ?grp"
    have i: "?i = block_group st b" using True by (simp add: block_group_def unat_div)
    obtain gs where gs: "s_groups st = Some gs" using g by (auto simp: groups_ok_def)
    have lt: "?grp < s_group_count st"
      and b: "gd_group_start (gs ! ?i) \<le> b"
        "b < gd_group_start (gs ! ?i) + gd_blocks_count (gs ! ?i)"
      using v True gs
      by (auto simp: cryexts_data_block_valid_def Let_def not_le not_less split: if_splits)
    then have n: "?i < ngroups st" using True by (simp add: ngroups_def word_less_nat_alt)
    have "bfirst st ?i + bcount st ?i \<le> unat (cryexts_blocks_count st)"
      using g n by (auto simp: groups_ok_def)
    then have "unat (gd_group_start (gs ! ?i) + gd_blocks_count (gs ! ?i)) = bfirst st ?i + bcount st ?i"
      using True gs unsigned_less [of "cryexts_blocks_count st", where 'a = nat]
      by (simp add: bfirst_def bcount_def group_at_def unat_plus_if')
    then have at: "bfirst st ?i \<le> unat b" "unat b < bfirst st ?i + bcount st ?i"
      using b True gs by (simp_all add: word_le_nat_alt word_less_nat_alt bfirst_def group_at_def)
    have first: "cryexts_group_first_block st ?grp = gd_group_start (gs ! ?i)"
      using gs lt linorder_not_le [of "s_group_count st" ?grp]
      by (auto simp: cryexts_group_first_block_def group_field_def)
    have bit: "b - cryexts_group_first_block st ?grp = of_nat (block_bit st b)"
      unfolding block_bit_def i [symmetric]
      using b(1) True gs at(1) first
      by (simp add: bfirst_def group_at_def of_nat_diff word_le_nat_alt)
    have "bitmap_slot (s_group_block_bitmap_bhs st) ?grp = Some (bmap st ?i)"
      using g n True by (auto simp: groups_ok_def bmap_def)
    moreover have "bdata st (bmap st ?i) = d_cache st (bmap st ?i)"
      by (intro bitmap_bdata [OF ok] bitmap_in n)
    ultimately show ?thesis
      using at n i lt v True bit
      by (auto simp: block_bit_def cryexts_block_bitmap_used_def Let_def block_taken_def)
  qed
  then show "block_group st b < ngroups st" "unat b = bfirst st (block_group st b) + block_bit st b"
    "block_bit st b < bcount st (block_group st b)"
    "cryexts_block_bitmap_used st b \<longleftrightarrow> block_taken st b"
    by blast+
qed

section \<open>The place of an inode\<close>

lemma word_nat_inv: "of_nat (unat w) = w" for w :: u64
  by simp

definition inode_group :: "fs \<Rightarrow> u64 \<Rightarrow> nat" where
  "inode_group st ino = (if cryexts_has_block_groups st then (unat ino - 1) div iper st else 0)"

definition inode_bit :: "fs \<Rightarrow> u64 \<Rightarrow> nat" where
  "inode_bit st ino = unat ino - 1 - inode_group st ino * iper st"

definition inode_taken :: "fs \<Rightarrow> u64 \<Rightarrow> bool" where
  "inode_taken st ino =
     cryexts_bitmap_test (d_cache st (imap st (inode_group st ino))) (of_nat (inode_bit st ino))"

lemma inode_space_nat: "ino \<in> inode_space st \<Longrightarrow> 1 \<le> unat ino \<and> unat ino \<le> unat (cryexts_inodes_count st)"
  by (simp add: inode_space_def CRYEXTS_ROOT_INO_def word_le_nat_alt)

lemma inode_place:
  assumes ok: "alloc_ok st" and v: "ino \<in> inode_space st"
  shows "inode_group st ino < ngroups st" "unat ino = inode_group st ino * iper st + inode_bit st ino + 1"
    "inode_bit st ino < iper st"
    "cryexts_inode_bitmap_used st ino \<longleftrightarrow> inode_taken st ino"
proof -
  note n = inode_space_nat [OF v]
  have pred: "unat (ino - 1) = unat ino - 1" using n by (simp add: unat_sub_if')
  have range: "\<not> (ino < CRYEXTS_ROOT_INO \<or> cryexts_inodes_count st < ino)"
    using v by (simp add: inode_space_def not_less)
  have "inode_group st ino < ngroups st \<and>
    unat ino = inode_group st ino * iper st + inode_bit st ino + 1 \<and> inode_bit st ino < iper st \<and>
    (cryexts_inode_bitmap_used st ino \<longleftrightarrow> inode_taken st ino)"
  proof (cases "cryexts_has_block_groups st")
    case False
    then have "bdata st (imap st 0) = d_cache st (imap st 0)"
      by (intro bitmap_bdata [OF ok] bitmap_in) (simp add: ngroups_def)
    moreover have "(of_nat (unat ino - 1) :: u64) = ino - 1" using pred by (metis word_nat_inv)
    moreover have "unat ino - 1 < unat (cryexts_inodes_count st)" using n by linarith
    ultimately show ?thesis
      using False n range
      by (simp add: inode_group_def ngroups_def inode_bit_def iper_def cryexts_inode_bitmap_used_def
          inode_taken_def imap_def)
  next
    case True
    note g = alloc_okD(8) [OF ok True]
    let ?grp = "(ino - 1) div s_inodes_per_group st"
    have i: "unat ?grp = inode_group st ino"
      using True pred by (simp add: inode_group_def unat_div iper_def)
    have k: "inode_bit st ino = (unat ino - 1) mod iper st"
      using True by (simp add: inode_bit_def inode_group_def minus_div_mult_eq_mod)
    then have "unat ((ino - 1) mod s_inodes_per_group st) = inode_bit st ino"
      using True pred by (simp add: unat_mod iper_def)
    then have bit: "(of_nat (inode_bit st ino) :: u64) = (ino - 1) mod s_inodes_per_group st"
      using word_nat_inv by metis
    have pos: "0 < iper st" and top: "unat (cryexts_inodes_count st) \<le> ngroups st * iper st"
      using g by (simp_all add: groups_ok_def)
    have "unat ino - 1 < ngroups st * iper st" using n top by linarith
    then have lt: "inode_group st ino < ngroups st"
      using True pos by (simp add: inode_group_def less_mult_imp_div_less)
    then have "?grp < s_group_count st"
      using True i by (simp add: ngroups_def word_less_nat_alt)
    moreover have "bitmap_slot (s_group_inode_bitmap_bhs st) ?grp = Some (imap st (inode_group st ino))"
    proof -
      have "of_nat (inode_group st ino) = ?grp" unfolding i [symmetric] by (rule word_nat_inv)
      moreover have "bitmap_slot (s_group_inode_bitmap_bhs st) (of_nat (inode_group st ino)) \<noteq> None"
        using g lt by (simp add: groups_ok_def)
      ultimately show ?thesis using True by (auto simp: imap_def)
    qed
    moreover have "bdata st (imap st (inode_group st ino)) = d_cache st (imap st (inode_group st ino))"
      by (intro bitmap_bdata [OF ok] bitmap_in lt)
    moreover have "unat ino = inode_group st ino * iper st + inode_bit st ino + 1"
      using True n k div_mult_mod_eq [of "unat ino - 1" "iper st"] by (simp add: inode_group_def)
    moreover have "inode_bit st ino < iper st" using k pos by simp
    moreover have "cryexts_inode_bitmap_used st ino \<longleftrightarrow> inode_taken st ino"
      using calculation(1-3) range bit True
      by (simp add: cryexts_inode_bitmap_used_def Let_def inode_taken_def not_le [symmetric])
    ultimately show ?thesis using lt by blast
  qed
  then show "inode_group st ino < ngroups st"
    "unat ino = inode_group st ino * iper st + inode_bit st ino + 1" "inode_bit st ino < iper st"
    "cryexts_inode_bitmap_used st ino \<longleftrightarrow> inode_taken st ino"
    by blast+
qed

lemma inode_at:
  assumes ok: "alloc_ok st" and i: "i < ngroups st" and k: "k < iper st"
    and n: "i * iper st + k < unat (cryexts_inodes_count st)"
  defines "ino \<equiv> of_nat (i * iper st + k) + 1 :: u64"
  shows "unat ino = i * iper st + k + 1" "inode_group st ino = i" "inode_bit st ino = k"
    "ino \<in> inode_space st"
proof -
  have "i * iper st + k + 1 < 2 ^ 64"
    using n unsigned_less [of "cryexts_inodes_count st", where 'a = nat] by simp
  then show u: "unat ino = i * iper st + k + 1"
    by (simp add: ino_def unat_of_nat unat_plus_if' del: of_nat_add)
  show "inode_group st ino = i"
    using i k u by (simp add: inode_group_def ngroups_def split: if_splits)
  then show "inode_bit st ino = k" using u by (simp add: inode_bit_def)
  show "ino \<in> inode_space st"
    using u n by (simp add: inode_space_def CRYEXTS_ROOT_INO_def word_le_nat_alt)
qed

section \<open>Changing one bit\<close>

text \<open>Everything above depends on the geometry only.\<close>

lemma map_gd_place_nth:
  "map gd_place gs = map gd_place hs \<Longrightarrow> i < length hs \<Longrightarrow> gd_place (gs ! i) = gd_place (hs ! i)"
  by (metis length_map nth_map)

lemma gd_place_fields:
  assumes "gd_place g = gd_place h"
  shows "gd_group_start g = gd_group_start h" "gd_blocks_count g = gd_blocks_count h"
    "gd_inode_table_start g = gd_inode_table_start h" "gd_inode_table_blocks g = gd_inode_table_blocks h"
  using assms by (cases g; cases h; simp add: gd_place_def)+

lemma geo_basic:
  assumes "geo_view b = geo_view a"
  shows "cryexts_has_block_groups b = cryexts_has_block_groups a" "ngroups b = ngroups a"
    "bmap b = bmap a" "imap b = imap a" "bitmaps b = bitmaps a" "iper b = iper a"
    "inode_space b = inode_space a" "side b = side a" "area_ok b = area_ok a"
    "cryexts_blocks_count b = cryexts_blocks_count a" "block_group b = block_group a"
    "inode_group b = inode_group a" "inode_bit b = inode_bit a" "gdt_slot b = gdt_slot a"
  using assms
  by (simp_all add: geo_view_def fun_eq_iff cryexts_has_block_groups_def ngroups_def bmap_def imap_def
      bitmaps_def iper_def inode_space_def side_def area_ok_def cryexts_blocks_count_def
      cryexts_inodes_count_def gdt_slot_def cryexts_journal_block_is_internal_def block_group_def
      inode_group_def inode_bit_def)

lemma geo_groups:
  assumes g: "geo_view b = geo_view a" and gr: "cryexts_has_block_groups a" and ok: "groups_ok a"
  shows "length (the (s_groups b)) = length (the (s_groups a))"
    "s_groups b \<noteq> None" "i < ngroups a \<Longrightarrow> gd_place (group_at b i) = gd_place (group_at a i)"
proof -
  obtain gs where gs: "s_groups a = Some gs" using ok by (auto simp: groups_ok_def)
  then obtain hs where hs: "s_groups b = Some hs" "map gd_place hs = map gd_place gs"
    using g by (auto simp: geo_view_def)
  show "length (the (s_groups b)) = length (the (s_groups a))"
    using gs hs map_eq_imp_length_eq by fastforce
  show "s_groups b \<noteq> None" using hs by simp
  show "gd_place (group_at b i) = gd_place (group_at a i)" if "i < ngroups a"
    using map_gd_place_nth [OF hs(2)] that ok gs hs gr by (auto simp: group_at_def groups_ok_def ngroups_def)
qed

lemma geo_place:
  assumes g: "geo_view b = geo_view a" and ok: "alloc_ok a" and i: "i < ngroups a"
  shows "bfirst b i = bfirst a i" "bcount b i = bcount a i"
proof -
  have "gd_place (group_at b i) = gd_place (group_at a i)" if "cryexts_has_block_groups a"
    using geo_groups(3) [OF g that _ i] alloc_okD(8) [OF ok that] by blast
  note p = gd_place_fields(1,2) [OF this]
  show "bfirst b i = bfirst a i" "bcount b i = bcount a i"
    using geo_basic(1,10) [OF g] p by (auto simp: bfirst_def bcount_def)
qed

lemma geo_valid:
  assumes g: "geo_view b = geo_view a" and ok: "alloc_ok a"
  shows "cryexts_data_block_valid b = cryexts_data_block_valid a"
    "ino \<in> inode_space a \<Longrightarrow> inode_block b ino = inode_block a ino"
proof -
  have place: "gd_place (the (s_groups b) ! unat grp) = gd_place (the (s_groups a) ! unat grp)"
    if "cryexts_has_block_groups a" "grp < s_group_count a" for grp
    using geo_groups(3) [OF g that(1), of "unat grp"] alloc_okD(8) [OF ok that(1)] that
    by (simp add: group_at_def ngroups_def word_less_nat_alt)
  note f = gd_place_fields [OF place]
  have eq: "s_group_count b = s_group_count a" "s_blocks_per_group b = s_blocks_per_group a"
      "s_inodes_per_group b = s_inodes_per_group a" "s_inode_table_start b = s_inode_table_start a"
      "sb_first_data_block (s_disk_sb b) = sb_first_data_block (s_disk_sb a)"
      "(s_groups b = None) = (s_groups a = None)"
    using g by (auto simp: geo_view_def)
  show "cryexts_data_block_valid b = cryexts_data_block_valid a"
  proof
    fix x
    show "cryexts_data_block_valid b x = cryexts_data_block_valid a x"
      using eq geo_basic(1,10) [OF g] f [of "x div s_blocks_per_group a"]
      by (cases "cryexts_has_block_groups a")
        (auto simp: cryexts_data_block_valid_def Let_def not_le split: option.splits)
  qed
  show "inode_block b ino = inode_block a ino"
    using eq geo_basic(1) [OF g] f(3) [of "(ino - 1) div s_inodes_per_group a"]
    by (auto simp: inode_block_def cryexts_group_inode_table_start_def group_field_def not_le
        split: option.splits)
qed

lemma geo_groups_ok:
  assumes g: "geo_view b = geo_view a" and ok: "alloc_ok a" and gr: "cryexts_has_block_groups a"
  shows "groups_ok b"
proof -
  note o = alloc_okD(8) [OF ok gr]
  note eq = geo_basic [OF g] geo_place [OF g ok] geo_groups(1,2) [OF g gr o]
  have "s_group_block_bitmap_bhs b = s_group_block_bitmap_bhs a" "s_blocks_per_group b = s_blocks_per_group a"
      "s_group_inode_bitmap_bhs b = s_group_inode_bitmap_bhs a" "s_group_count b = s_group_count a"
      "cryexts_inodes_count b = cryexts_inodes_count a"
    using g by (simp_all add: geo_view_def cryexts_inodes_count_def)
  then show ?thesis using o eq unfolding groups_ok_def by auto
qed

text \<open>A state with the same geometry in which no bit of a metadata block has been cleared.\<close>

lemma alloc_ok_change:
  assumes g: "geo_view b = geo_view a" and ok: "alloc_ok a"
    and len: "\<And>x. x \<in> set (bitmaps a) \<Longrightarrow> length (d_cache b x) = length (d_cache a x)"
    and keep: "\<And>i k. i < ngroups a \<Longrightarrow> k < bcount a i \<Longrightarrow>
        \<not> cryexts_data_block_valid a (of_nat (bfirst a i + k)) \<Longrightarrow>
        cryexts_bitmap_test (d_cache a (bmap a i)) (of_nat k) \<Longrightarrow>
        cryexts_bitmap_test (d_cache b (bmap a i)) (of_nat k)"
  shows "alloc_ok b"
proof -
  note eq = geo_basic [OF g] geo_place [OF g ok] geo_valid [OF g ok]
  have same: "s_group_desc_table_blocks b = s_group_desc_table_blocks a"
      "sb_first_data_block (s_disk_sb b) = sb_first_data_block (s_disk_sb a)"
      "s_block_bitmap_bh b = s_block_bitmap_bh a" "s_inode_bitmap_bh b = s_inode_bitmap_bh a"
    using g by (simp_all add: geo_view_def)
  have "marked b"
    unfolding marked_def eq(2)
  proof (intro allI impI)
    fix i k
    assume i: "i < ngroups a" and k: "k < bcount b i"
      and fd: "sb_first_data_block (s_disk_sb b) \<le> of_nat (bfirst b i + k)"
      and v: "\<not> cryexts_data_block_valid b (of_nat (bfirst b i + k))"
    have "cryexts_bitmap_test (d_cache a (bmap a i)) (of_nat k)"
      using alloc_okD(3) [OF ok] i k fd v eq same by (simp add: marked_def)
    then show "cryexts_bitmap_test (d_cache b (bmap b i)) (of_nat k)"
      using keep [OF i] k v eq i by simp
  qed
  then show ?thesis
    using ok geo_groups_ok [OF g ok] len unfolding alloc_ok_def eq(1-10,14) same
    by (simp add: eq)
qed

end
