(* ===== verification/Allocator.thy ===== *)
theory Allocator
  imports Prelude
begin

text \<open>
  The contract of an allocator of numbers, and what follows from it for every sequence of
  requests.  The state is abstract; block and inode allocation are shown to satisfy the contract
  in \<open>BlockAlloc\<close> and \<open>InodeAlloc\<close>.
\<close>

section \<open>Requests\<close>

text \<open>A client asks for a number, with a hint, or gives one back.  Failures are ignored.\<close>

datatype 'h request = Take 'h | Give u64

fun serve ::
    "('h \<Rightarrow> ('s, u64) act) \<Rightarrow> (u64 \<Rightarrow> ('s, unit) act) \<Rightarrow> 'h request list \<Rightarrow> 's \<Rightarrow> u64 list \<times> 's" where
  "serve alloc free [] st = ([], st)"
| "serve alloc free (Take h # reqs) st =
     (case alloc h st of
        (Inl e, st) \<Rightarrow> serve alloc free reqs st
      | (Inr x, st) \<Rightarrow> (case serve alloc free reqs st of (xs, st) \<Rightarrow> (x # xs, st)))"
| "serve alloc free (Give x # reqs) st = serve alloc free reqs (snd (free x st))"

section \<open>The contract\<close>

text \<open>
  \<open>space\<close> are the numbers that are managed, \<open>used\<close> those that are taken, \<open>counter\<close> is the number
  of free ones that the code keeps.
\<close>

locale allocator =
  fixes inv :: "'s \<Rightarrow> bool" and space used :: "'s \<Rightarrow> u64 set" and counter :: "'s \<Rightarrow> u64"
    and alloc :: "'h \<Rightarrow> ('s, u64) act" and free :: "u64 \<Rightarrow> ('s, unit) act"
  assumes used_space: "inv s \<Longrightarrow> used s \<subseteq> space s"
    and alloc_ok: "inv s \<Longrightarrow> alloc h s = (Inr x, s') \<Longrightarrow>
      inv s' \<and> space s' = space s \<and> x \<in> space s - used s \<and> used s' = insert x (used s) \<and>
      counter s' = counter s - 1"
    and alloc_fail: "inv s \<Longrightarrow> alloc h s = (Inl e, s') \<Longrightarrow> s' = s"
    and free_ok: "inv s \<Longrightarrow> free x s = (Inr (), s') \<Longrightarrow>
      inv s' \<and> space s' = space s \<and> x \<in> space s \<and> used s' = used s - {x} \<and>
      counter s' = (if x \<in> used s then counter s + 1 else counter s)"
    and free_fail: "inv s \<Longrightarrow> free x s = (Inl e, s') \<Longrightarrow>
      inv s' \<and> space s' = space s \<and> used s' = used s \<and> counter s' = counter s"
begin

text \<open>The counter is exact.\<close>

definition exact :: "'s \<Rightarrow> bool" where
  "exact s \<longleftrightarrow> unat (counter s) = card (space s - used s)"

lemma finite_space: "finite (space s)" "finite (used s)"
  by (rule finite_subset [OF subset_UNIV], simp)+

lemma exact_alloc:
  assumes "inv s" "exact s" "alloc h s = (Inr x, s')"
  shows "exact s'"
proof -
  note a = alloc_ok [OF assms(1,3)]
  have "space s' - used s' = (space s - used s) - {x}" using a by auto
  moreover have "0 < card (space s - used s)"
    using a finite_space by (auto simp: card_gt_0_iff)
  moreover have "0 < unat (counter s)" using calculation(2) assms(2) by (simp add: exact_def)
  moreover have "unat (counter s - 1) = unat (counter s) - 1"
    using calculation(3) by (simp add: unat_sub_if')
  ultimately show ?thesis
    using a assms(2) by (simp add: exact_def card_Diff_singleton)
qed

lemma exact_free:
  assumes i: "inv s" and e: "exact s" and f: "free x s = (r, s')"
    and small: "card (space s) < 2 ^ 64"
  shows "exact s'"
proof (cases "r = Inr () \<and> x \<in> used s")
  case True
  then have a: "space s' = space s" "used s' = used s - {x}" "counter s' = counter s + 1"
    and x: "x \<in> space s"
    using free_ok [OF i, of x s'] f by auto
  have "space s' - used s' = insert x (space s - used s)" using a x by auto
  then have c: "card (space s' - used s') = Suc (card (space s - used s))"
    using True finite_space by (simp add: card_insert_if)
  have "card (space s' - used s') \<le> card (space s)"
    using a by (intro card_mono finite_space) auto
  then have "unat (counter s) + 1 < 2 ^ 64" using c e small by (simp add: exact_def)
  then show ?thesis using c e a by (simp add: exact_def unat_plus_if')
next
  case False
  then have "space s' = space s \<and> used s' = used s \<and> counter s' = counter s"
    using free_ok [OF i, of x s'] free_fail [OF i, of x] f by (cases r) auto
  then show ?thesis using e by (simp add: exact_def)
qed

lemma free_inv:
  assumes "inv s"
  shows "inv (snd (free x s)) \<and> space (snd (free x s)) = space s \<and> used (snd (free x s)) \<subseteq> used s"
proof (cases "free x s")
  case (Pair r s')
  then show ?thesis using free_ok [OF assms] free_fail [OF assms] by (cases r) fastforce+
qed

text \<open>Every sequence of requests keeps the invariant, the space and the exactness of the counter.\<close>

lemma serve_inv:
  assumes "inv s" "serve alloc free reqs s = (xs, s')"
  shows "inv s' \<and> space s' = space s \<and> set xs \<subseteq> space s \<and>
    (exact s \<longrightarrow> card (space s) < 2 ^ 64 \<longrightarrow> exact s')"
  using assms
proof (induction reqs arbitrary: s xs)
  case (Cons q reqs)
  show ?case
  proof (cases q)
    case (Take h)
    obtain r s1 where a: "alloc h s = (r, s1)" by fastforce
    show ?thesis
    proof (cases r)
      case (Inl e)
      then show ?thesis using Cons a Take alloc_fail [OF Cons.prems(1) a [unfolded Inl]] by auto
    next
      case (Inr x)
      then obtain ys where ys: "serve alloc free reqs s1 = (ys, s')" "xs = x # ys"
        using Cons.prems(2) Take a by (auto split: prod.splits)
      note l = alloc_ok [OF Cons.prems(1) a [unfolded Inr]]
      show ?thesis
        using Cons.IH [OF _ ys(1)] l exact_alloc [OF Cons.prems(1) _ a [unfolded Inr]] ys(2) by auto
    qed
  next
    case (Give x)
    obtain r s1 where f: "free x s = (r, s1)" by fastforce
    then show ?thesis
      using Cons.IH [of s1 xs] Cons.prems Give free_inv [OF Cons.prems(1), of x]
        exact_free [OF Cons.prems(1) _ f] by auto
  qed
qed simp

text \<open>Numbers that are taken and not given back are distinct and were free.\<close>

lemma serve_takes:
  assumes "inv s" "serve alloc free (map Take hs) s = (xs, s')"
  shows "distinct xs \<and> set xs \<inter> used s = {} \<and> used s' = used s \<union> set xs"
  using assms
proof (induction hs arbitrary: s xs)
  case (Cons h hs)
  obtain r s1 where a: "alloc h s = (r, s1)" by fastforce
  show ?case
  proof (cases r)
    case (Inl e)
    then show ?thesis using Cons a alloc_fail [OF Cons.prems(1) a [unfolded Inl]] by auto
  next
    case (Inr x)
    then obtain ys where ys: "serve alloc free (map Take hs) s1 = (ys, s')" "xs = x # ys"
      using Cons.prems(2) a by (auto split: prod.splits)
    show ?thesis
      using Cons.IH [OF _ ys(1)] alloc_ok [OF Cons.prems(1) a [unfolded Inr]] ys(2) by auto
  qed
qed simp

lemma serve_bound:
  assumes "inv s" "serve alloc free (map Take hs) s = (xs, s')"
  shows "length xs \<le> card (space s - used s)"
proof -
  have "length xs = card (set xs)" using serve_takes [OF assms] by (simp add: distinct_card)
  also have "\<dots> \<le> card (space s - used s)"
    using serve_takes [OF assms] serve_inv [OF assms] finite_space
    by (intro card_mono) (auto simp: finite_space)
  finally show ?thesis .
qed

text \<open>Giving a number back that was just taken restores the set of used ones and the counter.\<close>

lemma take_give:
  assumes "inv s" "alloc h s = (Inr x, s1)" "free x s1 = (Inr (), s2)"
  shows "inv s2 \<and> used s2 = used s \<and> counter s2 = counter s"
  using alloc_ok [OF assms(1,2)] free_ok [of s1 x s2] assms(3) by auto

end

end
