(* ===== verification/BlockAlloc.thy ===== *)
theory BlockAlloc
  imports BitmapLayout Allocator Sample
begin

text \<open>
  Block allocation satisfies the contract of an allocator: with and without block groups, with
  every hint, and through the accounting in all three journal formats.
\<close>

section \<open>One bit set or cleared\<close>

definition flip_bit :: "bool \<Rightarrow> bytes \<Rightarrow> u64 \<Rightarrow> bytes" where
  "flip_bit v bm k = (if v then cryexts_bitmap_set bm k else cryexts_bitmap_clear bm k)"

lemma length_flip_bit [simp]: "length (flip_bit v bm k) = length bm"
  by (simp add: flip_bit_def)

lemma unat_small: "k < 32768 \<Longrightarrow> unat (of_nat k :: u64) = k"
  by (simp add: unat_of_nat)

lemma test_flip_bit:
  assumes "length bm = BLOCK_SIZE" "j < 32768" "k < 32768"
  shows "cryexts_bitmap_test (flip_bit v bm (of_nat k)) (of_nat j) \<longleftrightarrow>
    (if j = k then v else cryexts_bitmap_test bm (of_nat j))"
proof -
  have len: "unat (of_nat j :: u64) div 8 < length bm" "unat (of_nat k :: u64) div 8 < length bm"
    using assms by (simp_all add: unat_small BLOCK_SIZE_def)
  have "(of_nat j :: u64) = of_nat k \<longleftrightarrow> j = k"
    using assms(2,3) unat_small by metis
  then show ?thesis
    using bitmap_test_set [OF len(2,1)] bitmap_test_clear [OF len(2,1)]
    by (cases "j = k") (simp_all add: flip_bit_def)
qed

text \<open>\<open>b\<close> is \<open>a\<close> but for one bit of one bitmap.\<close>

definition bit_flipped :: "bool \<Rightarrow> u64 \<Rightarrow> nat \<Rightarrow> fs \<Rightarrow> fs \<Rightarrow> bool" where
  "bit_flipped v bh k a b \<longleftrightarrow> geo_view b = geo_view a \<and>
     (\<forall>x \<in> set (bitmaps a). d_cache b x = (if x = bh then flip_bit v (d_cache a x) (of_nat k) else d_cache a x))"

definition block_space :: "fs \<Rightarrow> u64 set" where
  "block_space st = {b. cryexts_data_block_valid st b}"

definition block_used :: "fs \<Rightarrow> u64 set" where
  "block_used st = {b. cryexts_block_bitmap_used st b}"

definition inode_used :: "fs \<Rightarrow> u64 set" where
  "inode_used st = {ino. cryexts_inode_bitmap_used st ino}"

lemma inode_used_space: "inode_used st \<subseteq> inode_space st"
  by (auto simp: inode_used_def inode_space_def cryexts_inode_bitmap_used_def not_less split: if_splits)

lemma block_used_space: "block_used st \<subseteq> block_space st"
  by (auto simp: block_used_def block_space_def cryexts_block_bitmap_used_def split: if_splits)

lemma iper_small: "alloc_ok st \<Longrightarrow> iper st \<le> 32768"
  by (simp add: alloc_ok_def)

lemma flip_block:
  assumes ok: "alloc_ok a" and x: "x \<in> block_space a"
    and f: "bit_flipped v (bmap a (block_group a x)) (block_bit a x) a b"
  shows "alloc_ok b" "block_space b = block_space a"
    "block_used b = (if v then insert x (block_used a) else block_used a - {x})"
    "inode_space b = inode_space a" "inode_used b = inode_used a"
proof -
  let ?i = "block_group a x" and ?k = "block_bit a x"
  have g: "geo_view b = geo_view a" using f by (simp add: bit_flipped_def)
  note eq = geo_basic [OF g] geo_valid [OF g ok]
  have xv: "cryexts_data_block_valid a x" using x by (simp add: block_space_def)
  note px = block_place [OF ok xv]
  have test: "cryexts_bitmap_test (d_cache b (bmap a i)) (of_nat k) \<longleftrightarrow>
      (if i = ?i \<and> k = ?k then v else cryexts_bitmap_test (d_cache a (bmap a i)) (of_nat k))"
    if "i < ngroups a" "k < bcount a i" for i k
  proof -
    have "k < 32768" "?k < 32768"
      using that alloc_okD(7) [OF ok] px(1,3) by (meson less_le_trans)+
    then show ?thesis
      using f that px(1) bitmap_in(1) [OF that(1)] alloc_okD(6) [OF ok bitmap_in(1) [OF that(1)]]
        bitmaps_inj(1) [OF alloc_okD(2) [OF ok] that(1) px(1)]
      by (auto simp: bit_flipped_def test_flip_bit)
  qed
  show okb: "alloc_ok b"
  proof (rule alloc_ok_change [OF g ok])
    show "length (d_cache b y) = length (d_cache a y)" if "y \<in> set (bitmaps a)" for y
      using f that by (simp add: bit_flipped_def)
    show "cryexts_bitmap_test (d_cache b (bmap a i)) (of_nat k)"
      if y: "i < ngroups a" "k < bcount a i" "\<not> cryexts_data_block_valid a (of_nat (bfirst a i + k))"
        "cryexts_bitmap_test (d_cache a (bmap a i)) (of_nat k)" for i k
    proof -
      have "of_nat (bfirst a ?i + ?k) = x" using px(2) word_nat_inv [of x] by simp
      then show ?thesis using y xv test [OF y(1,2)] by auto
    qed
  qed
  show "block_space b = block_space a" "inode_space b = inode_space a"
    using eq by (simp_all add: block_space_def)
  show "block_used b = (if v then insert x (block_used a) else block_used a - {x})"
  proof (rule set_eqI)
    fix y
    show "y \<in> block_used b \<longleftrightarrow> y \<in> (if v then insert x (block_used a) else block_used a - {x})"
    proof (cases "cryexts_data_block_valid a y")
      case True
      note py = block_place [OF ok True]
      have "block_bit b y = block_bit a y"
        using geo_place(1) [OF g ok py(1)] eq(11) by (simp add: block_bit_def)
      moreover have "block_group a y = ?i \<and> block_bit a y = ?k \<longleftrightarrow> y = x"
        using py(2) px(2) word_unat_eq_iff by metis
      ultimately have "block_taken b y \<longleftrightarrow> (if y = x then v else block_taken a y)"
        using test [OF py(1,3)] eq(3,11) by (simp add: block_taken_def)
      moreover have "cryexts_block_bitmap_used b y \<longleftrightarrow> block_taken b y"
        using block_place(4) [OF okb] True eq by simp
      ultimately show ?thesis using py(4) by (auto simp: block_used_def)
    next
      case False
      then show ?thesis using eq xv by (auto simp: block_used_def cryexts_block_bitmap_used_def)
    qed
  qed
  show "inode_used b = inode_used a"
  proof (rule set_eqI)
    fix ino
    show "ino \<in> inode_used b \<longleftrightarrow> ino \<in> inode_used a"
    proof (cases "ino \<in> inode_space a")
      case True
      note p = inode_place [OF ok True]
      have "d_cache b (imap a (inode_group a ino)) = d_cache a (imap a (inode_group a ino))"
        using f bitmap_in(2) [OF p(1)] bitmaps_inj(3) [OF alloc_okD(2) [OF ok] px(1) p(1)]
        by (auto simp: bit_flipped_def)
      then show ?thesis
        using p(4) inode_place(4) [OF okb] True eq by (simp add: inode_used_def inode_taken_def)
    next
      case False
      then show ?thesis using inode_used_space [of a] inode_used_space [of b] eq by auto
    qed
  qed
qed

lemma flip_inode:
  assumes ok: "alloc_ok a" and x: "x \<in> inode_space a"
    and f: "bit_flipped v (imap a (inode_group a x)) (inode_bit a x) a b"
  shows "alloc_ok b" "inode_space b = inode_space a"
    "inode_used b = (if v then insert x (inode_used a) else inode_used a - {x})"
    "block_space b = block_space a" "block_used b = block_used a"
proof -
  let ?i = "inode_group a x" and ?k = "inode_bit a x"
  have g: "geo_view b = geo_view a" using f by (simp add: bit_flipped_def)
  note eq = geo_basic [OF g] geo_valid [OF g ok]
  note px = inode_place [OF ok x]
  have same: "d_cache b (bmap a i) = d_cache a (bmap a i)" if "i < ngroups a" for i
    using f bitmap_in(1) [OF that] bitmaps_inj(3) [OF alloc_okD(2) [OF ok] that px(1)]
    by (auto simp: bit_flipped_def)
  show okb: "alloc_ok b"
    by (rule alloc_ok_change [OF g ok]) (use f same in \<open>simp_all add: bit_flipped_def\<close>)
  show "block_space b = block_space a" "inode_space b = inode_space a"
    using eq by (simp_all add: block_space_def)
  show "block_used b = block_used a"
  proof (rule set_eqI)
    fix y
    show "y \<in> block_used b \<longleftrightarrow> y \<in> block_used a"
    proof (cases "cryexts_data_block_valid a y")
      case True
      note py = block_place [OF ok True]
      have "block_bit b y = block_bit a y"
        using geo_place(1) [OF g ok py(1)] eq(11) by (simp add: block_bit_def)
      then show ?thesis
        using py(4) block_place(4) [OF okb] True eq same [OF py(1)]
        by (simp add: block_used_def block_taken_def)
    next
      case False
      then show ?thesis using eq by (auto simp: block_used_def cryexts_block_bitmap_used_def)
    qed
  qed
  show "inode_used b = (if v then insert x (inode_used a) else inode_used a - {x})"
  proof (rule set_eqI)
    fix ino
    show "ino \<in> inode_used b \<longleftrightarrow> ino \<in> (if v then insert x (inode_used a) else inode_used a - {x})"
    proof (cases "ino \<in> inode_space a")
      case True
      note p = inode_place [OF ok True]
      have small: "inode_bit a ino < 32768" "?k < 32768"
        using p(3) px(3) iper_small [OF ok] by simp_all
      have "inode_group a ino = ?i \<and> inode_bit a ino = ?k \<longleftrightarrow> ino = x"
        using p(2) px(2) word_unat_eq_iff by metis
      then have "inode_taken b ino \<longleftrightarrow> (if ino = x then v else inode_taken a ino)"
        using f bitmap_in(2) [OF p(1)] alloc_okD(6) [OF ok bitmap_in(2) [OF p(1)]] small eq(4,12,13)
          bitmaps_inj(2) [OF alloc_okD(2) [OF ok] p(1) px(1)]
        by (auto simp: bit_flipped_def inode_taken_def test_flip_bit)
      then show ?thesis
        using p(4) inode_place(4) [OF okb] True eq by (auto simp: inode_used_def)
    next
      case False
      then show ?thesis using inode_used_space [of a] inode_used_space [of b] eq x by auto
    qed
  qed
qed

section \<open>The accounting\<close>

lemma frame_geo:
  assumes "alloc_view b = alloc_view a"
  shows "geo_view b = geo_view a"
proof -
  have place: "gd_place g = gd_place (gd_shape g)" for g by (simp add: gd_place_def gd_shape_def)
  have "map_option (map gd_place) (s_groups b) = map_option (map gd_place) (s_groups a)"
    if "map_option (map gd_shape) (s_groups b) = map_option (map gd_shape) (s_groups a)"
    using arg_cong [OF that, of "map_option (map gd_place)"]
    by (simp add: option.map_comp comp_def place [symmetric])
  then show ?thesis using assms by (auto simp: alloc_view_def geo_view_def sb_view_def)
qed

lemma side_blocks_geo:
  assumes "geo_view b = geo_view a" "alloc_ok a"
  shows "side_blocks (side a) b"
proof -
  have "side_blocks (side a) b = side_blocks (side a) a"
    using geo_basic [OF assms(1)] assms(1)
    by (simp add: side_blocks_def geo_view_def cryexts_journal_block_is_internal_def)
  then show ?thesis using alloc_ok_side [OF assms(2)] by simp
qed

text \<open>Marking bitmaps and superblock dirty after a bit was flipped.\<close>

lemma flipped_frame:
  assumes "alloc_ok a" "bit_flipped v bh k a b" "alloc_frame (side a) b c"
  shows "bit_flipped v bh k a c"
  using assms alloc_okD(5) [OF assms(1)] frame_geo [of c b]
  by (auto simp: bit_flipped_def alloc_frame_def)

text \<open>A change of the counters only, which the geometry does not see.\<close>

lemma flipped_counts:
  "bit_flipped v bh k a b \<Longrightarrow> geo_view c = geo_view b \<Longrightarrow> d_cache c = d_cache b \<Longrightarrow> bit_flipped v bh k a c"
  by (simp add: bit_flipped_def)

lemma geo_counts:
  "geo_view (upd_disk_sb (\<lambda>sb. sb\<lparr>sb_free_blocks_count := f sb\<rparr>) st) = geo_view st"
  "geo_view (upd_disk_sb (\<lambda>sb. sb\<lparr>sb_free_inodes_count := f sb\<rparr>) st) = geo_view st"
  "geo_view (st\<lparr>s_next_data_block := y\<rparr>) = geo_view st"
  "geo_view (st\<lparr>s_next_ino := y\<rparr>) = geo_view st"
  by (simp_all add: geo_view_def upd_disk_sb_def)

lemma geo_upd_group:
  assumes "\<And>g. gd_place (f g) = gd_place g"
  shows "geo_view (upd_group grp f st) = geo_view st"
proof -
  have "map gd_place (gs[i := f (gs ! i)]) = map gd_place gs" for gs i
    by (cases "i < length gs") (simp_all add: map_update assms list_update_same_conv list_update_beyond)
  then show ?thesis
    by (cases "s_groups st") (simp_all add: geo_view_def upd_group_def)
qed

lemma mark_frame:
  assumes "side_blocks S st"
  shows "alloc_frame S st (cryexts_mark_super_dirty (cryexts_mark_bitmap_dirty st))"
  by (intro frame_mark_super frame_mark_bitmap [OF assms] alloc_frame_refl)

lemma bitmap_at_flipped:
  assumes ok: "alloc_ok st" and bh: "bh \<in> set (bitmaps st)"
  shows "bit_flipped True bh k st (bitmap_set_at bh (of_nat k) st)"
    "bit_flipped False bh k st (bitmap_clear_at bh (of_nat k) st)"
proof -
  have "bh \<noteq> 0" using alloc_okD(5) [OF ok bh] by (auto simp: side_def)
  then show "bit_flipped True bh k st (bitmap_set_at bh (of_nat k) st)"
    "bit_flipped False bh k st (bitmap_clear_at bh (of_nat k) st)"
    using bitmap_bdata [OF ok bh]
    by (auto simp: bit_flipped_def bitmap_set_at_def bitmap_clear_at_def set_bdata_def geo_view_def
        flip_bit_def)
qed

section \<open>Finding and taking a block\<close>

lemma first_free_Some:
  "first_free bm skip ks = Some w \<Longrightarrow>
   \<exists>k \<in> set ks. w = of_nat k \<and> \<not> skip (of_nat k) \<and> \<not> cryexts_bitmap_test bm (of_nat k)"
  by (auto simp: first_free_def find_Some_iff)

lemma first_free_None:
  "first_free bm skip ks = None \<Longrightarrow>
   k \<in> set ks \<Longrightarrow> skip (of_nat k) \<or> cryexts_bitmap_test bm (of_nat k)"
  by (auto simp: first_free_def find_None_iff)

definition block_counter :: "fs \<Rightarrow> u64" where
  "block_counter st = sb_free_blocks_count (s_disk_sb st)"

definition inode_counter :: "fs \<Rightarrow> u64" where
  "inode_counter st = sb_free_inodes_count (s_disk_sb st)"

text \<open>The result of a search: nothing changed, or the bit of a free data block was set.\<close>

definition block_grabbed :: "fs \<Rightarrow> u64 res \<times> fs \<Rightarrow> bool" where
  "block_grabbed st p \<longleftrightarrow> (case p of
     (Inl e, st1) \<Rightarrow> st1 = st
   | (Inr b, st1) \<Rightarrow> b \<in> block_space st - block_used st \<and>
       bit_flipped True (bmap st (block_group st b)) (block_bit st b) st st1 \<and>
       block_counter st1 = block_counter st)"

text \<open>A clear bit from the first data block on belongs to a free data block.\<close>

lemma clear_bit_free:
  assumes ok: "alloc_ok st" and i: "i < ngroups st" and k: "k < bcount st i"
    and fd: "sb_first_data_block (s_disk_sb st) \<le> of_nat (bfirst st i + k)"
    and clear: "\<not> cryexts_bitmap_test (d_cache st (bmap st i)) (of_nat k)"
  defines "b \<equiv> of_nat (bfirst st i + k)"
  shows "b \<in> block_space st - block_used st" "block_group st b = i" "block_bit st b = k"
proof -
  note at = block_at [OF ok i k, folded b_def]
  show "block_group st b = i" "block_bit st b = k" by (rule at)+
  have "cryexts_data_block_valid st b"
    using alloc_okD(3) [OF ok] i k fd clear unfolding marked_def b_def by blast
  then show "b \<in> block_space st - block_used st"
    using block_place(4) [OF ok] clear at by (simp add: block_space_def block_used_def block_taken_def)
qed

lemma alloc_legacy_grabbed:
  assumes ok: "alloc_ok st" and ng: "\<not> cryexts_has_block_groups st"
  shows "block_grabbed st (cryexts_alloc_block_legacy st)"
    "cryexts_alloc_block_legacy st = (Inl e, st') \<Longrightarrow> e = ENOSPC \<and> block_space st = block_used st"
proof -
  let ?fd = "sb_first_data_block (s_disk_sb st)"
  let ?bh = "the (s_block_bitmap_bh st)"
  have n: "0 < ngroups st" and geo: "bfirst st 0 = 0" "bcount st 0 = unat (cryexts_blocks_count st)"
      "bmap st 0 = ?bh"
    using ng by (simp_all add: ngroups_def bfirst_def bcount_def bmap_def)
  have data: "bdata st ?bh = d_cache st ?bh"
    using bitmap_bdata [OF ok bitmap_in(1) [OF n]] geo by simp
  show "block_grabbed st (cryexts_alloc_block_legacy st)"
  proof (cases "first_free (bdata st ?bh) (\<lambda>_. False) [unat ?fd..<unat (cryexts_blocks_count st)]")
    case None
    then show ?thesis by (simp add: cryexts_alloc_block_legacy_def Let_def block_grabbed_def)
  next
    case (Some w)
    then obtain k where k: "unat ?fd \<le> k" "k < bcount st 0" "w = of_nat k"
        "\<not> cryexts_bitmap_test (d_cache st (bmap st 0)) (of_nat k)"
      using first_free_Some [OF Some] geo data by auto
    then have "?fd \<le> of_nat (bfirst st 0 + k)"
      using block_at(1) [OF ok n k(2)] geo by (simp add: word_le_nat_alt)
    note c = clear_bit_free [OF ok n k(2) this k(4)]
    show ?thesis
      using Some c k(3) geo bitmap_at_flipped(1) [OF ok bitmap_in(1) [OF n], of k]
      by (simp add: cryexts_alloc_block_legacy_def Let_def block_grabbed_def block_counter_def
          bitmap_set_at_def set_bdata_def)
        (use alloc_okD(5) [OF ok bitmap_in(1) [OF n]] geo in \<open>auto simp: side_def\<close>)
  qed
  show "e = ENOSPC \<and> block_space st = block_used st"
    if res: "cryexts_alloc_block_legacy st = (Inl e, st')"
  proof -
    have none: "first_free (bdata st ?bh) (\<lambda>_. False) [unat ?fd..<unat (cryexts_blocks_count st)] = None"
      using res by (auto simp: cryexts_alloc_block_legacy_def Let_def split: option.splits)
    have "b \<in> block_used st" if "b \<in> block_space st" for b
    proof -
      have v: "cryexts_data_block_valid st b" using that by (simp add: block_space_def)
      then have "?fd \<le> b" using ng by (auto simp: cryexts_data_block_valid_def Let_def split: if_splits)
      then have "cryexts_bitmap_test (d_cache st ?bh) (of_nat (unat b))"
        using first_free_None [OF none, of "unat b"] data data_block_valid_bound [OF v]
        by (simp add: word_le_nat_alt word_less_nat_alt)
      then show ?thesis
        using v ng data by (simp add: block_used_def cryexts_block_bitmap_used_def)
    qed
    then show ?thesis
      using block_used_space [of st] res none
      by (auto simp: cryexts_alloc_block_legacy_def Let_def)
  qed
qed

text \<open>What the group functions of the code read.\<close>

lemma group_reads:
  assumes ok: "alloc_ok st" and gr: "cryexts_has_block_groups st" and lt: "grp < s_group_count st"
  shows "unat grp < ngroups st"
    "bitmap_slot (s_group_block_bitmap_bhs st) grp = Some (bmap st (unat grp))"
    "bitmap_slot (s_group_inode_bitmap_bhs st) grp = Some (imap st (unat grp))"
    "unat (cryexts_group_first_block st grp) = bfirst st (unat grp)"
    "unat (cryexts_group_blocks st grp) = bcount st (unat grp)"
    "s_group_block_bitmap_bhs st \<noteq> None" "s_group_inode_bitmap_bhs st \<noteq> None"
    "bdata st (bmap st (unat grp)) = d_cache st (bmap st (unat grp))"
    "bdata st (imap st (unat grp)) = d_cache st (imap st (unat grp))"
proof -
  note g = alloc_okD(8) [OF ok gr]
  show n: "unat grp < ngroups st" using gr lt by (simp add: ngroups_def word_less_nat_alt)
  obtain gs where gs: "s_groups st = Some gs" using g by (auto simp: groups_ok_def)
  show "bitmap_slot (s_group_block_bitmap_bhs st) grp = Some (bmap st (unat grp))"
      "bitmap_slot (s_group_inode_bitmap_bhs st) grp = Some (imap st (unat grp))"
      "s_group_block_bitmap_bhs st \<noteq> None" "s_group_inode_bitmap_bhs st \<noteq> None"
    using g n gr by (auto simp: groups_ok_def bmap_def imap_def)
  show "unat (cryexts_group_first_block st grp) = bfirst st (unat grp)"
      "unat (cryexts_group_blocks st grp) = bcount st (unat grp)"
    using gs gr lt linorder_not_le [of "s_group_count st" grp]
    by (auto simp: cryexts_group_first_block_def cryexts_group_blocks_def group_field_def bfirst_def
        bcount_def group_at_def)
  show "bdata st (bmap st (unat grp)) = d_cache st (bmap st (unat grp))"
      "bdata st (imap st (unat grp)) = d_cache st (imap st (unat grp))"
    by (intro bitmap_bdata [OF ok] bitmap_in n)+
qed

lemma alloc_in_group_grabbed:
  assumes ok: "alloc_ok st" and gr: "cryexts_has_block_groups st" and lt: "grp < s_group_count st"
  shows "block_grabbed st (cryexts_alloc_block_in_group grp hint st)"
    "cryexts_alloc_block_in_group grp hint st = (Inl e, st') \<Longrightarrow> e = ENOSPC \<and>
      (\<forall>b \<in> block_space st - block_used st. block_group st b = unat grp \<longrightarrow>
         b < sb_first_data_block (s_disk_sb st))"
proof -
  note r = group_reads [OF ok gr lt]
  let ?g = "unat grp" and ?fd = "sb_first_data_block (s_disk_sb st)"
  let ?start = "unat (if cryexts_group_first_block st grp \<le> hint \<and>
      hint < cryexts_group_first_block st grp + cryexts_group_blocks st grp
    then hint - cryexts_group_first_block st grp else 0)"
  let ?ks = "[?start..<bcount st ?g] @ [0..<?start]"
  let ?skip = "\<lambda>k. cryexts_group_first_block st grp + k < ?fd"
  have pos: "0 < bcount st ?g"
    using alloc_okD(8) [OF ok gr] r(1) by (simp add: groups_ok_def)
  then have nz: "cryexts_group_blocks st grp \<noteq> 0" using r(5) by auto
  have top: "bfirst st ?g + bcount st ?g < 2 ^ 64"
    using alloc_okD(8) [OF ok gr] r(1) unsigned_less [of "cryexts_blocks_count st", where 'a = nat]
    by (auto simp: groups_ok_def intro: le_less_trans)
  have start: "?start < bcount st ?g"
    using pos r(4,5) top by (auto simp: word_le_nat_alt word_less_nat_alt unat_plus_if' unat_sub_if')
  have set: "set ?ks = {0..<bcount st ?g}" using start by auto
  have eq: "cryexts_alloc_block_in_group grp hint st =
      (case first_free (d_cache st (bmap st ?g)) ?skip ?ks of
         None \<Rightarrow> (Inl ENOSPC, st)
       | Some k \<Rightarrow> (Inr (cryexts_group_first_block st grp + k),
           upd_group grp (\<lambda>g. g\<lparr>gd_free_blocks_count := gd_free_blocks_count g - 1\<rparr>)
             (bitmap_set_at (bmap st ?g) k st)))"
    unfolding cryexts_alloc_block_in_group_def Let_def
    using lt r(6) by (simp only: linorder_not_le [symmetric] r(2,5,8) nz if_False option.case simp_thms)
  have num: "cryexts_group_first_block st grp + of_nat k = of_nat (bfirst st ?g + k)" for k
    using r(4) word_nat_inv [of "cryexts_group_first_block st grp"] by simp
  show "block_grabbed st (cryexts_alloc_block_in_group grp hint st)"
  proof (cases "first_free (d_cache st (bmap st ?g)) ?skip ?ks")
    case None
    then show ?thesis unfolding eq by (simp add: block_grabbed_def)
  next
    case (Some w)
    then obtain k where k: "k < bcount st ?g" "w = of_nat k" "?fd \<le> of_nat (bfirst st ?g + k)"
        "\<not> cryexts_bitmap_test (d_cache st (bmap st ?g)) (of_nat k)"
      using first_free_Some [OF Some] set num by (auto simp: not_less)
    note c = clear_bit_free [OF ok r(1) k(1,3,4)]
    let ?s = "bitmap_set_at (bmap st ?g) (of_nat k) st"
    let ?f = "\<lambda>g. g\<lparr>gd_free_blocks_count := gd_free_blocks_count g - 1\<rparr>"
    have "bit_flipped True (bmap st ?g) k st (upd_group grp ?f ?s)"
      by (rule flipped_counts [OF bitmap_at_flipped(1) [OF ok bitmap_in(1) [OF r(1)]]])
        (rule geo_upd_group, simp_all add: gd_place_def upd_group_def)
    moreover have "bmap st ?g \<noteq> 0" using alloc_okD(5) [OF ok bitmap_in(1) [OF r(1)]] by (auto simp: side_def)
    then have "block_counter (upd_group grp ?f ?s) = block_counter st"
      by (simp add: block_counter_def upd_group_def bitmap_set_at_def set_bdata_def)
    ultimately show ?thesis
      unfolding eq using Some c k(2) num by (simp add: block_grabbed_def)
  qed
  show "e = ENOSPC \<and> (\<forall>b \<in> block_space st - block_used st. block_group st b = ?g \<longrightarrow> b < ?fd)"
    if res: "cryexts_alloc_block_in_group grp hint st = (Inl e, st')"
  proof -
    have none: "first_free (d_cache st (bmap st ?g)) ?skip ?ks = None" and e: "e = ENOSPC"
      using res unfolding eq by (auto split: option.splits)
    have "b < ?fd" if b: "b \<in> block_space st" "b \<notin> block_used st" "block_group st b = ?g" for b
    proof -
      have v: "cryexts_data_block_valid st b" using b by (simp add: block_space_def)
      note p = block_place [OF ok v]
      have "of_nat (bfirst st ?g + block_bit st b) = b" using p(2) b(3) word_nat_inv [of b] by simp
      moreover have "\<not> cryexts_bitmap_test (d_cache st (bmap st ?g)) (of_nat (block_bit st b))"
        using p(4) b v by (simp add: block_used_def block_taken_def)
      moreover have "block_bit st b \<in> set ?ks" unfolding set using p(3) b(3) by simp
      ultimately show ?thesis
        using first_free_None [OF none, of "block_bit st b", unfolded num] by simp
    qed
    then show ?thesis using e by blast
  qed
qed

lemma block_scan_grabbed:
  assumes ok: "alloc_ok st" and gr: "cryexts_has_block_groups st"
    and l: "\<And>s g. (s, g) \<in> set l \<Longrightarrow> g < s_group_count st"
  shows "block_grabbed st (alloc_block_scan hint l err st)"
    "alloc_block_scan hint l err st = (Inl e, st') \<Longrightarrow> e \<in> {err, ENOSPC} \<and>
      (\<forall>(s, g) \<in> set l. g < cryexts_first_data_group st \<or> cryexts_group_free_blocks st g = 0 \<or>
        (\<forall>b \<in> block_space st - block_used st. block_group st b = unat g \<longrightarrow>
           b < sb_first_data_block (s_disk_sb st)))"
proof -
  have "block_grabbed st (alloc_block_scan hint l err st) \<and>
    (alloc_block_scan hint l err st = (Inl e, st') \<longrightarrow> e \<in> {err, ENOSPC} \<and>
      (\<forall>(s, g) \<in> set l. g < cryexts_first_data_group st \<or> cryexts_group_free_blocks st g = 0 \<or>
        (\<forall>b \<in> block_space st - block_used st. block_group st b = unat g \<longrightarrow>
           b < sb_first_data_block (s_disk_sb st))))"
    using l
  proof (induction l arbitrary: err)
    case Nil
    then show ?case by (simp add: failE_def block_grabbed_def)
  next
    case (Cons p l)
    obtain s g where p: "p = (s, g)" by fastforce
    have rest: "g' < s_group_count st" if "(s', g') \<in> set l" for s' g' using Cons.prems that by auto
    have lt: "g < s_group_count st" using Cons.prems p by auto
    show ?case
    proof (cases "g < cryexts_first_data_group st \<or> cryexts_group_free_blocks st g = 0")
      case True
      then show ?thesis using Cons.IH [of err] rest p by auto
    next
      case False
      obtain r st1 where res: "cryexts_alloc_block_in_group g (hint st s g) st = (r, st1)" by fastforce
      note a = alloc_in_group_grabbed [OF ok gr lt, of "hint st s g"]
      show ?thesis
      proof (cases r)
        case (Inl e1)
        then have "st1 = st" using a(1) res by (simp add: block_grabbed_def)
        then show ?thesis using Cons.IH [of e1] rest p False res Inl a(2) by auto
      next
        case (Inr b)
        then show ?thesis using p False res a(1) by auto
      qed
    qed
  qed
  then show "block_grabbed st (alloc_block_scan hint l err st)"
    "alloc_block_scan hint l err st = (Inl e, st') \<Longrightarrow> e \<in> {err, ENOSPC} \<and>
      (\<forall>(s, g) \<in> set l. g < cryexts_first_data_group st \<or> cryexts_group_free_blocks st g = 0 \<or>
        (\<forall>b \<in> block_space st - block_used st. block_group st b = unat g \<longrightarrow>
           b < sb_first_data_block (s_disk_sb st)))"
    by blast+
qed

section \<open>The contract of block allocation\<close>

text \<open>The search part of \<open>cryexts_alloc_block_goal\<close>.\<close>

definition block_search :: "u64 \<Rightarrow> u64 \<Rightarrow> (fs, u64) act" where
  "block_search goal_block goal_group = (\<lambda>st.
     let have_goal_block = (goal_block \<noteq> 0 \<and> cryexts_data_block_valid st goal_block);
         use_prealloc = cryexts_prealloc_feature_enabled st
     in if \<not> cryexts_has_block_groups st then cryexts_alloc_block_legacy st
        else (case alloc_block_scan
                (\<lambda>st. block_start_hint st use_prealloc have_goal_block goal_block goal_group)
                (scan_order st
                  (alloc_block_start st use_prealloc have_goal_block goal_block goal_group))
                ENOSPC st of
                (Inl e, st) \<Rightarrow> alloc_block_scan (\<lambda>_ _ _. 0) (second_pass st) e st
              | (Inr block, st) \<Rightarrow> (Inr block, st)))"

lemma alloc_block_goal_eq:
  "cryexts_alloc_block_goal goal grp =
     bindE (block_search goal grp) (\<lambda>b st. (Inr b, alloc_block_account b st))"
  by (simp add: cryexts_alloc_block_goal_def block_search_def)

lemma scan_groups:
  assumes "0 < ngroups st" "cryexts_has_block_groups st"
  shows "(s, g) \<in> set (scan_order st start) \<Longrightarrow> g < s_group_count st"
    "(s, g) \<in> set (second_pass st) \<Longrightarrow> g < s_group_count st"
    "cryexts_first_data_group st \<le> g \<Longrightarrow> g < s_group_count st \<Longrightarrow> (0, g) \<in> set (second_pass st)"
proof -
  have pos: "0 < s_group_count st" using assms by (simp add: ngroups_def word_less_nat_alt)
  show "g < s_group_count st" if "(s, g) \<in> set (scan_order st start)"
  proof -
    have "\<exists>x. g = x mod s_group_count st" using that by (auto simp: scan_order_def)
    then show ?thesis using pos by (auto simp: word_less_nat_alt unat_mod)
  qed
  have small: "unat (of_nat k :: u64) = k" if "k < unat (s_group_count st)" for k
    using that unsigned_less [of "s_group_count st", where 'a = nat] by (simp add: unat_of_nat)
  show "g < s_group_count st" if "(s, g) \<in> set (second_pass st)"
    using that small by (auto simp: second_pass_def word_less_nat_alt)
  show "(0, g) \<in> set (second_pass st)" if "cryexts_first_data_group st \<le> g" "g < s_group_count st"
    using that word_nat_inv [of g]
    by (auto simp: second_pass_def word_le_nat_alt word_less_nat_alt intro!: image_eqI [of _ _ "unat g"])
qed

lemma block_search_grabbed:
  assumes ok: "alloc_ok st"
  shows "block_grabbed st (block_search goal grp st)"
proof (cases "cryexts_has_block_groups st")
  case False
  then show ?thesis using alloc_legacy_grabbed(1) [OF ok] by (simp add: block_search_def Let_def)
next
  case True
  note s = scan_groups [OF alloc_okD(4) [OF ok] True]
  obtain r st1 where res: "alloc_block_scan
      (\<lambda>st'. block_start_hint st' (cryexts_prealloc_feature_enabled st)
         (goal \<noteq> 0 \<and> cryexts_data_block_valid st goal) goal grp)
      (scan_order st (alloc_block_start st (cryexts_prealloc_feature_enabled st)
         (goal \<noteq> 0 \<and> cryexts_data_block_valid st goal) goal grp)) ENOSPC st = (r, st1)"
    by fastforce
  have "block_grabbed st (alloc_block_scan hint (scan_order st x) ENOSPC st)" for hint x
    using s(1) by (intro block_scan_grabbed(1) [OF ok True]) blast
  then have g: "block_grabbed st (r, st1)"
    unfolding res [symmetric] by blast
  have second: "block_grabbed st (alloc_block_scan hint (second_pass st) e st)" for hint e
    using s(2) by (intro block_scan_grabbed(1) [OF ok True]) blast
  show ?thesis
  proof (cases r)
    case (Inl e)
    then have "st1 = st" using g by (simp add: block_grabbed_def)
    then show ?thesis using True res Inl second by (simp add: block_search_def Let_def)
  next
    case (Inr b)
    then show ?thesis using True res g by (simp add: block_search_def Let_def)
  qed
qed

lemma account_flipped:
  assumes ok: "alloc_ok st" and f: "bit_flipped v bh k st m"
  defines "st' \<equiv> cryexts_mark_super_dirty (cryexts_mark_bitmap_dirty m)"
  shows "bit_flipped v bh k st st'" "block_counter st' = block_counter m" "inode_counter st' = inode_counter m"
proof -
  have "side_blocks (side st) m" using f by (intro side_blocks_geo [OF _ ok]) (simp add: bit_flipped_def)
  then have fr: "alloc_frame (side st) m st'" unfolding st'_def by (rule mark_frame)
  show "bit_flipped v bh k st st'" by (rule flipped_frame [OF ok f fr])
  show "block_counter st' = block_counter m" "inode_counter st' = inode_counter m"
    using fr by (simp_all add: alloc_frame_def alloc_view_def sb_view_def block_counter_def inode_counter_def)
qed

lemma block_account:
  assumes ok: "alloc_ok st" and f: "bit_flipped True bh k st st1"
  shows "bit_flipped True bh k st (alloc_block_account b st1)"
    "block_counter (alloc_block_account b st1) = block_counter st1 - 1"
proof -
  let ?m = "(upd_disk_sb (\<lambda>sb. sb\<lparr>sb_free_blocks_count := sb_free_blocks_count sb - 1\<rparr>) st1)
    \<lparr>s_next_data_block := b + 1\<rparr>"
  have "bit_flipped True bh k st ?m"
    by (rule flipped_counts [OF f]) (simp_all add: geo_counts upd_disk_sb_def [of _ st1], simp add: geo_view_def)
  from account_flipped [OF ok this]
  show "bit_flipped True bh k st (alloc_block_account b st1)"
    "block_counter (alloc_block_account b st1) = block_counter st1 - 1"
    by (simp_all add: alloc_block_account_def Let_def) (simp add: block_counter_def upd_disk_sb_def)
qed

lemma block_alloc_ok:
  assumes ok: "alloc_ok st" and res: "cryexts_alloc_block_goal goal grp st = (Inr b, st')"
  shows "alloc_ok st'" "block_space st' = block_space st" "b \<in> block_space st - block_used st"
    "block_used st' = insert b (block_used st)" "block_counter st' = block_counter st - 1"
    "inode_used st' = inode_used st"
proof -
  obtain st1 where s: "block_search goal grp st = (Inr b, st1)" and st': "st' = alloc_block_account b st1"
    using res by (auto simp: alloc_block_goal_eq bindE_eq_Inr)
  then have g: "b \<in> block_space st - block_used st"
      "bit_flipped True (bmap st (block_group st b)) (block_bit st b) st st1"
      "block_counter st1 = block_counter st"
    using block_search_grabbed [OF ok, of goal grp] by (simp_all add: block_grabbed_def)
  note f = flip_block [OF ok _ block_account(1) [OF ok g(2)], of b]
  show "alloc_ok st'" "block_space st' = block_space st" "b \<in> block_space st - block_used st"
    "block_used st' = insert b (block_used st)" "inode_used st' = inode_used st"
    using f g(1) st' by simp_all
  show "block_counter st' = block_counter st - 1"
    using block_account(2) [OF ok g(2)] g(3) st' by simp
qed

lemma block_alloc_fail:
  assumes ok: "alloc_ok st" and res: "cryexts_alloc_block_goal goal grp st = (Inl e, st')"
  shows "st' = st"
  using block_search_grabbed [OF ok, of goal grp] res
  by (auto simp: alloc_block_goal_eq bindE_def block_grabbed_def split: prod.splits sum.splits)

lemma free_block_account:
  assumes ok: "alloc_ok st" and f: "bit_flipped v bh k st st1"
  shows "bit_flipped v bh k st (free_block_account st1)"
    "block_counter (free_block_account st1) = block_counter st1 + 1"
proof -
  let ?m = "upd_disk_sb (\<lambda>sb. sb\<lparr>sb_free_blocks_count := sb_free_blocks_count sb + 1\<rparr>) st1"
  have "bit_flipped v bh k st ?m"
    by (rule flipped_counts [OF f]) (simp add: geo_counts, simp add: upd_disk_sb_def)
  from account_flipped [OF ok this]
  show "bit_flipped v bh k st (free_block_account st1)"
    "block_counter (free_block_account st1) = block_counter st1 + 1"
    by (simp_all add: free_block_account_def) (simp add: block_counter_def upd_disk_sb_def)
qed

lemma free_block_cases:
  assumes ok: "alloc_ok st" and v: "cryexts_data_block_valid st b" and u: "cryexts_block_bitmap_used st b"
  obtains m where "cryexts_free_block b st = (Inr (), free_block_account m)"
    "bit_flipped False (bmap st (block_group st b)) (block_bit st b) st m"
    "block_counter m = block_counter st"
proof -
  let ?i = "block_group st b" and ?k = "block_bit st b"
  note p = block_place [OF ok v]
  let ?m = "bitmap_clear_at (bmap st ?i) (of_nat ?k) st"
  have in_b: "bmap st ?i \<in> set (bitmaps st)" by (rule bitmap_in [OF p(1)])
  have nz: "bmap st ?i \<noteq> 0" using alloc_okD(5) [OF ok in_b] by (auto simp: side_def)
  have fl: "bit_flipped False (bmap st ?i) ?k st ?m" by (rule bitmap_at_flipped(2) [OF ok in_b])
  have cnt: "block_counter ?m = block_counter st"
    using nz by (simp add: block_counter_def bitmap_clear_at_def set_bdata_def)
  show thesis
  proof (cases "cryexts_has_block_groups st")
    case False
    then have "of_nat ?k = b" "bmap st ?i = the (s_block_bitmap_bh st)"
      using word_nat_inv [of b] by (simp_all add: block_bit_def block_group_def bfirst_def bmap_def)
    then have "cryexts_free_block b st = (Inr (), free_block_account ?m)"
      using False v u by (simp add: cryexts_free_block_def Let_def cryexts_block_bitmap_used_def)
    then show thesis using that fl cnt by blast
  next
    case True
    let ?grp = "b div s_blocks_per_group st"
    have i: "unat ?grp = ?i" using True by (simp add: block_group_def unat_div)
    have lt: "?grp < s_group_count st" using p(1) i True by (simp add: ngroups_def word_less_nat_alt)
    note r = group_reads [OF ok True lt, unfolded i]
    have "b - cryexts_group_first_block st ?grp = of_nat ?k"
      using word_nat_inv [of b] word_nat_inv [of "cryexts_group_first_block st ?grp"] p(2) r(4)
      by (metis add_diff_cancel_left' of_nat_add)
    moreover have "cryexts_bitmap_test (bdata st (bmap st ?i)) (of_nat ?k)"
      using p(4) u r(8) by (simp add: block_taken_def)
    ultimately have eq: "cryexts_free_block b st = (Inr (), free_block_account
        (upd_group ?grp (\<lambda>g. g\<lparr>gd_free_blocks_count := gd_free_blocks_count g + 1\<rparr>) ?m))"
      unfolding cryexts_free_block_def Let_def using True v lt r(2) by (simp add: leD not_le)
    show thesis
      by (rule that [OF eq flipped_counts [OF fl]])
        (rule geo_upd_group, use cnt in \<open>simp_all add: gd_place_def upd_group_def block_counter_def\<close>)
  qed
qed

lemma block_free_ok:
  assumes ok: "alloc_ok st" and res: "cryexts_free_block b st = (Inr (), st')"
  shows "alloc_ok st'" "block_space st' = block_space st" "b \<in> block_space st"
    "block_used st' = block_used st - {b}"
    "block_counter st' = (if b \<in> block_used st then block_counter st + 1 else block_counter st)"
    "inode_used st' = inode_used st"
proof -
  have v: "cryexts_data_block_valid st b"
    using res by (auto simp: cryexts_free_block_def split: if_splits)
  then show sp: "b \<in> block_space st" by (simp add: block_space_def)
  have "alloc_ok st' \<and> block_space st' = block_space st \<and> block_used st' = block_used st - {b} \<and>
    block_counter st' = (if b \<in> block_used st then block_counter st + 1 else block_counter st) \<and>
    inode_used st' = inode_used st"
  proof (cases "b \<in> block_used st")
    case True
    then have "cryexts_block_bitmap_used st b" by (simp add: block_used_def)
    then obtain m where m: "cryexts_free_block b st = (Inr (), free_block_account m)"
        "bit_flipped False (bmap st (block_group st b)) (block_bit st b) st m"
        "block_counter m = block_counter st"
      using free_block_cases [OF ok v] by blast
    note a = free_block_account [OF ok m(2)]
    show ?thesis using flip_block [OF ok sp a(1)] a(2) m res True by simp
  next
    case False
    have "st' = st"
    proof (cases "cryexts_has_block_groups st")
      case False
      then show ?thesis
        using res v \<open>b \<notin> block_used st\<close>
        by (simp add: cryexts_free_block_def Let_def block_used_def cryexts_block_bitmap_used_def)
    next
      case True
      let ?grp = "b div s_blocks_per_group st"
      have "block_group st b < ngroups st" "unat ?grp = block_group st b"
        using block_place(1) [OF ok v] True by (simp_all add: block_group_def unat_div)
      then have lt: "?grp < s_group_count st" using True by (simp add: ngroups_def word_less_nat_alt)
      then have nl: "\<not> s_group_count st \<le> ?grp" by simp
      have "\<not> cryexts_bitmap_test (bdata st (bmap st (unat ?grp))) (b - cryexts_group_first_block st ?grp)"
        using \<open>b \<notin> block_used st\<close> v True lt group_reads(2) [OF ok True lt]
        by (simp add: block_used_def cryexts_block_bitmap_used_def Let_def nl)
      then show ?thesis
        using res v True lt group_reads(2) [OF ok True lt]
        by (simp add: cryexts_free_block_def Let_def nl)
    qed
    then show ?thesis using ok False by simp
  qed
  then show "alloc_ok st'" "block_space st' = block_space st"
    "block_used st' = block_used st - {b}"
    "block_counter st' = (if b \<in> block_used st then block_counter st + 1 else block_counter st)"
    "inode_used st' = inode_used st"
    by blast+
qed

lemma block_free_fail:
  "cryexts_free_block b st = (Inl e, st') \<Longrightarrow> st' = st"
  by (auto simp: cryexts_free_block_def Let_def split: if_splits)

interpretation blocks: allocator alloc_ok block_space block_used block_counter
    "\<lambda>(goal, grp). cryexts_alloc_block_goal goal grp" cryexts_free_block
proof unfold_locales
  show "block_used s \<subseteq> block_space s" for s by (rule block_used_space)
next
  fix s h b s'
  assume "alloc_ok s" and a: "(case h of (goal, grp) \<Rightarrow> cryexts_alloc_block_goal goal grp) s = (Inr b, s')"
  moreover obtain goal grp where "h = (goal, grp)" by fastforce
  ultimately show "alloc_ok s' \<and> block_space s' = block_space s \<and> b \<in> block_space s - block_used s \<and>
      block_used s' = insert b (block_used s) \<and> block_counter s' = block_counter s - 1"
    using block_alloc_ok [of s goal grp b s'] by simp
next
  fix s h e s'
  assume "alloc_ok s" and "(case h of (goal, grp) \<Rightarrow> cryexts_alloc_block_goal goal grp) s = (Inl e, s')"
  then show "s' = s" using block_alloc_fail by (cases h) auto
next
  fix s b s'
  assume "alloc_ok s" "cryexts_free_block b s = (Inr (), s')"
  note f = block_free_ok [OF this]
  then show "alloc_ok s' \<and> block_space s' = block_space s \<and> b \<in> block_space s \<and>
      block_used s' = block_used s - {b} \<and>
      block_counter s' = (if b \<in> block_used s then block_counter s + 1 else block_counter s)" by simp
next
  fix s b e s'
  assume "alloc_ok s" "cryexts_free_block b s = (Inl e, s')"
  then show "alloc_ok s' \<and> block_space s' = block_space s \<and> block_used s' = block_used s \<and>
      block_counter s' = block_counter s"
    using block_free_fail by blast
qed

end
