(* ===== verification/InodeAlloc.thy ===== *)
theory InodeAlloc
  imports BlockAlloc
begin

text \<open>
  Inode allocation satisfies the contract of an allocator as well.  Freeing an inode also clears
  it in the inode table, which touches no bitmap.
\<close>

section \<open>Finding and taking an inode\<close>

definition inode_grabbed :: "fs \<Rightarrow> u64 res \<times> fs \<Rightarrow> bool" where
  "inode_grabbed st p \<longleftrightarrow> (case p of
     (Inl e, st1) \<Rightarrow> st1 = st
   | (Inr ino, st1) \<Rightarrow> ino \<in> inode_space st - inode_used st \<and>
       bit_flipped True (imap st (inode_group st ino)) (inode_bit st ino) st st1 \<and>
       inode_counter st1 = inode_counter st)"

lemma clear_bit_free_inode:
  assumes ok: "alloc_ok st" and i: "i < ngroups st" and k: "k < iper st"
    and n: "i * iper st + k < unat (cryexts_inodes_count st)"
    and clear: "\<not> cryexts_bitmap_test (d_cache st (imap st i)) (of_nat k)"
  defines "ino \<equiv> of_nat (i * iper st + k) + 1"
  shows "ino \<in> inode_space st - inode_used st" "inode_group st ino = i" "inode_bit st ino = k"
proof -
  note at = inode_at [OF ok i k n, folded ino_def]
  show "inode_group st ino = i" "inode_bit st ino = k" by (rule at)+
  show "ino \<in> inode_space st - inode_used st"
    using at(4) inode_place(4) [OF ok at(4)] clear at(2,3) by (simp add: inode_used_def inode_taken_def)
qed

lemma imap_facts:
  assumes "alloc_ok st" "i < ngroups st"
  shows "imap st i \<noteq> 0" "bdata st (imap st i) = d_cache st (imap st i)"
  using alloc_okD(5) [OF assms(1) bitmap_in(2) [OF assms(2)]]
    bitmap_bdata [OF assms(1) bitmap_in(2) [OF assms(2)]] by (auto simp: side_def)

lemma inode_set_grabbed:
  assumes ok: "alloc_ok st" and i: "i < ngroups st" and k: "k < iper st"
    and n: "i * iper st + k < unat (cryexts_inodes_count st)"
    and clear: "\<not> cryexts_bitmap_test (d_cache st (imap st i)) (of_nat k)"
    and g: "geo_view st1 = geo_view st" and c: "d_cache st1 = d_cache (bitmap_set_at (imap st i) (of_nat k) st)"
    and cnt: "inode_counter st1 = inode_counter st"
  shows "inode_grabbed st (Inr (of_nat (i * iper st + k) + 1), st1)"
proof -
  have f: "bit_flipped True (imap st i) k st (bitmap_set_at (imap st i) (of_nat k) st)"
    by (rule bitmap_at_flipped(1) [OF ok bitmap_in(2) [OF i]])
  have "geo_view st1 = geo_view (bitmap_set_at (imap st i) (of_nat k) st)"
    using g f by (simp add: bit_flipped_def)
  from flipped_counts [OF f this c] show ?thesis
    using clear_bit_free_inode [OF ok i k n clear] cnt by (simp add: inode_grabbed_def)
qed

lemma alloc_inode_legacy_grabbed:
  assumes ok: "alloc_ok st" and ng: "\<not> cryexts_has_block_groups st"
  shows "inode_grabbed st (cryexts_alloc_inode_legacy st)"
    "cryexts_alloc_inode_legacy st = (Inl e, st') \<Longrightarrow> e = ENOSPC \<and> inode_space st - {CRYEXTS_ROOT_INO} \<subseteq> inode_used st"
proof -
  let ?bh = "the (s_inode_bitmap_bh st)"
  have n: "0 < ngroups st" and geo: "iper st = unat (cryexts_inodes_count st)" "imap st 0 = ?bh"
    using ng by (simp_all add: ngroups_def iper_def imap_def)
  note im = imap_facts [OF ok n, unfolded geo(2)]
  let ?ks = "[unat CRYEXTS_ROOT_INO..<unat (cryexts_inodes_count st)]"
  show "inode_grabbed st (cryexts_alloc_inode_legacy st)"
  proof (cases "first_free (bdata st ?bh) (\<lambda>_. False) ?ks")
    case None
    then show ?thesis by (simp add: cryexts_alloc_inode_legacy_def Let_def inode_grabbed_def)
  next
    case (Some w)
    then obtain k where k: "k < iper st" "w = of_nat k"
        "\<not> cryexts_bitmap_test (d_cache st (imap st 0)) (of_nat k)"
      using first_free_Some [OF Some] geo im by auto
    let ?s = "bitmap_set_at ?bh (of_nat k) st"
    have gv: "geo_view ?s = geo_view st"
      using bitmap_at_flipped(1) [OF ok bitmap_in(2) [OF n], of k] geo(2) by (simp add: bit_flipped_def)
    have "inode_counter ?s = inode_counter st"
      using im(1) by (simp add: inode_counter_def bitmap_set_at_def set_bdata_def)
    from inode_set_grabbed [OF ok n k(1) _ k(3) gv _ this] show ?thesis
      using Some k(1,2) geo by (simp add: cryexts_alloc_inode_legacy_def Let_def)
  qed
  show "e = ENOSPC \<and> inode_space st - {CRYEXTS_ROOT_INO} \<subseteq> inode_used st"
    if res: "cryexts_alloc_inode_legacy st = (Inl e, st')"
  proof -
    have none: "first_free (bdata st ?bh) (\<lambda>_. False) ?ks = None"
      using res by (auto simp: cryexts_alloc_inode_legacy_def Let_def split: option.splits)
    have "ino \<in> inode_used st" if i: "ino \<in> inode_space st" "ino \<noteq> CRYEXTS_ROOT_INO" for ino
    proof -
      note p = inode_place [OF ok i(1)]
      have "inode_group st ino = 0" using p(1) ng by (simp add: ngroups_def)
      then have u: "unat ino = inode_bit st ino + 1" using p(2) by simp
      have "unat ino \<noteq> 1" using i(2) by (metis CRYEXTS_ROOT_INO_def unat_1 word_unat_eq_iff)
      then have "inode_bit st ino \<in> set ?ks"
        using u p(3) geo by (simp add: CRYEXTS_ROOT_INO_def)
      from first_free_None [OF none this] show ?thesis
        using p(4) im \<open>inode_group st ino = 0\<close> geo by (simp add: inode_used_def inode_taken_def)
    qed
    then show ?thesis
      using res none by (auto simp: cryexts_alloc_inode_legacy_def Let_def)
  qed
qed

lemma alloc_inode_in_group_grabbed:
  assumes ok: "alloc_ok st" and gr: "cryexts_has_block_groups st" and lt: "grp < s_group_count st"
  shows "inode_grabbed st (cryexts_alloc_inode_in_group grp st)"
    "cryexts_alloc_inode_in_group grp st = (Inl e, st') \<Longrightarrow> e = ENOSPC \<and>
      (\<forall>ino \<in> inode_space st - inode_used st. inode_group st ino = unat grp \<longrightarrow> ino = CRYEXTS_ROOT_INO)"
proof -
  note r = group_reads [OF ok gr lt] and g = alloc_okD(8) [OF ok gr]
  let ?g = "unat grp" and ?ipg = "s_inodes_per_group st"
  have per: "iper st = unat ?ipg" using gr by (simp add: iper_def)
  have "?g * iper st \<le> (ngroups st - 1) * iper st" using r(1) by (intro mult_le_mono1) simp
  also have "\<dots> \<le> unat (cryexts_inodes_count st)" using g unfolding groups_ok_def by blast
  finally have base: "?g * iper st \<le> unat (cryexts_inodes_count st)" .
  then have small: "?g * iper st < 2 ^ 64"
    using unsigned_less [of "cryexts_inodes_count st", where 'a = nat] by simp
  then have mul: "unat (grp * ?ipg) = ?g * iper st"
    using per by (simp add: unat_mult_lem [THEN iffD1])
  then have word: "grp * ?ipg = of_nat (?g * iper st)" using word_nat_inv by metis
  let ?limit = "min ?ipg (cryexts_inodes_count st - grp * ?ipg)"
  have "grp * ?ipg \<le> cryexts_inodes_count st" using mul base by (simp add: word_le_nat_alt)
  then have sub: "unat (cryexts_inodes_count st - grp * ?ipg) = unat (cryexts_inodes_count st) - ?g * iper st"
    using mul by (simp add: unat_sub)
  then have limit: "k < unat ?limit \<longleftrightarrow> k < iper st \<and> ?g * iper st + k < unat (cryexts_inodes_count st)" for k
    using per by (auto simp: min_def word_le_nat_alt)
  let ?skip = "\<lambda>k. grp * ?ipg + 1 + k < CRYEXTS_ROOT_INO + 1"
  have eq: "cryexts_alloc_inode_in_group grp st =
      (case first_free (d_cache st (imap st ?g)) ?skip [0..<unat ?limit] of
         None \<Rightarrow> (Inl ENOSPC, st)
       | Some k \<Rightarrow> (Inr (grp * ?ipg + 1 + k),
           upd_group grp (\<lambda>g. g\<lparr>gd_free_inodes_count := gd_free_inodes_count g - 1\<rparr>)
             (bitmap_set_at (imap st ?g) k st)))"
    unfolding cryexts_alloc_inode_in_group_def Let_def
    using lt r(7) by (simp only: linorder_not_le [symmetric] r(3,9) if_False option.case simp_thms)
  have num: "grp * ?ipg + 1 + of_nat k = of_nat (?g * iper st + k) + 1" for k
    unfolding word by simp
  show "inode_grabbed st (cryexts_alloc_inode_in_group grp st)"
  proof (cases "first_free (d_cache st (imap st ?g)) ?skip [0..<unat ?limit]")
    case None
    then show ?thesis unfolding eq by (simp add: inode_grabbed_def)
  next
    case (Some w)
    then obtain k where k: "k < unat ?limit" "w = of_nat k"
        "\<not> cryexts_bitmap_test (d_cache st (imap st ?g)) (of_nat k)"
      using first_free_Some [OF Some] by auto
    let ?f = "\<lambda>g. g\<lparr>gd_free_inodes_count := gd_free_inodes_count g - 1\<rparr>"
    let ?s = "upd_group grp ?f (bitmap_set_at (imap st ?g) (of_nat k) st)"
    have "geo_view (bitmap_set_at (imap st ?g) (of_nat k) st) = geo_view st"
      using bitmap_at_flipped(1) [OF ok bitmap_in(2) [OF r(1)], of k] by (simp add: bit_flipped_def)
    moreover have "geo_view ?s = geo_view (bitmap_set_at (imap st ?g) (of_nat k) st)"
      by (rule geo_upd_group) (simp add: gd_place_def)
    moreover have "inode_counter ?s = inode_counter st"
      using imap_facts(1) [OF ok r(1)]
      by (simp add: inode_counter_def upd_group_def bitmap_set_at_def set_bdata_def)
    moreover have "d_cache ?s = d_cache (bitmap_set_at (imap st ?g) (of_nat k) st)"
      by (simp add: upd_group_def)
    ultimately have "inode_grabbed st (Inr (of_nat (?g * iper st + k) + 1), ?s)"
      using k limit by (intro inode_set_grabbed [OF ok r(1)]) auto
    then show ?thesis unfolding eq Some option.case k(2) num .
  qed
  show "e = ENOSPC \<and>
      (\<forall>ino \<in> inode_space st - inode_used st. inode_group st ino = unat grp \<longrightarrow> ino = CRYEXTS_ROOT_INO)"
    if res: "cryexts_alloc_inode_in_group grp st = (Inl e, st')"
  proof -
    have none: "first_free (d_cache st (imap st ?g)) ?skip [0..<unat ?limit] = None" and e: "e = ENOSPC"
      using res unfolding eq by (auto split: option.splits)
    have "ino = CRYEXTS_ROOT_INO"
      if i: "ino \<in> inode_space st" "ino \<notin> inode_used st" "inode_group st ino = ?g" for ino
    proof -
      note p = inode_place [OF ok i(1)]
      have "?g * iper st + inode_bit st ino < unat (cryexts_inodes_count st)"
        using p(2) i(3) inode_space_nat [OF i(1)] by simp
      then have k: "inode_bit st ino \<in> set [0..<unat ?limit]" using limit p(3) by simp
      have "of_nat (?g * iper st + inode_bit st ino) + 1 = ino"
        using p(2) i(3) word_nat_inv [of ino] by (metis of_nat_Suc Suc_eq_plus1 add.commute)
      moreover have "\<not> cryexts_bitmap_test (d_cache st (imap st ?g)) (of_nat (inode_bit st ino))"
        using p(4) i by (simp add: inode_used_def inode_taken_def)
      ultimately have "ino < CRYEXTS_ROOT_INO + 1"
        using first_free_None [OF none k, unfolded num] by simp
      then show ?thesis
        using i(1) by (simp add: inode_space_def CRYEXTS_ROOT_INO_def word_le_nat_alt word_less_nat_alt
            word_unat_eq_iff)
    qed
    then show ?thesis using e by blast
  qed
qed

lemma inode_scan_grabbed:
  assumes ok: "alloc_ok st" and gr: "cryexts_has_block_groups st"
    and l: "\<And>g. g \<in> set l \<Longrightarrow> g < s_group_count st"
  shows "inode_grabbed st (alloc_inode_scan l err st)"
    "alloc_inode_scan l err st = (Inl e, st') \<Longrightarrow> e \<in> {err, ENOSPC} \<and>
      (\<forall>g \<in> set l. cryexts_group_free_inodes st g = 0 \<or>
        (\<forall>ino \<in> inode_space st - inode_used st. inode_group st ino = unat g \<longrightarrow> ino = CRYEXTS_ROOT_INO))"
proof -
  have "inode_grabbed st (alloc_inode_scan l err st) \<and>
    (alloc_inode_scan l err st = (Inl e, st') \<longrightarrow> e \<in> {err, ENOSPC} \<and>
      (\<forall>g \<in> set l. cryexts_group_free_inodes st g = 0 \<or>
        (\<forall>ino \<in> inode_space st - inode_used st. inode_group st ino = unat g \<longrightarrow> ino = CRYEXTS_ROOT_INO)))"
    using l
  proof (induction l arbitrary: err)
    case Nil
    then show ?case by (simp add: failE_def inode_grabbed_def)
  next
    case (Cons g l)
    have rest: "g' < s_group_count st" if "g' \<in> set l" for g' using Cons.prems that by auto
    have lt: "g < s_group_count st" using Cons.prems by auto
    show ?case
    proof (cases "cryexts_group_free_inodes st g = 0")
      case True
      then show ?thesis using Cons.IH [of err] rest by auto
    next
      case False
      obtain r st1 where res: "cryexts_alloc_inode_in_group g st = (r, st1)" by fastforce
      note a = alloc_inode_in_group_grabbed [OF ok gr lt]
      show ?thesis
      proof (cases r)
        case (Inl e1)
        then have "st1 = st" using a(1) res by (simp add: inode_grabbed_def)
        then show ?thesis using Cons.IH [of e1] rest False res Inl a(2) by auto
      next
        case (Inr b)
        then show ?thesis using False res a(1) by auto
      qed
    qed
  qed
  then show "inode_grabbed st (alloc_inode_scan l err st)"
    "alloc_inode_scan l err st = (Inl e, st') \<Longrightarrow> e \<in> {err, ENOSPC} \<and>
      (\<forall>g \<in> set l. cryexts_group_free_inodes st g = 0 \<or>
        (\<forall>ino \<in> inode_space st - inode_used st. inode_group st ino = unat g \<longrightarrow> ino = CRYEXTS_ROOT_INO))"
    by blast+
qed

definition inode_search :: "u64 \<Rightarrow> (fs, u64) act" where
  "inode_search goal_group = (\<lambda>st.
     if \<not> cryexts_has_block_groups st then cryexts_alloc_inode_legacy st
     else (let start_group =
                 (if cryexts_prealloc_feature_enabled st \<and> goal_group < s_group_count st
                  then goal_group else 0)
           in alloc_inode_scan (map snd (scan_order st start_group)) ENOSPC st))"

lemma alloc_inode_goal_eq:
  "cryexts_alloc_inode_goal goal = bindE (inode_search goal) (\<lambda>ino st. (Inr ino, alloc_inode_account ino st))"
  by (simp add: cryexts_alloc_inode_goal_def inode_search_def)

lemma inode_search_grabbed:
  assumes ok: "alloc_ok st"
  shows "inode_grabbed st (inode_search goal st)"
proof (cases "cryexts_has_block_groups st")
  case False
  then show ?thesis using alloc_inode_legacy_grabbed(1) [OF ok] by (simp add: inode_search_def)
next
  case True
  have "inode_grabbed st (alloc_inode_scan (map snd (scan_order st x)) ENOSPC st)" for x
    using scan_groups(1) [OF alloc_okD(4) [OF ok] True]
    by (intro inode_scan_grabbed(1) [OF ok True]) auto
  then show ?thesis using True by (simp add: inode_search_def Let_def)
qed

lemma inode_account:
  assumes ok: "alloc_ok st" and f: "bit_flipped True bh k st st1"
  shows "bit_flipped True bh k st (alloc_inode_account ino st1)"
    "inode_counter (alloc_inode_account ino st1) = inode_counter st1 - 1"
proof -
  let ?m = "upd_disk_sb (\<lambda>sb. sb\<lparr>sb_free_inodes_count := sb_free_inodes_count sb - 1\<rparr>)
    (if s_next_ino st1 < ino + 1 then st1\<lparr>s_next_ino := ino + 1\<rparr> else st1)"
  have "bit_flipped True bh k st ?m"
    by (rule flipped_counts [OF f]) (simp_all add: geo_counts, simp add: upd_disk_sb_def)
  from account_flipped [OF ok this]
  show "bit_flipped True bh k st (alloc_inode_account ino st1)"
    "inode_counter (alloc_inode_account ino st1) = inode_counter st1 - 1"
    by (simp_all only: alloc_inode_account_def Let_def) (simp add: inode_counter_def upd_disk_sb_def)
qed

lemma inode_alloc_ok:
  assumes ok: "alloc_ok st" and res: "cryexts_alloc_inode_goal goal st = (Inr ino, st')"
  shows "alloc_ok st'" "inode_space st' = inode_space st" "ino \<in> inode_space st - inode_used st"
    "inode_used st' = insert ino (inode_used st)" "inode_counter st' = inode_counter st - 1"
    "block_used st' = block_used st"
proof -
  obtain st1 where s: "inode_search goal st = (Inr ino, st1)" and st': "st' = alloc_inode_account ino st1"
    using res by (auto simp: alloc_inode_goal_eq bindE_eq_Inr)
  then have g: "ino \<in> inode_space st - inode_used st"
      "bit_flipped True (imap st (inode_group st ino)) (inode_bit st ino) st st1"
      "inode_counter st1 = inode_counter st"
    using inode_search_grabbed [OF ok, of goal] by (simp_all add: inode_grabbed_def)
  note f = flip_inode [OF ok _ inode_account(1) [OF ok g(2)], of ino]
  show "alloc_ok st'" "inode_space st' = inode_space st" "ino \<in> inode_space st - inode_used st"
    "inode_used st' = insert ino (inode_used st)" "block_used st' = block_used st"
    using f g(1) st' by simp_all
  show "inode_counter st' = inode_counter st - 1"
    using inode_account(2) [OF ok g(2)] g(3) st' by simp
qed

lemma inode_alloc_fail:
  assumes ok: "alloc_ok st" and res: "cryexts_alloc_inode_goal goal st = (Inl e, st')"
  shows "st' = st"
  using inode_search_grabbed [OF ok, of goal] res
  by (auto simp: alloc_inode_goal_eq bindE_def inode_grabbed_def split: prod.splits sum.splits)

section \<open>Freeing an inode\<close>

text \<open>A change that no bitmap sees.\<close>

definition alloc_same :: "fs \<Rightarrow> fs \<Rightarrow> bool" where
  "alloc_same a b \<longleftrightarrow> geo_view b = geo_view a \<and> (\<forall>x \<in> set (bitmaps a). d_cache b x = d_cache a x)"

lemma alloc_same_sets:
  assumes ok: "alloc_ok a" and s: "alloc_same a b"
  shows "alloc_ok b" "inode_space b = inode_space a" "inode_used b = inode_used a"
    "block_space b = block_space a" "block_used b = block_used a"
proof -
  have g: "geo_view b = geo_view a" using s by (simp add: alloc_same_def)
  note eq = geo_basic [OF g] geo_valid [OF g ok]
  have bsame: "d_cache b (bmap a i) = d_cache a (bmap a i)"
      and isame: "d_cache b (imap a i) = d_cache a (imap a i)" if "i < ngroups a" for i
    using s bitmap_in [OF that] by (simp_all add: alloc_same_def)
  show okb: "alloc_ok b"
    by (rule alloc_ok_change [OF g ok]) (use s bsame in \<open>simp_all add: alloc_same_def\<close>)
  show "inode_space b = inode_space a" "block_space b = block_space a"
    using eq by (simp_all add: block_space_def)
  have "cryexts_inode_bitmap_used b ino = cryexts_inode_bitmap_used a ino" if i: "ino \<in> inode_space a" for ino
    using inode_place(1,4) [OF ok i] inode_place(4) [OF okb, of ino] i eq isame
    by (simp add: inode_taken_def)
  then show "inode_used b = inode_used a"
    using inode_used_space [of a] inode_used_space [of b] eq(7) by (auto simp: inode_used_def)
  have "cryexts_block_bitmap_used b x = cryexts_block_bitmap_used a x"
    if x: "cryexts_data_block_valid a x" for x
  proof -
    note p = block_place [OF ok x]
    have "block_bit b x = block_bit a x" using geo_place(1) [OF g ok p(1)] eq(11) by (simp add: block_bit_def)
    then show ?thesis
      using p(4) block_place(4) [OF okb, of x] x eq bsame [OF p(1)] by (simp add: block_taken_def)
  qed
  then show "block_used b = block_used a"
    using eq(15) by (auto simp: block_used_def cryexts_block_bitmap_used_def)
qed

text \<open>What the code reads for an inode.\<close>

lemma inode_reads:
  assumes ok: "alloc_ok st" and i: "ino \<in> inode_space st"
  shows "\<not> (ino < CRYEXTS_ROOT_INO \<or> cryexts_inodes_count st < ino)"
    "\<not> cryexts_has_block_groups st \<Longrightarrow>
       the (s_inode_bitmap_bh st) = imap st (inode_group st ino) \<and> ino - 1 = of_nat (inode_bit st ino)"
    "cryexts_has_block_groups st \<Longrightarrow>
       \<not> s_group_count st \<le> (ino - 1) div s_inodes_per_group st \<and>
       bitmap_slot (s_group_inode_bitmap_bhs st) ((ino - 1) div s_inodes_per_group st) =
         Some (imap st (inode_group st ino)) \<and>
       (ino - 1) mod s_inodes_per_group st = of_nat (inode_bit st ino)"
proof -
  note p = inode_place [OF ok i] and n = inode_space_nat [OF i]
  show "\<not> (ino < CRYEXTS_ROOT_INO \<or> cryexts_inodes_count st < ino)"
    using i by (simp add: inode_space_def not_less)
  have pred: "unat (ino - 1) = unat ino - 1" using n by (simp add: unat_sub_if')
  show "the (s_inode_bitmap_bh st) = imap st (inode_group st ino) \<and> ino - 1 = of_nat (inode_bit st ino)"
    if "\<not> cryexts_has_block_groups st"
    using that pred word_nat_inv [of "ino - 1"] by (simp add: imap_def inode_bit_def inode_group_def)
  assume gr: "cryexts_has_block_groups st"
  have g: "unat ((ino - 1) div s_inodes_per_group st) = inode_group st ino"
    using gr pred by (simp add: inode_group_def unat_div iper_def)
  have "unat ((ino - 1) mod s_inodes_per_group st) = inode_bit st ino"
    using gr pred by (simp add: unat_mod iper_def inode_bit_def inode_group_def minus_div_mult_eq_mod)
  then have k: "(ino - 1) mod s_inodes_per_group st = of_nat (inode_bit st ino)"
    using word_nat_inv by metis
  have lt: "(ino - 1) div s_inodes_per_group st < s_group_count st"
    using p(1) g gr by (simp add: ngroups_def word_less_nat_alt)
  show "\<not> s_group_count st \<le> (ino - 1) div s_inodes_per_group st \<and>
       bitmap_slot (s_group_inode_bitmap_bhs st) ((ino - 1) div s_inodes_per_group st) =
         Some (imap st (inode_group st ino)) \<and>
       (ino - 1) mod s_inodes_per_group st = of_nat (inode_bit st ino)"
    using lt k group_reads(3) [OF ok gr lt, unfolded g] by simp
qed

lemma get_disk_inode_ok:
  assumes ok: "alloc_ok st" and i: "ino \<in> inode_space st"
    and res: "cryexts_get_disk_inode ino st = (r, st1)"
  shows "\<exists>t. st1 = st\<lparr>d_tick := t\<rparr>" "r = Inr p \<Longrightarrow> fst p = inode_block st ino"
proof -
  note rd = inode_reads [OF ok i]
  have "(\<exists>t. st1 = st\<lparr>d_tick := t\<rparr>) \<and> (r = Inr p \<longrightarrow> fst p = inode_block st ino)"
    using res rd
    by (cases "cryexts_has_block_groups st")
      (auto simp: cryexts_get_disk_inode_def Let_def cryexts_max_inodes_def bindE_def io_step_def
        retE_def inode_block_def split: sum.splits if_splits)
  then show "\<exists>t. st1 = st\<lparr>d_tick := t\<rparr>" "r = Inr p \<Longrightarrow> fst p = inode_block st ino" by blast+
qed

lemma clear_disk_inode_same:
  assumes ok: "alloc_ok st" and i: "ino \<in> inode_space st" and p: "fst p = inode_block st ino"
  shows "alloc_same st (clear_disk_inode p (st\<lparr>d_tick := t\<rparr>))"
    "inode_counter (clear_disk_inode p (st\<lparr>d_tick := t\<rparr>)) = inode_counter st"
proof -
  have "inode_block st ino \<notin> set (bitmaps st)" "inode_block st ino \<noteq> 0"
    using ok i by (auto simp: alloc_ok_def)
  then show "alloc_same st (clear_disk_inode p (st\<lparr>d_tick := t\<rparr>))"
    "inode_counter (clear_disk_inode p (st\<lparr>d_tick := t\<rparr>)) = inode_counter st"
    using p by (auto simp: alloc_same_def clear_disk_inode_def mark_buffer_dirty_def set_bdata_def
        geo_view_def inode_counter_def split: prod.splits)
qed

lemma free_inode_account:
  assumes ok: "alloc_ok st" and f: "bit_flipped v bh k st st1"
  shows "bit_flipped v bh k st (free_inode_account st1)"
    "inode_counter (free_inode_account st1) = inode_counter st1 + 1"
proof -
  let ?m = "upd_disk_sb (\<lambda>sb. sb\<lparr>sb_free_inodes_count := sb_free_inodes_count sb + 1\<rparr>) st1"
  have "bit_flipped v bh k st ?m"
    by (rule flipped_counts [OF f]) (simp add: geo_counts, simp add: upd_disk_sb_def)
  from account_flipped [OF ok this]
  show "bit_flipped v bh k st (free_inode_account st1)"
    "inode_counter (free_inode_account st1) = inode_counter st1 + 1"
    by (simp_all add: free_inode_account_def) (simp add: inode_counter_def upd_disk_sb_def)
qed

text \<open>The part of \<open>cryexts_free_inode\<close> after the inode was cleared.\<close>

definition free_inode_bit :: "u64 \<Rightarrow> (fs, unit) act" where
  "free_inode_bit ino st =
     (if \<not> cryexts_has_block_groups st
      then (let bh = the (s_inode_bitmap_bh st) in
            if \<not> cryexts_bitmap_test (bdata st bh) (ino - 1) then (Inr (), st)
            else (Inr (), free_inode_account (bitmap_clear_at bh (ino - 1) st)))
      else (let grp = (ino - 1) div s_inodes_per_group st;
                k = (ino - 1) mod s_inodes_per_group st;
                bh = the (bitmap_slot (s_group_inode_bitmap_bhs st) grp)
            in if s_group_count st \<le> grp \<or> \<not> cryexts_bitmap_test (bdata st bh) k
               then (Inr (), st)
               else (Inr (), free_inode_account
                 (upd_group grp (\<lambda>g. g\<lparr>gd_free_inodes_count := gd_free_inodes_count g + 1\<rparr>)
                   (bitmap_clear_at bh k st)))))"

lemma free_inode_eq:
  "cryexts_free_inode ino st =
     (if ino < CRYEXTS_ROOT_INO \<or> cryexts_inodes_count st < ino then (Inl EINVAL, st)
      else bindE (cryexts_get_disk_inode ino) (\<lambda>p st. free_inode_bit ino (clear_disk_inode p st)) st)"
  by (simp add: cryexts_free_inode_def free_inode_bit_def Let_def)

lemma free_inode_bit_effect:
  assumes ok: "alloc_ok st" and i: "ino \<in> inode_space st"
  defines "st' \<equiv> snd (free_inode_bit ino st)"
  shows "fst (free_inode_bit ino st) = Inr ()" "alloc_ok st'" "inode_space st' = inode_space st"
    "inode_used st' = inode_used st - {ino}"
    "inode_counter st' = (if ino \<in> inode_used st then inode_counter st + 1 else inode_counter st)"
    "block_used st' = block_used st"
proof -
  let ?bh = "imap st (inode_group st ino)" and ?k = "inode_bit st ino"
  note p = inode_place [OF ok i] and rd = inode_reads [OF ok i]
  let ?m = "bitmap_clear_at ?bh (of_nat ?k) st"
  let ?f = "\<lambda>g. g\<lparr>gd_free_inodes_count := gd_free_inodes_count g + 1\<rparr>"
  let ?n = "if cryexts_has_block_groups st
    then upd_group ((ino - 1) div s_inodes_per_group st) ?f ?m else ?m"
  have eq: "free_inode_bit ino st =
      (if ino \<in> inode_used st then (Inr (), free_inode_account ?n) else (Inr (), st))"
  proof (cases "cryexts_has_block_groups st")
    case True
    then show ?thesis
      using p(4) rd(3) imap_facts(2) [OF ok p(1)]
      by (simp add: free_inode_bit_def Let_def inode_used_def inode_taken_def)
  next
    case False
    then show ?thesis
      using p(4) rd(2) imap_facts(2) [OF ok p(1)]
      by (simp add: free_inode_bit_def Let_def inode_used_def inode_taken_def)
  qed
  have fl: "bit_flipped False ?bh ?k st ?m"
    by (rule bitmap_at_flipped(2) [OF ok bitmap_in(2) [OF p(1)]])
  have "geo_view ?n = geo_view ?m"
    using geo_upd_group [of ?f _ ?m] by (simp add: gd_place_def)
  from flipped_counts [OF fl this] have fn: "bit_flipped False ?bh ?k st ?n"
    by (simp add: upd_group_def)
  have cnt: "inode_counter ?n = inode_counter st"
    using imap_facts(1) [OF ok p(1)]
    by (simp add: inode_counter_def upd_group_def bitmap_clear_at_def set_bdata_def)
  note a = free_inode_account [OF ok fn]
  show "fst (free_inode_bit ino st) = Inr ()" "alloc_ok st'" "inode_space st' = inode_space st"
    "inode_used st' = inode_used st - {ino}"
    "inode_counter st' = (if ino \<in> inode_used st then inode_counter st + 1 else inode_counter st)"
    "block_used st' = block_used st"
    using flip_inode [OF ok i a(1)] a(2) cnt ok unfolding st'_def eq by simp_all
qed

lemma inode_free_effect:
  assumes ok: "alloc_ok st" and res: "cryexts_free_inode ino st = (r, st')"
  shows "r = Inr () \<Longrightarrow> alloc_ok st' \<and> inode_space st' = inode_space st \<and> ino \<in> inode_space st \<and>
      inode_used st' = inode_used st - {ino} \<and>
      inode_counter st' = (if ino \<in> inode_used st then inode_counter st + 1 else inode_counter st)"
    "r = Inl e \<Longrightarrow> alloc_ok st' \<and> inode_space st' = inode_space st \<and> inode_used st' = inode_used st \<and>
      inode_counter st' = inode_counter st"
    "block_used st' = block_used st"
proof -
  have tick: "alloc_same st (st\<lparr>d_tick := t\<rparr>)" "inode_counter (st\<lparr>d_tick := t\<rparr>) = inode_counter st" for t
    by (simp_all add: alloc_same_def geo_view_def inode_counter_def)
  have "(r = Inr () \<longrightarrow> alloc_ok st' \<and> inode_space st' = inode_space st \<and> ino \<in> inode_space st \<and>
      inode_used st' = inode_used st - {ino} \<and>
      inode_counter st' = (if ino \<in> inode_used st then inode_counter st + 1 else inode_counter st)) \<and>
    (r = Inl e \<longrightarrow> alloc_ok st' \<and> inode_space st' = inode_space st \<and> inode_used st' = inode_used st \<and>
      inode_counter st' = inode_counter st) \<and> block_used st' = block_used st"
  proof (cases "ino \<in> inode_space st")
    case False
    then have "ino < CRYEXTS_ROOT_INO \<or> cryexts_inodes_count st < ino"
      by (auto simp: inode_space_def)
    then have "r = Inl EINVAL" "st' = st" using res unfolding free_inode_eq by simp_all
    then show ?thesis using ok by simp
  next
    case True
    obtain q st1 where d: "cryexts_get_disk_inode ino st = (q, st1)" by fastforce
    obtain t where st1: "st1 = st\<lparr>d_tick := t\<rparr>" using get_disk_inode_ok(1) [OF ok True d] by blast
    have run: "cryexts_free_inode ino st =
        bindE (cryexts_get_disk_inode ino) (\<lambda>p st. free_inode_bit ino (clear_disk_inode p st)) st"
      using inode_reads(1) [OF ok True] by (simp add: free_inode_eq)
    show ?thesis
    proof (cases q)
      case (Inl e1)
      then show ?thesis
        using run res d st1 alloc_same_sets [OF ok tick(1) [of t]] tick(2) [of t]
        by (auto simp: bindE_def)
    next
      case (Inr p)
      let ?s = "clear_disk_inode p (st\<lparr>d_tick := t\<rparr>)"
      note c = clear_disk_inode_same [OF ok True get_disk_inode_ok(2) [OF ok True d Inr], of t]
      note s = alloc_same_sets [OF ok c(1)]
      have "free_inode_bit ino ?s = (r, st')" using run res d Inr st1 by (simp add: bindE_def)
      then show ?thesis using free_inode_bit_effect [OF s(1), of ino] s c(2) True by simp
    qed
  qed
  then show "r = Inr () \<Longrightarrow> alloc_ok st' \<and> inode_space st' = inode_space st \<and> ino \<in> inode_space st \<and>
      inode_used st' = inode_used st - {ino} \<and>
      inode_counter st' = (if ino \<in> inode_used st then inode_counter st + 1 else inode_counter st)"
    "r = Inl e \<Longrightarrow> alloc_ok st' \<and> inode_space st' = inode_space st \<and> inode_used st' = inode_used st \<and>
      inode_counter st' = inode_counter st"
    "block_used st' = block_used st"
    by blast+
qed

interpretation inodes: allocator alloc_ok inode_space inode_used inode_counter
    cryexts_alloc_inode_goal cryexts_free_inode
proof unfold_locales
  show "inode_used s \<subseteq> inode_space s" for s by (rule inode_used_space)
next
  fix s goal ino s'
  assume "alloc_ok s" "cryexts_alloc_inode_goal goal s = (Inr ino, s')"
  from inode_alloc_ok [OF this]
  show "alloc_ok s' \<and> inode_space s' = inode_space s \<and> ino \<in> inode_space s - inode_used s \<and>
      inode_used s' = insert ino (inode_used s) \<and> inode_counter s' = inode_counter s - 1" by simp
next
  show "alloc_ok s \<Longrightarrow> cryexts_alloc_inode_goal goal s = (Inl e, s') \<Longrightarrow> s' = s" for s goal e s'
    by (rule inode_alloc_fail)
next
  fix s ino s'
  assume a: "alloc_ok s" "cryexts_free_inode ino s = (Inr (), s')"
  show "alloc_ok s' \<and> inode_space s' = inode_space s \<and> ino \<in> inode_space s \<and>
      inode_used s' = inode_used s - {ino} \<and>
      inode_counter s' = (if ino \<in> inode_used s then inode_counter s + 1 else inode_counter s)"
    by (rule inode_free_effect(1) [OF a refl])
next
  fix s ino e s'
  assume a: "alloc_ok s" "cryexts_free_inode ino s = (Inl e, s')"
  show "alloc_ok s' \<and> inode_space s' = inode_space s \<and> inode_used s' = inode_used s \<and>
      inode_counter s' = inode_counter s"
    by (rule inode_free_effect(2) [OF a refl])
qed

end
