(* ===== verification/AllocClaims.thy ===== *)
theory AllocClaims
  imports InodeAlloc
begin

text \<open>
  The allocators of the file system: what one call does, and what the contract gives for every
  sequence of calls, with and without block groups.
\<close>

section \<open>Samples\<close>

lemma sample_sel:
  "s_group_desc_table_blocks sample_fs = 1" "s_gdt_bhs sample_fs = None"
  "s_journal_block sample_fs = 500" "s_journal_blocks sample_fs = 64"
  "s_block_bitmap_bh sample_fs = Some 1" "s_inode_bitmap_bh sample_fs = Some 2"
  "d_cache sample_fs x = zero_block" "s_inode_table_start sample_fs = 4"
  "cryexts_blocks_count sample_fs = 1024" "cryexts_inodes_count sample_fs = 224"
  "sb_first_data_block (s_disk_sb sample_fs) = 20" "\<not> cryexts_has_block_groups sample_fs"
  by (simp_all add: sample_fs_def sample_sb_def cryexts_blocks_count_def cryexts_inodes_count_def
      cryexts_has_block_groups_def has_flag_def const_simps)

lemma sample_alloc_ok: "alloc_ok sample_fs"
proof -
  note s = sample_sel
  have n: "ngroups sample_fs = 1" "bmap sample_fs i = 1" "imap sample_fs i = 2" "iper sample_fs = 224"
      "bcount sample_fs i = 1024" "bfirst sample_fs i = 0" for i
    by (simp_all add: s ngroups_def bmap_def imap_def iper_def bcount_def bfirst_def)
  have bm: "bitmaps sample_fs = [1, 2]" by (simp add: bitmaps_def n)
  have side: "x \<in> side sample_fs \<longleftrightarrow> x = 0 \<or> 500 \<le> unat x \<and> unat x < 564" for x
    by (auto simp: s side_def gdt_slot_def cryexts_journal_block_is_internal_def word_le_nat_alt
        word_less_nat_alt)
  have tab: "inode_block sample_fs ino \<notin> {1, 2} \<and> inode_block sample_fs ino \<noteq> 0"
    if "ino \<in> inode_space sample_fs" for ino
  proof -
    have "unat (ino - 1) < 224"
      using inode_space_nat [OF that] by (auto simp: s unat_sub_if')
    then have "unat ((ino - 1) div 14) < 16" by (simp add: unat_div)
    then have "unat (inode_block sample_fs ino) = 4 + unat ((ino - 1) div 14)"
      by (simp add: s inode_block_def cryexts_inodes_per_block_def BLOCK_SIZE_def CRYEXTS_INODE_SIZE_def
          unat_plus_if')
    then show ?thesis by (auto dest: arg_cong [where f = unat])
  qed
  have "marked sample_fs"
    unfolding marked_def n
    by (auto simp: cryexts_data_block_valid_def Let_def s word_le_nat_alt unat_of_nat
        word_unat_eq_iff simp del: of_nat_eq_0_iff)
  then show ?thesis
    using tab unfolding alloc_ok_def bm n
    by (auto simp: area_ok_def gdt_slot_def side zero_block_def s)
qed

text \<open>Two groups of 512 blocks; the second has its bitmaps in blocks 512 and 513 and its inode table
  in blocks 514 to 521.\<close>

definition group0 :: cryexts_group_desc where
  "group0 = \<lparr>gd_group_start = 0, gd_blocks_count = 512, gd_block_bitmap_block = 1,
     gd_inode_bitmap_block = 2, gd_inode_table_start = 4, gd_inode_table_blocks = 8,
     gd_free_blocks_count = 480, gd_free_inodes_count = 100, gd_used_dirs_count = 1, gd_flags = 0,
     gd_reserved = replicate 32 0\<rparr>"

definition group1 :: cryexts_group_desc where
  "group1 = group0\<lparr>gd_group_start := 512, gd_block_bitmap_block := 512, gd_inode_bitmap_block := 513,
     gd_inode_table_start := 514\<rparr>"

definition sample_grouped :: fs where
  "sample_grouped = sample_fs
     \<lparr>s_disk_sb := sample_sb\<lparr>sb_features_incompat := 0x882, sb_group_count := 2\<rparr>,
      s_groups := Some [group0, group1], s_group_count := 2, s_blocks_per_group := 512,
      s_inodes_per_group := 112, s_journal_block := 900,
      s_group_block_bitmap_bhs := Some [Some 1, Some 512],
      s_group_inode_bitmap_bhs := Some [Some 2, Some 513],
      d_cache := (\<lambda>_. zero_block)(512 := [0xFF, 0x03] @ replicate 4094 0)\<rparr>"

lemma grouped_sel:
  "s_group_desc_table_blocks sample_grouped = 1" "s_gdt_bhs sample_grouped = None"
  "s_journal_block sample_grouped = 900" "s_journal_blocks sample_grouped = 64"
  "d_cache sample_grouped x = (if x = 512 then [0xFF, 0x03] @ replicate 4094 0 else zero_block)"
  "s_group_count sample_grouped = 2" "s_blocks_per_group sample_grouped = 512"
  "s_inodes_per_group sample_grouped = 112" "s_groups sample_grouped = Some [group0, group1]"
  "s_group_block_bitmap_bhs sample_grouped = Some [Some 1, Some 512]"
  "s_group_inode_bitmap_bhs sample_grouped = Some [Some 2, Some 513]"
  "cryexts_blocks_count sample_grouped = 1024" "cryexts_inodes_count sample_grouped = 224"
  "sb_first_data_block (s_disk_sb sample_grouped) = 20" "cryexts_has_block_groups sample_grouped"
  by (simp_all add: sample_grouped_def sample_fs_def sample_sb_def cryexts_blocks_count_def
      cryexts_inodes_count_def cryexts_has_block_groups_def has_flag_def const_simps)

lemma grouped_alloc_ok: "alloc_ok sample_grouped"
proof -
  note s = grouped_sel group0_def group1_def
  have n: "ngroups sample_grouped = 2" "iper sample_grouped = 112"
      "bmap sample_grouped 0 = 1" "bmap sample_grouped (Suc 0) = 512"
      "imap sample_grouped 0 = 2" "imap sample_grouped (Suc 0) = 513"
      "bcount sample_grouped 0 = 512" "bcount sample_grouped (Suc 0) = 512"
      "bfirst sample_grouped 0 = 0" "bfirst sample_grouped (Suc 0) = 512"
    by (simp_all add: s ngroups_def bmap_def imap_def iper_def bcount_def bfirst_def bitmap_slot_def
        group_at_def)
  have two: "i < 2 \<longleftrightarrow> i = 0 \<or> i = Suc 0" for i :: nat by auto
  have bm: "bitmaps sample_grouped = [1, 512, 2, 513]" by (simp add: bitmaps_def n upt_rec)
  have side: "x \<in> side sample_grouped \<longleftrightarrow> x = 0 \<or> 900 \<le> unat x \<and> unat x < 964" for x
    by (auto simp: s side_def gdt_slot_def cryexts_journal_block_is_internal_def word_le_nat_alt
        word_less_nat_alt)
  have tab: "inode_block sample_grouped ino \<notin> {1, 512, 2, 513} \<and> inode_block sample_grouped ino \<noteq> 0"
    if "ino \<in> inode_space sample_grouped" for ino
  proof -
    let ?j = "unat (ino - 1)"
    have j: "?j < 224" using inode_space_nat [OF that] by (auto simp: s unat_sub_if')
    then have "?j div 112 = 0 \<or> ?j div 112 = 1" by auto
    then have g: "(ino - 1) div 112 = 0 \<or> (ino - 1) div 112 = 1" by (simp add: word_unat_eq_iff unat_div)
    let ?r = "(ino - 1) mod 112 div 14"
    have r: "unat ?r < 8" by (simp add: unat_div unat_mod)
    have "inode_block sample_grouped ino = 4 + ?r \<or> inode_block sample_grouped ino = 514 + ?r"
      using g by (auto simp: s inode_block_def cryexts_inodes_per_block_def BLOCK_SIZE_def
          CRYEXTS_INODE_SIZE_def cryexts_group_inode_table_start_def group_field_def word_le_nat_alt)
    then have "unat (inode_block sample_grouped ino) = 4 + unat ?r \<or>
        unat (inode_block sample_grouped ino) = 514 + unat ?r"
      using r by (auto simp: unat_plus_if')
    then show ?thesis using r by auto
  qed
  have valid: "cryexts_data_block_valid sample_grouped b"
    if "20 \<le> unat b \<and> unat b < 512 \<or> 522 \<le> unat b \<and> unat b < 1024" for b
  proof -
    have "unat b div 512 = (if unat b < 512 then 0 else 1)" using that by auto
    then have "b div 512 = (if unat b < 512 then 0 else 1)" by (simp add: word_unat_eq_iff unat_div)
    then show ?thesis
      using that by (auto simp: s cryexts_data_block_valid_def Let_def word_le_nat_alt
          word_less_nat_alt word_unat_eq_iff)
  qed
  have "list_all (\<lambda>k. cryexts_bitmap_test ([0xFF, 0x03] @ replicate 4094 0) (of_nat k)) [0..<10]"
    by (simp add: upt_rec cryexts_bitmap_test_def has_flag_def)
  then have bits: "cryexts_bitmap_test ([0xFF, 0x03] @ replicate 4094 0) (of_nat k)" if "k < 10" for k
    using that by (simp add: list_all_iff)
  have num: "unat (of_nat k :: u64) = k" if "k < 2000" for k using that by (simp add: unat_of_nat)
  have "marked sample_grouped"
    unfolding marked_def n two
  proof (intro allI impI)
    fix i k
    assume "i = 0 \<or> i = Suc 0" and k: "k < bcount sample_grouped i"
      and fd: "sb_first_data_block (s_disk_sb sample_grouped) \<le> of_nat (bfirst sample_grouped i + k)"
      and inv: "\<not> cryexts_data_block_valid sample_grouped (of_nat (bfirst sample_grouped i + k))"
    then have "i = Suc 0 \<and> \<not> 10 \<le> k"
      using valid [of "of_nat (bfirst sample_grouped i + k)"] num [of "bfirst sample_grouped i + k"]
      by (auto simp: n s word_le_nat_alt simp del: of_nat_add)
    then show "cryexts_bitmap_test (d_cache sample_grouped (bmap sample_grouped i)) (of_nat k)"
      using bits n(4) by (simp add: s)
  qed
  moreover have "groups_ok sample_grouped"
    by (auto simp: groups_ok_def n two s bitmap_slot_def)
  ultimately show ?thesis
    using tab unfolding alloc_ok_def bm n two
    by (auto simp: n area_ok_def gdt_slot_def side zero_block_def BLOCK_SIZE_def s)
qed

section \<open>Blocks\<close>

text \<open>C23: a successful block allocation, with or without groups and with any hint, returns a
  data block that was free and marks it used and nothing else, inodes included, counts it and
  keeps the layout; a failed one changes nothing.\<close>

theorem block_alloc_correct:
  assumes ok: "alloc_ok st"
  shows "case cryexts_alloc_block_goal goal grp st of
      (Inr b, st') \<Rightarrow> cryexts_data_block_valid st b \<and> \<not> cryexts_block_bitmap_used st b \<and>
        (\<forall>x. cryexts_block_bitmap_used st' x = (x = b \<or> cryexts_block_bitmap_used st x)) \<and>
        (\<forall>ino. cryexts_inode_bitmap_used st' ino = cryexts_inode_bitmap_used st ino) \<and>
        cryexts_data_block_valid st' = cryexts_data_block_valid st \<and>
        block_counter st' = block_counter st - 1 \<and> alloc_ok st'
    | (Inl e, st') \<Rightarrow> st' = st"
proof (cases "cryexts_alloc_block_goal goal grp st")
  case (Pair r st')
  show ?thesis
  proof (cases r)
    case (Inl e)
    then show ?thesis using Pair block_alloc_fail [OF ok] by simp
  next
    case (Inr b)
    note a = block_alloc_ok [OF ok Pair [unfolded Inr]]
    have "cryexts_data_block_valid st' = cryexts_data_block_valid st"
      using a(2) by (auto simp: block_space_def fun_eq_iff set_eq_iff)
    then show ?thesis
      using a Pair Inr by (auto simp: block_space_def block_used_def inode_used_def set_eq_iff)
  qed
qed

lemma sample_finds_block:
  "\<exists>b st'. cryexts_alloc_block_goal 0 (- 1) sample_fs = (Inr b, st')"
proof -
  have in20: "20 \<in> set [20..<1024]" unfolding set_upt by simp
  have data: "bdata sample_fs 1 = zero_block" by (simp add: bdata_def sample_sel)
  have "\<not> cryexts_bitmap_test zero_block (of_nat 20)"
    by (simp add: cryexts_bitmap_test_def zero_block_def BLOCK_SIZE_def has_flag_def)
  then have "first_free zero_block (\<lambda>_. False) [20..<1024] \<noteq> None"
    using first_free_None [OF _ in20] by blast
  then show ?thesis
    by (auto simp: alloc_block_goal_eq block_search_def Let_def sample_sel cryexts_alloc_block_legacy_def
        data bindE_def)
qed

theorem block_alloc_correct_witness:
  "\<exists>b st'. cryexts_alloc_block_goal 0 (- 1) sample_fs = (Inr b, st') \<and>
    \<not> cryexts_block_bitmap_used sample_fs b \<and> cryexts_block_bitmap_used st' b"
  using sample_finds_block block_alloc_correct [OF sample_alloc_ok, of 0 "- 1"] by fastforce

text \<open>C27: an allocation fails only when no data block from the first data block on is free,
  provided that no group with a free block has a count of zero.\<close>

theorem block_alloc_full:
  assumes ok: "alloc_ok st" and res: "cryexts_alloc_block_goal goal grp st = (Inl e, st')"
    and counts: "\<And>b. cryexts_has_block_groups st \<Longrightarrow> b \<in> block_space st - block_used st \<Longrightarrow>
      cryexts_group_free_blocks st (b div s_blocks_per_group st) \<noteq> 0"
  shows "e = ENOSPC \<and> (\<forall>b. cryexts_data_block_valid st b \<and> sb_first_data_block (s_disk_sb st) \<le> b \<longrightarrow>
    cryexts_block_bitmap_used st b)"
proof -
  let ?fd = "sb_first_data_block (s_disk_sb st)"
  obtain st1 where s: "block_search goal grp st = (Inl e, st1)"
    using res by (auto simp: alloc_block_goal_eq bindE_def split: prod.splits sum.splits)
  show ?thesis
  proof (cases "cryexts_has_block_groups st")
    case False
    then have "cryexts_alloc_block_legacy st = (Inl e, st1)" using s by (simp add: block_search_def Let_def)
    from alloc_legacy_grabbed(2) [OF ok False this] show ?thesis
      by (auto simp: block_space_def block_used_def)
  next
    case True
    note g = scan_groups [OF alloc_okD(4) [OF ok] True]
    obtain hint x e1 st2 where p: "alloc_block_scan hint (scan_order st x) ENOSPC st = (Inl e1, st2)"
      and q: "alloc_block_scan (\<lambda>_ _ _. 0) (second_pass st2) e1 st2 = (Inl e, st1)"
      using s True by (auto simp: block_search_def Let_def split: prod.splits sum.splits)
    have first: "block_grabbed st (alloc_block_scan hint (scan_order st x) ENOSPC st)" "e1 = ENOSPC"
      using block_scan_grabbed [OF ok True, of "scan_order st x" hint ENOSPC] g(1) p by auto
    then have "st2 = st" using p by (simp add: block_grabbed_def)
    note q' = q [unfolded this]
    have second: "e \<in> {e1, ENOSPC} \<and>
      (\<forall>(s, g) \<in> set (second_pass st). g < cryexts_first_data_group st \<or> cryexts_group_free_blocks st g = 0 \<or>
        (\<forall>b \<in> block_space st - block_used st. block_group st b = unat g \<longrightarrow> b < ?fd))"
      using block_scan_grabbed(2) [OF ok True _ q'] g(2) by blast
    have "b \<in> block_used st" if b: "b \<in> block_space st" "?fd \<le> b" for b
    proof (rule ccontr)
      assume free: "b \<notin> block_used st"
      let ?g = "b div s_blocks_per_group st"
      have v: "cryexts_data_block_valid st b" using b(1) by (simp add: block_space_def)
      have i: "unat ?g = block_group st b" using True by (simp add: block_group_def unat_div)
      have lt: "?g < s_group_count st"
        using block_place(1) [OF ok v] i True by (simp add: ngroups_def word_less_nat_alt)
      have "s_blocks_per_group st \<noteq> 0"
        using alloc_okD(8) [OF ok True] block_place(1) [OF ok v] by (force simp: groups_ok_def)
      then have fg: "cryexts_first_data_group st \<le> ?g"
        using True b(2) by (simp add: cryexts_first_data_group_def word_le_nat_alt unat_div div_le_mono)
      have "cryexts_group_free_blocks st ?g \<noteq> 0" using counts [OF True] b(1) free by simp
      then have "b < ?fd" using second g(3) [OF fg lt] fg b(1) free i by force
      then show False using b(2) by simp
    qed
    then show ?thesis using second first(2) by (auto simp: block_space_def block_used_def)
  qed
qed

text \<open>A file system with every bit of the block bitmap set.\<close>

definition sample_full :: fs where
  "sample_full = sample_fs\<lparr>d_cache := (\<lambda>_. zero_block)(1 := replicate 4096 0xFF)\<rparr>"

lemma all_ones: "unat i < 32768 \<Longrightarrow> cryexts_bitmap_test (replicate 4096 0xFF) i"
proof -
  assume i: "unat i < 32768"
  have eq: "(0xFF :: u8) = mask 8" by (simp add: mask_eq_exp_minus_1)
  have "bit (0xFF :: u8) n" if "n < 8" for n
    unfolding eq by (rule bit_mask_iff [THEN iffD2]) (use that in simp)
  then show ?thesis using i by (simp add: bitmap_test_bit)
qed

lemma full_none:
  assumes "\<And>k. k \<in> set ks \<Longrightarrow> k < 32768"
  shows "first_free (replicate 4096 0xFF) (\<lambda>_. False) ks = None"
proof -
  have "cryexts_bitmap_test (replicate 4096 0xFF) (of_nat k)" if "k \<in> set ks" for k
    by (rule all_ones) (simp add: unat_small assms [OF that])
  then show ?thesis by (auto simp: first_free_def find_None_iff)
qed

lemma sample_full_ok: "alloc_ok sample_full"
proof (rule alloc_ok_change [OF _ sample_alloc_ok])
  show "geo_view sample_full = geo_view sample_fs" by (simp add: sample_full_def geo_view_def)
  show "length (d_cache sample_full x) = length (d_cache sample_fs x)" for x
    by (simp add: sample_full_def sample_fs_def zero_block_def BLOCK_SIZE_def)
  show "cryexts_bitmap_test (d_cache sample_full (bmap sample_fs i)) (of_nat k)"
    if "k < bcount sample_fs i" for i k
    using that all_ones [of "of_nat k"]
    by (simp add: sample_full_def bmap_def sample_sel bcount_def unat_of_nat)
qed

theorem block_alloc_full_witness:
  "\<exists>e st'. cryexts_alloc_block_goal 0 (- 1) sample_full = (Inl e, st') \<and> e = ENOSPC \<and>
    cryexts_block_bitmap_used sample_full 30"
proof -
  have sel: "\<not> cryexts_has_block_groups sample_full" "s_block_bitmap_bh sample_full = Some 1"
      "sb_first_data_block (s_disk_sb sample_full) = 20" "cryexts_blocks_count sample_full = 1024"
      "bdata sample_full 1 = replicate 4096 0xFF"
    using sample_sel by (simp_all add: sample_full_def cryexts_has_block_groups_def
        cryexts_blocks_count_def bdata_def)
  have "first_free (replicate 4096 0xFF) (\<lambda>_. False) [20..<1024] = None"
    by (rule full_none, unfold set_upt) simp
  then obtain st' where res: "cryexts_alloc_block_goal 0 (- 1) sample_full = (Inl ENOSPC, st')"
    by (auto simp: alloc_block_goal_eq block_search_def Let_def sel cryexts_alloc_block_legacy_def bindE_def)
  have "cryexts_data_block_valid sample_full 30"
    by (simp add: cryexts_data_block_valid_def sel)
  then show ?thesis
    using block_alloc_full [OF sample_full_ok res] res sel(1,3) by (auto simp: sel)
qed

text \<open>C24: whatever allocations and frees of blocks are made, in whatever order and with whatever
  outcome, the layout stays valid and the free-block count of the superblock stays exact.\<close>

theorem block_requests:
  assumes "alloc_ok st" and "unat (block_counter st) = card (block_space st - block_used st)"
    and "serve (\<lambda>(goal, grp). cryexts_alloc_block_goal goal grp) cryexts_free_block reqs st = (bs, st')"
  shows "alloc_ok st' \<and> unat (block_counter st') = card (block_space st' - block_used st') \<and>
    block_space st' = block_space st \<and> set bs \<subseteq> block_space st"
proof -
  have "block_space st \<subseteq> UNIV - {0}" by (auto simp: block_space_def)
  then have "card (block_space st) \<le> card (UNIV - {0 :: u64})" by (intro card_mono) auto
  also have "\<dots> < 2 ^ 64" by (simp add: card_word)
  finally show ?thesis
    using blocks.serve_inv [OF assms(1,3)] assms(2) by (simp add: blocks.exact_def)
qed

text \<open>Blocks that are allocated one after the other are pairwise different, none of them was in
  use, and there are never more of them than there were free blocks.\<close>

theorem block_takes:
  assumes "alloc_ok st"
    and "serve (\<lambda>(goal, grp). cryexts_alloc_block_goal goal grp) cryexts_free_block (map Take hints) st = (bs, st')"
  shows "distinct bs \<and> set bs \<inter> block_used st = {} \<and> block_used st' = block_used st \<union> set bs \<and>
    length bs \<le> card (block_space st - block_used st)"
  using blocks.serve_takes [OF assms] blocks.serve_bound [OF assms] by simp

theorem block_takes_witness:
  "distinct (fst (serve (\<lambda>(goal, grp). cryexts_alloc_block_goal goal grp) cryexts_free_block
     (map Take [(0, 0), (700, 1), (0, 1)]) sample_grouped))"
  using block_takes [OF grouped_alloc_ok, of "[(0, 0), (700, 1), (0, 1)]"] by (metis prod.collapse)

text \<open>C28: freeing a block that was just allocated restores the set of used blocks and the count.\<close>

theorem block_roundtrip:
  assumes "alloc_ok st" and "cryexts_alloc_block_goal goal grp st = (Inr b, st1)"
    and "cryexts_free_block b st1 = (Inr (), st2)"
  shows "block_used st2 = block_used st \<and> block_counter st2 = block_counter st \<and> alloc_ok st2"
  using blocks.take_give [of st "(goal, grp)" b st1 st2] assms by simp

theorem block_roundtrip_witness:
  "\<exists>b st1 st2. cryexts_alloc_block_goal 0 (- 1) sample_fs = (Inr b, st1) \<and>
    cryexts_free_block b st1 = (Inr (), st2) \<and> block_used st2 = block_used sample_fs"
proof -
  obtain b st1 where a: "cryexts_alloc_block_goal 0 (- 1) sample_fs = (Inr b, st1)"
    using sample_finds_block by blast
  note o = block_alloc_ok [OF sample_alloc_ok a]
  have "cryexts_data_block_valid st1 b" "cryexts_block_bitmap_used st1 b"
    using o(2,3,4) by (auto simp: block_space_def block_used_def)
  from free_block_cases [OF o(1) this]
  obtain st2 where f: "cryexts_free_block b st1 = (Inr (), st2)" by blast
  show ?thesis using a f block_roundtrip [OF sample_alloc_ok a f] by blast
qed

section \<open>Inodes\<close>

text \<open>C29: a successful inode allocation returns an inode number that was free, marks it used
  and nothing else, blocks included, counts it and keeps the layout; a failed one changes
  nothing.\<close>

theorem inode_alloc_correct:
  assumes ok: "alloc_ok st"
  shows "case cryexts_alloc_inode_goal grp st of
      (Inr ino, st') \<Rightarrow> CRYEXTS_ROOT_INO \<le> ino \<and> ino \<le> cryexts_inodes_count st \<and>
        \<not> cryexts_inode_bitmap_used st ino \<and>
        (\<forall>x. cryexts_inode_bitmap_used st' x = (x = ino \<or> cryexts_inode_bitmap_used st x)) \<and>
        (\<forall>b. cryexts_block_bitmap_used st' b = cryexts_block_bitmap_used st b) \<and>
        inode_counter st' = inode_counter st - 1 \<and> alloc_ok st'
    | (Inl e, st') \<Rightarrow> st' = st"
proof (cases "cryexts_alloc_inode_goal grp st")
  case (Pair r st')
  show ?thesis
  proof (cases r)
    case (Inl e)
    then show ?thesis using Pair inode_alloc_fail [OF ok] by simp
  next
    case (Inr ino)
    from inode_alloc_ok [OF ok Pair [unfolded Inr]] show ?thesis
      using Pair Inr by (auto simp: inode_space_def block_used_def inode_used_def set_eq_iff)
  qed
qed

theorem inode_alloc_correct_witness:
  "\<exists>ino st'. cryexts_alloc_inode_goal 0 sample_fs = (Inr ino, st') \<and>
    \<not> cryexts_inode_bitmap_used sample_fs ino \<and> cryexts_inode_bitmap_used st' ino"
proof -
  have in1: "1 \<in> set [unat CRYEXTS_ROOT_INO..<unat (cryexts_inodes_count sample_fs)]"
    unfolding set_upt by (simp add: CRYEXTS_ROOT_INO_def sample_sel)
  have data: "bdata sample_fs 2 = zero_block" by (simp add: bdata_def sample_sel)
  have "\<not> cryexts_bitmap_test zero_block (of_nat 1)"
    by (simp add: cryexts_bitmap_test_def zero_block_def BLOCK_SIZE_def has_flag_def)
  then have "first_free zero_block (\<lambda>_. False)
      [unat CRYEXTS_ROOT_INO..<unat (cryexts_inodes_count sample_fs)] \<noteq> None"
    using first_free_None [OF _ in1] by blast
  then have "\<exists>ino st'. cryexts_alloc_inode_goal 0 sample_fs = (Inr ino, st')"
    using sample_sel(6,12)
    by (auto simp: alloc_inode_goal_eq inode_search_def Let_def cryexts_alloc_inode_legacy_def
        data bindE_def)
  then show ?thesis using inode_alloc_correct [OF sample_alloc_ok, of 0] by fastforce
qed

text \<open>C30: whatever inodes are allocated and freed, in whatever order and with device failures, the
  layout stays valid and the free-inode count of the superblock stays exact.\<close>

theorem inode_requests:
  assumes "alloc_ok st" and "unat (inode_counter st) = card (inode_space st - inode_used st)"
    and "serve cryexts_alloc_inode_goal cryexts_free_inode reqs st = (inos, st')"
  shows "alloc_ok st' \<and> unat (inode_counter st') = card (inode_space st' - inode_used st') \<and>
    inode_space st' = inode_space st \<and> set inos \<subseteq> inode_space st"
proof -
  have "inode_space st \<subseteq> UNIV - {0}" by (auto simp: inode_space_def CRYEXTS_ROOT_INO_def)
  then have "card (inode_space st) \<le> card (UNIV - {0 :: u64})" by (intro card_mono) auto
  also have "\<dots> < 2 ^ 64" by (simp add: card_word)
  finally show ?thesis
    using inodes.serve_inv [OF assms(1,3)] assms(2) by (simp add: inodes.exact_def)
qed

text \<open>Inode numbers that are handed out one after the other are pairwise different, none of them
  was in use, and there are never more of them than there were free inodes.\<close>

theorem inode_takes:
  assumes "alloc_ok st"
    and "serve cryexts_alloc_inode_goal cryexts_free_inode (map Take hints) st = (inos, st')"
  shows "distinct inos \<and> set inos \<inter> inode_used st = {} \<and> inode_used st' = inode_used st \<union> set inos \<and>
    length inos \<le> card (inode_space st - inode_used st)"
  using inodes.serve_takes [OF assms] inodes.serve_bound [OF assms] by simp

theorem inode_takes_witness:
  "distinct (fst (serve cryexts_alloc_inode_goal cryexts_free_inode (map Take [0, 1, 1]) sample_grouped))"
  using inode_takes [OF grouped_alloc_ok, of "[0, 1, 1]"] by (metis prod.collapse)

section \<open>Exact counts on the sample\<close>

definition sample_exact :: fs where
  "sample_exact = upd_disk_sb (\<lambda>sb. sb\<lparr>sb_free_blocks_count := 1004, sb_free_inodes_count := 224\<rparr>) sample_fs"

lemma card_words:
  assumes "j \<le> 2 ^ 64"
  shows "card {b :: u64. i \<le> unat b \<and> unat b < j} = j - i"
proof -
  have "unat ` {b :: u64. i \<le> unat b \<and> unat b < j} = {i..<j}"
  proof
    show "{i..<j} \<subseteq> unat ` {b :: u64. i \<le> unat b \<and> unat b < j}"
    proof
      fix k
      assume k: "k \<in> {i..<j}"
      then have "unat (of_nat k :: u64) = k" using assms by (simp add: unat_of_nat)
      then show "k \<in> unat ` {b :: u64. i \<le> unat b \<and> unat b < j}"
        using k by (intro image_eqI [of _ _ "of_nat k"]) auto
    qed
  qed auto
  then show ?thesis
    using card_image [of unat "{b :: u64. i \<le> unat b \<and> unat b < j}"]
    by (simp add: inj_on_def word_unat_eq_iff)
qed

lemma zero_block_clear: "unat k < 32768 \<Longrightarrow> \<not> cryexts_bitmap_test zero_block k"
  by (simp add: bitmap_test_bit zero_block_def BLOCK_SIZE_def)

lemma sample_exact_sets:
  "alloc_ok sample_exact" "block_space sample_exact = {b. 20 \<le> unat b \<and> unat b < 1024}"
  "block_used sample_exact = {}" "inode_space sample_exact = {b. 1 \<le> unat b \<and> unat b < 225}"
  "inode_used sample_exact = {}"
proof -
  have "alloc_same sample_fs sample_exact"
    by (simp add: alloc_same_def sample_exact_def geo_view_def upd_disk_sb_def)
  note s = alloc_same_sets [OF sample_alloc_ok this]
  show "alloc_ok sample_exact" by (rule s)
  have sp: "block_space sample_fs = {b. 20 \<le> unat b \<and> unat b < 1024}"
    by (auto simp: block_space_def cryexts_data_block_valid_def Let_def sample_sel word_le_nat_alt
        word_less_nat_alt word_unat_eq_iff split: if_splits)
  then show "block_space sample_exact = {b. 20 \<le> unat b \<and> unat b < 1024}" using s by simp
  have data: "bdata sample_fs 1 = zero_block" "bdata sample_fs 2 = zero_block"
    by (simp_all add: bdata_def sample_sel)
  have "b \<notin> block_used sample_fs" for b
  proof
    assume b: "b \<in> block_used sample_fs"
    then have "unat b < 32768" using block_used_space [of sample_fs] sp by auto
    then show False
      using b zero_block_clear [of b] data
      by (auto simp: block_used_def cryexts_block_bitmap_used_def sample_sel split: if_splits)
  qed
  then show "block_used sample_exact = {}" using s by auto
  have isp: "inode_space sample_fs = {b. 1 \<le> unat b \<and> unat b < 225}"
    by (auto simp: inode_space_def sample_sel CRYEXTS_ROOT_INO_def word_le_nat_alt)
  then show "inode_space sample_exact = {b. 1 \<le> unat b \<and> unat b < 225}" using s by simp
  have "ino \<notin> inode_used sample_fs" for ino
  proof
    assume i: "ino \<in> inode_used sample_fs"
    then have "1 \<le> unat ino \<and> unat ino < 225" using inode_used_space isp by blast
    then have "unat (ino - 1) < 32768" by (auto simp: unat_sub_if')
    then show False
      using i zero_block_clear [of "ino - 1"] data
      by (auto simp: inode_used_def cryexts_inode_bitmap_used_def sample_sel split: if_splits)
  qed
  then show "inode_used sample_exact = {}" using s by auto
qed

lemma sample_exact_counts: "block_counter sample_exact = 1004" "inode_counter sample_exact = 224"
  by (simp_all add: sample_exact_def block_counter_def inode_counter_def upd_disk_sb_def)

lemma sample_exact_cards:
  "unat (block_counter sample_exact) = card (block_space sample_exact - block_used sample_exact)"
  "unat (inode_counter sample_exact) = card (inode_space sample_exact - inode_used sample_exact)"
  unfolding sample_exact_sets(2-5) sample_exact_counts
  using card_words [of 1024 20] card_words [of 225 1] by simp_all

theorem block_requests_witness:
  "alloc_ok (snd (serve (\<lambda>(goal, grp). cryexts_alloc_block_goal goal grp) cryexts_free_block
     [Take (0, 0), Give 20, Take (25, 0), Give 99] sample_exact))"
  using block_requests [OF sample_exact_sets(1) sample_exact_cards(1) prod.collapse [symmetric]] by blast

theorem inode_requests_witness:
  "alloc_ok (snd (serve cryexts_alloc_inode_goal cryexts_free_inode [Take 0, Give 2, Take 1, Give 9]
     sample_exact))"
  using inode_requests [OF sample_exact_sets(1) sample_exact_cards(2) prod.collapse [symmetric]] by blast

end
