(* ===== verification/OrphanList.thy ===== *)
theory OrphanList
  imports Orphan AllocClaims
begin

text \<open>
  The orphan list as a list: \<open>orphans st xs\<close> says that following the links from the head in the
  superblock visits the inodes \<open>xs\<close>.  Adding and removing an inode change that list as expected,
  in every journal format.  The links live in the inode table, which shares no block with what
  recording a block writes.
\<close>

section \<open>Linked lists\<close>

text \<open>From \<open>h\<close> the links \<open>nxt\<close> lead through \<open>xs\<close> to the end.\<close>

fun opath :: "(u64 \<Rightarrow> u64) \<Rightarrow> u64 \<Rightarrow> u64 list \<Rightarrow> bool" where
  "opath nxt h [] \<longleftrightarrow> h = 0"
| "opath nxt h (x # xs) \<longleftrightarrow> h = x \<and> x \<noteq> 0 \<and> opath nxt (nxt x) xs"

lemma opath_unique: "opath nxt h xs \<Longrightarrow> opath nxt h ys \<Longrightarrow> xs = ys"
proof (induction xs arbitrary: h ys)
  case Nil
  then show ?case by (cases ys) auto
next
  case (Cons x xs)
  then show ?case by (cases ys) auto
qed

lemma opath_suffix: "opath nxt h (xs @ y # ys) \<Longrightarrow> opath nxt y (y # ys)"
  by (induction xs arbitrary: h) auto

lemma opath_distinct: "opath nxt h xs \<Longrightarrow> distinct xs"
proof (induction xs arbitrary: h)
  case (Cons x xs)
  have "x \<notin> set xs"
  proof
    assume "x \<in> set xs"
    then obtain us vs where "xs = us @ x # vs" by (auto simp: in_set_conv_decomp)
    then have "opath nxt x (x # vs)" "opath nxt x (x # us @ x # vs)"
      using Cons.prems by (auto dest: opath_suffix)
    from opath_unique [OF this] show False by simp
  qed
  with Cons show ?case by auto
qed simp

lemma opath_cong: "(\<And>x. x \<in> set xs \<Longrightarrow> nxt' x = nxt x) \<Longrightarrow> opath nxt' h xs = opath nxt h xs"
  by (induction xs arbitrary: h) auto

lemma opath_upd [simp]: "x \<notin> set xs \<Longrightarrow> opath (nxt(x := y)) h xs = opath nxt h xs"
  by (rule opath_cong) auto

text \<open>Taking \<open>y\<close> out of the list, and cutting the list behind it.\<close>

lemma opath_relink:
  "opath nxt h (xs @ y # ys) \<Longrightarrow> xs \<noteq> [] \<Longrightarrow> nxt' (last xs) = nxt y \<Longrightarrow>
   (\<And>x. x \<in> set (butlast xs) \<Longrightarrow> nxt' x = nxt x) \<Longrightarrow> opath nxt' (nxt y) ys \<Longrightarrow> opath nxt' h (xs @ ys)"
proof (induction xs arbitrary: h)
  case (Cons x xs)
  then show ?case by (cases "xs = []") auto
qed simp

lemma opath_cut: "opath nxt h (xs @ y # ys) \<Longrightarrow> y \<notin> set xs \<Longrightarrow> opath (nxt(y := 0)) h (xs @ [y])"
  by (induction xs arbitrary: h) auto

lemma opath_tail: "opath nxt h (xs @ y # ys) \<Longrightarrow> opath nxt (nxt y) ys"
  by (induction xs arbitrary: h) auto

section \<open>The links in the inode table\<close>

definition inode_offset :: "fs \<Rightarrow> u64 \<Rightarrow> nat" where
  "inode_offset st ino =
     unat ((if cryexts_has_block_groups st then (ino - 1) mod s_inodes_per_group st else ino - 1)
       mod of_nat cryexts_inodes_per_block) * CRYEXTS_INODE_SIZE"

definition inode_pos :: "fs \<Rightarrow> u64 \<Rightarrow> u64 \<times> nat" where
  "inode_pos st ino = (inode_block st ino, inode_offset st ino)"

definition link :: "fs \<Rightarrow> u64 \<Rightarrow> u64" where "link st ino = get_next_orphan (inode_pos st ino) st"

text \<open>Every inode has a place of its own in the inode table, away from the side blocks.\<close>

definition tables_ok :: "fs \<Rightarrow> bool" where
  "tables_ok st \<longleftrightarrow> alloc_ok st \<and> inj_on (inode_pos st) (inode_space st) \<and>
     (\<forall>ino \<in> inode_space st. inode_block st ino \<notin> side st \<and>
        length (d_cache st (inode_block st ino)) = BLOCK_SIZE)"

definition orphans :: "fs \<Rightarrow> u64 list \<Rightarrow> bool" where
  "orphans st xs \<longleftrightarrow> opath (link st) (sb_orphan_head (s_disk_sb st)) xs \<and> set xs \<subseteq> inode_space st"

lemma get_disk_inode:
  assumes ok: "tables_ok st" and i: "ino \<in> inode_space st"
  shows "\<exists>t. (\<exists>n. d_fault st n) \<and> cryexts_get_disk_inode ino st = (Inl EIO, st\<lparr>d_tick := t\<rparr>) \<or>
    cryexts_get_disk_inode ino st = (Inr (inode_pos st ino), st\<lparr>d_tick := t\<rparr>)"
proof -
  have "alloc_ok st" using ok by (simp add: tables_ok_def)
  note rd = inode_reads [OF this i]
  show ?thesis
    using rd
    by (cases "cryexts_has_block_groups st")
      (auto simp: cryexts_get_disk_inode_def Let_def cryexts_max_inodes_def bindE_def io_step_def
        retE_def inode_pos_def inode_block_def inode_offset_def)
qed

lemma offset_fits: "inode_offset st ino + CRYEXTS_INODE_SIZE \<le> BLOCK_SIZE"
proof -
  have "unat (w mod of_nat cryexts_inodes_per_block) \<le> 13" for w :: u64
    using mod_less_divisor [of 14 "unat w"]
    by (simp add: cryexts_inodes_per_block_def const_simps BLOCK_SIZE_def unat_mod)
  then have "unat (w mod of_nat cryexts_inodes_per_block) * CRYEXTS_INODE_SIZE \<le> 13 * CRYEXTS_INODE_SIZE"
    for w :: u64
    by (rule mult_le_mono1)
  from this [of "if cryexts_has_block_groups st then (ino - 1) mod s_inodes_per_group st else ino - 1"]
  show ?thesis unfolding inode_offset_def by (simp add: CRYEXTS_INODE_SIZE_def BLOCK_SIZE_def)
qed

lemma offset_apart:
  assumes "inode_offset st ino \<noteq> inode_offset st ino'"
  shows "inode_offset st ino + CRYEXTS_INODE_SIZE \<le> inode_offset st ino' \<or>
    inode_offset st ino' + CRYEXTS_INODE_SIZE \<le> inode_offset st ino"
proof -
  obtain m where m: "inode_offset st ino = m * CRYEXTS_INODE_SIZE" unfolding inode_offset_def by blast
  obtain n where n: "inode_offset st ino' = n * CRYEXTS_INODE_SIZE" unfolding inode_offset_def by blast
  show ?thesis
    using assms unfolding m n by (cases m n rule: linorder_cases) (auto simp: CRYEXTS_INODE_SIZE_def)
qed

section \<open>Changing a link\<close>

lemma link_off: "NEXT_ORPHAN_OFF + 8 = CRYEXTS_INODE_SIZE"
  by (simp add: NEXT_ORPHAN_OFF_def const_simps)

text \<open>The state \<open>b\<close> has the layout of \<open>a\<close>, and the links \<open>f\<close>.\<close>

definition link_at :: "fs \<Rightarrow> u64 \<Rightarrow> fs \<Rightarrow> u64" where
  "link_at a x b = get64 (d_cache b (inode_block a x)) (inode_offset a x + NEXT_ORPHAN_OFF)"

definition relinked :: "(u64 \<Rightarrow> u64) \<Rightarrow> fs \<Rightarrow> fs \<Rightarrow> bool" where
  "relinked f a b \<longleftrightarrow> alloc_same a b \<and> d_fault b = d_fault a \<and>
     (\<forall>x \<in> inode_space a. length (d_cache b (inode_block a x)) = BLOCK_SIZE \<and> link_at a x b = f x)"

lemma relinked_cong:
  "geo_view c = geo_view b \<Longrightarrow> d_cache c = d_cache b \<Longrightarrow> d_fault c = d_fault b \<Longrightarrow> relinked f a c = relinked f a b"
  by (simp add: relinked_def alloc_same_def link_at_def)

lemma table_block:
  assumes "tables_ok a" "ino \<in> inode_space a"
  shows "inode_block a ino \<noteq> 0" "inode_block a ino \<notin> side a" "inode_block a ino \<notin> set (bitmaps a)"
  using assms by (auto simp: tables_ok_def alloc_ok_def)

lemma link_at: "tables_ok a \<Longrightarrow> x \<in> inode_space a \<Longrightarrow> get_next_orphan (inode_pos a x) b = link_at a x b"
  using table_block(1) by (simp add: get_next_orphan_def inode_pos_def bdata_def link_at_def)

lemma relinked_refl: "tables_ok a \<Longrightarrow> relinked (link a) a a"
  by (simp add: relinked_def alloc_same_def tables_ok_def link_def link_at [unfolded tables_ok_def])

lemma relinked_simps [simp]:
  "relinked f a (b\<lparr>d_tick := t\<rparr>) = relinked f a b"
  "relinked f a (cryexts_orphan_update_cached_inode ino v b) = relinked f a b"
  "relinked f a (set_orphan_head v b) = relinked f a b"
proof -
  show "relinked f a (b\<lparr>d_tick := t\<rparr>) = relinked f a b"
    by (rule relinked_cong) (simp_all add: geo_view_def)
  show "relinked f a (cryexts_orphan_update_cached_inode ino v b) = relinked f a b"
    by (rule relinked_cong)
      (simp_all add: geo_view_def cryexts_orphan_update_cached_inode_def split: option.splits)
  show "relinked f a (set_orphan_head v b) = relinked f a b"
    by (rule relinked_cong) (simp_all add: geo_view_def set_orphan_head_def upd_disk_sb_def)
qed

text \<open>The layout of the tables does not depend on the links.\<close>

lemma relinked_tables:
  assumes ok: "tables_ok a" and r: "relinked f a b"
  shows "tables_ok b" "inode_space b = inode_space a" "side b = side a"
    "\<And>x. x \<in> inode_space a \<Longrightarrow> inode_pos b x = inode_pos a x"
    "\<And>x. x \<in> inode_space a \<Longrightarrow> link b x = f x" "d_fault b = d_fault a"
proof -
  have al: "alloc_ok a" and g: "geo_view b = geo_view a" and same: "alloc_same a b"
    using ok r by (simp_all add: tables_ok_def relinked_def alloc_same_def)
  note eq = geo_basic [OF g] geo_valid [OF g al]
  show "d_fault b = d_fault a" using r by (simp add: relinked_def)
  show sp: "inode_space b = inode_space a" "side b = side a" using eq by simp_all
  have "s_inodes_per_group b = s_inodes_per_group a" using g by (simp add: geo_view_def)
  then have "inode_offset b = inode_offset a" using eq by (simp add: inode_offset_def fun_eq_iff)
  then show pos: "inode_pos b x = inode_pos a x" if "x \<in> inode_space a" for x
    using eq(16) [OF that] by (simp add: inode_pos_def)
  then have "inj_on (inode_pos b) (inode_space b)"
    using ok unfolding tables_ok_def inj_on_def sp by metis
  then show "tables_ok b"
    using ok r alloc_same_sets(1) [OF al same] eq(16) sp by (simp add: tables_ok_def relinked_def)
  show "link b x = f x" if "x \<in> inode_space a" for x
    using pos [OF that] that r link_at [OF ok that] by (simp add: link_def relinked_def)
qed

text \<open>Recording a block and marking it dirty.\<close>

lemma relinked_frame:
  assumes ok: "tables_ok a" and r: "relinked f a b" and fr: "alloc_frame (side b) b c"
  shows "relinked f a c"
proof -
  note t = relinked_tables [OF ok r]
  have "geo_view c = geo_view b" by (rule frame_geo) (use fr in \<open>simp add: alloc_frame_def\<close>)
  moreover have "d_fault c = d_fault b" using fr by (simp add: alloc_frame_def alloc_view_def)
  moreover have "d_cache c x = d_cache b x" if "x \<notin> side a" for x
    using fr t(3) that by (simp add: alloc_frame_def)
  moreover have "x \<notin> side a" if "x \<in> set (bitmaps a)" for x
    using that ok alloc_okD(5) [of a x] by (simp add: tables_ok_def)
  ultimately show ?thesis
    using r table_block(2) [OF ok] by (simp add: relinked_def alloc_same_def link_at_def)
qed

lemma relinked_put:
  assumes ok: "tables_ok a" and r: "relinked f a b" and ino: "ino \<in> inode_space a"
  shows "relinked (f(ino := v)) a (put_next_orphan (inode_pos a ino) v b)"
proof -
  let ?b = "inode_block a ino" and ?o = "inode_offset a ino + NEXT_ORPHAN_OFF"
  note blk = table_block [OF ok ino]
  have len: "length (d_cache b ?b) = BLOCK_SIZE" using r ino by (simp add: relinked_def)
  have fits: "inode_offset a x + NEXT_ORPHAN_OFF + 8 \<le> BLOCK_SIZE" for x
    using offset_fits [of a x] link_off by simp
  define c where "c = b\<lparr>d_cache := (d_cache b)(?b := put_bytes ?o (le64 v) (d_cache b ?b))\<rparr>"
  have put: "put_next_orphan (inode_pos a ino) v b = c"
    using blk by (simp add: c_def put_next_orphan_def inode_pos_def set_bdata_def bdata_def)
  have g: "geo_view c = geo_view b" by (simp add: c_def geo_view_def)
  have cache: "d_cache c x = d_cache b x" if "x \<noteq> ?b" for x using that by (simp add: c_def)
  have here: "d_cache c ?b = put_bytes ?o (le64 v) (d_cache b ?b)" by (simp add: c_def)
  have same: "alloc_same a c" "d_fault c = d_fault a"
    using r g blk(3) by (auto simp: relinked_def alloc_same_def c_def)
  have "length (d_cache c (inode_block a x)) = BLOCK_SIZE \<and> link_at a x c = (f(ino := v)) x"
    if x: "x \<in> inode_space a" for x
  proof (cases "x = ino")
    case True
    then show ?thesis using fits len by (simp add: link_at_def here get64_def)
  next
    case False
    then have "inode_pos a x \<noteq> inode_pos a ino"
      using ok ino x by (auto simp: tables_ok_def inj_on_def)
    then consider "inode_block a x \<noteq> ?b" |
        "inode_block a x = ?b" "inode_offset a x + CRYEXTS_INODE_SIZE \<le> inode_offset a ino \<or>
           inode_offset a ino + CRYEXTS_INODE_SIZE \<le> inode_offset a x"
      using offset_apart [of a x ino] by (auto simp: inode_pos_def)
    then show ?thesis
    proof cases
      case 1
      then show ?thesis using False r x by (simp add: link_at_def cache relinked_def)
    next
      case 2
      have "get_bytes (d_cache c ?b) (inode_offset a x + NEXT_ORPHAN_OFF) 8 =
          get_bytes (d_cache b ?b) (inode_offset a x + NEXT_ORPHAN_OFF) 8"
        unfolding here
        by (rule get_put_bytes_disjoint) (use 2(2) len fits [of x] fits [of ino] link_off in auto)
      then have "link_at a x c = link_at a x b" using 2(1) by (simp add: link_at_def get64_def)
      then show ?thesis using False r x 2(1) len fits [of ino] by (simp add: relinked_def here)
    qed
  qed
  then show ?thesis unfolding put using same by (simp add: relinked_def)
qed

section \<open>The steps of the list\<close>

text \<open>A link is stored, its block recorded and marked dirty; then maybe the superblock.\<close>

lemma relinked_side: "tables_ok a \<Longrightarrow> relinked f a b \<Longrightarrow> side_blocks (side b) b"
  using relinked_tables(1) [of a f b] alloc_ok_side [of b] by (simp add: tables_ok_def)

definition head :: "fs \<Rightarrow> u64" where "head st = sb_orphan_head (s_disk_sb st)"

lemma frame_head: "alloc_frame S b c \<Longrightarrow> head c = head b"
  by (simp add: alloc_frame_def alloc_view_def sb_view_def head_def)

lemma head_simps [simp]:
  "head (b\<lparr>d_tick := t\<rparr>) = head b" "head (cryexts_orphan_update_cached_inode ino v b) = head b"
  "head (set_orphan_head v b) = v" "x \<noteq> 0 \<Longrightarrow> head (put_next_orphan (x, off) v b) = head b"
  by (simp_all add: head_def cryexts_orphan_update_cached_inode_def set_orphan_head_def
      upd_disk_sb_def put_next_orphan_def set_bdata_def split: option.splits)

lemma relinked_orphan_link:
  assumes ok: "tables_ok a" and r: "relinked f a b" and ino: "ino \<in> inode_space a"
  shows "relinked (f(ino := v)) a (orphan_link (inode_pos a ino) ino v b)"
    "head (orphan_link (inode_pos a ino) ino v b) = head b"
proof -
  let ?c = "put_next_orphan (inode_pos a ino) v b"
  note c = relinked_put [OF ok r ino, of v]
  have fr: "alloc_frame (side ?c) ?c (record_and_dirty bh ?c)" for bh
    by (rule frame_record_and_dirty [OF relinked_side [OF ok c]]) simp
  show "relinked (f(ino := v)) a (orphan_link (inode_pos a ino) ino v b)"
    using relinked_frame [OF ok c fr] by (simp add: orphan_link_def)
  show "head (orphan_link (inode_pos a ino) ino v b) = head b"
    using frame_head [OF fr] table_block(1) [OF ok ino] by (simp add: orphan_link_def inode_pos_def)
qed

lemma relinked_mark_super:
  assumes ok: "tables_ok a" and r: "relinked f a b"
  shows "relinked f a (cryexts_mark_super_dirty b)" "head (cryexts_mark_super_dirty b) = head b"
proof -
  have fr: "alloc_frame (side b) b (cryexts_mark_super_dirty b)" by (rule frame_mark_super) simp
  show "relinked f a (cryexts_mark_super_dirty b)" "head (cryexts_mark_super_dirty b) = head b"
    using relinked_frame [OF ok r fr] frame_head [OF fr] by auto
qed

lemma relinked_orphans:
  assumes ok: "tables_ok a" and r: "relinked f a b"
    and p: "opath f (head b) xs" and sub: "set xs \<subseteq> inode_space a"
  shows "tables_ok b \<and> orphans b xs"
proof -
  note t = relinked_tables [OF ok r]
  have "opath (link b) (head b) xs = opath f (head b) xs"
    by (rule opath_cong) (use t(5) sub in auto)
  then show ?thesis using t(1,2) p sub by (simp add: orphans_def head_def)
qed

text \<open>There are at most as many orphans as inodes, so the bound of the loops is enough.\<close>

lemma orphans_bound:
  assumes "distinct xs" "set xs \<subseteq> inode_space st"
  shows "length xs \<le> unat (cryexts_inodes_count st)"
proof -
  have "unat ` set xs \<subseteq> {1..unat (cryexts_inodes_count st)}"
    using assms(2) inode_space_nat by fastforce
  then have "card (unat ` set xs) \<le> unat (cryexts_inodes_count st)"
    using card_mono [OF finite_atLeastAtMost, of "unat ` set xs" 1 "unat (cryexts_inodes_count st)"] by simp
  moreover have "inj_on unat (set xs)" by (simp add: inj_on_def word_unat_eq_iff)
  ultimately show ?thesis using assms(1) by (simp add: card_image distinct_card)
qed

section \<open>Adding an inode\<close>

lemma inode_space_nonzero: "ino \<in> inode_space st \<Longrightarrow> ino \<noteq> 0"
  by (auto simp: inode_space_def CRYEXTS_ROOT_INO_def)

lemma tick_tables [simp]:
  "inode_space (st\<lparr>d_tick := t\<rparr>) = inode_space st" "inode_pos (st\<lparr>d_tick := t\<rparr>) = inode_pos st"
  "link (st\<lparr>d_tick := t\<rparr>) = link st"
proof -
  show sp: "inode_space (st\<lparr>d_tick := t\<rparr>) = inode_space st"
    by (simp add: inode_space_def cryexts_inodes_count_def)
  show pos: "inode_pos (st\<lparr>d_tick := t\<rparr>) = inode_pos st"
    by (simp add: fun_eq_iff inode_pos_def inode_block_def inode_offset_def cryexts_has_block_groups_def
        cryexts_group_inode_table_start_def group_field_def split: option.splits)
  show "link (st\<lparr>d_tick := t\<rparr>) = link st"
    unfolding link_def fun_eq_iff pos by (simp add: get_next_orphan_def bdata_def split: prod.splits)
qed

lemma tables_ok_tick [simp]: "tables_ok st \<Longrightarrow> tables_ok (st\<lparr>d_tick := t\<rparr>)"
  using relinked_tables(1) [of st "link st" "st\<lparr>d_tick := t\<rparr>"] relinked_refl by simp

text \<open>Reading the inode \<open>x\<close> while following the list.\<close>

lemma read_link:
  assumes "tables_ok st" "x \<in> inode_space st"
  shows "(\<exists>n. d_fault st n) \<and> (\<exists>t. cryexts_get_disk_inode x (st\<lparr>d_tick := s\<rparr>) = (Inl EIO, st\<lparr>d_tick := t\<rparr>)) \<or>
    (\<exists>t. cryexts_get_disk_inode x (st\<lparr>d_tick := s\<rparr>) = (Inr (inode_pos st x), st\<lparr>d_tick := t\<rparr>) \<and>
      get_next_orphan (inode_pos st x) (st\<lparr>d_tick := t\<rparr>) = link st x)"
proof -
  have "get_next_orphan (inode_pos st x) (st\<lparr>d_tick := t\<rparr>) = link st x" for t
    using fun_cong [OF tick_tables(3), of t st x] by (simp only: link_def tick_tables(2))
  then show ?thesis using get_disk_inode [OF tables_ok_tick [OF assms(1)], of x s] assms(2) by auto
qed

lemma walk_list:
  assumes "tables_ok st" "opath (link st) h xs" "set xs \<subseteq> inode_space st" "length xs \<le> n"
  shows "\<exists>t. (\<exists>n. d_fault st n) \<and> orphan_walk n ino h (st\<lparr>d_tick := s\<rparr>) = (Inl EIO, st\<lparr>d_tick := t\<rparr>) \<or>
    orphan_walk n ino h (st\<lparr>d_tick := s\<rparr>) = (Inr (ino \<in> set xs), st\<lparr>d_tick := t\<rparr>)"
  using assms(2-4)
proof (induction xs arbitrary: n h s)
  case Nil
  then show ?case by (cases n) (auto simp: retE_def)
next
  case (Cons x xs)
  obtain m where n: "n = Suc m" using Cons.prems(3) by (cases n) auto
  have x: "x \<in> inode_space st" "h = x" "x \<noteq> 0" using Cons.prems by auto
  show ?case
  proof (cases "ino = x")
    case True
    then show ?thesis using n x by (auto simp: retE_def intro: exI [of _ s])
  next
    case False
    from read_link [OF assms(1) x(1), of s] show ?thesis
    proof (elim disjE exE conjE)
      fix k t
      assume "d_fault st k" "cryexts_get_disk_inode x (st\<lparr>d_tick := s\<rparr>) = (Inl EIO, st\<lparr>d_tick := t\<rparr>)"
      then show ?thesis using False n x by (auto simp: bindE_def)
    next
      fix t
      assume "cryexts_get_disk_inode x (st\<lparr>d_tick := s\<rparr>) = (Inr (inode_pos st x), st\<lparr>d_tick := t\<rparr>)"
        "get_next_orphan (inode_pos st x) (st\<lparr>d_tick := t\<rparr>) = link st x"
      then have "orphan_walk n ino h (st\<lparr>d_tick := s\<rparr>) = orphan_walk m ino (link st x) (st\<lparr>d_tick := t\<rparr>)"
        using False n x by (simp add: bindE_def)
      moreover have "opath (link st) (link st x) xs" "set xs \<subseteq> inode_space st" "length xs \<le> m"
        using Cons.prems n by auto
      ultimately show ?thesis using Cons.IH [of "link st x" m t] False by simp
    qed
  qed
qed

lemma orphans_props:
  assumes "tables_ok st" "orphans st xs"
  shows "opath (link st) (head st) xs" "set xs \<subseteq> inode_space st" "distinct xs"
    "length xs \<le> unat (cryexts_inodes_count st)"
  using assms opath_distinct orphans_bound by (auto simp: orphans_def head_def)

text \<open>The claims of this theory are about inode numbers in range; others are refused.\<close>

lemma set_steps:
  assumes ok: "tables_ok st" and xs: "orphans st xs" and ino: "ino \<in> inode_space st" "ino \<notin> set xs"
  shows "tables_ok (cryexts_mark_super_dirty (set_orphan_head ino
        (orphan_link (inode_pos st ino) ino (head st) (st\<lparr>d_tick := t\<rparr>)))) \<and>
    orphans (cryexts_mark_super_dirty (set_orphan_head ino
        (orphan_link (inode_pos st ino) ino (head st) (st\<lparr>d_tick := t\<rparr>)))) (ino # xs)"
proof -
  let ?f = "(link st)(ino := head st)"
  let ?b = "set_orphan_head ino (orphan_link (inode_pos st ino) ino (head st) (st\<lparr>d_tick := t\<rparr>))"
  have "relinked ?f st ?b"
    using relinked_orphan_link(1) [OF ok _ ino(1), of "link st" "st\<lparr>d_tick := t\<rparr>"] relinked_refl [OF ok] by simp
  note m = relinked_mark_super [OF ok this]
  note p = orphans_props [OF ok xs]
  have "opath ?f ino (ino # xs)" using p(1) ino inode_space_nonzero by simp
  then show ?thesis by (intro relinked_orphans [OF ok m(1)]) (use m(2) p(2) ino(1) in auto)
qed

lemma orphan_set_eq:
  assumes "cryexts_orphan_feature_enabled st" "ino \<in> inode_space st"
  shows "cryexts_orphan_set ino st =
    bindE (orphan_walk (unat (cryexts_inodes_count st)) ino (head st)) (\<lambda>found.
      if found then retE ()
      else bindE (cryexts_get_disk_inode ino) (\<lambda>p. modE (\<lambda>s. cryexts_mark_super_dirty
             (set_orphan_head ino (orphan_link p ino (head st) s))))) st"
  using assms unfolding head_def
  by (auto simp: cryexts_orphan_set_def inode_space_def Let_def not_less)

text \<open>C32: With the orphan list enabled, adding an inode puts it in front of the list
  unless it is in the list already, in every journal format; a failed call (an inode number out of
  range or a read error of the device) leaves the list as it was.\<close>

theorem orphan_set_correct:
  assumes "tables_ok st" and "orphans st xs" and "cryexts_orphan_feature_enabled st"
    and "cryexts_orphan_set ino st = (r, st')"
  shows "tables_ok st' \<and> (case r of
      Inr _ \<Rightarrow> ino \<in> inode_space st \<and> orphans st' (if ino \<in> set xs then xs else ino # xs)
    | Inl e \<Rightarrow> orphans st' xs \<and> (if ino \<in> inode_space st then e = EIO \<and> (\<exists>n. d_fault st n) else e = EINVAL \<and> st' = st))"
proof (cases "ino \<in> inode_space st")
  case False
  then have "r = Inl EINVAL \<and> st' = st"
    using assms(3,4) by (auto simp: cryexts_orphan_set_def inode_space_def not_le split: if_splits)
  then show ?thesis using assms(1,2) False by simp
next
  case True
  note p = orphans_props [OF assms(1,2)]
  have same: "tables_ok (st\<lparr>d_tick := t\<rparr>) \<and> orphans (st\<lparr>d_tick := t\<rparr>) xs" for t
    using assms(1,2) by (simp add: orphans_def)
  note set = orphan_set_eq [OF assms(3) True]
  have st: "st\<lparr>d_tick := d_tick st\<rparr> = st" by simp
  from walk_list [OF assms(1) p(1,2,4), of ino "d_tick st", unfolded st] show ?thesis
  proof (elim exE disjE conjE)
    fix k t assume "d_fault st k" "orphan_walk (unat (cryexts_inodes_count st)) ino (head st) st = (Inl EIO, st\<lparr>d_tick := t\<rparr>)"
    then have "r = Inl EIO \<and> st' = st\<lparr>d_tick := t\<rparr> \<and> d_fault st k" using assms(4) set by (simp add: bindE_def)
    then show ?thesis using same True by auto
  next
    fix t
    assume w: "orphan_walk (unat (cryexts_inodes_count st)) ino (head st) st =
        (Inr (ino \<in> set xs), st\<lparr>d_tick := t\<rparr>)"
    show ?thesis
    proof (cases "ino \<in> set xs")
      case True
      then have "r = Inr () \<and> st' = st\<lparr>d_tick := t\<rparr>"
        using assms(4) set w by (simp add: bindE_def retE_def)
      then show ?thesis using same True p(2) by auto
    next
      case False
      from read_link [OF assms(1) True, of t] show ?thesis
      proof (elim disjE exE conjE)
        fix k u assume "d_fault st k" "cryexts_get_disk_inode ino (st\<lparr>d_tick := t\<rparr>) = (Inl EIO, st\<lparr>d_tick := u\<rparr>)"
        then have "r = Inl EIO \<and> st' = st\<lparr>d_tick := u\<rparr> \<and> d_fault st k"
          using assms(4) set w False by (simp add: bindE_def)
        then show ?thesis using same True by auto
      next
        fix u
        assume "cryexts_get_disk_inode ino (st\<lparr>d_tick := t\<rparr>) = (Inr (inode_pos st ino), st\<lparr>d_tick := u\<rparr>)"
        then have "r = Inr () \<and> st' = cryexts_mark_super_dirty (set_orphan_head ino
            (orphan_link (inode_pos st ino) ino (head st) (st\<lparr>d_tick := u\<rparr>)))"
          using assms(4) set w False by (simp add: bindE_def modE_def)
        then show ?thesis using set_steps [OF assms(1,2) True False, of u] True False by simp
      qed
    qed
  qed
qed

section \<open>Removing an inode\<close>

lemma unlink_list:
  assumes ok: "tables_ok st" and p: "opath (link st) (head st) (ps @ x # ys)"
    and sub: "set (ps @ x # ys) \<subseteq> inode_space st"
    and u: "orphan_unlink (if ps = [] then 0 else last ps) x (inode_pos st x) (st\<lparr>d_tick := s\<rparr>) = (r, st')"
  shows "tables_ok st' \<and> (case r of Inr _ \<Rightarrow> orphans st' (ps @ ys)
    | Inl e \<Rightarrow> e = EIO \<and> (\<exists>n. d_fault st n) \<and> orphans st' (ps @ [x]))"
proof -
  have x: "x \<in> inode_space st" "x \<noteq> 0" "x \<notin> set ps" "x \<notin> set ys"
    using sub opath_suffix [OF p] opath_distinct [OF p] by auto
  have nx: "get_next_orphan (inode_pos st x) (st\<lparr>d_tick := s\<rparr>) = link st x"
    using fun_cong [OF tick_tables(3), of s st x] by (simp only: link_def tick_tables(2))
  let ?f = "(link st)(x := 0)"
  let ?b = "orphan_link (inode_pos st x) x 0 (st\<lparr>d_tick := s\<rparr>)"
  have b: "relinked ?f st ?b" "head ?b = head st"
    using relinked_orphan_link [OF ok _ x(1), of "link st" "st\<lparr>d_tick := s\<rparr>" 0] relinked_refl [OF ok]
    by simp_all
  have ys: "opath ?f (link st x) ys" using opath_tail [OF p] x(4) by simp
  show ?thesis
  proof (cases "ps = []")
    case True
    then have "r = Inr () \<and> st' = cryexts_mark_super_dirty (set_orphan_head (link st x) ?b)"
      using u by (simp add: orphan_unlink_def nx bindE_def modE_def retE_def Let_def)
    moreover have "relinked ?f st (set_orphan_head (link st x) ?b)" using b(1) by simp
    ultimately show ?thesis
      using relinked_mark_super [OF ok, of ?f "set_orphan_head (link st x) ?b"] ys True sub
        relinked_orphans [OF ok, of ?f st' ys]
      by simp
  next
    case False
    let ?p = "last ps"
    have prev: "?p \<in> inode_space st" "?p \<noteq> 0" "?p \<noteq> x"
      using last_in_set [OF False] sub x(3) inode_space_nonzero by auto
    note t = relinked_tables [OF ok b(1)]
    have "?p \<in> inode_space ?b" using prev(1) t(2) by simp
    from get_disk_inode [OF t(1) this] obtain n where
      "(\<exists>n. d_fault st n) \<and> cryexts_get_disk_inode ?p ?b = (Inl EIO, ?b\<lparr>d_tick := n\<rparr>) \<or>
       cryexts_get_disk_inode ?p ?b = (Inr (inode_pos st ?p), ?b\<lparr>d_tick := n\<rparr>)"
      using t(4) [OF prev(1)] t(6) by auto
    then show ?thesis
    proof (elim disjE exE conjE)
      fix k
      assume "d_fault st k" "cryexts_get_disk_inode ?p ?b = (Inl EIO, ?b\<lparr>d_tick := n\<rparr>)"
      then have "r = Inl EIO \<and> st' = ?b\<lparr>d_tick := n\<rparr> \<and> d_fault st k"
        using u False prev by (simp add: orphan_unlink_def nx bindE_def Let_def)
      moreover have "opath ?f (head st) (ps @ [x])" by (rule opath_cut [OF p x(3)])
      ultimately show ?thesis
        using relinked_orphans [OF ok, of ?f "?b\<lparr>d_tick := n\<rparr>" "ps @ [x]"] b sub by auto
    next
      assume g: "cryexts_get_disk_inode ?p ?b = (Inr (inode_pos st ?p), ?b\<lparr>d_tick := n\<rparr>)"
      let ?c = "orphan_link (inode_pos st ?p) ?p (link st x) (?b\<lparr>d_tick := n\<rparr>)"
      let ?g = "?f(?p := link st x)"
      have res: "r = Inr () \<and> st' = cryexts_mark_super_dirty ?c"
        using u False prev g by (simp add: orphan_unlink_def nx bindE_def modE_def retE_def Let_def)
      have c: "relinked ?g st ?c" "head ?c = head st"
        using relinked_orphan_link [OF ok _ prev(1), of ?f "?b\<lparr>d_tick := n\<rparr>" "link st x"] b by simp_all
      have "distinct (butlast ps @ [?p])" using opath_distinct [OF p] False by simp
      then have "?p \<notin> set (butlast ps)" by simp
      moreover have "?p \<notin> set ys" using opath_distinct [OF p] last_in_set [OF False] by auto
      ultimately have "opath ?g (head st) (ps @ ys)"
        using False x ys by (intro opath_relink [OF p]) (auto dest: in_set_butlastD)
      then show ?thesis
        using res relinked_mark_super [OF ok c(1)] relinked_orphans [OF ok, of ?g st' "ps @ ys"] c(2) sub
        by simp
    qed
  qed
qed

text \<open>The loop, when it has passed \<open>ps\<close> and stands at the head of \<open>ys\<close>.\<close>

lemma remove_list:
  assumes ok: "tables_ok st" and p: "opath (link st) (head st) (ps @ ys)"
    and sub: "set (ps @ ys) \<subseteq> inode_space st" and ino: "ino \<notin> set ps" and n: "length ys \<le> n"
    and res: "orphan_remove n ino (if ps = [] then 0 else last ps)
        (if ys = [] then 0 else hd ys) (st\<lparr>d_tick := s\<rparr>) = (r, st')"
  shows "tables_ok st' \<and> (case r of Inr _ \<Rightarrow> orphans st' (remove1 ino (ps @ ys))
    | Inl e \<Rightarrow> e = EIO \<and> (\<exists>n. d_fault st n) \<and> (orphans st' (ps @ ys) \<or>
        ino \<in> set ys \<and> orphans st' (takeWhile (\<lambda>x. x \<noteq> ino) (ps @ ys) @ [ino])))"
  using p sub ino n res
proof (induction ys arbitrary: ps n s)
  case Nil
  then have "r = Inr () \<and> st' = st\<lparr>d_tick := s\<rparr>" by (cases n) (simp_all add: retE_def)
  then show ?case using ok Nil by (simp add: remove1_idem orphans_def head_def)
next
  case (Cons x xs)
  obtain m where n: "n = Suc m" using Cons.prems(4) by (cases n) auto
  have x: "x \<in> inode_space st" "x \<noteq> 0" using Cons.prems(2) inode_space_nonzero by auto
  have same: "tables_ok (st\<lparr>d_tick := t\<rparr>) \<and> orphans (st\<lparr>d_tick := t\<rparr>) (ps @ x # xs)" for t
    using ok Cons.prems(1,2) by (simp add: orphans_def head_def)
  from read_link [OF ok x(1), of s] show ?case
  proof (elim disjE exE conjE)
    fix k t assume "d_fault st k" "cryexts_get_disk_inode x (st\<lparr>d_tick := s\<rparr>) = (Inl EIO, st\<lparr>d_tick := t\<rparr>)"
    then have "r = Inl EIO \<and> st' = st\<lparr>d_tick := t\<rparr> \<and> d_fault st k"
      using Cons.prems(5) n x by (simp add: bindE_def)
    then show ?thesis using same by auto
  next
    fix t
    assume g: "cryexts_get_disk_inode x (st\<lparr>d_tick := s\<rparr>) = (Inr (inode_pos st x), st\<lparr>d_tick := t\<rparr>)"
      and l: "get_next_orphan (inode_pos st x) (st\<lparr>d_tick := t\<rparr>) = link st x"
    show ?thesis
    proof (cases "x = ino")
      case True
      then have "orphan_unlink (if ps = [] then 0 else last ps) x (inode_pos st x) (st\<lparr>d_tick := t\<rparr>) = (r, st')"
        using Cons.prems(5) n x g by (simp add: bindE_def)
      moreover have "takeWhile (\<lambda>y. y \<noteq> ino) (ps @ x # xs) = ps" "remove1 ino (ps @ x # xs) = ps @ xs"
        using Cons.prems(3) True by (auto simp: remove1_append takeWhile_tail)
      ultimately show ?thesis
        using unlink_list [OF ok Cons.prems(1,2), of t r st'] True by (auto split: sum.splits)
    next
      case False
      have "opath (link st) (link st x) xs" by (rule opath_tail [OF Cons.prems(1)])
      then have "link st x = (if xs = [] then 0 else hd xs)" by (cases xs) auto
      then have "orphan_remove m ino (if ps @ [x] = [] then 0 else last (ps @ [x]))
          (if xs = [] then 0 else hd xs) (st\<lparr>d_tick := t\<rparr>) = (r, st')"
        using Cons.prems(5) n x g l False by (simp add: bindE_def)
      from Cons.IH [of "ps @ [x]", OF _ _ _ _ this] show ?thesis
        using Cons.prems(1-4) n False by (cases r) auto
    qed
  qed
qed

text \<open>C33: With the orphan list enabled, removing an inode takes it and only it out of
  the list, in every journal format.  A failed call leaves the list as it was or, when the inode
  in front of it cannot be read, cuts off the list behind the inode: the orphans behind it are lost.\<close>

theorem orphan_clear_correct:
  assumes "tables_ok st" and "orphans st xs" and "cryexts_orphan_feature_enabled st"
    and "cryexts_orphan_clear ino st = (r, st')"
  shows "tables_ok st' \<and> (case r of
      Inr _ \<Rightarrow> ino \<in> inode_space st \<and> orphans st' (remove1 ino xs)
    | Inl e \<Rightarrow> (if ino \<in> inode_space st then e = EIO \<and> (\<exists>n. d_fault st n) else e = EINVAL \<and> st' = st) \<and>
        (orphans st' xs \<or> ino \<in> set xs \<and> orphans st' (takeWhile (\<lambda>x. x \<noteq> ino) xs @ [ino])))"
proof (cases "ino \<in> inode_space st")
  case False
  then have "r = Inl EINVAL \<and> st' = st"
    using assms(3,4) by (auto simp: cryexts_orphan_clear_def inode_space_def not_le split: if_splits)
  then show ?thesis using assms(1,2) False by simp
next
  case True
  note p = orphans_props [OF assms(1,2)]
  have "head st = (if xs = [] then 0 else hd xs)" using p(1) by (cases xs) auto
  then have "orphan_remove (unat (cryexts_inodes_count st)) ino 0 (if xs = [] then 0 else hd xs)
      (st\<lparr>d_tick := d_tick st\<rparr>) = (r, st')"
    using assms(3,4) True unfolding cryexts_orphan_clear_def inode_space_def head_def
    by (simp add: not_less [symmetric])
  then show ?thesis
    using remove_list [OF assms(1), of "[]" xs ino "unat (cryexts_inodes_count st)" "d_tick st" r st'] p True
    by (auto split: sum.splits)
qed

section \<open>A list to start from\<close>

lemma sample_tables: "tables_ok sample_fs"
proof -
  have pos: "inode_pos sample_fs ino = (4 + (ino - 1) div 14, unat ((ino - 1) mod 14) * 276)" for ino
    by (simp add: inode_pos_def inode_block_def inode_offset_def sample_sel cryexts_inodes_per_block_def
        BLOCK_SIZE_def CRYEXTS_INODE_SIZE_def)
  have "inj_on (inode_pos sample_fs) (inode_space sample_fs)"
  proof (rule inj_onI)
    fix x y
    assume "inode_pos sample_fs x = inode_pos sample_fs y"
    then have "(x - 1) div 14 = (y - 1) div 14" "unat ((x - 1) mod 14) = unat ((y - 1) mod 14)"
      unfolding pos prod.inject by simp_all
    moreover from this(2) have "(x - 1) mod 14 = (y - 1) mod 14" unfolding word_unat_eq_iff .
    ultimately have "x - 1 = y - 1" by (metis div_mult_mod_eq)
    then show "x = y" by simp
  qed
  moreover have "inode_block sample_fs ino \<notin> side sample_fs" if "ino \<in> inode_space sample_fs" for ino
  proof -
    have "unat (ino - 1) < 224"
      using inode_space_nat [OF that] by (auto simp: sample_sel unat_sub_if')
    then have "unat ((ino - 1) div 14) < 16" by (simp add: unat_div)
    then have "unat (inode_block sample_fs ino) = 4 + unat ((ino - 1) div 14)"
      using arg_cong [OF pos, of fst ino] by (simp add: inode_pos_def unat_plus_if')
    with \<open>unat ((ino - 1) div 14) < 16\<close> show ?thesis
      by (auto simp: sample_sel side_def gdt_slot_def cryexts_journal_block_is_internal_def
          word_le_nat_alt word_less_nat_alt)
  qed
  ultimately show ?thesis by (simp add: tables_ok_def sample_alloc_ok sample_sel)
qed

text \<open>The inodes 3 and 5 are orphans.\<close>

definition sample_orphans :: fs where
  "sample_orphans = set_orphan_head 3 (put_next_orphan (inode_pos sample_fs 3) 5 sample_fs)"

lemma sample_orphans:
  "tables_ok sample_orphans" "orphans sample_orphans [3, 5]" "d_fault sample_orphans n = False"
  "cryexts_orphan_feature_enabled sample_orphans" "5 \<in> inode_space sample_orphans"
  "7 \<in> inode_space sample_orphans"
proof -
  have sp: "{3, 5, 7} \<subseteq> inode_space sample_fs" by (simp add: inode_space_def sample_sel CRYEXTS_ROOT_INO_def)
  note ok = sample_tables
  have "relinked ((link sample_fs)(3 := 5)) sample_fs sample_orphans"
    using relinked_put [OF ok relinked_refl [OF ok], of 3 5] sp by (simp add: sample_orphans_def)
  note t = relinked_tables [OF ok this] relinked_orphans [OF ok this]
  have "link sample_fs 5 = 0"
    using link_at [OF ok, of 5] sp offset_fits [of sample_fs 5] link_off
    by (simp add: link_def link_at_def sample_sel zero_block_def get_zeros)
  then have "opath ((link sample_fs)(3 := 5)) (head sample_orphans) [3, 5]"
    by (simp add: sample_orphans_def)
  then have "tables_ok sample_orphans \<and> orphans sample_orphans [3, 5]"
    by (rule t(7)) (use sp in simp)
  then show "tables_ok sample_orphans" "orphans sample_orphans [3, 5]" by blast+
  show "d_fault sample_orphans n = False" using t(6) by (simp add: sample_fs_def)
  show "5 \<in> inode_space sample_orphans" "7 \<in> inode_space sample_orphans" using t(2) sp by auto
  have "inode_pos sample_fs 3 = (4, 552)"
    by (simp add: inode_pos_def inode_block_def inode_offset_def sample_sel cryexts_inodes_per_block_def
        BLOCK_SIZE_def CRYEXTS_INODE_SIZE_def)
  then show "cryexts_orphan_feature_enabled sample_orphans"
    by (simp add: sample_orphans_def cryexts_orphan_feature_enabled_def set_orphan_head_def upd_disk_sb_def
        put_next_orphan_def set_bdata_def sample_fs_def sample_sb_def has_flag_def const_simps)
qed

theorem orphan_set_correct_witness:
  "\<exists>st'. cryexts_orphan_set 7 sample_orphans = (Inr (), st') \<and> orphans st' [7, 3, 5]"
proof -
  obtain r st' where e: "cryexts_orphan_set 7 sample_orphans = (r, st')" by (rule prod.exhaust)
  from orphan_set_correct [OF sample_orphans(1,2,4) e] show ?thesis
    using e sample_orphans(3,6) by (cases r) auto
qed

theorem orphan_clear_correct_witness:
  "\<exists>st'. cryexts_orphan_clear 5 sample_orphans = (Inr (), st') \<and> orphans st' [3]"
proof -
  obtain r st' where e: "cryexts_orphan_clear 5 sample_orphans = (r, st')" by (rule prod.exhaust)
  from orphan_clear_correct [OF sample_orphans(1,2,4) e] show ?thesis
    using e sample_orphans(3,5) by (cases r) auto
qed

end
