(* ===== verification/Inode.thy ===== *)
theory Inode
  imports InodeFormat Balloc
begin

text \<open>
  The inode in memory (\<open>struct cryexts_inode_info\<close> of \<open>cryexts.h\<close> and the fields of the kernel's
  \<open>struct inode\<close> that the file system uses) and the first half of \<open>inode.c\<close>: its allocation
  hints, its extents, their overflow block and their leaves.

  The arrays of extents are lists of the entries in use: \<open>extents\<close> and \<open>overflow_extents\<close> with
  their counters, and \<open>extent_leaves\<close> with \<open>extent_leaf_count\<close>.  A pointer to an array is only
  followed where the counter says that it has an entry, and then it is not null.  The references
  to the leaves (\<open>extent_root_refs\<close>) are computed from the leaves when they are needed, which is
  when the inode is written.  The field \<open>next_orphan\<close> is \<open>i_next_orphan\<close> of the state, because
  the orphan list reaches it by the inode number.

  The functions work on one inode and the file system: their state is the pair of both.
\<close>

section \<open>State\<close>

record cryexts_extent_leaf_cache =
  lf_block :: u64
  lf_checksum :: u32
  lf_extents :: "cryexts_extent list"

record cryexts_inode_info =
  ii_use_extents :: bool
  ii_inode_flags :: u32
  ii_direct :: "u64 list"
  ii_indirect_block :: u64
  ii_extent_inline_max :: nat
  ii_extents :: "cryexts_extent list"
  ii_overflow_extents :: "cryexts_extent list"
  ii_extent_overflow_block :: u64
  ii_extent_overflow_checksum :: u32
  ii_extent_leaves :: "cryexts_extent_leaf_cache list"
  ii_xattr_block :: u64
  ii_encryption_policy_id :: u32
  ii_dir_index_block :: u64
  ii_alloc_hint_block :: u64
  ii_alloc_goal_group :: u64
  ii_reservation_start :: u64
  ii_reservation_next :: u64
  ii_reservation_end :: u64

record inode =
  i_ino :: u64
  i_mode :: u16
  i_nlink :: u32
  i_uid :: u32
  i_gid :: u32
  i_size :: u64
  i_blocks :: u64
  i_atime :: u64
  i_ctime :: u64
  i_mtime :: u64
  i_private :: "cryexts_inode_info option"

type_synonym 'a iact = "(inode \<times> fs, 'a) act"

text \<open>A step on the file system alone, and an update of the inode.\<close>

definition onfs :: "(fs, 'a) act \<Rightarrow> 'a iact" where
  "onfs m = (\<lambda>(i, st). case m st of (r, st') \<Rightarrow> (r, (i, st')))"

definition oni :: "(inode \<Rightarrow> inode) \<Rightarrow> unit iact" where
  "oni f = (\<lambda>(i, st). (Inr (), (f i, st)))"

definition info :: "inode \<Rightarrow> cryexts_inode_info" where "info i = the (i_private i)"

definition upd_info :: "(cryexts_inode_info \<Rightarrow> cryexts_inode_info) \<Rightarrow> inode \<Rightarrow> inode" where
  "upd_info f i = i\<lparr>i_private := map_option f (i_private i)\<rparr>"

section \<open>Flags and groups\<close>

definition cryexts_extent_tree_enabled :: "fs \<Rightarrow> bool" where
  "cryexts_extent_tree_enabled st \<longleftrightarrow>
     has_flag (sb_features_incompat (s_disk_sb st)) CRYEXTS_FEATURE_INCOMPAT_EXTENT_TREE"

definition cryexts_extent_tree_v2_enabled :: "fs \<Rightarrow> bool" where
  "cryexts_extent_tree_v2_enabled st \<longleftrightarrow> CRYEXTS_VERSION_V6 \<le> sb_version (s_disk_sb st)"

definition cryexts_disk_extent_tree_v2_inode :: "u32 \<Rightarrow> bool" where
  "cryexts_disk_extent_tree_v2_inode inode_flags \<longleftrightarrow>
     has_flag inode_flags CRYEXTS_INODE_FLAG_EXTENT_TREE_V2"

definition cryexts_extent_tree_v2_inode :: "cryexts_inode_info \<Rightarrow> bool" where
  "cryexts_extent_tree_v2_inode b \<longleftrightarrow> has_flag (ii_inode_flags b) CRYEXTS_INODE_FLAG_EXTENT_TREE_V2"

definition cryexts_block_group_of :: "fs \<Rightarrow> u64 \<Rightarrow> u64" where
  "cryexts_block_group_of st block =
     (if \<not> cryexts_has_block_groups st \<or> s_blocks_per_group st = 0 then 0
      else block div s_blocks_per_group st)"

definition cryexts_inode_group_of :: "inode \<Rightarrow> fs \<Rightarrow> u64" where
  "cryexts_inode_group_of i st =
     (if \<not> cryexts_has_block_groups st \<or> s_inodes_per_group st = 0 then - 1
      else if i_ino i < CRYEXTS_ROOT_INO then - 1
      else (i_ino i - 1) div s_inodes_per_group st)"

section \<open>Allocation hints\<close>

definition cryexts_reset_reservation :: "cryexts_inode_info \<Rightarrow> cryexts_inode_info" where
  "cryexts_reset_reservation b =
     b\<lparr>ii_reservation_start := 0, ii_reservation_next := 0, ii_reservation_end := 0\<rparr>"

definition cryexts_update_alloc_hint :: "fs \<Rightarrow> u64 \<Rightarrow> cryexts_inode_info \<Rightarrow> cryexts_inode_info" where
  "cryexts_update_alloc_hint st block b =
     (if block = 0 then b
      else let b = b\<lparr>ii_alloc_hint_block := block + 1,
                     ii_alloc_goal_group := cryexts_block_group_of st block\<rparr>;
               b = (if ii_reservation_start b \<noteq> 0 \<and>
                       (block < ii_reservation_start b \<or> ii_reservation_end b \<le> block)
                    then cryexts_reset_reservation b else b)
           in if ii_reservation_start b \<noteq> 0 \<and> ii_reservation_next b < block + 1
              then b\<lparr>ii_reservation_next := block + 1\<rparr> else b)"

text \<open>The update as a step: \<open>cryexts_set_inode_alloc_hint\<close>.\<close>

definition cryexts_set_inode_alloc_hint :: "u64 \<Rightarrow> unit iact" where
  "cryexts_set_inode_alloc_hint block = (\<lambda>(i, st).
     (Inr (), (upd_info (cryexts_update_alloc_hint st block) i, st)))"

definition cryexts_reserve :: "fs \<Rightarrow> u64 \<Rightarrow> cryexts_inode_info \<Rightarrow> cryexts_inode_info" where
  "cryexts_reserve st physical b =
     (let grp = cryexts_block_group_of st physical in
      if ii_reservation_start b = 0 \<or> physical < ii_reservation_start b \<or>
         ii_reservation_end b \<le> physical \<or> grp \<noteq> ii_alloc_goal_group b
      then b\<lparr>ii_reservation_start := physical, ii_reservation_next := physical + 1,
             ii_reservation_end := min (physical + CRYEXTS_RESERVATION_WINDOW_BLOCKS)
               (cryexts_group_first_block st grp + cryexts_group_blocks st grp)\<rparr>
      else b\<lparr>ii_reservation_next := physical + 1\<rparr>)"

definition cryexts_alloc_data_block_for_inode :: "u64 iact" where
  "cryexts_alloc_data_block_for_inode = (\<lambda>(i, st).
     let b = info i in
     if cryexts_prealloc_feature_enabled st \<and> cryexts_has_block_groups st
     then (let goal = (if ii_reservation_next b \<noteq> 0 \<and>
                          ii_reservation_next b < ii_reservation_end b
                       then ii_reservation_next b else ii_alloc_hint_block b)
           in bindE (onfs (cryexts_alloc_block_goal goal (ii_alloc_goal_group b)))
                (\<lambda>physical (i, st). (Inr physical, (upd_info (cryexts_reserve st physical) i, st)))
                (i, st))
     else onfs (cryexts_alloc_block_goal (ii_alloc_hint_block b) (ii_alloc_goal_group b)) (i, st))"

definition cryexts_zero_new_block :: "u64 \<Rightarrow> (fs, unit) act" where
  "cryexts_zero_new_block block =
     bindE (io_step EIO) (\<lambda>_. modE (\<lambda>st. mark_buffer_dirty block (set_bdata block zero_block st)))"

text \<open>A block that was just allocated is cleared; if that fails it is freed again.\<close>

definition zero_or_free :: "u64 \<Rightarrow> unit iact" where
  "zero_or_free block =
     onfs (on_errE (cryexts_zero_new_block block) (\<lambda>_. ignoreE (cryexts_free_block block)))"

section \<open>The extents of an inode\<close>

fun leaf_entry :: "cryexts_extent_leaf_cache list \<Rightarrow> nat \<Rightarrow> cryexts_extent option" where
  "leaf_entry [] index = None"
| "leaf_entry (leaf # leaves) index =
     (if index < length (lf_extents leaf) then Some (lf_extents leaf ! index)
      else leaf_entry leaves (index - length (lf_extents leaf)))"

definition cryexts_extent_total_entries :: "cryexts_inode_info \<Rightarrow> nat" where
  "cryexts_extent_total_entries b =
     (if cryexts_extent_tree_v2_inode b
      then sum_list (map (\<lambda>leaf. length (lf_extents leaf)) (ii_extent_leaves b))
      else length (ii_extents b) + length (ii_overflow_extents b))"

definition cryexts_extent_entry :: "cryexts_inode_info \<Rightarrow> nat \<Rightarrow> cryexts_extent option" where
  "cryexts_extent_entry b index =
     (if cryexts_extent_tree_v2_inode b then leaf_entry (ii_extent_leaves b) index
      else if index < length (ii_extents b) then Some (ii_extents b ! index)
      else if index - length (ii_extents b) < length (ii_overflow_extents b)
      then Some (ii_overflow_extents b ! (index - length (ii_extents b)))
      else None)"

text \<open>The entries that the loops over an inode's extents visit.\<close>

definition extent_list :: "cryexts_inode_info \<Rightarrow> cryexts_extent list" where
  "extent_list b =
     List.map_filter (cryexts_extent_entry b) [0..<cryexts_extent_total_entries b]"

text \<open>Change the extent that \<open>cryexts_extent_entry\<close> points to.\<close>

fun leaf_update ::
    "nat \<Rightarrow> (cryexts_extent \<Rightarrow> cryexts_extent) \<Rightarrow> cryexts_extent_leaf_cache list \<Rightarrow>
     cryexts_extent_leaf_cache list" where
  "leaf_update index f [] = []"
| "leaf_update index f (leaf # leaves) =
     (if index < length (lf_extents leaf)
      then leaf\<lparr>lf_extents := (lf_extents leaf)[index := f (lf_extents leaf ! index)]\<rparr> # leaves
      else leaf # leaf_update (index - length (lf_extents leaf)) f leaves)"

definition upd_extent ::
    "nat \<Rightarrow> (cryexts_extent \<Rightarrow> cryexts_extent) \<Rightarrow> cryexts_inode_info \<Rightarrow> cryexts_inode_info" where
  "upd_extent index f b =
     (if cryexts_extent_tree_v2_inode b
      then b\<lparr>ii_extent_leaves := leaf_update index f (ii_extent_leaves b)\<rparr>
      else if index < length (ii_extents b)
      then b\<lparr>ii_extents := (ii_extents b)[index := f (ii_extents b ! index)]\<rparr>
      else let k = index - length (ii_extents b) in
           b\<lparr>ii_overflow_extents := (ii_overflow_extents b)[k := f (ii_overflow_extents b ! k)]\<rparr>)"

text \<open>The size that extents can give to a file, in blocks.\<close>

definition cryexts_extent_file_blocks_max_from_inline_max :: "nat \<Rightarrow> u64" where
  "cryexts_extent_file_blocks_max_from_inline_max inline_max =
     (if inline_max = CRYEXTS_EXTENT_ROOT_INLINE_EXTENTS
      then of_nat ((CRYEXTS_EXTENT_ROOT_INLINE_EXTENTS + CRYEXTS_EXTENTS_PER_BLOCK) *
                   CRYEXTS_MAX_EXTENT_BLOCKS)
      else of_nat (CRYEXTS_MAX_INLINE_EXTENTS * CRYEXTS_MAX_EXTENT_BLOCKS))"

definition cryexts_extent_file_blocks_max_from_inode_flags :: "u32 \<Rightarrow> nat \<Rightarrow> u64" where
  "cryexts_extent_file_blocks_max_from_inode_flags inode_flags inline_max =
     (if cryexts_disk_extent_tree_v2_inode inode_flags then CRYEXTS_EXTENT_TREE_V2_FILE_BLOCKS_MAX
      else cryexts_extent_file_blocks_max_from_inline_max inline_max)"

definition cryexts_extent_file_blocks_max_for_blocks :: "cryexts_inode_info \<Rightarrow> u64" where
  "cryexts_extent_file_blocks_max_for_blocks b =
     cryexts_extent_file_blocks_max_from_inode_flags (ii_inode_flags b) (ii_extent_inline_max b)"

end
