(* ===== verification/Extents.thy ===== *)
theory Extents
  imports Inode
begin

text \<open>
  Extents of an inode (\<open>inode.c\<close>): reading and writing the overflow block and the leaves, and
  adding an extent at the end or, in a file with leaves, at its place in the order.  A
  \<open>krealloc\<close> may fail; it comes before the change of the array.
\<close>

section \<open>Blocks of extents\<close>

text \<open>
  The overflow block and the leaves have the same format: a header and the extents.  The code
  clears the block before it fills it.
\<close>

definition enc_extent_block :: "cryexts_extent list \<Rightarrow> bytes" where
  "enc_extent_block es = pad_block (enc_eh \<lparr>eh_magic = CRYEXTS_EXTENT_MAGIC,
     eh_entries = of_nat (length es), eh_max = of_nat CRYEXTS_EXTENTS_PER_BLOCK,
     eh_reserved = 0\<rparr> @ enc_extents es)"

definition extent_block_ok :: "u16 \<Rightarrow> bytes \<Rightarrow> bool" where
  "extent_block_ok entries buf \<longleftrightarrow>
     eh_magic (dec_eh buf) = CRYEXTS_EXTENT_MAGIC \<and>
     eh_max (dec_eh buf) = of_nat CRYEXTS_EXTENTS_PER_BLOCK \<and>
     eh_entries (dec_eh buf) = entries"

definition cryexts_load_extent_overflow :: "u16 \<Rightarrow> unit iact" where
  "cryexts_load_extent_overflow overflow_entries = (\<lambda>(i, st).
     let b = info i; block = ii_extent_overflow_block b in
     if block = 0 then ((if overflow_entries \<noteq> 0 then Inl EUCLEAN else Inr ()), (i, st))
     else if overflow_entries = 0 \<or> CRYEXTS_EXTENTS_PER_BLOCK < unat overflow_entries
     then (Inl EUCLEAN, (i, st))
     else bindE (onfs (cryexts_read_file_block block)) (\<lambda>buf (i, st).
       if \<not> extent_block_ok overflow_entries buf then (Inl EUCLEAN, (i, st))
       else if cryexts_metadata_csum_enabled st \<and>
               ii_extent_overflow_checksum b \<noteq> cryexts_extent_overflow_checksum st block buf
       then (Inl EUCLEAN, (i, st))
       else bindE (onfs kmalloc) (\<lambda>_. oni (upd_info (\<lambda>b. b\<lparr>ii_overflow_extents :=
              get_extents buf EXTENT_HEADER_BYTES (unat overflow_entries)\<rparr>))) (i, st)) (i, st))"

definition cryexts_write_extent_overflow :: "unit iact" where
  "cryexts_write_extent_overflow = (\<lambda>(i, st).
     let b = info i; block = ii_extent_overflow_block b; es = ii_overflow_extents b;
         buf = enc_extent_block es in
     if es = [] then (Inr (), (upd_info (\<lambda>b. b\<lparr>ii_extent_overflow_checksum := 0\<rparr>) i, st))
     else if block = 0 then (Inl EUCLEAN, (i, st))
     else bindE (onfs (io_step EIO)) (\<lambda>_ (i, st).
       let csum = (if cryexts_metadata_csum_enabled st
                   then cryexts_extent_overflow_checksum st block buf else 0)
       in (Inr (), (upd_info (\<lambda>b. b\<lparr>ii_extent_overflow_checksum := csum\<rparr>) i,
                    record_and_dirty (Some block) (set_bdata block buf st)))) (i, st))"

text \<open>A leaf that was read is appended: the caller reads them in the order of their index.\<close>

definition cryexts_load_extent_leaf :: "u64 \<Rightarrow> u16 \<Rightarrow> u32 \<Rightarrow> unit iact" where
  "cryexts_load_extent_leaf block entries checksum = (\<lambda>(i, st).
     if CRYEXTS_EXTENT_TREE_ROOT_REFS \<le> length (ii_extent_leaves (info i))
     then (Inl EUCLEAN, (i, st))
     else if block = 0 \<or> entries = 0 \<or> CRYEXTS_EXTENTS_PER_BLOCK < unat entries
     then (Inl EUCLEAN, (i, st))
     else bindE (onfs (cryexts_read_file_block block)) (\<lambda>buf (i, st).
       if \<not> extent_block_ok entries buf then (Inl EUCLEAN, (i, st))
       else if cryexts_metadata_csum_enabled st \<and>
               checksum \<noteq> cryexts_extent_leaf_checksum st block buf
       then (Inl EUCLEAN, (i, st))
       else bindE (onfs kmalloc) (\<lambda>_. oni (upd_info (\<lambda>b. b\<lparr>ii_extent_leaves :=
              ii_extent_leaves b @ [\<lparr>lf_block = block, lf_checksum = checksum,
                lf_extents = get_extents buf EXTENT_HEADER_BYTES (unat entries)\<rparr>]\<rparr>))) (i, st)) (i, st))"

definition cryexts_write_extent_leaf :: "nat \<Rightarrow> unit iact" where
  "cryexts_write_extent_leaf leaf_index = (\<lambda>(i, st).
     let leaves = ii_extent_leaves (info i); leaf = leaves ! leaf_index;
         block = lf_block leaf; buf = enc_extent_block (lf_extents leaf) in
     if length leaves \<le> leaf_index then (Inl EUCLEAN, (i, st))
     else if block = 0 \<or> lf_extents leaf = [] then (Inl EUCLEAN, (i, st))
     else bindE (onfs (io_step EIO)) (\<lambda>_ (i, st).
       let csum = (if cryexts_metadata_csum_enabled st
                   then cryexts_extent_leaf_checksum st block buf else 0)
       in (Inr (), (upd_info (\<lambda>b. b\<lparr>ii_extent_leaves :=
                      (ii_extent_leaves b)[leaf_index := leaf\<lparr>lf_checksum := csum\<rparr>]\<rparr>) i,
                    record_and_dirty (Some block) (set_bdata block buf st)))) (i, st))"

text \<open>The references to the leaves, padded to the size of the root.\<close>

definition leaf_ref :: "cryexts_extent_leaf_cache \<Rightarrow> cryexts_extent_root_ref" where
  "leaf_ref leaf = \<lparr>r_logical_start =
       (if lf_extents leaf = [] then 0 else e_logical_start (hd (lf_extents leaf))),
     r_leaf_block = lf_block leaf, r_entries = of_nat (length (lf_extents leaf)),
     r_checksum = lf_checksum leaf\<rparr>"

definition cryexts_refresh_extent_tree_v2_refs ::
    "cryexts_extent_leaf_cache list \<Rightarrow> cryexts_extent_root_ref list" where
  "cryexts_refresh_extent_tree_v2_refs leaves =
     map leaf_ref leaves @ replicate (CRYEXTS_EXTENT_TREE_ROOT_REFS - length leaves) zero_ref"

section \<open>Adding an extent\<close>

text \<open>A block for a leaf or for the overflow, allocated and cleared.\<close>

definition alloc_extent_block :: "u64 iact" where
  "alloc_extent_block = (\<lambda>(i, st).
     bindE (onfs (cryexts_alloc_block_goal (ii_alloc_hint_block (info i))
              (ii_alloc_goal_group (info i))))
       (\<lambda>block. bindE (zero_or_free block) (\<lambda>_. retE block)) (i, st))"

definition new_extent :: "u64 \<Rightarrow> u64 \<Rightarrow> u32 \<Rightarrow> cryexts_extent" where
  "new_extent logical physical len =
     \<lparr>e_logical_start = logical, e_physical_start = physical, e_length = len, e_flags = 0\<rparr>"

text \<open>The first entry that starts after \<open>logical\<close>: its leaf and its index there.\<close>

fun find_slot :: "u64 \<Rightarrow> cryexts_extent_leaf_cache list \<Rightarrow> (nat \<times> nat) option" where
  "find_slot logical [] = None"
| "find_slot logical (leaf # leaves) =
     (case List.find (\<lambda>k. logical < e_logical_start (lf_extents leaf ! k))
             [0..<length (lf_extents leaf)] of
        Some k \<Rightarrow> Some (0, k)
      | None \<Rightarrow> map_option (\<lambda>(l, k). (Suc l, k)) (find_slot logical leaves))"

definition insert_at :: "nat \<Rightarrow> 'a \<Rightarrow> 'a list \<Rightarrow> 'a list" where
  "insert_at k x xs = take k xs @ x # drop k xs"

definition upd_leaf ::
    "nat \<Rightarrow> (cryexts_extent list \<Rightarrow> cryexts_extent list) \<Rightarrow> cryexts_inode_info \<Rightarrow>
     cryexts_inode_info" where
  "upd_leaf l f b = b\<lparr>ii_extent_leaves := (ii_extent_leaves b)[l :=
     (ii_extent_leaves b ! l)\<lparr>lf_extents := f (lf_extents (ii_extent_leaves b ! l))\<rparr>]\<rparr>"

text \<open>The label \<open>found_slot\<close> for a leaf that exists.\<close>

definition insert_extent_slot :: "nat \<Rightarrow> nat \<Rightarrow> u64 \<Rightarrow> u64 \<Rightarrow> unit iact" where
  "insert_extent_slot l k logical physical = (\<lambda>(i, st).
     if CRYEXTS_EXTENTS_PER_BLOCK \<le> length (lf_extents (ii_extent_leaves (info i) ! l))
     then (Inl ENOSPC, (i, st))
     else bindE (onfs kmalloc) (\<lambda>_.
       oni (upd_info (upd_leaf l (insert_at k (new_extent logical physical 1))))) (i, st))"

text \<open>A new leaf with one extent; its block is given back if there is no memory.\<close>

definition append_new_leaf :: "u64 \<Rightarrow> u64 \<Rightarrow> unit iact" where
  "append_new_leaf logical physical = (\<lambda>(i, st).
     if CRYEXTS_EXTENT_TREE_ROOT_REFS \<le> length (ii_extent_leaves (info i))
     then (Inl ENOSPC, (i, st))
     else bindE alloc_extent_block (\<lambda>block.
       bindE (onfs (on_errE kmalloc (\<lambda>_. ignoreE (cryexts_free_block block)))) (\<lambda>_.
         oni (upd_info (\<lambda>b. b\<lparr>ii_extent_leaves := ii_extent_leaves b @
           [\<lparr>lf_block = block, lf_checksum = 0,
             lf_extents = [new_extent logical physical 1]\<rparr>]\<rparr>)))) (i, st))"

definition cryexts_append_extent_entry_v2 :: "u64 \<Rightarrow> u64 \<Rightarrow> unit iact" where
  "cryexts_append_extent_entry_v2 logical physical = (\<lambda>(i, st).
     let leaves = ii_extent_leaves (info i) in
     case find_slot logical leaves of
       Some (l, k) \<Rightarrow> insert_extent_slot l k logical physical (i, st)
     | None \<Rightarrow>
         if leaves = [] \<or> CRYEXTS_EXTENTS_PER_BLOCK \<le> length (lf_extents (last leaves))
         then append_new_leaf logical physical (i, st)
         else insert_extent_slot (length leaves - 1) (length (lf_extents (last leaves)))
                logical physical (i, st))"

text \<open>An overflow block is allocated unless there is one.\<close>

definition cryexts_alloc_extent_overflow_block :: "unit iact" where
  "cryexts_alloc_extent_overflow_block = (\<lambda>(i, st).
     if ii_extent_overflow_block (info i) \<noteq> 0 then (Inr (), (i, st))
     else bindE alloc_extent_block (\<lambda>block.
       oni (upd_info (\<lambda>b. b\<lparr>ii_extent_overflow_block := block\<rparr>))) (i, st))"

definition cryexts_append_extent_entry :: "u64 \<Rightarrow> u64 \<Rightarrow> unit iact" where
  "cryexts_append_extent_entry logical physical = (\<lambda>(i, st).
     let b = info i; e = new_extent logical physical 1 in
     if cryexts_extent_tree_v2_inode b then cryexts_append_extent_entry_v2 logical physical (i, st)
     else if length (ii_extents b) < ii_extent_inline_max b
     then (Inr (), (upd_info (\<lambda>b. b\<lparr>ii_extents := ii_extents b @ [e]\<rparr>) i, st))
     else if CRYEXTS_EXTENTS_PER_BLOCK \<le> length (ii_overflow_extents b)
     then (Inl ENOSPC, (i, st))
     else bindE cryexts_alloc_extent_overflow_block (\<lambda>_. bindE (onfs kmalloc) (\<lambda>_.
            oni (upd_info (\<lambda>b. b\<lparr>ii_overflow_extents := ii_overflow_extents b @ [e]\<rparr>)))) (i, st))"

section \<open>Growing the last extent\<close>

text \<open>The result is the block, or \<open>None\<close> if the last extent cannot be extended.\<close>

definition cryexts_try_merge_last_extent :: "u64 \<Rightarrow> u64 option iact" where
  "cryexts_try_merge_last_extent logical = (\<lambda>(i, st).
     let b = info i; k = cryexts_extent_total_entries b - 1 in
     if cryexts_extent_total_entries b = 0 then (Inr None, (i, st))
     else (case cryexts_extent_entry b k of
       None \<Rightarrow> (Inr None, (i, st))
     | Some e \<Rightarrow>
         let next = e_physical_start e + ucast (e_length e) in
         if logical \<noteq> e_logical_start e + ucast (e_length e) \<or>
            CRYEXTS_MAX_EXTENT_BLOCKS \<le> unat (e_length e) then (Inr None, (i, st))
         else bindE (onfs (cryexts_alloc_block_goal next (ii_alloc_goal_group b)))
           (\<lambda>physical (i, st).
             if physical \<noteq> next
             then bindE (onfs (cryexts_free_block physical)) (\<lambda>_. retE None) (i, st)
             else bindE (zero_or_free physical) (\<lambda>_ (i, st).
               (Inr (Some physical),
                (upd_info (\<lambda>b. cryexts_update_alloc_hint st physical
                   (upd_extent k (\<lambda>e. e\<lparr>e_length := e_length e + 1\<rparr>) b)) i, st))) (i, st)) (i, st)))"

end
