(* ===== verification/BlockMap.thy ===== *)
theory BlockMap
  imports Extents
begin

text \<open>
  From logical to physical blocks (\<open>inode.c\<close>): the lookup, the lookup that allocates, and what
  frees the blocks from some point on or of a hole.  A file has extents, or twelve direct blocks
  and one indirect block of 512 entries.
\<close>

section \<open>Sizes and counts\<close>

definition cryexts_inode_first_block :: "inode \<Rightarrow> u64" where
  "cryexts_inode_first_block i =
     (case i_private i of None \<Rightarrow> 0
      | Some b \<Rightarrow>
          if ii_use_extents b \<and> cryexts_extent_tree_v2_inode b \<and> ii_extent_leaves b \<noteq> [] \<and>
             lf_extents (hd (ii_extent_leaves b)) \<noteq> []
          then e_physical_start (hd (lf_extents (hd (ii_extent_leaves b))))
          else if ii_use_extents b \<and> ii_extents b \<noteq> [] then e_physical_start (hd (ii_extents b))
          else ii_direct b ! 0)"

text \<open>The entries of an indirect block.\<close>

definition indirect_entries :: "bytes \<Rightarrow> u64 list" where
  "indirect_entries buf = map (\<lambda>k. get64 buf (8 * k)) [0..<CRYEXTS_INDIRECT_BLOCKS]"

definition count_used :: "u64 list \<Rightarrow> u32" where
  "count_used bs = of_nat (length (filter (\<lambda>b. b \<noteq> 0) bs))"

text \<open>A block is read for its contents; the caller goes on without it if that fails.\<close>

definition try_read :: "u64 \<Rightarrow> (fs, bytes option) act" where
  "try_read block = (\<lambda>st. case cryexts_read_file_block block st of
     (Inl _, st) \<Rightarrow> (Inr None, st) | (Inr buf, st) \<Rightarrow> (Inr (Some buf), st))"

definition cryexts_inode_block_count :: "u32 iact" where
  "cryexts_inode_block_count = (\<lambda>(i, st).
     case i_private i of None \<Rightarrow> (Inr 0, (i, st))
     | Some b \<Rightarrow>
         if ii_use_extents b
         then (let count = sum_list (map e_length (extent_list b)) in
               (Inr (if cryexts_extent_tree_v2_inode b
                     then count + of_nat (length (ii_extent_leaves b))
                     else if ii_extent_overflow_block b \<noteq> 0 then count + 1 else count), (i, st)))
         else (let count = count_used (ii_direct b) in
               if S_ISDIR (i_mode i) \<and> has_flag (ii_inode_flags b) CRYEXTS_INODE_FLAG_DIR_INDEX \<and>
                  ii_dir_index_block b \<noteq> 0 then (Inr (count + 1), (i, st))
               else if ii_indirect_block b = 0 then (Inr count, (i, st))
               else bindE (onfs (try_read (ii_indirect_block b))) (\<lambda>r. retE (case r of
                      None \<Rightarrow> count + 1
                    | Some buf \<Rightarrow> count + 1 + count_used (indirect_entries buf))) (i, st)))"

definition cryexts_inode_block_sectors :: "u64 iact" where
  "cryexts_inode_block_sectors =
     bindE cryexts_inode_block_count (\<lambda>n. retE (ucast (n * 8)))"

text \<open>\<open>inode->i_blocks = cryexts_inode_block_sectors(inode)\<close>.\<close>

definition update_sectors :: "unit iact" where
  "update_sectors = bindE cryexts_inode_block_sectors (\<lambda>n. oni (\<lambda>i. i\<lparr>i_blocks := n\<rparr>))"

definition cryexts_regular_file_max_size :: u64 where
  "cryexts_regular_file_max_size = of_nat CRYEXTS_FILE_BLOCKS_MAX * of_nat BLOCK_SIZE"

definition cryexts_inode_uses_extents :: "inode \<Rightarrow> bool" where
  "cryexts_inode_uses_extents i \<longleftrightarrow>
     (case i_private i of None \<Rightarrow> False | Some b \<Rightarrow> ii_use_extents b)"

definition cryexts_regular_file_max_size_for_inode :: "inode \<Rightarrow> u64" where
  "cryexts_regular_file_max_size_for_inode i =
     (if cryexts_inode_uses_extents i
      then cryexts_extent_file_blocks_max_for_blocks (info i) * of_nat BLOCK_SIZE
      else cryexts_regular_file_max_size)"

definition cryexts_symlink_size_limit :: u64 where
  "cryexts_symlink_size_limit = cryexts_regular_file_max_size - 1"

definition cryexts_dir_block_count :: "inode \<Rightarrow> u32" where
  "cryexts_dir_block_count i =
     (if i_size i = 0 then 0
      else ucast ((i_size i + (of_nat BLOCK_SIZE - 1)) div of_nat BLOCK_SIZE))"

section \<open>Looking up a block\<close>

definition extent_covers :: "u64 \<Rightarrow> cryexts_extent \<Rightarrow> bool" where
  "extent_covers logical e \<longleftrightarrow>
     \<not> (logical < e_logical_start e \<or> e_logical_start e + ucast (e_length e) \<le> logical)"

definition extent_block :: "u64 \<Rightarrow> cryexts_extent \<Rightarrow> u64" where
  "extent_block logical e = e_physical_start e + (logical - e_logical_start e)"

definition find_extent :: "cryexts_inode_info \<Rightarrow> u64 \<Rightarrow> u64 option" where
  "find_extent b logical =
     map_option (extent_block logical) (List.find (extent_covers logical) (extent_list b))"

definition cryexts_inode_block_at :: "u32 \<Rightarrow> u64 iact" where
  "cryexts_inode_block_at index = (\<lambda>(i, st).
     case i_private i of None \<Rightarrow> (Inr 0, (i, st))
     | Some b \<Rightarrow>
         if ii_use_extents b
         then (Inr (case find_extent b (ucast index) of None \<Rightarrow> 0 | Some p \<Rightarrow> p), (i, st))
         else if unat index < CRYEXTS_DIRECT_BLOCKS then (Inr (ii_direct b ! unat index), (i, st))
         else if ii_indirect_block b = 0 then (Inr 0, (i, st))
         else (let k = unat index - CRYEXTS_DIRECT_BLOCKS in
               if CRYEXTS_INDIRECT_BLOCKS \<le> k then (Inr 0, (i, st))
               else bindE (onfs (try_read (ii_indirect_block b))) (\<lambda>r. retE (case r of
                      None \<Rightarrow> 0 | Some buf \<Rightarrow> indirect_entries buf ! k)) (i, st)))"

text \<open>The blocks of a file in turn, for the allocation hint of a file without extents.\<close>

fun last_direct :: "u32 list \<Rightarrow> u64 \<Rightarrow> u64 iact" where
  "last_direct [] block = retE block"
| "last_direct (k # ks) block =
     bindE (cryexts_inode_block_at k) (\<lambda>b. last_direct ks (if b \<noteq> 0 then b else block))"

definition last_extent_block :: "cryexts_extent list \<Rightarrow> u64" where
  "last_extent_block es = fold (\<lambda>e block.
     if e_physical_start e \<noteq> 0 \<and> e_length e \<noteq> 0
     then e_physical_start e + ucast (e_length e) - 1 else block) es 0"

definition cryexts_init_inode_alloc_hint :: "unit iact" where
  "cryexts_init_inode_alloc_hint = (\<lambda>(i, st).
     let first = cryexts_inode_first_block i;
         i = upd_info (\<lambda>b. cryexts_reset_reservation (b\<lparr>ii_alloc_hint_block := 0,
               ii_alloc_goal_group := (if first \<noteq> 0 then cryexts_block_group_of st first else - 1)\<rparr>)) i;
         count = cryexts_dir_block_count i;
         count = (if count = 0 \<and> S_ISREG (i_mode i)
                  then ucast ((i_size i + (of_nat BLOCK_SIZE - 1)) div of_nat BLOCK_SIZE) else count)
     in bindE (if ii_use_extents (info i) then retE (last_extent_block (extent_list (info i)))
               else last_direct (map of_nat [0..<unat count]) 0)
          cryexts_set_inode_alloc_hint (i, st))"

section \<open>Looking up or allocating a block\<close>

text \<open>A data block: allocated for the inode and cleared.\<close>

definition alloc_zeroed :: "u64 iact" where
  "alloc_zeroed = bindE cryexts_alloc_data_block_for_inode (\<lambda>physical.
     bindE (zero_or_free physical) (\<lambda>_. retE physical))"

definition resolve_extent :: "u64 \<Rightarrow> bool \<Rightarrow> u64 iact" where
  "resolve_extent logical create = (\<lambda>(i, st).
     if cryexts_extent_file_blocks_max_for_blocks (info i) \<le> logical then (Inl EFBIG, (i, st))
     else (case find_extent (info i) logical of
       Some p \<Rightarrow> (Inr p, (i, st))
     | None \<Rightarrow>
         if \<not> create then (Inr 0, (i, st))
         else bindE (cryexts_try_merge_last_extent logical) (\<lambda>merged.
           case merged of Some physical \<Rightarrow> retE physical
           | None \<Rightarrow> bindE alloc_zeroed (\<lambda>physical.
               bindE (on_errE (cryexts_append_extent_entry logical physical)
                 (\<lambda>_ (i, st). (i, ignoreE (cryexts_free_block physical) st))) (\<lambda>_.
               bindE (cryexts_set_inode_alloc_hint physical) (\<lambda>_. retE physical)))) (i, st)))"

definition resolve_direct :: "nat \<Rightarrow> bool \<Rightarrow> u64 iact" where
  "resolve_direct k create = (\<lambda>(i, st).
     if ii_direct (info i) ! k = 0 \<and> create
     then bindE alloc_zeroed (\<lambda>physical.
            bindE (oni (upd_info (\<lambda>b. b\<lparr>ii_direct := (ii_direct b)[k := physical]\<rparr>))) (\<lambda>_.
            bindE (cryexts_set_inode_alloc_hint physical) (\<lambda>_. retE physical))) (i, st)
     else (Inr (ii_direct (info i) ! k), (i, st)))"

text \<open>The indirect block itself; it is taken back if its buffer cannot be had.\<close>

definition alloc_indirect :: "unit iact" where
  "alloc_indirect = (\<lambda>(i, st).
     bindE (onfs (cryexts_alloc_block_goal (ii_alloc_hint_block (info i))
              (ii_alloc_goal_group (info i))))
       (\<lambda>physical. bindE (zero_or_free physical)
          (\<lambda>_. oni (upd_info (\<lambda>b. b\<lparr>ii_indirect_block := physical\<rparr>)))) (i, st))"

definition resolve_indirect :: "nat \<Rightarrow> bool \<Rightarrow> u64 iact" where
  "resolve_indirect k create =
     bindE (\<lambda>(i, st). if ii_indirect_block (info i) \<noteq> 0 then (Inr (), (i, st))
                      else alloc_indirect (i, st)) (\<lambda>_ (i, st).
       let ib = ii_indirect_block (info i) in
       bindE (onfs (cryexts_read_file_block ib)) (\<lambda>buf.
         let physical = indirect_entries buf ! k in
         if physical = 0 \<and> create
         then bindE alloc_zeroed (\<lambda>physical.
                bindE (onfs (modE (\<lambda>st. mark_buffer_dirty ib
                         (set_bdata ib (put_bytes (8 * k) (le64 physical) (bdata st ib)) st)))) (\<lambda>_.
                bindE (cryexts_set_inode_alloc_hint physical) (\<lambda>_. retE physical)))
         else retE physical) (i, st))"

definition cryexts_resolve_block :: "u64 \<Rightarrow> bool \<Rightarrow> u64 iact" where
  "cryexts_resolve_block logical create = (\<lambda>(i, st).
     case i_private i of None \<Rightarrow> (Inl EFBIG, (i, st))
     | Some b \<Rightarrow>
         if ii_use_extents b then resolve_extent logical create (i, st)
         else if CRYEXTS_FILE_BLOCKS_MAX \<le> unat logical then (Inl EFBIG, (i, st))
         else if unat logical < CRYEXTS_DIRECT_BLOCKS
         then resolve_direct (unat logical) create (i, st)
         else (let k = unat logical - CRYEXTS_DIRECT_BLOCKS in
               if CRYEXTS_INDIRECT_BLOCKS \<le> k then (Inl EFBIG, (i, st))
               else if ii_indirect_block b = 0 \<and> \<not> create then (Inr 0, (i, st))
               else resolve_indirect k create (i, st)))"

end
