(* ===== verification/Crypto.thy ===== *)
theory Crypto
  imports BlockMap
begin

text \<open>
  Encryption (\<open>crypto.c\<close>): key derivation, the check of the mount key, the table of policies and
  the encryption of the data blocks of an inode.  The cipher itself is the kernel's \<open>ctr(aes)\<close>:
  it is the argument \<open>cipher\<close> of the definitions, a function of key, initial counter block and
  data.  A transform (\<open>struct crypto_skcipher *\<close>) is the key that was set on it.  The calls into
  the kernel's crypto interface may fail like the accesses to the device; which error number they
  return is not fixed, and the model takes \<open>ENOMEM\<close> for allocating a transform, \<open>EINVAL\<close> for
  setting its key and \<open>EIO\<close> for using it.

  Strings are byte lists without the final zero; a null pointer is \<open>None\<close>.
\<close>

section \<open>State\<close>

definition CRYEXTS_KEY_MAX :: nat where [const_simps]: "CRYEXTS_KEY_MAX = 64"
definition CRYEXTS_DERIVED_KEY_LEN :: nat where [const_simps]: "CRYEXTS_DERIVED_KEY_LEN = 32"
definition CRYEXTS_POLICY_TABLE_MAGIC :: u32 where
  [const_simps]: "CRYEXTS_POLICY_TABLE_MAGIC = 0x50544c31"
definition CRYEXTS_POLICY_TABLE_HEADER_BYTES :: nat where
  [const_simps]: "CRYEXTS_POLICY_TABLE_HEADER_BYTES = 32"
definition POLICY_ENTRY_BYTES :: nat where [const_simps]: "POLICY_ENTRY_BYTES = 16"
definition CRYEXTS_POLICY_TABLE_MAX_ENTRIES :: nat where
  [const_simps]: "CRYEXTS_POLICY_TABLE_MAX_ENTRIES =
     (BLOCK_SIZE - CRYEXTS_POLICY_TABLE_HEADER_BYTES) div POLICY_ENTRY_BYTES"

record cryexts_policy_runtime =
  p_policy_id :: u32
  p_flags :: u32
  p_context :: bytes
  p_derived_key :: bytes
  p_skcipher :: "bytes option"

record crypt_info =
  c_encrypted :: bool
  c_key_verifier :: u32
  c_encryption_flags :: u32
  c_encryption_kdf :: u32
  c_encryption_alg :: u32
  c_salt :: bytes
  c_derived_key :: bytes
  c_derived_key_len :: u32
  c_policies :: "cryexts_policy_runtime list option"
  c_skcipher :: "bytes option"

type_synonym 'a cact = "(crypt_info \<times> fs, 'a) act"
type_synonym cipher = "bytes \<Rightarrow> bytes \<Rightarrow> bytes \<Rightarrow> bytes"

definition onfs_c :: "(fs, 'a) act \<Rightarrow> 'a cact" where
  "onfs_c m = (\<lambda>(c, st). case m st of (r, st') \<Rightarrow> (r, (c, st')))"

section \<open>Key derivation\<close>

definition cryexts_fnv1a_bytes :: "bytes \<Rightarrow> u32 \<Rightarrow> u32" where
  "cryexts_fnv1a_bytes data seed = fold fnv_step data seed"

definition cryexts_hash_bytes :: "bytes \<Rightarrow> u32" where
  "cryexts_hash_bytes data = cryexts_fnv1a_bytes data FNV_OFFSET"

definition cryexts_salt_is_zero :: "bytes \<Rightarrow> bool" where
  "cryexts_salt_is_zero salt \<longleftrightarrow> list_all (\<lambda>b. b = 0) salt"

definition round_seed :: "nat \<Rightarrow> u32" where
  "round_seed n = FNV_OFFSET XOR (0x9e3779b9 * (of_nat n + 1))"

definition cryexts_derive_salted_key :: "bytes \<Rightarrow> bytes \<Rightarrow> bytes" where
  "cryexts_derive_salted_key key salt =
     concat (map (\<lambda>n.
       let h = cryexts_fnv1a_bytes key (round_seed n);
           h = cryexts_fnv1a_bytes salt (h XOR 0x85ebca6b);
           h = cryexts_fnv1a_bytes [of_nat n] (h XOR 0xc2b2ae35)
       in le32 h) [0..<CRYEXTS_DERIVED_KEY_LEN div 4])"

definition cryexts_key_verifier :: "bytes \<Rightarrow> u32" where
  "cryexts_key_verifier derived = cryexts_hash_bytes derived"

definition cryexts_derive_policy_key :: "bytes \<Rightarrow> u32 \<Rightarrow> bytes \<Rightarrow> bytes" where
  "cryexts_derive_policy_key master policy_id context =
     concat (map (\<lambda>n.
       let h = cryexts_fnv1a_bytes master (round_seed n);
           h = cryexts_fnv1a_bytes context (h XOR 0x85ebca6b);
           h = cryexts_fnv1a_bytes (le32 policy_id) (h XOR 0xc2b2ae35);
           h = cryexts_fnv1a_bytes [of_nat n] (h XOR 0x27d4eb2f)
       in le32 h) [0..<CRYEXTS_DERIVED_KEY_LEN div 4])"

section \<open>Counter mode\<close>

definition cryexts_store_be64 :: "u64 \<Rightarrow> bytes" where
  "cryexts_store_be64 v = rev (le64 v)"

definition cryexts_build_ctr_iv :: "bytes \<Rightarrow> u64 \<Rightarrow> u64 \<Rightarrow> bytes" where
  "cryexts_build_ctr_iv salt block pos =
     take 8 salt @ cryexts_store_be64 (block * (of_nat BLOCK_SIZE div 16) + pos div 16)"

definition cryexts_crypt_buffer_with_tfm ::
    "cipher \<Rightarrow> bytes option \<Rightarrow> bytes \<Rightarrow> bytes \<Rightarrow> u64 \<Rightarrow> u64 \<Rightarrow> (fs, bytes) act" where
  "cryexts_crypt_buffer_with_tfm cipher tfm salt buf block pos =
     (case tfm of None \<Rightarrow> failE EINVAL
      | Some key \<Rightarrow> bindE kmalloc (\<lambda>_. bindE (io_step EIO) (\<lambda>_.
          retE (cipher key (cryexts_build_ctr_iv salt block pos) buf))))"

section \<open>Policies\<close>

definition cryexts_policy_table_enabled :: "fs \<Rightarrow> bool" where
  "cryexts_policy_table_enabled st \<longleftrightarrow>
     has_flag (sb_features_incompat (s_disk_sb st)) CRYEXTS_FEATURE_INCOMPAT_POLICY_TABLE \<and>
     sb_policy_table_block (s_disk_sb st) \<noteq> 0"

definition cryexts_find_policy :: "crypt_info \<Rightarrow> u32 \<Rightarrow> cryexts_policy_runtime option" where
  "cryexts_find_policy c policy_id =
     (case c_policies c of None \<Rightarrow> None
      | Some ps \<Rightarrow> List.find (\<lambda>p. p_policy_id p = policy_id) ps)"

definition cryexts_policy_exists :: "crypt_info \<Rightarrow> fs \<Rightarrow> u32 \<Rightarrow> bool" where
  "cryexts_policy_exists c st policy_id \<longleftrightarrow>
     \<not> cryexts_policy_table_enabled st \<or> cryexts_find_policy c policy_id \<noteq> None"

section \<open>The mount key\<close>

definition cryexts_init_crypto_transform :: "unit cact" where
  "cryexts_init_crypto_transform = (\<lambda>(c, st).
     if \<not> c_encrypted c then (Inr (), (c, st))
     else if c_skcipher c \<noteq> None then (Inr (), (c, st))
     else if c_encryption_alg c \<noteq> CRYEXTS_ALG_AES_CTR then (Inl EINVAL, (c, st))
     else bindE (onfs_c kmalloc) (\<lambda>_. bindE (onfs_c (io_step EINVAL)) (\<lambda>_ (c, st).
            (Inr (), (c\<lparr>c_skcipher := Some (take (min (unat (c_derived_key_len c)) 32)
                                              (c_derived_key c))\<rparr>, st)))) (c, st))"

text \<open>\<open>"key="\<close> and the comma, in ASCII.\<close>

definition key_prefix :: bytes where "key_prefix = [107, 101, 121, 61]"

function cryexts_find_mount_key :: "bytes option \<Rightarrow> bytes \<Rightarrow> bytes option" where
  "cryexts_find_mount_key mount_key p =
     (if p = [] then mount_key
      else if take 4 p = key_prefix then Some (drop 4 p)
      else (case dropWhile (\<lambda>b. b \<noteq> 44) p of [] \<Rightarrow> mount_key
            | comma # rest \<Rightarrow> cryexts_find_mount_key mount_key rest))"
  by pat_completeness auto

termination
proof (relation "measure (length \<circ> snd)")
  fix p :: bytes and comma rest
  assume "dropWhile (\<lambda>b. b \<noteq> 44) p = comma # rest"
  then have "Suc (length rest) \<le> length p"
    using length_dropWhile_le [of "\<lambda>b. b \<noteq> 44" p] by simp
  then show "((m, rest), (m, p)) \<in> measure (length \<circ> snd)" for m :: "bytes option" by simp
qed simp

declare cryexts_find_mount_key.simps [simp del]

definition cryexts_set_encryption_key :: "bytes option \<Rightarrow> bytes option \<Rightarrow> unit cact" where
  "cryexts_set_encryption_key mount_key options = (\<lambda>(c, st).
     if \<not> c_encrypted c then (Inr (), (c, st))
     else (case (case options of None \<Rightarrow> mount_key
                 | Some p \<Rightarrow> cryexts_find_mount_key mount_key p) of
       None \<Rightarrow> (Inl EACCES, (c, st))
     | Some key \<Rightarrow>
         if key = [] then (Inl EACCES, (c, st))
         else if c_encryption_flags c \<noteq> CRYEXTS_ENC_FLAG_DATA \<or>
                 c_encryption_kdf c \<noteq> CRYEXTS_KDF_SALTED_FNV1A \<or>
                 c_encryption_alg c \<noteq> CRYEXTS_ALG_AES_CTR then (Inl EINVAL, (c, st))
         else (let word = takeWhile (\<lambda>b. b \<noteq> 44) key;
                   derived = cryexts_derive_salted_key word (c_salt c)
               in if word = [] \<or> CRYEXTS_KEY_MAX \<le> length word then (Inl EINVAL, (c, st))
                  else if cryexts_key_verifier derived \<noteq> c_key_verifier c
                  then (Inl EACCES, (c, st))
                  else cryexts_init_crypto_transform
                         (c\<lparr>c_derived_key := derived,
                            c_derived_key_len := of_nat CRYEXTS_DERIVED_KEY_LEN\<rparr>, st))))"

section \<open>Loading the policies\<close>

definition cryexts_unload_policy_table :: "crypt_info \<Rightarrow> crypt_info" where
  "cryexts_unload_policy_table c = c\<lparr>c_policies := None\<rparr>"

definition policy_entry :: "bytes \<Rightarrow> nat \<Rightarrow> cryexts_policy_runtime" where
  "policy_entry pt k =
     (let off = CRYEXTS_POLICY_TABLE_HEADER_BYTES + POLICY_ENTRY_BYTES * k in
      \<lparr>p_policy_id = get32 pt off, p_flags = get32 pt (off + 4), p_context = get_bytes pt (off + 8) 8,
       p_derived_key = [], p_skcipher = None\<rparr>)"

definition cryexts_init_policy_transform ::
    "cryexts_policy_runtime \<Rightarrow> (fs, cryexts_policy_runtime) act" where
  "cryexts_init_policy_transform p =
     bindE kmalloc (\<lambda>_. bindE (io_step EINVAL) (\<lambda>_.
       retE (p\<lparr>p_skcipher := Some (p_derived_key p)\<rparr>)))"

text \<open>The loop over the entries; \<open>done\<close> are the policies before the current one.\<close>

fun load_policies ::
    "bool \<Rightarrow> bytes \<Rightarrow> cryexts_policy_runtime list \<Rightarrow> cryexts_policy_runtime list \<Rightarrow>
     (fs, cryexts_policy_runtime list) act" where
  "load_policies encrypted master acc [] = retE acc"
| "load_policies encrypted master acc (p # ps) =
     (if list_ex (\<lambda>q. p_policy_id q = p_policy_id p) acc then failE EUCLEAN
      else if \<not> encrypted then load_policies encrypted master (acc @ [p]) ps
      else bindE (cryexts_init_policy_transform
                    (p\<lparr>p_derived_key :=
                       cryexts_derive_policy_key master (p_policy_id p) (p_context p)\<rparr>))
             (\<lambda>p. load_policies encrypted master (acc @ [p]) ps))"

definition cryexts_load_policy_table :: "unit cact" where
  "cryexts_load_policy_table = (\<lambda>(c, st).
     if \<not> cryexts_policy_table_enabled st then (Inr (), (c, st))
     else if c_policies c \<noteq> None then (Inr (), (c, st))
     else (let block = sb_policy_table_block (s_disk_sb st) in
       bindE (onfs_c (cryexts_read_file_block block)) (\<lambda>pt (c, st).
         let count = unat (get16 pt 4) in
         if \<not> cryexts_policy_table_checksum_valid st block pt then (Inl EUCLEAN, (c, st))
         else if get32 pt 0 \<noteq> CRYEXTS_POLICY_TABLE_MAGIC \<or> count = 0 \<or>
                 CRYEXTS_POLICY_TABLE_MAX_ENTRIES < count then (Inl EUCLEAN, (c, st))
         else bindE (onfs_c kmalloc) (\<lambda>_ (c, st).
           bindE (onfs_c (load_policies (c_encrypted c)
                    (take (unat (c_derived_key_len c)) (c_derived_key c)) []
                    (map (policy_entry pt) [0..<count]))) (\<lambda>ps (c, st).
             let c = c\<lparr>c_policies := Some ps\<rparr> in
             if \<not> cryexts_policy_exists c st (sb_default_encryption_policy (s_disk_sb st))
             then (Inl EUCLEAN, (cryexts_unload_policy_table c, st)) else (Inr (), (c, st)))
             (c, st)) (c, st)) (c, st)))"

section \<open>Data blocks\<close>

definition cryexts_crypt_buffer ::
    "cipher \<Rightarrow> crypt_info \<Rightarrow> bytes \<Rightarrow> u64 \<Rightarrow> u64 \<Rightarrow> (fs, bytes) act" where
  "cryexts_crypt_buffer cipher c buf block pos =
     (if \<not> c_encrypted c then retE buf
      else if c_derived_key_len c = 0 then failE EACCES
      else if c_encryption_alg c \<noteq> CRYEXTS_ALG_AES_CTR \<or> c_skcipher c = None then failE EUCLEAN
      else cryexts_crypt_buffer_with_tfm cipher (c_skcipher c) (c_salt c) buf block pos)"

definition cryexts_policy_io_enabled :: "crypt_info \<Rightarrow> inode \<Rightarrow> fs \<Rightarrow> bool" where
  "cryexts_policy_io_enabled c i st \<longleftrightarrow>
     c_encrypted c \<and> cryexts_policy_table_enabled st \<and> (S_ISREG (i_mode i) \<or> S_ISLNK (i_mode i))"

definition cryexts_inode_policy_id :: "inode \<Rightarrow> u32" where
  "cryexts_inode_policy_id i =
     (case i_private i of None \<Rightarrow> 0 | Some b \<Rightarrow> ii_encryption_policy_id b)"

definition cryexts_set_inode_policy_id :: "u32 \<Rightarrow> inode \<Rightarrow> inode res" where
  "cryexts_set_inode_policy_id policy_id i =
     (if i_private i = None then Inl EIO
      else Inr (upd_info (\<lambda>b. b\<lparr>ii_encryption_policy_id := policy_id\<rparr>) i))"

definition cryexts_crypt_inode_buffer ::
    "cipher \<Rightarrow> crypt_info \<Rightarrow> inode \<Rightarrow> u64 \<Rightarrow> bytes \<Rightarrow> (fs, bytes) act" where
  "cryexts_crypt_inode_buffer cipher c i block buf = (\<lambda>st.
     if \<not> cryexts_policy_io_enabled c i st then cryexts_crypt_buffer cipher c buf block 0 st
     else (case cryexts_find_policy c (cryexts_inode_policy_id i) of
       None \<Rightarrow> (Inl EUCLEAN, st)
     | Some p \<Rightarrow>
         if p_skcipher p = None then (Inl EUCLEAN, st)
         else cryexts_crypt_buffer_with_tfm cipher (p_skcipher p) (c_salt c) buf block 0 st))"

definition cryexts_read_inode_block ::
    "cipher \<Rightarrow> crypt_info \<Rightarrow> inode \<Rightarrow> u64 \<Rightarrow> (fs, bytes) act" where
  "cryexts_read_inode_block cipher c i block =
     bindE (cryexts_read_file_block block) (cryexts_crypt_inode_buffer cipher c i block)"

definition cryexts_write_inode_block ::
    "cipher \<Rightarrow> crypt_info \<Rightarrow> inode \<Rightarrow> u64 \<Rightarrow> bytes \<Rightarrow> (fs, unit) act" where
  "cryexts_write_inode_block cipher c i block buf =
     bindE (if c_encrypted c
            then bindE kmalloc (\<lambda>_. cryexts_crypt_inode_buffer cipher c i block buf)
            else retE buf) (cryexts_write_file_block block)"

definition cryexts_sync_inode_block :: "u64 \<Rightarrow> (fs, unit) act" where
  "cryexts_sync_inode_block block = bindE (io_step EIO) (\<lambda>_. sync_dirty_buffer block)"

end
