(* ===== verification/CryptoSafe.thy ===== *)
theory CryptoSafe
  imports Crypto Sample
begin

text \<open>
  What encryption promises: the mount key is accepted exactly if it is the one whose verifier is
  stored, a mount that succeeded can read and write every inode whose policy exists, what was
  written to a block of an inode is what is read from it, and the counters of two blocks do not
  overlap.  The cipher is only assumed to undo itself, which is what a stream cipher does.
\<close>

section \<open>A device that works\<close>

definition no_faults :: "fs \<Rightarrow> bool" where "no_faults st \<longleftrightarrow> d_fault st = (\<lambda>_. False)"

lemma io_step_ok: "no_faults st \<Longrightarrow> io_step e st = (Inr (), st\<lparr>d_tick := Suc (d_tick st)\<rparr>)"
  by (simp add: io_step_def no_faults_def)

lemma no_faults_step [simp]:
  "no_faults (st\<lparr>d_tick := n\<rparr>) = no_faults st"
  "no_faults (set_bdata b buf st) = no_faults st"
  "no_faults (mark_buffer_dirty b st) = no_faults st"
  by (simp_all add: no_faults_def set_bdata_def mark_buffer_dirty_def)

lemma tick_bdata [simp]: "bdata (st\<lparr>d_tick := n\<rparr>) = bdata st"
  by (simp add: bdata_def fun_eq_iff)

section \<open>Reading and writing a block\<close>

text \<open>The key for the blocks of the inode is there.\<close>

definition inode_key :: "crypt_info \<Rightarrow> inode \<Rightarrow> fs \<Rightarrow> bytes option" where
  "inode_key c i st =
     (if cryexts_policy_io_enabled c i st
      then Option.bind (cryexts_find_policy c (cryexts_inode_policy_id i)) p_skcipher
      else if c_derived_key_len c = 0 \<or> c_encryption_alg c \<noteq> CRYEXTS_ALG_AES_CTR then None
      else c_skcipher c)"

definition crypt_ready :: "crypt_info \<Rightarrow> inode \<Rightarrow> fs \<Rightarrow> bool" where
  "crypt_ready c i st \<longleftrightarrow> \<not> c_encrypted c \<or> inode_key c i st \<noteq> None"

text \<open>The documented law of a stream cipher such as \<open>ctr(aes)\<close>.\<close>

definition stream_cipher :: "cipher \<Rightarrow> bool" where
  "stream_cipher cipher \<longleftrightarrow>
     (\<forall>key iv d. length (cipher key iv d) = length d \<and> cipher key iv (cipher key iv d) = d)"

definition crypt_bytes :: "cipher \<Rightarrow> crypt_info \<Rightarrow> inode \<Rightarrow> fs \<Rightarrow> u64 \<Rightarrow> bytes \<Rightarrow> bytes" where
  "crypt_bytes cipher c i st b buf =
     (if c_encrypted c
      then cipher (the (inode_key c i st)) (cryexts_build_ctr_iv (c_salt c) b 0) buf else buf)"

text \<open>A step that changes nothing but the count of device accesses.\<close>

definition ticks :: "fs \<Rightarrow> fs \<Rightarrow> bool" where "ticks a b \<longleftrightarrow> (\<exists>n. b = a\<lparr>d_tick := n\<rparr>)"

lemma ticks_refl [simp]: "ticks a a"
  unfolding ticks_def by (rule exI [where x = "d_tick a"]) simp

lemma ticks_step [simp]: "ticks a (a\<lparr>d_tick := n\<rparr>)"
  by (auto simp: ticks_def)

lemma ticks_trans: "ticks a b \<Longrightarrow> ticks b c \<Longrightarrow> ticks a c"
  by (auto simp: ticks_def)

lemma crypt_with_tfm:
  "no_faults st \<Longrightarrow> cryexts_crypt_buffer_with_tfm cipher (Some key) salt buf b pos st =
     (Inr (cipher key (cryexts_build_ctr_iv salt b pos) buf), st\<lparr>d_tick := d_tick st + 2\<rparr>)"
  by (simp add: cryexts_crypt_buffer_with_tfm_def kmalloc_def bindE_def io_step_ok retE_def)

lemma crypt_inode_buffer:
  assumes ready: "crypt_ready c i st" and ok: "no_faults st"
  shows "\<exists>n. cryexts_crypt_inode_buffer cipher c i b buf st =
    (Inr (crypt_bytes cipher c i st b buf), st\<lparr>d_tick := n\<rparr>)"
proof (cases "c_encrypted c")
  case False
  then have "cryexts_crypt_inode_buffer cipher c i b buf st =
      (Inr (crypt_bytes cipher c i st b buf), st\<lparr>d_tick := d_tick st\<rparr>)"
    by (simp add: cryexts_crypt_inode_buffer_def cryexts_policy_io_enabled_def
        cryexts_crypt_buffer_def crypt_bytes_def retE_def)
  then show ?thesis ..
next
  case True
  with ready obtain key where key: "inode_key c i st = Some key"
    by (auto simp: crypt_ready_def)
  have "cryexts_crypt_inode_buffer cipher c i b buf st =
      (Inr (crypt_bytes cipher c i st b buf), st\<lparr>d_tick := d_tick st + 2\<rparr>)"
    using True key ok
    by (auto simp: cryexts_crypt_inode_buffer_def cryexts_crypt_buffer_def crypt_bytes_def
        inode_key_def crypt_with_tfm bind_eq_Some_conv split: if_splits)
  then show ?thesis ..
qed

lemma inode_key_cong:
  "cryexts_policy_table_enabled st' = cryexts_policy_table_enabled st \<Longrightarrow>
   inode_key c i st' = inode_key c i st"
  by (simp add: inode_key_def cryexts_policy_io_enabled_def)

lemma crypt_bytes_cong:
  "inode_key c i st' = inode_key c i st \<Longrightarrow>
   crypt_bytes cipher c i st' b x = crypt_bytes cipher c i st b x"
  by (simp add: crypt_bytes_def)

lemma crypt_ready_cong:
  "inode_key c i st' = inode_key c i st \<Longrightarrow> crypt_ready c i st' = crypt_ready c i st"
  by (simp add: crypt_ready_def)

lemma policy_table_set [simp]:
  "cryexts_policy_table_enabled (st\<lparr>d_tick := n\<rparr>) = cryexts_policy_table_enabled st"
  "cryexts_policy_table_enabled (mark_buffer_dirty b st) = cryexts_policy_table_enabled st"
  "b \<noteq> 0 \<Longrightarrow> cryexts_policy_table_enabled (set_bdata b buf st) = cryexts_policy_table_enabled st"
  by (simp_all add: cryexts_policy_table_enabled_def mark_buffer_dirty_def set_bdata_def)

lemma bdata_dirty [simp]: "bdata (mark_buffer_dirty b st) = bdata st"
  by (simp add: bdata_def mark_buffer_dirty_def fun_eq_iff)

lemma inode_key_tick [simp]: "inode_key c i (st\<lparr>d_tick := n\<rparr>) = inode_key c i st"
  by (rule inode_key_cong) simp

lemma write_inode_block:
  assumes ready: "crypt_ready c i st" and ok: "no_faults st"
  shows "\<exists>n. cryexts_write_inode_block cipher c i b buf st =
    (Inr (), mark_buffer_dirty b
       (set_bdata b (crypt_bytes cipher c i st b buf) (st\<lparr>d_tick := n\<rparr>)))"
proof -
  let ?st = "st\<lparr>d_tick := Suc (d_tick st)\<rparr>"
  have eq: "crypt_bytes cipher c i ?st b buf = crypt_bytes cipher c i st b buf"
    by (rule crypt_bytes_cong) simp
  have "crypt_ready c i ?st" "no_faults ?st"
    using ready ok by (simp_all add: crypt_ready_cong [of c i ?st st])
  from crypt_inode_buffer [OF this, of cipher b buf]
  obtain n where n: "cryexts_crypt_inode_buffer cipher c i b buf ?st =
      (Inr (crypt_bytes cipher c i st b buf), st\<lparr>d_tick := n\<rparr>)"
    unfolding eq by auto
  have "cryexts_write_inode_block cipher c i b buf st =
      (Inr (), mark_buffer_dirty b (set_bdata b (crypt_bytes cipher c i st b buf)
        (st\<lparr>d_tick := if c_encrypted c then Suc n else Suc (d_tick st)\<rparr>)))"
  proof (cases "c_encrypted c")
    case True
    then show ?thesis
      using ok n by (simp add: cryexts_write_inode_block_def cryexts_write_file_block_def bindE_def
          kmalloc_def io_step_ok modE_def)
  next
    case False
    then show ?thesis
      using ok by (simp add: cryexts_write_inode_block_def cryexts_write_file_block_def bindE_def
          io_step_ok modE_def retE_def crypt_bytes_def)
  qed
  then show ?thesis ..
qed

lemma read_inode_block:
  assumes ready: "crypt_ready c i st" and ok: "no_faults st"
  shows "\<exists>n. cryexts_read_inode_block cipher c i b st =
    (Inr (crypt_bytes cipher c i st b (bdata st b)), st\<lparr>d_tick := n\<rparr>)"
proof -
  let ?st = "st\<lparr>d_tick := Suc (d_tick st)\<rparr>"
  have eq: "crypt_bytes cipher c i ?st b x = crypt_bytes cipher c i st b x" for x
    by (rule crypt_bytes_cong) simp
  have "crypt_ready c i ?st" "no_faults ?st"
    using ready ok by (simp_all add: crypt_ready_cong [of c i ?st st])
  from crypt_inode_buffer [OF this, of cipher b "bdata st b"]
  obtain n where "cryexts_crypt_inode_buffer cipher c i b (bdata st b) ?st =
      (Inr (crypt_bytes cipher c i st b (bdata st b)), st\<lparr>d_tick := n\<rparr>)"
    unfolding eq by auto
  then have "cryexts_read_inode_block cipher c i b st =
    (Inr (crypt_bytes cipher c i st b (bdata st b)), st\<lparr>d_tick := n\<rparr>)"
    using ok by (simp add: cryexts_read_inode_block_def cryexts_read_file_block_def bindE_def
        io_step_ok getE_def)
  then show ?thesis ..
qed

lemma length_crypt_bytes:
  "stream_cipher cipher \<Longrightarrow> length (crypt_bytes cipher c i st b buf) = length buf"
  by (simp add: crypt_bytes_def stream_cipher_def)

lemma crypt_twice:
  "stream_cipher cipher \<Longrightarrow> crypt_bytes cipher c i st b (crypt_bytes cipher c i st b buf) = buf"
  by (simp add: crypt_bytes_def stream_cipher_def)

text \<open>C34: On a working device with the key of the inode loaded, writing a block
  of an inode succeeds, reading it back succeeds and returns what was written, whatever stream
  cipher is used and with or without encryption, and no other block of the file system changes.\<close>

theorem block_data_roundtrip:
  assumes "stream_cipher cipher" and "crypt_ready c i st" and "no_faults st"
    and "length buf = BLOCK_SIZE" and "b \<noteq> 0"
  shows "\<exists>st' n. cryexts_write_inode_block cipher c i b buf st = (Inr (), st') \<and>
    cryexts_read_inode_block cipher c i b st' = (Inr buf, st'\<lparr>d_tick := n\<rparr>) \<and>
    (\<forall>b'. b' = b \<or> bdata st' b' = bdata st b')"
proof -
  let ?data = "crypt_bytes cipher c i st b buf"
  obtain k where w: "cryexts_write_inode_block cipher c i b buf st =
      (Inr (), mark_buffer_dirty b (set_bdata b ?data (st\<lparr>d_tick := k\<rparr>)))"
    using write_inode_block [OF assms(2,3)] by blast
  define st' where "st' = mark_buffer_dirty b (set_bdata b ?data (st\<lparr>d_tick := k\<rparr>))"
  have key: "inode_key c i st' = inode_key c i st"
    using assms(5) by (intro inode_key_cong) (simp add: st'_def)
  have data: "bdata st' b = ?data"
    using assms(1,4) by (simp add: st'_def bdata_set_same length_crypt_bytes)
  have "crypt_ready c i st'" "no_faults st'"
    using assms(2,3) by (simp_all add: crypt_ready_cong [OF key]) (simp add: st'_def)
  from read_inode_block [OF this, of cipher b]
  obtain n where r: "cryexts_read_inode_block cipher c i b st' = (Inr buf, st'\<lparr>d_tick := n\<rparr>)"
    using assms(1) unfolding data crypt_bytes_cong [OF key] by (auto simp: crypt_twice)
  have "bdata st' b' = bdata st b'" if "b' \<noteq> b" for b'
    using that by (simp add: st'_def bdata_set_other)
  with w r show ?thesis unfolding st'_def by blast
qed

text \<open>Counter mode with the keystream \<open>ks\<close>, and the sample file system encrypted with it.\<close>

definition xor_cipher :: "(bytes \<Rightarrow> bytes \<Rightarrow> nat \<Rightarrow> u8) \<Rightarrow> cipher" where
  "xor_cipher ks key iv d = map (\<lambda>j. d ! j XOR ks key iv j) [0..<length d]"

lemma xor_cipher_stream: "stream_cipher (xor_cipher ks)"
  by (auto simp: stream_cipher_def xor_cipher_def xor.assoc intro!: nth_equalityI)

definition sample_key :: bytes where "sample_key = [115, 101, 99]"

definition sample_crypt :: crypt_info where
  "sample_crypt = \<lparr>c_encrypted = True,
     c_key_verifier = cryexts_key_verifier (cryexts_derive_salted_key sample_key (replicate 16 7)),
     c_encryption_flags = 1, c_encryption_kdf = 1, c_encryption_alg = 2,
     c_salt = replicate 16 7, c_derived_key = [], c_derived_key_len = 0, c_policies = None,
     c_skcipher = None\<rparr>"

definition sample_inode :: inode where
  "sample_inode = \<lparr>i_ino = 5, i_mode = 0x81A4, i_nlink = 1, i_uid = 0, i_gid = 0, i_size = 0,
     i_blocks = 0, i_atime = 0, i_ctime = 0, i_mtime = 0, i_private = None\<rparr>"

lemma sample_no_faults: "no_faults sample_fs"
  by (simp add: no_faults_def sample_fs_def)

lemma sample_policy_off: "\<not> cryexts_policy_table_enabled sample_fs"
  by (simp add: cryexts_policy_table_enabled_def sample_fs_def sample_sb_def)

lemma sample_ready:
  "crypt_ready (sample_crypt\<lparr>c_derived_key_len := 32, c_skcipher := Some key\<rparr>) i sample_fs"
  by (simp add: crypt_ready_def inode_key_def cryexts_policy_io_enabled_def sample_policy_off
      sample_crypt_def const_simps)

theorem block_data_roundtrip_witness:
  "\<exists>st' n. cryexts_write_inode_block (xor_cipher (\<lambda>_ iv j. iv ! 15 + of_nat j))
      (sample_crypt\<lparr>c_derived_key_len := 32, c_skcipher := Some [1, 2]\<rparr>) sample_inode 100
      (replicate BLOCK_SIZE 65) sample_fs = (Inr (), st') \<and>
    cryexts_read_inode_block (xor_cipher (\<lambda>_ iv j. iv ! 15 + of_nat j))
      (sample_crypt\<lparr>c_derived_key_len := 32, c_skcipher := Some [1, 2]\<rparr>) sample_inode 100 st' =
      (Inr (replicate BLOCK_SIZE 65), st'\<lparr>d_tick := n\<rparr>) \<and>
    (\<forall>b'. b' = 100 \<or> bdata st' b' = bdata sample_fs b')"
  by (rule block_data_roundtrip [OF xor_cipher_stream sample_ready sample_no_faults]) simp_all

section \<open>The counters\<close>

text \<open>The last eight bytes of an initial counter block, most significant first.\<close>

definition iv_counter :: "bytes \<Rightarrow> u64" where "iv_counter iv = le_word (rev (drop 8 iv))"

lemma iv_counter_build:
  "length salt = 16 \<Longrightarrow> iv_counter (cryexts_build_ctr_iv salt b pos) = b * 256 + pos div 16"
  by (simp add: iv_counter_def cryexts_build_ctr_iv_def cryexts_store_be64_def BLOCK_SIZE_def)

lemma counter_nat: "unat b < 2 ^ 56 \<Longrightarrow> unat (b * 256 :: u64) = unat b * 256"
  by (simp add: unat_word_ariths)

lemma digits_inj: "x * 256 + j = y * 256 + k \<Longrightarrow> j < 256 \<Longrightarrow> k < 256 \<Longrightarrow> x = y" for x y :: nat
proof -
  assume "x * 256 + j = y * 256 + k" "j < 256" "k < 256"
  moreover have "x = (x * 256 + j) div 256" using \<open>j < 256\<close> by simp
  moreover have "y = (y * 256 + k) div 256" using \<open>k < 256\<close> by simp
  ultimately show ?thesis by simp
qed

text \<open>C35: The 256 counter values that a 4096-byte block uses in 16-byte counter mode
  do not wrap, and no other block uses any of them, for every salt and all block numbers below
  2 to the 56.\<close>

theorem counters_apart:
  assumes "length salt = 16" and "unat b < 2 ^ 56" and "unat b' < 2 ^ 56" and "b \<noteq> b'"
    and "j < 256" and "k < 256"
  shows "unat (iv_counter (cryexts_build_ctr_iv salt b 0)) + j < 2 ^ 64 \<and>
    unat (iv_counter (cryexts_build_ctr_iv salt b 0)) + j \<noteq>
    unat (iv_counter (cryexts_build_ctr_iv salt b' 0)) + k"
proof -
  have c: "unat (iv_counter (cryexts_build_ctr_iv salt b 0)) = unat b * 256"
    "unat (iv_counter (cryexts_build_ctr_iv salt b' 0)) = unat b' * 256"
    using assms(1-3) by (simp_all add: iv_counter_build counter_nat)
  have "unat b \<noteq> unat b'" using assms(4) unfolding word_unat_eq_iff .
  then have "unat b * 256 + j \<noteq> unat b' * 256 + k"
    using assms(5,6) digits_inj by blast
  then show ?thesis using assms(2,5) unfolding c by auto
qed

theorem counters_apart_witness:
  "unat (iv_counter (cryexts_build_ctr_iv (replicate 16 3) 20 0)) + 255 < 2 ^ 64 \<and>
   unat (iv_counter (cryexts_build_ctr_iv (replicate 16 3) 20 0)) + 255 \<noteq>
   unat (iv_counter (cryexts_build_ctr_iv (replicate 16 3) 21 0)) + 0"
  by (rule counters_apart) simp_all

section \<open>The mount key\<close>

text \<open>Mount options as the kernel passes them: separated by commas.\<close>

fun join_options :: "bytes list \<Rightarrow> bytes" where
  "join_options [] = []"
| "join_options [opt] = opt"
| "join_options (opt # opts) = opt @ 44 # join_options opts"

definition is_key_option :: "bytes \<Rightarrow> bool" where "is_key_option opt \<longleftrightarrow> take 4 opt = key_prefix"

text \<open>The key that a mount uses: the first \<open>key=\<close> option, else the parameter of the module.\<close>

definition chosen_key :: "bytes option \<Rightarrow> bytes list \<Rightarrow> bytes option" where
  "chosen_key mount_key opts =
     (case List.find is_key_option opts of Some opt \<Rightarrow> Some (drop 4 opt)
      | None \<Rightarrow> map_option (takeWhile (\<lambda>b. b \<noteq> 44)) mount_key)"

lemma takeWhile_no_comma: "44 \<notin> set opt \<Longrightarrow> takeWhile (\<lambda>b. b \<noteq> (44 :: u8)) (opt @ 44 # rest) = opt"
  by (induction opt) auto

lemma dropWhile_no_comma: "44 \<notin> set opt \<Longrightarrow> dropWhile (\<lambda>b. b \<noteq> (44 :: u8)) (opt @ 44 # rest) = 44 # rest"
  by (induction opt) auto

lemma takeWhile_all_no_comma: "44 \<notin> set opt \<Longrightarrow> takeWhile (\<lambda>b. b \<noteq> (44 :: u8)) opt = opt"
  by (induction opt) auto

lemma dropWhile_all_no_comma: "44 \<notin> set opt \<Longrightarrow> dropWhile (\<lambda>b. b \<noteq> (44 :: u8)) opt = []"
  by (induction opt) auto

lemma is_key_option_length: "is_key_option opt \<Longrightarrow> 4 \<le> length opt"
  by (auto simp: is_key_option_def key_prefix_def dest: arg_cong [where f = length])

lemma key_prefix_app:
  assumes "44 \<notin> set opt"
  shows "take 4 (opt @ 44 # rest) = key_prefix \<longleftrightarrow> is_key_option opt"
proof (cases "length opt < 4")
  case True
  then have "take 4 (opt @ 44 # rest) = opt @ 44 # take (3 - length opt) rest"
    by (simp add: take_Cons' numeral_eq_Suc)
  moreover have "44 \<notin> set key_prefix" by (simp add: key_prefix_def)
  ultimately have "take 4 (opt @ 44 # rest) \<noteq> key_prefix"
    by (metis in_set_conv_decomp)
  moreover have "\<not> is_key_option opt" using True is_key_option_length by fastforce
  ultimately show ?thesis by simp
qed (simp add: is_key_option_def)

lemma drop_no_comma: "44 \<notin> set opt \<Longrightarrow> 44 \<notin> set (drop n opt)"
  by (meson in_set_dropD)

lemma find_mount_key_options:
  assumes "\<forall>opt \<in> set opts. 44 \<notin> set opt"
  shows "map_option (takeWhile (\<lambda>b. b \<noteq> 44)) (cryexts_find_mount_key mount_key (join_options opts)) =
    chosen_key mount_key opts"
  using assms
proof (induction opts rule: join_options.induct)
  case 1
  then show ?case by (simp add: chosen_key_def cryexts_find_mount_key.simps)
next
  case (2 opt)
  then show ?case
    by (auto simp: chosen_key_def cryexts_find_mount_key.simps is_key_option_def
        takeWhile_all_no_comma dropWhile_all_no_comma drop_no_comma key_prefix_def)
next
  case (3 opt opt' opts)
  let ?rest = "join_options (opt' # opts)"
  have c: "44 \<notin> set opt" using 3(2) by simp
  show ?case
  proof (cases "is_key_option opt")
    case True
    then have "4 \<le> length opt" by (rule is_key_option_length)
    then show ?thesis
      using True c by (simp add: cryexts_find_mount_key.simps [of _ "opt @ _"] is_key_option_def
          chosen_key_def takeWhile_no_comma drop_no_comma)
  next
    case False
    then show ?thesis
      using 3 c by (simp add: cryexts_find_mount_key.simps [of _ "opt @ _"] key_prefix_app
          dropWhile_no_comma chosen_key_def del: take_append)
  qed
qed

text \<open>C36: Mounting an encrypted file system with supported encryption parameters takes the
  key from the first \<open>key=\<close> option, or else from the module parameter.  A key of 1 to 63 bytes is
  accepted exactly if its derived key has the stored verifier, and is then loaded; any other key,
  an empty one and a missing one are refused without a change of the key material.\<close>

theorem key_checked:
  assumes "c_encrypted c" and "c_skcipher c = None" and "no_faults st"
    and "c_encryption_flags c = CRYEXTS_ENC_FLAG_DATA" and "c_encryption_kdf c = CRYEXTS_KDF_SALTED_FNV1A"
    and "c_encryption_alg c = CRYEXTS_ALG_AES_CTR"
    and "\<forall>opt \<in> set opts. 44 \<notin> set opt"
  shows "case chosen_key mount_key opts of
      None \<Rightarrow> cryexts_set_encryption_key mount_key (Some (join_options opts)) (c, st) =
        (Inl EACCES, (c, st))
    | Some key \<Rightarrow>
        (let derived = cryexts_derive_salted_key key (c_salt c) in
         if key \<noteq> [] \<and> length key < CRYEXTS_KEY_MAX \<and> cryexts_key_verifier derived = c_key_verifier c
         then cryexts_set_encryption_key mount_key (Some (join_options opts)) (c, st) =
           (Inr (), (c\<lparr>c_derived_key := derived, c_derived_key_len := 32,
                       c_skcipher := Some derived\<rparr>, st\<lparr>d_tick := d_tick st + 2\<rparr>))
         else \<exists>e. cryexts_set_encryption_key mount_key (Some (join_options opts)) (c, st) =
           (Inl e, (c, st)))"
proof (cases "cryexts_find_mount_key mount_key (join_options opts)")
  case None
  then have "chosen_key mount_key opts = None"
    using find_mount_key_options [OF assms(7), of mount_key] by simp
  with None show ?thesis using assms(1) by (simp add: cryexts_set_encryption_key_def)
next
  case (Some key)
  then have word: "chosen_key mount_key opts = Some (takeWhile (\<lambda>b. b \<noteq> 44) key)"
    using find_mount_key_options [OF assms(7), of mount_key] by simp
  have init: "cryexts_init_crypto_transform (c\<lparr>c_derived_key := d, c_derived_key_len := 32\<rparr>, st) =
      (Inr (), (c\<lparr>c_derived_key := d, c_derived_key_len := 32, c_skcipher := Some d\<rparr>,
                st\<lparr>d_tick := d_tick st + 2\<rparr>))" if "length d = 32" for d
    using assms(1-3,6) that
    by (simp add: cryexts_init_crypto_transform_def onfs_c_def kmalloc_def bindE_def io_step_ok)
  have len: "length (cryexts_derive_salted_key k salt) = 32" for k salt
    by (simp add: cryexts_derive_salted_key_def CRYEXTS_DERIVED_KEY_LEN_def length_concat
        comp_def Let_def sum_list_triv)
  show ?thesis
    using Some word assms(1,4-6) init [OF len]
    by (auto simp: cryexts_set_encryption_key_def Let_def CRYEXTS_DERIVED_KEY_LEN_def not_le)
qed

theorem key_checked_witness:
  "case chosen_key None [[114, 119], key_prefix @ sample_key] of
      None \<Rightarrow> cryexts_set_encryption_key None (Some (join_options [[114, 119], key_prefix @ sample_key]))
        (sample_crypt, sample_fs) = (Inl EACCES, (sample_crypt, sample_fs))
    | Some key \<Rightarrow>
        (let derived = cryexts_derive_salted_key key (c_salt sample_crypt) in
         if key \<noteq> [] \<and> length key < CRYEXTS_KEY_MAX \<and>
            cryexts_key_verifier derived = c_key_verifier sample_crypt
         then cryexts_set_encryption_key None (Some (join_options [[114, 119], key_prefix @ sample_key]))
             (sample_crypt, sample_fs) =
           (Inr (), (sample_crypt\<lparr>c_derived_key := derived, c_derived_key_len := 32,
                       c_skcipher := Some derived\<rparr>, sample_fs\<lparr>d_tick := d_tick sample_fs + 2\<rparr>))
         else \<exists>e. cryexts_set_encryption_key None
             (Some (join_options [[114, 119], key_prefix @ sample_key])) (sample_crypt, sample_fs) =
           (Inl e, (sample_crypt, sample_fs)))"
  by (rule key_checked)
    (simp_all add: sample_no_faults sample_crypt_def const_simps key_prefix_def sample_key_def)

section \<open>After a mount every inode has its key\<close>

lemma load_policies_keys:
  "load_policies True master acc ps st = (Inr qs, st') \<Longrightarrow> (\<And>q. q \<in> set acc \<Longrightarrow> p_skcipher q \<noteq> None) \<Longrightarrow>
   q \<in> set qs \<Longrightarrow> p_skcipher q \<noteq> None"
proof (induction ps arbitrary: acc st)
  case Nil
  then show ?case by (simp add: retE_def)
next
  case (Cons p ps)
  from Cons.prems(1) obtain p' st1 where
      "cryexts_init_policy_transform (p\<lparr>p_derived_key :=
         cryexts_derive_policy_key master (p_policy_id p) (p_context p)\<rparr>) st = (Inr p', st1)"
      and rest: "load_policies True master (acc @ [p']) ps st1 = (Inr qs, st')"
    by (auto simp: bindE_eq_Inr failE_def split: if_splits)
  then have p': "p_skcipher p' \<noteq> None"
    by (auto simp: cryexts_init_policy_transform_def bindE_eq_Inr retE_def)
  show ?case
    by (rule Cons.IH [OF rest _ Cons.prems(3)]) (use Cons.prems(2) p' in auto)
qed

text \<open>C37: When the mount key was accepted and the policy table loaded, every inode whose
  policy exists (which reading an inode checks) has the key for its data blocks, and without
  encryption none is needed.\<close>

theorem mounted_key:
  assumes "cryexts_set_encryption_key mount_key options (c0, st0) = (Inr (), (c1, st1))"
    and "c_skcipher c0 = None" and "c_policies c0 = None"
    and "cryexts_load_policy_table (c1, st2) = (Inr (), (c2, st3))"
    and "cryexts_policy_exists c2 st3 (cryexts_inode_policy_id i)"
  shows "crypt_ready c2 i st3"
proof (cases "c_encrypted c0")
  case False
  then have "c1 = c0" using assms(1) by (simp add: cryexts_set_encryption_key_def)
  then have "\<not> c_encrypted c2"
    using assms(4) False by (auto simp: cryexts_load_policy_table_def onfs_c_def bindE_eq_Inr Let_def
      split: if_splits prod.splits)
  then show ?thesis by (simp add: crypt_ready_def)
next
  case True
  then obtain d n key where c1: "c1 = c0\<lparr>c_derived_key := d, c_derived_key_len := 32, c_skcipher := Some key\<rparr>"
      and alg: "c_encryption_alg c0 = CRYEXTS_ALG_AES_CTR"
    using assms(1,2) by (auto simp: cryexts_set_encryption_key_def cryexts_init_crypto_transform_def
        onfs_c_def bindE_eq_Inr Let_def CRYEXTS_DERIVED_KEY_LEN_def split: if_splits prod.splits option.splits)
  show ?thesis
  proof (cases "cryexts_policy_table_enabled st2")
    case off: False
    then have "c2 = c1" "st3 = st2" using assms(4) by (simp_all add: cryexts_load_policy_table_def)
    then show ?thesis
      using off c1 alg by (simp add: crypt_ready_def inode_key_def cryexts_policy_io_enabled_def)
  next
    case on: True
    have "c_policies c1 = None" using c1 assms(3) by simp
    then obtain ps pt st4 st5 where c2: "c2 = c1\<lparr>c_policies := Some ps\<rparr>"
        and ld: "load_policies True (take (unat (c_derived_key_len c1)) (c_derived_key c1)) []
          (map (policy_entry pt) [0..<unat (get16 pt 4)]) st4 = (Inr ps, st3)"
      using assms(4) on True c1
      by (auto simp: cryexts_load_policy_table_def onfs_c_def bindE_eq_Inr Let_def split: if_splits prod.splits)
    have keys: "p_skcipher q \<noteq> None" if "q \<in> set ps" for q
      by (rule load_policies_keys [OF ld _ that]) simp
    show ?thesis
    proof (cases "cryexts_policy_io_enabled c2 i st3")
      case True
      then obtain q where q: "cryexts_find_policy c2 (cryexts_inode_policy_id i) = Some q"
        using assms(5) by (auto simp: cryexts_policy_exists_def cryexts_policy_io_enabled_def)
      then have "q \<in> set ps" using c2 by (auto simp: cryexts_find_policy_def find_Some_iff)
      then show ?thesis using True keys q by (auto simp: crypt_ready_def inode_key_def)
    next
      case False
      then show ?thesis using c1 c2 alg by (simp add: crypt_ready_def inode_key_def)
    qed
  qed
qed

text \<open>The sample file system with a table of one policy, number 0, in block 30.\<close>

definition sample_pt :: bytes where
  "sample_pt = pad_block (le32 CRYEXTS_POLICY_TABLE_MAGIC @ le16 1 @ le16 0 @ replicate 40 0)"

definition sample_policies :: fs where
  "sample_policies = sample_fs\<lparr>
     s_disk_sb := sample_sb\<lparr>sb_features_incompat := 0x980, sb_features_ro_compat := 0,
                            sb_policy_table_block := 30\<rparr>,
     d_cache := (\<lambda>_. zero_block)(30 := sample_pt)\<rparr>"

definition sample_loaded :: crypt_info where
  "sample_loaded = sample_crypt\<lparr>
     c_derived_key := cryexts_derive_salted_key sample_key (replicate 16 7),
     c_derived_key_len := 32,
     c_skcipher := Some (cryexts_derive_salted_key sample_key (replicate 16 7))\<rparr>"

lemma sample_mount:
  "cryexts_set_encryption_key (Some sample_key) None (sample_crypt, sample_policies) =
     (Inr (), (sample_loaded, sample_policies\<lparr>d_tick := 2\<rparr>))"
  by (simp add: cryexts_set_encryption_key_def sample_crypt_def sample_loaded_def sample_policies_def
      sample_key_def const_simps cryexts_init_crypto_transform_def onfs_c_def kmalloc_def bindE_def
      io_step_def sample_fs_def length_concat comp_def Let_def sum_list_triv
      cryexts_derive_salted_key_def)

lemma sample_policies_sel:
  "d_fault sample_policies = (\<lambda>_. False)" "sb_version (s_disk_sb sample_policies) = 6"
  "sb_features_incompat (s_disk_sb sample_policies) = 0x980"
  "sb_features_ro_compat (s_disk_sb sample_policies) = 0"
  "sb_policy_table_block (s_disk_sb sample_policies) = 30"
  "sb_default_encryption_policy (s_disk_sb sample_policies) = 0"
  "bdata sample_policies 30 = sample_pt"
  by (simp_all add: sample_policies_def sample_fs_def sample_sb_def bdata_def CRYEXTS_VERSION_V6_def)

lemma sample_table:
  "get32 sample_pt 0 = CRYEXTS_POLICY_TABLE_MAGIC" "get16 sample_pt 4 = 1"
  "p_policy_id (policy_entry sample_pt 0) = 0"
  by (simp_all add: sample_pt_def pad_block_def layout_simps policy_entry_def const_simps
      BLOCK_SIZE_def replicate_add [symmetric] get32_zeros)

lemma sample_loaded_sel:
  "c_encrypted sample_loaded" "c_policies sample_loaded = None"
  by (simp_all add: sample_loaded_def sample_crypt_def)

lemma sample_table_valid:
  "cryexts_policy_table_checksum_valid (sample_policies\<lparr>d_tick := n\<rparr>) b pt"
  by (simp add: cryexts_policy_table_checksum_valid_def cryexts_metadata_csum_enabled_def
      cryexts_metadata_csum_enabled_disk_def sample_policies_sel has_flag_def const_simps)

definition sample_policy :: cryexts_policy_runtime where
  "sample_policy =
     (let p = policy_entry sample_pt 0;
          k = cryexts_derive_policy_key (take (unat (c_derived_key_len sample_loaded))
                (c_derived_key sample_loaded)) (p_policy_id p) (p_context p)
      in p\<lparr>p_derived_key := k, p_skcipher := Some k\<rparr>)"

lemma sample_policies_load:
  "cryexts_load_policy_table (sample_loaded, sample_policies\<lparr>d_tick := 2\<rparr>) =
     (Inr (), (sample_loaded\<lparr>c_policies := Some [sample_policy]\<rparr>, sample_policies\<lparr>d_tick := 6\<rparr>))"
proof -
  have max: "CRYEXTS_POLICY_TABLE_MAX_ENTRIES = 254"
    by (simp add: const_simps BLOCK_SIZE_def)
  have on: "cryexts_policy_table_enabled sample_policies"
    by (simp add: cryexts_policy_table_enabled_def sample_policies_sel has_flag_def const_simps)
  have io: "io_step e (sample_policies\<lparr>d_tick := n\<rparr>) = (Inr (), sample_policies\<lparr>d_tick := Suc n\<rparr>)"
    for e n by (simp add: io_step_def sample_policies_sel)
  have entries: "map (policy_entry sample_pt) [0..<1] = [policy_entry sample_pt 0]" by simp
  have ld: "load_policies True (take (unat (c_derived_key_len sample_loaded))
        (c_derived_key sample_loaded)) [] [policy_entry sample_pt 0] (sample_policies\<lparr>d_tick := n\<rparr>) =
      (Inr [sample_policy], sample_policies\<lparr>d_tick := Suc (Suc n)\<rparr>)" for n
    by (simp add: cryexts_init_policy_transform_def kmalloc_def bindE_def io retE_def
        sample_policy_def Let_def)
  have default: "cryexts_policy_exists (sample_loaded\<lparr>c_policies := Some [sample_policy]\<rparr>)
      (sample_policies\<lparr>d_tick := n\<rparr>) 0" for n
    by (simp add: cryexts_policy_exists_def cryexts_find_policy_def sample_policy_def Let_def
        sample_table)
  show ?thesis
    by (simp add: cryexts_load_policy_table_def on sample_loaded_sel onfs_c_def
        cryexts_read_file_block_def bindE_def io getE_def sample_policies_sel sample_table
        sample_table_valid max kmalloc_def ld default del: load_policies.simps)
qed

theorem mounted_key_witness:
  "crypt_ready (sample_loaded\<lparr>c_policies := Some [sample_policy]\<rparr>) sample_inode
     (sample_policies\<lparr>d_tick := 6\<rparr>)"
proof (rule mounted_key [OF sample_mount _ _ sample_policies_load])
  show "cryexts_policy_exists (sample_loaded\<lparr>c_policies := Some [sample_policy]\<rparr>)
      (sample_policies\<lparr>d_tick := 6\<rparr>) (cryexts_inode_policy_id sample_inode)"
    by (simp add: cryexts_policy_exists_def cryexts_find_policy_def sample_policy_def Let_def
        sample_table cryexts_inode_policy_id_def sample_inode_def)
qed (simp_all add: sample_crypt_def)

end
