(* ===== verification/InodeDisk.thy ===== *)
theory InodeDisk
  imports BlockMap Orphan
begin

text \<open>
  Reading an inode into memory and writing it back (\<open>inode.c\<close>).
\<close>

section \<open>Reading\<close>

fun load_leaves :: "cryexts_extent_root_ref list \<Rightarrow> unit iact" where
  "load_leaves [] = retE ()"
| "load_leaves (r # rs) =
     bindE (cryexts_load_extent_leaf (r_leaf_block r) (r_entries r) (r_checksum r))
       (\<lambda>_. load_leaves rs)"

text \<open>The extent header and what follows it in the reserved bytes.\<close>

definition extent_root :: "cryexts_inode \<Rightarrow> cryexts_extent_header" where
  "extent_root d = dec_eh (di_reserved d)"

definition root_extents :: "cryexts_inode \<Rightarrow> cryexts_extent list" where
  "root_extents d =
     get_extents (di_reserved d) EXTENT_HEADER_BYTES (unat (eh_entries (extent_root d)))"

definition root_refs :: "cryexts_inode \<Rightarrow> cryexts_extent_root_ref list" where
  "root_refs d =
     get_refs (di_reserved d) EXTENT_HEADER_BYTES (unat (eh_entries (extent_root d)))"

definition overflow_block_of :: "cryexts_inode \<Rightarrow> u64" where
  "overflow_block_of d = get64 (di_reserved d) CRYEXTS_EXTENT_ROOT_OVERFLOW_OFFSET"

definition overflow_entries_of :: "cryexts_inode \<Rightarrow> u16" where
  "overflow_entries_of d = get16 (di_reserved d) (CRYEXTS_EXTENT_ROOT_OVERFLOW_OFFSET + 8)"

definition cryexts_disk_extent_overflow_checksum :: "cryexts_inode \<Rightarrow> u32" where
  "cryexts_disk_extent_overflow_checksum d =
     get32 (di_reserved d) CRYEXTS_EXTENT_ROOT_OVERFLOW_CSUM_OFFSET"

definition cryexts_disk_inode_uses_extents :: "cryexts_inode \<Rightarrow> bool" where
  "cryexts_disk_inode_uses_extents d \<longleftrightarrow> has_flag (di_inode_flags d) CRYEXTS_INODE_FLAG_EXTENTS"

definition root_is_v2 :: "fs \<Rightarrow> cryexts_inode \<Rightarrow> bool" where
  "root_is_v2 st d \<longleftrightarrow>
     cryexts_disk_extent_tree_v2_inode (di_inode_flags d) \<and> cryexts_extent_tree_v2_enabled st"

definition root_v2_ok :: "cryexts_inode \<Rightarrow> bool" where
  "root_v2_ok d \<longleftrightarrow> unat (eh_max (extent_root d)) = CRYEXTS_EXTENT_TREE_ROOT_REFS \<and>
     unat (eh_entries (extent_root d)) \<le> CRYEXTS_EXTENT_TREE_ROOT_REFS \<and>
     eh_reserved (extent_root d) = CRYEXTS_EXTENT_TREE_V2_DEPTH"

text \<open>What \<open>kzalloc\<close> gives, with the fields that every inode has.\<close>

definition zero_info :: cryexts_inode_info where
  "zero_info = \<lparr>ii_use_extents = False, ii_inode_flags = 0,
     ii_direct = replicate CRYEXTS_DIRECT_BLOCKS 0, ii_indirect_block = 0,
     ii_extent_inline_max = 0, ii_extents = [], ii_overflow_extents = [],
     ii_extent_overflow_block = 0, ii_extent_overflow_checksum = 0, ii_extent_leaves = [],
     ii_xattr_block = 0, ii_encryption_policy_id = 0, ii_dir_index_block = 0,
     ii_alloc_hint_block = 0, ii_alloc_goal_group = 0, ii_reservation_start = 0,
     ii_reservation_next = 0, ii_reservation_end = 0\<rparr>"

definition base_info :: "cryexts_inode \<Rightarrow> cryexts_inode_info" where
  "base_info d = zero_info\<lparr>ii_inode_flags := di_inode_flags d,
     ii_use_extents := cryexts_disk_inode_uses_extents d,
     ii_xattr_block := x_xattr_block (cryexts_disk_inode_extra d),
     ii_encryption_policy_id := x_encryption_policy_id (cryexts_disk_inode_extra d),
     ii_dir_index_block :=
       (if S_ISDIR (di_mode d) \<and> has_flag (di_inode_flags d) CRYEXTS_INODE_FLAG_DIR_INDEX
        then di_indirect_block d else 0)\<rparr>"

definition load_extent_root :: "cryexts_inode \<Rightarrow> unit iact" where
  "load_extent_root d = (\<lambda>(i, st).
     let eh = extent_root d; inline_max = unat (eh_max eh); entries = unat (eh_entries eh) in
     if eh_magic eh \<noteq> CRYEXTS_EXTENT_MAGIC then (Inl EUCLEAN, (i, st))
     else if root_is_v2 st d
     then (if \<not> root_v2_ok d then (Inl EUCLEAN, (i, st))
           else bindE (oni (upd_info (\<lambda>b. b\<lparr>ii_extent_inline_max := CRYEXTS_EXTENT_TREE_ROOT_REFS\<rparr>)))
                  (\<lambda>_. load_leaves (root_refs d)) (i, st))
     else if inline_max = CRYEXTS_MAX_INLINE_EXTENTS
     then (if CRYEXTS_MAX_INLINE_EXTENTS < entries then (Inl EUCLEAN, (i, st))
           else oni (upd_info (\<lambda>b. b\<lparr>ii_extent_inline_max := CRYEXTS_MAX_INLINE_EXTENTS,
                  ii_extents := root_extents d\<rparr>)) (i, st))
     else if inline_max = CRYEXTS_EXTENT_ROOT_INLINE_EXTENTS \<and> cryexts_extent_tree_enabled st
     then (if CRYEXTS_EXTENT_ROOT_INLINE_EXTENTS < entries then (Inl EUCLEAN, (i, st))
           else bindE (oni (upd_info (\<lambda>b.
                    b\<lparr>ii_extent_inline_max := CRYEXTS_EXTENT_ROOT_INLINE_EXTENTS,
                      ii_extents := root_extents d,
                      ii_extent_overflow_block := overflow_block_of d,
                      ii_extent_overflow_checksum := cryexts_disk_extent_overflow_checksum d\<rparr>)))
                  (\<lambda>_. cryexts_load_extent_overflow (overflow_entries_of d)) (i, st))
     else (Inl EUCLEAN, (i, st)))"

definition set_next_orphan_cached :: "u64 \<Rightarrow> u64 \<Rightarrow> fs \<Rightarrow> fs" where
  "set_next_orphan_cached ino v st = st\<lparr>i_next_orphan := (i_next_orphan st)(ino := Some v)\<rparr>"

definition cryexts_init_inode_blocks :: "cryexts_inode \<Rightarrow> unit iact" where
  "cryexts_init_inode_blocks d =
     bindE (onfs kmalloc) (\<lambda>_.
     bindE (oni (\<lambda>i. i\<lparr>i_private := Some (base_info d)\<rparr>)) (\<lambda>_.
     bindE (if cryexts_disk_inode_uses_extents d
            then on_errE (load_extent_root d) (\<lambda>_ (i, st). (i\<lparr>i_private := None\<rparr>, st))
            else oni (upd_info (\<lambda>b. b\<lparr>ii_direct := di_block d,
                   ii_indirect_block := di_indirect_block d\<rparr>))) (\<lambda>_.
     bindE (\<lambda>(i, st). (Inr (), (i, set_next_orphan_cached (i_ino i)
              (x_next_orphan (cryexts_disk_inode_extra d)) st))) (\<lambda>_.
       cryexts_init_inode_alloc_hint))))"

definition cryexts_init_vfs_inode :: "cryexts_inode \<Rightarrow> unit iact" where
  "cryexts_init_vfs_inode d =
     bindE (oni (\<lambda>i. i\<lparr>i_mode := di_mode d, i_uid := di_uid d, i_gid := di_gid d,
       i_nlink := ucast (di_links_count d), i_size := di_size d, i_blocks := di_blocks d,
       i_atime := di_atime d, i_ctime := di_ctime d, i_mtime := di_mtime d\<rparr>))
     (\<lambda>_. cryexts_init_inode_blocks d)"

section \<open>Writing\<close>

text \<open>The extent header for \<open>n\<close> entries and the array after it, in reserved bytes that are clear.\<close>

definition enc_root :: "nat \<Rightarrow> nat \<Rightarrow> u16 \<Rightarrow> bytes \<Rightarrow> bytes" where
  "enc_root n inline_max depth entries =
     put_bytes 0 (enc_eh \<lparr>eh_magic = CRYEXTS_EXTENT_MAGIC, eh_entries = of_nat n,
       eh_max = of_nat inline_max, eh_reserved = depth\<rparr> @ entries)
       (replicate INODE_RESERVED_LEN 0)"

text \<open>\<open>memcpy\<close> of four bytes or more of the overflow fields of a root with three extents.\<close>

definition put_overflow_fields :: "cryexts_inode_info \<Rightarrow> bytes \<Rightarrow> bytes" where
  "put_overflow_fields b buf =
     (if ii_extent_inline_max b \<noteq> CRYEXTS_EXTENT_ROOT_INLINE_EXTENTS then buf
      else put_bytes CRYEXTS_EXTENT_ROOT_OVERFLOW_OFFSET
             (le64 (ii_extent_overflow_block b) @ le16 (of_nat (length (ii_overflow_extents b))) @
              le32 (ii_extent_overflow_checksum b)) buf)"

definition extents_reserved :: "cryexts_inode_info \<Rightarrow> bytes" where
  "extents_reserved b =
     (if cryexts_extent_tree_v2_inode b
      then enc_root (length (ii_extent_leaves b)) CRYEXTS_EXTENT_TREE_ROOT_REFS
             CRYEXTS_EXTENT_TREE_V2_DEPTH
             (enc_refs (cryexts_refresh_extent_tree_v2_refs (ii_extent_leaves b)))
      else put_overflow_fields b (enc_root (length (ii_extents b)) (ii_extent_inline_max b) 0
             (enc_extents (ii_extents b))))"

definition put_extra :: "cryexts_inode_extra \<Rightarrow> bytes \<Rightarrow> bytes" where
  "put_extra x buf = put_bytes INODE_EXTRA_OFF (enc_extra x) buf"

text \<open>The inode as it is stored: the extra structure is written last.\<close>

definition disk_inode_of :: "inode \<Rightarrow> u64 \<Rightarrow> cryexts_inode" where
  "disk_inode_of i next_orphan =
     (let b = (case i_private i of None \<Rightarrow> zero_info | Some b \<Rightarrow> b) in
      \<lparr>di_mode = i_mode i, di_links_count = ucast (i_nlink i), di_uid = i_uid i, di_gid = i_gid i,
       di_size = i_size i, di_blocks = i_blocks i, di_atime = i_atime i, di_ctime = i_ctime i,
       di_mtime = i_mtime i,
       di_block = (if ii_use_extents b then replicate CRYEXTS_DIRECT_BLOCKS 0 else ii_direct b),
       di_indirect_block =
         (if ii_use_extents b then 0
          else if S_ISDIR (i_mode i) \<and> has_flag (ii_inode_flags b) CRYEXTS_INODE_FLAG_DIR_INDEX
          then ii_dir_index_block b else ii_indirect_block b),
       di_inode_flags = ii_inode_flags b,
       di_reserved = put_extra \<lparr>x_xattr_block = ii_xattr_block b,
           x_encryption_policy_id = ii_encryption_policy_id b, x_next_orphan = next_orphan\<rparr>
         (if ii_use_extents b then extents_reserved b else replicate INODE_RESERVED_LEN 0)\<rparr>)"

definition write_extent_blocks :: "unit iact" where
  "write_extent_blocks = (\<lambda>(i, st).
     if \<not> cryexts_inode_uses_extents i then (Inr (), (i, st))
     else if cryexts_extent_tree_v2_inode (info i)
     then eachE cryexts_write_extent_leaf [0..<length (ii_extent_leaves (info i))] (i, st)
     else cryexts_write_extent_overflow (i, st))"

text \<open>
  An error while the extent blocks are written leaves the buffer of the inode half filled in: the
  fields before the extents are new, the reserved bytes clear but for the header's magic number.
\<close>

definition half_written :: "inode \<Rightarrow> cryexts_inode" where
  "half_written i = (disk_inode_of i 0)\<lparr>di_reserved :=
     put_bytes 0 (le16 CRYEXTS_EXTENT_MAGIC) (replicate INODE_RESERVED_LEN 0)\<rparr>"

definition put_disk_inode :: "u64 \<times> nat \<Rightarrow> cryexts_inode \<Rightarrow> fs \<Rightarrow> fs" where
  "put_disk_inode p d st =
     (case p of (block, offset) \<Rightarrow>
        set_bdata block (put_bytes offset (enc_inode d) (bdata st block)) st)"

definition cached_next_orphan :: "inode \<Rightarrow> fs \<Rightarrow> u64" where
  "cached_next_orphan i st =
     (case i_private i of None \<Rightarrow> 0
      | Some _ \<Rightarrow> (case i_next_orphan st (i_ino i) of None \<Rightarrow> 0 | Some v \<Rightarrow> v))"

definition cryexts_write_inode_to_disk :: "unit iact" where
  "cryexts_write_inode_to_disk =
     bindE (\<lambda>(i, st). onfs (cryexts_get_disk_inode (i_ino i)) (i, st)) (\<lambda>p.
     bindE (\<lambda>(i, st). if i_private i = None then (Inr (), (i, st)) else update_sectors (i, st)) (\<lambda>_.
     bindE (on_errE write_extent_blocks (\<lambda>_ (i, st). (i, put_disk_inode p (half_written i) st))) (\<lambda>_.
       (\<lambda>(i, st). (Inr (), (i, record_and_dirty (Some (fst p))
          (put_disk_inode p (disk_inode_of i (cached_next_orphan i st)) st)))))))"

end
