(* ===== verification/Dir.thy ===== *)
theory Dir
  imports InodeDisk
begin

text \<open>
  Directories (\<open>dir.c\<close>): the entries in the blocks of a directory, the hash index over them, and
  the operations on one directory.

  A directory is the chain of the entries of its blocks, each entry giving the distance to the
  next (\<open>rec_len\<close>); an entry whose inode number is 0 is free space.  The index block has for each
  hash bucket the set of the blocks that hold a name of that bucket.

  All loops over the entries of a block are the same walk with different bodies (\<open>dir_walk\<close>): it
  checks the entry at the current offset before the body sees it.  The offsets of the code are
  32-bit numbers; a directory has at most twelve blocks when it is read from the disk
  (\<open>cryexts_validate_dir_block\<close>), so they do not wrap and are natural numbers here.  An entry that
  begins less than twelve bytes before the end of the block is read over that end by the code and
  then refused whatever was read; here what lies behind the block reads as 0.
\<close>

section \<open>Entries\<close>

definition DIRENT_HEADER :: nat where "DIRENT_HEADER = unat CRYEXTS_DIR_ENTRY_HEADER_SIZE"
definition CRYEXTS_FT_UNKNOWN :: u8 where [const_simps]: "CRYEXTS_FT_UNKNOWN = 0"
definition CRYEXTS_FT_REG_FILE :: u8 where [const_simps]: "CRYEXTS_FT_REG_FILE = 1"
definition CRYEXTS_FT_DIR :: u8 where [const_simps]: "CRYEXTS_FT_DIR = 2"
definition CRYEXTS_FT_SYMLINK :: u8 where [const_simps]: "CRYEXTS_FT_SYMLINK = 3"

record cryexts_dir_entry =
  de_inode :: u64
  de_rec_len :: u16
  de_name_len :: u8
  de_file_type :: u8

definition enc_de :: "cryexts_dir_entry \<Rightarrow> bytes" where
  "enc_de d = le64 (de_inode d) @ le16 (de_rec_len d) @ [de_name_len d, de_file_type d]"

definition dec_de :: "bytes \<Rightarrow> cryexts_dir_entry" where
  "dec_de b = \<lparr>de_inode = get64 b 0, de_rec_len = get16 b 8, de_name_len = le_word (get_bytes b 10 1),
     de_file_type = le_word (get_bytes b 11 1)\<rparr>"

definition dir_rec_len :: "nat \<Rightarrow> nat" where
  "dir_rec_len name_len = unat (cryexts_dir_rec_len (of_nat name_len))"

lemma DIRENT_HEADER_12 [const_simps]: "DIRENT_HEADER = 12"
  by (simp add: DIRENT_HEADER_def CRYEXTS_DIR_ENTRY_HEADER_SIZE_def)

text \<open>The entry at an offset of a block, its name, and the writing of an entry.\<close>

definition dirent_at :: "bytes \<Rightarrow> nat \<Rightarrow> cryexts_dir_entry" where
  "dirent_at buf off = dec_de (drop off buf)"

definition de_name :: "bytes \<Rightarrow> nat \<Rightarrow> cryexts_dir_entry \<Rightarrow> bytes" where
  "de_name buf off de = get_bytes buf (off + DIRENT_HEADER) (unat (de_name_len de))"

definition put_dirent :: "nat \<Rightarrow> cryexts_dir_entry \<Rightarrow> bytes \<Rightarrow> bytes" where
  "put_dirent off de buf = put_bytes off (enc_de de) buf"

definition put_name :: "nat \<Rightarrow> bytes \<Rightarrow> bytes \<Rightarrow> bytes" where
  "put_name off name buf = put_bytes (off + DIRENT_HEADER) name buf"

definition rec_len :: "cryexts_dir_entry \<Rightarrow> nat" where "rec_len de = unat (de_rec_len de)"

definition cryexts_validate_dirent :: "fs \<Rightarrow> cryexts_dir_entry \<Rightarrow> nat \<Rightarrow> nat \<Rightarrow> unit res" where
  "cryexts_validate_dirent st de offset block_limit =
     (if rec_len de < DIRENT_HEADER \<or> rec_len de mod 4 \<noteq> 0 then Inl EUCLEAN
      else if block_limit < offset + rec_len de \<or> BLOCK_SIZE < offset + rec_len de then Inl EUCLEAN
      else if rec_len de - DIRENT_HEADER < unat (de_name_len de) \<or>
              CRYEXTS_NAME_LEN < unat (de_name_len de) then Inl EUCLEAN
      else if de_inode de \<noteq> 0 \<and>
              (de_inode de < CRYEXTS_ROOT_INO \<or> cryexts_max_inodes st < de_inode de) then Inl EUCLEAN
      else if de_file_type de \<noteq> CRYEXTS_FT_UNKNOWN \<and> de_file_type de \<noteq> CRYEXTS_FT_REG_FILE \<and>
              de_file_type de \<noteq> CRYEXTS_FT_DIR \<and> de_file_type de \<noteq> CRYEXTS_FT_SYMLINK
      then Inl EUCLEAN else Inr ())"

lemma validate_rec_len:
  assumes "cryexts_validate_dirent st de off lim = Inr ()"
  shows "12 \<le> rec_len de" "rec_len de mod 4 = 0" "off + rec_len de \<le> lim" "off + rec_len de \<le> BLOCK_SIZE"
    "unat (de_name_len de) \<le> rec_len de - 12" "unat (de_name_len de) \<le> 255"
  using assms by (simp_all add: cryexts_validate_dirent_def const_simps split: if_splits)

text \<open>
  The walk over the entries from an offset on.  The body gets the offset and the entry and what
  the walk has gathered so far; it gathers more (\<open>Inl\<close>) or stops with a result (\<open>Inr\<close>).
\<close>

function dir_walk ::
    "(nat \<Rightarrow> cryexts_dir_entry \<Rightarrow> 'a \<Rightarrow> 'a + 'r) \<Rightarrow> fs \<Rightarrow> bytes \<Rightarrow> nat \<Rightarrow> nat \<Rightarrow> 'a \<Rightarrow>
     ('a + 'r) res" where
  "dir_walk body st buf lim offset acc =
     (if lim \<le> offset then Inr (Inl acc)
      else (let de = dirent_at buf offset in
            case cryexts_validate_dirent st de offset lim of
              Inl e \<Rightarrow> Inl e
            | Inr _ \<Rightarrow>
                (case body offset de acc of
                   Inr r \<Rightarrow> Inr (Inr r)
                 | Inl acc \<Rightarrow> dir_walk body st buf lim (offset + rec_len de) acc)))"
  by pat_completeness auto
termination
proof (relation "measure (\<lambda>(body, st, buf, lim, offset, acc). lim - offset)", simp)
  fix body :: "nat \<Rightarrow> cryexts_dir_entry \<Rightarrow> 'a \<Rightarrow> 'a + 'r" and st buf
    and lim offset :: nat and acc acc' :: 'a and de u
  assume "\<not> lim \<le> offset" "de = dirent_at buf offset"
    "cryexts_validate_dirent st de offset lim = Inr u"
  then show "((body, st, buf, lim, offset + rec_len de, acc'), body, st, buf, lim, offset, acc) \<in>
      measure (\<lambda>(body, st, buf, lim, offset, acc). lim - offset)"
    using validate_rec_len(1) [of st de offset lim] by simp
qed

declare dir_walk.simps [simp del]

section \<open>Blocks of a directory\<close>

text \<open>\<open>limit = i_size_read(dir)\<close> and the part of block \<open>k\<close> that belongs to the directory.\<close>

definition dir_limit :: "inode \<Rightarrow> nat" where "dir_limit i = unat (ucast (i_size i) :: u32)"

definition block_limit :: "inode \<Rightarrow> nat \<Rightarrow> nat" where
  "block_limit i k = min BLOCK_SIZE (dir_limit i - k * BLOCK_SIZE)"

definition dir_blocks :: "inode \<Rightarrow> nat" where
  "dir_blocks i = unat (cryexts_dir_block_count i)"

text \<open>\<open>bh = sb_bread(dir->i_sb, cryexts_inode_block_at(dir, i))\<close>, and a new buffer for a block.\<close>

definition dir_bread :: "nat \<Rightarrow> u64 iact" where
  "dir_bread k = bindE (cryexts_inode_block_at (of_nat k)) (\<lambda>block. onfs (sb_bread block))"

definition sb_getblk :: "u64 \<Rightarrow> (fs, u64) act" where
  "sb_getblk block = bindE (io_step EIO) (\<lambda>_. retE block)"

text \<open>The walk over block \<open>k\<close>, whose number is \<open>block\<close>.\<close>

definition walk_block ::
    "(fs \<Rightarrow> bytes \<Rightarrow> nat \<Rightarrow> cryexts_dir_entry \<Rightarrow> 'a \<Rightarrow> 'a + 'r) \<Rightarrow> nat \<Rightarrow> u64 \<Rightarrow> 'a \<Rightarrow> ('a + 'r) iact" where
  "walk_block body k block acc = (\<lambda>(i, st).
     (dir_walk (body st (bdata st block)) st (bdata st block) (block_limit i k) 0 acc, (i, st)))"

definition used_entry :: "cryexts_dir_entry \<Rightarrow> bool" where
  "used_entry de \<longleftrightarrow> de_inode de \<noteq> 0 \<and> de_name_len de \<noteq> 0"

section \<open>The index\<close>

definition CRYEXTS_DIR_INDEX_MAGIC :: u32 where [const_simps]: "CRYEXTS_DIR_INDEX_MAGIC = 0x44495831"
definition CRYEXTS_DIR_INDEX_BUCKETS :: nat where [const_simps]: "CRYEXTS_DIR_INDEX_BUCKETS = 64"

record cryexts_dir_index_block =
  dx_magic :: u32
  dx_buckets :: u16
  dx_dir_blocks :: u16
  dx_entries :: u32
  dx_reserved :: bytes
  dx_block_masks :: "u16 list"

definition enc_dx :: "cryexts_dir_index_block \<Rightarrow> bytes" where
  "enc_dx x = le32 (dx_magic x) @ le16 (dx_buckets x) @ le16 (dx_dir_blocks x) @ le32 (dx_entries x) @
     dx_reserved x @ concat (map le16 (dx_block_masks x))"

definition dec_dx :: "bytes \<Rightarrow> cryexts_dir_index_block" where
  "dec_dx b = \<lparr>dx_magic = get32 b 0, dx_buckets = get16 b 4, dx_dir_blocks = get16 b 6,
     dx_entries = get32 b 8, dx_reserved = get_bytes b 12 16,
     dx_block_masks = map (\<lambda>k. get16 b (28 + 2 * k)) [0..<CRYEXTS_DIR_INDEX_BUCKETS]\<rparr>"

definition cryexts_dir_index_feature_enabled :: "fs \<Rightarrow> bool" where
  "cryexts_dir_index_feature_enabled st \<longleftrightarrow>
     has_flag (sb_features_incompat (s_disk_sb st)) CRYEXTS_FEATURE_INCOMPAT_DIR_INDEX"

definition cryexts_dir_hash :: "fs \<Rightarrow> bytes \<Rightarrow> u32" where
  "cryexts_dir_hash st name =
     fold fnv_step name (fold fnv_step (le64 (sb_dir_index_seed (s_disk_sb st))) FNV_OFFSET)"

definition bucket_of :: "fs \<Rightarrow> bytes \<Rightarrow> nat" where
  "bucket_of st name = unat (cryexts_dir_hash st name mod of_nat CRYEXTS_DIR_INDEX_BUCKETS)"

text \<open>\<open>1U << k\<close>, cut to the 16 bits of a mask.\<close>

definition mask_bit :: "nat \<Rightarrow> u16" where "mask_bit k = push_bit k 1"

definition cryexts_dir_index_load :: "cryexts_dir_index_block iact" where
  "cryexts_dir_index_load = (\<lambda>(i, st).
     case i_private i of None \<Rightarrow> (Inl ENOENT, (i, st))
     | Some b \<Rightarrow>
         let block = ii_dir_index_block b in
         if block = 0 then (Inl ENOENT, (i, st))
         else bindE (onfs (sb_bread block)) (\<lambda>_ (i, st).
                if \<not> cryexts_dir_index_checksum_valid st block (bdata st block)
                then (Inl EUCLEAN, (i, st))
                else (let index = dec_dx (bdata st block) in
                      if dx_magic index \<noteq> CRYEXTS_DIR_INDEX_MAGIC \<or>
                         unat (dx_buckets index) \<noteq> CRYEXTS_DIR_INDEX_BUCKETS
                      then (Inl EUCLEAN, (i, st)) else (Inr index, (i, st)))) (i, st))"

definition cryexts_dir_index_store :: "cryexts_dir_index_block \<Rightarrow> unit iact" where
  "cryexts_dir_index_store index = (\<lambda>(i, st).
     case i_private i of None \<Rightarrow> (Inl ENOENT, (i, st))
     | Some b \<Rightarrow>
         let block = ii_dir_index_block b in
         if block = 0 then (Inl ENOENT, (i, st))
         else onfs (bindE (sb_getblk block) (\<lambda>_. modE (\<lambda>st.
                record_and_dirty (Some block)
                  (set_bdata block
                    (cryexts_dir_index_set_checksum st block (pad_block (enc_dx index))) st)))) (i, st))"

definition cryexts_dir_index_ensure :: "unit iact" where
  "cryexts_dir_index_ensure = (\<lambda>(i, st).
     case i_private i of None \<Rightarrow> (Inr (), (i, st))
     | Some b \<Rightarrow>
         if \<not> cryexts_dir_index_feature_enabled st then (Inr (), (i, st))
         else if ii_dir_index_block b \<noteq> 0 then (Inr (), (i, st))
         else bindE (onfs (cryexts_alloc_block_goal (ii_alloc_hint_block b) (ii_alloc_goal_group b)))
                (\<lambda>block. bindE (oni (upd_info (\<lambda>b. b\<lparr>ii_dir_index_block := block,
                      ii_inode_flags := ii_inode_flags b OR CRYEXTS_INODE_FLAG_DIR_INDEX\<rparr>)))
                   (\<lambda>_. cryexts_set_inode_alloc_hint block)) (i, st))"

text \<open>Note the entries of block \<open>k\<close> in the masks, and count them.\<close>

definition index_entry ::
    "nat \<Rightarrow> fs \<Rightarrow> bytes \<Rightarrow> nat \<Rightarrow> cryexts_dir_entry \<Rightarrow> u16 list \<times> u32 \<Rightarrow> (u16 list \<times> u32) + unit" where
  "index_entry k st buf off de = (\<lambda>(masks, total).
     if used_entry de
     then (let bucket = bucket_of st (de_name buf off de) in
           Inl (masks[bucket := masks ! bucket OR mask_bit k], total + 1))
     else Inl (masks, total))"

fun index_blocks :: "nat list \<Rightarrow> u16 list \<times> u32 \<Rightarrow> (u16 list \<times> u32) iact" where
  "index_blocks [] acc = retE acc"
| "index_blocks (k # ks) acc =
     bindE (dir_bread k) (\<lambda>block.
     bindE (walk_block (index_entry k) k block acc) (\<lambda>r.
       case r of Inl acc \<Rightarrow> index_blocks ks acc | Inr _ \<Rightarrow> index_blocks ks acc))"

definition cryexts_dir_index_rebuild :: "unit iact" where
  "cryexts_dir_index_rebuild = (\<lambda>(i, st).
     if i_private i = None \<or> \<not> cryexts_dir_index_feature_enabled st then (Inr (), (i, st))
     else bindE cryexts_dir_index_ensure (\<lambda>_.
          bindE (index_blocks [0..<dir_blocks i] (replicate CRYEXTS_DIR_INDEX_BUCKETS 0, 0))
            (\<lambda>(masks, total).
          bindE (cryexts_dir_index_store
                   \<lparr>dx_magic = CRYEXTS_DIR_INDEX_MAGIC, dx_buckets = of_nat CRYEXTS_DIR_INDEX_BUCKETS,
                    dx_dir_blocks = of_nat (dir_blocks i), dx_entries = total,
                    dx_reserved = replicate 16 0, dx_block_masks = masks\<rparr>) (\<lambda>_.
          bindE update_sectors (\<lambda>_. cryexts_write_inode_to_disk)))) (i, st))"

text \<open>\<open>if (err) return cryexts_dir_index_rebuild(dir);\<close>\<close>

definition or_rebuild :: "'a iact \<Rightarrow> ('a \<Rightarrow> unit iact) \<Rightarrow> unit iact" where
  "or_rebuild m k s =
     (case m s of (Inl _, s') \<Rightarrow> cryexts_dir_index_rebuild s' | (Inr x, s') \<Rightarrow> k x s')"

definition cryexts_dir_index_add_name :: "bytes \<Rightarrow> nat \<Rightarrow> unit iact" where
  "cryexts_dir_index_add_name name logical_block = (\<lambda>(i, st).
     if i_private i = None \<or> \<not> cryexts_dir_index_feature_enabled st then (Inr (), (i, st))
     else if CRYEXTS_DIRECT_BLOCKS \<le> logical_block then cryexts_dir_index_rebuild (i, st)
     else bindE cryexts_dir_index_ensure (\<lambda>_.
          or_rebuild cryexts_dir_index_load (\<lambda>index (i, st).
            let bucket = bucket_of st name; masks = dx_block_masks index in
            or_rebuild (cryexts_dir_index_store (index\<lparr>
                dx_block_masks := masks[bucket := masks ! bucket OR mask_bit logical_block],
                dx_dir_blocks := of_nat (dir_blocks i), dx_entries := dx_entries index + 1\<rparr>))
              (\<lambda>_. retE ()) (i, st))) (i, st))"

text \<open>Is there still a name of the bucket in the block?\<close>

definition same_bucket ::
    "nat \<Rightarrow> fs \<Rightarrow> bytes \<Rightarrow> nat \<Rightarrow> cryexts_dir_entry \<Rightarrow> unit \<Rightarrow> unit + unit" where
  "same_bucket bucket st buf off de acc =
     (if used_entry de \<and> bucket_of st (de_name buf off de) = bucket then Inr () else Inl ())"

definition cryexts_dir_index_remove_name :: "bytes \<Rightarrow> u64 \<Rightarrow> nat \<Rightarrow> unit iact" where
  "cryexts_dir_index_remove_name name bh logical_block = (\<lambda>(i, st).
     if i_private i = None \<or> \<not> cryexts_dir_index_feature_enabled st then (Inr (), (i, st))
     else if CRYEXTS_DIRECT_BLOCKS \<le> logical_block then cryexts_dir_index_rebuild (i, st)
     else or_rebuild cryexts_dir_index_load (\<lambda>index (i, st).
            let bucket = bucket_of st name; masks = dx_block_masks index in
            or_rebuild (walk_block (same_bucket bucket) logical_block bh ()) (\<lambda>r (i, st).
              let mask = (case r of Inr _ \<Rightarrow> masks ! bucket
                          | Inl _ \<Rightarrow> masks ! bucket AND NOT (mask_bit logical_block));
                  entries = dx_entries index in
              or_rebuild (cryexts_dir_index_store (index\<lparr>
                  dx_block_masks := masks[bucket := mask], dx_dir_blocks := of_nat (dir_blocks i),
                  dx_entries := (if entries \<noteq> 0 then entries - 1 else entries)\<rparr>))
                (\<lambda>_. retE ()) (i, st)) (i, st)) (i, st))"

section \<open>Finding an entry\<close>

definition match_name ::
    "bytes \<Rightarrow> fs \<Rightarrow> bytes \<Rightarrow> nat \<Rightarrow> cryexts_dir_entry \<Rightarrow> unit \<Rightarrow> unit + nat" where
  "match_name name st buf off de acc =
     (if de_inode de \<noteq> 0 \<and> unat (de_name_len de) = length name \<and> de_name buf off de = name
      then Inr off else Inl ())"

text \<open>The block that holds the entry and its offset there.\<close>

fun find_in_blocks :: "u16 \<Rightarrow> bytes \<Rightarrow> nat list \<Rightarrow> (u64 \<times> nat) iact" where
  "find_in_blocks candidate_mask name [] = failE ENOENT"
| "find_in_blocks candidate_mask name (k # ks) =
     (if candidate_mask \<noteq> 0 \<and> \<not> has_flag candidate_mask (mask_bit k)
      then find_in_blocks candidate_mask name ks
      else bindE (dir_bread k) (\<lambda>block.
           bindE (walk_block (match_name name) k block ()) (\<lambda>r.
             case r of Inr off \<Rightarrow> retE (block, off)
             | Inl _ \<Rightarrow> find_in_blocks candidate_mask name ks)))"

text \<open>The blocks that the index names for the bucket; 0, and then all blocks are searched, if
  there is no index that can be used.\<close>

definition candidate_mask :: "bytes \<Rightarrow> u16 iact" where
  "candidate_mask name = (\<lambda>(i, st).
     case i_private i of None \<Rightarrow> (Inr 0, (i, st))
     | Some b \<Rightarrow>
         if \<not> has_flag (ii_inode_flags b) CRYEXTS_INODE_FLAG_DIR_INDEX then (Inr 0, (i, st))
         else (case cryexts_dir_index_load (i, st) of
                 (Inl _, s) \<Rightarrow> (Inr 0, s)
               | (Inr index, s) \<Rightarrow> (Inr (dx_block_masks index ! bucket_of st name), s)))"

definition cryexts_find_entry :: "bytes \<Rightarrow> (u64 \<times> nat) iact" where
  "cryexts_find_entry name = (\<lambda>(i, st).
     if dir_blocks i = 0 then (Inl ENOENT, (i, st))
     else bindE (candidate_mask name) (\<lambda>mask. find_in_blocks mask name [0..<dir_blocks i]) (i, st))"

section \<open>Adding an entry\<close>

definition cryexts_file_type :: "u16 \<Rightarrow> u8" where
  "cryexts_file_type mode =
     (if S_ISDIR mode then CRYEXTS_FT_DIR else if S_ISREG mode then CRYEXTS_FT_REG_FILE
      else if S_ISLNK mode then CRYEXTS_FT_SYMLINK else CRYEXTS_FT_UNKNOWN)"

text \<open>Room for an entry: a free one, or what follows the name of the entry at an offset.\<close>

datatype dir_slot = Reuse nat | Split nat nat

definition find_room ::
    "nat \<Rightarrow> fs \<Rightarrow> bytes \<Rightarrow> nat \<Rightarrow> cryexts_dir_entry \<Rightarrow> unit \<Rightarrow> unit + dir_slot" where
  "find_room need st buf off de acc =
     (let actual = dir_rec_len (unat (de_name_len de)) in
      if de_inode de = 0 \<and> need \<le> rec_len de then Inr (Reuse off)
      else if actual + need \<le> rec_len de then Inr (Split off actual) else Inl ())"

fun room_in_blocks :: "nat \<Rightarrow> nat list \<Rightarrow> (nat \<times> u64 \<times> dir_slot) option iact" where
  "room_in_blocks need [] = retE None"
| "room_in_blocks need (k # ks) =
     bindE (dir_bread k) (\<lambda>block.
     bindE (walk_block (find_room need) k block ()) (\<lambda>r.
       case r of Inr slot \<Rightarrow> retE (Some (k, block, slot)) | Inl _ \<Rightarrow> room_in_blocks need ks))"

text \<open>Shorten the entry before the new one, and the offset of the new one.\<close>

fun take_slot :: "u64 \<Rightarrow> dir_slot \<Rightarrow> (fs, nat) act" where
  "take_slot block (Reuse off) = retE off"
| "take_slot block (Split off actual) = (\<lambda>st.
     let buf = bdata st block; de = dirent_at buf off;
         buf = put_dirent off (de\<lparr>de_rec_len := of_nat actual\<rparr>) buf;
         new = dirent_at buf (off + actual);
         buf = put_dirent (off + actual) (new\<lparr>de_rec_len := of_nat (rec_len de - actual)\<rparr>) buf
     in (Inr (off + actual), set_bdata block buf st))"

text \<open>The entry itself; the block is recorded first.\<close>

definition fill_entry :: "u64 \<Rightarrow> nat \<Rightarrow> bytes \<Rightarrow> u64 \<Rightarrow> u16 \<Rightarrow> fs \<Rightarrow> fs" where
  "fill_entry block off name ino mode st =
     (let st = ignoreE (cryexts_journal_record_bh (Some block)) st;
          buf = bdata st block; de = dirent_at buf off;
          de = de\<lparr>de_inode := ino,
                  de_rec_len := (if de_rec_len de \<noteq> 0 then de_rec_len de else of_nat BLOCK_SIZE),
                  de_name_len := of_nat (length name), de_file_type := cryexts_file_type mode\<rparr>
      in mark_buffer_dirty block (set_bdata block (put_name off name (put_dirent off de buf)) st))"

text \<open>\<open>dir->i_mtime = current_time(dir); dir->i_ctime = dir->i_mtime;\<close>\<close>

definition touch_dir :: "unit iact" where
  "touch_dir = (\<lambda>(i, st). (Inr (), (i\<lparr>i_mtime := d_now st, i_ctime := d_now st\<rparr>, st)))"

definition write_entry :: "nat \<Rightarrow> u64 \<Rightarrow> nat \<Rightarrow> bytes \<Rightarrow> u64 \<Rightarrow> u16 \<Rightarrow> unit iact" where
  "write_entry k block off name ino mode =
     runE [onfs (modE (fill_entry block off name ino mode)), touch_dir, cryexts_write_inode_to_disk,
       cryexts_dir_index_add_name name k]"

text \<open>A new block with one free entry; without a buffer for it everything is taken back.\<close>

definition free_entry_block :: bytes where
  "free_entry_block = put_dirent 0 \<lparr>de_inode = 0, de_rec_len = of_nat BLOCK_SIZE, de_name_len = 0,
     de_file_type = CRYEXTS_FT_UNKNOWN\<rparr> zero_block"

definition set_direct :: "nat \<Rightarrow> u64 \<Rightarrow> inode \<Rightarrow> inode" where
  "set_direct k block = upd_info (\<lambda>b. b\<lparr>ii_direct := (ii_direct b)[k := block]\<rparr>)"

definition alloc_dir_block :: "u64 iact" where
  "alloc_dir_block = (\<lambda>(i, st).
     let (hint, goal) = (case i_private i of None \<Rightarrow> (0, - 1)
           | Some b \<Rightarrow> (ii_alloc_hint_block b, ii_alloc_goal_group b))
     in onfs (cryexts_alloc_block_goal hint goal) (i, st))"

definition undo_dir_block :: "nat \<Rightarrow> u64 \<Rightarrow> inode \<times> fs \<Rightarrow> inode \<times> fs" where
  "undo_dir_block k block s =
     ignoreE (runE [oni (\<lambda>i. (set_direct k 0 i)\<lparr>i_size := i_size i - of_nat BLOCK_SIZE\<rparr>),
       update_sectors, onfs (\<lambda>st. (Inr (), ignoreE (cryexts_free_block block) st))]) s"

definition new_dir_block :: "nat \<Rightarrow> u64 iact" where
  "new_dir_block k =
     bindE alloc_dir_block (\<lambda>block.
     bindE (runE [oni (set_direct k block), cryexts_set_inode_alloc_hint block,
              oni (\<lambda>i. i\<lparr>i_size := i_size i + of_nat BLOCK_SIZE\<rparr>), update_sectors]) (\<lambda>_.
     bindE (on_errE (onfs (sb_getblk block)) (\<lambda>_. undo_dir_block k block)) (\<lambda>_.
     bindE (onfs (modE (\<lambda>st. record_and_dirty (Some block) (set_bdata block free_entry_block st))))
       (\<lambda>_. retE block))))"

definition cryexts_add_entry :: "bytes \<Rightarrow> u64 \<Rightarrow> u16 \<Rightarrow> unit iact" where
  "cryexts_add_entry name ino mode = (\<lambda>(i, st).
     let n = dir_blocks i in
     if CRYEXTS_NAME_LEN < length name then (Inl ENAMETOOLONG, (i, st))
     else (case cryexts_find_entry name (i, st) of
             (Inr _, s) \<Rightarrow> (Inl EEXIST, s)
           | (Inl e, s) \<Rightarrow>
               if e \<noteq> ENOENT then (Inl e, s)
               else bindE (room_in_blocks (dir_rec_len (length name)) [0..<n]) (\<lambda>room.
                 case room of
                   Some (k, block, slot) \<Rightarrow>
                     bindE (onfs (take_slot block slot)) (\<lambda>off. write_entry k block off name ino mode)
                 | None \<Rightarrow>
                     if CRYEXTS_DIRECT_BLOCKS \<le> n then failE ENOSPC
                     else bindE (new_dir_block n) (\<lambda>block. write_entry n block 0 name ino mode)) s))"

section \<open>Removing an entry\<close>

fun logical_of :: "u64 \<Rightarrow> nat list \<Rightarrow> nat iact" where
  "logical_of bh [] = failE EUCLEAN"
| "logical_of bh (k # ks) =
     bindE (cryexts_inode_block_at (of_nat k)) (\<lambda>b. if b = bh then retE k else logical_of bh ks)"

definition cryexts_dir_logical_block_for_bh :: "u64 \<Rightarrow> nat iact" where
  "cryexts_dir_logical_block_for_bh bh = (\<lambda>(i, st). logical_of bh [0..<dir_blocks i] (i, st))"

text \<open>Change the entry at an offset of a block; the block is recorded first.\<close>

definition change_entry ::
    "u64 \<Rightarrow> nat \<Rightarrow> (cryexts_dir_entry \<Rightarrow> cryexts_dir_entry) \<Rightarrow> fs \<Rightarrow> fs" where
  "change_entry block off f st =
     (let st = ignoreE (cryexts_journal_record_bh (Some block)) st; buf = bdata st block
      in mark_buffer_dirty block (set_bdata block (put_dirent off (f (dirent_at buf off)) buf) st))"

definition clear_entry :: "cryexts_dir_entry \<Rightarrow> cryexts_dir_entry" where
  "clear_entry de = de\<lparr>de_inode := 0, de_name_len := 0, de_file_type := CRYEXTS_FT_UNKNOWN\<rparr>"

definition cryexts_delete_entry :: "bytes \<Rightarrow> unit iact" where
  "cryexts_delete_entry name =
     bindE (cryexts_find_entry name) (\<lambda>(bh, off).
     bindE (cryexts_dir_logical_block_for_bh bh) (\<lambda>k.
       runE [onfs (modE (change_entry bh off clear_entry)), touch_dir, cryexts_write_inode_to_disk,
         cryexts_dir_index_remove_name name bh k]))"

section \<open>Whole directories\<close>

definition dot :: bytes where "dot = [46]"
definition dotdot :: bytes where "dotdot = [46, 46]"

definition is_dot :: "bytes \<Rightarrow> nat \<Rightarrow> cryexts_dir_entry \<Rightarrow> bool" where
  "is_dot buf off de \<longleftrightarrow> de_name_len de = 1 \<and> de_name buf off de = dot"

definition is_dotdot :: "bytes \<Rightarrow> nat \<Rightarrow> cryexts_dir_entry \<Rightarrow> bool" where
  "is_dotdot buf off de \<longleftrightarrow> de_name_len de = 2 \<and> de_name buf off de = dotdot"

definition real_entry ::
    "fs \<Rightarrow> bytes \<Rightarrow> nat \<Rightarrow> cryexts_dir_entry \<Rightarrow> unit \<Rightarrow> unit + unit" where
  "real_entry st buf off de acc =
     (if de_inode de \<noteq> 0 \<and> \<not> is_dot buf off de \<and> \<not> is_dotdot buf off de then Inr () else Inl ())"

fun no_entries :: "nat list \<Rightarrow> unit iact" where
  "no_entries [] = retE ()"
| "no_entries (k # ks) =
     bindE (dir_bread k) (\<lambda>block.
     bindE (walk_block real_entry k block ()) (\<lambda>r.
       case r of Inr _ \<Rightarrow> failE ENOTEMPTY | Inl _ \<Rightarrow> no_entries ks))"

text \<open>Only the outcome counts: any error makes the directory not empty.\<close>

definition cryexts_dir_empty :: "bool iact" where
  "cryexts_dir_empty = (\<lambda>(i, st).
     case no_entries [0..<dir_blocks i] (i, st) of (r, s) \<Rightarrow> (Inr (r = Inr ()), s))"

text \<open>The first block of a new directory.\<close>

definition dots_block :: "u64 \<Rightarrow> u64 \<Rightarrow> bytes" where
  "dots_block ino parent_ino =
     (let dot_len = dir_rec_len 1;
          buf = put_name 0 dot (put_dirent 0 \<lparr>de_inode = ino, de_rec_len = of_nat dot_len,
            de_name_len = 1, de_file_type = CRYEXTS_FT_DIR\<rparr> zero_block)
      in put_name dot_len dotdot (put_dirent dot_len \<lparr>de_inode = parent_ino,
            de_rec_len = of_nat (BLOCK_SIZE - dot_len), de_name_len = 2,
            de_file_type = CRYEXTS_FT_DIR\<rparr> buf))"

definition cryexts_init_dir_block :: "u64 \<Rightarrow> unit iact" where
  "cryexts_init_dir_block parent_ino = (\<lambda>(i, st).
     let block = cryexts_inode_first_block i in
     bindE (onfs (sb_getblk block)) (\<lambda>_.
     bindE (onfs (modE (\<lambda>st. record_and_dirty (Some block)
              (set_bdata block (dots_block (i_ino i) parent_ino) st)))) (\<lambda>_.
       cryexts_dir_index_rebuild)) (i, st))"

definition cryexts_update_dir_parent :: "u64 \<Rightarrow> unit iact" where
  "cryexts_update_dir_parent parent_ino =
     bindE (cryexts_find_entry dotdot) (\<lambda>(bh, off).
     bindE (onfs (modE (change_entry bh off (\<lambda>de. de\<lparr>de_inode := parent_ino\<rparr>)))) (\<lambda>_.
       cryexts_write_inode_to_disk))"

definition cryexts_dir_parent_ino :: "u64 iact" where
  "cryexts_dir_parent_ino =
     bindE (cryexts_find_entry dotdot) (\<lambda>(bh, off).
       onfs (getE (\<lambda>st. de_inode (dirent_at (bdata st bh) off))))"

text \<open>The check of a directory that is read from the disk.\<close>

definition check_entry ::
    "cryexts_dir_index_block option \<Rightarrow> nat \<Rightarrow> fs \<Rightarrow> bytes \<Rightarrow> nat \<Rightarrow> cryexts_dir_entry \<Rightarrow>
     bool \<times> bool \<Rightarrow> (bool \<times> bool) + unit" where
  "check_entry index k st buf off de = (\<lambda>(seen_dot, seen_dotdot).
     if de_inode de = 0 then Inl (seen_dot, seen_dotdot)
     else if (case index of None \<Rightarrow> False | Some x \<Rightarrow> de_name_len de \<noteq> 0 \<and>
                \<not> has_flag (dx_block_masks x ! bucket_of st (de_name buf off de)) (mask_bit k))
     then Inr ()
     else Inl (seen_dot \<or> is_dot buf off de, seen_dotdot \<or> is_dotdot buf off de))"

fun check_blocks ::
    "cryexts_dir_index_block option \<Rightarrow> nat list \<Rightarrow> bool \<times> bool \<Rightarrow> (bool \<times> bool) iact" where
  "check_blocks index [] acc = retE acc"
| "check_blocks index (k # ks) acc =
     bindE (dir_bread k) (\<lambda>block.
     bindE (walk_block (check_entry index k) k block acc) (\<lambda>r.
       case r of Inr _ \<Rightarrow> failE EUCLEAN | Inl acc \<Rightarrow> check_blocks index ks acc))"

definition cryexts_validate_dir_block :: "unit iact" where
  "cryexts_validate_dir_block = (\<lambda>(i, st).
     let expected = dir_blocks i in
     if expected = 0 \<or> CRYEXTS_DIRECT_BLOCKS < expected then (Inl EUCLEAN, (i, st))
     else bindE
       (case i_private i of None \<Rightarrow> retE None
        | Some b \<Rightarrow>
            if \<not> has_flag (ii_inode_flags b) CRYEXTS_INODE_FLAG_DIR_INDEX then retE None
            else bindE cryexts_dir_index_load (\<lambda>index.
                   if unat (dx_dir_blocks index) \<noteq> expected then failE EUCLEAN
                   else retE (Some index))) (\<lambda>index.
     bindE (eachE (\<lambda>k. bindE (cryexts_inode_block_at (of_nat k)) (\<lambda>block (i, st).
              (if cryexts_data_block_valid st block then Inr () else Inl EUCLEAN, (i, st))))
            [0..<expected]) (\<lambda>_.
     bindE (\<lambda>(i, st). (if expected * BLOCK_SIZE < dir_limit i \<or> dir_limit i mod BLOCK_SIZE \<noteq> 0
              then Inl EUCLEAN else Inr (), (i, st))) (\<lambda>_.
     bindE (check_blocks index [0..<expected] (False, False)) (\<lambda>(seen_dot, seen_dotdot).
       if seen_dot \<and> seen_dotdot then retE () else failE EUCLEAN)))) (i, st))"

section \<open>Reading a directory\<close>

datatype dtype = DT_UNKNOWN | DT_DIR | DT_REG | DT_LNK

definition cryexts_dtype :: "u8 \<Rightarrow> dtype" where
  "cryexts_dtype file_type =
     (if file_type = CRYEXTS_FT_DIR then DT_DIR else if file_type = CRYEXTS_FT_REG_FILE then DT_REG
      else if file_type = CRYEXTS_FT_SYMLINK then DT_LNK else DT_UNKNOWN)"

text \<open>
  \<open>ctx\<close>: the position, and the entries that \<open>dir_emit\<close> took; \<open>full\<close> says when it refuses one
  more.  A walk stops (\<open>Inr\<close>) when it does, and the position then is that of the refused entry.
\<close>

record dir_context =
  ctx_pos :: u64
  ctx_out :: "(bytes \<times> u64 \<times> dtype) list"

definition emit_entry ::
    "((bytes \<times> u64 \<times> dtype) list \<Rightarrow> bool) \<Rightarrow> nat \<Rightarrow> fs \<Rightarrow> bytes \<Rightarrow> nat \<Rightarrow> cryexts_dir_entry \<Rightarrow>
     dir_context \<Rightarrow> dir_context + dir_context" where
  "emit_entry full k st buf off de ctx =
     (let pos = of_nat (k * BLOCK_SIZE + off + rec_len de) in
      if \<not> used_entry de then Inl (ctx\<lparr>ctx_pos := pos\<rparr>)
      else if full (ctx_out ctx) then Inr ctx
      else Inl \<lparr>ctx_pos = pos,
             ctx_out = ctx_out ctx @ [(de_name buf off de, de_inode de, cryexts_dtype (de_file_type de))]\<rparr>)"

text \<open>A block that fails its check keeps what was emitted before; \<open>walk_ctx\<close> returns the context
  also then.\<close>

function walk_ctx ::
    "(nat \<Rightarrow> cryexts_dir_entry \<Rightarrow> 'a \<Rightarrow> 'a + 'a) \<Rightarrow> fs \<Rightarrow> bytes \<Rightarrow> nat \<Rightarrow> nat \<Rightarrow> 'a \<Rightarrow> bool res \<times> 'a" where
  "walk_ctx body st buf lim offset ctx =
     (if lim \<le> offset then (Inr True, ctx)
      else (let de = dirent_at buf offset in
            case cryexts_validate_dirent st de offset lim of
              Inl e \<Rightarrow> (Inl e, ctx)
            | Inr _ \<Rightarrow>
                (case body offset de ctx of
                   Inr ctx \<Rightarrow> (Inr False, ctx)
                 | Inl ctx \<Rightarrow> walk_ctx body st buf lim (offset + rec_len de) ctx)))"
  by pat_completeness auto
termination
proof (relation "measure (\<lambda>(body, st, buf, lim, offset, acc). lim - offset)", simp)
  fix body :: "nat \<Rightarrow> cryexts_dir_entry \<Rightarrow> 'a \<Rightarrow> 'a + 'a" and st buf
    and lim offset :: nat and acc acc' :: 'a and de u
  assume "\<not> lim \<le> offset" "de = dirent_at buf offset"
    "cryexts_validate_dirent st de offset lim = Inr u"
  then show "((body, st, buf, lim, offset + rec_len de, acc'), body, st, buf, lim, offset, acc) \<in>
      measure (\<lambda>(body, st, buf, lim, offset, acc). lim - offset)"
    using validate_rec_len(1) [of st de offset lim] by simp
qed

declare walk_ctx.simps [simp del]

fun iterate_blocks ::
    "((bytes \<times> u64 \<times> dtype) list \<Rightarrow> bool) \<Rightarrow> nat list \<Rightarrow> dir_context \<Rightarrow> inode \<times> fs \<Rightarrow>
     (unit res \<times> dir_context) \<times> inode \<times> fs" where
  "iterate_blocks full [] ctx s = ((Inr (), ctx), s)"
| "iterate_blocks full (k # ks) ctx s =
     (case dir_bread k s of
        (Inl e, s) \<Rightarrow> ((Inl EIO, ctx), s)
      | (Inr block, (i, st)) \<Rightarrow>
          let buf = bdata st block; start = max (unat (ctx_pos ctx)) (k * BLOCK_SIZE) - k * BLOCK_SIZE in
          (case walk_ctx (emit_entry full k st buf) st buf (block_limit i k) start ctx of
             (Inl e, ctx) \<Rightarrow> ((Inl e, ctx), (i, st))
           | (Inr goes_on, ctx) \<Rightarrow>
               if goes_on then iterate_blocks full ks ctx (i, st) else ((Inr (), ctx), (i, st))))"

definition cryexts_iterate ::
    "((bytes \<times> u64 \<times> dtype) list \<Rightarrow> bool) \<Rightarrow> dir_context \<Rightarrow> inode \<times> fs \<Rightarrow>
     (unit res \<times> dir_context) \<times> inode \<times> fs" where
  "cryexts_iterate full ctx = (\<lambda>(i, st).
     if i_size i \<le> ctx_pos ctx then ((Inr (), ctx), (i, st))
     else iterate_blocks full [unat (ctx_pos ctx) div BLOCK_SIZE..<dir_blocks i] ctx (i, st))"

end
