(* ===== verification/DirBlock.thy ===== *)
theory DirBlock
  imports Dir
begin

text \<open>
  The entries of one block as a list.  \<open>seg st buf lim a b es\<close>: walking from offset \<open>a\<close> gives the
  valid entries \<open>es\<close> and arrives at offset \<open>b\<close>.  Each entry comes with its offset and its name.
  The walks of the code are folds over that list, and writing an entry replaces one segment.
\<close>

section \<open>Reading and writing one entry\<close>

lemma validate_iff:
  "cryexts_validate_dirent st de off lim = Inr () \<longleftrightarrow>
     12 \<le> rec_len de \<and> rec_len de mod 4 = 0 \<and> off + rec_len de \<le> lim \<and> off + rec_len de \<le> BLOCK_SIZE \<and>
     unat (de_name_len de) \<le> rec_len de - 12 \<and> unat (de_name_len de) \<le> 255 \<and>
     (de_inode de = 0 \<or> CRYEXTS_ROOT_INO \<le> de_inode de \<and> de_inode de \<le> cryexts_max_inodes st) \<and>
     de_file_type de \<in> {CRYEXTS_FT_UNKNOWN, CRYEXTS_FT_REG_FILE, CRYEXTS_FT_DIR, CRYEXTS_FT_SYMLINK}"
proof -
  have "cryexts_validate_dirent st de off lim = Inr () \<longleftrightarrow>
      \<not> (rec_len de < DIRENT_HEADER \<or> rec_len de mod 4 \<noteq> 0) \<and>
      \<not> (lim < off + rec_len de \<or> BLOCK_SIZE < off + rec_len de) \<and>
      \<not> (rec_len de - DIRENT_HEADER < unat (de_name_len de) \<or>
         CRYEXTS_NAME_LEN < unat (de_name_len de)) \<and>
      \<not> (de_inode de \<noteq> 0 \<and> (de_inode de < CRYEXTS_ROOT_INO \<or> cryexts_max_inodes st < de_inode de)) \<and>
      \<not> (de_file_type de \<noteq> CRYEXTS_FT_UNKNOWN \<and> de_file_type de \<noteq> CRYEXTS_FT_REG_FILE \<and>
         de_file_type de \<noteq> CRYEXTS_FT_DIR \<and> de_file_type de \<noteq> CRYEXTS_FT_SYMLINK)"
    unfolding cryexts_validate_dirent_def by (simp split: if_split)
  moreover have "DIRENT_HEADER = 12" "CRYEXTS_NAME_LEN = 255" by (simp_all add: const_simps)
  ultimately show ?thesis by (simp only: not_less de_Morgan_disj de_Morgan_conj not_not insert_iff empty_iff) blast
qed

lemma get_bytes_take: "o' + n \<le> m \<Longrightarrow> get_bytes (take m b) o' n = get_bytes b o' n"
  by (simp add: get_bytes_def drop_take min_def)

lemma dec_de_take: "dec_de (take 12 b) = dec_de b"
  by (simp add: dec_de_def get64_def get16_def get_bytes_take)

lemma dirent_at_cong:
  assumes "get_bytes buf off 12 = get_bytes buf' off 12"
  shows "dirent_at buf off = dirent_at buf' off"
  using assms dec_de_take [of "drop off buf"] dec_de_take [of "drop off buf'"]
  by (simp add: dirent_at_def get_bytes_def)

lemma length_enc_de [simp]: "length (enc_de d) = 12"
  by (simp add: enc_de_def)

lemma le_word_one [simp]: "le_word [b] = (b :: u8)"
  by simp

lemma dec_enc_de: "dec_de (enc_de d) = d"
  by (simp add: dec_de_def enc_de_def layout_simps get_bytes_def get64_def get16_def)

lemma dirent_put:
  assumes "off + 12 \<le> length buf"
  shows "dirent_at (put_dirent off de buf) off = de"
proof -
  have "get_bytes (put_dirent off de buf) off 12 = enc_de de"
    unfolding put_dirent_def by (rule get_put_bytes) (use assms in simp_all)
  then show ?thesis
    using dec_de_take [of "drop off (put_dirent off de buf)"]
    by (simp add: dirent_at_def get_bytes_def dec_enc_de)
qed

lemma length_put_dirent [simp]: "off + 12 \<le> length buf \<Longrightarrow> length (put_dirent off de buf) = length buf"
  by (simp add: put_dirent_def)

lemma length_put_name [simp]:
  "off + 12 + length nm \<le> length buf \<Longrightarrow> length (put_name off nm buf) = length buf"
  by (simp add: put_name_def DIRENT_HEADER_12)

lemma nth_put_dirent:
  "off + 12 \<le> length buf \<Longrightarrow> i < length buf \<Longrightarrow> i < off \<or> off + 12 \<le> i \<Longrightarrow> put_dirent off de buf ! i = buf ! i"
  by (auto simp: put_dirent_def nth_put_bytes)

lemma nth_put_name:
  "off + 12 + length nm \<le> length buf \<Longrightarrow> i < length buf \<Longrightarrow> i < off + 12 \<or> off + 12 + length nm \<le> i \<Longrightarrow>
   put_name off nm buf ! i = buf ! i"
  by (auto simp: put_name_def nth_put_bytes DIRENT_HEADER_12)

text \<open>Two buffers that agree on a range.\<close>

definition agree :: "nat \<Rightarrow> nat \<Rightarrow> bytes \<Rightarrow> bytes \<Rightarrow> bool" where
  "agree a b buf buf' \<longleftrightarrow> length buf = BLOCK_SIZE \<and> length buf' = BLOCK_SIZE \<and>
     (\<forall>i. a \<le> i \<longrightarrow> i < b \<longrightarrow> buf ! i = buf' ! i)"

lemma agree_get:
  assumes "agree a b buf buf'" "a \<le> off" "off + n \<le> b" "off + n \<le> BLOCK_SIZE"
  shows "get_bytes buf off n = get_bytes buf' off n"
  using assms by (intro nth_equalityI) (auto simp: agree_def get_bytes_def)

lemma agree_sub: "agree a b buf buf' \<Longrightarrow> a \<le> a' \<Longrightarrow> b' \<le> b \<Longrightarrow> agree a' b' buf buf'"
  by (auto simp: agree_def)

lemma agree_trans: "agree a b u v \<Longrightarrow> agree a b v w \<Longrightarrow> agree a b u w"
  by (auto simp: agree_def)

section \<open>Segments\<close>

type_synonym dirent = "nat \<times> cryexts_dir_entry \<times> bytes"

fun seg :: "fs \<Rightarrow> bytes \<Rightarrow> nat \<Rightarrow> nat \<Rightarrow> nat \<Rightarrow> dirent list \<Rightarrow> bool" where
  "seg st buf lim a b [] \<longleftrightarrow> a = b"
| "seg st buf lim a b ((off, de, nm) # es) \<longleftrightarrow>
     a < lim \<and> off = a \<and> de = dirent_at buf a \<and> nm = de_name buf a de \<and>
     cryexts_validate_dirent st de a lim = Inr () \<and> seg st buf lim (a + rec_len de) b es"

lemma seg_append: "seg st buf lim a c (us @ vs) \<longleftrightarrow> (\<exists>b. seg st buf lim a b us \<and> seg st buf lim b c vs)"
  by (induction us arbitrary: a) auto

lemma seg_le: "seg st buf lim a b es \<Longrightarrow> a \<le> b \<and> (es \<noteq> [] \<longrightarrow> a < b \<and> b \<le> lim)"
proof (induction es arbitrary: a)
  case (Cons e es)
  obtain off de nm where e: "e = (off, de, nm)" by (metis prod.exhaust)
  have v: "cryexts_validate_dirent st de a lim = Inr ()" "seg st buf lim (a + rec_len de) b es"
    using Cons.prems unfolding e seg.simps by blast+
  show ?case using Cons.IH [OF v(2)] validate_rec_len [OF v(1)] v(2) by (cases es) auto
qed simp

lemma seg_cong:
  assumes "seg st buf lim a b es" "agree a b buf buf'" "cryexts_max_inodes st' = cryexts_max_inodes st"
  shows "seg st' buf' lim a b es"
  using assms(1,2)
proof (induction es arbitrary: a)
  case (Cons e es)
  obtain off de nm where e: "e = (off, de, nm)" by (metis prod.exhaust)
  have v: "cryexts_validate_dirent st de a lim = Inr ()" "seg st buf lim (a + rec_len de) b es"
    "de = dirent_at buf a" "a < lim" "off = a" "nm = de_name buf a de"
    using Cons.prems(1) unfolding e seg.simps by blast+
  note r = validate_rec_len [OF v(1)]
  have le: "a + rec_len de \<le> b" using seg_le [OF v(2)] by simp
  have "get_bytes buf a 12 = get_bytes buf' a 12"
    by (rule agree_get [OF Cons.prems(2)]) (use r le in auto)
  then have d: "dirent_at buf' a = de" using dirent_at_cong v(3) by metis
  have "get_bytes buf (a + 12) (unat (de_name_len de)) = get_bytes buf' (a + 12) (unat (de_name_len de))"
    by (rule agree_get [OF Cons.prems(2)]) (use r le in auto)
  then have n: "de_name buf' a de = nm" using v(6) by (simp add: de_name_def DIRENT_HEADER_12)
  have "cryexts_validate_dirent st' de a lim = Inr ()"
    using v(1) assms(3) unfolding validate_iff by simp
  moreover have "seg st' buf' lim (a + rec_len de) b es"
    by (rule Cons.IH [OF v(2) agree_sub [OF Cons.prems(2)]]) simp_all
  ultimately show ?case using v d n by (simp add: e)
qed simp

lemma seg_entry:
  assumes "seg st buf lim a b es" "(off, de, nm) \<in> set es"
  shows "de = dirent_at buf off" "nm = de_name buf off de" "cryexts_validate_dirent st de off lim = Inr ()"
    "a \<le> off" "off + rec_len de \<le> b"
  using assms
proof (atomize (full), induction es arbitrary: a)
  case (Cons e es)
  obtain off' de' nm' where e: "e = (off', de', nm')" by (metis prod.exhaust)
  note s = Cons.prems(1) [unfolded e, simplified]
  show ?case
  proof (cases "(off, de, nm) = e")
    case True
    then show ?thesis using s seg_le [of st buf lim "a + rec_len de'" b es] by (auto simp: e)
  next
    case False
    then show ?thesis using Cons.IH [of "a + rec_len de'"] Cons.prems(2) s by auto
  qed
qed simp

section \<open>Walks are folds\<close>

fun walk_list :: "(nat \<Rightarrow> cryexts_dir_entry \<Rightarrow> 'a \<Rightarrow> 'a + 'r) \<Rightarrow> dirent list \<Rightarrow> 'a \<Rightarrow> 'a + 'r" where
  "walk_list body [] acc = Inl acc"
| "walk_list body ((off, de, nm) # es) acc =
     (case body off de acc of Inr r \<Rightarrow> Inr r | Inl acc \<Rightarrow> walk_list body es acc)"

lemma dir_walk_seg:
  "seg st buf lim a lim es \<Longrightarrow> dir_walk body st buf lim a acc = Inr (walk_list body es acc)"
proof (induction es arbitrary: a acc)
  case Nil
  then show ?case by (simp add: dir_walk.simps)
next
  case (Cons e es)
  obtain off de nm where e: "e = (off, de, nm)" by (metis prod.exhaust)
  note s = Cons.prems [unfolded e, simplified]
  show ?case
  proof (cases "body a de acc")
    case (Inr r)
    then show ?thesis using s by (subst dir_walk.simps) (auto simp: e)
  next
    case (Inl acc')
    then show ?thesis using s Cons.IH [of "a + rec_len de" acc'] by (subst dir_walk.simps) (auto simp: e)
  qed
qed

text \<open>A search: the first entry with a property.\<close>

lemma walk_list_find:
  assumes "\<And>off de nm. (off, de, nm) \<in> set es \<Longrightarrow> body off de () = (if P (off, de, nm) then Inr (f (off, de, nm)) else Inl ())"
  shows "walk_list body es () = (case List.find P es of None \<Rightarrow> Inl () | Some e \<Rightarrow> Inr (f e))"
  using assms
proof (induction es)
  case (Cons e es)
  obtain off de nm where e: "e = (off, de, nm)" by (metis prod.exhaust)
  have "body off de () = (if P e then Inr (f e) else Inl ())" using Cons.prems [of off de nm] by (simp add: e)
  moreover have "walk_list body es () = (case List.find P es of None \<Rightarrow> Inl () | Some e \<Rightarrow> Inr (f e))"
    by (rule Cons.IH) (use Cons.prems in auto)
  ultimately show ?case by (simp add: e)
qed simp

section \<open>Replacing a segment\<close>

lemma seg_replace:
  assumes s: "seg st buf lim 0 lim (us @ mid @ vs)" and m: "seg st buf lim a b mid"
    and pos: "seg st buf lim 0 a us"
    and m': "seg st buf' lim a b mid'" and out: "agree 0 a buf buf'" "agree b lim buf buf'"
  shows "seg st buf' lim 0 lim (us @ mid' @ vs)"
proof -
  obtain c d where c: "seg st buf lim 0 c us" "seg st buf lim c d mid" "seg st buf lim d lim vs"
    using s by (auto simp: seg_append)
  have uniq: "x = y" if "seg st buf lim z x es" "seg st buf lim z y es" for x y z es
    using that by (induction es arbitrary: z) auto
  have "c = a" by (rule uniq [OF c(1) pos])
  moreover have "d = b" using uniq [OF c(2)] m \<open>c = a\<close> by simp
  ultimately have "seg st buf lim 0 a us" "seg st buf lim b lim vs" using c by simp_all
  then have "seg st buf' lim 0 a us" "seg st buf' lim b lim vs"
    using seg_cong [OF _ out(1) refl] seg_cong [OF _ out(2) refl] by blast+
  then show ?thesis using m' by (auto simp: seg_append)
qed

section \<open>The length of an entry\<close>

lemma and_not_3: "w AND NOT 3 = push_bit 2 (drop_bit 2 (w :: u32))"
proof (rule bit_word_eqI)
  fix n
  have m: "(3 :: u32) = mask 2" by (simp add: mask_eq_exp_minus_1)
  assume "n < LENGTH(32)"
  then show "bit (w AND NOT 3) n = bit (push_bit 2 (drop_bit 2 w)) n"
    unfolding m using le_add_diff_inverse [of 2 n]
    by (cases "n < 2") (auto simp: bit_and_iff bit_not_iff bit_mask_iff bit_push_bit_iff bit_drop_bit_eq)
qed

lemma dir_rec_len:
  assumes "n \<le> 255"
  shows "dir_rec_len n = (15 + n) div 4 * 4" "12 + n \<le> dir_rec_len n" "dir_rec_len n mod 4 = 0"
    "dir_rec_len n \<le> 15 + n"
proof -
  have w: "unat (12 + of_nat n + 3 :: u32) = 15 + n"
    using assms by (simp add: unat_plus_if' unat_of_nat)
  have "unat (push_bit 2 (drop_bit 2 v)) = unat v div 4 * 4" if "unat v < 1000" for v :: u32
    using that by (simp add: push_bit_eq_mult drop_bit_eq_div unat_word_ariths unat_div)
  from this [of "12 + of_nat n + 3"] show "dir_rec_len n = (15 + n) div 4 * 4"
    using w assms
    unfolding dir_rec_len_def cryexts_dir_rec_len_def and_not_3 CRYEXTS_DIR_ENTRY_HEADER_SIZE_def by simp
  then show "12 + n \<le> dir_rec_len n" "dir_rec_len n mod 4 = 0" "dir_rec_len n \<le> 15 + n" by simp_all
qed

end
