(* ===== verification/DirUpdate.thy ===== *)
theory DirUpdate
  imports DirBlock
begin

text \<open>
  What the writes of the operations do to the list of entries of a block: filling a free entry,
  splitting an entry and filling its tail, clearing an entry, changing its inode number, and the
  two blocks that are written from scratch.
\<close>

section \<open>Filling\<close>

definition filled :: "bytes \<Rightarrow> u64 \<Rightarrow> u16 \<Rightarrow> cryexts_dir_entry \<Rightarrow> cryexts_dir_entry" where
  "filled name ino mode de = de\<lparr>de_inode := ino,
     de_rec_len := (if de_rec_len de \<noteq> 0 then de_rec_len de else of_nat BLOCK_SIZE),
     de_name_len := of_nat (length name), de_file_type := cryexts_file_type mode\<rparr>"

definition fill_buf :: "nat \<Rightarrow> bytes \<Rightarrow> u64 \<Rightarrow> u16 \<Rightarrow> bytes \<Rightarrow> bytes" where
  "fill_buf off name ino mode buf =
     put_name off name (put_dirent off (filled name ino mode (dirent_at buf off)) buf)"

definition ino_ok :: "fs \<Rightarrow> u64 \<Rightarrow> bool" where
  "ino_ok st ino \<longleftrightarrow> CRYEXTS_ROOT_INO \<le> ino \<and> ino \<le> cryexts_max_inodes st"

lemma ino_ok_nonzero: "ino_ok st ino \<Longrightarrow> ino \<noteq> 0"
  by (auto simp: ino_ok_def CRYEXTS_ROOT_INO_def)

lemma file_type_ok:
  "cryexts_file_type mode \<in> {CRYEXTS_FT_UNKNOWN, CRYEXTS_FT_REG_FILE, CRYEXTS_FT_DIR, CRYEXTS_FT_SYMLINK}"
  by (simp add: cryexts_file_type_def)

lemma unat_length8: "length nm \<le> 255 \<Longrightarrow> unat (of_nat (length nm) :: u8) = length nm"
  by (simp add: unat_of_nat)

lemma get_name_put:
  assumes "off + 12 + length nm \<le> length buf"
  shows "get_bytes (put_name off nm buf) (off + 12) (length nm) = nm"
  unfolding put_name_def DIRENT_HEADER_12 by (rule get_put_bytes) (use assms in simp_all)

lemma header_put_name:
  assumes "off + 12 + length nm \<le> length buf"
  shows "dirent_at (put_name off nm buf) off = dirent_at buf off"
  unfolding put_name_def DIRENT_HEADER_12
  by (rule dirent_at_cong, rule get_put_bytes_disjoint) (use assms in simp_all)

lemma fill_seg:
  assumes len: "length buf = BLOCK_SIZE" "length name \<le> 255" "12 + length name \<le> r"
    and r: "r = rec_len (dirent_at buf off)" "r mod 4 = 0" "off + r \<le> lim" "lim \<le> BLOCK_SIZE"
    and ino: "ino_ok st ino"
  shows "seg st (fill_buf off name ino mode buf) lim off (off + r)
      [(off, filled name ino mode (dirent_at buf off), name)]"
    "agree 0 off buf (fill_buf off name ino mode buf)"
    "agree (off + r) lim buf (fill_buf off name ino mode buf)"
    "length (fill_buf off name ino mode buf) = BLOCK_SIZE"
proof -
  let ?de = "filled name ino mode (dirent_at buf off)"
  let ?b1 = "put_dirent off ?de buf"
  have fit: "off + 12 + length name \<le> BLOCK_SIZE" using len r by simp
  have l1: "length ?b1 = BLOCK_SIZE" using fit len by simp
  have nz: "de_rec_len (dirent_at buf off) \<noteq> 0" using len(3) r(1) by (auto simp: rec_len_def)
  have d: "rec_len ?de = r" "unat (de_name_len ?de) = length name" "de_inode ?de = ino"
    "de_file_type ?de = cryexts_file_type mode"
    using nz len(2) r(1) by (simp_all add: filled_def rec_len_def unat_length8)
  have e: "dirent_at (fill_buf off name ino mode buf) off = ?de"
    unfolding fill_buf_def using header_put_name [of off name ?b1] dirent_put [of off buf ?de] fit l1 len by simp
  have n: "de_name (fill_buf off name ino mode buf) off ?de = name"
    unfolding de_name_def fill_buf_def d(2) DIRENT_HEADER_12 using get_name_put [of off name ?b1] fit l1 by simp
  have "cryexts_validate_dirent st ?de off lim = Inr ()"
    unfolding validate_iff d using len r ino file_type_ok [of mode] by (auto simp: ino_ok_def)
  then show "seg st (fill_buf off name ino mode buf) lim off (off + r) [(off, ?de, name)]"
    using e n r len(3) d(1) by simp
  show l: "length (fill_buf off name ino mode buf) = BLOCK_SIZE"
    unfolding fill_buf_def using l1 fit by simp
  have same: "fill_buf off name ino mode buf ! i = buf ! i" if "i < BLOCK_SIZE" "i < off \<or> off + r \<le> i" for i
    unfolding fill_buf_def
    using nth_put_name [of off name ?b1 i] nth_put_dirent [of off buf i ?de] that fit l1 len by auto
  show "agree 0 off buf (fill_buf off name ino mode buf)" "agree (off + r) lim buf (fill_buf off name ino mode buf)"
    using same l len(1) r(3,4) by (auto simp: agree_def)
qed

section \<open>Splitting\<close>

definition split_buf :: "nat \<Rightarrow> nat \<Rightarrow> bytes \<Rightarrow> bytes" where
  "split_buf off actual buf =
     (let de = dirent_at buf off;
          buf = put_dirent off (de\<lparr>de_rec_len := of_nat actual\<rparr>) buf;
          new = dirent_at buf (off + actual)
      in put_dirent (off + actual) (new\<lparr>de_rec_len := of_nat (rec_len de - actual)\<rparr>) buf)"

lemma unat_small16: "n < 65536 \<Longrightarrow> unat (of_nat n :: u16) = n"
  by (simp add: unat_of_nat)

lemma split_seg:
  assumes s: "seg st buf lim off (off + r) [(off, de, nm)]" and len: "length buf = BLOCK_SIZE"
    and act: "actual = dir_rec_len (unat (de_name_len de))" "actual + 12 \<le> r" and lim: "lim \<le> BLOCK_SIZE"
  shows "seg st (split_buf off actual buf) lim off (off + actual) [(off, de\<lparr>de_rec_len := of_nat actual\<rparr>, nm)]"
    "rec_len (dirent_at (split_buf off actual buf) (off + actual)) = r - actual"
    "agree 0 off buf (split_buf off actual buf)"
    "agree (off + r) lim buf (split_buf off actual buf)"
    "length (split_buf off actual buf) = BLOCK_SIZE"
    "(r - actual) mod 4 = 0"
proof -
  have v: "cryexts_validate_dirent st de off lim = Inr ()" "de = dirent_at buf off" "nm = de_name buf off de"
      "off < lim" "off + rec_len de = off + r"
    using s by auto
  note w = v(1) [unfolded validate_iff]
  have r: "rec_len de = r" "off + r \<le> BLOCK_SIZE" "r mod 4 = 0" "off + r \<le> lim" using v(5) w by simp_all
  have small: "actual < 65536" "r - actual < 65536" using act r by (simp_all add: BLOCK_SIZE_def)
  have a: "12 + unat (de_name_len de) \<le> actual" "actual mod 4 = 0"
    using dir_rec_len [of "unat (de_name_len de)"] act(1) w by simp_all
  let ?b1 = "put_dirent off (de\<lparr>de_rec_len := of_nat actual\<rparr>) buf"
  let ?new = "dirent_at ?b1 (off + actual)\<lparr>de_rec_len := of_nat (r - actual)\<rparr>"
  have l1: "length ?b1 = BLOCK_SIZE" using r len act(2) by simp
  have sp: "split_buf off actual buf = put_dirent (off + actual) ?new ?b1"
    by (simp add: split_buf_def Let_def v(2) [symmetric] r(1))
  show l: "length (split_buf off actual buf) = BLOCK_SIZE" unfolding sp using l1 r act(2) by simp
  have "dirent_at (split_buf off actual buf) (off + actual) = ?new"
    unfolding sp by (rule dirent_put) (use l1 r act(2) in simp)
  then show "rec_len (dirent_at (split_buf off actual buf) (off + actual)) = r - actual"
    using small by (simp add: rec_len_def unat_small16)
  have keep: "agree 0 (off + actual) ?b1 (split_buf off actual buf)"
    unfolding agree_def sp using l1 l [unfolded sp] r act(2) nth_put_dirent [of "off + actual" ?b1 _ ?new] by auto
  have b1: "agree 0 off buf ?b1" "agree (off + 12) lim buf ?b1"
    unfolding agree_def using l1 len r act(2) nth_put_dirent [of off buf] lim by auto
  show "agree 0 off buf (split_buf off actual buf)"
    using agree_trans [OF b1(1) agree_sub [OF keep]] by simp
  have "agree (off + r) lim ?b1 (split_buf off actual buf)"
    unfolding agree_def sp using l1 l [unfolded sp] r act(2) nth_put_dirent [of "off + actual" ?b1 _ ?new] lim by auto
  then show "agree (off + r) lim buf (split_buf off actual buf)"
    using agree_trans [OF agree_sub [OF b1(2)]] act(2) by simp
  let ?de = "de\<lparr>de_rec_len := of_nat actual\<rparr>"
  have h: "dirent_at (split_buf off actual buf) off = ?de"
    using dirent_at_cong [OF agree_get [OF keep, of off 12]] dirent_put [of off buf ?de] r act(2) len a by simp
  have "get_bytes buf (off + 12) (unat (de_name_len de)) = get_bytes ?b1 (off + 12) (unat (de_name_len de))"
    by (rule agree_get [OF b1(2)]) (use a r act(2) in simp_all)
  also have "\<dots> = get_bytes (split_buf off actual buf) (off + 12) (unat (de_name_len de))"
    by (rule agree_get [OF keep]) (use a r act(2) in simp_all)
  finally have n: "de_name (split_buf off actual buf) off ?de = nm"
    using v(3) by (simp add: de_name_def DIRENT_HEADER_12)
  have rl: "rec_len ?de = actual" using small by (simp add: rec_len_def unat_small16)
  have "cryexts_validate_dirent st ?de off lim = Inr ()"
    unfolding validate_iff rl using w a r act(2) by auto
  then show "seg st (split_buf off actual buf) lim off (off + actual) [(off, ?de, nm)]"
    using h n rl v(4) by simp
  show "(r - actual) mod 4 = 0" using r(3) a(2) act(2) by (metis mod_eq_0_iff_dvd dvd_diff_nat)
qed

section \<open>Changing an entry in place\<close>

lemma change_seg:
  assumes s: "seg st buf lim off c [(off, de, nm)]" and len: "length buf = BLOCK_SIZE" "lim \<le> BLOCK_SIZE"
    and same: "de_rec_len (f de) = de_rec_len de" and ok: "cryexts_validate_dirent st (f de) off lim = Inr ()"
    and name: "unat (de_name_len (f de)) \<le> unat (de_name_len de)"
  shows "seg st (put_dirent off (f de) buf) lim off c [(off, f de, take (unat (de_name_len (f de))) nm)]"
    "agree 0 off buf (put_dirent off (f de) buf)" "agree c lim buf (put_dirent off (f de) buf)"
    "length (put_dirent off (f de) buf) = BLOCK_SIZE"
proof -
  have v: "cryexts_validate_dirent st de off lim = Inr ()" "de = dirent_at buf off" "nm = de_name buf off de"
      "off < lim" "off + rec_len de = c"
    using s by auto
  note r = validate_rec_len [OF v(1)]
  let ?b = "put_dirent off (f de) buf"
  show l: "length ?b = BLOCK_SIZE" using len r by simp
  have out: "agree 0 off buf ?b" "agree (off + 12) BLOCK_SIZE buf ?b"
    unfolding agree_def using l len r nth_put_dirent [of off buf _ "f de"] by auto
  then show "agree 0 off buf ?b" "agree c lim buf ?b"
    using agree_sub [OF out(2)] r v(5) len(2) by auto
  have h: "dirent_at ?b off = f de" by (rule dirent_put) (use len r in simp)
  let ?n = "unat (de_name_len (f de))"
  have "get_bytes ?b (off + 12) ?n = get_bytes buf (off + 12) ?n"
    by (rule agree_get [OF out(2), symmetric]) (use r name in simp_all)
  also have "\<dots> = take ?n nm" using name by (simp add: v(3) de_name_def DIRENT_HEADER_12 get_bytes_def min_def)
  finally have n: "de_name ?b off (f de) = take ?n nm" by (simp add: de_name_def DIRENT_HEADER_12)
  show "seg st ?b lim off c [(off, f de, take ?n nm)]"
    using h n ok v(4,5) same by (simp add: rec_len_def)
qed

section \<open>Blocks written from scratch\<close>

lemma zero_entry: "length free_entry_block = BLOCK_SIZE"
  "dirent_at free_entry_block 0 = \<lparr>de_inode = 0, de_rec_len = of_nat BLOCK_SIZE, de_name_len = 0,
     de_file_type = CRYEXTS_FT_UNKNOWN\<rparr>"
  by (simp_all add: free_entry_block_def dirent_put BLOCK_SIZE_def)

lemma fresh_seg:
  assumes "length name \<le> 255" "ino_ok st ino"
  shows "seg st (fill_buf 0 name ino mode free_entry_block) BLOCK_SIZE 0 BLOCK_SIZE
    [(0, filled name ino mode (dirent_at free_entry_block 0), name)]"
    "length (fill_buf 0 name ino mode free_entry_block) = BLOCK_SIZE"
proof -
  have r: "BLOCK_SIZE = rec_len (dirent_at free_entry_block 0)"
    by (simp add: zero_entry rec_len_def BLOCK_SIZE_def)
  have b: "12 + length name \<le> BLOCK_SIZE" "BLOCK_SIZE mod 4 = 0" using assms by (simp_all add: BLOCK_SIZE_def)
  note f = fill_seg [OF zero_entry(1) assms(1) b(1) r b(2) _ _ assms(2), of BLOCK_SIZE]
  show "seg st (fill_buf 0 name ino mode free_entry_block) BLOCK_SIZE 0 BLOCK_SIZE
    [(0, filled name ino mode (dirent_at free_entry_block 0), name)]"
    "length (fill_buf 0 name ino mode free_entry_block) = BLOCK_SIZE"
    using f(1) [of mode] f(4) [of mode] by (simp_all only: add_0)
qed

end
