(* ===== verification/ExtentMap.thy ===== *)
theory ExtentMap
  imports BlockMap InodeAlloc
begin

text \<open>
  The extents of a file as a partial map from logical to physical blocks (\<open>find_extent\<close>), and the
  blocks that a file owns.  Looking up a block with allocation adds one fresh block to the map and
  changes nothing else of it, and whatever happens, the blocks that become used are the ones the
  file owns afterwards: no path of the code leaks a block.
\<close>

section \<open>The list of extents\<close>

text \<open>All extents of the inode in the order in which the code walks over them.\<close>

definition leaf_extents :: "cryexts_extent_leaf_cache list \<Rightarrow> cryexts_extent list" where
  "leaf_extents leaves = concat (map lf_extents leaves)"

lemma leaf_extents_simps [simp]:
  "leaf_extents [] = []" "leaf_extents (l # ls) = lf_extents l @ leaf_extents ls"
  "leaf_extents (ls @ ks) = leaf_extents ls @ leaf_extents ks"
  by (simp_all add: leaf_extents_def)

lemma leaf_entry_nth:
  "leaf_entry leaves k =
     (if k < length (leaf_extents leaves) then Some (leaf_extents leaves ! k) else None)"
  by (induction leaves arbitrary: k) (auto simp: nth_append)

lemma length_leaf_extents:
  "length (leaf_extents leaves) = sum_list (map (\<lambda>leaf. length (lf_extents leaf)) leaves)"
  by (induction leaves) simp_all

lemma map_filter_nth: "List.map_filter (\<lambda>k. if k < length xs then Some (xs ! k) else None) [0..<length xs] = xs"
proof -
  have "List.map_filter (\<lambda>k. if k < length xs then Some (xs ! k) else None) ks = map ((!) xs) ks"
    if "\<forall>k \<in> set ks. k < length xs" for ks
    using that by (induction ks) (simp_all add: List.map_filter_def)
  from this [of "[0..<length xs]"] show ?thesis by (simp add: map_nth)
qed

lemma extent_entry_nth:
  "cryexts_extent_entry b k =
     (if k < length (extent_list b) then Some (extent_list b ! k) else None)"
  "cryexts_extent_total_entries b = length (extent_list b)"
  "extent_list b = (if cryexts_extent_tree_v2_inode b then leaf_extents (ii_extent_leaves b)
     else ii_extents b @ ii_overflow_extents b)"
proof -
  let ?xs = "if cryexts_extent_tree_v2_inode b then leaf_extents (ii_extent_leaves b)
     else ii_extents b @ ii_overflow_extents b"
  have e: "cryexts_extent_entry b = (\<lambda>k. if k < length ?xs then Some (?xs ! k) else None)"
    by (auto simp: fun_eq_iff cryexts_extent_entry_def leaf_entry_nth nth_append)
  have t: "cryexts_extent_total_entries b = length ?xs"
    by (simp add: cryexts_extent_total_entries_def length_leaf_extents)
  show l: "extent_list b = ?xs" unfolding extent_list_def e t by (rule map_filter_nth)
  show "cryexts_extent_entry b k =
     (if k < length (extent_list b) then Some (extent_list b ! k) else None)"
    "cryexts_extent_total_entries b = length (extent_list b)"
    unfolding l using e t by simp_all
qed

lemma leaf_update_nth:
  "k < length (leaf_extents leaves) \<Longrightarrow>
   leaf_extents (leaf_update k f leaves) = (leaf_extents leaves)[k := f (leaf_extents leaves ! k)] \<and>
   map lf_block (leaf_update k f leaves) = map lf_block leaves"
  by (induction leaves arbitrary: k) (auto simp: list_update_append nth_append)

lemma extent_list_upd:
  assumes "k < length (extent_list b)"
  shows "extent_list (upd_extent k f b) = (extent_list b)[k := f (extent_list b ! k)]"
proof (cases "cryexts_extent_tree_v2_inode b")
  case True
  then have "cryexts_extent_tree_v2_inode (upd_extent k f b)"
    by (simp add: upd_extent_def cryexts_extent_tree_v2_inode_def)
  then show ?thesis
    using assms True leaf_update_nth [of k "ii_extent_leaves b" f]
    by (simp add: extent_entry_nth(3)) (simp add: upd_extent_def)
next
  case False
  then have "\<not> cryexts_extent_tree_v2_inode (upd_extent k f b)"
    by (simp add: upd_extent_def cryexts_extent_tree_v2_inode_def Let_def)
  then show ?thesis
    using assms False
    by (simp add: extent_entry_nth(3))
      (auto simp: upd_extent_def Let_def list_update_append nth_append)
qed

section \<open>The map\<close>

text \<open>No extent runs over the end of the numbers.\<close>

definition extent_fits :: "cryexts_extent \<Rightarrow> bool" where
  "extent_fits e \<longleftrightarrow> unat (e_logical_start e) + unat (e_length e) < 2 ^ 64"

lemma extent_covers_nat:
  "extent_fits e \<Longrightarrow> extent_covers l e \<longleftrightarrow>
     unat (e_logical_start e) \<le> unat l \<and> unat l < unat (e_logical_start e) + unat (e_length e)"
proof -
  assume "extent_fits e"
  then have "unat (e_logical_start e + ucast (e_length e)) = unat (e_logical_start e) + unat (e_length e)"
    by (simp add: extent_fits_def unat_plus_if' unat_ucast32)
  then show ?thesis by (auto simp: extent_covers_def word_less_nat_alt word_le_nat_alt)
qed

text \<open>One more extent of length 1, or the last extent longer by 1.\<close>

lemma find_append: "List.find P (xs @ ys) = (case List.find P xs of None \<Rightarrow> List.find P ys | Some x \<Rightarrow> Some x)"
  by (induction xs) auto

definition xmap :: "cryexts_extent list \<Rightarrow> u64 \<Rightarrow> u64 option" where
  "xmap es l = map_option (extent_block l) (List.find (extent_covers l) es)"

lemma find_extent_xmap: "find_extent b = xmap (extent_list b)"
  by (simp add: fun_eq_iff find_extent_def xmap_def)

lemma xmap_append: "xmap (xs @ ys) l = (case xmap xs l of None \<Rightarrow> xmap ys l | Some p \<Rightarrow> Some p)"
  by (simp add: xmap_def find_append split: option.splits)

lemma xmap_Cons: "xmap (x # xs) l = (if extent_covers l x then Some (extent_block l x) else xmap xs l)"
  by (simp add: xmap_def)

lemma xmap_Nil [simp]: "xmap [] l = None"
  by (simp add: xmap_def)

lemma not_max_nat: "l \<noteq> - 1 \<Longrightarrow> unat l + 1 < 2 ^ 64" for l :: u64
proof -
  assume "l \<noteq> - 1"
  then have "unat l \<noteq> unat (- 1 :: u64)" unfolding word_unat_eq_iff .
  moreover have "unat (- 1 :: u64) = 2 ^ 64 - 1"
    by (simp add: unsigned_minus_1_eq_mask mask_eq_exp_minus_1)
  ultimately show ?thesis using unsigned_less [of l, where 'a = nat] by simp
qed

lemma new_extent_covers: "l \<noteq> - 1 \<Longrightarrow> extent_covers k (new_extent l p 1) \<longleftrightarrow> k = l"
proof -
  assume "l \<noteq> - 1"
  then have "extent_fits (new_extent l p 1)" using not_max_nat by (simp add: extent_fits_def new_extent_def)
  from extent_covers_nat [OF this, of k] have "extent_covers k (new_extent l p 1) \<longleftrightarrow> unat k = unat l"
    unfolding new_extent_def by auto
  then show ?thesis unfolding word_unat_eq_iff .
qed

lemma xmap_insert:
  assumes "xmap (us @ vs) l = None" "l \<noteq> - 1"
  shows "xmap (us @ new_extent l p 1 # vs) = (xmap (us @ vs))(l := Some p)"
proof
  fix k
  have "extent_block l (new_extent l p 1) = p" by (simp add: extent_block_def new_extent_def)
  then show "xmap (us @ new_extent l p 1 # vs) k = ((xmap (us @ vs))(l := Some p)) k"
    using assms new_extent_covers [OF assms(2), of k p]
    by (auto simp: xmap_append xmap_Cons split: option.splits)
qed

lemma xmap_grow:
  assumes none: "xmap (us @ [e]) l = None" and fits: "extent_fits e" "l \<noteq> - 1"
    and l: "l = e_logical_start e + ucast (e_length e)" and len: "unat (e_length e) < 2 ^ 32 - 1"
  shows "xmap (us @ [e\<lparr>e_length := e_length e + 1\<rparr>]) =
    (xmap (us @ [e]))(l := Some (e_physical_start e + ucast (e_length e)))"
proof
  fix k
  let ?e = "e\<lparr>e_length := e_length e + 1\<rparr>"
  have ln: "unat l = unat (e_logical_start e) + unat (e_length e)"
    using fits(1) by (simp add: l extent_fits_def unat_plus_if' unat_ucast32)
  have l1: "unat (e_length e + 1) = unat (e_length e) + 1" using len by (simp add: unat_plus_if')
  have "extent_fits ?e" using ln l1 not_max_nat [OF fits(2)] by (simp add: extent_fits_def)
  then have "extent_covers k ?e \<longleftrightarrow> extent_covers k e \<or> unat k = unat l"
    using extent_covers_nat [OF fits(1), of k] extent_covers_nat [of ?e k] ln l1 by auto
  then have "extent_covers k ?e \<longleftrightarrow> extent_covers k e \<or> k = l" unfolding word_unat_eq_iff .
  moreover have "extent_block k ?e = extent_block k e" by (simp add: extent_block_def)
  moreover have "extent_block l e = e_physical_start e + ucast (e_length e)"
    by (simp add: extent_block_def l)
  ultimately show "xmap (us @ [?e]) k =
      ((xmap (us @ [e]))(l := Some (e_physical_start e + ucast (e_length e)))) k"
    using none by (auto simp: xmap_append xmap_Cons split: option.splits if_splits)
qed

section \<open>Blocks of the file system and of the inode\<close>

text \<open>
  The allocator's invariant, and that metadata the driver holds in buffers is marked used: no free
  block is a bitmap, a block of the group descriptor table or of the journal.
\<close>

definition disk_ok :: "fs \<Rightarrow> bool" where
  "disk_ok st \<longleftrightarrow> alloc_ok st \<and>
     (\<forall>b \<in> block_space st - block_used st. b \<notin> set (bitmaps st) \<and> b \<notin> side st)"

text \<open>The blocks \<open>X\<close> were free and are used now, and nothing else changed.\<close>

definition took :: "u64 set \<Rightarrow> fs \<Rightarrow> fs \<Rightarrow> bool" where
  "took X a b \<longleftrightarrow> disk_ok b \<and> geo_view b = geo_view a \<and> block_space b = block_space a \<and>
     X \<subseteq> block_space a - block_used a \<and> block_used b = block_used a \<union> X"

lemma took_refl: "disk_ok a \<Longrightarrow> took {} a a"
  by (simp add: took_def)

lemma took_trans: "took X a b \<Longrightarrow> took Y b c \<Longrightarrow> took (X \<union> Y) a c"
  by (auto simp: took_def)

lemma took_ok: "took X a b \<Longrightarrow> disk_ok b"
  by (simp add: took_def)

text \<open>A change that no bitmap sees.\<close>

lemma took_same:
  assumes "took X a b" "alloc_same b c"
  shows "took X a c"
proof -
  have ok: "alloc_ok b" using assms(1) by (simp add: took_def disk_ok_def)
  have g: "geo_view c = geo_view b" using assms(2) by (simp add: alloc_same_def)
  show ?thesis
    using assms(1) alloc_same_sets [OF ok assms(2)] geo_basic(5,8) [OF g] g
    by (simp add: took_def disk_ok_def)
qed

lemma took_tick: "took X a b \<Longrightarrow> took X a (b\<lparr>d_tick := n\<rparr>)"
  by (rule took_same [of X a b]) (simp_all add: alloc_same_def geo_view_def)

lemma block_alloc_flipped:
  assumes ok: "alloc_ok st" and res: "cryexts_alloc_block_goal goal grp st = (Inr b, st')"
  shows "\<exists>bh k. bh \<in> set (bitmaps st) \<and> bit_flipped True bh k st st'"
proof -
  obtain st1 where s: "block_search goal grp st = (Inr b, st1)" and st': "st' = alloc_block_account b st1"
    using res by (auto simp: alloc_block_goal_eq bindE_eq_Inr)
  then have g: "b \<in> block_space st - block_used st"
      "bit_flipped True (bmap st (block_group st b)) (block_bit st b) st st1"
    using block_search_grabbed [OF ok, of goal grp] by (simp_all add: block_grabbed_def)
  then have "block_group st b < ngroups st" using block_place(1) [OF ok] by (simp add: block_space_def)
  then show ?thesis using block_account(1) [OF ok g(2)] st' bitmap_in(1) by blast
qed

lemma block_free_flipped:
  assumes ok: "alloc_ok st" and x: "x \<in> block_used st"
  shows "\<exists>bh k st'. cryexts_free_block x st = (Inr (), st') \<and> bh \<in> set (bitmaps st) \<and>
    bit_flipped False bh k st st'"
proof -
  have v: "cryexts_data_block_valid st x" and u: "cryexts_block_bitmap_used st x"
    using x block_used_space by (auto simp: block_used_def block_space_def)
  obtain m where m: "cryexts_free_block x st = (Inr (), free_block_account m)"
      "bit_flipped False (bmap st (block_group st x)) (block_bit st x) st m"
    by (rule free_block_cases [OF ok v u]) blast
  then show ?thesis using free_block_account(1) [OF ok m(2)] block_place(1) [OF ok v] bitmap_in(1) by blast
qed

lemma flipped_geo: "bit_flipped v bh k a b \<Longrightarrow> geo_view b = geo_view a"
  by (simp add: bit_flipped_def)

lemma take_block:
  assumes ok: "disk_ok st" and a: "cryexts_alloc_block_goal goal grp st = (r, st')"
  shows "case r of Inr b \<Rightarrow> took {b} st st' | Inl e \<Rightarrow> took {} st st'"
proof (cases r)
  case (Inl e)
  then show ?thesis
    using block_alloc_fail [of st goal grp e st'] a ok took_refl by (simp add: disk_ok_def)
next
  case (Inr b)
  have al: "alloc_ok st" using ok by (simp add: disk_ok_def)
  note k = block_alloc_ok [OF al a [unfolded Inr]]
  obtain bh i where "bit_flipped True bh i st st'" using block_alloc_flipped [OF al a [unfolded Inr]] by blast
  then have g: "geo_view st' = geo_view st" by (rule flipped_geo)
  then show ?thesis
    using k ok geo_basic(5,8) [OF g] Inr by (auto simp: took_def disk_ok_def)
qed

lemma give_back:
  assumes t: "took X a b" and ok: "disk_ok a" and x: "x \<in> X"
  shows "\<exists>c. cryexts_free_block x b = (Inr (), c) \<and> took (X - {x}) a c"
proof -
  have al: "alloc_ok b" and u: "x \<in> block_used b" using t x by (auto simp: took_def disk_ok_def)
  obtain bh k c where f: "cryexts_free_block x b = (Inr (), c)" "bit_flipped False bh k b c"
    using block_free_flipped [OF al u] by blast
  note s = block_free_ok [OF al f(1)]
  have g: "geo_view c = geo_view a" using flipped_geo [OF f(2)] t by (simp add: took_def)
  have "took (X - {x}) a c"
    using s t x ok geo_basic(5,8) [OF g] g by (auto simp: took_def disk_ok_def)
  with f show ?thesis by blast
qed

section \<open>Steps of an inode\<close>

text \<open>A new block is cleared; if that fails it is given back.\<close>

lemma zero_block_same:
  assumes t: "took X a b" and ok: "disk_ok a" and x: "x \<in> X"
  shows "took X a (mark_buffer_dirty x (set_bdata x zero_block b))"
proof (rule took_same [OF t])
  have g: "geo_view b = geo_view a" using t by (simp add: took_def)
  have "x \<in> block_space a - block_used a" using t x by (auto simp: took_def)
  then have "x \<notin> set (bitmaps b)" "x \<noteq> 0"
    using ok geo_basic(5) [OF g] by (auto simp: disk_ok_def block_space_def)
  then show "alloc_same b (mark_buffer_dirty x (set_bdata x zero_block b))"
    by (auto simp: alloc_same_def mark_buffer_dirty_def set_bdata_def geo_view_def)
qed

lemma zero_or_free:
  assumes t: "took X a b" and ok: "disk_ok a" and x: "x \<in> X"
    and r: "zero_or_free x (i, b) = (r, (i', c))"
  shows "i' = i \<and> (case r of Inr _ \<Rightarrow> took X a c | Inl e \<Rightarrow> took (X - {x}) a c)"
proof -
  have z: "took X a (mark_buffer_dirty x (set_bdata x zero_block (b\<lparr>d_tick := n\<rparr>)))" for n
    by (rule zero_block_same [OF took_tick [OF t] ok x])
  obtain m where m: "cryexts_free_block x (b\<lparr>d_tick := Suc (d_tick b)\<rparr>) = (Inr (), m)" "took (X - {x}) a m"
    using give_back [OF took_tick [OF t] ok x] by blast
  then show ?thesis
    using r z by (auto simp: zero_or_free_def onfs_def on_errE_def cryexts_zero_new_block_def bindE_def
        io_step_def modE_def ignoreE_def split: if_splits)
qed

text \<open>The part of the inode that extents and ownership depend on.\<close>

definition same_map :: "cryexts_inode_info \<Rightarrow> cryexts_inode_info \<Rightarrow> bool" where
  "same_map b b' \<longleftrightarrow> ii_use_extents b' = ii_use_extents b \<and> ii_inode_flags b' = ii_inode_flags b \<and>
     ii_extent_inline_max b' = ii_extent_inline_max b \<and> ii_extents b' = ii_extents b \<and>
     ii_overflow_extents b' = ii_overflow_extents b \<and> ii_extent_leaves b' = ii_extent_leaves b \<and>
     ii_extent_overflow_block b' = ii_extent_overflow_block b"

lemma same_map_hints [simp]:
  "same_map b b" "same_map b (cryexts_reserve st p b)" "same_map b (cryexts_update_alloc_hint st p b)"
  by (auto simp: same_map_def cryexts_reserve_def cryexts_update_alloc_hint_def
      cryexts_reset_reservation_def Let_def)

lemma same_map_trans: "same_map a b \<Longrightarrow> same_map b c \<Longrightarrow> same_map a c"
  by (simp add: same_map_def)

lemma same_map_list: "same_map b b' \<Longrightarrow> extent_list b' = extent_list b"
  by (simp add: same_map_def extent_entry_nth(3) cryexts_extent_tree_v2_inode_def)

text \<open>The blocks of an extent, and all blocks that the inode owns.\<close>

definition extent_run :: "cryexts_extent \<Rightarrow> u64 set" where
  "extent_run e = (\<lambda>k. e_physical_start e + of_nat k) ` {..<unat (e_length e)}"

definition meta_list :: "cryexts_inode_info \<Rightarrow> u64 list" where
  "meta_list b = (if cryexts_extent_tree_v2_inode b then map lf_block (ii_extent_leaves b)
     else if ii_extent_overflow_block b = 0 then [] else [ii_extent_overflow_block b])"

definition meta_blocks :: "cryexts_inode_info \<Rightarrow> u64 set" where "meta_blocks b = set (meta_list b)"

text \<open>Blocks for extents are only added.\<close>

definition meta_more :: "cryexts_inode_info \<Rightarrow> cryexts_inode_info \<Rightarrow> bool" where
  "meta_more b b' \<longleftrightarrow> (\<exists>ms. meta_list b' = meta_list b @ ms \<and> distinct ms \<and> set ms \<inter> meta_blocks b = {})"

lemma meta_more_sub: "meta_more b b' \<Longrightarrow> meta_blocks b \<subseteq> meta_blocks b'"
  by (auto simp: meta_more_def meta_blocks_def)

lemma meta_more_same: "meta_list b' = meta_list b \<Longrightarrow> meta_more b b' \<and> meta_blocks b' = meta_blocks b"
  by (simp add: meta_more_def meta_blocks_def)

definition owned :: "cryexts_inode_info \<Rightarrow> u64 set" where
  "owned b = (\<Union>e \<in> set (extent_list b). extent_run e) \<union> meta_blocks b"

lemma same_map_owned: "same_map b b' \<Longrightarrow> owned b' = owned b"
  using same_map_list [of b b']
  by (simp add: owned_def meta_blocks_def meta_list_def same_map_def cryexts_extent_tree_v2_inode_def)

lemma alloc_for_inode:
  assumes ok: "disk_ok st" and b: "i_private i = Some b"
    and r: "cryexts_alloc_data_block_for_inode (i, st) = (r, (i', st'))"
  shows "\<exists>b'. i' = i\<lparr>i_private := Some b'\<rparr> \<and> same_map b b' \<and>
    (case r of Inr p \<Rightarrow> took {p} st st' | Inl e \<Rightarrow> took {} st st')"
proof -
  obtain goal q st1 where a: "cryexts_alloc_block_goal goal (ii_alloc_goal_group b) st = (q, st1)"
    "r = q \<and> st' = st1 \<and> (i' = i \<or> (\<exists>p. i' = upd_info (cryexts_reserve st1 p) i))"
    using r b
    by (auto simp: cryexts_alloc_data_block_for_inode_def Let_def bindE_def onfs_def info_def
        split: prod.splits sum.splits if_splits)
  have "\<exists>b'. i = i\<lparr>i_private := Some b'\<rparr> \<and> same_map b b'" by (rule exI [of _ b]) (use b in simp)
  then have "\<exists>b'. i' = i\<lparr>i_private := Some b'\<rparr> \<and> same_map b b'"
    using a(2) b by (auto simp: upd_info_def)
  then show ?thesis using take_block [OF ok a(1)] a(2) by (auto split: sum.splits)
qed

lemma alloc_zeroed:
  assumes ok: "disk_ok st" and b: "i_private i = Some b"
    and r: "alloc_zeroed (i, st) = (r, (i', st'))"
  shows "\<exists>b'. i' = i\<lparr>i_private := Some b'\<rparr> \<and> same_map b b' \<and>
    (case r of Inr p \<Rightarrow> took {p} st st' | Inl e \<Rightarrow> took {} st st')"
proof -
  obtain q i1 st1 where a: "cryexts_alloc_data_block_for_inode (i, st) = (q, (i1, st1))" by (metis prod.exhaust)
  obtain b' where b': "i1 = i\<lparr>i_private := Some b'\<rparr>" "same_map b b'"
      "case q of Inr p \<Rightarrow> took {p} st st1 | Inl e \<Rightarrow> took {} st st1"
    using alloc_for_inode [OF ok b a] by blast
  show ?thesis
  proof (cases q)
    case (Inl e)
    then show ?thesis using b' a r by (auto simp: alloc_zeroed_def bindE_def)
  next
    case (Inr p)
    obtain z i2 st2 where z: "zero_or_free p (i1, st1) = (z, (i2, st2))" by (metis prod.exhaust)
    have "took {p} st st1" using b'(3) Inr by simp
    from zero_or_free [OF this ok _ z] show ?thesis
      using b'(1,2) a r z Inr by (auto simp: alloc_zeroed_def bindE_def retE_def split: sum.splits)
  qed
qed

lemma alloc_extent_block:
  assumes ok: "disk_ok st" and r: "alloc_extent_block (i, st) = (r, (i', st'))"
  shows "i' = i \<and> (case r of Inr p \<Rightarrow> took {p} st st' | Inl e \<Rightarrow> took {} st st')"
proof -
  obtain q st1 where a: "cryexts_alloc_block_goal (ii_alloc_hint_block (info i))
      (ii_alloc_goal_group (info i)) st = (q, st1)"
    by (metis prod.exhaust)
  note t = take_block [OF ok a]
  show ?thesis
  proof (cases q)
    case (Inl e)
    then show ?thesis using t a r by (auto simp: alloc_extent_block_def bindE_def onfs_def)
  next
    case (Inr p)
    obtain z i2 st2 where z: "zero_or_free p (i, st1) = (z, (i2, st2))" by (metis prod.exhaust)
    have "took {p} st st1" using t Inr by simp
    from zero_or_free [OF this ok _ z] show ?thesis
      using a r z Inr by (auto simp: alloc_extent_block_def onfs_def bindE_def retE_def split: sum.splits)
  qed
qed

lemma meta_more_refl [simp]: "meta_more b b"
  by (simp add: meta_more_def)

section \<open>Adding an extent\<close>

text \<open>The new extent is somewhere in the list, in a file with leaves at its place in the order.\<close>

definition at_place :: "u64 \<Rightarrow> cryexts_extent list \<Rightarrow> cryexts_extent list \<Rightarrow> bool" where
  "at_place l us vs \<longleftrightarrow> (\<forall>e \<in> set us. e_logical_start e \<le> l) \<and>
     (case vs of [] \<Rightarrow> True | e # _ \<Rightarrow> l < e_logical_start e)"

definition inserted :: "u64 \<Rightarrow> u64 \<Rightarrow> cryexts_inode_info \<Rightarrow> cryexts_inode_info \<Rightarrow> bool" where
  "inserted l p b b' \<longleftrightarrow> (\<exists>us vs. extent_list b = us @ vs \<and>
     extent_list b' = us @ new_extent l p 1 # vs \<and>
     (cryexts_extent_tree_v2_inode b \<longrightarrow> at_place l us vs))"

definition same_kind :: "cryexts_inode_info \<Rightarrow> cryexts_inode_info \<Rightarrow> bool" where
  "same_kind b b' \<longleftrightarrow> ii_use_extents b' = ii_use_extents b \<and> ii_inode_flags b' = ii_inode_flags b \<and>
     ii_extent_inline_max b' = ii_extent_inline_max b"

lemma same_kind_simps [simp]:
  "same_kind b b" "same_map b b' \<Longrightarrow> same_kind b b'"
  by (simp_all add: same_kind_def same_map_def)

lemma same_kind_v2: "same_kind b b' \<Longrightarrow> cryexts_extent_tree_v2_inode b' = cryexts_extent_tree_v2_inode b"
  by (simp add: same_kind_def cryexts_extent_tree_v2_inode_def)

lemma same_kind_trans: "same_kind a b \<Longrightarrow> same_kind b c \<Longrightarrow> same_kind a c"
  by (simp add: same_kind_def)

definition appended :: "u64 \<Rightarrow> u64 \<Rightarrow> cryexts_inode_info \<Rightarrow> fs \<Rightarrow> unit res \<Rightarrow> cryexts_inode_info \<Rightarrow> fs \<Rightarrow> bool"
where
  "appended l p b st r b' st' \<longleftrightarrow> same_kind b b' \<and>
     took (meta_blocks b' - meta_blocks b) st st' \<and> meta_more b b' \<and>
     (case r of Inr _ \<Rightarrow> inserted l p b b' | Inl e \<Rightarrow> extent_list b' = extent_list b)"

lemma insertedI:
  "extent_list b = us @ vs \<Longrightarrow> extent_list b' = us @ new_extent l p 1 # vs \<Longrightarrow>
   (cryexts_extent_tree_v2_inode b \<Longrightarrow> at_place l us vs) \<Longrightarrow> inserted l p b b'"
  unfolding inserted_def by blast

lemma find_low:
  assumes "List.find (\<lambda>k. l < e_logical_start (es ! k)) [0..<length es] = None" "e \<in> set es"
  shows "e_logical_start e \<le> l"
proof -
  obtain i where "i < length es" "e = es ! i" using assms(2) by (auto simp: in_set_conv_nth)
  then show ?thesis using assms(1) by (simp add: find_None_iff) (meson not_less)
qed

lemma find_slot_Some:
  "find_slot l leaves = Some (j, k) \<Longrightarrow>
   j < length leaves \<and> k < length (lf_extents (leaves ! j)) \<and>
   at_place l (leaf_extents (take j leaves) @ take k (lf_extents (leaves ! j)))
     (drop k (lf_extents (leaves ! j)) @ leaf_extents (drop (Suc j) leaves))"
proof (induction leaves arbitrary: j)
  case (Cons leaf leaves)
  let ?find = "List.find (\<lambda>k. l < e_logical_start (lf_extents leaf ! k)) [0..<length (lf_extents leaf)]"
  show ?case
  proof (cases ?find)
    case None
    then have low: "\<forall>e \<in> set (lf_extents leaf). e_logical_start e \<le> l" by (blast dest: find_low)
    obtain j' where j: "find_slot l leaves = Some (j', k)" "j = Suc j'"
      using Cons.prems None by auto
    from Cons.IH [OF j(1)] show ?thesis using low j(2) by (auto simp: at_place_def)
  next
    case (Some m)
    then have "j = 0" "k = m" using Cons.prems by simp_all
    moreover obtain i where "m = [0..<length (lf_extents leaf)] ! i" "i < length (lf_extents leaf)"
        "l < e_logical_start (lf_extents leaf ! m)"
        "\<forall>q<i. \<not> l < e_logical_start (lf_extents leaf ! ([0..<length (lf_extents leaf)] ! q))"
      using Some by (auto simp: find_Some_iff)
    ultimately show ?thesis
      by (auto simp: at_place_def in_set_conv_nth not_less Cons_nth_drop_Suc [symmetric])
  qed
qed simp

lemma find_slot_None: "find_slot l leaves = None \<Longrightarrow> at_place l (leaf_extents leaves) []"
proof (induction leaves)
  case (Cons leaf leaves)
  then show ?case
    by (auto simp: at_place_def dest: find_low split: option.splits)
qed (simp add: at_place_def)

lemma leaf_extents_split:
  "j < length leaves \<Longrightarrow> leaf_extents leaves =
     leaf_extents (take j leaves) @ lf_extents (leaves ! j) @ leaf_extents (drop (Suc j) leaves)"
  by (subst id_take_nth_drop [of j leaves]) simp_all

lemma insert_slot:
  assumes ok: "disk_ok st" and b: "i_private i = Some b" "cryexts_extent_tree_v2_inode b"
    and j: "j < length (ii_extent_leaves b)" "k \<le> length (lf_extents (ii_extent_leaves b ! j))"
    and place: "at_place l (leaf_extents (take j (ii_extent_leaves b)) @ take k (lf_extents (ii_extent_leaves b ! j)))
      (drop k (lf_extents (ii_extent_leaves b ! j)) @ leaf_extents (drop (Suc j) (ii_extent_leaves b)))"
    and r: "insert_extent_slot j k l p (i, st) = (r, (i', st'))"
  shows "\<exists>b'. i' = i\<lparr>i_private := Some b'\<rparr> \<and> appended l p b st r b' st'"
proof -
  let ?b = "upd_leaf j (insert_at k (new_extent l p 1)) b"
  have v2: "cryexts_extent_tree_v2_inode ?b" and kind: "same_kind b ?b"
    using b(2) by (simp_all add: upd_leaf_def cryexts_extent_tree_v2_inode_def same_kind_def)
  have "map lf_block (ii_extent_leaves ?b) = map lf_block (ii_extent_leaves b)"
    using j(1) by (simp add: upd_leaf_def map_update list_update_same_conv)
  then have "meta_list ?b = meta_list b" using v2 b(2) by (simp add: meta_list_def)
  then have meta: "meta_blocks ?b = meta_blocks b" "meta_more b ?b" "meta_more b b"
    using meta_more_same by blast+
  have "leaf_extents (ii_extent_leaves ?b) =
      (leaf_extents (take j (ii_extent_leaves b)) @ take k (lf_extents (ii_extent_leaves b ! j))) @
      new_extent l p 1 # (drop k (lf_extents (ii_extent_leaves b ! j)) @ leaf_extents (drop (Suc j) (ii_extent_leaves b)))"
    using j(1) by (simp add: upd_leaf_def upd_conv_take_nth_drop insert_at_def)
  moreover have "leaf_extents (ii_extent_leaves b) =
      (leaf_extents (take j (ii_extent_leaves b)) @ take k (lf_extents (ii_extent_leaves b ! j))) @
      drop k (lf_extents (ii_extent_leaves b ! j)) @ leaf_extents (drop (Suc j) (ii_extent_leaves b))"
    using leaf_extents_split [OF j(1)] by simp
  ultimately have ins: "inserted l p b ?b"
    using v2 b(2) by (intro insertedI [OF _ _ place]) (simp_all only: extent_entry_nth(3) if_True)
  have "took {} st (st\<lparr>d_tick := n\<rparr>)" for n using took_tick [OF took_refl [OF ok]] .
  then have app: "appended l p b st (Inr ()) ?b (st\<lparr>d_tick := n\<rparr>)"
    "appended l p b st (Inl e) b (st\<lparr>d_tick := n\<rparr>)" for n e
    using kind meta ins by (simp_all add: appended_def)
  have err: "\<exists>b'. i = i\<lparr>i_private := Some b'\<rparr> \<and> appended l p b st (Inl e) b' (st\<lparr>d_tick := n\<rparr>)" for e n
    by (rule exI [of _ b]) (use b app in simp)
  have "appended l p b st (Inl ENOSPC) b st" using app(2) [of ENOSPC "d_tick st"] by simp
  then have full: "\<exists>b'. i = i\<lparr>i_private := Some b'\<rparr> \<and> appended l p b st (Inl ENOSPC) b' st"
    by (intro exI [of _ b]) (use b in simp)
  show ?thesis
    using r b app(1) err full
    by (auto simp: insert_extent_slot_def bindE_def onfs_def kmalloc_def io_step_def oni_def upd_info_def
        split: if_splits)
qed

lemma appended_err:
  assumes "i_private i = Some b" "took {} st st'"
  shows "\<exists>b'. i = i\<lparr>i_private := Some b'\<rparr> \<and> appended l p b st (Inl e) b' st'"
  by (rule exI [of _ b]) (use assms meta_more_same [of b b] in \<open>simp add: appended_def\<close>)

lemma append_leaf:
  assumes ok: "disk_ok st" and b: "i_private i = Some b" "cryexts_extent_tree_v2_inode b"
    and own: "meta_blocks b \<subseteq> block_used st"
    and place: "at_place l (leaf_extents (ii_extent_leaves b)) []"
    and r: "append_new_leaf l p (i, st) = (r, (i', st'))"
  shows "\<exists>b'. i' = i\<lparr>i_private := Some b'\<rparr> \<and> appended l p b st r b' st'"
proof (cases "CRYEXTS_EXTENT_TREE_ROOT_REFS \<le> length (ii_extent_leaves b)")
  case True
  then have "r = Inl ENOSPC \<and> i' = i \<and> st' = st" using r b by (auto simp: append_new_leaf_def info_def)
  then show ?thesis using appended_err [OF b(1) took_refl [OF ok]] by simp
next
  case False
  obtain q i1 st1 where a: "alloc_extent_block (i, st) = (q, (i1, st1))" by (metis prod.exhaust)
  note t = alloc_extent_block [OF ok a]
  show ?thesis
  proof (cases q)
    case (Inl e)
    then have "r = Inl e \<and> i' = i \<and> st' = st1"
      using r a t False b by (auto simp: append_new_leaf_def bindE_def info_def)
    then show ?thesis using appended_err [OF b(1)] t Inl by simp
  next
    case (Inr x)
    then have tk: "took {x} st st1" "i1 = i" using t by simp_all
    let ?leaf = "\<lparr>lf_block = x, lf_checksum = 0, lf_extents = [new_extent l p 1]\<rparr>"
    let ?b = "b\<lparr>ii_extent_leaves := ii_extent_leaves b @ [?leaf]\<rparr>"
    obtain m where m: "cryexts_free_block x (st1\<lparr>d_tick := Suc (d_tick st1)\<rparr>) = (Inr (), m)" "took {} st m"
      using give_back [OF took_tick [OF tk(1)] ok, of x] by auto
    have v2: "cryexts_extent_tree_v2_inode ?b" using b(2) by (simp add: cryexts_extent_tree_v2_inode_def)
    have "x \<notin> meta_blocks b" using own tk(1) by (auto simp: took_def)
    then have "meta_blocks ?b - meta_blocks b = {x}" "meta_more b ?b"
      using v2 b(2) by (auto simp: meta_blocks_def meta_more_def meta_list_def)
    moreover have "inserted l p b ?b"
      using v2 b(2) by (intro insertedI [OF _ _ place]) (simp_all add: extent_entry_nth(3))
    ultimately have "appended l p b st (Inr ()) ?b (st1\<lparr>d_tick := n\<rparr>)" for n
      using took_tick [OF tk(1)] by (simp add: appended_def same_kind_def)
    then show ?thesis
      using r a b False Inr tk(2) m appended_err [OF b(1) m(2)]
      by (auto simp: append_new_leaf_def bindE_def onfs_def on_errE_def kmalloc_def io_step_def oni_def
          upd_info_def info_def ignoreE_def split: if_splits)
  qed
qed

lemma append_entry_v2:
  assumes ok: "disk_ok st" and b: "i_private i = Some b" "cryexts_extent_tree_v2_inode b"
    and own: "meta_blocks b \<subseteq> block_used st"
    and r: "cryexts_append_extent_entry_v2 l p (i, st) = (r, (i', st'))"
  shows "\<exists>b'. i' = i\<lparr>i_private := Some b'\<rparr> \<and> appended l p b st r b' st'"
proof (cases "find_slot l (ii_extent_leaves b)")
  case (Some jk)
  obtain j k where jk: "jk = (j, k)" by fastforce
  note f = find_slot_Some [OF Some [unfolded jk]]
  have "insert_extent_slot j k l p (i, st) = (r, (i', st'))"
    using r b Some jk by (simp add: cryexts_append_extent_entry_v2_def info_def)
  from insert_slot [OF ok b _ _ _ this] f show ?thesis by simp
next
  case None
  let ?leaves = "ii_extent_leaves b"
  note place = find_slot_None [OF None]
  show ?thesis
  proof (cases "?leaves = [] \<or> CRYEXTS_EXTENTS_PER_BLOCK \<le> length (lf_extents (last ?leaves))")
    case True
    then have "append_new_leaf l p (i, st) = (r, (i', st'))"
      using r b None by (simp add: cryexts_append_extent_entry_v2_def info_def)
    then show ?thesis by (rule append_leaf [OF ok b own place])
  next
    case False
    let ?j = "length ?leaves - 1"
    have j: "?j < length ?leaves" "?leaves ! ?j = last ?leaves" using False by (simp_all add: last_conv_nth)
    have ins: "insert_extent_slot ?j (length (lf_extents (last ?leaves))) l p (i, st) = (r, (i', st'))"
      using r b None False by (simp add: cryexts_append_extent_entry_v2_def info_def Let_def)
    have "leaf_extents (take ?j ?leaves) @ lf_extents (last ?leaves) = leaf_extents ?leaves"
      using leaf_extents_split [OF j(1)] j(2) by simp
    then show ?thesis using insert_slot [OF ok b j(1) _ _ ins] place j by simp
  qed
qed

lemma append_entry:
  assumes ok: "disk_ok st" and b: "i_private i = Some b" and own: "meta_blocks b \<subseteq> block_used st"
    and r: "cryexts_append_extent_entry l p (i, st) = (r, (i', st'))"
  shows "\<exists>b'. i' = i\<lparr>i_private := Some b'\<rparr> \<and> appended l p b st r b' st'"
proof (cases "cryexts_extent_tree_v2_inode b")
  case True
  then have "cryexts_append_extent_entry_v2 l p (i, st) = (r, (i', st'))"
    using r b by (simp add: cryexts_append_extent_entry_def info_def Let_def)
  then show ?thesis by (rule append_entry_v2 [OF ok b True own])
next
  case False
  note v1 = this
  let ?e = "new_extent l p 1"
  let ?over = "\<lambda>b. b\<lparr>ii_overflow_extents := ii_overflow_extents b @ [?e]\<rparr>"
  have kind: "\<not> cryexts_extent_tree_v2_inode (b\<lparr>ii_extents := xs, ii_overflow_extents := ys,
      ii_extent_overflow_block := q\<rparr>)" for xs ys q
    using v1 by (simp add: cryexts_extent_tree_v2_inode_def)
  have err: "\<exists>b'. i = i\<lparr>i_private := Some b'\<rparr> \<and> appended l p b st (Inl ENOSPC) b' st"
    by (rule appended_err [OF b took_refl [OF ok]])
  have inl: "appended l p b st (Inr ()) (b\<lparr>ii_extents := ii_extents b @ [?e]\<rparr>) st"
  proof -
    have "extent_list (b\<lparr>ii_extents := ii_extents b @ [?e]\<rparr>) = ii_extents b @ ?e # ii_overflow_extents b"
      using v1 by (simp add: extent_entry_nth(3) cryexts_extent_tree_v2_inode_def)
    then have "inserted l p b (b\<lparr>ii_extents := ii_extents b @ [?e]\<rparr>)"
      unfolding inserted_def using v1 by (auto simp: extent_entry_nth(3))
    then show ?thesis
      using v1 took_refl [OF ok]
      by (simp add: appended_def same_kind_def meta_more_def meta_blocks_def meta_list_def cryexts_extent_tree_v2_inode_def)
  qed
  \<comment> \<open>the overflow block is \<open>q\<close>, new or not\<close>
  have over: "appended l p b st r (if r = Inr () then ?over (b\<lparr>ii_extent_overflow_block := q\<rparr>)
      else b\<lparr>ii_extent_overflow_block := q\<rparr>) s"
    if "q \<noteq> 0" "ii_extent_overflow_block b \<noteq> 0 \<Longrightarrow> q = ii_extent_overflow_block b"
      "took ({q} - meta_blocks b) st s" for q s and r :: "unit res"
  proof -
    let ?b = "b\<lparr>ii_extent_overflow_block := q\<rparr>"
    have v: "\<not> cryexts_extent_tree_v2_inode ?b" "\<not> cryexts_extent_tree_v2_inode (?over ?b)"
      using v1 by (simp_all add: cryexts_extent_tree_v2_inode_def)
    have m: "meta_blocks ?b = {q}" "meta_blocks (?over ?b) = {q}" "meta_blocks b \<subseteq> {q}"
      "meta_more b ?b" "meta_more b (?over ?b)"
      using v v1 that(1,2) by (auto simp: meta_blocks_def meta_list_def meta_more_def)
    have "inserted l p b (?over ?b)"
      using v1 v by (intro insertedI [of b "ii_extents b @ ii_overflow_extents b" "[]"])
        (simp_all add: extent_entry_nth(3))
    moreover have "extent_list ?b = extent_list b" using v1 v by (simp add: extent_entry_nth(3))
    ultimately show ?thesis
      using m that(3) by (cases r) (auto simp: appended_def same_kind_def)
  qed
  show ?thesis
  proof (cases "length (ii_extents b) < ii_extent_inline_max b \<or>
      CRYEXTS_EXTENTS_PER_BLOCK \<le> length (ii_overflow_extents b)")
    case True
    then show ?thesis
      using r b v1 inl err
      by (auto simp: cryexts_append_extent_entry_def info_def upd_info_def Let_def split: if_splits)
  next
    case False
    obtain z i1 st1 where a: "cryexts_alloc_extent_overflow_block (i, st) = (z, (i1, st1))"
      by (metis prod.exhaust)
    have res: "(z = Inr () \<and> (\<exists>q. i1 = i\<lparr>i_private := Some (b\<lparr>ii_extent_overflow_block := q\<rparr>)\<rparr> \<and> q \<noteq> 0 \<and>
          (ii_extent_overflow_block b \<noteq> 0 \<longrightarrow> q = ii_extent_overflow_block b) \<and>
          took ({q} - meta_blocks b) st st1)) \<or>
        (\<exists>e. z = Inl e \<and> i1 = i \<and> took {} st st1)"
    proof (cases "ii_extent_overflow_block b = 0")
      case False
      let ?q = "ii_extent_overflow_block b"
      have "z = Inr () \<and> i1 = i \<and> st1 = st"
        using a b False by (simp add: cryexts_alloc_extent_overflow_block_def info_def)
      moreover have "i = i\<lparr>i_private := Some (b\<lparr>ii_extent_overflow_block := ?q\<rparr>)\<rparr>" using b by simp
      ultimately show ?thesis
        using False v1 took_refl [OF ok] by (intro disjI1 conjI exI [of _ ?q]) (simp_all add: meta_blocks_def meta_list_def)
    next
      case True
      obtain y i2 st2 where y: "alloc_extent_block (i, st) = (y, (i2, st2))" by (metis prod.exhaust)
      note t = alloc_extent_block [OF ok y]
      show ?thesis
      proof (cases y)
        case (Inl e)
        then show ?thesis using a b True y t
          by (auto simp: cryexts_alloc_extent_overflow_block_def info_def bindE_def)
      next
        case (Inr q)
        then have "took {q} st st2" "i2 = i" using t by simp_all
        moreover have "q \<noteq> 0" using calculation(1) by (auto simp: took_def block_space_def)
        ultimately show ?thesis using a b True y Inr v1
          by (auto simp: cryexts_alloc_extent_overflow_block_def info_def bindE_def oni_def upd_info_def
              meta_blocks_def meta_list_def)
      qed
    qed
    have run: "cryexts_append_extent_entry l p (i, st) =
        bindE cryexts_alloc_extent_overflow_block (\<lambda>_. bindE (onfs kmalloc) (\<lambda>_.
            oni (upd_info ?over))) (i, st)"
      using False v1 b by (simp add: cryexts_append_extent_entry_def info_def Let_def)
    from res show ?thesis
    proof (elim disjE exE conjE)
      fix e assume z: "z = Inl e" "i1 = i" and t: "took {} st st1"
      have "r = Inl e \<and> i' = i \<and> st' = st1" using r run a z by (simp add: bindE_def)
      then show ?thesis using appended_err [OF b t] by simp
    next
      fix q
      assume z: "z = Inr ()" "i1 = i\<lparr>i_private := Some (b\<lparr>ii_extent_overflow_block := q\<rparr>)\<rparr>"
        and q: "q \<noteq> 0" "ii_extent_overflow_block b \<noteq> 0 \<longrightarrow> q = ii_extent_overflow_block b"
          "took ({q} - meta_blocks b) st st1"
      have o: "appended l p b st r (if r = Inr () then ?over (b\<lparr>ii_extent_overflow_block := q\<rparr>)
          else b\<lparr>ii_extent_overflow_block := q\<rparr>) (st1\<lparr>d_tick := n\<rparr>)" for n and r :: "unit res"
        using over [OF q(1) _ took_tick [OF q(3)]] q(2) by blast
      show ?thesis
        using r run a z o [of "Inr ()"] o [of "Inl ENOMEM"]
        by (auto simp: bindE_def onfs_def kmalloc_def io_step_def oni_def upd_info_def split: if_splits)
    qed
  qed
qed

section \<open>Looking up a block with allocation\<close>

text \<open>
  The result \<open>r\<close> of a call: the file owns what is new in the bitmaps and what it had; on success the
  map has the block \<open>p\<close> for \<open>l\<close>, a block that was free, and is otherwise as before.
\<close>

definition accounted :: "cryexts_inode_info \<Rightarrow> fs \<Rightarrow> cryexts_inode_info \<Rightarrow> fs \<Rightarrow> bool" where
  "accounted b st b' st' \<longleftrightarrow> owned b \<subseteq> owned b' \<and> took (owned b' - owned b) st st'"

definition mapped :: "u64 \<Rightarrow> cryexts_inode_info \<Rightarrow> fs \<Rightarrow> u64 res \<Rightarrow> cryexts_inode_info \<Rightarrow> bool" where
  "mapped l b st r b' \<longleftrightarrow> same_kind b b' \<and> (case r of
     Inr p \<Rightarrow> find_extent b' = (find_extent b)(l := Some p) \<and> p \<in> block_space st - block_used st
   | Inl e \<Rightarrow> find_extent b' = find_extent b)"

text \<open>The order that reading an inode with leaves checks.\<close>

definition extents_sorted :: "cryexts_extent list \<Rightarrow> bool" where
  "extents_sorted es \<longleftrightarrow> (\<forall>e \<in> set es. extent_fits e \<and> e_length e \<noteq> 0) \<and>
     sorted_wrt (\<lambda>d e. unat (e_logical_start d) + unat (e_length d) \<le> unat (e_logical_start e)) es"

lemma extent_run_grow:
  assumes "unat (e_length e) < 2 ^ 32 - 1"
  shows "extent_run (e\<lparr>e_length := e_length e + 1\<rparr>) =
    insert (e_physical_start e + ucast (e_length e)) (extent_run e)"
proof -
  have "unat (e_length e + 1) = Suc (unat (e_length e))" using assms by (simp add: unat_plus_if')
  moreover have "(of_nat (unat (e_length e)) :: u64) = ucast (e_length e)"
    by (simp add: word_unat_eq_iff unat_of_nat unat_ucast32)
  ultimately show ?thesis by (auto simp: extent_run_def lessThan_Suc)
qed

lemma extent_run_new: "extent_run (new_extent l p 1) = {p}"
  by (simp add: extent_run_def new_extent_def lessThan_Suc)

definition merged ::
    "u64 \<Rightarrow> cryexts_inode_info \<Rightarrow> fs \<Rightarrow> u64 option res \<Rightarrow> cryexts_inode_info \<Rightarrow> fs \<Rightarrow> bool" where
  "merged l b st r b' st' \<longleftrightarrow> (case r of
     Inr (Some p) \<Rightarrow> (\<exists>us e. extent_list b = us @ [e] \<and>
       extent_list b' = us @ [e\<lparr>e_length := e_length e + 1\<rparr>] \<and>
       l = e_logical_start e + ucast (e_length e) \<and> p = e_physical_start e + ucast (e_length e) \<and>
       unat (e_length e) < CRYEXTS_MAX_EXTENT_BLOCKS) \<and>
       same_kind b b' \<and> meta_list b' = meta_list b \<and> took {p} st st'
   | _ \<Rightarrow> same_map b b' \<and> took {} st st')"

lemma upd_extent_meta:
  "k < length (extent_list b) \<Longrightarrow> meta_list (upd_extent k f b) = meta_list b"
  "same_kind b (upd_extent k f b)"
proof -
  show kind: "same_kind b (upd_extent k f b)" by (simp add: same_kind_def upd_extent_def Let_def)
  assume k: "k < length (extent_list b)"
  note v2 = same_kind_v2 [OF kind]
  show "meta_list (upd_extent k f b) = meta_list b"
  proof (cases "cryexts_extent_tree_v2_inode b")
    case True
    then have "map lf_block (leaf_update k f (ii_extent_leaves b)) = map lf_block (ii_extent_leaves b)"
      using k leaf_update_nth by (simp add: extent_entry_nth(3))
    then show ?thesis using True v2 by (simp add: meta_list_def) (simp add: upd_extent_def)
  next
    case False
    have "ii_extent_overflow_block (upd_extent k f b) = ii_extent_overflow_block b"
      by (simp add: upd_extent_def Let_def)
    then show ?thesis using False v2 by (simp add: meta_list_def)
  qed
qed

lemma update_last: "xs \<noteq> [] \<Longrightarrow> xs[length xs - 1 := x] = butlast xs @ [x]"
  by (cases xs rule: rev_cases) simp_all

lemma merge_last:
  assumes ok: "disk_ok st" and b: "i_private i = Some b"
    and r: "cryexts_try_merge_last_extent l (i, st) = (r, (i', st'))"
  shows "\<exists>b'. i' = i\<lparr>i_private := Some b'\<rparr> \<and> merged l b st r b' st'"
proof -
  let ?es = "extent_list b"
  have keep: "\<exists>b'. i = i\<lparr>i_private := Some b'\<rparr> \<and> merged l b st q b' s"
    if "took {} st s" "\<forall>p. q \<noteq> Inr (Some p)" for q s
    by (rule exI [of _ b]) (use b that in \<open>auto simp: merged_def split: sum.splits option.splits\<close>)
  show ?thesis
  proof (cases "?es = []")
    case True
    then have "r = Inr None \<and> i' = i \<and> st' = st"
      using r b by (simp add: cryexts_try_merge_last_extent_def info_def extent_entry_nth(2))
    then show ?thesis using keep [OF took_refl [OF ok]] by simp
  next
    case False
    let ?k = "length ?es - 1" and ?e = "last ?es"
    let ?next = "e_physical_start ?e + ucast (e_length ?e)"
    have k: "?k < length ?es" "?es ! ?k = ?e" using False by (simp_all add: last_conv_nth)
    then have entry: "cryexts_extent_entry b ?k = Some ?e" by (simp add: extent_entry_nth(1))
    let ?no = "l \<noteq> e_logical_start ?e + ucast (e_length ?e) \<or> CRYEXTS_MAX_EXTENT_BLOCKS \<le> unat (e_length ?e)"
    show ?thesis
    proof (cases ?no)
      case True
      then have "r = Inr None \<and> i' = i \<and> st' = st"
        using r b False entry
        by (auto simp: cryexts_try_merge_last_extent_def info_def extent_entry_nth(2) Let_def)
      then show ?thesis using keep [OF took_refl [OF ok]] by simp
    next
      case grow: False
      obtain q st1 where a: "cryexts_alloc_block_goal ?next (ii_alloc_goal_group b) st = (q, st1)"
        by (metis prod.exhaust)
      note t = take_block [OF ok a]
      have run: "cryexts_try_merge_last_extent l (i, st) =
          bindE (onfs (cryexts_alloc_block_goal ?next (ii_alloc_goal_group b)))
           (\<lambda>physical (i, st).
             if physical \<noteq> ?next
             then bindE (onfs (cryexts_free_block physical)) (\<lambda>_. retE None) (i, st)
             else bindE (zero_or_free physical) (\<lambda>_ (i, st).
               (Inr (Some physical),
                (upd_info (\<lambda>b. cryexts_update_alloc_hint st physical
                   (upd_extent ?k (\<lambda>e. e\<lparr>e_length := e_length e + 1\<rparr>) b)) i, st))) (i, st)) (i, st)"
        using b False entry grow
        by (simp add: cryexts_try_merge_last_extent_def info_def extent_entry_nth(2) Let_def
            cong: if_cong)
      show ?thesis
      proof (cases q)
        case (Inl e)
        then have "r = Inl e \<and> i' = i \<and> st' = st1" using r run a by (simp add: bindE_def onfs_def)
        then show ?thesis using keep t Inl by simp
      next
        case (Inr p)
        then have tk: "took {p} st st1" using t by simp
        show ?thesis
        proof (cases "p = ?next")
          case False
          obtain m where m: "cryexts_free_block p st1 = (Inr (), m)" "took {} st m"
            using give_back [OF tk ok, of p] by auto
          then have "r = Inr None \<and> i' = i \<and> st' = m"
            using r run a Inr False by (simp add: bindE_def onfs_def retE_def)
          then show ?thesis using keep m by simp
        next
          case True
          obtain z i2 st2 where z: "zero_or_free p (i, st1) = (z, (i2, st2))" by (metis prod.exhaust)
          note zf = zero_or_free [OF tk ok _ z]
          show ?thesis
          proof (cases z)
            case (Inl e)
            then have "r = Inl e \<and> i' = i \<and> st' = st2"
              using r run a z \<open>q = Inr p\<close> True zf by (simp add: bindE_def onfs_def)
            then show ?thesis using keep zf Inl by simp
          next
            case zi: (Inr u)
            let ?c = "upd_extent ?k (\<lambda>e. e\<lparr>e_length := e_length e + 1\<rparr>) b"
            let ?b = "cryexts_update_alloc_hint st2 p ?c"
            have res: "r = Inr (Some p) \<and> i' = i\<lparr>i_private := Some ?b\<rparr> \<and> st' = st2"
              using r run a z \<open>q = Inr p\<close> True zf zi b by (auto simp: bindE_def onfs_def upd_info_def)
            have es: "?es = butlast ?es @ [?e]" using \<open>?es \<noteq> []\<close> by simp
            have "extent_list ?b = extent_list ?c" by (rule same_map_list) simp
            also have "\<dots> = butlast ?es @ [?e\<lparr>e_length := e_length ?e + 1\<rparr>]"
              unfolding extent_list_upd [OF k(1)] k(2) by (rule update_last [OF \<open>?es \<noteq> []\<close>])
            finally have ext: "extent_list ?b = butlast ?es @ [?e\<lparr>e_length := e_length ?e + 1\<rparr>]" .
            have "same_map ?c ?b" by simp
            then have "same_kind ?c ?b" "meta_list ?b = meta_list ?c"
              by (simp_all add: meta_list_def same_map_def cryexts_extent_tree_v2_inode_def same_kind_def)
            moreover have "same_kind b ?c" "meta_list ?c = meta_list b"
              by (rule upd_extent_meta(2), rule upd_extent_meta(1) [OF k(1)])
            ultimately have "same_kind b ?b" "meta_list ?b = meta_list b"
              using same_kind_trans [of b ?c ?b] by simp_all
            then have "merged l b st (Inr (Some p)) ?b st2"
              unfolding merged_def using es ext grow True zf zi by (auto simp: not_le)
            then show ?thesis using res by blast
          qed
        qed
      qed
    qed
  qed
qed

text \<open>What an insertion does to map and ownership.\<close>

lemma inserted_effect:
  assumes ins: "inserted l p b b'" and none: "find_extent b l = None" "l \<noteq> - 1"
    and meta: "meta_more b b'"
  shows "find_extent b' = (find_extent b)(l := Some p)"
    "owned b' = insert p (owned b \<union> (meta_blocks b' - meta_blocks b))"
proof -
  obtain us vs where u: "extent_list b = us @ vs" "extent_list b' = us @ new_extent l p 1 # vs"
    using ins by (auto simp: inserted_def)
  show "find_extent b' = (find_extent b)(l := Some p)"
    using xmap_insert [of us vs l p] none u by (simp add: find_extent_xmap)
  show "owned b' = insert p (owned b \<union> (meta_blocks b' - meta_blocks b))"
    using meta_more_sub [OF meta] by (auto simp: owned_def u extent_run_new)
qed

lemma merged_effect:
  assumes m: "merged l b st (Inr (Some p)) b' st'" and none: "find_extent b l = None" "l \<noteq> - 1"
    and fits: "\<forall>e \<in> set (extent_list b). extent_fits e"
  shows "find_extent b' = (find_extent b)(l := Some p)" "owned b' = insert p (owned b)"
    "took {p} st st'" "same_kind b b'"
proof -
  obtain us e where u: "extent_list b = us @ [e]" "extent_list b' = us @ [e\<lparr>e_length := e_length e + 1\<rparr>]"
      "l = e_logical_start e + ucast (e_length e)" "p = e_physical_start e + ucast (e_length e)"
      "unat (e_length e) < CRYEXTS_MAX_EXTENT_BLOCKS" "meta_blocks b' = meta_blocks b"
    using m by (auto simp: merged_def meta_blocks_def)
  have len: "unat (e_length e) < 2 ^ 32 - 1" using u(5) by (simp add: const_simps)
  show "find_extent b' = (find_extent b)(l := Some p)"
    using xmap_grow [OF _ _ none(2) u(3) len, of us] none(1) fits u(1,2,4) by (simp add: find_extent_xmap)
  show "owned b' = insert p (owned b)"
    using extent_run_grow [OF len] u by (auto simp: owned_def)
  show "took {p} st st'" "same_kind b b'" using m by (simp_all add: merged_def)
qed

lemma same_mapD:
  assumes "same_map b c"
  shows "meta_blocks c = meta_blocks b" "extent_list c = extent_list b" "same_kind b c" "owned c = owned b"
    "meta_list c = meta_list b" "meta_more b c"
  using assms same_map_list [OF assms] same_map_owned [OF assms]
  by (simp_all add: meta_more_def meta_blocks_def meta_list_def same_map_def
      cryexts_extent_tree_v2_inode_def same_kind_def)

lemma append_zeroed:
  assumes ok: "disk_ok st" and b: "i_private i = Some b" and own: "owned b \<subseteq> block_used st"
    and r: "bindE alloc_zeroed (\<lambda>physical.
               bindE (on_errE (cryexts_append_extent_entry l physical)
                 (\<lambda>_ (i, st). (i, ignoreE (cryexts_free_block physical) st))) (\<lambda>_.
               bindE (cryexts_set_inode_alloc_hint physical) (\<lambda>_. retE physical))) (i, st) = (r, (i', st'))"
  shows "\<exists>b'. i' = i\<lparr>i_private := Some b'\<rparr> \<and> same_kind b b' \<and> meta_more b b' \<and>
    (case r of
       Inr p \<Rightarrow> p \<notin> meta_blocks b' \<and> inserted l p b b' \<and> took (insert p (meta_blocks b' - meta_blocks b)) st st'
     | Inl e \<Rightarrow> extent_list b' = extent_list b \<and> took (meta_blocks b' - meta_blocks b) st st')"
proof -
  obtain q i1 st1 where a: "alloc_zeroed (i, st) = (q, (i1, st1))" by (metis prod.exhaust)
  obtain c where c: "i1 = i\<lparr>i_private := Some c\<rparr>" "same_map b c"
      "case q of Inr p \<Rightarrow> took {p} st st1 | Inl e \<Rightarrow> took {} st st1"
    using alloc_zeroed [OF ok b a] by blast
  note cm = same_mapD [OF c(2)]
  show ?thesis
  proof (cases q)
    case (Inl e)
    then have "r = Inl e \<and> i' = i1 \<and> st' = st1" using r a by (simp add: bindE_def)
    then show ?thesis using c cm Inl by auto
  next
    case (Inr p)
    then have tk: "took {p} st st1" using c(3) by simp
    have ok1: "disk_ok st1" using tk by (rule took_ok)
    have own1: "meta_blocks c \<subseteq> block_used st1" and p: "p \<notin> meta_blocks c" "p \<in> block_used st1"
      using own tk cm(1) by (auto simp: took_def owned_def)
    obtain z i2 st2 where z: "cryexts_append_extent_entry l p (i1, st1) = (z, (i2, st2))" by (metis prod.exhaust)
    have "i_private i1 = Some c" using c(1) by simp
    from append_entry [OF ok1 this own1 z] obtain d where
      d: "i2 = i1\<lparr>i_private := Some d\<rparr>" "appended l p c st1 z d st2" by blast
    have dk: "same_kind b d" "took (meta_blocks d - meta_blocks b) st1 st2" "meta_more b d"
      using d(2) cm(1,3,5) same_kind_trans by (auto simp: appended_def meta_more_def)
    have pd: "p \<notin> meta_blocks d"
      using p dk(2) cm(1) by (auto simp: took_def)
    have both: "took (insert p (meta_blocks d - meta_blocks b)) st st2"
      using took_trans [OF tk dk(2)] by simp
    show ?thesis
    proof (cases z)
      case zi: (Inl e)
      obtain m where m: "cryexts_free_block p st2 = (Inr (), m)"
          "took (insert p (meta_blocks d - meta_blocks b) - {p}) st m"
        using give_back [OF both ok, of p] by auto
      have "insert p (meta_blocks d - meta_blocks b) - {p} = meta_blocks d - meta_blocks b"
        using pd by auto
      moreover have "r = Inl e \<and> i' = i2 \<and> st' = m"
        using r a Inr z zi m(1) by (simp add: bindE_def on_errE_def ignoreE_def)
      ultimately show ?thesis
        using m(2) dk d zi cm(2) c(1) by (auto simp: appended_def)
    next
      case zi: (Inr u)
      let ?b = "cryexts_update_alloc_hint st2 p d"
      have sm: "same_map d ?b" by simp
      note bm = same_mapD [OF sm]
      have "r = Inr p \<and> i' = i\<lparr>i_private := Some ?b\<rparr> \<and> st' = st2"
        using r a Inr z zi d(1) c(1)
        by (auto simp: bindE_def on_errE_def cryexts_set_inode_alloc_hint_def retE_def upd_info_def)
      moreover have "inserted l p b ?b"
        using d(2) zi bm cm same_kind_v2 [OF cm(3)] by (auto simp: appended_def inserted_def)
      moreover have "same_kind b ?b" using same_kind_trans [OF dk(1) bm(3)] .
      moreover have "meta_more b ?b" using dk(3) bm(5) by (simp add: meta_more_def)
      ultimately show ?thesis using both bm(1) pd by (intro exI [of _ ?b]) simp
    qed
  qed
qed

lemma resolve_extent_run:
  assumes "i_private i = Some b" "ii_use_extents b"
  shows "cryexts_resolve_block l True (i, st) =
    (if cryexts_extent_file_blocks_max_for_blocks b \<le> l then (Inl EFBIG, (i, st))
     else case find_extent b l of Some p \<Rightarrow> (Inr p, (i, st))
     | None \<Rightarrow> bindE (cryexts_try_merge_last_extent l) (\<lambda>merged.
           case merged of Some physical \<Rightarrow> retE physical
           | None \<Rightarrow> bindE alloc_zeroed (\<lambda>physical.
               bindE (on_errE (cryexts_append_extent_entry l physical)
                 (\<lambda>_ (i, st). (i, ignoreE (cryexts_free_block physical) st))) (\<lambda>_.
               bindE (cryexts_set_inode_alloc_hint physical) (\<lambda>_. retE physical)))) (i, st))"
  using assms by (simp add: cryexts_resolve_block_def resolve_extent_def info_def)

text \<open>The three ways in which an allocating lookup can end.\<close>

lemma resolve_cases:
  assumes ok: "disk_ok st" and b: "i_private i = Some b" "ii_use_extents b" and own: "owned b \<subseteq> block_used st"
    and none: "find_extent b l = None"
    and fits: "\<forall>e \<in> set (extent_list b). extent_fits e"
    and r: "cryexts_resolve_block l True (i, st) = (r, (i', st'))"
  shows "\<exists>b'. i' = i\<lparr>i_private := Some b'\<rparr> \<and> same_kind b b' \<and> meta_more b b' \<and>
    (case r of
       Inr p \<Rightarrow> l \<noteq> - 1 \<and> (inserted l p b b' \<or> merged l b st (Inr (Some p)) b' st') \<and>
         find_extent b' = (find_extent b)(l := Some p) \<and>
         owned b' = insert p (owned b \<union> (meta_blocks b' - meta_blocks b)) \<and> p \<notin> block_used st \<and> p \<notin> meta_blocks b' \<and>
         (meta_blocks b' - meta_blocks b) \<inter> owned b = {} \<and>
         took (owned b' - owned b) st st'
     | Inl e \<Rightarrow> extent_list b' = extent_list b \<and>
         took (meta_blocks b' - meta_blocks b) st st')"
proof (cases "cryexts_extent_file_blocks_max_for_blocks b \<le> l")
  case True
  then have "r = Inl EFBIG \<and> i' = i \<and> st' = st" using r resolve_extent_run [OF b] by simp
  then show ?thesis using took_refl [OF ok] b(1) by (intro exI [of _ b]) simp
next
  case False
  then have l: "l \<noteq> - 1" by auto
  let ?rest = "bindE alloc_zeroed (\<lambda>physical.
               bindE (on_errE (cryexts_append_extent_entry l physical)
                 (\<lambda>_ (i, st). (i, ignoreE (cryexts_free_block physical) st))) (\<lambda>_.
               bindE (cryexts_set_inode_alloc_hint physical) (\<lambda>_. retE physical)))"
  obtain q i1 st1 where m: "cryexts_try_merge_last_extent l (i, st) = (q, (i1, st1))" by (metis prod.exhaust)
  obtain c where c: "i1 = i\<lparr>i_private := Some c\<rparr>" "merged l b st q c st1"
    using merge_last [OF ok b(1) m] by blast
  have run: "(r, (i', st')) = (case q of Inl e \<Rightarrow> (Inl e, (i1, st1))
      | Inr (Some p) \<Rightarrow> (Inr p, (i1, st1)) | Inr None \<Rightarrow> ?rest (i1, st1))"
    using r [symmetric] False none m resolve_extent_run [OF b]
    by (auto simp: bindE_def retE_def split: sum.splits option.splits)
  show ?thesis
  proof (cases q)
    case (Inl e)
    then have "same_map b c" "took {} st st1" using c(2) by (simp_all add: merged_def)
    then show ?thesis using run c(1) Inl same_mapD [of b c] by (intro exI [of _ c]) simp
  next
    case qi: (Inr v)
    show ?thesis
    proof (cases v)
      case (Some p)
      note e = merged_effect [OF c(2) [unfolded qi Some] none l fits]
      have p: "p \<notin> block_used st" using e(3) by (auto simp: took_def)
      then have "owned c - owned b = {p}" using e(2) own by auto
      moreover have "meta_blocks c = meta_blocks b" "meta_more b c"
        using meta_more_same [of c b] c(2) qi Some by (simp_all add: merged_def)
      moreover have "p \<notin> meta_blocks b" using own p by (auto simp: owned_def)
      ultimately show ?thesis
        using run c qi Some e l p by (intro exI [of _ c]) simp
    next
      case None
      then have sm: "same_map b c" "took {} st st1" using c(2) qi by (simp_all add: merged_def)
      note smd = same_mapD [OF sm(1)]
      have ok1: "disk_ok st1" using took_ok [OF sm(2)] .
      have own1: "owned c \<subseteq> block_used st1" using own smd sm(2) by (simp add: took_def)
      have c1: "i_private i1 = Some c" using c(1) by simp
      have "?rest (i1, st1) = (r, (i', st'))" using run qi None by simp
      from append_zeroed [OF ok1 c1 own1 this] obtain d where d:
        "i' = i1\<lparr>i_private := Some d\<rparr>" "same_kind c d" "meta_more c d"
        "case r of
           Inr p \<Rightarrow> p \<notin> meta_blocks d \<and> inserted l p c d \<and> took (insert p (meta_blocks d - meta_blocks c)) st1 st'
         | Inl e \<Rightarrow> extent_list d = extent_list c \<and> took (meta_blocks d - meta_blocks c) st1 st'"
        by blast
      have id: "i' = i\<lparr>i_private := Some d\<rparr>" "same_kind b d" "meta_more b d"
        using d c(1) smd(1,3,5) same_kind_trans [of b c d] by (simp_all add: meta_more_def)
      show ?thesis
      proof (cases r)
        case (Inl e)
        then show ?thesis using d(4) id smd took_trans [OF sm(2)] by (intro exI [of _ d]) auto
      next
        case (Inr p)
        then have dp: "p \<notin> meta_blocks d" "inserted l p c d"
            "took (insert p (meta_blocks d - meta_blocks b)) st st'"
          using d(4) smd took_trans [OF sm(2)] by auto
        have ins: "inserted l p b d"
          using dp(2) smd same_kind_v2 [OF smd(3)] by (auto simp: inserted_def)
        note e = inserted_effect [OF ins none l id(3)]
        have p: "p \<notin> block_used st" using dp(3) by (auto simp: took_def)
        have "insert p (meta_blocks d - meta_blocks b) \<inter> owned b = {}"
          using dp(3) own by (auto simp: took_def)
        then have new: "(meta_blocks d - meta_blocks b) \<inter> owned b = {}"
          and "owned d - owned b = insert p (meta_blocks d - meta_blocks b)"
          using e(2) by auto
        then show ?thesis using id e l p ins dp(1,3) Inr new by (intro exI [of _ d]) simp
      qed
    qed
  qed
qed

end
