(* ===== verification/Truncate.thy ===== *)
theory Truncate
  imports BlockMap
begin

text \<open>
  Freeing the blocks of a file (\<open>inode.c\<close>): all from a logical block on, and those of a hole.  The
  loops over the extents are recursions over the list of extents that return the list they leave
  behind, also when freeing a block fails in the middle.  Removing an entry of the root moves the
  first entry of the overflow into it, so that the extents of root and overflow together are one
  list, of which the root keeps the head.
\<close>

section \<open>Runs of blocks\<close>

definition free_run :: "u64 \<Rightarrow> nat list \<Rightarrow> (fs, unit) act" where
  "free_run physical js = eachE (\<lambda>j. cryexts_free_block (physical + of_nat j)) js"

type_synonym extents_result = "(unit res \<times> cryexts_extent list) \<times> fs"

text \<open>What was done so far is kept in front of what a later step leaves.\<close>

definition keep_before :: "cryexts_extent list \<Rightarrow> extents_result \<Rightarrow> extents_result" where
  "keep_before es r = (case r of ((v, rest), st) \<Rightarrow> ((v, es @ rest), st))"

section \<open>From a block on\<close>

fun free_extents :: "u64 \<Rightarrow> cryexts_extent list \<Rightarrow> fs \<Rightarrow> extents_result" where
  "free_extents keep_blocks [] st = ((Inr (), []), st)"
| "free_extents keep_blocks (e # es) st =
     (let logical = e_logical_start e; len = unat (e_length e) in
      if logical + ucast (e_length e) \<le> keep_blocks
      then keep_before [e] (free_extents keep_blocks es st)
      else if keep_blocks \<le> logical
      then (case free_run (e_physical_start e) [0..<len] st of
              (Inl err, st) \<Rightarrow> ((Inl err, e # es), st)
            | (Inr _, st) \<Rightarrow> free_extents keep_blocks es st)
      else (let new_len = ucast (keep_blocks - logical) :: u32 in
            case free_run (e_physical_start e) [unat new_len..<len] st of
              (Inl err, st) \<Rightarrow> ((Inl err, e # es), st)
            | (Inr _, st) \<Rightarrow>
                keep_before [e\<lparr>e_length := new_len\<rparr>] (free_extents keep_blocks es st)))"

text \<open>The leaves: one without extents is dropped and its block freed.\<close>

fun free_leaves ::
    "(cryexts_extent list \<Rightarrow> fs \<Rightarrow> extents_result) \<Rightarrow> cryexts_extent_leaf_cache list \<Rightarrow> fs \<Rightarrow>
     (unit res \<times> cryexts_extent_leaf_cache list) \<times> fs" where
  "free_leaves f [] st = ((Inr (), []), st)"
| "free_leaves f (leaf # leaves) st =
     (case f (lf_extents leaf) st of
        ((Inl err, es), st) \<Rightarrow> ((Inl err, leaf\<lparr>lf_extents := es\<rparr> # leaves), st)
      | ((Inr _, es), st) \<Rightarrow>
          let leaf = leaf\<lparr>lf_extents := es\<rparr> in
          if es \<noteq> []
          then (case free_leaves f leaves st of ((r, rest), st) \<Rightarrow> ((r, leaf # rest), st))
          else if lf_block leaf = 0 then free_leaves f leaves st
          else (case cryexts_free_block (lf_block leaf) st of
                  (Inl err, st) \<Rightarrow> ((Inl err, leaf # leaves), st)
                | (Inr _, st) \<Rightarrow> free_leaves f leaves st))"

definition on_leaves ::
    "(cryexts_extent list \<Rightarrow> fs \<Rightarrow> extents_result) \<Rightarrow> unit iact" where
  "on_leaves f = (\<lambda>(i, st).
     case free_leaves f (ii_extent_leaves (info i)) st of
       ((r, leaves), st) \<Rightarrow> (r, (upd_info (\<lambda>b. b\<lparr>ii_extent_leaves := leaves\<rparr>) i, st)))"

definition free_overflow_block :: "unit iact" where
  "free_overflow_block = (\<lambda>(i, st).
     let b = info i in
     if ii_overflow_extents b \<noteq> [] \<or> ii_extent_overflow_block b = 0 then (Inr (), (i, st))
     else bindE (onfs (cryexts_free_block (ii_extent_overflow_block b)))
       (\<lambda>_. oni (upd_info (\<lambda>b. b\<lparr>ii_extent_overflow_block := 0\<rparr>))) (i, st))"

definition free_root_extents :: "u64 \<Rightarrow> unit iact" where
  "free_root_extents keep_blocks = bindE (\<lambda>(i, st).
     let b = info i; n = length (ii_extents b) in
     case free_extents keep_blocks (ii_extents b @ ii_overflow_extents b) st of
       ((r, es), st) \<Rightarrow>
         (r, (upd_info (\<lambda>b. b\<lparr>ii_extents := take n es, ii_overflow_extents := drop n es\<rparr>) i, st)))
     (\<lambda>_. free_overflow_block)"

definition free_dir_index :: "u64 \<Rightarrow> unit iact" where
  "free_dir_index keep_blocks = (\<lambda>(i, st).
     let b = info i in
     if S_ISDIR (i_mode i) \<and> has_flag (ii_inode_flags b) CRYEXTS_INODE_FLAG_DIR_INDEX \<and>
        ii_dir_index_block b \<noteq> 0 \<and> keep_blocks = 0
     then bindE (onfs (cryexts_free_block (ii_dir_index_block b)))
            (\<lambda>_. oni (upd_info (\<lambda>b. b\<lparr>ii_dir_index_block := 0\<rparr>))) (i, st)
     else (Inr (), (i, st)))"

definition free_direct :: "nat \<Rightarrow> unit iact" where
  "free_direct k = (\<lambda>(i, st).
     let block = ii_direct (info i) ! k in
     if block = 0 then (Inr (), (i, st))
     else bindE (onfs (cryexts_free_block block))
            (\<lambda>_. oni (upd_info (\<lambda>b. b\<lparr>ii_direct := (ii_direct b)[k := 0]\<rparr>))) (i, st))"

text \<open>
  The entries of the indirect block \<open>ib\<close>, cleared in place in its buffer; the flags say that one
  was cleared and that none is left.  After an error the buffer keeps what was cleared but is not
  marked dirty.
\<close>

fun free_entries :: "u64 \<Rightarrow> u64 \<Rightarrow> nat list \<Rightarrow> bool \<Rightarrow> bool \<Rightarrow> (fs, bool \<times> bool) act" where
  "free_entries keep_blocks ib [] dirty none_left = retE (dirty, none_left)"
| "free_entries keep_blocks ib (k # ks) dirty none_left = (\<lambda>st.
     let block = get64 (bdata st ib) (8 * k) in
     if block = 0 then free_entries keep_blocks ib ks dirty none_left st
     else if keep_blocks \<le> of_nat (CRYEXTS_DIRECT_BLOCKS + k)
     then bindE (cryexts_free_block block) (\<lambda>_.
          bindE (modE (\<lambda>st. set_bdata ib (put_bytes (8 * k) (le64 0) (bdata st ib)) st)) (\<lambda>_.
            free_entries keep_blocks ib ks True none_left)) st
     else free_entries keep_blocks ib ks dirty False st)"

definition free_indirect :: "u64 \<Rightarrow> unit iact" where
  "free_indirect keep_blocks = (\<lambda>(i, st).
     let ib = ii_indirect_block (info i) in
     if ib = 0 then (Inr (), (i, st))
     else bindE (onfs (io_step EIO)) (\<lambda>_.
          bindE (onfs (free_entries keep_blocks ib [0..<CRYEXTS_INDIRECT_BLOCKS] False True))
            (\<lambda>(dirty, none_left).
          bindE (onfs (modE (\<lambda>st. if dirty then mark_buffer_dirty ib st else st))) (\<lambda>_.
            if \<not> none_left then retE ()
            else bindE (onfs (cryexts_free_block ib))
                   (\<lambda>_. oni (upd_info (\<lambda>b. b\<lparr>ii_indirect_block := 0\<rparr>)))))) (i, st))"

definition cryexts_free_blocks_from :: "u64 \<Rightarrow> unit iact" where
  "cryexts_free_blocks_from keep_blocks = (\<lambda>(i, st).
     case i_private i of None \<Rightarrow> (Inl EIO, (i, st))
     | Some b \<Rightarrow>
         if ii_use_extents b
         then (if cryexts_extent_tree_v2_inode b then on_leaves (free_extents keep_blocks) (i, st)
               else free_root_extents keep_blocks (i, st))
         else runE [free_dir_index keep_blocks,
                eachE free_direct [unat (ucast keep_blocks :: u32)..<CRYEXTS_DIRECT_BLOCKS],
                free_indirect keep_blocks] (i, st))"

section \<open>A hole\<close>

text \<open>
  What becomes of one extent; \<open>n\<close> is the number of extents that the leaf has at this moment.
  Only a hole strictly inside the extent makes a second one, which needs room and memory.
\<close>

definition punch_extent ::
    "u64 \<Rightarrow> u64 \<Rightarrow> nat \<Rightarrow> cryexts_extent \<Rightarrow> fs \<Rightarrow> extents_result" where
  "punch_extent first_block end_block n e st =
     (let logical = e_logical_start e; physical = e_physical_start e;
          extent_end = logical + ucast (e_length e);
          punch_start = max first_block logical; punch_end = min end_block extent_end;
          free_start = ucast (punch_start - logical) :: u32;
          free_len = ucast (punch_end - punch_start) :: u32;
          run = free_run (physical + ucast free_start) [0..<unat free_len];
          after = physical + ucast free_start + ucast free_len
      in if extent_end \<le> first_block then ((Inr (), [e]), st)
         else if logical < punch_start \<and> punch_end < extent_end
         then (if CRYEXTS_EXTENTS_PER_BLOCK \<le> n then ((Inl ENOSPC, [e]), st)
               else (case kmalloc st of
                 (Inl err, st) \<Rightarrow> ((Inl err, [e]), st)
               | (Inr _, st) \<Rightarrow>
                   (case run st of (r, st) \<Rightarrow>
                      ((r, [e\<lparr>e_length := ucast (punch_start - logical)\<rparr>,
                            new_extent punch_end after (ucast (extent_end - punch_end))]), st))))
         else (case run st of
                 (Inl err, st) \<Rightarrow> ((Inl err, [e]), st)
               | (Inr _, st) \<Rightarrow>
                   ((Inr (),
                     if punch_start = logical \<and> punch_end = extent_end then []
                     else if punch_start = logical
                     then [e\<lparr>e_logical_start := punch_end, e_physical_start := after,
                             e_length := ucast (extent_end - punch_end)\<rparr>]
                     else if punch_end = extent_end
                     then [e\<lparr>e_length := ucast (punch_start - logical)\<rparr>] else [e]), st)))"

fun punch_extents ::
    "u64 \<Rightarrow> u64 \<Rightarrow> nat \<Rightarrow> cryexts_extent list \<Rightarrow> fs \<Rightarrow> extents_result" where
  "punch_extents first_block end_block n [] st = ((Inr (), []), st)"
| "punch_extents first_block end_block n (e # es) st =
     (if end_block \<le> e_logical_start e then ((Inr (), e # es), st)
      else (case punch_extent first_block end_block n e st of
              ((Inl err, out), st) \<Rightarrow> ((Inl err, out @ es), st)
            | ((Inr _, out), st) \<Rightarrow>
                keep_before out
                  (punch_extents first_block end_block (n + length out - 1) es st)))"

definition cryexts_punch_hole_blocks :: "u64 \<Rightarrow> u64 \<Rightarrow> unit iact" where
  "cryexts_punch_hole_blocks first_block end_block = (\<lambda>(i, st).
     case i_private i of None \<Rightarrow> (Inl EOPNOTSUPP, (i, st))
     | Some b \<Rightarrow>
         if \<not> ii_use_extents b then (Inl EOPNOTSUPP, (i, st))
         else if \<not> cryexts_extent_tree_v2_inode b then (Inl EOPNOTSUPP, (i, st))
         else if end_block \<le> first_block then (Inr (), (i, st))
         else on_leaves (\<lambda>es. punch_extents first_block end_block (length es) es) (i, st))"

end
