(* ===== verification/FileBlocks.thy ===== *)
theory FileBlocks
  imports ExtentMap Truncate AllocClaims
begin

text \<open>
  The invariant of a file with extents (\<open>file_ok\<close>): what it owns is marked used, owned once and no
  metadata of the file system, no extent runs over the end of the numbers, and in a file with
  leaves the extents are in order.  Looking up with allocation and truncating keep it.
\<close>

section \<open>The invariant\<close>

definition run_list :: "cryexts_extent \<Rightarrow> u64 list" where
  "run_list e = map (\<lambda>k. e_physical_start e + of_nat k) [0..<unat (e_length e)]"

definition owned_list :: "cryexts_inode_info \<Rightarrow> u64 list" where
  "owned_list b = concat (map run_list (extent_list b)) @ meta_list b"

lemma set_run_list [simp]: "set (run_list e) = extent_run e"
  by (auto simp: run_list_def extent_run_def)

lemma set_meta_list: "set (meta_list b) = meta_blocks b"
  by (simp add: meta_blocks_def)

lemma set_owned_list: "set (owned_list b) = owned b"
  by (simp add: owned_list_def owned_def meta_blocks_def)

definition file_ok :: "cryexts_inode_info \<Rightarrow> fs \<Rightarrow> bool" where
  "file_ok b st \<longleftrightarrow> disk_ok st \<and> ii_use_extents b \<and>
     (\<forall>e \<in> set (extent_list b). extent_fits e \<and> e_length e \<noteq> 0) \<and>
     (cryexts_extent_tree_v2_inode b \<longrightarrow> extents_sorted (extent_list b)) \<and>
     owned b \<subseteq> block_used st \<and> distinct (owned_list b) \<and>
     (\<forall>x \<in> owned b. x \<notin> set (bitmaps st) \<and> x \<notin> side st)"

lemma file_okD:
  assumes "file_ok b st"
  shows "disk_ok st" "ii_use_extents b" "\<forall>e \<in> set (extent_list b). extent_fits e"
    "owned b \<subseteq> block_used st" "distinct (owned_list b)"
    "\<And>x. x \<in> owned b \<Longrightarrow> x \<notin> set (bitmaps st)" "\<And>x. x \<in> owned b \<Longrightarrow> x \<notin> side st"
    "cryexts_extent_tree_v2_inode b \<Longrightarrow> extents_sorted (extent_list b)"
    "\<forall>e \<in> set (extent_list b). e_length e \<noteq> 0"
  using assms by (simp_all add: file_ok_def)

section \<open>Allocation keeps it\<close>

lemma sorted_insert:
  assumes s: "extents_sorted (us @ vs)" and place: "at_place l us vs" and l: "l \<noteq> - 1"
    and none: "xmap (us @ vs) l = None"
  shows "extents_sorted (us @ new_extent l p 1 # vs)"
proof -
  let ?R = "\<lambda>d e. unat (e_logical_start d) + unat (e_length d) \<le> unat (e_logical_start e)"
  let ?n = "new_extent l p 1"
  have fits: "extent_fits ?n" using not_max_nat [OF l] by (simp add: extent_fits_def new_extent_def)
  have n: "e_length ?n = 1" "e_logical_start ?n = l" by (simp_all add: new_extent_def)
  have nc: "\<not> extent_covers l e" if "e \<in> set (us @ vs)" for e
    using none that by (auto simp: xmap_def find_None_iff)
  have "?R e ?n" if "e \<in> set us" for e
    using nc [of e] extent_covers_nat [of e l] s place that n
    by (auto simp: extents_sorted_def at_place_def word_le_nat_alt)
  moreover have "?R ?n e" if "e \<in> set vs" for e
  proof -
    obtain h t where v: "vs = h # t" using \<open>e \<in> set vs\<close> by (cases vs) auto
    then have "unat l < unat (e_logical_start h)" using place by (simp add: at_place_def word_less_nat_alt)
    moreover have "e = h \<or> ?R h e" using s that v by (auto simp: extents_sorted_def sorted_wrt_append)
    ultimately show ?thesis using n by auto
  qed
  ultimately show ?thesis
    using s fits n by (auto simp: extents_sorted_def sorted_wrt_append)
qed

lemma distinct_insert_run:
  assumes "distinct (concat (map run_list (us @ vs)) @ m)" "p \<notin> (\<Union>e \<in> set (us @ vs). extent_run e) \<union> set m"
    "run_list e = [p]"
  shows "distinct (concat (map run_list (us @ e # vs)) @ m)"
  using assms by auto

lemma run_list_new: "run_list (new_extent l p 1) = [p]"
  by (simp add: run_list_def new_extent_def)

lemma run_list_grow:
  assumes "unat (e_length e) < 2 ^ 32 - 1"
  shows "run_list (e\<lparr>e_length := e_length e + 1\<rparr>) = run_list e @ [e_physical_start e + ucast (e_length e)]"
proof -
  have "unat (e_length e + 1) = Suc (unat (e_length e))" using assms by (simp add: unat_plus_if')
  moreover have "(of_nat (unat (e_length e)) :: u64) = ucast (e_length e)"
    by (simp add: word_unat_eq_iff unat_of_nat unat_ucast32)
  ultimately show ?thesis by (simp add: run_list_def)
qed

lemma run_list_set: "p \<in> set (concat (map run_list es)) \<longleftrightarrow> p \<in> (\<Union>e \<in> set es. extent_run e)"
  by simp

text \<open>The list of owned blocks of the file with one more.\<close>

lemma distinct_owned:
  assumes d: "distinct (owned_list b)" and more: "meta_more b b'" and p: "p \<notin> owned b" "p \<notin> meta_blocks b'"
    and new: "(meta_blocks b' - meta_blocks b) \<inter> owned b = {}"
    and list: "inserted l p b b' \<or> merged l b st (Inr (Some p)) b' st'"
  shows "distinct (owned_list b')"
proof -
  obtain ms where ms: "meta_list b' = meta_list b @ ms" "distinct ms" "set ms \<inter> meta_blocks b = {}"
    using more by (auto simp: meta_more_def)
  have "\<exists>us vs. concat (map run_list (extent_list b)) = us @ vs \<and>
      concat (map run_list (extent_list b')) = us @ p # vs"
    using list
  proof
    assume "inserted l p b b'"
    then obtain us vs where "extent_list b = us @ vs" "extent_list b' = us @ new_extent l p 1 # vs"
      by (auto simp: inserted_def)
    then show ?thesis by (auto simp: run_list_new)
  next
    assume "merged l b st (Inr (Some p)) b' st'"
    then obtain us e where u: "extent_list b = us @ [e]" "extent_list b' = us @ [e\<lparr>e_length := e_length e + 1\<rparr>]"
        "p = e_physical_start e + ucast (e_length e)" "unat (e_length e) < CRYEXTS_MAX_EXTENT_BLOCKS"
      by (auto simp: merged_def)
    then have "run_list (e\<lparr>e_length := e_length e + 1\<rparr>) = run_list e @ [p]"
      using run_list_grow [of e] by (simp add: const_simps)
    then show ?thesis
      using u(1,2) by (intro exI [of _ "concat (map run_list us) @ run_list e"] exI [of _ "[]"]) simp
  qed
  then obtain us vs where c: "concat (map run_list (extent_list b)) = us @ vs"
      "concat (map run_list (extent_list b')) = us @ p # vs" by blast
  have lb: "owned_list b = us @ vs @ meta_list b" by (simp only: owned_list_def c(1) append_assoc)
  have lb': "owned_list b' = us @ p # vs @ meta_list b @ ms"
    by (simp only: owned_list_def c(2) ms(1) append_assoc append_Cons)
  have o: "owned b = set us \<union> (set vs \<union> set (meta_list b))"
    by (simp only: set_owned_list [symmetric] lb set_append)
  have "set ms \<subseteq> meta_blocks b' - meta_blocks b" using ms by (auto simp: meta_blocks_def)
  then have n: "set ms \<inter> owned b = {}" "p \<notin> set ms"
    using new p(2) ms(1) by (blast, simp add: meta_blocks_def)
  have split: "distinct (us @ p # vs @ m @ ms)"
    if "distinct (us @ vs @ m)" "p \<notin> set us \<union> (set vs \<union> set m)" "set ms \<inter> (set us \<union> (set vs \<union> set m)) = {}" for m
    using that n(2) ms(2) by auto
  show ?thesis
    unfolding lb' by (rule split [OF d [unfolded lb] p(1) [unfolded o] n(1) [unfolded o]])
qed

lemma list_fits:
  assumes fits: "\<forall>e \<in> set (extent_list b). extent_fits e"
    and list: "inserted l p b b' \<or> merged l b st (Inr (Some p)) b' st'" and l: "l \<noteq> - 1"
  shows "\<forall>e \<in> set (extent_list b'). extent_fits e"
  using list
proof
  assume "inserted l p b b'"
  moreover have "extent_fits (new_extent l p 1)"
    using not_max_nat [OF l] by (simp add: extent_fits_def new_extent_def)
  ultimately show ?thesis using fits by (auto simp: inserted_def)
next
  assume "merged l b st (Inr (Some p)) b' st'"
  then obtain us e where u: "extent_list b = us @ [e]" "extent_list b' = us @ [e\<lparr>e_length := e_length e + 1\<rparr>]"
      "l = e_logical_start e + ucast (e_length e)" "unat (e_length e) < CRYEXTS_MAX_EXTENT_BLOCKS"
    by (auto simp: merged_def)
  then have "unat l = unat (e_logical_start e) + unat (e_length e)"
    using fits by (simp add: extent_fits_def unat_plus_if' unat_ucast32)
  moreover have "unat (e_length e + 1) = unat (e_length e) + 1"
    using u(4) by (simp add: unat_plus_if' const_simps)
  ultimately have "extent_fits (e\<lparr>e_length := e_length e + 1\<rparr>)"
    using not_max_nat [OF l] by (simp add: extent_fits_def)
  then show ?thesis using fits u by auto
qed

lemma list_nonempty:
  assumes len: "\<forall>e \<in> set (extent_list b). e_length e \<noteq> 0"
    and list: "inserted l p b b' \<or> merged l b st (Inr (Some p)) b' st'"
  shows "\<forall>e \<in> set (extent_list b'). e_length e \<noteq> 0"
  using list
proof
  assume "inserted l p b b'"
  moreover have "e_length (new_extent l p 1) \<noteq> 0" by (simp add: new_extent_def)
  ultimately show ?thesis using len by (auto simp: inserted_def)
next
  assume "merged l b st (Inr (Some p)) b' st'"
  then obtain us e where u: "extent_list b = us @ [e]" "extent_list b' = us @ [e\<lparr>e_length := e_length e + 1\<rparr>]"
      "unat (e_length e) < CRYEXTS_MAX_EXTENT_BLOCKS"
    by (auto simp: merged_def)
  have "unat (e_length e + 1) = unat (e_length e) + 1"
    using u(3) by (simp add: unat_plus_if' const_simps)
  then have "e_length e + 1 \<noteq> 0" by auto
  then show ?thesis using len u(1,2) by simp
qed

lemma list_sorted:
  assumes v2: "cryexts_extent_tree_v2_inode b" and s: "extents_sorted (extent_list b)"
    and none: "find_extent b l = None"
    and list: "inserted l p b b' \<or> merged l b st (Inr (Some p)) b' st'" and l: "l \<noteq> - 1"
  shows "extents_sorted (extent_list b')"
  using list
proof
  assume "inserted l p b b'"
  then obtain us vs where u: "extent_list b = us @ vs" "extent_list b' = us @ new_extent l p 1 # vs" "at_place l us vs"
    using v2 by (auto simp: inserted_def)
  then show ?thesis using sorted_insert [of us vs l p] s none l by (simp add: find_extent_xmap)
next
  assume m: "merged l b st (Inr (Some p)) b' st'"
  then obtain us e where u: "extent_list b = us @ [e]" "extent_list b' = us @ [e\<lparr>e_length := e_length e + 1\<rparr>]"
      "unat (e_length e) < CRYEXTS_MAX_EXTENT_BLOCKS"
    by (auto simp: merged_def)
  have "\<forall>e \<in> set (extent_list b). extent_fits e" using s by (simp add: extents_sorted_def)
  from list_fits [OF this disjI2 [OF m] l] u(2) have "extent_fits (e\<lparr>e_length := e_length e + 1\<rparr>)" by simp
  moreover have "unat (e_length e + 1) = unat (e_length e) + 1"
    using u(3) by (simp add: unat_plus_if' const_simps)
  then have "e_length e + 1 \<noteq> 0" by auto
  ultimately show ?thesis using s u by (simp add: extents_sorted_def sorted_wrt_append)
qed

lemma disk_free_apart:
  "disk_ok st \<Longrightarrow> x \<in> block_space st - block_used st \<Longrightarrow> x \<notin> set (bitmaps st) \<and> x \<notin> side st"
  by (simp add: disk_ok_def)

text \<open>The accounting of one call, and the invariant after it.\<close>

lemma resolve_file_ok:
  assumes f: "file_ok b st" and i: "i_private i = Some b"
    and r: "cryexts_resolve_block l True (i, st) = (r, (i', st'))"
  shows "\<exists>b'. i' = i\<lparr>i_private := Some b'\<rparr> \<and> same_kind b b' \<and> owned b \<subseteq> owned b' \<and>
    took (owned b' - owned b) st st' \<and> file_ok b' st' \<and>
    (case r of Inr p \<Rightarrow> find_extent b' = (find_extent b)(l := Some p) \<and>
        (find_extent b l = None \<longrightarrow> p \<in> owned b' - owned b)
      | Inl e \<Rightarrow> find_extent b' = find_extent b)"
proof (cases "find_extent b l")
  case (Some p)
  then have "(r = Inr p \<or> (\<exists>e. r = Inl e)) \<and> i' = i \<and> st' = st"
    using r resolve_extent_run [OF i file_okD(2) [OF f]] by (auto split: if_splits)
  moreover have "(find_extent b)(l := Some p) = find_extent b" using Some by auto
  ultimately show ?thesis
    using f i took_refl [OF file_okD(1) [OF f]] Some by (intro exI [of _ b]) auto
next
  case None
  note d = file_okD [OF f]
  obtain b' where b: "i' = i\<lparr>i_private := Some b'\<rparr>" "same_kind b b'" "meta_more b b'"
    "case r of
       Inr p \<Rightarrow> l \<noteq> - 1 \<and> (inserted l p b b' \<or> merged l b st (Inr (Some p)) b' st') \<and>
         find_extent b' = (find_extent b)(l := Some p) \<and>
         owned b' = insert p (owned b \<union> (meta_blocks b' - meta_blocks b)) \<and> p \<notin> block_used st \<and> p \<notin> meta_blocks b' \<and>
         (meta_blocks b' - meta_blocks b) \<inter> owned b = {} \<and>
         took (owned b' - owned b) st st'
     | Inl e \<Rightarrow> extent_list b' = extent_list b \<and>
         took (meta_blocks b' - meta_blocks b) st st'"
    using resolve_cases [OF d(1) i d(2,4) None d(3) r] by blast
  have use: "ii_use_extents b'" and v2: "cryexts_extent_tree_v2_inode b' = cryexts_extent_tree_v2_inode b"
    using b(2) d(2) same_kind_v2 [OF b(2)] by (simp_all add: same_kind_def)
  have fin: "file_ok b' st'" if t: "took (owned b' - owned b) st st'" and sub: "owned b \<subseteq> owned b'"
      and fits: "\<forall>e \<in> set (extent_list b'). extent_fits e"
      and len: "\<forall>e \<in> set (extent_list b'). e_length e \<noteq> 0" and dist: "distinct (owned_list b')"
      and srt: "cryexts_extent_tree_v2_inode b \<Longrightarrow> extents_sorted (extent_list b')"
  proof -
    have g: "geo_view st' = geo_view st" using t by (simp add: took_def)
    have "owned b' \<subseteq> block_used st'" using t d(4) by (auto simp: took_def)
    moreover have "x \<notin> set (bitmaps st) \<and> x \<notin> side st" if x: "x \<in> owned b'" for x
    proof (cases "x \<in> owned b")
      case False
      then have "x \<in> block_space st - block_used st" using t x by (auto simp: took_def)
      then show ?thesis using disk_free_apart [OF d(1)] by blast
    qed (use d(6,7) in blast)
    ultimately show ?thesis
      using took_ok [OF t] use fits len dist srt v2 geo_basic(5,8) [OF g] by (simp add: file_ok_def)
  qed
  show ?thesis
  proof (cases r)
    case (Inl e)
    then have e: "extent_list b' = extent_list b" "took (meta_blocks b' - meta_blocks b) st st'"
      using b(4) by simp_all
    obtain ms where ms: "meta_list b' = meta_list b @ ms" "distinct ms" "set ms \<inter> meta_blocks b = {}"
      using b(3) by (auto simp: meta_more_def)
    have new: "(meta_blocks b' - meta_blocks b) \<inter> owned b = {}" using e(2) d(4) by (auto simp: took_def)
    then have o: "owned b' - owned b = meta_blocks b' - meta_blocks b" "owned b \<subseteq> owned b'"
      using meta_more_sub [OF b(3)] e(1) by (auto simp: owned_def)
    have "set ms \<subseteq> meta_blocks b' - meta_blocks b" using ms by (auto simp: meta_blocks_def)
    then have apart: "set (owned_list b) \<inter> set ms = {}" using new unfolding set_owned_list by blast
    have "owned_list b' = owned_list b @ ms" by (simp only: owned_list_def e(1) ms(1) append_assoc)
    then have dl: "distinct (owned_list b')"
      using d(5) ms(2) apart by (simp only: distinct_append)
    have t: "took (owned b' - owned b) st st'" unfolding o(1) by (rule e(2))
    have ok: "file_ok b' st'" by (rule fin [OF t o(2) _ _ dl]) (simp_all add: e(1) d(3,8,9))
    have "find_extent b' = find_extent b" by (simp only: find_extent_xmap e(1))
    with b(1,2) t o(2) ok show ?thesis unfolding Inl sum.case by blast
  next
    case (Inr p)
    then have e: "l \<noteq> - 1" "inserted l p b b' \<or> merged l b st (Inr (Some p)) b' st'"
      "find_extent b' = (find_extent b)(l := Some p)"
      "owned b' = insert p (owned b \<union> (meta_blocks b' - meta_blocks b))" "p \<notin> block_used st" "p \<notin> meta_blocks b'"
      "took (owned b' - owned b) st st'"
      using b(4) unfolding Inr sum.case by blast+
    have sub: "owned b \<subseteq> owned b'" and p: "p \<notin> owned b" "p \<in> owned b'" using e(4,5) d(4) by auto
    have new: "(meta_blocks b' - meta_blocks b) \<inter> owned b = {}" using b(4) Inr by simp
    have "\<forall>x \<in> set (extent_list b'). extent_fits x" by (rule list_fits [OF d(3) e(2,1)])
    moreover have "\<forall>x \<in> set (extent_list b'). e_length x \<noteq> 0" by (rule list_nonempty [OF d(9) e(2)])
    moreover have "distinct (owned_list b')" by (rule distinct_owned [OF d(5) b(3) p(1) e(6) new e(2)])
    moreover have "extents_sorted (extent_list b')" if "cryexts_extent_tree_v2_inode b"
      by (rule list_sorted [OF that d(8) [OF that] None e(2,1)])
    ultimately have "file_ok b' st'" by (intro fin [OF e(7) sub])
    with b(1,2) e(3,7) sub p show ?thesis unfolding Inr sum.case by blast
  qed
qed

end
