(* ===== verification/DirFrame.thy ===== *)
theory DirFrame
  imports Dir FileBlocks
begin

text \<open>
  Which buffers the steps of the directory operations write: \<open>within S a b\<close> says that between the
  states only the buffers in \<open>S\<close> changed, and that neither the layout of the file system nor what
  the checksums and the hash of the index depend on did.
\<close>

section \<open>The frame\<close>

definition csum_view where
  "csum_view st = (sb_dir_index_seed (s_disk_sb st), sb_metadata_csum_type (s_disk_sb st),
     sb_fs_generation (s_disk_sb st), sb_features_ro_compat (s_disk_sb st), sb_version (s_disk_sb st),
     d_fault st)"

definition cache_within :: "u64 set \<Rightarrow> fs \<Rightarrow> fs \<Rightarrow> bool" where
  "cache_within S a b \<longleftrightarrow> csum_view b = csum_view a \<and> (\<forall>x. x \<notin> S \<longrightarrow> d_cache b x = d_cache a x)"

definition within :: "u64 set \<Rightarrow> fs \<Rightarrow> fs \<Rightarrow> bool" where
  "within S a b \<longleftrightarrow> geo_view b = geo_view a \<and> cache_within S a b"

lemma within_refl [simp]: "within S a a"
  by (simp add: within_def cache_within_def)

lemma within_trans: "within S a b \<Longrightarrow> within T b c \<Longrightarrow> within (S \<union> T) a c"
  by (simp add: within_def cache_within_def)

lemma within_mono: "within S a b \<Longrightarrow> S \<subseteq> T \<Longrightarrow> within T a b"
  by (auto simp: within_def cache_within_def)

lemma within_geo: "within S a b \<Longrightarrow> geo_view b = geo_view a"
  by (simp add: within_def)

lemma within_bdata: "within S a b \<Longrightarrow> 0 \<in> S \<Longrightarrow> x \<notin> S \<Longrightarrow> bdata b x = bdata a x"
  by (auto simp: within_def cache_within_def bdata_def)

lemma within_hash: "within S a b \<Longrightarrow> cryexts_dir_hash b = cryexts_dir_hash a"
  by (simp add: within_def cache_within_def csum_view_def cryexts_dir_hash_def fun_eq_iff)

lemma within_csum:
  assumes "within S a b"
  shows "cryexts_dir_index_checksum_valid b = cryexts_dir_index_checksum_valid a"
    "cryexts_dir_index_set_checksum b = cryexts_dir_index_set_checksum a"
proof -
  have sb: "sb_metadata_csum_type (s_disk_sb b) = sb_metadata_csum_type (s_disk_sb a)"
    "sb_fs_generation (s_disk_sb b) = sb_fs_generation (s_disk_sb a)"
    "sb_features_ro_compat (s_disk_sb b) = sb_features_ro_compat (s_disk_sb a)"
    "sb_version (s_disk_sb b) = sb_version (s_disk_sb a)"
    using assms by (simp_all add: within_def cache_within_def csum_view_def)
  show "cryexts_dir_index_checksum_valid b = cryexts_dir_index_checksum_valid a"
    "cryexts_dir_index_set_checksum b = cryexts_dir_index_set_checksum a"
    by (simp_all add: fun_eq_iff cryexts_dir_index_checksum_valid_def cryexts_dir_index_set_checksum_def
        cryexts_metadata_csum_enabled_def cryexts_metadata_csum_enabled_disk_def
        cryexts_dir_index_expected_checksum_def sb)
qed

lemma within_feature:
  "within S a b \<Longrightarrow> cryexts_dir_index_feature_enabled b = cryexts_dir_index_feature_enabled a"
  by (simp add: within_def geo_view_def cryexts_dir_index_feature_enabled_def)

text \<open>The device may fail at some access.\<close>

definition faulty :: "fs \<Rightarrow> bool" where "faulty st \<longleftrightarrow> (\<exists>t. d_fault st t)"

lemma faultyI: "d_fault st t \<Longrightarrow> faulty st"
  by (auto simp: faulty_def)

lemma within_faulty: "within S a b \<Longrightarrow> faulty b = faulty a"
  by (simp add: within_def cache_within_def csum_view_def faulty_def)

lemma within_max: "within S a b \<Longrightarrow> cryexts_max_inodes b = cryexts_max_inodes a"
  by (simp add: within_def geo_view_def cryexts_max_inodes_def cryexts_inodes_count_def)

lemma within_tick: "within S a (b\<lparr>d_tick := n\<rparr>) \<longleftrightarrow> within S a b"
  by (simp add: within_def cache_within_def csum_view_def geo_view_def)

lemma within_set: "b \<in> S \<Longrightarrow> b \<noteq> 0 \<Longrightarrow> within S st (set_bdata b buf st)"
  by (auto simp: within_def cache_within_def csum_view_def geo_view_def set_bdata_def)

lemma within_dirty: "within S a (mark_buffer_dirty x b) \<longleftrightarrow> within S a b"
  by (simp add: within_def cache_within_def csum_view_def geo_view_def mark_buffer_dirty_def)

lemma within_frame: "alloc_frame S a b \<Longrightarrow> within S a b"
  using frame_geo [of b a]
  by (auto simp: alloc_frame_def within_def cache_within_def alloc_view_def sb_view_def csum_view_def)

lemma within_record:
  assumes "alloc_ok a" "geo_view b = geo_view a"
  shows "within (side a) b (record_and_dirty bh b)"
    "within (side a) b (ignoreE (cryexts_journal_record_bh bh) b)"
proof -
  have s: "side_blocks (side a) b" by (rule side_blocks_geo [OF assms(2,1)])
  show "within (side a) b (record_and_dirty bh b)"
    by (rule within_frame) (rule frame_record_and_dirty [OF s alloc_frame_refl])
  show "within (side a) b (ignoreE (cryexts_journal_record_bh bh) b)"
    using keepsD [OF frame_record [OF s] alloc_frame_refl]
    by (cases bh) (simp_all add: cryexts_journal_record_bh_def ignoreE_def failE_def within_frame)
qed

text \<open>What a step outside the buffers of the bitmaps leaves of the allocator's view.\<close>

lemma within_same:
  assumes "within S a b" "set (bitmaps a) \<inter> S = {}"
  shows "alloc_same a b"
  using assms by (auto simp: within_def cache_within_def alloc_same_def)

section \<open>Allocation\<close>

lemma flip_within:
  assumes ok: "alloc_ok st" and bh: "bh \<in> set (bitmaps st)"
  shows "cache_within (set (bitmaps st)) st (bitmap_set_at bh k st)"
    "cache_within (set (bitmaps st)) st (upd_group g f (bitmap_set_at bh k st))"
proof -
  have "bh \<noteq> 0" using alloc_okD(5) [OF ok bh] by (auto simp: side_def)
  then show "cache_within (set (bitmaps st)) st (bitmap_set_at bh k st)"
    "cache_within (set (bitmaps st)) st (upd_group g f (bitmap_set_at bh k st))"
    using bh by (auto simp: bitmap_set_at_def upd_group_def set_bdata_def cache_within_def csum_view_def)
qed

lemma in_group_within:
  assumes ok: "alloc_ok st" and gr: "cryexts_has_block_groups st"
    and r: "cryexts_alloc_block_in_group grp hint st = (r, st1)"
  shows "cache_within (set (bitmaps st)) st st1" "r = Inl e \<Longrightarrow> st1 = st"
proof -
  have bh: "bh \<in> set (bitmaps st)"
    if "grp < s_group_count st" "bitmap_slot (s_group_block_bitmap_bhs st) grp = Some bh" for bh
  proof -
    have "unat grp < ngroups st" using that(1) gr by (simp add: ngroups_def word_less_nat_alt)
    from bitmap_in(1) [OF this] show ?thesis using gr that(2) by (simp add: bmap_def)
  qed
  show "cache_within (set (bitmaps st)) st st1"
    using r flip_within [OF ok bh] unfolding cryexts_alloc_block_in_group_def
    by (auto simp: Let_def not_le cache_within_def split: option.splits if_splits)
  show "r = Inl e \<Longrightarrow> st1 = st"
    using r unfolding cryexts_alloc_block_in_group_def
    by (auto simp: Let_def split: option.splits if_splits)
qed

lemma scan_within:
  assumes ok: "alloc_ok st" and gr: "cryexts_has_block_groups st"
  shows "alloc_block_scan hint gs e st = (r, st1) \<Longrightarrow>
    cache_within (set (bitmaps st)) st st1 \<and> (\<forall>e. r = Inl e \<longrightarrow> st1 = st)"
proof (induction gs arbitrary: e)
  case Nil
  then show ?case by (simp add: failE_def cache_within_def)
next
  case (Cons g gs)
  obtain s x where g: "g = (s, x)" by (cases g)
  obtain q st2 where a: "cryexts_alloc_block_in_group x (hint st s x) st = (q, st2)" by (metis prod.exhaust)
  note w = in_group_within [OF ok gr a]
  show ?case using Cons.prems w Cons.IH by (cases q) (auto simp: g a split: if_splits)
qed

lemma search_within:
  assumes ok: "alloc_ok st" and r: "block_search goal grp st = (r, st1)"
  shows "cache_within (set (bitmaps st)) st st1"
proof (cases "cryexts_has_block_groups st")
  case False
  then have n: "0 < ngroups st" "bmap st 0 = the (s_block_bitmap_bh st)" by (simp_all add: ngroups_def bmap_def)
  have "the (s_block_bitmap_bh st) \<in> set (bitmaps st)" using bitmap_in(1) [OF n(1)] n(2) by simp
  from flip_within(1) [OF ok this] show ?thesis
    using r False unfolding block_search_def cryexts_alloc_block_legacy_def
    by (auto simp: Let_def cache_within_def split: option.splits)
next
  case True
  let ?first = "alloc_block_scan
      (\<lambda>st'. block_start_hint st' (cryexts_prealloc_feature_enabled st)
         (goal \<noteq> 0 \<and> cryexts_data_block_valid st goal) goal grp)
      (scan_order st (alloc_block_start st (cryexts_prealloc_feature_enabled st)
         (goal \<noteq> 0 \<and> cryexts_data_block_valid st goal) goal grp)) ENOSPC st"
  obtain q st2 where f: "?first = (q, st2)" by (metis prod.exhaust)
  note w = scan_within [OF ok True f]
  show ?thesis
  proof (cases q)
    case (Inl e)
    then have "alloc_block_scan (\<lambda>_ _ _. 0) (second_pass st) e st = (r, st1)"
      using r True f w by (simp add: block_search_def Let_def)
    from scan_within [OF ok True this] show ?thesis by simp
  next
    case (Inr b)
    then show ?thesis using r True f w by (simp add: block_search_def Let_def)
  qed
qed

lemma alloc_within:
  assumes ok: "alloc_ok st" and r: "cryexts_alloc_block_goal goal grp st = (r, st')"
  shows "within (set (bitmaps st) \<union> side st) st st'"
proof (cases r)
  case (Inl e)
  then show ?thesis using block_alloc_fail [OF ok r [unfolded Inl]] by simp
next
  case (Inr b)
  obtain st1 where s: "block_search goal grp st = (Inr b, st1)" and st': "st' = alloc_block_account b st1"
    using r Inr by (auto simp: alloc_block_goal_eq bindE_eq_Inr)
  have f: "bit_flipped True (bmap st (block_group st b)) (block_bit st b) st st1"
    using block_search_grabbed [OF ok, of goal grp] s by (simp add: block_grabbed_def)
  let ?m = "(upd_disk_sb (\<lambda>sb. sb\<lparr>sb_free_blocks_count := sb_free_blocks_count sb - 1\<rparr>) st1)
    \<lparr>s_next_data_block := b + 1\<rparr>"
  have g: "geo_view ?m = geo_view st1" by (simp add: geo_view_def upd_disk_sb_def)
  have "side_blocks (side st) ?m"
    by (rule side_blocks_geo [OF _ ok]) (use g f in \<open>simp add: bit_flipped_def\<close>)
  then have "within (side st) ?m st'"
    unfolding st' alloc_block_account_def Let_def by (intro within_frame mark_frame)
  moreover have "cache_within (set (bitmaps st)) st ?m"
    using search_within [OF ok s] by (simp add: cache_within_def csum_view_def upd_disk_sb_def)
  then have "within (set (bitmaps st)) st ?m"
    using g f by (simp add: within_def bit_flipped_def)
  ultimately show ?thesis by (rule within_trans [rotated])
qed

section \<open>Writing an inode without extents\<close>

text \<open>Only the count of device accesses went on.\<close>

definition ticked :: "fs \<Rightarrow> fs \<Rightarrow> bool" where
  "ticked st st' \<longleftrightarrow> (\<exists>t. st' = st\<lparr>d_tick := t\<rparr>)"

lemma ticked_simps [simp]: "ticked st st" "ticked st (st\<lparr>d_tick := t\<rparr>)"
  by (auto simp: ticked_def intro: exI [of _ "d_tick st"])

lemma ticked_trans: "ticked a b \<Longrightarrow> ticked b c \<Longrightarrow> ticked a c"
  by (auto simp: ticked_def)

lemma ticked_within: "ticked a b \<Longrightarrow> within S a b"
  by (auto simp: ticked_def within_tick)

lemma ticked_fields:
  assumes "ticked a b"
  shows "bdata b = bdata a" "s_disk_sb b = s_disk_sb a" "d_cache b = d_cache a" "geo_view b = geo_view a"
  using assms by (auto simp: ticked_def bdata_def fun_eq_iff geo_view_def)

lemma ticked_faulty: "ticked a b \<Longrightarrow> faulty b = faulty a"
  by (auto simp: ticked_def faulty_def)

lemma ticked_io: "io_step e st = (r, st') \<Longrightarrow> ticked st st' \<and> (r = Inr () \<or> r = Inl e \<and> faulty st)"
  by (auto simp: io_step_def faultyI split: if_splits)

lemma ticked_get_disk_inode:
  assumes r: "cryexts_get_disk_inode ino st = (r, st')"
  shows "ticked st st'" "r = Inr p \<Longrightarrow> ino \<in> inode_space st \<and> fst p = inode_block st ino"
  using r unfolding cryexts_get_disk_inode_def Let_def bindE_def retE_def io_step_def
  by (auto simp: inode_space_def inode_block_def cryexts_max_inodes_def not_less split: if_splits)

lemma get_disk_inode_works:
  assumes ok: "alloc_ok st" and ino: "ino \<in> inode_space st" and r: "cryexts_get_disk_inode ino st = (Inl e, st')"
  shows "faulty st"
proof -
  have "1 \<le> unat ino" using ino by (auto simp: inode_space_def CRYEXTS_ROOT_INO_def word_le_nat_alt)
  then have pred: "unat (ino - 1) = unat ino - 1" by (simp add: unat_sub_if')
  have "inode_group st ino < ngroups st" by (rule inode_place(1) [OF ok ino])
  then have "cryexts_has_block_groups st \<Longrightarrow> (ino - 1) div s_inodes_per_group st < s_group_count st"
    using pred by (simp add: inode_group_def ngroups_def word_less_nat_alt unat_div iper_def)
  then show ?thesis
    using r ino unfolding cryexts_get_disk_inode_def Let_def bindE_def retE_def io_step_def
    by (auto simp: inode_space_def cryexts_max_inodes_def not_less not_le faultyI split: if_splits)
qed

lemma ticked_try_read: "try_read b st = (r, st') \<Longrightarrow> ticked st st' \<and> (\<exists>x. r = Inr x)"
  by (auto simp: try_read_def cryexts_read_file_block_def bindE_def getE_def io_step_def split: if_splits)

lemma ticked_block_count:
  assumes c: "cryexts_inode_block_count (i, st) = (q, (j, s))"
  shows "j = i" "ticked st s" "\<exists>x. q = Inr x"
proof -
  obtain v u where t: "try_read (ii_indirect_block (info i)) st = (v, u)" by (metis prod.exhaust)
  have "j = i \<and> ticked st s \<and> (\<exists>x. q = Inr x)"
    using c t ticked_try_read [OF t]
    by (cases "i_private i")
      (auto simp: cryexts_inode_block_count_def Let_def bindE_def onfs_def retE_def info_def split: if_splits)
  then show "j = i" "ticked st s" "\<exists>x. q = Inr x" by blast+
qed

lemma ticked_update_sectors:
  assumes "update_sectors (i, st) = (r, (i', st'))"
  shows "ticked st st'" "\<exists>n. i' = i\<lparr>i_blocks := n\<rparr>" "r = Inr ()"
proof -
  obtain q j s where c: "cryexts_inode_block_count (i, st) = (q, (j, s))" by (metis prod.exhaust)
  note k = ticked_block_count [OF c]
  have "ticked st st' \<and> (\<exists>n. i' = i\<lparr>i_blocks := n\<rparr>) \<and> r = Inr ()"
    using assms c k by (auto simp: update_sectors_def cryexts_inode_block_sectors_def bindE_def retE_def oni_def)
  then show "ticked st st'" "\<exists>n. i' = i\<lparr>i_blocks := n\<rparr>" "r = Inr ()" by blast+
qed

text \<open>An inode whose extents need no blocks: it has none, or no extents at all.\<close>

definition plain_inode :: "inode \<Rightarrow> bool" where
  "plain_inode i \<longleftrightarrow> i_private i \<noteq> None \<and>
     (\<forall>n s. write_extent_blocks (i\<lparr>i_blocks := n\<rparr>, s) = (Inr (), (i\<lparr>i_blocks := n\<rparr>, s)))"

lemma write_inode_plain:
  assumes ok: "alloc_ok st" and i: "plain_inode i"
    and r: "cryexts_write_inode_to_disk (i, st) = (r, (i', st'))"
  shows "\<exists>n. i' = i\<lparr>i_blocks := n\<rparr>" "within (insert (inode_block st (i_ino i)) (side st)) st st'"
    "r = Inl e \<Longrightarrow> i_ino i \<in> inode_space st \<Longrightarrow> faulty st"
proof -
  let ?S = "insert (inode_block st (i_ino i)) (side st)"
  obtain q st1 where g: "cryexts_get_disk_inode (i_ino i) st = (q, st1)" by (metis prod.exhaust)
  have t1: "ticked st st1" by (rule ticked_get_disk_inode(1) [OF g])
  have "(\<exists>n. i' = i\<lparr>i_blocks := n\<rparr>) \<and> within ?S st st' \<and>
      (\<forall>e. r = Inl e \<longrightarrow> i_ino i \<in> inode_space st \<longrightarrow> faulty st)"
  proof (cases q)
    case (Inl e)
    then have "i' = i \<and> st' = st1"
      using r g by (simp add: cryexts_write_inode_to_disk_def bindE_def onfs_def)
    then show ?thesis
      using ticked_within [OF t1] get_disk_inode_works [OF ok _ g [unfolded Inl]]
      by (auto intro: exI [of _ "i_blocks i"])
  next
    case (Inr p)
    have p: "i_ino i \<in> inode_space st" "fst p = inode_block st (i_ino i)"
      using ticked_get_disk_inode(2) [OF g Inr] by simp_all
    then have nz: "fst p \<noteq> 0" using ok by (simp add: alloc_ok_def)
    obtain v j st2 where u: "update_sectors (i, st1) = (v, (j, st2))" by (metis prod.exhaust)
    note us = ticked_update_sectors [OF u]
    obtain n where j: "j = i\<lparr>i_blocks := n\<rparr>" using us(2) by blast
    have t2: "ticked st st2" by (rule ticked_trans [OF t1 us(1)])
    have ext: "write_extent_blocks (j, st2) = (Inr (), (j, st2))"
      using i j by (simp add: plain_inode_def)
    let ?d = "put_disk_inode p (disk_inode_of j (cached_next_orphan j st2)) st2"
    have res: "(r, (i', st')) = (Inr (), (j, record_and_dirty (Some (fst p)) ?d))"
      using r [symmetric] g Inr u us(3) ext i [unfolded plain_inode_def]
      by (simp add: cryexts_write_inode_to_disk_def bindE_def onfs_def on_errE_def)
    have w: "within ?S st2 ?d" using p(2) nz by (cases p) (simp add: put_disk_inode_def within_set)
    have "geo_view ?d = geo_view st" using within_geo [OF w] ticked_fields(4) [OF t2] by simp
    from within_trans [OF w within_record(1) [OF ok this]] have "within ?S st2 st'"
      using res by (simp add: Un_absorb2)
    with within_trans [OF ticked_within [OF t2] this, of ?S] have "within ?S st st'" by simp
    then show ?thesis using res j by blast
  qed
  then show "\<exists>n. i' = i\<lparr>i_blocks := n\<rparr>" "within ?S st st'"
    "r = Inl e \<Longrightarrow> i_ino i \<in> inode_space st \<Longrightarrow> faulty st" by blast+
qed

lemma write_inode_within:
  assumes ok: "alloc_ok st" and i: "i_private i = Some b" "\<not> ii_use_extents b"
    and r: "cryexts_write_inode_to_disk (i, st) = (r, (i', st'))"
  shows "\<exists>n. i' = i\<lparr>i_blocks := n\<rparr>" "within (insert (inode_block st (i_ino i)) (side st)) st st'"
    "r = Inl e \<Longrightarrow> i_ino i \<in> inode_space st \<Longrightarrow> faulty st"
proof -
  have "plain_inode i"
    using i by (simp add: plain_inode_def write_extent_blocks_def cryexts_inode_uses_extents_def)
  from write_inode_plain [OF ok this r]
  show "\<exists>n. i' = i\<lparr>i_blocks := n\<rparr>" "within (insert (inode_block st (i_ino i)) (side st)) st st'"
    "r = Inl e \<Longrightarrow> i_ino i \<in> inode_space st \<Longrightarrow> faulty st" by blast+
qed

end
