(* ===== verification/DirMap.thy ===== *)
theory DirMap
  imports DirUpdate DirFrame Checksums
begin

text \<open>
  A directory as a map from names to inode numbers.  \<open>dir_view i st ess\<close>: the blocks of the
  directory \<open>i\<close> hold the lists of entries \<open>ess\<close>.  \<open>dir_place\<close>: they are marked used, and apart from
  each other, the metadata and the index.  \<open>index_sound\<close>: every name is in a block that the index
  gives for it.
\<close>

section \<open>The blocks of a directory\<close>

definition dir_shape :: "inode \<Rightarrow> bool" where
  "dir_shape i \<longleftrightarrow> i_private i \<noteq> None \<and> \<not> ii_use_extents (info i) \<and>
     length (ii_direct (info i)) = CRYEXTS_DIRECT_BLOCKS"

definition dblock :: "inode \<Rightarrow> nat \<Rightarrow> u64" where "dblock i k = ii_direct (info i) ! k"

definition idx :: "inode \<Rightarrow> u64" where "idx i = ii_dir_index_block (info i)"

definition dir_view :: "inode \<Rightarrow> fs \<Rightarrow> dirent list list \<Rightarrow> bool" where
  "dir_view i st ess \<longleftrightarrow> dir_shape i \<and> 0 < length ess \<and> length ess \<le> CRYEXTS_DIRECT_BLOCKS \<and>
     i_size i = of_nat (length ess * BLOCK_SIZE) \<and> inj_on (dblock i) {..<length ess} \<and>
     (\<forall>k < length ess. length (bdata st (dblock i k)) = BLOCK_SIZE \<and>
        seg st (bdata st (dblock i k)) BLOCK_SIZE 0 BLOCK_SIZE (ess ! k))"

definition dir_place :: "inode \<Rightarrow> fs \<Rightarrow> nat \<Rightarrow> bool" where
  "dir_place i st n \<longleftrightarrow> disk_ok st \<and> i_ino i \<in> inode_space st \<and> inode_block st (i_ino i) \<notin> block_space st \<and>
     (\<forall>x \<in> dblock i ` {..<n} \<union> (if idx i = 0 then {} else {idx i}).
        x \<in> block_used st \<and> x \<notin> set (bitmaps st) \<and> x \<notin> side st) \<and>
     idx i \<notin> dblock i ` {..<n}"

text \<open>The step of everything that follows a change of the entries.\<close>

definition same_dir :: "inode \<Rightarrow> inode \<Rightarrow> bool" where
  "same_dir i i' \<longleftrightarrow> (i_private i = None \<longleftrightarrow> i_private i' = None) \<and> i_ino i' = i_ino i \<and> i_size i' = i_size i \<and>
     i_mode i' = i_mode i \<and> i_nlink i' = i_nlink i \<and> ii_use_extents (info i') = ii_use_extents (info i) \<and>
     ii_direct (info i') = ii_direct (info i) \<and> ii_dir_index_block (info i') = ii_dir_index_block (info i) \<and>
     ii_inode_flags (info i') = ii_inode_flags (info i)"

definition tail_blocks :: "inode \<Rightarrow> fs \<Rightarrow> u64 set" where
  "tail_blocks i st = {inode_block st (i_ino i), idx i} \<union> side st"

definition dir_step :: "inode \<Rightarrow> fs \<Rightarrow> inode \<Rightarrow> fs \<Rightarrow> bool" where
  "dir_step i st i' st' \<longleftrightarrow> same_dir i i' \<and> within (tail_blocks i st) st st'"

lemma same_dir_refl [simp]: "same_dir i i"
  by (simp add: same_dir_def)

lemma same_dir_trans: "same_dir a b \<Longrightarrow> same_dir b c \<Longrightarrow> same_dir a c"
  by (simp add: same_dir_def)

lemma same_dir_simps [simp]:
  "same_dir i (i\<lparr>i_mtime := t, i_ctime := u\<rparr>)" "same_dir i (i\<lparr>i_blocks := n\<rparr>)"
  by (simp_all add: same_dir_def info_def)

lemma same_dirD:
  assumes "same_dir i i'"
  shows "dir_shape i' = dir_shape i" "dblock i' = dblock i" "idx i' = idx i" "i_size i' = i_size i"
    "i_ino i' = i_ino i" "dir_blocks i' = dir_blocks i" "block_limit i' = block_limit i"
    "ii_inode_flags (info i') = ii_inode_flags (info i)"
  using assms
  by (auto simp: same_dir_def dir_shape_def dblock_def idx_def dir_blocks_def cryexts_dir_block_count_def
      block_limit_def dir_limit_def fun_eq_iff)

lemma dir_shapeD:
  assumes "dir_shape i"
  shows "i_private i = Some (info i)" "\<not> ii_use_extents (info i)" "length (ii_direct (info i)) = 12"
  using assms by (auto simp: dir_shape_def info_def const_simps)

lemma within_data: "within S a b \<Longrightarrow> x \<noteq> 0 \<Longrightarrow> x \<notin> S \<Longrightarrow> bdata b x = bdata a x"
  by (simp add: within_def cache_within_def bdata_def)

lemma dir_placeD:
  assumes "dir_place i st n"
  shows "disk_ok st" "alloc_ok st" "i_ino i \<in> inode_space st" "inode_block st (i_ino i) \<notin> block_space st"
    "k < n \<Longrightarrow> dblock i k \<in> block_used st" "k < n \<Longrightarrow> dblock i k \<noteq> 0"
    "k < n \<Longrightarrow> dblock i k \<notin> set (bitmaps st)" "k < n \<Longrightarrow> dblock i k \<notin> side st"
    "k < n \<Longrightarrow> dblock i k \<notin> tail_blocks i st" "k < n \<Longrightarrow> dblock i k \<noteq> idx i"
    "set (bitmaps st) \<inter> tail_blocks i st = {}"
    "idx i \<noteq> 0 \<Longrightarrow> idx i \<notin> set (bitmaps st)" "idx i \<noteq> 0 \<Longrightarrow> idx i \<notin> side st"
    "idx i \<noteq> 0 \<Longrightarrow> idx i \<noteq> inode_block st (i_ino i)"
proof -
  have d: "disk_ok st" "i_ino i \<in> inode_space st" "inode_block st (i_ino i) \<notin> block_space st"
      "idx i \<notin> dblock i ` {..<n}"
    and x: "\<And>x. x \<in> dblock i ` {..<n} \<or> x = idx i \<and> idx i \<noteq> 0 \<Longrightarrow>
      x \<in> block_used st \<and> x \<notin> set (bitmaps st) \<and> x \<notin> side st"
    using assms by (auto simp: dir_place_def split: if_splits)
  show "disk_ok st" "i_ino i \<in> inode_space st" "inode_block st (i_ino i) \<notin> block_space st" by fact+
  show ok: "alloc_ok st" using d(1) by (simp add: disk_ok_def)
  have zero: "0 \<in> side st" by (simp add: side_def)
  show u: "dblock i k \<in> block_used st" and nz: "dblock i k \<noteq> 0" and "dblock i k \<notin> set (bitmaps st)"
    and ns: "dblock i k \<notin> side st" and ni: "dblock i k \<noteq> idx i" if "k < n"
  proof -
    have m: "dblock i k \<in> dblock i ` {..<n}" using that by simp
    show "dblock i k \<noteq> idx i" using d(4) m by metis
    show "dblock i k \<in> block_used st" "dblock i k \<noteq> 0" "dblock i k \<notin> set (bitmaps st)" "dblock i k \<notin> side st"
      using x [of "dblock i k"] m zero by auto
  qed
  show "dblock i k \<notin> tail_blocks i st" if k: "k < n"
    using u [OF k] ns [OF k] ni [OF k] block_used_space [of st] d(3) by (auto simp: tail_blocks_def)
  show "set (bitmaps st) \<inter> tail_blocks i st = {}"
  proof -
    have "idx i \<notin> set (bitmaps st)" using x [of "idx i"] alloc_okD(5) [OF ok, of 0] zero by (cases "idx i = 0") auto
    moreover have "inode_block st (i_ino i) \<notin> set (bitmaps st)" using ok d(2) by (simp add: alloc_ok_def)
    ultimately show ?thesis using alloc_okD(5) [OF ok] by (auto simp: tail_blocks_def)
  qed
  show "idx i \<notin> set (bitmaps st)" "idx i \<notin> side st" "idx i \<noteq> inode_block st (i_ino i)" if "idx i \<noteq> 0"
    using x [of "idx i"] that block_used_space [of st] d(3) by auto
qed

text \<open>What keeps the place and the view of a directory.\<close>

lemma dir_place_within:
  assumes p: "dir_place i st n" and s: "same_dir i i'" and w: "within S st st'" and d: "set (bitmaps st) \<inter> S = {}"
  shows "dir_place i' st' n" "tail_blocks i' st' = tail_blocks i st" "block_used st' = block_used st"
proof -
  note q = dir_placeD [OF p]
  have same: "alloc_same st st'" by (rule within_same [OF w d])
  note a = alloc_same_sets [OF q(2) same] and g = geo_basic [OF within_geo [OF w]]
  have ib: "inode_block st' (i_ino i) = inode_block st (i_ino i)"
    by (rule geo_valid(2) [OF within_geo [OF w] q(2,3)])
  have ok: "disk_ok st'" using q(1) a g by (simp add: disk_ok_def)
  show "dir_place i' st' n"
    using p ok ib same_dirD [OF s] a g by (simp add: dir_place_def)
  show "tail_blocks i' st' = tail_blocks i st" using ib same_dirD [OF s] g by (simp add: tail_blocks_def)
  show "block_used st' = block_used st" by (rule a)
qed

lemma dir_view_cong:
  assumes v: "dir_view i st ess" and s: "same_dir i i'" and m: "cryexts_max_inodes st' = cryexts_max_inodes st"
    and e: "\<And>k. k < length ess \<Longrightarrow> bdata st' (dblock i k) = bdata st (dblock i k)"
  shows "dir_view i' st' ess"
proof -
  have "seg st' (bdata st' (dblock i k)) BLOCK_SIZE 0 BLOCK_SIZE (ess ! k)" if k: "k < length ess" for k
    unfolding e [OF k]
    by (rule seg_cong [OF _ _ m]) (use v k in \<open>auto simp: dir_view_def agree_def\<close>)
  then show ?thesis using v e same_dirD [OF s] by (simp add: dir_view_def)
qed

lemma dir_view_within:
  assumes v: "dir_view i st ess" and s: "same_dir i i'" and w: "within S st st'"
    and out: "\<And>k. k < length ess \<Longrightarrow> dblock i k \<noteq> 0 \<and> dblock i k \<notin> S"
  shows "dir_view i' st' ess"
  by (rule dir_view_cong [OF v s within_max [OF w]]) (use within_data [OF w] out in blast)

lemma dir_step_keeps:
  assumes v: "dir_view i st ess" and p: "dir_place i st (length ess)" and d: "dir_step i st i' st'"
  shows "dir_view i' st' ess" "dir_place i' st' (length ess)" "block_used st' = block_used st"
    "tail_blocks i' st' = tail_blocks i st"
proof -
  have s: "same_dir i i'" "within (tail_blocks i st) st st'" using d by (simp_all add: dir_step_def)
  note q = dir_placeD [OF p]
  show "dir_view i' st' ess" by (rule dir_view_within [OF v s]) (use q(6,9) in blast)
  show "dir_place i' st' (length ess)" "block_used st' = block_used st"
    "tail_blocks i' st' = tail_blocks i st"
    using dir_place_within [OF p s q(11)] by blast+
qed

lemma dir_step_refl [simp]: "dir_step i st i st"
  by (simp add: dir_step_def)

lemma dir_step_trans:
  assumes "dir_place i st n" "dir_step i st j s" "dir_step j s k t"
  shows "dir_step i st k t"
proof -
  have a: "same_dir i j" "within (tail_blocks i st) st s" "same_dir j k" "within (tail_blocks j s) s t"
    using assms(2,3) by (simp_all add: dir_step_def)
  have "tail_blocks j s = tail_blocks i st"
    by (rule dir_place_within(2) [OF assms(1) a(1,2) dir_placeD(11) [OF assms(1)]])
  then show ?thesis using within_trans [OF a(2), of "tail_blocks i st" t] a(4) same_dir_trans [OF a(1,3)] by (simp add: dir_step_def)
qed

lemma dir_step_ticked: "ticked st st' \<Longrightarrow> dir_step i st i st'"
  by (simp add: dir_step_def ticked_within)

section \<open>Reading the blocks\<close>

lemma dir_view_blocks:
  assumes "dir_view i st ess"
  shows "dir_blocks i = length ess" "k < length ess \<Longrightarrow> block_limit i k = BLOCK_SIZE"
    "dir_limit i = length ess * BLOCK_SIZE"
proof -
  have n: "length ess \<le> 12" "i_size i = of_nat (length ess * 4096)"
    using assms by (simp_all add: dir_view_def const_simps BLOCK_SIZE_def)
  have z: "unat (i_size i) = length ess * 4096"
    unfolding n(2) unat_of_nat by (rule mod_less) (use n(1) in simp)
  show l: "dir_limit i = length ess * BLOCK_SIZE"
    unfolding dir_limit_def unsigned_ucast_eq z using n(1) by (simp add: take_bit_eq_mod BLOCK_SIZE_def)
  show "block_limit i k = BLOCK_SIZE" if "k < length ess"
  proof -
    have "Suc k \<le> length ess" using that by simp
    then have "Suc k * BLOCK_SIZE \<le> length ess * BLOCK_SIZE" by (rule mult_le_mono1)
    then show ?thesis unfolding block_limit_def l by simp
  qed
  show "dir_blocks i = length ess"
  proof (cases "i_size i = 0")
    case True
    then show ?thesis using z by (simp add: dir_blocks_def cryexts_dir_block_count_def)
  next
    case False
    have "unat (i_size i + 4095) = length ess * 4096 + 4095"
      using z n(1) by (simp add: unat_word_ariths)
    then have "unat ((i_size i + 4095) div 4096) = length ess" by (simp add: unat_div)
    then show ?thesis using False n(1)
      by (simp add: dir_blocks_def cryexts_dir_block_count_def BLOCK_SIZE_def unsigned_ucast_eq take_bit_eq_mod)
  qed
qed

lemma dir_bread_view:
  assumes v: "dir_view i st ess" and k: "k < length ess" and r: "dir_bread k (i, st) = (r, (i', st'))"
  shows "i' = i" "ticked st st'" "r = Inr (dblock i k) \<or> r = Inl EIO \<and> faulty st"
proof -
  have s: "dir_shape i" and n: "k < 12" using v k by (auto simp: dir_view_def const_simps)
  note b = dir_shapeD [OF s]
  have u: "unat (of_nat k :: u32) = k" using n by (simp add: unat_of_nat)
  have "cryexts_inode_block_at (of_nat k) (i, st) = (Inr (dblock i k), (i, st))"
    using b n by (simp add: cryexts_inode_block_at_def u dblock_def const_simps)
  then have "i' = i \<and> ticked st st' \<and> (r = Inr (dblock i k) \<or> r = Inl EIO \<and> faulty st)"
    using r by (auto simp: dir_bread_def bindE_def onfs_def sb_bread_def io_step_def retE_def faultyI split: if_splits)
  then show "i' = i" "ticked st st'" "r = Inr (dblock i k) \<or> r = Inl EIO \<and> faulty st" by blast+
qed

lemma walk_view:
  assumes v: "dir_view i st ess" and k: "k < length ess"
  shows "walk_block body k (dblock i k) acc (i, st) =
    (Inr (walk_list (body st (bdata st (dblock i k))) (ess ! k) acc), (i, st))"
  unfolding walk_block_def prod.case dir_view_blocks(2) [OF v k]
  using dir_walk_seg [of st "bdata st (dblock i k)" BLOCK_SIZE 0 "ess ! k"] v k by (simp add: dir_view_def)

lemma dir_view_ticked: "dir_view i st ess \<Longrightarrow> ticked st st' \<Longrightarrow> dir_view i st' ess"
  by (rule dir_view_cong) (auto simp: ticked_fields within_max [OF ticked_within])

end
