(* ===== verification/DirIndex.thy ===== *)
theory DirIndex
  imports DirMap
begin

text \<open>
  The index of a directory: \<open>index_of\<close> is what a load of the index block gives, \<open>masks_sound\<close> says
  that every name is in a block that the mask of its bucket has.  Storing and loading, and
  rebuilding the index from the entries.
\<close>

section \<open>Names\<close>

definition live :: "dirent list \<Rightarrow> (bytes \<times> u64) list" where
  "live es = [(nm, de_inode de). (off, de, nm) \<leftarrow> es, de_inode de \<noteq> 0]"

lemma live_simps [simp]: "live [] = []"
  "live ((off, de, nm) # es) = (if de_inode de \<noteq> 0 then (nm, de_inode de) # live es else live es)"
  "live (us @ vs) = live us @ live vs"
  by (simp_all add: live_def)

lemma live_iff: "(nm, x) \<in> set (live es) \<longleftrightarrow> (\<exists>off de. (off, de, nm) \<in> set es \<and> de_inode de = x \<and> x \<noteq> 0)"
  by (induction es) (force split: if_splits)+

section \<open>Loading and storing\<close>

definition index_of :: "fs \<Rightarrow> u64 \<Rightarrow> cryexts_dir_index_block option" where
  "index_of st block = (let x = dec_dx (bdata st block) in
     if cryexts_dir_index_checksum_valid st block (bdata st block) \<and> dx_magic x = CRYEXTS_DIR_INDEX_MAGIC \<and>
        unat (dx_buckets x) = CRYEXTS_DIR_INDEX_BUCKETS then Some x else None)"

lemma length_masks: "index_of st block = Some x \<Longrightarrow> length (dx_block_masks x) = CRYEXTS_DIR_INDEX_BUCKETS"
  by (auto simp: index_of_def Let_def dec_dx_def split: if_splits)

lemma index_load:
  assumes p: "i_private i \<noteq> None" "idx i \<noteq> 0" and r: "cryexts_dir_index_load (i, st) = (r, (i', st'))"
  shows "i' = i" "ticked st st'" "r = Inl EIO \<or> r = (case index_of st (idx i) of None \<Rightarrow> Inl EUCLEAN | Some x \<Rightarrow> Inr x)"
proof -
  have t: "cryexts_dir_index_checksum_valid (st\<lparr>d_tick := n\<rparr>) = cryexts_dir_index_checksum_valid st"
    "bdata (st\<lparr>d_tick := n\<rparr>) = bdata st" for n
    using within_csum(1) [of "{}" st "st\<lparr>d_tick := n\<rparr>"] ticked_fields(1) [of st "st\<lparr>d_tick := n\<rparr>"]
    by (simp_all add: within_tick)
  obtain b where b: "i_private i = Some b" using p(1) by blast
  have "i' = i \<and> ticked st st' \<and>
      (r = Inl EIO \<or> r = (case index_of st (idx i) of None \<Rightarrow> Inl EUCLEAN | Some x \<Rightarrow> Inr x))"
    using r p(2) b
    by (auto simp: cryexts_dir_index_load_def index_of_def Let_def bindE_def onfs_def sb_bread_def io_step_def
        retE_def idx_def info_def t split: if_splits)
  then show "i' = i" "ticked st st'"
    "r = Inl EIO \<or> r = (case index_of st (idx i) of None \<Rightarrow> Inl EUCLEAN | Some x \<Rightarrow> Inr x)" by blast+
qed

lemma index_of_within:
  assumes w: "within S st st'" and b: "block \<noteq> 0" "block \<notin> S"
  shows "index_of st' block = index_of st block"
  unfolding index_of_def within_csum(1) [OF w] within_data [OF w b] ..

definition made_index :: "cryexts_dir_index_block \<Rightarrow> bool" where
  "made_index x \<longleftrightarrow> dx_magic x = CRYEXTS_DIR_INDEX_MAGIC \<and> unat (dx_buckets x) = CRYEXTS_DIR_INDEX_BUCKETS \<and>
     length (dx_reserved x) = 16 \<and> length (dx_block_masks x) = CRYEXTS_DIR_INDEX_BUCKETS"

lemma concat_le16_nth:
  "k < length ms \<Longrightarrow> get16 (concat (map le16 ms) @ t) (2 * k) = ms ! k"
proof (induction ms arbitrary: k)
  case (Cons m ms)
  show ?case
  proof (cases k)
    case 0
    then show ?thesis by (simp add: get16_def get_bytes_def)
  next
    case (Suc j)
    have "get16 (le16 m @ concat (map le16 ms) @ t) (2 * k) = get16 (concat (map le16 ms) @ t) (2 * j)"
      using Suc by (simp add: get16_def get_bytes_def)
    then show ?thesis using Cons Suc by simp
  qed
qed simp

lemma length_concat_le16: "length (concat (map le16 ms)) = 2 * length ms"
  by (induction ms) simp_all

lemma length_enc_dx: "made_index x \<Longrightarrow> length (enc_dx x) = 156"
  by (simp add: enc_dx_def made_index_def length_concat_le16 const_simps)

lemma dec_enc_dx:
  assumes m: "made_index x" and p: "pre = pad_block (enc_dx x)"
  shows "length pre = BLOCK_SIZE" "get32 pre 0 = dx_magic x" "get16 pre 4 = dx_buckets x"
    "k < 64 \<Longrightarrow> get16 pre (28 + 2 * k) = dx_block_masks x ! k"
proof -
  have l: "length (enc_dx x) = 156" by (rule length_enc_dx [OF m])
  show "length pre = BLOCK_SIZE" using l p by (simp add: pad_block_def BLOCK_SIZE_def)
  obtain t where t: "pre = enc_dx x @ t" using p by (auto simp: pad_block_def)
  show "get32 pre 0 = dx_magic x" "get16 pre 4 = dx_buckets x"
    by (simp_all add: t enc_dx_def get32_def get16_def get_bytes_def)
  show "get16 pre (28 + 2 * k) = dx_block_masks x ! k" if "k < 64"
  proof -
    have "get16 pre (28 + 2 * k) = get16 (concat (map le16 (dx_block_masks x)) @ t) (2 * k)"
      using m by (simp add: t enc_dx_def get16_def get_bytes_def made_index_def)
    then show ?thesis using concat_le16_nth [of k "dx_block_masks x"] m that by (simp add: made_index_def const_simps)
  qed
qed

definition index_holds :: "fs \<Rightarrow> u64 \<Rightarrow> u16 list \<Rightarrow> bool" where
  "index_holds st block ms \<longleftrightarrow> length (bdata st block) = BLOCK_SIZE \<and>
     (\<exists>y. index_of st block = Some y \<and> dx_block_masks y = ms)"

lemma sealed_index:
  assumes m: "made_index x" and b: "bdata st block = cryexts_dir_index_set_checksum st block (pad_block (enc_dx x))"
  shows "index_holds st block (dx_block_masks x)"
proof -
  let ?p = "pad_block (enc_dx x)"
  note d = dec_enc_dx [OF m refl]
  have v: "cryexts_dir_index_checksum_valid st block (bdata st block)"
    unfolding b using dir_index.seal_check [OF d(1)]
    by (simp add: cryexts_dir_index_checksum_valid_def cryexts_dir_index_set_checksum_def)
  have keep: "get_bytes (bdata st block) o' n = get_bytes ?p o' n" if "o' + n \<le> 12 \<or> 16 \<le> o'" "o' + n \<le> 4096" for o' n
    unfolding b cryexts_dir_index_set_checksum_def DIR_INDEX_RESERVED_OFF_def
    using get_put_bytes_disjoint [of 12 "le32 v" ?p o' n for v] that d(1)
    by (auto simp: BLOCK_SIZE_def)
  have f: "dx_magic (dec_dx (bdata st block)) = dx_magic x" "dx_buckets (dec_dx (bdata st block)) = dx_buckets x"
    using keep [of 0 4] keep [of 4 2] d(2,3) by (simp_all add: dec_dx_def get32_def get16_def)
  have "dx_block_masks (dec_dx (bdata st block)) = dx_block_masks x"
  proof (rule nth_equalityI)
    show l: "length (dx_block_masks (dec_dx (bdata st block))) = length (dx_block_masks x)"
      using m by (simp add: dec_dx_def made_index_def)
    fix k assume "k < length (dx_block_masks (dec_dx (bdata st block)))"
    then have "k < 64" by (simp add: dec_dx_def const_simps)
    then show "dx_block_masks (dec_dx (bdata st block)) ! k = dx_block_masks x ! k"
      using keep [of "28 + 2 * k" 2] d(4) [of k] by (simp add: dec_dx_def get16_def const_simps)
  qed
  moreover have "length (bdata st block) = BLOCK_SIZE"
    unfolding b cryexts_dir_index_set_checksum_def using d(1) by (simp add: DIR_INDEX_RESERVED_OFF_def BLOCK_SIZE_def)
  ultimately show ?thesis using v f m by (simp add: index_holds_def index_of_def made_index_def)
qed

section \<open>Masks\<close>

lemma bit_mask_bit: "bit (mask_bit k) n \<longleftrightarrow> n = k \<and> k < 16"
  unfolding mask_bit_def bit_push_bit_iff bit_1_iff by auto

lemma has_mask_bit: "has_flag m (mask_bit k) \<longleftrightarrow> k < 16 \<and> bit m k" for m :: u16
proof -
  have "m AND mask_bit k = 0 \<longleftrightarrow> (\<forall>n<16. \<not> (bit m n \<and> bit (mask_bit k) n))"
    using bit_eq_iff [of "m AND mask_bit k" 0] by (simp add: bit_and_iff)
  then show ?thesis unfolding has_flag_def bit_mask_bit by blast
qed

lemma mask_bit_or: "k < 16 \<Longrightarrow> has_flag (m OR mask_bit k) (mask_bit k)"
  "has_flag m (mask_bit j) \<Longrightarrow> has_flag (m OR mask_bit k) (mask_bit j)"
  by (simp_all add: has_mask_bit bit_or_iff bit_mask_bit)

lemma mask_bit_clear:
  "has_flag m (mask_bit j) \<Longrightarrow> j \<noteq> k \<Longrightarrow> has_flag (m AND NOT (mask_bit k)) (mask_bit j)"
  by (simp add: has_mask_bit bit_and_iff bit_not_iff bit_mask_bit)

definition masks_have :: "fs \<Rightarrow> u16 list \<Rightarrow> nat \<Rightarrow> bytes \<Rightarrow> bool" where
  "masks_have st ms k nm \<longleftrightarrow> has_flag (ms ! bucket_of st nm) (mask_bit k)"

definition masks_sound :: "fs \<Rightarrow> u16 list \<Rightarrow> dirent list list \<Rightarrow> bool" where
  "masks_sound st ms ess \<longleftrightarrow> (\<forall>k < length ess. \<forall>(nm, x) \<in> set (live (ess ! k)). masks_have st ms k nm)"

lemma bucket_of_less: "bucket_of st nm < CRYEXTS_DIR_INDEX_BUCKETS"
  by (simp add: bucket_of_def unat_mod const_simps)

lemma masks_have_or:
  "length ms = CRYEXTS_DIR_INDEX_BUCKETS \<Longrightarrow> masks_have st ms j n \<Longrightarrow>
   masks_have st (ms[bucket_of st nm := ms ! bucket_of st nm OR mask_bit k]) j n"
  using bucket_of_less [of st nm] mask_bit_or(2)
  by (cases "bucket_of st n = bucket_of st nm") (auto simp: masks_have_def)

lemma masks_have_new:
  "length ms = CRYEXTS_DIR_INDEX_BUCKETS \<Longrightarrow> k < 16 \<Longrightarrow>
   masks_have st (ms[bucket_of st nm := ms ! bucket_of st nm OR mask_bit k]) k nm"
  using bucket_of_less [of st nm] mask_bit_or(1) by (auto simp: masks_have_def)

section \<open>Rebuilding\<close>

text \<open>A name that the walks count.\<close>

definition named :: "dirent list list \<Rightarrow> bool" where
  "named ess \<longleftrightarrow> (\<forall>es \<in> set ess. \<forall>(off, de, nm) \<in> set es. de_inode de \<noteq> 0 \<longrightarrow> de_name_len de \<noteq> 0)"

lemma index_entry_walk:
  assumes "\<And>off de nm. (off, de, nm) \<in> set es \<Longrightarrow> nm = de_name buf off de \<and> (de_inode de \<noteq> 0 \<longrightarrow> de_name_len de \<noteq> 0)"
    "length ms = CRYEXTS_DIR_INDEX_BUCKETS" "k < 16"
  shows "\<exists>ms' t'. walk_list (index_entry k st buf) es (ms, t) = Inl (ms', t') \<and>
     length ms' = CRYEXTS_DIR_INDEX_BUCKETS \<and>
     (\<forall>j nm. masks_have st ms j nm \<longrightarrow> masks_have st ms' j nm) \<and>
     (\<forall>(nm, x) \<in> set (live es). masks_have st ms' k nm)"
  using assms
proof (induction es arbitrary: ms t)
  case (Cons e es)
  obtain off de nm where e: "e = (off, de, nm)" by (metis prod.exhaust)
  have nm: "de_name buf off de = nm" "de_inode de \<noteq> 0 \<longrightarrow> de_name_len de \<noteq> 0" using Cons.prems(1) [of off de nm] e by auto
  have rest: "\<And>off de nm. (off, de, nm) \<in> set es \<Longrightarrow>
      nm = de_name buf off de \<and> (de_inode de \<noteq> 0 \<longrightarrow> de_name_len de \<noteq> 0)" using Cons.prems(1) by auto
  show ?case
  proof (cases "used_entry de")
    case False
    then have "de_inode de = 0" using nm(2) by (auto simp: used_entry_def)
    then show ?thesis using Cons.IH [OF rest Cons.prems(2,3)] False by (simp add: e index_entry_def)
  next
    case True
    let ?ms = "ms[bucket_of st nm := ms ! bucket_of st nm OR mask_bit k]"
    obtain ms' t' where w: "walk_list (index_entry k st buf) es (?ms, t + 1) = Inl (ms', t')"
        "length ms' = CRYEXTS_DIR_INDEX_BUCKETS" "\<forall>j nm. masks_have st ?ms j nm \<longrightarrow> masks_have st ms' j nm"
        "\<forall>(nm, x) \<in> set (live es). masks_have st ms' k nm"
      using Cons.IH [OF rest _ Cons.prems(3), of ?ms "t + 1"] Cons.prems(2) by auto
    have "masks_have st ms' k nm" using w(3) masks_have_new [OF Cons.prems(2,3)] by blast
    moreover have "\<forall>j n. masks_have st ms j n \<longrightarrow> masks_have st ms' j n"
      using w(3) masks_have_or [OF Cons.prems(2)] by blast
    ultimately show ?thesis using w(1,2,4) True
      unfolding e walk_list.simps
      by (intro exI [of _ ms'] exI [of _ t']) (simp add: index_entry_def [of k st buf off] nm(1) Let_def)
  qed
qed auto

lemma view_entry:
  assumes v: "dir_view i st ess" and k: "k < length ess" and e: "(off, de, nm) \<in> set (ess ! k)"
  shows "nm = de_name (bdata st (dblock i k)) off de" "de = dirent_at (bdata st (dblock i k)) off"
    "cryexts_validate_dirent st de off BLOCK_SIZE = Inr ()"
  using seg_entry [of st "bdata st (dblock i k)" BLOCK_SIZE 0 BLOCK_SIZE "ess ! k" off de nm] v k e
  by (simp_all add: dir_view_def)

lemma namedD: "named ess \<Longrightarrow> k < length ess \<Longrightarrow> (off, de, nm) \<in> set (ess ! k) \<Longrightarrow> de_inode de \<noteq> 0 \<Longrightarrow> de_name_len de \<noteq> 0"
  using nth_mem [of k ess] unfolding named_def by blast

lemma masks_have_within: "within S st st' \<Longrightarrow> masks_have st' = masks_have st"
  by (simp add: masks_have_def fun_eq_iff bucket_of_def within_hash)

lemma index_blocks_view:
  assumes "dir_view i st ess" "named ess" "set ks \<subseteq> {..<length ess}" "length ms = CRYEXTS_DIR_INDEX_BUCKETS"
    "index_blocks ks (ms, t) (i, st) = (r, (i', st'))"
  shows "i' = i \<and> ticked st st' \<and> (r = Inl EIO \<and> faulty st \<or> (\<exists>ms' t'. r = Inr (ms', t') \<and>
     length ms' = CRYEXTS_DIR_INDEX_BUCKETS \<and> (\<forall>j nm. masks_have st ms j nm \<longrightarrow> masks_have st ms' j nm) \<and>
     (\<forall>k \<in> set ks. \<forall>(nm, x) \<in> set (live (ess ! k)). masks_have st ms' k nm)))"
  using assms
proof (induction ks arbitrary: st ms t)
  case Nil
  then show ?case by (auto simp: retE_def)
next
  case (Cons k ks)
  have k: "k < length ess" and ks: "set ks \<subseteq> {..<length ess}" using Cons.prems(3) by auto
  obtain q j s where b: "dir_bread k (i, st) = (q, (j, s))" by (metis prod.exhaust)
  note d = dir_bread_view [OF Cons.prems(1) k b]
  show ?case
  proof (cases q)
    case (Inl e)
    then show ?thesis using Cons.prems(5) b d by (auto simp: bindE_def)
  next
    case (Inr block)
    then have blk: "block = dblock i k" "j = i" using d by auto
    have v: "dir_view i s ess" by (rule dir_view_ticked [OF Cons.prems(1) d(2)])
    have "k < 16" using k v by (simp add: dir_view_def const_simps)
    from index_entry_walk [OF _ Cons.prems(4) this, of "ess ! k" "bdata s (dblock i k)" s t]
    obtain ms1 t1 where w: "walk_list (index_entry k s (bdata s (dblock i k))) (ess ! k) (ms, t) = Inl (ms1, t1)"
        "length ms1 = CRYEXTS_DIR_INDEX_BUCKETS" "\<forall>j nm. masks_have s ms j nm \<longrightarrow> masks_have s ms1 j nm"
        "\<forall>(nm, x) \<in> set (live (ess ! k)). masks_have s ms1 k nm"
      using view_entry(1) [OF v k] namedD [OF Cons.prems(2) k] by blast
    have m: "masks_have s = masks_have st" by (rule masks_have_within [OF ticked_within [OF d(2), of "{}"]])
    have "index_blocks ks (ms1, t1) (i, s) = (r, (i', st'))"
      using Cons.prems(5) b Inr blk by (simp add: bindE_def walk_view [OF v k] w(1))
    note ih = Cons.IH [OF v Cons.prems(2) ks w(2) this, unfolded m ticked_faulty [OF d(2)]]
    have "masks_have st ms1 k nm" if "(nm, y) \<in> set (live (ess ! k))" for nm y
      using w(4) that by (auto simp: m)
    then show ?thesis using ih w(3) [unfolded m] ticked_trans [OF d(2)] by fastforce
  qed
qed

section \<open>The steps on the index\<close>

definition index_place :: "inode \<Rightarrow> fs \<Rightarrow> bool" where
  "index_place i st \<longleftrightarrow>
     (has_flag (ii_inode_flags (info i)) CRYEXTS_INODE_FLAG_DIR_INDEX \<longrightarrow> cryexts_dir_index_feature_enabled st) \<and>
     (cryexts_dir_index_feature_enabled st \<longrightarrow> idx i \<noteq> 0)"

definition index_sound :: "inode \<Rightarrow> fs \<Rightarrow> dirent list list \<Rightarrow> bool" where
  "index_sound i st ess \<longleftrightarrow> (cryexts_dir_index_feature_enabled st \<longrightarrow>
     length (bdata st (idx i)) = BLOCK_SIZE \<and>
     (\<forall>x. index_of st (idx i) = Some x \<longrightarrow> masks_sound st (dx_block_masks x) ess))"

lemma masks_sound_within: "within S st st' \<Longrightarrow> masks_sound st' = masks_sound st"
  using masks_have_within by (simp add: masks_sound_def fun_eq_iff)

lemma index_place_step: "index_place i st \<Longrightarrow> same_dir i i' \<Longrightarrow> within S st st' \<Longrightarrow> index_place i' st'"
  using same_dirD [of i i'] within_feature [of S st st'] by (simp add: index_place_def)

lemma index_sound_within:
  assumes "index_sound i st ess" "same_dir i i'" "within S st st'" "idx i \<noteq> 0" "idx i \<notin> S"
  shows "index_sound i' st' ess"
  using assms index_of_within [OF assms(3,4,5)] within_data [OF assms(3,4,5)] masks_sound_within [OF assms(3)] within_feature [OF assms(3)]
    same_dirD [OF assms(2)] by (simp add: index_sound_def)

lemma index_store:
  assumes p: "dir_place i st n" "i_private i \<noteq> None" "idx i \<noteq> 0" and m: "made_index x"
    and r: "cryexts_dir_index_store x (i, st) = (r, (i', st'))"
  shows "i' = i" "dir_step i st i' st'" "r = Inl EIO \<and> ticked st st' \<and> faulty st \<or>
    r = Inr () \<and> index_holds st' (idx i) (dx_block_masks x)"
proof -
  note q = dir_placeD [OF p(1)]
  let ?w = "\<lambda>s. set_bdata (idx i) (cryexts_dir_index_set_checksum s (idx i) (pad_block (enc_dx x))) s"
  obtain b where b: "i_private i = Some b" using p(2) by blast
  have c: "i' = i \<and> (r = Inl EIO \<and> ticked st st' \<and> faulty st \<or>
      r = Inr () \<and> (\<exists>t. st' = record_and_dirty (Some (idx i)) (?w (st\<lparr>d_tick := t\<rparr>))))"
    using r b p(3)
    by (auto simp: cryexts_dir_index_store_def Let_def faultyI onfs_def bindE_def sb_getblk_def io_step_def retE_def modE_def
        idx_def info_def split: if_splits)
  then show "i' = i" by blast
  show "dir_step i st i' st'" "r = Inl EIO \<and> ticked st st' \<and> faulty st \<or>
    r = Inr () \<and> index_holds st' (idx i) (dx_block_masks x)"
  proof (atomize (full), cases "r = Inl EIO \<and> ticked st st' \<and> faulty st")
    case True
    then show "dir_step i st i' st' \<and> (r = Inl EIO \<and> ticked st st' \<and> faulty st \<or>
      r = Inr () \<and> index_holds st' (idx i) (dx_block_masks x))"
      using c dir_step_ticked by auto
  next
    case False
    then obtain t where st': "st' = record_and_dirty (Some (idx i)) (?w (st\<lparr>d_tick := t\<rparr>))" and ok: "r = Inr ()"
      using c by blast
    let ?a = "st\<lparr>d_tick := t\<rparr>"
    have t: "ticked st ?a" by simp
    have w: "within {idx i} ?a (?w ?a)" by (rule within_set) (use p(3) in simp_all)
    have g: "geo_view (?w ?a) = geo_view st" using within_geo [OF w] ticked_fields(4) [OF t] by simp
    have w': "within (side st) (?w ?a) st'" unfolding st' by (rule within_record(1) [OF q(2) g])
    have all: "within ({idx i} \<union> side st) st st'"
      using within_trans [OF ticked_within [OF t] within_trans [OF w w'], of "{}"] by simp
    have "dir_step i st i' st'"
      using c within_mono [OF all, of "tail_blocks i st"] by (auto simp: dir_step_def tail_blocks_def)
    moreover have "bdata st' (idx i) = bdata (?w ?a) (idx i)"
      by (rule within_data [OF w' p(3) q(13) [OF p(3)]])
    then have "bdata st' (idx i) = cryexts_dir_index_set_checksum st' (idx i) (pad_block (enc_dx x))"
      unfolding within_csum(2) [OF all] using p(3) within_csum(2) [OF ticked_within [OF t, of "{}"]]
      by (simp add: bdata_def set_bdata_def)
    from sealed_index [OF m this] have "index_holds st' (idx i) (dx_block_masks x)" .
    ultimately show "dir_step i st i' st' \<and> (r = Inl EIO \<and> ticked st st' \<and> faulty st \<or>
      r = Inr () \<and> index_holds st' (idx i) (dx_block_masks x))"
      using ok by blast
  qed
qed

lemma write_step:
  assumes p: "dir_place i st n" and s: "dir_shape i" and r: "cryexts_write_inode_to_disk (i, st) = (r, (i', st'))"
  shows "dir_step i st i' st'" "within (insert (inode_block st (i_ino i)) (side st)) st st'"
    "r = Inl e \<Longrightarrow> faulty st"
proof -
  note w = write_inode_within [OF dir_placeD(2) [OF p] dir_shapeD(1,2) [OF s] r]
  show "within (insert (inode_block st (i_ino i)) (side st)) st st'" by (rule w(2))
  show "r = Inl e \<Longrightarrow> faulty st" using w(3) dir_placeD(3) [OF p] by blast
  obtain n where "i' = i\<lparr>i_blocks := n\<rparr>" using w(1) by blast
  then show "dir_step i st i' st'"
    using within_mono [OF w(2), of "tail_blocks i st"] by (auto simp: dir_step_def tail_blocks_def)
qed

lemma sectors_step:
  assumes "update_sectors (i, st) = (r, (i', st'))"
  shows "dir_step i st i' st'" "ticked st st'" "same_dir i i'" "r = Inr ()"
  using ticked_update_sectors [OF assms] by (auto simp: dir_step_def ticked_within)

lemma sound_write:
  assumes p: "dir_place i st n" and s: "dir_shape i" and r: "cryexts_write_inode_to_disk (i, st) = (r, (i', st'))"
    and x: "index_sound i st ess" "index_place i st"
  shows "index_sound i' st' ess"
proof (cases "cryexts_dir_index_feature_enabled st")
  case True
  note w = write_step [OF p s r]
  have nz: "idx i \<noteq> 0" using x(2) True by (simp add: index_place_def)
  show ?thesis
    by (rule index_sound_within [OF x(1) _ w(2) nz])
      (use w(1) dir_placeD(13,14) [OF p nz] in \<open>simp_all add: dir_step_def\<close>)
next
  case False
  then show ?thesis using within_feature [OF write_step(2) [OF p s r]] by (simp add: index_sound_def)
qed

lemma ensure_nop: "i_private i \<noteq> None \<Longrightarrow> index_place i st \<Longrightarrow> cryexts_dir_index_ensure (i, st) = (Inr (), (i, st))"
  by (auto simp: cryexts_dir_index_ensure_def index_place_def idx_def info_def)

lemma rebuild_sound:
  assumes v: "dir_view i st ess" and p: "dir_place i st (length ess)" and n: "named ess" and x: "index_place i st"
    and r: "cryexts_dir_index_rebuild (i, st) = (r, (i', st'))"
  shows "dir_step i st i' st'" "r = Inr () \<Longrightarrow> index_sound i' st' ess" "r = Inl e \<Longrightarrow> faulty st"
proof -
  have s: "dir_shape i" using v by (simp add: dir_view_def)
  have priv: "i_private i \<noteq> None" using s by (simp add: dir_shape_def)
  have "dir_step i st i' st' \<and> (r = Inr () \<longrightarrow> index_sound i' st' ess) \<and> (\<forall>e. r = Inl e \<longrightarrow> faulty st)"
  proof (cases "cryexts_dir_index_feature_enabled st")
    case False
    then show ?thesis using r by (auto simp: cryexts_dir_index_rebuild_def index_sound_def)
  next
    case True
    have nz: "idx i \<noteq> 0" using x True by (simp add: index_place_def)
    obtain q j s1 where b: "index_blocks [0..<length ess] (replicate CRYEXTS_DIR_INDEX_BUCKETS 0, 0) (i, st) = (q, (j, s1))"
      by (metis prod.exhaust)
    have "set [0..<length ess] \<subseteq> {..<length ess}" by auto
    note ib = index_blocks_view [OF v n this length_replicate b]
    note unf = cryexts_dir_index_rebuild_def True priv bindE_def ensure_nop [OF priv x] dir_view_blocks(1) [OF v] b
    show ?thesis
    proof (cases q)
      case (Inl e)
      then show ?thesis using r ib by (auto simp: unf dir_step_ticked)
    next
      case (Inr m)
      obtain ms t where m: "m = (ms, t)" by (cases m)
      have ms: "j = i" "ticked st s1" "length ms = CRYEXTS_DIR_INDEX_BUCKETS"
          "\<forall>k \<in> set [0..<length ess]. \<forall>(nm, x) \<in> set (live (ess ! k)). masks_have st ms k nm"
        using ib Inr m by auto
      have st1: "dir_step i st i s1" by (rule dir_step_ticked [OF ms(2)])
      note k1 = dir_step_keeps [OF v p st1]
      let ?x = "\<lparr>dx_magic = CRYEXTS_DIR_INDEX_MAGIC, dx_buckets = of_nat CRYEXTS_DIR_INDEX_BUCKETS,
        dx_dir_blocks = of_nat (length ess), dx_entries = t, dx_reserved = replicate 16 0, dx_block_masks = ms\<rparr>"
      obtain q2 j2 s2 where st: "cryexts_dir_index_store ?x (i, s1) = (q2, (j2, s2))" by (metis prod.exhaust)
      have made: "made_index ?x" using ms(3) by (simp add: made_index_def const_simps)
      note sto = index_store [OF k1(2) priv nz made st]
      note unf2 = unf Inr m ms(1) st sto(1)
      have st2: "dir_step i st i s2" by (rule dir_step_trans [OF p st1 sto(2) [unfolded sto(1)]])
      show ?thesis
      proof (cases q2)
        case Inl: (Inl e)
        then show ?thesis using r st2 sto(3) ticked_faulty [OF ms(2)] by (auto simp: unf2)
      next
        case Inr2: (Inr u)
        note k2 = dir_step_keeps [OF v p st2]
        have y: "index_holds s2 (idx i) ms" using sto(3) Inr2 by auto
        have "masks_sound s2 ms ess"
          using ms(4) masks_have_within [OF st2 [unfolded dir_step_def, THEN conjunct2]]
          by (auto simp: masks_sound_def)
        then have so: "index_sound i s2 ess" using y by (auto simp: index_sound_def index_holds_def)
        obtain q3 j3 s3 where us: "update_sectors (i, s2) = (q3, (j3, s3))" by (metis prod.exhaust)
        note u = sectors_step [OF us]
        note k3 = dir_step_keeps [OF k2(1,2) u(1)]
        have nz3: "idx j3 \<noteq> 0" using nz same_dirD(3) [OF u(3)] by simp
        have so3: "index_sound j3 s3 ess" by (rule index_sound_within [OF so u(3) ticked_within [OF u(2), of "{}"] nz]) simp
        have st3: "dir_step i st j3 s3" by (rule dir_step_trans [OF p st2 u(1)])
        have x3: "index_place j3 s3" using index_place_step [OF x] st3 by (auto simp: dir_step_def)
        have sh3: "dir_shape j3" using k3(1) by (simp add: dir_view_def)
        have wr: "cryexts_write_inode_to_disk (j3, s3) = (r, (i', st'))"
          using r Inr2 us u(4) by (simp add: unf2)
        show ?thesis
          using dir_step_trans [OF p st3 write_step(1) [OF k3(2) sh3 wr]] sound_write [OF k3(2) sh3 wr so3 x3]
            write_step(3) [OF k3(2) sh3 wr] within_faulty [OF st3 [unfolded dir_step_def, THEN conjunct2]] by blast
      qed
    qed
  qed
  then show "dir_step i st i' st'" "r = Inr () \<Longrightarrow> index_sound i' st' ess" "r = Inl e \<Longrightarrow> faulty st" by blast+
qed

lemma made_loaded:
  assumes "index_of st block = Some x" "length (bdata st block) = BLOCK_SIZE"
  shows "made_index x"
  using assms length_masks [OF assms(1)]
  by (auto simp: made_index_def index_of_def Let_def dec_dx_def get_bytes_def BLOCK_SIZE_def split: if_splits)

lemma or_rebuild_get:
  "or_rebuild (\<lambda>(i, st). (Inr (f st), (i, st))) k = (\<lambda>(i, st). k (f st) (i, st))"
  by (auto simp: or_rebuild_def fun_eq_iff)

text \<open>One step with the loaded index, or a rebuild.\<close>

lemma index_update:
  assumes v: "dir_view i st ess" and p: "dir_place i st (length ess)" and n: "named ess" and x: "index_place i st"
    and ft: "cryexts_dir_index_feature_enabled st" and len: "length (bdata st (idx i)) = BLOCK_SIZE"
    and r: "or_rebuild cryexts_dir_index_load (\<lambda>index (i, st).
       or_rebuild (g index) (\<lambda>w (i, st). or_rebuild (cryexts_dir_index_store (f w index i)) (\<lambda>_. retE ()) (i, st)) (i, st))
       (i, st) = (r, (i', st'))"
    and g: "\<And>index s. ticked st s \<Longrightarrow> index_of st (idx i) = Some index \<Longrightarrow> \<exists>w. g index (i, s) = (Inr w, (i, s)) \<and>
       made_index (f w index i) \<and> masks_sound st (dx_block_masks (f w index i)) ess"
  shows "dir_step i st i' st'" "r = Inr () \<Longrightarrow> index_sound i' st' ess" "r = Inl e \<Longrightarrow> faulty st"
proof -
  have priv: "i_private i \<noteq> None" using v by (simp add: dir_view_def dir_shape_def)
  have nz: "idx i \<noteq> 0" using x ft by (simp add: index_place_def)
  obtain q j s1 where l: "cryexts_dir_index_load (i, st) = (q, (j, s1))" by (metis prod.exhaust)
  note il = index_load [OF priv nz l]
  have st1: "dir_step i st i s1" by (rule dir_step_ticked [OF il(2)])
  note k1 = dir_step_keeps [OF v p st1]
  have x1: "index_place i s1" by (rule index_place_step [OF x same_dir_refl ticked_within [OF il(2)]])
  have "dir_step i st i' st' \<and> (r = Inr () \<longrightarrow> index_sound i' st' ess) \<and> (\<forall>e. r = Inl e \<longrightarrow> faulty st)"
  proof (cases q)
    case (Inl e)
    then have "cryexts_dir_index_rebuild (i, s1) = (r, (i', st'))" using r l il(1) by (simp add: or_rebuild_def)
    from rebuild_sound [OF k1(1,2) n x1 this] show ?thesis
      using dir_step_trans [OF p st1] ticked_faulty [OF il(2)] by blast
  next
    case (Inr index)
    then have ix: "index_of st (idx i) = Some index" using il(3) by (auto split: option.splits)
    obtain w where w: "g index (i, s1) = (Inr w, (i, s1))" "made_index (f w index i)"
        "masks_sound st (dx_block_masks (f w index i)) ess"
      using g [OF il(2) ix] by blast
    obtain q2 j2 s2 where s: "cryexts_dir_index_store (f w index i) (i, s1) = (q2, (j2, s2))" by (metis prod.exhaust)
    note sto = index_store [OF k1(2) priv nz w(2) s]
    have st2: "dir_step i st i s2" by (rule dir_step_trans [OF p st1 sto(2) [unfolded sto(1)]])
    note k2 = dir_step_keeps [OF v p st2]
    have wi: "within (tail_blocks i st) st s2" using st2 by (simp add: dir_step_def)
    show ?thesis
    proof (cases q2)
      case Inl: (Inl e)
      then have "cryexts_dir_index_rebuild (i, s2) = (r, (i', st'))"
        using r l il(1) Inr w(1) s sto(1) by (simp add: or_rebuild_def)
      from rebuild_sound [OF k2(1,2) n index_place_step [OF x same_dir_refl wi] this]
      show ?thesis using dir_step_trans [OF p st2] within_faulty [OF wi] by blast
    next
      case Inr2: (Inr u)
      then have "i' = i \<and> st' = s2 \<and> r = Inr ()" using r l il(1) Inr w(1) s sto(1) by (simp add: or_rebuild_def retE_def)
      then show ?thesis
        using st2 sto(3) Inr2 w(3) masks_sound_within [OF wi] by (auto simp: index_sound_def index_holds_def)
    qed
  qed
  then show "dir_step i st i' st'" "r = Inr () \<Longrightarrow> index_sound i' st' ess" "r = Inl e \<Longrightarrow> faulty st" by blast+
qed

text \<open>Adding a name: the old masks have all other names.\<close>

definition sound_but :: "inode \<Rightarrow> fs \<Rightarrow> dirent list list \<Rightarrow> nat \<Rightarrow> bytes \<Rightarrow> bool" where
  "sound_but i st ess kk name \<longleftrightarrow> (cryexts_dir_index_feature_enabled st \<longrightarrow>
     length (bdata st (idx i)) = BLOCK_SIZE \<and>
     (\<forall>x. index_of st (idx i) = Some x \<longrightarrow> (\<forall>k < length ess. \<forall>(nm, y) \<in> set (live (ess ! k)).
        (k, nm) \<noteq> (kk, name) \<longrightarrow> masks_have st (dx_block_masks x) k nm)))"

lemma add_name_sound:
  assumes v: "dir_view i st ess" and p: "dir_place i st (length ess)" and n: "named ess" and x: "index_place i st"
    and kk: "kk < length ess" and so: "sound_but i st ess kk name"
    and r: "cryexts_dir_index_add_name name kk (i, st) = (r, (i', st'))"
  shows "dir_step i st i' st'" "r = Inr () \<Longrightarrow> index_sound i' st' ess" "r = Inl e \<Longrightarrow> faulty st"
proof -
  have priv: "i_private i \<noteq> None" using v by (simp add: dir_view_def dir_shape_def)
  have k12: "kk < CRYEXTS_DIRECT_BLOCKS" "kk < 16" using v kk by (auto simp: dir_view_def const_simps)
  have "dir_step i st i' st' \<and> (r = Inr () \<longrightarrow> index_sound i' st' ess) \<and> (\<forall>e. r = Inl e \<longrightarrow> faulty st)"
  proof (cases "cryexts_dir_index_feature_enabled st")
    case False
    then show ?thesis using r by (auto simp: cryexts_dir_index_add_name_def index_sound_def)
  next
    case True
    let ?f = "\<lambda>b index i. index\<lparr>dx_block_masks := (dx_block_masks index)[b := dx_block_masks index ! b OR mask_bit kk],
      dx_dir_blocks := of_nat (dir_blocks i), dx_entries := dx_entries index + 1\<rparr>"
    let ?g = "\<lambda>index :: cryexts_dir_index_block. \<lambda>(i :: inode, st). (Inr (bucket_of st name) :: nat res, (i, st))"
    have len: "length (bdata st (idx i)) = BLOCK_SIZE" using so True by (simp add: sound_but_def)
    have run: "or_rebuild cryexts_dir_index_load (\<lambda>index (i, st).
       or_rebuild (?g index) (\<lambda>w (i, st). or_rebuild (cryexts_dir_index_store (?f w index i)) (\<lambda>_. retE ()) (i, st)) (i, st))
       (i, st) = (r, (i', st'))"
      using r True priv k12(1)
      by (simp add: cryexts_dir_index_add_name_def bindE_def ensure_nop [OF priv x] Let_def or_rebuild_get)
    have g: "\<exists>w. ?g index (i, s) = (Inr w, (i, s)) \<and> made_index (?f w index i) \<and>
        masks_sound st (dx_block_masks (?f w index i)) ess"
      if t: "ticked st s" and ix: "index_of st (idx i) = Some index" for index s
    proof (intro exI [of _ "bucket_of st name"] conjI)
      have "bucket_of s name = bucket_of st name"
        by (simp add: bucket_of_def within_hash [OF ticked_within [OF t, of "{}"]])
      then show "?g index (i, s) = (Inr (bucket_of st name), (i, s))" by simp
      show "made_index (?f (bucket_of st name) index i)"
        using made_loaded [OF ix len] by (simp add: made_index_def)
      show "masks_sound st (dx_block_masks (?f (bucket_of st name) index i)) ess"
        unfolding masks_sound_def
      proof (intro allI impI ballI, clarify)
        fix k nm y assume k: "k < length ess" "(nm, y) \<in> set (live (ess ! k))"
        have "(k, nm) \<noteq> (kk, name) \<Longrightarrow> masks_have st (dx_block_masks index) k nm"
          using so True ix k by (auto simp: sound_but_def)
        then show "masks_have st (dx_block_masks (?f (bucket_of st name) index i)) k nm"
          using masks_have_or [OF length_masks [OF ix], of st k nm name kk]
            masks_have_new [OF length_masks [OF ix] k12(2), of st name]
          by (cases "(k, nm) = (kk, name)") simp_all
      qed
    qed
    show ?thesis using index_update [OF v p n x True len run g] by blast
  qed
  then show "dir_step i st i' st'" "r = Inr () \<Longrightarrow> index_sound i' st' ess" "r = Inl e \<Longrightarrow> faulty st" by blast+
qed

text \<open>Removing a name: the masks have all the names that are left.\<close>

lemma same_bucket_walk:
  assumes "\<And>off de nm. (off, de, nm) \<in> set es \<Longrightarrow> nm = de_name buf off de \<and> (de_inode de \<noteq> 0 \<longrightarrow> de_name_len de \<noteq> 0)"
  shows "walk_list (same_bucket b st buf) es () =
    (if \<exists>(nm, y) \<in> set (live es). bucket_of st nm = b then Inr () else Inl ())"
  using assms
proof (induction es)
  case (Cons e es)
  obtain off de nm where e: "e = (off, de, nm)" by (metis prod.exhaust)
  have "de_name buf off de = nm" "de_inode de \<noteq> 0 \<longrightarrow> de_name_len de \<noteq> 0" using Cons.prems(1) [of off de nm] e by auto
  moreover have "walk_list (same_bucket b st buf) es () =
      (if \<exists>(nm, y) \<in> set (live es). bucket_of st nm = b then Inr () else Inl ())"
    by (rule Cons.IH) (use Cons.prems in auto)
  ultimately show ?case by (auto simp: e same_bucket_def [of b st buf off de] used_entry_def)
qed simp

lemma masks_have_clear:
  assumes "masks_have st ms j n" "j \<noteq> k \<or> bucket_of st n \<noteq> b" "length ms = CRYEXTS_DIR_INDEX_BUCKETS"
  shows "masks_have st (ms[b := ms ! b AND NOT (mask_bit k)]) j n"
  using assms mask_bit_clear [of "ms ! b" j k] bucket_of_less [of st n]
  by (cases "bucket_of st n = b") (auto simp: masks_have_def)

lemma remove_name_sound:
  assumes v: "dir_view i st ess" and p: "dir_place i st (length ess)" and n: "named ess" and x: "index_place i st"
    and kk: "kk < length ess" and so: "index_sound i st ess"
    and r: "cryexts_dir_index_remove_name name (dblock i kk) kk (i, st) = (r, (i', st'))"
  shows "dir_step i st i' st'" "r = Inr () \<Longrightarrow> index_sound i' st' ess" "r = Inl e \<Longrightarrow> faulty st"
proof -
  have priv: "i_private i \<noteq> None" using v by (simp add: dir_view_def dir_shape_def)
  have k12: "kk < CRYEXTS_DIRECT_BLOCKS" using v kk by (auto simp: dir_view_def const_simps)
  have "dir_step i st i' st' \<and> (r = Inr () \<longrightarrow> index_sound i' st' ess) \<and> (\<forall>e. r = Inl e \<longrightarrow> faulty st)"
  proof (cases "cryexts_dir_index_feature_enabled st")
    case False
    then show ?thesis using r by (auto simp: cryexts_dir_index_remove_name_def index_sound_def)
  next
    case True
    define b where "b = bucket_of st name"
    let ?m = "\<lambda>w :: unit + unit. \<lambda>index. case w of Inr _ \<Rightarrow> dx_block_masks index ! b
      | Inl _ \<Rightarrow> dx_block_masks index ! b AND NOT (mask_bit kk)"
    let ?f = "\<lambda>w index i. index\<lparr>dx_block_masks := (dx_block_masks index)[b := ?m w index],
      dx_dir_blocks := of_nat (dir_blocks i),
      dx_entries := (if dx_entries index \<noteq> 0 then dx_entries index - 1 else dx_entries index)\<rparr>"
    let ?g = "\<lambda>index :: cryexts_dir_index_block. walk_block (same_bucket b) kk (dblock i kk) ()"
    have len: "length (bdata st (idx i)) = BLOCK_SIZE" using so True by (simp add: index_sound_def)
    have tb: "bucket_of s = bucket_of st" if "ticked st s" for s
      by (simp add: fun_eq_iff bucket_of_def within_hash [OF ticked_within [OF that, of "{}"]])
    obtain q j s1 where l: "cryexts_dir_index_load (i, st) = (q, (j, s1))" by (metis prod.exhaust)
    have nz: "idx i \<noteq> 0" using x True by (simp add: index_place_def)
    note il = index_load [OF priv nz l]
    have run: "or_rebuild cryexts_dir_index_load (\<lambda>index (i, st).
       or_rebuild (?g index) (\<lambda>w (i, st). or_rebuild (cryexts_dir_index_store (?f w index i)) (\<lambda>_. retE ()) (i, st)) (i, st))
       (i, st) = (r, (i', st'))"
      unfolding b_def tb [OF il(2), symmetric] using r True priv k12 l il(1)
      by (cases q)
        (simp_all add: cryexts_dir_index_remove_name_def Let_def or_rebuild_def [of cryexts_dir_index_load] split del: if_split)
    have g: "\<exists>w. ?g index (i, s) = (Inr w, (i, s)) \<and> made_index (?f w index i) \<and>
        masks_sound st (dx_block_masks (?f w index i)) ess"
      if t: "ticked st s" and ix: "index_of st (idx i) = Some index" for index s
    proof -
      define w :: "unit + unit" where
        "w = (if \<exists>(nm, y) \<in> set (live (ess ! kk)). bucket_of st nm = b then Inr () else Inl ())"
      have vs: "dir_view i s ess" by (rule dir_view_ticked [OF v t])
      have "?g index (i, s) = (Inr w, (i, s))"
        unfolding walk_view [OF vs kk] w_def
        by (subst same_bucket_walk) (use view_entry(1) [OF vs kk] namedD [OF n kk] tb [OF t] in auto)
      moreover have "made_index (?f w index i)" using made_loaded [OF ix len] by (simp add: made_index_def)
      moreover have "masks_sound st (dx_block_masks (?f w index i)) ess"
        unfolding masks_sound_def
      proof (intro allI impI ballI, clarify)
        fix k nm y assume k: "k < length ess" "(nm, y) \<in> set (live (ess ! k))"
        have old: "masks_have st (dx_block_masks index) k nm"
          using so True ix k by (auto simp: index_sound_def masks_sound_def)
        have "k \<noteq> kk \<or> bucket_of st nm \<noteq> b" if "w = Inl ()"
          using that k by (auto simp: w_def split: if_splits)
        then show "masks_have st (dx_block_masks (?f w index i)) k nm"
          using old masks_have_clear [OF old _ length_masks [OF ix], of kk b] by (cases w) auto
      qed
      ultimately show ?thesis by blast
    qed
    show ?thesis using index_update [OF v p n x True len run g] by blast
  qed
  then show "dir_step i st i' st'" "r = Inr () \<Longrightarrow> index_sound i' st' ess" "r = Inl e \<Longrightarrow> faulty st" by blast+
qed

end
