(* ===== verification/DirNames.thy ===== *)
theory DirNames
  imports DirIndex
begin

text \<open>
  A directory as a map from names to inode numbers (\<open>dir_map\<close>, computed by walking all blocks), its
  invariant (\<open>dir_ok\<close>), and the lookup: \<open>cryexts_find_entry\<close>, which follows the index, finds what
  the walk over all blocks finds.
\<close>

section \<open>The map\<close>

definition names :: "dirent list list \<Rightarrow> (bytes \<times> u64) list" where
  "names ess = concat (map live ess)"

definition entries :: "fs \<Rightarrow> bytes \<Rightarrow> dirent list" where
  "entries st buf =
     (case dir_walk (\<lambda>off de acc. Inl (acc @ [(off, de, de_name buf off de)]) :: dirent list + unit)
             st buf BLOCK_SIZE 0 [] of
        Inr (Inl es) \<Rightarrow> es | _ \<Rightarrow> [])"

definition dir_entries :: "inode \<Rightarrow> fs \<Rightarrow> dirent list list" where
  "dir_entries i st = map (\<lambda>k. entries st (bdata st (dblock i k))) [0..<dir_blocks i]"

definition dir_map :: "inode \<Rightarrow> fs \<Rightarrow> bytes \<Rightarrow> u64 option" where
  "dir_map i st = map_of (names (dir_entries i st))"

definition dir_inv :: "inode \<Rightarrow> fs \<Rightarrow> dirent list list \<Rightarrow> bool" where
  "dir_inv i st ess \<longleftrightarrow> dir_view i st ess \<and> dir_place i st (length ess) \<and> named ess \<and>
     distinct (map fst (names ess)) \<and> index_place i st \<and> index_sound i st ess"

definition dir_ok :: "inode \<Rightarrow> fs \<Rightarrow> bool" where
  "dir_ok i st \<longleftrightarrow> dir_inv i st (dir_entries i st)"

lemma walk_collect:
  assumes "\<And>off de nm. (off, de, nm) \<in> set es \<Longrightarrow> nm = de_name buf off de"
  shows "walk_list (\<lambda>off de acc. Inl (acc @ [(off, de, de_name buf off de)]) :: dirent list + unit) es acc = Inl (acc @ es)"
  using assms
proof (induction es arbitrary: acc)
  case (Cons e es)
  obtain off de nm where e: "e = (off, de, nm)" by (metis prod.exhaust)
  have "de_name buf off de = nm" using Cons.prems e by auto
  then show ?case using Cons.IH [of "acc @ [e]"] Cons.prems by (simp add: e)
qed simp

lemma entries_seg: "seg st buf BLOCK_SIZE 0 BLOCK_SIZE es \<Longrightarrow> entries st buf = es"
  using seg_entry(2) [of st buf BLOCK_SIZE 0 BLOCK_SIZE es] walk_collect [of es buf "[]"]
  by (simp add: entries_def dir_walk_seg)

lemma dir_entries_view:
  assumes v: "dir_view i st ess"
  shows "dir_entries i st = ess"
proof (rule nth_equalityI)
  show "length (dir_entries i st) = length ess" using dir_view_blocks(1) [OF v] by (simp add: dir_entries_def)
  fix k assume "k < length (dir_entries i st)"
  then have k: "k < length ess" using dir_view_blocks(1) [OF v] by (simp add: dir_entries_def)
  have "seg st (bdata st (dblock i k)) BLOCK_SIZE 0 BLOCK_SIZE (ess ! k)" using v k by (simp add: dir_view_def)
  from entries_seg [OF this] show "dir_entries i st ! k = ess ! k"
    using k dir_view_blocks(1) [OF v] by (simp add: dir_entries_def)
qed

lemma dir_map_view: "dir_view i st ess \<Longrightarrow> dir_map i st = map_of (names ess)"
  by (simp add: dir_map_def dir_entries_view)

lemma dir_ok_inv: "dir_inv i st ess \<Longrightarrow> dir_ok i st"
  by (simp add: dir_ok_def dir_entries_view [of i st ess] dir_inv_def)

lemma dir_okE:
  assumes "dir_ok i st"
  obtains ess where "dir_inv i st ess" "dir_map i st = map_of (names ess)"
  using assms dir_map_view unfolding dir_ok_def dir_inv_def by blast

lemma names_in: "(nm, x) \<in> set (names ess) \<longleftrightarrow> (\<exists>k < length ess. (nm, x) \<in> set (live (ess ! k)))"
  by (auto simp: names_def in_set_conv_nth) (metis in_set_conv_nth nth_mem)+

lemma names_update:
  assumes "k < length ess"
  obtains A B where "names ess = A @ live (ess ! k) @ B" "\<And>es. names (ess[k := es]) = A @ live es @ B"
proof -
  have e: "ess = take k ess @ ess ! k # drop (Suc k) ess" by (rule id_take_nth_drop [OF assms])
  have "names ess = names (take k ess) @ live (ess ! k) @ names (drop (Suc k) ess)"
    by (subst e) (simp add: names_def)
  moreover have "names (ess[k := es]) = names (take k ess) @ live es @ names (drop (Suc k) ess)" for es
    using assms by (simp add: upd_conv_take_nth_drop names_def)
  ultimately show ?thesis by (rule that)
qed

lemma map_of_insert:
  assumes "x \<notin> fst ` set (A @ B)"
  shows "map_of (A @ (x, y) # B) = (map_of (A @ B))(x \<mapsto> y)"
proof
  fix z
  have "map_of A x = None" using assms by (auto simp: map_of_eq_None_iff)
  then show "map_of (A @ (x, y) # B) z = ((map_of (A @ B))(x \<mapsto> y)) z"
    by (auto simp: map_add_def split: option.split)
qed

lemma map_of_remove:
  assumes "distinct (map fst (A @ (x, y) # B))"
  shows "map_of (A @ B) = (map_of (A @ (x, y) # B))(x := None)"
proof
  fix z
  have "map_of A x = None" "map_of B x = None" using assms by (auto simp: map_of_eq_None_iff image_iff)
  then show "map_of (A @ B) z = ((map_of (A @ (x, y) # B))(x := None)) z"
    by (auto simp: map_add_def split: option.split)
qed

section \<open>Lookup\<close>

lemma length_name:
  assumes v: "dir_view i st ess" and k: "k < length ess" and e: "(off, de, nm) \<in> set (ess ! k)"
  shows "length nm = unat (de_name_len de)"
proof -
  note w = view_entry [OF v k e]
  note r = validate_rec_len [OF w(3)]
  have "length (bdata st (dblock i k)) = BLOCK_SIZE" using v k by (simp add: dir_view_def)
  then show ?thesis using r by (simp add: w(1) de_name_def DIRENT_HEADER_12 get_bytes_def)
qed

definition allowed :: "u16 \<Rightarrow> nat \<Rightarrow> bool" where
  "allowed m k \<longleftrightarrow> m = 0 \<or> has_flag m (mask_bit k)"

lemma match_walk:
  assumes v: "dir_view i st ess" and k: "k < length ess"
  shows "walk_list (match_name name st (bdata st (dblock i k))) (ess ! k) () =
    (case List.find (\<lambda>(off, de, nm). de_inode de \<noteq> 0 \<and> nm = name) (ess ! k) of
       None \<Rightarrow> Inl () | Some (off, de, nm) \<Rightarrow> Inr off)"
  by (subst walk_list_find [where P = "\<lambda>(off, de, nm). de_inode de \<noteq> 0 \<and> nm = name" and f = fst])
    (use view_entry(1) [OF v k] length_name [OF v k] in
      \<open>auto simp: match_name_def split: option.split\<close>)

lemma find_view:
  assumes "dir_view i st ess" "set ks \<subseteq> {..<length ess}"
    "find_in_blocks m name ks (i, st) = (r, (i', st'))"
  shows "i' = i \<and> ticked st st' \<and>
    (r = Inl EIO \<and> faulty st \<or>
     r = Inl ENOENT \<and> (\<forall>k \<in> set ks. allowed m k \<longrightarrow> name \<notin> fst ` set (live (ess ! k))) \<or>
     (\<exists>k \<in> set ks. \<exists>off de. r = Inr (dblock i k, off) \<and> (off, de, name) \<in> set (ess ! k) \<and> de_inode de \<noteq> 0))"
  using assms
proof (induction ks arbitrary: st)
  case Nil
  then show ?case by (auto simp: failE_def)
next
  case (Cons k ks)
  have k: "k < length ess" and ks: "set ks \<subseteq> {..<length ess}" using Cons.prems(2) by auto
  show ?case
  proof (cases "allowed m k")
    case False
    then have "find_in_blocks m name ks (i, st) = (r, (i', st'))"
      using Cons.prems(3) by (auto simp: allowed_def)
    from Cons.IH [OF Cons.prems(1) ks this] show ?thesis using False by auto
  next
    case True
    obtain q j s where b: "dir_bread k (i, st) = (q, (j, s))" by (metis prod.exhaust)
    note d = dir_bread_view [OF Cons.prems(1) k b]
    have run: "bindE (dir_bread k) (\<lambda>block. bindE (walk_block (match_name name) k block ()) (\<lambda>r.
        case r of Inr off \<Rightarrow> retE (block, off) | Inl _ \<Rightarrow> find_in_blocks m name ks)) (i, st) = (r, (i', st'))"
      using Cons.prems(3) True by (auto simp: allowed_def)
    show ?thesis
    proof (cases q)
      case (Inl e)
      then show ?thesis
        using run b d by (auto simp: bindE_def)
    next
      case (Inr block)
      then have blk: "block = dblock i k" "j = i" using d by auto
      have v: "dir_view i s ess" by (rule dir_view_ticked [OF Cons.prems(1) d(2)])
      let ?P = "\<lambda>(off, de, nm). de_inode de \<noteq> 0 \<and> nm = name"
      note w = walk_view [OF v k, of "match_name name" "()"] match_walk [OF v k, of name]
      show ?thesis
      proof (cases "List.find ?P (ess ! k)")
        case None
        then have "find_in_blocks m name ks (i, s) = (r, (i', st'))"
          using run b Inr blk w by (simp add: bindE_def)
        moreover have "name \<notin> fst ` set (live (ess ! k))"
          using None by (auto simp: find_None_iff live_iff)
        moreover have "faulty s = faulty st" by (rule ticked_faulty [OF d(2)])
        ultimately show ?thesis using Cons.IH [OF v ks] ticked_trans [OF d(2)] by auto
      next
        case (Some e)
        obtain off de nm where e: "e = (off, de, nm)" by (metis prod.exhaust)
        have "(off, de, name) \<in> set (ess ! k)" "de_inode de \<noteq> 0"
          using Some e by (auto simp: find_Some_iff in_set_conv_nth)
        moreover have "r = Inr (dblock i k, off) \<and> i' = i \<and> st' = s"
          using run b Inr blk w Some e by (auto simp: bindE_def retE_def)
        ultimately show ?thesis using d(2) by auto
      qed
    qed
  qed
qed

lemma candidate:
  assumes p: "i_private i \<noteq> None" and x: "index_place i st" and so: "index_sound i st ess"
    and r: "candidate_mask name (i, st) = (r, (i', st'))"
  shows "i' = i \<and> ticked st st' \<and> (\<exists>m. r = Inr m \<and>
    (\<forall>k < length ess. name \<in> fst ` set (live (ess ! k)) \<longrightarrow> allowed m k))"
proof (cases "has_flag (ii_inode_flags (info i)) CRYEXTS_INODE_FLAG_DIR_INDEX")
  case False
  then show ?thesis using p r by (auto simp: candidate_mask_def info_def allowed_def)
next
  case True
  have ft: "cryexts_dir_index_feature_enabled st" and nz: "idx i \<noteq> 0" using x True by (simp_all add: index_place_def)
  obtain q j s where l: "cryexts_dir_index_load (i, st) = (q, (j, s))" by (metis prod.exhaust)
  note il = index_load [OF p nz l]
  have b: "bucket_of s = bucket_of st"
    by (simp add: fun_eq_iff bucket_of_def within_hash [OF ticked_within [OF il(2), of "{}"]])
  show ?thesis
  proof (cases q)
    case (Inl e)
    then show ?thesis using p r True l il(1,2) by (auto simp: candidate_mask_def info_def allowed_def)
  next
    case (Inr index)
    then have ix: "index_of st (idx i) = Some index" using il(3) by (auto split: option.splits)
    have m: "r = Inr (dx_block_masks index ! bucket_of st name)" "i' = i" "st' = s"
      using p r True l il(1) Inr b by (auto simp: candidate_mask_def info_def)
    have "masks_sound st (dx_block_masks index) ess" using so ft ix by (simp add: index_sound_def)
    then have "allowed (dx_block_masks index ! bucket_of st name) k"
      if "k < length ess" "name \<in> fst ` set (live (ess ! k))" for k
      using that unfolding allowed_def masks_sound_def masks_have_def by fastforce
    then show ?thesis using m il(2) by blast
  qed
qed

lemma find_inv:
  assumes v: "dir_inv i st ess" and r: "cryexts_find_entry name (i, st) = (r, (i', st'))"
  shows "i' = i" "ticked st st'"
    "r = Inl EIO \<and> faulty st \<or> r = Inl ENOENT \<and> name \<notin> fst ` set (names ess) \<or>
     (\<exists>k < length ess. \<exists>off de. r = Inr (dblock i k, off) \<and> (off, de, name) \<in> set (ess ! k) \<and> de_inode de \<noteq> 0)"
proof -
  have d: "dir_view i st ess" "index_place i st" "index_sound i st ess" using v by (simp_all add: dir_inv_def)
  have p: "i_private i \<noteq> None" and n: "0 < length ess" using d(1) by (simp_all add: dir_view_def dir_shape_def)
  obtain q j s where c: "candidate_mask name (i, st) = (q, (j, s))" by (metis prod.exhaust)
  obtain m where m: "j = i" "ticked st s" "q = Inr m"
      "\<forall>k < length ess. name \<in> fst ` set (live (ess ! k)) \<longrightarrow> allowed m k"
    using candidate [OF p d(2,3) c] by blast
  have run: "find_in_blocks m name [0..<length ess] (i, s) = (r, (i', st'))"
    using r n c m(1,3) dir_view_blocks(1) [OF d(1)] by (simp add: cryexts_find_entry_def bindE_def)
  have f: "faulty s = faulty st" by (rule ticked_faulty [OF m(2)])
  have "set [0..<length ess] \<subseteq> {..<length ess}" by auto
  note w = find_view [OF dir_view_ticked [OF d(1) m(2)] this run]
  show "i' = i" "ticked st st'" using w ticked_trans [OF m(2)] by blast+
  have none: "name \<notin> fst ` set (names ess)" if "\<forall>k \<in> set [0..<length ess]. allowed m k \<longrightarrow> name \<notin> fst ` set (live (ess ! k))"
  proof
    assume "name \<in> fst ` set (names ess)"
    then obtain x k where k: "k < length ess" "(name, x) \<in> set (live (ess ! k))" by (auto simp: names_in)
    then have l: "name \<in> fst ` set (live (ess ! k))" by force
    then have "allowed m k" using m(4) k(1) by blast
    moreover have "k \<in> set [0..<length ess]" using k(1) by simp
    ultimately show False using that l by blast
  qed
  show "r = Inl EIO \<and> faulty st \<or> r = Inl ENOENT \<and> name \<notin> fst ` set (names ess) \<or>
     (\<exists>k < length ess. \<exists>off de. r = Inr (dblock i k, off) \<and> (off, de, name) \<in> set (ess ! k) \<and> de_inode de \<noteq> 0)"
    using w [THEN conjunct2, THEN conjunct2]
  proof (elim disjE)
    assume "r = Inl EIO \<and> faulty s"
    then show ?thesis using f by simp
  next
    assume "r = Inl ENOENT \<and> (\<forall>k\<in>set [0..<length ess]. allowed m k \<longrightarrow> name \<notin> fst ` set (live (ess ! k)))"
    then show ?thesis using none by blast
  next
    assume "\<exists>k\<in>set [0..<length ess]. \<exists>off de. r = Inr (dblock i k, off) \<and> (off, de, name) \<in> set (ess ! k) \<and> de_inode de \<noteq> 0"
    then show ?thesis by auto
  qed
qed

lemma names_entry:
  assumes "k < length ess" "(off, de, nm) \<in> set (ess ! k)" "de_inode de \<noteq> 0"
  shows "(nm, de_inode de) \<in> set (names ess)"
  using assms by (auto simp: names_in live_iff)

text \<open>C7: the lookup.  In a directory in order, whatever its index is, the lookup of a name
  gives an entry with the inode number that a walk over all blocks finds for the name, and ENOENT
  exactly if the walk finds none; it changes nothing, and fails otherwise only when the device does.\<close>

theorem find_entry_correct:
  assumes "dir_ok i st" and "cryexts_find_entry name (i, st) = (r, (i', st'))"
  shows "i' = i \<and> bdata st' = bdata st \<and>
    (case r of
       Inr (block, off) \<Rightarrow> dir_map i st name = Some (de_inode (dirent_at (bdata st block) off))
     | Inl e \<Rightarrow> e = ENOENT \<and> dir_map i st name = None \<or> e = EIO \<and> faulty st)"
proof -
  obtain ess where e: "dir_inv i st ess" "dir_map i st = map_of (names ess)" using dir_okE [OF assms(1)] by blast
  have v: "dir_view i st ess" and ds: "distinct (map fst (names ess))" using e(1) by (simp_all add: dir_inv_def)
  note f = find_inv [OF e(1) assms(2)]
  have none: "dir_map i st name = None" if "name \<notin> fst ` set (names ess)"
    using that by (simp add: e(2) map_of_eq_None_iff)
  have some: "dir_map i st name = Some (de_inode (dirent_at (bdata st (dblock i k)) off))"
    if "k < length ess" "(off, de, name) \<in> set (ess ! k)" "de_inode de \<noteq> 0" for k off de
    using names_entry [OF that] view_entry(2) [OF v that(1,2)] ds by (simp add: e(2))
  have "case r of
       Inr (block, off) \<Rightarrow> dir_map i st name = Some (de_inode (dirent_at (bdata st block) off))
     | Inl e \<Rightarrow> e = ENOENT \<and> dir_map i st name = None \<or> e = EIO \<and> faulty st"
    using f(3) none some by auto
  then show ?thesis using f(1) ticked_fields(1) [OF f(2)] by blast
qed

end
