(* ===== verification/DirAdd.thy ===== *)
theory DirAdd
  imports DirNames
begin

text \<open>
  Adding and removing a name: the block that is written holds the old names and the new one (or all
  but the removed one), and the steps that follow, on the inode and the index, keep the directory.
\<close>

text \<open>What all of it leaves of the file system: its layout, and how its device behaves.\<close>

definition like :: "fs \<Rightarrow> fs \<Rightarrow> bool" where
  "like st st' \<longleftrightarrow> geo_view st' = geo_view st \<and> faulty st' = faulty st"

lemma like_simps [simp]: "like st st"
  by (simp add: like_def)

lemma like_trans: "like a b \<Longrightarrow> like b c \<Longrightarrow> like a c"
  by (simp add: like_def)

lemma within_like: "within S a b \<Longrightarrow> like a b"
  by (simp add: like_def within_geo within_faulty)

lemma step_like: "dir_step i a j b \<Longrightarrow> like a b"
  by (auto simp: dir_step_def intro: within_like)

section \<open>Writing one block of a directory\<close>

lemma put_block:
  assumes v: "dir_view i st ess" and p: "dir_place i st (length ess)" and k: "k < length ess"
    and w: "within (insert (dblock i k) (side st)) st st'"
    and l: "length (bdata st' (dblock i k)) = BLOCK_SIZE"
    and s: "seg st' (bdata st' (dblock i k)) BLOCK_SIZE 0 BLOCK_SIZE es"
  shows "dir_view i st' (ess[k := es])" "dir_place i st' (length ess)" "block_used st' = block_used st"
    "idx i \<noteq> 0 \<Longrightarrow> idx i \<notin> insert (dblock i k) (side st)"
proof -
  note q = dir_placeD [OF p]
  have d: "set (bitmaps st) \<inter> insert (dblock i k) (side st) = {}"
    using q(7) [OF k] alloc_okD(5) [OF q(2)] by auto
  show "dir_place i st' (length ess)" "block_used st' = block_used st"
    using dir_place_within [OF p same_dir_refl w d] by blast+
  show "idx i \<noteq> 0 \<Longrightarrow> idx i \<notin> insert (dblock i k) (side st)" using q(13) q(10) [OF k] by auto
  have inj: "inj_on (dblock i) {..<length ess}" using v by (simp add: dir_view_def)
  have other: "bdata st' (dblock i j) = bdata st (dblock i j)" if "j < length ess" "j \<noteq> k" for j
  proof (rule within_data [OF w])
    have "dblock i j \<noteq> dblock i k" using inj_on_eq_iff [OF inj, of j k] that k by simp
    then show "dblock i j \<notin> insert (dblock i k) (side st)" using q(8) [OF that(1)] by simp
  qed (use q(6) that in blast)
  have "length (bdata st' (dblock i j)) = BLOCK_SIZE \<and>
      seg st' (bdata st' (dblock i j)) BLOCK_SIZE 0 BLOCK_SIZE (ess[k := es] ! j)" if j: "j < length ess" for j
  proof (cases "j = k")
    case True
    then show ?thesis using l s k by simp
  next
    case False
    have "seg st' (bdata st (dblock i j)) BLOCK_SIZE 0 BLOCK_SIZE (ess ! j)"
      by (rule seg_cong [OF _ _ within_max [OF w]]) (use v j in \<open>auto simp: dir_view_def agree_def\<close>)
    then show ?thesis using False other [OF j False] v j by (simp add: dir_view_def)
  qed
  then show "dir_view i st' (ess[k := es])" using v by (simp add: dir_view_def)
qed

lemma fill_entry_effect:
  assumes ok: "alloc_ok st" and b: "block \<noteq> 0" "block \<notin> side st"
  shows "within (insert block (side st)) st (fill_entry block off name ino mode st)"
    "bdata (fill_entry block off name ino mode st) block = fill_buf off name ino mode (bdata st block)"
proof -
  let ?r = "ignoreE (cryexts_journal_record_bh (Some block)) st"
  have r: "within (side st) st ?r" by (rule within_record(2) [OF ok refl])
  have e: "fill_entry block off name ino mode st =
      mark_buffer_dirty block (set_bdata block (fill_buf off name ino mode (bdata st block)) ?r)"
    unfolding fill_entry_def Let_def within_data [OF r b] fill_buf_def filled_def ..
  have "within {block} ?r (fill_entry block off name ino mode st)"
    unfolding e within_dirty by (rule within_set) (use b in simp_all)
  from within_trans [OF r this] show "within (insert block (side st)) st (fill_entry block off name ino mode st)" by simp
  show "bdata (fill_entry block off name ino mode st) block = fill_buf off name ino mode (bdata st block)"
    unfolding e using b(1) by (simp add: bdata_def set_bdata_def mark_buffer_dirty_def)
qed

lemma change_entry_effect:
  assumes ok: "alloc_ok st" and b: "block \<noteq> 0" "block \<notin> side st"
  shows "within (insert block (side st)) st (change_entry block off f st)"
    "bdata (change_entry block off f st) block =
       put_dirent off (f (dirent_at (bdata st block) off)) (bdata st block)"
proof -
  let ?r = "ignoreE (cryexts_journal_record_bh (Some block)) st"
  have r: "within (side st) st ?r" by (rule within_record(2) [OF ok refl])
  have e: "change_entry block off f st = mark_buffer_dirty block
      (set_bdata block (put_dirent off (f (dirent_at (bdata st block) off)) (bdata st block)) ?r)"
    unfolding change_entry_def Let_def within_data [OF r b] ..
  have "within {block} ?r (change_entry block off f st)"
    unfolding e within_dirty by (rule within_set) (use b in simp_all)
  from within_trans [OF r this] show "within (insert block (side st)) st (change_entry block off f st)" by simp
  show "bdata (change_entry block off f st) block =
       put_dirent off (f (dirent_at (bdata st block) off)) (bdata st block)"
    unfolding e using b(1) by (simp add: bdata_def set_bdata_def mark_buffer_dirty_def)
qed

section \<open>Room for a name\<close>

fun slot_in :: "dirent list \<Rightarrow> nat \<Rightarrow> dir_slot \<Rightarrow> bool" where
  "slot_in es need (Reuse off) \<longleftrightarrow> (\<exists>de nm. (off, de, nm) \<in> set es \<and> de_inode de = 0 \<and> need \<le> rec_len de)"
| "slot_in es need (Split off a) \<longleftrightarrow> (\<exists>de nm. (off, de, nm) \<in> set es \<and>
     a = dir_rec_len (unat (de_name_len de)) \<and> a + need \<le> rec_len de)"

lemma room_walk:
  "walk_list (find_room need st buf) es () = Inr slot \<Longrightarrow> slot_in es need slot"
proof (induction es)
  case (Cons e es)
  obtain off de nm where e: "e = (off, de, nm)" by (metis prod.exhaust)
  show ?case
  proof (cases "find_room need st buf off de ()")
    case (Inl u)
    then have "slot_in es need slot" using Cons by (simp add: e)
    then show ?thesis by (cases slot) auto
  next
    case (Inr s)
    then have "s = slot" using Cons.prems by (simp add: e)
    then show ?thesis using Inr by (auto simp: e find_room_def Let_def split: if_splits intro!: exI [of _ de])
  qed
qed simp

lemma no_room_walk:
  "walk_list (find_room need st buf) es () = Inl u \<Longrightarrow> \<not> slot_in es need slot"
proof (induction es)
  case Nil
  then show ?case by (cases slot) simp_all
next
  case (Cons e es)
  obtain off de nm where e: "e = (off, de, nm)" by (metis prod.exhaust)
  have f: "find_room need st buf off de () = Inl ()" "walk_list (find_room need st buf) es () = Inl u"
    using Cons.prems by (auto simp: e split: sum.splits)
  have "\<not> slot_in es need slot" by (rule Cons.IH [OF f(2)])
  then show ?case using f(1) by (cases slot) (auto simp: e find_room_def Let_def split: if_splits)
qed

lemma room_view:
  assumes "dir_view i st ess" "set ks \<subseteq> {..<length ess}" "room_in_blocks need ks (i, st) = (r, (i', st'))"
  shows "i' = i \<and> ticked st st' \<and> (r = Inl EIO \<and> faulty st \<or> r = Inr None \<and> (\<forall>k \<in> set ks. \<forall>slot. \<not> slot_in (ess ! k) need slot) \<or>
    (\<exists>k < length ess. \<exists>slot. r = Inr (Some (k, dblock i k, slot)) \<and> slot_in (ess ! k) need slot))"
  using assms
proof (induction ks arbitrary: st)
  case Nil
  then show ?case by (auto simp: retE_def)
next
  case (Cons k ks)
  have k: "k < length ess" and ks: "set ks \<subseteq> {..<length ess}" using Cons.prems(2) by auto
  obtain q j s where b: "dir_bread k (i, st) = (q, (j, s))" by (metis prod.exhaust)
  note d = dir_bread_view [OF Cons.prems(1) k b]
  show ?case
  proof (cases q)
    case (Inl e)
    then show ?thesis using Cons.prems(3) b d by (auto simp: bindE_def)
  next
    case (Inr block)
    then have blk: "block = dblock i k" "j = i" using d by auto
    have v: "dir_view i s ess" by (rule dir_view_ticked [OF Cons.prems(1) d(2)])
    note w = walk_view [OF v k, of "find_room need" "()"]
    show ?thesis
    proof (cases "walk_list (find_room need s (bdata s (dblock i k))) (ess ! k) ()")
      case (Inl u)
      then have "room_in_blocks need ks (i, s) = (r, (i', st'))"
        using Cons.prems(3) b Inr blk w by (simp add: bindE_def)
      from Cons.IH [OF v ks this] show ?thesis
        using ticked_trans [OF d(2)] ticked_faulty [OF d(2)] no_room_walk [OF Inl] by auto
    next
      case slot: (Inr slot)
      have "i' = i \<and> st' = s \<and> r = Inr (Some (k, dblock i k, slot))"
        using Cons.prems(3) b Inr blk w slot by (auto simp: bindE_def retE_def)
      then show ?thesis using d(2) k room_walk [OF slot] by blast
    qed
  qed
qed

section \<open>The block with the new entry\<close>

fun slot_buf :: "dir_slot \<Rightarrow> bytes \<Rightarrow> u64 \<Rightarrow> u16 \<Rightarrow> bytes \<Rightarrow> bytes" where
  "slot_buf (Reuse off) name ino mode buf = fill_buf off name ino mode buf"
| "slot_buf (Split off a) name ino mode buf = fill_buf (off + a) name ino mode (split_buf off a buf)"

definition entry_named :: "dirent list \<Rightarrow> bool" where
  "entry_named es \<longleftrightarrow> (\<forall>(off, de, nm) \<in> set es. de_inode de \<noteq> 0 \<longrightarrow> de_name_len de \<noteq> 0)"

lemma filled_named: "name \<noteq> [] \<Longrightarrow> length name \<le> 255 \<Longrightarrow> de_name_len (filled name ino mode de) \<noteq> 0"
  using unat_length8 [of name] by (auto simp: filled_def)

lemma slot_seg:
  assumes s: "seg st buf BLOCK_SIZE 0 BLOCK_SIZE es" and len: "length buf = BLOCK_SIZE"
    and name: "name \<noteq> []" "length name \<le> 255" and ino: "ino_ok st ino"
    and sl: "slot_in es (dir_rec_len (length name)) slot"
  shows "length (slot_buf slot name ino mode buf) = BLOCK_SIZE \<and>
    (\<exists>es' A B. seg st (slot_buf slot name ino mode buf) BLOCK_SIZE 0 BLOCK_SIZE es' \<and>
     live es = A @ B \<and> live es' = A @ (name, ino) # B \<and> (entry_named es \<longrightarrow> entry_named es'))"
proof -
  have fit: "12 + length name \<le> dir_rec_len (length name)" using dir_rec_len(2) [OF name(2)] .
  obtain off de nm where e: "(off, de, nm) \<in> set es"
      "slot = Reuse off \<and> de_inode de = 0 \<and> dir_rec_len (length name) \<le> rec_len de \<or>
       slot = Split off (dir_rec_len (unat (de_name_len de))) \<and>
       dir_rec_len (unat (de_name_len de)) + dir_rec_len (length name) \<le> rec_len de"
    using sl by (cases slot) auto
  obtain us vs where es: "es = us @ (off, de, nm) # vs" using e(1) by (auto simp: in_set_conv_decomp)
  obtain b where parts: "seg st buf BLOCK_SIZE 0 b us" "seg st buf BLOCK_SIZE b BLOCK_SIZE ((off, de, nm) # vs)"
    using s es by (auto simp: seg_append)
  then have b: "b = off" "de = dirent_at buf off" "cryexts_validate_dirent st de off BLOCK_SIZE = Inr ()" by auto
  note v = validate_rec_len [OF b(3)]
  have mid: "seg st buf BLOCK_SIZE off (off + rec_len de) [(off, de, nm)]" using parts(2) b by auto
  have us: "seg st buf BLOCK_SIZE 0 off us" using parts(1) b(1) by simp
  have full: "seg st buf BLOCK_SIZE 0 BLOCK_SIZE (us @ [(off, de, nm)] @ vs)" using s es by simp
  show ?thesis
  proof (cases slot)
    case (Reuse o')
    then have r: "slot = Reuse off" "de_inode de = 0" "12 + length name \<le> rec_len de" using e(2) fit by auto
    note f = fill_seg [OF len name(2) r(3) arg_cong [OF b(2)] v(2,3) order_refl ino, of mode]
    from seg_replace [OF full mid us f(1,2,3)]
    have "seg st (fill_buf off name ino mode buf) BLOCK_SIZE 0 BLOCK_SIZE (us @ [(off, filled name ino mode de, name)] @ vs)"
      unfolding b(2) [symmetric] .
    then show ?thesis
      using f(4) r es ino_ok_nonzero [OF ino] filled_named [OF name]
      by (intro conjI exI [of _ "us @ [(off, filled name ino mode de, name)] @ vs"] exI [of _ "live us"] exI [of _ "live vs"])
        (auto simp: entry_named_def filled_def)
  next
    case (Split o' a')
    define a where "a = dir_rec_len (unat (de_name_len de))"
    have r: "slot = Split off a" "a + dir_rec_len (length name) \<le> rec_len de" using e(2) Split by (auto simp: a_def)
    have a12: "a + 12 \<le> rec_len de" using r(2) fit by simp
    note f = split_seg [OF mid len a_def a12 order_refl]
    let ?b = "split_buf off a buf" and ?de = "de\<lparr>de_rec_len := of_nat a\<rparr>"
    have q: "12 + length name \<le> rec_len de - a" "off + a + (rec_len de - a) \<le> BLOCK_SIZE" using r(2) fit v(3) by simp_all
    note g = fill_seg [OF f(5) name(2) q(1) f(2) [symmetric] f(6) q(2) order_refl ino, of mode]
    let ?b' = "fill_buf (off + a) name ino mode ?b" and ?new = "filled name ino mode (dirent_at ?b (off + a))"
    have l: "off + a + (rec_len de - a) = off + rec_len de" using a12 by simp
    have one: "seg st ?b' BLOCK_SIZE off (off + a) [(off, ?de, nm)]"
      by (rule seg_cong [OF f(1) agree_sub [OF g(2)]]) simp_all
    have two: "seg st ?b' BLOCK_SIZE off (off + rec_len de) ([(off, ?de, nm)] @ [(off + a, ?new, name)])"
      using one g(1) unfolding l seg_append by blast
    have "agree 0 off buf ?b'" using agree_trans [OF f(3) agree_sub [OF g(2)]] by simp
    from seg_replace [OF full mid us two this agree_trans [OF f(4) g(3) [unfolded l]]]
    have "seg st ?b' BLOCK_SIZE 0 BLOCK_SIZE (us @ ([(off, ?de, nm)] @ [(off + a, ?new, name)]) @ vs)" .
    then show ?thesis
      using g(4) r(1) es ino_ok_nonzero [OF ino] filled_named [OF name]
      by (intro conjI exI [of _ "us @ ([(off, ?de, nm)] @ [(off + a, ?new, name)]) @ vs"]
            exI [of _ "live us @ live [(off, de, nm)]"] exI [of _ "live vs"])
        (auto simp: entry_named_def filled_def)
  qed
qed

section \<open>After the write\<close>

definition dir_base :: "inode \<Rightarrow> fs \<Rightarrow> dirent list list \<Rightarrow> bool" where
  "dir_base i st ess \<longleftrightarrow> dir_view i st ess \<and> dir_place i st (length ess) \<and> named ess \<and>
     distinct (map fst (names ess)) \<and> index_place i st"

lemma dir_inv_base: "dir_inv i st ess \<longleftrightarrow> dir_base i st ess \<and> index_sound i st ess"
  by (auto simp: dir_inv_def dir_base_def)

lemma dir_base_step:
  assumes "dir_base i st ess" "dir_step i st i' st'"
  shows "dir_base i' st' ess"
  using assms dir_step_keeps [of i st ess i' st'] index_place_step [of i st i' "tail_blocks i st" st']
  by (auto simp: dir_base_def dir_step_def)

lemma named_all: "named ess \<longleftrightarrow> (\<forall>es \<in> set ess. entry_named es)"
  by (simp add: named_def entry_named_def)

lemma named_update: "named ess \<Longrightarrow> entry_named es \<Longrightarrow> named (ess[k := es])"
  by (auto simp: named_all dest: subsetD [OF set_update_subset_insert])

lemma sound_but_within:
  assumes "sound_but i st ess k name" "same_dir i i'" "within S st st'" "idx i \<noteq> 0 \<Longrightarrow> idx i \<notin> S"
    "index_place i st"
  shows "sound_but i' st' ess k name"
proof (cases "cryexts_dir_index_feature_enabled st")
  case True
  then have nz: "idx i \<noteq> 0" using assms(5) by (simp add: index_place_def)
  then show ?thesis
    using assms(1) index_of_within [OF assms(3) nz assms(4)] within_data [OF assms(3) nz assms(4)]
      within_feature [OF assms(3)] same_dirD [OF assms(2)] masks_have_within [OF assms(3)]
    by (simp add: sound_but_def)
qed (use within_feature [OF assms(3)] in \<open>simp add: sound_but_def\<close>)

lemma runE_two: "runE [f, h, g] = bindE f (\<lambda>_. bindE h (\<lambda>_. g))" for g :: "('s, unit) act"
  by (auto simp: bindE_def retE_def fun_eq_iff split: sum.splits prod.splits)

text \<open>The inode is written, then the index is brought up to date by the step \<open>g\<close>.\<close>

lemma touch_and_write:
  assumes b: "dir_base i st ess" and run: "runE [touch_dir, cryexts_write_inode_to_disk, g] (i, st) = (r, (i', st'))"
  shows "\<exists>j s q. dir_step i st j s \<and> same_dir i j \<and>
    within (insert (inode_block st (i_ino i)) (side st)) st s \<and>
    (r = q \<and> i' = j \<and> st' = s \<and> (\<exists>e. r = Inl e) \<and> faulty st \<or> g (j, s) = (r, (i', st')))"
proof -
  let ?i = "i\<lparr>i_mtime := d_now st, i_ctime := d_now st\<rparr>"
  have t: "dir_step i st ?i st" by (simp add: dir_step_def)
  have v: "dir_view i st ess" and p: "dir_place i st (length ess)" using b by (simp_all add: dir_base_def)
  note k = dir_step_keeps [OF v p t]
  have sh: "dir_shape ?i" using k(1) by (simp add: dir_view_def)
  obtain q j s where w: "cryexts_write_inode_to_disk (?i, st) = (q, (j, s))" by (metis prod.exhaust)
  note ws = write_step [OF k(2) sh w]
  have st: "dir_step i st j s" by (rule dir_step_trans [OF p t ws(1)])
  have wi: "within (insert (inode_block st (i_ino i)) (side st)) st s" using ws(2) by simp
  have "bindE cryexts_write_inode_to_disk (\<lambda>_. g) (?i, st) = (r, (i', st'))"
    using run unfolding runE_two by (simp add: bindE_def touch_dir_def)
  then have "r = q \<and> i' = j \<and> st' = s \<and> (\<exists>e. r = Inl e) \<and> faulty st \<or> g (j, s) = (r, (i', st'))"
    using w ws(3) by (cases q) (auto simp: bindE_def)
  then show ?thesis using st wi by (auto simp: dir_step_def)
qed

lemma after_add:
  assumes b: "dir_base i st ess" and k: "k < length ess" and so: "sound_but i st ess k name"
    and run: "runE [touch_dir, cryexts_write_inode_to_disk, cryexts_dir_index_add_name name k] (i, st) = (r, (i', st'))"
  shows "dir_step i st i' st'" "r = Inr () \<Longrightarrow> index_sound i' st' ess" "r = Inl e \<Longrightarrow> faulty st"
proof -
  have p: "dir_place i st (length ess)" and x: "index_place i st" using b by (simp_all add: dir_base_def)
  obtain j s q where t: "dir_step i st j s" "same_dir i j" "within (insert (inode_block st (i_ino i)) (side st)) st s"
      "r = q \<and> i' = j \<and> st' = s \<and> (\<exists>e. r = Inl e) \<and> faulty st \<or> cryexts_dir_index_add_name name k (j, s) = (r, (i', st'))"
    using touch_and_write [OF b run] by blast
  have bj: "dir_base j s ess" by (rule dir_base_step [OF b t(1)])
  have sj: "sound_but j s ess k name"
    by (rule sound_but_within [OF so t(2,3) _ x]) (use dir_placeD(13,14) [OF p] in simp)
  have "dir_step i st i' st' \<and> (r = Inr () \<longrightarrow> index_sound i' st' ess) \<and> (\<forall>e. r = Inl e \<longrightarrow> faulty st)"
    using t(4)
  proof
    assume "cryexts_dir_index_add_name name k (j, s) = (r, (i', st'))"
    from add_name_sound [OF _ _ _ _ k sj this] bj show ?thesis
      using dir_step_trans [OF p t(1)] within_faulty [OF t(3)] by (auto simp: dir_base_def)
  qed (use t(1) in auto)
  then show "dir_step i st i' st'" "r = Inr () \<Longrightarrow> index_sound i' st' ess" "r = Inl e \<Longrightarrow> faulty st" by blast+
qed

lemma after_remove:
  assumes b: "dir_base i st ess" and k: "k < length ess" and so: "index_sound i st ess"
    and run: "runE [touch_dir, cryexts_write_inode_to_disk, cryexts_dir_index_remove_name name (dblock i k) k] (i, st) =
      (r, (i', st'))"
  shows "dir_step i st i' st'" "r = Inr () \<Longrightarrow> index_sound i' st' ess" "r = Inl e \<Longrightarrow> faulty st"
proof -
  have p: "dir_place i st (length ess)" and x: "index_place i st" using b by (simp_all add: dir_base_def)
  obtain j s q where t: "dir_step i st j s" "same_dir i j" "within (insert (inode_block st (i_ino i)) (side st)) st s"
      "r = q \<and> i' = j \<and> st' = s \<and> (\<exists>e. r = Inl e) \<and> faulty st \<or>
       cryexts_dir_index_remove_name name (dblock i k) k (j, s) = (r, (i', st'))"
    using touch_and_write [OF b run] by blast
  have bj: "dir_base j s ess" by (rule dir_base_step [OF b t(1)])
  have db: "dblock i k = dblock j k" using same_dirD(2) [OF t(2)] by simp
  have sj: "index_sound j s ess"
  proof (cases "cryexts_dir_index_feature_enabled st")
    case True
    then have nz: "idx i \<noteq> 0" using x by (simp add: index_place_def)
    show ?thesis by (rule index_sound_within [OF so t(2,3) nz]) (use dir_placeD(13,14) [OF p nz] in simp)
  qed (use within_feature [OF t(3)] in \<open>simp add: index_sound_def\<close>)
  have "dir_step i st i' st' \<and> (r = Inr () \<longrightarrow> index_sound i' st' ess) \<and> (\<forall>e. r = Inl e \<longrightarrow> faulty st)"
    using t(4)
  proof
    assume "cryexts_dir_index_remove_name name (dblock i k) k (j, s) = (r, (i', st'))"
    from remove_name_sound [OF _ _ _ _ k sj this [unfolded db]] bj show ?thesis
      using dir_step_trans [OF p t(1)] within_faulty [OF t(3)] by (auto simp: dir_base_def)
  qed (use t(1) in auto)
  then show "dir_step i st i' st'" "r = Inr () \<Longrightarrow> index_sound i' st' ess" "r = Inl e \<Longrightarrow> faulty st" by blast+
qed

section \<open>A name more\<close>

definition map_added :: "bytes \<Rightarrow> u64 \<Rightarrow> dirent list list \<Rightarrow> dirent list list \<Rightarrow> bool" where
  "map_added name ino ess ess' \<longleftrightarrow> map_of (names ess') = (map_of (names ess))(name \<mapsto> ino)"

lemma names_insert:
  assumes k: "k < length ess" and l: "live (ess ! k) = A @ B" "live es = A @ (name, ino) # B"
    and n: "name \<notin> fst ` set (names ess)" and d: "distinct (map fst (names ess))"
  shows "map_added name ino ess (ess[k := es])" "distinct (map fst (names (ess[k := es])))"
proof -
  obtain C D where c: "names ess = C @ live (ess ! k) @ D" "\<And>es. names (ess[k := es]) = C @ live es @ D"
    using names_update [OF k] by blast
  have e: "names ess = (C @ A) @ (B @ D)" "names (ess[k := es]) = (C @ A) @ (name, ino) # (B @ D)"
    using c l by simp_all
  show "map_added name ino ess (ess[k := es])"
    unfolding map_added_def e by (rule map_of_insert) (use n e(1) in simp)
  show "distinct (map fst (names (ess[k := es])))" using n d unfolding e by auto
qed

text \<open>The write of the entry in a block that has room for it.\<close>

lemma slot_state:
  assumes b: "dir_base i st ess" and k: "k < length ess"
    and run: "bindE (onfs (take_slot (dblock i k) slot)) (\<lambda>off. write_entry k (dblock i k) off name ino mode) (i, st) =
      (r, (i', st'))"
  shows "\<exists>s. within (insert (dblock i k) (side st)) st s \<and>
    bdata s (dblock i k) = slot_buf slot name ino mode (bdata st (dblock i k)) \<and>
    runE [touch_dir, cryexts_write_inode_to_disk, cryexts_dir_index_add_name name k] (i, s) = (r, (i', st'))"
proof -
  let ?b = "dblock i k"
  have p: "dir_place i st (length ess)" using b by (simp add: dir_base_def)
  note q = dir_placeD [OF p]
  have blk: "?b \<noteq> 0" "?b \<notin> side st" "?b \<notin> set (bitmaps st)" using q(6-8) [OF k] by blast+
  obtain off s1 where t: "take_slot ?b slot st = (Inr off, s1)" "within {?b} st s1"
      "slot_buf slot name ino mode (bdata st ?b) = fill_buf off name ino mode (bdata s1 ?b)"
  proof (cases slot)
    case (Reuse off)
    then show thesis using that [of off st] by (simp add: retE_def)
  next
    case (Split off a)
    show thesis
      by (rule that [of "off + a" "set_bdata ?b (split_buf off a (bdata st ?b)) st"])
        (use blk(1) within_set [of ?b "{?b}" st] in
          \<open>simp_all add: Split Let_def split_buf_def bdata_def set_bdata_def\<close>)
  qed
  have "alloc_same st s1" by (rule within_same [OF t(2)]) (use blk(3) in simp)
  from alloc_same_sets(1) [OF q(2) this] have ok: "alloc_ok s1" .
  have side: "side s1 = side st" by (rule geo_basic(8) [OF within_geo [OF t(2)]])
  note f = fill_entry_effect [OF ok blk(1), unfolded side, OF blk(2), of off name ino mode]
  have "runE [touch_dir, cryexts_write_inode_to_disk, cryexts_dir_index_add_name name k]
      (i, fill_entry ?b off name ino mode s1) = (r, (i', st'))"
    using run t(1) by (simp add: bindE_def onfs_def write_entry_def modE_def)
  moreover have "within (insert ?b (side st)) st (fill_entry ?b off name ino mode s1)"
    using within_trans [OF t(2) f(1)] by simp
  ultimately show ?thesis using f(2) t(3) by auto
qed

lemma add_existing:
  assumes iv: "dir_inv i st ess" and k: "k < length ess"
    and name: "name \<noteq> []" "length name \<le> 255" "name \<notin> fst ` set (names ess)" and ino: "ino_ok st ino"
    and sl: "slot_in (ess ! k) (dir_rec_len (length name)) slot"
    and run: "bindE (onfs (take_slot (dblock i k) slot)) (\<lambda>off. write_entry k (dblock i k) off name ino mode) (i, st) =
      (r, (i', st'))"
  shows "\<exists>ess'. dir_base i' st' ess' \<and> map_added name ino ess ess' \<and> (r = Inr () \<longrightarrow> dir_inv i' st' ess') \<and>
    (\<forall>e. r = Inl e \<longrightarrow> faulty st) \<and> block_used st' = block_used st \<and> like st st'"
proof -
  have b: "dir_base i st ess" and so: "index_sound i st ess" using iv by (simp_all add: dir_inv_base)
  have v: "dir_view i st ess" and p: "dir_place i st (length ess)" and x: "index_place i st"
    and ds: "distinct (map fst (names ess))" and nm: "named ess" using b by (simp_all add: dir_base_def)
  obtain s where s: "within (insert (dblock i k) (side st)) st s"
      "bdata s (dblock i k) = slot_buf slot name ino mode (bdata st (dblock i k))"
      "runE [touch_dir, cryexts_write_inode_to_disk, cryexts_dir_index_add_name name k] (i, s) = (r, (i', st'))"
    using slot_state [OF b k run] by blast
  have sg: "seg st (bdata st (dblock i k)) BLOCK_SIZE 0 BLOCK_SIZE (ess ! k)"
      and len: "length (bdata st (dblock i k)) = BLOCK_SIZE" using v k by (simp_all add: dir_view_def)
  obtain es A B where e: "seg st (bdata s (dblock i k)) BLOCK_SIZE 0 BLOCK_SIZE es"
      "length (bdata s (dblock i k)) = BLOCK_SIZE"
      "live (ess ! k) = A @ B" "live es = A @ (name, ino) # B" "entry_named (ess ! k) \<longrightarrow> entry_named es"
    using slot_seg [OF sg len name(1,2) ino sl, of mode] unfolding s(2) by blast
  have e': "seg s (bdata s (dblock i k)) BLOCK_SIZE 0 BLOCK_SIZE es"
    by (rule seg_cong [OF e(1) _ within_max [OF s(1)]]) (use e(2) in \<open>simp add: agree_def\<close>)
  note pb = put_block [OF v p k s(1) e(2) e']
  note ni = names_insert [OF k e(3,4) name(3) ds]
  let ?ess = "ess[k := es]"
  have en: "entry_named es" using e(5) nm k nth_mem [OF k] by (auto simp: named_all)
  have b2: "dir_base i s ?ess"
    using pb(1,2) ni(2) named_update [OF nm en] index_place_step [OF x same_dir_refl s(1)]
    by (simp add: dir_base_def)
  have sb: "sound_but i s ?ess k name"
  proof (cases "cryexts_dir_index_feature_enabled st")
    case True
    then have nz: "idx i \<noteq> 0" using x by (simp add: index_place_def)
    note keep = index_of_within [OF s(1) nz pb(4) [OF nz]] within_data [OF s(1) nz pb(4) [OF nz]]
    have "masks_have s (dx_block_masks y) j n"
      if y: "index_of st (idx i) = Some y" and j: "j < length ess" "(n, z) \<in> set (live (?ess ! j))" "(j, n) \<noteq> (k, name)"
      for y j n z
    proof -
      have "(n, z) \<in> set (live (ess ! j))" using j k e(3,4) by (cases "j = k") auto
      then have "masks_have st (dx_block_masks y) j n"
        using so True y j(1) by (auto simp: index_sound_def masks_sound_def)
      then show ?thesis by (simp add: masks_have_within [OF s(1)])
    qed
    then show ?thesis using so True keep by (auto simp: sound_but_def index_sound_def)
  qed (use within_feature [OF s(1)] in \<open>simp add: sound_but_def\<close>)
  have k2: "k < length ?ess" using k by simp
  note a = after_add [OF b2 k2 sb s(3)]
  have "dir_base i' st' ?ess" by (rule dir_base_step [OF b2 a(1)])
  moreover have "block_used st' = block_used s"
    using dir_step_keeps(3) [OF _ _ a(1), of ?ess] b2 by (simp add: dir_base_def)
  moreover have "like st st'" by (rule like_trans [OF within_like [OF s(1)] step_like [OF a(1)]])
  ultimately show ?thesis using a(2,3) ni(1) pb(3) within_faulty [OF s(1)] by (auto simp: dir_inv_base)
qed

end
