(* ===== verification/DirGrow.thy ===== *)
theory DirGrow
  imports DirAdd
begin

text \<open>
  A directory without room grows by a block: the new block is taken, marked used, and holds one free
  entry; if its buffer cannot be had everything is taken back.
\<close>

section \<open>Giving a block back\<close>

lemma free_block_within:
  assumes ok: "alloc_ok st" and r: "cryexts_free_block x st = (r, st')"
  shows "within (set (bitmaps st) \<union> side st) st st'"
proof -
  have acc: "within (set (bitmaps st) \<union> side st) st (free_block_account m)"
    if g: "geo_view m = geo_view st" and c: "cache_within (set (bitmaps st)) st m" for m
  proof -
    let ?m = "upd_disk_sb (\<lambda>sb. sb\<lparr>sb_free_blocks_count := sb_free_blocks_count sb + 1\<rparr>) m"
    have g2: "geo_view ?m = geo_view st" using g by (simp add: geo_view_def upd_disk_sb_def)
    have "within (set (bitmaps st)) st ?m"
      using c g2 by (simp add: within_def cache_within_def csum_view_def upd_disk_sb_def)
    moreover have "within (side st) ?m (free_block_account m)"
      unfolding free_block_account_def
      by (intro within_frame mark_frame side_blocks_geo [OF _ ok] g2)
    ultimately show ?thesis by (rule within_trans)
  qed
  have clr: "geo_view (bitmap_clear_at bh k st) = geo_view st \<and> cache_within (set (bitmaps st)) st (bitmap_clear_at bh k st)"
    if "bh \<in> set (bitmaps st)" for bh k
  proof -
    have "bh \<noteq> 0" using alloc_okD(5) [OF ok that] by (auto simp: side_def)
    then show ?thesis
      using that by (simp add: bitmap_clear_at_def set_bdata_def cache_within_def csum_view_def geo_view_def)
  qed
  show ?thesis
  proof (cases "cryexts_has_block_groups st")
    case False
    then have "0 < ngroups st" "bmap st 0 = the (s_block_bitmap_bh st)" by (simp_all add: ngroups_def bmap_def)
    then have "the (s_block_bitmap_bh st) \<in> set (bitmaps st)" using bitmap_in(1) by metis
    then show ?thesis
      using r False acc clr by (auto simp: cryexts_free_block_def Let_def split: if_splits)
  next
    case True
    have bh: "the (bitmap_slot (s_group_block_bitmap_bhs st) g) \<in> set (bitmaps st)" if "g < s_group_count st" for g
    proof -
      have "unat g < ngroups st" using that True by (simp add: ngroups_def word_less_nat_alt)
      from bitmap_in(1) [OF this] show ?thesis using True by (simp add: bmap_def)
    qed
    have up: "geo_view (upd_group g (\<lambda>g. g\<lparr>gd_free_blocks_count := gd_free_blocks_count g + 1\<rparr>) m) = geo_view st"
      "cache_within (set (bitmaps st)) st (upd_group g (\<lambda>g. g\<lparr>gd_free_blocks_count := gd_free_blocks_count g + 1\<rparr>) m)"
      if "geo_view m = geo_view st \<and> cache_within (set (bitmaps st)) st m" for g m
      using that geo_upd_group [of "\<lambda>g. g\<lparr>gd_free_blocks_count := gd_free_blocks_count g + 1\<rparr>" g m]
      by (auto simp: gd_place_def cache_within_def csum_view_def upd_group_def)
    show ?thesis
      using r True acc [OF up] clr [OF bh]
      by (auto simp: cryexts_free_block_def Let_def not_le split: if_splits)
  qed
qed

section \<open>The directory after a change of its inode\<close>

definition near_dir :: "nat \<Rightarrow> inode \<Rightarrow> inode \<Rightarrow> bool" where
  "near_dir n i i' \<longleftrightarrow> dir_shape i' \<and> i_ino i' = i_ino i \<and> idx i' = idx i \<and>
     ii_inode_flags (info i') = ii_inode_flags (info i) \<and> (\<forall>k < n. dblock i' k = dblock i k)"

lemma near_dir_view:
  assumes v: "dir_view i st ess" and j: "near_dir (length ess) i i'" "i_size i' = i_size i"
    and m: "cryexts_max_inodes st' = cryexts_max_inodes st"
    and e: "\<And>k. k < length ess \<Longrightarrow> bdata st' (dblock i k) = bdata st (dblock i k)"
  shows "dir_view i' st' ess"
proof -
  have "seg st' (bdata st' (dblock i k)) BLOCK_SIZE 0 BLOCK_SIZE (ess ! k)" if k: "k < length ess" for k
    unfolding e [OF k]
    by (rule seg_cong [OF _ _ m]) (use v k in \<open>auto simp: dir_view_def agree_def\<close>)
  moreover have "inj_on (dblock i') {..<length ess} \<longleftrightarrow> inj_on (dblock i) {..<length ess}"
    by (rule inj_on_cong) (use j(1) in \<open>simp add: near_dir_def\<close>)
  ultimately show ?thesis using v e j by (simp add: dir_view_def near_dir_def)
qed

lemma near_dir_place:
  assumes p: "dir_place i st n" and j: "near_dir n i i'" and ok: "disk_ok st'" and g: "geo_view st' = geo_view st"
    and u: "block_used st \<subseteq> block_used st'" and sp: "block_space st' = block_space st"
  shows "dir_place i' st' n"
proof -
  note q = dir_placeD [OF p]
  have ib: "inode_block st' (i_ino i) = inode_block st (i_ino i)" by (rule geo_valid(2) [OF g q(2,3)])
  have im: "dblock i' ` {..<n} = dblock i ` {..<n}" using j by (auto simp: near_dir_def)
  show ?thesis
    unfolding dir_place_def im
    using p j ok u geo_basic [OF g] ib sp by (auto simp: dir_place_def near_dir_def split: if_splits)
qed

lemma near_index:
  assumes x: "index_place i st" and so: "index_sound i st ess" and j: "near_dir n i i'"
    and w: "within S st st'" and out: "idx i \<noteq> 0 \<Longrightarrow> idx i \<notin> S"
  shows "index_place i' st'" "index_sound i' st' ess"
proof -
  show "index_place i' st'" using x j within_feature [OF w] by (simp add: index_place_def near_dir_def)
  show "index_sound i' st' ess"
  proof (cases "cryexts_dir_index_feature_enabled st")
    case True
    then have nz: "idx i \<noteq> 0" using x by (simp add: index_place_def)
    show ?thesis
      using so index_of_within [OF w nz out] within_data [OF w nz out] nz masks_sound_within [OF w]
        within_feature [OF w] j by (simp add: index_sound_def near_dir_def)
  qed (use within_feature [OF w] in \<open>simp add: index_sound_def\<close>)
qed

lemma near_dir_inv:
  assumes iv: "dir_inv i st ess" and j: "near_dir (length ess) i i'" "i_size i' = i_size i"
    and ok: "disk_ok st'" and u: "block_used st \<subseteq> block_used st'" "block_space st' = block_space st"
    and w: "within S st st'" and out: "\<And>y. y \<in> block_used st \<Longrightarrow> y \<notin> set (bitmaps st) \<Longrightarrow> y \<notin> side st \<Longrightarrow> y \<notin> S"
  shows "dir_inv i' st' ess"
proof -
  have v: "dir_view i st ess" and p: "dir_place i st (length ess)" and x: "index_place i st" "index_sound i st ess"
    using iv by (simp_all add: dir_inv_def)
  note q = dir_placeD [OF p]
  have e: "bdata st' (dblock i k) = bdata st (dblock i k)" if k: "k < length ess" for k
    by (rule within_data [OF w q(6) [OF k]]) (use out q(5,7,8) [OF k] in blast)
  have "idx i \<notin> S" if "idx i \<noteq> 0"
    using p that out [of "idx i"] by (auto simp: dir_place_def split: if_splits)
  note n = near_index [OF x j(1) w this]
  show ?thesis
    using near_dir_view [OF v j within_max [OF w] e] near_dir_place [OF p j(1) ok within_geo [OF w] u] n iv
    by (simp add: dir_inv_def)
qed

text \<open>With one block more.\<close>

definition free_entry :: cryexts_dir_entry where
  "free_entry = \<lparr>de_inode = 0, de_rec_len = of_nat BLOCK_SIZE, de_name_len = 0, de_file_type = CRYEXTS_FT_UNKNOWN\<rparr>"

lemma free_block_seg: "seg st free_entry_block BLOCK_SIZE 0 BLOCK_SIZE [(0, free_entry, [])]"
  by (simp add: zero_entry free_entry_def validate_iff rec_len_def BLOCK_SIZE_def CRYEXTS_FT_UNKNOWN_def
      de_name_def get_bytes_def)

lemma near_dir_grown:
  assumes iv: "dir_inv i st ess" and n: "length ess < CRYEXTS_DIRECT_BLOCKS"
    and j: "near_dir (length ess) i i'" "i_size i' = i_size i + of_nat BLOCK_SIZE" "dblock i' (length ess) = x"
    and ok: "disk_ok st'" and u: "block_used st' = insert x (block_used st)" "block_space st' = block_space st"
    and x: "x \<notin> block_used st" "x \<notin> set (bitmaps st)" "x \<notin> side st"
    and w: "within (insert x (set (bitmaps st) \<union> side st)) st st'" and b: "bdata st' x = free_entry_block"
  shows "dir_inv i' st' (ess @ [[(0, free_entry, [])]])"
proof -
  let ?n = "length ess"
  have v: "dir_view i st ess" and p: "dir_place i st ?n" and ix: "index_place i st" "index_sound i st ess"
    using iv by (simp_all add: dir_inv_def)
  note q = dir_placeD [OF p]
  have neq: "dblock i k \<noteq> x" if "k < ?n" for k using q(5) [OF that] x(1) by auto
  have e: "bdata st' (dblock i k) = bdata st (dblock i k)" if k: "k < ?n" for k
    by (rule within_data [OF w q(6) [OF k]]) (use neq [OF k] q(7,8) [OF k] in auto)
  have dk: "dblock i' k = dblock i k" if "k < ?n" for k using j(1) that by (simp add: near_dir_def)
  have sg: "length (bdata st' (dblock i' k)) = BLOCK_SIZE \<and>
      seg st' (bdata st' (dblock i' k)) BLOCK_SIZE 0 BLOCK_SIZE ((ess @ [[(0, free_entry, [])]]) ! k)"
    if k: "k < Suc ?n" for k
  proof (cases "k = ?n")
    case True
    then show ?thesis using b j(3) zero_entry(1) free_block_seg by simp
  next
    case False
    then have k: "k < ?n" using k by simp
    have "seg st' (bdata st (dblock i k)) BLOCK_SIZE 0 BLOCK_SIZE (ess ! k)"
      by (rule seg_cong [OF _ _ within_max [OF w]]) (use v k in \<open>auto simp: dir_view_def agree_def\<close>)
    then show ?thesis using v k dk [OF k] e [OF k] by (simp add: dir_view_def nth_append)
  qed
  have inj: "inj_on (dblock i') {..<Suc ?n}"
  proof (rule inj_onI)
    fix a b assume ab: "a \<in> {..<Suc ?n}" "b \<in> {..<Suc ?n}" "dblock i' a = dblock i' b"
    have old: "inj_on (dblock i) {..<?n}" using v by (simp add: dir_view_def)
    show "a = b"
      using ab dk neq j(3) inj_onD [OF old, of a b]
      by (cases "a = ?n"; cases "b = ?n") (auto simp: less_Suc_eq)
  qed
  have size: "i_size i' = of_nat (Suc ?n * BLOCK_SIZE)" using v j(2) by (simp add: dir_view_def algebra_simps)
  have sh: "dir_shape i'" using j(1) by (simp add: near_dir_def)
  have view: "dir_view i' st' (ess @ [[(0, free_entry, [])]])"
    unfolding dir_view_def length_append using sg inj size sh n v by (simp add: dir_view_def)
  have p1: "dir_place i' st' ?n"
    by (rule near_dir_place [OF p j(1) ok within_geo [OF w] _ u(2)]) (use u(1) in auto)
  have "idx i' \<noteq> x"
  proof (cases "idx i = 0")
    case True
    then show ?thesis using x(3) j(1) by (auto simp: near_dir_def side_def)
  next
    case False
    then have "idx i \<in> block_used st" using p by (auto simp: dir_place_def split: if_splits)
    then show ?thesis using x(1) j(1) by (auto simp: near_dir_def)
  qed
  then have place: "dir_place i' st' (Suc ?n)"
    using p1 u(1) x(2,3) geo_basic(5,8) [OF within_geo [OF w]] j(3)
    by (auto simp: dir_place_def lessThan_Suc split: if_splits)
  have "idx i \<notin> insert x (set (bitmaps st) \<union> side st)" if "idx i \<noteq> 0"
    using that \<open>idx i' \<noteq> x\<close> j(1) q(12,13) [OF that] by (simp add: near_dir_def)
  note nx = near_index [OF ix j(1) w this]
  have "names (ess @ [[(0, free_entry, [])]]) = names ess" by (simp add: names_def free_entry_def)
  moreover have "named (ess @ [[(0, free_entry, [])]])" using iv by (auto simp: dir_inv_def named_def free_entry_def)
  moreover have "index_sound i' st' (ess @ [[(0, free_entry, [])]])"
    using nx(2) by (auto simp: index_sound_def masks_sound_def less_Suc_eq nth_append free_entry_def split: if_splits)
  ultimately show ?thesis using view place nx(1) iv by (simp add: dir_inv_def)
qed

section \<open>A new block\<close>

lemma hint_keeps:
  "ii_direct (cryexts_update_alloc_hint st x b) = ii_direct b"
  "ii_use_extents (cryexts_update_alloc_hint st x b) = ii_use_extents b"
  "ii_dir_index_block (cryexts_update_alloc_hint st x b) = ii_dir_index_block b"
  "ii_inode_flags (cryexts_update_alloc_hint st x b) = ii_inode_flags b"
  by (simp_all add: cryexts_update_alloc_hint_def Let_def cryexts_reset_reservation_def)

lemma near_direct:
  assumes s: "dir_shape i" and n: "n < CRYEXTS_DIRECT_BLOCKS"
    and b: "i_private i' = Some b" "ii_direct b = (ii_direct (info i))[n := x]" "ii_use_extents b = ii_use_extents (info i)"
      "ii_dir_index_block b = ii_dir_index_block (info i)" "ii_inode_flags b = ii_inode_flags (info i)"
      "i_ino i' = i_ino i"
  shows "near_dir n i i'" "dblock i' n = x"
proof -
  have "info i' = b" using b(1) by (simp add: info_def)
  then show "near_dir n i i'" "dblock i' n = x"
    using s n b by (simp_all add: near_dir_def dir_shape_def dblock_def idx_def)
qed

lemma new_block:
  assumes iv: "dir_inv i st ess" and n: "n = length ess" "n < CRYEXTS_DIRECT_BLOCKS"
    and run: "new_dir_block n (i, st) = (r, (i', st'))"
  shows "(\<exists>e. r = Inl e) \<and> dir_inv i' st' ess \<and> block_used st' = block_used st \<and> like st st' \<or>
    r = Inr (dblock i' n) \<and> dblock i' n \<notin> block_used st \<and> dir_inv i' st' (ess @ [[(0, free_entry, [])]]) \<and>
    block_used st' = insert (dblock i' n) (block_used st) \<and> like st st'"
proof -
  have v: "dir_view i st ess" and p: "dir_place i st n" using iv n(1) by (simp_all add: dir_inv_def)
  have s: "dir_shape i" using v by (simp add: dir_view_def)
  obtain b where b: "i_private i = Some b" "info i = b" using dir_shapeD(1) [OF s] by blast
  have ok: "disk_ok st" "alloc_ok st" using dir_placeD(1,2) [OF p] .
  obtain q st1 where a: "cryexts_alloc_block_goal (ii_alloc_hint_block b) (ii_alloc_goal_group b) st = (q, st1)"
    by (metis prod.exhaust)
  have ad: "alloc_dir_block (i, st) = (q, (i, st1))" using a b(1) by (simp add: alloc_dir_block_def onfs_def)
  note tb = take_block [OF ok(1) a] and wa = alloc_within [OF ok(2) a]
  show ?thesis
  proof (cases q)
    case (Inl e)
    then have "st1 = st" using block_alloc_fail [OF ok(2)] a by blast
    then have "(\<exists>e. r = Inl e) \<and> i' = i \<and> st' = st" using run ad Inl by (auto simp: new_dir_block_def bindE_def)
    then show ?thesis using iv by simp
  next
    case (Inr x)
    have t1: "took {x} st st1" using tb Inr by simp
    have xu: "x \<in> block_space st - block_used st" using t1 by (simp add: took_def)
    then have x: "x \<notin> block_used st" "x \<notin> set (bitmaps st)" "x \<notin> side st" using ok(1) by (auto simp: disk_ok_def)
    then have x0: "x \<noteq> 0" by (auto simp: side_def)
    let ?b1 = "cryexts_update_alloc_hint st1 x (b\<lparr>ii_direct := (ii_direct b)[n := x]\<rparr>)"
    let ?i1 = "i\<lparr>i_private := Some ?b1, i_size := i_size i + of_nat BLOCK_SIZE\<rparr>"
    obtain q2 i2 st2 where u: "update_sectors (?i1, st1) = (q2, (i2, st2))" by (metis prod.exhaust)
    note us = ticked_update_sectors [OF u]
    obtain m where i2: "i2 = ?i1\<lparr>i_blocks := m\<rparr>" using us(2) by blast
    have i2p: "i_private i2 = Some ?b1" "i_size i2 = i_size i + of_nat BLOCK_SIZE" "i_ino i2 = i_ino i" using i2 by simp_all
    obtain q3 st3 where g: "sb_getblk x st2 = (q3, st3)" by (metis prod.exhaust)
    have t3: "ticked st2 st3" "q3 = Inr x \<or> (\<exists>e. q3 = Inl e)"
      using g by (auto simp: sb_getblk_def bindE_def io_step_def retE_def split: if_splits)
    have t13: "ticked st1 st3" by (rule ticked_trans [OF us(1) t3(1)])
    have took3: "took {x} st st3" using t13 took_tick [OF t1] by (auto simp: ticked_def)
    have w3: "within (set (bitmaps st) \<union> side st) st st3"
      using within_trans [OF wa ticked_within [OF t13, of "{}"]] by simp
    have run2: "bindE (on_errE (onfs (sb_getblk x)) (\<lambda>_. undo_dir_block n x)) (\<lambda>_.
        bindE (onfs (modE (\<lambda>st. record_and_dirty (Some x) (set_bdata x free_entry_block st)))) (\<lambda>_. retE x)) (i2, st2) =
        (r, (i', st'))"
      using run ad Inr u us(3) b
      by (simp add: new_dir_block_def bindE_def oni_def set_direct_def upd_info_def cryexts_set_inode_alloc_hint_def retE_def)
    have nb: "ii_direct ?b1 = (ii_direct (info i))[n := x]" "ii_use_extents ?b1 = ii_use_extents (info i)"
      "ii_dir_index_block ?b1 = ii_dir_index_block (info i)" "ii_inode_flags ?b1 = ii_inode_flags (info i)"
      using b(2) by (simp_all add: hint_keeps)
    show ?thesis
    proof (cases "q3 = Inr x")
      case True
      let ?s = "set_bdata x free_entry_block st3"
      have r: "r = Inr x" "i' = i2" "st' = record_and_dirty (Some x) ?s"
        using run2 g True by (simp_all add: on_errE_def bindE_def onfs_def modE_def retE_def)
      have w4: "within {x} st3 ?s" by (rule within_set) (use x0 in simp_all)
      have "geo_view ?s = geo_view st" using within_geo [OF w4] within_geo [OF w3] by simp
      note wr = within_record(1) [OF ok(2) this, of "Some x"]
      have w: "within (insert x (set (bitmaps st) \<union> side st)) st st'"
        unfolding r(3) by (rule within_mono [OF within_trans [OF w3 within_trans [OF w4 wr]]]) blast
      have "within ({x} \<union> side st) st3 st'" using within_trans [OF w4 wr] r(3) by simp
      moreover have "set (bitmaps st3) \<inter> ({x} \<union> side st) = {}"
        using geo_basic(5) [OF within_geo [OF w3]] x alloc_okD(5) [OF ok(2)] by auto
      ultimately have "alloc_same st3 st'" by (rule within_same)
      then have tk: "took {x} st st'" by (rule took_same [OF took3])
      have bx: "bdata st' x = free_entry_block"
        using within_data [OF wr x0 x(3)] r(3) x0 by (simp add: bdata_def set_bdata_def)
      note nd = near_direct [OF s n(2) i2p(1) nb i2p(3)]
      have "dir_inv i2 st' (ess @ [[(0, free_entry, [])]])"
        by (rule near_dir_grown [OF iv _ _ i2p(2) _ _ _ _ x w bx])
          (use n nd tk in \<open>simp_all add: took_def\<close>)
      then show ?thesis using r nd(2) x tk within_like [OF w] by (auto simp: took_def)
    next
      case False
      then obtain e where e: "q3 = Inl e" using t3(2) by blast
      let ?b2 = "?b1\<lparr>ii_direct := (ii_direct ?b1)[n := 0]\<rparr>"
      let ?i3 = "i2\<lparr>i_private := Some ?b2, i_size := i_size i\<rparr>"
      obtain q4 i4 st4 where u4: "update_sectors (?i3, st3) = (q4, (i4, st4))" by (metis prod.exhaust)
      note us4 = ticked_update_sectors [OF u4]
      obtain m4 where i4: "i4 = ?i3\<lparr>i_blocks := m4\<rparr>" using us4(2) by blast
      have tk4: "took {x} st st4" using us4(1) took_tick [OF took3] by (auto simp: ticked_def)
      obtain c where c: "cryexts_free_block x st4 = (Inr (), c)" "took {} st c"
        using give_back [OF tk4 ok(1)] by auto
      have szs: "i_size i2 - of_nat BLOCK_SIZE = i_size i" using i2p(2) by simp
      have "undo_dir_block n x (i2, st3) = (i4, c)"
        using u4 us4(3) c(1) i2p(1) szs
        by (simp add: undo_dir_block_def ignoreE_def bindE_def oni_def set_direct_def upd_info_def onfs_def retE_def)
      then have r: "r = Inl e" "i' = i4" "st' = c"
        using run2 g e by (simp_all add: on_errE_def bindE_def onfs_def)
      have ok4: "alloc_ok st4" using tk4 by (simp add: took_def disk_ok_def)
      have w34: "within (set (bitmaps st) \<union> side st) st st4"
        using within_trans [OF w3 ticked_within [OF us4(1), of "{}"]] by simp
      have w: "within (set (bitmaps st) \<union> side st) st c"
        using within_trans [OF w34 free_block_within [OF ok4 c(1)]] geo_basic(5,8) [OF within_geo [OF w34]] by simp
      have i4p: "i_private i4 = Some ?b2" "i_ino i4 = i_ino i" "i_size i4 = i_size i" using i4 i2p by simp_all
      have nd: "near_dir n i i4"
        by (rule near_direct(1) [OF s n(2) i4p(1), of 0]) (use nb i4p in simp_all)
      have "dir_inv i4 c ess"
        by (rule near_dir_inv [OF iv nd [unfolded n(1)] i4p(3) _ _ _ w]) (use c(2) in \<open>auto simp: took_def\<close>)
      then show ?thesis using r c(2) within_like [OF w] by (auto simp: took_def)
    qed
  qed
qed

end
