(* ===== verification/DirClaims.thy ===== *)
theory DirClaims
  imports DirGrow
begin

text \<open>
  The operations on one directory against the map of its names: adding, removing, and any sequence
  of both, with the errors each of them may give.
\<close>

section \<open>Adding\<close>

definition same_names :: "dirent list list \<Rightarrow> dirent list list \<Rightarrow> bool" where
  "same_names ess ess' \<longleftrightarrow> map_of (names ess') = map_of (names ess)"

lemma index_sound_ticked:
  assumes so: "index_sound i st ess" and t: "ticked st st'"
  shows "index_sound i st' ess"
proof -
  have w: "within {} st st'" by (rule ticked_within [OF t])
  have "index_of st' = index_of st"
    by (simp add: fun_eq_iff index_of_def within_csum(1) [OF w] ticked_fields(1) [OF t])
  then show ?thesis
    using so within_feature [OF w] masks_sound_within [OF w] ticked_fields(1) [OF t] by (simp add: index_sound_def)
qed

lemma dir_inv_ticked:
  assumes iv: "dir_inv i st ess" and t: "ticked st st'"
  shows "dir_inv i st' ess" "block_used st' = block_used st"
proof -
  have b: "dir_base i st ess" and so: "index_sound i st ess" using iv by (simp_all add: dir_inv_base)
  show "dir_inv i st' ess"
    using dir_base_step [OF b dir_step_ticked [OF t]] index_sound_ticked [OF so t] by (simp add: dir_inv_base)
  show "block_used st' = block_used st"
    using dir_step_keeps(3) [OF _ _ dir_step_ticked [OF t]] b by (auto simp: dir_base_def)
qed

lemma write_none: "write_entry k block 0 name ino mode =
    bindE (onfs (take_slot block (Reuse 0))) (\<lambda>off. write_entry k block off name ino mode)"
  by (simp add: fun_eq_iff bindE_def onfs_def retE_def)

text \<open>Some block has room for the name.\<close>

definition roomy :: "dirent list list \<Rightarrow> bytes \<Rightarrow> bool" where
  "roomy ess name \<longleftrightarrow> (\<exists>k < length ess. \<exists>slot. slot_in (ess ! k) (dir_rec_len (length name)) slot)"

lemma add_inv:
  assumes iv: "dir_inv i st ess" and nm: "name \<noteq> []" and ino: "ino_ok st ino"
    and run: "cryexts_add_entry name ino mode (i, st) = (r, (i', st'))"
  shows "\<exists>ess'. dir_base i' st' ess' \<and> block_used st \<subseteq> block_used st' \<and> like st st' \<and>
    (case r of
       Inr _ \<Rightarrow> dir_inv i' st' ess' \<and> length name \<le> 255 \<and> name \<notin> fst ` set (names ess) \<and> map_added name ino ess ess'
     | Inl e \<Rightarrow> dir_inv i' st' ess' \<and> same_names ess ess' \<or>
         faulty st \<and> name \<notin> fst ` set (names ess) \<and> map_added name ino ess ess') \<and>
    (name \<in> fst ` set (names ess) \<longrightarrow> length name \<le> 255 \<longrightarrow> r = Inl EEXIST \<or> r = Inl EIO \<and> faulty st) \<and>
    (roomy ess name \<longrightarrow> name \<notin> fst ` set (names ess) \<longrightarrow> length name \<le> 255 \<longrightarrow> r = Inr () \<or> faulty st)"
    (is "\<exists>ess'. ?P ess'")
proof -
  have b: "dir_base i st ess" and v: "dir_view i st ess" using iv by (simp_all add: dir_inv_base dir_base_def)
  have same: "?P ess" if "i' = i" "ticked st st'" "r = Inl e"
    "name \<in> fst ` set (names ess) \<longrightarrow> length name \<le> 255 \<longrightarrow> r = Inl EEXIST \<or> r = Inl EIO \<and> faulty st"
    "roomy ess name \<longrightarrow> name \<notin> fst ` set (names ess) \<longrightarrow> length name \<le> 255 \<longrightarrow> faulty st" for e
    using that dir_inv_ticked [OF iv that(2)] within_like [OF ticked_within [OF that(2), of "{}"]]
    by (simp add: same_names_def dir_inv_base)
  obtain q j s where f: "cryexts_find_entry name (i, st) = (q, (j, s))" by (metis prod.exhaust)
  note fi = find_inv [OF iv f]
  show ?thesis
  proof (cases "255 < length name \<or> q \<noteq> Inl ENOENT")
    case True
    then have "i' = i \<and> ticked st st' \<and> (\<exists>e. r = Inl e) \<and> (length name \<le> 255 \<longrightarrow>
        r = Inl EEXIST \<and> name \<in> fst ` set (names ess) \<or> r = Inl EIO \<and> faulty st)"
      using run f fi names_entry [of _ ess _ _ name]
      by (auto simp: cryexts_add_entry_def Let_def const_simps split: if_splits) (metis fst_conv image_eqI)+
    then show ?thesis using same by blast
  next
    case False
    then have len: "length name \<le> 255" and q: "q = Inl ENOENT" by auto
    have new: "name \<notin> fst ` set (names ess)" using fi(3) q by auto
    have s: "j = i" "ticked st s" using fi(1,2) by blast+
    have iv1: "dir_inv i s ess" by (rule dir_inv_ticked(1) [OF iv s(2)])
    note keep = dir_inv_ticked(2) [OF iv s(2)] within_like [OF ticked_within [OF s(2), of "{}"]]
    have ino1: "ino_ok s ino" using ino within_max [OF ticked_within [OF s(2), of "{}"]] by (simp add: ino_ok_def)
    obtain room j2 s2 where rm: "room_in_blocks (dir_rec_len (length name)) [0..<length ess] (i, s) = (room, (j2, s2))"
      by (metis prod.exhaust)
    have "set [0..<length ess] \<subseteq> {..<length ess}" by auto
    note ro = room_view [OF _ this rm]
    have v1: "dir_view i s ess" using iv1 by (simp add: dir_inv_def)
    have s2: "j2 = i" "ticked s s2" "ticked st s2" using ro [OF v1] ticked_trans [OF s(2)] by blast+
    have iv2: "dir_inv i s2 ess" by (rule dir_inv_ticked(1) [OF iv1 s2(2)])
    note keep2 = dir_inv_ticked(2) [OF iv s2(3)] within_like [OF ticked_within [OF s2(3), of "{}"]]
    have ino2: "ino_ok s2 ino" using ino within_max [OF ticked_within [OF s2(3), of "{}"]] by (simp add: ino_ok_def)
    have run1: "bindE (room_in_blocks (dir_rec_len (length name)) [0..<length ess]) (\<lambda>room.
        case room of
          Some (k, block, slot) \<Rightarrow>
            bindE (onfs (take_slot block slot)) (\<lambda>off. write_entry k block off name ino mode)
        | None \<Rightarrow>
            if CRYEXTS_DIRECT_BLOCKS \<le> length ess then failE ENOSPC
            else bindE (new_dir_block (length ess)) (\<lambda>block. write_entry (length ess) block 0 name ino mode)) (i, s) =
        (r, (i', st'))"
    proof -
      have nl: "\<not> CRYEXTS_NAME_LEN < length name" using len by (simp add: const_simps)
      show ?thesis
        using run f q s(1) nl unfolding cryexts_add_entry_def Let_def dir_view_blocks(1) [OF v, symmetric] by simp
    qed
    consider (fail) "room = Inl EIO" | (none) "room = Inr None" "\<not> roomy ess name"
      | (slot) k slot where "k < length ess" "room = Inr (Some (k, dblock i k, slot))"
          "slot_in (ess ! k) (dir_rec_len (length name)) slot"
      using ro [OF v1] unfolding roomy_def set_upt by fastforce
    then show ?thesis
    proof cases
      case fail
      then have "i' = i \<and> st' = s2 \<and> r = Inl EIO" using run1 rm s2(1) by (simp add: bindE_def)
      moreover have "faulty st" using ro [OF v1] fail keep by (auto simp: like_def)
      ultimately show ?thesis using same [of EIO] s2(3) new by blast
    next
      case slot
      have "bindE (onfs (take_slot (dblock i k) slot)) (\<lambda>off. write_entry k (dblock i k) off name ino mode) (i, s2) =
          (r, (i', st'))" using run1 rm s2(1) slot(2) by (simp add: bindE_def)
      from add_existing [OF iv2 slot(1) nm len new ino2 slot(3) this] obtain ess' where
        e: "dir_base i' st' ess'" "map_added name ino ess ess'" "r = Inr () \<longrightarrow> dir_inv i' st' ess'"
          "\<forall>e. r = Inl e \<longrightarrow> faulty s2" "block_used st' = block_used s2" "like s2 st'" by blast
      then show ?thesis using new len keep2 by (intro exI [of _ ess']) (auto simp: like_def split: sum.split)
    next
      case none
      show ?thesis
      proof (cases "CRYEXTS_DIRECT_BLOCKS \<le> length ess")
        case True
        then have "i' = i \<and> st' = s2 \<and> r = Inl ENOSPC" using run1 rm s2(1) none(1) by (simp add: bindE_def failE_def)
        then show ?thesis using same [of ENOSPC] s2(3) new none(2) by blast
      next
        case False
        then have n: "length ess < CRYEXTS_DIRECT_BLOCKS" by simp
        obtain q3 j3 s3 where nb: "new_dir_block (length ess) (i, s2) = (q3, (j3, s3))" by (metis prod.exhaust)
        have run3: "bindE (new_dir_block (length ess)) (\<lambda>block. write_entry (length ess) block 0 name ino mode) (i, s2) =
            (r, (i', st'))" using run1 rm s2(1) none(1) False by (simp add: bindE_def)
        from new_block [OF iv2 refl n nb] show ?thesis
        proof (elim disjE conjE exE)
          fix e assume "q3 = Inl e" and k: "dir_inv j3 s3 ess" "block_used s3 = block_used s2" "like s2 s3"
          then have "i' = j3 \<and> st' = s3 \<and> r = Inl e" using run3 nb by (simp add: bindE_def)
          then show ?thesis using k keep2 new none(2) by (intro exI [of _ ess]) (auto simp: same_names_def dir_inv_base like_def)
        next
          let ?ess = "ess @ [[(0, free_entry, [])]]"
          assume q3: "q3 = Inr (dblock j3 (length ess))" and iv3: "dir_inv j3 s3 ?ess"
            and k: "block_used s3 = insert (dblock j3 (length ess)) (block_used s2)" "like s2 s3"
          have nn: "names ?ess = names ess" by (simp add: names_def free_entry_def)
          have "cryexts_max_inodes s3 = cryexts_max_inodes s2"
            using k(2) by (simp add: like_def geo_view_def cryexts_max_inodes_def cryexts_inodes_count_def)
          then have ino3: "ino_ok s3 ino" using ino2 by (simp add: ino_ok_def)
          have sl: "slot_in (?ess ! length ess) (dir_rec_len (length name)) (Reuse 0)"
            using dir_rec_len(4) [OF len] len by (simp add: free_entry_def rec_len_def BLOCK_SIZE_def)
          have run4: "bindE (onfs (take_slot (dblock j3 (length ess)) (Reuse 0)))
              (\<lambda>off. write_entry (length ess) (dblock j3 (length ess)) off name ino mode) (j3, s3) = (r, (i', st'))"
            unfolding write_none [symmetric] using run3 nb q3 by (simp add: bindE_def)
          have kl: "length ess < length ?ess" by simp
          from add_existing [OF iv3 kl nm len new [folded nn] ino3 sl run4] obtain ess' where
            e: "dir_base i' st' ess'" "map_added name ino ?ess ess'" "r = Inr () \<longrightarrow> dir_inv i' st' ess'"
              "\<forall>e. r = Inl e \<longrightarrow> faulty s3" "block_used st' = block_used s3" "like s3 st'" by blast
          then show ?thesis
            using new len keep2 k nn none(2)
            by (intro exI [of _ ess']) (auto simp: map_added_def like_def split: sum.split)
        qed
      qed
    qed
  qed
qed

text \<open>C8: adding a name.  Success means that the name was free and not too long, that the
  directory is in order again and that its map is the old one with the name more; a name that is
  there is refused with EEXIST; and when some block has room and the name is free only a failing
  device can prevent it.  After an error the directory is as before, except that a failing
  device may leave the name in it.\<close>

theorem add_entry_correct:
  assumes "dir_ok i st" and "name \<noteq> []" and "ino_ok st ino"
    and "cryexts_add_entry name ino mode (i, st) = (r, (i', st'))"
  shows "(r = Inr () \<longrightarrow> dir_map i st name = None \<and> length name \<le> 255 \<and> dir_ok i' st' \<and>
            dir_map i' st' = (dir_map i st)(name \<mapsto> ino)) \<and>
    (dir_map i st name \<noteq> None \<longrightarrow> length name \<le> 255 \<longrightarrow> r = Inl EEXIST \<or> r = Inl EIO \<and> faulty st) \<and>
    (roomy (dir_entries i st) name \<longrightarrow> dir_map i st name = None \<longrightarrow> length name \<le> 255 \<longrightarrow> r = Inr () \<or> faulty st) \<and>
    (r \<noteq> Inr () \<longrightarrow> dir_ok i' st' \<and> dir_map i' st' = dir_map i st \<or>
       faulty st \<and> dir_map i st name = None \<and> dir_map i' st' = (dir_map i st)(name \<mapsto> ino)) \<and>
    block_used st \<subseteq> block_used st'"
proof -
  obtain ess where e: "dir_inv i st ess" "dir_map i st = map_of (names ess)" using dir_okE [OF assms(1)] by blast
  obtain ess' where a: "dir_base i' st' ess'" "block_used st \<subseteq> block_used st'"
      "case r of
       Inr _ \<Rightarrow> dir_inv i' st' ess' \<and> length name \<le> 255 \<and> name \<notin> fst ` set (names ess) \<and> map_added name ino ess ess'
     | Inl e \<Rightarrow> dir_inv i' st' ess' \<and> same_names ess ess' \<or>
         faulty st \<and> name \<notin> fst ` set (names ess) \<and> map_added name ino ess ess'"
      "name \<in> fst ` set (names ess) \<longrightarrow> length name \<le> 255 \<longrightarrow> r = Inl EEXIST \<or> r = Inl EIO \<and> faulty st"
      "roomy ess name \<longrightarrow> name \<notin> fst ` set (names ess) \<longrightarrow> length name \<le> 255 \<longrightarrow> r = Inr () \<or> faulty st"
    using add_inv [OF e(1) assms(2,3,4)] by blast
  have en: "dir_entries i st = ess" using dir_entries_view e(1) by (simp add: dir_inv_def)
  have m: "dir_map i' st' = map_of (names ess')" using dir_map_view a(1) by (simp add: dir_base_def)
  have n: "dir_map i st name = None \<longleftrightarrow> name \<notin> fst ` set (names ess)" by (simp add: e(2) map_of_eq_None_iff)
  show ?thesis
    using a(2-5) n m e(2) dir_ok_inv [of i' st' ess'] en
    by (cases r) (auto simp: map_added_def same_names_def)
qed

section \<open>Removing\<close>

lemma names_remove:
  assumes k: "k < length ess" and l: "live (ess ! k) = A @ (name, ino) # B" "live es = A @ B"
    and d: "distinct (map fst (names ess))"
  shows "map_of (names (ess[k := es])) = (map_of (names ess))(name := None)"
    "distinct (map fst (names (ess[k := es])))" "set (names (ess[k := es])) \<subseteq> set (names ess)"
proof -
  obtain C D where c: "names ess = C @ live (ess ! k) @ D" "\<And>es. names (ess[k := es]) = C @ live es @ D"
    using names_update [OF k] by blast
  have e: "names ess = (C @ A) @ (name, ino) # (B @ D)" "names (ess[k := es]) = (C @ A) @ (B @ D)"
    using c l by simp_all
  show "map_of (names (ess[k := es])) = (map_of (names ess))(name := None)"
    unfolding e by (rule map_of_remove) (use d e(1) in simp)
  show "distinct (map fst (names (ess[k := es])))" "set (names (ess[k := es])) \<subseteq> set (names ess)"
    using d unfolding e by auto
qed

lemma logical_view:
  assumes v: "dir_view i st ess" and k: "k < length ess" and ks: "set ks \<subseteq> {..<length ess}" "k \<in> set ks"
  shows "logical_of (dblock i k) ks (i, st) = (Inr k, (i, st))"
  using ks
proof (induction ks)
  case (Cons j ks)
  have s: "dir_shape i" and j: "j < length ess" "j < 12" using v Cons.prems(1) by (auto simp: dir_view_def const_simps)
  have u: "unat (of_nat j :: u32) = j" using j by (simp add: unat_of_nat)
  have at: "cryexts_inode_block_at (of_nat j) (i, st) = (Inr (dblock i j), (i, st))"
    using dir_shapeD [OF s] j by (simp add: cryexts_inode_block_at_def u dblock_def const_simps)
  have "dblock i j = dblock i k \<longleftrightarrow> j = k"
    using inj_on_eq_iff [of "dblock i" "{..<length ess}" j k] v j k by (simp add: dir_view_def)
  then show ?case using Cons at by (auto simp: bindE_def retE_def)
qed simp

lemma cleared_valid:
  assumes "cryexts_validate_dirent st de off lim = Inr ()"
  shows "cryexts_validate_dirent st (clear_entry de) off lim = Inr ()"
  using assms unfolding validate_iff by (simp add: clear_entry_def rec_len_def)

lemma delete_existing:
  assumes iv: "dir_inv i st ess" and k: "k < length ess" and e: "(off, de, name) \<in> set (ess ! k)" "de_inode de \<noteq> 0"
    and run: "runE [onfs (modE (change_entry (dblock i k) off clear_entry)), touch_dir, cryexts_write_inode_to_disk,
      cryexts_dir_index_remove_name name (dblock i k) k] (i, st) = (r, (i', st'))"
  shows "\<exists>ess'. dir_base i' st' ess' \<and> map_of (names ess') = (map_of (names ess))(name := None) \<and>
    (r = Inr () \<longrightarrow> dir_inv i' st' ess') \<and> (\<forall>e. r = Inl e \<longrightarrow> faulty st) \<and>
    block_used st' = block_used st \<and> like st st'"
proof -
  have b: "dir_base i st ess" and so: "index_sound i st ess" using iv by (simp_all add: dir_inv_base)
  have v: "dir_view i st ess" and p: "dir_place i st (length ess)" and x: "index_place i st"
    and ds: "distinct (map fst (names ess))" and nm: "named ess" using b by (simp_all add: dir_base_def)
  note q = dir_placeD [OF p]
  let ?b = "dblock i k"
  let ?s = "change_entry ?b off clear_entry st"
  note ch = change_entry_effect [OF q(2) q(6) [OF k] q(8) [OF k], of off clear_entry]
  note en = view_entry [OF v k e(1)]
  have sg: "seg st (bdata st ?b) BLOCK_SIZE 0 BLOCK_SIZE (ess ! k)" and len: "length (bdata st ?b) = BLOCK_SIZE"
    using v k by (simp_all add: dir_view_def)
  obtain us vs where es: "ess ! k = us @ (off, de, name) # vs" using e(1) by (auto simp: in_set_conv_decomp)
  obtain c where parts: "seg st (bdata st ?b) BLOCK_SIZE 0 c us"
      "seg st (bdata st ?b) BLOCK_SIZE c BLOCK_SIZE ((off, de, name) # vs)"
    using sg es by (auto simp: seg_append)
  then have c: "c = off" by auto
  have mid: "seg st (bdata st ?b) BLOCK_SIZE off (off + rec_len de) [(off, de, name)]" using parts(2) c by auto
  have us: "seg st (bdata st ?b) BLOCK_SIZE 0 off us" using parts(1) c by simp
  have full: "seg st (bdata st ?b) BLOCK_SIZE 0 BLOCK_SIZE (us @ [(off, de, name)] @ vs)" using sg es by simp
  have small: "unat (de_name_len (clear_entry de)) = 0" "de_rec_len (clear_entry de) = de_rec_len de"
    by (simp_all add: clear_entry_def)
  note cs = change_seg [OF mid len order_refl, of clear_entry, OF small(2) cleared_valid [OF en(3)], unfolded small(1)]
  let ?es = "us @ [(off, clear_entry de, [])] @ vs"
  have bd: "bdata ?s ?b = put_dirent off (clear_entry de) (bdata st ?b)" using ch(2) en(2) by simp
  have seg1: "seg st (bdata ?s ?b) BLOCK_SIZE 0 BLOCK_SIZE ?es"
    unfolding bd using seg_replace [OF full mid us cs(1) cs(2,3)] by simp
  have l1: "length (bdata ?s ?b) = BLOCK_SIZE" unfolding bd using cs(4) by simp
  have seg2: "seg ?s (bdata ?s ?b) BLOCK_SIZE 0 BLOCK_SIZE ?es"
    by (rule seg_cong [OF seg1 _ within_max [OF ch(1)]]) (use l1 in \<open>simp add: agree_def\<close>)
  note pb = put_block [OF v p k ch(1) l1 seg2]
  have lv: "live (ess ! k) = live us @ (name, de_inode de) # live vs" "live ?es = live us @ live vs"
    using e(2) by (simp_all add: es clear_entry_def)
  note nr = names_remove [OF k lv ds]
  let ?ess = "ess[k := ?es]"
  have en2: "entry_named ?es"
    using nm nth_mem [OF k] es by (auto simp: named_all entry_named_def clear_entry_def)
  have b2: "dir_base i ?s ?ess"
    using pb(1,2) nr(2) named_update [OF nm en2] index_place_step [OF x same_dir_refl ch(1)]
    by (simp add: dir_base_def)
  have so2: "index_sound i ?s ?ess"
  proof (cases "cryexts_dir_index_feature_enabled st")
    case True
    then have nz: "idx i \<noteq> 0" using x by (simp add: index_place_def)
    have "masks_sound st ms ?ess" if m: "masks_sound st ms ess" for ms
      unfolding masks_sound_def
    proof (intro allI impI ballI, clarify)
      fix j n z assume j: "j < length ?ess" "(n, z) \<in> set (live (?ess ! j))"
      then have "(n, z) \<in> set (live (ess ! j))" using k lv by (cases "j = k") auto
      then show "masks_have st ms j n" using m j(1) by (auto simp: masks_sound_def)
    qed
    then show ?thesis
      using so index_of_within [OF ch(1) nz pb(4) [OF nz]] within_data [OF ch(1) nz pb(4) [OF nz]]
        masks_sound_within [OF ch(1)] within_feature [OF ch(1)] by (simp add: index_sound_def)
  qed (use within_feature [OF ch(1)] in \<open>simp add: index_sound_def\<close>)
  have k2: "k < length ?ess" using k by simp
  have "runE [touch_dir, cryexts_write_inode_to_disk, cryexts_dir_index_remove_name name ?b k] (i, ?s) = (r, (i', st'))"
    using run by (simp add: bindE_def onfs_def modE_def)
  note a = after_remove [OF b2 k2 so2 this]
  have "dir_base i' st' ?ess" by (rule dir_base_step [OF b2 a(1)])
  moreover have "block_used st' = block_used ?s"
    using dir_step_keeps(3) [OF _ _ a(1), of ?ess] b2 by (simp add: dir_base_def)
  moreover have "like st st'" by (rule like_trans [OF within_like [OF ch(1)] step_like [OF a(1)]])
  ultimately show ?thesis
    using a(2,3) nr(1) pb(3) within_faulty [OF ch(1)] by (intro exI [of _ ?ess]) (auto simp: dir_inv_base)
qed

lemma delete_inv:
  assumes iv: "dir_inv i st ess" and run: "cryexts_delete_entry name (i, st) = (r, (i', st'))"
  shows "name \<notin> fst ` set (names ess) \<and> (r = Inl ENOENT \<or> r = Inl EIO \<and> faulty st) \<and>
      dir_inv i' st' ess \<and> block_used st' = block_used st \<and> like st st' \<or>
    name \<in> fst ` set (names ess) \<and> r = Inl EIO \<and> faulty st \<and> dir_inv i' st' ess \<and> block_used st' = block_used st \<or>
    name \<in> fst ` set (names ess) \<and> (\<exists>ess'. dir_base i' st' ess' \<and>
      map_of (names ess') = (map_of (names ess))(name := None) \<and> (r = Inr () \<longrightarrow> dir_inv i' st' ess') \<and>
      (\<forall>e. r = Inl e \<longrightarrow> faulty st) \<and> block_used st' = block_used st \<and> like st st')"
proof -
  obtain q j s where f: "cryexts_find_entry name (i, st) = (q, (j, s))" by (metis prod.exhaust)
  note fi = find_inv [OF iv f]
  note kt = dir_inv_ticked [OF iv fi(2)] within_like [OF ticked_within [OF fi(2), of "{}"]] ticked_faulty [OF fi(2)]
  have bad: "r = Inl e \<and> i' = i \<and> st' = s" if "q = Inl e" for e
    using run f that fi(1) by (simp add: cryexts_delete_entry_def bindE_def)
  from fi(3) show ?thesis
  proof (elim disjE)
    assume "q = Inl EIO \<and> faulty st"
    then show ?thesis using bad [of EIO] kt by blast
  next
    assume "q = Inl ENOENT \<and> name \<notin> fst ` set (names ess)"
    then show ?thesis using bad [of ENOENT] kt by blast
  next
    assume "\<exists>k<length ess. \<exists>off de. q = Inr (dblock i k, off) \<and> (off, de, name) \<in> set (ess ! k) \<and> de_inode de \<noteq> 0"
    then obtain k off de where k: "k < length ess" "q = Inr (dblock i k, off)" "(off, de, name) \<in> set (ess ! k)"
        "de_inode de \<noteq> 0" by blast
    have v: "dir_view i s ess" using kt(1) by (simp add: dir_inv_def)
    have "cryexts_dir_logical_block_for_bh (dblock i k) (i, s) = (Inr k, (i, s))"
      using logical_view [OF v k(1), of "[0..<length ess]"] k(1)
      by (simp add: cryexts_dir_logical_block_for_bh_def dir_view_blocks(1) [OF v] atLeast0LessThan)
    then have "runE [onfs (modE (change_entry (dblock i k) off clear_entry)), touch_dir, cryexts_write_inode_to_disk,
        cryexts_dir_index_remove_name name (dblock i k) k] (i, s) = (r, (i', st'))"
      using run f k(2) fi(1) by (simp add: cryexts_delete_entry_def bindE_def)
    from delete_existing [OF kt(1) k(1,3,4) this] obtain ess' where d: "dir_base i' st' ess'"
        "map_of (names ess') = (map_of (names ess))(name := None)" "r = Inr () \<longrightarrow> dir_inv i' st' ess'"
        "\<forall>e. r = Inl e \<longrightarrow> faulty s" "block_used st' = block_used s" "like s st'" by blast
    have "name \<in> fst ` set (names ess)" using names_entry [OF k(1,3,4)] by force
    then show ?thesis using d kt(2,3,4)
      by (intro disjI2 conjI exI [of _ ess']) (auto simp: like_def)
  qed
qed

text \<open>C9: removing a name.  Success means that the name was in the directory, that the
  directory is in order again and that its map is the old one without the name; a name that is not
  there is refused with ENOENT.  On a working device the removal of a name that is there succeeds; after
  an error the directory is as before, except that a failing device may have removed the name.\<close>

theorem delete_entry_correct:
  assumes "dir_ok i st" and "cryexts_delete_entry name (i, st) = (r, (i', st'))"
  shows "(r = Inr () \<longrightarrow> dir_map i st name \<noteq> None \<and> dir_ok i' st' \<and> dir_map i' st' = (dir_map i st)(name := None)) \<and>
    (dir_map i st name = None \<longrightarrow> r = Inl ENOENT \<or> r = Inl EIO \<and> faulty st) \<and>
    (dir_map i st name \<noteq> None \<longrightarrow> r = Inr () \<or> faulty st) \<and>
    (r \<noteq> Inr () \<longrightarrow> dir_ok i' st' \<and> dir_map i' st' = dir_map i st \<or>
       faulty st \<and> dir_map i' st' = (dir_map i st)(name := None)) \<and>
    block_used st' = block_used st"
proof -
  obtain ess where e: "dir_inv i st ess" "dir_map i st = map_of (names ess)" using dir_okE [OF assms(1)] by blast
  have n: "dir_map i st name = None \<longleftrightarrow> name \<notin> fst ` set (names ess)" by (simp add: e(2) map_of_eq_None_iff)
  have same: "dir_ok i' st' \<and> dir_map i' st' = dir_map i st" if "dir_inv i' st' ess"
    using that e(2) dir_ok_inv dir_map_view by (auto simp: dir_inv_def)
  from delete_inv [OF e(1) assms(2)] show ?thesis
  proof (elim disjE conjE exE)
    fix ess' assume d: "name \<in> fst ` set (names ess)" "dir_base i' st' ess'"
      "map_of (names ess') = (map_of (names ess))(name := None)" "r = Inr () \<longrightarrow> dir_inv i' st' ess'"
      "\<forall>e. r = Inl e \<longrightarrow> faulty st" "block_used st' = block_used st"
    have "dir_map i' st' = map_of (names ess')" using dir_map_view d(2) by (simp add: dir_base_def)
    then show ?thesis using d n e(2) dir_ok_inv [of i' st' ess'] by (cases r) auto
  qed (use n same in auto)
qed

section \<open>Any sequence\<close>

datatype dir_op = AddName bytes u64 u16 | DelName bytes | FindName bytes

text \<open>One operation; the result of a lookup is the inode number in the entry.\<close>

fun dir_op_run :: "dir_op \<Rightarrow> u64 option iact" where
  "dir_op_run (AddName name ino mode) = bindE (cryexts_add_entry name ino mode) (\<lambda>_. retE None)"
| "dir_op_run (DelName name) = bindE (cryexts_delete_entry name) (\<lambda>_. retE None)"
| "dir_op_run (FindName name) = bindE (cryexts_find_entry name) (\<lambda>(bh, off).
     bindE (onfs (getE (\<lambda>st. de_inode (dirent_at (bdata st bh) off)))) (\<lambda>ino. retE (Some ino)))"

fun dir_run :: "dir_op list \<Rightarrow> inode \<times> fs \<Rightarrow> u64 option res list \<times> inode \<times> fs" where
  "dir_run [] s = ([], s)"
| "dir_run (op # ops) s =
     (case dir_op_run op s of (r, s) \<Rightarrow> (case dir_run ops s of (rs, s) \<Rightarrow> (r # rs, s)))"

text \<open>The map with the same operations: which results it allows, and what it is then.\<close>

fun map_op :: "dir_op \<Rightarrow> u64 option res \<Rightarrow> (bytes \<Rightarrow> u64 option) \<Rightarrow> (bytes \<Rightarrow> u64 option) option" where
  "map_op (AddName name ino mode) (Inr _) m =
     (if m name = None \<and> length name \<le> 255 then Some (m(name \<mapsto> ino)) else None)"
| "map_op (AddName name ino mode) (Inl e) m =
     (if m name \<noteq> None \<and> length name \<le> 255 \<and> e \<noteq> EEXIST then None else Some m)"
| "map_op (DelName name) (Inr _) m = (if m name \<noteq> None then Some (m(name := None)) else None)"
| "map_op (DelName name) (Inl e) m = (if m name = None \<and> e = ENOENT then Some m else None)"
| "map_op (FindName name) (Inr ino) m = (if m name = ino \<and> ino \<noteq> None then Some m else None)"
| "map_op (FindName name) (Inl e) m = (if m name = None \<and> e = ENOENT then Some m else None)"

fun map_run :: "dir_op list \<Rightarrow> u64 option res list \<Rightarrow> (bytes \<Rightarrow> u64 option) \<Rightarrow> (bytes \<Rightarrow> u64 option) option" where
  "map_run [] [] m = Some m"
| "map_run (op # ops) (r # rs) m = (case map_op op r m of None \<Rightarrow> None | Some m \<Rightarrow> map_run ops rs m)"
| "map_run _ _ m = None"

fun op_ok :: "fs \<Rightarrow> dir_op \<Rightarrow> bool" where
  "op_ok st (AddName name ino mode) \<longleftrightarrow> name \<noteq> [] \<and> ino_ok st ino"
| "op_ok st _ \<longleftrightarrow> True"

lemma dir_op_refines:
  assumes iv: "dir_inv i st ess" and nf: "\<not> faulty st" and ok: "op_ok st op"
    and run: "dir_op_run op (i, st) = (r, (i', st'))"
  shows "\<exists>ess'. dir_inv i' st' ess' \<and> like st st' \<and>
    map_op op r (map_of (names ess)) = Some (map_of (names ess'))"
proof (cases op)
  case (AddName name ino mode)
  obtain q j s where a: "cryexts_add_entry name ino mode (i, st) = (q, (j, s))" by (metis prod.exhaust)
  have q: "j = i'" "s = st'" "r = (case q of Inl e \<Rightarrow> Inl e | Inr _ \<Rightarrow> Inr None)"
    using run a AddName by (auto simp: bindE_def retE_def split: sum.splits)
  have n: "map_of (names ess) name = None \<longleftrightarrow> name \<notin> fst ` set (names ess)" by (simp add: map_of_eq_None_iff)
  obtain ess' where "like st st'"
      "case q of
       Inr _ \<Rightarrow> dir_inv i' st' ess' \<and> length name \<le> 255 \<and> name \<notin> fst ` set (names ess) \<and> map_added name ino ess ess'
     | Inl e \<Rightarrow> dir_inv i' st' ess' \<and> same_names ess ess' \<or>
         faulty st \<and> name \<notin> fst ` set (names ess) \<and> map_added name ino ess ess'"
      "name \<in> fst ` set (names ess) \<longrightarrow> length name \<le> 255 \<longrightarrow> q = Inl EEXIST \<or> q = Inl EIO \<and> faulty st"
    using add_inv [OF iv _ _ a [unfolded q(1,2)]] ok AddName by auto
  then show ?thesis
    using q(3) nf n AddName by (intro exI [of _ ess']) (cases q; auto simp: map_added_def same_names_def)
next
  case (DelName name)
  obtain q j s where a: "cryexts_delete_entry name (i, st) = (q, (j, s))" by (metis prod.exhaust)
  have q: "j = i'" "s = st'" "r = (case q of Inl e \<Rightarrow> Inl e | Inr _ \<Rightarrow> Inr None)"
    using run a DelName by (auto simp: bindE_def retE_def split: sum.splits)
  have n: "map_of (names ess) name = None \<longleftrightarrow> name \<notin> fst ` set (names ess)" by (simp add: map_of_eq_None_iff)
  from delete_inv [OF iv a [unfolded q(1,2)]] show ?thesis
  proof (elim disjE conjE exE)
    assume "name \<notin> fst ` set (names ess)" "dir_inv i' st' ess" "like st st'" "q = Inl ENOENT"
    then show ?thesis using q(3) n DelName by (intro exI [of _ ess]) simp
  next
    fix ess' assume d: "name \<in> fst ` set (names ess)" "map_of (names ess') = (map_of (names ess))(name := None)"
      "q = Inr () \<longrightarrow> dir_inv i' st' ess'" "\<forall>e. q = Inl e \<longrightarrow> faulty st" "like st st'"
    then have "q = Inr ()" using nf by (cases q) auto
    then show ?thesis using q(3) n DelName d by (intro exI [of _ ess']) simp
  qed (use nf in auto)
next
  case (FindName name)
  obtain q j s where a: "cryexts_find_entry name (i, st) = (q, (j, s))" by (metis prod.exhaust)
  note f = find_inv [OF iv a]
  note kt = dir_inv_ticked(1) [OF iv f(2)] within_like [OF ticked_within [OF f(2), of "{}"]]
  have v: "dir_view i s ess" using kt(1) by (simp add: dir_inv_def)
  have ds: "distinct (map fst (names ess))" using iv by (simp add: dir_inv_def)
  have st: "i' = i \<and> st' = s" using run a f(1) FindName
    by (auto simp: bindE_def retE_def onfs_def getE_def split: sum.splits prod.splits)
  from f(3) show ?thesis
  proof (elim disjE)
    assume "q = Inl ENOENT \<and> name \<notin> fst ` set (names ess)"
    then have "r = Inl ENOENT" "map_of (names ess) name = None"
      using run a FindName by (simp_all add: bindE_def map_of_eq_None_iff)
    then show ?thesis using kt st FindName by (intro exI [of _ ess]) simp
  next
    assume "\<exists>k<length ess. \<exists>off de. q = Inr (dblock i k, off) \<and> (off, de, name) \<in> set (ess ! k) \<and> de_inode de \<noteq> 0"
    then obtain k off de where k: "k < length ess" "q = Inr (dblock i k, off)" "(off, de, name) \<in> set (ess ! k)"
        "de_inode de \<noteq> 0" by blast
    have "r = Inr (Some (de_inode de))"
      using run a FindName k(2) view_entry(2) [OF v k(1,3)] f(1) by (auto simp: bindE_def retE_def onfs_def getE_def)
    moreover have "map_of (names ess) name = Some (de_inode de)" using names_entry [OF k(1,3,4)] ds by simp
    ultimately show ?thesis using kt st FindName by (intro exI [of _ ess]) simp
  qed (use nf in auto)
qed

text \<open>C2: a directory is a map.  On a working device any sequence of additions, removals and
  lookups, in a directory in order, gives results that the map of names allows, and leaves a directory in
  order whose map is the one that the same sequence makes of the map.\<close>

theorem dir_refines_map:
  assumes "dir_ok i st" and "\<not> faulty st" and "list_all (op_ok st) ops"
    and "dir_run ops (i, st) = (rs, (i', st'))"
  shows "dir_ok i' st' \<and> map_run ops rs (dir_map i st) = Some (dir_map i' st')"
proof -
  have "\<exists>ess'. dir_inv i' st' ess' \<and> map_run ops rs (map_of (names ess)) = Some (map_of (names ess'))"
    if "dir_inv i st ess" "\<not> faulty st" "list_all (op_ok st) ops" "dir_run ops (i, st) = (rs, (i', st'))"
    for ess i st ops rs
    using that
  proof (induction ops arbitrary: i st ess rs)
    case Nil
    then show ?case by auto
  next
    case (Cons op ops)
    obtain r j s where o: "dir_op_run op (i, st) = (r, (j, s))" by (metis prod.exhaust)
    obtain qs where rest: "dir_run ops (j, s) = (qs, (i', st'))" "rs = r # qs"
      using Cons.prems(4) o by (auto split: prod.splits)
    obtain ess1 where e: "dir_inv j s ess1" "like st s"
        "map_op op r (map_of (names ess)) = Some (map_of (names ess1))"
      using dir_op_refines [OF Cons.prems(1,2) _ o] Cons.prems(3) by auto
    have "cryexts_max_inodes s = cryexts_max_inodes st"
      using e(2) by (simp add: like_def geo_view_def cryexts_max_inodes_def cryexts_inodes_count_def)
    then have "op_ok s x = op_ok st x" for x by (cases x) (simp_all add: ino_ok_def)
    then have "list_all (op_ok s) ops" using Cons.prems(3) by (simp add: list_all_iff)
    from Cons.IH [OF e(1) _ this rest(1)] show ?case using e(2,3) rest(2) Cons.prems(2) by (simp add: like_def)
  qed
  then show ?thesis
    using dir_okE [OF assms(1)] assms(2-4) dir_ok_inv dir_map_view by (metis dir_inv_def)
qed

end
