(* ===== verification/FileTruncate.thy ===== *)
theory FileTruncate
  imports FileBlocks InodeDisk "HOL-Library.Multiset"
begin

text \<open>
  Freeing the blocks of a file with extents from a logical block on: on a file that satisfies
  \<open>file_ok\<close> it succeeds, restricts the block map to the blocks before, and frees what the file
  does not own any more and nothing else.
\<close>

section \<open>Freeing a list of blocks\<close>

definition gave :: "u64 set \<Rightarrow> fs \<Rightarrow> fs \<Rightarrow> bool" where
  "gave X a b \<longleftrightarrow> disk_ok b \<and> geo_view b = geo_view a \<and> block_space b = block_space a \<and>
     X \<subseteq> block_used a \<and> block_used b = block_used a - X"

definition freeable :: "fs \<Rightarrow> u64 set \<Rightarrow> bool" where
  "freeable st X \<longleftrightarrow> disk_ok st \<and> X \<subseteq> block_used st \<and> (\<forall>x \<in> X. x \<notin> set (bitmaps st) \<and> x \<notin> side st)"

lemma gave_refl: "disk_ok a \<Longrightarrow> gave {} a a"
  by (simp add: gave_def)

lemma gave_trans: "gave X a b \<Longrightarrow> gave Y b c \<Longrightarrow> gave (X \<union> Y) a c"
  by (auto simp: gave_def)

lemma freeable_gave:
  assumes "freeable a (X \<union> Y)" "gave X a b" "X \<inter> Y = {}"
  shows "freeable b Y"
proof -
  have g: "geo_view b = geo_view a" using assms(2) by (simp add: gave_def)
  show ?thesis using assms geo_basic(5,8) [OF g] by (auto simp: freeable_def gave_def)
qed

lemma freeable_sub: "freeable a X \<Longrightarrow> Y \<subseteq> X \<Longrightarrow> freeable a Y"
  by (auto simp: freeable_def)

lemma free_one:
  assumes "freeable a {x}"
  shows "\<exists>c. cryexts_free_block x a = (Inr (), c) \<and> gave {x} a c"
proof -
  have ok: "alloc_ok a" and u: "x \<in> block_used a" using assms by (auto simp: freeable_def disk_ok_def)
  obtain bh k c where f: "cryexts_free_block x a = (Inr (), c)" "bit_flipped False bh k a c"
    using block_free_flipped [OF ok u] by blast
  note s = block_free_ok [OF ok f(1)]
  have g: "geo_view c = geo_view a" using flipped_geo [OF f(2)] .
  have "gave {x} a c"
    using s u assms geo_basic(5,8) [OF g] g by (auto simp: gave_def disk_ok_def freeable_def)
  with f show ?thesis by blast
qed

lemma free_list:
  "distinct xs \<Longrightarrow> freeable a (set xs) \<Longrightarrow>
   \<exists>c. eachE cryexts_free_block xs a = (Inr (), c) \<and> gave (set xs) a c"
proof (induction xs arbitrary: a)
  case Nil
  then show ?case using gave_refl by (simp add: retE_def freeable_def)
next
  case (Cons x xs)
  obtain m where m: "cryexts_free_block x a = (Inr (), m)" "gave {x} a m"
    using free_one freeable_sub [OF Cons.prems(2), of "{x}"] by auto
  have "freeable m (set xs)"
    using freeable_gave [of a "{x}" "set xs" m] Cons.prems m(2) by simp
  then obtain c where c: "eachE cryexts_free_block xs m = (Inr (), c)" "gave (set xs) m c"
    using Cons by auto
  then show ?case using m gave_trans [OF m(2) c(2)] by (simp add: bindE_def)
qed

lemma free_run_list: "free_run p js = eachE cryexts_free_block (map (\<lambda>j. p + of_nat j) js)"
proof -
  have "eachE (\<lambda>j. f (g j)) ks = eachE f (map g ks)" for f :: "u64 \<Rightarrow> (fs, unit) act" and g and ks :: "nat list"
    by (induction ks) simp_all
  then show ?thesis by (simp add: free_run_def)
qed

section \<open>One extent\<close>

definition trim :: "u64 \<Rightarrow> cryexts_extent \<Rightarrow> cryexts_extent list" where
  "trim keep e =
     (if unat (e_logical_start e) + unat (e_length e) \<le> unat keep then [e]
      else if keep \<le> e_logical_start e then []
      else [e\<lparr>e_length := ucast (keep - e_logical_start e)\<rparr>])"

definition dropped :: "u64 \<Rightarrow> cryexts_extent \<Rightarrow> u64 list" where
  "dropped keep e = drop (unat keep - unat (e_logical_start e)) (run_list e)"

lemma short_length:
  assumes "\<not> unat (e_logical_start e) + unat (e_length e) \<le> unat keep" "\<not> keep \<le> e_logical_start e"
  shows "unat (ucast (keep - e_logical_start e) :: u32) = unat keep - unat (e_logical_start e)"
    "unat keep - unat (e_logical_start e) < unat (e_length e)"
proof -
  have "unat (keep - e_logical_start e) = unat keep - unat (e_logical_start e)"
    using assms(2) by (simp add: unat_sub not_le order_less_imp_le)
  moreover show l: "unat keep - unat (e_logical_start e) < unat (e_length e)"
    using assms by (simp add: word_le_nat_alt)
  moreover have "unat (e_length e) < 2 ^ 32" using unsigned_less [of "e_length e", where 'a = nat] by simp
  ultimately show "unat (ucast (keep - e_logical_start e) :: u32) = unat keep - unat (e_logical_start e)"
    by (simp add: unsigned_ucast_eq take_bit_nat_eq_self)
qed

lemma length_run_list [simp]: "length (run_list e) = unat (e_length e)"
  by (simp add: run_list_def)

lemma run_list_cut:
  "concat (map run_list (trim keep e)) = take (unat keep - unat (e_logical_start e)) (run_list e)"
proof -
  consider "unat (e_logical_start e) + unat (e_length e) \<le> unat keep" |
    "\<not> unat (e_logical_start e) + unat (e_length e) \<le> unat keep" "keep \<le> e_logical_start e" |
    "\<not> unat (e_logical_start e) + unat (e_length e) \<le> unat keep" "\<not> keep \<le> e_logical_start e" by blast
  then show ?thesis
  proof cases
    case 3
    note s = short_length [OF 3]
    have "run_list (e\<lparr>e_length := ucast (keep - e_logical_start e)\<rparr>) =
        take (unat keep - unat (e_logical_start e)) (run_list e)"
      using s by (simp add: run_list_def take_map)
    then show ?thesis using 3 by (simp add: trim_def)
  qed (simp_all add: trim_def word_le_nat_alt)
qed

lemma run_list_split: "concat (map run_list (trim keep e)) @ dropped keep e = run_list e"
  by (simp add: run_list_cut dropped_def)

lemma cut_covers:
  assumes "extent_fits e"
  shows "xmap (trim keep e) l = (if l < keep then xmap [e] l else None)"
proof -
  consider "unat (e_logical_start e) + unat (e_length e) \<le> unat keep" |
    "\<not> unat (e_logical_start e) + unat (e_length e) \<le> unat keep" "keep \<le> e_logical_start e" |
    "\<not> unat (e_logical_start e) + unat (e_length e) \<le> unat keep" "\<not> keep \<le> e_logical_start e" by blast
  then show ?thesis
  proof cases
    case 3
    note s = short_length [OF 3]
    let ?e = "e\<lparr>e_length := ucast (keep - e_logical_start e)\<rparr>"
    have "extent_fits ?e" using s assms by (simp add: extent_fits_def)
    then have "extent_covers l ?e \<longleftrightarrow> extent_covers l e \<and> l < keep"
      using extent_covers_nat [of ?e l] extent_covers_nat [OF assms, of l] s 3
      by (auto simp: word_less_nat_alt word_le_nat_alt)
    then show ?thesis using 3 by (simp add: trim_def xmap_Cons extent_block_def)
  qed (use extent_covers_nat [OF assms, of l] in
    \<open>auto simp: trim_def xmap_Cons word_le_nat_alt word_less_nat_alt\<close>)
qed

lemma cut_piece:
  assumes "c \<in> set (trim keep e)" "extent_fits e" "e_length e \<noteq> 0"
  shows "e_logical_start c = e_logical_start e" "unat (e_length c) \<le> unat (e_length e)" "extent_fits c"
    "e_length c \<noteq> 0"
proof -
  consider "c = e" | "\<not> unat (e_logical_start e) + unat (e_length e) \<le> unat keep" "\<not> keep \<le> e_logical_start e"
      "c = e\<lparr>e_length := ucast (keep - e_logical_start e)\<rparr>"
    using assms(1) by (auto simp: trim_def split: if_splits)
  then have "e_logical_start c = e_logical_start e \<and> unat (e_length c) \<le> unat (e_length e) \<and> extent_fits c \<and>
    e_length c \<noteq> 0"
  proof cases
    case 2
    note s = short_length [OF 2(1,2)]
    have "unat (e_length c) \<noteq> 0" using s 2 by (simp add: word_le_nat_alt)
    then have "e_length c \<noteq> 0" by auto
    then show ?thesis using s 2 assms(2) by (simp add: extent_fits_def)
  qed (use assms in auto)
  then show "e_logical_start c = e_logical_start e" "unat (e_length c) \<le> unat (e_length e)" "extent_fits c"
    "e_length c \<noteq> 0" by simp_all
qed

section \<open>The list of extents\<close>

abbreviation trims :: "u64 \<Rightarrow> cryexts_extent list \<Rightarrow> cryexts_extent list" where
  "trims keep es \<equiv> concat (map (trim keep) es)"

abbreviation drops :: "u64 \<Rightarrow> cryexts_extent list \<Rightarrow> u64 list" where
  "drops keep es \<equiv> concat (map (dropped keep) es)"

lemma free_extents_step:
  assumes fits: "extent_fits e"
  shows "free_extents keep (e # es) st =
    (case eachE cryexts_free_block (dropped keep e) st of
       (Inl err, st') \<Rightarrow> ((Inl err, e # es), st')
     | (Inr _, st') \<Rightarrow> keep_before (trim keep e) (free_extents keep es st'))"
proof -
  have n: "unat (e_logical_start e + ucast (e_length e)) = unat (e_logical_start e) + unat (e_length e)"
    using fits by (simp add: extent_fits_def unat_plus_if' unat_ucast32)
  have run: "map (\<lambda>j. e_physical_start e + of_nat j) [k..<unat (e_length e)] = drop k (run_list e)" for k
    by (simp add: run_list_def drop_map)
  have kb: "keep_before [] r = r" for r by (cases r) (auto simp: keep_before_def)
  consider "unat (e_logical_start e) + unat (e_length e) \<le> unat keep" |
    "\<not> unat (e_logical_start e) + unat (e_length e) \<le> unat keep" "keep \<le> e_logical_start e" |
    "\<not> unat (e_logical_start e) + unat (e_length e) \<le> unat keep" "\<not> keep \<le> e_logical_start e" by blast
  then show ?thesis
  proof cases
    case 1
    then show ?thesis using n by (simp add: trim_def dropped_def word_le_nat_alt retE_def Let_def)
  next
    case 2
    then have z: "unat keep - unat (e_logical_start e) = 0" by (simp add: word_le_nat_alt)
    show ?thesis
      using 2 n by (simp add: trim_def dropped_def z word_le_nat_alt Let_def free_run_list run kb
          split: prod.split sum.split)
  next
    case 3
    note s = short_length [OF 3]
    have nk: "\<not> e_logical_start e + ucast (e_length e) \<le> keep" using 3 n by (simp add: word_le_nat_alt)
    show ?thesis
      using 3 nk by (simp add: trim_def dropped_def Let_def free_run_list run s(1)
          split: prod.split sum.split)
  qed
qed

lemma free_extents_ok:
  assumes "\<forall>e \<in> set es. extent_fits e" "distinct (drops keep es)" "freeable st (set (drops keep es))"
  shows "\<exists>st'. free_extents keep es st = ((Inr (), trims keep es), st') \<and> gave (set (drops keep es)) st st'"
  using assms
proof (induction es arbitrary: st)
  case Nil
  then show ?case using gave_refl by (simp add: freeable_def)
next
  case (Cons e es)
  let ?d = "dropped keep e" and ?ds = "drops keep es"
  have dist: "distinct ?d" "distinct ?ds" "set ?d \<inter> set ?ds = {}" using Cons.prems(2) by simp_all
  have fr: "freeable st (set ?d \<union> set ?ds)" using Cons.prems(3) by simp
  obtain m where m: "eachE cryexts_free_block ?d st = (Inr (), m)" "gave (set ?d) st m"
    using free_list [OF dist(1) freeable_sub [OF fr]] by blast
  obtain c where c: "free_extents keep es m = ((Inr (), trims keep es), c)" "gave (set ?ds) m c"
    using Cons.IH [OF _ dist(2) freeable_gave [OF fr m(2) dist(3)]] Cons.prems(1) by auto
  have "free_extents keep (e # es) st = ((Inr (), trims keep (e # es)), c)"
    using Cons.prems(1) m(1) c(1) free_extents_step [of e keep es st] by (simp add: keep_before_def del: free_extents.simps)
  moreover have "gave (set (drops keep (e # es))) st c" using gave_trans [OF m(2) c(2)] by simp
  ultimately show ?case by blast
qed

lemma xmap_cuts:
  assumes "\<forall>e \<in> set es. extent_fits e"
  shows "xmap (trims keep es) l = (if l < keep then xmap es l else None)"
  using assms
proof (induction es)
  case (Cons e es)
  have "xmap (e # es) l = (case xmap [e] l of None \<Rightarrow> xmap es l | Some p \<Rightarrow> Some p)"
    using xmap_append [of "[e]" es l] by simp
  then show ?case using Cons cut_covers [of e keep l] by (simp add: xmap_append split: option.split)
qed simp

text \<open>What is kept and what is freed are together what there was.\<close>

lemma mset_add2: "A + D = R \<Longrightarrow> A' + D' = R' \<Longrightarrow> (A + A') + (D + D') = R + (R' :: 'a multiset)"
  by (auto simp: ac_simps)

lemma mset_trims:
  "mset (concat (map run_list (trims keep es))) + mset (drops keep es) = mset (concat (map run_list es))"
proof (induction es)
  case (Cons e es)
  have "mset (concat (map run_list (trim keep e))) + mset (dropped keep e) = mset (run_list e)"
    by (simp only: mset_append [symmetric] run_list_split)
  from mset_add2 [OF this Cons] show ?case
    unfolding list.map concat.simps map_append concat_append mset_append .
qed simp

lemma mset_parts:
  assumes "mset xs + mset ys = mset zs" "distinct zs"
  shows "distinct xs" "distinct ys" "set xs \<inter> set ys = {}" "set zs = set xs \<union> set ys"
proof -
  have m: "mset (xs @ ys) = mset zs" using assms(1) by simp
  then have "distinct (xs @ ys)" using assms(2) mset_eq_imp_distinct_iff by blast
  then show "distinct xs" "distinct ys" "set xs \<inter> set ys = {}" by simp_all
  show "set zs = set xs \<union> set ys" using mset_eq_setD [OF m] by simp
qed

lemma cuts_pieces:
  assumes "\<forall>e \<in> set es. extent_fits e \<and> e_length e \<noteq> 0"
  shows "\<forall>c \<in> set (trims keep es). extent_fits c \<and> e_length c \<noteq> 0"
  using assms cut_piece by fastforce

lemma cuts_sorted:
  assumes "extents_sorted es"
  shows "extents_sorted (trims keep es)"
proof -
  let ?R = "\<lambda>d e. unat (e_logical_start d) + unat (e_length d) \<le> unat (e_logical_start e)"
  have ok: "\<forall>e \<in> set es. extent_fits e \<and> e_length e \<noteq> 0" and s: "sorted_wrt ?R es"
    using assms by (simp_all add: extents_sorted_def)
  have "sorted_wrt ?R (trims keep es)" using s ok
  proof (induction es)
    case (Cons e es)
    have "?R c d" if c: "c \<in> set (trim keep e)" and d: "d \<in> set (trims keep es)" for c d
    proof -
      obtain f where f: "f \<in> set es" "d \<in> set (trim keep f)" using d by auto
      have "?R e f" using Cons.prems(1) f(1) by simp
      then show ?thesis using cut_piece [OF c] cut_piece [OF f(2)] Cons.prems(2) f(1) by simp
    qed
    moreover have "sorted_wrt ?R (trim keep e)" by (auto simp: trim_def)
    ultimately show ?case using Cons by (simp add: sorted_wrt_append)
  qed simp
  then show ?thesis using cuts_pieces [OF ok] by (simp add: extents_sorted_def)
qed

lemma cuts_zero: "\<forall>e \<in> set es. e_length e \<noteq> 0 \<Longrightarrow> trims 0 es = []"
  by (induction es) (auto simp: trim_def word_unat_eq_iff)

section \<open>Leaves\<close>

definition trim_leaves :: "u64 \<Rightarrow> cryexts_extent_leaf_cache list \<Rightarrow> cryexts_extent_leaf_cache list" where
  "trim_leaves keep leaves = filter (\<lambda>l. lf_extents l \<noteq> [])
     (map (\<lambda>l. l\<lparr>lf_extents := trims keep (lf_extents l)\<rparr>) leaves)"

fun leaf_drops :: "u64 \<Rightarrow> cryexts_extent_leaf_cache list \<Rightarrow> u64 list" where
  "leaf_drops keep [] = []"
| "leaf_drops keep (l # ls) = drops keep (lf_extents l) @
     (if trims keep (lf_extents l) = [] then [lf_block l] else []) @ leaf_drops keep ls"

lemma freeable_nonzero: "freeable st X \<Longrightarrow> x \<in> X \<Longrightarrow> x \<noteq> 0"
  by (auto simp: freeable_def side_def)

lemma free_leaves_ok:
  assumes "\<forall>e \<in> set (leaf_extents ls). extent_fits e" "distinct (leaf_drops keep ls)"
    "freeable st (set (leaf_drops keep ls))"
  shows "\<exists>st'. free_leaves (free_extents keep) ls st = ((Inr (), trim_leaves keep ls), st') \<and>
    gave (set (leaf_drops keep ls)) st st'"
  using assms
proof (induction ls arbitrary: st)
  case Nil
  then show ?case using gave_refl by (simp add: freeable_def trim_leaves_def)
next
  case (Cons l ls)
  let ?es = "lf_extents l" and ?D = "set (leaf_drops keep ls)"
  let ?l = "l\<lparr>lf_extents := trims keep ?es\<rparr>"
  define Z where "Z \<longleftrightarrow> trims keep ?es = []"
  note z = Z_def [symmetric]
  let ?B = "if Z then {lf_block l} else {}"
  have dist: "distinct (drops keep ?es)" "distinct (leaf_drops keep ls)"
      "set (drops keep ?es) \<inter> (?B \<union> ?D) = {}" "?B \<inter> ?D = {}"
    using Cons.prems(2) unfolding leaf_drops.simps distinct_append set_append z by (cases Z; auto)+
  have all: "set (leaf_drops keep (l # ls)) = set (drops keep ?es) \<union> (?B \<union> ?D)"
    unfolding leaf_drops.simps set_append z by simp
  have fr: "freeable st (set (drops keep ?es) \<union> (?B \<union> ?D))"
    using Cons.prems(3) unfolding all .
  have fits: "\<forall>e \<in> set ?es. extent_fits e" "\<forall>e \<in> set (leaf_extents ls). extent_fits e"
    using Cons.prems(1) by auto
  obtain m where m: "free_extents keep ?es st = ((Inr (), trims keep ?es), m)" "gave (set (drops keep ?es)) st m"
    using free_extents_ok [OF fits(1) dist(1) freeable_sub [OF fr]] by blast
  have fm: "freeable m (?B \<union> ?D)" by (rule freeable_gave [OF fr m(2) dist(3)])
  obtain n where n: "gave ?B m n" "\<not> Z \<longrightarrow> n = m" "Z \<longrightarrow> cryexts_free_block (lf_block l) m = (Inr (), n)"
  proof (cases Z)
    case True
    then show ?thesis using free_one [OF freeable_sub [OF fm], of "lf_block l"] that by auto
  next
    case False
    have "disk_ok m" using fm by (simp add: freeable_def)
    with False show ?thesis by (intro that [of m]) (simp_all add: gave_refl)
  qed
  obtain c where c: "free_leaves (free_extents keep) ls n = ((Inr (), trim_leaves keep ls), c)" "gave ?D n c"
    using Cons.IH [OF fits(2) dist(2) freeable_gave [OF fm n(1) dist(4)]] by blast
  have nz: "lf_block l \<noteq> 0" if Z using freeable_nonzero [OF fm, of "lf_block l"] that by simp
  have tl: "trim_leaves keep (l # ls) =
      (if Z then trim_leaves keep ls else l\<lparr>lf_extents := trims keep ?es\<rparr> # trim_leaves keep ls)"
    by (simp add: trim_leaves_def Z_def)
  have "free_leaves (free_extents keep) (l # ls) st = ((Inr (), trim_leaves keep (l # ls)), c)"
    unfolding tl using m(1) n(2,3) c(1) nz by (cases Z) (simp_all add: Let_def z del: concat_eq_Nil_conv)
  moreover have "gave (set (leaf_drops keep (l # ls))) st c"
    unfolding all by (rule gave_trans [OF m(2) gave_trans [OF n(1) c(2)]])
  ultimately show ?case by blast
qed

section \<open>The file\<close>

lemma leaf_extents_trim: "leaf_extents (trim_leaves keep ls) = trims keep (leaf_extents ls)"
  by (induction ls) (auto simp: trim_leaves_def)

lemma mset_leaves:
  "mset (concat (map run_list (leaf_extents (trim_leaves keep ls))) @ map lf_block (trim_leaves keep ls)) +
   mset (leaf_drops keep ls) = mset (concat (map run_list (leaf_extents ls)) @ map lf_block ls)"
proof (induction ls)
  case (Cons l ls)
  let ?T = "trims keep (lf_extents l)"
  have t: "map lf_block (trim_leaves keep (l # ls)) =
      (if ?T = [] then [] else [lf_block l]) @ map lf_block (trim_leaves keep ls)"
    by (simp add: trim_leaves_def)
  have m: "mset (concat (map run_list ?T)) + mset (drops keep (lf_extents l)) =
      mset (concat (map run_list (lf_extents l)))" by (rule mset_trims)
  have z: "mset (if ?T = [] then [] else [lf_block l]) + mset (if ?T = [] then [lf_block l] else []) = {#lf_block l#}"
    by simp
  have split: "((A + A') + (B + B')) + (D + (C + D')) = (R + R') + (M + M')"
    if "A + D = R" "B + C = M" "(A' + B') + D' = R' + M'" for A A' B B' C D D' R R' M M' :: "u64 multiset"
    using that by (auto simp: ac_simps)
  have l: "mset (map lf_block (l # ls)) = {#lf_block l#} + mset (map lf_block ls)" by simp
  show ?case
    using split [OF m z Cons [unfolded mset_append]]
    unfolding mset_append t l leaf_drops.simps leaf_extents_trim leaf_extents_simps map_append concat_append
    by (simp only: leaf_extents_trim)
qed (simp add: trim_leaves_def)

text \<open>What is left of a file, given the list of its blocks that were freed.\<close>

lemma truncated_ok:
  assumes f: "file_ok b st" and kind: "same_kind b b'" and ext: "extent_list b' = trims keep (extent_list b)"
    and parts: "mset (owned_list b') + mset ds = mset (owned_list b)" and g: "gave (set ds) st st'"
  shows "file_ok b' st'" "find_extent b' = (\<lambda>l. if l < keep then find_extent b l else None)"
    "owned b' \<subseteq> owned b" "set ds = owned b - owned b'"
proof -
  note d = file_okD [OF f]
  note p = mset_parts [OF parts d(5)]
  have own: "owned b = owned b' \<union> set ds" "owned b' \<inter> set ds = {}"
    using p(3,4) by (simp_all add: set_owned_list)
  then show "owned b' \<subseteq> owned b" "set ds = owned b - owned b'" by auto
  show "find_extent b' = (\<lambda>l. if l < keep then find_extent b l else None)"
    using xmap_cuts [OF d(3)] by (simp add: fun_eq_iff find_extent_xmap ext)
  have geo: "geo_view st' = geo_view st" using g by (simp add: gave_def)
  have len: "\<forall>e \<in> set (extent_list b'). extent_fits e \<and> e_length e \<noteq> 0"
    unfolding ext by (rule cuts_pieces) (use d(3,9) in blast)
  have "owned b' \<subseteq> block_used st'" using own d(4) g by (auto simp: gave_def)
  moreover have "ii_use_extents b'" using kind d(2) by (simp add: same_kind_def)
  moreover have "extents_sorted (extent_list b')" if "cryexts_extent_tree_v2_inode b'"
    unfolding ext by (rule cuts_sorted, rule d(8)) (use that same_kind_v2 [OF kind] in simp)
  moreover have "disk_ok st'" using g by (simp add: gave_def)
  moreover have "\<forall>x \<in> owned b'. x \<notin> set (bitmaps st') \<and> x \<notin> side st'"
    using d(6,7) own geo_basic(5,8) [OF geo] by auto
  ultimately show "file_ok b' st'" using len p(1) by (simp add: file_ok_def)
qed

lemma freeable_owned: "file_ok b st \<Longrightarrow> freeable st (owned b)"
  using file_okD [of b st] by (auto simp: freeable_def)

lemma free_tree:
  assumes f: "file_ok b st" and i: "i_private i = Some b" and v2: "cryexts_extent_tree_v2_inode b"
  shows "\<exists>b' ds st'. cryexts_free_blocks_from keep (i, st) = (Inr (), (i\<lparr>i_private := Some b'\<rparr>, st')) \<and>
    same_kind b b' \<and> extent_list b' = trims keep (extent_list b) \<and>
    mset (owned_list b') + mset ds = mset (owned_list b) \<and> gave (set ds) st st' \<and>
    (extent_list b' = [] \<longrightarrow> meta_list b' = [])"
proof -
  let ?ls = "ii_extent_leaves b" and ?ds = "leaf_drops keep (ii_extent_leaves b)"
  let ?b = "b\<lparr>ii_extent_leaves := trim_leaves keep ?ls\<rparr>"
  note d = file_okD [OF f]
  have ext: "extent_list b = leaf_extents ?ls" using v2 by (simp add: extent_entry_nth(3))
  have v2': "cryexts_extent_tree_v2_inode ?b" using v2 by (simp add: cryexts_extent_tree_v2_inode_def)
  then have ext': "extent_list ?b = trims keep (extent_list b)"
    by (simp add: extent_entry_nth(3) leaf_extents_trim ext [unfolded extent_entry_nth(3)] v2)
  have lists: "owned_list b = concat (map run_list (leaf_extents ?ls)) @ map lf_block ?ls"
      "owned_list ?b = concat (map run_list (leaf_extents (trim_leaves keep ?ls))) @ map lf_block (trim_leaves keep ?ls)"
    using v2 v2' by (simp_all add: owned_list_def extent_entry_nth(3) meta_list_def)
  have parts: "mset (owned_list ?b) + mset ?ds = mset (owned_list b)"
    unfolding lists by (rule mset_leaves)
  note p = mset_parts [OF parts d(5)]
  have "freeable st (set ?ds)"
    by (rule freeable_sub [OF freeable_owned [OF f]]) (use p(4) in \<open>auto simp: set_owned_list\<close>)
  from free_leaves_ok [OF _ p(2) this] d(3) obtain st' where
    s: "free_leaves (free_extents keep) ?ls st = ((Inr (), trim_leaves keep ?ls), st')" "gave (set ?ds) st st'"
    unfolding ext by blast
  have "cryexts_free_blocks_from keep (i, st) = (Inr (), (i\<lparr>i_private := Some ?b\<rparr>, st'))"
    using i d(2) v2 s(1) by (simp add: cryexts_free_blocks_from_def on_leaves_def info_def upd_info_def)
  moreover have "same_kind b ?b" by (simp add: same_kind_def)
  moreover have "trim_leaves keep ?ls = []" if "leaf_extents (trim_leaves keep ?ls) = []"
    using that by (auto simp: leaf_extents_def trim_leaves_def filter_empty_conv)
  then have "extent_list ?b = [] \<longrightarrow> meta_list ?b = []"
    using v2' by (simp add: extent_entry_nth(3) meta_list_def)
  ultimately show ?thesis using ext' parts s(2) by blast
qed

lemma free_root:
  assumes f: "file_ok b st" and i: "i_private i = Some b" and v1: "\<not> cryexts_extent_tree_v2_inode b"
  shows "\<exists>b' ds st'. cryexts_free_blocks_from keep (i, st) = (Inr (), (i\<lparr>i_private := Some b'\<rparr>, st')) \<and>
    same_kind b b' \<and> extent_list b' = trims keep (extent_list b) \<and>
    mset (owned_list b') + mset ds = mset (owned_list b) \<and> gave (set ds) st st' \<and>
    (extent_list b' = [] \<longrightarrow> meta_list b' = [])"
proof -
  let ?n = "length (ii_extents b)" and ?o = "ii_extent_overflow_block b"
  define ts where "ts = trims keep (extent_list b)"
  define c where "c = b\<lparr>ii_extents := take ?n ts, ii_overflow_extents := drop ?n ts\<rparr>"
  note d = file_okD [OF f]
  have ext: "extent_list b = ii_extents b @ ii_overflow_extents b" using v1 by (simp add: extent_entry_nth(3))
  have fl: "\<not> cryexts_extent_tree_v2_inode c" using v1 by (simp add: c_def cryexts_extent_tree_v2_inode_def)
  then have ext': "extent_list c = ts" by (simp add: extent_entry_nth(3)) (simp add: c_def)
  have parts: "mset (concat (map run_list ts)) + mset (drops keep (extent_list b)) =
      mset (concat (map run_list (extent_list b)))" unfolding ts_def by (rule mset_trims)
  have runs: "owned_list b = concat (map run_list (extent_list b)) @ meta_list b" by (simp add: owned_list_def)
  have "distinct (concat (map run_list (extent_list b)))" using d(5) by (simp add: owned_list_def)
  note p = mset_parts [OF parts this]
  have fr: "freeable st (set (drops keep (extent_list b)))"
    by (rule freeable_sub [OF freeable_owned [OF f]]) (use p(4) runs set_owned_list [of b] in auto)
  obtain m where m: "free_extents keep (extent_list b) st = ((Inr (), ts), m)"
      "gave (set (drops keep (extent_list b))) st m"
    using free_extents_ok [OF d(3) p(2) fr] unfolding ts_def by blast
  have run: "cryexts_free_blocks_from keep (i, st) = free_overflow_block (i\<lparr>i_private := Some c\<rparr>, m)"
    using i d(2) v1 m(1) by (simp add: cryexts_free_blocks_from_def free_root_extents_def info_def
        upd_info_def bindE_def ext [symmetric] c_def Let_def)
  show ?thesis
  proof (cases "drop ?n ts \<noteq> [] \<or> ?o = 0")
    case True
    then have "cryexts_free_blocks_from keep (i, st) = (Inr (), (i\<lparr>i_private := Some c\<rparr>, m))"
      using run by (auto simp: free_overflow_block_def info_def c_def)
    moreover have "same_kind b c" "meta_list c = meta_list b"
      by (simp_all add: c_def same_kind_def meta_list_def cryexts_extent_tree_v2_inode_def)
    moreover have "mset (owned_list c) + mset (drops keep (extent_list b)) = mset (owned_list b)"
      using parts calculation(3) by (simp add: owned_list_def ext' ac_simps)
    moreover have "extent_list c = [] \<longrightarrow> meta_list c = []"
      unfolding calculation(3) using True ext' v1 by (auto simp: meta_list_def)
    ultimately show ?thesis using ext' m(2) ts_def by blast
  next
    case False
    have ml: "meta_list b = [?o]" using v1 False by (simp add: meta_list_def)
    let ?b = "c\<lparr>ii_extent_overflow_block := 0\<rparr>" and ?ds = "drops keep (extent_list b) @ [?o]"
    have "set (owned_list b) = set (concat (map run_list (extent_list b))) \<union> {?o}" "?o \<notin> set (concat (map run_list (extent_list b)))"
      using d(5) by (simp_all add: owned_list_def ml)
    then have sub: "set (drops keep (extent_list b)) \<union> {?o} \<subseteq> owned b"
      and "set (drops keep (extent_list b)) \<inter> {?o} = {}"
      unfolding set_owned_list [symmetric] p(4) by blast+
    then have "freeable st (set (drops keep (extent_list b)) \<union> {?o})" "set (drops keep (extent_list b)) \<inter> {?o} = {}"
      using freeable_sub [OF freeable_owned [OF f] sub] by simp_all
    from free_one [OF freeable_gave [OF this(1) m(2) this(2)]] obtain n where
      n: "cryexts_free_block ?o m = (Inr (), n)" "gave {?o} m n" by blast
    have co: "ii_extent_overflow_block c = ?o" "ii_overflow_extents c = []" using False by (simp_all add: c_def)
    have "cryexts_free_blocks_from keep (i, st) = (Inr (), (i\<lparr>i_private := Some ?b\<rparr>, n))"
      using run n(1) False by (simp add: free_overflow_block_def info_def co bindE_def onfs_def oni_def upd_info_def)
    moreover have "same_kind b ?b" by (simp add: c_def same_kind_def)
    moreover have "extent_list ?b = ts" "meta_list ?b = []"
      using ext' fl by (simp_all add: extent_entry_nth(3) meta_list_def cryexts_extent_tree_v2_inode_def)
    moreover have "mset (owned_list ?b) + mset ?ds = mset (owned_list b)"
      using parts calculation(3,4) by (simp add: owned_list_def ml)
    moreover have "gave (set ?ds) st n" using gave_trans [OF m(2) n(2)] by simp
    ultimately show ?thesis using ts_def by blast
  qed
qed

lemma truncate_file_ok:
  assumes f: "file_ok b st" and i: "i_private i = Some b"
  shows "\<exists>b' st'. cryexts_free_blocks_from keep (i, st) = (Inr (), (i\<lparr>i_private := Some b'\<rparr>, st')) \<and>
    file_ok b' st' \<and> find_extent b' = (\<lambda>l. if l < keep then find_extent b l else None) \<and>
    owned b' \<subseteq> owned b \<and> gave (owned b - owned b') st st' \<and> (keep = 0 \<longrightarrow> owned b' = {})"
proof -
  obtain b' ds st' where r: "cryexts_free_blocks_from keep (i, st) = (Inr (), (i\<lparr>i_private := Some b'\<rparr>, st'))"
      "same_kind b b'" "extent_list b' = trims keep (extent_list b)"
      "mset (owned_list b') + mset ds = mset (owned_list b)" "gave (set ds) st st'"
      "extent_list b' = [] \<longrightarrow> meta_list b' = []"
    using free_tree [OF f i, of keep] free_root [OF f i, of keep] by blast
  note t = truncated_ok [OF f r(2-5)]
  have "keep = 0 \<longrightarrow> owned b' = {}"
    using r(3,6) cuts_zero [OF file_okD(9) [OF f]] by (simp add: owned_def meta_blocks_def)
  then show ?thesis using r(1) t r(5) by auto
qed

section \<open>Requests\<close>

text \<open>A file in memory: the inode, whose extents satisfy the invariant, with the file system.\<close>

definition inode_ok :: "inode \<times> fs \<Rightarrow> bool" where
  "inode_ok s \<longleftrightarrow> (case s of (i, st) \<Rightarrow> i_private i \<noteq> None \<and> file_ok (info i) st)"

lemma inode_okE:
  assumes "inode_ok (i, st)"
  obtains b where "i_private i = Some b" "info i = b" "file_ok b st"
  using assms by (auto simp: inode_ok_def info_def)

datatype file_request = Lookup u64 | Truncate_to u64

fun file_step :: "file_request \<Rightarrow> inode \<times> fs \<Rightarrow> inode \<times> fs" where
  "file_step (Lookup l) s = ignoreE (cryexts_resolve_block l True) s"
| "file_step (Truncate_to keep) s = ignoreE (cryexts_free_blocks_from keep) s"

text \<open>C38: a lookup with allocation of a file with extents gives the block that is mapped,
  or maps a block that was free; nothing else of the map changes, and nothing at all when it fails.
  In every case the blocks that have become used are the ones the file has come to own.\<close>

theorem resolve_extends:
  assumes ok: "inode_ok (i, st)" and r: "cryexts_resolve_block l True (i, st) = (r, (i', st'))"
  shows "inode_ok (i', st') \<and> owned (info i) \<subseteq> owned (info i') \<and>
    block_used st' - block_used st = owned (info i') - owned (info i) \<and> block_used st \<subseteq> block_used st' \<and>
    (case r of
       Inr p \<Rightarrow> find_extent (info i') = (find_extent (info i))(l := Some p) \<and>
         (if find_extent (info i) l = None then p \<notin> block_used st \<and> p \<in> block_used st'
          else find_extent (info i) l = Some p)
     | Inl e \<Rightarrow> find_extent (info i') = find_extent (info i))"
proof -
  obtain b where b: "i_private i = Some b" "info i = b" "file_ok b st" using ok by (rule inode_okE)
  from resolve_file_ok [OF b(3,1) r] obtain b' where n: "i' = i\<lparr>i_private := Some b'\<rparr>"
      "owned b \<subseteq> owned b'" "took (owned b' - owned b) st st'" "file_ok b' st'"
      and res: "case r of Inr p \<Rightarrow> find_extent b' = (find_extent b)(l := Some p) \<and>
          (find_extent b l = None \<longrightarrow> p \<in> owned b' - owned b)
        | Inl e \<Rightarrow> find_extent b' = find_extent b" by blast
  have i': "info i' = b'" "inode_ok (i', st')" using n(1,4) by (simp_all add: info_def inode_ok_def)
  have used: "block_used st' = block_used st \<union> (owned b' - owned b)" "owned b' - owned b \<subseteq> - block_used st"
    using n(3) by (auto simp: took_def)
  have same: "find_extent b l = Some p" if "r = Inr p" "find_extent b l \<noteq> None" for p
    using r that b resolve_extent_run [OF b(1) file_okD(2) [OF b(3)]] by (auto split: if_splits)
  show ?thesis
    using n(2) used i' b(2) res same by (auto split: sum.splits)
qed

text \<open>C39: on a file with extents that is in order the freeing of its blocks from a logical
  block on succeeds; the map is restricted to the blocks before it, what the file does not own any
  more is free again and nothing else is, and if nothing is kept the file owns nothing.\<close>

theorem truncate_frees:
  assumes ok: "inode_ok (i, st)"
  shows "\<exists>i' st'. cryexts_free_blocks_from keep (i, st) = (Inr (), (i', st')) \<and> inode_ok (i', st') \<and>
    find_extent (info i') = (\<lambda>l. if l < keep then find_extent (info i) l else None) \<and>
    owned (info i') \<subseteq> owned (info i) \<and>
    block_used st' = block_used st - (owned (info i) - owned (info i')) \<and>
    (keep = 0 \<longrightarrow> owned (info i') = {})"
proof -
  obtain b where b: "i_private i = Some b" "info i = b" "file_ok b st" using ok by (rule inode_okE)
  from truncate_file_ok [OF b(3,1), of keep] obtain b' st' where
    n: "cryexts_free_blocks_from keep (i, st) = (Inr (), (i\<lparr>i_private := Some b'\<rparr>, st'))"
      "file_ok b' st'" "find_extent b' = (\<lambda>l. if l < keep then find_extent b l else None)"
      "owned b' \<subseteq> owned b" "gave (owned b - owned b') st st'" "keep = 0 \<longrightarrow> owned b' = {}" by blast
  have i': "info (i\<lparr>i_private := Some b'\<rparr>) = b'" by (simp add: info_def)
  show ?thesis using n unfolding b(2)
    by (intro exI [of _ "i\<lparr>i_private := Some b'\<rparr>"] exI [of _ st'])
      (simp add: i' inode_ok_def gave_def)
qed

lemma file_step_ok:
  assumes ok: "inode_ok (i, st)" and s: "file_step q (i, st) = (i', st')"
  shows "inode_ok (i', st')" "block_used st' - owned (info i') = block_used st - owned (info i)"
proof -
  obtain b where b: "i_private i = Some b" "info i = b" "file_ok b st" using ok by (rule inode_okE)
  have "inode_ok (i', st') \<and> block_used st' - owned (info i') = block_used st - owned (info i)"
  proof (cases q)
    case (Lookup l)
    obtain r where r: "cryexts_resolve_block l True (i, st) = (r, (i', st'))"
      using s Lookup by (cases "cryexts_resolve_block l True (i, st)") (simp add: ignoreE_def)
    from resolve_file_ok [OF b(3,1) r] obtain b' where n: "i' = i\<lparr>i_private := Some b'\<rparr>"
      "owned b \<subseteq> owned b'" "took (owned b' - owned b) st st'" "file_ok b' st'" by blast
    then show ?thesis using b(2) file_okD(4) [OF b(3)] by (auto simp: info_def inode_ok_def took_def)
  next
    case (Truncate_to keep)
    from truncate_file_ok [OF b(3,1), of keep] obtain b' st'' where
      n: "cryexts_free_blocks_from keep (i, st) = (Inr (), (i\<lparr>i_private := Some b'\<rparr>, st''))"
        "file_ok b' st''" "owned b' \<subseteq> owned b" "gave (owned b - owned b') st st''" by blast
    then show ?thesis using s Truncate_to b(2) by (auto simp: ignoreE_def info_def inode_ok_def gave_def)
  qed
  then show "inode_ok (i', st')" "block_used st' - owned (info i') = block_used st - owned (info i)" by simp_all
qed

text \<open>C40: any sequence of lookups with allocation and of truncations of a file with extents,
  whatever their outcomes, keeps the file in order (its blocks marked used, owned once, no metadata)
  and touches no block of another file: what is used outside the file stays used, and no more.\<close>

theorem file_requests:
  assumes "inode_ok (i, st)" and "fold file_step qs (i, st) = (i', st')"
  shows "inode_ok (i', st') \<and> block_used st' - owned (info i') = block_used st - owned (info i)"
  using assms
proof (induction qs arbitrary: i st)
  case (Cons q qs)
  obtain j t where m: "file_step q (i, st) = (j, t)" by (metis prod.exhaust)
  note s = file_step_ok [OF Cons.prems(1) m]
  have "fold file_step qs (j, t) = (i', st')" using Cons.prems(2) m by simp
  from Cons.IH [OF s(1) this] show ?case using s(2) by simp
qed simp

section \<open>A sample file\<close>

text \<open>The sample with all blocks used but the ones from 96 to 103, and a file of four blocks in it.\<close>

definition used_bitmap :: bytes where
  "used_bitmap = replicate 12 0xFF @ 0 # replicate 4083 0xFF"

definition file_fs :: fs where
  "file_fs = sample_fs\<lparr>d_cache := (\<lambda>_. zero_block)(1 := used_bitmap)\<rparr>"

definition file_inode :: inode where
  "file_inode = \<lparr>i_ino = 12, i_mode = 0x81A4, i_nlink = 1, i_uid = 0, i_gid = 0, i_size = 16384,
     i_blocks = 32, i_atime = 0, i_ctime = 0, i_mtime = 0,
     i_private = Some (zero_info\<lparr>ii_use_extents := True,
       ii_inode_flags := CRYEXTS_INODE_FLAG_EXTENTS OR CRYEXTS_INODE_FLAG_EXTENT_TREE_V2,
       ii_extent_inline_max := 4,
       ii_extent_leaves := [\<lparr>lf_block = 40, lf_checksum = 0, lf_extents = [new_extent 0 30 4]\<rparr>]\<rparr>)\<rparr>"

lemma used_bitmap_test:
  assumes "unat k < 1024"
  shows "cryexts_bitmap_test used_bitmap k \<longleftrightarrow> unat k div 8 \<noteq> 12"
proof -
  have eq: "(0xFF :: u8) = mask 8" by (simp add: mask_eq_exp_minus_1)
  have one: "bit (0xFF :: u8) n" if "n < 8" for n
    unfolding eq by (rule bit_mask_iff [THEN iffD2]) (use that in simp)
  have "used_bitmap ! n = (if n = 12 then 0 else 0xFF)" if "n < 4096" for n
    using that by (simp add: used_bitmap_def nth_append nth_Cons split: nat.split)
  moreover have "unat k div 8 < 4096" using assms by simp
  ultimately show ?thesis using one [of "unat k mod 8"] by (simp add: bitmap_test_bit)
qed

lemma file_sel:
  "\<not> cryexts_has_block_groups file_fs" "s_block_bitmap_bh file_fs = Some 1" "s_inode_bitmap_bh file_fs = Some 2"
  "sb_first_data_block (s_disk_sb file_fs) = 20" "cryexts_blocks_count file_fs = 1024"
  "bdata file_fs 1 = used_bitmap" "bitmaps file_fs = [1, 2]"
  "x \<in> side file_fs \<longleftrightarrow> x = 0 \<or> 500 \<le> unat x \<and> unat x < 564"
proof -
  show sel: "\<not> cryexts_has_block_groups file_fs" "s_block_bitmap_bh file_fs = Some 1" "s_inode_bitmap_bh file_fs = Some 2"
    "sb_first_data_block (s_disk_sb file_fs) = 20" "cryexts_blocks_count file_fs = 1024" "bdata file_fs 1 = used_bitmap"
    using sample_sel by (simp_all add: file_fs_def cryexts_has_block_groups_def cryexts_blocks_count_def bdata_def)
  show "bitmaps file_fs = [1, 2]"
    using sel by (simp add: bitmaps_def ngroups_def bmap_def imap_def)
  show "x \<in> side file_fs \<longleftrightarrow> x = 0 \<or> 500 \<le> unat x \<and> unat x < 564"
    by (auto simp: file_fs_def side_def gdt_slot_def cryexts_journal_block_is_internal_def word_le_nat_alt
        word_less_nat_alt sample_fs_def)
qed

lemma file_fs_ok: "alloc_ok file_fs"
proof (rule alloc_ok_change [OF _ sample_alloc_ok])
  show "geo_view file_fs = geo_view sample_fs" by (simp add: file_fs_def geo_view_def)
  show "length (d_cache file_fs x) = length (d_cache sample_fs x)" for x
    by (simp add: file_fs_def used_bitmap_def sample_fs_def zero_block_def BLOCK_SIZE_def)
  show "cryexts_bitmap_test (d_cache file_fs (bmap sample_fs i)) (of_nat k)"
    if "cryexts_bitmap_test (d_cache sample_fs (bmap sample_fs i)) (of_nat k)" "k < bcount sample_fs i" for i k
  proof -
    have "unat (of_nat k :: u64) < 1024" using that(2) by (simp add: bcount_def sample_sel unat_of_nat)
    then have "\<not> cryexts_bitmap_test zero_block (of_nat k)"
      by (simp add: bitmap_test_bit zero_block_def BLOCK_SIZE_def)
    then show ?thesis using that(1) by (simp add: sample_sel)
  qed
qed

lemma file_used: "x \<in> block_used file_fs \<longleftrightarrow> cryexts_data_block_valid file_fs x \<and> unat x div 8 \<noteq> 12"
proof (cases "cryexts_data_block_valid file_fs x")
  case True
  then have "unat x < 1024"
    by (simp add: cryexts_data_block_valid_def file_sel word_less_nat_alt word_le_nat_alt Let_def split: if_splits)
  then show ?thesis using True used_bitmap_test [of x] by (simp add: block_used_def cryexts_block_bitmap_used_def file_sel)
qed (simp add: block_used_def cryexts_block_bitmap_used_def)

lemma file_inode_ok: "inode_ok (file_inode, file_fs)"
proof -
  let ?b = "info file_inode"
  have v2: "cryexts_extent_tree_v2_inode ?b" "ii_use_extents ?b"
    by (simp_all add: file_inode_def info_def cryexts_extent_tree_v2_inode_def has_flag_def const_simps)
  have ext: "extent_list ?b = [new_extent 0 30 4]" "meta_list ?b = [40]"
    using v2 by (simp_all add: extent_entry_nth(3) meta_list_def) (simp_all add: file_inode_def info_def)
  have run: "run_list (new_extent 0 30 4) = [30, 31, 32, 33]"
    by (simp add: run_list_def new_extent_def upt_rec)
  have own: "owned_list ?b = [30, 31, 32, 33, 40]" by (simp add: owned_list_def ext run)
  have used: "owned ?b \<subseteq> block_used file_fs"
    by (simp add: set_owned_list [symmetric] own file_used cryexts_data_block_valid_def file_sel)
  have free: "x \<notin> set (bitmaps file_fs) \<and> x \<notin> side file_fs" if "x \<in> block_space file_fs - block_used file_fs" for x
  proof -
    have "unat x div 8 = 12" using that by (simp add: file_used block_space_def)
    then have "96 \<le> unat x" "unat x < 104" by auto
    then show ?thesis by (auto simp: file_sel)
  qed
  have "extents_sorted (extent_list ?b)" by (simp add: ext extents_sorted_def extent_fits_def new_extent_def)
  then have "file_ok ?b file_fs"
    using v2 used free file_fs_ok unfolding file_ok_def disk_ok_def own set_owned_list [symmetric] ext
    by (simp add: file_sel extents_sorted_def)
  then show ?thesis by (simp add: inode_ok_def) (simp add: file_inode_def)
qed

theorem resolve_extends_witness:
  "\<exists>r i' st'. cryexts_resolve_block 4 True (file_inode, file_fs) = (r, (i', st')) \<and> inode_ok (i', st') \<and>
    block_used st' - block_used file_fs = owned (info i') - owned (info file_inode)"
  using resolve_extends [OF file_inode_ok] by (metis prod.exhaust)

theorem truncate_frees_witness:
  "\<exists>i' st'. cryexts_free_blocks_from 2 (file_inode, file_fs) = (Inr (), (i', st')) \<and> inode_ok (i', st') \<and>
    find_extent (info i') = (\<lambda>l. if l < 2 then find_extent (info file_inode) l else None)"
  using truncate_frees [OF file_inode_ok, of 2] by blast

theorem file_requests_witness:
  "\<exists>i' st'. fold file_step [Lookup 4, Truncate_to 2, Lookup 9, Truncate_to 0] (file_inode, file_fs) = (i', st') \<and>
    inode_ok (i', st') \<and> block_used st' - owned (info i') = block_used file_fs - owned (info file_inode)"
proof -
  obtain i' st' where r: "fold file_step [Lookup 4, Truncate_to 2, Lookup 9, Truncate_to 0] (file_inode, file_fs) = (i', st')"
    by (metis prod.exhaust)
  show ?thesis using file_requests [OF file_inode_ok r] r by blast
qed

end
