(* ===== verification/DirInit.thy ===== *)
theory DirInit
  imports DirClaims FileTruncate
begin

text \<open>
  The first block of a new directory, with its index, and a sample directory that is made by it.
\<close>

section \<open>Writing an entry from scratch\<close>

lemma put_seg:
  assumes len: "length buf = BLOCK_SIZE" and v: "cryexts_validate_dirent st de off lim = Inr ()" "off < lim"
    and nm: "unat (de_name_len de) = length nm"
  shows "seg st (put_name off nm (put_dirent off de buf)) lim off (off + rec_len de) [(off, de, nm)]"
    "length (put_name off nm (put_dirent off de buf)) = BLOCK_SIZE"
    "agree 0 off buf (put_name off nm (put_dirent off de buf))"
proof -
  note r = validate_rec_len [OF v(1)]
  let ?b1 = "put_dirent off de buf" and ?b = "put_name off nm (put_dirent off de buf)"
  have l1: "length ?b1 = BLOCK_SIZE" using len r by simp
  have fit: "off + 12 + length nm \<le> BLOCK_SIZE" using r nm by simp
  show l: "length ?b = BLOCK_SIZE" using l1 fit by simp
  have d: "dirent_at ?b off = de"
    using header_put_name [of off nm ?b1] dirent_put [of off buf de] fit l1 len by simp
  have n: "de_name ?b off de = nm"
    unfolding de_name_def nm DIRENT_HEADER_12 using get_name_put [of off nm ?b1] fit l1 by simp
  show "seg st ?b lim off (off + rec_len de) [(off, de, nm)]" using d n v by simp
  have "?b ! i = buf ! i" if "i < off" for i
    using nth_put_name [of off nm ?b1 i] nth_put_dirent [of off buf i de] that fit l1 len by auto
  then show "agree 0 off buf ?b" using l len fit by (auto simp: agree_def)
qed

definition dot_entry :: "u64 \<Rightarrow> nat \<Rightarrow> u8 \<Rightarrow> cryexts_dir_entry" where
  "dot_entry ino len n = \<lparr>de_inode = ino, de_rec_len = of_nat len, de_name_len = n, de_file_type = CRYEXTS_FT_DIR\<rparr>"

lemma dots_seg:
  assumes "ino_ok st ino" "ino_ok st parent"
  shows "seg st (dots_block ino parent) BLOCK_SIZE 0 BLOCK_SIZE
      [(0, dot_entry ino 16 1, dot), (16, dot_entry parent 4080 2, dotdot)]"
    "length (dots_block ino parent) = BLOCK_SIZE"
proof -
  have l: "dir_rec_len 1 = 16" using dir_rec_len(1) [of 1] by simp
  let ?b1 = "put_name 0 dot (put_dirent 0 (dot_entry ino 16 1) zero_block)"
  have v: "cryexts_validate_dirent st (dot_entry ino 16 1) 0 BLOCK_SIZE = Inr ()"
    "cryexts_validate_dirent st (dot_entry parent 4080 2) 16 BLOCK_SIZE = Inr ()"
    using assms by (simp_all add: validate_iff dot_entry_def rec_len_def BLOCK_SIZE_def ino_ok_def)
  have len: "rec_len (dot_entry ino 16 1) = 16" "rec_len (dot_entry parent 4080 2) = 4080"
    "unat (de_name_len (dot_entry ino 16 1)) = length dot" "unat (de_name_len (dot_entry parent 4080 2)) = length dotdot"
    by (simp_all add: dot_entry_def rec_len_def dot_def dotdot_def)
  have pos: "0 < BLOCK_SIZE" "16 < BLOCK_SIZE" by (simp_all add: BLOCK_SIZE_def)
  note a = put_seg [OF length_zero_block v(1) pos(1) len(3), unfolded len(1)]
  note b = put_seg [OF a(2) v(2) pos(2) len(4), unfolded len(2)]
  have e: "dots_block ino parent = put_name 16 dotdot (put_dirent 16 (dot_entry parent 4080 2) ?b1)"
    by (simp add: dots_block_def Let_def l [simplified] dot_entry_def BLOCK_SIZE_def)
  show "length (dots_block ino parent) = BLOCK_SIZE" unfolding e by (rule b(2))
  have "seg st (dots_block ino parent) BLOCK_SIZE 0 16 [(0, dot_entry ino 16 1, dot)]"
    unfolding e by (rule seg_cong [OF _ b(3) refl]) (use a(1) in simp)
  moreover have "16 + 4080 = BLOCK_SIZE" by (simp add: BLOCK_SIZE_def)
  ultimately have "seg st (dots_block ino parent) BLOCK_SIZE 0 BLOCK_SIZE
      ([(0, dot_entry ino 16 1, dot)] @ [(16, dot_entry parent 4080 2, dotdot)])"
    unfolding seg_append using b(1) unfolding e [symmetric] by metis
  then show "seg st (dots_block ino parent) BLOCK_SIZE 0 BLOCK_SIZE
      [(0, dot_entry ino 16 1, dot), (16, dot_entry parent 4080 2, dotdot)]" by (simp del: seg.simps)
qed

section \<open>A block for the index\<close>

definition index_free :: "inode \<Rightarrow> fs \<Rightarrow> bool" where
  "index_free i st \<longleftrightarrow>
     (has_flag (ii_inode_flags (info i)) CRYEXTS_INODE_FLAG_DIR_INDEX \<longrightarrow> cryexts_dir_index_feature_enabled st)"

lemma ensure_place:
  assumes v: "dir_view i st ess" and p: "dir_place i st (length ess)" and x: "index_free i st"
    and r: "cryexts_dir_index_ensure (i, st) = (Inr u, (i', st'))"
  shows "dir_view i' st' ess" "dir_place i' st' (length ess)" "index_place i' st'" "i_ino i' = i_ino i"
    "like st st'" "dir_blocks i' = dir_blocks i"
proof -
  have s: "dir_shape i" using v by (simp add: dir_view_def)
  obtain b where b: "i_private i = Some b" "info i = b" using dir_shapeD(1) [OF s] by blast
  have "dir_view i' st' ess \<and> dir_place i' st' (length ess) \<and> index_place i' st' \<and> i_ino i' = i_ino i \<and>
      like st st' \<and> dir_blocks i' = dir_blocks i"
  proof (cases "\<not> cryexts_dir_index_feature_enabled st \<or> idx i \<noteq> 0")
    case True
    then have "i' = i \<and> st' = st" using r b by (auto simp: cryexts_dir_index_ensure_def idx_def split: if_splits)
    then show ?thesis using v p x True by (auto simp: index_place_def index_free_def)
  next
    case False
    then have ft: "cryexts_dir_index_feature_enabled st" and z: "ii_dir_index_block b = 0" using b by (simp_all add: idx_def)
    note q = dir_placeD [OF p]
    obtain a st1 where a: "cryexts_alloc_block_goal (ii_alloc_hint_block b) (ii_alloc_goal_group b) st = (a, st1)"
      by (metis prod.exhaust)
    obtain y where y: "a = Inr y"
      using r a b ft z by (cases a) (auto simp: cryexts_dir_index_ensure_def bindE_def onfs_def)
    let ?b = "cryexts_update_alloc_hint st1 y
      (b\<lparr>ii_dir_index_block := y, ii_inode_flags := ii_inode_flags b OR CRYEXTS_INODE_FLAG_DIR_INDEX\<rparr>)"
    have i': "i' = i\<lparr>i_private := Some ?b\<rparr>" "st' = st1"
      using r a b ft z y
      by (auto simp: cryexts_dir_index_ensure_def bindE_def onfs_def oni_def upd_info_def cryexts_set_inode_alloc_hint_def)
    have t: "took {y} st st1" using take_block [OF q(1) a] y by simp
    then have yf: "y \<in> block_space st - block_used st" by (simp add: took_def)
    then have y1: "y \<notin> block_used st" "y \<notin> set (bitmaps st)" "y \<notin> side st" using q(1) by (auto simp: disk_ok_def)
    have y0: "y \<noteq> 0" using y1(3) by (auto simp: side_def)
    note w = alloc_within [OF q(2) a]
    have inf: "info i' = ?b" "i_private i' \<noteq> None" by (simp_all add: i'(1) info_def)
    have f: "dir_shape i'" "dblock i' = dblock i" "idx i' = y" "i_size i' = i_size i" "i_ino i' = i_ino i"
      using s b inf by (simp_all add: dir_shape_def dblock_def idx_def hint_keeps fun_eq_iff) (simp_all add: i'(1))
    have "dir_view i st1 ess"
      by (rule dir_view_within [OF v same_dir_refl w]) (use q(6-8) in blast)
    then have "dir_view i' st' ess" using f by (simp add: dir_view_def i'(2))
    moreover have "dir_blocks i' = dir_blocks i" by (simp add: dir_blocks_def cryexts_dir_block_count_def f(4))
    moreover have "like st st'" unfolding i'(2) by (rule within_like [OF w])
    moreover have "dir_place i' st' (length ess)"
    proof -
      have g: "geo_view st' = geo_view st" and u: "block_used st' = insert y (block_used st)" "disk_ok st'"
        "block_space st' = block_space st" using t i'(2) by (simp_all add: took_def)
      have ib: "inode_block st' (i_ino i) = inode_block st (i_ino i)" by (rule geo_valid(2) [OF g q(2,3)])
      have "y \<notin> dblock i ` {..<length ess}" using q(5) y1(1) by auto
      then show ?thesis
        unfolding dir_place_def using f q u ib y1 geo_basic [OF g] y0 by (auto simp: dir_place_def)
    qed
    moreover have "index_place i' st'"
      using ft within_feature [OF w] f(3) y0 by (simp add: index_place_def i'(2))
    ultimately show ?thesis using f(5) by blast
  qed
  then show "dir_view i' st' ess" "dir_place i' st' (length ess)" "index_place i' st'" "i_ino i' = i_ino i"
    "like st st'" "dir_blocks i' = dir_blocks i" by blast+
qed

lemma rebuild_after_ensure:
  assumes "i_private i \<noteq> None" "cryexts_dir_index_feature_enabled st"
    "cryexts_dir_index_ensure (i, st) = (Inr (), (i', st'))"
    "i_private i' \<noteq> None" "index_place i' st'" "cryexts_dir_index_feature_enabled st'" "dir_blocks i' = dir_blocks i"
  shows "cryexts_dir_index_rebuild (i, st) = cryexts_dir_index_rebuild (i', st')"
proof -
  obtain b b' where b: "i_private i = Some b" "i_private i' = Some b'" using assms(1,4) by blast
  show ?thesis
    using assms(2,3,6,7) ensure_nop [OF assms(4,5)] by (simp add: cryexts_dir_index_rebuild_def bindE_def b)
qed

section \<open>The first block\<close>

definition dots_entries :: "u64 \<Rightarrow> u64 \<Rightarrow> dirent list list" where
  "dots_entries ino parent = [[(0, dot_entry ino 16 1, dot), (16, dot_entry parent 4080 2, dotdot)]]"

lemma put_dots:
  assumes s: "dir_shape i" "i_size i = of_nat BLOCK_SIZE" and p: "dir_place i st 1"
    and ino: "ino_ok st (i_ino i)" "ino_ok st parent" and ix: "index_free i st" and t: "ticked st st1"
  defines "st2 \<equiv> record_and_dirty (Some (dblock i 0)) (set_bdata (dblock i 0) (dots_block (i_ino i) parent) st1)"
  shows "dir_view i st2 (dots_entries (i_ino i) parent)"
    "dir_place i st2 1" "index_free i st2" "like st st2"
proof -
  let ?b = "dblock i 0" and ?buf = "dots_block (i_ino i) parent"
  note q = dir_placeD [OF p]
  have z: "(0 :: nat) < 1" by simp
  have b: "?b \<noteq> 0" "?b \<notin> side st" "?b \<notin> set (bitmaps st)" using q(6-8) [OF z] by blast+
  let ?s = "set_bdata ?b ?buf st1"
  have w1: "within {?b} st ?s"
    using within_trans [OF ticked_within [OF t, of "{}"] within_set [of ?b "{?b}" st1]] b(1) by simp
  have w2: "within (side st) ?s st2" unfolding st2_def by (rule within_record(1) [OF q(2) within_geo [OF w1]])
  have w: "within (insert ?b (side st)) st st2" using within_trans [OF w1 w2] by simp
  have bd: "bdata st2 ?b = ?buf"
    using within_data [OF w2 b(1,2)] b(1) by (simp add: bdata_def set_bdata_def)
  have inos: "ino_ok st2 (i_ino i)" "ino_ok st2 parent" using ino within_max [OF w] by (simp_all add: ino_ok_def)
  note d = dots_seg [OF inos]
  show "dir_view i st2 (dots_entries (i_ino i) parent)"
    using s d bd by (simp add: dots_entries_def dir_view_def const_simps inj_on_def del: seg.simps)
  have "set (bitmaps st) \<inter> insert ?b (side st) = {}" using b(3) alloc_okD(5) [OF q(2)] by auto
  from dir_place_within(1) [OF p same_dir_refl w this] show "dir_place i st2 1" .
  show "index_free i st2" using ix within_feature [OF w] by (simp add: index_free_def)
  show "like st st2" by (rule within_like [OF w])
qed

lemma first_block: "dir_shape i \<Longrightarrow> cryexts_inode_first_block i = dblock i 0"
  using dir_shapeD [of i] by (simp add: cryexts_inode_first_block_def dblock_def)

lemma init_dir:
  assumes "dir_shape i" and "i_size i = of_nat BLOCK_SIZE" and "dir_place i st 1"
    and "ino_ok st (i_ino i)" and "ino_ok st parent" and "index_free i st"
    and "cryexts_init_dir_block parent (i, st) = (r, (i', st'))"
  shows "(r = Inr () \<longrightarrow> dir_ok i' st' \<and> dir_map i' st' = [dot \<mapsto> i_ino i, dotdot \<mapsto> parent] \<and>
            dir_entries i' st' = dots_entries (i_ino i) parent \<and> like st st') \<and>
    (index_place i st \<longrightarrow> r = Inr () \<or> faulty st)"
proof -
  let ?ess = "dots_entries (i_ino i) parent"
  obtain q st1 where g: "sb_getblk (dblock i 0) st = (q, st1)" by (metis prod.exhaust)
  have gq: "ticked st st1" "q = Inr (dblock i 0) \<or> (\<exists>e. q = Inl e) \<and> faulty st"
    using g by (auto simp: sb_getblk_def bindE_def io_step_def retE_def faultyI split: if_splits)
  show ?thesis
  proof (cases "q = Inr (dblock i 0)")
    case False
    then obtain e where "q = Inl e" "faulty st" using gq(2) by blast
    then show ?thesis
      using assms(7) g by (auto simp: cryexts_init_dir_block_def Let_def first_block [OF assms(1)] bindE_def onfs_def)
  next
    case True
    define st2 where "st2 = record_and_dirty (Some (dblock i 0)) (set_bdata (dblock i 0) (dots_block (i_ino i) parent) st1)"
    note p = put_dots [OF assms(1-6) gq(1), folded st2_def]
    have run: "cryexts_dir_index_rebuild (i, st2) = (r, (i', st'))"
      using assms(7) g True
      by (simp add: cryexts_init_dir_block_def Let_def first_block [OF assms(1)] bindE_def onfs_def modE_def st2_def)
    have nm: "named ?ess" by (simp add: named_def dot_entry_def dots_entries_def)
    have ino: "i_ino i \<noteq> 0" "parent \<noteq> 0" using ino_ok_nonzero assms(4,5) by blast+
    have names: "names ?ess = [(dot, i_ino i), (dotdot, parent)]"
      using ino by (simp add: names_def dot_entry_def dots_entries_def)
    have fin: "dir_ok j s \<and> dir_map j s = [dot \<mapsto> i_ino i, dotdot \<mapsto> parent] \<and> dir_entries j s = ?ess"
      if "dir_view j s ?ess" "dir_place j s (length ?ess)" "index_place j s" "index_sound j s ?ess" for j s
    proof -
      have "dir_inv j s ?ess" using that nm names by (simp add: dir_inv_def dot_def dotdot_def)
      moreover have "map_of (names ?ess) = [dot \<mapsto> i_ino i, dotdot \<mapsto> parent]"
        unfolding names by (auto simp: dot_def dotdot_def fun_eq_iff)
      ultimately show ?thesis using dir_ok_inv dir_map_view [OF that(1)] dir_entries_view [OF that(1)] by metis
    qed
    have priv: "i_private i \<noteq> None" using assms(1) by (simp add: dir_shape_def)
    have pl: "dir_place i st2 (length ?ess)" using p(2) by (simp add: dots_entries_def)
    have from_here: "(r = Inr () \<longrightarrow> dir_ok i' st' \<and> dir_map i' st' = [dot \<mapsto> i_ino i, dotdot \<mapsto> parent] \<and>
            dir_entries i' st' = ?ess \<and> like st st') \<and>
        (r = Inr () \<or> faulty st)"
      if j: "dir_view j s ?ess" "dir_place j s (length ?ess)" "index_place j s" "like st s"
        "cryexts_dir_index_rebuild (j, s) = (r, (i', st'))" for j s
    proof -
      note rb = rebuild_sound [OF j(1,2) nm j(3,5)]
      note k = dir_step_keeps [OF j(1,2) rb(1)]
      have "index_place i' st'" using index_place_step [OF j(3)] rb(1) by (auto simp: dir_step_def)
      moreover have "like st st'" by (rule like_trans [OF j(4) step_like [OF rb(1)]])
      moreover have "r = Inr () \<or> faulty st" using rb(3) j(4) by (cases r) (auto simp: like_def)
      ultimately show ?thesis using fin [OF k(1,2)] rb(2) by blast
    qed
    show ?thesis
    proof (cases "index_place i st2")
      case True
      from from_here [OF p(1) pl True p(4) run] show ?thesis by blast
    next
      case False
      have ft: "cryexts_dir_index_feature_enabled st2" and z: "idx i = 0"
        using False p(3) by (auto simp: index_place_def index_free_def)
      have no: "\<not> index_place i st"
        using False p(4) by (simp add: index_place_def like_def geo_view_def cryexts_dir_index_feature_enabled_def)
      obtain e j s where en: "cryexts_dir_index_ensure (i, st2) = (e, (j, s))" by (metis prod.exhaust)
      show ?thesis
      proof (cases e)
        case (Inl er)
        then show ?thesis using run ft priv en no by (auto simp: cryexts_dir_index_rebuild_def bindE_def)
      next
        case (Inr u)
        note ep = ensure_place [OF p(1) pl p(3) en [unfolded Inr]]
        have pj: "i_private j \<noteq> None" using ep(1) by (simp add: dir_view_def dir_shape_def)
        have fs: "cryexts_dir_index_feature_enabled s"
          using ft ep(5) by (simp add: like_def geo_view_def cryexts_dir_index_feature_enabled_def)
        have "cryexts_dir_index_rebuild (j, s) = (r, (i', st'))"
          using rebuild_after_ensure [OF priv ft _ pj ep(3) fs ep(6)] en Inr run by simp
        from from_here [OF ep(1,2,3) like_trans [OF p(4) ep(5)] this] no show ?thesis by blast
      qed
    qed
  qed
qed

text \<open>C25: a new directory.  When writing the first block of a directory succeeds, with the index
  that the file system has or does not have, the directory is in order and holds the two names, of itself and
  of its parent.  With an index block at hand, or none needed, only the device can make it fail.\<close>

theorem init_dir_correct:
  assumes "dir_shape i" and "i_size i = of_nat BLOCK_SIZE" and "dir_place i st 1"
    and "ino_ok st (i_ino i)" and "ino_ok st parent" and "index_free i st"
    and "cryexts_init_dir_block parent (i, st) = (r, (i', st'))"
  shows "(r = Inr () \<longrightarrow> dir_ok i' st' \<and> dir_map i' st' = [dot \<mapsto> i_ino i, dotdot \<mapsto> parent]) \<and>
    (index_place i st \<longrightarrow> \<not> faulty st \<longrightarrow> r = Inr ())"
  using init_dir [OF assms] by blast

section \<open>A sample directory\<close>

text \<open>The sample file system with the index feature and no journal, and a directory with blocks 20 and, for its
  index, 21.\<close>

definition dir_fs :: fs where
  "dir_fs = upd_disk_sb (\<lambda>sb. sb\<lparr>sb_features_incompat := 0x8C0\<rparr>) (file_fs\<lparr>s_journal_enabled := False\<rparr>)"

definition dir_inode :: inode where
  "dir_inode = \<lparr>i_ino = 1, i_mode = 0x41ED, i_nlink = 2, i_uid = 0, i_gid = 0, i_size = 4096,
     i_blocks = 16, i_atime = 0, i_ctime = 0, i_mtime = 0,
     i_private = Some (zero_info\<lparr>ii_direct := (replicate CRYEXTS_DIRECT_BLOCKS 0)[0 := 20],
       ii_inode_flags := CRYEXTS_INODE_FLAG_DIR_INDEX, ii_dir_index_block := 21\<rparr>)\<rparr>"

lemma features_sets:
  fixes j :: bool
  assumes f: "has_flag f CRYEXTS_FEATURE_INCOMPAT_BLOCK_GROUPS = cryexts_has_block_groups a"
  defines "b \<equiv> upd_disk_sb (\<lambda>sb. sb\<lparr>sb_features_incompat := f\<rparr>) (a\<lparr>s_journal_enabled := j\<rparr>)"
  shows "alloc_ok b = alloc_ok a" "block_space b = block_space a"
    "bitmaps b = bitmaps a" "side b = side a" "inode_space b = inode_space a" "inode_block b = inode_block a"
    "alloc_ok a \<Longrightarrow> block_used b = block_used a"
proof -
  have g: "cryexts_has_block_groups b = cryexts_has_block_groups a"
    using f by (simp add: b_def upd_disk_sb_def cryexts_has_block_groups_def)
  have c: "d_cache b = d_cache a" by (simp add: b_def upd_disk_sb_def)
  have f: "s_groups b = s_groups a" "s_group_count b = s_group_count a" "s_blocks_per_group b = s_blocks_per_group a"
    "s_inodes_per_group b = s_inodes_per_group a" "s_inode_table_start b = s_inode_table_start a"
    "s_journal_block b = s_journal_block a" "s_journal_blocks b = s_journal_blocks a"
    "s_group_desc_table_blocks b = s_group_desc_table_blocks a"
    "sb_first_data_block (s_disk_sb b) = sb_first_data_block (s_disk_sb a)"
    "cryexts_blocks_count b = cryexts_blocks_count a" "cryexts_inodes_count b = cryexts_inodes_count a"
    "s_group_block_bitmap_bhs b = s_group_block_bitmap_bhs a" "s_group_inode_bitmap_bhs b = s_group_inode_bitmap_bhs a"
    "s_block_bitmap_bh b = s_block_bitmap_bh a" "s_inode_bitmap_bh b = s_inode_bitmap_bh a" "s_gdt_bhs b = s_gdt_bhs a"
    by (simp_all add: b_def upd_disk_sb_def cryexts_blocks_count_def cryexts_inodes_count_def)
  have n: "ngroups b = ngroups a" "bmap b = bmap a" "imap b = imap a" "iper b = iper a" "group_at b = group_at a"
    unfolding fun_eq_iff ngroups_def bmap_def imap_def iper_def group_at_def f g by simp_all
  have n2: "bcount b = bcount a" "bfirst b = bfirst a" "gdt_slot b = gdt_slot a"
    "cryexts_group_inode_table_start b = cryexts_group_inode_table_start a"
    "cryexts_group_first_block b = cryexts_group_first_block a" "cryexts_group_blocks b = cryexts_group_blocks a"
    unfolding fun_eq_iff bcount_def bfirst_def gdt_slot_def cryexts_group_inode_table_start_def
      cryexts_group_first_block_def cryexts_group_blocks_def group_field_def f g n by simp_all
  show sets: "bitmaps b = bitmaps a" "side b = side a" "inode_space b = inode_space a" "inode_block b = inode_block a"
    unfolding fun_eq_iff bitmaps_def side_def inode_space_def inode_block_def
      cryexts_journal_block_is_internal_def f g n n2 by simp_all
  have v: "cryexts_data_block_valid b = cryexts_data_block_valid a"
    unfolding fun_eq_iff cryexts_data_block_valid_def Let_def f g n2 by simp
  then show "block_space b = block_space a" by (simp add: block_space_def)
  have m: "marked b = marked a" unfolding marked_def v f n n2 c ..
  have p: "area_ok b = area_ok a" "groups_ok b = groups_ok a"
    unfolding area_ok_def groups_ok_def f g n n2 by simp_all
  show ok: "alloc_ok b = alloc_ok a"
    unfolding alloc_ok_def sets f g n n2 p m c by simp
  have t: "block_taken b = block_taken a"
    unfolding fun_eq_iff block_taken_def block_group_def block_bit_def f g n n2 c by simp
  show "block_used b = block_used a" if "alloc_ok a"
    using block_place(4) [OF that] block_place(4) [of b] that ok v t
    by (auto simp: block_used_def cryexts_block_bitmap_used_def split: if_splits)
qed

lemma dir_sets:
  "alloc_ok dir_fs" "block_space dir_fs = block_space file_fs" "bitmaps dir_fs = [1, 2]"
  "side dir_fs = side file_fs" "block_used dir_fs = block_used file_fs" "inode_block dir_fs 1 = 4"
  "1 \<in> inode_space dir_fs" "\<not> faulty dir_fs" "cryexts_dir_index_feature_enabled dir_fs"
  "cryexts_max_inodes dir_fs = 224"
proof -
  have g: "has_flag 0x8C0 CRYEXTS_FEATURE_INCOMPAT_BLOCK_GROUPS = cryexts_has_block_groups file_fs"
    by (simp add: file_sel has_flag_def const_simps)
  note f = features_sets [OF g, where j = False, folded dir_fs_def]
  show "alloc_ok dir_fs" "block_space dir_fs = block_space file_fs" "bitmaps dir_fs = [1, 2]"
    "side dir_fs = side file_fs" "block_used dir_fs = block_used file_fs"
    using f file_fs_ok by (simp_all add: file_sel)
  show "inode_block dir_fs 1 = 4" "1 \<in> inode_space dir_fs" "\<not> faulty dir_fs"
    "cryexts_dir_index_feature_enabled dir_fs" "cryexts_max_inodes dir_fs = 224"
    using f(6,7) file_sel(1)
    by (simp_all add: inode_block_def inode_space_def dir_fs_def file_fs_def sample_fs_def sample_sb_def faulty_def
        upd_disk_sb_def cryexts_dir_index_feature_enabled_def has_flag_def const_simps cryexts_max_inodes_def
        cryexts_inodes_count_def)
qed

lemma dir_sample:
  "dir_shape dir_inode" "i_size dir_inode = of_nat BLOCK_SIZE" "i_ino dir_inode = 1" "dir_place dir_inode dir_fs 1"
  "ino_ok dir_fs 1" "ino_ok dir_fs 9" "index_free dir_inode dir_fs" "index_place dir_inode dir_fs"
proof -
  show sh: "dir_shape dir_inode" "i_size dir_inode = of_nat BLOCK_SIZE" "i_ino dir_inode = 1"
    by (simp_all add: dir_shape_def dir_inode_def info_def zero_info_def BLOCK_SIZE_def)
  have f: "dblock dir_inode 0 = 20" "idx dir_inode = 21"
    by (simp_all add: dblock_def idx_def dir_inode_def info_def const_simps)
  have free: "x \<notin> set (bitmaps dir_fs) \<and> x \<notin> side dir_fs" if "x \<in> block_space dir_fs - block_used dir_fs" for x
  proof -
    have "unat x div 8 = 12" using that unfolding dir_sets(2,5) by (simp add: file_used block_space_def)
    then have "96 \<le> unat x" "unat x < 104" by auto
    then show ?thesis by (auto simp: dir_sets file_sel)
  qed
  have im: "dblock dir_inode ` {..<1} = {20}" using f(1) by (auto simp: image_def)
  have use: "20 \<in> block_used dir_fs" "21 \<in> block_used dir_fs" "4 \<notin> block_space dir_fs"
    unfolding dir_sets(2,5) by (simp_all add: file_used block_space_def cryexts_data_block_valid_def file_sel)
  show "dir_place dir_inode dir_fs 1"
    unfolding dir_place_def im using free use f dir_sets sh by (simp add: disk_ok_def file_sel)
  show "ino_ok dir_fs 1" "ino_ok dir_fs 9" by (simp_all add: ino_ok_def dir_sets CRYEXTS_ROOT_INO_def)
  show "index_free dir_inode dir_fs" "index_place dir_inode dir_fs"
    using dir_sets f by (simp_all add: index_free_def index_place_def)
qed

definition made_dir :: "inode \<times> fs" where
  "made_dir = snd (cryexts_init_dir_block 1 (dir_inode, dir_fs))"

lemma made_dir:
  "cryexts_init_dir_block 1 (dir_inode, dir_fs) = (Inr (), made_dir)"
  "dir_ok (fst made_dir) (snd made_dir)" "dir_map (fst made_dir) (snd made_dir) = [dot \<mapsto> 1, dotdot \<mapsto> 1]"
  "\<not> faulty (snd made_dir)" "ino_ok (snd made_dir) 9" "dir_entries (fst made_dir) (snd made_dir) = dots_entries 1 1"
proof -
  obtain r i' st' where run: "cryexts_init_dir_block 1 (dir_inode, dir_fs) = (r, (i', st'))" by (metis prod.exhaust)
  note s = dir_sample
  have "ino_ok dir_fs (i_ino dir_inode)" using s(3,5) by simp
  note i = init_dir [OF s(1,2,4) this s(5,7) run]
  have r: "r = Inr ()" using i s(8) dir_sets(8) by blast
  then have m: "made_dir = (i', st')" using run by (simp add: made_dir_def)
  have l: "like dir_fs st'" using i r by blast
  show "cryexts_init_dir_block 1 (dir_inode, dir_fs) = (Inr (), made_dir)" using run r m by simp
  show "dir_ok (fst made_dir) (snd made_dir)" "dir_map (fst made_dir) (snd made_dir) = [dot \<mapsto> 1, dotdot \<mapsto> 1]"
    "dir_entries (fst made_dir) (snd made_dir) = dots_entries 1 1"
    unfolding m using i r s(3) by simp_all
  show "\<not> faulty (snd made_dir)" unfolding m using l dir_sets(8) by (simp add: like_def)
  have "cryexts_max_inodes st' = 224"
    using l dir_sets(10) by (simp add: like_def geo_view_def cryexts_max_inodes_def cryexts_inodes_count_def)
  then show "ino_ok (snd made_dir) 9" unfolding m by (simp add: ino_ok_def CRYEXTS_ROOT_INO_def)
qed

lemma made_roomy: "roomy (dir_entries (fst made_dir) (snd made_dir)) [97]"
proof -
  have "dir_rec_len 1 = 16" "dir_rec_len 2 = 16" using dir_rec_len(1) [of 1] dir_rec_len(1) [of 2] by simp_all
  then have "slot_in (dots_entries 1 1 ! 0) (dir_rec_len (length [97 :: u8])) (Split 16 16)"
    by (simp add: dots_entries_def dot_entry_def rec_len_def)
  moreover have "0 < length (dots_entries 1 1)" by (simp add: dots_entries_def)
  ultimately show ?thesis unfolding roomy_def made_dir(6) by blast
qed

theorem init_dir_correct_witness:
  "cryexts_init_dir_block 1 (dir_inode, dir_fs) = (Inr (), made_dir) \<and>
    dir_ok (fst made_dir) (snd made_dir) \<and> dir_map (fst made_dir) (snd made_dir) = [dot \<mapsto> 1, dotdot \<mapsto> 1]"
proof -
  note s = dir_sample
  have "ino_ok dir_fs (i_ino dir_inode)" using s(3,5) by simp
  from init_dir_correct [OF s(1,2,4) this s(5,7), of "Inr ()" "fst made_dir" "snd made_dir"] made_dir(1) s(3)
  show ?thesis by simp
qed

theorem find_entry_correct_witness:
  "(\<exists>block off i' st'. cryexts_find_entry dotdot made_dir = (Inr (block, off), (i', st')) \<and>
      de_inode (dirent_at (bdata (snd made_dir) block) off) = 1) \<and>
    fst (cryexts_find_entry [97] made_dir) = Inl ENOENT"
proof -
  obtain i st where m: "made_dir = (i, st)" by (cases made_dir)
  note d = made_dir(2-4) [unfolded m, simplified]
  obtain r i' st' where f: "cryexts_find_entry dotdot (i, st) = (r, (i', st'))" by (metis prod.exhaust)
  have nf: "\<not> (\<exists>t. d_fault st t)" using d(3) by (simp add: faulty_def)
  obtain q j s where g: "cryexts_find_entry [97] (i, st) = (q, (j, s))" by (metis prod.exhaust)
  from find_entry_correct [OF d(1) f] find_entry_correct [OF d(1) g] show ?thesis
    unfolding m f g using d(2) nf d(3) by (auto simp: dot_def dotdot_def split: sum.splits)
qed

theorem add_entry_correct_witness:
  "(\<exists>i' st'. cryexts_add_entry [97] 9 0x81A4 made_dir = (Inr (), (i', st')) \<and> dir_ok i' st' \<and>
      dir_map i' st' = [dot \<mapsto> 1, dotdot \<mapsto> 1, [97] \<mapsto> 9]) \<and>
    fst (cryexts_add_entry dot 9 0x81A4 made_dir) = Inl EEXIST"
proof -
  obtain i st where m: "made_dir = (i, st)" by (cases made_dir)
  note d = made_dir(2-5) [unfolded m, simplified]
  obtain r i' st' where f: "cryexts_add_entry [97] 9 0x81A4 (i, st) = (r, (i', st'))" by (metis prod.exhaust)
  obtain q j s where g: "cryexts_add_entry dot 9 0x81A4 (i, st) = (q, (j, s))" by (metis prod.exhaust)
  have new: "dir_map i st [97] = None" "[97] \<noteq> dot" "[97] \<noteq> dotdot" using d(2) by (simp_all add: dot_def dotdot_def)
  have "roomy (dir_entries i st) [97]" using made_roomy unfolding m by simp
  then show ?thesis
    using add_entry_correct [OF d(1) _ d(4) f] add_entry_correct [OF d(1) _ d(4) g] new d(2,3)
    unfolding m f g by (auto simp: dot_def)
qed

theorem delete_entry_correct_witness:
  "\<exists>i' st'. cryexts_delete_entry dotdot made_dir = (Inr (), (i', st')) \<and> dir_ok i' st' \<and>
     dir_map i' st' = [dot \<mapsto> 1]"
proof -
  obtain i st where m: "made_dir = (i, st)" by (cases made_dir)
  note d = made_dir(2-4) [unfolded m, simplified]
  obtain r i' st' where f: "cryexts_delete_entry dotdot (i, st) = (r, (i', st'))" by (metis prod.exhaust)
  have "[dot \<mapsto> 1, dotdot \<mapsto> 1](dotdot := None) = [dot \<mapsto> 1 :: u64]" by (auto simp: dot_def dotdot_def)
  with delete_entry_correct [OF d(1) f] show ?thesis unfolding m f using d(2,3) by auto
qed

theorem dir_refines_map_witness:
  "\<exists>rs i' st'. dir_run [AddName [97] 9 0x81A4, FindName [97], DelName dotdot, FindName dotdot] made_dir = (rs, (i', st')) \<and>
     dir_ok i' st' \<and> length rs = 4 \<and> rs ! 3 = Inl ENOENT"
proof -
  obtain i st where m: "made_dir = (i, st)" by (cases made_dir)
  note d = made_dir(2-5) [unfolded m, simplified]
  let ?ops = "[AddName [97] 9 0x81A4, FindName [97], DelName dotdot, FindName dotdot]"
  obtain rs i' st' where f: "dir_run ?ops (i, st) = (rs, (i', st'))" by (metis prod.exhaust)
  have "list_all (op_ok st) ?ops" using d(4) by simp
  from dir_refines_map [OF d(1,3) this f]
  have ok: "dir_ok i' st'" and run: "map_run ?ops rs [dot \<mapsto> 1, dotdot \<mapsto> 1] = Some (dir_map i' st')"
    using d(2) by simp_all
  obtain a b c e where rs: "rs = [a, b, c, e]" using f by (auto split: prod.splits)
  obtain M where "map_run ?ops rs [dot \<mapsto> 1, dotdot \<mapsto> 1] = Some M" using run by blast
  then have "e = Inl ENOENT"
    unfolding rs
    by (cases a; cases b; cases c; cases e) (auto simp: dot_def dotdot_def split: option.splits if_splits)
  then show ?thesis unfolding m f using ok rs by simp
qed

end
