(* ===== verification/Xattr.thy ===== *)
theory Xattr
  imports InodeDisk Crypto Journal
begin

text \<open>
  Extended attributes (\<open>xattr.c\<close>): the attribute block of an inode and its one overflow block, the
  operations of the \<open>user.\<close> handler (get, set, list), and the attribute
  \<open>user.cryexts.policy_id\<close>, which is not stored as an attribute but is the number of the policy.

  Attributes are read into an array of 32 items, changed there and written back; the array is a
  list here and \<open>count\<close> its length.  Names are C strings: byte lists without the final zero, and a
  name read from a block ends at the first zero in it.  A null \<open>buffer\<close> or \<open>value\<close> is \<open>None\<close>; a call
  with a buffer returns the bytes written there beside the length.  \<open>kstrtou32\<close> is the kernel's
  function, an argument of the definitions that reach it.
\<close>

section \<open>Format\<close>

definition CRYEXTS_XATTR_MAGIC :: u32 where [const_simps]: "CRYEXTS_XATTR_MAGIC = 0x58415454"
definition CRYEXTS_XATTR_NAMESPACE_USER :: u8 where [const_simps]: "CRYEXTS_XATTR_NAMESPACE_USER = 1"
definition CRYEXTS_XATTR_MAX_ITEMS :: nat where [const_simps]: "CRYEXTS_XATTR_MAX_ITEMS = 32"
definition CRYEXTS_XATTR_MAX_NAME_LEN :: nat where [const_simps]: "CRYEXTS_XATTR_MAX_NAME_LEN = 247"
definition XATTR_HEADER_BYTES :: nat where [const_simps]: "XATTR_HEADER_BYTES = 16"
definition XATTR_ENTRY_BYTES :: nat where [const_simps]: "XATTR_ENTRY_BYTES = 4"
definition XATTR_CREATE :: u32 where [const_simps]: "XATTR_CREATE = 1"
definition XATTR_REPLACE :: u32 where [const_simps]: "XATTR_REPLACE = 2"

text \<open>\<open>"user."\<close> and \<open>"cryexts.policy_id"\<close>.\<close>

definition XATTR_USER_PREFIX :: bytes where "XATTR_USER_PREFIX = [117, 115, 101, 114, 46]"
definition CRYEXTS_XATTR_POLICY_NAME :: bytes where
  "CRYEXTS_XATTR_POLICY_NAME =
     [99, 114, 121, 101, 120, 116, 115, 46, 112, 111, 108, 105, 99, 121, 95, 105, 100]"

record cryexts_xattr_block_header =
  xh_magic :: u32
  xh_entries :: u16
  xh_used_bytes :: u16
  xh_overflow_block :: u64

definition enc_xh :: "cryexts_xattr_block_header \<Rightarrow> bytes" where
  "enc_xh h = le32 (xh_magic h) @ le16 (xh_entries h) @ le16 (xh_used_bytes h) @ le64 (xh_overflow_block h)"

definition dec_xh :: "bytes \<Rightarrow> cryexts_xattr_block_header" where
  "dec_xh b = \<lparr>xh_magic = get32 b 0, xh_entries = get16 b 4, xh_used_bytes = get16 b 6,
     xh_overflow_block = get64 b 8\<rparr>"

record cryexts_xattr_entry =
  xe_name_len :: u8
  xe_namespace_id :: u8
  xe_value_len :: u16

definition enc_xe :: "cryexts_xattr_entry \<Rightarrow> bytes" where
  "enc_xe e = [xe_name_len e, xe_namespace_id e] @ le16 (xe_value_len e)"

definition dec_xe :: "bytes \<Rightarrow> cryexts_xattr_entry" where
  "dec_xe b = \<lparr>xe_name_len = le_word (get_bytes b 0 1), xe_namespace_id = le_word (get_bytes b 1 1),
     xe_value_len = get16 b 2\<rparr>"

record cryexts_xattr_item =
  xi_name :: bytes
  xi_value_len :: u16
  xi_value :: bytes

text \<open>The C string at the start of some bytes.\<close>

definition c_string :: "bytes \<Rightarrow> bytes" where "c_string bs = takeWhile (\<lambda>b. b \<noteq> 0) bs"

section \<open>Features\<close>

definition cryexts_xattr_feature_enabled :: "fs \<Rightarrow> bool" where
  "cryexts_xattr_feature_enabled st \<longleftrightarrow>
     has_flag (sb_features_incompat (s_disk_sb st)) CRYEXTS_FEATURE_INCOMPAT_XATTR"

definition cryexts_policy_feature_enabled :: "fs \<Rightarrow> bool" where
  "cryexts_policy_feature_enabled st \<longleftrightarrow>
     has_flag (sb_features_incompat (s_disk_sb st)) CRYEXTS_FEATURE_INCOMPAT_ENCRYPTION_POLICY"

definition cryexts_large_xattr_feature_enabled :: "fs \<Rightarrow> bool" where
  "cryexts_large_xattr_feature_enabled st \<longleftrightarrow>
     has_flag (sb_features_ro_compat (s_disk_sb st)) CRYEXTS_FEATURE_RO_COMPAT_LARGE_XATTR"

definition cryexts_inode_xattr_block :: "inode \<Rightarrow> u64" where
  "cryexts_inode_xattr_block i = (case i_private i of None \<Rightarrow> 0 | Some b \<Rightarrow> ii_xattr_block b)"

section \<open>Reading\<close>

text \<open>\<open>n\<close> more entries from an offset on; the offset behind them and the items.\<close>

fun parse_entries :: "bytes \<Rightarrow> nat \<Rightarrow> nat \<Rightarrow> (fs, nat \<times> cryexts_xattr_item list) act" where
  "parse_entries block 0 offset = retE (offset, [])"
| "parse_entries block (Suc n) offset =
     (if BLOCK_SIZE < offset + XATTR_ENTRY_BYTES then failE EUCLEAN
      else (let xe = dec_xe (drop offset block); name_len = unat (xe_name_len xe);
                value_len = unat (xe_value_len xe);
                total_len = XATTR_ENTRY_BYTES + name_len + value_len in
            if name_len = 0 \<or> CRYEXTS_XATTR_MAX_NAME_LEN < name_len then failE EUCLEAN
            else if xe_namespace_id xe \<noteq> CRYEXTS_XATTR_NAMESPACE_USER then failE EUCLEAN
            else if BLOCK_SIZE < offset + total_len then failE EUCLEAN
            else bindE (if value_len \<noteq> 0 then kmalloc else retE ()) (\<lambda>_.
                 bindE (parse_entries block n (offset + total_len)) (\<lambda>(end_offset, items).
                 retE (end_offset,
                   \<lparr>xi_name = c_string (get_bytes block (offset + XATTR_ENTRY_BYTES) name_len),
                    xi_value_len = xe_value_len xe,
                    xi_value = get_bytes block (offset + XATTR_ENTRY_BYTES + name_len) value_len\<rparr> # items)))))"

text \<open>The items of a block, when \<open>base\<close> items were read before, and its overflow block.\<close>

definition cryexts_parse_xattr_block ::
    "bytes \<Rightarrow> nat \<Rightarrow> (fs, cryexts_xattr_item list \<times> u64) act" where
  "cryexts_parse_xattr_block block base =
     (let xh = dec_xh block; entries = unat (xh_entries xh); used = unat (xh_used_bytes xh) in
      if xh_magic xh \<noteq> CRYEXTS_XATTR_MAGIC then failE EUCLEAN
      else if CRYEXTS_XATTR_MAX_ITEMS < base + entries \<or> BLOCK_SIZE - XATTR_HEADER_BYTES < used
      then failE EUCLEAN
      else bindE (parse_entries block entries XATTR_HEADER_BYTES) (\<lambda>(offset, items).
           if offset \<noteq> XATTR_HEADER_BYTES + used then failE EUCLEAN
           else retE (items, xh_overflow_block xh)))"

definition cryexts_load_xattrs :: "inode \<Rightarrow> (fs, cryexts_xattr_item list) act" where
  "cryexts_load_xattrs i =
     (let block = cryexts_inode_xattr_block i in
      if block = 0 then retE []
      else bindE kmalloc (\<lambda>_.
           bindE (cryexts_read_file_block block) (\<lambda>buf.
           bindE (cryexts_parse_xattr_block buf 0) (\<lambda>(items, overflow_block).
           if overflow_block = 0 then retE items
           else bindE (checkE cryexts_large_xattr_feature_enabled EUCLEAN) (\<lambda>_.
                bindE (cryexts_read_file_block overflow_block) (\<lambda>buf.
                bindE (cryexts_parse_xattr_block buf (length items)) (\<lambda>(more, secondary_overflow).
                if secondary_overflow \<noteq> 0 then failE EUCLEAN else retE (items @ more))))))))"

section \<open>Writing\<close>

definition cryexts_xattr_item_size :: "cryexts_xattr_item \<Rightarrow> nat" where
  "cryexts_xattr_item_size item =
     XATTR_ENTRY_BYTES + length (xi_name item) + unat (xi_value_len item)"

definition enc_item :: "cryexts_xattr_item \<Rightarrow> bytes" where
  "enc_item item = enc_xe \<lparr>xe_name_len = of_nat (length (xi_name item)),
       xe_namespace_id = CRYEXTS_XATTR_NAMESPACE_USER, xe_value_len = xi_value_len item\<rparr> @
     xi_name item @ take (unat (xi_value_len item)) (xi_value item)"

fun pack_entries :: "cryexts_xattr_item list \<Rightarrow> nat \<Rightarrow> bytes \<Rightarrow> (nat \<times> bytes) res" where
  "pack_entries [] offset buf = Inr (offset, buf)"
| "pack_entries (item # items) offset buf =
     (let total_len = cryexts_xattr_item_size item in
      if BLOCK_SIZE < offset + total_len then Inl ENOSPC
      else pack_entries items (offset + total_len) (put_bytes offset (enc_item item) buf))"

definition USED_BYTES_OFF :: nat where [const_simps]: "USED_BYTES_OFF = 6"

definition cryexts_pack_xattr_block :: "cryexts_xattr_item list \<Rightarrow> u64 \<Rightarrow> bytes res" where
  "cryexts_pack_xattr_block items overflow_block =
     (let buf = put_bytes 0 (enc_xh \<lparr>xh_magic = CRYEXTS_XATTR_MAGIC,
            xh_entries = of_nat (length items), xh_used_bytes = 0,
            xh_overflow_block = overflow_block\<rparr>) zero_block in
      case pack_entries items XATTR_HEADER_BYTES buf of
        Inl e \<Rightarrow> Inl e
      | Inr (offset, buf) \<Rightarrow>
          Inr (put_bytes USED_BYTES_OFF (le16 (of_nat (offset - XATTR_HEADER_BYTES))) buf))"

text \<open>Release the blocks of the attributes.\<close>

definition cryexts_free_xattr_storage :: "unit iact" where
  "cryexts_free_xattr_storage = (\<lambda>(i, st).
     let block = cryexts_inode_xattr_block i in
     if block = 0 then (Inr (), (i, st))
     else bindE (onfs kmalloc) (\<lambda>_.
          bindE (onfs (cryexts_read_file_block block)) (\<lambda>buf.
          let overflow_block = xh_overflow_block (dec_xh buf) in
          runE [
            (if overflow_block \<noteq> 0 then onfs (cryexts_free_block overflow_block) else retE ()),
            onfs (cryexts_free_block block),
            oni (upd_info (\<lambda>b. b\<lparr>ii_xattr_block := 0\<rparr>))])) (i, st))"

text \<open>How many items go to the first block, of which \<open>used\<close> bytes are taken.\<close>

fun root_entries :: "cryexts_xattr_item list \<Rightarrow> nat \<Rightarrow> nat" where
  "root_entries [] used = 0"
| "root_entries (item # items) used =
     (let item_size = cryexts_xattr_item_size item in
      if BLOCK_SIZE < used + item_size then 0 else Suc (root_entries items (used + item_size)))"

text \<open>The block of the attributes and whether it is new, and its overflow block as it was.\<close>

definition xattr_root :: "inode \<Rightarrow> (fs, u64 \<times> bool) act" where
  "xattr_root i =
     (let root_block = cryexts_inode_xattr_block i in
      if root_block = 0 then bindE cryexts_alloc_block (\<lambda>b. retE (b, True)) else retE (root_block, False))"

definition old_overflow :: "u64 \<Rightarrow> bool \<Rightarrow> (fs, u64) act" where
  "old_overflow root_block root_new =
     bindE kmalloc (\<lambda>_. if root_new then retE 0
       else bindE (cryexts_read_file_block root_block) (\<lambda>buf. retE (xh_overflow_block (dec_xh buf))))"

definition items_fit :: "cryexts_xattr_item list \<Rightarrow> bool" where
  "items_fit items \<longleftrightarrow>
     list_all (\<lambda>item. cryexts_xattr_item_size item \<le> BLOCK_SIZE - XATTR_HEADER_BYTES) items"

text \<open>The overflow block for \<open>n\<close> items, and whether it is new.\<close>

definition xattr_overflow :: "nat \<Rightarrow> u64 \<Rightarrow> (fs, u64 \<times> bool) act" where
  "xattr_overflow n overflow_block =
     (if n = 0 then retE (overflow_block, False)
      else bindE (checkE cryexts_large_xattr_feature_enabled ENOSPC) (\<lambda>_.
           if overflow_block = 0 then bindE cryexts_alloc_block (\<lambda>b. retE (b, True))
           else retE (overflow_block, False)))"

definition record_and_write :: "u64 \<Rightarrow> bytes \<Rightarrow> (fs, unit) act" where
  "record_and_write block buf =
     runE [cryexts_journal_record_block block, cryexts_write_file_block block buf]"

definition from_res :: "'a res \<Rightarrow> ('s, 'a) act" where "from_res r = (\<lambda>s. (r, s))"

text \<open>Pack and write both blocks, the overflow block first.\<close>

definition write_xattr_blocks ::
    "u64 \<Rightarrow> u64 \<Rightarrow> cryexts_xattr_item list \<Rightarrow> cryexts_xattr_item list \<Rightarrow> (fs, unit) act" where
  "write_xattr_blocks root_block overflow_block root_items overflow_items =
     bindE (if overflow_items = [] then retE zero_block
            else bindE kmalloc (\<lambda>_. from_res (cryexts_pack_xattr_block overflow_items 0))) (\<lambda>overflow_buf.
     bindE (from_res (cryexts_pack_xattr_block root_items
              (if overflow_items = [] then 0 else overflow_block))) (\<lambda>root_buf.
     runE [
       (if overflow_items = [] then retE () else record_and_write overflow_block overflow_buf),
       record_and_write root_block root_buf]))"

definition free_if :: "bool \<Rightarrow> u64 \<Rightarrow> fs \<Rightarrow> fs" where
  "free_if c block st = (if c then ignoreE (cryexts_free_block block) st else st)"

definition touch_ctime :: "unit iact" where
  "touch_ctime = (\<lambda>(i, st). (Inr (), (i\<lparr>i_ctime := d_now st\<rparr>, st)))"

text \<open>The part after which an error releases what was allocated; the root block and the old
  overflow block.\<close>

definition place_xattrs :: "inode \<Rightarrow> cryexts_xattr_item list \<Rightarrow> (fs, u64 \<times> u64) act" where
  "place_xattrs i items =
     bindE (xattr_root i) (\<lambda>(root_block, root_new).
     let n = root_entries items XATTR_HEADER_BYTES; free_root = free_if root_new root_block in
     bindE (on_errE
       (bindE (old_overflow root_block root_new) (\<lambda>old_overflow_block.
        bindE (if items_fit items then retE () else failE ENOSPC) (\<lambda>_.
        bindE (xattr_overflow (length items - n) old_overflow_block) (\<lambda>(overflow_block, overflow_new).
          retE (old_overflow_block, overflow_block, overflow_new)))))
       (\<lambda>_. free_root)) (\<lambda>(old_overflow_block, overflow_block, overflow_new).
     bindE (on_errE (write_xattr_blocks root_block overflow_block (take n items) (drop n items))
       (\<lambda>_ st. free_if overflow_new overflow_block (free_root st))) (\<lambda>_.
       retE (root_block, if n = length items then old_overflow_block else 0))))"

definition cryexts_write_xattrs :: "cryexts_xattr_item list \<Rightarrow> unit iact" where
  "cryexts_write_xattrs items = (\<lambda>(i, st).
     if items = [] then cryexts_free_xattr_storage (i, st)
     else bindE (onfs (place_xattrs i items)) (\<lambda>(root_block, unused).
       runE [
         oni (upd_info (\<lambda>b. b\<lparr>ii_xattr_block := root_block\<rparr>)),
         touch_ctime,
         cryexts_write_inode_to_disk,
         (if unused \<noteq> 0 then onfs (cryexts_free_block unused) else retE ())]) (i, st))"

section \<open>The policy attribute\<close>

text \<open>\<open>scnprintf(tmp, sizeof(tmp), "%u", v)\<close>.\<close>

fun decimal :: "nat \<Rightarrow> bytes" where
  "decimal n = (if n < 10 then [] else decimal (n div 10)) @ [48 + of_nat (n mod 10)]"

declare decimal.simps [simp del]

text \<open>What a call with this buffer and size returns for some data.\<close>

definition fill_buffer :: "bool \<Rightarrow> nat \<Rightarrow> nat \<Rightarrow> bytes \<Rightarrow> (nat \<times> bytes) res" where
  "fill_buffer buffer cap len data =
     (if \<not> buffer then Inr (len, []) else if cap < len then Inl ERANGE else Inr (len, data))"

definition cryexts_policy_xattr_get :: "inode \<Rightarrow> bool \<Rightarrow> nat \<Rightarrow> (nat \<times> bytes) res" where
  "cryexts_policy_xattr_get i buffer cap =
     (let tmp = decimal (unat (cryexts_inode_policy_id i)) in fill_buffer buffer cap (length tmp) tmp)"

definition POLICY_TMP_BYTES :: nat where [const_simps]: "POLICY_TMP_BYTES = 32"

definition parse_policy :: "(bytes \<Rightarrow> u32 res) \<Rightarrow> bytes option \<Rightarrow> u32 res" where
  "parse_policy kstrtou32 value =
     (case value of None \<Rightarrow> Inr 0
      | Some v \<Rightarrow> if v = [] \<or> POLICY_TMP_BYTES \<le> length v then Inl EINVAL else kstrtou32 (c_string v))"

text \<open>A file that has data cannot change its policy.\<close>

definition policy_busy :: "bool iact" where
  "policy_busy = (\<lambda>(i, st).
     if \<not> (S_ISREG (i_mode i) \<or> S_ISLNK (i_mode i)) then (Inr False, (i, st))
     else if 0 < sint (i_size i) then (Inr True, (i, st))
     else bindE cryexts_inode_block_count (\<lambda>n. retE (n \<noteq> 0)) (i, st))"

definition cryexts_policy_xattr_set ::
    "(bytes \<Rightarrow> u32 res) \<Rightarrow> crypt_info \<Rightarrow> bytes option \<Rightarrow> unit iact" where
  "cryexts_policy_xattr_set kstrtou32 c value = (\<lambda>(i, st).
     case parse_policy kstrtou32 value of Inl e \<Rightarrow> (Inl e, (i, st))
     | Inr policy \<Rightarrow>
         if policy = cryexts_inode_policy_id i then (Inr (), (i, st))
         else if cryexts_policy_table_enabled st \<and> \<not> cryexts_policy_exists c st policy
         then (Inl EINVAL, (i, st))
         else bindE policy_busy (\<lambda>busy (i, st).
                if busy then (Inl EBUSY, (i, st))
                else (case cryexts_set_inode_policy_id policy i of
                        Inl e \<Rightarrow> (Inl e, (i, st))
                      | Inr i \<Rightarrow> runE [touch_ctime, cryexts_write_inode_to_disk] (i, st))) (i, st))"

section \<open>The handler\<close>

definition cryexts_find_xattr_item :: "bytes \<Rightarrow> cryexts_xattr_item list \<Rightarrow> nat option" where
  "cryexts_find_xattr_item name items =
     List.find (\<lambda>k. xi_name (items ! k) = name) [0..<length items]"

definition cryexts_user_xattr_get :: "inode \<Rightarrow> bytes \<Rightarrow> bool \<Rightarrow> nat \<Rightarrow> (fs, nat \<times> bytes) act" where
  "cryexts_user_xattr_get i name buffer cap =
     bindE kmalloc (\<lambda>_ st.
       if name = [] then (Inl EINVAL, st)
       else if \<not> cryexts_xattr_feature_enabled st \<and> name \<noteq> CRYEXTS_XATTR_POLICY_NAME
       then (Inl EOPNOTSUPP, st)
       else if name = CRYEXTS_XATTR_POLICY_NAME
       then (if \<not> cryexts_policy_feature_enabled st then (Inl EOPNOTSUPP, st)
             else (cryexts_policy_xattr_get i buffer cap, st))
       else bindE (cryexts_load_xattrs i) (\<lambda>items.
              case cryexts_find_xattr_item name items of None \<Rightarrow> failE ENODATA
              | Some idx \<Rightarrow>
                  let item = items ! idx; len = unat (xi_value_len item) in
                  from_res (fill_buffer buffer cap len (take len (xi_value item)))) st)"

text \<open>Set, replace or remove an attribute in the array.\<close>

definition change_items ::
    "bytes \<Rightarrow> bytes option \<Rightarrow> u32 \<Rightarrow> cryexts_xattr_item list \<Rightarrow> (fs, cryexts_xattr_item list) act" where
  "change_items name value flags items =
     (let idx = cryexts_find_xattr_item name items in
      if has_flag flags XATTR_CREATE \<and> idx \<noteq> None then failE EEXIST
      else if has_flag flags XATTR_REPLACE \<and> idx = None then failE ENODATA
      else (case value of
        None \<Rightarrow> (case idx of None \<Rightarrow> failE ENODATA
                 | Some k \<Rightarrow> retE (take k items @ drop (Suc k) items))
      | Some v \<Rightarrow>
          let copy = (if v \<noteq> [] then kmalloc else retE ()) in
          (case idx of
             Some k \<Rightarrow> bindE copy (\<lambda>_. retE (items[k := (items ! k)\<lparr>xi_value := v,
               xi_value_len := of_nat (length v)\<rparr>]))
           | None \<Rightarrow>
               if CRYEXTS_XATTR_MAX_ITEMS \<le> length items then failE ENOSPC
               else bindE copy (\<lambda>_. retE (items @ [\<lparr>xi_name = name, xi_value_len = of_nat (length v),
                 xi_value = v\<rparr>])))))"

text \<open>A change of the inode in one transaction.\<close>

definition in_transaction :: "unit iact \<Rightarrow> unit iact" where
  "in_transaction m =
     bindE (onfs cryexts_journal_begin) (\<lambda>_.
     bindE (on_errE m (\<lambda>_ (i, st). (i, cryexts_journal_abort st))) (\<lambda>_.
       onfs cryexts_journal_commit))"

text \<open>An attribute that is stored: read the items, change them, write them back in a transaction
  (\<open>txn\<close>).\<close>

definition set_attr ::
    "(unit iact \<Rightarrow> unit iact) \<Rightarrow> bytes \<Rightarrow> bytes option \<Rightarrow> u32 \<Rightarrow> unit iact" where
  "set_attr txn name value flags = (\<lambda>(i, st).
     bindE (onfs (cryexts_load_xattrs i)) (\<lambda>items.
     bindE (onfs (change_items name value flags items)) (\<lambda>items.
       txn (cryexts_write_xattrs items))) (i, st))"

definition cryexts_user_xattr_set ::
    "(bytes \<Rightarrow> u32 res) \<Rightarrow> crypt_info \<Rightarrow> bytes \<Rightarrow> bytes option \<Rightarrow> u32 \<Rightarrow> unit iact" where
  "cryexts_user_xattr_set kstrtou32 c name value flags =
     bindE (onfs kmalloc) (\<lambda>_ (i, st).
       if name = [] then (Inl EINVAL, (i, st))
       else if name = CRYEXTS_XATTR_POLICY_NAME
       then (if \<not> cryexts_policy_feature_enabled st then (Inl EOPNOTSUPP, (i, st))
             else in_transaction (cryexts_policy_xattr_set kstrtou32 c value) (i, st))
       else if \<not> cryexts_xattr_feature_enabled st then (Inl EOPNOTSUPP, (i, st))
       else if CRYEXTS_XATTR_MAX_NAME_LEN < length name then (Inl ERANGE, (i, st))
       else set_attr in_transaction name value flags (i, st))"

text \<open>The names, each behind its prefix and with its final zero.\<close>

definition list_entry :: "bytes \<Rightarrow> bytes" where
  "list_entry name = XATTR_USER_PREFIX @ name @ [0]"

definition policy_list :: "fs \<Rightarrow> bytes" where
  "policy_list st = (if cryexts_policy_feature_enabled st then list_entry CRYEXTS_XATTR_POLICY_NAME else [])"

definition cryexts_listxattr :: "inode \<Rightarrow> bool \<Rightarrow> nat \<Rightarrow> (fs, nat \<times> bytes) act" where
  "cryexts_listxattr i buffer cap =
     bindE kmalloc (\<lambda>_.
     bindE (\<lambda>st. if \<not> cryexts_xattr_feature_enabled st then (Inr [], st) else cryexts_load_xattrs i st)
       (\<lambda>items st.
         let data = policy_list st @ concat (map (\<lambda>item. list_entry (xi_name item)) items) in
         (fill_buffer buffer cap (length data) data, st)))"

end
