(* ===== verification/XattrBlock.thy ===== *)
theory XattrBlock
  imports Xattr DirGrow FileTruncate
begin

text \<open>
  One attribute block: what packing items writes, parsing reads back (\<open>packed\<close> says what a block
  that holds items looks like).
\<close>

section \<open>Items\<close>

definition item_ok :: "cryexts_xattr_item \<Rightarrow> bool" where
  "item_ok item \<longleftrightarrow> xi_name item \<noteq> [] \<and> length (xi_name item) \<le> CRYEXTS_XATTR_MAX_NAME_LEN \<and>
     0 \<notin> set (xi_name item) \<and> unat (xi_value_len item) = length (xi_value item)"

lemma length_enc_xe [simp]: "length (enc_xe e) = 4"
  by (simp add: enc_xe_def)

lemma length_enc_xh [simp]: "length (enc_xh h) = 16"
  by (simp add: enc_xh_def)

lemma dec_enc_xh: "dec_xh (enc_xh h @ bs) = h"
  by (simp add: dec_xh_def enc_xh_def layout_simps)

lemma get_bytes_prefix: "m \<le> n \<Longrightarrow> get_bytes (take n bs) 0 m = get_bytes bs 0 m"
  by (simp add: get_bytes_def min_def)

lemma dec_enc_xe: "dec_xe (enc_xe e @ bs) = e"
  by (simp add: dec_xe_def enc_xe_def get_bytes_def get16_def)

lemma length_enc_item: "item_ok item \<Longrightarrow> length (enc_item item) = cryexts_xattr_item_size item"
  by (simp add: enc_item_def cryexts_xattr_item_size_def item_ok_def const_simps)

lemma c_string_id: "0 \<notin> set bs \<Longrightarrow> c_string bs = bs"
  unfolding c_string_def by (rule takeWhile_eq_all_conv [THEN iffD2]) auto

abbreviation items_size :: "cryexts_xattr_item list \<Rightarrow> nat" where
  "items_size items \<equiv> sum_list (map cryexts_xattr_item_size items)"

abbreviation enc_items :: "cryexts_xattr_item list \<Rightarrow> bytes" where
  "enc_items items \<equiv> concat (map enc_item items)"

lemma length_enc_items: "list_all item_ok items \<Longrightarrow> length (enc_items items) = items_size items"
  by (induction items) (simp_all add: length_enc_item)

section \<open>Packing\<close>

lemma pack_entries:
  assumes "list_all item_ok items" "length buf = BLOCK_SIZE" "off \<le> BLOCK_SIZE"
  shows "pack_entries items off buf =
    (if off + items_size items \<le> BLOCK_SIZE
     then Inr (off + items_size items, put_bytes off (enc_items items) buf) else Inl ENOSPC)"
  using assms
proof (induction items arbitrary: off buf)
  case Nil
  then show ?case by (simp add: put_bytes_def)
next
  case (Cons item items)
  have len: "length (enc_item item) = cryexts_xattr_item_size item" "list_all item_ok items"
    using Cons.prems(1) length_enc_item by simp_all
  note rest = length_enc_items [OF len(2)]
  show ?case
  proof (cases "off + cryexts_xattr_item_size item \<le> BLOCK_SIZE")
    case True
    let ?b = "put_bytes off (enc_item item) buf"
    have b: "length ?b = BLOCK_SIZE" using True len(1) Cons.prems(2) by simp
    have "put_bytes (off + cryexts_xattr_item_size item) (enc_items items) ?b =
        put_bytes off (enc_item item @ enc_items items) buf"
      if "off + (cryexts_xattr_item_size item + items_size items) \<le> BLOCK_SIZE"
      using that len(1) Cons.prems(2) rest by (simp add: put_bytes_def ac_simps)
    then show ?thesis
      using Cons.IH [OF len(2) b True] True Cons.prems(2) by (simp add: Let_def not_less ac_simps)
  next
    case False
    then show ?thesis by (simp add: Let_def)
  qed
qed

text \<open>A block that holds these items and names that overflow block.\<close>

definition packed :: "bytes \<Rightarrow> cryexts_xattr_item list \<Rightarrow> u64 \<Rightarrow> bool" where
  "packed buf items overflow_block \<longleftrightarrow> length buf = BLOCK_SIZE \<and> 16 + items_size items \<le> BLOCK_SIZE \<and>
     dec_xh buf = \<lparr>xh_magic = CRYEXTS_XATTR_MAGIC, xh_entries = of_nat (length items),
       xh_used_bytes = of_nat (items_size items), xh_overflow_block = overflow_block\<rparr> \<and>
     get_bytes buf 16 (items_size items) = enc_items items"

lemma pack_packed:
  assumes "list_all item_ok items" "cryexts_pack_xattr_block items ov = Inr buf"
  shows "packed buf items ov"
proof -
  let ?h = "\<lparr>xh_magic = CRYEXTS_XATTR_MAGIC, xh_entries = of_nat (length items), xh_used_bytes = 0,
     xh_overflow_block = ov\<rparr>"
  let ?z = "put_bytes 0 (enc_xh ?h) zero_block" and ?n = "items_size items"
  have z: "length ?z = BLOCK_SIZE" by (simp add: BLOCK_SIZE_def)
  note len = length_enc_items [OF assms(1)]
  have fit: "16 + ?n \<le> BLOCK_SIZE" and buf: "buf = put_bytes 6 (le16 (of_nat ?n)) (put_bytes 16 (enc_items items) ?z)"
    using assms(2) pack_entries [OF assms(1) z, of 16]
    by (simp_all add: cryexts_pack_xattr_block_def const_simps BLOCK_SIZE_def split: if_splits)
  let ?y = "put_bytes 16 (enc_items items) ?z"
  have y: "length ?y = BLOCK_SIZE" using fit len z by simp
  have b: "length buf = BLOCK_SIZE" unfolding buf using y by (simp add: BLOCK_SIZE_def)
  have body: "get_bytes buf 16 ?n = enc_items items"
    unfolding buf using y z fit len by (simp add: get_put_bytes_disjoint)
  have head: "get_bytes buf o' k = get_bytes (enc_xh ?h) o' k" if "o' + k \<le> 6 \<or> 8 \<le> o'" "o' + k \<le> 16" for o' k
  proof -
    have "get_bytes buf o' k = get_bytes ?y o' k"
      unfolding buf by (rule get_put_bytes_disjoint) (use y that fit in auto)
    also have "\<dots> = get_bytes ?z o' k"
      by (rule get_put_bytes_disjoint) (use z that fit len in auto)
    also have "\<dots> = get_bytes (enc_xh ?h) o' k"
      using that(2) by (simp add: put_bytes_def get_bytes_def)
    finally show ?thesis .
  qed
  have used: "get_bytes buf 6 2 = le16 (of_nat ?n)" unfolding buf using y fit by simp
  have "xh_magic (dec_xh buf) = CRYEXTS_XATTR_MAGIC" "xh_entries (dec_xh buf) = of_nat (length items)"
    "xh_overflow_block (dec_xh buf) = ov"
    using dec_enc_xh [of ?h "[]"] head [of 0 4] head [of 4 2] head [of 8 8]
    by (simp_all add: dec_xh_def get32_def get16_def get64_def)
  moreover have "xh_used_bytes (dec_xh buf) = of_nat ?n" using used by (simp add: dec_xh_def get16_def)
  ultimately have "dec_xh buf = \<lparr>xh_magic = CRYEXTS_XATTR_MAGIC, xh_entries = of_nat (length items),
       xh_used_bytes = of_nat ?n, xh_overflow_block = ov\<rparr>" by simp
  with b fit body show ?thesis by (simp add: packed_def)
qed

lemma pack_fits:
  assumes "list_all item_ok items"
  shows "(\<exists>buf. cryexts_pack_xattr_block items ov = Inr buf) \<longleftrightarrow> 16 + items_size items \<le> BLOCK_SIZE"
    "cryexts_pack_xattr_block items ov = Inl e \<Longrightarrow> e = ENOSPC"
  using pack_entries [OF assms, of "put_bytes 0 (enc_xh \<lparr>xh_magic = CRYEXTS_XATTR_MAGIC,
            xh_entries = of_nat (length items), xh_used_bytes = 0, xh_overflow_block = ov\<rparr>) zero_block" 16]
  by (auto simp: cryexts_pack_xattr_block_def const_simps BLOCK_SIZE_def split: if_splits)

section \<open>Parsing\<close>

lemma parse_entries:
  assumes "list_all item_ok items" "get_bytes block off (items_size items) = enc_items items"
    and "off + items_size items \<le> BLOCK_SIZE" "length block = BLOCK_SIZE"
    and run: "parse_entries block (length items) off st = (r, st')"
  shows "ticked st st' \<and> (r = Inr (off + items_size items, items) \<or> r = Inl ENOMEM \<and> faulty st)"
  using assms
proof (induction items arbitrary: off st st' r)
  case Nil
  then show ?case by (simp add: retE_def)
next
  case (Cons item items)
  let ?s = "cryexts_xattr_item_size item"
  have ok: "item_ok item" "list_all item_ok items" using Cons.prems(1) by simp_all
  note len = length_enc_item [OF ok(1)]
  have split: "get_bytes block off (?s + n) = get_bytes block off ?s @ get_bytes block (off + ?s) n" for n
    unfolding get_bytes_def take_add drop_drop by (simp only: add.commute)
  have parts: "get_bytes block off ?s = enc_item item"
      "get_bytes block (off + ?s) (items_size items) = enc_items items"
  proof -
    have "get_bytes block off ?s @ get_bytes block (off + ?s) (items_size items) = enc_item item @ enc_items items"
      using Cons.prems(2) split [of "items_size items"] by simp
    moreover have "length (get_bytes block off ?s) = length (enc_item item)"
      using Cons.prems(3,4) len by (simp add: get_bytes_def)
    ultimately show "get_bytes block off ?s = enc_item item"
      "get_bytes block (off + ?s) (items_size items) = enc_items items"
      using append_eq_append_conv by blast+
  qed
  have drop: "drop off block = enc_item item @ drop (off + ?s) block"
    using parts(1) append_take_drop_id [of ?s "drop off block"] by (simp add: get_bytes_def ac_simps)
  let ?xe = "\<lparr>xe_name_len = of_nat (length (xi_name item)),
       xe_namespace_id = CRYEXTS_XATTR_NAMESPACE_USER, xe_value_len = xi_value_len item\<rparr>"
  have xe: "dec_xe (drop off block) = ?xe" unfolding drop enc_item_def append_assoc by (rule dec_enc_xe)
  have n: "unat (of_nat (length (xi_name item)) :: u8) = length (xi_name item)"
    using ok(1) by (simp add: item_ok_def const_simps unat_of_nat)
  have sz: "?s = 4 + length (xi_name item) + length (xi_value item)" "unat (xi_value_len item) = length (xi_value item)"
    using ok(1) by (simp_all add: item_ok_def cryexts_xattr_item_size_def const_simps)
  have nm: "get_bytes block (off + 4) (length (xi_name item)) = xi_name item"
    "get_bytes block (off + 4 + length (xi_name item)) (length (xi_value item)) = xi_value item"
  proof -
    obtain R where d: "drop off block = enc_xe ?xe @ xi_name item @ xi_value item @ R"
      using drop sz(2) by (simp add: enc_item_def)
    have g: "get_bytes block (off + m) k = take k (drop m (drop off block))" for m k
      by (simp add: get_bytes_def add.commute)
    show "get_bytes block (off + 4) (length (xi_name item)) = xi_name item" unfolding g d by simp
    show "get_bytes block (off + 4 + length (xi_name item)) (length (xi_value item)) = xi_value item"
      unfolding add.assoc g d by simp
  qed
  obtain q s where k: "(if length (xi_value item) \<noteq> 0 then kmalloc else retE ()) st = (q, s)" by (metis prod.exhaust)
  have t: "ticked st s \<and> (q = Inr () \<or> q = Inl ENOMEM \<and> faulty st)"
    using k ticked_io [of ENOMEM st q s] by (simp add: kmalloc_def retE_def split: if_splits)
  let ?it = "\<lparr>xi_name = c_string (xi_name item), xi_value_len = xi_value_len item, xi_value = xi_value item\<rparr>"
  have it: "?it = item" using ok(1) by (simp add: item_ok_def c_string_id)
  have step: "parse_entries block (Suc (length items)) off =
      bindE (if length (xi_value item) \<noteq> 0 then kmalloc else retE ()) (\<lambda>_.
        bindE (parse_entries block (length items) (off + ?s)) (\<lambda>(end_offset, items). retE (end_offset, item # items)))"
    using ok(1) Cons.prems(3) sz it
    by (simp add: xe n nm const_simps item_ok_def Let_def)
  show ?case
  proof (cases q)
    case (Inl e)
    then show ?thesis using Cons.prems(5) k t step by (auto simp: bindE_def)
  next
    case (Inr u)
    obtain q2 s2 where p: "parse_entries block (length items) (off + ?s) s = (q2, s2)" by (metis prod.exhaust)
    have le: "off + ?s + items_size items \<le> BLOCK_SIZE" using Cons.prems(3) by simp
    note ih = Cons.IH [OF ok(2) parts(2) le Cons.prems(4) p]
    show ?thesis
      using Cons.prems(5) k t step Inr p ih ticked_trans [of st s s2] ticked_faulty [of st s]
      by (auto simp: bindE_def retE_def ac_simps)
  qed
qed

text \<open>Parsing a packed block.\<close>

lemma packed_size:
  assumes "packed buf items ov"
  shows "unat (of_nat (items_size items) :: u16) = items_size items"
  using assms by (simp add: packed_def unat_of_nat BLOCK_SIZE_def)

lemma parse_packed:
  assumes "list_all item_ok items" "packed buf items ov" "base + length items \<le> CRYEXTS_XATTR_MAX_ITEMS"
    and "cryexts_parse_xattr_block buf base st = (r, st')"
  shows "ticked st st'" "r = Inr (items, ov) \<or> r = Inl ENOMEM \<and> faulty st"
proof -
  note p = assms(2) [unfolded packed_def] and sz = packed_size [OF assms(2)]
  have n: "unat (of_nat (length items) :: u16) = length items"
    using assms(3) by (simp add: unat_of_nat const_simps)
  obtain q s where e: "parse_entries buf (length items) 16 st = (q, s)" by (metis prod.exhaust)
  note pe = parse_entries [OF assms(1) _ _ _ e]
  have "ticked st s \<and> (q = Inr (16 + items_size items, items) \<or> q = Inl ENOMEM \<and> faulty st)"
    using pe p by simp
  then show "ticked st st'" "r = Inr (items, ov) \<or> r = Inl ENOMEM \<and> faulty st"
    using assms(3,4) p e n sz
    by (auto simp: cryexts_parse_xattr_block_def Let_def const_simps bindE_def retE_def split: if_splits)
qed

end
