(* ===== verification/XattrStore.thy ===== *)
theory XattrStore
  imports XattrBlock
begin

text \<open>
  Steps that take blocks and write to given ones (\<open>run_to\<close>), writing an inode of any kind, and the
  invariant of the attributes of an inode: which blocks hold them, and which items these hold.
\<close>

section \<open>Taking blocks and writing to some\<close>

definition run_to :: "u64 set \<Rightarrow> u64 set \<Rightarrow> fs \<Rightarrow> fs \<Rightarrow> bool" where
  "run_to W X a b \<longleftrightarrow> took X a b \<and> within (set (bitmaps a) \<union> side a \<union> W) a b"

lemma run_toD:
  assumes "run_to W X a b"
  shows "took X a b" "disk_ok b" "alloc_ok b" "geo_view b = geo_view a" "bitmaps b = bitmaps a" "side b = side a"
    "block_used b = block_used a \<union> X" "block_space b = block_space a" "like a b"
proof -
  show t: "took X a b" using assms by (simp add: run_to_def)
  then show "disk_ok b" "alloc_ok b" and g: "geo_view b = geo_view a"
    and "block_used b = block_used a \<union> X" "block_space b = block_space a"
    by (simp_all add: took_def disk_ok_def)
  show "bitmaps b = bitmaps a" "side b = side a" using geo_basic(5,8) [OF g] by simp_all
  show "like a b" using assms within_like unfolding run_to_def by blast
qed

lemma run_to_refl: "disk_ok a \<Longrightarrow> run_to {} {} a a"
  by (simp add: run_to_def took_refl)

lemma run_to_trans:
  assumes "run_to W X a b" "run_to V Y b c"
  shows "run_to (W \<union> V) (X \<union> Y) a c"
proof -
  have "took (X \<union> Y) a c" using took_trans assms by (auto simp: run_to_def)
  moreover have "within ((set (bitmaps a) \<union> side a \<union> W) \<union> (set (bitmaps a) \<union> side a \<union> V)) a c"
    by (rule within_trans [of _ a b]) (use assms run_toD(5,6) [OF assms(1)] in \<open>simp_all add: run_to_def\<close>)
  ultimately show ?thesis by (simp add: run_to_def Un_ac)
qed

lemma run_to_ticked:
  assumes "run_to W X a b" "ticked b c"
  shows "run_to W X a c"
proof -
  obtain t where c: "c = b\<lparr>d_tick := t\<rparr>" using assms(2) by (auto simp: ticked_def)
  show ?thesis using assms(1) unfolding c run_to_def by (simp add: took_tick within_tick)
qed

lemma run_to_alloc:
  assumes ok: "disk_ok a" and r: "cryexts_alloc_block a = (q, b)"
  shows "q = Inr x \<Longrightarrow> run_to {} {x} a b" "q = Inl e \<Longrightarrow> b = a"
proof -
  have al: "alloc_ok a" using ok by (simp add: disk_ok_def)
  note r' = r [unfolded cryexts_alloc_block_def]
  show "run_to {} {x} a b" if "q = Inr x"
    using take_block [OF ok r'] alloc_within [OF al r'] that by (simp add: run_to_def)
  show "b = a" if "q = Inl e" by (rule block_alloc_fail [OF al r' [unfolded that]])
qed

lemma new_apart:
  assumes "disk_ok a" "run_to W X a b" "x \<in> X"
  shows "x \<notin> block_used a" "x \<notin> set (bitmaps a)" "x \<notin> side a" "x \<noteq> 0" "x \<in> block_space a"
proof -
  have x: "x \<in> block_space a - block_used a" using assms by (auto simp: run_to_def took_def)
  then show "x \<notin> block_used a" "x \<notin> set (bitmaps a)" "x \<notin> side a" "x \<in> block_space a"
    using assms(1) by (auto simp: disk_ok_def)
  then show "x \<noteq> 0" by (auto simp: side_def)
qed

lemma run_to_give:
  assumes rt: "run_to W X a b" and ok: "disk_ok a" and x: "x \<in> X" and r: "cryexts_free_block x b = (q, c)"
  shows "q = Inr () \<and> run_to W (X - {x}) a c"
proof -
  obtain d where d: "cryexts_free_block x b = (Inr (), d)" "took (X - {x}) a d"
    using give_back [OF run_toD(1) [OF rt] ok x] by blast
  have "within (set (bitmaps a) \<union> side a) b c"
    using free_block_within [OF run_toD(3) [OF rt] r] run_toD(5,6) [OF rt] by simp
  then have "within ((set (bitmaps a) \<union> side a \<union> W) \<union> (set (bitmaps a) \<union> side a)) a c"
    using within_trans rt by (auto simp: run_to_def)
  then show ?thesis using d r by (simp add: run_to_def Un_ac)
qed

lemma run_to_write:
  assumes ok: "disk_ok a" and w: "within (W \<union> side a) a b" and d: "set (bitmaps a) \<inter> W = {}"
  shows "run_to W {} a b"
proof -
  have "alloc_ok a" using ok by (simp add: disk_ok_def)
  then have "set (bitmaps a) \<inter> (W \<union> side a) = {}" using d alloc_okD(5) by blast
  from took_same [OF took_refl [OF ok] within_same [OF w this]] have "took {} a b" .
  moreover have "within (set (bitmaps a) \<union> side a \<union> W) a b" by (rule within_mono [OF w]) blast
  ultimately show ?thesis by (simp add: run_to_def)
qed

lemma run_to_bdata:
  assumes "run_to W X a b" "x \<notin> W" "x \<notin> set (bitmaps a)" "x \<notin> side a"
  shows "bdata b x = bdata a x"
  using within_bdata [of "set (bitmaps a) \<union> side a \<union> W" a b x] assms by (simp add: run_to_def side_def)

lemma run_to_mono: "run_to W X a b \<Longrightarrow> W \<subseteq> V \<Longrightarrow> run_to V X a b"
  by (auto simp: run_to_def intro: within_mono)

section \<open>Writing an inode\<close>

lemma record_within:
  assumes "alloc_ok a" "cryexts_journal_record_block b a = (r, c)"
  shows "within (side a) a c"
  using keepsD [OF frame_record [OF alloc_ok_side [OF assms(1)]] alloc_frame_refl] assms(2)
  by (metis snd_conv within_frame)

lemma dirty_within:
  assumes "alloc_ok a" "b \<noteq> 0" "b \<notin> side a"
  shows "within (insert b (side a)) a (record_and_dirty (Some b) (set_bdata b buf a))"
    "bdata (record_and_dirty (Some b) (set_bdata b buf a)) b = bdata (set_bdata b buf a) b"
proof -
  have w: "within {b} a (set_bdata b buf a)" by (rule within_set) (use assms in simp_all)
  note r = within_record(1) [OF assms(1) within_geo [OF w], of "Some b"]
  show "within (insert b (side a)) a (record_and_dirty (Some b) (set_bdata b buf a))"
    using within_trans [OF w r] by simp
  show "bdata (record_and_dirty (Some b) (set_bdata b buf a)) b = bdata (set_bdata b buf a) b"
    by (rule within_bdata [OF r _ assms(3)]) (simp add: side_def)
qed

text \<open>What writing the extent blocks changes in the inode.\<close>

definition info_like :: "cryexts_inode_info \<Rightarrow> cryexts_inode_info \<Rightarrow> bool" where
  "info_like b b' \<longleftrightarrow> meta_list b' = meta_list b \<and> ii_xattr_block b' = ii_xattr_block b \<and>
     ii_encryption_policy_id b' = ii_encryption_policy_id b \<and> ii_use_extents b' = ii_use_extents b \<and>
     ii_inode_flags b' = ii_inode_flags b \<and> length (ii_extent_leaves b') = length (ii_extent_leaves b)"

lemma info_like_trans: "info_like a b \<Longrightarrow> info_like b c \<Longrightarrow> info_like a c"
  by (simp add: info_like_def)

lemma info_like_refl [simp]: "info_like b b"
  by (simp add: info_like_def)

lemma leaf_block_meta:
  assumes "cryexts_extent_tree_v2_inode b" "k < length (ii_extent_leaves b)"
  shows "lf_block (ii_extent_leaves b ! k) \<in> meta_blocks b"
  using assms by (simp add: meta_blocks_def meta_list_def)

lemma write_leaf_eq:
  fixes b k
  defines "leaf \<equiv> ii_extent_leaves b ! k"
  assumes "i_private i = Some b"
  shows "cryexts_write_extent_leaf k (i, st) =
    (if length (ii_extent_leaves b) \<le> k \<or> lf_block leaf = 0 \<or> lf_extents leaf = [] then (Inl EUCLEAN, (i, st))
     else (case io_step EIO st of
       (Inl e, s) \<Rightarrow> (Inl e, (i, s))
     | (Inr _, s) \<Rightarrow> (Inr (), (i\<lparr>i_private := Some (b\<lparr>ii_extent_leaves := (ii_extent_leaves b)[k := leaf\<lparr>lf_checksum :=
           (if cryexts_metadata_csum_enabled s
            then cryexts_extent_leaf_checksum s (lf_block leaf) (enc_extent_block (lf_extents leaf)) else 0)\<rparr>]\<rparr>)\<rparr>,
         record_and_dirty (Some (lf_block leaf)) (set_bdata (lf_block leaf) (enc_extent_block (lf_extents leaf)) s)))))"
  using assms(2)
  by (simp add: cryexts_write_extent_leaf_def leaf_def info_def Let_def bindE_def onfs_def upd_info_def
      split: prod.split sum.split)

lemma write_overflow_eq:
  fixes b
  defines "x \<equiv> ii_extent_overflow_block b" and "buf \<equiv> enc_extent_block (ii_overflow_extents b)"
  assumes "i_private i = Some b"
  shows "cryexts_write_extent_overflow (i, st) =
    (if ii_overflow_extents b = [] then (Inr (), (i\<lparr>i_private := Some (b\<lparr>ii_extent_overflow_checksum := 0\<rparr>)\<rparr>, st))
     else if x = 0 then (Inl EUCLEAN, (i, st))
     else (case io_step EIO st of
       (Inl e, s) \<Rightarrow> (Inl e, (i, s))
     | (Inr _, s) \<Rightarrow> (Inr (), (i\<lparr>i_private := Some (b\<lparr>ii_extent_overflow_checksum :=
           (if cryexts_metadata_csum_enabled s then cryexts_extent_overflow_checksum s x buf else 0)\<rparr>)\<rparr>,
         record_and_dirty (Some x) (set_bdata x buf s)))))"
  using assms(3)
  by (simp add: cryexts_write_extent_overflow_def x_def buf_def info_def Let_def bindE_def onfs_def upd_info_def
      split: prod.split sum.split)

lemma leaf_within:
  assumes ok: "alloc_ok st" and i: "i_private i = Some b" "cryexts_extent_tree_v2_inode b"
    and r: "cryexts_write_extent_leaf k (i, st) = (r, (i', st'))"
  shows "within (meta_blocks b \<union> side st) st st' \<and> (\<exists>b'. i' = i\<lparr>i_private := Some b'\<rparr> \<and> info_like b b')"
proof -
  let ?ls = "ii_extent_leaves b" and ?x = "lf_block (ii_extent_leaves b ! k)"
  have same: ?thesis if "i' = i" "ticked st st'"
    using that i(1) ticked_within [of st st'] by (intro conjI exI [of _ b]) simp_all
  show ?thesis
  proof (cases "k < length ?ls \<and> ?x \<noteq> 0 \<and> lf_extents (?ls ! k) \<noteq> []")
    case False
    then have bad: "length ?ls \<le> k \<or> ?x = 0 \<or> lf_extents (?ls ! k) = []" by auto
    have "i' = i \<and> st' = st" using r unfolding write_leaf_eq [OF i(1)] if_P [OF bad] by simp
    then show ?thesis by (intro same) simp_all
  next
    case True
    obtain q s where q: "io_step EIO st = (q, s)" by (metis prod.exhaust)
    note t = ticked_io [OF q]
    show ?thesis
    proof (cases q)
      case (Inl e)
      then have "i' = i \<and> st' = s"
        using r True q by (simp add: write_leaf_eq [OF i(1)])
      then show ?thesis using t by (intro same) simp_all
    next
      case (Inr u)
      let ?buf = "enc_extent_block (lf_extents (?ls ! k))"
      define c where "c = (if cryexts_metadata_csum_enabled s then cryexts_extent_leaf_checksum s ?x ?buf else 0)"
      have st': "st' = record_and_dirty (Some ?x) (set_bdata ?x ?buf s)"
        "i' = i\<lparr>i_private := Some (b\<lparr>ii_extent_leaves := ?ls[k := (?ls ! k)\<lparr>lf_checksum := c\<rparr>]\<rparr>)\<rparr>"
        using r True q Inr by (simp_all add: write_leaf_eq [OF i(1)] c_def)
      have w: "within {?x} s (set_bdata ?x ?buf s)" by (rule within_set) (use True in simp_all)
      have g: "geo_view (set_bdata ?x ?buf s) = geo_view st"
        using within_geo [OF w] ticked_fields(4) [of st s] t by simp
      have "within ({} \<union> ({?x} \<union> side st)) st st'"
        unfolding st'(1) using within_trans [OF ticked_within within_trans [OF w within_record(1) [OF ok g]]] t by blast
      then have "within (meta_blocks b \<union> side st) st st'"
        by (rule within_mono) (use leaf_block_meta [OF i(2)] True in auto)
      moreover have "map lf_block (?ls[k := (?ls ! k)\<lparr>lf_checksum := c\<rparr>]) = map lf_block ?ls"
        by (simp add: map_update) (metis True length_map list_update_id nth_map)
      then have "info_like b (b\<lparr>ii_extent_leaves := ?ls[k := (?ls ! k)\<lparr>lf_checksum := c\<rparr>]\<rparr>)"
        by (simp add: info_like_def meta_list_def cryexts_extent_tree_v2_inode_def)
      ultimately show ?thesis using st'(2) by blast
    qed
  qed
qed

lemma leaves_within:
  assumes "alloc_ok st" "i_private i = Some b" "cryexts_extent_tree_v2_inode b" "meta_blocks b \<inter> set (bitmaps st) = {}"
    and "eachE cryexts_write_extent_leaf ks (i, st) = (r, (i', st'))"
  shows "within (meta_blocks b \<union> side st) st st' \<and> (\<exists>b'. i' = i\<lparr>i_private := Some b'\<rparr> \<and> info_like b b')"
  using assms
proof (induction ks arbitrary: i st b)
  case Nil
  then show ?case by (auto simp: retE_def intro!: exI [of _ b])
next
  case (Cons k ks)
  obtain q j s where l: "cryexts_write_extent_leaf k (i, st) = (q, (j, s))" by (metis prod.exhaust)
  from leaf_within [OF Cons.prems(1-3) l] obtain c where c: "within (meta_blocks b \<union> side st) st s"
      "j = i\<lparr>i_private := Some c\<rparr>" "info_like b c" by blast
  show ?case
  proof (cases q)
    case (Inl e)
    then show ?thesis using Cons.prems(5) l c by (auto simp: bindE_def)
  next
    case (Inr u)
    have m: "meta_blocks c = meta_blocks b" "cryexts_extent_tree_v2_inode c"
      using c(3) Cons.prems(3) by (simp_all add: info_like_def meta_blocks_def cryexts_extent_tree_v2_inode_def)
    have "set (bitmaps st) \<inter> (meta_blocks b \<union> side st) = {}"
      using Cons.prems(4) alloc_okD(5) [OF Cons.prems(1)] by blast
    then have "alloc_ok s" using alloc_same_sets(1) [OF Cons.prems(1) within_same [OF c(1)]] by blast
    moreover have bs: "bitmaps s = bitmaps st" "side s = side st" using geo_basic(5,8) [OF within_geo [OF c(1)]] by simp_all
    ultimately have "within (meta_blocks b \<union> side st) s st' \<and> (\<exists>b'. i' = j\<lparr>i_private := Some b'\<rparr> \<and> info_like c b')"
      using Cons.IH [of s j c] Cons.prems(4,5) l Inr m c(2) by (simp add: bindE_def)
    then show ?thesis using within_trans [OF c(1)] c(2,3) info_like_trans by fastforce
  qed
qed

lemma extents_within:
  assumes ok: "alloc_ok st" and i: "i_private i = Some b" "meta_blocks b \<inter> set (bitmaps st) = {}"
    and r: "write_extent_blocks (i, st) = (r, (i', st'))"
  shows "within (meta_blocks b \<union> side st) st st' \<and> (\<exists>b'. i' = i\<lparr>i_private := Some b'\<rparr> \<and> info_like b b')"
proof -
  have same: ?thesis if "i' = i" "ticked st st'"
    using that i(1) ticked_within [of st st'] by (intro conjI exI [of _ b]) simp_all
  consider "\<not> ii_use_extents b" | "ii_use_extents b" "cryexts_extent_tree_v2_inode b"
    | "ii_use_extents b" "\<not> cryexts_extent_tree_v2_inode b" by blast
  then show ?thesis
  proof cases
    case 1
    then have "i' = i \<and> st' = st" using r i by (simp add: write_extent_blocks_def cryexts_inode_uses_extents_def)
    then show ?thesis by (intro same) simp_all
  next
    case 2
    then have "eachE cryexts_write_extent_leaf [0..<length (ii_extent_leaves b)] (i, st) = (r, (i', st'))"
      using r i by (simp add: write_extent_blocks_def cryexts_inode_uses_extents_def info_def)
    then show ?thesis by (rule leaves_within [OF ok i(1) 2(2) i(2)])
  next
    case v2: 3
    let ?x = "ii_extent_overflow_block b" and ?buf = "enc_extent_block (ii_overflow_extents b)"
    have w: "cryexts_write_extent_overflow (i, st) = (r, (i', st'))"
      using r i v2 by (simp add: write_extent_blocks_def cryexts_inode_uses_extents_def info_def)
    have csum: "info_like b (b\<lparr>ii_extent_overflow_checksum := c\<rparr>)" for c
      by (simp add: info_like_def meta_list_def cryexts_extent_tree_v2_inode_def)
    obtain q s where q: "io_step EIO st = (q, s)" by (metis prod.exhaust)
    note t = ticked_io [OF q]
    consider "ii_overflow_extents b = []" | "ii_overflow_extents b \<noteq> []" "?x = 0 \<or> q \<noteq> Inr ()"
      | "ii_overflow_extents b \<noteq> [] \<and> ?x \<noteq> 0 \<and> q = Inr ()" by blast
    then show ?thesis
    proof cases
      case 1
      then have "i' = i\<lparr>i_private := Some (b\<lparr>ii_extent_overflow_checksum := 0\<rparr>)\<rparr> \<and> st' = st"
        using w by (simp add: write_overflow_eq [OF i(1)])
      then show ?thesis using csum by auto
    next
      case 2
      then have "i' = i \<and> ticked st st'"
        using w q t unfolding write_overflow_eq [OF i(1)] if_not_P [OF 2(1)]
        by (cases "?x = 0"; cases q) simp_all
      then show ?thesis by (intro same) simp_all
    next
      case True: 3
      define c where "c = (if cryexts_metadata_csum_enabled s then cryexts_extent_overflow_checksum s ?x ?buf else 0)"
      have st': "st' = record_and_dirty (Some ?x) (set_bdata ?x ?buf s)"
        "i' = i\<lparr>i_private := Some (b\<lparr>ii_extent_overflow_checksum := c\<rparr>)\<rparr>"
        using w True q by (simp_all add: write_overflow_eq [OF i(1)] c_def)
      have w: "within {?x} s (set_bdata ?x ?buf s)" by (rule within_set) (use True in simp_all)
      have g: "geo_view (set_bdata ?x ?buf s) = geo_view st"
        using within_geo [OF w] ticked_fields(4) [of st s] t by simp
      have "within ({} \<union> ({?x} \<union> side st)) st st'"
        unfolding st'(1) using within_trans [OF ticked_within within_trans [OF w within_record(1) [OF ok g]]] t by blast
      then have "within (meta_blocks b \<union> side st) st st'"
        by (rule within_mono) (use v2 True in \<open>auto simp: meta_blocks_def meta_list_def\<close>)
      then show ?thesis using st'(2) csum by blast
    qed
  qed
qed

lemma write_inode_run:
  assumes ok: "disk_ok st" and ino: "i_ino i \<in> inode_space st" and i: "i_private i = Some b"
    and m: "meta_blocks b \<inter> set (bitmaps st) = {}"
    and r: "cryexts_write_inode_to_disk (i, st) = (r, (i', st'))"
  shows "run_to (insert (inode_block st (i_ino i)) (meta_blocks b)) {} st st' \<and>
    (\<exists>n b'. i' = i\<lparr>i_blocks := n, i_private := Some b'\<rparr> \<and> info_like b b')"
proof -
  let ?x = "inode_block st (i_ino i)" and ?M = "meta_blocks b \<union> side st"
  let ?P = "\<lambda>i' st'. within (insert ?x ?M) st st' \<and>
    (\<exists>n b'. i' = i\<lparr>i_blocks := n, i_private := Some b'\<rparr> \<and> info_like b b')"
  have al: "alloc_ok st" using ok by (simp add: disk_ok_def)
  have x: "?x \<noteq> 0" "?x \<notin> set (bitmaps st)" using al ino by (auto simp: alloc_ok_def)
  obtain q st1 where g: "cryexts_get_disk_inode (i_ino i) st = (q, st1)" by (metis prod.exhaust)
  have t1: "ticked st st1" by (rule ticked_get_disk_inode(1) [OF g])
  have "?P i' st'"
  proof (cases q)
    case (Inl e)
    then have s: "i' = i" "st' = st1"
      using r g by (simp_all add: cryexts_write_inode_to_disk_def bindE_def onfs_def)
    have "i = i\<lparr>i_blocks := i_blocks i, i_private := Some b\<rparr>" using i by simp
    then show ?thesis unfolding s using ticked_within [OF t1] info_like_refl by blast
  next
    case (Inr p)
    have p: "fst p = ?x" using ticked_get_disk_inode(2) [OF g Inr] by simp
    obtain v j st2 where u: "update_sectors (i, st1) = (v, (j, st2))" by (metis prod.exhaust)
    note us = ticked_update_sectors [OF u]
    obtain n where j: "j = i\<lparr>i_blocks := n\<rparr>" using us(2) by blast
    have t2: "ticked st st2" by (rule ticked_trans [OF t1 us(1)])
    have bs: "bitmaps st2 = bitmaps st" "side st2 = side st" using geo_basic(5,8) [OF ticked_fields(4) [OF t2]] by simp_all
    have al2: "alloc_ok st2" using t2 took_tick [OF took_refl [OF ok]] by (auto simp: ticked_def took_def disk_ok_def)
    obtain w k st3 where e: "write_extent_blocks (j, st2) = (w, (k, st3))" by (metis prod.exhaust)
    have jp: "i_private j = Some b" using i j by simp
    obtain b' where b: "within ?M st2 st3" "k = j\<lparr>i_private := Some b'\<rparr>" "info_like b b'"
      using extents_within [OF al2 jp _ e] m bs by auto
    have w3: "within ?M st st3" using within_trans [OF ticked_within [OF t2, of "{}"] b(1)] by simp
    have put: "within {?x} st3 (put_disk_inode p d st3)" for d
      using p x(1) by (cases p) (simp add: put_disk_inode_def within_set)
    have kk: "k = i\<lparr>i_blocks := n, i_private := Some b'\<rparr>" using b(2) j by simp
    define fin where "fin = (case w of
        Inl _ \<Rightarrow> put_disk_inode p (half_written k) st3
      | Inr _ \<Rightarrow> record_and_dirty (Some (fst p)) (put_disk_inode p (disk_inode_of k (cached_next_orphan k st3)) st3))"
    have s: "i' = k" "st' = fin"
      using r g Inr u us(3) e i j
      by (auto simp: cryexts_write_inode_to_disk_def bindE_def onfs_def on_errE_def fin_def split: sum.splits)
    have wr: "within (side st) c (record_and_dirty y c)" if "geo_view c = geo_view st" for y c
      by (rule within_record(1) [OF al that])
    have gp: "geo_view (put_disk_inode p d st3) = geo_view st" for d
      using within_geo [OF put] within_geo [OF w3] by simp
    have "within ({?x} \<union> side st) st3 fin"
    proof (cases w)
      case (Inl e)
      then show ?thesis unfolding fin_def using within_mono [OF put, of "{?x} \<union> side st"] by simp
    next
      case (Inr u)
      then show ?thesis unfolding fin_def using within_trans [OF put wr [OF gp]] by simp
    qed
    from within_trans [OF w3 this] have "within (insert ?x ?M) st fin" by (rule within_mono) blast
    then show ?thesis unfolding s using kk b(3) by blast
  qed
  then have P: "within (insert ?x ?M) st st'"
    "\<exists>n b'. i' = i\<lparr>i_blocks := n, i_private := Some b'\<rparr> \<and> info_like b b'" by blast+
  have eq: "insert ?x ?M = insert ?x (meta_blocks b) \<union> side st" by blast
  have "set (bitmaps st) \<inter> insert ?x (meta_blocks b) = {}" using x(2) m by blast
  from run_to_write [OF ok P(1) [unfolded eq] this] P(2) show ?thesis by (rule conjI)
qed

end
