(* ===== verification/XattrMap.thy ===== *)
theory XattrMap
  imports XattrStore
begin

text \<open>
  The invariant of the attributes of an inode (\<open>attr_inv\<close>): where the items are.  Reading finds them;
  placing and writing other items keeps the invariant, with the blocks accounted for.
\<close>

section \<open>The invariant\<close>

definition items_ok :: "cryexts_xattr_item list \<Rightarrow> bool" where
  "items_ok items \<longleftrightarrow> list_all item_ok items \<and> distinct (map xi_name items) \<and>
     length items \<le> CRYEXTS_XATTR_MAX_ITEMS"

definition homes :: "u64 \<Rightarrow> u64 \<Rightarrow> u64 set" where "homes root ov = {root, ov} - {0}"

text \<open>The blocks of the attributes are used, and neither metadata nor blocks of the extents.\<close>

definition xattr_place :: "inode \<Rightarrow> fs \<Rightarrow> u64 set \<Rightarrow> bool" where
  "xattr_place i st X \<longleftrightarrow> disk_ok st \<and> i_ino i \<in> inode_space st \<and>
     inode_block st (i_ino i) \<notin> block_space st \<and> i_private i \<noteq> None \<and>
     (\<forall>x \<in> X \<union> meta_blocks (info i). x \<in> block_used st \<and> x \<notin> set (bitmaps st) \<and> x \<notin> side st) \<and>
     X \<inter> meta_blocks (info i) = {}"

text \<open>The first \<open>n\<close> items are in the first block, the others in the overflow block.\<close>

definition stored :: "fs \<Rightarrow> u64 \<Rightarrow> u64 \<Rightarrow> cryexts_xattr_item list \<Rightarrow> bool" where
  "stored st root ov items \<longleftrightarrow> root \<noteq> ov \<and> (\<exists>n \<le> length items.
     packed (bdata st root) (take n items) ov \<and>
     (if ov = 0 then n = length items
      else cryexts_large_xattr_feature_enabled st \<and> packed (bdata st ov) (drop n items) 0))"

definition attr_inv :: "inode \<Rightarrow> fs \<Rightarrow> u64 \<Rightarrow> cryexts_xattr_item list \<Rightarrow> bool" where
  "attr_inv i st ov items \<longleftrightarrow> items_ok items \<and> xattr_place i st (homes (cryexts_inode_xattr_block i) ov) \<and>
     (if cryexts_inode_xattr_block i = 0 then items = [] \<and> ov = 0
      else stored st (cryexts_inode_xattr_block i) ov items)"

lemma stored_cong:
  assumes "stored a root ov items" "bdata b root = bdata a root" "ov \<noteq> 0 \<Longrightarrow> bdata b ov = bdata a ov"
    and "cryexts_large_xattr_feature_enabled b = cryexts_large_xattr_feature_enabled a"
  shows "stored b root ov items"
  using assms by (auto simp: stored_def split: if_splits)

lemma large_within: "within S a b \<Longrightarrow> cryexts_large_xattr_feature_enabled b = cryexts_large_xattr_feature_enabled a"
  by (simp add: within_def cache_within_def csum_view_def cryexts_large_xattr_feature_enabled_def)

lemma place_run:
  assumes p: "xattr_place i a X" and rt: "run_to W Y a b"
    and Z: "Z \<subseteq> X \<union> Y" and meta: "meta_blocks (info j) = meta_blocks (info i)" "i_ino j = i_ino i" "i_private j \<noteq> None"
  shows "xattr_place j b Z"
proof -
  note d = run_toD [OF rt]
  have ok: "disk_ok a" using p by (simp add: xattr_place_def)
  have al: "alloc_ok a" "i_ino i \<in> inode_space a" using p by (simp_all add: xattr_place_def disk_ok_def)
  have eq: "inode_space b = inode_space a" "inode_block b (i_ino i) = inode_block a (i_ino i)"
    using geo_basic [OF d(4)] geo_valid(2) [OF d(4) al] by (simp_all add: inode_space_def)
  have y: "x \<notin> block_used a" "x \<notin> set (bitmaps a)" "x \<notin> side a" if "x \<in> Y" for x
    using new_apart [OF ok rt that] by simp_all
  have "meta_blocks (info i) \<subseteq> block_used a" "X \<inter> meta_blocks (info i) = {}"
    using p by (auto simp: xattr_place_def)
  then have "Z \<inter> meta_blocks (info i) = {}" using y(1) Z by blast
  moreover have "x \<in> block_used b \<and> x \<notin> set (bitmaps b) \<and> x \<notin> side b" if "x \<in> Z \<union> meta_blocks (info i)" for x
  proof (cases "x \<in> Y")
    case True
    then show ?thesis using y(2,3) d(5-7) by simp
  next
    case False
    then have "x \<in> X \<union> meta_blocks (info i)" using that Z by blast
    then show ?thesis using p d(5-7) by (simp add: xattr_place_def)
  qed
  ultimately show ?thesis
    using p d(2,8) eq meta by (simp add: xattr_place_def)
qed

lemma attr_ticked:
  assumes "attr_inv i st ov items" "ticked st s"
  shows "attr_inv i s ov items"
proof -
  have ok: "disk_ok st" using assms(1) by (simp add: attr_inv_def xattr_place_def)
  have rt: "run_to {} {} st s" by (rule run_to_ticked [OF run_to_refl [OF ok] assms(2)])
  have "xattr_place i s X" if "xattr_place i st X" for X
    by (rule place_run [OF that rt]) (use that in \<open>auto simp: xattr_place_def\<close>)
  moreover have "stored s root ov items" if "stored st root ov items" for root
    by (rule stored_cong [OF that]) (simp_all add: ticked_fields [OF assms(2)] cryexts_large_xattr_feature_enabled_def)
  ultimately show ?thesis using assms(1) by (auto simp: attr_inv_def split: if_splits)
qed

section \<open>Reading\<close>

lemma read_ticked:
  assumes "cryexts_read_file_block b st = (r, s)"
  shows "ticked st s" "r = Inr (bdata st b) \<or> r = Inl EIO \<and> faulty st"
  using assms by (auto simp: cryexts_read_file_block_def bindE_def io_step_def getE_def bdata_def faultyI split: if_splits)

lemma kmalloc_ticked:
  "kmalloc st = (r, s) \<Longrightarrow> ticked st s \<and> (r = Inr () \<or> r = Inl ENOMEM \<and> faulty st)"
  unfolding kmalloc_def by (rule ticked_io)

text \<open>A result that is the right one, unless the device failed.\<close>

definition unless_fault :: "'a res \<Rightarrow> 'a \<Rightarrow> fs \<Rightarrow> bool" where
  "unless_fault r x st \<longleftrightarrow> r = Inr x \<or> (r = Inl EIO \<or> r = Inl ENOMEM) \<and> faulty st"

lemma fault_step:
  assumes "m a = (q, b)" "ticked a b" "unless_fault q x a"
    and "bindE m k a = (r, c)" "\<And>s. ticked a s \<Longrightarrow> k x s = (r, c) \<Longrightarrow> ticked s c \<and> unless_fault r y s"
  shows "ticked a c \<and> unless_fault r y a"
proof (cases q)
  case (Inl e)
  then show ?thesis using assms by (auto simp: bindE_def unless_fault_def)
next
  case (Inr z)
  then have "k x b = (r, c)" using assms by (simp add: bindE_def unless_fault_def)
  then show ?thesis
    using assms(5) [OF assms(2)] assms(2) ticked_trans ticked_faulty [OF assms(2)] by (auto simp: unless_fault_def)
qed

lemma load_inv:
  assumes iv: "attr_inv i st ov items" and run: "cryexts_load_xattrs i st = (r, st')"
  shows "ticked st st' \<and> unless_fault r items st"
proof (cases "cryexts_inode_xattr_block i = 0")
  case True
  then show ?thesis
    using iv run by (simp add: attr_inv_def cryexts_load_xattrs_def retE_def unless_fault_def)
next
  case False
  let ?root = "cryexts_inode_xattr_block i"
  obtain n where n: "n \<le> length items" "packed (bdata st ?root) (take n items) ov"
    "if ov = 0 then n = length items
      else cryexts_large_xattr_feature_enabled st \<and> packed (bdata st ov) (drop n items) 0"
    using iv False by (auto simp: attr_inv_def stored_def)
  have it: "list_all item_ok (take n items)" "list_all item_ok (drop n items)" "length items \<le> CRYEXTS_XATTR_MAX_ITEMS"
    using iv by (auto simp: attr_inv_def items_ok_def list_all_iff dest: in_set_takeD in_set_dropD)
  have same: "bdata s = bdata st" "cryexts_large_xattr_feature_enabled s = cryexts_large_xattr_feature_enabled st"
    if "ticked st s" for s
    using ticked_fields [OF that] by (simp_all add: cryexts_large_xattr_feature_enabled_def)
  have alloc: "ticked a b \<and> unless_fault q () a" if "kmalloc a = (q, b)" for a b q
    using kmalloc_ticked [OF that] by (auto simp: unless_fault_def)
  have read: "ticked a b \<and> unless_fault q (bdata a x) a" if "cryexts_read_file_block x a = (q, b)" for a b q x
    using read_ticked [OF that] by (auto simp: unless_fault_def)
  have parse: "ticked a b \<and> unless_fault q (its, v) a"
    if "cryexts_parse_xattr_block buf base a = (q, b)" "list_all item_ok its" "packed buf its v"
      "base + length its \<le> CRYEXTS_XATTR_MAX_ITEMS" for a b q buf base its v
    using parse_packed [OF that(2,3,4,1)] by (auto simp: unless_fault_def)
  let ?two = "\<lambda>its. bindE (cryexts_read_file_block ov) (\<lambda>buf.
      bindE (cryexts_parse_xattr_block buf (length its)) (\<lambda>(more, secondary_overflow).
        if secondary_overflow \<noteq> 0 then failE EUCLEAN else retE (its @ more)))"
  let ?one = "\<lambda>(its, overflow_block). if overflow_block = 0 then retE its
           else bindE (checkE cryexts_large_xattr_feature_enabled EUCLEAN) (\<lambda>_.
                bindE (cryexts_read_file_block overflow_block) (\<lambda>buf.
                bindE (cryexts_parse_xattr_block buf (length its)) (\<lambda>(more, secondary_overflow).
                if secondary_overflow \<noteq> 0 then failE EUCLEAN else retE (its @ more))))"
  have two: "ticked a b \<and> unless_fault q items a" if "?two (take n items) a = (q, b)" "ticked st a" "ov \<noteq> 0" for a b q
  proof -
    obtain q1 b1 where q1: "cryexts_read_file_block ov a = (q1, b1)" by (metis prod.exhaust)
    show ?thesis
    proof (rule fault_step [OF q1 _ _ that(1)])
      show "ticked a b1" "unless_fault q1 (bdata a ov) a" using read [OF q1] by simp_all
      fix s assume s: "ticked a s" and k: "bindE (cryexts_parse_xattr_block (bdata a ov) (length (take n items)))
          (\<lambda>(more, secondary_overflow). if secondary_overflow \<noteq> 0 then failE EUCLEAN else retE (take n items @ more)) s = (q, b)"
      obtain q2 b2 where q2: "cryexts_parse_xattr_block (bdata a ov) (length (take n items)) s = (q2, b2)" by (metis prod.exhaust)
      have "packed (bdata a ov) (drop n items) 0" using n(3) that(3) same(1) [OF that(2)] by simp
      then have p: "ticked s b2" "unless_fault q2 (drop n items, 0) s"
        using parse [OF q2 it(2)] n(1) it(3) by simp_all
      show "ticked s b \<and> unless_fault q items s"
        by (rule fault_step [OF q2 p k]) (simp add: retE_def unless_fault_def)
    qed
  qed
  have one: "ticked a b \<and> unless_fault q items a" if "?one (take n items, ov) a = (q, b)" "ticked st a" for a b q
  proof (cases "ov = 0")
    case True
    then show ?thesis using that n(3) by (simp add: retE_def unless_fault_def)
  next
    case False
    have "bindE (checkE cryexts_large_xattr_feature_enabled EUCLEAN) (\<lambda>_. ?two (take n items)) a = ?two (take n items) a"
      using n(3) False same(2) [OF that(2)] by (simp add: bindE_def checkE_def)
    then show ?thesis using two [OF _ that(2) False] that(1) False by simp
  qed
  let ?three = "bindE (cryexts_read_file_block ?root) (\<lambda>buf. bindE (cryexts_parse_xattr_block buf 0) ?one)"
  have three: "ticked a b \<and> unless_fault q items a" if "?three a = (q, b)" "ticked st a" for a b q
  proof -
    obtain q1 b1 where q1: "cryexts_read_file_block ?root a = (q1, b1)" by (metis prod.exhaust)
    show ?thesis
    proof (rule fault_step [OF q1 _ _ that(1)])
      show "ticked a b1" "unless_fault q1 (bdata a ?root) a" using read [OF q1] by simp_all
      fix s assume s: "ticked a s" and k: "bindE (cryexts_parse_xattr_block (bdata a ?root) 0) ?one s = (q, b)"
      obtain q2 b2 where q2: "cryexts_parse_xattr_block (bdata a ?root) 0 s = (q2, b2)" by (metis prod.exhaust)
      have "packed (bdata a ?root) (take n items) ov" using n(2) same(1) [OF that(2)] by simp
      then have p: "ticked s b2" "unless_fault q2 (take n items, ov) s"
        using parse [OF q2 it(1)] n(1) it(3) by simp_all
      show "ticked s b \<and> unless_fault q items s"
        by (rule fault_step [OF q2 p k])
          (use one ticked_trans [OF that(2)] ticked_trans [OF s] in blast)
    qed
  qed
  have run': "bindE kmalloc (\<lambda>_. ?three) st = (r, st')" using run False by (simp add: cryexts_load_xattrs_def Let_def)
  obtain q b where q: "kmalloc st = (q, b)" by (metis prod.exhaust)
  show ?thesis
    by (rule fault_step [OF q _ _ run']) (use alloc [OF q] three in blast)+
qed

section \<open>Writing the blocks\<close>

lemma record_and_write_run:
  assumes ok: "disk_ok a" and b: "b \<noteq> 0" "b \<notin> set (bitmaps a)" "b \<notin> side a"
    and r: "record_and_write b buf a = (r, c)"
  shows "run_to {b} {} a c" "r = Inr () \<Longrightarrow> length buf = BLOCK_SIZE \<Longrightarrow> bdata c b = buf"
proof -
  have al: "alloc_ok a" using ok by (simp add: disk_ok_def)
  obtain q a1 where q: "cryexts_journal_record_block b a = (q, a1)" by (metis prod.exhaust)
  note w1 = record_within [OF al q]
  obtain q2 a2 where q2: "io_step EIO a1 = (q2, a2)" by (metis prod.exhaust)
  note t2 = ticked_io [OF q2]
  let ?d = "mark_buffer_dirty b (set_bdata b buf a2)"
  have res: "c = a1 \<and> r \<noteq> Inr () \<or> c = a2 \<and> r \<noteq> Inr () \<or> c = ?d \<and> r = Inr ()"
    using r q q2 by (auto simp: record_and_write_def bindE_def cryexts_write_file_block_def modE_def retE_def split: sum.splits)
  have w2: "within ({b} \<union> side a) a a2"
    using within_mono [OF within_trans [OF w1 ticked_within [of a1 a2 "{}"]], of "{b} \<union> side a"] t2 by blast
  have w3: "within ({b} \<union> side a) a ?d"
    using within_trans [OF w2 within_set [of b "{b}"]] b(1) by (simp add: within_dirty)
  have "within ({b} \<union> side a) a c" using res within_mono [OF w1, of "{b} \<union> side a"] w2 w3 by blast
  then show "run_to {b} {} a c" by (rule run_to_write [OF ok]) (use b in simp)
  show "bdata c b = buf" if "r = Inr ()" "length buf = BLOCK_SIZE"
    using res that bdata_set_same [of buf b a2] b(1) by (auto simp: bdata_def mark_buffer_dirty_def)
qed

lemma run_to_apart:
  assumes "run_to W X a b"
  shows "x \<notin> set (bitmaps b) \<longleftrightarrow> x \<notin> set (bitmaps a)" "x \<notin> side b \<longleftrightarrow> x \<notin> side a"
  using run_toD(5,6) [OF assms] by simp_all

lemma packed_length: "packed buf its ov \<Longrightarrow> length buf = BLOCK_SIZE"
  by (simp add: packed_def)

lemma write_blocks_run:
  assumes ok: "disk_ok a" and root: "root \<noteq> 0" "root \<notin> set (bitmaps a)" "root \<notin> side a"
    and ov: "oits \<noteq> [] \<Longrightarrow> ov \<noteq> 0 \<and> ov \<notin> set (bitmaps a) \<and> ov \<notin> side a \<and> ov \<noteq> root"
    and its: "list_all item_ok rits" "list_all item_ok oits"
    and r: "write_xattr_blocks root ov rits oits a = (r, c)"
  defines "v \<equiv> if oits = [] then 0 else ov"
  shows "run_to (homes root v) {} a c"
    "r = Inr () \<Longrightarrow> packed (bdata c root) rits v \<and> (oits \<noteq> [] \<longrightarrow> packed (bdata c ov) oits 0)"
proof -
  let ?prep = "if oits = [] then retE zero_block else bindE kmalloc (\<lambda>_. from_res (cryexts_pack_xattr_block oits 0))"
  obtain q a1 where q: "?prep a = (q, a1)" by (metis prod.exhaust)
  have t1: "ticked a a1"
    using q kmalloc_ticked [of a] by (auto simp: retE_def bindE_def from_res_def split: if_splits prod.splits sum.splits)
  have r1: "run_to {} {} a a1" by (rule run_to_ticked [OF run_to_refl [OF ok] t1])
  have obuf: "oits \<noteq> [] \<longrightarrow> packed b oits 0" if "q = Inr b" for b
    using q that pack_packed [OF its(2), of 0 b]
    by (auto simp: bindE_def from_res_def retE_def split: if_splits prod.splits sum.splits)
  have all: "run_to (homes root v) {} a c \<and>
    (r = Inr () \<longrightarrow> packed (bdata c root) rits v \<and> (oits \<noteq> [] \<longrightarrow> packed (bdata c ov) oits 0))"
  proof (cases "\<exists>o1 b. q = Inr o1 \<and> cryexts_pack_xattr_block rits v = Inr b")
    case False
    then have "c = a1 \<and> r \<noteq> Inr ()"
      using r q by (auto simp: write_xattr_blocks_def bindE_def from_res_def v_def split: sum.splits)
    then show ?thesis using run_to_mono [OF r1, of "homes root v"] by simp
  next
    case True
    then obtain o1 b where ob: "q = Inr o1" "cryexts_pack_xattr_block rits v = Inr b" by blast
    note pk = pack_packed [OF its(1) ob(2)]
    let ?first = "if oits = [] then retE () else record_and_write ov o1"
    obtain q2 a2 where q2: "?first a1 = (q2, a2)" by (metis prod.exhaust)
    have run: "bindE ?first (\<lambda>_. bindE (record_and_write root b) (\<lambda>_. retE ())) a1 = (r, c)"
      using r q ob by (simp add: write_xattr_blocks_def bindE_def from_res_def v_def)
    have f: "run_to (homes root v - {root}) {} a1 a2 \<and> (oits \<noteq> [] \<longrightarrow> q2 = Inr () \<longrightarrow> packed (bdata a2 ov) oits 0)"
    proof (cases "oits = []")
      case True
      then have "a2 = a1" using q2 by (simp add: retE_def)
      then show ?thesis using run_to_mono [OF run_to_refl [OF run_toD(2) [OF r1]]] True by simp
    next
      case False
      then have w: "record_and_write ov o1 a1 = (q2, a2)" using q2 by simp
      have "ov \<notin> set (bitmaps a1)" "ov \<notin> side a1" using ov False run_to_apart [OF r1, of ov] by blast+
      note rw = record_and_write_run [OF run_toD(2) [OF r1] _ this w]
      have "homes root v - {root} = {ov}" using ov False by (auto simp: homes_def v_def)
      then show ?thesis using rw ov False obuf [OF ob(1)] packed_length by auto
    qed
    have r2: "run_to (homes root v - {root}) {} a a2" using run_to_trans [OF r1 conjunct1 [OF f]] by simp
    show ?thesis
    proof (cases q2)
      case (Inl e)
      then have "c = a2 \<and> r \<noteq> Inr ()" using run q2 by (auto simp: bindE_def)
      then show ?thesis using run_to_mono [OF r2, of "homes root v"] by auto
    next
      case (Inr u)
      obtain q3 a3 where q3: "record_and_write root b a2 = (q3, a3)" by (metis prod.exhaust)
      have c: "c = a3" "r = q3" using run q2 q3 Inr by (cases q3; simp add: bindE_def retE_def)+
      have ra: "root \<notin> set (bitmaps a2)" "root \<notin> side a2" using root run_to_apart [OF r2, of root] by simp_all
      note rw = record_and_write_run [OF run_toD(2) [OF r2] root(1) ra q3]
      have h: "homes root v - {root} \<union> {root} = homes root v" using root(1) by (auto simp: homes_def)
      have "run_to (homes root v) {} a c" using run_to_trans [OF r2 rw(1)] c h by simp
      moreover have "bdata a3 ov = bdata a2 ov" if "oits \<noteq> []"
        using ov [OF that] run_to_bdata [OF rw(1), of ov] run_to_apart [OF r2, of ov] by simp
      ultimately show ?thesis using rw(2) f c pk packed_length [OF pk] Inr by auto
    qed
  qed
  show "run_to (homes root v) {} a c" by (rule conjunct1 [OF all])
  show "packed (bdata c root) rits v \<and> (oits \<noteq> [] \<longrightarrow> packed (bdata c ov) oits 0)" if "r = Inr ()"
    using all that by blast
qed

section \<open>Placing the items\<close>

lemma root_entries_le: "root_entries its used \<le> length its"
  by (induction its arbitrary: used) (simp_all add: Let_def)

lemma xattr_root_run:
  assumes ok: "disk_ok st" and r: "xattr_root i st = (q, s)"
  shows "case q of Inl e \<Rightarrow> s = st
    | Inr (root, new) \<Rightarrow> new = (cryexts_inode_xattr_block i = 0) \<and> (\<not> new \<longrightarrow> root = cryexts_inode_xattr_block i) \<and>
        run_to {} (if new then {root} else {}) st s"
proof (cases "cryexts_inode_xattr_block i = 0")
  case True
  obtain v a where a: "cryexts_alloc_block st = (v, a)" by (metis prod.exhaust)
  then have "(q, s) = (case v of Inl e \<Rightarrow> Inl e | Inr b \<Rightarrow> Inr (b, True), a)"
    using r True by (cases v) (simp_all add: xattr_root_def bindE_def retE_def)
  then show ?thesis using run_to_alloc [OF ok a] True by (cases v) auto
next
  case False
  then show ?thesis using r run_to_refl [OF ok] by (auto simp: xattr_root_def retE_def Let_def)
qed

lemma old_overflow_run:
  assumes r: "old_overflow root new st = (q, s)"
  shows "ticked st s" "q = Inr v \<Longrightarrow> v = (if new then 0 else xh_overflow_block (dec_xh (bdata st root)))"
proof -
  obtain u a where u: "kmalloc st = (u, a)" by (metis prod.exhaust)
  obtain w b where w: "cryexts_read_file_block root a = (w, b)" by (metis prod.exhaust)
  note k = kmalloc_ticked [OF u] and rd = read_ticked [OF w]
  have "ticked st s \<and> (q = Inr v \<longrightarrow> v = (if new then 0 else xh_overflow_block (dec_xh (bdata st root))))"
    using r u w k rd ticked_trans [of st a b] ticked_fields(1) [of st a]
    by (cases u; cases w; cases new) (auto simp: old_overflow_def bindE_def retE_def)
  then show "ticked st s" "q = Inr v \<Longrightarrow> v = (if new then 0 else xh_overflow_block (dec_xh (bdata st root)))"
    by blast+
qed

lemma xattr_overflow_run:
  assumes ok: "disk_ok st" and r: "xattr_overflow n old st = (q, s)"
  shows "case q of Inl e \<Rightarrow> s = st
    | Inr (ov, new) \<Rightarrow> (n = 0 \<longrightarrow> ov = old) \<and> (new \<longleftrightarrow> n \<noteq> 0 \<and> old = 0) \<and> (\<not> new \<longrightarrow> ov = old) \<and>
        (n \<noteq> 0 \<longrightarrow> cryexts_large_xattr_feature_enabled st) \<and> run_to {} (if new then {ov} else {}) st s"
proof (cases "n \<noteq> 0 \<and> cryexts_large_xattr_feature_enabled st \<and> old = 0")
  case True
  obtain v a where a: "cryexts_alloc_block st = (v, a)" by (metis prod.exhaust)
  then have "(q, s) = (case v of Inl e \<Rightarrow> Inl e | Inr b \<Rightarrow> Inr (b, True), a)"
    using r True by (cases v) (simp_all add: xattr_overflow_def checkE_def bindE_def retE_def)
  then show ?thesis using run_to_alloc [OF ok a] True by (cases v) auto
next
  case False
  then show ?thesis
    using r run_to_refl [OF ok]
    by (cases "n = 0"; cases "cryexts_large_xattr_feature_enabled st")
      (auto simp: xattr_overflow_def checkE_def bindE_def retE_def)
qed

lemma free_if_run:
  assumes rt: "run_to W X a b" and ok: "disk_ok a" and c: "c \<Longrightarrow> x \<in> X"
  shows "run_to W (if c then X - {x} else X) a (free_if c x b)"
  using run_to_give [OF rt ok c] rt by (cases c) (auto simp: free_if_def ignoreE_def, metis prod.exhaust snd_conv)

text \<open>After an error nothing is taken; else the items are in the old or new blocks.\<close>

lemma place_xattrs_run:
  assumes iv: "attr_inv i st ov old" and its: "items_ok its"
    and r: "place_xattrs i its st = (r, st')"
  shows "case r of
      Inl e \<Rightarrow> \<exists>W. run_to W {} st st'
    | Inr (root, unused) \<Rightarrow> \<exists>v. root \<noteq> 0 \<and> stored st' root v its \<and>
        run_to (homes root v) (homes root v - homes (cryexts_inode_xattr_block i) ov) st st' \<and>
        (cryexts_inode_xattr_block i \<noteq> 0 \<longrightarrow> root = cryexts_inode_xattr_block i) \<and>
        (if v = 0 then unused = ov else unused = 0 \<and> (ov \<noteq> 0 \<longrightarrow> v = ov))"
proof -
  let ?x = "cryexts_inode_xattr_block i" and ?n = "root_entries its XATTR_HEADER_BYTES"
  have pl: "xattr_place i st (homes ?x ov)" and ok: "disk_ok st"
    using iv by (simp_all add: attr_inv_def xattr_place_def)
  have xov: "?x = 0 \<Longrightarrow> ov = 0" using iv by (simp add: attr_inv_def split: if_splits)
  have hdr: "?x \<noteq> 0 \<Longrightarrow> xh_overflow_block (dec_xh (bdata st ?x)) = ov" and ne: "?x \<noteq> 0 \<Longrightarrow> ?x \<noteq> ov"
    using iv by (auto simp: attr_inv_def stored_def packed_def split: if_splits)
  have used: "x \<in> block_used st" "x \<notin> set (bitmaps st)" "x \<notin> side st" if "x \<in> homes ?x ov" for x
    using pl that by (simp_all add: xattr_place_def)
  obtain q1 s1 where q1: "xattr_root i st = (q1, s1)" by (metis prod.exhaust)
  note ru = xattr_root_run [OF ok q1]
  show ?thesis
  proof (cases q1)
    case (Inl e)
    then have "r = Inl e" "st' = st" using r q1 ru by (simp_all add: place_xattrs_def bindE_def)
    then show ?thesis using run_to_refl [OF ok] by auto
  next
    case (Inr p)
    obtain root new where p: "p = (root, new)" by (cases p)
    let ?X = "if new then {root} else {}"
    have n1: "new = (?x = 0)" "\<not> new \<Longrightarrow> root = ?x" "run_to {} ?X st s1"
      using ru unfolding Inr p sum.case prod.case by blast+
    have ok1: "disk_ok s1" by (rule run_toD(2) [OF n1(3)])
    have root: "root \<noteq> 0" "root \<notin> set (bitmaps st)" "root \<notin> side st" "root \<noteq> ov"
    proof -
      have "root \<noteq> 0 \<and> root \<notin> set (bitmaps st) \<and> root \<notin> side st \<and> root \<noteq> ov"
      proof (cases new)
        case True
        then have "root \<in> ?X" by simp
        note new_apart(2-4) [OF ok n1(3) this]
        then show ?thesis using True n1(1) xov by simp
      next
        case False
        then have "root = ?x" "?x \<noteq> 0" using n1(1,2) by simp_all
        moreover from this have "?x \<in> homes ?x ov" by (simp add: homes_def)
        ultimately show ?thesis using used(2,3) ne by simp
      qed
      then show "root \<noteq> 0" "root \<notin> set (bitmaps st)" "root \<notin> side st" "root \<noteq> ov" by blast+
    qed
    let ?plan = "bindE (old_overflow root new) (\<lambda>old_overflow_block.
        bindE (if items_fit its then retE () else failE ENOSPC) (\<lambda>_.
        bindE (xattr_overflow (length its - ?n) old_overflow_block) (\<lambda>(overflow_block, overflow_new).
          retE (old_overflow_block, overflow_block, overflow_new))))"
    obtain q2 s2 where q2: "?plan s1 = (q2, s2)" by (rule prod.exhaust)
    have plan: "case q2 of Inl e \<Rightarrow> run_to {} ?X st s2
      | Inr (o1, v, vnew) \<Rightarrow> o1 = ov \<and> (length its - ?n = 0 \<longrightarrow> v = ov) \<and> (vnew \<longleftrightarrow> length its - ?n \<noteq> 0 \<and> ov = 0) \<and>
          (\<not> vnew \<longrightarrow> v = ov) \<and> (length its - ?n \<noteq> 0 \<longrightarrow> cryexts_large_xattr_feature_enabled s2) \<and>
          (vnew \<longrightarrow> v \<notin> block_used st \<and> v \<noteq> root \<and> v \<noteq> 0 \<and> v \<notin> set (bitmaps st) \<and> v \<notin> side st) \<and>
          run_to {} (?X \<union> (if vnew then {v} else {})) st s2"
    proof -
      obtain q3 s3 where q3: "old_overflow root new s1 = (q3, s3)" by (metis prod.exhaust)
      note oo = old_overflow_run [OF q3]
      have r3: "run_to {} ?X st s3" by (rule run_to_ticked [OF n1(3) oo(1)])
      show ?thesis
      proof (cases "\<exists>o1. q3 = Inr o1 \<and> items_fit its")
        case False
        then have "s2 = s3 \<and> (\<exists>e. q2 = Inl e)" using q2 q3 by (cases q3) (auto simp: bindE_def failE_def)
        then show ?thesis using r3 by auto
      next
        case True
        then obtain o1 where o1: "q3 = Inr o1" "items_fit its" by blast
        have "o1 = ov"
        proof (cases new)
          case True
          then show ?thesis using oo(2) [OF o1(1)] n1(1) xov by simp
        next
          case False
          then have "?x \<noteq> 0" "root = ?x" using n1(1,2) by simp_all
          moreover have "bdata s1 ?x = bdata st ?x"
            by (rule run_to_bdata [OF n1(3)]) (use used [of ?x] \<open>?x \<noteq> 0\<close> in \<open>simp_all add: homes_def\<close>)
          ultimately show ?thesis using oo(2) [OF o1(1)] False hdr by simp
        qed
        obtain q4 s4 where q4: "xattr_overflow (length its - ?n) ov s3 = (q4, s4)" by (metis prod.exhaust)
        have ok3: "disk_ok s3" by (rule run_toD(2) [OF r3])
        note xo = xattr_overflow_run [OF ok3 q4]
        show ?thesis
        proof (cases q4)
          case (Inl e)
          then have "q2 = Inl e \<and> s2 = s3" using q2 q3 o1 q4 xo \<open>o1 = ov\<close> by (auto simp: bindE_def retE_def)
          then show ?thesis using r3 by simp
        next
          case (Inr pv)
          obtain v vnew where pv: "pv = (v, vnew)" by (cases pv)
          have res: "q2 = Inr (ov, v, vnew)" "s2 = s4" using q2 q3 o1 q4 Inr pv \<open>o1 = ov\<close> by (auto simp: bindE_def retE_def)
          have xv: "length its - ?n = 0 \<longrightarrow> v = ov" "vnew \<longleftrightarrow> length its - ?n \<noteq> 0 \<and> ov = 0" "\<not> vnew \<longrightarrow> v = ov"
              "length its - ?n \<noteq> 0 \<longrightarrow> cryexts_large_xattr_feature_enabled s3"
            and x4: "run_to {} (if vnew then {v} else {}) s3 s4"
            using xo unfolding Inr pv sum.case prod.case by blast+
          have big: "cryexts_large_xattr_feature_enabled s4 = cryexts_large_xattr_feature_enabled s3"
            using x4 large_within by (auto simp: run_to_def)
          have ap: "v \<notin> block_used s3" "v \<notin> set (bitmaps s3)" "v \<notin> side s3" "v \<noteq> 0" if vnew
            using new_apart(1-4) [OF ok3 x4, of v] that by simp_all
          have ap': "v \<notin> block_used st \<and> v \<noteq> root \<and> v \<noteq> 0 \<and> v \<notin> set (bitmaps st) \<and> v \<notin> side st" if vnew
          proof -
            have "root \<in> block_used s3"
              using run_toD(7) [OF r3] used [of root] n1(1,2) by (cases new) (auto simp: homes_def)
            then show ?thesis using ap [OF that] run_toD(5-7) [OF r3] by auto
          qed
          have "run_to {} (?X \<union> (if vnew then {v} else {})) st s4" using run_to_trans [OF r3 x4] by simp
          then show ?thesis unfolding res sum.case prod.case using xv big ap' by blast
        qed
      qed
    qed
    show ?thesis
    proof (cases q2)
      case (Inl e)
      then have s: "r = Inl e" "st' = free_if new root s2"
        using r q1 Inr p q2 by (simp_all add: place_xattrs_def bindE_def on_errE_def Let_def)
      have "run_to {} ?X st s2" using plan Inl by simp
      from free_if_run [OF this ok, of new root] have "run_to {} {} st st'" by (cases new) (simp_all add: s)
      then show ?thesis using s by auto
    next
      case (Inr t)
      obtain o1 v vnew where t: "t = (o1, v, vnew)" by (cases t) auto
      let ?Y = "?X \<union> (if vnew then {v} else {})"
      have pn: "o1 = ov" "length its - ?n = 0 \<Longrightarrow> v = ov" "vnew \<longleftrightarrow> length its - ?n \<noteq> 0 \<and> ov = 0"
          "\<not> vnew \<Longrightarrow> v = ov" "length its - ?n \<noteq> 0 \<Longrightarrow> cryexts_large_xattr_feature_enabled s2"
          "vnew \<Longrightarrow> v \<notin> block_used st \<and> v \<noteq> root \<and> v \<noteq> 0 \<and> v \<notin> set (bitmaps st) \<and> v \<notin> side st"
          "run_to {} ?Y st s2"
        using plan unfolding Inr t sum.case prod.case by blast+
      obtain q5 s5 where q5: "write_xattr_blocks root v (take ?n its) (drop ?n its) s2 = (q5, s5)" by (metis prod.exhaust)
      have rest: "drop ?n its = [] \<longleftrightarrow> length its - ?n = 0" by simp
      have ok2: "disk_ok s2" by (rule run_toD(2) [OF pn(7)])
      have vp: "v \<noteq> 0 \<and> v \<notin> set (bitmaps s2) \<and> v \<notin> side s2 \<and> v \<noteq> root" if "drop ?n its \<noteq> []"
      proof (cases vnew)
        case True
        then show ?thesis using pn(6) run_toD(5,6) [OF pn(7)] by simp
      next
        case False
        then have "v = ov" "ov \<noteq> 0" using pn(3,4) that rest by simp_all
        then show ?thesis using used [of ov] run_toD(5,6) [OF pn(7)] root(4) by (simp add: homes_def)
      qed
      have li: "list_all item_ok (take ?n its)" "list_all item_ok (drop ?n its)"
        using its by (auto simp: items_ok_def list_all_iff dest: in_set_takeD in_set_dropD)
      let ?v = "if drop ?n its = [] then 0 else v"
      have rs: "root \<notin> set (bitmaps s2)" "root \<notin> side s2" using root run_toD(5,6) [OF pn(7)] by simp_all
      note wb = write_blocks_run [OF ok2 root(1) rs vp li q5]
      have r5: "run_to (homes root ?v) ?Y st s5" using run_to_trans [OF pn(7) wb(1)] by simp
      show ?thesis
      proof (cases q5)
        case (Inl e)
        then have s: "r = Inl e" "st' = free_if vnew v (free_if new root s5)"
          using r q1 \<open>q1 = Inr p\<close> p q2 \<open>q2 = Inr t\<close> t q5 by (simp_all add: place_xattrs_def bindE_def on_errE_def Let_def)
        have "run_to (homes root ?v) (if new then ?Y - {root} else ?Y) st (free_if new root s5)"
          by (rule free_if_run [OF r5 ok]) simp
        then have f: "run_to (homes root ?v) (if vnew then {v} else {}) st (free_if new root s5)"
        proof -
          have "(if new then ?Y - {root} else ?Y) = (if vnew then {v} else {})"
            using pn(6) by (cases new; cases vnew) auto
          then show ?thesis using \<open>run_to (homes root ?v) (if new then ?Y - {root} else ?Y) st (free_if new root s5)\<close>
            by (simp only:)
        qed
        have "run_to (homes root ?v) (if vnew then (if vnew then {v} else {}) - {v} else (if vnew then {v} else {})) st
            (free_if vnew v (free_if new root s5))"
          by (rule free_if_run [OF f ok]) simp
        then have "run_to (homes root ?v) {} st st'" unfolding s(2) by (cases vnew) simp_all
        then show ?thesis using s by auto
      next
        case (Inr u)
        then have s: "r = Inr (root, if ?n = length its then ov else 0)" "st' = s5"
          using r q1 \<open>q1 = Inr p\<close> p q2 \<open>q2 = Inr t\<close> t q5 pn(1)
          by (simp_all add: place_xattrs_def bindE_def on_errE_def Let_def retE_def)
        have pk: "packed (bdata s5 root) (take ?n its) ?v" "drop ?n its \<noteq> [] \<Longrightarrow> packed (bdata s5 v) (drop ?n its) 0"
          using wb(2) Inr by auto
        have le: "?n \<le> length its" by (rule root_entries_le)
        have big: "cryexts_large_xattr_feature_enabled s5 = cryexts_large_xattr_feature_enabled s2"
          using wb(1) large_within by (auto simp: run_to_def)
        have st5: "stored s5 root ?v its"
          unfolding stored_def using root(1) vp pk le pn(5) rest big by (intro conjI exI [of _ ?n]) auto
        have Y: "?Y = homes root ?v - homes ?x ov"
        proof (cases "drop ?n its = []")
          case True
          then show ?thesis using n1(1,2) pn(3) rest root(1) xov by (auto simp: homes_def)
        next
          case False
          then show ?thesis using n1(1,2) pn(3,4,6) rest root(1,4) xov vp [OF False] used
            by (auto simp: homes_def)
        qed
        have "if ?v = 0 then (if ?n = length its then ov else 0) = ov
          else (if ?n = length its then ov else 0) = 0 \<and> (ov \<noteq> 0 \<longrightarrow> ?v = ov)"
          using le rest vp pn(3,4) by auto
        moreover have "?x \<noteq> 0 \<longrightarrow> root = ?x" using n1(1,2) by simp
        ultimately show ?thesis
          unfolding s sum.case prod.case using st5 r5 [unfolded Y] root(1) by blast
      qed
    qed
  qed
qed

section \<open>Writing the attributes\<close>

definition xattr_blocks :: "inode \<Rightarrow> fs \<Rightarrow> u64 set" where
  "xattr_blocks i st = (let root = cryexts_inode_xattr_block i in
     if root = 0 then {} else homes root (xh_overflow_block (dec_xh (bdata st root))))"

lemma attr_blocks: "attr_inv i st ov items \<Longrightarrow> xattr_blocks i st = homes (cryexts_inode_xattr_block i) ov"
  by (auto simp: attr_inv_def xattr_blocks_def Let_def stored_def packed_def homes_def split: if_splits)

text \<open>Blocks that are given back.\<close>

definition gave_run :: "u64 set \<Rightarrow> fs \<Rightarrow> fs \<Rightarrow> bool" where
  "gave_run X a b \<longleftrightarrow> gave X a b \<and> within (set (bitmaps a) \<union> side a) a b"

lemma gave_run_free:
  assumes "freeable a {x}" "cryexts_free_block x a = (r, c)"
  shows "r = Inr ()" "gave_run {x} a c"
proof -
  have "alloc_ok a" using assms(1) by (simp add: freeable_def disk_ok_def)
  then show "r = Inr ()" "gave_run {x} a c"
    using free_one [OF assms(1)] assms(2) free_block_within [OF _ assms(2)] by (auto simp: gave_run_def)
qed

lemma gave_runD:
  assumes "gave_run X a b"
  shows "disk_ok b" "geo_view b = geo_view a" "bitmaps b = bitmaps a" "side b = side a"
    "block_used b = block_used a - X" "block_space b = block_space a"
    "x \<notin> set (bitmaps a) \<Longrightarrow> x \<notin> side a \<Longrightarrow> bdata b x = bdata a x"
    "cryexts_large_xattr_feature_enabled b = cryexts_large_xattr_feature_enabled a"
proof -
  have g: "gave X a b" and w: "within (set (bitmaps a) \<union> side a) a b" using assms by (simp_all add: gave_run_def)
  show "disk_ok b" "geo_view b = geo_view a" "block_used b = block_used a - X" "block_space b = block_space a"
    using g by (simp_all add: gave_def)
  then show "bitmaps b = bitmaps a" "side b = side a" using geo_basic(5,8) [of b a] by simp_all
  show "x \<notin> set (bitmaps a) \<Longrightarrow> x \<notin> side a \<Longrightarrow> bdata b x = bdata a x"
    using within_bdata [OF w] by (simp add: side_def)
  show "cryexts_large_xattr_feature_enabled b = cryexts_large_xattr_feature_enabled a" by (rule large_within [OF w])
qed

lemma place_gave:
  assumes p: "xattr_place i a X" and g: "gave_run Y a b" and Z: "Z \<subseteq> X" "Z \<inter> Y = {}" "Y \<inter> meta_blocks (info i) = {}"
    and j: "meta_blocks (info j) = meta_blocks (info i)" "i_ino j = i_ino i" "i_private j \<noteq> None"
  shows "xattr_place j b Z"
proof -
  note d = gave_runD(1-6) [OF g]
  have al: "alloc_ok a" "i_ino i \<in> inode_space a" using p by (simp_all add: xattr_place_def disk_ok_def)
  have eq: "inode_space b = inode_space a" "inode_block b (i_ino i) = inode_block a (i_ino i)"
    using geo_basic [OF d(2)] geo_valid(2) [OF d(2) al] by (simp_all add: inode_space_def)
  have "x \<in> block_used b \<and> x \<notin> set (bitmaps b) \<and> x \<notin> side b" if "x \<in> Z \<union> meta_blocks (info i)" for x
  proof -
    have "x \<in> X \<union> meta_blocks (info i)" "x \<notin> Y" using that Z by blast+
    then show ?thesis using p d(3-5) by (simp add: xattr_place_def)
  qed
  moreover have "Z \<inter> meta_blocks (info i) = {}" using p Z(1) by (auto simp: xattr_place_def)
  ultimately show ?thesis using p d(1,6) eq j by (simp add: xattr_place_def)
qed

lemma place_freeable: "xattr_place i st X \<Longrightarrow> Y \<subseteq> X \<Longrightarrow> freeable st Y"
  by (auto simp: xattr_place_def freeable_def)

text \<open>Releasing the attributes.\<close>

lemma free_storage_inv:
  assumes iv: "attr_inv i st ov items" and r: "cryexts_free_xattr_storage (i, st) = (r, (i', st'))"
  shows "r = Inr () \<and> attr_inv i' st' 0 [] \<and> cryexts_inode_xattr_block i' = 0 \<and>
      (\<exists>s. ticked st s \<and> gave_run (homes (cryexts_inode_xattr_block i) ov) s st') \<or>
    (r = Inl EIO \<or> r = Inl ENOMEM) \<and> faulty st \<and> i' = i \<and> ticked st st'"
proof (cases "cryexts_inode_xattr_block i = 0")
  case True
  then have s: "ov = 0" "items = []" "r = Inr ()" "i' = i" "st' = st"
    using iv r by (simp_all add: attr_inv_def cryexts_free_xattr_storage_def)
  have "gave_run {} st st" using iv gave_refl by (simp add: gave_run_def attr_inv_def xattr_place_def)
  then have "gave_run (homes (cryexts_inode_xattr_block i) ov) st st" using True s by (simp add: homes_def)
  then show ?thesis using iv s True ticked_simps(1) by blast
next
  case False
  let ?x = "cryexts_inode_xattr_block i"
  have pl: "xattr_place i st (homes ?x ov)" and hdr: "xh_overflow_block (dec_xh (bdata st ?x)) = ov" and ne: "?x \<noteq> ov"
    using iv False by (auto simp: attr_inv_def stored_def packed_def)
  obtain q1 s1 where q1: "kmalloc st = (q1, s1)" by (metis prod.exhaust)
  note k = kmalloc_ticked [OF q1]
  obtain q2 s2 where q2: "cryexts_read_file_block ?x s1 = (q2, s2)" by (metis prod.exhaust)
  note rd = read_ticked [OF q2]
  have t1: "ticked st s1" and t2: "ticked st s2" using k rd(1) ticked_trans by blast+
  show ?thesis
  proof (cases "q1 = Inr () \<and> q2 = Inr (bdata s1 ?x)")
    case no: False
    then have "(r = Inl EIO \<or> r = Inl ENOMEM) \<and> faulty st \<and> i' = i \<and> (st' = s1 \<or> st' = s2)"
      using r False q1 q2 k rd(2) ticked_faulty [OF t1]
      by (cases q1; cases q2) (auto simp: cryexts_free_xattr_storage_def Let_def bindE_def onfs_def)
    then show ?thesis using t1 t2 by blast
  next
    case True
    have ov: "xh_overflow_block (dec_xh (bdata s1 ?x)) = ov" using hdr ticked_fields(1) [OF t1] by simp
    have iv2: "attr_inv i s2 ov items" by (rule attr_ticked [OF iv t2])
    then have pl2: "xattr_place i s2 (homes ?x ov)" by (simp add: attr_inv_def)
    let ?first = "if ov \<noteq> 0 then onfs (cryexts_free_block ov) else retE ()"
    have run: "runE [?first, onfs (cryexts_free_block ?x), oni (upd_info (\<lambda>b. b\<lparr>ii_xattr_block := 0\<rparr>))] (i, s2) = (r, (i', st'))"
    proof -
      have k: "onfs kmalloc (i, st) = (Inr (), (i, s1))"
        "onfs (cryexts_read_file_block ?x) (i, s1) = (Inr (bdata s1 ?x), (i, s2))"
        using q1 q2 True by (simp_all add: onfs_def)
      have "cryexts_free_xattr_storage (i, st) = (let overflow_block = xh_overflow_block (dec_xh (bdata s1 ?x)) in
          runE [if overflow_block \<noteq> 0 then onfs (cryexts_free_block overflow_block) else retE (),
            onfs (cryexts_free_block ?x), oni (upd_info (\<lambda>b. b\<lparr>ii_xattr_block := 0\<rparr>))]) (i, s2)"
        unfolding cryexts_free_xattr_storage_def prod.case Let_def if_not_P [OF False]
        by (subst bindE_Inr, rule k(1), subst bindE_Inr, rule k(2), rule refl)
      then show ?thesis using r ov unfolding Let_def by metis
    qed
    obtain s3 where s3: "?first (i, s2) = (Inr (), (i, s3))" "gave_run ({ov} - {0}) s2 s3"
    proof (cases "ov = 0")
      case True
      have "gave_run {} s2 s2" using pl2 gave_refl by (simp add: gave_run_def xattr_place_def)
      then show ?thesis using that [of s2] True by (simp add: retE_def)
    next
      case nz: False
      obtain q c where q: "cryexts_free_block ov s2 = (q, c)" by (metis prod.exhaust)
      have "freeable s2 {ov}" by (rule place_freeable [OF pl2]) (use nz in \<open>simp add: homes_def\<close>)
      from gave_run_free [OF this q] show ?thesis using that [of c] nz q by (simp add: onfs_def)
    qed
    have pl3: "xattr_place i s3 {?x}"
      by (rule place_gave [OF pl2 s3(2)])
        (use False ne pl2 in \<open>auto simp: homes_def xattr_place_def\<close>)
    obtain q4 s4 where q4: "cryexts_free_block ?x s3 = (q4, s4)" by (metis prod.exhaust)
    have "freeable s3 {?x}" by (rule place_freeable [OF pl3]) simp
    note g4 = gave_run_free [OF this q4]
    have res: "r = Inr ()" "i' = upd_info (\<lambda>b. b\<lparr>ii_xattr_block := 0\<rparr>) i" "st' = s4"
      using run s3(1) q4 g4(1) by (simp_all add: bindE_def onfs_def oni_def retE_def)
    have g: "gave_run (homes ?x ov) s2 s4"
    proof -
      have "gave (({ov} - {0}) \<union> {?x}) s2 s4" by (rule gave_trans [of _ s2 s3]) (use s3(2) g4(2) in \<open>simp_all add: gave_run_def\<close>)
      moreover have "within ((set (bitmaps s2) \<union> side s2) \<union> (set (bitmaps s2) \<union> side s2)) s2 s4"
        by (rule within_trans [of _ s2 s3]) (use s3(2) g4(2) gave_runD(3,4) [OF s3(2)] in \<open>simp_all add: gave_run_def\<close>)
      moreover have "({ov} - {0}) \<union> {?x} = homes ?x ov" using False by (auto simp: homes_def)
      ultimately show ?thesis by (simp add: gave_run_def)
    qed
    obtain b where b: "i_private i = Some b" using pl by (auto simp: xattr_place_def)
    have i': "i_private i' = Some (b\<lparr>ii_xattr_block := 0\<rparr>)" "i_ino i' = i_ino i" using res(2) b by (simp_all add: upd_info_def)
    have m: "meta_blocks (info i') = meta_blocks (info i)"
      using b i' by (simp add: info_def meta_blocks_def meta_list_def cryexts_extent_tree_v2_inode_def)
    have x0: "cryexts_inode_xattr_block i' = 0" using i' by (simp add: cryexts_inode_xattr_block_def)
    have "xattr_place i' s4 {}"
      by (rule place_gave [OF pl2 g]) (use m i' pl2 in \<open>auto simp: xattr_place_def\<close>)
    then have "attr_inv i' st' 0 []"
      using x0 res(3) by (simp add: attr_inv_def items_ok_def homes_def)
    then show ?thesis using res x0 g t2 by blast
  qed
qed

text \<open>Writing the items: the state after the inode was written, whatever that returned.\<close>

lemma placed_write:
  fixes root
  assumes iv: "attr_inv i st ov old" and its: "items_ok its" and b: "i_private i = Some b"
    and q: "place_xattrs i its st = (Inr (root, unused), s1)"
  defines "i1 \<equiv> i\<lparr>i_private := Some (b\<lparr>ii_xattr_block := root\<rparr>), i_ctime := d_now s1\<rparr>"
  assumes w: "cryexts_write_inode_to_disk (i1, s1) = (q2, (i2, s2))"
  shows "\<exists>v. root \<noteq> 0 \<and> cryexts_inode_xattr_block i2 = root \<and> stored s2 root v its \<and>
    xattr_place i2 s2 (homes (cryexts_inode_xattr_block i) ov \<union> homes root v) \<and>
    block_used s2 = block_used st \<union> homes root v \<and>
    (homes root v - homes (cryexts_inode_xattr_block i) ov) \<inter> block_used st = {} \<and>
    (cryexts_inode_xattr_block i \<noteq> 0 \<longrightarrow> root = cryexts_inode_xattr_block i) \<and>
    (if v = 0 then unused = ov else unused = 0 \<and> (ov \<noteq> 0 \<longrightarrow> v = ov))"
proof -
  let ?x = "cryexts_inode_xattr_block i"
  have pl: "xattr_place i st (homes ?x ov)" and ok: "disk_ok st" using iv by (simp_all add: attr_inv_def xattr_place_def)
  have ib: "info i = b" using b by (simp add: info_def)
  obtain v where v: "root \<noteq> 0" "stored s1 root v its" "run_to (homes root v) (homes root v - homes ?x ov) st s1"
      "?x \<noteq> 0 \<longrightarrow> root = ?x" "if v = 0 then unused = ov else unused = 0 \<and> (ov \<noteq> 0 \<longrightarrow> v = ov)"
    using place_xattrs_run [OF iv its q] unfolding sum.case prod.case by blast
  have m1: "meta_list (b\<lparr>ii_xattr_block := root\<rparr>) = meta_list b" by (simp add: meta_list_def cryexts_extent_tree_v2_inode_def)
  have i1: "i_private i1 = Some (b\<lparr>ii_xattr_block := root\<rparr>)" "i_ino i1 = i_ino i" by (simp_all add: i1_def)
  let ?H = "homes ?x ov \<union> homes root v"
  have pl1: "xattr_place i1 s1 ?H"
    by (rule place_run [OF pl v(3)]) (use m1 i1 ib in \<open>auto simp: info_def meta_blocks_def\<close>)
  have m: "meta_blocks (b\<lparr>ii_xattr_block := root\<rparr>) \<inter> set (bitmaps s1) = {}"
    using pl1 i1 by (auto simp: xattr_place_def info_def)
  have ino: "i_ino i1 \<in> inode_space s1" using pl1 by (simp add: xattr_place_def)
  have wi: "run_to (insert (inode_block s1 (i_ino i1)) (meta_blocks (b\<lparr>ii_xattr_block := root\<rparr>))) {} s1 s2"
      "\<exists>n b'. i2 = i1\<lparr>i_blocks := n, i_private := Some b'\<rparr> \<and> info_like (b\<lparr>ii_xattr_block := root\<rparr>) b'"
    using write_inode_run [OF run_toD(2) [OF v(3)] ino i1(1) m w] by simp_all
  obtain n b' where i2: "i2 = i1\<lparr>i_blocks := n, i_private := Some b'\<rparr>" "info_like (b\<lparr>ii_xattr_block := root\<rparr>) b'"
    using wi(2) by blast
  have i2p: "i_private i2 = Some b'" "i_ino i2 = i_ino i" "ii_xattr_block b' = root" "meta_blocks b' = meta_blocks b"
    using i2 m1 i1 by (simp_all add: info_like_def meta_blocks_def)
  have x2: "cryexts_inode_xattr_block i2 = root" using i2p by (simp add: cryexts_inode_xattr_block_def)
  have pl2: "xattr_place i2 s2 ?H"
    by (rule place_run [OF pl1 wi(1)]) (use i2p ib m1 i1 in \<open>auto simp: info_def meta_blocks_def\<close>)
  have keep: "bdata s2 y = bdata s1 y" if "y \<in> ?H" for y
  proof (rule run_to_bdata [OF wi(1)])
    have y: "y \<in> block_used s1" "y \<notin> meta_blocks (info i1)" using pl1 that by (auto simp: xattr_place_def)
    then have "y \<in> block_space s1" using block_used_space by blast
    then show "y \<notin> insert (inode_block s1 (i_ino i1)) (meta_blocks (b\<lparr>ii_xattr_block := root\<rparr>))"
      using y(2) pl1 i1 by (auto simp: xattr_place_def info_def)
    show "y \<notin> set (bitmaps s1)" "y \<notin> side s1" using pl1 that by (simp_all add: xattr_place_def)
  qed
  have big: "cryexts_large_xattr_feature_enabled s2 = cryexts_large_xattr_feature_enabled s1"
    using wi(1) large_within by (auto simp: run_to_def)
  have st2: "stored s2 root v its"
    by (rule stored_cong [OF v(2) keep keep big]) (use v(1) in \<open>simp_all add: homes_def\<close>)
  have "homes ?x ov \<subseteq> block_used st" using pl by (auto simp: xattr_place_def)
  then have "block_used s2 = block_used st \<union> homes root v"
    using run_toD(7) [OF v(3)] run_toD(7) [OF wi(1)] by auto
  moreover have "(homes root v - homes ?x ov) \<inter> block_used st = {}" using new_apart(1) [OF ok v(3)] by blast
  ultimately show ?thesis using v(1,4,5) x2 st2 pl2 by blast
qed

text \<open>The run after the placement, as one equation.\<close>

lemma write_xattrs_eq:
  assumes "its \<noteq> []" "i_private i = Some b" "place_xattrs i its st = (q, s1)"
  shows "cryexts_write_xattrs its (i, st) = (case q of
      Inl e \<Rightarrow> (Inl e, (i, s1))
    | Inr (root, unused) \<Rightarrow>
        (case cryexts_write_inode_to_disk
            (i\<lparr>i_private := Some (b\<lparr>ii_xattr_block := root\<rparr>), i_ctime := d_now s1\<rparr>, s1) of
          (Inl e, s) \<Rightarrow> (Inl e, s)
        | (Inr _, (i2, s2)) \<Rightarrow> if unused = 0 then (Inr (), (i2, s2)) else onfs (cryexts_free_block unused) (i2, s2)))"
  using assms
  by (cases q)
    (auto simp: cryexts_write_xattrs_def bindE_def onfs_def oni_def upd_info_def touch_ctime_def retE_def
      split: sum.splits prod.splits)

lemma write_items_inv:
  assumes iv: "attr_inv i st ov old" and its: "items_ok its"
    and r: "cryexts_write_xattrs its (i, st) = (r, (i', st'))"
  shows "r = Inr () \<Longrightarrow> \<exists>v. attr_inv i' st' v its \<and>
    block_used st' - homes (cryexts_inode_xattr_block i') v = block_used st - homes (cryexts_inode_xattr_block i) ov"
    "r = Inl e \<Longrightarrow> i' = i \<and> block_used st' = block_used st \<or>
      (\<exists>v. attr_inv i' st' v its \<and> block_used st' = block_used st \<union> homes (cryexts_inode_xattr_block i') v)"
proof -
  let ?x = "cryexts_inode_xattr_block i"
  let ?good = "\<exists>v. attr_inv i' st' v its \<and>
    block_used st' - homes (cryexts_inode_xattr_block i') v = block_used st - homes ?x ov"
  let ?bad = "i' = i \<and> block_used st' = block_used st \<or>
      (\<exists>v. attr_inv i' st' v its \<and> block_used st' = block_used st \<union> homes (cryexts_inode_xattr_block i') v)"
  have pl: "xattr_place i st (homes ?x ov)" and ok: "disk_ok st" using iv by (simp_all add: attr_inv_def xattr_place_def)
  have tick: "block_used s = block_used st" if "ticked st s" for s
    using run_toD(7) [OF run_to_ticked [OF run_to_refl [OF ok] that]] by simp
  have "(r = Inr () \<longrightarrow> ?good) \<and> (\<forall>e. r = Inl e \<longrightarrow> ?bad)"
  proof (cases "its = []")
    case True
    then have "cryexts_free_xattr_storage (i, st) = (r, (i', st'))" using r by (simp add: cryexts_write_xattrs_def)
    from free_storage_inv [OF iv this] show ?thesis
    proof (elim disjE conjE exE)
      fix s assume s: "attr_inv i' st' 0 []" "cryexts_inode_xattr_block i' = 0" "r = Inr ()"
        "ticked st s" "gave_run (homes ?x ov) s st'"
      have "block_used st' - homes 0 0 = block_used st - homes ?x ov"
        using gave_runD(5) [OF s(5)] tick [OF s(4)] by (simp add: homes_def)
      then show ?thesis unfolding s(2,3) True using s(1) by auto
    qed (use tick [of st'] in simp_all)
  next
    case False
    obtain b where b: "i_private i = Some b" using pl by (auto simp: xattr_place_def)
    obtain q s1 where q: "place_xattrs i its st = (q, s1)" by (metis prod.exhaust)
    note eq = write_xattrs_eq [OF False b q]
    show ?thesis
    proof (cases q)
      case (Inl e)
      then have "i' = i" "st' = s1" "r = Inl e" using r eq by simp_all
      moreover have "block_used s1 = block_used st"
        using place_xattrs_run [OF iv its q] run_toD(7) unfolding Inl sum.case by fastforce
      ultimately show ?thesis by simp
    next
      case (Inr p)
      obtain root unused where p: "p = (root, unused)" by (cases p)
      let ?i1 = "i\<lparr>i_private := Some (b\<lparr>ii_xattr_block := root\<rparr>), i_ctime := d_now s1\<rparr>"
      obtain q2 i2 s2 where w: "cryexts_write_inode_to_disk (?i1, s1) = (q2, (i2, s2))" by (metis prod.exhaust)
      obtain v where v: "root \<noteq> 0" "cryexts_inode_xattr_block i2 = root" "stored s2 root v its"
        "xattr_place i2 s2 (homes ?x ov \<union> homes root v)" "block_used s2 = block_used st \<union> homes root v"
        "?x \<noteq> 0 \<longrightarrow> root = ?x" "if v = 0 then unused = ov else unused = 0 \<and> (ov \<noteq> 0 \<longrightarrow> v = ov)"
        "(homes root v - homes ?x ov) \<inter> block_used st = {}"
        using placed_write [OF iv its b q [unfolded Inr p] w] by blast
      have run: "(r, (i', st')) = (case q2 of Inl e \<Rightarrow> (Inl e, (i2, s2))
          | Inr _ \<Rightarrow> if unused = 0 then (Inr (), (i2, s2)) else onfs (cryexts_free_block unused) (i2, s2))"
        unfolding r [symmetric] eq Inr p sum.case prod.case w by (cases q2) simp_all
      have "xattr_place i2 s2 (homes root v)" using v(4) by (auto simp: xattr_place_def)
      then have iv2: "attr_inv i2 s2 v its" using v its by (simp add: attr_inv_def)
      show ?thesis
      proof (cases q2)
        case (Inl e)
        then show ?thesis using run iv2 v(2,5) by auto
      next
        case q2: (Inr u)
        show ?thesis
        proof (cases "unused = 0")
          case True
          then have s: "i' = i2" "st' = s2" "r = Inr ()" using run q2 by simp_all
          have "homes ?x ov \<subseteq> homes root v" using v(1,6,7) True by (auto simp: homes_def split: if_splits)
          then have "block_used s2 - homes root v = block_used st - homes ?x ov" using v(5,8) by blast
          then show ?thesis using s iv2 v(2) by auto
        next
          case False
          then have v0: "v = 0" "unused = ov" "ov \<noteq> 0" using v(7) by (auto split: if_splits)
          have fr: "freeable s2 {ov}" by (rule place_freeable [OF v(4)]) (use v0 in \<open>simp add: homes_def\<close>)
          obtain q5 s5 where q5: "cryexts_free_block ov s2 = (q5, s5)" by (metis prod.exhaust)
          note g = gave_run_free [OF fr q5]
          have s: "i' = i2" "st' = s5" "r = Inr ()" using run q2 q5 g(1) v0 by (simp_all add: onfs_def)
          have xr: "?x = root" "root \<noteq> ov"
            using iv v(6) v0 by (auto simp: attr_inv_def stored_def split: if_splits)
          have "xattr_place i2 s5 (homes root v)"
            by (rule place_gave [OF v(4) g(2)]) (use v0 xr v(4) in \<open>auto simp: homes_def xattr_place_def\<close>)
          moreover have "stored s5 root v its"
          proof (rule stored_cong [OF v(3)])
            show "bdata s5 root = bdata s2 root"
              by (rule gave_runD(7) [OF g(2)]) (use v(1,4) in \<open>auto simp: homes_def xattr_place_def\<close>)
          qed (use v0 gave_runD(8) [OF g(2)] in simp_all)
          ultimately have "attr_inv i2 s5 v its" using v(1,2) its by (simp add: attr_inv_def)
          moreover have "block_used s5 - homes root v = block_used st - homes ?x ov"
            using gave_runD(5) [OF g(2)] v(5) v0 xr v(1) by (auto simp: homes_def)
          ultimately show ?thesis using s v(2) by auto
        qed
      qed
    qed
  qed
  then show "r = Inr () \<Longrightarrow> ?good" "r = Inl e \<Longrightarrow> ?bad" by blast+
qed

end
