(* ===== verification/XattrClaims.thy ===== *)
theory XattrClaims
  imports XattrMap DirInit
begin

text \<open>
  The attributes of an inode as a map from names to values: the operations of the handler are the ones
  of the map.
\<close>

section \<open>Changing the items\<close>

definition attr_map :: "cryexts_xattr_item list \<Rightarrow> bytes \<Rightarrow> bytes option" where
  "attr_map items = map_of (map (\<lambda>item. (xi_name item, xi_value item)) items)"

definition name_ok :: "bytes \<Rightarrow> bool" where
  "name_ok name \<longleftrightarrow> name \<noteq> [] \<and> length name \<le> CRYEXTS_XATTR_MAX_NAME_LEN \<and> 0 \<notin> set name"

definition value_ok :: "bytes option \<Rightarrow> bool" where
  "value_ok value \<longleftrightarrow> (case value of None \<Rightarrow> True | Some v \<Rightarrow> length v < 65536)"

lemma attr_map_none: "attr_map items name = None \<longleftrightarrow> name \<notin> xi_name ` set items"
  by (force simp: attr_map_def map_of_eq_None_iff)

lemma attr_map_nth:
  "distinct (map xi_name items) \<Longrightarrow> k < length items \<Longrightarrow> attr_map items (xi_name (items ! k)) = Some (xi_value (items ! k))"
  unfolding attr_map_def by (rule map_of_is_SomeI) (auto simp: comp_def)

lemma find_item:
  "cryexts_find_xattr_item name items = Some k \<Longrightarrow> k < length items \<and> xi_name (items ! k) = name"
  "cryexts_find_xattr_item name items = None \<Longrightarrow> name \<notin> xi_name ` set items"
  by (auto simp: cryexts_find_xattr_item_def find_Some_iff find_None_iff in_set_conv_nth)

lemma attr_map_update:
  assumes d: "distinct (map xi_name items)" and k: "k < length items" "xi_name (items ! k) = name"
    and x: "xi_name x = name"
  shows "attr_map (items[k := x]) = (attr_map items)(name \<mapsto> xi_value x)"
proof
  fix n
  have d2: "distinct (map xi_name (items[k := x]))"
    using d k x by (metis list_update_id map_update)
  show "attr_map (items[k := x]) n = ((attr_map items)(name \<mapsto> xi_value x)) n"
  proof (cases "n \<in> xi_name ` set items")
    case True
    then obtain j where j: "j < length items" "xi_name (items ! j) = n" by (auto simp: in_set_conv_nth)
    show ?thesis
    proof (cases "j = k")
      case True
      then show ?thesis using attr_map_nth [OF d2, of k] k x j by simp
    next
      case False
      then have "n \<noteq> name" using j k d by (metis distinct_conv_nth length_map nth_map)
      then show ?thesis using attr_map_nth [OF d2, of j] attr_map_nth [OF d, of j] j False by simp
    qed
  next
    case False
    then have "n \<noteq> name" using k by auto
    have "map xi_name (items[k := x]) = map xi_name items" using k x by (metis list_update_id map_update)
    then have "n \<notin> xi_name ` set (items[k := x])" using False by (metis set_map)
    then show ?thesis using False \<open>n \<noteq> name\<close> by (simp add: attr_map_none [THEN iffD2])
  qed
qed

lemma attr_map_remove:
  assumes d: "distinct (map xi_name items)" and k: "k < length items" "xi_name (items ! k) = name"
  shows "attr_map (take k items @ drop (Suc k) items) = (attr_map items)(name := None)"
proof -
  have i: "items = take k items @ (items ! k) # drop (Suc k) items" using k(1) by (rule id_take_nth_drop)
  have "name \<notin> xi_name ` set (take k items)"
    using d k(2) by (subst (asm) i) auto
  then have "attr_map (take k items) name = None" by (simp add: attr_map_none)
  then have "attr_map (take k items @ items ! k # drop (Suc k) items) = (attr_map (take k items @ drop (Suc k) items))(name \<mapsto> xi_value (items ! k))"
    using k(2) by (auto simp: attr_map_def map_add_def fun_eq_iff split: option.splits)
  moreover have "attr_map (take k items @ drop (Suc k) items) name = None"
    using d k(2) by (subst (asm) i) (auto simp: attr_map_none)
  ultimately show ?thesis using i by (auto simp: fun_eq_iff)
qed

lemma change_items:
  assumes its: "items_ok items" and nm: "name_ok name" and v: "value_ok value"
    and r: "change_items name value flags items st = (r, s)"
  shows "ticked st s" "r = Inr its \<Longrightarrow> items_ok its \<and> attr_map its = (attr_map items)(name := value) \<and>
      (value = None \<longrightarrow> attr_map items name \<noteq> None) \<and>
      (has_flag flags XATTR_CREATE \<longrightarrow> attr_map items name = None) \<and>
      (has_flag flags XATTR_REPLACE \<longrightarrow> attr_map items name \<noteq> None)"
proof -
  let ?f = "cryexts_find_xattr_item name items"
  note d = its [unfolded items_ok_def]
  have f: "attr_map items name = None \<longleftrightarrow> ?f = None"
    using find_item [of name items] by (cases ?f) (auto simp: attr_map_none)
  let ?copy = "\<lambda>v. if v \<noteq> [] then kmalloc else retE ()"
  have copy: "ticked st b" if "?copy w st = (q, b)" for w q b
    using that kmalloc_ticked [of st q b] by (auto simp: retE_def split: if_splits)
  have bcopy: "ticked st b \<and> (\<forall>y. q = Inr y \<longrightarrow> y = x)" if run: "bindE (?copy w) (\<lambda>_. retE x) st = (q, b)"
    for w and x :: "cryexts_xattr_item list" and q b
  proof -
    obtain q1 b1 where q1: "?copy w st = (q1, b1)" by (rule prod.exhaust)
    then show ?thesis using run copy [OF q1] by (cases q1) (auto simp: bindE_def retE_def)
  qed
  have "ticked st s \<and> (\<forall>its. r = Inr its \<longrightarrow> items_ok its \<and> attr_map its = (attr_map items)(name := value) \<and>
      (value = None \<longrightarrow> ?f \<noteq> None) \<and> (has_flag flags XATTR_CREATE \<longrightarrow> ?f = None) \<and> (has_flag flags XATTR_REPLACE \<longrightarrow> ?f \<noteq> None))"
  proof (cases "has_flag flags XATTR_CREATE \<and> ?f \<noteq> None \<or> has_flag flags XATTR_REPLACE \<and> ?f = None")
    case True
    then show ?thesis using r by (auto simp: change_items_def Let_def failE_def split: if_splits)
  next
    case flags: False
    then have r': "(case value of
        None \<Rightarrow> (case ?f of None \<Rightarrow> failE ENODATA | Some k \<Rightarrow> retE (take k items @ drop (Suc k) items))
      | Some v \<Rightarrow> (case ?f of
             Some k \<Rightarrow> bindE (?copy v) (\<lambda>_. retE (items[k := (items ! k)\<lparr>xi_value := v, xi_value_len := of_nat (length v)\<rparr>]))
           | None \<Rightarrow>
               if CRYEXTS_XATTR_MAX_ITEMS \<le> length items then failE ENOSPC
               else bindE (?copy v) (\<lambda>_. retE (items @ [\<lparr>xi_name = name, xi_value_len = of_nat (length v),
                 xi_value = v\<rparr>])))) st = (r, s)"
      using r by (auto simp: change_items_def Let_def split: if_splits option.splits)
    show ?thesis
    proof (cases "value")
      case None
      show ?thesis
      proof (cases ?f)
        case f: None
        then show ?thesis using r' None by (auto simp: failE_def)
      next
        case (Some k)
        note k = find_item(1) [OF Some]
        have "items_ok (take k items @ drop (Suc k) items)"
        proof -
          have i: "items = take k items @ (items ! k) # drop (Suc k) items" using k by (intro id_take_nth_drop) simp
          have "list_all item_ok (take k items @ (items ! k) # drop (Suc k) items)"
            "distinct (map xi_name (take k items @ (items ! k) # drop (Suc k) items))" using d i by simp_all
          then show ?thesis using d by (auto simp: items_ok_def)
        qed
        then show ?thesis
          using r' None Some attr_map_remove [of items k name] d k flags by (auto simp: retE_def)
      qed
    next
      case v: (Some w)
      have len: "unat (of_nat (length w) :: u16) = length w"
        using assms(3) v by (simp add: value_ok_def unat_of_nat)
      show ?thesis
      proof (cases ?f)
        case None
        let ?x = "\<lparr>xi_name = name, xi_value_len = of_nat (length w), xi_value = w\<rparr>"
        show ?thesis
        proof (cases "CRYEXTS_XATTR_MAX_ITEMS \<le> length items")
          case True
          then show ?thesis using r' v None by (auto simp: failE_def)
        next
          case False
          then have run: "bindE (?copy w) (\<lambda>_. retE (items @ [?x])) st = (r, s)" using r' v None by simp
          have new: "name \<notin> xi_name ` set items" by (rule find_item(2) [OF None])
          have "item_ok ?x" using nm len by (simp add: item_ok_def name_ok_def)
          then have "items_ok (items @ [?x])" using d new False by (auto simp: items_ok_def)
          moreover have "attr_map (items @ [?x]) = (attr_map items)(name := Some w)"
            using new attr_map_none [of items name] by (auto simp: attr_map_def fun_eq_iff map_add_def split: option.splits)
          ultimately show ?thesis using bcopy [OF run] v None flags by auto
        qed
      next
        case (Some k)
        note k = find_item(1) [OF Some]
        let ?x = "(items ! k)\<lparr>xi_value := w, xi_value_len := of_nat (length w)\<rparr>"
        have run: "bindE (?copy w) (\<lambda>_. retE (items[k := ?x])) st = (r, s)" using r' v Some by simp
        have "map xi_name (items[k := ?x]) = map xi_name items" using k by (simp add: map_update list_update_same_conv)
        moreover have "item_ok ?x" using d k len by (auto simp: list_all_length item_ok_def)
        then have "list_all item_ok (items[k := ?x])" using d k by (auto simp: list_all_length nth_list_update)
        ultimately have "items_ok (items[k := ?x])" using d by (simp add: items_ok_def)
        moreover have "attr_map (items[k := ?x]) = (attr_map items)(name := Some w)"
          using attr_map_update [of items k name ?x] d k by simp
        ultimately show ?thesis using bcopy [OF run] v Some flags by auto
      qed
    qed
  qed
  then show "ticked st s" "r = Inr its \<Longrightarrow> items_ok its \<and> attr_map its = (attr_map items)(name := value) \<and>
      (value = None \<longrightarrow> attr_map items name \<noteq> None) \<and>
      (has_flag flags XATTR_CREATE \<longrightarrow> attr_map items name = None) \<and>
      (has_flag flags XATTR_REPLACE \<longrightarrow> attr_map items name \<noteq> None)"
    unfolding f by blast+
qed

section \<open>The map of an inode\<close>

text \<open>What reading gives on a device that works.\<close>

definition xattr_items :: "inode \<Rightarrow> fs \<Rightarrow> cryexts_xattr_item list" where
  "xattr_items i st = (case cryexts_load_xattrs i (st\<lparr>d_fault := \<lambda>_. False\<rparr>) of
     (Inr items, _) \<Rightarrow> items | (Inl _, _) \<Rightarrow> [])"

definition xattr_map :: "inode \<Rightarrow> fs \<Rightarrow> bytes \<Rightarrow> bytes option" where
  "xattr_map i st = attr_map (xattr_items i st)"

definition xattr_overflow_of :: "inode \<Rightarrow> fs \<Rightarrow> u64" where
  "xattr_overflow_of i st = (let root = cryexts_inode_xattr_block i in
     if root = 0 then 0 else xh_overflow_block (dec_xh (bdata st root)))"

definition xattr_ok :: "inode \<Rightarrow> fs \<Rightarrow> bool" where
  "xattr_ok i st \<longleftrightarrow> attr_inv i st (xattr_overflow_of i st) (xattr_items i st)"

lemma attr_inv_faultless: "attr_inv i st ov items \<Longrightarrow> attr_inv i (st\<lparr>d_fault := f\<rparr>) ov items"
proof -
  assume iv: "attr_inv i st ov items"
  let ?s = "st\<lparr>d_fault := f\<rparr>"
  have ok: "disk_ok st" using iv by (simp add: attr_inv_def xattr_place_def)
  have "alloc_same st ?s" by (simp add: alloc_same_def geo_view_def)
  from took_same [OF took_refl [OF ok] this] have t: "took {} st ?s" .
  have g: "geo_view ?s = geo_view st" by (simp add: geo_view_def)
  have al: "alloc_ok st" "i_ino i \<in> inode_space st" using iv by (simp_all add: attr_inv_def xattr_place_def disk_ok_def)
  have eq: "inode_space ?s = inode_space st" "inode_block ?s (i_ino i) = inode_block st (i_ino i)"
      "bitmaps ?s = bitmaps st" "side ?s = side st" "bdata ?s = bdata st"
      "cryexts_large_xattr_feature_enabled ?s = cryexts_large_xattr_feature_enabled st"
    using geo_basic [OF g] geo_valid(2) [OF g al]
    by (simp_all add: inode_space_def bdata_def fun_eq_iff cryexts_large_xattr_feature_enabled_def)
  show "attr_inv i ?s ov items"
    using iv t unfolding attr_inv_def xattr_place_def stored_def eq by (simp add: took_def)
qed

lemma attr_items: "attr_inv i st ov items \<Longrightarrow> xattr_items i st = items \<and> xattr_overflow_of i st = ov"
proof -
  assume iv: "attr_inv i st ov items"
  let ?s = "st\<lparr>d_fault := \<lambda>_. False\<rparr>"
  obtain r s where l: "cryexts_load_xattrs i ?s = (r, s)" by (metis prod.exhaust)
  have "\<not> faulty ?s" by (simp add: faulty_def)
  then have "r = Inr items" using load_inv [OF attr_inv_faultless [OF iv] l] by (simp add: unless_fault_def)
  moreover have "xattr_overflow_of i st = ov"
    using iv by (auto simp: xattr_overflow_of_def attr_inv_def stored_def packed_def split: if_splits)
  ultimately show ?thesis using l by (simp add: xattr_items_def)
qed

lemma xattr_ok_iff: "xattr_ok i st \<longleftrightarrow> (\<exists>ov items. attr_inv i st ov items)"
  using attr_items by (metis xattr_ok_def)

lemma xattr_map_inv: "attr_inv i st ov items \<Longrightarrow> xattr_ok i st \<and> xattr_map i st = attr_map items"
  using attr_items xattr_ok_iff by (metis xattr_map_def)

text \<open>C26: what is packed into an attribute block is parsed from it again, the number of the
  overflow block included, unless memory runs out.\<close>

theorem xattr_roundtrip:
  assumes "list_all item_ok items" and "cryexts_pack_xattr_block items overflow = Inr buf"
    and "base + length items \<le> CRYEXTS_XATTR_MAX_ITEMS"
  shows "case cryexts_parse_xattr_block buf base st of (r, st') \<Rightarrow>
    (r = Inr (items, overflow) \<or> r = Inl ENOMEM \<and> faulty st) \<and> ticked st st'"
proof -
  obtain r st' where r: "cryexts_parse_xattr_block buf base st = (r, st')" by (metis prod.exhaust)
  show ?thesis
    using parse_packed [OF assms(1) pack_packed [OF assms(1,2)] assms(3) r] unfolding r by simp
qed

text \<open>C11: reading an attribute gives the value that the map of the attributes has for the name,
  its length if there is no buffer, ERANGE if the buffer is too small, and ENODATA if there is no such
  attribute; only a failing device gives another error.  Reading changes nothing.\<close>

theorem xattr_get_correct:
  assumes "xattr_ok i st" and "cryexts_xattr_feature_enabled st" and "name \<noteq> []" and "name \<noteq> CRYEXTS_XATTR_POLICY_NAME"
    and "cryexts_user_xattr_get i name buffer cap st = (r, st')"
  shows "((case xattr_map i st name of
      None \<Rightarrow> r = Inl ENODATA
    | Some v \<Rightarrow> r = (if \<not> buffer then Inr (length v, []) else if cap < length v then Inl ERANGE
                     else Inr (length v, v))) \<or>
    (r = Inl EIO \<or> r = Inl ENOMEM) \<and> faulty st) \<and> ticked st st'"
proof -
  obtain ov items where iv: "attr_inv i st ov items" using assms(1) xattr_ok_iff by blast
  obtain q1 s1 where q1: "kmalloc st = (q1, s1)" by (metis prod.exhaust)
  note k = kmalloc_ticked [OF q1]
  have t1: "ticked st s1" using k by blast
  obtain q2 s2 where q2: "cryexts_load_xattrs i s1 = (q2, s2)" by (metis prod.exhaust)
  note l = load_inv [OF attr_ticked [OF iv t1] q2]
  have f: "cryexts_xattr_feature_enabled s1"
    using assms(2) ticked_fields(2) [OF t1] by (simp add: cryexts_xattr_feature_enabled_def)
  have m: "xattr_map i st = attr_map items" using xattr_map_inv [OF iv] by simp
  have it: "items_ok items" using iv by (simp add: attr_inv_def)
  show ?thesis
  proof (cases "q1 = Inr () \<and> q2 = Inr items")
    case False
    then have "(r = Inl EIO \<or> r = Inl ENOMEM) \<and> faulty st \<and> (st' = s1 \<or> st' = s2)"
      using assms(3-5) q1 q2 k l f ticked_faulty [OF t1]
      by (cases q1; cases q2) (auto simp: cryexts_user_xattr_get_def bindE_def unless_fault_def)
    then show ?thesis using t1 l ticked_trans by blast
  next
    case True
    have run: "(r, st') = (case cryexts_find_xattr_item name items of None \<Rightarrow> (Inl ENODATA, s2)
        | Some k \<Rightarrow> (let item = items ! k; len = unat (xi_value_len item) in
            (fill_buffer buffer cap len (take len (xi_value item)), s2)))"
      using assms(3-5) q1 q2 True f
      by (simp add: cryexts_user_xattr_get_def bindE_def failE_def from_res_def Let_def split: option.splits)
    have t: "ticked st s2" using t1 l ticked_trans by blast
    show ?thesis
    proof (cases "cryexts_find_xattr_item name items")
      case None
      then have "attr_map items name = None" using find_item(2) [OF None] attr_map_none by blast
      then show ?thesis using run None t m by simp
    next
      case (Some j)
      note j = find_item(1) [OF Some]
      have v: "attr_map items name = Some (xi_value (items ! j))" using attr_map_nth [of items j] it j by (simp add: items_ok_def)
      have "unat (xi_value_len (items ! j)) = length (xi_value (items ! j))"
        using it j by (simp add: items_ok_def list_all_length item_ok_def)
      then show ?thesis using run Some t m v by (auto simp: fill_buffer_def Let_def)
    qed
  qed
qed


text \<open>
  Removing the last attribute gives back its blocks, and the number of the freed block stays in the
  inode on the disk: the inode is not written.
\<close>

theorem last_attr_stale:
  assumes "xattr_ok i st" and "inode_block st (i_ino i) \<notin> side st"
    and "cryexts_write_xattrs [] (i, st) = (Inr (), (i', st'))"
  shows "xattr_blocks i st \<inter> block_used st' = {} \<and> cryexts_inode_xattr_block i' = 0 \<and>
    bdata st' (inode_block st (i_ino i)) = bdata st (inode_block st (i_ino i))"
proof -
  obtain ov items where iv: "attr_inv i st ov items" using assms(1) xattr_ok_iff by blast
  have "cryexts_free_xattr_storage (i, st) = (Inr (), (i', st'))" using assms(3) by (simp add: cryexts_write_xattrs_def)
  from free_storage_inv [OF iv this] obtain s where s: "cryexts_inode_xattr_block i' = 0" "ticked st s"
      "gave_run (homes (cryexts_inode_xattr_block i) ov) s st'" by auto
  have al: "alloc_ok st" "i_ino i \<in> inode_space st" using iv by (simp_all add: attr_inv_def xattr_place_def disk_ok_def)
  have "inode_block st (i_ino i) \<notin> set (bitmaps st)" using al by (simp add: alloc_ok_def)
  moreover have "bitmaps s = bitmaps st" "side s = side st" using geo_basic(5,8) [OF ticked_fields(4) [OF s(2)]] by simp_all
  ultimately have "bdata st' (inode_block st (i_ino i)) = bdata s (inode_block st (i_ino i))"
    using gave_runD(7) [OF s(3)] assms(2) by simp
  then show ?thesis
    using s(1) gave_runD(5) [OF s(3)] attr_blocks [OF iv] ticked_fields(1) [OF s(2)] by auto
qed

section \<open>A sample\<close>

text \<open>The sample file system with attributes and no journal, and the sample file, which has none.\<close>

definition attr_fs :: fs where
  "attr_fs = upd_disk_sb (\<lambda>sb. sb\<lparr>sb_features_incompat := 0x890\<rparr>) (file_fs\<lparr>s_journal_enabled := False\<rparr>)"

lemma attr_sample:
  "attr_inv file_inode attr_fs 0 []" "cryexts_xattr_feature_enabled attr_fs" "\<not> faulty attr_fs"
proof -
  have g: "has_flag 0x890 CRYEXTS_FEATURE_INCOMPAT_BLOCK_GROUPS = cryexts_has_block_groups file_fs"
    by (simp add: file_sel has_flag_def const_simps)
  note f = features_sets [OF g, where j = False, folded attr_fs_def]
  have al: "alloc_ok attr_fs" using f(1) file_fs_ok by simp
  have use: "block_used attr_fs = block_used file_fs" by (rule f(7) [OF file_fs_ok])
  have fo: "file_ok (info file_inode) file_fs"
    using inode_okE [OF file_inode_ok] by (auto simp: file_inode_def info_def)
  note fd = file_okD [OF fo]
  have disk: "disk_ok attr_fs" using fd(1) al f use by (simp add: disk_ok_def)
  have "meta_blocks (info file_inode) \<subseteq> owned (info file_inode)" by (simp add: owned_def)
  then have m: "x \<in> block_used attr_fs \<and> x \<notin> set (bitmaps attr_fs) \<and> x \<notin> side attr_fs"
    if "x \<in> meta_blocks (info file_inode)" for x
    using that fd(4,6,7) use f(3,4) by auto
  have ib: "inode_block file_fs 12 = 4" "(12 :: u64) \<in> inode_space file_fs"
    by (simp_all add: inode_block_def inode_space_def file_sel(1))
      (simp_all add: file_fs_def sample_fs_def sample_sb_def const_simps cryexts_inodes_count_def
        CRYEXTS_ROOT_INO_def cryexts_inodes_per_block_def BLOCK_SIZE_def)
  have "(4 :: u64) \<notin> block_space file_fs" by (simp add: block_space_def cryexts_data_block_valid_def file_sel)
  then have "xattr_place file_inode attr_fs {}"
    using disk m ib f by (simp add: xattr_place_def) (simp add: file_inode_def)
  then show "attr_inv file_inode attr_fs 0 []"
    by (simp add: attr_inv_def items_ok_def homes_def cryexts_inode_xattr_block_def file_inode_def zero_info_def)
  show "cryexts_xattr_feature_enabled attr_fs" "\<not> faulty attr_fs"
    by (simp_all add: cryexts_xattr_feature_enabled_def attr_fs_def upd_disk_sb_def has_flag_def const_simps
        faulty_def file_fs_def sample_fs_def)
qed

theorem xattr_roundtrip_witness:
  "\<exists>buf. cryexts_pack_xattr_block [\<lparr>xi_name = [97], xi_value_len = 2, xi_value = [7, 0]\<rparr>] 0 = Inr buf \<and>
    fst (cryexts_parse_xattr_block buf 0 attr_fs) = Inr ([\<lparr>xi_name = [97], xi_value_len = 2, xi_value = [7, 0]\<rparr>], 0)"
proof -
  let ?its = "[\<lparr>xi_name = [97], xi_value_len = 2, xi_value = [7, 0]\<rparr>]"
  have ok: "list_all item_ok ?its" by (simp add: item_ok_def const_simps)
  have "16 + items_size ?its \<le> BLOCK_SIZE" by (simp add: cryexts_xattr_item_size_def const_simps BLOCK_SIZE_def)
  then obtain buf where b: "cryexts_pack_xattr_block ?its 0 = Inr buf" using pack_fits(1) [OF ok, of 0] by blast
  have "0 + length ?its \<le> CRYEXTS_XATTR_MAX_ITEMS" by (simp add: const_simps)
  from xattr_roundtrip [OF ok b this, of attr_fs] attr_sample(3) show ?thesis using b by (auto split: prod.splits)
qed

theorem xattr_get_correct_witness:
  "fst (cryexts_user_xattr_get file_inode [97] True 8 attr_fs) = Inl ENODATA"
proof -
  obtain r s where r: "cryexts_user_xattr_get file_inode [97] True 8 attr_fs = (r, s)" by (metis prod.exhaust)
  note m = xattr_map_inv [OF attr_sample(1)]
  have "[97] \<noteq> CRYEXTS_XATTR_POLICY_NAME" by (simp add: CRYEXTS_XATTR_POLICY_NAME_def)
  from xattr_get_correct [OF _ attr_sample(2) _ this r] m attr_sample(3)
  show ?thesis by (simp add: r attr_map_def)
qed


end
