(* ===== verification/InodeCheck.thy ===== *)
theory InodeCheck
  imports InodeDisk Crypto
begin

text \<open>
  The checks that an inode read from the disk must pass before it is used
  (\<open>cryexts_validate_inode\<close> of \<open>inode.c\<close>).  The loops over the extents of the root, of a leaf and of the
  overflow block are the same code three times over; here they are one function.  Counters are
  kept at their width: \<open>used_data_blocks\<close> has 32 bits and may wrap.
\<close>

section \<open>Counting the blocks of an inode on the disk\<close>

text \<open>\<open>count += le32_to_cpu(extents[i].length)\<close>.\<close>

definition add_lengths :: "cryexts_extent list \<Rightarrow> u32 \<Rightarrow> u32" where
  "add_lengths es count = fold (\<lambda>e n. n + e_length e) es count"

text \<open>Wherever the walk meets something it does not understand, the count is zero.\<close>

fun count_leaves :: "cryexts_extent_root_ref list \<Rightarrow> u32 \<Rightarrow> (fs, u32) act" where
  "count_leaves [] count = retE count"
| "count_leaves (r # rs) count = (\<lambda>st.
     if r_leaf_block r = 0 \<or> r_entries r = 0 \<or> CRYEXTS_EXTENTS_PER_BLOCK < unat (r_entries r)
     then (Inr 0, st)
     else (case sb_bread (r_leaf_block r) st of
             (Inl _, st) \<Rightarrow> (Inr 0, st)
           | (Inr bh, st) \<Rightarrow>
               if \<not> extent_block_ok (r_entries r) (bdata st bh) then (Inr 0, st)
               else count_leaves rs (add_lengths
                      (get_extents (bdata st bh) EXTENT_HEADER_BYTES (unat (r_entries r))) count + 1) st))"

definition count_overflow :: "cryexts_inode \<Rightarrow> (u32 \<Rightarrow> u32) \<Rightarrow> (fs, u32) act" where
  "count_overflow d count_root = (\<lambda>st.
     let block = overflow_block_of d; entries = overflow_entries_of d in
     if (block \<noteq> 0) \<noteq> (entries \<noteq> 0) then (Inr 0, st)
     else if block = 0 then (Inr (count_root 0), st)
     else (case sb_bread block st of
             (Inl _, st) \<Rightarrow> (Inr 0, st)
           | (Inr bh, st) \<Rightarrow>
               if \<not> extent_block_ok entries (bdata st bh) then (Inr 0, st)
               else (Inr (count_root (add_lengths
                      (get_extents (bdata st bh) EXTENT_HEADER_BYTES (unat entries)) 0 + 1)), st)))"

definition nonzero_count :: "u64 list \<Rightarrow> u32" where
  "nonzero_count bs = of_nat (length (filter (\<lambda>b. b \<noteq> 0) bs))"

definition cryexts_disk_inode_block_count :: "cryexts_inode \<Rightarrow> (fs, u32) act" where
  "cryexts_disk_inode_block_count d = (\<lambda>st.
     let eh = extent_root d; inline_max = unat (eh_max eh); entries = unat (eh_entries eh);
         count_root = add_lengths (root_extents d) in
     if cryexts_disk_inode_uses_extents d
     then (if eh_magic eh \<noteq> CRYEXTS_EXTENT_MAGIC then (Inr 0, st)
           else if root_is_v2 st d
           then (if \<not> root_v2_ok d then (Inr 0, st) else count_leaves (root_refs d) 0 st)
           else if inline_max = CRYEXTS_MAX_INLINE_EXTENTS
           then (Inr (if CRYEXTS_MAX_INLINE_EXTENTS < entries then 0 else count_root 0), st)
           else if inline_max = CRYEXTS_EXTENT_ROOT_INLINE_EXTENTS \<and> cryexts_extent_tree_enabled st
           then (if CRYEXTS_EXTENT_ROOT_INLINE_EXTENTS < entries then (Inr 0, st)
                 else count_overflow d count_root st)
           else (Inr 0, st))
     else (let count = nonzero_count (di_block d) in
           if S_ISDIR (di_mode d) \<and> has_flag (di_inode_flags d) CRYEXTS_INODE_FLAG_DIR_INDEX \<and>
              di_indirect_block d \<noteq> 0
           then (Inr (count + 1), st)
           else if di_indirect_block d = 0 then (Inr count, st)
           else (case sb_bread (di_indirect_block d) st of
                   (Inl _, st) \<Rightarrow> (Inr (count + 1), st)
                 | (Inr bh, st) \<Rightarrow>
                     (Inr (count + 1 + nonzero_count (indirect_entries (bdata st bh))), st))))"

section \<open>Extents\<close>

definition block_in_use :: "fs \<Rightarrow> u64 \<Rightarrow> bool" where
  "block_in_use st block \<longleftrightarrow> cryexts_data_block_valid st block \<and> cryexts_block_bitmap_used st block"

definition extent_in_use :: "fs \<Rightarrow> cryexts_extent \<Rightarrow> bool" where
  "extent_in_use st e \<longleftrightarrow> block_in_use st (e_physical_start e) \<and>
     (\<forall>k \<in> set [0..<unat (e_length e)]. block_in_use st (e_physical_start e + of_nat k))"

text \<open>The state of the walk: \<open>used_data_blocks\<close> and \<open>next_logical\<close>.\<close>

fun check_extents :: "fs \<Rightarrow> cryexts_extent list \<Rightarrow> u32 \<times> u64 \<Rightarrow> (u32 \<times> u64) res" where
  "check_extents st [] p = Inr p"
| "check_extents st (e # es) (used, next_logical) =
     (let logical = e_logical_start e; len = e_length e in
      if len = 0 \<or> CRYEXTS_MAX_EXTENT_BLOCKS < unat len then Inl EUCLEAN
      else if logical < next_logical \<or> logical + ucast len < logical then Inl EUCLEAN
      else if \<not> extent_in_use st e then Inl EUCLEAN
      else check_extents st es (used + len, logical + ucast len))"

definition check_leaf :: "cryexts_extent_root_ref \<Rightarrow> u32 \<times> u64 \<Rightarrow> (fs, u32 \<times> u64) act" where
  "check_leaf r p = (\<lambda>st.
     let block = r_leaf_block r in
     if block = 0 \<or> r_entries r = 0 \<or> CRYEXTS_EXTENTS_PER_BLOCK < unat (r_entries r)
     then (Inl EUCLEAN, st)
     else if r_logical_start r < snd p then (Inl EUCLEAN, st)
     else if \<not> block_in_use st block then (Inl EUCLEAN, st)
     else bindE (sb_bread block) (\<lambda>bh st.
       let buf = bdata st bh; es = get_extents buf EXTENT_HEADER_BYTES (unat (r_entries r)) in
       if \<not> extent_block_ok (r_entries r) buf then (Inl EUCLEAN, st)
       else if cryexts_metadata_csum_enabled st \<and>
               r_checksum r \<noteq> cryexts_extent_leaf_checksum st block buf
       then (Inl EUCLEAN, st)
       else if e_logical_start (hd es) \<noteq> r_logical_start r then (Inl EUCLEAN, st)
       else (check_extents st es p, st)) st)"

fun check_leaves :: "cryexts_extent_root_ref list \<Rightarrow> u32 \<times> u64 \<Rightarrow> (fs, u32 \<times> u64) act" where
  "check_leaves [] p = retE p"
| "check_leaves (r # rs) p = bindE (check_leaf r p) (check_leaves rs)"

text \<open>The root with three extents: the extents of its overflow block come after its own.\<close>

definition check_overflow_root :: "cryexts_inode \<Rightarrow> (fs, u32 \<times> u64) act" where
  "check_overflow_root d = (\<lambda>st.
     let block = overflow_block_of d; entries = overflow_entries_of d;
         csum = cryexts_disk_extent_overflow_checksum d in
     if CRYEXTS_EXTENT_ROOT_INLINE_EXTENTS < unat (eh_entries (extent_root d)) then (Inl EUCLEAN, st)
     else if (block \<noteq> 0) \<noteq> (entries \<noteq> 0) then (Inl EUCLEAN, st)
     else if CRYEXTS_EXTENTS_PER_BLOCK < unat entries then (Inl EUCLEAN, st)
     else if block = 0 \<and> csum \<noteq> 0 \<and> cryexts_metadata_csum_enabled st then (Inl EUCLEAN, st)
     else if block = 0 then (check_extents st (root_extents d) (0, 0), st)
     else if \<not> block_in_use st block then (Inl EUCLEAN, st)
     else bindE (sb_bread block) (\<lambda>bh st.
       let buf = bdata st bh in
       if \<not> extent_block_ok entries buf then (Inl EUCLEAN, st)
       else if cryexts_metadata_csum_enabled st \<and>
               csum \<noteq> cryexts_extent_overflow_checksum st block buf
       then (Inl EUCLEAN, st)
       else bindE (\<lambda>st. (check_extents st (root_extents d) (0, 0), st)) (\<lambda>p st.
              (check_extents st (get_extents buf EXTENT_HEADER_BYTES (unat entries)) p, st)) st) st)"

text \<open>The extents wherever they are, with the overflow block (zero without one).\<close>

definition check_root :: "cryexts_inode \<Rightarrow> (fs, (u32 \<times> u64) \<times> u64) act" where
  "check_root d = (\<lambda>st.
     let eh = extent_root d; inline_max = unat (eh_max eh); entries = unat (eh_entries eh) in
     if eh_magic eh \<noteq> CRYEXTS_EXTENT_MAGIC then (Inl EUCLEAN, st)
     else if root_is_v2 st d
     then (if \<not> root_v2_ok d then (Inl EUCLEAN, st)
           else bindE (check_leaves (root_refs d) (0, 0)) (\<lambda>p. retE (p, 0)) st)
     else if inline_max = CRYEXTS_MAX_INLINE_EXTENTS
     then (if CRYEXTS_MAX_INLINE_EXTENTS < entries then (Inl EUCLEAN, st)
           else bindE (\<lambda>st. (check_extents st (root_extents d) (0, 0), st)) (\<lambda>p. retE (p, 0)) st)
     else if inline_max = CRYEXTS_EXTENT_ROOT_INLINE_EXTENTS \<and> cryexts_extent_tree_enabled st
     then bindE (check_overflow_root d) (\<lambda>p. retE (p, overflow_block_of d)) st
     else (Inl EUCLEAN, st))"

definition extent_common_checks :: "cryexts_inode \<Rightarrow> (u32 \<times> u64) \<times> u64 \<Rightarrow> bool" where
  "extent_common_checks d r = (case r of ((used, next_logical), overflow_block) \<Rightarrow>
     let eh = extent_root d; inline_max = unat (eh_max eh); entries = eh_entries eh;
         size = di_size d; v2 = cryexts_disk_extent_tree_v2_inode (di_inode_flags d) in
     di_indirect_block d = 0 \<and> (\<forall>b \<in> set (di_block d). b = 0) \<and>
     next_logical \<le> (size + (of_nat BLOCK_SIZE - 1)) div of_nat BLOCK_SIZE \<and>
     \<not> (size = 0 \<and> (used \<noteq> 0 \<or> overflow_block \<noteq> 0 \<or> (v2 \<and> entries \<noteq> 0))) \<and>
     size \<le> cryexts_extent_file_blocks_max_from_inode_flags (di_inode_flags d) inline_max *
             of_nat BLOCK_SIZE \<and>
     di_blocks d = ucast (used + (if overflow_block \<noteq> 0 then 1 else 0) +
                          (if v2 then ucast entries else 0)) * 8)"

definition check_extent_inode :: "cryexts_inode \<Rightarrow> (fs, unit) act" where
  "check_extent_inode d = (\<lambda>st.
     if \<not> S_ISREG (di_mode d) then (Inl EUCLEAN, st)
     else bindE (check_root d) (\<lambda>r. checkE (\<lambda>_. extent_common_checks d r) EUCLEAN) st)"

section \<open>Inodes without extents\<close>

definition pointers_in_use :: "fs \<Rightarrow> u64 list \<Rightarrow> bool" where
  "pointers_in_use st bs \<longleftrightarrow> (\<forall>b \<in> set bs. b \<noteq> 0 \<longrightarrow> block_in_use st b)"

definition is_dir_index :: "cryexts_inode \<Rightarrow> bool" where
  "is_dir_index d \<longleftrightarrow> S_ISDIR (di_mode d) \<and> has_flag (di_inode_flags d) CRYEXTS_INODE_FLAG_DIR_INDEX"

text \<open>The direct and the indirect pointers; the result is \<open>used_data_blocks\<close>.\<close>

definition check_pointers :: "cryexts_inode \<Rightarrow> (fs, u32) act" where
  "check_pointers d = (\<lambda>st.
     let used = nonzero_count (di_block d); ind = di_indirect_block d in
     if \<not> pointers_in_use st (di_block d) then (Inl EUCLEAN, st)
     else if ind = 0 \<or> is_dir_index d then (Inr used, st)
     else if \<not> block_in_use st ind then (Inl EUCLEAN, st)
     else bindE (sb_bread ind) (\<lambda>bh st.
       let entries = indirect_entries (bdata st bh) in
       if \<not> pointers_in_use st entries then (Inl EUCLEAN, st)
       else (Inr (used + nonzero_count entries), st)) st)"

definition check_dir_inode :: "cryexts_inode \<Rightarrow> (fs, unit) act" where
  "check_dir_inode d = (\<lambda>st.
     let size = di_size d; ind = di_indirect_block d;
         dir_blocks = (ucast (size div of_nat BLOCK_SIZE) :: u32);
         dir_index_block = (if is_dir_index d then ind else 0);
         dir_sectors = (dir_blocks + (if dir_index_block \<noteq> 0 then 1 else 0)) * 8 in
     if size = 0 \<or> size mod of_nat BLOCK_SIZE \<noteq> 0 then (Inl EUCLEAN, st)
     else if dir_blocks = 0 \<or> CRYEXTS_DIRECT_BLOCKS < unat dir_blocks then (Inl EUCLEAN, st)
     else if is_dir_index d \<and> (ind = 0 \<or> \<not> block_in_use st ind) then (Inl EUCLEAN, st)
     else if \<not> is_dir_index d \<and> ind \<noteq> 0 then (Inl EUCLEAN, st)
     else if nonzero_count (di_block d) \<noteq> dir_blocks \<or> di_blocks d \<noteq> ucast dir_sectors \<or>
             di_block d ! 0 = 0
     then (Inl EUCLEAN, st)
     else if \<exists>b \<in> set (drop (unat dir_blocks) (di_block d)). b \<noteq> 0 then (Inl EUCLEAN, st)
     else (Inr (), st))"

text \<open>The number of blocks on the disk, as sectors in 32 bits, is the one the inode states.\<close>

definition check_sectors :: "cryexts_inode \<Rightarrow> (fs, unit) act" where
  "check_sectors d = bindE (cryexts_disk_inode_block_count d)
     (\<lambda>n. checkE (\<lambda>_. di_blocks d = ucast (n * 8)) EUCLEAN)"

definition check_reg_inode :: "cryexts_inode \<Rightarrow> u32 \<Rightarrow> (fs, unit) act" where
  "check_reg_inode d used = (\<lambda>st.
     if cryexts_regular_file_max_size < di_size d then (Inl EUCLEAN, st)
     else if di_size d = 0 \<and> (used \<noteq> 0 \<or> di_indirect_block d \<noteq> 0) then (Inl EUCLEAN, st)
     else check_sectors d st)"

definition check_symlink_inode :: "cryexts_inode \<Rightarrow> (fs, unit) act" where
  "check_symlink_inode d = (\<lambda>st.
     if di_size d = 0 \<or> cryexts_symlink_size_limit < di_size d then (Inl EUCLEAN, st)
     else check_sectors d st)"

definition sectors_max :: u64 where
  "sectors_max = (max (of_nat CRYEXTS_FILE_BLOCKS_MAX) CRYEXTS_EXTENT_TREE_V2_FILE_BLOCKS_MAX + 1) * 8"

definition check_block_inode :: "cryexts_inode \<Rightarrow> (fs, unit) act" where
  "check_block_inode d =
     bindE (check_pointers d) (\<lambda>used.
     bindE (whenE (\<lambda>_. S_ISDIR (di_mode d)) (check_dir_inode d)) (\<lambda>_.
     bindE (whenE (\<lambda>_. S_ISREG (di_mode d)) (check_reg_inode d used)) (\<lambda>_.
     bindE (whenE (\<lambda>_. S_ISLNK (di_mode d)) (check_symlink_inode d)) (\<lambda>_.
       checkE (\<lambda>_. di_blocks d \<le> sectors_max) EUCLEAN))))"

section \<open>The whole check\<close>

definition known_inode_flags :: u32 where
  "known_inode_flags = CRYEXTS_INODE_FLAG_EXTENTS OR CRYEXTS_INODE_FLAG_EXTENT_TREE_V2 OR
     CRYEXTS_INODE_FLAG_DIR_INDEX OR CRYEXTS_INODE_FLAG_IMMUTABLE OR CRYEXTS_INODE_FLAG_APPEND_ONLY"

text \<open>What is checked before the mode says what the inode is.\<close>

definition inode_header_ok :: "crypt_info \<Rightarrow> cryexts_inode \<Rightarrow> u64 \<Rightarrow> fs \<Rightarrow> bool" where
  "inode_header_ok c d ino st \<longleftrightarrow>
     (let x = cryexts_disk_inode_extra d; next_orphan = x_next_orphan x in
      di_inode_flags d AND NOT known_inode_flags = 0 \<and>
      (x_xattr_block x \<noteq> 0 \<longrightarrow> block_in_use st (x_xattr_block x)) \<and>
      (next_orphan \<noteq> 0 \<longrightarrow> cryexts_orphan_feature_enabled st \<and>
         CRYEXTS_ROOT_INO \<le> next_orphan \<and> next_orphan \<le> cryexts_inodes_count st \<and>
         next_orphan \<noteq> ino) \<and>
      cryexts_policy_exists c st (x_encryption_policy_id x) \<and> ino \<le> cryexts_inodes_count st)"

definition cryexts_validate_inode :: "crypt_info \<Rightarrow> cryexts_inode \<Rightarrow> u64 \<Rightarrow> (fs, unit) act" where
  "cryexts_validate_inode c d ino = (\<lambda>st.
     let mode = di_mode d in
     if \<not> inode_header_ok c d ino st then (Inl EUCLEAN, st)
     else if mode \<noteq> 0 \<and> \<not> cryexts_inode_bitmap_used st ino then (Inl EUCLEAN, st)
     else if mode = 0
     then (if ino = CRYEXTS_ROOT_INO \<or> cryexts_inode_bitmap_used st ino then (Inl EUCLEAN, st)
           else (Inl ENOENT, st))
     else if \<not> cryexts_mode_supported mode then (Inl EUCLEAN, st)
     else if cryexts_disk_inode_uses_extents d then check_extent_inode d st
     else check_block_inode d st)"

end
