(* ===== verification/InodeLife.thy ===== *)
theory InodeLife
  imports InodeCheck Truncate Xattr
begin

text \<open>
  The life of an inode (\<open>inode.c\<close>): it is read into the inode cache (\<open>cryexts_iget\<close>), created there
  (\<open>cryexts_new_inode\<close>), gives back its blocks (\<open>cryexts_release_inode_storage\<close>) and leaves the
  cache (\<open>cryexts_evict_inode\<close>).

  The cache is a map from inode numbers to inodes, and a \<open>struct inode *\<close> is the number of an
  inode in it: two pointers to the same inode are the same number.  When the kernel drops an
  inode that nobody uses is its own decision; here an inode stays until it is evicted or
  discarded.  The bits of \<open>i_state\<close> and the tables of operations are left out.
\<close>

section \<open>The inode cache\<close>

type_synonym icache = "u64 \<Rightarrow> inode option"
type_synonym 'a vact = "(icache \<times> fs, 'a) act"

text \<open>A step on the file system, on one cached inode, and a query.\<close>

definition on_fs :: "(fs, 'a) act \<Rightarrow> 'a vact" where
  "on_fs m = (\<lambda>(ic, st). case m st of (r, st') \<Rightarrow> (r, (ic, st')))"

definition on_inode :: "u64 \<Rightarrow> 'a iact \<Rightarrow> 'a vact" where
  "on_inode ino m = (\<lambda>(ic, st).
     case m (the (ic ino), st) of (r, (i, st')) \<Rightarrow> (r, (ic(ino := Some i), st')))"

definition cached :: "icache \<times> fs \<Rightarrow> u64 \<Rightarrow> inode" where
  "cached s ino = the (fst s ino)"

definition blank_inode :: "u64 \<Rightarrow> inode" where
  "blank_inode ino = \<lparr>i_ino = ino, i_mode = 0, i_nlink = 1, i_uid = 0, i_gid = 0, i_size = 0,
     i_blocks = 0, i_atime = 0, i_ctime = 0, i_mtime = 0, i_private = None\<rparr>"

text \<open>The cached \<open>next_orphan\<close> goes with the inode.\<close>

definition forget_next_orphan :: "u64 \<Rightarrow> fs \<Rightarrow> fs" where
  "forget_next_orphan ino st = st\<lparr>i_next_orphan := (i_next_orphan st)(ino := None)\<rparr>"

definition cryexts_evict_inode :: "u64 \<Rightarrow> icache \<times> fs \<Rightarrow> icache \<times> fs" where
  "cryexts_evict_inode ino = (\<lambda>(ic, st). (ic(ino := None), forget_next_orphan ino st))"

text \<open>\<open>clear_nlink(inode); discard_new_inode(inode);\<close>\<close>

definition discard_new_inode :: "u64 \<Rightarrow> icache \<times> fs \<Rightarrow> icache \<times> fs" where
  "discard_new_inode ino s = cryexts_evict_inode ino s"

section \<open>Reading an inode\<close>

text \<open>The disk inode in its block, as \<open>cryexts_get_disk_inode\<close> returns it.\<close>

definition disk_inode_at :: "u64 \<times> nat \<Rightarrow> fs \<Rightarrow> cryexts_inode" where
  "disk_inode_at p st = dec_inode (get_bytes (bdata st (fst p)) (snd p) CRYEXTS_INODE_SIZE)"

definition read_inode :: "crypt_info \<Rightarrow> u64 \<Rightarrow> (fs, inode) act" where
  "read_inode c ino = (\<lambda>st.
     case cryexts_get_disk_inode ino st of
       (Inl _, st) \<Rightarrow> (Inl ENOENT, st)
     | (Inr p, st) \<Rightarrow>
         let d = disk_inode_at p st in
         bindE (cryexts_validate_inode c d ino) (\<lambda>_ st.
           case cryexts_init_vfs_inode d (blank_inode ino, st) of
             (Inl e, (i, st)) \<Rightarrow> (Inl e, forget_next_orphan ino st)
           | (Inr _, (i, st)) \<Rightarrow> (Inr i, st)) st)"

definition cryexts_iget :: "crypt_info \<Rightarrow> u64 \<Rightarrow> unit vact" where
  "cryexts_iget c ino = (\<lambda>(ic, st).
     if ic ino \<noteq> None then (Inr (), (ic, st))
     else (case bindE kmalloc (\<lambda>_. read_inode c ino) st of
             (Inl e, st) \<Rightarrow> (Inl e, (ic, st))
           | (Inr i, st) \<Rightarrow> (Inr (), (ic(ino := Some i), st))))"

section \<open>A new inode\<close>

definition S_IFREG :: u16 where [const_simps]: "S_IFREG = 0x8000"
definition S_IFDIR :: u16 where [const_simps]: "S_IFDIR = 0x4000"
definition S_IFLNK :: u16 where [const_simps]: "S_IFLNK = 0xA000"

text \<open>A regular file has extents where the file system has the feature; with trees also leaves.\<close>

definition new_extent_flags :: "fs \<Rightarrow> u16 \<Rightarrow> cryexts_inode_info \<Rightarrow> cryexts_inode_info" where
  "new_extent_flags st mode b =
     (let sb = s_disk_sb st in
      if S_ISREG mode \<and> CRYEXTS_VERSION_V4 \<le> sb_version sb \<and>
         has_flag (sb_features_incompat sb) CRYEXTS_FEATURE_INCOMPAT_EXTENTS
      then (if cryexts_extent_tree_v2_enabled st \<and> cryexts_extent_tree_enabled st
            then b\<lparr>ii_use_extents := True,
                   ii_inode_flags := CRYEXTS_INODE_FLAG_EXTENTS OR CRYEXTS_INODE_FLAG_EXTENT_TREE_V2,
                   ii_extent_inline_max := CRYEXTS_EXTENT_TREE_ROOT_REFS\<rparr>
            else b\<lparr>ii_use_extents := True, ii_inode_flags := CRYEXTS_INODE_FLAG_EXTENTS,
                   ii_extent_inline_max :=
                     (if CRYEXTS_VERSION_V5 \<le> sb_version sb \<and> cryexts_extent_tree_enabled st
                      then CRYEXTS_EXTENT_ROOT_INLINE_EXTENTS else CRYEXTS_MAX_INLINE_EXTENTS)\<rparr>)
      else b)"

text \<open>The policy and the allocation hints come from the directory.\<close>

definition inherit_policy :: "fs \<Rightarrow> inode \<Rightarrow> cryexts_inode_info \<Rightarrow> cryexts_inode_info" where
  "inherit_policy st dir b =
     b\<lparr>ii_encryption_policy_id :=
        (if i_private dir \<noteq> None \<and> cryexts_inode_policy_id dir \<noteq> 0
         then cryexts_inode_policy_id dir else sb_default_encryption_policy (s_disk_sb st))\<rparr>"

definition inherit_hints :: "fs \<Rightarrow> inode \<Rightarrow> u64 \<Rightarrow> cryexts_inode_info \<Rightarrow> cryexts_inode_info" where
  "inherit_hints st dir goal_group b =
     (case i_private dir of None \<Rightarrow> b
      | Some p \<Rightarrow> b\<lparr>ii_alloc_goal_group :=
             (if goal_group \<noteq> - 1 then goal_group
              else if ii_alloc_goal_group p \<noteq> - 1 then ii_alloc_goal_group p
              else if cryexts_inode_first_block dir \<noteq> 0
              then cryexts_block_group_of st (cryexts_inode_first_block dir)
              else ii_alloc_goal_group b),
           ii_alloc_hint_block := ii_alloc_hint_block p\<rparr>)"

definition new_inode_info :: "fs \<Rightarrow> inode \<Rightarrow> u16 \<Rightarrow> cryexts_inode_info" where
  "new_inode_info st dir mode =
     inherit_hints st dir (cryexts_inode_group_of dir st)
       (inherit_policy st dir (new_extent_flags st mode (zero_info\<lparr>ii_alloc_goal_group := - 1\<rparr>)))"

definition new_vfs_inode :: "u32 \<Rightarrow> u32 \<Rightarrow> inode \<Rightarrow> u16 \<Rightarrow> u64 \<Rightarrow> u64 \<Rightarrow> fs \<Rightarrow> inode" where
  "new_vfs_inode uid gid dir mode data_block ino st =
     \<lparr>i_ino = ino, i_mode = mode, i_nlink = (if S_ISDIR mode then 2 else 1), i_uid = uid, i_gid = gid,
      i_size = (if S_ISDIR mode then of_nat BLOCK_SIZE else 0),
      i_blocks = (if data_block \<noteq> 0 then 8 else 0),
      i_atime = d_now st, i_ctime = d_now st, i_mtime = d_now st,
      i_private = Some (new_inode_info st dir mode)\<rparr>"

text \<open>The first data block of the new inode.\<close>

definition place_data_block :: "u64 \<Rightarrow> unit iact" where
  "place_data_block data_block = (\<lambda>(i, st).
     if data_block = 0 then (Inr (), (i, st))
     else bindE
       (if \<not> cryexts_inode_uses_extents i
        then oni (upd_info (\<lambda>b. b\<lparr>ii_direct := (ii_direct b)[0 := data_block]\<rparr>))
        else if cryexts_extent_tree_v2_inode (info i) then cryexts_append_extent_entry 0 data_block
        else oni (upd_info (\<lambda>b. b\<lparr>ii_extents := [new_extent 0 data_block 1]\<rparr>)))
       (\<lambda>_. cryexts_set_inode_alloc_hint data_block) (i, st))"

text \<open>
  The inode is built, put into the cache and written; \<open>known\<close> says that the cache has an inode of
  this number, which \<open>insert_inode_locked\<close> refuses.
\<close>

definition build_inode ::
    "u32 \<Rightarrow> u32 \<Rightarrow> inode \<Rightarrow> u16 \<Rightarrow> u64 \<Rightarrow> bool \<Rightarrow> u64 \<Rightarrow> (fs, inode) act" where
  "build_inode uid gid dir mode data_block known ino =
     bindE kmalloc (\<lambda>_. bindE kmalloc (\<lambda>_ st.
       case bindE (place_data_block data_block) (\<lambda>_.
            bindE (onfs (checkE (\<lambda>_. \<not> known) EBUSY)) (\<lambda>_.
            bindE (onfs (modE (set_next_orphan_cached ino 0))) (\<lambda>_.
              on_errE cryexts_write_inode_to_disk (\<lambda>_ (i, st). (i, forget_next_orphan ino st)))))
            (new_vfs_inode uid gid dir mode data_block ino st, st) of
         (Inl e, (i, st)) \<Rightarrow> (Inl e, st)
       | (Inr _, (i, st)) \<Rightarrow> (Inr i, st)))"

definition cryexts_new_inode :: "u32 \<Rightarrow> u32 \<Rightarrow> inode \<Rightarrow> u16 \<Rightarrow> u64 \<Rightarrow> u64 vact" where
  "cryexts_new_inode uid gid dir mode data_block = (\<lambda>(ic, st).
     case bindE (cryexts_alloc_inode_goal (cryexts_inode_group_of dir st)) (\<lambda>ino.
            on_errE (build_inode uid gid dir mode data_block (ic ino \<noteq> None) ino)
              (\<lambda>_. ignoreE (cryexts_free_inode ino))) st of
       (Inl e, st) \<Rightarrow> (Inl e, (ic, st))
     | (Inr i, st) \<Rightarrow> (Inr (i_ino i), (ic(i_ino i := Some i), st)))"

section \<open>The end of an inode\<close>

definition cryexts_release_inode_storage :: "unit iact" where
  "cryexts_release_inode_storage = (\<lambda>(i, st).
     if i_private i = None then (Inr (), (i, st))
     else runE [cryexts_free_blocks_from 0, cryexts_free_xattr_storage,
            oni (\<lambda>i. i\<lparr>i_size := 0, i_blocks := 0\<rparr>), cryexts_write_inode_to_disk] (i, st))"

end
