(* ===== verification/InodeTyped.thy ===== *)
theory InodeTyped
  imports InodeLife FileTruncate DirFrame CryptoSafe
begin

text \<open>
  What \<open>cryexts_validate_inode\<close> is worth: an inode that passes it is loaded by
  \<open>cryexts_init_vfs_inode\<close> without any complaint but those of the device and the memory, and the
  inode in memory is typed (\<open>inode_typed\<close>): its extents are in order and every block that
  it refers to is a data block that is marked used.
\<close>

section \<open>The walk over the extents\<close>

definition extent_typed :: "fs \<Rightarrow> cryexts_extent \<Rightarrow> bool" where
  "extent_typed st e \<longleftrightarrow> extent_fits e \<and> e_length e \<noteq> 0 \<and>
     unat (e_length e) \<le> CRYEXTS_MAX_EXTENT_BLOCKS \<and> (\<forall>x \<in> extent_run e. block_in_use st x)"

definition extent_end :: "cryexts_extent \<Rightarrow> nat" where
  "extent_end e = unat (e_logical_start e) + unat (e_length e)"

lemma tick_in_use: "block_in_use (a\<lparr>d_tick := t\<rparr>) x = block_in_use a x"
proof -
  have b: "bdata (a\<lparr>d_tick := t\<rparr>) = bdata a" by (simp add: bdata_def fun_eq_iff)
  have v: "cryexts_data_block_valid (a\<lparr>d_tick := t\<rparr>) x = cryexts_data_block_valid a x"
    by (simp add: cryexts_data_block_valid_def cryexts_blocks_count_def cryexts_has_block_groups_def
        cryexts_group_first_block_def cong: option.case_cong)
  have g: "cryexts_group_first_block (a\<lparr>d_tick := t\<rparr>) = cryexts_group_first_block a"
    by (simp add: cryexts_group_first_block_def group_field_def cryexts_has_block_groups_def fun_eq_iff split: option.split)
  show ?thesis
    by (simp add: block_in_use_def v cryexts_block_bitmap_used_def b g cryexts_has_block_groups_def
        Let_def split: option.split)
qed

lemma ticked_in_use: "ticked a b \<Longrightarrow> block_in_use b = block_in_use a"
  by (auto simp: ticked_def fun_eq_iff tick_in_use)

lemma ticked_check_extents: "ticked a b \<Longrightarrow> check_extents b = check_extents a"
proof (intro ext)
  fix es p
  assume t: "ticked a b"
  show "check_extents b es p = check_extents a es p"
    by (induction es arbitrary: p)
      (auto simp: Let_def extent_in_use_def ticked_in_use [OF t] split: prod.splits)
qed

lemma check_extents_append:
  "check_extents st (xs @ ys) p =
     (case check_extents st xs p of Inl e \<Rightarrow> Inl e | Inr q \<Rightarrow> check_extents st ys q)"
  by (induction xs arbitrary: p) (auto simp: Let_def split: prod.splits)

lemma extent_no_wrap:
  fixes l :: u64 and n :: u32
  assumes "\<not> l + ucast n < l"
  shows "unat (l + ucast n) = unat l + unat n" "unat l + unat n < 2 ^ 64"
proof -
  have "\<not> unat (l + ucast n) < unat l" using assms by (simp add: word_less_nat_alt)
  then have "unat l + unat (ucast n :: u64) < 2 ^ 64"
    using unsigned_less [of n, where 'a = nat] unsigned_less [of l, where 'a = nat]
    by (auto simp: unat_plus_if' unat_ucast32 split: if_splits)
  then show "unat l + unat n < 2 ^ 64" by (simp add: unat_ucast32)
  then show "unat (l + ucast n) = unat l + unat n" by (simp add: unat_plus_if' unat_ucast32)
qed

lemma check_extents_typed:
  assumes "check_extents st es (used, next_l) = Inr (used', next')"
  shows "(\<forall>e \<in> set es. extent_typed st e \<and> unat next_l \<le> unat (e_logical_start e) \<and>
            extent_end e \<le> unat next') \<and>
         extents_sorted es \<and> unat next_l \<le> unat next'"
  using assms
proof (induction es arbitrary: used next_l)
  case Nil
  then show ?case by (simp add: extents_sorted_def)
next
  case (Cons e es)
  let ?l = "e_logical_start e" and ?n = "e_length e"
  have c: "?n \<noteq> 0" "unat ?n \<le> CRYEXTS_MAX_EXTENT_BLOCKS" "next_l \<le> ?l" "\<not> ?l + ucast ?n < ?l"
    "extent_in_use st e" and r: "check_extents st es (used + ?n, ?l + ucast ?n) = Inr (used', next')"
    using Cons.prems by (auto simp: Let_def split: if_splits)
  note w = extent_no_wrap [OF c(4)]
  note ih = Cons.IH [OF r]
  have t: "extent_typed st e"
    using c w by (auto simp: extent_typed_def extent_fits_def extent_in_use_def extent_run_def)
  have le: "unat next_l \<le> unat ?l" using c(3) by (simp add: word_le_nat_alt)
  have rest: "\<forall>f \<in> set es. unat ?l + unat ?n \<le> unat (e_logical_start f)" "extents_sorted es"
    "unat ?l + unat ?n \<le> unat next'"
    using ih w(1) by auto
  then have "extents_sorted (e # es)"
    using t by (auto simp: extents_sorted_def extent_typed_def)
  then show ?case using t le rest ih w(1) by (auto simp: extent_end_def)
qed

section \<open>The extents of an inode on the disk\<close>

definition block_extents :: "fs \<Rightarrow> u64 \<Rightarrow> u16 \<Rightarrow> cryexts_extent list" where
  "block_extents st block n = get_extents (bdata st block) EXTENT_HEADER_BYTES (unat n)"

definition leaf_list :: "fs \<Rightarrow> cryexts_inode \<Rightarrow> cryexts_extent list" where
  "leaf_list st d = concat (map (\<lambda>r. block_extents st (r_leaf_block r) (r_entries r)) (root_refs d))"

definition disk_extents :: "fs \<Rightarrow> cryexts_inode \<Rightarrow> cryexts_extent list" where
  "disk_extents st d =
     (if root_is_v2 st d then leaf_list st d
      else if unat (eh_max (extent_root d)) = CRYEXTS_EXTENT_ROOT_INLINE_EXTENTS \<and>
              overflow_block_of d \<noteq> 0
      then root_extents d @ block_extents st (overflow_block_of d) (overflow_entries_of d)
      else root_extents d)"

lemma ticked_flags:
  assumes "ticked a b"
  shows "cryexts_metadata_csum_enabled b = cryexts_metadata_csum_enabled a"
    "cryexts_extent_overflow_checksum b = cryexts_extent_overflow_checksum a"
    "cryexts_extent_leaf_checksum b = cryexts_extent_leaf_checksum a"
    "root_is_v2 b d = root_is_v2 a d" "cryexts_extent_tree_enabled b = cryexts_extent_tree_enabled a"
    "block_extents b = block_extents a"
  using ticked_fields [OF assms] assms
  by (auto simp: ticked_def fun_eq_iff cryexts_metadata_csum_enabled_def
      cryexts_extent_overflow_checksum_def cryexts_extent_leaf_checksum_def
      root_is_v2_def cryexts_extent_tree_v2_enabled_def cryexts_extent_tree_enabled_def block_extents_def)

text \<open>The conditions under which a block of extents is accepted, by the check and by the load.\<close>

definition good_block :: "fs \<Rightarrow> u64 \<Rightarrow> u16 \<Rightarrow> u32 \<Rightarrow> bool" where
  "good_block st block n csum \<longleftrightarrow> block \<noteq> 0 \<and> n \<noteq> 0 \<and> unat n \<le> CRYEXTS_EXTENTS_PER_BLOCK \<and>
     extent_block_ok n (bdata st block) \<and>
     (cryexts_metadata_csum_enabled st \<longrightarrow> csum = cryexts_extent_overflow_checksum st block (bdata st block))"

lemma ticked_good: "ticked a b \<Longrightarrow> good_block b = good_block a"
  using ticked_fields(1) [of a b] ticked_flags(1,2) [of a b] by (simp add: good_block_def fun_eq_iff)

lemma check_leaf_good:
  assumes c: "check_leaf r p st = (Inr q, st')"
  shows "ticked st st'" "good_block st (r_leaf_block r) (r_entries r) (r_checksum r)"
    "check_extents st (block_extents st (r_leaf_block r) (r_entries r)) p = Inr q"
    "block_in_use st (r_leaf_block r)"
proof -
  obtain u s where i: "io_step EIO st = (u, s)" by (rule prod.exhaust)
  note t = ticked_io [OF i]
  then have ts: "ticked st s" by blast
  note f = ticked_fields(1) [OF ts] ticked_flags [OF ts] ticked_check_extents [OF ts]
  have "ticked st st' \<and> good_block st (r_leaf_block r) (r_entries r) (r_checksum r) \<and>
    check_extents st (block_extents st (r_leaf_block r) (r_entries r)) p = Inr q \<and>
    block_in_use st (r_leaf_block r)"
    using c t ts unfolding check_leaf_def sb_bread_def
    by (auto simp: i bindE_def retE_def Let_def good_block_def block_extents_def f
        cryexts_extent_leaf_checksum_def split: if_splits sum.splits)
  then show "ticked st st'" "good_block st (r_leaf_block r) (r_entries r) (r_checksum r)"
    "check_extents st (block_extents st (r_leaf_block r) (r_entries r)) p = Inr q"
    "block_in_use st (r_leaf_block r)" by blast+
qed

lemma check_leaves_good:
  "check_leaves rs p st = (Inr q, st') \<Longrightarrow>
   ticked st st' \<and>
   (\<forall>r \<in> set rs. good_block st (r_leaf_block r) (r_entries r) (r_checksum r) \<and>
      block_in_use st (r_leaf_block r)) \<and>
   check_extents st (concat (map (\<lambda>r. block_extents st (r_leaf_block r) (r_entries r)) rs)) p = Inr q"
proof (induction rs arbitrary: p st)
  case Nil
  then show ?case by (simp add: retE_def)
next
  case (Cons r rs)
  obtain p1 s where l: "check_leaf r p st = (Inr p1, s)" and m: "check_leaves rs p1 s = (Inr q, st')"
    using Cons.prems by (auto simp: bindE_eq_Inr)
  note g = check_leaf_good [OF l]
  note ih = Cons.IH [OF m]
  note e = ticked_good [OF g(1)] ticked_flags(6) [OF g(1)] ticked_check_extents [OF g(1)]
    ticked_in_use [OF g(1)]
  show ?case using g ih ticked_trans [OF g(1)] by (auto simp: check_extents_append e)
qed

section \<open>Loading\<close>

definition loaded_leaf :: "fs \<Rightarrow> cryexts_extent_root_ref \<Rightarrow> cryexts_extent_leaf_cache" where
  "loaded_leaf st r = \<lparr>lf_block = r_leaf_block r, lf_checksum = r_checksum r,
     lf_extents = block_extents st (r_leaf_block r) (r_entries r)\<rparr>"

definition load_result :: "fs \<Rightarrow> inode \<Rightarrow> (unit res \<times> inode \<times> fs) \<Rightarrow> bool" where
  "load_result st i p \<longleftrightarrow> (case p of (q, (i', s')) \<Rightarrow>
     ticked st s' \<and> (q = Inr () \<and> i' = i \<or> q = Inl EIO \<or> q = Inl ENOMEM))"

lemma load_leaf_good:
  assumes t: "ticked st s" and g: "good_block st (r_leaf_block r) (r_entries r) (r_checksum r)"
    and len: "length (ii_extent_leaves (info i)) < CRYEXTS_EXTENT_TREE_ROOT_REFS"
  shows "load_result st
    (upd_info (\<lambda>b. b\<lparr>ii_extent_leaves := ii_extent_leaves b @ [loaded_leaf st r]\<rparr>) i)
    (cryexts_load_extent_leaf (r_leaf_block r) (r_entries r) (r_checksum r) (i, s))"
proof -
  obtain u s1 where i1: "io_step EIO s = (u, s1)" by (rule prod.exhaust)
  obtain v s2 where i2: "io_step ENOMEM s1 = (v, s2)" by (rule prod.exhaust)
  have t1: "ticked st s1" using ticked_io [OF i1] ticked_trans [OF t] by blast
  have t2: "ticked st s2" using ticked_io [OF i2] ticked_trans [OF t1] by blast
  have v: "v = Inr () \<or> v = Inl ENOMEM" and u: "u = Inr () \<or> u = Inl EIO"
    using ticked_io [OF i1] ticked_io [OF i2] by blast+
  note f = ticked_fields(1) [OF t1] ticked_flags [OF t1]
  show ?thesis
    using u v t1 t2 g len
    unfolding cryexts_load_extent_leaf_def load_result_def kmalloc_def
    by (auto simp: onfs_def bindE_def cryexts_read_file_block_def i1 i2 getE_def f oni_def
        good_block_def loaded_leaf_def block_extents_def cryexts_extent_leaf_checksum_def)
qed

lemma load_leaves_good:
  assumes "ticked st s"
    and "\<forall>r \<in> set rs. good_block st (r_leaf_block r) (r_entries r) (r_checksum r)"
    and "length (ii_extent_leaves (info i)) + length rs \<le> CRYEXTS_EXTENT_TREE_ROOT_REFS"
    and "i_private i \<noteq> None"
  shows "load_result st
    (upd_info (\<lambda>b. b\<lparr>ii_extent_leaves := ii_extent_leaves b @ map (loaded_leaf st) rs\<rparr>) i)
    (load_leaves rs (i, s))"
  using assms
proof (induction rs arbitrary: i s)
  case Nil
  then obtain b where b: "i_private i = Some b" by auto
  have "upd_info (\<lambda>b. b\<lparr>ii_extent_leaves := ii_extent_leaves b @ []\<rparr>) i = i" by (simp add: upd_info_def b)
  then show ?case using Nil by (simp add: load_result_def retE_def)
next
  case (Cons r rs)
  obtain b where b: "i_private i = Some b" using Cons.prems(4) by auto
  obtain q i1 s1 where l: "cryexts_load_extent_leaf (r_leaf_block r) (r_entries r) (r_checksum r) (i, s) = (q, (i1, s1))"
    by (metis prod.collapse)
  have lr: "load_result st
      (upd_info (\<lambda>b. b\<lparr>ii_extent_leaves := ii_extent_leaves b @ [loaded_leaf st r]\<rparr>) i) (q, (i1, s1))"
    using load_leaf_good [OF Cons.prems(1), of r i] Cons.prems(2,3) unfolding l by simp
  show ?case
  proof (cases q)
    case (Inl e)
    then show ?thesis using lr by (simp add: bindE_def l load_result_def)
  next
    case (Inr u)
    then have i1: "i1 = i\<lparr>i_private := Some (b\<lparr>ii_extent_leaves := ii_extent_leaves b @ [loaded_leaf st r]\<rparr>)\<rparr>"
      and t1: "ticked st s1"
      using lr b by (auto simp: load_result_def upd_info_def)
    have "load_result st (upd_info (\<lambda>b. b\<lparr>ii_extent_leaves := ii_extent_leaves b @ map (loaded_leaf st) rs\<rparr>) i1)
        (load_leaves rs (i1, s1))"
      using Cons.prems b by (intro Cons.IH t1) (auto simp: i1 info_def)
    then show ?thesis by (simp add: bindE_def l Inr i1 upd_info_def b)
  qed
qed

text \<open>The extents as the loaded inode has them, the check having passed.\<close>

definition extents_in :: "fs \<Rightarrow> cryexts_inode \<Rightarrow> cryexts_inode_info \<Rightarrow> cryexts_inode_info" where
  "extents_in st d b =
     (let inline_max = unat (eh_max (extent_root d)) in
      if root_is_v2 st d
      then b\<lparr>ii_extent_inline_max := CRYEXTS_EXTENT_TREE_ROOT_REFS,
             ii_extent_leaves := map (loaded_leaf st) (root_refs d)\<rparr>
      else if inline_max = CRYEXTS_MAX_INLINE_EXTENTS
      then b\<lparr>ii_extent_inline_max := CRYEXTS_MAX_INLINE_EXTENTS, ii_extents := root_extents d\<rparr>
      else b\<lparr>ii_extent_inline_max := CRYEXTS_EXTENT_ROOT_INLINE_EXTENTS,
             ii_extents := root_extents d, ii_extent_overflow_block := overflow_block_of d,
             ii_extent_overflow_checksum := cryexts_disk_extent_overflow_checksum d,
             ii_overflow_extents :=
               (if overflow_block_of d = 0 then []
                else block_extents st (overflow_block_of d) (overflow_entries_of d))\<rparr>)"

lemma check_overflow_good:
  assumes c: "check_overflow_root d st = (Inr q, st')"
  shows "ticked st st'" "unat (eh_entries (extent_root d)) \<le> CRYEXTS_EXTENT_ROOT_INLINE_EXTENTS"
    "overflow_block_of d = 0 \<longleftrightarrow> overflow_entries_of d = 0"
    "overflow_block_of d \<noteq> 0 \<Longrightarrow> good_block st (overflow_block_of d) (overflow_entries_of d)
       (cryexts_disk_extent_overflow_checksum d) \<and> block_in_use st (overflow_block_of d)"
    "check_extents st (root_extents d @
       (if overflow_block_of d = 0 then []
        else block_extents st (overflow_block_of d) (overflow_entries_of d))) (0, 0) = Inr q"
proof -
  obtain u s where i: "io_step EIO st = (u, s)" by (rule prod.exhaust)
  note t = ticked_io [OF i]
  then have ts: "ticked st s" by blast
  note f = ticked_fields(1) [OF ts] ticked_flags [OF ts] ticked_check_extents [OF ts]
  have "ticked st st' \<and> unat (eh_entries (extent_root d)) \<le> CRYEXTS_EXTENT_ROOT_INLINE_EXTENTS \<and>
    (overflow_block_of d = 0 \<longleftrightarrow> overflow_entries_of d = 0) \<and>
    (overflow_block_of d \<noteq> 0 \<longrightarrow> good_block st (overflow_block_of d) (overflow_entries_of d)
       (cryexts_disk_extent_overflow_checksum d) \<and> block_in_use st (overflow_block_of d)) \<and>
    check_extents st (root_extents d @
       (if overflow_block_of d = 0 then []
        else block_extents st (overflow_block_of d) (overflow_entries_of d))) (0, 0) = Inr q"
    using c t ts unfolding check_overflow_root_def sb_bread_def
    by (auto simp: i bindE_def retE_def Let_def good_block_def block_extents_def f check_extents_append
        split: if_splits sum.splits)
  then show "ticked st st'" "unat (eh_entries (extent_root d)) \<le> CRYEXTS_EXTENT_ROOT_INLINE_EXTENTS"
    "overflow_block_of d = 0 \<longleftrightarrow> overflow_entries_of d = 0"
    "overflow_block_of d \<noteq> 0 \<Longrightarrow> good_block st (overflow_block_of d) (overflow_entries_of d)
       (cryexts_disk_extent_overflow_checksum d) \<and> block_in_use st (overflow_block_of d)"
    "check_extents st (root_extents d @
       (if overflow_block_of d = 0 then []
        else block_extents st (overflow_block_of d) (overflow_entries_of d))) (0, 0) = Inr q"
    by blast+
qed

lemma load_overflow_good:
  assumes t: "ticked st s" and iff: "block = 0 \<longleftrightarrow> n = 0"
    and g: "block \<noteq> 0 \<Longrightarrow> good_block st block n csum"
    and b: "i_private i = Some b" "ii_extent_overflow_block b = block"
      "ii_extent_overflow_checksum b = csum" "ii_overflow_extents b = []"
  shows "load_result st
    (upd_info (\<lambda>b. b\<lparr>ii_overflow_extents := (if block = 0 then [] else block_extents st block n)\<rparr>) i)
    (cryexts_load_extent_overflow n (i, s))"
proof (cases "block = 0")
  case True
  have "b\<lparr>ii_overflow_extents := []\<rparr> = b" using b(4) by simp
  then have "upd_info (\<lambda>b. b\<lparr>ii_overflow_extents := []\<rparr>) i = i" by (simp add: upd_info_def b(1))
  then show ?thesis using True iff t b by (simp add: cryexts_load_extent_overflow_def info_def load_result_def)
next
  case False
  obtain u s1 where i1: "io_step EIO s = (u, s1)" by (rule prod.exhaust)
  obtain v s2 where i2: "io_step ENOMEM s1 = (v, s2)" by (rule prod.exhaust)
  have t1: "ticked st s1" using ticked_io [OF i1] ticked_trans [OF t] by blast
  have t2: "ticked st s2" using ticked_io [OF i2] ticked_trans [OF t1] by blast
  have v: "v = Inr () \<or> v = Inl ENOMEM" and u: "u = Inr () \<or> u = Inl EIO"
    using ticked_io [OF i1] ticked_io [OF i2] by blast+
  note f = ticked_fields(1) [OF t1] ticked_flags [OF t1]
  show ?thesis
    using u v t1 t2 g [OF False] False b
    unfolding cryexts_load_extent_overflow_def load_result_def kmalloc_def
    by (auto simp: onfs_def bindE_def cryexts_read_file_block_def i1 i2 getE_def f oni_def Let_def
        good_block_def block_extents_def info_def)
qed

lemma eh_entries_small: "unat (eh_entries (extent_root d)) = length (root_extents d)"
  "unat (eh_entries (extent_root d)) = length (root_refs d)"
  by (simp_all add: root_extents_def root_refs_def get_array_def)

definition fresh_info :: "cryexts_inode_info \<Rightarrow> bool" where
  "fresh_info b \<longleftrightarrow> ii_extent_leaves b = [] \<and> ii_overflow_extents b = [] \<and> ii_extents b = []"

lemma load_root_good:
  assumes c: "check_root d st = (Inr (p, ob), st')" and t: "ticked st s"
    and b: "i_private i = Some b" "fresh_info b"
  shows "ticked st st' \<and> check_extents st (disk_extents st d) (0, 0) = Inr p \<and>
    (\<forall>r \<in> set (root_refs d). root_is_v2 st d \<longrightarrow> block_in_use st (r_leaf_block r)) \<and>
    (ob \<noteq> 0 \<longrightarrow> block_in_use st ob) \<and>
    load_result st (upd_info (extents_in st d) i) (load_extent_root d (i, s))"
proof -
  let ?max = "unat (eh_max (extent_root d))" and ?n = "unat (eh_entries (extent_root d))"
  have m: "eh_magic (extent_root d) = CRYEXTS_EXTENT_MAGIC"
    using c by (simp add: check_root_def Let_def split: if_splits)
  note f = ticked_flags(4,5) [OF t]
  consider (v2) "root_is_v2 st d"
    | (four) "\<not> root_is_v2 st d" "?max = CRYEXTS_MAX_INLINE_EXTENTS"
    | (three) "\<not> root_is_v2 st d" "?max = CRYEXTS_EXTENT_ROOT_INLINE_EXTENTS" "cryexts_extent_tree_enabled st"
    using c m by (auto simp: check_root_def Let_def split: if_splits)
  then show ?thesis
  proof cases
    case v2
    have ok: "root_v2_ok d" and cl: "check_leaves (root_refs d) (0, 0) st = (Inr p, st')" and ob: "ob = 0"
      using c m v2 by (auto simp: check_root_def Let_def bindE_eq_Inr retE_def split: if_splits)
    note g = check_leaves_good [OF cl]
    let ?i = "upd_info (\<lambda>b. b\<lparr>ii_extent_inline_max := CRYEXTS_EXTENT_TREE_ROOT_REFS\<rparr>) i"
    have "load_result st
        (upd_info (\<lambda>b. b\<lparr>ii_extent_leaves := ii_extent_leaves b @ map (loaded_leaf st) (root_refs d)\<rparr>) ?i)
        (load_leaves (root_refs d) (?i, s))"
      using g ok b eh_entries_small(2) [of d]
      by (intro load_leaves_good t) (auto simp: info_def upd_info_def fresh_info_def root_v2_ok_def)
    then show ?thesis
      using g v2 ok m ob b f
      by (simp add: load_extent_root_def Let_def bindE_def oni_def extents_in_def upd_info_def
          fresh_info_def disk_extents_def leaf_list_def)
  next
    case four
    have "?n \<le> CRYEXTS_MAX_INLINE_EXTENTS" "check_extents st (root_extents d) (0, 0) = Inr p"
      "ob = 0" "st' = st"
      using c m four by (auto simp: check_root_def Let_def bindE_def retE_def split: if_splits sum.splits)
    moreover have "?max \<noteq> CRYEXTS_EXTENT_ROOT_INLINE_EXTENTS" using four(2) by (simp add: const_simps)
    ultimately show ?thesis
      using four m t f
      by (auto simp: load_extent_root_def Let_def oni_def extents_in_def load_result_def disk_extents_def
          upd_info_def b(1))
  next
    case three
    have n4: "?max \<noteq> CRYEXTS_MAX_INLINE_EXTENTS" using three(2) by (simp add: const_simps)
    have cr: "check_overflow_root d st = (Inr p, st')" and ob: "ob = overflow_block_of d"
      using c m three n4 by (auto simp: check_root_def Let_def bindE_eq_Inr retE_def split: if_splits)
    note g = check_overflow_good [OF cr]
    let ?i = "upd_info (\<lambda>b. b\<lparr>ii_extent_inline_max := CRYEXTS_EXTENT_ROOT_INLINE_EXTENTS,
        ii_extents := root_extents d, ii_extent_overflow_block := overflow_block_of d,
        ii_extent_overflow_checksum := cryexts_disk_extent_overflow_checksum d\<rparr>) i"
    have "load_result st (upd_info (\<lambda>b. b\<lparr>ii_overflow_extents :=
        (if overflow_block_of d = 0 then [] else block_extents st (overflow_block_of d) (overflow_entries_of d))\<rparr>) ?i)
        (cryexts_load_extent_overflow (overflow_entries_of d) (?i, s))"
      using b g by (intro load_overflow_good [OF t, where csum = "cryexts_disk_extent_overflow_checksum d"])
        (auto simp: upd_info_def fresh_info_def)
    moreover have "load_extent_root d (i, s) = cryexts_load_extent_overflow (overflow_entries_of d) (?i, s)"
      using three m n4 g(2) f by (simp add: load_extent_root_def Let_def bindE_def oni_def)
    moreover have "upd_info (\<lambda>b. b\<lparr>ii_overflow_extents :=
        (if overflow_block_of d = 0 then [] else block_extents st (overflow_block_of d) (overflow_entries_of d))\<rparr>) ?i =
        upd_info (extents_in st d) i"
      using three n4 b by (simp add: upd_info_def extents_in_def Let_def)
    ultimately show ?thesis using g(1,4,5) three n4 ob by (auto simp: disk_extents_def split: if_splits)
  qed
qed

section \<open>The inode in memory\<close>

text \<open>All of the information but the hints for the allocation.\<close>

definition but_hints :: "cryexts_inode_info \<Rightarrow> cryexts_inode_info \<Rightarrow> bool" where
  "but_hints b b' \<longleftrightarrow> same_map b b' \<and> ii_direct b' = ii_direct b \<and>
     ii_indirect_block b' = ii_indirect_block b \<and> ii_xattr_block b' = ii_xattr_block b \<and>
     ii_dir_index_block b' = ii_dir_index_block b"

lemma block_at_same:
  assumes "cryexts_inode_block_at k (i, s) = (q, (j, s'))"
  shows "j = i \<and> (\<exists>x. q = Inr x)"
proof -
  obtain v u where t: "try_read (ii_indirect_block (info i)) s = (v, u)" by (rule prod.exhaust)
  obtain y where v: "v = Inr y" using ticked_try_read [OF t] by blast
  show ?thesis
    using assms t v by (cases "i_private i")
      (auto simp: cryexts_inode_block_at_def Let_def bindE_def onfs_def retE_def info_def split: if_splits)
qed

lemma last_direct_same: "last_direct ks x (i, s) = (q, (j, s')) \<Longrightarrow> j = i \<and> (\<exists>y. q = Inr y)"
proof (induction ks arbitrary: x s)
  case Nil
  then show ?case by (auto simp: retE_def)
next
  case (Cons k ks)
  obtain r p where c: "cryexts_inode_block_at k (i, s) = (r, p)" by (rule prod.exhaust)
  obtain i1 s1 where p: "p = (i1, s1)" by (rule prod.exhaust)
  obtain y where y: "i1 = i" "r = Inr y" using block_at_same [OF c [unfolded p]] by blast
  show ?case
    using Cons.prems Cons.IH [of "if y \<noteq> 0 then y else x" s1] by (simp add: bindE_def c p y)
qed

lemma alloc_hint_same:
  assumes b: "i_private i = Some b" and h: "cryexts_init_inode_alloc_hint (i, s) = (q, (i', s'))"
  shows "q = Inr () \<and> (\<exists>b'. i' = i\<lparr>i_private := Some b'\<rparr> \<and> but_hints b b')"
proof -
  define i0 where "i0 = upd_info (\<lambda>b. cryexts_reset_reservation (b\<lparr>ii_alloc_hint_block := 0,
     ii_alloc_goal_group := (if cryexts_inode_first_block i \<noteq> 0
       then cryexts_block_group_of s (cryexts_inode_first_block i) else - 1)\<rparr>)) i"
  have "but_hints b (cryexts_reset_reservation (b\<lparr>ii_alloc_hint_block := 0, ii_alloc_goal_group := g\<rparr>))" for g
    by (simp add: but_hints_def same_map_def cryexts_reset_reservation_def)
  then have i0: "\<exists>b'. i0 = i\<lparr>i_private := Some b'\<rparr> \<and> but_hints b b'"
    by (auto simp: i0_def upd_info_def b)
  have hk: "but_hints b (cryexts_update_alloc_hint st x b')" if "but_hints b b'" for st x b'
    using that by (simp add: but_hints_def same_map_def cryexts_update_alloc_hint_def
        cryexts_reset_reservation_def Let_def)
  have step: "\<exists>b'. upd_info (cryexts_update_alloc_hint st x) i0 = i\<lparr>i_private := Some b'\<rparr> \<and> but_hints b b'" for st x
    using i0 hk by (auto simp: upd_info_def)
  obtain m where m: "cryexts_init_inode_alloc_hint (i, s) = bindE m cryexts_set_inode_alloc_hint (i0, s)"
    and same: "\<And>q j t. m (i0, s) = (q, (j, t)) \<Longrightarrow> j = i0 \<and> (\<exists>y. q = Inr y)"
  proof (rule that)
    let ?m = "if ii_use_extents (info i0) then retE (last_extent_block (extent_list (info i0)))
      else last_direct (map of_nat [0..<unat (let count = cryexts_dir_block_count i0 in
        (if count = 0 \<and> S_ISREG (i_mode i0)
         then ucast ((i_size i0 + (of_nat BLOCK_SIZE - 1)) div of_nat BLOCK_SIZE) else count) :: u32)]) 0"
    show "cryexts_init_inode_alloc_hint (i, s) = bindE ?m cryexts_set_inode_alloc_hint (i0, s)"
      by (simp add: cryexts_init_inode_alloc_hint_def Let_def i0_def)
    show "j = i0 \<and> (\<exists>y. q = Inr y)" if "?m (i0, s) = (q, (j, t))" for q j t
      using that last_direct_same by (auto simp: retE_def split: if_splits)
  qed
  obtain r p where c: "m (i0, s) = (r, p)" by (rule prod.exhaust)
  obtain i1 s1 where p: "p = (i1, s1)" by (rule prod.exhaust)
  obtain y where y: "i1 = i0" "r = Inr y" using same [OF c [unfolded p]] by blast
  show ?thesis using h step unfolding m by (auto simp: bindE_def c p y cryexts_set_inode_alloc_hint_def)
qed

definition blocks_of_size :: "u64 \<Rightarrow> nat" where
  "blocks_of_size n = (unat n + (BLOCK_SIZE - 1)) div BLOCK_SIZE"

text \<open>A directory has its first blocks and no others.\<close>

definition dir_typed :: "inode \<Rightarrow> cryexts_inode_info \<Rightarrow> bool" where
  "dir_typed i b \<longleftrightarrow> (let n = unat (cryexts_dir_block_count i) in
     0 < n \<and> n \<le> CRYEXTS_DIRECT_BLOCKS \<and> length (ii_direct b) = CRYEXTS_DIRECT_BLOCKS \<and>
     (\<forall>k < CRYEXTS_DIRECT_BLOCKS. ii_direct b ! k \<noteq> 0 \<longleftrightarrow> k < n))"

definition inode_typed :: "fs \<Rightarrow> inode \<Rightarrow> bool" where
  "inode_typed st i \<longleftrightarrow> (case i_private i of None \<Rightarrow> False | Some b \<Rightarrow>
     cryexts_mode_supported (i_mode i) \<and>
     (ii_xattr_block b \<noteq> 0 \<longrightarrow> block_in_use st (ii_xattr_block b)) \<and>
     (if ii_use_extents b
      then S_ISREG (i_mode i) \<and> extents_sorted (extent_list b) \<and>
        (\<forall>e \<in> set (extent_list b). extent_typed st e \<and> extent_end e \<le> blocks_of_size (i_size i)) \<and>
        (\<forall>x \<in> meta_blocks b. block_in_use st x)
      else pointers_in_use st (ii_indirect_block b # ii_direct b)) \<and>
     (S_ISDIR (i_mode i) \<longrightarrow> \<not> ii_use_extents b \<and> dir_typed i b))"

lemma typed_but_hints:
  assumes "inode_typed st (i\<lparr>i_private := Some b\<rparr>)" "but_hints b b'"
  shows "inode_typed st (i\<lparr>i_private := Some b'\<rparr>)"
proof -
  have "extent_list b' = extent_list b" "meta_blocks b' = meta_blocks b"
    using assms(2) same_map_list [of b b']
    by (auto simp: but_hints_def same_map_def meta_blocks_def meta_list_def cryexts_extent_tree_v2_inode_def)
  moreover have "dir_typed (i\<lparr>i_private := Some b'\<rparr>) b' = dir_typed (i\<lparr>i_private := Some b\<rparr>) b"
    using assms(2) by (simp add: dir_typed_def cryexts_dir_block_count_def but_hints_def)
  ultimately show ?thesis
    using assms by (cases "ii_use_extents b") (simp_all add: inode_typed_def but_hints_def same_map_def)
qed

lemma size_blocks: "unat ((n + (of_nat BLOCK_SIZE - 1)) div of_nat BLOCK_SIZE) \<le> blocks_of_size n" for n :: u64
proof -
  have "unat (n + 4095) = (unat n + 4095) mod 2 ^ 64" by (simp add: unat_word_ariths)
  then have "unat (n + 4095) \<le> unat n + 4095" by (metis mod_less_eq_dividend)
  then show ?thesis by (simp add: blocks_of_size_def BLOCK_SIZE_def unat_div div_le_mono)
qed

definition vfs_of :: "cryexts_inode \<Rightarrow> inode \<Rightarrow> inode" where
  "vfs_of d i = i\<lparr>i_mode := di_mode d, i_uid := di_uid d, i_gid := di_gid d,
     i_nlink := ucast (di_links_count d), i_size := di_size d, i_blocks := di_blocks d,
     i_atime := di_atime d, i_ctime := di_ctime d, i_mtime := di_mtime d\<rparr>"

definition load_info :: "cryexts_inode \<Rightarrow> unit iact" where
  "load_info d = (if cryexts_disk_inode_uses_extents d then load_extent_root d
     else oni (upd_info (\<lambda>b. b\<lparr>ii_direct := di_block d, ii_indirect_block := di_indirect_block d\<rparr>)))"

lemma init_vfs_inode_result:
  assumes t: "ticked st s"
    and load: "\<And>u. ticked st u \<Longrightarrow>
      load_result st ((vfs_of d i)\<lparr>i_private := Some bl\<rparr>)
        (load_info d ((vfs_of d i)\<lparr>i_private := Some (base_info d)\<rparr>, u))"
    and r: "cryexts_init_vfs_inode d (i, s) = (r, (i', s'))"
  shows "r = Inl EIO \<or> r = Inl ENOMEM \<or>
    r = Inr () \<and> (\<exists>b'. i' = (vfs_of d i)\<lparr>i_private := Some b'\<rparr> \<and> but_hints bl b')"
proof -
  obtain u s1 where k: "io_step ENOMEM s = (u, s1)" by (rule prod.exhaust)
  have t1: "ticked st s1" and u: "u = Inr () \<or> u = Inl ENOMEM"
    using ticked_io [OF k] ticked_trans [OF t] by blast+
  let ?i0 = "(vfs_of d i)\<lparr>i_private := Some (base_info d)\<rparr>"
  obtain v x where l: "load_info d (?i0, s1) = (v, x)" by (rule prod.exhaust)
  obtain i1 s2 where x: "x = (i1, s2)" by (rule prod.exhaust)
  have lr: "v = Inr () \<and> i1 = (vfs_of d i)\<lparr>i_private := Some bl\<rparr> \<or> v = Inl EIO \<or> v = Inl ENOMEM"
    using load [OF t1] unfolding l x by (auto simp: load_result_def)
  define s3 where "s3 = set_next_orphan_cached (i_ino i1) (x_next_orphan (cryexts_disk_inode_extra d)) s2"
  obtain w y where h: "cryexts_init_inode_alloc_hint (i1, s3) = (w, y)" by (rule prod.exhaust)
  obtain i2 s4 where y: "y = (i2, s4)" by (rule prod.exhaust)
  have eq: "cryexts_init_vfs_inode d (i, s) = (case u of Inl e \<Rightarrow> (Inl e, (vfs_of d i, s1))
    | Inr _ \<Rightarrow> (case v of Inr _ \<Rightarrow> (w, y)
      | Inl e \<Rightarrow> (Inl e, (if cryexts_disk_inode_uses_extents d then i1\<lparr>i_private := None\<rparr> else i1, s2))))"
    using l h unfolding load_info_def
    by (auto simp: cryexts_init_vfs_inode_def cryexts_init_inode_blocks_def bindE_def oni_def onfs_def
        kmalloc_def k on_errE_def vfs_of_def x y s3_def split: sum.splits if_splits)
  show ?thesis
  proof (cases "u = Inr () \<and> v = Inr ()")
    case True
    then have i1: "i1 = (vfs_of d i)\<lparr>i_private := Some bl\<rparr>" using lr by auto
    have "w = Inr () \<and> (\<exists>b'. i2 = i1\<lparr>i_private := Some b'\<rparr> \<and> but_hints bl b')"
      using h unfolding y by (intro alloc_hint_same) (auto simp: i1)
    then show ?thesis using r True by (auto simp: eq y i1)
  next
    case False
    then show ?thesis using r u lr by (auto simp: eq)
  qed
qed

lemma nonzero_prefix:
  fixes xs :: "u64 list"
  assumes "length (filter (\<lambda>b. b \<noteq> 0) xs) = n" "\<forall>b \<in> set (drop n xs). b = 0" "n \<le> length xs"
    "k < length xs"
  shows "xs ! k \<noteq> 0 \<longleftrightarrow> k < n"
proof (cases "k < n")
  case True
  have "filter (\<lambda>b. b \<noteq> 0) xs = filter (\<lambda>b. b \<noteq> 0) (take n xs) @ filter (\<lambda>b. b \<noteq> 0) (drop n xs)"
    by (metis append_take_drop_id filter_append)
  then have "length (filter (\<lambda>b. b \<noteq> 0) (take n xs)) = length (take n xs)"
    using assms by (simp add: filter_empty_conv)
  then have "b \<noteq> 0" if "b \<in> set (take n xs)" for b
    using length_filter_less [of b "take n xs" "\<lambda>b. b \<noteq> 0"] that by auto
  moreover have "take n xs ! k \<in> set (take n xs)" using True assms(4) by (intro nth_mem) simp
  ultimately have "take n xs ! k \<noteq> 0" by blast
  then show ?thesis using True by simp
next
  case False
  then have "xs ! k = drop n xs ! (k - n)" "k - n < length (drop n xs)" using assms(3,4) by auto
  then show ?thesis using False assms(2) by (metis nth_mem)
qed

section \<open>An accepted inode loads\<close>

lemma disk_extents_list:
  assumes "\<not> (cryexts_disk_extent_tree_v2_inode (di_inode_flags d) \<and> \<not> root_is_v2 st d)"
    and c: "check_root d st = (Inr r, st')"
  shows "extent_list (extents_in st d (base_info d)) = disk_extents st d"
proof -
  have v2: "cryexts_extent_tree_v2_inode (extents_in st d (base_info d)) \<longleftrightarrow> root_is_v2 st d"
    using assms(1)
    by (auto simp: cryexts_extent_tree_v2_inode_def extents_in_def base_info_def Let_def root_is_v2_def
        cryexts_disk_extent_tree_v2_inode_def)
  have max: "unat (eh_max (extent_root d)) = CRYEXTS_MAX_INLINE_EXTENTS \<or>
      unat (eh_max (extent_root d)) = CRYEXTS_EXTENT_ROOT_INLINE_EXTENTS \<or> root_is_v2 st d"
    using c by (auto simp: check_root_def Let_def split: if_splits)
  have ne: "CRYEXTS_MAX_INLINE_EXTENTS \<noteq> CRYEXTS_EXTENT_ROOT_INLINE_EXTENTS" by (simp add: const_simps)
  show ?thesis
    unfolding extent_entry_nth(3) v2
    using max ne by (auto simp: extents_in_def disk_extents_def leaf_list_def leaf_extents_def loaded_leaf_def
        base_info_def zero_info_def Let_def comp_def)
qed

lemma extent_inode_typed:
  assumes c: "check_extent_inode d st = (Inr (), st')"
    and x: "ii_xattr_block (base_info d) \<noteq> 0 \<longrightarrow> block_in_use st (ii_xattr_block (base_info d))"
    and m: "cryexts_mode_supported (di_mode d)" and u: "cryexts_disk_inode_uses_extents d"
  shows "inode_typed st ((vfs_of d i)\<lparr>i_private := Some (extents_in st d (base_info d))\<rparr>)"
proof -
  let ?b = "extents_in st d (base_info d)"
  obtain p ob s where cr: "check_root d st = (Inr (p, ob), s)" and reg: "S_ISREG (di_mode d)"
    and common: "extent_common_checks d (p, ob)"
    using c by (auto simp: check_extent_inode_def bindE_eq_Inr checkE_def split: if_splits)
  obtain used nxt where p: "p = (used, nxt)" by (rule prod.exhaust)
  have "nxt \<le> (di_size d + (of_nat BLOCK_SIZE - 1)) div of_nat BLOCK_SIZE"
    using common by (simp add: extent_common_checks_def p Let_def)
  then have nxt: "unat nxt \<le> blocks_of_size (di_size d)"
    using size_blocks [of "di_size d"] by (simp add: word_le_nat_alt)
  have fresh: "fresh_info (base_info d)" by (simp add: fresh_info_def base_info_def zero_info_def)
  note g = load_root_good [OF cr ticked_simps(1), of "(vfs_of d i)\<lparr>i_private := Some (base_info d)\<rparr>", OF _ fresh]
  have list: "check_extents st (disk_extents st d) (0, 0) = Inr (used, nxt)" using g p by simp
  note typed = check_extents_typed [OF list]
  have flags: "ii_use_extents ?b" "ii_xattr_block ?b = ii_xattr_block (base_info d)"
    using u by (simp_all add: extents_in_def base_info_def Let_def)
  have dir: "\<not> S_ISDIR (di_mode d)" using reg by (auto simp: S_ISDIR_def S_ISREG_def)
  have "extents_sorted (extent_list ?b) \<and>
      (\<forall>e \<in> set (extent_list ?b). extent_typed st e \<and> extent_end e \<le> blocks_of_size (di_size d)) \<and>
      (\<forall>x \<in> meta_blocks ?b. block_in_use st x)"
  proof (cases "cryexts_disk_extent_tree_v2_inode (di_inode_flags d) \<and> \<not> root_is_v2 st d")
    case True
    then have "cryexts_extent_tree_v2_inode ?b" "ii_extent_leaves ?b = []"
      by (simp_all add: cryexts_extent_tree_v2_inode_def extents_in_def base_info_def Let_def
          cryexts_disk_extent_tree_v2_inode_def zero_info_def)
    then show ?thesis
      by (simp add: extent_entry_nth(3) meta_blocks_def meta_list_def extents_sorted_def)
  next
    case False
    have "\<forall>x \<in> meta_blocks ?b. block_in_use st x"
    proof (cases "root_is_v2 st d")
      case True
      then show ?thesis
        using g by (auto simp: meta_blocks_def meta_list_def extents_in_def loaded_leaf_def
            cryexts_extent_tree_v2_inode_def root_is_v2_def cryexts_disk_extent_tree_v2_inode_def
            base_info_def)
    next
      case nv: False
      then have "ii_extent_overflow_block ?b = 0 \<or> ii_extent_overflow_block ?b = ob"
        using cr by (auto simp: extents_in_def base_info_def zero_info_def Let_def check_root_def
            bindE_eq_Inr retE_def split: if_splits)
      moreover have "\<not> cryexts_extent_tree_v2_inode ?b"
        using False nv by (simp add: extents_in_def base_info_def Let_def
            cryexts_extent_tree_v2_inode_def cryexts_disk_extent_tree_v2_inode_def)
      ultimately show ?thesis using g by (auto simp: meta_blocks_def meta_list_def)
    qed
    then show ?thesis
      using typed nxt unfolding disk_extents_list [OF False cr] by fastforce
  qed
  then show ?thesis using flags x m reg dir by (simp add: inode_typed_def vfs_of_def)
qed

lemma check_pointers_in_use:
  assumes c: "check_pointers d st = (Inr n, s)"
  shows "ticked st s" "pointers_in_use st (di_block d)"
    "di_indirect_block d \<noteq> 0 \<Longrightarrow> is_dir_index d \<or> block_in_use st (di_indirect_block d)"
proof -
  obtain u s1 where i: "io_step EIO st = (u, s1)" by (rule prod.exhaust)
  then have t1: "ticked st s1" using ticked_io by blast
  have "ticked st s \<and> pointers_in_use st (di_block d) \<and>
    (di_indirect_block d \<noteq> 0 \<longrightarrow> is_dir_index d \<or> block_in_use st (di_indirect_block d))"
    using c t1 by (auto simp: check_pointers_def Let_def sb_bread_def bindE_def retE_def i
        split: if_splits sum.splits)
  then show "ticked st s" "pointers_in_use st (di_block d)"
    "di_indirect_block d \<noteq> 0 \<Longrightarrow> is_dir_index d \<or> block_in_use st (di_indirect_block d)" by blast+
qed

lemma check_dir_typed:
  assumes c: "check_dir_inode d st = (Inr (), s)" and len: "length (di_block d) = CRYEXTS_DIRECT_BLOCKS"
    and i: "i_size i = di_size d" "ii_direct b = di_block d"
  shows "dir_typed i b" "is_dir_index d \<Longrightarrow> block_in_use st (di_indirect_block d)"
    "\<not> is_dir_index d \<Longrightarrow> di_indirect_block d = 0"
proof -
  define n :: u32 where "n = ucast (di_size d div of_nat BLOCK_SIZE)"
  have f: "di_size d \<noteq> 0" "di_size d mod of_nat BLOCK_SIZE = 0" "n \<noteq> 0" "unat n \<le> CRYEXTS_DIRECT_BLOCKS"
    "nonzero_count (di_block d) = n" "\<forall>b \<in> set (drop (unat n) (di_block d)). b = 0"
    "is_dir_index d \<Longrightarrow> block_in_use st (di_indirect_block d)"
    "\<not> is_dir_index d \<Longrightarrow> di_indirect_block d = 0"
    using c by (auto simp: check_dir_inode_def Let_def n_def [symmetric] split: if_splits)
  have small: "length (filter (\<lambda>b. b \<noteq> 0) (di_block d)) \<le> 12"
    using length_filter_le [of "\<lambda>b. b \<noteq> 0" "di_block d"] len by (simp add: CRYEXTS_DIRECT_BLOCKS_def)
  have count: "length (filter (\<lambda>b. b \<noteq> 0) (di_block d)) = unat n"
    using f(5) small by (auto simp: nonzero_count_def unat_of_nat)
  have "unat (di_size d) mod 4096 = 0"
    using f(2) by (simp add: word_unat_eq_iff unat_mod BLOCK_SIZE_def)
  then obtain m where m: "unat (di_size d) = 4096 * m" by auto
  have "4096 * m < 2 ^ 64" using unsigned_less [of "di_size d", where 'a = nat] m by simp
  then have "m < 2 ^ 52" by simp
  then have "unat (di_size d + 4095) = 4096 * m + 4095" by (simp add: unat_word_ariths m)
  then have "(di_size d + (of_nat BLOCK_SIZE - 1)) div of_nat BLOCK_SIZE = di_size d div of_nat BLOCK_SIZE"
    by (simp add: word_unat_eq_iff unat_div BLOCK_SIZE_def m)
  then have "cryexts_dir_block_count i = n"
    using f(1) by (simp add: cryexts_dir_block_count_def i n_def)
  moreover have "0 < unat n" using f(3) by (simp add: unat_gt_0)
  ultimately show "dir_typed i b"
    using nonzero_prefix [OF count f(6)] f(4) len by (simp add: dir_typed_def i)
  show "is_dir_index d \<Longrightarrow> block_in_use st (di_indirect_block d)" by (rule f(7))
  show "\<not> is_dir_index d \<Longrightarrow> di_indirect_block d = 0" by (rule f(8))
qed

lemma block_inode_typed:
  assumes c: "check_block_inode d st = (Inr (), st')" and len: "length (di_block d) = CRYEXTS_DIRECT_BLOCKS"
    and x: "ii_xattr_block (base_info d) \<noteq> 0 \<longrightarrow> block_in_use st (ii_xattr_block (base_info d))"
    and m: "cryexts_mode_supported (di_mode d)" and u: "\<not> cryexts_disk_inode_uses_extents d"
  shows "inode_typed st ((vfs_of d i)\<lparr>i_private := Some ((base_info d)\<lparr>ii_direct := di_block d,
    ii_indirect_block := di_indirect_block d\<rparr>)\<rparr>)"
proof -
  let ?b = "(base_info d)\<lparr>ii_direct := di_block d, ii_indirect_block := di_indirect_block d\<rparr>"
  let ?i = "(vfs_of d i)\<lparr>i_private := Some ?b\<rparr>"
  obtain n s s2 where p: "check_pointers d st = (Inr n, s)"
    and d: "whenE (\<lambda>_. S_ISDIR (di_mode d)) (check_dir_inode d) s = (Inr (), s2)"
    using c by (auto simp: check_block_inode_def bindE_eq_Inr)
  note ptr = check_pointers_in_use [OF p]
  have flags: "\<not> ii_use_extents ?b" "ii_xattr_block ?b = ii_xattr_block (base_info d)"
    using u by (simp_all add: base_info_def)
  have dir: "dir_typed ?i ?b \<and> (is_dir_index d \<longrightarrow> block_in_use st (di_indirect_block d))"
    if dd: "S_ISDIR (di_mode d)"
  proof -
    have cd: "check_dir_inode d s = (Inr (), s2)" using d dd by (simp add: whenE_def)
    have "dir_typed ?i ?b" by (rule check_dir_typed(1) [OF cd len]) (simp_all add: vfs_of_def)
    then show ?thesis using check_dir_typed(2) [OF cd len, of ?i ?b] ticked_in_use [OF ptr(1)]
      by (simp add: vfs_of_def)
  qed
  have "is_dir_index d \<Longrightarrow> S_ISDIR (di_mode d)" by (simp add: is_dir_index_def)
  then have "pointers_in_use st (di_indirect_block d # di_block d)"
    using ptr dir by (auto simp: pointers_in_use_def)
  then show ?thesis using flags x m dir by (auto simp: inode_typed_def vfs_of_def)
qed

lemma ticked_block_checks:
  assumes u: "\<not> cryexts_disk_inode_uses_extents d"
  shows "ticked st (snd (cryexts_disk_inode_block_count d st))" "ticked st (snd (check_sectors d st))"
    "ticked st (snd (check_block_inode d st))"
proof -
  show count: "ticked st (snd (cryexts_disk_inode_block_count d st))" for st
    using u by (auto simp: cryexts_disk_inode_block_count_def Let_def sb_bread_def bindE_def io_step_def
        retE_def)
  show sectors: "ticked st (snd (check_sectors d st))" for st
    using count [of st]
    by (auto simp: check_sectors_def bindE_def checkE_def split: prod.splits sum.splits)
  have pointers: "ticked st (snd (check_pointers d st))" for st
    by (auto simp: check_pointers_def Let_def sb_bread_def bindE_def io_step_def retE_def)
  have dir: "snd (check_dir_inode d st) = st" for st by (simp add: check_dir_inode_def Let_def)
  have reg: "ticked st (snd (check_reg_inode d n st))" "ticked st (snd (check_symlink_inode d st))" for st n
    using sectors by (simp_all add: check_reg_inode_def check_symlink_inode_def)
  have keep: "keeps (ticked st) m" if "\<And>s. ticked s (snd (m s))" for m :: "(fs, 'a) act"
    using that ticked_trans by (auto simp: keeps_def)
  have "keeps (ticked st) (check_block_inode d)"
    unfolding check_block_inode_def
    by (intro keeps_bindE keeps_whenE keep pointers reg) (simp_all add: dir checkE_def)
  then show "ticked st (snd (check_block_inode d st))" by (simp add: keeps_def)
qed

text \<open>C3: An inode that the validation accepts is well typed in memory.  Whatever inode was
  read from the disk: if \<open>cryexts_validate_inode\<close> accepts it, then loading it can only fail for
  want of memory or because the device fails, and otherwise the inode in memory has a mode
  that the file system supports, its extents are in order, do not overlap in the file, do not run
  over the end of the numbers or of the size of the file, and are never empty; every block of every
  extent, every block of extents, every direct pointer, the indirect and the attribute block are
  data blocks that the bitmap marks as used; and a directory has exactly its first blocks.\<close>

theorem accepted_inode_typed:
  assumes "cryexts_validate_inode c d ino st = (Inr (), st1)"
    and "cryexts_init_vfs_inode d (i, st1) = (r, (i', st2))"
    and "length (di_block d) = CRYEXTS_DIRECT_BLOCKS"
  shows "r = Inr () \<and> inode_typed st i' \<or> r = Inl EIO \<or> r = Inl ENOMEM"
proof -
  have h: "inode_header_ok c d ino st" "cryexts_mode_supported (di_mode d)"
    and v: "(if cryexts_disk_inode_uses_extents d then check_extent_inode d st
       else check_block_inode d st) = (Inr (), st1)"
    using assms(1) by (auto simp: cryexts_validate_inode_def Let_def split: if_splits)
  have x: "ii_xattr_block (base_info d) \<noteq> 0 \<longrightarrow> block_in_use st (ii_xattr_block (base_info d))"
    using h(1) by (auto simp: inode_header_ok_def Let_def base_info_def)
  have result: "r = Inl EIO \<or> r = Inl ENOMEM \<or> r = Inr () \<and> inode_typed st i'"
    if t: "ticked st st1" and ty: "inode_typed st ((vfs_of d i)\<lparr>i_private := Some bl\<rparr>)"
      and load: "\<And>u. ticked st u \<Longrightarrow>
        load_result st ((vfs_of d i)\<lparr>i_private := Some bl\<rparr>)
          (load_info d ((vfs_of d i)\<lparr>i_private := Some (base_info d)\<rparr>, u))" for bl
    using init_vfs_inode_result [OF t load assms(2)] typed_but_hints [OF ty] by blast
  show ?thesis
  proof (cases "cryexts_disk_inode_uses_extents d")
    case True
    then have ce: "check_extent_inode d st = (Inr (), st1)" using v by simp
    then obtain p ob where cr: "check_root d st = (Inr (p, ob), st1)"
      by (auto simp: check_extent_inode_def bindE_eq_Inr checkE_def split: if_splits)
    have fresh: "fresh_info (base_info d)" by (simp add: fresh_info_def base_info_def zero_info_def)
    note g = load_root_good [OF cr _ _ fresh, where i = "(vfs_of d i)\<lparr>i_private := Some (base_info d)\<rparr>"]
    have "ticked st st1" using g ticked_simps(1) by fastforce
    then show ?thesis
      using result [OF _ extent_inode_typed [OF ce x h(2) True]] g True
      by (fastforce simp: load_info_def upd_info_def)
  next
    case False
    then have cb: "check_block_inode d st = (Inr (), st1)" using v by simp
    then have "ticked st st1" using ticked_block_checks(3) [OF False, of st] by simp
    then show ?thesis
      using result [OF _ block_inode_typed [OF cb assms(3) x h(2) False]] False
      by (fastforce simp: load_info_def upd_info_def load_result_def oni_def)
  qed
qed

text \<open>A file of four blocks, in one extent of the root.\<close>

definition typed_fs :: fs where
  "typed_fs = file_fs\<lparr>d_cache := (\<lambda>_. zero_block)(1 := used_bitmap, 2 := used_bitmap)\<rparr>"

definition typed_disk_inode :: cryexts_inode where
  "typed_disk_inode = \<lparr>di_mode = 0x81A4, di_links_count = 1, di_uid = 0, di_gid = 0,
     di_size = 16384, di_blocks = 32, di_atime = 0, di_ctime = 0, di_mtime = 0,
     di_block = replicate 12 0, di_indirect_block = 0, di_inode_flags = 1,
     di_reserved = enc_root 1 4 0 (enc_extents [new_extent 0 30 4])\<rparr>"

lemma typed_root:
  "extent_root typed_disk_inode =
     \<lparr>eh_magic = CRYEXTS_EXTENT_MAGIC, eh_entries = 1, eh_max = 4, eh_reserved = 0\<rparr>"
  "root_extents typed_disk_inode = [new_extent 0 30 4]"
  "cryexts_disk_inode_extra typed_disk_inode =
     \<lparr>x_xattr_block = 0, x_encryption_policy_id = 0, x_next_orphan = 0\<rparr>"
  by code_simp+

lemma typed_bdata: "bdata typed_fs 1 = used_bitmap" "bdata typed_fs 2 = used_bitmap"
  by (simp_all add: typed_fs_def file_fs_def bdata_def)

lemma typed_sel:
  "s_disk_sb typed_fs = sample_sb" "s_block_bitmap_bh typed_fs = Some 1" "s_inode_bitmap_bh typed_fs = Some 2"
  "d_fault typed_fs t = False"
  by (simp_all add: typed_fs_def file_fs_def sample_fs_def)

lemma typed_in_use: "20 \<le> x \<Longrightarrow> x < 96 \<Longrightarrow> block_in_use typed_fs x"
proof -
  assume x: "20 \<le> x" "x < 96"
  then have n: "unat x < 96" "20 \<le> unat x" by (simp_all add: word_less_nat_alt word_le_nat_alt)
  then have "cryexts_bitmap_test used_bitmap x" using used_bitmap_test [of x] by simp
  moreover have "x < 1024" "x \<noteq> 0" using n by (auto simp: word_less_nat_alt)
  ultimately show ?thesis
    using x by (simp add: block_in_use_def cryexts_data_block_valid_def cryexts_block_bitmap_used_def
        cryexts_blocks_count_def cryexts_has_block_groups_def typed_sel sample_sb_def has_flag_def
        const_simps typed_bdata not_le not_less)
qed

lemma typed_disk_sel:
  "di_mode typed_disk_inode = 0x81A4" "di_size typed_disk_inode = 16384"
  "di_blocks typed_disk_inode = 32" "di_block typed_disk_inode = replicate 12 0"
  "di_indirect_block typed_disk_inode = 0" "di_inode_flags typed_disk_inode = 1"
  by (simp_all add: typed_disk_inode_def)

lemma typed_header: "inode_header_ok sample_crypt typed_disk_inode 12 typed_fs"
  by (simp add: inode_header_ok_def typed_root cryexts_policy_exists_def cryexts_policy_table_enabled_def
      typed_sel sample_sb_def cryexts_inodes_count_def has_flag_def const_simps known_inode_flags_def
      typed_disk_sel)

lemma typed_inode_used: "cryexts_inode_bitmap_used typed_fs 12"
  using used_bitmap_test [of 11]
  by (simp add: cryexts_inode_bitmap_used_def typed_sel sample_sb_def cryexts_inodes_count_def
      cryexts_has_block_groups_def has_flag_def const_simps typed_bdata)

lemma typed_check_root: "check_root typed_disk_inode typed_fs = (Inr ((4, 4), 0), typed_fs)"
proof -
  have "extent_in_use typed_fs (new_extent 0 30 4)"
    by (simp add: extent_in_use_def new_extent_def upt_rec typed_in_use)
  then show ?thesis
    by (simp add: check_root_def typed_root root_is_v2_def typed_disk_sel has_flag_def const_simps
        cryexts_disk_extent_tree_v2_inode_def bindE_def retE_def new_extent_def)
qed

lemma typed_validate: "cryexts_validate_inode sample_crypt typed_disk_inode 12 typed_fs = (Inr (), typed_fs)"
proof -
  have "extent_common_checks typed_disk_inode ((4, 4), 0)"
    by (simp add: extent_common_checks_def typed_root typed_disk_sel has_flag_def const_simps
        cryexts_disk_extent_tree_v2_inode_def cryexts_extent_file_blocks_max_from_inode_flags_def
        cryexts_extent_file_blocks_max_from_inline_max_def BLOCK_SIZE_def)
  then show ?thesis
    by (simp add: cryexts_validate_inode_def typed_header typed_inode_used typed_disk_sel
        cryexts_mode_supported_def S_ISREG_def S_ISDIR_def S_ISLNK_def check_extent_inode_def
        cryexts_disk_inode_uses_extents_def has_flag_def const_simps bindE_def typed_check_root checkE_def)
qed

lemma typed_init: "fst (cryexts_init_vfs_inode typed_disk_inode (blank_inode 12, typed_fs)) = Inr ()"
  by code_simp

theorem accepted_inode_typed_witness:
  "\<exists>i' st2. cryexts_validate_inode sample_crypt typed_disk_inode 12 typed_fs = (Inr (), typed_fs) \<and>
     cryexts_init_vfs_inode typed_disk_inode (blank_inode 12, typed_fs) = (Inr (), (i', st2)) \<and>
     inode_typed typed_fs i'"
proof -
  obtain r p where r: "cryexts_init_vfs_inode typed_disk_inode (blank_inode 12, typed_fs) = (r, p)"
    by (rule prod.exhaust)
  obtain i' st2 where p: "p = (i', st2)" by (rule prod.exhaust)
  have "length (di_block typed_disk_inode) = CRYEXTS_DIRECT_BLOCKS"
    by (simp add: typed_disk_sel CRYEXTS_DIRECT_BLOCKS_def)
  then show ?thesis
    using accepted_inode_typed [OF typed_validate r [unfolded p]] typed_init typed_validate
    unfolding r p by simp
qed

end
