(* ===== verification/File.thy ===== *)
theory File
  imports InodeLife
begin

text \<open>
  The data of files and symbolic links (\<open>file.c\<close>, and \<open>cryexts_write_from_kernel\<close> of \<open>dir.c\<close>).

  The page cache belongs to the kernel.  A page is the number of the page and its contents; what
  the file system does with one page is a definition here, the walk over the dirty pages of an
  inode (\<open>write_cache_pages\<close>) and the functions that write back and wait
  (\<open>filemap_write_and_wait\<close>, \<open>file_write_and_wait_range\<close>) are arguments, as are \<open>setattr_prepare\<close> and
  \<open>setattr_copy\<close>.  A page has the size of a block; the code refuses any other size.  The state
  of a page (locked, up to date, under writeback) and the invalidation of cached pages are left
  out.  Positions and sizes are numbers: the code keeps a position below the size of a file, which
  is far below \<open>2 ^ 63\<close>.
\<close>

section \<open>Ranges of bytes\<close>

definition PAGE_SIZE :: nat where [const_simps]: "PAGE_SIZE = 4096"

definition cryexts_zero_file_range ::
    "cipher \<Rightarrow> crypt_info \<Rightarrow> u64 \<Rightarrow> nat \<Rightarrow> nat \<Rightarrow> unit iact" where
  "cryexts_zero_file_range cipher c block offset len = (\<lambda>(i, st).
     if len = 0 then (Inr (), (i, st))
     else onfs (bindE kmalloc (\<lambda>_. bindE (cryexts_read_inode_block cipher c i block) (\<lambda>buf.
            cryexts_write_inode_block cipher c i block
              (put_bytes offset (replicate len 0) buf)))) (i, st))"

text \<open>
  Read \<open>len\<close> bytes from \<open>pos\<close> on, of which \<open>done\<close> are read.  In a page a block that is missing is
  a hole and reads as zeros, in the target of a link it is an error.
\<close>

definition chunk_of :: "nat \<Rightarrow> nat \<Rightarrow> nat \<Rightarrow> nat" where
  "chunk_of pos len done_bytes =
     min (len - done_bytes) (BLOCK_SIZE - (pos + done_bytes) mod BLOCK_SIZE)"

lemma chunk_pos: "done_bytes < len \<Longrightarrow> 0 < chunk_of pos len done_bytes"
  by (simp add: chunk_of_def BLOCK_SIZE_def)

definition read_chunk ::
    "cipher \<Rightarrow> crypt_info \<Rightarrow> bool \<Rightarrow> nat \<Rightarrow> nat \<Rightarrow> nat \<Rightarrow> bytes iact" where
  "read_chunk cipher c holes block block_off chunk =
     bindE (cryexts_resolve_block (of_nat block) False) (\<lambda>physical (i, st).
       if physical = 0 then ((if holes then Inr (replicate chunk 0) else Inl EIO), (i, st))
       else onfs (bindE (cryexts_read_inode_block cipher c i physical)
              (\<lambda>buf. retE (get_bytes buf block_off chunk))) (i, st))"

function read_range ::
    "cipher \<Rightarrow> crypt_info \<Rightarrow> bool \<Rightarrow> nat \<Rightarrow> nat \<Rightarrow> nat \<Rightarrow> bytes \<Rightarrow> bytes iact" where
  "read_range cipher c holes pos len done_bytes acc =
     (if len \<le> done_bytes then retE acc
      else bindE (read_chunk cipher c holes ((pos + done_bytes) div BLOCK_SIZE)
                   ((pos + done_bytes) mod BLOCK_SIZE) (chunk_of pos len done_bytes))
             (\<lambda>b. read_range cipher c holes pos len (done_bytes + chunk_of pos len done_bytes)
                    (acc @ b)))"
  by pat_completeness auto

termination
proof (relation "measure (\<lambda>(cipher, c, holes, pos, len, done_bytes, acc). len - done_bytes)")
  show "((cipher, c, holes, pos, len, done_bytes + chunk_of pos len done_bytes, acc @ b),
         (cipher, c, holes, pos, len, done_bytes, acc)) \<in>
        measure (\<lambda>(cipher, c, holes, pos, len, done_bytes, acc). len - done_bytes)"
    if "\<not> len \<le> done_bytes"
    for cipher :: cipher and c :: crypt_info and holes :: bool and pos len done_bytes :: nat
      and acc b :: bytes
    using that chunk_pos [of done_bytes len pos] by simp
qed simp

declare read_range.simps [simp del]

definition cryexts_read_inode_data :: "cipher \<Rightarrow> crypt_info \<Rightarrow> nat \<Rightarrow> bytes iact" where
  "cryexts_read_inode_data cipher c len =
     bindE (onfs kmalloc) (\<lambda>_. read_range cipher c False 0 len 0 [])"

text \<open>Write a buffer from its start: whole blocks, and the last one into what the block holds.\<close>

definition write_chunk ::
    "cipher \<Rightarrow> crypt_info \<Rightarrow> nat \<Rightarrow> nat \<Rightarrow> bytes \<Rightarrow> unit iact" where
  "write_chunk cipher c block block_off chunk =
     bindE (cryexts_resolve_block (of_nat block) True) (\<lambda>physical (i, st).
       onfs (bindE (if block_off \<noteq> 0 \<or> length chunk < BLOCK_SIZE
                    then cryexts_read_inode_block cipher c i physical else retE zero_block)
              (\<lambda>buf. cryexts_write_inode_block cipher c i physical (put_bytes block_off chunk buf)))
         (i, st))"

function write_range :: "cipher \<Rightarrow> crypt_info \<Rightarrow> bytes \<Rightarrow> nat \<Rightarrow> unit iact" where
  "write_range cipher c buf done_bytes =
     (if length buf \<le> done_bytes then retE ()
      else bindE (write_chunk cipher c (done_bytes div BLOCK_SIZE) (done_bytes mod BLOCK_SIZE)
                   (get_bytes buf done_bytes (chunk_of 0 (length buf) done_bytes)))
             (\<lambda>_. write_range cipher c buf (done_bytes + chunk_of 0 (length buf) done_bytes)))"
  by pat_completeness auto

termination
proof (relation "measure (\<lambda>(cipher, c, buf, done_bytes). length buf - done_bytes)")
  show "((cipher, c, buf, done_bytes + chunk_of 0 (length buf) done_bytes),
         (cipher, c, buf, done_bytes)) \<in> measure (\<lambda>(cipher, c, buf, done_bytes). length buf - done_bytes)"
    if "\<not> length buf \<le> done_bytes"
    for cipher :: cipher and c :: crypt_info and done_bytes :: nat and buf :: bytes
    using that chunk_pos [of done_bytes "length buf" 0] by simp
qed simp

declare write_range.simps [simp del]

definition set_size_now :: "u64 \<Rightarrow> unit iact" where
  "set_size_now n = (\<lambda>(i, st).
     (Inr (), (i\<lparr>i_size := n, i_mtime := d_now st, i_ctime := d_now st\<rparr>, st)))"

definition cryexts_write_from_kernel :: "cipher \<Rightarrow> crypt_info \<Rightarrow> bytes \<Rightarrow> unit iact" where
  "cryexts_write_from_kernel cipher c buf =
     runE [onfs kmalloc, write_range cipher c buf 0, set_size_now (of_nat (length buf)),
       update_sectors, cryexts_write_inode_to_disk]"

section \<open>Pages\<close>

text \<open>The contents of a page that is read: the bytes of the file and zeros after its end.\<close>

definition page_fill :: "inode \<Rightarrow> nat \<Rightarrow> nat" where
  "page_fill i pos = (if pos < unat (i_size i) then min PAGE_SIZE (unat (i_size i) - pos) else 0)"

definition cryexts_fill_page :: "cipher \<Rightarrow> crypt_info \<Rightarrow> nat \<Rightarrow> bytes iact" where
  "cryexts_fill_page cipher c page = (\<lambda>(i, st).
     let pos = page * PAGE_SIZE; remaining = page_fill i pos in
     if i_private i = None then (Inl EIO, (i, st))
     else bindE (onfs kmalloc) (\<lambda>_.
          bindE (read_range cipher c True pos remaining 0 []) (\<lambda>b.
            retE (b @ replicate (PAGE_SIZE - remaining) 0))) (i, st))"

definition cryexts_readpage :: "cipher \<Rightarrow> crypt_info \<Rightarrow> nat \<Rightarrow> bytes iact" where
  "cryexts_readpage cipher c page = cryexts_fill_page cipher c page"

text \<open>
  Before the kernel copies \<open>len\<close> bytes to a page: \<open>cached_page\<close> has the contents of a page that
  is in the page cache and up to date.  A negative position is left out.
\<close>

definition cryexts_write_begin ::
    "cipher \<Rightarrow> crypt_info \<Rightarrow> nat \<Rightarrow> nat \<Rightarrow> bytes option \<Rightarrow> bytes iact" where
  "cryexts_write_begin cipher c pos len cached_page = (\<lambda>(i, st).
     let limit = unat (cryexts_regular_file_max_size_for_inode i) in
     if len = 0 \<or> i_private i = None then (Inl EIO, (i, st))
     else if PAGE_SIZE \<noteq> BLOCK_SIZE then (Inl EOPNOTSUPP, (i, st))
     else if limit \<le> pos \<or> limit - pos < len then (Inl EFBIG, (i, st))
     else bindE (onfs kmalloc) (\<lambda>_.
       case cached_page of Some data \<Rightarrow> retE data
       | None \<Rightarrow> cryexts_fill_page cipher c (pos div PAGE_SIZE)) (i, st))"

text \<open>After the copy; the page is dirty if anything was copied.\<close>

definition cryexts_write_end :: "nat \<Rightarrow> nat \<Rightarrow> nat iact" where
  "cryexts_write_end pos copied = (\<lambda>(i, st).
     let i = (if copied \<noteq> 0 \<and> unat (i_size i) < pos + copied
              then i\<lparr>i_size := of_nat (pos + copied)\<rparr> else i);
         i = (if copied \<noteq> 0 then i\<lparr>i_mtime := d_now st, i_ctime := d_now st\<rparr> else i)
     in (Inr copied, (i, st)))"

text \<open>The blocks of a page; with pages as large as blocks there is one.\<close>

definition write_page_block ::
    "cipher \<Rightarrow> crypt_info \<Rightarrow> bool \<Rightarrow> nat \<Rightarrow> bytes \<Rightarrow> nat \<Rightarrow> unit iact" where
  "write_page_block cipher c sync_data page_start data logical =
     bindE (cryexts_resolve_block (of_nat logical) True) (\<lambda>physical (i, st).
       onfs (bindE (cryexts_write_inode_block cipher c i physical
                      (get_bytes data (logical * BLOCK_SIZE - page_start) BLOCK_SIZE)) (\<lambda>_.
             whenE (\<lambda>_. sync_data) (cryexts_sync_inode_block physical))) (i, st))"

definition abort_txn :: "bool \<Rightarrow> inode \<times> fs \<Rightarrow> inode \<times> fs" where
  "abort_txn started = (\<lambda>(i, st). (i, if started then cryexts_journal_abort st else st))"

text \<open>The result says whether the page was written.\<close>

definition cryexts_writepage_locked ::
    "cipher \<Rightarrow> crypt_info \<Rightarrow> bool \<Rightarrow> bool \<Rightarrow> nat \<times> bytes \<Rightarrow> bool iact" where
  "cryexts_writepage_locked cipher c own_transaction sync_data = (\<lambda>(page, data) (i, st).
     let page_start = page * PAGE_SIZE; size = unat (i_size i);
         bytes = min PAGE_SIZE (size - page_start);
         first = page_start div BLOCK_SIZE; lst = (page_start + bytes - 1) div BLOCK_SIZE in
     if size \<le> page_start then (Inr False, (i, st))
     else if PAGE_SIZE \<noteq> BLOCK_SIZE then (Inl EOPNOTSUPP, (i, st))
     else bindE (whenE (\<lambda>_. own_transaction) (onfs cryexts_journal_begin)) (\<lambda>_.
          bindE (on_errE (runE [
              eachE (write_page_block cipher c sync_data page_start data) [first..<lst + 1],
              update_sectors, cryexts_write_inode_to_disk]) (\<lambda>_. abort_txn own_transaction)) (\<lambda>_.
          bindE (whenE (\<lambda>_. own_transaction) (onfs cryexts_journal_commit)) (\<lambda>_.
            retE True))) (i, st))"

definition cryexts_writepage :: "cipher \<Rightarrow> crypt_info \<Rightarrow> nat \<times> bytes \<Rightarrow> bool iact" where
  "cryexts_writepage cipher c = cryexts_writepage_locked cipher c True True"

definition cryexts_writepages_callback :: "cipher \<Rightarrow> crypt_info \<Rightarrow> nat \<times> bytes \<Rightarrow> bool iact" where
  "cryexts_writepages_callback cipher c = cryexts_writepage_locked cipher c False False"

text \<open>\<open>write_cache_pages\<close> says whether the function wrote one of the pages it was called with.\<close>

definition cryexts_writepages ::
    "((nat \<times> bytes \<Rightarrow> bool iact) \<Rightarrow> bool iact) \<Rightarrow> cipher \<Rightarrow> crypt_info \<Rightarrow> unit iact" where
  "cryexts_writepages write_cache_pages cipher c =
     bindE (onfs cryexts_journal_begin) (\<lambda>_.
     bindE (on_errE (write_cache_pages (cryexts_writepages_callback cipher c)) (\<lambda>_. abort_txn True))
       (\<lambda>wrote_page. if wrote_page then onfs cryexts_journal_commit
          else (\<lambda>s. (Inr (), abort_txn True s))))"

section \<open>Links, synchronization, attributes, holes\<close>

definition cryexts_get_link :: "cipher \<Rightarrow> crypt_info \<Rightarrow> bytes iact" where
  "cryexts_get_link cipher c = (\<lambda>(i, st).
     let len = i_size i in
     if len = 0 \<or> cryexts_symlink_size_limit < len then (Inl EUCLEAN, (i, st))
     else bindE (onfs kmalloc) (\<lambda>_. cryexts_read_inode_data cipher c (unat len)) (i, st))"

definition cryexts_fsync :: "unit iact \<Rightarrow> unit iact" where
  "cryexts_fsync file_write_and_wait =
     runE [file_write_and_wait, cryexts_write_inode_to_disk, onfs cryexts_sync_metadata]"

definition FALLOC_PUNCH :: u32 where [const_simps]: "FALLOC_PUNCH = 3"
definition LLONG_MAX :: int where [const_simps]: "LLONG_MAX = 2 ^ 63 - 1"

text \<open>Clear a part of the block at a logical position, if there is a block.\<close>

definition zero_part ::
    "cipher \<Rightarrow> crypt_info \<Rightarrow> nat \<Rightarrow> nat \<Rightarrow> nat \<Rightarrow> unit iact" where
  "zero_part cipher c logical offset len =
     bindE (cryexts_resolve_block (of_nat logical) False) (\<lambda>physical.
       if physical = 0 then retE () else cryexts_zero_file_range cipher c physical offset len)"

definition touch_inode :: "unit iact" where
  "touch_inode = (\<lambda>(i, st). (Inr (), (i\<lparr>i_mtime := d_now st, i_ctime := d_now st\<rparr>, st)))"

definition align_up :: "nat \<Rightarrow> nat" where
  "align_up n = (n + (BLOCK_SIZE - 1)) div BLOCK_SIZE * BLOCK_SIZE"

text \<open>The transaction of a hole from \<open>offset\<close> to \<open>end\<close>: the parts of its first and last block and the blocks between.\<close>

definition punch_range :: "cipher \<Rightarrow> crypt_info \<Rightarrow> nat \<Rightarrow> nat \<Rightarrow> unit iact" where
  "punch_range cipher c offset end_pos =
     (let head_end = min end_pos (align_up offset);
          tail_start = end_pos div BLOCK_SIZE * BLOCK_SIZE;
          first_full = (offset + (BLOCK_SIZE - 1)) div BLOCK_SIZE;
          end_full = end_pos div BLOCK_SIZE in
      runE [
        whenE (\<lambda>_. offset < head_end)
          (zero_part cipher c (offset div BLOCK_SIZE) (offset mod BLOCK_SIZE) (head_end - offset)),
        whenE (\<lambda>_. tail_start < end_pos \<and> head_end \<le> tail_start)
          (zero_part cipher c (tail_start div BLOCK_SIZE) 0 (end_pos - tail_start)),
        whenE (\<lambda>_. first_full < end_full)
          (cryexts_punch_hole_blocks (of_nat first_full) (of_nat end_full)),
        update_sectors, touch_inode, cryexts_write_inode_to_disk])"

definition cryexts_fallocate ::
    "(nat \<Rightarrow> nat \<Rightarrow> unit iact) \<Rightarrow> cipher \<Rightarrow> crypt_info \<Rightarrow> u32 \<Rightarrow> int \<Rightarrow> int \<Rightarrow> unit iact" where
  "cryexts_fallocate file_write_and_wait_range cipher c mode offset len = (\<lambda>(i, st).
     let size = unat (i_size i); off = nat offset; end_pos = min (nat (offset + len)) size in
     if \<not> S_ISREG (i_mode i) then (Inl EOPNOTSUPP, (i, st))
     else if mode \<noteq> FALLOC_PUNCH then (Inl EOPNOTSUPP, (i, st))
     else if offset < 0 \<or> len \<le> 0 then (Inl EINVAL, (i, st))
     else if LLONG_MAX - len < offset then (Inl EFBIG, (i, st))
     else if i_private i = None then (Inl EIO, (i, st))
     else if size \<le> off then (Inr (), (i, st))
     else runE [file_write_and_wait_range off (end_pos - 1), onfs cryexts_journal_begin,
            on_errE (punch_range cipher c off end_pos) (\<lambda>_. abort_txn True),
            onfs cryexts_journal_commit] (i, st))"

text \<open>Cut the file: free the blocks behind the new end and clear the rest of the last block.\<close>

definition shrink_file :: "cipher \<Rightarrow> crypt_info \<Rightarrow> u64 \<Rightarrow> (inode \<Rightarrow> inode) \<Rightarrow> unit iact" where
  "shrink_file cipher c new_size copy_attr =
     (let keep_blocks = (if new_size \<noteq> 0
            then (new_size + (of_nat BLOCK_SIZE - 1)) div of_nat BLOCK_SIZE else 0);
          tail_off = unat new_size mod BLOCK_SIZE in
      runE [
        cryexts_free_blocks_from keep_blocks,
        whenE (\<lambda>_. new_size \<noteq> 0 \<and> tail_off \<noteq> 0 \<and> keep_blocks \<noteq> 0)
          (zero_part cipher c (unat (keep_blocks - 1)) tail_off (BLOCK_SIZE - tail_off)),
        update_sectors, oni copy_attr, oni (\<lambda>i. i\<lparr>i_size := new_size\<rparr>),
        (\<lambda>(i, st). (Inr (), (i\<lparr>i_ctime := d_now st\<rparr>, st))),
        cryexts_write_inode_to_disk])"

text \<open>
  \<open>ia_size\<close> is the new size if \<open>ATTR_SIZE\<close> is set, \<open>prepared\<close> the result of \<open>setattr_prepare\<close> and
  \<open>copy_attr\<close> the function \<open>setattr_copy\<close>.
\<close>

definition cryexts_setattr ::
    "unit iact \<Rightarrow> unit res \<Rightarrow> (inode \<Rightarrow> inode) \<Rightarrow> cipher \<Rightarrow> crypt_info \<Rightarrow> u64 option \<Rightarrow> unit iact" where
  "cryexts_setattr filemap_write_and_wait prepared copy_attr cipher c ia_size = (\<lambda>(i, st).
     let finish = runE [oni copy_attr,
           oni (\<lambda>i. case ia_size of None \<Rightarrow> i | Some n \<Rightarrow> i\<lparr>i_size := n\<rparr>),
           (\<lambda>(i, st). (Inr (), (i\<lparr>i_ctime := d_now st\<rparr>, st))), cryexts_write_inode_to_disk] in
     case prepared of Inl e \<Rightarrow> (Inl e, (i, st))
     | Inr _ \<Rightarrow>
       (case ia_size of None \<Rightarrow> finish (i, st)
        | Some new_size \<Rightarrow>
            if cryexts_regular_file_max_size_for_inode i < new_size then (Inl EFBIG, (i, st))
            else if \<not> S_ISREG (i_mode i) then finish (i, st)
            else if i_private i = None then (Inl EIO, (i, st))
            else if new_size < i_size i
            then runE [filemap_write_and_wait, onfs cryexts_journal_begin,
                   on_errE (shrink_file cipher c new_size copy_attr) (\<lambda>_. abort_txn True),
                   onfs cryexts_journal_commit] (i, st)
            else runE [update_sectors, finish] (i, st)))"

end
