(* ===== verification/DirOps.thy ===== *)
theory DirOps
  imports File Dir
begin

text \<open>
  The inode operations of a directory (the second half of \<open>dir.c\<close>): lookup, create, mkdir, unlink,
  rmdir, rename, link and symlink.  A dentry is its name and the number of its inode; the kernel
  has locked the directories and looked the names up before it calls an operation.  What the
  kernel gives the operations is in the record \<open>kernel\<close>: the cipher, the keys of the mount, the
  caller's user and group, and the function that writes back the dirty pages of an inode
  (\<open>filemap_write_and_wait\<close>).

  The result of create, mkdir and symlink is the inode that the new dentry gets.  For mkdir it is
  \<open>None\<close> on the path on which the code returns zero and the dentry gets no inode.
\<close>

record kernel =
  k_cipher :: cipher
  k_crypt :: crypt_info
  k_uid :: u32
  k_gid :: u32
  k_write_and_wait :: "unit iact"

section \<open>Small steps\<close>

definition vabort :: "icache \<times> fs \<Rightarrow> icache \<times> fs" where
  "vabort = (\<lambda>(ic, st). (ic, cryexts_journal_abort st))"

text \<open>A call whose error is not looked at.\<close>

definition tryE :: "('s, 'a) act \<Rightarrow> ('s, unit) act" where "tryE m = modE (ignoreE m)"

definition inc_nlink :: "unit iact" where "inc_nlink = oni (\<lambda>i. i\<lparr>i_nlink := i_nlink i + 1\<rparr>)"
definition drop_nlink :: "unit iact" where "drop_nlink = oni (\<lambda>i. i\<lparr>i_nlink := i_nlink i - 1\<rparr>)"
definition clear_nlink :: "unit iact" where "clear_nlink = oni (\<lambda>i. i\<lparr>i_nlink := 0\<rparr>)"

definition cached_is_dir :: "u64 \<Rightarrow> icache \<times> fs \<Rightarrow> bool" where
  "cached_is_dir ino s \<longleftrightarrow> S_ISDIR (i_mode (cached s ino))"

definition new_inode_in :: "kernel \<Rightarrow> u64 \<Rightarrow> u16 \<Rightarrow> u64 \<Rightarrow> u64 vact" where
  "new_inode_in k dir mode data_block =
     (\<lambda>s. cryexts_new_inode (k_uid k) (k_gid k) (cached s dir) mode data_block s)"

text \<open>Write the pages of a file back before its last name goes.\<close>

definition flush_last_name :: "kernel \<Rightarrow> u64 \<Rightarrow> unit vact" where
  "flush_last_name k ino =
     whenE (\<lambda>s. S_ISREG (i_mode (cached s ino)) \<and> i_nlink (cached s ino) = 1)
       (on_inode ino (k_write_and_wait k))"

section \<open>Lookup and creation\<close>

definition cryexts_lookup :: "kernel \<Rightarrow> u64 \<Rightarrow> bytes \<Rightarrow> u64 option vact" where
  "cryexts_lookup k dir name = (\<lambda>s.
     if CRYEXTS_NAME_LEN < length name then (Inl ENAMETOOLONG, s)
     else (case on_inode dir (cryexts_find_entry name) s of
             (Inl e, s) \<Rightarrow> ((if e = ENOENT then Inr None else Inl e), s)
           | (Inr (bh, off), s) \<Rightarrow>
               let ino = de_inode (dirent_at (bdata (snd s) bh) off) in
               bindE (cryexts_iget (k_crypt k) ino) (\<lambda>_. retE (Some ino)) s))"

definition cryexts_create :: "kernel \<Rightarrow> u64 \<Rightarrow> bytes \<Rightarrow> u16 \<Rightarrow> u64 vact" where
  "cryexts_create k dir name mode =
     bindE (on_fs cryexts_journal_begin) (\<lambda>_.
     bindE (on_errE (new_inode_in k dir (S_IFREG OR mode) 0) (\<lambda>_. vabort)) (\<lambda>ino.
     bindE (on_errE (on_inode dir (cryexts_add_entry name ino (S_IFREG OR mode)))
              (\<lambda>_ s. vabort (discard_new_inode ino s))) (\<lambda>_.
     bindE (on_fs cryexts_journal_commit) (\<lambda>_. retE ino))))"

definition mkdir_fail :: "u64 \<Rightarrow> icache \<times> fs \<Rightarrow> icache \<times> fs" where
  "mkdir_fail block s =
     vabort (if block \<noteq> 0 then ignoreE (on_fs (cryexts_free_block block)) s else s)"

text \<open>When \<open>cryexts_new_inode\<close> fails, \<open>err\<close> still has the zero of the allocation before it.\<close>

definition cryexts_mkdir :: "kernel \<Rightarrow> u64 \<Rightarrow> bytes \<Rightarrow> u16 \<Rightarrow> u64 option vact" where
  "cryexts_mkdir k dir name mode =
     bindE (on_fs cryexts_journal_begin) (\<lambda>_.
     bindE (on_errE (on_inode dir alloc_dir_block) (\<lambda>_. vabort)) (\<lambda>block s.
       case new_inode_in k dir (S_IFDIR OR mode) block s of
         (Inl _, s) \<Rightarrow> (Inr None, mkdir_fail block s)
       | (Inr ino, s) \<Rightarrow>
           bindE (on_errE (runE [
               on_inode ino (cryexts_init_dir_block dir),
               on_inode dir (cryexts_add_entry name ino (S_IFDIR OR mode)),
               on_inode dir inc_nlink, on_inode dir cryexts_write_inode_to_disk])
             (\<lambda>_ s. mkdir_fail block (discard_new_inode ino s))) (\<lambda>_.
           bindE (on_fs cryexts_journal_commit) (\<lambda>_. retE (Some ino))) s))"

definition cryexts_link :: "u64 \<Rightarrow> u64 \<Rightarrow> bytes \<Rightarrow> unit vact" where
  "cryexts_link ino dir name =
     bindE (on_fs cryexts_journal_begin) (\<lambda>_ s.
       if cached_is_dir ino s then (Inl EPERM, vabort s)
       else bindE (on_errE (on_inode dir (cryexts_add_entry name ino (i_mode (cached s ino))))
                     (\<lambda>_. vabort)) (\<lambda>_.
            bindE (on_errE (on_inode ino (runE [inc_nlink, touch_ctime, cryexts_write_inode_to_disk]))
                     (\<lambda>_ s. vabort (ignoreE (on_inode ino drop_nlink)
                        (ignoreE (on_inode dir (cryexts_delete_entry name)) s)))) (\<lambda>_.
              on_fs cryexts_journal_commit)) s)"

definition symlink_fail :: "u64 \<Rightarrow> icache \<times> fs \<Rightarrow> icache \<times> fs" where
  "symlink_fail ino s =
     vabort (discard_new_inode ino (ignoreE (on_fs (cryexts_free_inode ino))
       (ignoreE (on_inode ino cryexts_release_inode_storage) s)))"

definition cryexts_symlink :: "kernel \<Rightarrow> u64 \<Rightarrow> bytes \<Rightarrow> bytes \<Rightarrow> u64 vact" where
  "cryexts_symlink k dir name symname =
     bindE (on_fs cryexts_journal_begin) (\<lambda>_ s.
       if symname = [] then (Inl EINVAL, vabort s)
       else if unat cryexts_symlink_size_limit < length symname then (Inl ENAMETOOLONG, vabort s)
       else bindE (on_errE (new_inode_in k dir (S_IFLNK OR 0x1FF) 0) (\<lambda>_. vabort)) (\<lambda>ino.
            bindE (on_errE (runE [
                on_inode ino (cryexts_write_from_kernel (k_cipher k) (k_crypt k) symname),
                on_inode dir (cryexts_add_entry name ino (S_IFLNK OR 0x1FF))])
              (\<lambda>_. symlink_fail ino)) (\<lambda>_.
            bindE (on_fs cryexts_journal_commit) (\<lambda>_. retE ino))) s)"

section \<open>Removal\<close>

text \<open>An inode without names: it is an orphan while its blocks are given back.\<close>

definition drop_storage :: "u64 \<Rightarrow> unit vact" where
  "drop_storage ino = runE [on_fs (cryexts_orphan_set ino),
     on_inode ino cryexts_release_inode_storage, on_fs (cryexts_orphan_clear ino)]"

definition cryexts_unlink :: "kernel \<Rightarrow> u64 \<Rightarrow> bytes \<Rightarrow> u64 \<Rightarrow> unit vact" where
  "cryexts_unlink k dir name ino =
     runE [flush_last_name k ino, on_fs cryexts_journal_begin,
       on_errE (runE [
           on_inode dir (cryexts_delete_entry name),
           on_inode ino (runE [drop_nlink, touch_ctime, cryexts_write_inode_to_disk]),
           whenE (\<lambda>s. i_nlink (cached s ino) = 0)
             (runE [drop_storage ino, tryE (on_fs (cryexts_free_inode ino))])])
         (\<lambda>_. vabort),
       on_fs cryexts_journal_commit]"

definition cryexts_rmdir :: "u64 \<Rightarrow> bytes \<Rightarrow> u64 \<Rightarrow> unit vact" where
  "cryexts_rmdir dir name ino =
     runE [on_fs cryexts_journal_begin,
       on_errE (runE [
           bindE (on_inode ino cryexts_dir_empty) (\<lambda>e. checkE (\<lambda>_. e) ENOTEMPTY),
           on_inode dir (cryexts_delete_entry name),
           on_inode ino clear_nlink, on_inode dir drop_nlink, on_inode ino touch_ctime,
           tryE (on_inode ino cryexts_write_inode_to_disk),
           tryE (on_inode dir cryexts_write_inode_to_disk),
           drop_storage ino, tryE (on_fs (cryexts_free_inode ino))])
         (\<lambda>_. vabort),
       on_fs cryexts_journal_commit]"

section \<open>Rename\<close>

text \<open>Is \<open>ancestor\<close> the directory or above it?  \<open>n\<close> is the bound on the depth.\<close>

fun has_ancestor :: "kernel \<Rightarrow> nat \<Rightarrow> u64 \<Rightarrow> u64 \<Rightarrow> bool vact" where
  "has_ancestor k 0 cursor ancestor = failE EUCLEAN"
| "has_ancestor k (Suc n) cursor ancestor =
     (if cursor = ancestor then retE True
      else if cursor = CRYEXTS_ROOT_INO then retE False
      else bindE (on_inode cursor cryexts_dir_parent_ino) (\<lambda>parent.
        if parent = cursor
        then (if parent = ancestor then failE EINVAL else retE False)
        else bindE (cryexts_iget (k_crypt k) parent) (\<lambda>_. has_ancestor k n parent ancestor)))"

definition cryexts_dir_has_ancestor :: "kernel \<Rightarrow> u64 \<Rightarrow> u64 \<Rightarrow> bool vact" where
  "cryexts_dir_has_ancestor k dir ancestor = (\<lambda>s.
     has_ancestor k (unat (cryexts_max_inodes (snd s) + 1)) dir ancestor s)"

text \<open>The checks on the inode that the new name has now.\<close>

definition check_victim :: "u64 \<Rightarrow> u64 \<Rightarrow> u64 \<Rightarrow> bytes \<Rightarrow> unit vact" where
  "check_victim old_ino victim new_dir new_name = (\<lambda>s.
     let old_dir_kind = cached_is_dir old_ino s; victim_dir = cached_is_dir victim s in
     if old_dir_kind \<and> \<not> victim_dir then (Inl ENOTDIR, s)
     else if \<not> old_dir_kind \<and> victim_dir then (Inl EISDIR, s)
     else bindE (if victim_dir
                 then bindE (on_inode victim cryexts_dir_empty) (\<lambda>e. checkE (\<lambda>_. e) ENOTEMPTY)
                 else retE ()) (\<lambda>_ s.
            case on_inode new_dir (cryexts_find_entry new_name) s of
              (Inl e, s) \<Rightarrow> ((if e = ENOENT then Inr () else Inl e), s)
            | (Inr _, s) \<Rightarrow> (Inr (), s)) s)"

text \<open>Take the name from its old inode; a directory less in \<open>new_dir\<close>.\<close>

definition unlink_victim :: "u64 \<Rightarrow> u64 \<Rightarrow> bytes \<Rightarrow> unit vact" where
  "unlink_victim victim new_dir new_name = (\<lambda>s.
     runE [on_inode new_dir (cryexts_delete_entry new_name),
       whenE (\<lambda>_. cached_is_dir victim s) (on_inode new_dir drop_nlink)] s)"

definition restore_target :: "u64 option \<Rightarrow> u64 \<Rightarrow> bytes \<Rightarrow> icache \<times> fs \<Rightarrow> icache \<times> fs" where
  "restore_target victim new_dir new_name s = (case victim of None \<Rightarrow> s
     | Some v \<Rightarrow> ignoreE (runE [
         whenE (\<lambda>_. cached_is_dir v s)
           (on_inode new_dir (runE [inc_nlink, tryE cryexts_write_inode_to_disk])),
         tryE (on_inode new_dir (cryexts_add_entry new_name v (i_mode (cached s v))))]) s)"

text \<open>Add the new name, turn \<open>..\<close> of a directory that moves, remove the old name; each with its way back.\<close>

definition move_entry :: "u64 \<Rightarrow> u64 \<Rightarrow> bytes \<Rightarrow> u64 \<Rightarrow> bytes \<Rightarrow> unit vact" where
  "move_entry old_ino old_dir old_name new_dir new_name = (\<lambda>s.
     let moved_dir = cached_is_dir old_ino s \<and> old_dir \<noteq> new_dir;
         drop_new = tryE (on_inode new_dir (cryexts_delete_entry new_name)) in
     runE [
       on_inode new_dir (cryexts_add_entry new_name old_ino (i_mode (cached s old_ino))),
       whenE (\<lambda>_. moved_dir)
         (on_errE (on_inode old_ino (cryexts_update_dir_parent new_dir)) (\<lambda>_. ignoreE drop_new)),
       on_errE (on_inode old_dir (cryexts_delete_entry old_name)) (\<lambda>_. ignoreE (runE [
         whenE (\<lambda>_. moved_dir) (tryE (on_inode old_ino (cryexts_update_dir_parent old_dir))),
         drop_new]))] s)"

text \<open>What follows the change of the names; no error of it is looked at.\<close>

definition touch_renamed :: "u64 \<Rightarrow> u64 \<Rightarrow> u64 \<Rightarrow> unit vact" where
  "touch_renamed old_ino old_dir new_dir = runE [
     on_inode old_ino (runE [touch_ctime, tryE cryexts_write_inode_to_disk]),
     on_inode old_dir (runE [touch_dir, tryE cryexts_write_inode_to_disk]),
     whenE (\<lambda>_. old_dir \<noteq> new_dir)
       (on_inode new_dir (runE [touch_dir, tryE cryexts_write_inode_to_disk]))]"

definition drop_victim :: "u64 \<Rightarrow> unit vact" where
  "drop_victim victim = runE [
     on_inode victim (runE [drop_nlink, touch_ctime, tryE cryexts_write_inode_to_disk]),
     whenE (\<lambda>s. i_nlink (cached s victim) = 0)
       (runE [tryE (drop_storage victim), tryE (on_fs (cryexts_free_inode victim))])]"

definition move_link_counts :: "u64 \<Rightarrow> u64 \<Rightarrow> u64 \<Rightarrow> unit vact" where
  "move_link_counts old_ino old_dir new_dir =
     whenE (\<lambda>s. cached_is_dir old_ino s \<and> old_dir \<noteq> new_dir) (runE [
       on_inode old_dir drop_nlink, on_inode new_dir inc_nlink,
       tryE (on_inode old_dir cryexts_write_inode_to_disk),
       tryE (on_inode new_dir cryexts_write_inode_to_disk)])"

definition rename_entries ::
    "kernel \<Rightarrow> u64 \<Rightarrow> u64 \<Rightarrow> bytes \<Rightarrow> u64 option \<Rightarrow> u64 \<Rightarrow> bytes \<Rightarrow> unit vact" where
  "rename_entries k old_ino old_dir old_name victim new_dir new_name = runE [
     whenE (cached_is_dir old_ino)
       (bindE (cryexts_dir_has_ancestor k new_dir old_ino) (\<lambda>a. checkE (\<lambda>_. \<not> a) EINVAL)),
     bindE (on_inode old_dir (cryexts_find_entry old_name)) (\<lambda>_. retE ()),
     (case victim of None \<Rightarrow> retE ()
      | Some v \<Rightarrow> runE [check_victim old_ino v new_dir new_name, unlink_victim v new_dir new_name]),
     on_errE (move_entry old_ino old_dir old_name new_dir new_name)
       (\<lambda>_. restore_target victim new_dir new_name),
     touch_renamed old_ino old_dir new_dir,
     (case victim of None \<Rightarrow> retE () | Some v \<Rightarrow> drop_victim v),
     move_link_counts old_ino old_dir new_dir]"

definition cryexts_rename ::
    "kernel \<Rightarrow> u64 \<Rightarrow> bytes \<Rightarrow> u64 option \<Rightarrow> u64 \<Rightarrow> bytes \<Rightarrow> u64 option \<Rightarrow> u32 \<Rightarrow> unit vact" where
  "cryexts_rename k old_dir old_name old_inode new_dir new_name new_inode flags =
     bindE (case new_inode of None \<Rightarrow> retE () | Some v \<Rightarrow> flush_last_name k v) (\<lambda>_.
     bindE (on_fs cryexts_journal_begin) (\<lambda>_ s.
       if flags \<noteq> 0 then (Inl EINVAL, vabort s)
       else (case old_inode of None \<Rightarrow> (Inl ENOENT, vabort s)
       | Some old_ino \<Rightarrow>
           if old_dir = new_dir \<and> old_name = new_name then (Inr (), vabort s)
           else if CRYEXTS_NAME_LEN < length old_name \<or> CRYEXTS_NAME_LEN < length new_name
           then (Inl ENAMETOOLONG, vabort s)
           else runE [
             on_errE (rename_entries k old_ino old_dir old_name new_inode new_dir new_name)
               (\<lambda>_. vabort),
             on_fs cryexts_journal_commit] s)))"

end
