(* ===== verification/DirCreate.thy ===== *)
theory DirCreate
  imports DirOps DirInit XattrStore InodeTyped
begin

text \<open>
  Creating a file: the composition of the allocation of an inode, of writing it and of adding its
  name to a directory, on a file system without a journal.
\<close>

section \<open>What the allocation of inodes writes\<close>

lemma inode_flip_within:
  assumes ok: "alloc_ok st" and gr: "cryexts_has_block_groups st"
    and r: "cryexts_alloc_inode_in_group grp st = (q, st1)"
  shows "cache_within (set (bitmaps st)) st st1" "q = Inl e \<Longrightarrow> st1 = st"
proof -
  have bh: "bh \<in> set (bitmaps st)"
    if "grp < s_group_count st" "bitmap_slot (s_group_inode_bitmap_bhs st) grp = Some bh" for bh
  proof -
    have "unat grp < ngroups st" using that(1) gr by (simp add: ngroups_def word_less_nat_alt)
    from bitmap_in(2) [OF this] show ?thesis using gr that(2) by (simp add: imap_def)
  qed
  show "cache_within (set (bitmaps st)) st st1"
    using r flip_within [OF ok bh] unfolding cryexts_alloc_inode_in_group_def
    by (auto simp: Let_def not_le cache_within_def split: option.splits if_splits)
  show "q = Inl e \<Longrightarrow> st1 = st"
    using r unfolding cryexts_alloc_inode_in_group_def
    by (auto simp: Let_def split: option.splits if_splits)
qed

lemma inode_scan_within:
  assumes ok: "alloc_ok st" and gr: "cryexts_has_block_groups st"
  shows "alloc_inode_scan gs e st = (r, st1) \<Longrightarrow> cache_within (set (bitmaps st)) st st1"
proof (induction gs arbitrary: e)
  case Nil
  then show ?case by (simp add: failE_def cache_within_def)
next
  case (Cons g gs)
  obtain q st2 where a: "cryexts_alloc_inode_in_group g st = (q, st2)" by (rule prod.exhaust)
  note w = inode_flip_within [OF ok gr a]
  show ?case using Cons.prems w Cons.IH by (cases q) (auto simp: a split: if_splits)
qed

lemma inode_search_within:
  assumes ok: "alloc_ok st" and r: "inode_search goal st = (r, st1)"
  shows "cache_within (set (bitmaps st)) st st1"
proof (cases "cryexts_has_block_groups st")
  case False
  then have n: "0 < ngroups st" "imap st 0 = the (s_inode_bitmap_bh st)" by (simp_all add: ngroups_def imap_def)
  have "the (s_inode_bitmap_bh st) \<in> set (bitmaps st)" using bitmap_in(2) [OF n(1)] n(2) by simp
  from flip_within(1) [OF ok this] show ?thesis
    using r False unfolding inode_search_def cryexts_alloc_inode_legacy_def
    by (auto simp: Let_def cache_within_def split: option.splits)
next
  case True
  then show ?thesis using r inode_scan_within [OF ok True] by (simp add: inode_search_def Let_def)
qed

lemma inode_alloc_run:
  assumes ok: "disk_ok st" and r: "cryexts_alloc_inode_goal goal st = (Inr ino, st')"
  shows "run_to {} {} st st'" "inode_used st' = insert ino (inode_used st)"
    "ino \<in> inode_space st - inode_used st"
proof -
  have al: "alloc_ok st" using ok by (simp add: disk_ok_def)
  obtain st1 where s: "inode_search goal st = (Inr ino, st1)" and st': "st' = alloc_inode_account ino st1"
    using r by (auto simp: alloc_inode_goal_eq bindE_eq_Inr)
  note f = inode_alloc_ok [OF al r]
  show "inode_used st' = insert ino (inode_used st)" "ino \<in> inode_space st - inode_used st" by (rule f)+
  have g1: "geo_view st1 = geo_view st"
    using inode_search_grabbed [OF al, of goal] s by (simp add: inode_grabbed_def bit_flipped_def)
  let ?m = "upd_disk_sb (\<lambda>sb. sb\<lparr>sb_free_inodes_count := sb_free_inodes_count sb - 1\<rparr>)
    (if s_next_ino st1 < ino + 1 then st1\<lparr>s_next_ino := ino + 1\<rparr> else st1)"
  have g: "geo_view ?m = geo_view st" using g1 by (simp add: geo_view_def upd_disk_sb_def)
  have "within (side st) ?m st'"
    unfolding st' alloc_inode_account_def Let_def by (intro within_frame mark_frame side_blocks_geo [OF g al])
  moreover have "cache_within (set (bitmaps st)) st ?m"
    using inode_search_within [OF al s] by (simp add: cache_within_def csum_view_def upd_disk_sb_def)
  then have "within (set (bitmaps st)) st ?m" using g by (simp add: within_def)
  ultimately have w: "within (set (bitmaps st) \<union> side st) st st'" by (rule within_trans [rotated])
  have bs: "block_space st' = block_space st"
    using geo_valid(1) [OF within_geo [OF w] al] by (simp add: block_space_def)
  have "took {} st st'"
    using ok f(1,6) within_geo [OF w] bs geo_basic [OF within_geo [OF w]] by (simp add: took_def disk_ok_def)
  then show "run_to {} {} st st'" using w by (simp add: run_to_def)
qed

lemma free_bit_within:
  assumes ok: "alloc_ok st"
  shows "within (set (bitmaps st) \<union> side st) st (snd (free_inode_bit ino st))"
proof -
  have acc: "within (set (bitmaps st) \<union> side st) st (free_inode_account m)"
    if g: "geo_view m = geo_view st" and c: "cache_within (set (bitmaps st)) st m" for m
  proof -
    let ?m = "upd_disk_sb (\<lambda>sb. sb\<lparr>sb_free_inodes_count := sb_free_inodes_count sb + 1\<rparr>) m"
    have g2: "geo_view ?m = geo_view st" using g by (simp add: geo_view_def upd_disk_sb_def)
    have "within (set (bitmaps st)) st ?m"
      using c g2 by (simp add: within_def cache_within_def csum_view_def upd_disk_sb_def)
    moreover have "within (side st) ?m (free_inode_account m)"
      unfolding free_inode_account_def
      by (intro within_frame mark_frame side_blocks_geo [OF _ ok] g2)
    ultimately show ?thesis by (rule within_trans)
  qed
  have clr: "geo_view (bitmap_clear_at bh k st) = geo_view st \<and> cache_within (set (bitmaps st)) st (bitmap_clear_at bh k st)"
    if "bh \<in> set (bitmaps st)" for bh k
  proof -
    have "bh \<noteq> 0" using alloc_okD(5) [OF ok that] by (auto simp: side_def)
    then show ?thesis
      using that by (simp add: bitmap_clear_at_def set_bdata_def cache_within_def csum_view_def geo_view_def)
  qed
  show ?thesis
  proof (cases "cryexts_has_block_groups st")
    case False
    then have "0 < ngroups st" "imap st 0 = the (s_inode_bitmap_bh st)" by (simp_all add: ngroups_def imap_def)
    then have "the (s_inode_bitmap_bh st) \<in> set (bitmaps st)" using bitmap_in(2) by metis
    then show ?thesis using False acc clr by (simp add: free_inode_bit_def Let_def)
  next
    case True
    have bh: "the (bitmap_slot (s_group_inode_bitmap_bhs st) g) \<in> set (bitmaps st)" if "g < s_group_count st" for g
    proof -
      have "unat g < ngroups st" using that True by (simp add: ngroups_def word_less_nat_alt)
      from bitmap_in(2) [OF this] show ?thesis using True by (simp add: imap_def)
    qed
    have up: "geo_view (upd_group g (\<lambda>g. g\<lparr>gd_free_inodes_count := gd_free_inodes_count g + 1\<rparr>) m) = geo_view st"
      "cache_within (set (bitmaps st)) st (upd_group g (\<lambda>g. g\<lparr>gd_free_inodes_count := gd_free_inodes_count g + 1\<rparr>) m)"
      if "geo_view m = geo_view st \<and> cache_within (set (bitmaps st)) st m" for g m
      using that geo_upd_group [of "\<lambda>g. g\<lparr>gd_free_inodes_count := gd_free_inodes_count g + 1\<rparr>" g m]
      by (auto simp: gd_place_def cache_within_def csum_view_def upd_group_def)
    show ?thesis
      using True acc [OF up] clr [OF bh] by (auto simp: free_inode_bit_def Let_def not_le)
  qed
qed

lemma free_inode_run:
  assumes ok: "disk_ok st" and i: "ino \<in> inode_space st" and r: "cryexts_free_inode ino st = (r, st')"
  shows "run_to {inode_block st ino} {} st st'"
    "r = Inr () \<and> inode_used st' = inode_used st - {ino} \<or> (\<exists>e. r = Inl e) \<and> inode_used st' = inode_used st"
    "r = Inr () \<or> faulty st"
proof -
  have al: "alloc_ok st" using ok by (simp add: disk_ok_def)
  note eff = inode_free_effect [OF al r]
  show "r = Inr () \<and> inode_used st' = inode_used st - {ino} \<or> (\<exists>e. r = Inl e) \<and> inode_used st' = inode_used st"
    using eff by (cases r) auto
  have rng: "\<not> (ino < CRYEXTS_ROOT_INO \<or> cryexts_inodes_count st < ino)" by (rule inode_reads(1) [OF al i])
  obtain q st1 where g: "cryexts_get_disk_inode ino st = (q, st1)" by (rule prod.exhaust)
  have t1: "ticked st st1" by (rule ticked_get_disk_inode(1) [OF g])
  let ?x = "inode_block st ino"
  show "r = Inr () \<or> faulty st"
  proof (cases q)
    case (Inl e)
    then show ?thesis using get_disk_inode_works [OF al i g [unfolded Inl]] by simp
  next
    case (Inr p)
    then have "r = fst (free_inode_bit ino (clear_disk_inode p st1))"
      using r rng g by (simp add: free_inode_eq bindE_def)
    then show ?thesis by (simp add: free_inode_bit_def Let_def)
  qed
  have w: "within (set (bitmaps st) \<union> side st \<union> {?x}) st st'"
  proof (cases q)
    case (Inl e)
    then have "st' = st1" using r rng g by (simp add: free_inode_eq bindE_def)
    then show ?thesis using ticked_within [OF t1] by simp
  next
    case (Inr p)
    have p: "fst p = ?x" using ticked_get_disk_inode(2) [OF g Inr] by simp
    let ?c = "clear_disk_inode p st1"
    have st': "st' = snd (free_inode_bit ino ?c)" using r rng g Inr by (simp add: free_inode_eq bindE_def)
    have nz: "?x \<noteq> 0" "?x \<notin> set (bitmaps st)" using al i by (auto simp: alloc_ok_def)
    have "within {?x} st1 ?c"
      using p nz(1) by (cases p) (simp add: clear_disk_inode_def within_dirty within_set)
    then have wc: "within {?x} st ?c" using within_trans [OF ticked_within [OF t1, of "{}"]] by fastforce
    have same: "alloc_same st ?c" by (rule within_same [OF wc]) (use nz in simp)
    have ac: "alloc_ok ?c" by (rule alloc_same_sets(1) [OF al same])
    have "bitmaps ?c = bitmaps st" "side ?c = side st" using geo_basic(5,8) [OF within_geo [OF wc]] by simp_all
    then have "within (set (bitmaps st) \<union> side st) ?c st'" using free_bit_within [OF ac, of ino] st' by simp
    from within_trans [OF wc this] show ?thesis by (simp add: Un_ac)
  qed
  have f: "alloc_ok st'" "block_used st' = block_used st" using eff by (cases r; simp)+
  have "took {} st st'"
    using ok f within_geo [OF w] geo_basic [OF within_geo [OF w]] geo_valid(1) [OF within_geo [OF w] al]
    by (simp add: took_def disk_ok_def block_space_def)
  then show "run_to {?x} {} st st'" using w by (simp add: run_to_def)
qed

section \<open>Building an inode\<close>

lemma new_info_empty:
  "ii_extents (new_inode_info st dir mode) = []" "ii_overflow_extents (new_inode_info st dir mode) = []"
  "ii_extent_leaves (new_inode_info st dir mode) = []" "ii_extent_overflow_block (new_inode_info st dir mode) = 0"
  "ii_extent_overflow_checksum (new_inode_info st dir mode) = 0" "ii_xattr_block (new_inode_info st dir mode) = 0"
  by (auto simp: new_inode_info_def inherit_hints_def inherit_policy_def new_extent_flags_def Let_def
      zero_info_def split: option.splits)

lemma new_info_checksum:
  "i_private i = Some (new_inode_info st dir mode) \<Longrightarrow>
   upd_info (\<lambda>b. b\<lparr>ii_extent_overflow_checksum := 0\<rparr>) i = i"
proof -
  assume p: "i_private i = Some (new_inode_info st dir mode)"
  have "(new_inode_info st dir mode)\<lparr>ii_extent_overflow_checksum := 0\<rparr> = new_inode_info st dir mode"
    by (rule cryexts_inode_info.equality) (simp_all add: new_info_empty)
  then have "upd_info (\<lambda>b. b\<lparr>ii_extent_overflow_checksum := 0\<rparr>) i = i\<lparr>i_private := Some (new_inode_info st dir mode)\<rparr>"
    by (simp add: upd_info_def p)
  also have "\<dots> = i" by (rule inode.equality) (simp_all add: p)
  finally show ?thesis .
qed

lemma new_inode_plain: "plain_inode (new_vfs_inode uid gid dir mode 0 ino st)"
proof -
  have "write_extent_blocks (i, s) = (Inr (), (i, s))"
    if p: "i_private i = Some (new_inode_info st dir mode)" for i s
    using p new_info_checksum [OF p]
    by (simp add: write_extent_blocks_def cryexts_write_extent_overflow_def info_def
        new_info_empty retE_def Let_def)
  then show ?thesis by (simp add: plain_inode_def new_vfs_inode_def)
qed

lemma new_vfs_inode_ticked:
  assumes "ticked st st'"
  shows "new_vfs_inode uid gid dir mode b ino st' = new_vfs_inode uid gid dir mode b ino st"
proof -
  obtain t where t: "st' = st\<lparr>d_tick := t\<rparr>" using assms by (auto simp: ticked_def)
  have g: "cryexts_block_group_of st' = cryexts_block_group_of st"
    by (simp add: fun_eq_iff t cryexts_block_group_of_def cryexts_has_block_groups_def)
  have h: "cryexts_inode_group_of dir st' = cryexts_inode_group_of dir st"
    by (simp add: t cryexts_inode_group_of_def cryexts_has_block_groups_def)
  have "inherit_hints st' = inherit_hints st" by (intro ext) (unfold inherit_hints_def g, rule refl)
  moreover have "inherit_policy st' = inherit_policy st" by (simp add: fun_eq_iff inherit_policy_def t)
  moreover have sb: "s_disk_sb st' = s_disk_sb st" by (simp add: t)
  have "cryexts_extent_tree_v2_enabled st' = cryexts_extent_tree_v2_enabled st"
    "cryexts_extent_tree_enabled st' = cryexts_extent_tree_enabled st"
    by (simp_all add: cryexts_extent_tree_v2_enabled_def cryexts_extent_tree_enabled_def sb)
  then have "new_extent_flags st' = new_extent_flags st"
    by (intro ext) (unfold new_extent_flags_def sb, simp only:)
  ultimately show ?thesis by (simp add: new_vfs_inode_def new_inode_info_def h) (simp add: t)
qed

lemma orphan_cache_within: "within {} st (set_next_orphan_cached ino v st)"
  "within {} st (forget_next_orphan ino st)"
  by (simp_all add: within_def cache_within_def set_next_orphan_cached_def forget_next_orphan_def
      geo_view_def csum_view_def)

lemma within_sets:
  assumes ok: "disk_ok st" and w: "within S st st'" and d: "set (bitmaps st) \<inter> S = {}"
  shows "disk_ok st'" "inode_used st' = inode_used st" "inode_space st' = inode_space st"
    "block_used st' = block_used st"
    "ino \<in> inode_space st \<Longrightarrow> inode_block st' ino = inode_block st ino"
proof -
  have al: "alloc_ok st" using ok by (simp add: disk_ok_def)
  note a = alloc_same_sets [OF al within_same [OF w d]]
  show "inode_used st' = inode_used st" "inode_space st' = inode_space st" "block_used st' = block_used st" by (rule a)+
  show "disk_ok st'" using ok a geo_basic [OF within_geo [OF w]] by (simp add: disk_ok_def)
  show "ino \<in> inode_space st \<Longrightarrow> inode_block st' ino = inode_block st ino"
    by (rule geo_valid(2) [OF within_geo [OF w] al])
qed

lemma build_run:
  assumes ok: "disk_ok st" and ino: "ino \<in> inode_space st"
    and r: "build_inode uid gid dir mode 0 known ino st = (r, st')"
  shows "run_to {inode_block st ino} {} st st'" "inode_used st' = inode_used st"
    "r = Inr n \<Longrightarrow> \<not> known \<and> (\<exists>m. n = (new_vfs_inode uid gid dir mode 0 ino st)\<lparr>i_blocks := m\<rparr>)"
    "r = Inl e \<Longrightarrow> known \<or> faulty st"
proof -
  let ?x = "inode_block st ino" and ?i = "new_vfs_inode uid gid dir mode 0 ino st"
  have al: "alloc_ok st" using ok by (simp add: disk_ok_def)
  have x: "?x \<noteq> 0" "?x \<notin> set (bitmaps st)" using al ino by (auto simp: alloc_ok_def)
  obtain u s1 where k1: "io_step ENOMEM st = (u, s1)" by (rule prod.exhaust)
  obtain v s2 where k2: "io_step ENOMEM s1 = (v, s2)" by (rule prod.exhaust)
  have t1: "ticked st s1" using ticked_io [OF k1] by blast
  have t2: "ticked st s2" using ticked_io [OF k2] ticked_trans [OF t1] by blast
  have fu: "u = Inr () \<or> faulty st" "v = Inr () \<or> faulty st"
    using ticked_io [OF k1] ticked_io [OF k2] ticked_faulty [OF t1] by auto
  define s3 where "s3 = set_next_orphan_cached ino 0 s2"
  have w3: "within {} st s3"
    using within_trans [OF ticked_within [OF t2, of "{}"] orphan_cache_within(1)] by (simp add: s3_def)
  note e3 = within_sets [OF ok w3, simplified]
  have al3: "alloc_ok s3" using e3(1) by (simp add: disk_ok_def)
  have side3: "side s3 = side st" using geo_basic(8) [OF within_geo [OF w3]] by simp
  obtain q p where wr: "cryexts_write_inode_to_disk (?i, s3) = (q, p)" by (rule prod.exhaust)
  obtain i4 s4 where p: "p = (i4, s4)" by (rule prod.exhaust)
  note w = write_inode_plain [OF al3 new_inode_plain wr [unfolded p]]
  have ii: "i_ino ?i = ino" by (simp add: new_vfs_inode_def)
  have w4: "within (insert ?x (side st)) st s4"
    using within_trans [OF w3 w(2)] e3(5) [OF ino] side3 ii by simp
  have f4: "q = Inl e \<Longrightarrow> faulty st" for e
    using w(3) ino e3(3) within_faulty [OF w3] ii by simp
  have eq: "build_inode uid gid dir mode 0 known ino st =
      (case u of Inl e \<Rightarrow> (Inl e, s1) | Inr _ \<Rightarrow> (case v of Inl e \<Rightarrow> (Inl e, s2) | Inr _ \<Rightarrow>
        if known then (Inl EBUSY, s2)
        else (case q of Inl e \<Rightarrow> (Inl e, forget_next_orphan ino s4) | Inr _ \<Rightarrow> (Inr i4, s4))))"
    using wr p
    by (auto simp: build_inode_def kmalloc_def bindE_def k1 k2 place_data_block_def checkE_def onfs_def
        modE_def s3_def on_errE_def new_vfs_inode_ticked [OF t2] split: sum.splits)
  have W: "within (insert ?x (side st)) st st'"
    using r w4 within_mono [OF ticked_within [OF t1]] within_mono [OF ticked_within [OF t2]]
      within_trans [OF w4 orphan_cache_within(2) [of s4 ino]]
    unfolding eq by (auto split: sum.splits if_splits)
  have d: "set (bitmaps st) \<inter> insert ?x (side st) = {}" using x(2) alloc_okD(5) [OF al] by auto
  show "inode_used st' = inode_used st" by (rule within_sets(2) [OF ok W d])
  show "run_to {?x} {} st st'" by (rule run_to_write [OF ok]) (use W x(2) in auto)
  show "r = Inr n \<Longrightarrow> \<not> known \<and> (\<exists>m. n = ?i\<lparr>i_blocks := m\<rparr>)"
    using r w(1) unfolding eq by (auto split: sum.splits if_splits)
  show "r = Inl e \<Longrightarrow> known \<or> faulty st"
    using r fu f4 unfolding eq by (auto split: sum.splits if_splits)
qed

text \<open>A file that owns nothing.\<close>

definition fresh_file :: "u64 \<Rightarrow> u16 \<Rightarrow> u32 \<Rightarrow> u32 \<Rightarrow> inode \<Rightarrow> bool" where
  "fresh_file ino mode uid gid n \<longleftrightarrow> i_ino n = ino \<and> i_mode n = mode \<and> i_nlink n = 1 \<and>
     i_uid n = uid \<and> i_gid n = gid \<and> i_size n = 0 \<and> owned (info n) = {} \<and>
     ii_direct (info n) = replicate CRYEXTS_DIRECT_BLOCKS 0 \<and> ii_indirect_block (info n) = 0 \<and>
     ii_xattr_block (info n) = 0"

lemma new_file_fresh:
  "\<not> S_ISDIR mode \<Longrightarrow> fresh_file ino mode uid gid ((new_vfs_inode uid gid dir mode 0 ino st)\<lparr>i_blocks := m\<rparr>)"
  by (auto simp: fresh_file_def new_vfs_inode_def info_def owned_def meta_blocks_def meta_list_def
      extent_entry_nth(3) new_info_empty)
    (simp_all add: new_inode_info_def inherit_hints_def inherit_policy_def new_extent_flags_def Let_def
      zero_info_def split: option.split)

definition inode_tables :: "fs \<Rightarrow> u64 set" where
  "inode_tables st = inode_block st ` inode_space st"

lemma new_inode_run:
  assumes ok: "disk_ok st" and nd: "\<not> S_ISDIR mode"
    and r: "cryexts_new_inode uid gid d mode 0 (ic, st) = (r, (ic', st'))"
  shows "run_to (inode_tables st) {} st st'"
    "r = Inr ino \<Longrightarrow> ino \<in> inode_space st - inode_used st \<and> inode_used st' = insert ino (inode_used st) \<and>
       ic ino = None \<and> (\<exists>n. ic' = ic(ino := Some n) \<and> fresh_file ino mode uid gid n)"
    "r = Inl e \<Longrightarrow> ic' = ic \<and> (faulty st \<or> inode_used st' = inode_used st)"
proof -
  define goal where "goal = cryexts_inode_group_of d st"
  obtain q st1 where a: "cryexts_alloc_inode_goal goal st = (q, st1)" by (rule prod.exhaust)
  have al: "alloc_ok st" using ok by (simp add: disk_ok_def)
  have "run_to (inode_tables st) {} st st' \<and>
    (\<forall>ino. r = Inr ino \<longrightarrow> ino \<in> inode_space st - inode_used st \<and> inode_used st' = insert ino (inode_used st) \<and>
       ic ino = None \<and> (\<exists>n. ic' = ic(ino := Some n) \<and> fresh_file ino mode uid gid n)) \<and>
    (\<forall>e. r = Inl e \<longrightarrow> ic' = ic \<and> (faulty st \<or> inode_used st' = inode_used st))"
  proof (cases q)
    case (Inl e)
    then have "st1 = st" using inode_alloc_fail [OF al] a by blast
    then have "r = Inl e" "ic' = ic" "st' = st"
      using r a Inl by (auto simp: cryexts_new_inode_def bindE_def goal_def)
    then show ?thesis using run_to_mono [OF run_to_refl [OF ok]] by simp
  next
    case (Inr x)
    note f = inode_alloc_run [OF ok a [unfolded Inr]]
    note g = run_toD [OF f(1)]
    have x: "x \<in> inode_space st" using f(3) by simp
    then have x1: "x \<in> inode_space st1" using geo_basic [OF g(4)] by simp
    have ib: "inode_block st1 x = inode_block st x" by (rule geo_valid(2) [OF g(4) al x])
    obtain v st2 where b: "build_inode uid gid d mode 0 (ic x \<noteq> None) x st1 = (v, st2)" by (rule prod.exhaust)
    note br = build_run [OF g(2) x1 b]
    have tab: "inode_block st x \<in> inode_tables st" using x by (simp add: inode_tables_def)
    have run2: "run_to {inode_block st x} {} st st2" using run_to_trans [OF f(1) br(1)] ib by simp
    have flt: "faulty st1 = faulty st" using g(9) by (simp add: like_def)
    show ?thesis
    proof (cases v)
      case vr: (Inr n)
      then obtain m where n: "n = (new_vfs_inode uid gid d mode 0 x st1)\<lparr>i_blocks := m\<rparr>" "ic x = None"
        using br(3) by blast
      have "i_ino n = x" by (simp add: n(1) new_vfs_inode_def)
      then have "r = Inr x" "ic' = ic(x := Some n)" "st' = st2"
        using r a Inr b vr by (auto simp: cryexts_new_inode_def bindE_def on_errE_def goal_def)
      moreover have "fresh_file x mode uid gid n" unfolding n(1) by (rule new_file_fresh [OF nd])
      ultimately show ?thesis using run_to_mono [OF run2] tab br(2) f(2,3) n(2) by auto
    next
      case vl: (Inl e)
      obtain w st3 where fr: "cryexts_free_inode x st2 = (w, st3)" by (rule prod.exhaust)
      note k = run_toD [OF run2]
      have x2: "x \<in> inode_space st2" using x geo_basic [OF k(4)] by simp
      note fi = free_inode_run [OF k(2) x2 fr]
      have ib2: "inode_block st2 x = inode_block st x" by (rule geo_valid(2) [OF k(4) al x])
      have eq: "r = Inl e" "ic' = ic" "st' = st3"
        using r a Inr b vl fr by (auto simp: cryexts_new_inode_def bindE_def on_errE_def ignoreE_def goal_def)
      have "run_to {inode_block st x} {} st st3" using run_to_trans [OF run2 fi(1)] ib2 by simp
      moreover have "faulty st \<or> inode_used st3 = inode_used st"
        using fi(2,3) br(2) f(2,3) k(9) by (auto simp: like_def)
      ultimately show ?thesis using run_to_mono tab eq by blast
    qed
  qed
  then show "run_to (inode_tables st) {} st st'"
    "r = Inr ino \<Longrightarrow> ino \<in> inode_space st - inode_used st \<and> inode_used st' = insert ino (inode_used st) \<and>
       ic ino = None \<and> (\<exists>n. ic' = ic(ino := Some n) \<and> fresh_file ino mode uid gid n)"
    "r = Inl e \<Longrightarrow> ic' = ic \<and> (faulty st \<or> inode_used st' = inode_used st)" by blast+
qed

lemma new_inode_works:
  assumes ok: "disk_ok st" and nf: "\<not> faulty st" and k: "ic x = None"
    and a: "cryexts_alloc_inode_goal (cryexts_inode_group_of d st) st = (Inr x, st1)"
  shows "fst (cryexts_new_inode uid gid d mode 0 (ic, st)) = Inr x"
proof -
  note f = inode_alloc_run [OF ok a]
  note g = run_toD [OF f(1)]
  have x: "x \<in> inode_space st1" using f(3) geo_basic [OF g(4)] by simp
  obtain v st2 where b: "build_inode uid gid d mode 0 False x st1 = (v, st2)" by (rule prod.exhaust)
  have nf1: "\<not> faulty st1" using nf g(9) by (simp add: like_def)
  obtain n where v: "v = Inr n" using build_run(4) [OF g(2) x b] nf1 by (cases v) auto
  then obtain m where "n = (new_vfs_inode uid gid d mode 0 x st1)\<lparr>i_blocks := m\<rparr>"
    using build_run(3) [OF g(2) x b] by blast
  then have "i_ino n = x" by (simp add: new_vfs_inode_def)
  then show ?thesis using a b v k by (simp add: cryexts_new_inode_def bindE_def on_errE_def)
qed

section \<open>A name that can not be added\<close>

lemma new_block_error:
  assumes ok: "disk_ok st" and nf: "\<not> faulty st" and b: "i_private i = Some b"
    and run: "new_dir_block n (i, st) = (Inl e, (i', st'))"
  shows "st' = st"
proof -
  obtain q st1 where a: "cryexts_alloc_block_goal (ii_alloc_hint_block b) (ii_alloc_goal_group b) st = (q, st1)"
    by (rule prod.exhaust)
  have ad: "alloc_dir_block (i, st) = (q, (i, st1))" using a b by (simp add: alloc_dir_block_def onfs_def)
  show ?thesis
  proof (cases q)
    case (Inl e')
    then have "st1 = st" using block_alloc_fail a ok by (auto simp: disk_ok_def)
    then show ?thesis using run ad Inl by (simp add: new_dir_block_def bindE_def)
  next
    case (Inr x)
    have "faulty st1 = faulty st" using alloc_within [OF _ a] ok within_faulty by (auto simp: disk_ok_def)
    then have nf1: "\<not> faulty st1" using nf by simp
    let ?i1 = "(upd_info (cryexts_update_alloc_hint st1 x) (set_direct n x i))\<lparr>i_size :=
      i_size (upd_info (cryexts_update_alloc_hint st1 x) (set_direct n x i)) + of_nat BLOCK_SIZE\<rparr>"
    obtain v p where u: "update_sectors (?i1, st1) = (v, p)" by (rule prod.exhaust)
    obtain i2 st2 where p: "p = (i2, st2)" by (rule prod.exhaust)
    note us = ticked_update_sectors [OF u [unfolded p]]
    have "d_fault st2 (d_tick st2) = False"
      using nf1 us(1) by (auto simp: faulty_def ticked_def)
    then have g: "sb_getblk x st2 = (Inr x, st2\<lparr>d_tick := Suc (d_tick st2)\<rparr>)"
      by (simp add: sb_getblk_def bindE_def io_step_def retE_def)
    show ?thesis
      using run ad Inr u p us(3) g
      by (simp add: new_dir_block_def bindE_def oni_def retE_def cryexts_set_inode_alloc_hint_def
          on_errE_def onfs_def modE_def)
  qed
qed

lemma add_entry_error:
  assumes iv: "dir_inv i st ess" and nm: "name \<noteq> []" and ino: "ino_ok st ino" and nf: "\<not> faulty st"
    and run: "cryexts_add_entry name ino mode (i, st) = (Inl e, (i', st'))"
  shows "inode_used st' = inode_used st"
proof -
  have v: "dir_view i st ess" and p: "dir_place i st (length ess)" using iv by (simp_all add: dir_inv_def)
  have ok: "disk_ok st" using dir_placeD(1) [OF p] .
  have tk: "inode_used s = inode_used st" if "ticked st s" for s
    by (rule within_sets(2) [OF ok ticked_within [OF that, of "{}"]]) simp
  obtain q j s where f: "cryexts_find_entry name (i, st) = (q, (j, s))" by (metis prod.exhaust)
  note fi = find_inv [OF iv f]
  have s: "j = i" "ticked st s" using fi(1,2) by blast+
  show ?thesis
  proof (cases "255 < length name \<or> q \<noteq> Inl ENOENT")
    case True
    then have "ticked st st'"
      using run f s by (auto simp: cryexts_add_entry_def Let_def const_simps split: if_splits sum.splits)
    then show ?thesis by (rule tk)
  next
    case False
    then have len: "length name \<le> 255" and q: "q = Inl ENOENT" by auto
    have new: "name \<notin> fst ` set (names ess)" using fi(3) q by auto
    have iv1: "dir_inv i s ess" by (rule dir_inv_ticked(1) [OF iv s(2)])
    obtain room x where rm: "room_in_blocks (dir_rec_len (length name)) [0..<length ess] (i, s) = (room, x)"
      by (rule prod.exhaust)
    obtain j2 s2 where x: "x = (j2, s2)" by (rule prod.exhaust)
    have "set [0..<length ess] \<subseteq> {..<length ess}" by auto
    note ro = room_view [OF _ this rm [unfolded x]]
    have v1: "dir_view i s ess" using iv1 by (simp add: dir_inv_def)
    have s2: "j2 = i" "ticked st s2" using ro [OF v1] ticked_trans [OF s(2)] by blast+
    have iv2: "dir_inv i s2 ess" by (rule dir_inv_ticked(1) [OF iv s2(2)])
    have nf2: "\<not> faulty s2" using nf ticked_faulty [OF s2(2)] by simp
    have ino2: "ino_ok s2 ino" using ino within_max [OF ticked_within [OF s2(2), of "{}"]] by (simp add: ino_ok_def)
    have run0: "bindE (room_in_blocks (dir_rec_len (length name)) [0..<length ess]) (\<lambda>room.
        case room of
          Some (k, block, slot) \<Rightarrow>
            bindE (onfs (take_slot block slot)) (\<lambda>off. write_entry k block off name ino mode)
        | None \<Rightarrow>
            if CRYEXTS_DIRECT_BLOCKS \<le> length ess then failE ENOSPC
            else bindE (new_dir_block (length ess)) (\<lambda>block. write_entry (length ess) block 0 name ino mode)) (i, s) =
        (Inl e, (i', st'))"
    proof -
      have nl: "\<not> CRYEXTS_NAME_LEN < length name" using len by (simp add: const_simps)
      show ?thesis
        using run f q s(1) nl unfolding cryexts_add_entry_def Let_def dir_view_blocks(1) [OF v, symmetric] by simp
    qed
    have rm1: "room_in_blocks (dir_rec_len (length name)) [0..<length ess] (i, s) = (room, (i, s2))"
      using rm x s2(1) by simp
    consider (fail) e' where "room = Inl e'" | (none) "room = Inr None"
      | (slot) k slot where "k < length ess" "room = Inr (Some (k, dblock i k, slot))"
          "slot_in (ess ! k) (dir_rec_len (length name)) slot"
      using ro [OF v1] unfolding set_upt by (cases room) fastforce+
    then show ?thesis
    proof cases
      case fail
      then show ?thesis using run0 rm1 tk [OF s2(2)] by (simp add: bindE_def)
    next
      case slot
      have "bindE (onfs (take_slot (dblock i k) slot)) (\<lambda>off. write_entry k (dblock i k) off name ino mode) (i, s2) =
          (Inl e, (i', st'))" using run0 by (simp only: bindE_def [of "room_in_blocks _ _"] rm1 slot(2)) simp
      from add_existing [OF iv2 slot(1) nm len new ino2 slot(3) this] show ?thesis using nf2 by blast
    next
      case none
      show ?thesis
      proof (cases "CRYEXTS_DIRECT_BLOCKS \<le> length ess")
        case True
        then show ?thesis using run0 rm1 none tk [OF s2(2)] by (simp add: bindE_def failE_def)
      next
        case n: False
        obtain q3 y where nb: "new_dir_block (length ess) (i, s2) = (q3, y)" by (rule prod.exhaust)
        obtain j3 s3 where y: "y = (j3, s3)" by (rule prod.exhaust)
        have run3: "bindE (new_dir_block (length ess)) (\<lambda>block. write_entry (length ess) block 0 name ino mode) (i, s2) =
            (Inl e, (i', st'))" using run0 n by (simp only: bindE_def [of "room_in_blocks _ _"] rm1 none) simp
        have lt: "length ess < CRYEXTS_DIRECT_BLOCKS" using n by simp
        have v2: "dir_view i s2 ess" and p2: "dir_place i s2 (length ess)" using iv2 by (simp_all add: dir_inv_def)
        obtain b where b: "i_private i = Some b" using v2 by (auto simp: dir_view_def dir_shape_def)
        show ?thesis
        proof (cases q3)
          case (Inl e')
          then have "st' = s3" using run3 nb y by (simp add: bindE_def)
          then show ?thesis
            using new_block_error [OF dir_placeD(1) [OF p2] nf2 b nb [unfolded y Inl]] tk [OF s2(2)] by simp
        next
          case (Inr z)
          let ?ess = "ess @ [[(0, free_entry, [])]]"
          have q3: "q3 = Inr (dblock j3 (length ess))" and iv3: "dir_inv j3 s3 ?ess" and k: "like s2 s3"
            using new_block [OF iv2 refl lt nb [unfolded y]] Inr by auto
          have nn: "names ?ess = names ess" by (simp add: names_def free_entry_def)
          have "cryexts_max_inodes s3 = cryexts_max_inodes s2"
            using k by (simp add: like_def geo_view_def cryexts_max_inodes_def cryexts_inodes_count_def)
          then have ino3: "ino_ok s3 ino" using ino2 by (simp add: ino_ok_def)
          have sl: "slot_in (?ess ! length ess) (dir_rec_len (length name)) (Reuse 0)"
            using dir_rec_len(4) [OF len] len by (simp add: free_entry_def rec_len_def BLOCK_SIZE_def)
          have run4: "bindE (onfs (take_slot (dblock j3 (length ess)) (Reuse 0)))
              (\<lambda>off. write_entry (length ess) (dblock j3 (length ess)) off name ino mode) (j3, s3) = (Inl e, (i', st'))"
            unfolding write_none [symmetric] using run3 nb y q3 by (simp add: bindE_def)
          have kl: "length ess < length ?ess" by simp
          from add_existing [OF iv3 kl nm len new [folded nn] ino3 sl run4] show ?thesis
            using nf2 k by (auto simp: like_def)
        qed
      qed
    qed
  qed
qed

section \<open>Create\<close>

lemma like_enabled: "like a b \<Longrightarrow> s_journal_enabled b = s_journal_enabled a"
  by (simp add: like_def geo_view_def)

lemma no_journal:
  assumes "\<not> s_journal_enabled st"
  shows "cryexts_journal_begin st = (Inr (), st)" "cryexts_journal_commit st = (Inr (), journal_unlock st)"
    "cryexts_journal_abort st = journal_unlock st"
  using assms by (simp_all add: cryexts_journal_begin_def cryexts_journal_commit_def cryexts_journal_abort_def)

text \<open>What gives the lock of the journal back and forgets a cached orphan link changes no buffer.\<close>

lemma unlock_within: "within {} st (journal_unlock st)"
  by (simp add: journal_unlock_def within_def cache_within_def geo_view_def csum_view_def)

lemma dir_inv_run:
  assumes iv: "dir_inv i st ess" and r: "run_to W {} st st'" and w: "W \<inter> block_space st = {}"
  shows "dir_inv i st' ess"
proof -
  note k = run_toD [OF r]
  have sh: "dir_shape i" using iv by (simp add: dir_inv_def dir_view_def)
  have n: "near_dir (length ess) i i" using sh by (simp add: near_dir_def)
  have wi: "within (set (bitmaps st) \<union> side st \<union> W) st st'" using r by (simp add: run_to_def)
  show ?thesis
    by (rule near_dir_inv [OF iv n refl k(2) _ k(8) wi]) (use k(7) w block_used_space in auto)
qed

lemma quiet_run:
  assumes ok: "disk_ok st" and w: "within {} st st'"
  shows "run_to {} {} st st'"
proof -
  note s = within_sets [OF ok w]
  have "block_space st' = block_space st"
    using geo_valid(1) [OF within_geo [OF w]] ok by (simp add: disk_ok_def block_space_def)
  then have "took {} st st'" using s within_geo [OF w] by (simp add: took_def)
  then show ?thesis using within_mono [OF w] by (simp add: run_to_def)
qed

lemma dir_ok_quiet:
  assumes d: "dir_ok i st" and w: "within {} st st'"
  shows "dir_ok i st'" "dir_map i st' = dir_map i st" "inode_used st' = inode_used st"
proof -
  obtain ess where e: "dir_inv i st ess" "dir_map i st = map_of (names ess)" using dir_okE [OF d] by blast
  have ok: "disk_ok st" using e(1) dir_placeD(1) by (auto simp: dir_inv_def)
  have iv: "dir_inv i st' ess" using dir_inv_run [OF e(1) quiet_run [OF ok w]] by simp
  then show "dir_ok i st'" "dir_map i st' = dir_map i st"
    using dir_ok_inv dir_map_view e(2) by (auto simp: dir_inv_def)
  show "inode_used st' = inode_used st" using within_sets(2) [OF ok w] by simp
qed


section \<open>A sample\<close>

text \<open>The sample file system without a journal and without directory indexes, with the first
  block of the root directory written.\<close>

definition plain_fs :: fs where
  "plain_fs = upd_disk_sb (\<lambda>sb. sb\<lparr>sb_features_incompat := 0x880\<rparr>) (file_fs\<lparr>s_journal_enabled := False\<rparr>)"

definition root_dir :: inode where
  "root_dir = dir_inode\<lparr>i_private := Some (zero_info\<lparr>ii_direct := (replicate CRYEXTS_DIRECT_BLOCKS 0)[0 := 20]\<rparr>)\<rparr>"

definition root_fs :: fs where "root_fs = set_bdata 20 (dots_block 1 1) plain_fs"

definition sample_kernel :: kernel where
  "sample_kernel = \<lparr>k_cipher = (\<lambda>_ _ b. b), k_crypt = sample_crypt, k_uid = 7, k_gid = 8,
     k_write_and_wait = retE ()\<rparr>"

lemma plain_sets:
  "alloc_ok plain_fs" "block_space plain_fs = block_space file_fs" "bitmaps plain_fs = [1, 2]"
  "side plain_fs = side file_fs" "block_used plain_fs = block_used file_fs"
  "inode_space plain_fs = inode_space file_fs" "inode_block plain_fs = inode_block file_fs"
  "\<not> faulty plain_fs" "\<not> cryexts_dir_index_feature_enabled plain_fs" "cryexts_max_inodes plain_fs = 224"
proof -
  have g: "has_flag 0x880 CRYEXTS_FEATURE_INCOMPAT_BLOCK_GROUPS = cryexts_has_block_groups file_fs"
    by (simp add: file_sel has_flag_def const_simps)
  note f = features_sets [OF g, where j = False, folded plain_fs_def]
  show "alloc_ok plain_fs" "block_space plain_fs = block_space file_fs" "bitmaps plain_fs = [1, 2]"
    "side plain_fs = side file_fs" "block_used plain_fs = block_used file_fs"
    "inode_space plain_fs = inode_space file_fs" "inode_block plain_fs = inode_block file_fs"
    using f file_fs_ok by (simp_all add: file_sel)
  show "\<not> faulty plain_fs" "\<not> cryexts_dir_index_feature_enabled plain_fs" "cryexts_max_inodes plain_fs = 224"
    by (simp_all add: plain_fs_def file_fs_def sample_fs_def sample_sb_def faulty_def
        upd_disk_sb_def cryexts_dir_index_feature_enabled_def has_flag_def const_simps cryexts_max_inodes_def
        cryexts_inodes_count_def)
qed

lemma sample_inode_block:
  assumes "ino \<in> inode_space file_fs"
  shows "inode_block file_fs ino \<notin> block_space file_fs"
proof -
  have "1 \<le> unat ino" "unat ino \<le> 224"
    using assms by (simp_all add: inode_space_def file_fs_def sample_fs_def sample_sb_def CRYEXTS_ROOT_INO_def
        cryexts_inodes_count_def word_le_nat_alt)
  then have "unat (ino - 1) < 224" by (simp add: unat_sub_if')
  moreover have eq: "inode_block file_fs ino = 4 + (ino - 1) div 14"
    by (simp add: inode_block_def file_sel(1))
      (simp add: file_fs_def sample_fs_def cryexts_inodes_per_block_def const_simps BLOCK_SIZE_def CRYEXTS_INODE_SIZE_def)
  ultimately have "unat (inode_block file_fs ino) < 20"
    unfolding eq by (simp add: unat_word_ariths unat_div)
  then show ?thesis
    by (simp add: block_space_def cryexts_data_block_valid_def file_sel word_le_nat_alt not_le)
qed

lemma root_sample:
  "dir_ok root_dir root_fs" "dir_map root_dir root_fs = [dot \<mapsto> 1, dotdot \<mapsto> 1]"
  "dir_entries root_dir root_fs = dots_entries 1 1" "\<not> faulty root_fs" "\<not> s_journal_enabled root_fs"
  "inode_tables root_fs \<inter> block_space root_fs = {}"
proof -
  have d: "dir_shape root_dir" "i_size root_dir = of_nat BLOCK_SIZE" "i_ino root_dir = 1"
    "ii_inode_flags (info root_dir) = 0"
    by (simp_all add: dir_shape_def root_dir_def dir_inode_def info_def zero_info_def BLOCK_SIZE_def)
  have f: "dblock root_dir 0 = 20" "idx root_dir = 0"
    by (simp_all add: dblock_def idx_def root_dir_def dir_inode_def info_def zero_info_def const_simps)
  have fd: "dblock dir_inode 0 = 20" by (simp add: dblock_def dir_inode_def info_def const_simps)
  have one: "(1 :: u64) \<in> inode_space file_fs"
    by (simp add: inode_space_def file_fs_def sample_fs_def sample_sb_def CRYEXTS_ROOT_INO_def cryexts_inodes_count_def)
  have pl: "dir_place root_dir plain_fs 1"
    using dir_sample(4) plain_sets dir_sets f fd d(3) one sample_inode_block [OF one]
    by (auto simp: dir_place_def disk_ok_def)
  have w: "within {20} plain_fs root_fs" unfolding root_fs_def by (rule within_set) simp_all
  have "set (bitmaps plain_fs) \<inter> {20} = {}" by (simp add: plain_sets)
  note q = dir_place_within [OF pl same_dir_refl w this]
  show nf: "\<not> faulty root_fs" using within_faulty [OF w] plain_sets(8) by simp
  have nx: "\<not> cryexts_dir_index_feature_enabled root_fs" using within_feature [OF w] plain_sets(9) by simp
  have ino: "ino_ok root_fs 1" using within_max [OF w] plain_sets(10) by (simp add: ino_ok_def CRYEXTS_ROOT_INO_def)
  have bd: "bdata root_fs 20 = dots_block 1 1" by (simp add: root_fs_def bdata_def set_bdata_def)
  have v: "dir_view root_dir root_fs (dots_entries 1 1)"
    using d dots_seg [OF ino ino] bd f by (simp add: dots_entries_def dir_view_def const_simps inj_on_def del: seg.simps)
  have nm: "named (dots_entries 1 1)" by (simp add: named_def dot_entry_def dots_entries_def)
  have names: "names (dots_entries 1 1) = [(dot, 1), (dotdot, 1)]"
    by (simp add: names_def dot_entry_def dots_entries_def)
  have "dir_place root_dir root_fs (length (dots_entries 1 1))" using q(1) by (simp add: dots_entries_def)
  then have iv: "dir_inv root_dir root_fs (dots_entries 1 1)"
    using v nm names nx by (simp add: dir_inv_def index_place_def index_sound_def dot_def dotdot_def d(4) has_flag_def)
  show "dir_ok root_dir root_fs" by (rule dir_ok_inv [OF iv])
  show "dir_map root_dir root_fs = [dot \<mapsto> 1, dotdot \<mapsto> 1]"
    using dir_map_view [OF v] unfolding names by (auto simp: dot_def dotdot_def fun_eq_iff)
  show "dir_entries root_dir root_fs = dots_entries 1 1" by (rule dir_entries_view [OF v])
  have lk: "like plain_fs root_fs" by (rule within_like [OF w])
  show "\<not> s_journal_enabled root_fs"
    using like_enabled [OF lk] by (simp add: plain_fs_def upd_disk_sb_def)
  have ok: "disk_ok plain_fs" using dir_placeD(1) [OF pl] .
  note ws = within_sets [OF ok w]
  have b: "set (bitmaps plain_fs) \<inter> {20} = {}" by (simp add: plain_sets)
  have sp: "block_space root_fs = block_space plain_fs"
    using geo_valid(1) [OF within_geo [OF w] plain_sets(1)] by (simp add: block_space_def)
  have "inode_block root_fs x \<notin> block_space plain_fs" if "x \<in> inode_space plain_fs" for x
    using ws(5) [OF b that] sample_inode_block that plain_sets(2,6,7) by simp
  then show "inode_tables root_fs \<inter> block_space root_fs = {}"
    using ws(3) [OF b] sp by (auto simp: inode_tables_def)
qed

lemma root_alloc: "\<exists>st1. cryexts_alloc_inode_goal g root_fs = (Inr 2, st1)"
proof -
  have f: "\<not> cryexts_has_block_groups root_fs" "s_inode_bitmap_bh root_fs = Some 2" "bdata root_fs 2 = zero_block"
    "cryexts_inodes_count root_fs = 224"
    by (simp_all add: root_fs_def plain_fs_def file_fs_def set_bdata_def bdata_def upd_disk_sb_def sample_fs_def
        sample_sb_def cryexts_has_block_groups_def has_flag_def const_simps cryexts_inodes_count_def)
  have "cryexts_bitmap_test zero_block 1 = False"
    by (simp add: cryexts_bitmap_test_def zero_block_def BLOCK_SIZE_def has_flag_def)
  moreover have "[1..<224] = (1 :: nat) # [2..<224]" by (simp add: upt_conv_Cons numeral_2_eq_2 del: upt_eq_Cons_conv)
  ultimately have "first_free zero_block (\<lambda>_. False) [1..<224] = Some 1"
    by (simp only: first_free_def List.find.simps of_nat_1 simp_thms if_True option.map)
  then show ?thesis
    using f by (simp add: cryexts_alloc_inode_goal_def cryexts_alloc_inode_legacy_def Let_def bindE_def CRYEXTS_ROOT_INO_def)
qed


end
