(* ===== verification/Mount.thy ===== *)
theory Mount
  imports Super CryptoSafe DirOps Checksums
begin

text \<open>
  Mounting as a whole (\<open>cryexts_fill_super\<close>): the superblock, the bitmaps, the key and the policies, the
  recovery of the journal, the release of the orphans, the root directory.  The state is what
  \<open>Super\<close> has of the file system, with the part of \<open>struct cryexts_sb_info\<close> for encryption and the
  cache of the inodes.

  A mount that fails unmounts again, as the code does.  When the superblock itself could not be read
  there is nothing to unmount: unless the mount is read-only the code then reads the version through a
  null pointer.  This is the result \<open>None\<close>.
\<close>

type_synonym mount_state = "crypt_info \<times> icache \<times> fs"
type_synonym 'a mact = "(mount_state, 'a) act"

definition mount_fs :: "(fs, 'a) act \<Rightarrow> 'a mact" where
  "mount_fs m = (\<lambda>(c, ic, st). case m st of (r, st') \<Rightarrow> (r, (c, ic, st')))"

definition mount_crypt :: "'a cact \<Rightarrow> 'a mact" where
  "mount_crypt m = (\<lambda>(c, ic, st). case m (c, st) of (r, (c', st')) \<Rightarrow> (r, (c', ic, st')))"

definition mount_vfs :: "(crypt_info \<Rightarrow> 'a vact) \<Rightarrow> 'a mact" where
  "mount_vfs m = (\<lambda>(c, ic, st). case m c (ic, st) of (r, (ic', st')) \<Rightarrow> (r, (c, ic', st')))"

section \<open>Orphans\<close>

text \<open>
  The inode that the walk reads is used by nobody else, so that its last \<open>iput\<close> evicts it.  \<open>n\<close> counts
  \<open>guard\<close> down; it is a 32-bit number, which the number of inodes is taken to fit.
\<close>

definition release_orphan :: "u64 \<Rightarrow> unit vact" where
  "release_orphan cur = finallyE (runE [
     on_inode cur cryexts_release_inode_storage, on_fs (cryexts_orphan_clear cur),
     on_inode cur clear_nlink, on_fs (cryexts_free_inode cur)]) (cryexts_evict_inode cur)"

fun orphan_loop :: "crypt_info \<Rightarrow> nat \<Rightarrow> u64 \<Rightarrow> unit vact" where
  "orphan_loop c 0 cur = retE ()"
| "orphan_loop c (Suc n) cur =
     (if cur = 0 then retE ()
      else bindE (cryexts_iget c cur) (\<lambda>_ s.
        let i = cached s cur; next = (if i_private i = None then 0 else cached_next_orphan i (snd s)) in
        bindE (release_orphan cur) (\<lambda>_. orphan_loop c n next) s))"

definition cryexts_orphan_cleanup :: "crypt_info \<Rightarrow> unit vact" where
  "cryexts_orphan_cleanup c = (\<lambda>(ic, st).
     if \<not> cryexts_orphan_feature_enabled st then (Inr (), (ic, st))
     else bindE (orphan_loop c (unat (cryexts_inodes_count st)) (sb_orphan_head (s_disk_sb st)))
       (\<lambda>_. on_fs (modE (\<lambda>st.
          if sb_orphan_head (s_disk_sb st) \<noteq> 0
          then cryexts_mark_super_dirty (upd_disk_sb (\<lambda>sb. sb\<lparr>sb_orphan_head := 0\<rparr>) st)
          else st))) (ic, st))"

definition mount_orphans :: "crypt_info \<Rightarrow> unit vact" where
  "mount_orphans c =
     whenE (\<lambda>(ic, st). \<not> s_rdonly st \<and> cryexts_orphan_feature_enabled st \<and> sb_orphan_head (s_disk_sb st) \<noteq> 0)
       (runE [
         whenE (\<lambda>(ic, st). s_journal_enabled st) (on_fs cryexts_journal_begin),
         on_errE (cryexts_orphan_cleanup c) (\<lambda>_ (ic, st).
           (ic, if s_journal_enabled st then cryexts_journal_abort st else st)),
         whenE (\<lambda>(ic, st). s_journal_enabled st) (on_fs cryexts_journal_commit)])"

section \<open>The root directory\<close>

text \<open>\<open>d_make_root\<close> gives the inode back when it has no memory for the dentry.\<close>

definition mount_root :: "crypt_info \<Rightarrow> unit vact" where
  "mount_root c =
     bindE (cryexts_iget c CRYEXTS_ROOT_INO) (\<lambda>_.
       on_errE (runE [
           checkE (cached_is_dir CRYEXTS_ROOT_INO) EINVAL,
           on_inode CRYEXTS_ROOT_INO cryexts_validate_dir_block,
           on_fs kmalloc])
         (\<lambda>_. cryexts_evict_inode CRYEXTS_ROOT_INO))"

section \<open>The mount\<close>

text \<open>Block 0 is read: the superblock is what its bytes from 1024 on say.\<close>

definition read_super :: "fs \<Rightarrow> fs" where
  "read_super st = set_bdata 0 (d_cache st 0) st"

text \<open>The fields of \<open>struct cryexts_sb_info\<close> for encryption.\<close>

definition load_crypt :: "fs \<Rightarrow> crypt_info" where
  "load_crypt st = (let sb = s_disk_sb st in
     \<lparr>c_encrypted = has_flag (sb_flags sb) CRYEXTS_SB_FLAG_ENCRYPTED, c_key_verifier = sb_key_hash sb,
      c_encryption_flags = sb_encryption_flags sb, c_encryption_kdf = sb_encryption_kdf sb,
      c_encryption_alg = sb_encryption_alg sb, c_salt = sb_salt sb,
      c_derived_key = replicate CRYEXTS_DERIVED_KEY_LEN 0, c_derived_key_len = 0,
      c_policies = None, c_skcipher = None\<rparr>)"

definition mount_steps :: "bytes option \<Rightarrow> bytes option \<Rightarrow> unit mact" where
  "mount_steps mount_key options = runE [
     mount_fs mount_load,
     mount_crypt (cryexts_set_encryption_key mount_key options),
     mount_crypt cryexts_load_policy_table,
     mount_fs cryexts_journal_replay,
     mount_vfs mount_orphans,
     mount_fs (modE mount_note),
     mount_vfs mount_root]"

text \<open>Unmounting wipes the key.\<close>

definition unmount :: "mount_state \<Rightarrow> mount_state option" where
  "unmount = (\<lambda>(c, ic, st). map_option (\<lambda>st. (
     (cryexts_unload_policy_table c)\<lparr>c_skcipher := None,
        c_derived_key := replicate CRYEXTS_DERIVED_KEY_LEN 0, c_derived_key_len := 0\<rparr>, ic, st))
     (cryexts_put_super st))"

definition cryexts_fill_super ::
    "bytes option \<Rightarrow> bytes option \<Rightarrow> fs \<Rightarrow> (unit res \<times> mount_state) option" where
  "cryexts_fill_super mount_key options st =
     (case bindE (io_step EINVAL) (\<lambda>_. kmalloc) st of
        (Inl e, st) \<Rightarrow> Some (Inl e, (load_crypt st, \<lambda>_. None, st))
      | (Inr _, st) \<Rightarrow>
          (case sb_bread 0 st of
             (Inl e, st) \<Rightarrow>
               if s_rdonly st then Some (Inl EIO, (load_crypt st, \<lambda>_. None, st)) else None
           | (Inr _, st) \<Rightarrow>
               let st = read_super st in
               (case mount_steps mount_key options (load_crypt st, (\<lambda>_. None), st) of
                  (Inl e, s) \<Rightarrow> map_option (Pair (Inl e)) (unmount s)
                | (Inr _, s) \<Rightarrow> Some (Inr (), s))))"

section \<open>A refused superblock\<close>

text \<open>What the bytes of block 0 on the medium say.\<close>

definition super_on :: "bytes \<Rightarrow> cryexts_super_block" where
  "super_on buf = dec_super (get_bytes buf CRYEXTS_SUPER_OFFSET SUPER_BYTES)"

definition super_refused :: "fs \<Rightarrow> errno \<Rightarrow> bool" where
  "super_refused st e \<longleftrightarrow>
     (let s = load_sbi (st\<lparr>s_disk_sb := super_on (d_cache st 0)\<rparr>) in
      cryexts_validate_super s = Inl e \<or>
      cryexts_validate_super s = Inr () \<and> cryexts_verify_super_checksum s = Inl e)"

definition seal_super :: "cryexts_super_block \<Rightarrow> cryexts_super_block" where
  "seal_super sb =
     (if cryexts_metadata_csum_enabled_disk sb then set_super_csum (cryexts_super_expected_checksum sb) sb else sb)"

lemma update_super: "cryexts_update_super_checksum st = upd_disk_sb seal_super st"
  by (simp add: cryexts_update_super_checksum_def seal_super_def upd_disk_sb_def)

lemma seal_super_rest:
  assumes "wf_super sb"
  obtains r where "seal_super sb = sb\<lparr>sb_reserved := r\<rparr>" "length r = 96"
proof (cases "cryexts_metadata_csum_enabled_disk sb")
  case True
  then show ?thesis
    using assms by (intro that [of "put_bytes 0 (le32 (cryexts_super_expected_checksum sb)) (sb_reserved sb)"])
      (simp_all add: seal_super_def set_super_csum_def wf_super_def)
next
  case False
  then show ?thesis using assms by (intro that [of "sb_reserved sb"]) (simp_all add: seal_super_def wf_super_def)
qed

lemma sync_super:
  assumes "no_faults st" "0 \<in> set (d_dirty st)"
  shows "d_media (ignoreE (sync_dirty_buffer 0) st) 0 = bdata st 0"
  using assms by (simp add: sync_dirty_buffer_def io_step_def no_faults_def ignoreE_def bdata_def)

lemma super_on_bdata:
  assumes "wf_super (s_disk_sb st)" "length (d_cache st 0) = BLOCK_SIZE"
  shows "super_on (bdata st 0) = s_disk_sb st"
  using assms super_fits by (simp add: super_on_def bdata_def length_enc_super dec_enc_super)

lemma put_super_seals:
  assumes wf: "wf_super (s_disk_sb st)" "length (d_cache st 0) = BLOCK_SIZE" and nf: "no_faults st"
    and rw: "\<not> s_rdonly st" "CRYEXTS_VERSION_V4 \<le> sb_version (s_disk_sb st)" "\<not> (s_journal_v3 st \<and> s_journal_ring st)"
  shows "\<exists>st' rest. cryexts_put_super st = Some st' \<and>
     cryexts_verify_super_checksum (st'\<lparr>s_disk_sb := super_on (d_media st' 0)\<rparr>) = Inr () \<and>
     super_on (d_media st' 0) = (s_disk_sb st)\<lparr>sb_state := sb_state (s_disk_sb st) OR CRYEXTS_FS_STATE_CLEAN,
       sb_last_write_time := d_now st, sb_reserved := rest\<rparr>"
proof -
  let ?sb = "(s_disk_sb st)\<lparr>sb_state := sb_state (s_disk_sb st) OR CRYEXTS_FS_STATE_CLEAN\<rparr>"
  have wf1: "wf_super ?sb" using wf(1) by (simp add: wf_super_def)
  obtain r where r: "seal_super ?sb = ?sb\<lparr>sb_reserved := r\<rparr>" "length r = 96" by (rule seal_super_rest [OF wf1])
  let ?sb2 = "?sb\<lparr>sb_reserved := r, sb_last_write_time := d_now st\<rparr>"
  have wf2: "wf_super ?sb2" using wf1 r(2) by (simp add: wf_super_def)
  obtain r2 where r2: "seal_super ?sb2 = ?sb2\<lparr>sb_reserved := r2\<rparr>" "length r2 = 96" by (rule seal_super_rest [OF wf2])
  define a where "a = cryexts_set_state CRYEXTS_FS_STATE_CLEAN 0 st"
  define b where "b = upd_disk_sb (\<lambda>sb. sb\<lparr>sb_last_write_time := d_now a\<rparr>) a"
  define c where "c = mark_buffer_dirty 0 (cryexts_update_super_checksum b)"
  have a: "s_disk_sb a = ?sb\<lparr>sb_reserved := r\<rparr>" "d_cache a = d_cache st" "d_now a = d_now st" "d_fault a = d_fault st"
    using r(1) by (simp_all add: a_def cryexts_set_state_def update_super upd_disk_sb_def mark_buffer_dirty_def)
  have b: "s_disk_sb b = ?sb2" "d_cache b = d_cache st" "d_fault b = d_fault st"
    using a by (simp_all add: b_def upd_disk_sb_def)
  have c: "s_disk_sb c = ?sb2\<lparr>sb_reserved := r2\<rparr>" "d_cache c = d_cache st" "0 \<in> set (d_dirty c)" "no_faults c"
    using r2(1) nf b by (simp_all add: c_def update_super upd_disk_sb_def mark_buffer_dirty_def no_faults_def)
  have ps: "put_super_state st = ignoreE (sync_dirty_buffer 0) c"
    using rw(1,2) unfolding put_super_state_def Let_def c_def b_def a_def by (simp add: not_less)
  let ?st = "cryexts_release_group_desc_table (cryexts_unload_bitmaps (put_super_state st))"
  have put: "cryexts_put_super st = Some ?st"
  proof -
    have "(\<not> s_rdonly st \<and> s_journal_v3 st \<and> s_journal_ring st) = False" using rw(3) by blast
    then show ?thesis unfolding cryexts_put_super_def by (simp only: if_False option.map)
  qed
  have wf3: "wf_super (s_disk_sb c)" using wf2 r2(2) by (simp add: c(1) wf_super_def)
  have "d_media ?st 0 = bdata c 0"
    using sync_super [OF c(4,3)] by (simp add: ps cryexts_release_group_desc_table_def cryexts_unload_bitmaps_def)
  then have m: "super_on (d_media ?st 0) = s_disk_sb c" using super_on_bdata [OF wf3] wf(2) c(2) by simp
  have "cryexts_verify_super_checksum c = Inr ()"
    using verify_update_super [of b] wf2 b(1) by (simp add: cryexts_verify_super_checksum_def mark_buffer_dirty_def c_def)
  then have "cryexts_verify_super_checksum (?st\<lparr>s_disk_sb := super_on (d_media ?st 0)\<rparr>) = Inr ()"
    by (simp add: m cryexts_verify_super_checksum_def)
  moreover have "s_disk_sb c = (s_disk_sb st)\<lparr>sb_state := sb_state (s_disk_sb st) OR CRYEXTS_FS_STATE_CLEAN,
       sb_last_write_time := d_now st, sb_reserved := r2\<rparr>" unfolding c(1) by simp
  ultimately show ?thesis using put m by metis
qed

lemma verify_super_tick: "cryexts_verify_super_checksum (st\<lparr>d_tick := n\<rparr>) = cryexts_verify_super_checksum st"
  by (simp add: cryexts_verify_super_checksum_def)

lemma validate_super_tick: "cryexts_validate_super (st\<lparr>d_tick := n\<rparr>) = cryexts_validate_super st"
proof -
  have "super_geometry_ok (st\<lparr>d_tick := n\<rparr>) = super_geometry_ok st" "super_flags_ok (st\<lparr>d_tick := n\<rparr>) = super_flags_ok st"
    "super_v4_ok (st\<lparr>d_tick := n\<rparr>) = super_v4_ok st"
    by (simp_all add: super_geometry_ok_def super_flags_ok_def super_v4_ok_def cryexts_max_inodes_def
        cryexts_inodes_count_def cryexts_has_block_groups_def cryexts_blocks_count_def)
  moreover have "s_disk_sb (st\<lparr>d_tick := n\<rparr>) = s_disk_sb st" by simp
  ultimately show ?thesis by (simp only: cryexts_validate_super_def)
qed


text \<open>The sample superblock with another magic number, on the medium as in the cache.\<close>

definition foreign_fs :: fs where
  "foreign_fs = sample_fs\<lparr>d_cache := (\<lambda>_. zero_block)(0 :=
     put_bytes CRYEXTS_SUPER_OFFSET (enc_super (sample_sb\<lparr>sb_magic := 0x1234\<rparr>)) zero_block)\<rparr>"


end
